(* ===== verification/Prelude.thy ===== *)
theory Prelude
  imports
    Complex_Main
    "HOL-Library.AList"
    "HOL-Library.Char_ord"
    "HOL-Library.List_Lexorder"
    "HOL-Library.Product_Lexorder"
    "HOL-Library.Word"
begin

text \<open>
  Shared vocabulary of the development: the error values of the code (\<open>httpx.DomainError\<close>
  and plain errors), the result-and-state type of an operation that may fail, its
  combinators (the \<open>if err != nil\<close> pattern of Go) and the generic lemmas on them. Every
  component theory imports this one; the parts of Go's library are in the theories named \<open>Go...\<close>.
\<close>

named_theorems act_simps \<open>evaluation of the operation combinators\<close>
named_theorems keeps_intros \<open>an operation leaves a view of the state unchanged\<close>
named_theorems preserves_intros \<open>an operation preserves a predicate of the state\<close>

section \<open>Errors\<close>

text \<open>
  \<open>httpx.DomainError\<close> carries a status, a machine-readable code, a message, optional
  details (\<open>map[string]any\<close>, here the values the code puts there) and optional headers.
  Every other Go error is an \<open>OtherError\<close> with its text.
\<close>

datatype detail = DStr string | DStrs "string list" | DInt int

record domain_error =
  de_Status :: nat
  de_Code :: string
  de_Message :: string
  de_Details :: "(string \<times> detail) list"
  de_Headers :: "(string \<times> string) list"

datatype go_error = DomainError domain_error | OtherError string

definition httpx_New :: "nat \<Rightarrow> string \<Rightarrow> string \<Rightarrow> domain_error" where
  "httpx_New status code message =
     \<lparr>de_Status = status, de_Code = code, de_Message = message, de_Details = [], de_Headers = []\<rparr>"

definition WithDetails :: "domain_error \<Rightarrow> (string \<times> detail) list \<Rightarrow> domain_error" where
  "WithDetails e d = e\<lparr>de_Details := d\<rparr>"

definition WithHeader :: "domain_error \<Rightarrow> string \<Rightarrow> string \<Rightarrow> domain_error" where
  "WithHeader e key val = e\<lparr>de_Headers := [(key, val)]\<rparr>"

definition error_text :: "domain_error \<Rightarrow> string" where
  "error_text e = (if de_Message e \<noteq> [] then de_Message e else de_Code e)"

definition validation_error :: "string \<Rightarrow> string \<Rightarrow> go_error" where
  "validation_error field issue =
     DomainError (WithDetails (httpx_New 422 ''validation_failed'' ''validation failed'')
       [(''field'', DStr field), (''issue'', DStr issue)])"

definition invalid_cursor_error :: go_error where
  "invalid_cursor_error = validation_error ''cursor'' ''malformed pagination cursor''"

definition not_found_error :: "string \<Rightarrow> go_error" where
  "not_found_error message = DomainError (httpx_New 404 ''not_found'' message)"

fun error_status :: "go_error \<Rightarrow> nat" where
  "error_status (DomainError e) = de_Status e"
| "error_status (OtherError _) = 500"

fun error_code :: "go_error \<Rightarrow> string" where
  "error_code (DomainError e) = de_Code e"
| "error_code (OtherError _) = ''internal_error''"

lemma validation_error_status [simp]: "error_status (validation_error f i) = 422"
  by (simp add: validation_error_def WithDetails_def httpx_New_def)

lemma not_found_error_status [simp]: "error_status (not_found_error m) = 404"
  by (simp add: not_found_error_def httpx_New_def)

section \<open>Operations: a result or an error, and the next state\<close>

type_synonym ('s, 'a) act = "'s \<Rightarrow> (go_error + 'a) \<times> 's"

text \<open>
  \<open>ok x\<close> is \<open>return x, nil\<close>; \<open>fail e\<close> is \<open>return zero, e\<close>; \<open>attempt m k\<close> is
  \<open>x, err := m; if err != nil { return err }\<close> followed by \<open>k x\<close>; \<open>call m k\<close> calls an
  operation that has no error result (a clock, an id minter); \<open>check v k\<close> is
  \<open>if err := v; err != nil { return err }\<close> for a validation, whose \<open>nil\<close> is \<open>None\<close>;
  \<open>discard m k\<close> is \<open>_ = m\<close>: the effect is kept and the error dropped.
\<close>

definition ok :: "'a \<Rightarrow> ('s, 'a) act" where
  "ok x = (\<lambda>s. (Inr x, s))"

definition fail :: "go_error \<Rightarrow> ('s, 'a) act" where
  "fail e = (\<lambda>s. (Inl e, s))"

definition attempt :: "('s, 'a) act \<Rightarrow> ('a \<Rightarrow> ('s, 'b) act) \<Rightarrow> ('s, 'b) act" where
  "attempt m k = (\<lambda>s. case m s of (Inl e, s') \<Rightarrow> (Inl e, s') | (Inr x, s') \<Rightarrow> k x s')"

definition call :: "('s \<Rightarrow> 'a \<times> 's) \<Rightarrow> ('a \<Rightarrow> ('s, 'b) act) \<Rightarrow> ('s, 'b) act" where
  "call m k = (\<lambda>s. case m s of (x, s') \<Rightarrow> k x s')"

definition check :: "go_error option \<Rightarrow> ('s, 'b) act \<Rightarrow> ('s, 'b) act" where
  "check v k = (case v of None \<Rightarrow> k | Some e \<Rightarrow> fail e)"

definition lift :: "(go_error + 'a) \<Rightarrow> ('s, 'a) act" where
  "lift r = (\<lambda>s. (r, s))"

definition discard :: "('s, 'a) act \<Rightarrow> ('s, 'b) act \<Rightarrow> ('s, 'b) act" where
  "discard m k = (\<lambda>s. k (snd (m s)))"

definition catching :: "('s, 'a) act \<Rightarrow> ((go_error + 'a) \<Rightarrow> ('s, 'b) act) \<Rightarrow> ('s, 'b) act" where
  "catching m k = (\<lambda>s. case m s of (r, s') \<Rightarrow> k r s')"

fun for_each :: "('a \<Rightarrow> ('s, unit) act) \<Rightarrow> 'a list \<Rightarrow> ('s, unit) act" where
  "for_each f [] = ok ()"
| "for_each f (x # xs) = attempt (f x) (\<lambda>_. for_each f xs)"

fun map_each :: "('a \<Rightarrow> ('s, 'b) act) \<Rightarrow> 'a list \<Rightarrow> ('s, 'b list) act" where
  "map_each f [] = ok []"
| "map_each f (x # xs) = attempt (f x) (\<lambda>y. attempt (map_each f xs) (\<lambda>ys. ok (y # ys)))"

lemma ok_apply [simp, act_simps]: "ok x s = (Inr x, s)"
  by (simp add: ok_def)

lemma fail_apply [simp, act_simps]: "fail e s = (Inl e, s)"
  by (simp add: fail_def)

lemma lift_apply [simp, act_simps]: "lift r s = (r, s)"
  by (simp add: lift_def)

lemma attempt_apply [act_simps]:
  "attempt m k s = (case m s of (Inl e, s') \<Rightarrow> (Inl e, s') | (Inr x, s') \<Rightarrow> k x s')"
  by (simp add: attempt_def)

lemma call_apply [act_simps]: "call m k s = (case m s of (x, s') \<Rightarrow> k x s')"
  by (simp add: call_def)

lemma discard_apply [act_simps]: "discard m k s = k (snd (m s))"
  by (simp add: discard_def)

lemma catching_apply [act_simps]: "catching m k s = (case m s of (r, s') \<Rightarrow> k r s')"
  by (simp add: catching_def)

lemma check_None [simp, act_simps]: "check None k = k"
  by (simp add: check_def)

lemma check_Some [simp, act_simps]: "check (Some e) k = fail e"
  by (simp add: check_def)

lemma attempt_Inr_iff:
  "attempt m k s = (Inr y, t) \<longleftrightarrow> (\<exists>x s'. m s = (Inr x, s') \<and> k x s' = (Inr y, t))"
  by (auto simp: attempt_def split: prod.splits sum.splits)

lemma attempt_Inr_E:
  assumes "attempt m k s = (Inr y, t)"
  obtains x s' where "m s = (Inr x, s')" and "k x s' = (Inr y, t)"
  using assms by (auto simp: attempt_Inr_iff)

lemma check_Inr_iff:
  "check v k s = (Inr y, t) \<longleftrightarrow> v = None \<and> k s = (Inr y, t)"
  by (cases v) auto

lemma lift_Inr_iff: "lift r s = (Inr y, t) \<longleftrightarrow> r = Inr y \<and> t = s"
  by auto

lemma attempt_ok [simp, act_simps]: "attempt (ok x) k = k x"
  by (simp add: attempt_def ok_def)

lemma attempt_fail [simp, act_simps]: "attempt (fail e) k = fail e"
  by (simp add: attempt_def fail_def)

lemma attempt_assoc: "attempt (attempt m k) l = attempt m (\<lambda>x. attempt (k x) l)"
  by (rule ext) (simp add: attempt_def split: prod.splits sum.splits)

text \<open>
  \<open>zoom get upd m\<close> runs an operation of a part of the state (a repository, a client) on the
  whole: \<open>get\<close> and \<open>upd\<close> are the field's selector and update functions.
\<close>

definition zoom :: "('w \<Rightarrow> 's) \<Rightarrow> (('s \<Rightarrow> 's) \<Rightarrow> 'w \<Rightarrow> 'w) \<Rightarrow> ('s \<Rightarrow> 'r \<times> 's) \<Rightarrow> 'w \<Rightarrow> 'r \<times> 'w" where
  "zoom get upd m = (\<lambda>w. case m (get w) of (r, s') \<Rightarrow> (r, upd (\<lambda>_. s') w))"

lemma zoom_apply [act_simps]: "zoom get upd m w = (case m (get w) of (r, s') \<Rightarrow> (r, upd (\<lambda>_. s') w))"
  by (simp add: zoom_def)

lemma fst_zoom [simp]: "fst (zoom get upd m w) = fst (m (get w))"
  by (simp add: zoom_def split: prod.split)

lemma snd_zoom [simp]: "snd (zoom get upd m w) = upd (\<lambda>_. snd (m (get w))) w"
  by (simp add: zoom_def split: prod.split)

subsection \<open>Frames and preserved predicates\<close>

text \<open>
  \<open>keeps view m\<close>: running \<open>m\<close> leaves \<open>view\<close> of the state as it was, whatever the
  result. \<open>preserves P m\<close>: \<open>P\<close> still holds after \<open>m\<close> if it held before.
\<close>

definition keeps :: "('s \<Rightarrow> 'v) \<Rightarrow> ('s \<Rightarrow> 'r \<times> 's) \<Rightarrow> bool" where
  "keeps view m \<longleftrightarrow> (\<forall>s. view (snd (m s)) = view s)"

definition preserves :: "('s \<Rightarrow> bool) \<Rightarrow> ('s \<Rightarrow> 'r \<times> 's) \<Rightarrow> bool" where
  "preserves P m \<longleftrightarrow> (\<forall>s. P s \<longrightarrow> P (snd (m s)))"

lemma keepsI: "(\<And>s. view (snd (m s)) = view s) \<Longrightarrow> keeps view m"
  by (simp add: keeps_def)

lemma keepsD: "keeps view m \<Longrightarrow> view (snd (m s)) = view s"
  by (simp add: keeps_def)

lemma keeps_result: "keeps view m \<Longrightarrow> m s = (r, t) \<Longrightarrow> view t = view s"
  by (metis keepsD snd_conv)

lemma preservesI: "(\<And>s. P s \<Longrightarrow> P (snd (m s))) \<Longrightarrow> preserves P m"
  by (simp add: preserves_def)

lemma preservesD: "preserves P m \<Longrightarrow> P s \<Longrightarrow> P (snd (m s))"
  by (simp add: preserves_def)

lemma preserves_result: "preserves P m \<Longrightarrow> P s \<Longrightarrow> m s = (r, t) \<Longrightarrow> P t"
  by (metis preservesD snd_conv)

lemma keeps_ok [simp, keeps_intros]: "keeps view (ok x)"
  by (simp add: keeps_def)

lemma keeps_fail [simp, keeps_intros]: "keeps view (fail e)"
  by (simp add: keeps_def)

lemma keeps_lift [simp, keeps_intros]: "keeps view (lift r)"
  by (simp add: keeps_def)

lemma keeps_attempt [keeps_intros]:
  "keeps view m \<Longrightarrow> (\<And>x. keeps view (k x)) \<Longrightarrow> keeps view (attempt m k)"
  by (rule keepsI) (auto simp: attempt_apply keepsD dest: keeps_result split: prod.split sum.split)

lemma keeps_call [keeps_intros]:
  "keeps view m \<Longrightarrow> (\<And>x. keeps view (k x)) \<Longrightarrow> keeps view (call m k)"
  by (rule keepsI) (auto simp: call_apply keepsD dest: keeps_result split: prod.split)

lemma keeps_check [keeps_intros]: "keeps view k \<Longrightarrow> keeps view (check v k)"
  by (cases v) auto

lemma keeps_discard [keeps_intros]: "keeps view m \<Longrightarrow> keeps view k \<Longrightarrow> keeps view (discard m k)"
  by (simp add: keeps_def discard_def)

lemma keeps_catching [keeps_intros]:
  "keeps view m \<Longrightarrow> (\<And>r. keeps view (k r)) \<Longrightarrow> keeps view (catching m k)"
  by (rule keepsI) (auto simp: catching_apply keepsD dest: keeps_result split: prod.split)

lemma keeps_for_each [keeps_intros]:
  "(\<And>x. keeps view (f x)) \<Longrightarrow> keeps view (for_each f xs)"
  by (induction xs) (auto intro: keeps_attempt)

lemma keeps_map_each [keeps_intros]:
  "(\<And>x. keeps view (f x)) \<Longrightarrow> keeps view (map_each f xs)"
  by (induction xs) (auto intro!: keeps_attempt)

lemma keeps_if [keeps_intros]:
  "keeps view a \<Longrightarrow> keeps view b \<Longrightarrow> keeps view (if c then a else b)"
  by simp

lemma preserves_ok [simp, preserves_intros]: "preserves P (ok x)"
  by (simp add: preserves_def)

lemma preserves_fail [simp, preserves_intros]: "preserves P (fail e)"
  by (simp add: preserves_def)

lemma preserves_lift [simp, preserves_intros]: "preserves P (lift r)"
  by (simp add: preserves_def)

lemma preserves_attempt [preserves_intros]:
  "preserves P m \<Longrightarrow> (\<And>x. preserves P (k x)) \<Longrightarrow> preserves P (attempt m k)"
  by (rule preservesI)
    (auto simp: attempt_apply preservesD dest: preserves_result split: prod.split sum.split)

lemma preserves_call [preserves_intros]:
  "preserves P m \<Longrightarrow> (\<And>x. preserves P (k x)) \<Longrightarrow> preserves P (call m k)"
  by (rule preservesI) (auto simp: call_apply preservesD dest: preserves_result split: prod.split)

lemma preserves_check [preserves_intros]: "preserves P k \<Longrightarrow> preserves P (check v k)"
  by (cases v) auto

lemma preserves_discard [preserves_intros]:
  "preserves P m \<Longrightarrow> preserves P k \<Longrightarrow> preserves P (discard m k)"
  by (simp add: preserves_def discard_def)

lemma preserves_catching [preserves_intros]:
  "preserves P m \<Longrightarrow> (\<And>r. preserves P (k r)) \<Longrightarrow> preserves P (catching m k)"
  by (rule preservesI)
    (auto simp: catching_apply preservesD dest: preserves_result split: prod.split)

lemma preserves_for_each [preserves_intros]:
  "(\<And>x. x \<in> set xs \<Longrightarrow> preserves P (f x)) \<Longrightarrow> preserves P (for_each f xs)"
  by (induction xs) (auto intro!: preserves_attempt)

lemma preserves_map_each [preserves_intros]:
  "(\<And>x. x \<in> set xs \<Longrightarrow> preserves P (f x)) \<Longrightarrow> preserves P (map_each f xs)"
  by (induction xs) (auto intro!: preserves_attempt)

lemma preserves_if [preserves_intros]:
  "preserves P a \<Longrightarrow> preserves P b \<Longrightarrow> preserves P (if c then a else b)"
  by simp

lemma keeps_preserves: "keeps view m \<Longrightarrow> preserves (\<lambda>s. Q (view s)) m"
  by (simp add: keeps_def preserves_def)

section \<open>Lists\<close>

lemma find_SomeD: "find P xs = Some x \<Longrightarrow> x \<in> set xs \<and> P x"
  by (induction xs) (auto split: if_splits)

end
