(* ===== verification/GoStrings.thy ===== *)
theory GoStrings
  imports Prelude
begin

text \<open>
  The part of Go's standard library the code uses on strings and machine integers: a Go
  string is a sequence of bytes, here a \<open>char list\<close>; \<open>len\<close> is \<open>length\<close>; comparison is
  bytewise and lexicographic, which is the order \<open>List_Lexorder\<close> puts on \<open>char list\<close>.
  \<open>time.Duration\<close> and \<open>int\<close> are 64-bit: where the code multiplies a value it is given,
  the wrap-around is written out with \<open>wrap64\<close>.
\<close>

section \<open>64-bit integers\<close>

definition wrap64 :: "int \<Rightarrow> int" where
  "wrap64 x = (x + 2 ^ 63) mod 2 ^ 64 - 2 ^ 63"

lemma wrap64_bounds: "- (2 ^ 63) \<le> wrap64 x" "wrap64 x < 2 ^ 63"
proof -
  have "0 \<le> (x + 2 ^ 63) mod 2 ^ 64" "(x + 2 ^ 63) mod 2 ^ 64 < 2 ^ 64"
    by (rule pos_mod_sign, simp) (rule pos_mod_bound, simp)
  then show "- (2 ^ 63) \<le> wrap64 x" "wrap64 x < 2 ^ 63"
    by (simp_all add: wrap64_def)
qed

lemma wrap64_id:
  assumes "- (2 ^ 63) \<le> x" and "x < 2 ^ 63"
  shows "wrap64 x = x"
proof -
  have "(x + 2 ^ 63) mod 2 ^ 64 = x + 2 ^ 63"
    using assms by (intro mod_pos_pos_trivial) simp_all
  then show ?thesis by (simp add: wrap64_def)
qed

text \<open>The wrap-around is the value of the 64-bit word, read as two's complement.\<close>

lemma wrap64_word: "wrap64 x = sint (word_of_int x :: 64 word)"
proof -
  have "sint (word_of_int x :: 64 word) = signed_take_bit 63 x"
    by (simp add: sint_sbintrunc')
  also have "\<dots> = wrap64 x"
    by (simp add: signed_take_bit_eq_take_bit_shift take_bit_eq_mod wrap64_def)
  finally show ?thesis by simp
qed

section \<open>Numbers as text\<close>

definition digit_char :: "nat \<Rightarrow> char" where
  "digit_char d = char_of (48 + d)"

fun digits_of_nat :: "nat \<Rightarrow> string" where
  "digits_of_nat n =
     (if n < 10 then [digit_char n] else digits_of_nat (n div 10) @ [digit_char (n mod 10)])"

declare digits_of_nat.simps [simp del]

definition itoa :: "int \<Rightarrow> string" where
  "itoa i = (if i < 0 then ''-'' @ digits_of_nat (nat (- i)) else digits_of_nat (nat i))"

definition digit_value :: "char \<Rightarrow> nat option" where
  "digit_value c =
     (let n = (of_char c :: nat) in if 48 \<le> n \<and> n \<le> 57 then Some (n - 48) else None)"

fun digits_value :: "nat \<Rightarrow> string \<Rightarrow> nat option" where
  "digits_value acc [] = Some acc"
| "digits_value acc (c # cs) =
     (case digit_value c of None \<Rightarrow> None | Some d \<Rightarrow> digits_value (10 * acc + d) cs)"

lemma digit_value_digit_char [simp]: "d < 10 \<Longrightarrow> digit_value (digit_char d) = Some d"
  by (simp add: digit_value_def digit_char_def Let_def)

lemma digits_value_append:
  "digits_value acc (xs @ ys) =
     (case digits_value acc xs of None \<Rightarrow> None | Some a \<Rightarrow> digits_value a ys)"
  by (induction xs arbitrary: acc) (auto split: option.splits)

lemma digits_value_digits_of_nat: "digits_value 0 (digits_of_nat n) = Some n"
proof (induction n rule: digits_of_nat.induct)
  case (1 n)
  show ?case
  proof (cases "n < 10")
    case True
    then show ?thesis by (simp add: digits_of_nat.simps [of n])
  next
    case False
    with 1 have "digits_value 0 (digits_of_nat (n div 10)) = Some (n div 10)" by simp
    with False show ?thesis
      by (simp add: digits_of_nat.simps [of n] digits_value_append)
  qed
qed

text \<open>\<open>strconv.Atoi\<close>: an optional sign, then decimal digits, in the range of \<open>int\<close>.\<close>

fun split_sign :: "string \<Rightarrow> int \<times> string" where
  "split_sign [] = (1, [])"
| "split_sign (c # cs) =
     (if c = CHR ''-'' then (-1, cs) else if c = CHR ''+'' then (1, cs) else (1, c # cs))"

definition Atoi :: "string \<Rightarrow> int option" where
  "Atoi s =
     (case split_sign s of (sg, ds) \<Rightarrow>
        if ds = [] then None
        else (case digits_value 0 ds of
                None \<Rightarrow> None
              | Some n \<Rightarrow>
                  (let v = sg * int n in
                   if - (2 ^ 63) \<le> v \<and> v < 2 ^ 63 then Some v else None)))"

section \<open>Package strings\<close>

fun Join :: "string list \<Rightarrow> string \<Rightarrow> string" where
  "Join [] sep = []"
| "Join [x] sep = x"
| "Join (x # y # ys) sep = x @ sep @ Join (y # ys) sep"

text \<open>\<open>strings.Split\<close> with a separator of one byte.\<close>

fun Split :: "char \<Rightarrow> string \<Rightarrow> string list" where
  "Split c [] = [[]]"
| "Split c (x # xs) =
     (if x = c then [] # Split c xs
      else (case Split c xs of [] \<Rightarrow> [[x]] | y # ys \<Rightarrow> (x # y) # ys))"

lemma Split_nonempty [simp]: "Split c s \<noteq> []"
  by (induction s) (auto split: list.splits)

lemma Split_no_sep: "c \<notin> set s \<Longrightarrow> Split c s = [s]"
  by (induction s) auto

lemma Split_append_sep: "c \<notin> set s \<Longrightarrow> Split c (s @ c # t) = s # Split c t"
  by (induction s) auto

lemma Split_Join:
  "xs \<noteq> [] \<Longrightarrow> \<forall>x \<in> set xs. c \<notin> set x \<Longrightarrow> Split c (Join xs [c]) = xs"
proof (induction xs "[c]" rule: Join.induct)
  case (3 x y ys)
  then show ?case by (simp add: Split_append_sep)
qed (auto simp: Split_no_sep)

definition HasPrefix :: "string \<Rightarrow> string \<Rightarrow> bool" where
  "HasPrefix s p \<longleftrightarrow> take (length p) s = p"

definition TrimPrefix :: "string \<Rightarrow> string \<Rightarrow> string" where
  "TrimPrefix s p = (if HasPrefix s p then drop (length p) s else s)"

definition TrimRightChar :: "string \<Rightarrow> char \<Rightarrow> string" where
  "TrimRightChar s c = rev (dropWhile (\<lambda>x. x = c) (rev s))"

definition TrimLeftChar :: "string \<Rightarrow> char \<Rightarrow> string" where
  "TrimLeftChar s c = dropWhile (\<lambda>x. x = c) s"

text \<open>
  \<open>strings.TrimSpace\<close> removes Unicode white space: the six ASCII characters, U+0085,
  U+00A0, U+1680, U+2000 to U+200A, U+2028, U+2029, U+202F, U+205F and U+3000, each in
  its UTF-8 encoding.
\<close>

definition go_spaces :: "string list" where
  "go_spaces =
     map (map char_of) ([[9], [10], [11], [12], [13], [32], [194, 133], [194, 160],
       [225, 154, 128]] @ map (\<lambda>n. [226, 128, 128 + n]) [0..<11] @
       [[226, 128, 168], [226, 128, 169], [226, 128, 175], [226, 129, 159],
        [227, 128, 128 :: nat]])"

fun trim_fuel :: "string list \<Rightarrow> nat \<Rightarrow> string \<Rightarrow> string" where
  "trim_fuel ws 0 s = s"
| "trim_fuel ws (Suc n) s =
     (case find (\<lambda>w. HasPrefix s w) ws of
        None \<Rightarrow> s
      | Some w \<Rightarrow> trim_fuel ws n (drop (length w) s))"

text \<open>Each step drops at least one byte, so \<open>length s\<close> steps are enough.\<close>

definition TrimSpace :: "string \<Rightarrow> string" where
  "TrimSpace s =
     (let l = trim_fuel go_spaces (length s) s
      in rev (trim_fuel (map rev go_spaces) (length l) (rev l)))"

lemma trim_fuel_suffix: "\<exists>p. s = p @ trim_fuel ws n s"
proof (induction n arbitrary: s)
  case 0
  then show ?case by simp
next
  case (Suc n)
  show ?case
  proof (cases "find (\<lambda>w. HasPrefix s w) ws")
    case None
    then show ?thesis by simp
  next
    case (Some w)
    obtain p where "drop (length w) s = p @ trim_fuel ws n (drop (length w) s)"
      using Suc.IH by blast
    then have "s = (take (length w) s @ p) @ trim_fuel ws n (drop (length w) s)"
      by (metis append_assoc append_take_drop_id)
    then have "\<exists>q. s = q @ trim_fuel ws n (drop (length w) s)" by blast
    with Some show ?thesis by simp
  qed
qed

lemma trim_fuel_length: "length (trim_fuel ws n s) \<le> length s"
proof -
  obtain p where "s = p @ trim_fuel ws n s" using trim_fuel_suffix by blast
  then have "length s = length p + length (trim_fuel ws n s)" by (metis length_append)
  then show ?thesis by simp
qed

lemma TrimSpace_length: "length (TrimSpace s) \<le> length s"
proof -
  let ?l = "trim_fuel go_spaces (length s) s"
  have "length (TrimSpace s) \<le> length ?l"
    using trim_fuel_length [of "map rev go_spaces" "length ?l" "rev ?l"]
    by (simp add: TrimSpace_def Let_def)
  also have "\<dots> \<le> length s" by (simp add: trim_fuel_length)
  finally show ?thesis .
qed

text \<open>The fuel is enough: no white space is left at the front.\<close>

lemma trim_fuel_enough:
  assumes "\<forall>w \<in> set ws. w \<noteq> []" and "length s \<le> n"
  shows "\<forall>w \<in> set ws. \<not> HasPrefix (trim_fuel ws n s) w \<or> trim_fuel ws n s = []"
  using assms(2)
proof (induction n arbitrary: s)
  case 0
  then show ?case by simp
next
  case (Suc n)
  show ?case
  proof (cases "find (\<lambda>w. HasPrefix s w) ws")
    case None
    then have "trim_fuel ws (Suc n) s = s" by simp
    with None show ?thesis by (simp add: find_None_iff)
  next
    case (Some w)
    then have "w \<in> set ws" by (auto simp: find_Some_iff)
    with assms(1) have "length (drop (length w) s) \<le> n"
      using Suc.prems by (cases w) auto
    from Suc.IH [OF this] Some show ?thesis by simp
  qed
qed

text \<open>
  \<open>fmt\<close>'s \<open>%q\<close> on text without bytes that need a numeric escape: double quotes and
  backslashes are escaped, newline, carriage return and tab are written as such escapes.
\<close>

fun quote_char :: "char \<Rightarrow> string" where
  "quote_char c =
     (if c = char_of (34::nat) then [char_of (92::nat), c]
      else if c = char_of (92::nat) then [char_of (92::nat), c]
      else if c = char_of (10::nat) then [char_of (92::nat), CHR ''n'']
      else if c = char_of (13::nat) then [char_of (92::nat), CHR ''r'']
      else if c = char_of (9::nat) then [char_of (92::nat), CHR ''t'']
      else [c])"

definition quoted :: "string \<Rightarrow> string" where
  "quoted s = [char_of (34::nat)] @ concat (map quote_char s) @ [char_of (34::nat)]"

section \<open>Tables: Go maps whose rows are listed and sorted\<close>

text \<open>
  A Go map that the code ranges over is an association list with distinct keys
  (\<open>AList.update\<close>, \<open>AList.delete\<close>, \<open>map_of\<close>), so that a listing computes. Go ranges over
  a map in an unspecified order; every listing of the code sorts what it collected, and
  the properties are stated so that they do not depend on the order before the sort.
\<close>

type_synonym ('k, 'v) table = "('k \<times> 'v) list"

abbreviation put :: "'k \<Rightarrow> 'v \<Rightarrow> ('k, 'v) table \<Rightarrow> ('k, 'v) table" where
  "put \<equiv> AList.update"

abbreviation del :: "'k \<Rightarrow> ('k, 'v) table \<Rightarrow> ('k, 'v) table" where
  "del \<equiv> AList.delete"

abbreviation rows :: "('k, 'v) table \<Rightarrow> 'v list" where
  "rows t \<equiv> map snd t"

definition keyed :: "('v \<Rightarrow> 'k) \<Rightarrow> ('k, 'v) table \<Rightarrow> bool" where
  "keyed key t \<longleftrightarrow> distinct (map fst t) \<and> (\<forall>(k, v) \<in> set t. key v = k)"

lemma lookup_put [simp]: "map_of (put k v t) k' = (if k' = k then Some v else map_of t k')"
  by (simp add: update_conv')

lemma lookup_del [simp]: "map_of (del k t) k' = (if k' = k then None else map_of t k')"
  by (simp add: delete_conv')

lemma keyed_Nil [simp]: "keyed key []"
  by (simp add: keyed_def)

lemma set_put_distinct:
  "distinct (map fst t) \<Longrightarrow> set (put k v t) = insert (k, v) {p \<in> set t. fst p \<noteq> k}"
  by (induction t) (auto split: if_splits intro: rev_image_eqI)

lemma keyed_put: "keyed key t \<Longrightarrow> key v = k \<Longrightarrow> keyed key (put k v t)"
  by (auto simp: keyed_def distinct_update set_put_distinct)

lemma keyed_filter: "keyed key t \<Longrightarrow> keyed key (filter P t)"
  by (auto simp: keyed_def intro: distinct_map_filter)

lemma del_filter: "del k t = filter (\<lambda>p. fst p \<noteq> k) t"
  by (induction t) auto

lemma keyed_del: "keyed key t \<Longrightarrow> keyed key (del k t)"
  by (simp add: del_filter keyed_filter)

lemma keyed_lookup: "keyed key t \<Longrightarrow> map_of t k = Some v \<Longrightarrow> key v = k"
  by (auto simp: keyed_def dest: map_of_SomeD)

lemma rows_lookup: "keyed key t \<Longrightarrow> v \<in> set (rows t) \<longleftrightarrow> map_of t (key v) = Some v"
  by (force simp: keyed_def image_iff dest: map_of_SomeD)

lemma keyed_distinct_rows: "keyed key t \<Longrightarrow> distinct (map key (rows t))"
proof -
  assume k: "keyed key t"
  then have "map key (rows t) = map fst t"
    unfolding map_map by (intro map_cong) (auto simp: keyed_def)
  then show ?thesis using k by (simp only: keyed_def)
qed

text \<open>\<open>sort.Slice\<close> by a key that is unique among the rows, smallest first.\<close>

definition oldest_first_by :: "('r \<Rightarrow> 'k::linorder) \<Rightarrow> 'r list \<Rightarrow> 'r list" where
  "oldest_first_by key xs = sort_key key xs"

lemma set_oldest_first_by [simp]: "set (oldest_first_by key xs) = set xs"
  by (simp add: oldest_first_by_def)

lemma length_oldest_first_by [simp]: "length (oldest_first_by key xs) = length xs"
  by (simp add: oldest_first_by_def)

lemma sorted_oldest_first_by: "sorted (map key (oldest_first_by key xs))"
  by (simp add: oldest_first_by_def)

lemma distinct_map_oldest_first_by [simp]:
  "distinct (map f (oldest_first_by key xs)) \<longleftrightarrow> distinct (map f xs)"
  by (simp add: oldest_first_by_def distinct_map)

lemma digits_of_nat_inj: "digits_of_nat a = digits_of_nat b \<longleftrightarrow> a = b"
  by (metis digits_value_digits_of_nat option.inject)

lemma itoa_int_inj [simp]: "itoa (int a) = itoa (int b) \<longleftrightarrow> a = b"
  by (simp add: itoa_def digits_of_nat_inj)

lemma itoa_Suc_inj [simp]: "itoa (1 + int a) = itoa (1 + int b) \<longleftrightarrow> a = b"
  using itoa_int_inj [of "Suc a" "Suc b"] by simp

section \<open>Sequential ids\<close>

text \<open>
  The id minter of the in-memory configurations: an atomic counter behind a prefix. \<open>minted\<close>
  are the ids a counter has handed out.
\<close>

definition sequential_id :: "string \<Rightarrow> nat \<Rightarrow> string" where
  "sequential_id prefix n = prefix @ itoa (int (Suc n))"

definition minted :: "string \<Rightarrow> nat \<Rightarrow> string \<Rightarrow> bool" where
  "minted prefix n i \<longleftrightarrow> (\<exists>k < n. i = sequential_id prefix k)"

lemma sequential_id_inj [simp]: "sequential_id prefix a = sequential_id prefix b \<longleftrightarrow> a = b"
  by (simp add: sequential_id_def)

lemma not_minted: "\<not> minted prefix n (sequential_id prefix n)"
  by (auto simp: minted_def)

lemma minted_Suc: "minted prefix n i \<Longrightarrow> minted prefix (Suc n) i"
  by (auto simp: minted_def less_Suc_eq)

lemma minted_next: "minted prefix (Suc n) (sequential_id prefix n)"
  by (auto simp: minted_def)

end
