(* ===== verification/GoJSON.thy ===== *)
theory GoJSON
  imports GoStrings
begin

text \<open>
  The part of Go's \<open>encoding/json\<close> the code uses: the values a document denotes, \<open>Marshal\<close>
  (compact, with Go's escaping of HTML characters) and \<open>Unmarshal\<close>'s grammar. A number is kept
  as its literal text. Strings are byte lists holding UTF-8; Go's replacement of invalid UTF-8
  by U+FFFD and its nesting limit of 10000 are not modelled. The parser recurses on a fuel of
  the text's length, which \<open>parse_value_fuel\<close> shows to be as good as any larger one.
\<close>

datatype json = JNull | JBool bool | JNum string | JStr string
  | JArr "json list" | JObj "(string \<times> json) list"

section \<open>Marshal\<close>

definition hex_digit :: "nat \<Rightarrow> char" where
  "hex_digit d = ''0123456789abcdef'' ! d"

definition u00 :: "char \<Rightarrow> string" where
  "u00 c = CHR 0x5C # ''u00'' @ [hex_digit (of_char c div 16), hex_digit (of_char c mod 16)]"

definition escape_char :: "char \<Rightarrow> string" where
  "escape_char c =
     (if c = CHR 0x22 then [CHR 0x5C, CHR 0x22]
      else if c = CHR 0x5C then [CHR 0x5C, CHR 0x5C]
      else if c = CHR 0x08 then CHR 0x5C # ''b''
      else if c = CHR 0x0C then CHR 0x5C # ''f''
      else if c = CHR 0x0A then CHR 0x5C # ''n''
      else if c = CHR 0x0D then CHR 0x5C # ''r''
      else if c = CHR 0x09 then CHR 0x5C # ''t''
      else if (of_char c :: nat) < 32 \<or> c \<in> set ''<>&'' then u00 c
      else [c])"

fun escape_string :: "string \<Rightarrow> string" where
  "escape_string (a # b # c # s) =
     (if a = CHR 0xE2 \<and> b = CHR 0x80 \<and> (c = CHR 0xA8 \<or> c = CHR 0xA9)
      then CHR 0x5C # ''u202'' @ [hex_digit (of_char c - 160)] @ escape_string s
      else escape_char a @ escape_string (b # c # s))"
| "escape_string (a # s) = escape_char a @ escape_string s"
| "escape_string [] = []"

definition marshal_string :: "string \<Rightarrow> string" where
  "marshal_string s = [CHR 0x22] @ escape_string s @ [CHR 0x22]"

fun marshal :: "json \<Rightarrow> string" where
  "marshal JNull = ''null''"
| "marshal (JBool b) = (if b then ''true'' else ''false'')"
| "marshal (JNum n) = n"
| "marshal (JStr s) = marshal_string s"
| "marshal (JArr xs) = ''['' @ Join (map marshal xs) '','' @ '']''"
| "marshal (JObj kvs) =
     ''{'' @ Join (map (\<lambda>kv. marshal_string (fst kv) @ '':'' @ marshal (snd kv)) kvs) '','' @ ''}''"

section \<open>Unmarshal\<close>

definition json_space :: "char \<Rightarrow> bool" where
  "json_space c \<longleftrightarrow> c = CHR '' '' \<or> c = CHR 0x09 \<or> c = CHR 0x0A \<or> c = CHR 0x0D"

definition skip_space :: "string \<Rightarrow> string" where
  "skip_space = dropWhile json_space"

definition json_digit :: "char \<Rightarrow> bool" where
  "json_digit c \<longleftrightarrow> CHR ''0'' \<le> c \<and> c \<le> CHR ''9''"

definition hex_value :: "char \<Rightarrow> nat option" where
  "hex_value c =
     (if json_digit c then Some (of_char c - 48)
      else if CHR ''a'' \<le> c \<and> c \<le> CHR ''f'' then Some (of_char c - 87)
      else if CHR ''A'' \<le> c \<and> c \<le> CHR ''F'' then Some (of_char c - 55)
      else None)"

definition utf8_encode :: "nat \<Rightarrow> string" where
  "utf8_encode n =
     (if n < 128 then [char_of n]
      else if n < 2048 then [char_of (192 + n div 64), char_of (128 + n mod 64)]
      else if n < 65536
      then [char_of (224 + n div 4096), char_of (128 + n div 64 mod 64), char_of (128 + n mod 64)]
      else [char_of (240 + n div 262144), char_of (128 + n div 4096 mod 64),
            char_of (128 + n div 64 mod 64), char_of (128 + n mod 64)])"

definition replacement_char :: nat where
  "replacement_char = 65533"

definition hex4 :: "string \<Rightarrow> (nat \<times> string) option" where
  "hex4 s =
     (case s of
        a # b # c # d # rest \<Rightarrow>
          (case (hex_value a, hex_value b, hex_value c, hex_value d) of
             (Some w, Some x, Some y, Some z) \<Rightarrow> Some (4096 * w + 256 * x + 16 * y + z, rest)
           | _ \<Rightarrow> None)
      | _ \<Rightarrow> None)"

text \<open>
  After \<open>\u\<close>: a surrogate pair is one character, a lone surrogate the replacement character.
\<close>

definition unicode_escape :: "string \<Rightarrow> (string \<times> string) option" where
  "unicode_escape s =
     (case hex4 s of
        None \<Rightarrow> None
      | Some (n, rest) \<Rightarrow>
          if 55296 \<le> n \<and> n < 57344 then
            (case rest of
               bs # u # rest' \<Rightarrow>
                 if bs = CHR 0x5C \<and> u = CHR ''u'' \<and> n < 56320 then
                   (case hex4 rest' of
                      None \<Rightarrow> None
                    | Some (m, rest'') \<Rightarrow>
                        if 56320 \<le> m \<and> m < 57344
                        then Some (utf8_encode (65536 + 1024 * (n - 55296) + (m - 56320)), rest'')
                        else Some (utf8_encode replacement_char, rest))
                 else Some (utf8_encode replacement_char, rest)
             | _ \<Rightarrow> Some (utf8_encode replacement_char, rest))
          else Some (utf8_encode n, rest))"

definition simple_escape :: "char \<Rightarrow> char option" where
  "simple_escape c =
     (if c \<in> {CHR 0x22, CHR 0x5C, CHR ''/''} then Some c
      else if c = CHR ''b'' then Some (CHR 0x08)
      else if c = CHR ''f'' then Some (CHR 0x0C)
      else if c = CHR ''n'' then Some (CHR 0x0A)
      else if c = CHR ''r'' then Some (CHR 0x0D)
      else if c = CHR ''t'' then Some (CHR 0x09)
      else None)"

lemma hex4_length: "hex4 s = Some (n, r) \<Longrightarrow> length r < length s"
  by (auto simp: hex4_def split: list.splits option.splits prod.splits)

lemma unicode_escape_length: "unicode_escape s = Some (x, r) \<Longrightarrow> length r < length s"
  by (auto simp: unicode_escape_def dest!: hex4_length split: option.splits list.splits if_splits prod.splits)

text \<open>The body of a string literal, after its opening quote.\<close>

function (sequential) parse_string :: "string \<Rightarrow> (string \<times> string) option" where
  "parse_string [] = None"
| "parse_string (c # s) =
     (if c = CHR 0x22 then Some ([], s)
      else if c = CHR 0x5C then
        (case s of
           [] \<Rightarrow> None
         | e # s' \<Rightarrow>
             (if e = CHR ''u'' then
                (case unicode_escape s' of
                   None \<Rightarrow> None
                 | Some (x, r) \<Rightarrow> map_option (\<lambda>(y, t). (x @ y, t)) (parse_string r))
              else (case simple_escape e of
                      None \<Rightarrow> None
                    | Some x \<Rightarrow> map_option (\<lambda>(y, t). (x # y, t)) (parse_string s'))))
      else if (of_char c :: nat) < 32 then None
      else map_option (\<lambda>(y, t). (c # y, t)) (parse_string s))"
  by pat_completeness auto

termination
  by (relation "measure length") (auto dest!: unicode_escape_length)

lemma parse_string_length: "parse_string s = Some (x, r) \<Longrightarrow> length r < length s"
proof (induction s arbitrary: x r rule: parse_string.induct)
  case (2 c s)
  show ?case
  proof (cases "c = CHR 0x5C")
    case True
    then obtain e s' where s: "s = e # s'" using 2(4) by (cases s) auto
    show ?thesis
    proof (cases "e = CHR ''u''")
      case e: True
      then obtain y t where u: "unicode_escape s' = Some (y, t)"
        using 2(4) True s by (cases "unicode_escape s'") auto
      then obtain x' where "parse_string t = Some (x', r)" using 2(4) True s e by auto
      then have "length r < length t" using 2(1) [of e s' "(y, t)" y t] True s e u by simp
      then show ?thesis using unicode_escape_length [OF u] s by simp
    next
      case e: False
      then obtain y x' where "simple_escape e = Some y" "parse_string s' = Some (x', r)"
        using 2(4) True s by (cases "simple_escape e") auto
      then show ?thesis using 2(2) [of e s' y] True s e by fastforce
    qed
  next
    case False
    then show ?thesis using 2(3,4) by (fastforce split: if_splits)
  qed
qed simp

text \<open>A number: an optional minus, an integer without leading zeros, a fraction, an exponent.\<close>

definition number_int :: "string \<Rightarrow> (string \<times> string) option" where
  "number_int s =
     (case s of
        [] \<Rightarrow> None
      | c # s' \<Rightarrow>
          if c = CHR ''0'' then Some ([c], s')
          else if json_digit c then Some (takeWhile json_digit s, dropWhile json_digit s)
          else None)"

definition digits1 :: "string \<Rightarrow> (string \<times> string) option" where
  "digits1 s =
     (let ds = takeWhile json_digit s in if ds = [] then None else Some (ds, dropWhile json_digit s))"

definition number_frac :: "string \<Rightarrow> (string \<times> string) option" where
  "number_frac s =
     (case s of
        c # s' \<Rightarrow> if c = CHR ''.'' then map_option (\<lambda>(ds, r). (c # ds, r)) (digits1 s') else Some ([], s)
      | [] \<Rightarrow> Some ([], s))"

definition number_exp :: "string \<Rightarrow> (string \<times> string) option" where
  "number_exp s =
     (case s of
        c # s' \<Rightarrow>
          if c = CHR ''e'' \<or> c = CHR ''E'' then
            (case s' of
               d # s'' \<Rightarrow>
                 if d = CHR ''+'' \<or> d = CHR ''-''
                 then map_option (\<lambda>(ds, r). (c # d # ds, r)) (digits1 s'')
                 else map_option (\<lambda>(ds, r). (c # ds, r)) (digits1 s')
             | [] \<Rightarrow> None)
          else Some ([], s)
      | [] \<Rightarrow> Some ([], s))"

definition parse_number :: "string \<Rightarrow> (string \<times> string) option" where
  "parse_number s =
     (let (sign, s1) = (case s of c # s' \<Rightarrow> if c = CHR ''-'' then ([c], s') else ([], s) | [] \<Rightarrow> ([], s)) in
      case number_int s1 of
        None \<Rightarrow> None
      | Some (i, s2) \<Rightarrow>
          (case number_frac s2 of
             None \<Rightarrow> None
           | Some (f, s3) \<Rightarrow>
               (case number_exp s3 of
                  None \<Rightarrow> None
                | Some (e, s4) \<Rightarrow> Some (sign @ i @ f @ e, s4))))"

definition closes :: "char \<Rightarrow> string \<Rightarrow> string option" where
  "closes b s = (case skip_space s of c # t \<Rightarrow> if c = b then Some t else None | [] \<Rightarrow> None)"

text \<open>
  \<open>parse_value\<close> reads one value; \<open>parse_items\<close> and \<open>parse_members\<close> the rest of an array or an
  object after its bracket and a first element has been announced.
\<close>

fun parse_value :: "nat \<Rightarrow> string \<Rightarrow> (json \<times> string) option"
  and parse_items :: "nat \<Rightarrow> string \<Rightarrow> (json list \<times> string) option"
  and parse_members :: "nat \<Rightarrow> string \<Rightarrow> ((string \<times> json) list \<times> string) option"
where
  "parse_value 0 s = None"
| "parse_value (Suc n) s =
     (case skip_space s of
        [] \<Rightarrow> None
      | c # r \<Rightarrow>
          if c = CHR 0x22 then map_option (\<lambda>(x, t). (JStr x, t)) (parse_string r)
          else if c = CHR ''['' then
            (case closes (CHR '']'') r of
               Some t \<Rightarrow> Some (JArr [], t)
             | None \<Rightarrow> map_option (\<lambda>(xs, t). (JArr xs, t)) (parse_items n r))
          else if c = CHR ''{'' then
            (case closes (CHR ''}'') r of
               Some t \<Rightarrow> Some (JObj [], t)
             | None \<Rightarrow> map_option (\<lambda>(kvs, t). (JObj kvs, t)) (parse_members n r))
          else if take 4 (c # r) = ''true'' then Some (JBool True, drop 4 (c # r))
          else if take 5 (c # r) = ''false'' then Some (JBool False, drop 5 (c # r))
          else if take 4 (c # r) = ''null'' then Some (JNull, drop 4 (c # r))
          else map_option (\<lambda>(x, t). (JNum x, t)) (parse_number (c # r)))"
| "parse_items 0 s = None"
| "parse_items (Suc n) s =
     (case parse_value n s of
        None \<Rightarrow> None
      | Some (x, r) \<Rightarrow>
          (case skip_space r of
             [] \<Rightarrow> None
           | c # t \<Rightarrow>
               if c = CHR '']'' then Some ([x], t)
               else if c = CHR '','' then map_option (\<lambda>(xs, t'). (x # xs, t')) (parse_items n t)
               else None))"
| "parse_members 0 s = None"
| "parse_members (Suc n) s =
     (case skip_space s of
        [] \<Rightarrow> None
      | q # r \<Rightarrow>
          if q \<noteq> CHR 0x22 then None
          else (case parse_string r of
                  None \<Rightarrow> None
                | Some (k, r1) \<Rightarrow>
                    (case skip_space r1 of
                       [] \<Rightarrow> None
                     | c # r2 \<Rightarrow>
                         if c \<noteq> CHR '':'' then None
                         else (case parse_value n r2 of
                                 None \<Rightarrow> None
                               | Some (v, r3) \<Rightarrow>
                                   (case skip_space r3 of
                                      [] \<Rightarrow> None
                                    | d # t \<Rightarrow>
                                        if d = CHR ''}'' then Some ([(k, v)], t)
                                        else if d = CHR '','' then
                                          map_option (\<lambda>(kvs, t'). ((k, v) # kvs, t')) (parse_members n t)
                                        else None)))))"

text \<open>A document is one value with nothing but blanks after it.\<close>

definition json_parse :: "string \<Rightarrow> json option" where
  "json_parse s =
     (case parse_value (2 * length s + 2) s of
        Some (v, r) \<Rightarrow> if skip_space r = [] then Some v else None
      | None \<Rightarrow> None)"

lemma skip_space_length: "length (skip_space s) \<le> length s"
  by (simp add: skip_space_def length_dropWhile_le)

lemma skip_space_Cons: "skip_space s = c # r \<Longrightarrow> length r < length s"
  using skip_space_length [of s] by simp

lemma dropWhile_length_le [simp]: "length (dropWhile P s) \<le> length s"
  by (rule length_dropWhile_le)

lemma digits1_length: "digits1 s = Some (x, r) \<Longrightarrow> length r \<le> length s"
  by (auto simp: digits1_def Let_def split: if_splits)

lemma number_int_length: "number_int s = Some (x, r) \<Longrightarrow> length r < length s"
  by (auto simp: number_int_def le_imp_less_Suc split: list.splits if_splits)

lemma number_frac_length: "number_frac s = Some (x, r) \<Longrightarrow> length r \<le> length s"
  by (auto simp: number_frac_def split: list.splits if_splits dest!: digits1_length)

lemma number_exp_length: "number_exp s = Some (x, r) \<Longrightarrow> length r \<le> length s"
  by (auto simp: number_exp_def split: list.splits if_splits dest!: digits1_length)

lemma parse_number_length: "parse_number s = Some (x, r) \<Longrightarrow> length r < length s"
  by (auto simp: parse_number_def Let_def split: list.splits if_splits option.splits prod.splits
      dest!: number_int_length number_frac_length number_exp_length)

lemma closes_length: "closes b s = Some t \<Longrightarrow> length t < length s"
  by (auto simp: closes_def split: list.splits if_splits dest!: skip_space_Cons)

lemma parse_consumes:
  "parse_value n s = Some (v, r) \<Longrightarrow> length r < length s"
  "parse_items n s = Some (xs, r) \<Longrightarrow> length r < length s"
  "parse_members n s = Some (kvs, r) \<Longrightarrow> length r < length s"
proof (induction n s and n s and n s arbitrary: v r and xs r and kvs r
    rule: parse_value_parse_items_parse_members.induct)
  case (2 n s)
  then show ?case
    by (auto split: list.splits if_splits option.splits
        dest!: skip_space_Cons parse_string_length parse_number_length closes_length; fastforce)
next
  case (4 n s)
  then show ?case
    by (auto split: list.splits if_splits option.splits dest!: skip_space_Cons; fastforce)
next
  case (6 n s)
  then show ?case
    by (auto split: list.splits if_splits option.splits dest!: skip_space_Cons parse_string_length; fastforce)
qed auto

lemma parse_fuel:
  "2 * length s < n \<Longrightarrow> 2 * length s < m \<Longrightarrow> parse_value n s = parse_value m s"
  "2 * length s + 1 < n \<Longrightarrow> 2 * length s + 1 < m \<Longrightarrow> parse_items n s = parse_items m s"
  "2 * length s + 1 < n \<Longrightarrow> 2 * length s + 1 < m \<Longrightarrow> parse_members n s = parse_members m s"
proof (induction n s and n s and n s arbitrary: m and m and m
    rule: parse_value_parse_items_parse_members.induct)
  case (2 n s)
  obtain k where m: "m = Suc k" using 2(4) by (cases m) simp_all
  show ?case
  proof (cases "skip_space s")
    case (Cons c r)
    then have l: "2 * length r + 1 < n" "2 * length r + 1 < k"
      using skip_space_Cons [OF Cons] 2(3,4) m by simp_all
    have i: "parse_items n r = parse_items k r" if "c = CHR ''[''" "closes (CHR '']'') r = None"
      by (rule 2(1) [OF Cons _ that l]) (simp add: that(1))
    have o': "parse_members n r = parse_members k r" if "c = CHR ''{''" "closes (CHR ''}'') r = None"
      by (rule 2(2) [OF Cons _ _ that l]) (simp_all add: that(1))
    show ?thesis
    proof (cases "c = CHR ''[''")
      case True
      show ?thesis
      proof (cases "closes (CHR '']'') r")
        case None
        show ?thesis unfolding m parse_value.simps Cons list.case i [OF True None] using True by simp
      qed (simp add: m Cons True)
    next
      case nb: False
      show ?thesis
      proof (cases "c = CHR ''{''")
        case True
        show ?thesis
        proof (cases "closes (CHR ''}'') r")
          case None
          show ?thesis unfolding m parse_value.simps Cons list.case o' [OF True None] using True by simp
        qed (simp add: m Cons True)
      next
        case False
        then show ?thesis using nb by (simp add: m Cons)
      qed
    qed
  qed (simp add: m)
next
  case (4 n s)
  obtain k where m: "m = Suc k" using 4(4) by (cases m) simp_all
  have v: "parse_value n s = parse_value k s" by (rule 4(1)) (use 4(3,4) m in simp_all)
  show ?case
  proof (cases "parse_value n s")
    case (Some xr)
    obtain x r where xr: "xr = (x, r)" by (cases xr)
    have l: "length r < length s" using parse_consumes(1) Some xr by blast
    show ?thesis
    proof (cases "skip_space r")
      case (Cons c t)
      then have "parse_items n t = parse_items k t" if "c \<noteq> CHR '']''" "c = CHR '',''"
        using that 4(2) [OF Some xr [symmetric] Cons that] skip_space_Cons [OF Cons] 4(3,4) m l by simp
      then show ?thesis using Cons Some xr v m by simp
    qed (use Some xr v m in simp)
  qed (use v m in simp)
next
  case (6 n s)
  obtain k where m: "m = Suc k" using 6(4) by (cases m) simp_all
  show ?case
  proof (cases "\<exists>q r key r1 c r2. skip_space s = q # r \<and> q = CHR 0x22 \<and> parse_string r = Some (key, r1)
      \<and> skip_space r1 = c # r2 \<and> c = CHR '':''")
    case True
    then obtain q r key r1 c r2 where
      p: "skip_space s = q # r" "q = CHR 0x22" "parse_string r = Some (key, r1)"
        "skip_space r1 = c # r2" "c = CHR '':''" by blast
    have l: "length r2 < length s"
      using skip_space_Cons [OF p(1)] parse_string_length [OF p(3)] skip_space_Cons [OF p(4)] by simp
    have v: "parse_value n r2 = parse_value k r2"
      using 6(1) [OF p(1) _ p(3) _ p(4)] p l 6(3,4) m by simp
    show ?thesis
    proof (cases "parse_value n r2")
      case (Some vr)
      obtain val r3 where vr: "vr = (val, r3)" by (cases vr)
      have l3: "length r3 < length s" using parse_consumes(1) Some vr l by fastforce
      show ?thesis
      proof (cases "skip_space r3")
        case (Cons d t)
        then have "parse_members n t = parse_members k t" if "d \<noteq> CHR ''}''" "d = CHR '',''"
          using that 6(2) [OF p(1) _ p(3) refl p(4) _ Some vr [symmetric] Cons that]
            p skip_space_Cons [OF Cons] 6(3,4) m l3 by simp
        then show ?thesis using Cons Some vr v m p by simp
      qed (use Some vr v m p in simp)
    qed (use v m p in simp)
  next
    case False
    then show ?thesis using m by (auto split: list.split option.split prod.split)
  qed
qed auto

text \<open>More fuel never changes what a document parses to.\<close>

lemma json_parse_fuel:
  assumes "2 * length s < n"
  shows "json_parse s = (case parse_value n s of
      Some (v, r) \<Rightarrow> if skip_space r = [] then Some v else None | None \<Rightarrow> None)"
  using parse_fuel(1) [of s n "2 * length s + 2"] assms by (simp add: json_parse_def)

section \<open>Decoding into Go values\<close>

text \<open>
  \<open>Unmarshal\<close> into a struct reads the members in order; one whose name is a field's tag, letter
  case ignored, sets that field, and \<open>null\<close> leaves it as it is.
\<close>

definition json_lower :: "string \<Rightarrow> string" where
  "json_lower = map (\<lambda>c. if CHR ''A'' \<le> c \<and> c \<le> CHR ''Z'' then char_of (of_char c + 32 :: nat) else c)"

definition int64_text :: "string \<Rightarrow> int option" where
  "int64_text s =
     (case s of
        [] \<Rightarrow> None
      | c # ds \<Rightarrow>
          (let (neg, digits) = (if c = CHR ''-'' then (True, ds) else (False, s)) in
           if digits = [] then None
           else (case digits_value 0 digits of
                   None \<Rightarrow> None
                 | Some n \<Rightarrow>
                     (let i = (if neg then - int n else int n) in
                      if - (2 ^ 63) \<le> i \<and> i < 2 ^ 63 then Some i else None))))"

text \<open>
  A field's value after all members have been read, starting from the zero value; \<open>None\<close> when
  a member of the wrong type makes \<open>Unmarshal\<close> fail: a string field and an \<open>int64\<close> field.
\<close>

fun field_string :: "string \<Rightarrow> string \<Rightarrow> (string \<times> json) list \<Rightarrow> string option" where
  "field_string tag acc [] = Some acc"
| "field_string tag acc ((k, v) # kvs) =
     (if json_lower k \<noteq> json_lower tag then field_string tag acc kvs
      else (case v of
              JNull \<Rightarrow> field_string tag acc kvs
            | JStr s \<Rightarrow> field_string tag s kvs
            | _ \<Rightarrow> None))"

fun field_int64 :: "string \<Rightarrow> int \<Rightarrow> (string \<times> json) list \<Rightarrow> int option" where
  "field_int64 tag acc [] = Some acc"
| "field_int64 tag acc ((k, v) # kvs) =
     (if json_lower k \<noteq> json_lower tag then field_int64 tag acc kvs
      else (case v of
              JNull \<Rightarrow> field_int64 tag acc kvs
            | JNum n \<Rightarrow> (case int64_text n of None \<Rightarrow> None | Some i \<Rightarrow> field_int64 tag i kvs)
            | _ \<Rightarrow> None))"

text \<open>\<open>Unmarshal\<close> into a struct accepts an object or \<open>null\<close>.\<close>

definition json_members :: "json \<Rightarrow> (string \<times> json) list option" where
  "json_members v = (case v of JObj kvs \<Rightarrow> Some kvs | JNull \<Rightarrow> Some [] | _ \<Rightarrow> None)"

end
