(* ===== verification/GoTime.thy ===== *)
theory GoTime
  imports GoStrings "HOL-Library.Monad_Syntax"
begin

text \<open>
  Instants and durations. An instant (\<open>time.Time\<close>) is the number of nanoseconds since the
  Unix epoch, a duration a number of nanoseconds; products of a duration with a value the
  code is given wrap at 64 bits (\<open>dur_mul\<close>). \<open>format_RFC3339Nano\<close> is
  \<open>t.UTC().Format(time.RFC3339Nano)\<close> and \<open>parse_RFC3339Nano\<close> is
  \<open>time.Parse(time.RFC3339Nano, s)\<close> on the strict RFC 3339 shape (Go also accepts a few
  lenient spellings, a one-digit hour for instance, which the model rejects).
\<close>

type_synonym time = int
type_synonym duration = int

definition nanosecond :: duration where "nanosecond = 1"
definition millisecond :: duration where "millisecond = 1000000"
definition second :: duration where "second = 1000000000"
definition minute :: duration where "minute = 60 * 1000000000"
definition hour :: duration where "hour = 3600 * 1000000000"
definition day :: duration where "day = 24 * 3600 * 1000000000"

lemmas duration_defs = nanosecond_def millisecond_def second_def minute_def hour_def day_def

definition dur_mul :: "int \<Rightarrow> duration \<Rightarrow> duration" where
  "dur_mul n d = wrap64 (n * d)"

text \<open>\<open>t.Sub(u)\<close> saturates at the extreme durations.\<close>

definition Sub_sat :: "time \<Rightarrow> time \<Rightarrow> duration" where
  "Sub_sat a b = max (- (2 ^ 63)) (min (2 ^ 63 - 1) (a - b))"

text \<open>The zero value of \<open>time.Time\<close>, January 1 of year 1.\<close>

definition zero_time :: time where
  "zero_time = - 62135596800 * 1000000000"

text \<open>\<open>d.Milliseconds()\<close> truncates towards zero.\<close>

definition Milliseconds :: "duration \<Rightarrow> int" where
  "Milliseconds d = sgn d * (\<bar>d\<bar> div 1000000)"

definition Unix :: "time \<Rightarrow> int" where
  "Unix t = t div 1000000000"

section \<open>Civil dates\<close>

definition is_leap :: "int \<Rightarrow> bool" where
  "is_leap y \<longleftrightarrow> 4 dvd y \<and> (\<not> 100 dvd y \<or> 400 dvd y)"

definition month_lengths :: "int \<Rightarrow> int list" where
  "month_lengths y = [31, if is_leap y then 29 else 28, 31, 30, 31, 30, 31, 31, 30, 31, 30, 31]"

text \<open>Days from January 1 of year 1 to January 1 of year \<open>y\<close>.\<close>

definition days_before_year :: "int \<Rightarrow> int" where
  "days_before_year y = (let q = y - 1 in 365 * q + q div 4 - q div 100 + q div 400)"

definition year_of_day :: "int \<Rightarrow> int" where
  "year_of_day n = (let y = n * 400 div 146097 + 1
                    in if days_before_year (y + 1) \<le> n then y + 1 else y)"

fun month_day :: "int list \<Rightarrow> int \<Rightarrow> int \<times> int" where
  "month_day [] d = (1, d + 1)"
| "month_day (l # ls) d =
     (if d < l then (1, d + 1) else (case month_day ls (d - l) of (m, e) \<Rightarrow> (m + 1, e)))"

definition epoch_day :: int where "epoch_day = 719162"

lemma days_before_year_bounds:
  "146097 * q - 699 \<le> 400 * days_before_year (q + 1)"
  "400 * days_before_year (q + 1) \<le> 146097 * q + 396"
  unfolding days_before_year_def Let_def by simp_all

lemma year_of_day_bounds:
  "days_before_year (year_of_day n) \<le> n" "n < days_before_year (year_of_day n + 1)"
proof -
  define q where "q = n * 400 div 146097"
  define r where "r = n * 400 mod 146097"
  have "n * 400 = 146097 * q + r" "0 \<le> r" "r < 146097"
    by (simp_all add: q_def r_def)
  then have n: "146097 * q \<le> n * 400" "n * 400 < 146097 * (q + 1)"
    by (simp_all add: algebra_simps)
  have "400 * days_before_year (q + 1) \<le> n * 400 + 396"
    using days_before_year_bounds(2) [of q] n by linarith
  then have lo: "days_before_year (q + 1) \<le> n" by linarith
  have "146097 * (q + 2) - 699 \<le> 400 * days_before_year (q + 2 + 1)"
    by (rule days_before_year_bounds)
  with n have hi: "n < days_before_year (q + 1 + 1 + 1)"
    by (simp add: algebra_simps)
  show "days_before_year (year_of_day n) \<le> n"
    using lo by (simp add: year_of_day_def Let_def flip: q_def)
  show "n < days_before_year (year_of_day n + 1)"
    using hi by (simp add: year_of_day_def Let_def flip: q_def)
qed

lemma div_step:
  assumes "(0::int) < k"
  shows "y div k = (y - 1) div k + (if k dvd y then 1 else 0)"
proof (cases "k dvd y")
  case True
  then obtain q where y: "y = k * q" by blast
  have "(y - 1) div k = q - 1"
    by (rule int_div_pos_eq [where r = "k - 1"]) (use assms y in \<open>simp_all add: algebra_simps\<close>)
  with True y assms show ?thesis by simp
next
  case False
  then have "1 \<le> y mod k" using assms by (smt (verit) dvd_eq_mod_eq_0 pos_mod_sign)
  moreover have "y mod k < k" using assms by simp
  moreover have "y = k * (y div k) + y mod k" by simp
  ultimately have "(y - 1) div k = y div k"
    using assms by (intro int_div_pos_eq [where r = "y mod k - 1"]) linarith+
  with False show ?thesis by simp
qed

lemma year_length: "days_before_year (y + 1) = days_before_year y + sum_list (month_lengths y)"
proof -
  have "400 dvd y \<Longrightarrow> 100 dvd y" "100 dvd y \<Longrightarrow> 4 dvd y"
    using dvd_trans [of 100 400 y] dvd_trans [of 4 100 y] by simp_all
  moreover have "days_before_year (y + 1) = days_before_year y + 365
      + (if 4 dvd y then 1 else 0) - (if 100 dvd y then 1 else 0) + (if 400 dvd y then 1 else 0)"
    by (simp add: days_before_year_def Let_def div_step [of 4 y] div_step [of 100 y]
        div_step [of 400 y] del: if_split)
  ultimately show ?thesis
    by (cases "4 dvd y"; cases "100 dvd y"; cases "400 dvd y")
      (simp_all add: month_lengths_def is_leap_def)
qed

lemma month_day_inverse:
  assumes "month_day ls d = (m, e)"
  shows "1 \<le> m \<and> sum_list (take (nat (m - 1)) ls) + (e - 1) = d"
  using assms
proof (induction ls d arbitrary: m e rule: month_day.induct)
  case (1 d)
  then show ?case by auto
next
  case (2 l ls d)
  show ?case
  proof (cases "d < l")
    case True
    with 2 show ?thesis by auto
  next
    case False
    obtain m' e' where me: "month_day ls (d - l) = (m', e')" by fastforce
    with False 2 have "m = m' + 1" "e = e'" by auto
    moreover have "1 \<le> m'" "sum_list (take (nat (m' - 1)) ls) + (e' - 1) = d - l"
      using 2 False me by auto
    moreover have "nat (m' + 1 - 1) = Suc (nat (m' - 1))" using \<open>1 \<le> m'\<close> by simp
    ultimately show ?thesis by simp
  qed
qed

lemma month_day_range:
  assumes "month_day ls d = (m, e)" and "0 \<le> d" and "d < sum_list ls"
  shows "1 \<le> m \<and> m \<le> int (length ls) \<and> 1 \<le> e \<and> e \<le> ls ! nat (m - 1)"
  using assms
proof (induction ls d arbitrary: m e rule: month_day.induct)
  case (1 d)
  then show ?case by auto
next
  case (2 l ls d)
  show ?case
  proof (cases "d < l")
    case True
    with 2 show ?thesis by auto
  next
    case False
    obtain m' e' where me: "month_day ls (d - l) = (m', e')" by fastforce
    with False 2 have "m = m' + 1" "e = e'" by auto
    moreover have "1 \<le> m' \<and> m' \<le> int (length ls) \<and> 1 \<le> e' \<and> e' \<le> ls ! nat (m' - 1)"
      using 2 False me by auto
    moreover have "nat (m' + 1 - 1) = Suc (nat (m' - 1))" using calculation by arith
    ultimately show ?thesis by simp
  qed
qed

section \<open>Fixed-width numerals\<close>

fun pad :: "nat \<Rightarrow> nat \<Rightarrow> string" where
  "pad 0 n = []"
| "pad (Suc w) n = pad w (n div 10) @ [digit_char (n mod 10)]"

lemma length_pad [simp]: "length (pad w n) = w"
  by (induction w arbitrary: n) auto

lemma digits_value_pad: "n < 10 ^ w \<Longrightarrow> digits_value 0 (pad w n) = Some n"
  by (induction w arbitrary: n) (auto simp: digits_value_append)

definition is_digit :: "char \<Rightarrow> bool" where
  "is_digit c \<longleftrightarrow> digit_value c \<noteq> None"

lemma is_digit_digit_char [simp]: "d < 10 \<Longrightarrow> is_digit (digit_char d)"
  by (simp add: is_digit_def)

lemma pad_digits: "c \<in> set (pad w n) \<Longrightarrow> is_digit c"
  by (induction w arbitrary: n) auto

definition trim_zeros :: "string \<Rightarrow> string" where
  "trim_zeros s = TrimRightChar s (CHR ''0'')"

text \<open>Up to nine fraction digits, read as nanoseconds.\<close>

definition fraction_value :: "string \<Rightarrow> nat option" where
  "fraction_value ds =
     (let t = take 9 ds in map_option (\<lambda>n. n * 10 ^ (9 - length t)) (digits_value 0 t))"

lemma digits_value_zeros: "digits_value a (replicate k (CHR ''0'')) = Some (a * 10 ^ k)"
proof (induction k arbitrary: a)
  case 0
  then show ?case by simp
next
  case (Suc k)
  have "digit_value (CHR ''0'') = Some 0" by (simp add: digit_value_def)
  with Suc show ?case by simp
qed

lemma trim_zeros_decomp: "\<exists>k. s = trim_zeros s @ replicate k (CHR ''0'')"
proof -
  let ?r = "takeWhile (\<lambda>x. x = CHR ''0'') (rev s)"
  have "rev s = ?r @ dropWhile (\<lambda>x. x = CHR ''0'') (rev s)" by simp
  then have "s = rev (dropWhile (\<lambda>x. x = CHR ''0'') (rev s)) @ rev ?r"
    by (metis rev_append rev_rev_ident)
  moreover have "rev ?r = replicate (length ?r) (CHR ''0'')"
    by (rule replicate_eqI) (auto dest: set_takeWhileD)
  ultimately have "s = trim_zeros s @ replicate (length ?r) (CHR ''0'')"
    by (simp only: trim_zeros_def TrimRightChar_def)
  then show ?thesis by blast
qed

lemma fraction_value_trim:
  assumes "n < 10 ^ 9"
  shows "fraction_value (trim_zeros (pad 9 n)) = Some n"
proof -
  let ?t = "trim_zeros (pad 9 n)"
  obtain k where k: "pad 9 n = ?t @ replicate k (CHR ''0'')" using trim_zeros_decomp by blast
  then have "length (pad 9 n) = length ?t + k" by (metis length_append length_replicate)
  then have len: "k = 9 - length ?t" "length ?t \<le> 9" by simp_all
  have "digits_value 0 (?t @ replicate k (CHR ''0'')) = Some n"
    using digits_value_pad [OF assms] k by simp
  then obtain a where "digits_value 0 ?t = Some a" "a * 10 ^ k = n"
    by (auto simp: digits_value_append digits_value_zeros split: option.splits)
  with len show ?thesis by (simp add: fraction_value_def Let_def)
qed

section \<open>RFC 3339 with nanoseconds\<close>

definition year_text :: "int \<Rightarrow> string" where
  "year_text y =
     (if y < 0 then ''-'' @ pad 4 (nat (- y))
      else if y < 10000 then pad 4 (nat y) else digits_of_nat (nat y))"

definition fraction_text :: "nat \<Rightarrow> string" where
  "fraction_text n = (let f = trim_zeros (pad 9 n) in if f = [] then [] else CHR ''.'' # f)"

definition format_RFC3339Nano :: "time \<Rightarrow> string" where
  "format_RFC3339Nano t =
     (let secs = t div 1000000000; nanos = nat (t mod 1000000000);
          dn = secs div 86400 + epoch_day; tod = nat (secs mod 86400);
          y = year_of_day dn;
          (m, d) = month_day (month_lengths y) (dn - days_before_year y)
      in year_text y @ ''-'' @ pad 2 (nat m) @ ''-'' @ pad 2 (nat d) @ ''T'' @
         pad 2 (tod div 3600) @ '':'' @ pad 2 (tod div 60 mod 60) @ '':'' @ pad 2 (tod mod 60) @
         fraction_text nanos @ ''Z'')"

text \<open>\<open>t.UTC().Format(time.RFC3339)\<close>: whole seconds.\<close>

definition format_RFC3339 :: "time \<Rightarrow> string" where
  "format_RFC3339 t = format_RFC3339Nano (t - t mod second)"

definition take_num :: "nat \<Rightarrow> nat \<Rightarrow> nat \<Rightarrow> string \<Rightarrow> (nat \<times> string) option" where
  "take_num w lo hi s =
     (if length s < w then None
      else (case digits_value 0 (take w s) of
              None \<Rightarrow> None
            | Some n \<Rightarrow> if lo \<le> n \<and> n \<le> hi then Some (n, drop w s) else None))"

fun expect :: "char \<Rightarrow> string \<Rightarrow> string option" where
  "expect c [] = None"
| "expect c (x # xs) = (if x = c then Some xs else None)"

definition take_fraction :: "string \<Rightarrow> nat \<times> string" where
  "take_fraction s =
     (case s of
        c # rest \<Rightarrow>
          (let ds = takeWhile is_digit rest in
           if c = CHR ''.'' \<and> ds \<noteq> []
           then (case fraction_value ds of None \<Rightarrow> (0, s) | Some n \<Rightarrow> (n, dropWhile is_digit rest))
           else (0, s))
      | [] \<Rightarrow> (0, s))"

text \<open>The zone: \<open>Z\<close> or a signed offset \<open>hh:mm\<close>, in seconds east of UTC.\<close>

definition parse_zone :: "string \<Rightarrow> int option" where
  "parse_zone s =
     (if s = ''Z'' then Some 0
      else (case s of
              [] \<Rightarrow> None
            | c # rest \<Rightarrow>
                (if c = CHR ''+'' \<or> c = CHR ''-'' then
                   do { (h, r) \<leftarrow> take_num 2 0 23 rest;
                        r \<leftarrow> expect (CHR '':'') r;
                        (mm, r) \<leftarrow> take_num 2 0 59 r;
                        if r = [] then Some ((if c = CHR ''-'' then -1 else 1) *
                                             (int h * 3600 + int mm * 60))
                        else None }
                 else None)))"

definition parse_RFC3339Nano :: "string \<Rightarrow> time option" where
  "parse_RFC3339Nano s =
     do { (y, s) \<leftarrow> take_num 4 0 9999 s;
          s \<leftarrow> expect (CHR ''-'') s;
          (m, s) \<leftarrow> take_num 2 1 12 s;
          s \<leftarrow> expect (CHR ''-'') s;
          (d, s) \<leftarrow> take_num 2 1 (nat (month_lengths (int y) ! (m - 1))) s;
          s \<leftarrow> expect (CHR ''T'') s;
          (hh, s) \<leftarrow> take_num 2 0 23 s;
          s \<leftarrow> expect (CHR '':'') s;
          (mi, s) \<leftarrow> take_num 2 0 59 s;
          s \<leftarrow> expect (CHR '':'') s;
          (ss, s) \<leftarrow> take_num 2 0 59 s;
          (case take_fraction s of (nanos, s) \<Rightarrow>
             do { offset \<leftarrow> parse_zone s;
                  Some (((days_before_year (int y) +
                          sum_list (take (m - 1) (month_lengths (int y))) + (int d - 1)
                          - epoch_day) * 86400
                         + int hh * 3600 + int mi * 60 + int ss - offset) * 1000000000
                        + int nanos) }) }"

lemma take_num_pad:
  "n < 10 ^ w \<Longrightarrow> lo \<le> n \<Longrightarrow> n \<le> hi \<Longrightarrow> take_num w lo hi (pad w n @ rest) = Some (n, rest)"
  by (simp add: take_num_def digits_value_pad)

lemma not_digit_Z [simp]: "\<not> is_digit (CHR ''Z'')"
  by (simp add: is_digit_def digit_value_def)

lemma take_fraction_text:
  assumes "n < 10 ^ 9"
  shows "take_fraction (fraction_text n @ ''Z'') = (n, ''Z'')"
proof (cases "trim_zeros (pad 9 n) = []")
  case True
  with fraction_value_trim [OF assms] have "n = 0"
    by (simp add: fraction_value_def)
  with True show ?thesis by (simp add: fraction_text_def Let_def take_fraction_def)
next
  case False
  let ?f = "trim_zeros (pad 9 n)"
  obtain k where "pad 9 n = ?f @ replicate k (CHR ''0'')" using trim_zeros_decomp by blast
  then have "set ?f \<subseteq> set (pad 9 n)" by (metis set_append Un_upper1)
  then have d: "\<forall>c \<in> set ?f. is_digit c" using pad_digits by blast
  then have "takeWhile is_digit (?f @ ''Z'') = ?f" "dropWhile is_digit (?f @ ''Z'') = ''Z''"
    by (simp_all add: takeWhile_append2 dropWhile_append2)
  with False fraction_value_trim [OF assms] show ?thesis
    by (simp add: fraction_text_def Let_def take_fraction_def)
qed


text \<open>The instants of the years 1 to 9999, whose year Go prints with four digits.\<close>

definition four_digit_year :: "time \<Rightarrow> bool" where
  "four_digit_year t \<longleftrightarrow> zero_time \<le> t \<and> t < 253402300800 * 1000000000"

lemma year_of_day_range:
  assumes "0 \<le> n" and "n < 3652059"
  shows "0 \<le> year_of_day n \<and> year_of_day n \<le> 9999"
proof -
  let ?y = "year_of_day n"
  note b = year_of_day_bounds [of n]
  have "400 * n < 146097 * ?y + 396"
    using days_before_year_bounds(2) [of ?y] b by simp
  then have lo: "0 \<le> ?y" using assms(1) by simp
  have "146097 * (?y - 1) - 699 \<le> 400 * n"
    using days_before_year_bounds(1) [of "?y - 1"] b by simp
  then have "?y \<le> 10000" using assms(2) by simp
  moreover have "?y \<noteq> 10000"
    using b(1) assms(2) by (auto simp: days_before_year_def)
  ultimately show ?thesis using lo by simp
qed

lemma format_parts:
  assumes "four_digit_year t"
  obtains y m d hh mi ss nanos where
    "y \<le> 9999" "1 \<le> m" "m \<le> 12" "1 \<le> d" "d \<le> nat (month_lengths (int y) ! (m - 1))"
    "d < 100" "hh \<le> 23" "mi \<le> 59" "ss \<le> 59" "nanos < 10 ^ 9"
    "t = ((days_before_year (int y) + sum_list (take (m - 1) (month_lengths (int y))) +
           (int d - 1) - epoch_day) * 86400 + int hh * 3600 + int mi * 60 + int ss) * 1000000000
         + int nanos"
    "format_RFC3339Nano t = pad 4 y @ ''-'' @ pad 2 m @ ''-'' @ pad 2 d @ ''T'' @
       pad 2 hh @ '':'' @ pad 2 mi @ '':'' @ pad 2 ss @ fraction_text nanos @ ''Z''"
proof -
  define secs where "secs = t div 1000000000"
  define dn where "dn = secs div 86400 + epoch_day"
  define y where "y = year_of_day dn"
  obtain m d where md: "month_day (month_lengths y) (dn - days_before_year y) = (m, d)"
    by fastforce
  have secs: "t = secs * 1000000000 + t mod 1000000000" by (simp add: secs_def)
  have dn: "secs = (dn - epoch_day) * 86400 + secs mod 86400" by (simp add: dn_def)
  have "- 62135596800 \<le> secs" "secs < 253402300800"
    using assms by (auto simp: four_digit_year_def zero_time_def secs_def div_less_iff_less_mult)
  then have "0 \<le> dn" "dn < 3652059"
    by (simp_all add: dn_def epoch_day_def)
  then have y: "0 \<le> y" "y \<le> 9999"
    using year_of_day_range by (simp_all add: y_def)
  have "0 \<le> dn - days_before_year y" "dn - days_before_year y < sum_list (month_lengths y)"
    using year_of_day_bounds [of dn] year_length [of y] by (simp_all add: y_def)
  with md have r: "1 \<le> m" "m \<le> 12" "1 \<le> d" "d \<le> month_lengths y ! nat (m - 1)"
    using month_day_range [OF md] by (simp_all add: month_lengths_def)
  have inv: "sum_list (take (nat (m - 1)) (month_lengths y)) + (d - 1) = dn - days_before_year y"
    using month_day_inverse [OF md] by simp
  have "nat (m - 1) < length (month_lengths y)" using r(1,2) by (simp add: month_lengths_def)
  then have "month_lengths y ! nat (m - 1) \<in> set (month_lengths y)" by (rule nth_mem)
  moreover have "\<forall>l \<in> set (month_lengths y). l \<le> 31" by (simp add: month_lengths_def)
  ultimately have "month_lengths y ! nat (m - 1) \<le> 31" by blast
  define tod where "tod = nat (secs mod 86400)"
  have tod: "tod < 86400" "int tod = secs mod 86400" by (simp_all add: tod_def nat_less_iff)
  have "tod div 3600 = tod div 60 div 60" by (simp flip: div_mult2_eq)
  moreover have "tod = tod div 60 * 60 + tod mod 60" by simp
  moreover have "tod div 60 = tod div 60 div 60 * 60 + tod div 60 mod 60" by simp
  ultimately have "tod = tod div 3600 * 3600 + tod div 60 mod 60 * 60 + tod mod 60" by linarith
  then have "int tod = int (tod div 3600) * 3600 + int (tod div 60 mod 60) * 60 + int (tod mod 60)"
    by (subst (asm) of_nat_eq_iff [symmetric, where 'a = int])
      (simp only: of_nat_add of_nat_mult of_nat_numeral)
  with dn tod have dn': "secs = (dn - epoch_day) * 86400 + int (tod div 3600) * 3600 +
      int (tod div 60 mod 60) * 60 + int (tod mod 60)" by linarith
  show thesis
  proof (rule that [of "nat y" "nat m" "nat d" "tod div 3600" "tod div 60 mod 60" "tod mod 60"
        "nat (t mod 1000000000)"])
    have m1: "nat m - 1 = nat (m - 1)" using r by simp
    have eqs: "int (nat y) = y" "int (nat d) = d" "int (nat (t mod 1000000000)) = t mod 1000000000"
      using y r by simp_all
    have "secs = (days_before_year y + sum_list (take (nat (m - 1)) (month_lengths y)) + (d - 1)
        - epoch_day) * 86400 + int (tod div 3600) * 3600 + int (tod div 60 mod 60) * 60
        + int (tod mod 60)"
      using dn' inv by simp
    then have "t = ((days_before_year y + sum_list (take (nat (m - 1)) (month_lengths y)) + (d - 1)
        - epoch_day) * 86400 + int (tod div 3600) * 3600 + int (tod div 60 mod 60) * 60
        + int (tod mod 60)) * 1000000000 + t mod 1000000000"
      using secs by metis
    then show "t = ((days_before_year (int (nat y)) +
        sum_list (take (nat m - 1) (month_lengths (int (nat y)))) + (int (nat d) - 1) - epoch_day)
        * 86400 + int (tod div 3600) * 3600 + int (tod div 60 mod 60) * 60 + int (tod mod 60))
        * 1000000000 + int (nat (t mod 1000000000))"
      by (simp only: m1 eqs)
    show "format_RFC3339Nano t = pad 4 (nat y) @ ''-'' @ pad 2 (nat m) @ ''-'' @ pad 2 (nat d) @
        ''T'' @ pad 2 (tod div 3600) @ '':'' @ pad 2 (tod div 60 mod 60) @ '':'' @ pad 2 (tod mod 60) @
        fraction_text (nat (t mod 1000000000)) @ ''Z''"
      using md y by (simp add: format_RFC3339Nano_def Let_def year_text_def flip: secs_def dn_def y_def tod_def)
    show "nat d \<le> nat (month_lengths (int (nat y)) ! (nat m - 1))"
      using r m1 y by simp
    show "nat d < 100"
      using \<open>month_lengths y ! nat (m - 1) \<le> 31\<close> r by simp
  qed (use y r tod in \<open>simp_all add: nat_less_iff less_mult_imp_div_less\<close>)
qed

theorem parse_format_RFC3339Nano:
  assumes "four_digit_year t"
  shows "parse_RFC3339Nano (format_RFC3339Nano t) = Some t"
proof -
  obtain y m d hh mi ss nanos where
    r: "y \<le> 9999" "1 \<le> m" "m \<le> 12" "1 \<le> d" "d \<le> nat (month_lengths (int y) ! (m - 1))"
    "d < 100" "hh \<le> 23" "mi \<le> 59" "ss \<le> 59" "nanos < 10 ^ 9"
    and t: "t = ((days_before_year (int y) + sum_list (take (m - 1) (month_lengths (int y))) +
           (int d - 1) - epoch_day) * 86400 + int hh * 3600 + int mi * 60 + int ss) * 1000000000
         + int nanos"
    and f: "format_RFC3339Nano t = pad 4 y @ ''-'' @ pad 2 m @ ''-'' @ pad 2 d @ ''T'' @
       pad 2 hh @ '':'' @ pad 2 mi @ '':'' @ pad 2 ss @ fraction_text nanos @ ''Z''"
    using format_parts [OF assms] by metis
  have n: "take_num 4 0 9999 (pad 4 y @ s) = Some (y, s)"
    "take_num 2 1 12 (pad 2 m @ s) = Some (m, s)"
    "take_num 2 1 (nat (month_lengths (int y) ! (m - 1))) (pad 2 d @ s) = Some (d, s)"
    "take_num 2 0 23 (pad 2 hh @ s) = Some (hh, s)"
    "take_num 2 0 59 (pad 2 mi @ s) = Some (mi, s)"
    "take_num 2 0 59 (pad 2 ss @ s) = Some (ss, s)" for s
    by (rule take_num_pad; use r in simp)+
  show ?thesis
    unfolding f parse_RFC3339Nano_def
    by (simp only: n take_fraction_text [OF r(10)] append_Cons append_Nil bind.bind_lunit
        expect.simps if_True simp_thms parse_zone_def case_prod_conv t)
      simp
qed

lemma TrimRightChar_set: "set (TrimRightChar s c) \<subseteq> set s"
  by (auto simp: TrimRightChar_def dest: set_dropWhileD)

lemma digits_of_nat_digits: "c \<in> set (digits_of_nat n) \<Longrightarrow> is_digit c"
proof (induction n rule: digits_of_nat.induct)
  case (1 n)
  then show ?case by (cases "n < 10") (auto simp: digits_of_nat.simps [of n])
qed

text \<open>The separator of the pagination cursors never occurs in a formatted instant.\<close>

lemma format_no_bar: "CHR ''|'' \<notin> set (format_RFC3339Nano t)"
proof -
  have b: "\<not> is_digit (CHR ''|'')" by (simp add: is_digit_def digit_value_def)
  have p: "CHR ''|'' \<notin> set (pad w n)" for w n using b pad_digits by blast
  have "CHR ''|'' \<notin> set (digits_of_nat n)" for n using b digits_of_nat_digits by blast
  with p have y: "CHR ''|'' \<notin> set (year_text y)" for y by (simp add: year_text_def)
  have "CHR ''|'' \<notin> set (fraction_text n)" for n
    using p [of 9 n] TrimRightChar_set [of "pad 9 n" "CHR ''0''"]
    by (auto simp: fraction_text_def trim_zeros_def Let_def simp del: pad.simps)
  with p y show ?thesis
    by (simp add: format_RFC3339Nano_def Let_def split: prod.split)
qed

lemma format_nonempty: "format_RFC3339Nano t \<noteq> []"
  by (simp add: format_RFC3339Nano_def Let_def split: prod.split)

end
