(* ===== verification/GoAny.thy ===== *)
theory GoAny
  imports GoJSON GoTime "HOL-Library.AList"
begin

text \<open>
  Values of type \<open>any\<close>, as the execution, trigger, catalog and logging modules use them: decoded from
  JSON, an object becomes a map (one value per key, the last one), a number a \<open>float64\<close>. Maps are
  sorted by key, the order in which \<open>json.Marshal\<close> and \<open>fmt.Sprint\<close> go through a map; a \<open>float64\<close>
  keeps a literal, and the number it denotes is computed where the code prints it.
\<close>

section \<open>Numbers: float64\<close>

text \<open>A positive rational is a pair of integers, the numerator and the denominator.\<close>

type_synonym frac = "int \<times> int"

function ilog :: "int \<Rightarrow> int \<Rightarrow> int" where
  "ilog b n = (if b < 2 \<or> n < b then 0 else ilog b (n div b) + 1)"
  by auto
termination
proof (relation "measure (\<lambda>(b, n). nat n)")
  fix b n :: int assume "\<not> (b < 2 \<or> n < b)"
  then have "n div b < n" by (intro int_div_less_self) auto
  with \<open>\<not> (b < 2 \<or> n < b)\<close> show "((b, n div b), b, n) \<in> measure (\<lambda>(b, n). nat n)" by simp
qed simp

declare ilog.simps [simp del]

definition at_least_pow :: "int \<Rightarrow> int \<Rightarrow> frac \<Rightarrow> bool" where
  "at_least_pow b e x \<longleftrightarrow>
     (if 0 \<le> e then b ^ nat e * snd x \<le> fst x else snd x \<le> fst x * b ^ nat (- e))"

definition over_pow :: "int \<Rightarrow> int \<Rightarrow> frac \<Rightarrow> frac" where
  "over_pow b e x = (if 0 \<le> e then (fst x, snd x * b ^ nat e) else (fst x * b ^ nat (- e), snd x))"

definition times_pow :: "int \<Rightarrow> int \<Rightarrow> int \<Rightarrow> frac" where
  "times_pow m b e = (if 0 \<le> e then (m * b ^ nat e, 1) else (m, b ^ nat (- e)))"

definition same_frac :: "frac \<Rightarrow> frac \<Rightarrow> bool" where
  "same_frac x y \<longleftrightarrow> fst x * snd y = fst y * snd x"

text \<open>The largest \<open>e\<close> with \<open>b ^ e \<le> x\<close>, for a positive \<open>x\<close>.\<close>

definition floor_log :: "int \<Rightarrow> frac \<Rightarrow> int" where
  "floor_log b x =
     (let e = ilog b (fst x) - ilog b (snd x) in if at_least_pow b e x then e else e - 1)"

definition round_half_even :: "frac \<Rightarrow> int" where
  "round_half_even x =
     (let d = fst x div snd x; r = fst x mod snd x in
      if 2 * r < snd x then d else if 2 * r > snd x then d + 1 else if even d then d else d + 1)"

text \<open>The nearest double of a rational that is not negative; \<open>None\<close> beyond the largest one.\<close>

definition double_of :: "frac \<Rightarrow> frac option" where
  "double_of x =
     (if fst x = 0 then Some (0, 1)
      else (let e = max (floor_log 2 x - 52) (- 1074);
                v = times_pow (round_half_even (over_pow 2 e x)) 2 e
            in if at_least_pow 2 1024 v then None else Some v))"

text \<open>The fewest decimal digits that denote a double: \<open>(m, e)\<close> is \<open>m * 10 ^ e\<close>.\<close>

fun shortest_in :: "int list \<Rightarrow> frac \<Rightarrow> int \<times> int" where
  "shortest_in [] x = (0, 0)"
| "shortest_in (n # ns) x =
     (let e = floor_log 10 x - (n - 1);
          m = round_half_even (over_pow 10 e x);
          denotes = (case double_of (times_pow m 10 e) of None \<Rightarrow> False | Some y \<Rightarrow> same_frac x y)
      in if ns = [] \<or> denotes then (m, e) else shortest_in ns x)"

text \<open>The digits without trailing zeros and the position of the decimal point: \<open>0.d1d2... * 10 ^ dp\<close>.\<close>

definition shortest_digits :: "frac \<Rightarrow> string \<times> int" where
  "shortest_digits x =
     (case shortest_in [1, 2, 3, 4, 5, 6, 7, 8, 9, 10, 11, 12, 13, 14, 15, 16, 17] x of (m, e) \<Rightarrow>
        (let ds = digits_of_nat (nat m) in (trim_zeros ds, int (length ds) + e)))"

definition two_digits :: "nat \<Rightarrow> string" where
  "two_digits n = (if n < 10 then ''0'' @ digits_of_nat n else digits_of_nat n)"

definition format_e :: "string \<Rightarrow> int \<Rightarrow> string" where
  "format_e ds dp =
     take 1 ds @ (if length ds > 1 then ''.'' @ drop 1 ds else []) @ ''e''
     @ (if dp - 1 < 0 then ''-'' else ''+'') @ two_digits (nat \<bar>dp - 1\<bar>)"

definition format_f :: "string \<Rightarrow> int \<Rightarrow> string" where
  "format_f ds dp =
     (if dp \<le> 0 then ''0.'' @ replicate (nat (- dp)) (CHR ''0'') @ ds
      else if int (length ds) \<le> dp then ds @ replicate (nat dp - length ds) (CHR ''0'')
      else take (nat dp) ds @ ''.'' @ drop (nat dp) ds)"

definition is_exp_char :: "char \<Rightarrow> bool" where
  "is_exp_char c \<longleftrightarrow> c = CHR ''e'' \<or> c = CHR ''E''"

definition digits_nat :: "string \<Rightarrow> nat" where
  "digits_nat ds = (case digits_value 0 ds of None \<Rightarrow> 0 | Some n \<Rightarrow> n)"

text \<open>The sign and the absolute value of a literal of the JSON grammar.\<close>

definition literal_value :: "string \<Rightarrow> bool \<times> frac" where
  "literal_value s =
     (let neg = HasPrefix s ''-'';
          t = TrimPrefix s ''-'';
          mantissa = takeWhile (\<lambda>c. \<not> is_exp_char c) t;
          ex = drop 1 (dropWhile (\<lambda>c. \<not> is_exp_char c) t);
          whole = takeWhile (\<lambda>c. c \<noteq> CHR ''.'') mantissa;
          frac = drop 1 (dropWhile (\<lambda>c. c \<noteq> CHR ''.'') mantissa);
          e = (if HasPrefix ex ''-'' then - int (digits_nat (TrimPrefix ex ''-''))
               else int (digits_nat (TrimPrefix ex ''+'')))
      in (neg, times_pow (int (digits_nat (whole @ frac))) 10 (e - int (length frac))))"

definition literal_double :: "string \<Rightarrow> frac option" where
  "literal_double s = double_of (snd (literal_value s))"

definition float_text :: "(int \<Rightarrow> frac \<Rightarrow> bool) \<Rightarrow> string \<Rightarrow> string" where
  "float_text use_e s =
     (case literal_double s of
        None \<Rightarrow> []
      | Some x \<Rightarrow>
          (if fst (literal_value s) then ''-'' else []) @
          (if fst x = 0 then ''0''
           else (case shortest_digits x of (ds, dp) \<Rightarrow>
                   if use_e dp x then format_e ds dp else format_f ds dp)))"

text \<open>\<open>fmt.Sprint\<close> (the verb \<open>%v\<close>, that is \<open>%g\<close> with the shortest digits) and \<open>json.Marshal\<close>.\<close>

definition Sprint_float :: "string \<Rightarrow> string" where
  "Sprint_float = float_text (\<lambda>dp x. dp - 1 < - 4 \<or> dp - 1 \<ge> 6)"

definition clean_exponent :: "string \<Rightarrow> string" where
  "clean_exponent b =
     (let n = length b in
      if n \<ge> 4 \<and> take 3 (drop (n - 4) b) = ''e-0'' then take (n - 2) b @ drop (n - 1) b else b)"

definition json_float :: "string \<Rightarrow> string" where
  "json_float s = clean_exponent (float_text (\<lambda>dp x. \<not> at_least_pow 10 (- 6) x \<or> at_least_pow 10 21 x) s)"

section \<open>Values of type any\<close>

text \<open>
  \<open>AFloat\<close> is a \<open>float64\<close> given by a literal that denotes it, \<open>AInt\<close> an \<open>int\<close> (a number of a YAML
  definition, or one the code puts in itself), \<open>AMap\<close> a \<open>map[string]any\<close>: its members by key, without
  duplicates. A \<open>map[string]string\<close> is the same with strings.
\<close>

datatype any = ANil | ABool bool | AStr string | AFloat string | AInt int | ASlice "any list"
  | AMap "(string \<times> any) list"

type_synonym any_map = "(string \<times> any) list"
type_synonym string_map = "(string \<times> string) list"

definition as_map :: "(string \<times> 'a) list \<Rightarrow> (string \<times> 'a) list" where
  "as_map kvs = sort_key fst (AList.clearjunk (rev kvs))"

text \<open>\<open>m[k] = v\<close>.\<close>

definition map_put :: "string \<Rightarrow> 'a \<Rightarrow> (string \<times> 'a) list \<Rightarrow> (string \<times> 'a) list" where
  "map_put k v m = insort_key fst (k, v) (filter (\<lambda>kv. fst kv \<noteq> k) m)"

text \<open>
  What \<open>json.Unmarshal\<close> makes of a document; \<open>None\<close>: a number out of the range of \<open>float64\<close>, an error.
\<close>

fun decode_any :: "json \<Rightarrow> any option" where
  "decode_any JNull = Some ANil"
| "decode_any (JBool b) = Some (ABool b)"
| "decode_any (JStr s) = Some (AStr s)"
| "decode_any (JNum n) = (if literal_double n = None then None else Some (AFloat n))"
| "decode_any (JArr xs) = map_option ASlice (those (map decode_any xs))"
| "decode_any (JObj kvs) =
     map_option (\<lambda>vs. AMap (as_map (zip (map fst kvs) vs))) (those (map (\<lambda>kv. decode_any (snd kv)) kvs))"

definition Unmarshal_any :: "string \<Rightarrow> any option" where
  "Unmarshal_any body = (case json_parse body of None \<Rightarrow> None | Some v \<Rightarrow> decode_any v)"

fun Sprint :: "any \<Rightarrow> string" where
  "Sprint ANil = ''<nil>''"
| "Sprint (ABool b) = (if b then ''true'' else ''false'')"
| "Sprint (AStr s) = s"
| "Sprint (AFloat n) = Sprint_float n"
| "Sprint (AInt i) = itoa i"
| "Sprint (ASlice xs) = ''['' @ Join (map Sprint xs) '' '' @ '']''"
| "Sprint (AMap kvs) = ''map['' @ Join (map (\<lambda>kv. fst kv @ '':'' @ Sprint (snd kv)) kvs) '' '' @ '']''"

fun any_json :: "any \<Rightarrow> json" where
  "any_json ANil = JNull"
| "any_json (ABool b) = JBool b"
| "any_json (AStr s) = JStr s"
| "any_json (AFloat n) = JNum (json_float n)"
| "any_json (AInt i) = JNum (itoa i)"
| "any_json (ASlice xs) = JArr (map any_json xs)"
| "any_json (AMap kvs) = JObj (map (\<lambda>kv. (fst kv, any_json (snd kv))) kvs)"

definition marshal_any :: "any \<Rightarrow> string" where
  "marshal_any v = marshal (any_json v)"

definition string_map_any :: "string_map \<Rightarrow> any" where
  "string_map_any m = AMap (map (\<lambda>kv. (fst kv, AStr (snd kv))) m)"

text \<open>Type assertions.\<close>

definition as_object :: "any \<Rightarrow> any_map option" where
  "as_object v = (case v of AMap kvs \<Rightarrow> Some kvs | _ \<Rightarrow> None)"

definition as_string :: "any \<Rightarrow> string option" where
  "as_string v = (case v of AStr s \<Rightarrow> Some s | _ \<Rightarrow> None)"

definition as_slice :: "any \<Rightarrow> any list option" where
  "as_slice v = (case v of ASlice xs \<Rightarrow> Some xs | _ \<Rightarrow> None)"

text \<open>The representation invariant of maps.\<close>

definition map_wf :: "(string \<times> 'a) list \<Rightarrow> bool" where
  "map_wf m \<longleftrightarrow> sorted (map fst m) \<and> distinct (map fst m)"

fun any_wf :: "any \<Rightarrow> bool" where
  "any_wf (ASlice xs) \<longleftrightarrow> (\<forall>x \<in> set xs. any_wf x)"
| "any_wf (AMap kvs) \<longleftrightarrow> map_wf kvs \<and> (\<forall>kv \<in> set kvs. any_wf (snd kv))"
| "any_wf v \<longleftrightarrow> True"

lemma as_map_keys [simp]: "set (map fst (as_map kvs)) = set (map fst kvs)" and
  as_map_distinct [simp]: "distinct (map fst (as_map kvs))" and
  as_map_sorted: "sorted (map fst (as_map kvs))" and
  as_map_lookup: "map_of (as_map kvs) k = map_of (rev kvs) k"
proof -
  have d: "distinct (map fst (AList.clearjunk (rev kvs)))" by (rule AList.distinct_clearjunk)
  have p: "set (as_map kvs) = set (AList.clearjunk (rev kvs))" by (simp add: as_map_def)
  show "set (map fst (as_map kvs)) = set (map fst kvs)"
    using AList.dom_clearjunk [of "rev kvs"] by (simp add: as_map_def)
  show s: "distinct (map fst (as_map kvs))"
    unfolding as_map_def using d by (metis distinct_map distinct_sort set_sort)
  show "sorted (map fst (as_map kvs))" by (simp add: as_map_def)
  show "map_of (as_map kvs) k = map_of (rev kvs) k"
    using map_of_clearjunk [of "rev kvs"] iffD2 [OF map_of_inject_set [OF s d] p] by simp
qed

lemma as_map_wf: "map_wf (as_map kvs)"
  by (simp add: map_wf_def as_map_sorted)

lemma map_put_wf: "map_wf m \<Longrightarrow> map_wf (map_put k v m)"
  by (auto simp: map_wf_def map_put_def sorted_insort_key sorted_filter distinct_map_filter distinct_insort_key)

lemma map_of_insort: "k \<notin> fst ` set xs \<Longrightarrow> map_of (insort_key fst (k, v) xs) = (map_of xs)(k \<mapsto> v)"
  by (induction xs) (auto simp: fun_upd_twist)

lemma map_of_other: "j \<noteq> k \<Longrightarrow> map_of (filter (\<lambda>kv. fst kv \<noteq> k) m) j = map_of m j"
  by (induction m) auto

lemma map_put_lookup [simp]: "map_of (map_put k v m) = (map_of m)(k \<mapsto> v)"
proof -
  have "k \<notin> fst ` set (filter (\<lambda>kv. fst kv \<noteq> k) m)" by auto
  from map_of_insort [OF this] show ?thesis unfolding map_put_def by (auto simp: map_of_other)
qed

lemma map_put_Nil [simp]: "map_put k v [] = [(k, v)]"
  by (simp add: map_put_def)

lemma digit_char_table: "digit_char 0 = CHR ''0''" "digit_char 1 = CHR ''1''" "digit_char 2 = CHR ''2''"
  "digit_char 3 = CHR ''3''" "digit_char 4 = CHR ''4''" "digit_char 5 = CHR ''5''" "digit_char 6 = CHR ''6''"
  "digit_char 7 = CHR ''7''" "digit_char 8 = CHR ''8''" "digit_char 9 = CHR ''9''" "digit_char (Suc 0) = CHR ''1''"
  by (code_simp)+

lemmas float_eval = Sprint_float_def json_float_def float_text_def literal_double_def literal_value_def
  HasPrefix_def TrimPrefix_def is_exp_char_def digits_nat_def digit_value_def times_pow_def double_of_def
  floor_log_def ilog.simps at_least_pow_def over_pow_def round_half_even_def shortest_digits_def
  same_frac_def digits_of_nat.simps digit_char_table trim_zeros_def TrimRightChar_def format_e_def format_f_def
  two_digits_def clean_exponent_def

text \<open>Integers of seven digits and more come out of \<open>fmt.Sprint\<close> in scientific notation.\<close>

lemma Sprint_integers:
  "Sprint (AFloat ''50'') = ''50''" "Sprint (AFloat ''5000000'') = ''5e+06''"
  by (simp add: float_eval)+

end
