(* ===== verification/Base64.thy ===== *)
theory Base64
  imports GoStrings
begin

text \<open>
  Package \<open>encoding/base64\<close>: \<open>StdEncoding\<close> (padded, alphabet ending in \<open>+/\<close>), \<open>RawStdEncoding\<close> and
  \<open>RawURLEncoding\<close> (unpadded, alphabet ending in \<open>-_\<close>). As in Go, decoding skips
  carriage returns and newlines and does not check that unused trailing bits are zero.
  The vault, the webhook secrets, the API-key secrets and the pagination cursors are all
  written in one of the two.
\<close>

datatype encoding = StdEncoding | RawStdEncoding | RawURLEncoding

fun padded :: "encoding \<Rightarrow> bool" where
  "padded StdEncoding = True"
| "padded RawStdEncoding = False"
| "padded RawURLEncoding = False"

fun code62 :: "encoding \<Rightarrow> nat" where
  "code62 StdEncoding = 43"
| "code62 RawStdEncoding = 43"
| "code62 RawURLEncoding = 45"

fun code63 :: "encoding \<Rightarrow> nat" where
  "code63 StdEncoding = 47"
| "code63 RawStdEncoding = 47"
| "code63 RawURLEncoding = 95"

definition sextet_char :: "encoding \<Rightarrow> nat \<Rightarrow> char" where
  "sextet_char enc v =
     char_of (if v < 26 then 65 + v else if v < 52 then 71 + v else if v < 62 then v - 4
              else if v = 62 then code62 enc else code63 enc)"

definition sextet_value :: "encoding \<Rightarrow> char \<Rightarrow> nat option" where
  "sextet_value enc c =
     (let n = (of_char c :: nat) in
      if 65 \<le> n \<and> n \<le> 90 then Some (n - 65)
      else if 97 \<le> n \<and> n \<le> 122 then Some (n - 71)
      else if 48 \<le> n \<and> n \<le> 57 then Some (n + 4)
      else if n = code62 enc then Some 62
      else if n = code63 enc then Some 63
      else None)"

abbreviation byte_val :: "char \<Rightarrow> nat" where
  "byte_val c \<equiv> of_char c"

fun EncodeToString :: "encoding \<Rightarrow> string \<Rightarrow> string" where
  "EncodeToString enc [] = []"
| "EncodeToString enc [a] =
     [sextet_char enc (byte_val a div 4), sextet_char enc (byte_val a mod 4 * 16)]
     @ (if padded enc then ''=='' else [])"
| "EncodeToString enc [a, b] =
     [sextet_char enc (byte_val a div 4),
      sextet_char enc (byte_val a mod 4 * 16 + byte_val b div 16),
      sextet_char enc (byte_val b mod 16 * 4)]
     @ (if padded enc then ''='' else [])"
| "EncodeToString enc (a # b # c # rest) =
     [sextet_char enc (byte_val a div 4),
      sextet_char enc (byte_val a mod 4 * 16 + byte_val b div 16),
      sextet_char enc (byte_val b mod 16 * 4 + byte_val c div 64),
      sextet_char enc (byte_val c mod 64)]
     @ EncodeToString enc rest"

definition decode2 :: "encoding \<Rightarrow> char \<Rightarrow> char \<Rightarrow> string option" where
  "decode2 enc a b =
     (case (sextet_value enc a, sextet_value enc b) of
        (Some va, Some vb) \<Rightarrow> Some [char_of (va * 4 + vb div 16)]
      | _ \<Rightarrow> None)"

definition decode3 :: "encoding \<Rightarrow> char \<Rightarrow> char \<Rightarrow> char \<Rightarrow> string option" where
  "decode3 enc a b c =
     (case (sextet_value enc a, sextet_value enc b, sextet_value enc c) of
        (Some va, Some vb, Some vc) \<Rightarrow>
          Some [char_of (va * 4 + vb div 16), char_of (vb mod 16 * 16 + vc div 4)]
      | _ \<Rightarrow> None)"

definition decode4 :: "encoding \<Rightarrow> char \<Rightarrow> char \<Rightarrow> char \<Rightarrow> char \<Rightarrow> string option" where
  "decode4 enc a b c d =
     (case (sextet_value enc a, sextet_value enc b, sextet_value enc c, sextet_value enc d) of
        (Some va, Some vb, Some vc, Some vd) \<Rightarrow>
          Some [char_of (va * 4 + vb div 16), char_of (vb mod 16 * 16 + vc div 4),
                char_of (vc mod 4 * 64 + vd)]
      | _ \<Rightarrow> None)"

fun decode_quanta :: "encoding \<Rightarrow> string \<Rightarrow> string option" where
  "decode_quanta enc [] = Some []"
| "decode_quanta enc [a] = None"
| "decode_quanta enc [a, b] = (if padded enc then None else decode2 enc a b)"
| "decode_quanta enc [a, b, c] = (if padded enc then None else decode3 enc a b c)"
| "decode_quanta enc (a # b # c # d # rest) =
     (if padded enc \<and> d = CHR ''='' \<and> rest = [] then
        (if c = CHR ''='' then decode2 enc a b else decode3 enc a b c)
      else (case decode4 enc a b c d of
              None \<Rightarrow> None
            | Some xs \<Rightarrow> map_option (\<lambda>ys. xs @ ys) (decode_quanta enc rest)))"

definition DecodeString :: "encoding \<Rightarrow> string \<Rightarrow> string option" where
  "DecodeString enc s =
     decode_quanta enc (filter (\<lambda>c. byte_val c \<noteq> 10 \<and> byte_val c \<noteq> 13) s)"

section \<open>Round trip\<close>

lemma sextet_char_val:
  "v < 64 \<Longrightarrow> byte_val (sextet_char enc v) =
     (if v < 26 then 65 + v else if v < 52 then 71 + v else if v < 62 then v - 4
      else if v = 62 then code62 enc else code63 enc)"
  by (cases enc) (simp_all add: sextet_char_def)

lemma sextet_value_char [simp]: "v < 64 \<Longrightarrow> sextet_value enc (sextet_char enc v) = Some v"
  by (cases enc) (auto simp: sextet_value_def sextet_char_val Let_def)

lemma sextet_char_no_newline [simp]:
  "v < 64 \<Longrightarrow> byte_val (sextet_char enc v) \<noteq> 10 \<and> byte_val (sextet_char enc v) \<noteq> 13"
  by (cases enc) (auto simp: sextet_char_val)

lemma sextet_char_not_pad [simp]: "v < 64 \<Longrightarrow> sextet_char enc v \<noteq> CHR ''=''"
proof
  assume v: "v < 64" and eq: "sextet_char enc v = CHR ''=''"
  then have "byte_val (sextet_char enc v) = 61" by simp
  with v show False by (cases enc) (simp_all add: sextet_char_val split: if_splits)
qed

lemma sextet_bounds [simp]:
  "byte_val a div 4 < 64" "byte_val a mod 4 * 16 < 64"
  "byte_val a mod 4 * 16 + byte_val b div 16 < 64"
  "byte_val b mod 16 * 4 < 64" "byte_val b mod 16 * 4 + byte_val c div 64 < 64"
  "byte_val c mod 64 < 64"
proof -
  have "byte_val a < 256" "byte_val b < 256" "byte_val c < 256" by simp_all
  moreover have "byte_val a mod 4 < 4" "byte_val b mod 16 < 16" by simp_all
  ultimately show "byte_val a div 4 < 64" "byte_val a mod 4 * 16 < 64"
    "byte_val a mod 4 * 16 + byte_val b div 16 < 64"
    "byte_val b mod 16 * 4 < 64" "byte_val b mod 16 * 4 + byte_val c div 64 < 64"
    "byte_val c mod 64 < 64"
    by (linarith | simp)+
qed

lemma byte_parts [simp]:
  "byte_val b div 16 div 16 = 0" "byte_val b div 16 mod 16 = byte_val b div 16"
  "byte_val c div 64 div 4 = 0" "byte_val c div 64 mod 4 = byte_val c div 64"
proof -
  have "byte_val b < 256" "byte_val c < 256" by simp_all
  then have "byte_val b div 16 < 16" "byte_val c div 64 < 4" by linarith+
  then show "byte_val b div 16 div 16 = 0" "byte_val b div 16 mod 16 = byte_val b div 16"
    "byte_val c div 64 div 4 = 0" "byte_val c div 64 mod 4 = byte_val c div 64"
    by simp_all
qed

lemma decode_quanta_Encode: "decode_quanta enc (EncodeToString enc s) = Some s"
proof (induction enc s rule: EncodeToString.induct)
  case (2 enc a)
  then show ?case
    by (simp add: decode2_def)
next
  case (3 enc a b)
  then show ?case
    by (simp add: decode3_def)
next
  case (4 enc a b c rest)
  then show ?case by (simp add: decode4_def)
qed simp

lemma Encode_no_newline:
  "filter (\<lambda>c. byte_val c \<noteq> 10 \<and> byte_val c \<noteq> 13) (EncodeToString enc s) = EncodeToString enc s"
  by (induction enc s rule: EncodeToString.induct) simp_all

theorem DecodeString_EncodeToString: "DecodeString enc (EncodeToString enc s) = Some s"
  by (simp add: DecodeString_def Encode_no_newline decode_quanta_Encode)

lemma EncodeToString_Nil_iff [simp]: "EncodeToString enc s = [] \<longleftrightarrow> s = []"
  by (induction enc s rule: EncodeToString.induct) simp_all

lemma EncodeToString_chars:
  assumes "x \<noteq> CHR ''=''" and "\<And>v. v < 64 \<Longrightarrow> sextet_char enc v \<noteq> x"
  shows "x \<notin> set (EncodeToString enc s)"
  using assms by (induction enc s rule: EncodeToString.induct) (simp_all add: eq_commute [of x])

end
