(* ===== verification/Httpx.thy ===== *)
theory Httpx
  imports Base64 GoTime
begin

text \<open>
  \<open>internal/httpx/cursor.go\<close>: the opaque pagination cursor every list endpoint hands out,
  and the (created_at, id) cursor that the facades build on it. The second half is the
  contract behind every listing of the code, keyset pagination, as a locale: a repository
  that answers "the rows after this key, newest first, at most n" lets a client that
  follows the cursors read every row exactly once.
\<close>

section \<open>Cursors\<close>

definition EncodeCursor :: "string list \<Rightarrow> string" where
  "EncodeCursor parts = EncodeToString RawURLEncoding (Join parts ''|'')"

text \<open>The empty cursor is "no cursor": \<open>Inr None\<close>. Everything malformed is an error.\<close>

definition ErrMalformedCursor :: go_error where
  "ErrMalformedCursor = OtherError ''malformed pagination cursor''"

definition DecodeCursor :: "string \<Rightarrow> nat \<Rightarrow> go_error + string list option" where
  "DecodeCursor raw fieldCount =
     (if raw = [] then Inr None
      else (case DecodeString RawURLEncoding raw of
              None \<Rightarrow> Inl ErrMalformedCursor
            | Some decoded \<Rightarrow>
                (let parts = Split (CHR ''|'') decoded in
                 if length parts \<noteq> fieldCount then Inl ErrMalformedCursor
                 else if [] \<in> set parts then Inl ErrMalformedCursor
                 else Inr (Some parts))))"

definition cursor_field :: "string \<Rightarrow> bool" where
  "cursor_field s \<longleftrightarrow> s \<noteq> [] \<and> CHR ''|'' \<notin> set s"

lemma Join_Nil_iff: "Join xs [c] = [] \<longleftrightarrow> xs = [] \<or> xs = [[]]"
  by (induction xs "[c]" rule: Join.induct) auto

theorem DecodeCursor_EncodeCursor:
  assumes "parts \<noteq> []" and "\<forall>f \<in> set parts. cursor_field f"
  shows "DecodeCursor (EncodeCursor parts) (length parts) = Inr (Some parts)"
proof -
  have "Join parts ''|'' \<noteq> []"
    using assms by (auto simp: Join_Nil_iff cursor_field_def)
  moreover have "Split (CHR ''|'') (Join parts ''|'') = parts"
    using assms by (intro Split_Join) (auto simp: cursor_field_def)
  ultimately show ?thesis
    using assms(2)
    by (auto simp: DecodeCursor_def EncodeCursor_def DecodeString_EncodeToString Let_def
        cursor_field_def)
qed

text \<open>
  The (created_at, id) cursor of the list endpoints: \<open>encodeEventCursor\<close>,
  \<open>encodeConnectionCursor\<close>, \<open>encodeInstanceCursor\<close>, \<open>encodeListAllCursor\<close> and
  \<open>encodeUserListCursor\<close> are this function, and their decoders this one, each with the
  invalid-cursor error of its module (the same value in all of them).
\<close>

type_synonym time_id = "time \<times> string"

definition encode_time_id :: "time_id \<Rightarrow> string" where
  "encode_time_id c = EncodeCursor [format_RFC3339Nano (fst c), snd c]"

definition decode_time_id :: "string \<Rightarrow> go_error + time_id option" where
  "decode_time_id raw =
     (case DecodeCursor raw 2 of
        Inl _ \<Rightarrow> Inl invalid_cursor_error
      | Inr None \<Rightarrow> Inr None
      | Inr (Some parts) \<Rightarrow>
          (case parse_RFC3339Nano (parts ! 0) of
             None \<Rightarrow> Inl invalid_cursor_error
           | Some createdAt \<Rightarrow> Inr (Some (createdAt, parts ! 1))))"

definition cursor_key :: "time_id \<Rightarrow> bool" where
  "cursor_key c \<longleftrightarrow> four_digit_year (fst c) \<and> cursor_field (snd c)"

lemma decode_encode_time_id:
  assumes "cursor_key c"
  shows "decode_time_id (encode_time_id c) = Inr (Some c)"
proof -
  have "DecodeCursor (EncodeCursor [format_RFC3339Nano (fst c), snd c]) 2
      = Inr (Some [format_RFC3339Nano (fst c), snd c])"
    using DecodeCursor_EncodeCursor [of "[format_RFC3339Nano (fst c), snd c]"] assms
    by (simp add: cursor_key_def cursor_field_def format_no_bar format_nonempty numeral_2_eq_2)
  with assms show ?thesis
    by (simp add: decode_time_id_def encode_time_id_def cursor_key_def parse_format_RFC3339Nano)
qed

lemma decode_time_id_empty [simp]: "decode_time_id [] = Inr None"
  by (simp add: decode_time_id_def DecodeCursor_def)

lemma encode_time_id_nonempty [simp]: "encode_time_id c \<noteq> []"
  by (simp add: encode_time_id_def EncodeCursor_def format_nonempty)

section \<open>Pages\<close>

text \<open>
  The facades ask the repository for one row more than the page holds; the extra row says
  that there is a next page, whose cursor is the key of the last row shown.
\<close>

definition paginate :: "('r \<Rightarrow> time_id) \<Rightarrow> 'r list \<Rightarrow> nat \<Rightarrow> 'r list \<times> string" where
  "paginate key items limit =
     (if length items > limit then (take limit items, encode_time_id (key (last (take limit items))))
      else (items, []))"

definition after_cursor :: "('r \<Rightarrow> 'k::linorder) \<Rightarrow> 'k option \<Rightarrow> 'r \<Rightarrow> bool" where
  "after_cursor key c r = (case c of None \<Rightarrow> True | Some k \<Rightarrow> key r < k)"

lemma after_cursor_mono:
  "after_cursor key c l \<Longrightarrow> after_cursor key (Some (key l)) r \<Longrightarrow> after_cursor key c r"
  by (cases c) (auto simp: after_cursor_def intro: less_trans)

lemma filter_filter_stronger:
  "(\<And>r. P r \<Longrightarrow> Q r) \<Longrightarrow> filter P (filter Q xs) = filter P xs"
  by (induction xs) auto

definition newest_first :: "('r \<Rightarrow> 'k::linorder) \<Rightarrow> 'r list \<Rightarrow> 'r list" where
  "newest_first key xs = rev (sort_key key xs)"

lemma set_newest_first [simp]: "set (newest_first key xs) = set xs"
  by (simp add: newest_first_def)

lemma newest_first_desc:
  assumes "distinct (map key xs)"
  shows "sorted_wrt (\<lambda>a b. key b < key a) (newest_first key xs)"
proof -
  have "distinct (map key (sort_key key xs))"
    using assms by (metis distinct_map distinct_sort set_sort)
  then have "sorted_wrt (<) (map key (sort_key key xs))"
    by (simp add: strict_sorted_iff)
  then show ?thesis
    by (simp add: newest_first_def sorted_wrt_rev sorted_wrt_map)
qed

lemma newest_first_filter:
  "filter P (newest_first key xs) = newest_first key (filter P xs)"
  by (simp add: newest_first_def filter_sort flip: rev_filter)

locale keyset_listing =
  fixes invar :: "'s \<Rightarrow> bool"
    and key :: "'r \<Rightarrow> 'k::linorder"
    and matching :: "'s \<Rightarrow> 'f \<Rightarrow> 'r list"
    and listing :: "'s \<Rightarrow> 'f \<Rightarrow> 'k option \<Rightarrow> nat \<Rightarrow> 'r list"
  assumes matching_desc: "invar s \<Longrightarrow> sorted_wrt (\<lambda>a b. key b < key a) (matching s f)"
    and listing_matching: "invar s \<Longrightarrow> 0 < n \<Longrightarrow>
      listing s f c n = take n (filter (after_cursor key c) (matching s f))"
begin

lemma after_last:
  assumes "sorted_wrt (\<lambda>a b. key b < key a) xs" and "0 < n" and "n < length xs"
  shows "filter (after_cursor key (Some (key (last (take n xs))))) xs = drop n xs"
proof -
  let ?k = "key (last (take n xs))"
  have ne: "take n xs \<noteq> []" using assms by (cases xs) auto
  have "sorted_wrt (\<lambda>a b. key b < key a) (take n xs @ drop n xs)" using assms(1) by simp
  then have d: "\<forall>a \<in> set (take n xs). \<forall>b \<in> set (drop n xs). key b < key a"
    and t: "sorted_wrt (\<lambda>a b. key b < key a) (take n xs)"
    unfolding sorted_wrt_append by blast+
  from t ne have "sorted_wrt (\<lambda>a b. key b < key a) (butlast (take n xs) @ [last (take n xs)])"
    by simp
  then have "\<forall>a \<in> set (butlast (take n xs)). ?k < key a"
    by (auto simp only: sorted_wrt_append list.set)
  then have "\<forall>a \<in> set (butlast (take n xs) @ [last (take n xs)]). \<not> key a < ?k"
    by (auto dest: order.asym)
  then have "\<forall>a \<in> set (take n xs). \<not> key a < ?k" by (simp only: append_butlast_last_id [OF ne])
  then have "filter (after_cursor key (Some ?k)) (take n xs) = []"
    by (simp add: after_cursor_def)
  moreover have "filter (after_cursor key (Some ?k)) (drop n xs) = drop n xs"
    using d last_in_set [OF ne] by (auto simp: after_cursor_def)
  ultimately have "filter (after_cursor key (Some ?k)) (take n xs @ drop n xs) = drop n xs"
    by (simp only: filter_append append_Nil)
  then show ?thesis by simp
qed

lemma matching_distinct:
  assumes "invar s"
  shows "distinct (matching s f)"
proof -
  have "distinct (map key (rev (matching s f)))"
    using matching_desc [OF assms, of f] sorted_wrt_map [of "(<)" key "rev (matching s f)"]
    by (simp add: sorted_wrt_rev strict_sorted_iff)
  then show ?thesis by (simp add: distinct_map)
qed

end

section \<open>Reading a listing through its cursors\<close>

text \<open>
  What a client of a list endpoint does: call it with the empty cursor, then with the
  \<open>NextCursor\<close> of the last answer, until that is empty. The facades' list operations are
  \<open>cursor_page\<close> of their repository's listing, up to the record around the result.
\<close>

definition cursor_page ::
  "('r \<Rightarrow> time_id) \<Rightarrow> (time_id option \<Rightarrow> nat \<Rightarrow> 'r list) \<Rightarrow> nat \<Rightarrow> string \<Rightarrow> go_error + 'r list \<times> string"
where
  "cursor_page key query n raw =
     (case decode_time_id raw of
        Inl e \<Rightarrow> Inl e
      | Inr c \<Rightarrow> Inr (paginate key (query c (Suc n)) n))"

fun read_pages :: "(string \<Rightarrow> go_error + 'r list \<times> string) \<Rightarrow> nat \<Rightarrow> string \<Rightarrow> go_error + 'r list" where
  "read_pages page 0 raw = Inl (OtherError ''more pages'')"
| "read_pages page (Suc fuel) raw =
     (case page raw of
        Inl e \<Rightarrow> Inl e
      | Inr (items, next) \<Rightarrow>
          (if next = [] then Inr items
           else (case read_pages page fuel next of
                   Inl e \<Rightarrow> Inl e
                 | Inr rest \<Rightarrow> Inr (items @ rest))))"

definition encode_opt :: "time_id option \<Rightarrow> string" where
  "encode_opt c = (case c of None \<Rightarrow> [] | Some k \<Rightarrow> encode_time_id k)"

lemma decode_encode_opt:
  "(\<And>k. c = Some k \<Longrightarrow> cursor_key k) \<Longrightarrow> decode_time_id (encode_opt c) = Inr c"
  by (cases c) (simp_all add: encode_opt_def decode_encode_time_id)

locale cursor_listing = keyset_listing invar key matching listing
  for invar :: "'s \<Rightarrow> bool"
    and key :: "'r \<Rightarrow> time_id"
    and matching :: "'s \<Rightarrow> 'f \<Rightarrow> 'r list"
    and listing :: "'s \<Rightarrow> 'f \<Rightarrow> time_id option \<Rightarrow> nat \<Rightarrow> 'r list"
begin

lemma page_from:
  assumes "invar s" and "0 < n" and "\<forall>k. c = Some k \<longrightarrow> cursor_key k"
  shows "cursor_page key (listing s f) n (encode_opt c)
    = (let xs = filter (after_cursor key c) (matching s f) in
       Inr (if n < length xs then (take n xs, encode_time_id (key (last (take n xs)))) else (xs, [])))"
proof -
  have "decode_time_id (encode_opt c) = Inr c"
    using assms(3) by (intro decode_encode_opt) blast
  with assms(1,2) show ?thesis
    by (simp add: cursor_page_def listing_matching paginate_def Let_def min_def)
qed

lemma read_pages_from:
  assumes inv: "invar s" and n: "0 < n"
    and keys: "\<forall>r \<in> set (matching s f). cursor_key (key r)"
  shows "\<forall>k. c = Some k \<longrightarrow> cursor_key k \<Longrightarrow>
    length (filter (after_cursor key c) (matching s f)) < fuel \<Longrightarrow>
    read_pages (cursor_page key (listing s f) n) fuel (encode_opt c)
      = Inr (filter (after_cursor key c) (matching s f))"
proof (induction fuel arbitrary: c)
  case 0
  then show ?case by simp
next
  case (Suc fuel)
  let ?xs = "filter (after_cursor key c) (matching s f)"
  show ?case
  proof (cases "n < length ?xs")
    case False
    then show ?thesis using page_from [OF inv n Suc.prems(1), of f] by (simp add: Let_def)
  next
    case True
    let ?k = "key (last (take n ?xs))"
    have ne: "take n ?xs \<noteq> []" using True n by (cases ?xs) auto
    have mem: "last (take n ?xs) \<in> set ?xs"
      by (rule subsetD [OF set_take_subset last_in_set [OF ne]])
    then have key: "\<forall>k. Some ?k = Some k \<longrightarrow> cursor_key k" using keys by simp
    have desc: "sorted_wrt (\<lambda>a b. key b < key a) ?xs"
      using matching_desc [OF inv] by (rule sorted_wrt_filter)
    from mem have "after_cursor key c (last (take n ?xs))"
      by (simp only: set_filter mem_Collect_eq)
    then have "after_cursor key (Some ?k) r \<Longrightarrow> after_cursor key c r" for r
      by (rule after_cursor_mono)
    then have "filter (after_cursor key (Some ?k)) (matching s f) = filter (after_cursor key (Some ?k)) ?xs"
      by (rule filter_filter_stronger [symmetric])
    also have "\<dots> = drop n ?xs" by (rule after_last [OF desc n True])
    finally have rest: "filter (after_cursor key (Some ?k)) (matching s f) = drop n ?xs" .
    have "read_pages (cursor_page key (listing s f) n) fuel (encode_opt (Some ?k)) = Inr (drop n ?xs)"
      using Suc.IH [OF key] Suc.prems(2) n True unfolding rest by simp
    then show ?thesis
      using page_from [OF inv n Suc.prems(1), of f] True by (simp add: Let_def encode_opt_def)
  qed
qed

lemma read_pages_complete:
  assumes "invar s" and "0 < n" and "\<forall>r \<in> set (matching s f). cursor_key (key r)"
    and "length (matching s f) < fuel"
  shows "read_pages (cursor_page key (listing s f) n) fuel [] = Inr (matching s f)"
proof -
  have e: "encode_opt None = []" by (simp add: encode_opt_def)
  have f: "filter (after_cursor key None) (matching s f) = matching s f"
    by (simp add: after_cursor_def)
  show ?thesis
    using read_pages_from [OF assms(1-3), of None fuel] assms(4) unfolding e f by simp
qed

end

end
