(* ===== verification/GoURL.thy ===== *)
theory GoURL
  imports GoStrings
begin

text \<open>
  The part of Go's \<open>net/url\<close> the code uses: \<open>url.Parse\<close> with the fields the code reads
  (scheme, opaque part, host, path, query), \<open>PathEscape\<close> and \<open>QueryEscape\<close>. Strings are byte
  lists. A parse error is \<open>None\<close>: no caller reads its text.
\<close>

section \<open>Escaping\<close>

datatype url_encoding = encodePath | encodePathSegment | encodeHost | encodeZone
  | encodeUserPassword | encodeQueryComponent | encodeFragment

definition is_alpha :: "char \<Rightarrow> bool" where
  "is_alpha c \<longleftrightarrow> (CHR ''a'' \<le> c \<and> c \<le> CHR ''z'') \<or> (CHR ''A'' \<le> c \<and> c \<le> CHR ''Z'')"

definition is_digit :: "char \<Rightarrow> bool" where
  "is_digit c \<longleftrightarrow> CHR ''0'' \<le> c \<and> c \<le> CHR ''9''"

definition shouldEscape :: "char \<Rightarrow> url_encoding \<Rightarrow> bool" where
  "shouldEscape c mode =
     (if is_alpha c \<or> is_digit c then False
      else if mode \<in> {encodeHost, encodeZone} \<and> c \<in> set ''!$&()*+,;=:[]<>'' \<union> {CHR 0x27, CHR 0x22} then False
      else if c \<in> set ''-_.~'' then False
      else if c \<in> set ''$&+,/:;=?@'' then
        (case mode of
           encodePath \<Rightarrow> c = CHR ''?''
         | encodePathSegment \<Rightarrow> c \<in> set ''/;,?''
         | encodeUserPassword \<Rightarrow> c \<in> set ''@/?:''
         | encodeQueryComponent \<Rightarrow> True
         | encodeFragment \<Rightarrow> False
         | _ \<Rightarrow> True)
      else if mode = encodeFragment \<and> c \<in> set ''!()*'' then False
      else True)"

definition upperhex :: "nat \<Rightarrow> char" where
  "upperhex d = ''0123456789ABCDEF'' ! d"

definition unhex :: "char \<Rightarrow> nat option" where
  "unhex c =
     (if is_digit c then Some (of_char c - 48)
      else if CHR ''a'' \<le> c \<and> c \<le> CHR ''f'' then Some (of_char c - 87)
      else if CHR ''A'' \<le> c \<and> c \<le> CHR ''F'' then Some (of_char c - 55)
      else None)"

fun url_escape :: "url_encoding \<Rightarrow> string \<Rightarrow> string" where
  "url_escape mode [] = []"
| "url_escape mode (c # s) =
     (if c = CHR '' '' \<and> mode = encodeQueryComponent then CHR ''+'' # url_escape mode s
      else if shouldEscape c mode
      then CHR ''%'' # upperhex (of_char c div 16) # upperhex (of_char c mod 16) # url_escape mode s
      else c # url_escape mode s)"

abbreviation PathEscape :: "string \<Rightarrow> string" where
  "PathEscape \<equiv> url_escape encodePathSegment"

abbreviation QueryEscape :: "string \<Rightarrow> string" where
  "QueryEscape \<equiv> url_escape encodeQueryComponent"

text \<open>
  In a host, \<open>%\<close> may only introduce a byte outside ASCII (or \<open>%25\<close> for a zone); in a zone
  only a byte that a host may hold, a blank, or \<open>%25\<close>.
\<close>

definition escape_allowed :: "url_encoding \<Rightarrow> nat \<Rightarrow> nat \<Rightarrow> bool" where
  "escape_allowed mode h l =
     (case mode of
        encodeHost \<Rightarrow> 8 \<le> h \<or> (h = 2 \<and> l = 5)
      | encodeZone \<Rightarrow> (h = 2 \<and> l = 5) \<or> 16 * h + l = 32
                       \<or> \<not> shouldEscape (char_of (16 * h + l)) encodeHost
      | _ \<Rightarrow> True)"

fun url_unescape :: "url_encoding \<Rightarrow> string \<Rightarrow> string option" where
  "url_unescape mode [] = Some []"
| "url_unescape mode (c # s) =
     (if c = CHR ''%'' then
        (case s of
           a # b # s' \<Rightarrow>
             (case (unhex a, unhex b) of
                (Some h, Some l) \<Rightarrow>
                  if escape_allowed mode h l
                  then map_option ((#) (char_of (16 * h + l))) (url_unescape mode s')
                  else None
              | _ \<Rightarrow> None)
         | _ \<Rightarrow> None)
      else if c = CHR ''+'' \<and> mode = encodeQueryComponent
      then map_option ((#) (CHR '' '')) (url_unescape mode s)
      else if mode \<in> {encodeHost, encodeZone} \<and> (of_char c :: nat) < 128 \<and> shouldEscape c mode
      then None
      else map_option ((#) c) (url_unescape mode s))"

lemma upperhex_props:
  assumes "d < 16"
  shows "unhex (upperhex d) = Some d"
proof -
  have "list_all (\<lambda>d. unhex (upperhex d) = Some d) [0..<16]"
    by code_simp
  with assms show ?thesis by (simp add: list_all_iff)
qed

lemma escaped_percent: "shouldEscape (CHR ''%'') mode"
  by (simp add: shouldEscape_def is_alpha_def is_digit_def less_eq_char_def of_char_def)

lemma escaped_plus: "shouldEscape (CHR ''+'') encodeQueryComponent"
  by (simp add: shouldEscape_def is_alpha_def is_digit_def less_eq_char_def of_char_def)

lemma unescape_escape:
  assumes "mode \<notin> {encodeHost, encodeZone}"
  shows "url_unescape mode (url_escape mode s) = Some s"
proof (induction s)
  case Nil
  then show ?case by simp
next
  case (Cons c s)
  have d: "of_char c div (16 :: nat) < 16" "of_char c mod (16 :: nat) < 16"
    using nat_of_char_less_256 [of c] by (simp_all add: less_mult_imp_div_less)
  have b: "16 * (of_char c div 16) + of_char c mod 16 = (of_char c :: nat)" by simp
  have e: "escape_allowed mode h l" for h l
    using assms by (cases mode) (auto simp: escape_allowed_def)
  have f: "c \<noteq> CHR ''%''" "c \<noteq> CHR ''+'' \<or> mode \<noteq> encodeQueryComponent"
    if "\<not> shouldEscape c mode"
    using that escaped_percent escaped_plus by auto
  show ?case
    using Cons.IH assms d b e f by (auto simp: upperhex_props)
qed

section \<open>Parsing\<close>

record URL =
  url_Scheme :: string
  url_Opaque :: string
  url_Host :: string
  url_Path :: string
  url_RawQuery :: string

text \<open>\<open>Cut\<close> at the first separator, \<open>cut_last\<close> at the last one.\<close>

fun Cut :: "char \<Rightarrow> string \<Rightarrow> string \<times> string \<times> bool" where
  "Cut c [] = ([], [], False)"
| "Cut c (x # s) =
     (if x = c then ([], s, True) else (case Cut c s of (a, b, f) \<Rightarrow> (x # a, b, f)))"

definition cut_last :: "char \<Rightarrow> string \<Rightarrow> (string \<times> string) option" where
  "cut_last c s =
     (case Cut c (rev s) of (b, a, found) \<Rightarrow> if found then Some (rev a, rev b) else None)"

text \<open>\<open>getScheme\<close>: \<open>None\<close> is the error of a URL that begins with a colon.\<close>

fun scheme_from :: "string \<Rightarrow> string \<Rightarrow> string \<Rightarrow> (string \<times> string) option" where
  "scheme_from whole acc [] = Some ([], whole)"
| "scheme_from whole acc (c # s) =
     (if is_alpha c then scheme_from whole (acc @ [c]) s
      else if is_digit c \<or> c \<in> set ''+-.'' then
        (if acc = [] then Some ([], whole) else scheme_from whole (acc @ [c]) s)
      else if c = CHR '':'' then (if acc = [] then None else Some (acc, s))
      else Some ([], whole))"

definition getScheme :: "string \<Rightarrow> (string \<times> string) option" where
  "getScheme s = scheme_from s [] s"

definition lower_char :: "char \<Rightarrow> char" where
  "lower_char c = (if CHR ''A'' \<le> c \<and> c \<le> CHR ''Z'' then char_of (of_char c + 32 :: nat) else c)"

definition ascii_lower :: "string \<Rightarrow> string" where
  "ascii_lower = map lower_char"

definition validOptionalPort :: "string \<Rightarrow> bool" where
  "validOptionalPort port =
     (case port of [] \<Rightarrow> True | c # digits \<Rightarrow> c = CHR '':'' \<and> list_all is_digit digits)"

text \<open>
  \<open>netip.ParseAddr\<close> as far as an IP literal in brackets needs it: is the text an IPv6 address,
  with an optional zone? Eight groups, \<open>::\<close> standing for at least one of them, the last two
  possibly written as an IPv4 address.
\<close>

definition ipv4_field :: "string \<Rightarrow> bool" where
  "ipv4_field s \<longleftrightarrow>
     (case digits_value 0 s of None \<Rightarrow> False | Some n \<Rightarrow> s \<noteq> [] \<and> n \<le> 255 \<and> length s \<le> 3)
     \<and> (length s > 1 \<longrightarrow> hd s \<noteq> CHR ''0'')"

definition ipv4_text :: "string \<Rightarrow> bool" where
  "ipv4_text s \<longleftrightarrow> length (Split (CHR ''.'') s) = 4 \<and> list_all ipv4_field (Split (CHR ''.'') s)"

definition hex_group :: "string \<Rightarrow> bool" where
  "hex_group s \<longleftrightarrow> s \<noteq> [] \<and> length s \<le> 4 \<and> list_all (\<lambda>c. unhex c \<noteq> None) s"

text \<open>The number of groups a colon-separated list stands for, \<open>None\<close> when it is malformed.\<close>

fun count_groups :: "string list \<Rightarrow> nat option" where
  "count_groups [] = Some 0"
| "count_groups [g] = (if hex_group g then Some 1 else if ipv4_text g then Some 2 else None)"
| "count_groups (g # gs) = (if hex_group g then map_option Suc (count_groups gs) else None)"

fun cut_ellipsis :: "string \<Rightarrow> (string \<times> string) option" where
  "cut_ellipsis (a # b # s) =
     (if a = CHR '':'' \<and> b = CHR '':'' then Some ([], s)
      else map_option (\<lambda>(l, r). (a # l, r)) (cut_ellipsis (b # s)))"
| "cut_ellipsis _ = None"

definition colon_groups :: "string \<Rightarrow> string list" where
  "colon_groups s = (if s = [] then [] else Split (CHR '':'') s)"

definition ipv6_text :: "string \<Rightarrow> bool" where
  "ipv6_text s =
     (case Cut (CHR ''%'') s of (addr, zone, zoned) \<Rightarrow>
        (zoned \<longrightarrow> zone \<noteq> []) \<and>
        (case cut_ellipsis addr of
           None \<Rightarrow> count_groups (colon_groups addr) = Some 8
         | Some (l, r) \<Rightarrow>
             list_all hex_group (colon_groups l) \<and>
             (case count_groups (colon_groups r) of
                None \<Rightarrow> False
              | Some n \<Rightarrow> length (colon_groups l) + n \<le> 7)))"

fun cut_zone :: "string \<Rightarrow> (string \<times> string) option" where
  "cut_zone [] = None"
| "cut_zone (c # s) =
     (if take 3 (c # s) = ''%25'' then Some ([], c # s)
      else map_option (\<lambda>(a, b). (c # a, b)) (cut_zone s))"

definition parseHost :: "string \<Rightarrow> string \<Rightarrow> string option" where
  "parseHost scheme host =
     (if CHR ''['' \<in> set host then
        (if hd host \<noteq> CHR ''['' \<or> CHR ''['' \<in> set (tl host) then None
         else (case cut_last (CHR '']'') host of
                 None \<Rightarrow> None
               | Some (opened, colonPort) \<Rightarrow>
                   if \<not> validOptionalPort colonPort then None
                   else (case (case cut_zone (tl opened) of
                                 None \<Rightarrow> url_unescape encodeHost (tl opened)
                               | Some (name, zone) \<Rightarrow>
                                   (case (url_unescape encodeHost name, url_unescape encodeZone zone) of
                                      (Some n, Some z) \<Rightarrow> Some (n @ z)
                                    | _ \<Rightarrow> None)) of
                           None \<Rightarrow> None
                         | Some hostname \<Rightarrow>
                             if ipv6_text hostname then Some (''['' @ hostname @ '']'' @ colonPort)
                             else None)))
      else (case Cut (CHR '':'') host of (_, after, found) \<Rightarrow>
        let port = (if \<not> found then []
                    else if CHR '':'' \<in> set after \<and> scheme \<in> {''postgresql'', ''postgres''}
                    then (case cut_last (CHR '':'') host of Some (_, p) \<Rightarrow> '':'' @ p | None \<Rightarrow> [])
                    else '':'' @ after)
        in if \<not> validOptionalPort port then None else url_unescape encodeHost host))"

definition validUserinfo :: "string \<Rightarrow> bool" where
  "validUserinfo s =
     list_all (\<lambda>c. is_alpha c \<or> is_digit c \<or> c \<in> set ''-._:~!$&()*+,;=%@'' \<union> {CHR 0x27}) s"

text \<open>\<open>parseAuthority\<close>: the host, when the userinfo before the last \<open>@\<close> is well formed.\<close>

definition parseAuthority :: "string \<Rightarrow> string \<Rightarrow> string option" where
  "parseAuthority scheme authority =
     (case cut_last (CHR ''@'') authority of
        None \<Rightarrow> parseHost scheme authority
      | Some (userinfo, host) \<Rightarrow>
          (case parseHost scheme host of
             None \<Rightarrow> None
           | Some h \<Rightarrow>
               if \<not> validUserinfo userinfo then None
               else (case Cut (CHR '':'') userinfo of (u, p, _) \<Rightarrow>
                 if url_unescape encodeUserPassword u = None
                    \<or> url_unescape encodeUserPassword p = None
                 then None else Some h)))"

definition ctl_byte :: "char \<Rightarrow> bool" where
  "ctl_byte c \<longleftrightarrow> (of_char c :: nat) < 32 \<or> of_char c = (127 :: nat)"

definition split_query :: "string \<Rightarrow> string \<times> string" where
  "split_query rest =
     (if rest \<noteq> [] \<and> last rest = CHR ''?'' \<and> count_list rest (CHR ''?'') = 1
      then (butlast rest, [])
      else (case Cut (CHR ''?'') rest of (r, q, _) \<Rightarrow> (r, q)))"

definition empty_URL :: URL where
  "empty_URL = \<lparr>url_Scheme = [], url_Opaque = [], url_Host = [], url_Path = [], url_RawQuery = []\<rparr>"

definition parse_rest :: "string \<Rightarrow> string \<Rightarrow> string \<Rightarrow> URL option" where
  "parse_rest scheme query rest =
     (if (scheme \<noteq> [] \<or> \<not> HasPrefix rest ''///'') \<and> HasPrefix rest ''//'' then
        (let authority = takeWhile (\<lambda>c. c \<noteq> CHR ''/'') (drop 2 rest);
             path = dropWhile (\<lambda>c. c \<noteq> CHR ''/'') (drop 2 rest)
         in (case (parseAuthority scheme authority, url_unescape encodePath path) of
               (Some h, Some p) \<Rightarrow> Some (empty_URL\<lparr>url_Scheme := scheme, url_Host := h, url_Path := p,
                                              url_RawQuery := query\<rparr>)
             | _ \<Rightarrow> None))
      else map_option (\<lambda>p. empty_URL\<lparr>url_Scheme := scheme, url_Path := p, url_RawQuery := query\<rparr>)
             (url_unescape encodePath rest))"

definition url_Parse :: "string \<Rightarrow> URL option" where
  "url_Parse rawURL =
     (case Cut (CHR ''#'') rawURL of (u, frag, _) \<Rightarrow>
       if list_ex ctl_byte u then None
       else if u = ''*''
       then (if url_unescape encodeFragment frag = None then None else Some (empty_URL\<lparr>url_Path := u\<rparr>))
       else (case getScheme u of
               None \<Rightarrow> None
             | Some (scheme0, rest0) \<Rightarrow>
                 (let scheme = ascii_lower scheme0;
                      (rest, query) = split_query rest0;
                      parsed =
                        (if \<not> HasPrefix rest ''/'' \<and> scheme \<noteq> []
                         then Some (empty_URL\<lparr>url_Scheme := scheme, url_Opaque := rest, url_RawQuery := query\<rparr>)
                         else if \<not> HasPrefix rest ''/''
                                 \<and> CHR '':'' \<in> set (takeWhile (\<lambda>c. c \<noteq> CHR ''/'') rest)
                         then None
                         else parse_rest scheme query rest)
                  in if url_unescape encodeFragment frag = None then None else parsed)))"

end
