(* ===== verification/Organizations.thy ===== *)
theory Organizations
  imports Httpx GoURL
begin

text \<open>
  \<open>internal/organizations\<close>: the organizations of an installation, their users, and their
  governance (which integrations are visible, hidden or featured, and how long logs and
  events are kept). \<open>types.go\<close> and \<open>errors.go\<close> give the data and its rules, \<open>driven/memory\<close>
  the in-memory repositories, \<open>facade.go\<close> the operations; \<open>config.go\<close> and the configuration
  import/export of the facade are in the theory OrgConfig.
\<close>

section \<open>Errors (errors.go)\<close>

definition org_ErrNotFound :: go_error where
  "org_ErrNotFound = DomainError (httpx_New 404 ''not_found'' ''organization not found'')"

definition org_ErrValidation :: "string \<Rightarrow> string \<Rightarrow> go_error" where
  "org_ErrValidation field issue =
     DomainError (WithDetails (httpx_New 422 ''validation_failed'' ''validation failed'')
       [(''field'', DStr field), (''issue'', DStr issue)])"

definition org_ErrInvalidName :: "string \<Rightarrow> string \<Rightarrow> go_error" where
  "org_ErrInvalidName field issue = org_ErrValidation field issue"

definition org_ErrUserNotFound :: go_error where
  "org_ErrUserNotFound = DomainError (httpx_New 404 ''not_found'' ''user not found'')"

definition org_ErrInvalidCursor :: go_error where
  "org_ErrInvalidCursor =
     DomainError (WithDetails (httpx_New 422 ''validation_failed'' ''validation failed'')
       [(''field'', DStr ''cursor''), (''issue'', DStr ''malformed pagination cursor'')])"

lemma org_ErrInvalidCursor_eq [simp]: "org_ErrInvalidCursor = invalid_cursor_error"
  by (simp add: org_ErrInvalidCursor_def invalid_cursor_error_def validation_error_def)

section \<open>Organizations and users (types.go)\<close>

type_synonym OrgID = string
type_synonym UserID = string

record Organization =
  Org_ID :: OrgID
  Org_Name :: string
  Org_AllowedRedirectURIs :: "string list"
  Org_CreatedAt :: time

definition NameMaxLength :: nat where
  "NameMaxLength = 255"

definition validateName :: "string \<Rightarrow> go_error option" where
  "validateName trimmed =
     (if trimmed = [] then Some (org_ErrInvalidName ''name'' ''must not be empty'')
      else if length trimmed > NameMaxLength
      then Some (org_ErrInvalidName ''name'' ''must be at most 255 chars'')
      else None)"

definition NewOrganization :: "OrgID \<Rightarrow> string \<Rightarrow> time \<Rightarrow> go_error + Organization" where
  "NewOrganization i name now =
     (let trimmed = TrimSpace name in
      case validateName trimmed of
        Some e \<Rightarrow> Inl e
      | None \<Rightarrow> Inr \<lparr>Org_ID = i, Org_Name = trimmed, Org_AllowedRedirectURIs = [], Org_CreatedAt = now\<rparr>)"

fun normalizeRedirectURIs :: "string list \<Rightarrow> string list" where
  "normalizeRedirectURIs [] = []"
| "normalizeRedirectURIs (uri # uris) =
     (let trimmed = TrimSpace uri in
      if trimmed \<noteq> [] then trimmed # normalizeRedirectURIs uris else normalizeRedirectURIs uris)"

definition WithAllowedRedirectURIs :: "Organization \<Rightarrow> string list \<Rightarrow> Organization" where
  "WithAllowedRedirectURIs org uris = org\<lparr>Org_AllowedRedirectURIs := normalizeRedirectURIs uris\<rparr>"

definition isOriginOnly :: "URL \<Rightarrow> bool" where
  "isOriginOnly u \<longleftrightarrow> url_Path u = [] \<or> url_Path u = ''/''"

definition redirectURIMatches :: "string \<Rightarrow> string \<Rightarrow> bool" where
  "redirectURIMatches allowed candidate =
     (if allowed = candidate then True
      else (case url_Parse allowed of
              None \<Rightarrow> False
            | Some allowedURL \<Rightarrow>
                if \<not> isOriginOnly allowedURL then False
                else (case url_Parse candidate of
                        None \<Rightarrow> False
                      | Some candidateURL \<Rightarrow>
                          url_Scheme allowedURL = url_Scheme candidateURL
                          \<and> url_Host allowedURL = url_Host candidateURL)))"

definition AllowsRedirectURI :: "Organization \<Rightarrow> string \<Rightarrow> bool" where
  "AllowsRedirectURI org candidate =
     list_ex (\<lambda>allowed. redirectURIMatches allowed candidate) (Org_AllowedRedirectURIs org)"

record User =
  User_ID :: UserID
  User_OrgID :: OrgID
  User_Name :: string
  User_ExternalID :: string
  User_CreatedAt :: time

definition NewUser :: "UserID \<Rightarrow> OrgID \<Rightarrow> string \<Rightarrow> string \<Rightarrow> time \<Rightarrow> go_error + User" where
  "NewUser i org name externalID now =
     (let trimmed = TrimSpace name in
      case validateName trimmed of
        Some e \<Rightarrow> Inl e
      | None \<Rightarrow> Inr \<lparr>User_ID = i, User_OrgID = org, User_Name = trimmed,
                    User_ExternalID = TrimSpace externalID, User_CreatedAt = now\<rparr>)"

section \<open>Governance (types.go)\<close>

text \<open>
  A nil slice and an empty one are the same list here: nothing in the package tells them
  apart. A nil pointer is \<open>None\<close>: "inherit the installation's setting".
\<close>

definition DefaultFeaturedCap :: int where
  "DefaultFeaturedCap = 8"

record Governance =
  Gov_OrgID :: OrgID
  Gov_AllowList :: "string list option"
  Gov_Hidden :: "string list"
  Gov_Featured :: "string list"
  Gov_FeaturedCap :: int
  Gov_LogRetentionDays :: "int option"
  Gov_EventRetentionDays :: "int option"

definition NewDefaultGovernance :: "OrgID \<Rightarrow> Governance" where
  "NewDefaultGovernance org =
     \<lparr>Gov_OrgID = org, Gov_AllowList = None, Gov_Hidden = [], Gov_Featured = [],
      Gov_FeaturedCap = DefaultFeaturedCap, Gov_LogRetentionDays = None, Gov_EventRetentionDays = None\<rparr>"

definition NewGovernance ::
  "OrgID \<Rightarrow> string list option \<Rightarrow> string list \<Rightarrow> string list \<Rightarrow> int \<Rightarrow> go_error + Governance"
where
  "NewGovernance org allowList hidden featured featuredCap =
     (let cap = (if featuredCap \<le> 0 then DefaultFeaturedCap else featuredCap) in
      if int (length featured) > cap
      then Inl (org_ErrValidation ''featured'' (''exceeds the featured cap of '' @ itoa cap))
      else Inr \<lparr>Gov_OrgID = org, Gov_AllowList = allowList, Gov_Hidden = hidden, Gov_Featured = featured,
                Gov_FeaturedCap = cap, Gov_LogRetentionDays = None, Gov_EventRetentionDays = None\<rparr>)"

definition MinRetentionDays :: int where
  "MinRetentionDays = 1"

definition validateRetentionWindow :: "string \<Rightarrow> int option \<Rightarrow> go_error option" where
  "validateRetentionWindow field days =
     (case days of
        None \<Rightarrow> None
      | Some d \<Rightarrow>
          if d = 0 then None
          else if d < MinRetentionDays
          then Some (org_ErrValidation field
                 (''must be 0 (unlimited) or at least '' @ itoa MinRetentionDays @ '' day(s)''))
          else None)"

definition WithRetention :: "Governance \<Rightarrow> int option \<Rightarrow> int option \<Rightarrow> go_error + Governance" where
  "WithRetention g logDays eventDays =
     (case validateRetentionWindow ''logRetentionDays'' logDays of
        Some e \<Rightarrow> Inl e
      | None \<Rightarrow>
          (case validateRetentionWindow ''eventRetentionDays'' eventDays of
             Some e \<Rightarrow> Inl e
           | None \<Rightarrow> Inr (g\<lparr>Gov_LogRetentionDays := logDays, Gov_EventRetentionDays := eventDays\<rparr>)))"

definition EffectiveLogRetentionDays :: "Governance \<Rightarrow> int \<Rightarrow> int" where
  "EffectiveLogRetentionDays g installationDefault =
     (case Gov_LogRetentionDays g of None \<Rightarrow> installationDefault | Some d \<Rightarrow> d)"

definition EffectiveEventRetentionDays :: "Governance \<Rightarrow> int \<Rightarrow> int" where
  "EffectiveEventRetentionDays g installationDefault =
     (case Gov_EventRetentionDays g of None \<Rightarrow> installationDefault | Some d \<Rightarrow> d)"

fun containsString :: "string list \<Rightarrow> string \<Rightarrow> bool" where
  "containsString [] target = False"
| "containsString (v # vs) target = (if v = target then True else containsString vs target)"

definition IsHidden :: "Governance \<Rightarrow> string \<Rightarrow> bool" where
  "IsHidden g integrationID = containsString (Gov_Hidden g) integrationID"

definition IsVisible :: "Governance \<Rightarrow> string \<Rightarrow> bool" where
  "IsVisible g integrationID =
     (if IsHidden g integrationID then False
      else (case Gov_AllowList g of
              None \<Rightarrow> True
            | Some allowed \<Rightarrow> containsString allowed integrationID))"

text \<open>Every governance the constructors build, with a retention that passed its check.\<close>

definition valid_window :: "int option \<Rightarrow> bool" where
  "valid_window d \<longleftrightarrow> (\<forall>n. d = Some n \<longrightarrow> 0 \<le> n)"

definition valid_governance :: "Governance \<Rightarrow> bool" where
  "valid_governance g \<longleftrightarrow>
     0 < Gov_FeaturedCap g \<and> int (length (Gov_Featured g)) \<le> Gov_FeaturedCap g
     \<and> valid_window (Gov_LogRetentionDays g) \<and> valid_window (Gov_EventRetentionDays g)"

lemma containsString_iff [simp]: "containsString vs target \<longleftrightarrow> target \<in> set vs"
  by (induction vs) auto

lemma IsVisible_iff:
  "IsVisible g i \<longleftrightarrow>
     i \<notin> set (Gov_Hidden g) \<and> (\<forall>allowed. Gov_AllowList g = Some allowed \<longrightarrow> i \<in> set allowed)"
  by (auto simp: IsVisible_def IsHidden_def split: option.split)

lemma validateRetentionWindow_iff: "validateRetentionWindow f d = None \<longleftrightarrow> valid_window d"
  by (auto simp: validateRetentionWindow_def valid_window_def MinRetentionDays_def split: option.split)

lemma NewDefaultGovernance_valid: "valid_governance (NewDefaultGovernance org)"
  by (simp add: valid_governance_def NewDefaultGovernance_def DefaultFeaturedCap_def valid_window_def)

lemma NewGovernance_Inr:
  assumes "NewGovernance org al h f c = Inr g"
  shows "g = \<lparr>Gov_OrgID = org, Gov_AllowList = al, Gov_Hidden = h, Gov_Featured = f,
      Gov_FeaturedCap = (if c \<le> 0 then DefaultFeaturedCap else c),
      Gov_LogRetentionDays = None, Gov_EventRetentionDays = None\<rparr>"
    and "valid_governance g"
  using assms
  by (auto simp: NewGovernance_def Let_def valid_governance_def valid_window_def DefaultFeaturedCap_def
      split: if_splits)

lemma WithRetention_Inr_iff:
  "WithRetention g l e = Inr g' \<longleftrightarrow>
     valid_window l \<and> valid_window e \<and> g' = g\<lparr>Gov_LogRetentionDays := l, Gov_EventRetentionDays := e\<rparr>"
proof -
  have "WithRetention g l e = Inr g' \<longleftrightarrow>
      validateRetentionWindow ''logRetentionDays'' l = None \<and>
      validateRetentionWindow ''eventRetentionDays'' e = None \<and>
      g' = g\<lparr>Gov_LogRetentionDays := l, Gov_EventRetentionDays := e\<rparr>"
    by (auto simp: WithRetention_def split: option.split)
  then show ?thesis by (simp add: validateRetentionWindow_iff)
qed

lemma WithRetention_valid:
  assumes "valid_governance g" and "WithRetention g l e = Inr g'"
  shows "valid_governance g'"
  using assms by (simp add: WithRetention_Inr_iff valid_governance_def)

end
