(* ===== verification/OrgFacade.thy ===== *)
theory OrgFacade
  imports Organizations
begin

text \<open>
  \<open>internal/organizations/facade.go\<close> over the ports of \<open>port.go\<close>, and the in-memory adapter of
  those ports, \<open>driven/memory/repository.go\<close>. The facade is a record of the operations it was
  built with, over any state; \<open>org_memory_facade\<close> is the one \<open>NewFacadeWithOverrides\<close> builds.
\<close>

section \<open>The facade and its ports (port.go)\<close>

type_synonym ListAllCursor = "time \<times> OrgID"
type_synonym UserListCursor = "time \<times> UserID"

text \<open>
  An endpoint's event-type filter is a slice whose nil value means "every type": \<open>None\<close>.
\<close>

record PortedEndpoint =
  PE_ID :: string
  PE_URL :: string
  PE_EventTypes :: "string list option"

record PortedEndpointSecret =
  PES_ID :: string
  PES_Secret :: string

record 's EndpointPorter =
  port_ListEndpoints :: "OrgID \<Rightarrow> ('s, PortedEndpoint list) act"
  port_CreateEndpoint :: "OrgID \<Rightarrow> string \<Rightarrow> string list option \<Rightarrow> ('s, PortedEndpointSecret) act"
  port_UpdateEndpoint :: "OrgID \<Rightarrow> string \<Rightarrow> string \<Rightarrow> string list option \<Rightarrow> ('s, unit) act"
  port_DeleteEndpoint :: "OrgID \<Rightarrow> string \<Rightarrow> ('s, unit) act"

record 's org_facade =
  org_repo_Save :: "Organization \<Rightarrow> ('s, unit) act"
  org_repo_FindByID :: "OrgID \<Rightarrow> ('s, Organization option) act"
  org_repo_Update :: "Organization \<Rightarrow> ('s, unit) act"
  org_repo_ListAll :: "ListAllCursor option \<Rightarrow> int \<Rightarrow> ('s, Organization list) act"
  org_users_SaveUser :: "User \<Rightarrow> ('s, unit) act"
  org_users_FindUserByID :: "OrgID \<Rightarrow> UserID \<Rightarrow> ('s, User option) act"
  org_users_ListByOrg :: "OrgID \<Rightarrow> UserListCursor option \<Rightarrow> int \<Rightarrow> ('s, User list) act"
  org_governance_FindByOrg :: "OrgID \<Rightarrow> ('s, Governance option) act"
  org_governance_SaveGovernance :: "Governance \<Rightarrow> ('s, unit) act"
  org_endpointPorter :: "'s EndpointPorter"
  org_integrations_IntegrationExists :: "string \<Rightarrow> ('s, bool) act"
  org_newOrgID :: "'s \<Rightarrow> string \<times> 's"
  org_newUserID :: "'s \<Rightarrow> string \<times> 's"
  org_now :: "'s \<Rightarrow> time \<times> 's"

section \<open>Organizations (facade.go)\<close>

definition org_Create :: "'s org_facade \<Rightarrow> string \<Rightarrow> ('s, Organization) act" where
  "org_Create f name =
     call (org_newOrgID f) (\<lambda>i.
     call (org_now f) (\<lambda>now.
     attempt (lift (NewOrganization i name now)) (\<lambda>org.
     attempt (org_repo_Save f org) (\<lambda>_.
     ok org))))"

definition org_Get :: "'s org_facade \<Rightarrow> OrgID \<Rightarrow> ('s, Organization) act" where
  "org_Get f i =
     attempt (org_repo_FindByID f i) (\<lambda>found.
     case found of None \<Rightarrow> fail org_ErrNotFound | Some org \<Rightarrow> ok org)"

definition org_CreateUser :: "'s org_facade \<Rightarrow> OrgID \<Rightarrow> string \<Rightarrow> string \<Rightarrow> ('s, User) act" where
  "org_CreateUser f org name externalID =
     call (org_newUserID f) (\<lambda>i.
     call (org_now f) (\<lambda>now.
     attempt (lift (NewUser i org name externalID now)) (\<lambda>user.
     attempt (org_users_SaveUser f user) (\<lambda>_.
     ok user))))"

definition org_SetAllowedRedirectURIs :: "'s org_facade \<Rightarrow> OrgID \<Rightarrow> string list \<Rightarrow> ('s, Organization) act" where
  "org_SetAllowedRedirectURIs f i uris =
     attempt (org_repo_FindByID f i) (\<lambda>found.
     case found of
       None \<Rightarrow> fail org_ErrNotFound
     | Some org \<Rightarrow>
         (let updated = WithAllowedRedirectURIs org uris in
          attempt (org_repo_Update f updated) (\<lambda>_. ok updated)))"

subsection \<open>Listings\<close>

definition defaultListAllLimit :: int where
  "defaultListAllLimit = 50"

definition maxListAllLimit :: int where
  "maxListAllLimit = 200"

record ListAllParams =
  LAP_Cursor :: string
  LAP_Limit :: int

record ListAllResult =
  LAR_Organizations :: "Organization list"
  LAR_NextCursor :: string

definition normalizeListAllLimit :: "int \<Rightarrow> int" where
  "normalizeListAllLimit requested =
     (if requested \<le> 0 then defaultListAllLimit
      else if requested > maxListAllLimit then maxListAllLimit
      else requested)"

definition encodeListAllCursor :: "time \<Rightarrow> OrgID \<Rightarrow> string" where
  "encodeListAllCursor createdAt i = EncodeCursor [format_RFC3339Nano createdAt, i]"

definition decodeListAllCursor :: "string \<Rightarrow> go_error + ListAllCursor option" where
  "decodeListAllCursor raw =
     (case DecodeCursor raw 2 of
        Inl _ \<Rightarrow> Inl org_ErrInvalidCursor
      | Inr None \<Rightarrow> Inr None
      | Inr (Some parts) \<Rightarrow>
          (case parse_RFC3339Nano (parts ! 0) of
             None \<Rightarrow> Inl org_ErrInvalidCursor
           | Some createdAt \<Rightarrow> Inr (Some (createdAt, parts ! 1))))"

definition paginateOrganizations :: "Organization list \<Rightarrow> int \<Rightarrow> ListAllResult" where
  "paginateOrganizations items limit =
     (let hasMore = int (length items) > limit;
          shown = (if hasMore then take (nat limit) items else items)
      in \<lparr>LAR_Organizations = shown,
          LAR_NextCursor = (if hasMore
            then encodeListAllCursor (Org_CreatedAt (last shown)) (Org_ID (last shown)) else [])\<rparr>)"

definition org_ListAll :: "'s org_facade \<Rightarrow> ListAllParams \<Rightarrow> ('s, ListAllResult) act" where
  "org_ListAll f params =
     attempt (lift (decodeListAllCursor (LAP_Cursor params))) (\<lambda>cursor.
     let limit = normalizeListAllLimit (LAP_Limit params) in
     attempt (org_repo_ListAll f cursor (limit + 1)) (\<lambda>items.
     ok (paginateOrganizations items limit)))"

definition org_GetUser :: "'s org_facade \<Rightarrow> OrgID \<Rightarrow> UserID \<Rightarrow> ('s, User) act" where
  "org_GetUser f org i =
     attempt (org_users_FindUserByID f org i) (\<lambda>found.
     case found of None \<Rightarrow> fail org_ErrUserNotFound | Some user \<Rightarrow> ok user)"

record ListUsersParams =
  LUP_Cursor :: string
  LUP_Limit :: int

record ListUsersResult =
  LUR_Users :: "User list"
  LUR_NextCursor :: string

definition encodeUserListCursor :: "time \<Rightarrow> UserID \<Rightarrow> string" where
  "encodeUserListCursor createdAt i = EncodeCursor [format_RFC3339Nano createdAt, i]"

definition decodeUserListCursor :: "string \<Rightarrow> go_error + UserListCursor option" where
  "decodeUserListCursor raw =
     (case DecodeCursor raw 2 of
        Inl _ \<Rightarrow> Inl org_ErrInvalidCursor
      | Inr None \<Rightarrow> Inr None
      | Inr (Some parts) \<Rightarrow>
          (case parse_RFC3339Nano (parts ! 0) of
             None \<Rightarrow> Inl org_ErrInvalidCursor
           | Some createdAt \<Rightarrow> Inr (Some (createdAt, parts ! 1))))"

definition paginateUsers :: "User list \<Rightarrow> int \<Rightarrow> ListUsersResult" where
  "paginateUsers items limit =
     (let hasMore = int (length items) > limit;
          shown = (if hasMore then take (nat limit) items else items)
      in \<lparr>LUR_Users = shown,
          LUR_NextCursor = (if hasMore
            then encodeUserListCursor (User_CreatedAt (last shown)) (User_ID (last shown)) else [])\<rparr>)"

definition org_ListUsers :: "'s org_facade \<Rightarrow> OrgID \<Rightarrow> ListUsersParams \<Rightarrow> ('s, ListUsersResult) act" where
  "org_ListUsers f org params =
     attempt (lift (decodeUserListCursor (LUP_Cursor params))) (\<lambda>cursor.
     let limit = normalizeListAllLimit (LUP_Limit params) in
     attempt (org_users_ListByOrg f org cursor (limit + 1)) (\<lambda>items.
     ok (paginateUsers items limit)))"

subsection \<open>Governance and retention\<close>

definition org_GetGovernance :: "'s org_facade \<Rightarrow> OrgID \<Rightarrow> ('s, Governance) act" where
  "org_GetGovernance f org =
     attempt (org_governance_FindByOrg f org) (\<lambda>found.
     case found of None \<Rightarrow> ok (NewDefaultGovernance org) | Some governance \<Rightarrow> ok governance)"

record GovernanceUpdate =
  GU_AllowList :: "string list option"
  GU_Hidden :: "string list"
  GU_Featured :: "string list"
  GU_FeaturedCap :: int

definition org_SetGovernance :: "'s org_facade \<Rightarrow> OrgID \<Rightarrow> GovernanceUpdate \<Rightarrow> ('s, Governance) act" where
  "org_SetGovernance f org update =
     attempt (org_GetGovernance f org) (\<lambda>existing.
     attempt (lift (NewGovernance org (GU_AllowList update) (GU_Hidden update) (GU_Featured update)
                      (GU_FeaturedCap update))) (\<lambda>governance.
     attempt (lift (WithRetention governance (Gov_LogRetentionDays existing)
                      (Gov_EventRetentionDays existing))) (\<lambda>governance'.
     attempt (org_governance_SaveGovernance f governance') (\<lambda>_.
     ok governance'))))"

record RetentionView =
  RV_OrgID :: OrgID
  RV_LogRetentionDays :: "int option"
  RV_EventRetentionDays :: "int option"

definition org_GetRetention :: "'s org_facade \<Rightarrow> OrgID \<Rightarrow> ('s, RetentionView) act" where
  "org_GetRetention f org =
     attempt (org_GetGovernance f org) (\<lambda>governance.
     ok \<lparr>RV_OrgID = org, RV_LogRetentionDays = Gov_LogRetentionDays governance,
         RV_EventRetentionDays = Gov_EventRetentionDays governance\<rparr>)"

record RetentionUpdate =
  RU_LogRetentionDays :: "int option"
  RU_EventRetentionDays :: "int option"

definition org_SetRetention :: "'s org_facade \<Rightarrow> OrgID \<Rightarrow> RetentionUpdate \<Rightarrow> ('s, RetentionView) act" where
  "org_SetRetention f org update =
     attempt (org_GetGovernance f org) (\<lambda>existing.
     attempt (lift (WithRetention existing (RU_LogRetentionDays update)
                      (RU_EventRetentionDays update))) (\<lambda>updated.
     attempt (org_governance_SaveGovernance f updated) (\<lambda>_.
     ok \<lparr>RV_OrgID = org, RV_LogRetentionDays = Gov_LogRetentionDays updated,
         RV_EventRetentionDays = Gov_EventRetentionDays updated\<rparr>)))"

section \<open>The in-memory repositories (driven/memory/repository.go)\<close>

text \<open>
  Go's maps are tables; \<open>sort.Slice\<close> on the rows of a map is \<open>newest_first\<close> on its (creation
  time, id) key, which is unique, so the unstable sort has one possible result.
\<close>

record org_store =
  os_byID :: "(OrgID, Organization) table"
  os_usersByID :: "(UserID, User) table"
  os_governanceByOrg :: "(OrgID, Governance) table"

definition org_NewRepository :: org_store where
  "org_NewRepository = \<lparr>os_byID = [], os_usersByID = [], os_governanceByOrg = []\<rparr>"

definition org_mem_Save :: "Organization \<Rightarrow> (org_store, unit) act" where
  "org_mem_Save org r = (Inr (), r\<lparr>os_byID := put (Org_ID org) org (os_byID r)\<rparr>)"

definition org_mem_FindByID :: "OrgID \<Rightarrow> (org_store, Organization option) act" where
  "org_mem_FindByID i r = (Inr (map_of (os_byID r) i), r)"

definition org_mem_Update :: "Organization \<Rightarrow> (org_store, unit) act" where
  "org_mem_Update org r = (Inr (), r\<lparr>os_byID := put (Org_ID org) org (os_byID r)\<rparr>)"

definition isAfterListAllCursorNewestFirst :: "Organization \<Rightarrow> ListAllCursor \<Rightarrow> bool" where
  "isAfterListAllCursorNewestFirst org cursor =
     (if Org_CreatedAt org < fst cursor then True
      else if Org_CreatedAt org = fst cursor then Org_ID org < snd cursor
      else False)"

definition org_key :: "Organization \<Rightarrow> time_id" where
  "org_key org = (Org_CreatedAt org, Org_ID org)"

definition sortOrganizationsNewestFirst :: "Organization list \<Rightarrow> Organization list" where
  "sortOrganizationsNewestFirst items = newest_first org_key items"

definition org_mem_ListAll :: "ListAllCursor option \<Rightarrow> int \<Rightarrow> (org_store, Organization list) act" where
  "org_mem_ListAll cursor limit r =
     (let items = sortOrganizationsNewestFirst
            (filter (\<lambda>org. case cursor of None \<Rightarrow> True | Some c \<Rightarrow> isAfterListAllCursorNewestFirst org c)
               (rows (os_byID r)))
      in (Inr (if limit > 0 \<and> int (length items) > limit then take (nat limit) items else items), r))"

definition org_mem_SaveUser :: "User \<Rightarrow> (org_store, unit) act" where
  "org_mem_SaveUser user r = (Inr (), r\<lparr>os_usersByID := put (User_ID user) user (os_usersByID r)\<rparr>)"

definition org_mem_FindUserByID :: "OrgID \<Rightarrow> UserID \<Rightarrow> (org_store, User option) act" where
  "org_mem_FindUserByID org i r =
     (case map_of (os_usersByID r) i of
        None \<Rightarrow> (Inr None, r)
      | Some user \<Rightarrow> if User_OrgID user \<noteq> org then (Inr None, r) else (Inr (Some user), r))"

definition isAfterUserListCursorNewestFirst :: "User \<Rightarrow> UserListCursor \<Rightarrow> bool" where
  "isAfterUserListCursorNewestFirst user cursor =
     (if User_CreatedAt user < fst cursor then True
      else if User_CreatedAt user = fst cursor then User_ID user < snd cursor
      else False)"

definition user_key :: "User \<Rightarrow> time_id" where
  "user_key user = (User_CreatedAt user, User_ID user)"

definition sortUsersNewestFirst :: "User list \<Rightarrow> User list" where
  "sortUsersNewestFirst items = newest_first user_key items"

definition org_mem_ListByOrg :: "OrgID \<Rightarrow> UserListCursor option \<Rightarrow> int \<Rightarrow> (org_store, User list) act" where
  "org_mem_ListByOrg org cursor limit r =
     (let items = sortUsersNewestFirst
            (filter (\<lambda>user. User_OrgID user = org
                \<and> (case cursor of None \<Rightarrow> True | Some c \<Rightarrow> isAfterUserListCursorNewestFirst user c))
               (rows (os_usersByID r)))
      in (Inr (if limit > 0 \<and> int (length items) > limit then take (nat limit) items else items), r))"

definition org_mem_FindByOrg :: "OrgID \<Rightarrow> (org_store, Governance option) act" where
  "org_mem_FindByOrg org r = (Inr (map_of (os_governanceByOrg r) org), r)"

definition org_mem_SaveGovernance :: "Governance \<Rightarrow> (org_store, unit) act" where
  "org_mem_SaveGovernance g r =
     (Inr (), r\<lparr>os_governanceByOrg := put (Gov_OrgID g) g (os_governanceByOrg r)\<rparr>)"

text \<open>
  The facade over the in-memory repository (\<open>driven/memory/configuration.go\<close>): sequential ids,
  a clock the world holds, and the endpoint porter and integration checker it is given.
\<close>

record 'e org_world =
  ow_store :: org_store
  ow_orgs_minted :: nat
  ow_users_minted :: nat
  ow_now :: time
  ow_endpoints :: 'e

definition org_sequentialIDs :: "string \<Rightarrow> nat \<Rightarrow> string \<times> nat" where
  "org_sequentialIDs prefix n = (sequential_id prefix n, Suc n)"

definition zoom_porter :: "'e EndpointPorter \<Rightarrow> 'e org_world EndpointPorter" where
  "zoom_porter p =
     \<lparr>port_ListEndpoints = (\<lambda>org. zoom ow_endpoints ow_endpoints_update (port_ListEndpoints p org)),
      port_CreateEndpoint = (\<lambda>org url ets. zoom ow_endpoints ow_endpoints_update (port_CreateEndpoint p org url ets)),
      port_UpdateEndpoint = (\<lambda>org i url ets. zoom ow_endpoints ow_endpoints_update (port_UpdateEndpoint p org i url ets)),
      port_DeleteEndpoint = (\<lambda>org i. zoom ow_endpoints ow_endpoints_update (port_DeleteEndpoint p org i))\<rparr>"

definition org_memory_facade :: "'e EndpointPorter \<Rightarrow> (string \<Rightarrow> bool) \<Rightarrow> 'e org_world org_facade" where
  "org_memory_facade porter known =
     \<lparr>org_repo_Save = (\<lambda>org. zoom ow_store ow_store_update (org_mem_Save org)),
      org_repo_FindByID = (\<lambda>i. zoom ow_store ow_store_update (org_mem_FindByID i)),
      org_repo_Update = (\<lambda>org. zoom ow_store ow_store_update (org_mem_Update org)),
      org_repo_ListAll = (\<lambda>c n. zoom ow_store ow_store_update (org_mem_ListAll c n)),
      org_users_SaveUser = (\<lambda>u. zoom ow_store ow_store_update (org_mem_SaveUser u)),
      org_users_FindUserByID = (\<lambda>org i. zoom ow_store ow_store_update (org_mem_FindUserByID org i)),
      org_users_ListByOrg = (\<lambda>org c n. zoom ow_store ow_store_update (org_mem_ListByOrg org c n)),
      org_governance_FindByOrg = (\<lambda>org. zoom ow_store ow_store_update (org_mem_FindByOrg org)),
      org_governance_SaveGovernance = (\<lambda>g. zoom ow_store ow_store_update (org_mem_SaveGovernance g)),
      org_endpointPorter = zoom_porter porter,
      org_integrations_IntegrationExists = (\<lambda>i. ok (known i)),
      org_newOrgID = zoom ow_orgs_minted ow_orgs_minted_update (org_sequentialIDs ''org_''),
      org_newUserID = zoom ow_users_minted ow_users_minted_update (org_sequentialIDs ''user_''),
      org_now = (\<lambda>w. (ow_now w, w))\<rparr>"

section \<open>The governance repository's contract\<close>

text \<open>
  What the facade relies on: a lookup does not change the state and answers the stored
  record, a save stores the record under its organization or, when it fails, nothing. The
  lemmas hold for every adapter that keeps it; the in-memory one is interpreted below.
\<close>

locale governance_store =
  fixes f :: "'s org_facade"
    and gov :: "'s \<Rightarrow> OrgID \<Rightarrow> Governance option"
  assumes find: "org_governance_FindByOrg f org s = (r, s') \<Longrightarrow>
      s' = s \<and> (\<forall>g. r = Inr g \<longrightarrow> g = gov s org)"
    and save: "org_governance_SaveGovernance f g s = (res, s') \<Longrightarrow>
      gov s' = (if res = Inr () then (gov s)(Gov_OrgID g \<mapsto> g) else gov s)"
begin

definition current :: "'s \<Rightarrow> OrgID \<Rightarrow> Governance" where
  "current s org = (case gov s org of None \<Rightarrow> NewDefaultGovernance org | Some g \<Rightarrow> g)"

definition keyed_gov :: "'s \<Rightarrow> bool" where
  "keyed_gov s \<longleftrightarrow> (\<forall>org g. gov s org = Some g \<longrightarrow> Gov_OrgID g = org \<and> valid_governance g)"

lemma current_OrgID: "keyed_gov s \<Longrightarrow> Gov_OrgID (current s org) = org"
  by (simp add: keyed_gov_def current_def NewDefaultGovernance_def split: option.split)

lemma current_valid: "keyed_gov s \<Longrightarrow> valid_governance (current s org)"
  by (simp add: keyed_gov_def current_def NewDefaultGovernance_valid split: option.split)

lemma keyed_gov_update:
  "keyed_gov s \<Longrightarrow> gov s' = (gov s)(Gov_OrgID g \<mapsto> g) \<Longrightarrow> valid_governance g \<Longrightarrow> keyed_gov s'"
  by (simp add: keyed_gov_def)

lemma get_governance:
  assumes "org_GetGovernance f org s = (r, s')"
  shows "s' = s \<and> (\<forall>g. r = Inr g \<longrightarrow> g = current s org)"
proof -
  obtain r0 s0 where c: "org_governance_FindByOrg f org s = (r0, s0)" by fastforce
  from find [OF c] have "s0 = s" "\<And>g. r0 = Inr g \<Longrightarrow> g = gov s org" by auto
  with assms c show ?thesis
    by (cases r0) (auto simp: org_GetGovernance_def act_simps current_def split: option.splits)
qed

lemma get_retention:
  assumes "org_GetRetention f org s = (r, s')"
  shows "s' = s \<and> (\<forall>v. r = Inr v \<longrightarrow> v = \<lparr>RV_OrgID = org,
      RV_LogRetentionDays = Gov_LogRetentionDays (current s org),
      RV_EventRetentionDays = Gov_EventRetentionDays (current s org)\<rparr>)"
proof -
  obtain r0 s0 where c: "org_GetGovernance f org s = (r0, s0)" by fastforce
  from get_governance [OF c] have "s0 = s" "\<And>g. r0 = Inr g \<Longrightarrow> g = current s org" by auto
  with assms c show ?thesis
    by (cases r0) (auto simp: org_GetRetention_def act_simps)
qed

lemma set_governance_ok:
  assumes "org_SetGovernance f org u s = (Inr g, s')"
  shows "gov s' = (gov s)(org \<mapsto> g)" and "valid_governance g"
    and "g = \<lparr>Gov_OrgID = org, Gov_AllowList = GU_AllowList u, Gov_Hidden = GU_Hidden u,
         Gov_Featured = GU_Featured u,
         Gov_FeaturedCap = (if GU_FeaturedCap u \<le> 0 then DefaultFeaturedCap else GU_FeaturedCap u),
         Gov_LogRetentionDays = Gov_LogRetentionDays (current s org),
         Gov_EventRetentionDays = Gov_EventRetentionDays (current s org)\<rparr>"
proof -
  from assms obtain ex s1 n u1 where
    1: "org_GetGovernance f org s = (Inr ex, s1)" and
    2: "NewGovernance org (GU_AllowList u) (GU_Hidden u) (GU_Featured u) (GU_FeaturedCap u) = Inr n" and
    3: "WithRetention n (Gov_LogRetentionDays ex) (Gov_EventRetentionDays ex) = Inr g" and
    4: "org_governance_SaveGovernance f g s1 = (Inr u1, s')"
    by (auto simp: org_SetGovernance_def attempt_Inr_iff lift_Inr_iff)
  from get_governance [OF 1] have e: "s1 = s" "ex = current s org" by auto
  note n = NewGovernance_Inr [OF 2]
  from 3 have g: "g = n\<lparr>Gov_LogRetentionDays := Gov_LogRetentionDays ex,
      Gov_EventRetentionDays := Gov_EventRetentionDays ex\<rparr>" by (simp add: WithRetention_Inr_iff)
  show "gov s' = (gov s)(org \<mapsto> g)" using save [OF 4] e g n(1) by simp
  show "valid_governance g" by (rule WithRetention_valid [OF n(2) 3])
  show "g = \<lparr>Gov_OrgID = org, Gov_AllowList = GU_AllowList u, Gov_Hidden = GU_Hidden u,
         Gov_Featured = GU_Featured u,
         Gov_FeaturedCap = (if GU_FeaturedCap u \<le> 0 then DefaultFeaturedCap else GU_FeaturedCap u),
         Gov_LogRetentionDays = Gov_LogRetentionDays (current s org),
         Gov_EventRetentionDays = Gov_EventRetentionDays (current s org)\<rparr>"
    using g n(1) e by simp
qed

lemma set_retention_ok:
  assumes "keyed_gov s" and "org_SetRetention f org u s = (Inr v, s')"
  shows "gov s' = (gov s)(org \<mapsto> (current s org)\<lparr>Gov_LogRetentionDays := RU_LogRetentionDays u,
           Gov_EventRetentionDays := RU_EventRetentionDays u\<rparr>)"
    and "valid_governance (current s' org)"
    and "v = \<lparr>RV_OrgID = org, RV_LogRetentionDays = RU_LogRetentionDays u,
           RV_EventRetentionDays = RU_EventRetentionDays u\<rparr>"
proof -
  from assms(2) obtain ex s1 g u1 where
    1: "org_GetGovernance f org s = (Inr ex, s1)" and
    2: "WithRetention ex (RU_LogRetentionDays u) (RU_EventRetentionDays u) = Inr g" and
    3: "org_governance_SaveGovernance f g s1 = (Inr u1, s')" and
    v: "v = \<lparr>RV_OrgID = org, RV_LogRetentionDays = Gov_LogRetentionDays g,
         RV_EventRetentionDays = Gov_EventRetentionDays g\<rparr>"
    by (auto simp: org_SetRetention_def attempt_Inr_iff lift_Inr_iff)
  from get_governance [OF 1] have e: "s1 = s" "ex = current s org" by auto
  from 2 have g: "g = (current s org)\<lparr>Gov_LogRetentionDays := RU_LogRetentionDays u,
      Gov_EventRetentionDays := RU_EventRetentionDays u\<rparr>" by (simp add: WithRetention_Inr_iff e)
  have gov: "gov s' = (gov s)(org \<mapsto> g)"
    using save [OF 3] e g current_OrgID [OF assms(1), of org] by simp
  then show "gov s' = (gov s)(org \<mapsto> (current s org)\<lparr>Gov_LogRetentionDays := RU_LogRetentionDays u,
      Gov_EventRetentionDays := RU_EventRetentionDays u\<rparr>)" using g by simp
  have "valid_governance g"
    using WithRetention_valid [OF current_valid [OF assms(1)] 2 [unfolded e]] .
  then show "valid_governance (current s' org)" using gov by (simp add: current_def)
  show "v = \<lparr>RV_OrgID = org, RV_LogRetentionDays = RU_LogRetentionDays u,
      RV_EventRetentionDays = RU_EventRetentionDays u\<rparr>" using v g by simp
qed

lemma set_governance_error: "org_SetGovernance f org u s = (Inl e, s') \<Longrightarrow> gov s' = gov s"
  using get_governance [of org s]
  by (auto simp: org_SetGovernance_def act_simps split: prod.splits sum.splits dest!: save)

lemma set_retention_error: "org_SetRetention f org u s = (Inl e, s') \<Longrightarrow> gov s' = gov s"
  using get_governance [of org s]
  by (auto simp: org_SetRetention_def act_simps split: prod.splits sum.splits dest!: save)

lemma set_governance_keeps_keyed:
  "keyed_gov s \<Longrightarrow> org_SetGovernance f org u s = (r, s') \<Longrightarrow> keyed_gov s'"
  using set_governance_ok [of org u s] set_governance_error [of org u s]
  by (cases r) (auto simp: keyed_gov_def)

lemma set_retention_keeps_keyed:
  "keyed_gov s \<Longrightarrow> org_SetRetention f org u s = (r, s') \<Longrightarrow> keyed_gov s'"
proof (cases r)
  case (Inl e)
  assume "keyed_gov s" "org_SetRetention f org u s = (r, s')"
  then show ?thesis using set_retention_error Inl by (fastforce simp: keyed_gov_def)
next
  case (Inr v)
  assume k: "keyed_gov s" and "org_SetRetention f org u s = (r, s')"
  then have u: "org_SetRetention f org u s = (Inr v, s')" using Inr by simp
  have "valid_governance (current s' org)" "Gov_OrgID (current s' org) = org"
    using set_retention_ok [OF k u] current_OrgID [OF k, of org] by (simp_all add: current_def)
  moreover have "gov s' = (gov s)(org \<mapsto> current s' org)"
    using set_retention_ok(1) [OF k u] by (simp add: current_def)
  ultimately show ?thesis using k by (simp add: keyed_gov_def)
qed

end

lemma org_memory_governance_simps:
  "org_governance_FindByOrg (org_memory_facade p known) org w
     = (Inr (map_of (os_governanceByOrg (ow_store w)) org), w)"
  "org_governance_SaveGovernance (org_memory_facade p known) g w
     = (Inr (), w\<lparr>ow_store := (ow_store w)\<lparr>os_governanceByOrg :=
          put (Gov_OrgID g) g (os_governanceByOrg (ow_store w))\<rparr>\<rparr>)"
  by (simp_all add: org_memory_facade_def org_mem_FindByOrg_def org_mem_SaveGovernance_def zoom_def)

interpretation mem_gov: governance_store "org_memory_facade p known"
  "\<lambda>w. map_of (os_governanceByOrg (ow_store w))"
  by unfold_locales (auto simp: org_memory_governance_simps)

section \<open>The listings\<close>

lemma org_after_cursor:
  "(case c of None \<Rightarrow> True | Some k \<Rightarrow> isAfterListAllCursorNewestFirst o' k) = after_cursor org_key c o'"
  by (cases c)
    (auto simp: after_cursor_def isAfterListAllCursorNewestFirst_def org_key_def less_prod_def
      split: prod.splits)

lemma user_after_cursor:
  "(case c of None \<Rightarrow> True | Some k \<Rightarrow> isAfterUserListCursorNewestFirst u k) = after_cursor user_key c u"
  by (cases c)
    (auto simp: after_cursor_def isAfterUserListCursorNewestFirst_def user_key_def less_prod_def
      split: prod.splits)

definition org_listing :: "org_store \<Rightarrow> unit \<Rightarrow> ListAllCursor option \<Rightarrow> nat \<Rightarrow> Organization list" where
  "org_listing r u c n = projr (fst (org_mem_ListAll c (int n) r))"

definition user_listing :: "org_store \<Rightarrow> OrgID \<Rightarrow> UserListCursor option \<Rightarrow> nat \<Rightarrow> User list" where
  "user_listing r org c n = projr (fst (org_mem_ListByOrg org c (int n) r))"

definition all_orgs :: "org_store \<Rightarrow> unit \<Rightarrow> Organization list" where
  "all_orgs r u = newest_first org_key (rows (os_byID r))"

definition users_of :: "org_store \<Rightarrow> OrgID \<Rightarrow> User list" where
  "users_of r org = newest_first user_key (filter (\<lambda>u. User_OrgID u = org) (rows (os_usersByID r)))"

definition org_store_inv :: "org_store \<Rightarrow> bool" where
  "org_store_inv r \<longleftrightarrow> keyed Org_ID (os_byID r) \<and> keyed User_ID (os_usersByID r)
     \<and> keyed Gov_OrgID (os_governanceByOrg r)"

lemma distinct_org_keys: "org_store_inv r \<Longrightarrow> distinct (map org_key (rows (os_byID r)))"
  using keyed_distinct_rows [of Org_ID "os_byID r"]
  by (auto simp: org_store_inv_def distinct_map inj_on_def org_key_def)

lemma distinct_user_keys:
  "org_store_inv r \<Longrightarrow> distinct (map user_key (filter P (rows (os_usersByID r))))"
  using keyed_distinct_rows [of User_ID "os_usersByID r"]
  by (auto simp: org_store_inv_def distinct_map inj_on_def user_key_def)

interpretation org_list: cursor_listing org_store_inv org_key all_orgs org_listing
proof
  fix s u assume "org_store_inv s"
  then show "sorted_wrt (\<lambda>a b. org_key b < org_key a) (all_orgs s u)"
    unfolding all_orgs_def by (intro newest_first_desc distinct_org_keys)
next
  fix s :: org_store and n :: nat and u c assume "0 < n"
  then show "org_listing s u c n = take n (filter (after_cursor org_key c) (all_orgs s u))"
    by (simp add: org_listing_def org_mem_ListAll_def all_orgs_def sortOrganizationsNewestFirst_def
        org_after_cursor newest_first_filter Let_def)
qed

interpretation user_list: cursor_listing org_store_inv user_key users_of user_listing
proof
  fix s org assume "org_store_inv s"
  then show "sorted_wrt (\<lambda>a b. user_key b < user_key a) (users_of s org)"
    unfolding users_of_def by (intro newest_first_desc distinct_user_keys)
next
  fix s :: org_store and n :: nat and org c assume "0 < n"
  then show "user_listing s org c n = take n (filter (after_cursor user_key c) (users_of s org))"
    by (simp add: user_listing_def org_mem_ListByOrg_def users_of_def sortUsersNewestFirst_def
        user_after_cursor newest_first_filter Let_def conj_commute)
qed

lemma decodeListAllCursor_eq: "decodeListAllCursor = decode_time_id"
  unfolding decodeListAllCursor_def decode_time_id_def org_ErrInvalidCursor_eq ..

lemma decodeUserListCursor_eq: "decodeUserListCursor = decode_time_id"
  unfolding decodeUserListCursor_def decode_time_id_def org_ErrInvalidCursor_eq ..

lemma normalizeListAllLimit_bounds: "1 \<le> normalizeListAllLimit n" "normalizeListAllLimit n \<le> 200"
  by (auto simp: normalizeListAllLimit_def defaultListAllLimit_def maxListAllLimit_def)

text \<open>One page, as the client sees it: the rows and the next cursor, or the error.\<close>

definition ListAll_page :: "'s org_facade \<Rightarrow> 's \<Rightarrow> int \<Rightarrow> string \<Rightarrow> go_error + Organization list \<times> string"
where
  "ListAll_page f s limit raw =
     (case fst (org_ListAll f \<lparr>LAP_Cursor = raw, LAP_Limit = limit\<rparr> s) of
        Inl e \<Rightarrow> Inl e
      | Inr r \<Rightarrow> Inr (LAR_Organizations r, LAR_NextCursor r))"

definition ListUsers_page ::
  "'s org_facade \<Rightarrow> OrgID \<Rightarrow> 's \<Rightarrow> int \<Rightarrow> string \<Rightarrow> go_error + User list \<times> string" where
  "ListUsers_page f org s limit raw =
     (case fst (org_ListUsers f org \<lparr>LUP_Cursor = raw, LUP_Limit = limit\<rparr> s) of
        Inl e \<Rightarrow> Inl e
      | Inr r \<Rightarrow> Inr (LUR_Users r, LUR_NextCursor r))"

lemma ListAll_page_eq:
  "ListAll_page (org_memory_facade p known) w limit
     = cursor_page org_key (org_listing (ow_store w) ()) (nat (normalizeListAllLimit limit))"
proof (rule ext)
  fix raw
  obtain n where n: "normalizeListAllLimit limit = int n"
    using normalizeListAllLimit_bounds(1) [of limit] nonneg_int_cases [of "normalizeListAllLimit limit"]
    by fastforce
  show "ListAll_page (org_memory_facade p known) w limit raw
     = cursor_page org_key (org_listing (ow_store w) ()) (nat (normalizeListAllLimit limit)) raw"
    using n
    by (auto simp: ListAll_page_def org_ListAll_def cursor_page_def decodeListAllCursor_eq Let_def
        act_simps org_memory_facade_def org_mem_ListAll_def org_listing_def paginateOrganizations_def
        paginate_def encodeListAllCursor_def encode_time_id_def org_key_def add.commute
        split: sum.splits)
qed

lemma ListUsers_page_eq:
  "ListUsers_page (org_memory_facade p known) org w limit
     = cursor_page user_key (user_listing (ow_store w) org) (nat (normalizeListAllLimit limit))"
proof (rule ext)
  fix raw
  obtain n where n: "normalizeListAllLimit limit = int n"
    using normalizeListAllLimit_bounds(1) [of limit] nonneg_int_cases [of "normalizeListAllLimit limit"]
    by fastforce
  show "ListUsers_page (org_memory_facade p known) org w limit raw
     = cursor_page user_key (user_listing (ow_store w) org) (nat (normalizeListAllLimit limit)) raw"
    using n
    by (auto simp: ListUsers_page_def org_ListUsers_def cursor_page_def decodeUserListCursor_eq Let_def
        act_simps org_memory_facade_def org_mem_ListByOrg_def user_listing_def paginateUsers_def
        paginate_def encodeUserListCursor_def encode_time_id_def user_key_def add.commute
        split: sum.splits)
qed

text \<open>
  Following \<open>NextCursor\<close> through \<open>ListUsers\<close>, with whatever page size, gives every user of
  the organization exactly once, newest first, and no user of another organization: no row is
  lost or shown twice at a page boundary, even among users created at the same instant.
\<close>

theorem ListUsers_complete:
  assumes "org_store_inv (ow_store w)"
    and "\<forall>u \<in> set (users_of (ow_store w) org). cursor_key (user_key u)"
    and "length (users_of (ow_store w) org) < fuel"
  shows "read_pages (ListUsers_page (org_memory_facade p known) org w limit) fuel []
           = Inr (users_of (ow_store w) org)
         \<and> distinct (users_of (ow_store w) org)
         \<and> set (users_of (ow_store w) org) = {u. User_OrgID u = org \<and> u \<in> set (rows (os_usersByID (ow_store w)))}"
proof -
  have "0 < nat (normalizeListAllLimit limit)"
    using normalizeListAllLimit_bounds(1) [of limit] by simp
  then show ?thesis
    using user_list.read_pages_complete [OF assms(1) _ assms(2,3)] user_list.matching_distinct [OF assms(1)]
    by (auto simp: ListUsers_page_eq users_of_def)
qed

end
