(* ===== verification/CatalogTypes.thy ===== *)
theory CatalogTypes
  imports GoAny OrgFacade
begin

text \<open>
  \<open>internal/catalog\<close>: provider definitions, their tools and triggers (\<open>types.go\<close>, \<open>mapping.go\<close>) and the
  checks and conversions between a definition file, version 1, and a \<open>ProviderDefinition\<close>
  (\<open>definition_v1.go\<close>). The YAML decoder itself (\<open>gopkg.in/yaml.v3\<close>) is third-party: the file is
  modelled from the decoded \<open>definitionFileV1\<close> on.
\<close>

section \<open>Mappings (mapping.go)\<close>

record Pagination =
  PG_PageSizeParam :: string
  PG_CursorParam :: string
  PG_NextCursorPath :: string

record Mapping =
  MP_Query :: string_map
  MP_Header :: string_map
  MP_Body :: string_map
  MP_Pagination :: "Pagination option"
  MP_FileInputs :: "string list"

section \<open>Definitions (types.go)\<close>

record ProviderTool =
  PT_ID :: string
  PT_Slug :: string
  PT_Name :: string
  PT_Description :: string
  PT_Method :: string
  PT_Path :: string
  PT_InputSchema :: any_map
  PT_OutputSchema :: any_map
  PT_Deprecated :: bool
  PT_Mapping :: Mapping

definition CredentialStyleFormBody :: string where
  "CredentialStyleFormBody = ''formBody''"

definition CredentialStyleBasicAuth :: string where
  "CredentialStyleBasicAuth = ''basicAuth''"

record ExpectedParam =
  XP_Name :: string
  XP_DisplayName :: string
  XP_Description :: string
  XP_Required :: bool
  XP_Secret :: bool

record ExpectedParamsView =
  XV_ProviderName :: string
  XV_Fields :: "ExpectedParam list"

record UserInfoMapping =
  UI_EmailField :: string
  UI_DisplayNameField :: string

record TriggerPollMapping =
  TP_Method :: string
  TP_Path :: string
  TP_Query :: string_map
  TP_Body :: string_map
  TP_RecordsPath :: string
  TP_RecordIDPath :: string
  TP_RecordTimestampPath :: string
  TP_Payload :: string_map

record TriggerDefinition =
  TD_Slug :: string
  TD_Name :: string
  TD_Description :: string
  TD_ConfigSchema :: any_map
  TD_PayloadSchema :: any_map
  TD_Ingestion :: string
  TD_PollIntervalSeconds :: int
  TD_Poll :: TriggerPollMapping

record ProviderDefinition =
  PD_Slug :: string
  PD_Name :: string
  PD_Logo :: string
  PD_AuthScheme :: string
  PD_BaseURL :: string
  PD_AuthorizeURL :: string
  PD_TokenURL :: string
  PD_UserInfoURL :: string
  PD_Scopes :: "string list"
  PD_CredentialStyle :: string
  PD_UserInfo :: UserInfoMapping
  PD_ExpectedParams :: "ExpectedParam list"
  PD_Tools :: "ProviderTool list"
  PD_Triggers :: "TriggerDefinition list"

record TriggerDefinitionSummary =
  TDS_Slug :: string
  TDS_Name :: string
  TDS_Description :: string
  TDS_ConfigSchema :: any_map
  TDS_PayloadSchema :: any_map
  TDS_Ingestion :: string
  TDS_PollIntervalSeconds :: int
  TDS_ProviderSlug :: string
  TDS_ProviderName :: string
  TDS_ProviderLogo :: string

record TriggerDefinitionPage =
  TDP_Items :: "TriggerDefinitionSummary list"
  TDP_NextCursor :: string

type_synonym IntegrationID = string

record Integration =
  IG_ID :: IntegrationID
  IG_ProviderSlug :: string
  IG_ClientID :: string
  IG_ClientSecret :: string
  IG_ClientSecretEncrypted :: bool
  IG_CreatedAt :: time

record IntegrationSummary =
  IS_ID :: IntegrationID
  IS_ProviderSlug :: string
  IS_ProviderName :: string
  IS_Logo :: string
  IS_AuthScheme :: string

definition NewIntegration :: "IntegrationID \<Rightarrow> string \<Rightarrow> string \<Rightarrow> string \<Rightarrow> time \<Rightarrow> Integration" where
  "NewIntegration i providerSlug clientID encryptedClientSecret now =
     \<lparr>IG_ID = i, IG_ProviderSlug = providerSlug, IG_ClientID = clientID, IG_ClientSecret = encryptedClientSecret,
      IG_ClientSecretEncrypted = True, IG_CreatedAt = now\<rparr>"

record ToolSummary =
  TS_ID :: string
  TS_Slug :: string
  TS_Name :: string
  TS_Description :: string
  TS_InputSchema :: any_map
  TS_OutputSchema :: any_map
  TS_Deprecated :: bool
  TS_ProviderSlug :: string
  TS_ProviderName :: string
  TS_ProviderLogo :: string

record ToolPage =
  TPG_Items :: "ToolSummary list"
  TPG_NextCursor :: string

record ProviderDefinitionSummary =
  PDS_Slug :: string
  PDS_Name :: string
  PDS_Logo :: string
  PDS_AuthScheme :: string
  PDS_FormatVersion :: int
  PDS_ToolCount :: int
  PDS_TriggerCount :: int

record ProviderDefinitionPage =
  PDP_Items :: "ProviderDefinitionSummary list"
  PDP_NextCursor :: string

datatype Visibility = VisibilityVisible | VisibilityHidden | VisibilityNotAllowed

record IntegrationVisibility =
  IV_Integration :: IntegrationSummary
  IV_Visibility :: Visibility

record ActivatedDefinition =
  AD_ProviderSlug :: string
  AD_Version :: string
  AD_ContentHash :: string
  AD_BundleJSON :: string
  AD_ActivatedAt :: time

record ActivatedVersion =
  AV_ProviderSlug :: string
  AV_ActiveVersion :: string

section \<open>Definition files, version 1 (definition_v1.go)\<close>

definition defaultTriggerPollIntervalSeconds :: int where
  "defaultTriggerPollIntervalSeconds = 60"

definition platformMinPollIntervalSeconds :: int where
  "platformMinPollIntervalSeconds = 30"

definition triggerIngestionPoll :: string where
  "triggerIngestionPoll = ''poll''"

definition triggerIngestionPush :: string where
  "triggerIngestionPush = ''push''"

record triggerPollMappingFileV1 =
  f_poll_method :: string
  f_poll_path :: string
  f_poll_query :: string_map
  f_poll_body :: string_map
  f_poll_recordsPath :: string
  f_poll_recordIdPath :: string
  f_poll_recordTimestampPath :: string
  f_poll_payload :: string_map

record triggerDefinitionFileV1 =
  f_trigger_slug :: string
  f_trigger_name :: string
  f_trigger_description :: string
  f_trigger_configSchema :: any_map
  f_trigger_payloadSchema :: any_map
  f_trigger_ingestion :: string
  f_trigger_pollIntervalSeconds :: int
  f_trigger_poll :: triggerPollMappingFileV1

record expectedParamFileV1 =
  f_param_name :: string
  f_param_displayName :: string
  f_param_description :: string
  f_param_required :: bool
  f_param_secret :: bool

record userInfoFileV1 =
  f_userInfo_email :: string
  f_userInfo_displayName :: string

record oauthConfigFileV1 =
  f_oauth_authorizeUrl :: string
  f_oauth_tokenUrl :: string
  f_oauth_userInfoUrl :: string
  f_oauth_scopes :: "string list"
  f_oauth_credentialStyle :: string
  f_oauth_userInfo :: userInfoFileV1

record providerMappingFileV1 =
  f_mapping_baseUrl :: string

record paginationFileV1 =
  f_pagination_pageSizeParam :: string
  f_pagination_cursorParam :: string
  f_pagination_nextCursorPath :: string

record toolMappingFileV1 =
  f_tmap_path :: string
  f_tmap_method :: string
  f_tmap_query :: string_map
  f_tmap_header :: string_map
  f_tmap_body :: string_map
  f_tmap_pagination :: "paginationFileV1 option"
  f_tmap_fileInputs :: "string list"

record providerToolFileV1 =
  f_tool_slug :: string
  f_tool_name :: string
  f_tool_description :: string
  f_tool_deprecated :: bool
  f_tool_inputSchema :: any_map
  f_tool_outputSchema :: any_map
  f_tool_mapping :: toolMappingFileV1

record definitionFileV1 =
  f_formatVersion :: int
  f_slug :: string
  f_name :: string
  f_logo :: string
  f_authScheme :: string
  f_oauth :: oauthConfigFileV1
  f_mapping :: providerMappingFileV1
  f_expectedParams :: "expectedParamFileV1 list"
  f_tools :: "providerToolFileV1 list"
  f_triggers :: "triggerDefinitionFileV1 list"

subsection \<open>Validation\<close>

definition definitionError :: "string \<Rightarrow> string \<Rightarrow> string \<Rightarrow> go_error" where
  "definitionError fileName field issue =
     OtherError (''invalid provider definition '' @ fileName @ '': field '' @ quoted field @ '' '' @ issue)"

text \<open>\<open>for _, r := range required { if r.value == "" { return definitionError(..., r.field, ...) } }\<close>\<close>

fun first_empty :: "string \<Rightarrow> string \<Rightarrow> (string \<times> string) list \<Rightarrow> go_error option" where
  "first_empty fileName prefix [] = None"
| "first_empty fileName prefix ((field, v) # rest) =
     (if v = [] then Some (definitionError fileName (prefix @ field) ''must not be empty'')
      else first_empty fileName prefix rest)"

text \<open>\<open>for i, x := range xs { if err := check(name, i, x); err != nil { return err } }\<close>\<close>

fun first_error :: "(nat \<Rightarrow> 'a \<Rightarrow> go_error option) \<Rightarrow> nat \<Rightarrow> 'a list \<Rightarrow> go_error option" where
  "first_error chk i [] = None"
| "first_error chk i (x # xs) = (case chk i x of Some e \<Rightarrow> Some e | None \<Rightarrow> first_error chk (Suc i) xs)"

definition or_else :: "go_error option \<Rightarrow> go_error option \<Rightarrow> go_error option" where
  "or_else a b = (case a of Some e \<Rightarrow> Some e | None \<Rightarrow> b)"

definition indexed :: "string \<Rightarrow> nat \<Rightarrow> string" where
  "indexed field i = field @ ''['' @ itoa (int i) @ '']''"

definition validateTriggerIngestion :: "string \<Rightarrow> string \<Rightarrow> string \<Rightarrow> go_error option" where
  "validateTriggerIngestion fileName prefix ingestion =
     (if ingestion = triggerIngestionPoll then None
      else if ingestion = triggerIngestionPush
      then Some (definitionError fileName (prefix @ ''.ingestion'') ''\"push\" ingestion is not supported yet'')
      else Some (definitionError fileName (prefix @ ''.ingestion'') ''must be \"poll\"''))"

definition validateTriggerPollMappingFileV1 :: "string \<Rightarrow> string \<Rightarrow> triggerPollMappingFileV1 \<Rightarrow> go_error option" where
  "validateTriggerPollMappingFileV1 fileName prefix poll =
     or_else (first_empty fileName (prefix @ ''.'')
        [(''poll.method'', f_poll_method poll), (''poll.path'', f_poll_path poll),
         (''poll.recordsPath'', f_poll_recordsPath poll), (''poll.recordIdPath'', f_poll_recordIdPath poll),
         (''poll.recordTimestampPath'', f_poll_recordTimestampPath poll)])
       (if f_poll_payload poll = []
        then Some (definitionError fileName (prefix @ ''.poll.payload'') ''must not be empty'') else None)"

definition validateTriggerDefinitionFileV1 :: "string \<Rightarrow> nat \<Rightarrow> triggerDefinitionFileV1 \<Rightarrow> go_error option" where
  "validateTriggerDefinitionFileV1 fileName index trigger =
     (let prefix = indexed ''triggers'' index in
      if f_trigger_slug trigger = [] then Some (definitionError fileName (prefix @ ''.slug'') ''must not be empty'')
      else if f_trigger_name trigger = [] then Some (definitionError fileName (prefix @ ''.name'') ''must not be empty'')
      else if f_trigger_configSchema trigger = []
      then Some (definitionError fileName (prefix @ ''.configSchema'') ''must not be empty'')
      else if f_trigger_payloadSchema trigger = []
      then Some (definitionError fileName (prefix @ ''.payloadSchema'') ''must not be empty'')
      else or_else (validateTriggerIngestion fileName prefix (f_trigger_ingestion trigger))
             (validateTriggerPollMappingFileV1 fileName prefix (f_trigger_poll trigger)))"

definition validateExpectedParamFileV1 :: "string \<Rightarrow> nat \<Rightarrow> expectedParamFileV1 \<Rightarrow> go_error option" where
  "validateExpectedParamFileV1 fileName index param =
     (let prefix = indexed ''expectedParams'' index in
      if f_param_name param = [] then Some (definitionError fileName (prefix @ ''.name'') ''must not be empty'')
      else if f_param_displayName param = []
      then Some (definitionError fileName (prefix @ ''.displayName'') ''must not be empty'')
      else None)"

definition validateCredentialStyle :: "string \<Rightarrow> string \<Rightarrow> go_error option" where
  "validateCredentialStyle fileName style =
     (if style = [] \<or> style = CredentialStyleFormBody \<or> style = CredentialStyleBasicAuth then None
      else Some (definitionError fileName ''oauth.credentialStyle'' ''must be \"formBody\" or \"basicAuth\"''))"

definition validateProviderToolFileV1 :: "string \<Rightarrow> nat \<Rightarrow> providerToolFileV1 \<Rightarrow> go_error option" where
  "validateProviderToolFileV1 fileName index tool =
     (let prefix = indexed ''tools'' index in
      if f_tool_slug tool = [] then Some (definitionError fileName (prefix @ ''.slug'') ''must not be empty'')
      else if f_tmap_method (f_tool_mapping tool) = []
      then Some (definitionError fileName (prefix @ ''.mapping.method'') ''must not be empty'')
      else if f_tmap_path (f_tool_mapping tool) = []
      then Some (definitionError fileName (prefix @ ''.mapping.path'') ''must not be empty'')
      else if f_tool_inputSchema tool = []
      then Some (definitionError fileName (prefix @ ''.inputSchema'') ''must not be empty'')
      else if f_tool_outputSchema tool = []
      then Some (definitionError fileName (prefix @ ''.outputSchema'') ''must not be empty'')
      else None)"

definition validateDefinitionFileV1 :: "string \<Rightarrow> definitionFileV1 \<Rightarrow> go_error option" where
  "validateDefinitionFileV1 fileName file =
     or_else (first_empty fileName []
       [(''slug'', f_slug file), (''name'', f_name file), (''logo'', f_logo file),
        (''oauth.authorizeUrl'', f_oauth_authorizeUrl (f_oauth file)),
        (''oauth.tokenUrl'', f_oauth_tokenUrl (f_oauth file)),
        (''mapping.baseUrl'', f_mapping_baseUrl (f_mapping file))])
     (if f_oauth_scopes (f_oauth file) = []
      then Some (definitionError fileName ''oauth.scopes'' ''must declare at least one scope'')
      else or_else (validateCredentialStyle fileName (f_oauth_credentialStyle (f_oauth file)))
          (or_else (first_error (validateProviderToolFileV1 fileName) 0 (f_tools file))
          (or_else (first_error (validateExpectedParamFileV1 fileName) 0 (f_expectedParams file))
             (first_error (validateTriggerDefinitionFileV1 fileName) 0 (f_triggers file)))))"

subsection \<open>Conversion\<close>

definition paginationFromFileV1 :: "paginationFileV1 option \<Rightarrow> Pagination option" where
  "paginationFromFileV1 p = map_option (\<lambda>p. \<lparr>PG_PageSizeParam = f_pagination_pageSizeParam p,
     PG_CursorParam = f_pagination_cursorParam p, PG_NextCursorPath = f_pagination_nextCursorPath p\<rparr>) p"

definition mappingFromFileV1 :: "toolMappingFileV1 \<Rightarrow> Mapping" where
  "mappingFromFileV1 m = \<lparr>MP_Query = f_tmap_query m, MP_Header = f_tmap_header m, MP_Body = f_tmap_body m,
     MP_Pagination = paginationFromFileV1 (f_tmap_pagination m), MP_FileInputs = f_tmap_fileInputs m\<rparr>"

definition triggerPollMappingFromFileV1 :: "triggerPollMappingFileV1 \<Rightarrow> TriggerPollMapping" where
  "triggerPollMappingFromFileV1 p = \<lparr>TP_Method = f_poll_method p, TP_Path = f_poll_path p, TP_Query = f_poll_query p,
     TP_Body = f_poll_body p, TP_RecordsPath = f_poll_recordsPath p, TP_RecordIDPath = f_poll_recordIdPath p,
     TP_RecordTimestampPath = f_poll_recordTimestampPath p, TP_Payload = f_poll_payload p\<rparr>"

text \<open>The log line of a clamped interval is not modelled.\<close>

definition resolveTriggerPollIntervalSeconds :: "int \<Rightarrow> int" where
  "resolveTriggerPollIntervalSeconds declared =
     (if declared = 0 then defaultTriggerPollIntervalSeconds
      else if declared < platformMinPollIntervalSeconds then platformMinPollIntervalSeconds
      else declared)"

definition triggersFromFileV1 :: "triggerDefinitionFileV1 list \<Rightarrow> TriggerDefinition list" where
  "triggersFromFileV1 files = map (\<lambda>f. \<lparr>TD_Slug = f_trigger_slug f, TD_Name = f_trigger_name f,
     TD_Description = f_trigger_description f, TD_ConfigSchema = f_trigger_configSchema f,
     TD_PayloadSchema = f_trigger_payloadSchema f, TD_Ingestion = f_trigger_ingestion f,
     TD_PollIntervalSeconds = resolveTriggerPollIntervalSeconds (f_trigger_pollIntervalSeconds f),
     TD_Poll = triggerPollMappingFromFileV1 (f_trigger_poll f)\<rparr>) files"

definition toolsFromFileV1 :: "providerToolFileV1 list \<Rightarrow> ProviderTool list" where
  "toolsFromFileV1 files = map (\<lambda>f. \<lparr>PT_ID = [], PT_Slug = f_tool_slug f, PT_Name = f_tool_name f,
     PT_Description = f_tool_description f, PT_Method = f_tmap_method (f_tool_mapping f),
     PT_Path = f_tmap_path (f_tool_mapping f), PT_InputSchema = f_tool_inputSchema f,
     PT_OutputSchema = f_tool_outputSchema f, PT_Deprecated = f_tool_deprecated f,
     PT_Mapping = mappingFromFileV1 (f_tool_mapping f)\<rparr>) files"

definition expectedParamsFromFileV1 :: "expectedParamFileV1 list \<Rightarrow> ExpectedParam list" where
  "expectedParamsFromFileV1 files = map (\<lambda>f. \<lparr>XP_Name = f_param_name f, XP_DisplayName = f_param_displayName f,
     XP_Description = f_param_description f, XP_Required = f_param_required f, XP_Secret = f_param_secret f\<rparr>) files"

definition definitionFromFileV1 :: "definitionFileV1 \<Rightarrow> ProviderDefinition" where
  "definitionFromFileV1 file =
     \<lparr>PD_Slug = f_slug file, PD_Name = f_name file, PD_Logo = f_logo file,
      PD_AuthScheme = (if f_authScheme file = [] then ''oauth2'' else f_authScheme file),
      PD_BaseURL = f_mapping_baseUrl (f_mapping file),
      PD_AuthorizeURL = f_oauth_authorizeUrl (f_oauth file), PD_TokenURL = f_oauth_tokenUrl (f_oauth file),
      PD_UserInfoURL = f_oauth_userInfoUrl (f_oauth file), PD_Scopes = f_oauth_scopes (f_oauth file),
      PD_CredentialStyle = (if f_oauth_credentialStyle (f_oauth file) = [] then CredentialStyleFormBody
        else f_oauth_credentialStyle (f_oauth file)),
      PD_UserInfo = \<lparr>UI_EmailField = f_userInfo_email (f_oauth_userInfo (f_oauth file)),
        UI_DisplayNameField = f_userInfo_displayName (f_oauth_userInfo (f_oauth file))\<rparr>,
      PD_ExpectedParams = expectedParamsFromFileV1 (f_expectedParams file),
      PD_Tools = toolsFromFileV1 (f_tools file), PD_Triggers = triggersFromFileV1 (f_triggers file)\<rparr>"

definition loadProviderDefinitionFileV1 :: "string \<Rightarrow> definitionFileV1 \<Rightarrow> go_error + ProviderDefinition" where
  "loadProviderDefinitionFileV1 name file =
     (case validateDefinitionFileV1 name file of
        Some e \<Rightarrow> Inl e
      | None \<Rightarrow> Inr (definitionFromFileV1 file))"

section \<open>What a loaded definition guarantees\<close>

definition tool_ok :: "ProviderTool \<Rightarrow> bool" where
  "tool_ok t \<longleftrightarrow> PT_Slug t \<noteq> [] \<and> PT_Method t \<noteq> [] \<and> PT_Path t \<noteq> [] \<and> PT_InputSchema t \<noteq> [] \<and> PT_OutputSchema t \<noteq> []"

definition trigger_ok :: "TriggerDefinition \<Rightarrow> bool" where
  "trigger_ok t \<longleftrightarrow> TD_Slug t \<noteq> [] \<and> TD_Name t \<noteq> [] \<and> TD_ConfigSchema t \<noteq> [] \<and> TD_PayloadSchema t \<noteq> []
     \<and> TD_Ingestion t = triggerIngestionPoll \<and> platformMinPollIntervalSeconds \<le> TD_PollIntervalSeconds t
     \<and> TP_Method (TD_Poll t) \<noteq> [] \<and> TP_Path (TD_Poll t) \<noteq> [] \<and> TP_RecordsPath (TD_Poll t) \<noteq> []
     \<and> TP_RecordIDPath (TD_Poll t) \<noteq> [] \<and> TP_RecordTimestampPath (TD_Poll t) \<noteq> [] \<and> TP_Payload (TD_Poll t) \<noteq> []"

definition definition_ok :: "ProviderDefinition \<Rightarrow> bool" where
  "definition_ok d \<longleftrightarrow> PD_Slug d \<noteq> [] \<and> PD_Name d \<noteq> [] \<and> PD_Logo d \<noteq> [] \<and> PD_AuthScheme d \<noteq> []
     \<and> PD_AuthorizeURL d \<noteq> [] \<and> PD_TokenURL d \<noteq> [] \<and> PD_BaseURL d \<noteq> [] \<and> PD_Scopes d \<noteq> []
     \<and> PD_CredentialStyle d \<in> {CredentialStyleFormBody, CredentialStyleBasicAuth}
     \<and> (\<forall>p \<in> set (PD_ExpectedParams d). XP_Name p \<noteq> [] \<and> XP_DisplayName p \<noteq> [])
     \<and> (\<forall>t \<in> set (PD_Tools d). tool_ok t) \<and> (\<forall>t \<in> set (PD_Triggers d). trigger_ok t)"

lemma or_else_None: "or_else a b = None \<longleftrightarrow> a = None \<and> b = None"
  by (cases a) (simp_all add: or_else_def)

lemma first_empty_None: "first_empty n p xs = None \<longleftrightarrow> (\<forall>x \<in> set xs. snd x \<noteq> [])"
  by (induction n p xs rule: first_empty.induct) auto

lemma first_error_None:
  "(\<And>j x. chk j x = None \<longleftrightarrow> P x) \<Longrightarrow> first_error chk i xs = None \<longleftrightarrow> (\<forall>x \<in> set xs. P x)"
proof (induction chk i xs rule: first_error.induct)
  case (2 chk i x xs)
  show ?case
  proof (cases "chk i x")
    case None
    then have "P x" using 2(2) [of i x] by blast
    with None 2(1) [OF None 2(2)] show ?thesis by simp
  next
    case (Some e)
    then have "\<not> P x" using 2(2) [of i x] by auto
    with Some show ?thesis by simp
  qed
qed simp

lemma poll_interval_bounds: "platformMinPollIntervalSeconds \<le> resolveTriggerPollIntervalSeconds n"
  by (simp add: resolveTriggerPollIntervalSeconds_def platformMinPollIntervalSeconds_def
      defaultTriggerPollIntervalSeconds_def)

lemma tool_file_ok:
  "validateProviderToolFileV1 n j f = None \<longleftrightarrow> (\<forall>t \<in> set (toolsFromFileV1 [f]). tool_ok t)"
  by (simp add: validateProviderToolFileV1_def toolsFromFileV1_def tool_ok_def Let_def)

lemma param_file_ok:
  "validateExpectedParamFileV1 n j f = None \<longleftrightarrow>
     (\<forall>p \<in> set (expectedParamsFromFileV1 [f]). XP_Name p \<noteq> [] \<and> XP_DisplayName p \<noteq> [])"
  by (simp add: validateExpectedParamFileV1_def expectedParamsFromFileV1_def Let_def)

lemma ingestion_file_ok: "validateTriggerIngestion n p i = None \<longleftrightarrow> i = triggerIngestionPoll"
  by (simp add: validateTriggerIngestion_def)

lemma poll_file_ok:
  "validateTriggerPollMappingFileV1 n p f = None \<longleftrightarrow>
     f_poll_method f \<noteq> [] \<and> f_poll_path f \<noteq> [] \<and> f_poll_recordsPath f \<noteq> [] \<and> f_poll_recordIdPath f \<noteq> []
     \<and> f_poll_recordTimestampPath f \<noteq> [] \<and> f_poll_payload f \<noteq> []"
  by (auto simp: validateTriggerPollMappingFileV1_def or_else_None first_empty_None)

lemma trigger_file_ok:
  "validateTriggerDefinitionFileV1 n j f = None \<longleftrightarrow> (\<forall>t \<in> set (triggersFromFileV1 [f]). trigger_ok t)"
  by (auto simp: validateTriggerDefinitionFileV1_def triggersFromFileV1_def trigger_ok_def Let_def or_else_None
      ingestion_file_ok poll_file_ok poll_interval_bounds triggerPollMappingFromFileV1_def)

lemma style_file_ok:
  "validateCredentialStyle n st = None \<longleftrightarrow> st = [] \<or> st = CredentialStyleFormBody \<or> st = CredentialStyleBasicAuth"
  by (simp add: validateCredentialStyle_def)

lemma singleton_files:
  "(\<forall>f \<in> set fs. \<forall>t \<in> set (toolsFromFileV1 [f]). P t) \<longleftrightarrow> (\<forall>t \<in> set (toolsFromFileV1 fs). P t)"
  "(\<forall>f \<in> set gs. \<forall>t \<in> set (expectedParamsFromFileV1 [f]). Q t) \<longleftrightarrow> (\<forall>t \<in> set (expectedParamsFromFileV1 gs). Q t)"
  "(\<forall>f \<in> set hs. \<forall>t \<in> set (triggersFromFileV1 [f]). R t) \<longleftrightarrow> (\<forall>t \<in> set (triggersFromFileV1 hs). R t)"
  by (auto simp: toolsFromFileV1_def expectedParamsFromFileV1_def triggersFromFileV1_def)

lemma validate_definition_ok:
  "validateDefinitionFileV1 name file = None \<longleftrightarrow> definition_ok (definitionFromFileV1 file)"
  unfolding validateDefinitionFileV1_def definition_ok_def definitionFromFileV1_def
  by (auto simp: or_else_None first_empty_None first_error_None [OF tool_file_ok] style_file_ok
      first_error_None [OF param_file_ok] first_error_None [OF trigger_file_ok] singleton_files)

text \<open>
  C21: Loading a definition file succeeds exactly when its provider definition is well-formed, whatever the
  defaults and clamping filled in: no provider, tool or trigger with an empty required field, no
  unknown credential style, only polling triggers, and none polled more often than the platform minimum.
\<close>

theorem load_definition_exact:
  "loadProviderDefinitionFileV1 name file = Inr d \<longleftrightarrow> d = definitionFromFileV1 file \<and> definition_ok d"
proof (cases "validateDefinitionFileV1 name file")
  case None
  then have "definition_ok (definitionFromFileV1 file)" by (simp only: validate_definition_ok)
  with None show ?thesis by (auto simp: loadProviderDefinitionFileV1_def)
next
  case (Some e)
  then have "validateDefinitionFileV1 name file \<noteq> None" by simp
  then have "\<not> definition_ok (definitionFromFileV1 file)" by (simp only: validate_definition_ok not_False_eq_True)
  with Some show ?thesis by (auto simp: loadProviderDefinitionFileV1_def)
qed

end
