(* ===== verification/ConnectionTypes.thy ===== *)
theory ConnectionTypes
  imports CatalogTypes
begin

text \<open>
  \<open>internal/connections/types.go\<close>: the connection, its statuses and the changes it goes through.
\<close>

type_synonym ConnectionID = string

datatype ConnStatus = StatusInitiated | StatusActive | StatusExpired | StatusDisconnected

definition conn_status_text :: "ConnStatus \<Rightarrow> string" where
  "conn_status_text s = (case s of StatusInitiated \<Rightarrow> ''INITIATED'' | StatusActive \<Rightarrow> ''ACTIVE''
     | StatusExpired \<Rightarrow> ''EXPIRED'' | StatusDisconnected \<Rightarrow> ''DISCONNECTED'')"

record Connection =
  Conn_ID :: ConnectionID
  Conn_OrgID :: OrgID
  Conn_UserID :: UserID
  Conn_IntegrationID :: IntegrationID
  Conn_ProviderSlug :: string
  Conn_Status :: ConnStatus
  Conn_RedirectURI :: string
  Conn_ConnectToken :: string
  Conn_ConnectTokenExpiresAt :: time
  Conn_ConnectTokenUsed :: bool
  Conn_EncryptedAccessToken :: string
  Conn_EncryptedRefreshToken :: string
  Conn_TokenExpiresAt :: "time option"
  Conn_AccountEmail :: string
  Conn_AccountDisplayName :: string
  Conn_EncryptedParams :: string
  Conn_ReconciledAt :: "time option"
  Conn_CreatedAt :: time

text \<open>\<open>ConnectLinkTTL\<close> (\<open>oauth.go\<close>): how long a connect link is good for.\<close>

definition ConnectLinkTTL :: duration where
  "ConnectLinkTTL = hour"

definition NewConnection ::
  "ConnectionID \<Rightarrow> OrgID \<Rightarrow> UserID \<Rightarrow> IntegrationID \<Rightarrow> string \<Rightarrow> string \<Rightarrow> string \<Rightarrow> time \<Rightarrow> Connection" where
  "NewConnection i org userID integrationID providerSlug redirectURI connectToken now =
     \<lparr>Conn_ID = i, Conn_OrgID = org, Conn_UserID = userID, Conn_IntegrationID = integrationID,
      Conn_ProviderSlug = providerSlug, Conn_Status = StatusInitiated, Conn_RedirectURI = redirectURI,
      Conn_ConnectToken = connectToken, Conn_ConnectTokenExpiresAt = now + ConnectLinkTTL,
      Conn_ConnectTokenUsed = False, Conn_EncryptedAccessToken = [], Conn_EncryptedRefreshToken = [],
      Conn_TokenExpiresAt = None, Conn_AccountEmail = [], Conn_AccountDisplayName = [], Conn_EncryptedParams = [],
      Conn_ReconciledAt = None, Conn_CreatedAt = now\<rparr>"

definition Conn_Activate :: "Connection \<Rightarrow> string \<Rightarrow> string \<Rightarrow> string \<Rightarrow> string \<Rightarrow> time \<Rightarrow> Connection" where
  "Conn_Activate c encryptedAccessToken encryptedRefreshToken accountEmail accountDisplayName tokenExpiresAt =
     c\<lparr>Conn_Status := StatusActive, Conn_EncryptedAccessToken := encryptedAccessToken,
       Conn_EncryptedRefreshToken := encryptedRefreshToken, Conn_TokenExpiresAt := Some tokenExpiresAt,
       Conn_AccountEmail := accountEmail, Conn_AccountDisplayName := accountDisplayName,
       Conn_ConnectTokenUsed := True\<rparr>"

definition Conn_WithParams :: "Connection \<Rightarrow> string \<Rightarrow> Connection" where
  "Conn_WithParams c encryptedParams = c\<lparr>Conn_EncryptedParams := encryptedParams\<rparr>"

definition Conn_Disable :: "Connection \<Rightarrow> Connection" where
  "Conn_Disable c = c\<lparr>Conn_Status := StatusDisconnected\<rparr>"

definition Conn_MarkExpired :: "Connection \<Rightarrow> Connection" where
  "Conn_MarkExpired c = c\<lparr>Conn_Status := StatusExpired\<rparr>"

definition Conn_RefreshTokens :: "Connection \<Rightarrow> string \<Rightarrow> string \<Rightarrow> time \<Rightarrow> Connection" where
  "Conn_RefreshTokens c encryptedAccessToken encryptedRefreshToken tokenExpiresAt =
     c\<lparr>Conn_EncryptedAccessToken := encryptedAccessToken, Conn_EncryptedRefreshToken := encryptedRefreshToken,
       Conn_TokenExpiresAt := Some tokenExpiresAt\<rparr>"

definition Conn_MarkReconciled :: "Connection \<Rightarrow> time \<Rightarrow> Connection" where
  "Conn_MarkReconciled c now = c\<lparr>Conn_ReconciledAt := Some now\<rparr>"

definition Conn_CanReconnect :: "Connection \<Rightarrow> bool" where
  "Conn_CanReconnect c \<longleftrightarrow>
     Conn_Status c = StatusActive \<or> Conn_Status c = StatusExpired \<or> Conn_Status c = StatusDisconnected"

definition Conn_PrepareReconnect :: "Connection \<Rightarrow> string \<Rightarrow> string \<Rightarrow> time \<Rightarrow> Connection" where
  "Conn_PrepareReconnect c connectToken redirectURI connectTokenExpiresAt =
     c\<lparr>Conn_ConnectToken := connectToken, Conn_RedirectURI := redirectURI,
       Conn_ConnectTokenExpiresAt := connectTokenExpiresAt, Conn_ConnectTokenUsed := False,
       Conn_EncryptedParams := []\<rparr>"

text \<open>\<open>execution_access.go\<close>: what a tool execution may use of a connection.\<close>

record ExecutionAccess =
  EA_Status :: ConnStatus
  EA_AccessToken :: string
  EA_Params :: string_map

end
