(* ===== verification/Vault.thy ===== *)
theory Vault
  imports Base64 Prelude
begin

text \<open>
  \<open>internal/vault/vault.go\<close> and the cryptographic primitives the code calls. SHA-256, HMAC,
  Argon2id and AES-GCM are fields of \<open>crypto\<close>: the theorems hold whatever they compute, except
  where a law (a sealed text opens to what was sealed) is a named hypothesis. Random bytes are
  drawn from the world by the operation \<open>rand_Read\<close> of each component.
\<close>

record crypto =
  sha256 :: "string \<Rightarrow> string"
  hmacSHA256 :: "string \<Rightarrow> string \<Rightarrow> string"
  argon2idKey :: "string \<Rightarrow> string \<Rightarrow> nat \<Rightarrow> string"
  gcmSeal :: "string \<Rightarrow> string \<Rightarrow> string"
  gcmOpen :: "string \<Rightarrow> string \<Rightarrow> string option"

text \<open>The AEAD law of AES-GCM, for the vault's key.\<close>

definition gcm_opens_sealed :: "crypto \<Rightarrow> bool" where
  "gcm_opens_sealed c \<longleftrightarrow> (\<forall>nonce plaintext. gcmOpen c nonce (gcmSeal c nonce plaintext) = Some plaintext)"

definition nonceSize :: nat where
  "nonceSize = 12"

text \<open>\<open>aead.Seal(nonce, nonce, plaintext, nil)\<close> appends the sealed text to the nonce.\<close>

definition vault_Encrypt :: "crypto \<Rightarrow> (nat \<Rightarrow> ('s, string) act) \<Rightarrow> string \<Rightarrow> ('s, string) act" where
  "vault_Encrypt c readFull plaintext =
     attempt (readFull nonceSize) (\<lambda>nonce.
     ok (EncodeToString StdEncoding (nonce @ gcmSeal c nonce plaintext)))"

definition vault_Decrypt :: "crypto \<Rightarrow> string \<Rightarrow> go_error + string" where
  "vault_Decrypt c ciphertext =
     (case DecodeString StdEncoding ciphertext of
        None \<Rightarrow> Inl (OtherError ''decode ciphertext'')
      | Some raw \<Rightarrow>
          if length raw < nonceSize then Inl (OtherError ''ciphertext shorter than nonce size'')
          else (case gcmOpen c (take nonceSize raw) (drop nonceSize raw) of
                  None \<Rightarrow> Inl (OtherError ''open ciphertext'')
                | Some plaintext \<Rightarrow> Inr plaintext))"

text \<open>A concrete instance, for the examples: it keeps the laws and computes.\<close>

definition sample_crypto :: crypto where
  "sample_crypto = \<lparr>sha256 = (\<lambda>s. s), hmacSHA256 = (\<lambda>k m. k @ ''.'' @ m),
     argon2idKey = (\<lambda>p s n. take n (p @ s @ replicate n CHR ''0'')),
     gcmSeal = (\<lambda>nonce p. nonce @ p),
     gcmOpen = (\<lambda>nonce s. if take (length nonce) s = nonce then Some (drop (length nonce) s) else None)\<rparr>"

lemma sample_crypto_opens: "gcm_opens_sealed sample_crypto"
  by (simp add: gcm_opens_sealed_def sample_crypto_def)

lemma vault_roundtrip:
  assumes "gcm_opens_sealed c" and "\<And>s b s'. readFull nonceSize s = (Inr b, s') \<Longrightarrow> length b = nonceSize"
    and "vault_Encrypt c readFull plaintext s = (Inr ciphertext, s')"
  shows "vault_Decrypt c ciphertext = Inr plaintext"
proof -
  from assms(3) obtain nonce s1 where
    n: "readFull nonceSize s = (Inr nonce, s1)" and
    c: "ciphertext = EncodeToString StdEncoding (nonce @ gcmSeal c nonce plaintext)"
    by (auto simp: vault_Encrypt_def attempt_Inr_iff)
  from assms(2) [OF n] have "length nonce = nonceSize" .
  then show ?thesis
    using assms(1) by (simp add: vault_Decrypt_def c DecodeString_EncodeToString gcm_opens_sealed_def)
qed

end
