(* ===== verification/Template.thy ===== *)
theory Template
  imports GoAny GoURL
begin

text \<open>
  \<open>internal/execution/template.go\<close>: the substitution of \<open>{input.x}\<close>, \<open>{params.x}\<close>, \<open>{config.x}\<close> and
  \<open>{watermark}\<close> tokens in paths, queries, headers and bodies. The two regular expressions are modelled by
  a scanner: at every position it looks for a token, the way \<open>ReplaceAllStringFunc\<close> finds the leftmost
  matches one after the other.
\<close>

section \<open>Tokens\<close>

definition token_char :: "char \<Rightarrow> bool" where
  "token_char c \<longleftrightarrow> CHR ''A'' \<le> c \<and> c \<le> CHR ''Z'' \<or> CHR ''a'' \<le> c \<and> c \<le> CHR ''z'' \<or> CHR ''0'' \<le> c \<and> c \<le> CHR ''9''
     \<or> c = CHR ''_''"

text \<open>
  \<open>[A-Za-z0-9_]+}\<close>: a name and what follows the closing brace.
\<close>

definition token_name :: "string \<Rightarrow> (string \<times> string) option" where
  "token_name s =
     (let name = takeWhile token_char s in
      case dropWhile token_char s of
        c # rest \<Rightarrow> if c = CHR ''}'' \<and> name \<noteq> [] then Some (name, rest) else None
      | [] \<Rightarrow> None)"

text \<open>\<open>templateTokenFindPattern\<close> at the start of a text: the source, the name, the rest.\<close>

definition templateTokenFindPattern :: "string \<Rightarrow> (string \<times> string \<times> string) option" where
  "templateTokenFindPattern s =
     (if HasPrefix s ''{input.'' then map_option (\<lambda>(n, r). (''input'', n, r)) (token_name (drop 7 s))
      else if HasPrefix s ''{params.'' then map_option (\<lambda>(n, r). (''params'', n, r)) (token_name (drop 8 s))
      else None)"

definition templateTokenWholePattern :: "string \<Rightarrow> (string \<times> string) option" where
  "templateTokenWholePattern s =
     (case templateTokenFindPattern s of
        Some (source, name, rest) \<Rightarrow> if rest = [] then Some (source, name) else None
      | None \<Rightarrow> None)"

text \<open>\<open>pollTemplateTokenPattern\<close> at the start of a text: the token without its braces, and the rest.\<close>

definition pollTemplateTokenPattern :: "string \<Rightarrow> (string \<times> string) option" where
  "pollTemplateTokenPattern s =
     (if HasPrefix s ''{config.'' then map_option (\<lambda>(n, r). (''config.'' @ n, r)) (token_name (drop 8 s))
      else if HasPrefix s ''{watermark}'' then Some (''watermark'', drop 11 s)
      else None)"

lemma token_name_length: "token_name s = Some (n, r) \<Longrightarrow> length r < length s"
proof -
  assume a: "token_name s = Some (n, r)"
  then have "dropWhile token_char s = CHR ''}'' # r"
    by (auto simp: token_name_def Let_def split: list.splits if_splits)
  then have "Suc (length r) = length (dropWhile token_char s)" by simp
  also have "\<dots> \<le> length s" by (rule length_dropWhile_le)
  finally show "length r < length s" by simp
qed

text \<open>
  A template is a sequence of characters and tokens; \<open>tok\<close> gives the token at the start of a text
  and what follows it. (Both patterns consume something, which the guard repeats for termination.)
\<close>

function pieces :: "(string \<Rightarrow> ('t \<times> string) option) \<Rightarrow> string \<Rightarrow> (char + 't) list" where
  "pieces tok [] = []"
| "pieces tok (c # s) =
     (case tok (c # s) of
        Some (t, r) \<Rightarrow> if length r \<le> length s then Inr t # pieces tok r else []
      | None \<Rightarrow> Inl c # pieces tok s)"
  by pat_completeness auto

termination
  by (relation "measure (\<lambda>(f, s). length s)") auto

definition template_pieces :: "string \<Rightarrow> (char + string \<times> string) list" where
  "template_pieces = pieces (\<lambda>s. case templateTokenFindPattern s of
     Some (source, name, rest) \<Rightarrow> Some ((source, name), rest) | None \<Rightarrow> None)"

definition poll_pieces :: "string \<Rightarrow> (char + string) list" where
  "poll_pieces = pieces pollTemplateTokenPattern"

fun tokens :: "(char + 't) list \<Rightarrow> 't list" where
  "tokens [] = []"
| "tokens (Inl c # ps) = tokens ps"
| "tokens (Inr t # ps) = t # tokens ps"

fun rendered :: "('t \<Rightarrow> string) \<Rightarrow> (char + 't) list \<Rightarrow> string" where
  "rendered f [] = []"
| "rendered f (Inl c # ps) = c # rendered f ps"
| "rendered f (Inr t # ps) = f t @ rendered f ps"

text \<open>
  \<open>ReplaceAllStringFunc\<close> with the closure that remembers the last token without a value in \<open>missing\<close>.
\<close>

definition substitute ::
  "(string \<Rightarrow> string) \<Rightarrow> ('t \<Rightarrow> string) \<Rightarrow> ('t \<Rightarrow> string option) \<Rightarrow> (char + 't) list \<Rightarrow> go_error + string" where
  "substitute err text lookup ps =
     (case filter (\<lambda>t. lookup t = None) (tokens ps) of
        [] \<Rightarrow> Inr (rendered (\<lambda>t. case lookup t of Some v \<Rightarrow> v | None \<Rightarrow> text t) ps)
      | missing \<Rightarrow> Inl (OtherError (err (text (last missing)))))"

section \<open>Rendering\<close>

definition token_text :: "string \<times> string \<Rightarrow> string" where
  "token_text t = ''{'' @ fst t @ ''.'' @ snd t @ ''}''"

definition lookupTemplateToken :: "string \<times> string \<Rightarrow> any_map \<Rightarrow> any_map \<Rightarrow> any option" where
  "lookupTemplateToken match inputs params =
     (let bag = (if fst match = ''params'' then params else inputs) in map_of bag (snd match))"

definition RenderPath :: "string \<Rightarrow> any_map \<Rightarrow> any_map \<Rightarrow> go_error + string" where
  "RenderPath path inputs params =
     substitute (\<lambda>token. ''path template references '' @ token @ '', which was not supplied'') token_text
       (\<lambda>t. map_option (\<lambda>v. PathEscape (Sprint v)) (lookupTemplateToken t inputs params))
       (template_pieces path)"

text \<open>\<open>Inr None\<close>: the expression is one token without a value, the caller drops the entry.\<close>

definition RenderMappedValue :: "string \<Rightarrow> any_map \<Rightarrow> any_map \<Rightarrow> go_error + string option" where
  "RenderMappedValue expression inputs params =
     (case templateTokenWholePattern expression of
        Some t \<Rightarrow> Inr (map_option Sprint (lookupTemplateToken t inputs params))
      | None \<Rightarrow>
          (case substitute (\<lambda>token. ''mapping value references '' @ token @ '', which was not supplied'') token_text
                  (\<lambda>t. map_option Sprint (lookupTemplateToken t inputs params)) (template_pieces expression) of
             Inl e \<Rightarrow> Inl e
           | Inr s \<Rightarrow> Inr (Some s)))"

definition lookupPollToken :: "string \<Rightarrow> any_map \<Rightarrow> string \<Rightarrow> any option" where
  "lookupPollToken inner config watermark =
     (if inner = ''watermark'' then Some (AStr watermark)
      else map_of config (TrimPrefix inner ''config.''))"

definition RenderPollTemplate :: "string \<Rightarrow> any_map \<Rightarrow> string \<Rightarrow> bool \<Rightarrow> go_error + string" where
  "RenderPollTemplate template config watermark escapePathSegments =
     substitute (\<lambda>token. ''poll template references '' @ token @ '', which was not supplied'')
       (\<lambda>inner. ''{'' @ inner @ ''}'')
       (\<lambda>t. map_option (\<lambda>v. if escapePathSegments then PathEscape (Sprint v) else Sprint v)
              (lookupPollToken t config watermark))
       (poll_pieces template)"

section \<open>Values stay inside their path segment\<close>

lemma substitute_Inr:
  "substitute err text lookup ps = Inr r \<longleftrightarrow>
     (\<forall>t \<in> set (tokens ps). lookup t \<noteq> None) \<and> r = rendered (\<lambda>t. the (lookup t)) ps"
proof -
  have "rendered (\<lambda>t. case lookup t of Some v \<Rightarrow> v | None \<Rightarrow> text t) ps = rendered (\<lambda>t. the (lookup t)) ps"
    if "\<forall>t \<in> set (tokens ps). lookup t \<noteq> None"
    using that by (induction ps rule: tokens.induct) auto
  then show ?thesis
    by (auto simp: substitute_def filter_empty_conv split: list.split)
qed

text \<open>The characters that end a segment, the path, or the query.\<close>

definition url_delimiter :: "char \<Rightarrow> bool" where
  "url_delimiter c \<longleftrightarrow> c = CHR ''/'' \<or> c = CHR ''?'' \<or> c = CHR ''#''"

lemma upperhex_no_delimiter: "d < 16 \<Longrightarrow> \<not> url_delimiter (upperhex d)"
proof -
  have "list_all (\<lambda>d. \<not> url_delimiter (upperhex d)) [0..<16]" by code_simp
  then show "d < 16 \<Longrightarrow> \<not> url_delimiter (upperhex d)" by (simp add: list_all_iff)
qed

lemma delimiter_escaped: "url_delimiter c \<Longrightarrow> shouldEscape c encodePathSegment"
  unfolding url_delimiter_def
  by (elim disjE; hypsubst) (simp_all add: shouldEscape_def is_alpha_def is_digit_def less_eq_char_def of_char_def)

lemma PathEscape_no_delimiter: "\<forall>c \<in> set (PathEscape s). \<not> url_delimiter c"
proof (induction s)
  case (Cons c s)
  have "(of_char c :: nat) div 16 < 16" by (cases c) (simp add: of_char_def horner_sum_simps div_less_iff_less_mult)
  then have "\<not> url_delimiter (upperhex (of_char c div 16))" "\<not> url_delimiter (upperhex (of_char c mod 16))"
    by (simp_all add: upperhex_no_delimiter)
  then show ?case using Cons delimiter_escaped [of c] by (auto simp: url_delimiter_def)
qed simp

lemma rendered_delimiters:
  assumes "\<And>t. t \<in> set (tokens ps) \<Longrightarrow> filter url_delimiter (f t) = []"
    and "\<And>t. t \<in> set (tokens ps) \<Longrightarrow> filter url_delimiter (g t) = []"
  shows "filter url_delimiter (rendered f ps) = filter url_delimiter (rendered g ps)"
  using assms by (induction ps rule: tokens.induct) auto

lemma rendered_pieces:
  assumes "\<And>s t r. tok s = Some (t, r) \<Longrightarrow> s = text t @ r \<and> text t \<noteq> []"
  shows "rendered text (pieces tok s) = s"
  using assms
proof (induction tok s rule: pieces.induct)
  case (2 tok c s)
  show ?case
  proof (cases "tok (c # s)")
    case None
    then show ?thesis using 2(1) [OF None 2(3)] by simp
  next
    case (Some p)
    obtain t r where p: "p = (t, r)" by (cases p)
    with Some 2(3) have cs: "c # s = text t @ r" and ne: "text t \<noteq> []" by blast+
    then have "length r \<le> length s" by (cases "text t") auto
    with 2(2) [OF Some p [symmetric] _ 2(3)] have ih: "rendered text (pieces tok r) = r" by blast
    from Some p \<open>length r \<le> length s\<close> have "pieces tok (c # s) = Inr t # pieces tok r" by simp
    with ih cs show ?thesis by (simp only: rendered.simps)
  qed
qed simp

lemma token_name_text:
  "token_name s = Some (n, r) \<Longrightarrow> s = n @ ''}'' @ r \<and> list_all token_char n"
proof -
  assume a: "token_name s = Some (n, r)"
  then have "n = takeWhile token_char s" "dropWhile token_char s = CHR ''}'' # r"
    by (auto simp: token_name_def Let_def split: list.splits if_splits)
  then show ?thesis using takeWhile_dropWhile_id [of token_char s] by (auto simp: list_all_iff dest: set_takeWhileD)
qed

lemma token_char_no_delimiter: "token_char c \<Longrightarrow> \<not> url_delimiter c"
  by (auto simp: token_char_def url_delimiter_def)

lemma HasPrefix_drop: "HasPrefix s p \<Longrightarrow> s = p @ drop (length p) s"
  by (metis HasPrefix_def append_take_drop_id)

lemma prefix_drops:
  "HasPrefix s ''{input.'' \<Longrightarrow> s = ''{input.'' @ drop 7 s" "HasPrefix s ''{params.'' \<Longrightarrow> s = ''{params.'' @ drop 8 s"
  using HasPrefix_drop [of s "''{input.''"] HasPrefix_drop [of s "''{params.''"]
  by (simp_all add: numeral_eq_Suc)

lemma template_token_text:
  "templateTokenFindPattern s = Some (src, n, r) \<Longrightarrow>
     s = token_text (src, n) @ r \<and> src \<in> {''input'', ''params''} \<and> list_all token_char n"
proof -
  assume a: "templateTokenFindPattern s = Some (src, n, r)"
  show ?thesis
  proof (cases "HasPrefix s ''{input.''")
    case True
    with a have "token_name (drop 7 s) = Some (n, r)" "src = ''input''"
      by (auto simp: templateTokenFindPattern_def)
    with token_name_text prefix_drops(1) [OF True] show ?thesis by (fastforce simp: token_text_def)
  next
    case False
    with a have "HasPrefix s ''{params.''" "token_name (drop 8 s) = Some (n, r)" "src = ''params''"
      by (auto simp: templateTokenFindPattern_def split: if_splits)
    with token_name_text prefix_drops(2) show ?thesis by (fastforce simp: token_text_def)
  qed
qed

lemma template_pieces_text: "rendered token_text (template_pieces s) = s"
  unfolding template_pieces_def
  by (rule rendered_pieces) (auto simp: token_text_def split: option.splits dest!: template_token_text)

lemma tokens_pieces: "t \<in> set (tokens (pieces tok s)) \<Longrightarrow> \<exists>u r. tok u = Some (t, r)"
proof (induction tok s rule: pieces.induct)
  case (2 tok c s)
  show ?case
  proof (cases "tok (c # s)")
    case None
    then show ?thesis using 2(1) [OF None] 2(3) by simp
  next
    case (Some p)
    then show ?thesis using 2(2) [OF Some prod.collapse] 2(3) by (cases p) (auto split: if_splits)
  qed
qed simp

lemma template_token_no_delimiter: "t \<in> set (tokens (template_pieces s)) \<Longrightarrow> filter url_delimiter (token_text t) = []"
proof -
  assume "t \<in> set (tokens (template_pieces s))"
  then obtain u src n r where "templateTokenFindPattern u = Some (src, n, r)" "t = (src, n)"
    unfolding template_pieces_def by (force dest!: tokens_pieces split: option.splits)
  then show ?thesis using template_token_text [of u src n r] token_char_no_delimiter
    by (auto simp: token_text_def filter_empty_conv list_all_iff url_delimiter_def)
qed

text \<open>
  A value put into a path cannot break out of its path segment: the rendered path has the slashes,
  question marks and number signs of the template, in their order, and no others.
\<close>

theorem RenderPath_keeps_structure:
  assumes "RenderPath path inputs params = Inr r"
  shows "filter url_delimiter r = filter url_delimiter path"
proof -
  let ?f = "\<lambda>t. map_option (\<lambda>v. PathEscape (Sprint v)) (lookupTemplateToken t inputs params)"
  from assms have all: "\<forall>t \<in> set (tokens (template_pieces path)). ?f t \<noteq> None"
    and r: "r = rendered (\<lambda>t. the (?f t)) (template_pieces path)"
    by (simp_all add: RenderPath_def substitute_Inr)
  have "filter url_delimiter (the (?f t)) = []" if "t \<in> set (tokens (template_pieces path))" for t
    using all that PathEscape_no_delimiter by (fastforce simp: filter_empty_conv)
  then have "filter url_delimiter r = filter url_delimiter (rendered token_text (template_pieces path))"
    unfolding r by (rule rendered_delimiters [OF _ template_token_no_delimiter])
  then show ?thesis by (simp add: template_pieces_text)
qed

lemma RenderPath_keeps_structure_witness:
  "RenderPath ''/me/{input.id}?x'' [(''id'', AStr ''a/b?c'')] [] = Inr ''/me/a%2Fb%3Fc?x''
   \<and> filter url_delimiter ''/me/a%2Fb%3Fc?x'' = filter url_delimiter ''/me/{input.id}?x''"
proof -
  have r: "RenderPath ''/me/{input.id}?x'' [(''id'', AStr ''a/b?c'')] [] = Inr ''/me/a%2Fb%3Fc?x''" by code_simp
  with RenderPath_keeps_structure [OF r] show ?thesis by simp
qed

text \<open>A segment of dots is a value like any other: it passes unescaped.\<close>

lemma RenderPath_dots: "RenderPath ''/users/{input.id}/mail'' [(''id'', AStr ''..'')] [] = Inr ''/users/../mail''"
  by code_simp

end
