(* ===== verification/GoURLString.thy ===== *)
theory GoURLString
  imports GoURL GoAny
begin

text \<open>
  The rest of \<open>net/url\<close> the connections module uses: \<open>URL.Query\<close>, \<open>Values.Encode\<close> and \<open>URL.String\<close>. A
  \<open>full_URL\<close> is a parsed URL with the fields \<open>String\<close> reads besides those of \<open>GoURL.URL\<close>.
\<close>

section \<open>Values\<close>

text \<open>\<open>url.Values\<close>: a map from keys to lists of values.\<close>

type_synonym Values = "(string \<times> string list) list"

definition Values_Set :: "string \<Rightarrow> string \<Rightarrow> Values \<Rightarrow> Values" where
  "Values_Set k v vs = map_put k [v] vs"

definition Values_Add :: "string \<Rightarrow> string \<Rightarrow> Values \<Rightarrow> Values" where
  "Values_Add k v vs = map_put k ((case map_of vs k of None \<Rightarrow> [] | Some xs \<Rightarrow> xs) @ [v]) vs"

text \<open>
  \<open>URL.Query\<close>: the pairs that \<open>ParseQuery\<close> cannot read (a semicolon, a bad escape) are dropped.
\<close>

definition QueryUnescape :: "string \<Rightarrow> string option" where
  "QueryUnescape = url_unescape encodeQueryComponent"

definition query_pair :: "string \<Rightarrow> Values \<Rightarrow> Values" where
  "query_pair key0 vs =
     (if CHR '';'' \<in> set key0 then vs
      else if key0 = [] then vs
      else (case Cut (CHR ''='') key0 of
              (key, val, _) \<Rightarrow>
                (case (QueryUnescape key, QueryUnescape val) of
                   (Some k, Some v) \<Rightarrow> Values_Add k v vs
                 | _ \<Rightarrow> vs)))"

definition ParseQuery :: "string \<Rightarrow> Values" where
  "ParseQuery query = foldl (\<lambda>vs key. query_pair key vs) [] (Split (CHR ''&'') query)"

definition Values_Encode :: "Values \<Rightarrow> string" where
  "Values_Encode vs =
     Join (concat (map (\<lambda>kv. map (\<lambda>v. QueryEscape (fst kv) @ ''='' @ QueryEscape v) (snd kv)) vs)) ''&''"

section \<open>Parsing with all fields\<close>

record full_URL = URL +
  url_User :: "(string \<times> string option) option"
  url_RawPath :: string
  url_OmitHost :: bool
  url_ForceQuery :: bool
  url_Fragment :: string
  url_RawFragment :: string

text \<open>\<open>setPath\<close> and \<open>setFragment\<close>: the decoded text, and the given one when it is not the default encoding.\<close>

definition set_encoded :: "url_encoding \<Rightarrow> string \<Rightarrow> (string \<times> string) option" where
  "set_encoded mode p =
     (case url_unescape mode p of
        None \<Rightarrow> None
      | Some path \<Rightarrow> Some (path, if p = url_escape mode path then [] else p))"

definition userinfo_of :: "string \<Rightarrow> (string \<times> string option) option option" where
  "userinfo_of authority =
     (case cut_last (CHR ''@'') authority of
        None \<Rightarrow> Some None
      | Some (userinfo, _) \<Rightarrow>
          (case Cut (CHR '':'') userinfo of
             (u, p, found) \<Rightarrow>
               (case (url_unescape encodeUserPassword u, url_unescape encodeUserPassword p) of
                  (Some u', Some p') \<Rightarrow> Some (Some (u', if found then Some p' else None))
                | _ \<Rightarrow> None)))"

text \<open>
  \<open>url.Parse\<close> again, with every field: \<open>url_Parse\<close> decides whether there is a result and gives the fields
  it has, the others are read off the text the way \<open>parse\<close> cuts it.
\<close>

definition url_Parse_full :: "string \<Rightarrow> full_URL option" where
  "url_Parse_full rawURL =
     (case url_Parse rawURL of
        None \<Rightarrow> None
      | Some u \<Rightarrow>
          (let (text, frag, _) = Cut (CHR ''#'') rawURL;
               rest0 = (case getScheme text of None \<Rightarrow> [] | Some (_, r) \<Rightarrow> r);
               rest = fst (split_query rest0);
               force = rest0 \<noteq> [] \<and> last rest0 = CHR ''?'' \<and> count_list rest0 (CHR ''?'') = 1;
               authority = (url_Scheme u \<noteq> [] \<or> \<not> HasPrefix rest ''///'') \<and> HasPrefix rest ''//'';
               path = (if \<not> HasPrefix rest ''/'' \<and> url_Scheme u \<noteq> [] then []
                       else if authority then dropWhile (\<lambda>c. c \<noteq> CHR ''/'') (drop 2 rest) else rest);
               user = (if authority then userinfo_of (takeWhile (\<lambda>c. c \<noteq> CHR ''/'') (drop 2 rest)) else Some None)
           in if text = ''*''
              then map_option (\<lambda>(f, rf). URL.extend u \<lparr>url_User = None, url_RawPath = [], url_OmitHost = False,
                     url_ForceQuery = False, url_Fragment = f, url_RawFragment = rf\<rparr>) (set_encoded encodeFragment frag)
              else (case (user, set_encoded encodePath path, set_encoded encodeFragment frag) of
                      (Some us, Some (_, rawPath), Some (f, rf)) \<Rightarrow>
                        Some (URL.extend u \<lparr>url_User = us, url_RawPath = rawPath,
                          url_OmitHost = (\<not> authority \<and> url_Scheme u \<noteq> [] \<and> HasPrefix rest ''/''),
                          url_ForceQuery = force, url_Fragment = f, url_RawFragment = rf\<rparr>)
                    | _ \<Rightarrow> None)))"

section \<open>URL.String\<close>

definition validEncoded :: "string \<Rightarrow> url_encoding \<Rightarrow> bool" where
  "validEncoded s mode \<longleftrightarrow>
     list_all (\<lambda>c. c \<in> set ''!$&()*+,;=:@[]%'' \<union> {CHR 0x27} \<or> \<not> shouldEscape c mode) s"

text \<open>\<open>EscapedPath\<close> and \<open>EscapedFragment\<close>.\<close>

definition escaped_of :: "url_encoding \<Rightarrow> string \<Rightarrow> string \<Rightarrow> string" where
  "escaped_of mode raw decoded =
     (if raw \<noteq> [] \<and> validEncoded raw mode \<and> url_unescape mode raw = Some decoded then raw
      else if mode = encodePath \<and> decoded = ''*'' then ''*''
      else url_escape mode decoded)"

definition userinfo_String :: "string \<times> string option \<Rightarrow> string" where
  "userinfo_String ui =
     (if fst ui \<noteq> [] \<or> snd ui \<noteq> None
      then url_escape encodeUserPassword (fst ui)
           @ (case snd ui of None \<Rightarrow> [] | Some p \<Rightarrow> '':'' @ url_escape encodeUserPassword p)
      else [])"

definition url_String :: "full_URL \<Rightarrow> string" where
  "url_String u =
     (let scheme = (if url_Scheme u \<noteq> [] then url_Scheme u @ '':'' else []);
          hierarchy =
            (if url_Opaque u \<noteq> [] then url_Opaque u
             else (let authority =
                         (if url_Scheme u \<noteq> [] \<or> url_Host u \<noteq> [] \<or> url_User u \<noteq> None
                          then (if url_OmitHost u \<and> url_Host u = [] \<and> url_User u = None then []
                                else (if url_Host u \<noteq> [] \<or> url_Path u \<noteq> [] \<or> url_User u \<noteq> None then ''//'' else [])
                                     @ (case url_User u of None \<Rightarrow> [] | Some ui \<Rightarrow> userinfo_String ui @ ''@'')
                                     @ url_escape encodeHost (url_Host u))
                          else []);
                       path = escaped_of encodePath (url_RawPath u) (url_Path u);
                       slash = (if path \<noteq> [] \<and> hd path \<noteq> CHR ''/'' \<and> url_Host u \<noteq> [] then ''/'' else []);
                       dot = (if scheme @ authority @ slash = []
                                 \<and> CHR '':'' \<in> set (takeWhile (\<lambda>c. c \<noteq> CHR ''/'') path) then ''./'' else [])
                   in authority @ slash @ dot @ path));
          query = (if url_ForceQuery u \<or> url_RawQuery u \<noteq> [] then ''?'' @ url_RawQuery u else []);
          fragment = (if url_Fragment u \<noteq> [] then ''#'' @ escaped_of encodeFragment (url_RawFragment u) (url_Fragment u) else [])
      in scheme @ hierarchy @ query @ fragment)"

lemma url_String_examples:
  "map_option url_String (url_Parse_full ''https://app.example/done?x=1#top'') = Some ''https://app.example/done?x=1#top''"
  "map_option url_String (url_Parse_full ''myapp:done'') = Some ''myapp:done''"
  "map_option url_String (url_Parse_full ''https://u:p@h/a%2Fb'') = Some ''https://u:p@h/a%2Fb''"
  "map_option (\<lambda>u. Values_Encode (Values_Set ''status'' ''error'' (ParseQuery (url_RawQuery u)))) (url_Parse_full ''http://h/?b=2&a=1&a=x+y'')
     = Some ''a=1&a=x+y&b=2&status=error''"
  by code_simp+

end
