(* ===== verification/Connections.thy ===== *)
theory Connections
  imports ConnectionTypes Vault Template GoURLString Organizations Httpx
begin

text \<open>
  \<open>internal/connections\<close>, first half: the errors (\<open>errors.go\<close>), the ports (\<open>port.go\<close>) and the operations of
  \<open>facade.go\<close>: initiating, reading, listing, disabling, deleting and reconnecting a connection.
\<close>

section \<open>Errors (errors.go)\<close>

definition conn_ErrNotFound :: go_error where
  "conn_ErrNotFound = not_found_error ''connection not found''"

definition ErrRedirectURINotAllowed :: go_error where
  "ErrRedirectURINotAllowed = validation_error ''redirectUri'' (''not in organization'' @ [CHR 0x27] @ ''s allowed redirect uris'')"

definition conn_ErrInvalidCursor :: go_error where
  "conn_ErrInvalidCursor = invalid_cursor_error"

definition em_dash :: string where
  "em_dash = [CHR 0xE2, CHR 0x80, CHR 0x94]"

definition ErrConnectLinkInvalid :: go_error where
  "ErrConnectLinkInvalid = DomainError (httpx_New 404 ''connect_link_invalid'' ''this connection link is invalid'')"

definition ErrConnectLinkExpired :: go_error where
  "ErrConnectLinkExpired = DomainError (httpx_New 410 ''connect_link_expired''
     (''this connection link has expired '' @ em_dash @ '' please start again''))"

definition ErrConnectLinkAlreadyCompleted :: go_error where
  "ErrConnectLinkAlreadyCompleted = DomainError (httpx_New 410 ''connect_link_already_completed''
     ''this connection has already been completed'')"

definition ErrStateMissing :: go_error where
  "ErrStateMissing = DomainError (httpx_New 400 ''oauth_state_missing''
     ''this connection request is missing its security token'')"

definition ErrStateUnknown :: go_error where
  "ErrStateUnknown = DomainError (httpx_New 400 ''oauth_state_unknown''
     (''this connection request'' @ [CHR 0x27] @ ''s security token is not recognized''))"

definition ErrStateExpired :: go_error where
  "ErrStateExpired = DomainError (httpx_New 410 ''oauth_state_expired''
     (''this connection request has expired '' @ em_dash @ '' please start again''))"

definition ErrStateAlreadyUsed :: go_error where
  "ErrStateAlreadyUsed = DomainError (httpx_New 410 ''oauth_state_already_used''
     ''this connection request has already been used'')"

definition ErrTokenExchangeFailed :: go_error where
  "ErrTokenExchangeFailed = DomainError (httpx_New 502 ''oauth_token_exchange_failed''
     (''we couldn'' @ [CHR 0x27] @ ''t complete the connection with the provider '' @ em_dash @ '' please try again''))"

definition ErrMissingRequiredParams :: "string list \<Rightarrow> go_error" where
  "ErrMissingRequiredParams missing =
     DomainError (WithDetails (httpx_New 422 ''missing_required_params'' ''validation failed'')
       [(''field'', DStr ''params''), (''missing'', DStrs missing)])"

definition ErrReconnectNotAllowed :: "ConnStatus \<Rightarrow> go_error" where
  "ErrReconnectNotAllowed status =
     DomainError (WithDetails (httpx_New 422 ''reconnect_not_allowed'' ''this connection cannot be reconnected right now'')
       [(''field'', DStr ''status''), (''issue'', DStr (''connection is '' @ conn_status_text status))])"

section \<open>OAuth states and the ports (oauth.go, port.go)\<close>

record OAuthState =
  OS_State :: string
  OS_ConnectionID :: ConnectionID
  OS_ExpiresAt :: time
  OS_ConsumedAt :: "time option"

type_synonym ConnListCursor = "time \<times> ConnectionID"

record ConnListFilter =
  CLF_UserID :: UserID
  CLF_Cursor :: "ConnListCursor option"
  CLF_Limit :: int

record TokenExchangeRequest =
  TXR_TokenURL :: string
  TXR_ClientID :: string
  TXR_ClientSecret :: string
  TXR_Code :: string
  TXR_RedirectURI :: string
  TXR_CredentialStyle :: string

record TokenExchangeResult =
  TX_AccessToken :: string
  TX_RefreshToken :: string
  TX_ExpiresIn :: int

record RefreshGrantRequest =
  RGR_TokenURL :: string
  RGR_ClientID :: string
  RGR_ClientSecret :: string
  RGR_RefreshToken :: string
  RGR_CredentialStyle :: string

record AccountInfo =
  AI_Email :: string
  AI_DisplayName :: string

record AccountFetchRequest =
  AFR_UserInfoURL :: string
  AFR_AccessToken :: string
  AFR_EmailField :: string
  AFR_DisplayNameField :: string

text \<open>
  The errors of the OAuth client that the code tells apart: \<open>errors.As(err, &RefreshDenied)\<close> and
  \<open>errors.Is(err, ErrProbeUnauthorized)\<close>; every other error is a \<open>ClientError\<close>.
\<close>

datatype oauth_error = RefreshDenied string | ErrProbeUnauthorized | ClientError go_error

definition oauth_error_text :: "oauth_error \<Rightarrow> string" where
  "oauth_error_text e =
     (case e of
        RefreshDenied code \<Rightarrow> ''connections: provider denied the refresh grant ('' @ code @ '')''
      | ErrProbeUnauthorized \<Rightarrow> ''connections: reconciliation probe unauthorized''
      | ClientError (DomainError d) \<Rightarrow> error_text d
      | ClientError (OtherError s) \<Rightarrow> s)"

definition oauth_go_error :: "oauth_error \<Rightarrow> go_error" where
  "oauth_go_error e = (case e of ClientError g \<Rightarrow> g | _ \<Rightarrow> OtherError (oauth_error_text e))"

record ConnLogEntry =
  CL_OrgID :: OrgID
  CL_UserID :: UserID
  CL_ConnectionID :: ConnectionID
  CL_Status :: int
  CL_DurationMs :: int
  CL_RequestBody :: string
  CL_ResponseBody :: string

record ExpiredEventData =
  XD_ConnectionID :: string
  XD_UserID :: string
  XD_IntegrationID :: string
  XD_ProviderSlug :: string
  XD_Reason :: string

record 's conn_metrics =
  cm_RecordOAuthHandshake :: "string \<Rightarrow> bool \<Rightarrow> 's \<Rightarrow> 's"
  cm_RecordTokenRefresh :: "string \<Rightarrow> bool \<Rightarrow> 's \<Rightarrow> 's"
  cm_RecordScheduledRefreshOutcome :: "string \<Rightarrow> 's \<Rightarrow> 's"

section \<open>The facade (facade.go)\<close>

definition defaultRefreshLead :: duration where
  "defaultRefreshLead = 10 * minute"

definition defaultReconcileInterval :: duration where
  "defaultReconcileInterval = 6 * hour"

text \<open>
  The fields of \<open>Facade\<close>. A port that may be \<open>nil\<close> is an option; the vault is its primitives and the source
  of its nonces; \<open>conn_jitter\<close> is \<open>rand.Float64\<close>, a rational in place of a \<open>float64\<close>.
\<close>

record 's conn_facade =
  conn_repo_Save :: "Connection \<Rightarrow> ('s, unit) act"
  conn_repo_FindByID :: "OrgID \<Rightarrow> ConnectionID \<Rightarrow> ('s, Connection option) act"
  conn_repo_Update :: "Connection \<Rightarrow> ('s, unit) act"
  conn_repo_List :: "OrgID \<Rightarrow> ConnListFilter \<Rightarrow> ('s, Connection list) act"
  conn_repo_Delete :: "OrgID \<Rightarrow> ConnectionID \<Rightarrow> ('s, unit) act"
  conn_repo_TransitionStatus :: "OrgID \<Rightarrow> ConnectionID \<Rightarrow> ConnStatus \<Rightarrow> ConnStatus \<Rightarrow> ('s, bool) act"
  conn_oauth_FindByConnectToken :: "string \<Rightarrow> ('s, Connection option) act"
  conn_oauth_FindConnectionForCallback :: "ConnectionID \<Rightarrow> ('s, Connection option) act"
  conn_oauth_SaveState :: "OAuthState \<Rightarrow> ('s, unit) act"
  conn_oauth_FindState :: "string \<Rightarrow> ('s, OAuthState option) act"
  conn_oauth_MarkStateConsumed :: "string \<Rightarrow> time \<Rightarrow> ('s, unit) act"
  conn_orgs_Get :: "OrgID \<Rightarrow> ('s, Organization) act"
  conn_users_GetUser :: "OrgID \<Rightarrow> UserID \<Rightarrow> ('s, User) act"
  conn_GetIntegration :: "IntegrationID \<Rightarrow> ('s, Integration) act"
  conn_GetVisibleIntegration :: "OrgID \<Rightarrow> IntegrationID \<Rightarrow> ('s, Integration) act"
  conn_GetProviderDefinition :: "string \<Rightarrow> ('s, ProviderDefinition) act"
  conn_crypto :: crypto
  conn_readFull :: "nat \<Rightarrow> ('s, string) act"
  conn_ExchangeCode :: "TokenExchangeRequest \<Rightarrow> 's \<Rightarrow> (oauth_error + TokenExchangeResult) \<times> 's"
  conn_FetchAccount :: "AccountFetchRequest \<Rightarrow> 's \<Rightarrow> (oauth_error + AccountInfo) \<times> 's"
  conn_RefreshGrant :: "RefreshGrantRequest \<Rightarrow> 's \<Rightarrow> (oauth_error + TokenExchangeResult) \<times> 's"
  conn_FetchUserInfo :: "string \<Rightarrow> string \<Rightarrow> 's \<Rightarrow> (oauth_error + unit) \<times> 's"
  conn_recorder :: "(ConnLogEntry \<Rightarrow> ('s, unit) act) option"
  conn_dependents :: "(OrgID \<Rightarrow> ConnectionID \<Rightarrow> ('s, unit) act) option"
  conn_metrics :: "'s conn_metrics option"
  conn_newID :: "'s \<Rightarrow> string \<times> 's"
  conn_newToken :: "'s \<Rightarrow> string \<times> 's"
  conn_newState :: "'s \<Rightarrow> string \<times> 's"
  conn_baseURL :: string
  conn_now :: "'s \<Rightarrow> time \<times> 's"
  conn_ClaimDueRefresh :: "time \<Rightarrow> duration \<Rightarrow> duration \<Rightarrow> int \<Rightarrow> ('s, Connection list) act"
  conn_ClaimDueReconcile :: "time \<Rightarrow> duration \<Rightarrow> duration \<Rightarrow> int \<Rightarrow> ('s, Connection list) act"
  conn_events :: "(OrgID \<Rightarrow> ExpiredEventData \<Rightarrow> ('s, unit) act) option"
  conn_refreshLead :: duration
  conn_reconcileInterval :: duration
  conn_jitter :: "'s \<Rightarrow> rat \<times> 's"
  conn_sleep :: "duration \<Rightarrow> ('s, unit) act"
  conn_statusCounter :: "('s, (ConnStatus \<times> int) list) act option"

definition conn_WithScheduling :: "'s conn_facade \<Rightarrow> duration \<Rightarrow> duration \<Rightarrow> 's conn_facade" where
  "conn_WithScheduling f refreshLead reconcileInterval =
     f\<lparr>conn_refreshLead := (if refreshLead > 0 then refreshLead else conn_refreshLead f),
       conn_reconcileInterval := (if reconcileInterval > 0 then reconcileInterval else conn_reconcileInterval f)\<rparr>"

definition conn_CountByStatus :: "'s conn_facade \<Rightarrow> ('s, (ConnStatus \<times> int) list) act" where
  "conn_CountByStatus f = (case conn_statusCounter f of None \<Rightarrow> ok [] | Some counter \<Rightarrow> counter)"

record InitiatedConnection =
  IC_Connection :: Connection
  IC_RedirectURL :: string

definition buildConnectURL :: "string \<Rightarrow> string \<Rightarrow> string" where
  "buildConnectURL baseURL token = TrimRightChar baseURL (CHR ''/'') @ ''/connect/'' @ token"

definition conn_Initiate ::
  "'s conn_facade \<Rightarrow> OrgID \<Rightarrow> UserID \<Rightarrow> IntegrationID \<Rightarrow> string \<Rightarrow> ('s, InitiatedConnection) act" where
  "conn_Initiate f org userID integrationID redirectURI =
     attempt (conn_orgs_Get f org) (\<lambda>orgEntity.
     if \<not> AllowsRedirectURI orgEntity redirectURI then fail ErrRedirectURINotAllowed
     else
     attempt (conn_users_GetUser f org userID) (\<lambda>_.
     attempt (conn_GetVisibleIntegration f org integrationID) (\<lambda>integration.
     call (conn_newID f) (\<lambda>i.
     call (conn_newToken f) (\<lambda>token.
     call (conn_now f) (\<lambda>now.
     let connection = NewConnection i org userID integrationID (IG_ProviderSlug integration) redirectURI token now in
     attempt (conn_repo_Save f connection) (\<lambda>_.
     ok \<lparr>IC_Connection = connection, IC_RedirectURL = buildConnectURL (conn_baseURL f) (Conn_ConnectToken connection)\<rparr>)))))))"

definition conn_Get :: "'s conn_facade \<Rightarrow> OrgID \<Rightarrow> ConnectionID \<Rightarrow> ('s, Connection) act" where
  "conn_Get f org i =
     attempt (conn_repo_FindByID f org i) (\<lambda>connection.
     case connection of None \<Rightarrow> fail conn_ErrNotFound | Some c \<Rightarrow> ok c)"

definition conn_defaultListLimit :: int where
  "conn_defaultListLimit = 50"

definition conn_maxListLimit :: int where
  "conn_maxListLimit = 200"

record ConnListParams =
  CLP_UserID :: string
  CLP_Cursor :: string
  CLP_Limit :: int

record ConnListResult =
  CLR_Connections :: "Connection list"
  CLR_NextCursor :: string

definition encodeConnectionCursor :: "time \<Rightarrow> ConnectionID \<Rightarrow> string" where
  "encodeConnectionCursor createdAt i = EncodeCursor [format_RFC3339Nano createdAt, i]"

definition decodeConnectionCursor :: "string \<Rightarrow> go_error + ConnListCursor option" where
  "decodeConnectionCursor raw =
     (case DecodeCursor raw 2 of
        Inl _ \<Rightarrow> Inl conn_ErrInvalidCursor
      | Inr None \<Rightarrow> Inr None
      | Inr (Some fs) \<Rightarrow>
          (case parse_RFC3339Nano (fs ! 0) of
             None \<Rightarrow> Inl conn_ErrInvalidCursor
           | Some createdAt \<Rightarrow> Inr (Some (createdAt, fs ! 1))))"

definition conn_normalizeListLimit :: "int \<Rightarrow> int" where
  "conn_normalizeListLimit requested =
     (if requested \<le> 0 then conn_defaultListLimit
      else if requested > conn_maxListLimit then conn_maxListLimit
      else requested)"

definition paginateConnections :: "Connection list \<Rightarrow> int \<Rightarrow> ConnListResult" where
  "paginateConnections items limit =
     (let hasMore = int (length items) > limit;
          shown = (if hasMore then take (nat limit) items else items)
      in \<lparr>CLR_Connections = shown,
          CLR_NextCursor =
            (if hasMore then encodeConnectionCursor (Conn_CreatedAt (last shown)) (Conn_ID (last shown)) else [])\<rparr>)"

definition conn_List :: "'s conn_facade \<Rightarrow> OrgID \<Rightarrow> ConnListParams \<Rightarrow> ('s, ConnListResult) act" where
  "conn_List f org params =
     attempt (lift (decodeConnectionCursor (CLP_Cursor params))) (\<lambda>cursor.
     let limit = conn_normalizeListLimit (CLP_Limit params) in
     attempt (conn_repo_List f org \<lparr>CLF_UserID = CLP_UserID params, CLF_Cursor = cursor, CLF_Limit = limit + 1\<rparr>) (\<lambda>items.
     ok (paginateConnections items limit)))"

definition conn_Disable :: "'s conn_facade \<Rightarrow> OrgID \<Rightarrow> ConnectionID \<Rightarrow> ('s, Connection) act" where
  "conn_Disable f org i =
     attempt (conn_repo_FindByID f org i) (\<lambda>connection.
     case connection of
       None \<Rightarrow> fail conn_ErrNotFound
     | Some c \<Rightarrow>
         (let disabled = Conn_Disable c in
          attempt (conn_repo_Update f disabled) (\<lambda>_. ok disabled)))"

definition notifyDependentsOfDeletion :: "'s conn_facade \<Rightarrow> OrgID \<Rightarrow> ConnectionID \<Rightarrow> ('s, unit) act" where
  "notifyDependentsOfDeletion f org i =
     (case conn_dependents f of None \<Rightarrow> ok () | Some d \<Rightarrow> d org i)"

definition conn_Delete :: "'s conn_facade \<Rightarrow> OrgID \<Rightarrow> ConnectionID \<Rightarrow> ('s, unit) act" where
  "conn_Delete f org i =
     attempt (conn_repo_FindByID f org i) (\<lambda>connection.
     case connection of
       None \<Rightarrow> fail conn_ErrNotFound
     | Some _ \<Rightarrow>
         attempt (conn_repo_Delete f org i) (\<lambda>_.
         notifyDependentsOfDeletion f org i))"

definition conn_Reconnect :: "'s conn_facade \<Rightarrow> OrgID \<Rightarrow> ConnectionID \<Rightarrow> string \<Rightarrow> ('s, InitiatedConnection) act" where
  "conn_Reconnect f org i redirectURI =
     attempt (conn_orgs_Get f org) (\<lambda>orgEntity.
     if \<not> AllowsRedirectURI orgEntity redirectURI then fail ErrRedirectURINotAllowed
     else
     attempt (conn_repo_FindByID f org i) (\<lambda>connection.
     case connection of
       None \<Rightarrow> fail conn_ErrNotFound
     | Some c \<Rightarrow>
         if \<not> Conn_CanReconnect c then fail (ErrReconnectNotAllowed (Conn_Status c))
         else
         call (conn_newToken f) (\<lambda>token.
         call (conn_now f) (\<lambda>now.
         let prepared = Conn_PrepareReconnect c token redirectURI (now + ConnectLinkTTL) in
         attempt (conn_repo_Update f prepared) (\<lambda>_.
         ok \<lparr>IC_Connection = prepared, IC_RedirectURL = buildConnectURL (conn_baseURL f) (Conn_ConnectToken prepared)\<rparr>)))))"

end
