(* ===== verification/ConnOAuth.thy ===== *)
theory ConnOAuth
  imports Connections
begin

text \<open>
  \<open>internal/connections/oauth.go\<close>: the connect page, the parameters form, the OAuth state, the callback and
  the token exchange.
\<close>

section \<open>States (oauth.go)\<close>

definition OAuthStateTTL :: duration where
  "OAuthStateTTL = 10 * minute"

definition OS_IsConsumed :: "OAuthState \<Rightarrow> bool" where
  "OS_IsConsumed s \<longleftrightarrow> OS_ConsumedAt s \<noteq> None"

definition OS_IsExpired :: "OAuthState \<Rightarrow> time \<Rightarrow> bool" where
  "OS_IsExpired s now \<longleftrightarrow> now > OS_ExpiresAt s"

record ConnectPageView =
  CP_ProviderName :: string
  CP_ProviderLogo :: string
  CP_AuthorizeURL :: string
  CP_ParamsRequired :: bool
  CP_ParamFields :: "ExpectedParam list"

definition validateConnectToken :: "'s conn_facade \<Rightarrow> string \<Rightarrow> ('s, Connection) act" where
  "validateConnectToken f token =
     attempt (conn_oauth_FindByConnectToken f token) (\<lambda>connection.
     case connection of
       None \<Rightarrow> fail ErrConnectLinkInvalid
     | Some c \<Rightarrow>
         if Conn_ConnectTokenUsed c then fail ErrConnectLinkAlreadyCompleted
         else call (conn_now f) (\<lambda>now.
              if now > Conn_ConnectTokenExpiresAt c then fail ErrConnectLinkExpired else ok c))"

section \<open>Parameters\<close>

definition needsParamsForm :: "ProviderDefinition \<Rightarrow> Connection \<Rightarrow> bool" where
  "needsParamsForm defn connection \<longleftrightarrow> PD_ExpectedParams defn \<noteq> [] \<and> Conn_EncryptedParams connection = []"

definition paramsFormView :: "ProviderDefinition \<Rightarrow> ConnectPageView" where
  "paramsFormView defn =
     \<lparr>CP_ProviderName = PD_Name defn, CP_ProviderLogo = PD_Logo defn, CP_AuthorizeURL = [],
      CP_ParamsRequired = True, CP_ParamFields = PD_ExpectedParams defn\<rparr>"

definition missingRequiredParams :: "ExpectedParam list \<Rightarrow> string_map \<Rightarrow> string list" where
  "missingRequiredParams fs vals =
     map XP_Name (filter (\<lambda>field. XP_Required field
       \<and> TrimSpace (case map_of vals (XP_Name field) of None \<Rightarrow> [] | Some v \<Rightarrow> v) = []) fs)"

definition filteredParams :: "ExpectedParam list \<Rightarrow> string_map \<Rightarrow> string_map" where
  "filteredParams fs vals =
     foldl (\<lambda>filtered field. case map_of vals (XP_Name field) of
              Some v \<Rightarrow> map_put (XP_Name field) v filtered | None \<Rightarrow> filtered) [] fs"

definition encryptParams :: "'s conn_facade \<Rightarrow> ExpectedParam list \<Rightarrow> string_map \<Rightarrow> ('s, string) act" where
  "encryptParams f fs vals =
     (let filtered = filteredParams fs vals in
      if filtered = [] then ok []
      else vault_Encrypt (conn_crypto f) (conn_readFull f) (marshal_any (string_map_any filtered)))"

text \<open>\<open>json.Unmarshal\<close> into a \<open>map[string]string\<close>: a null member is the empty string.\<close>

fun decode_string_map :: "json \<Rightarrow> string_map option" where
  "decode_string_map JNull = Some []"
| "decode_string_map (JObj kvs) =
     map_option (\<lambda>vs. as_map (zip (map fst kvs) vs))
       (those (map (\<lambda>kv. case snd kv of JStr s \<Rightarrow> Some s | JNull \<Rightarrow> Some [] | _ \<Rightarrow> None) kvs))"
| "decode_string_map _ = None"

definition Unmarshal_string_map :: "string \<Rightarrow> string_map option" where
  "Unmarshal_string_map body = (case json_parse body of None \<Rightarrow> None | Some v \<Rightarrow> decode_string_map v)"

definition decryptParams :: "'s conn_facade \<Rightarrow> string \<Rightarrow> go_error + string_map" where
  "decryptParams f encryptedParams =
     (if encryptedParams = [] then Inr []
      else (case vault_Decrypt (conn_crypto f) encryptedParams of
              Inl e \<Rightarrow> Inl e
            | Inr plaintext \<Rightarrow>
                (case Unmarshal_string_map plaintext of
                   None \<Rightarrow> Inl (OtherError ''json'')
                 | Some vals \<Rightarrow> Inr vals)))"

text \<open>\<open>paramTemplatePattern\<close> at the start of a text: the name of the token and what follows it.\<close>

definition paramTemplatePattern :: "string \<Rightarrow> (string \<times> string) option" where
  "paramTemplatePattern s = (if HasPrefix s ''{params.'' then token_name (drop 8 s) else None)"

definition renderParamsTemplate :: "string \<Rightarrow> string_map \<Rightarrow> string" where
  "renderParamsTemplate template params =
     rendered (\<lambda>name. case map_of params name of Some v \<Rightarrow> v | None \<Rightarrow> ''{params.'' @ name @ ''}'')
       (pieces paramTemplatePattern template)"

section \<open>The connect page\<close>

definition buildCallbackURL :: "string \<Rightarrow> string" where
  "buildCallbackURL baseURL = TrimRightChar baseURL (CHR ''/'') @ ''/connect/oauth/callback''"

definition buildAuthorizeURL :: "ProviderDefinition \<Rightarrow> string \<Rightarrow> string \<Rightarrow> string \<Rightarrow> string_map \<Rightarrow> string" where
  "buildAuthorizeURL defn clientID baseURL state params =
     (let query = Values_Set ''state'' state
            (Values_Set ''scope'' (Join (PD_Scopes defn) '' '')
            (Values_Set ''redirect_uri'' (buildCallbackURL baseURL)
            (Values_Set ''response_type'' ''code''
            (Values_Set ''client_id'' clientID []))))
      in renderParamsTemplate (PD_AuthorizeURL defn) params @ ''?'' @ Values_Encode query)"

definition buildConsumerRedirectURL :: "string \<Rightarrow> ConnectionID \<Rightarrow> string \<Rightarrow> string" where
  "buildConsumerRedirectURL redirectURI connectionID status =
     (case url_Parse_full redirectURI of
        None \<Rightarrow> redirectURI
      | Some parsed \<Rightarrow>
          (let query = Values_Set ''status'' status
                 (Values_Set ''connectionId'' connectionID (ParseQuery (url_RawQuery parsed)))
           in url_String (parsed\<lparr>url_RawQuery := Values_Encode query\<rparr>)))"

definition buildForwardingView :: "'s conn_facade \<Rightarrow> Connection \<Rightarrow> ProviderDefinition \<Rightarrow> ('s, ConnectPageView) act" where
  "buildForwardingView f connection defn =
     attempt (conn_GetIntegration f (Conn_IntegrationID connection)) (\<lambda>integration.
     attempt (lift (decryptParams f (Conn_EncryptedParams connection))) (\<lambda>params.
     call (conn_newState f) (\<lambda>state.
     call (conn_now f) (\<lambda>now.
     attempt (conn_oauth_SaveState f \<lparr>OS_State = state, OS_ConnectionID = Conn_ID connection,
         OS_ExpiresAt = now + OAuthStateTTL, OS_ConsumedAt = None\<rparr>) (\<lambda>_.
     ok \<lparr>CP_ProviderName = PD_Name defn, CP_ProviderLogo = PD_Logo defn,
         CP_AuthorizeURL = buildAuthorizeURL defn (IG_ClientID integration) (conn_baseURL f) state params,
         CP_ParamsRequired = False, CP_ParamFields = []\<rparr>)))))"

definition OpenConnectPage :: "'s conn_facade \<Rightarrow> string \<Rightarrow> ('s, ConnectPageView) act" where
  "OpenConnectPage f token =
     attempt (validateConnectToken f token) (\<lambda>connection.
     attempt (conn_GetProviderDefinition f (Conn_ProviderSlug connection)) (\<lambda>defn.
     if needsParamsForm defn connection then ok (paramsFormView defn)
     else buildForwardingView f connection defn))"

text \<open>With missing parameters the code returns the form next to the error; the model keeps the error.\<close>

definition SubmitParams :: "'s conn_facade \<Rightarrow> string \<Rightarrow> string_map \<Rightarrow> ('s, ConnectPageView) act" where
  "SubmitParams f token vals =
     attempt (validateConnectToken f token) (\<lambda>connection.
     attempt (conn_GetProviderDefinition f (Conn_ProviderSlug connection)) (\<lambda>defn.
     let missing = missingRequiredParams (PD_ExpectedParams defn) vals in
     if missing \<noteq> [] then fail (ErrMissingRequiredParams missing)
     else
     attempt (encryptParams f (PD_ExpectedParams defn) vals) (\<lambda>encryptedParams.
     let updated = Conn_WithParams connection encryptedParams in
     attempt (conn_repo_Update f updated) (\<lambda>_.
     buildForwardingView f updated defn))))"

section \<open>Recording an exchange\<close>

definition tokenExchangeRequestLogBody :: "TokenExchangeRequest \<Rightarrow> string" where
  "tokenExchangeRequestLogBody request =
     marshal_any (string_map_any
       [(''client_id'', TXR_ClientID request), (''client_secret'', TXR_ClientSecret request),
        (''code'', TXR_Code request), (''grant_type'', ''authorization_code''),
        (''redirect_uri'', TXR_RedirectURI request)])"

definition tokenExchangeResponseLogBody :: "TokenExchangeResult \<Rightarrow> string" where
  "tokenExchangeResponseLogBody toks =
     marshal_any (string_map_any [(''access_token'', TX_AccessToken toks), (''refresh_token'', TX_RefreshToken toks)])"

definition recordExchangeMetric :: "'s conn_facade \<Rightarrow> string \<Rightarrow> bool \<Rightarrow> bool \<Rightarrow> 's \<Rightarrow> 's" where
  "recordExchangeMetric f providerSlug isRefresh success s =
     (case conn_metrics f of
        None \<Rightarrow> s
      | Some m \<Rightarrow> if isRefresh then cm_RecordTokenRefresh m providerSlug success s
                  else cm_RecordOAuthHandshake m providerSlug success s)"

definition recordExchange ::
  "'s conn_facade \<Rightarrow> Connection \<Rightarrow> time \<Rightarrow> string \<Rightarrow> oauth_error + TokenExchangeResult \<Rightarrow> bool \<Rightarrow> 's \<Rightarrow> 's" where
  "recordExchange f connection started requestBody result isRefresh s0 =
     (let s = recordExchangeMetric f (Conn_ProviderSlug connection) isRefresh (\<not> isl result) s0 in
      case conn_recorder f of
        None \<Rightarrow> s
      | Some recorder \<Rightarrow>
          (let (status, responseBody) = (case result of
                  Inl exchangeErr \<Rightarrow> (502, oauth_error_text exchangeErr)
                | Inr toks \<Rightarrow> (200, tokenExchangeResponseLogBody toks))
           in case conn_now f s of
                (ended, s') \<Rightarrow>
                  snd (recorder \<lparr>CL_OrgID = Conn_OrgID connection, CL_UserID = Conn_UserID connection,
                        CL_ConnectionID = Conn_ID connection, CL_Status = status,
                        CL_DurationMs = Milliseconds (Sub_sat ended started), CL_RequestBody = requestBody,
                        CL_ResponseBody = responseBody\<rparr> s')))"

section \<open>The callback\<close>

definition defaultTokenTTL :: duration where
  "defaultTokenTTL = hour"

definition tokenExpiryFrom :: "time \<Rightarrow> int \<Rightarrow> time" where
  "tokenExpiryFrom now expiresInSeconds =
     now + (if expiresInSeconds > 0 then dur_mul expiresInSeconds second else defaultTokenTTL)"

definition exchangeTokensAndFetchAccount ::
  "'s conn_facade \<Rightarrow> TokenExchangeRequest \<Rightarrow> ProviderDefinition \<Rightarrow> 's
     \<Rightarrow> (oauth_error + TokenExchangeResult \<times> AccountInfo) \<times> 's" where
  "exchangeTokensAndFetchAccount f request defn s =
     (case conn_ExchangeCode f request s of
        (Inl err, s1) \<Rightarrow> (Inl err, s1)
      | (Inr toks, s1) \<Rightarrow>
          if PD_UserInfoURL defn = [] then (Inr (toks, \<lparr>AI_Email = [], AI_DisplayName = []\<rparr>), s1)
          else (case conn_FetchAccount f \<lparr>AFR_UserInfoURL = PD_UserInfoURL defn, AFR_AccessToken = TX_AccessToken toks,
                    AFR_EmailField = UI_EmailField (PD_UserInfo defn),
                    AFR_DisplayNameField = UI_DisplayNameField (PD_UserInfo defn)\<rparr> s1 of
                  (Inl err, s2) \<Rightarrow> (Inl err, s2)
                | (Inr account, s2) \<Rightarrow> (Inr (toks, account), s2)))"

definition exchangeAndActivate :: "'s conn_facade \<Rightarrow> Connection \<Rightarrow> string \<Rightarrow> ('s, Connection) act" where
  "exchangeAndActivate f connection code =
     attempt (conn_GetIntegration f (Conn_IntegrationID connection)) (\<lambda>integration.
     attempt (conn_GetProviderDefinition f (Conn_ProviderSlug connection)) (\<lambda>defn.
     attempt (lift (decryptParams f (Conn_EncryptedParams connection))) (\<lambda>params.
     let request = \<lparr>TXR_TokenURL = renderParamsTemplate (PD_TokenURL defn) params,
           TXR_ClientID = IG_ClientID integration, TXR_ClientSecret = IG_ClientSecret integration, TXR_Code = code,
           TXR_RedirectURI = buildCallbackURL (conn_baseURL f), TXR_CredentialStyle = PD_CredentialStyle defn\<rparr> in
     call (conn_now f) (\<lambda>started.
     call (exchangeTokensAndFetchAccount f request defn) (\<lambda>result.
     call (\<lambda>s. ((), recordExchange f connection started (tokenExchangeRequestLogBody request) (map_sum id fst result) False s)) (\<lambda>_.
     case result of
       Inl _ \<Rightarrow> fail ErrTokenExchangeFailed
     | Inr (toks, account) \<Rightarrow>
         attempt (vault_Encrypt (conn_crypto f) (conn_readFull f) (TX_AccessToken toks)) (\<lambda>encryptedAccessToken.
         attempt (vault_Encrypt (conn_crypto f) (conn_readFull f) (TX_RefreshToken toks)) (\<lambda>encryptedRefreshToken.
         call (conn_now f) (\<lambda>now.
         ok (Conn_Activate connection encryptedAccessToken encryptedRefreshToken (AI_Email account)
              (AI_DisplayName account) (tokenExpiryFrom now (TX_ExpiresIn toks))))))))))))"

definition consumeState :: "'s conn_facade \<Rightarrow> string \<Rightarrow> ('s, Connection) act" where
  "consumeState f state =
     (if state = [] then fail ErrStateMissing
      else
      attempt (conn_oauth_FindState f state) (\<lambda>oauthState.
      case oauthState of
        None \<Rightarrow> fail ErrStateUnknown
      | Some st \<Rightarrow>
          if OS_IsConsumed st then fail ErrStateAlreadyUsed
          else call (conn_now f) (\<lambda>now.
          if OS_IsExpired st now then fail ErrStateExpired
          else call (conn_now f) (\<lambda>now'.
          attempt (conn_oauth_MarkStateConsumed f state now') (\<lambda>_.
          attempt (conn_oauth_FindConnectionForCallback f (OS_ConnectionID st)) (\<lambda>connection.
          case connection of None \<Rightarrow> fail ErrStateUnknown | Some c \<Rightarrow> ok c))))))"

definition HandleCallback :: "'s conn_facade \<Rightarrow> string \<Rightarrow> string \<Rightarrow> string \<Rightarrow> ('s, string) act" where
  "HandleCallback f code state providerError =
     attempt (consumeState f state) (\<lambda>connection.
     if providerError \<noteq> []
     then ok (buildConsumerRedirectURL (Conn_RedirectURI connection) (Conn_ID connection) ''error'')
     else
     attempt (exchangeAndActivate f connection code) (\<lambda>activated.
     attempt (conn_repo_Update f activated) (\<lambda>_.
     ok (buildConsumerRedirectURL (Conn_RedirectURI activated) (Conn_ID activated) ''success''))))"

end
