(* ===== verification/ConnRefresh.thy ===== *)
theory ConnRefresh
  imports ConnOAuth
begin

text \<open>
  Keeping a connection's tokens fresh: the refresh grant (\<open>refresh.go\<close>), the decision under the connection's
  lock (\<open>refreshlock.go\<close>), the scheduler (\<open>scheduler.go\<close>), reconciliation (\<open>reconcile.go\<close>), the expiry
  event (\<open>expired_event.go\<close>) and what a tool execution gets (\<open>execution_access.go\<close>). The lock itself is the
  subject of \<open>RefreshLock\<close>; here every operation runs alone.
\<close>

section \<open>Expiry (expired_event.go)\<close>

definition conn_EventTypeConnectionExpired :: string where
  "conn_EventTypeConnectionExpired = ''connection.expired''"

definition ExpiredReasonRefreshDenied :: string where
  "ExpiredReasonRefreshDenied = ''refresh_denied''"

definition ExpiredReasonReconciliationFailed :: string where
  "ExpiredReasonReconciliationFailed = ''reconciliation_failed''"

definition emitExpired :: "'s conn_facade \<Rightarrow> Connection \<Rightarrow> string \<Rightarrow> ('s, unit) act" where
  "emitExpired f connection reason =
     (case conn_events f of
        None \<Rightarrow> ok ()
      | Some events \<Rightarrow>
          events (Conn_OrgID connection)
            \<lparr>XD_ConnectionID = Conn_ID connection, XD_UserID = Conn_UserID connection,
             XD_IntegrationID = Conn_IntegrationID connection, XD_ProviderSlug = Conn_ProviderSlug connection,
             XD_Reason = reason\<rparr>)"

definition expireConnection :: "'s conn_facade \<Rightarrow> Connection \<Rightarrow> string \<Rightarrow> ('s, Connection) act" where
  "expireConnection f connection reason =
     (let expired = Conn_MarkExpired connection in
      attempt (conn_repo_TransitionStatus f (Conn_OrgID connection) (Conn_ID connection) StatusActive StatusExpired) (\<lambda>flipped.
      if \<not> flipped then ok expired
      else attempt (emitExpired f expired reason) (\<lambda>_. ok expired)))"

section \<open>The refresh grant (refresh.go)\<close>

definition Conn_needsRefresh :: "Connection \<Rightarrow> time \<Rightarrow> bool" where
  "Conn_needsRefresh c now \<longleftrightarrow> (case Conn_TokenExpiresAt c of None \<Rightarrow> True | Some t \<Rightarrow> now > t)"

definition Conn_needsProactiveRefresh :: "Connection \<Rightarrow> time \<Rightarrow> duration \<Rightarrow> bool" where
  "Conn_needsProactiveRefresh c now lead \<longleftrightarrow>
     (case Conn_TokenExpiresAt c of None \<Rightarrow> True | Some t \<Rightarrow> \<not> t > now + lead)"

definition refreshGrantRequestLogBody :: "RefreshGrantRequest \<Rightarrow> string" where
  "refreshGrantRequestLogBody request =
     marshal_any (string_map_any
       [(''client_id'', RGR_ClientID request), (''client_secret'', RGR_ClientSecret request),
        (''grant_type'', ''refresh_token''), (''refresh_token'', RGR_RefreshToken request)])"

definition handleRefreshFailure :: "'s conn_facade \<Rightarrow> Connection \<Rightarrow> oauth_error \<Rightarrow> string \<Rightarrow> ('s, Connection) act" where
  "handleRefreshFailure f connection refreshErr deniedReason =
     (case refreshErr of
        RefreshDenied _ \<Rightarrow> expireConnection f connection deniedReason
      | _ \<Rightarrow> fail (oauth_go_error refreshErr))"

definition persistConnection :: "'s conn_facade \<Rightarrow> Connection \<Rightarrow> ('s, Connection) act" where
  "persistConnection f connection = attempt (conn_repo_Update f connection) (\<lambda>_. ok connection)"

definition refreshConnection :: "'s conn_facade \<Rightarrow> Connection \<Rightarrow> string \<Rightarrow> ('s, Connection) act" where
  "refreshConnection f connection deniedReason =
     attempt (conn_GetIntegration f (Conn_IntegrationID connection)) (\<lambda>integration.
     attempt (conn_GetProviderDefinition f (Conn_ProviderSlug connection)) (\<lambda>defn.
     attempt (lift (vault_Decrypt (conn_crypto f) (Conn_EncryptedRefreshToken connection))) (\<lambda>refreshToken.
     let request = \<lparr>RGR_TokenURL = PD_TokenURL defn, RGR_ClientID = IG_ClientID integration,
           RGR_ClientSecret = IG_ClientSecret integration, RGR_RefreshToken = refreshToken,
           RGR_CredentialStyle = PD_CredentialStyle defn\<rparr> in
     call (conn_now f) (\<lambda>started.
     call (conn_RefreshGrant f request) (\<lambda>result.
     call (\<lambda>s. ((), recordExchange f connection started (refreshGrantRequestLogBody request) result True s)) (\<lambda>_.
     case result of
       Inl refreshErr \<Rightarrow> handleRefreshFailure f connection refreshErr deniedReason
     | Inr toks \<Rightarrow>
         attempt (vault_Encrypt (conn_crypto f) (conn_readFull f) (TX_AccessToken toks)) (\<lambda>encryptedAccessToken.
         attempt (if TX_RefreshToken toks \<noteq> []
                  then vault_Encrypt (conn_crypto f) (conn_readFull f) (TX_RefreshToken toks)
                  else ok (Conn_EncryptedRefreshToken connection)) (\<lambda>encryptedRefreshToken.
         call (conn_now f) (\<lambda>now.
         persistConnection f (Conn_RefreshTokens connection encryptedAccessToken encryptedRefreshToken
           (tokenExpiryFrom now (TX_ExpiresIn toks)))))))))))) "

section \<open>The decision under the lock (refreshlock.go)\<close>

record refreshParams =
  rp_force :: bool
  rp_lead :: duration
  rp_deniedReason :: string

definition dueForRefresh :: "Connection \<Rightarrow> time \<Rightarrow> duration \<Rightarrow> bool" where
  "dueForRefresh connection now lead =
     (if lead \<le> 0 then Conn_needsRefresh connection now else Conn_needsProactiveRefresh connection now lead)"

definition refreshOnce :: "'s conn_facade \<Rightarrow> OrgID \<Rightarrow> ConnectionID \<Rightarrow> refreshParams \<Rightarrow> ('s, Connection) act" where
  "refreshOnce f org i params =
     attempt (conn_repo_FindByID f org i) (\<lambda>current.
     case current of
       None \<Rightarrow> fail conn_ErrNotFound
     | Some c \<Rightarrow>
         if Conn_Status c \<noteq> StatusActive then ok c
         else if rp_force params then refreshConnection f c (rp_deniedReason params)
         else call (conn_now f) (\<lambda>now.
              if \<not> dueForRefresh c now (rp_lead params) then ok c
              else refreshConnection f c (rp_deniedReason params)))"

section \<open>The scheduler (scheduler.go)\<close>

definition refreshClaimBatchLimit :: int where
  "refreshClaimBatchLimit = 50"

definition refreshLeaseTTL :: duration where
  "refreshLeaseTTL = 30 * second"

definition scheduledRefreshOutcomeLabel :: "go_error + Connection \<Rightarrow> string" where
  "scheduledRefreshOutcomeLabel r =
     (case r of
        Inl _ \<Rightarrow> ''error''
      | Inr connection \<Rightarrow> if Conn_Status connection = StatusExpired then ''expired'' else ''refreshed'')"

definition recordScheduledRefreshOutcome :: "'s conn_facade \<Rightarrow> go_error + Connection \<Rightarrow> 's \<Rightarrow> 's" where
  "recordScheduledRefreshOutcome f r s =
     (case conn_metrics f of
        None \<Rightarrow> s
      | Some m \<Rightarrow> cm_RecordScheduledRefreshOutcome m (scheduledRefreshOutcomeLabel r) s)"

definition refreshDueOne :: "'s conn_facade \<Rightarrow> Connection \<Rightarrow> ('s, unit) act" where
  "refreshDueOne f connection =
     catching (refreshOnce f (Conn_OrgID connection) (Conn_ID connection)
         \<lparr>rp_force = False, rp_lead = conn_refreshLead f, rp_deniedReason = ExpiredReasonRefreshDenied\<rparr>) (\<lambda>r.
     (\<lambda>s. (Inr (), recordScheduledRefreshOutcome f r s)))"

definition RefreshDueOnce :: "'s conn_facade \<Rightarrow> ('s, unit) act" where
  "RefreshDueOnce f =
     call (conn_now f) (\<lambda>now.
     attempt (conn_ClaimDueRefresh f now (conn_refreshLead f) refreshLeaseTTL refreshClaimBatchLimit) (\<lambda>due.
     for_each (refreshDueOne f) due))"

section \<open>Reconciliation (reconcile.go)\<close>

definition reconcileClaimBatchLimit :: int where
  "reconcileClaimBatchLimit = 50"

definition reconcileLeaseTTL :: duration where
  "reconcileLeaseTTL = 2 * minute"

definition reconcileSpacingMax :: duration where
  "reconcileSpacingMax = 500 * millisecond"

definition markReconciled :: "'s conn_facade \<Rightarrow> Connection \<Rightarrow> ('s, unit) act" where
  "markReconciled f connection = call (conn_now f) (\<lambda>now. conn_repo_Update f (Conn_MarkReconciled connection now))"

definition reconcileRevocation :: "'s conn_facade \<Rightarrow> Connection \<Rightarrow> ('s, unit) act" where
  "reconcileRevocation f connection =
     catching (refreshOnce f (Conn_OrgID connection) (Conn_ID connection)
         \<lparr>rp_force = True, rp_lead = 0, rp_deniedReason = ExpiredReasonReconciliationFailed\<rparr>) (\<lambda>r.
     case r of
       Inl _ \<Rightarrow> ok ()
     | Inr refreshed \<Rightarrow>
         if Conn_Status refreshed = StatusExpired then ok ()
         else discard (markReconciled f refreshed) (ok ()))"

definition reconcileOne :: "'s conn_facade \<Rightarrow> Connection \<Rightarrow> ('s, unit) act" where
  "reconcileOne f connection =
     catching (conn_GetProviderDefinition f (Conn_ProviderSlug connection)) (\<lambda>d.
     case d of
       Inl _ \<Rightarrow> ok ()
     | Inr defn \<Rightarrow>
         if PD_UserInfoURL defn = [] then ok ()
         else (case vault_Decrypt (conn_crypto f) (Conn_EncryptedAccessToken connection) of
                 Inl _ \<Rightarrow> ok ()
               | Inr accessToken \<Rightarrow>
                   call (conn_FetchUserInfo f (PD_UserInfoURL defn) accessToken) (\<lambda>probe.
                   case probe of
                     Inr _ \<Rightarrow> discard (markReconciled f connection) (ok ())
                   | Inl probeErr \<Rightarrow>
                       if probeErr = ErrProbeUnauthorized then reconcileRevocation f connection else ok ())))"

definition reconcileSpacing :: "'s conn_facade \<Rightarrow> 's \<Rightarrow> duration \<times> 's" where
  "reconcileSpacing f s = (case conn_jitter f s of (j, s') \<Rightarrow> (\<lfloor>j * of_int reconcileSpacingMax\<rfloor>, s'))"

fun reconcile_rest :: "'s conn_facade \<Rightarrow> Connection list \<Rightarrow> ('s, unit) act" where
  "reconcile_rest f [] = ok ()"
| "reconcile_rest f (connection # due) =
     call (reconcileSpacing f) (\<lambda>d.
     attempt (conn_sleep f d) (\<lambda>_.
     attempt (reconcileOne f connection) (\<lambda>_.
     reconcile_rest f due)))"

definition ReconcileOnce :: "'s conn_facade \<Rightarrow> ('s, unit) act" where
  "ReconcileOnce f =
     call (conn_now f) (\<lambda>now.
     attempt (conn_ClaimDueReconcile f now (conn_reconcileInterval f) reconcileLeaseTTL reconcileClaimBatchLimit) (\<lambda>due.
     case due of
       [] \<Rightarrow> ok ()
     | connection # rest \<Rightarrow>
         attempt (reconcileOne f connection) (\<lambda>_. reconcile_rest f rest)))"

section \<open>Access for executions (execution_access.go)\<close>

definition findExecutionConnection :: "'s conn_facade \<Rightarrow> OrgID \<Rightarrow> UserID \<Rightarrow> ConnectionID \<Rightarrow> ('s, Connection) act" where
  "findExecutionConnection f org userID i =
     attempt (conn_repo_FindByID f org i) (\<lambda>connection.
     case connection of
       None \<Rightarrow> fail conn_ErrNotFound
     | Some c \<Rightarrow> if Conn_UserID c \<noteq> userID then fail conn_ErrNotFound else ok c)"

definition toExecutionAccess :: "'s conn_facade \<Rightarrow> Connection \<Rightarrow> go_error + ExecutionAccess" where
  "toExecutionAccess f connection =
     (if Conn_Status connection \<noteq> StatusActive
      then Inr \<lparr>EA_Status = Conn_Status connection, EA_AccessToken = [], EA_Params = []\<rparr>
      else (case vault_Decrypt (conn_crypto f) (Conn_EncryptedAccessToken connection) of
              Inl e \<Rightarrow> Inl e
            | Inr accessToken \<Rightarrow>
                (case decryptParams f (Conn_EncryptedParams connection) of
                   Inl e \<Rightarrow> Inl e
                 | Inr params \<Rightarrow>
                     Inr \<lparr>EA_Status = Conn_Status connection, EA_AccessToken = accessToken, EA_Params = params\<rparr>)))"

definition conn_ResolveForExecution :: "'s conn_facade \<Rightarrow> OrgID \<Rightarrow> UserID \<Rightarrow> ConnectionID \<Rightarrow> ('s, ExecutionAccess) act" where
  "conn_ResolveForExecution f org userID i =
     attempt (findExecutionConnection f org userID i) (\<lambda>connection.
     if Conn_Status connection = StatusActive
     then call (conn_now f) (\<lambda>now.
          if Conn_needsRefresh connection now
          then attempt (refreshOnce f org i \<lparr>rp_force = False, rp_lead = 0, rp_deniedReason = ExpiredReasonRefreshDenied\<rparr>)
                 (\<lambda>refreshed. lift (toExecutionAccess f refreshed))
          else lift (toExecutionAccess f connection))
     else lift (toExecutionAccess f connection))"

definition conn_RefreshForExecution :: "'s conn_facade \<Rightarrow> OrgID \<Rightarrow> UserID \<Rightarrow> ConnectionID \<Rightarrow> ('s, ExecutionAccess) act" where
  "conn_RefreshForExecution f org userID i =
     attempt (findExecutionConnection f org userID i) (\<lambda>connection.
     if Conn_Status connection \<noteq> StatusActive then lift (toExecutionAccess f connection)
     else attempt (refreshOnce f org i \<lparr>rp_force = True, rp_lead = 0, rp_deniedReason = ExpiredReasonRefreshDenied\<rparr>)
            (\<lambda>refreshed. lift (toExecutionAccess f refreshed)))"

end
