(* ===== verification/Logging.thy ===== *)
theory Logging
  imports GoAny Httpx OrgFacade
begin

text \<open>
  \<open>internal/logging\<close>: the redaction of log bodies (\<open>redact.go\<close>), log entries (\<open>types.go\<close>), the facade
  (\<open>facade.go\<close>) and its in-memory repository (\<open>driven/memory\<close>).
\<close>

section \<open>Redaction (redact.go)\<close>

type_synonym Kind = string

definition KindToolExecution :: Kind where
  "KindToolExecution = ''tool_execution''"

definition KindOAuthTokenExchange :: Kind where
  "KindOAuthTokenExchange = ''oauth_token_exchange''"

definition KindWebhookDelivery :: Kind where
  "KindWebhookDelivery = ''webhook_delivery''"

definition KindTriggerPoll :: Kind where
  "KindTriggerPoll = ''trigger_poll''"

definition RedactedPlaceholder :: string where
  "RedactedPlaceholder = ''[REDACTED]''"

definition sensitiveKeys :: "string list" where
  "sensitiveKeys = [''authorization'', ''access_token'', ''accesstoken'', ''refresh_token'', ''refreshtoken'',
     ''client_secret'', ''clientsecret'']"

definition codeRedactedKinds :: "Kind list" where
  "codeRedactedKinds = [KindOAuthTokenExchange]"

text \<open>
  \<open>strings.ToLower\<close> as far as it can give an ASCII text: the ASCII letters and the two other runes whose
  lower case is one, U+0130 and the Kelvin sign U+212A; the lower case of any other rune is not ASCII.
\<close>

fun ToLower_key :: "string \<Rightarrow> string" where
  "ToLower_key [] = []"
| "ToLower_key (c # s) =
     (if c = CHR 0xC4 \<and> take 1 s = [CHR 0xB0] then CHR ''i'' # ToLower_key (drop 1 s)
      else if c = CHR 0xE2 \<and> take 2 s = [CHR 0x84, CHR 0xAA] then CHR ''k'' # ToLower_key (drop 2 s)
      else (if CHR ''A'' \<le> c \<and> c \<le> CHR ''Z'' then char_of (of_char c + 32 :: nat) else c) # ToLower_key s)"

definition isSensitiveKey :: "string \<Rightarrow> bool \<Rightarrow> bool" where
  "isSensitiveKey key redactCode =
     (let lower = ToLower_key key in
      if lower \<in> set sensitiveKeys then True else redactCode \<and> lower = ''code'')"

fun redactValue :: "any \<Rightarrow> bool \<Rightarrow> any" where
  "redactValue (AMap object) redactCode =
     AMap (map (\<lambda>kv. (fst kv, if isSensitiveKey (fst kv) redactCode then AStr RedactedPlaceholder
                              else redactValue (snd kv) redactCode)) object)"
| "redactValue (ASlice array) redactCode = ASlice (map (\<lambda>v. redactValue v redactCode) array)"
| "redactValue v redactCode = v"

definition Redact :: "Kind \<Rightarrow> string \<Rightarrow> string" where
  "Redact kind body =
     (if body = [] then body
      else (case Unmarshal_any body of
              None \<Rightarrow> body
            | Some parsed \<Rightarrow> marshal_any (redactValue parsed (kind \<in> set codeRedactedKinds))))"

section \<open>Log entries (types.go) and ports (port.go)\<close>

type_synonym LogID = string

record RecordInput =
  RI_OrgID :: OrgID
  RI_UserID :: string
  RI_ConnectionID :: string
  RI_ToolID :: string
  RI_ToolSlug :: string
  RI_Kind :: Kind
  RI_Status :: int
  RI_DurationMs :: int
  RI_RequestBody :: string
  RI_ResponseBody :: string
  RI_RateLimited :: bool
  RI_EventID :: string
  RI_Attempt :: int
  RI_TriggerInstanceID :: string

record EventLog =
  EL_ID :: LogID
  EL_OrgID :: OrgID
  EL_UserID :: string
  EL_ConnectionID :: string
  EL_ToolID :: string
  EL_ToolSlug :: string
  EL_Kind :: Kind
  EL_Status :: int
  EL_DurationMs :: int
  EL_RequestBody :: string
  EL_ResponseBody :: string
  EL_RateLimited :: bool
  EL_EventID :: string
  EL_Attempt :: int
  EL_TriggerInstanceID :: string
  EL_CreatedAt :: time

definition newEventLog :: "LogID \<Rightarrow> RecordInput \<Rightarrow> time \<Rightarrow> EventLog" where
  "newEventLog i inp now =
     \<lparr>EL_ID = i, EL_OrgID = RI_OrgID inp, EL_UserID = RI_UserID inp, EL_ConnectionID = RI_ConnectionID inp,
      EL_ToolID = RI_ToolID inp, EL_ToolSlug = RI_ToolSlug inp, EL_Kind = RI_Kind inp, EL_Status = RI_Status inp,
      EL_DurationMs = RI_DurationMs inp, EL_RequestBody = Redact (RI_Kind inp) (RI_RequestBody inp),
      EL_ResponseBody = Redact (RI_Kind inp) (RI_ResponseBody inp), EL_RateLimited = RI_RateLimited inp,
      EL_EventID = RI_EventID inp, EL_Attempt = RI_Attempt inp, EL_TriggerInstanceID = RI_TriggerInstanceID inp,
      EL_CreatedAt = now\<rparr>"

type_synonym LogCursor = "time \<times> LogID"

record LogFilter =
  LGF_ConnectionID :: string
  LGF_UserID :: string
  LGF_ToolSlug :: string
  LGF_From :: "time option"
  LGF_To :: "time option"
  LGF_Cursor :: "LogCursor option"
  LGF_Limit :: int

record 's LogRetentionReader =
  lrr_ListOrgIDs :: "('s, OrgID list) act"
  lrr_EffectiveLogRetentionDays :: "OrgID \<Rightarrow> ('s, int) act"

section \<open>The facade (facade.go)\<close>

record 's log_facade =
  log_repo_Save :: "EventLog \<Rightarrow> ('s, unit) act"
  log_repo_Query :: "OrgID \<Rightarrow> LogFilter \<Rightarrow> ('s, EventLog list) act"
  log_repo_PurgeOlderThan :: "OrgID \<Rightarrow> time \<Rightarrow> ('s, int) act"
  log_retention :: "'s LogRetentionReader option"
  log_newID :: "'s \<Rightarrow> string \<times> 's"
  log_now :: "'s \<Rightarrow> time \<times> 's"

definition log_defaultPageLimit :: int where
  "log_defaultPageLimit = 50"

definition log_maxPageLimit :: int where
  "log_maxPageLimit = 200"

definition log_ErrInvalidCursor :: go_error where
  "log_ErrInvalidCursor = validation_error ''cursor'' ''malformed pagination cursor''"

definition log_Record :: "'s log_facade \<Rightarrow> RecordInput \<Rightarrow> ('s, unit) act" where
  "log_Record f inp =
     call (log_newID f) (\<lambda>i.
     call (log_now f) (\<lambda>now.
     log_repo_Save f (newEventLog i inp now)))"

record LogQueryParams =
  QP_ConnectionID :: string
  QP_UserID :: string
  QP_ToolSlug :: string
  QP_From :: "time option"
  QP_To :: "time option"
  QP_Cursor :: string
  QP_Limit :: int

record LogQueryResult =
  QR_Entries :: "EventLog list"
  QR_NextCursor :: string

definition log_normalizeLimit :: "int \<Rightarrow> int" where
  "log_normalizeLimit requested =
     (if requested \<le> 0 then log_defaultPageLimit
      else if requested > log_maxPageLimit then log_maxPageLimit
      else requested)"

definition log_encodeCursor :: "time \<Rightarrow> LogID \<Rightarrow> string" where
  "log_encodeCursor createdAt i = EncodeCursor [format_RFC3339Nano createdAt, i]"

definition log_decodeCursor :: "string \<Rightarrow> go_error + LogCursor option" where
  "log_decodeCursor raw =
     (case DecodeCursor raw 2 of
        Inl _ \<Rightarrow> Inl log_ErrInvalidCursor
      | Inr None \<Rightarrow> Inr None
      | Inr (Some parts) \<Rightarrow>
          (case parse_RFC3339Nano (parts ! 0) of
             None \<Rightarrow> Inl log_ErrInvalidCursor
           | Some createdAt \<Rightarrow> Inr (Some (createdAt, parts ! 1))))"

definition log_paginate :: "EventLog list \<Rightarrow> int \<Rightarrow> LogQueryResult" where
  "log_paginate entries limit =
     (let hasMore = int (length entries) > limit;
          shown = (if hasMore then take (nat limit) entries else entries)
      in \<lparr>QR_Entries = shown,
          QR_NextCursor = (if hasMore then log_encodeCursor (EL_CreatedAt (last shown)) (EL_ID (last shown)) else [])\<rparr>)"

definition log_Query :: "'s log_facade \<Rightarrow> OrgID \<Rightarrow> LogQueryParams \<Rightarrow> ('s, LogQueryResult) act" where
  "log_Query f org params =
     attempt (lift (log_decodeCursor (QP_Cursor params))) (\<lambda>cursor.
     let limit = log_normalizeLimit (QP_Limit params) in
     attempt (log_repo_Query f org
       \<lparr>LGF_ConnectionID = QP_ConnectionID params, LGF_UserID = QP_UserID params, LGF_ToolSlug = QP_ToolSlug params,
        LGF_From = QP_From params, LGF_To = QP_To params, LGF_Cursor = cursor, LGF_Limit = limit + 1\<rparr>) (\<lambda>entries.
     ok (log_paginate entries limit)))"

definition log_purge_org :: "'s log_facade \<Rightarrow> 's LogRetentionReader \<Rightarrow> time \<Rightarrow> OrgID \<Rightarrow> ('s, unit) act" where
  "log_purge_org f retention now org =
     attempt (lrr_EffectiveLogRetentionDays retention org) (\<lambda>days.
     if days \<le> 0 then ok ()
     else attempt (log_repo_PurgeOlderThan f org (now - days * day)) (\<lambda>_. ok ()))"

definition log_PurgeOnce :: "'s log_facade \<Rightarrow> ('s, unit) act" where
  "log_PurgeOnce f =
     (case log_retention f of
        None \<Rightarrow> ok ()
      | Some retention \<Rightarrow>
          attempt (lrr_ListOrgIDs retention) (\<lambda>orgs.
          call (log_now f) (\<lambda>now. for_each (log_purge_org f retention now) orgs)))"

section \<open>The in-memory repository (driven/memory/repository.go)\<close>

type_synonym log_store = "EventLog list"

definition log_mem_Save :: "EventLog \<Rightarrow> (log_store, unit) act" where
  "log_mem_Save entry r = (Inr (), r @ [entry])"

definition log_isAfterCursor :: "EventLog \<Rightarrow> LogCursor \<Rightarrow> bool" where
  "log_isAfterCursor entry cursor =
     (if EL_CreatedAt entry < fst cursor then True
      else if EL_CreatedAt entry = fst cursor then EL_ID entry < snd cursor
      else False)"

definition log_matchesFilter :: "EventLog \<Rightarrow> OrgID \<Rightarrow> LogFilter \<Rightarrow> bool" where
  "log_matchesFilter entry org flt =
     (if EL_OrgID entry \<noteq> org then False
      else if LGF_ConnectionID flt \<noteq> [] \<and> EL_ConnectionID entry \<noteq> LGF_ConnectionID flt then False
      else if LGF_UserID flt \<noteq> [] \<and> EL_UserID entry \<noteq> LGF_UserID flt then False
      else if LGF_ToolSlug flt \<noteq> [] \<and> EL_ToolSlug entry \<noteq> LGF_ToolSlug flt then False
      else if (case LGF_From flt of None \<Rightarrow> False | Some t \<Rightarrow> EL_CreatedAt entry < t) then False
      else if (case LGF_To flt of None \<Rightarrow> False | Some t \<Rightarrow> EL_CreatedAt entry > t) then False
      else (case LGF_Cursor flt of None \<Rightarrow> True | Some cursor \<Rightarrow> log_isAfterCursor entry cursor))"

definition log_key :: "EventLog \<Rightarrow> time_id" where
  "log_key e = (EL_CreatedAt e, EL_ID e)"

definition log_sortNewestFirst :: "EventLog list \<Rightarrow> EventLog list" where
  "log_sortNewestFirst entries = newest_first log_key entries"

definition log_mem_Query :: "OrgID \<Rightarrow> LogFilter \<Rightarrow> (log_store, EventLog list) act" where
  "log_mem_Query org flt r =
     (let ms = log_sortNewestFirst (filter (\<lambda>e. log_matchesFilter e org flt) r)
      in (Inr (if LGF_Limit flt > 0 \<and> int (length ms) > LGF_Limit flt then take (nat (LGF_Limit flt)) ms else ms), r))"

fun log_purge_scan :: "OrgID \<Rightarrow> time \<Rightarrow> EventLog list \<Rightarrow> EventLog list \<times> int" where
  "log_purge_scan org cutoff [] = ([], 0)"
| "log_purge_scan org cutoff (entry # entries) =
     (case log_purge_scan org cutoff entries of
        (kept, purged) \<Rightarrow>
          if EL_OrgID entry = org \<and> EL_CreatedAt entry < cutoff then (kept, purged + 1)
          else (entry # kept, purged))"

definition log_mem_PurgeOlderThan :: "OrgID \<Rightarrow> time \<Rightarrow> (log_store, int) act" where
  "log_mem_PurgeOlderThan org cutoff r =
     (case log_purge_scan org cutoff r of (kept, purged) \<Rightarrow> (Inr purged, kept))"

record log_world =
  lw_entries :: log_store
  lw_minted :: nat
  lw_now :: time
  lw_retention :: "(OrgID \<times> int) list"

definition log_world_retention :: "log_world LogRetentionReader" where
  "log_world_retention =
     \<lparr>lrr_ListOrgIDs = (\<lambda>w. (Inr (map fst (lw_retention w)), w)),
      lrr_EffectiveLogRetentionDays = (\<lambda>org w.
        (case map_of (lw_retention w) org of
           None \<Rightarrow> (Inl (OtherError ''organization''), w)
         | Some d \<Rightarrow> (Inr d, w)))\<rparr>"

definition log_memory_facade :: "log_world log_facade" where
  "log_memory_facade =
     \<lparr>log_repo_Save = (\<lambda>e. zoom lw_entries lw_entries_update (log_mem_Save e)),
      log_repo_Query = (\<lambda>org flt. zoom lw_entries lw_entries_update (log_mem_Query org flt)),
      log_repo_PurgeOlderThan = (\<lambda>org t. zoom lw_entries lw_entries_update (log_mem_PurgeOlderThan org t)),
      log_retention = Some log_world_retention,
      log_newID = zoom lw_minted lw_minted_update (\<lambda>n. (sequential_id ''log_'' n, Suc n)),
      log_now = (\<lambda>w. (lw_now w, w))\<rparr>"

section \<open>What redaction guarantees\<close>

text \<open>
  \<open>public rc v\<close>: the document with the values under sensitive keys taken out, that is what a log may
  depend on. \<open>clean rc v\<close>: under every sensitive key, at any depth, stands the placeholder.
\<close>

fun public :: "bool \<Rightarrow> any \<Rightarrow> any" where
  "public rc (AMap kvs) = AMap (map (\<lambda>kv. (fst kv, if isSensitiveKey (fst kv) rc then ANil else public rc (snd kv))) kvs)"
| "public rc (ASlice xs) = ASlice (map (public rc) xs)"
| "public rc v = v"

fun clean :: "bool \<Rightarrow> any \<Rightarrow> bool" where
  "clean rc (AMap kvs) \<longleftrightarrow>
     (\<forall>kv \<in> set kvs. if isSensitiveKey (fst kv) rc then snd kv = AStr RedactedPlaceholder else clean rc (snd kv))"
| "clean rc (ASlice xs) \<longleftrightarrow> (\<forall>x \<in> set xs. clean rc x)"
| "clean rc v \<longleftrightarrow> True"

lemma redact_public: "redactValue (public rc v) rc = redactValue v rc"
  by (induction rc v rule: public.induct) auto

lemma redact_clean: "clean rc (redactValue v rc)"
  by (induction v rc rule: redactValue.induct) auto

lemma redact_idempotent: "redactValue (redactValue v rc) rc = redactValue v rc"
  by (induction v rc rule: redactValue.induct) auto

lemma redact_clean_id: "clean rc v \<Longrightarrow> redactValue v rc = v"
  by (induction v rc rule: redactValue.induct) (auto intro!: map_idI simp: prod_eq_iff split: if_splits)

text \<open>
  C18: No secret reaches the log. What \<open>Redact\<close> makes of a JSON body is the same for any two bodies that
  differ only in the values under sensitive keys (any letter case, any depth; \<open>code\<close> too for a token
  exchange), so the log tells nothing of them; under every such key stands the placeholder; and a
  body without secrets keeps its content.
\<close>

theorem Redact_hides_secrets:
  assumes "Unmarshal_any b1 = Some v1" and "Unmarshal_any b2 = Some v2" and "b1 \<noteq> []" and "b2 \<noteq> []"
    and "public (kind \<in> set codeRedactedKinds) v1 = public (kind \<in> set codeRedactedKinds) v2"
  shows "Redact kind b1 = Redact kind b2
    \<and> (\<exists>v. Redact kind b1 = marshal_any v \<and> clean (kind \<in> set codeRedactedKinds) v
         \<and> (clean (kind \<in> set codeRedactedKinds) v1 \<longrightarrow> v = v1))"
proof -
  let ?rc = "kind \<in> set codeRedactedKinds"
  have r: "Redact kind b1 = marshal_any (redactValue v1 ?rc)" "Redact kind b2 = marshal_any (redactValue v2 ?rc)"
    using assms(1-4) by (simp_all add: Redact_def)
  have "redactValue v1 ?rc = redactValue v2 ?rc"
    by (subst (1 2) redact_public [symmetric]) (simp only: assms(5))
  then show ?thesis using r redact_clean redact_clean_id by auto
qed


lemma Redact_hides_secrets_witness:
  "Redact KindOAuthTokenExchange ''{\"Code\": \"s3cr3t\"}'' = Redact KindOAuthTokenExchange ''{\"Code\": [1]}''
   \<and> Redact KindOAuthTokenExchange ''{\"Code\": \"s3cr3t\"}'' = ''{\"Code\":\"[REDACTED]\"}''"
proof -
  have u: "Unmarshal_any ''{\"Code\": \"s3cr3t\"}'' = Some (AMap [(''Code'', AStr ''s3cr3t'')])"
      "Unmarshal_any ''{\"Code\": [1]}'' = Some (AMap [(''Code'', ASlice [AFloat ''1''])])"
    by code_simp+
  have "public (KindOAuthTokenExchange \<in> set codeRedactedKinds) (AMap [(''Code'', AStr ''s3cr3t'')])
      = public (KindOAuthTokenExchange \<in> set codeRedactedKinds) (AMap [(''Code'', ASlice [AFloat ''1''])])"
    by code_simp
  from Redact_hides_secrets [OF u _ _ this] have "Redact KindOAuthTokenExchange ''{\"Code\": \"s3cr3t\"}''
      = Redact KindOAuthTokenExchange ''{\"Code\": [1]}''" by simp
  moreover have "Redact KindOAuthTokenExchange ''{\"Code\": \"s3cr3t\"}'' = ''{\"Code\":\"[REDACTED]\"}''"
    by code_simp
  ultimately show ?thesis by simp
qed

section \<open>Reading the log through its cursors\<close>

text \<open>What a caller of \<open>Query\<close> selects: \<open>log_selected\<close>, the filter without cursor and limit.\<close>

type_synonym log_selection = "OrgID \<times> LogQueryParams"

definition log_filter :: "LogQueryParams \<Rightarrow> LogCursor option \<Rightarrow> int \<Rightarrow> LogFilter" where
  "log_filter p c n = \<lparr>LGF_ConnectionID = QP_ConnectionID p, LGF_UserID = QP_UserID p, LGF_ToolSlug = QP_ToolSlug p,
     LGF_From = QP_From p, LGF_To = QP_To p, LGF_Cursor = c, LGF_Limit = n\<rparr>"

definition log_selected :: "log_selection \<Rightarrow> EventLog \<Rightarrow> bool" where
  "log_selected sel e \<longleftrightarrow> EL_OrgID e = fst sel
     \<and> (QP_ConnectionID (snd sel) \<noteq> [] \<longrightarrow> EL_ConnectionID e = QP_ConnectionID (snd sel))
     \<and> (QP_UserID (snd sel) \<noteq> [] \<longrightarrow> EL_UserID e = QP_UserID (snd sel))
     \<and> (QP_ToolSlug (snd sel) \<noteq> [] \<longrightarrow> EL_ToolSlug e = QP_ToolSlug (snd sel))
     \<and> (\<forall>t. QP_From (snd sel) = Some t \<longrightarrow> t \<le> EL_CreatedAt e)
     \<and> (\<forall>t. QP_To (snd sel) = Some t \<longrightarrow> EL_CreatedAt e \<le> t)"

definition log_entries_of :: "log_store \<Rightarrow> log_selection \<Rightarrow> EventLog list" where
  "log_entries_of r sel = newest_first log_key (filter (log_selected sel) r)"

definition log_listing :: "log_store \<Rightarrow> log_selection \<Rightarrow> LogCursor option \<Rightarrow> nat \<Rightarrow> EventLog list" where
  "log_listing r sel c n = projr (fst (log_mem_Query (fst sel) (log_filter (snd sel) c (int n)) r))"

definition log_ids_distinct :: "log_store \<Rightarrow> bool" where
  "log_ids_distinct r \<longleftrightarrow> distinct (map EL_ID r)"

lemma log_matchesFilter_iff:
  "log_matchesFilter e (fst sel) (log_filter (snd sel) c n) \<longleftrightarrow> log_selected sel e \<and> after_cursor log_key c e"
  by (auto simp: log_matchesFilter_def log_selected_def log_filter_def after_cursor_def log_isAfterCursor_def log_key_def
      less_prod_def not_less split: option.splits)

lemma log_distinct_keys: "log_ids_distinct r \<Longrightarrow> distinct (map log_key (filter P r))"
proof -
  assume "log_ids_distinct r"
  then have "distinct (map EL_ID (filter P r))" unfolding log_ids_distinct_def by (rule distinct_map_filter)
  then show ?thesis by (auto simp: distinct_map inj_on_def log_key_def)
qed

interpretation log_list: cursor_listing log_ids_distinct log_key log_entries_of log_listing
proof
  fix s f assume "log_ids_distinct s"
  then show "sorted_wrt (\<lambda>a b. log_key b < log_key a) (log_entries_of s f)"
    unfolding log_entries_of_def by (intro newest_first_desc log_distinct_keys)
next
  fix s :: log_store and n :: nat and f :: log_selection and c assume "0 < n"
  then show "log_listing s f c n = take n (filter (after_cursor log_key c) (log_entries_of s f))"
    by (simp add: log_listing_def log_mem_Query_def log_entries_of_def log_sortNewestFirst_def
        log_matchesFilter_iff newest_first_filter Let_def conj_commute) (simp add: log_filter_def)
qed

text \<open>
  The steps of the log: entries are recorded, read and purged while the clock and the
  retention settings change.
\<close>

inductive log_step :: "log_world \<Rightarrow> log_world \<Rightarrow> bool" where
  recorded: "log_step w (snd (log_Record log_memory_facade inp w))"
| queried: "log_step w (snd (log_Query log_memory_facade org p w))"
| purged: "log_step w (snd (log_PurgeOnce log_memory_facade w))"
| ticked: "log_step w (w\<lparr>lw_now := t\<rparr>)"
| reconfigured: "log_step w (w\<lparr>lw_retention := ret\<rparr>)"

definition log_inv :: "log_world \<Rightarrow> bool" where
  "log_inv w \<longleftrightarrow> log_ids_distinct (lw_entries w)
     \<and> (\<forall>e \<in> set (lw_entries w). minted ''log_'' (lw_minted w) (EL_ID e)
          \<and> (\<exists>b. EL_RequestBody e = Redact (EL_Kind e) b) \<and> (\<exists>b. EL_ResponseBody e = Redact (EL_Kind e) b))"


lemma log_purge_scan_eq:
  "log_purge_scan org cutoff r =
     (filter (\<lambda>e. \<not> (EL_OrgID e = org \<and> EL_CreatedAt e < cutoff)) r,
      int (length (filter (\<lambda>e. EL_OrgID e = org \<and> EL_CreatedAt e < cutoff) r)))"
  by (induction r) auto

lemma log_inv_filter: "log_inv w \<Longrightarrow> log_inv (w\<lparr>lw_entries := filter P (lw_entries w)\<rparr>)"
  by (auto simp: log_inv_def log_ids_distinct_def distinct_map_filter)

lemma log_inv_purge_org: "preserves log_inv (log_purge_org log_memory_facade log_world_retention now org)"
proof (rule preservesI)
  fix w assume "log_inv w"
  then show "log_inv (snd (log_purge_org log_memory_facade log_world_retention now org w))"
    by (auto simp: log_purge_org_def act_simps log_memory_facade_def log_world_retention_def
        log_mem_PurgeOlderThan_def log_purge_scan_eq log_inv_filter split: option.split)
qed

lemma log_PurgeOnce_run:
  "log_PurgeOnce log_memory_facade w =
     for_each (log_purge_org log_memory_facade log_world_retention (lw_now w)) (map fst (lw_retention w)) w"
  by (simp add: log_PurgeOnce_def log_memory_facade_def act_simps log_world_retention_def)

lemma log_inv_PurgeOnce: "log_inv w \<Longrightarrow> log_inv (snd (log_PurgeOnce log_memory_facade w))"
  unfolding log_PurgeOnce_run
  by (rule preservesD [OF preserves_for_each [OF log_inv_purge_org]])

lemma log_Record_run:
  "log_Record log_memory_facade inp w =
     (Inr (), w\<lparr>lw_minted := Suc (lw_minted w),
        lw_entries := lw_entries w @ [newEventLog (sequential_id ''log_'' (lw_minted w)) inp (lw_now w)]\<rparr>)"
  by (simp add: log_Record_def log_memory_facade_def act_simps log_mem_Save_def)

lemma log_Query_keeps: "snd (log_Query log_memory_facade org p w) = w"
  by (auto simp: log_Query_def log_memory_facade_def act_simps log_mem_Query_def Let_def split: sum.split)

lemma log_inv_Record: "log_inv w \<Longrightarrow> log_inv (snd (log_Record log_memory_facade inp w))"
  by (auto simp: log_Record_run log_inv_def log_ids_distinct_def newEventLog_def minted_def less_Suc_eq)

lemma log_step_inv: "log_step w w' \<Longrightarrow> log_inv w \<Longrightarrow> log_inv w'"
  by (induction rule: log_step.induct)
    (simp_all add: log_inv_Record log_Query_keeps log_inv_PurgeOnce, simp_all add: log_inv_def)

lemma log_reachable_inv:
  assumes "log_step\<^sup>*\<^sup>* w w'" and "lw_entries w = []"
  shows "log_inv w'"
proof -
  have "log_inv w" using assms(2) by (simp add: log_inv_def log_ids_distinct_def)
  with assms(1) show ?thesis by (induction rule: rtranclp_induct) (auto intro: log_step_inv)
qed

lemma log_normalizeLimit_bounds: "1 \<le> log_normalizeLimit n" "log_normalizeLimit n \<le> 200"
  by (auto simp: log_normalizeLimit_def log_defaultPageLimit_def log_maxPageLimit_def)

lemma log_decodeCursor_eq: "log_decodeCursor = decode_time_id"
  unfolding log_decodeCursor_def decode_time_id_def log_ErrInvalidCursor_def invalid_cursor_error_def ..

definition log_Query_page ::
  "'s log_facade \<Rightarrow> log_selection \<Rightarrow> 's \<Rightarrow> int \<Rightarrow> string \<Rightarrow> go_error + EventLog list \<times> string" where
  "log_Query_page f sel s limit raw =
     (case fst (log_Query f (fst sel) ((snd sel)\<lparr>QP_Cursor := raw, QP_Limit := limit\<rparr>) s) of
        Inl e \<Rightarrow> Inl e
      | Inr r \<Rightarrow> Inr (QR_Entries r, QR_NextCursor r))"

lemma log_Query_page_eq:
  "log_Query_page log_memory_facade sel w limit
     = cursor_page log_key (log_listing (lw_entries w) sel) (nat (log_normalizeLimit limit))"
proof (rule ext)
  fix raw
  obtain n where n: "log_normalizeLimit limit = int n"
    using log_normalizeLimit_bounds(1) [of limit] nonneg_int_cases [of "log_normalizeLimit limit"] by fastforce
  show "log_Query_page log_memory_facade sel w limit raw
     = cursor_page log_key (log_listing (lw_entries w) sel) (nat (log_normalizeLimit limit)) raw"
    using n
    by (auto simp: log_Query_page_def log_Query_def cursor_page_def log_decodeCursor_eq Let_def log_memory_facade_def
        act_simps log_mem_Query_def log_listing_def log_filter_def log_paginate_def
        paginate_def log_encodeCursor_def encode_time_id_def log_key_def add.commute split: sum.splits)
qed

text \<open>
  The log of an organization, read through \<open>Query\<close> and its cursors with any page size and filter, is
  every matching entry that was recorded and not purged, each exactly once and newest first; and in
  every entry ever stored both bodies went through \<open>Redact\<close>.
\<close>

theorem log_Query_complete:
  assumes "log_step\<^sup>*\<^sup>* w0 w" and "lw_entries w0 = []"
    and "\<forall>e \<in> set (log_entries_of (lw_entries w) sel). cursor_key (log_key e)"
    and "length (log_entries_of (lw_entries w) sel) < fuel"
  shows "read_pages (log_Query_page log_memory_facade sel w limit) fuel [] = Inr (log_entries_of (lw_entries w) sel)
    \<and> distinct (log_entries_of (lw_entries w) sel)
    \<and> set (log_entries_of (lw_entries w) sel) = {e \<in> set (lw_entries w). log_selected sel e}
    \<and> (\<forall>e \<in> set (lw_entries w). \<exists>b b'. EL_RequestBody e = Redact (EL_Kind e) b
          \<and> EL_ResponseBody e = Redact (EL_Kind e) b')"
proof -
  have inv: "log_inv w" using assms(1,2) by (rule log_reachable_inv)
  then have ids: "log_ids_distinct (lw_entries w)" by (simp add: log_inv_def)
  have "0 < nat (log_normalizeLimit limit)" using log_normalizeLimit_bounds(1) [of limit] by simp
  with log_list.read_pages_complete [OF ids _ assms(3,4)] log_list.matching_distinct [OF ids] inv show ?thesis
    by (auto simp: log_Query_page_eq log_entries_of_def log_inv_def)
qed

definition log_demo_input :: RecordInput where
  "log_demo_input = \<lparr>RI_OrgID = ''org_1'', RI_UserID = [], RI_ConnectionID = [], RI_ToolID = [], RI_ToolSlug = [],
     RI_Kind = KindToolExecution, RI_Status = 200, RI_DurationMs = 12, RI_RequestBody = [], RI_ResponseBody = [],
     RI_RateLimited = False, RI_EventID = [], RI_Attempt = 0, RI_TriggerInstanceID = []\<rparr>"

definition log_demo :: log_world where
  "log_demo = \<lparr>lw_entries = [], lw_minted = 0, lw_now = 5, lw_retention = [(''org_1'', 30)]\<rparr>"

definition log_demo_params :: LogQueryParams where
  "log_demo_params = \<lparr>QP_ConnectionID = [], QP_UserID = [], QP_ToolSlug = [], QP_From = None, QP_To = None,
     QP_Cursor = [], QP_Limit = 0\<rparr>"

lemma log_Query_complete_witness:
  "\<exists>w. log_step\<^sup>*\<^sup>* log_demo w \<and> length (lw_entries w) = 1
     \<and> read_pages (log_Query_page log_memory_facade (''org_1'', log_demo_params) w 1) 2 [] = Inr (lw_entries w)"
proof -
  let ?w = "snd (log_Record log_memory_facade log_demo_input log_demo)"
  have st: "log_step\<^sup>*\<^sup>* log_demo ?w" by (rule r_into_rtranclp, rule log_step.recorded)
  have e: "log_entries_of (lw_entries ?w) (''org_1'', log_demo_params) = lw_entries ?w"
    by (simp add: log_Record_run log_entries_of_def newest_first_def log_selected_def log_demo_def log_demo_input_def
        log_demo_params_def newEventLog_def)
  have "cursor_key (5, sequential_id ''log_'' 0)" by code_simp
  then have k: "\<forall>e \<in> set (log_entries_of (lw_entries ?w) (''org_1'', log_demo_params)). cursor_key (log_key e)"
    unfolding e by (simp add: log_Record_run log_demo_def newEventLog_def log_key_def)
  have l: "length (lw_entries ?w) = 1" by (simp add: log_Record_run log_demo_def)
  have z: "lw_entries log_demo = []" by (simp add: log_demo_def)
  have "read_pages (log_Query_page log_memory_facade (''org_1'', log_demo_params) ?w 1) 2 []
      = Inr (log_entries_of (lw_entries ?w) (''org_1'', log_demo_params))"
    using log_Query_complete [OF st z k, of 2 1] l unfolding e by simp
  with st l show ?thesis unfolding e by blast
qed

end
