(* ===== verification/AccessKeys.thy ===== *)
theory AccessKeys
  imports Vault GoJSON GoTime
begin

text \<open>
  \<open>internal/access\<close>, the machine credentials: server API keys with their rotating secrets
  (\<open>types.go\<close>, \<open>secret.go\<close>, \<open>facade.go\<close>), webhook signing secrets (\<open>webhook_secret.go\<close>),
  user-token signing secrets (\<open>signing_secret.go\<close>) and the verification of user tokens
  (\<open>usertoken.go\<close>), over the ports of \<open>port.go\<close> and their in-memory adapters.
\<close>

section \<open>Errors (errors.go)\<close>

definition acc_ErrNotFound :: go_error where
  "acc_ErrNotFound = DomainError (httpx_New 404 ''not_found'' ''api key not found'')"

definition acc_ErrValidation :: "string \<Rightarrow> string \<Rightarrow> go_error" where
  "acc_ErrValidation field issue =
     DomainError (WithDetails (httpx_New 422 ''validation_failed'' ''validation failed'')
       [(''field'', DStr field), (''issue'', DStr issue)])"

definition httpx_Unauthorized :: "string \<Rightarrow> domain_error" where
  "httpx_Unauthorized message = httpx_New 401 ''unauthorized'' message"

definition ErrUnauthorized :: go_error where
  "ErrUnauthorized = DomainError (httpx_Unauthorized ''invalid or revoked api key'')"

section \<open>Types (types.go)\<close>

datatype Scope = ScopeReadOnly | ScopeReadWrite

definition IsReadOnly :: "Scope \<Rightarrow> bool" where
  "IsReadOnly s \<longleftrightarrow> s = ScopeReadOnly"

definition ParseScope :: "string \<Rightarrow> go_error + Scope" where
  "ParseScope raw =
     (if raw = [] then Inr ScopeReadWrite
      else if raw = ''read-only'' then Inr ScopeReadOnly
      else if raw = ''read-write'' then Inr ScopeReadWrite
      else Inl (acc_ErrValidation ''scope''
             (''must be '' @ quoted ''read-only'' @ '' or '' @ quoted ''read-write'')))"

record ServerApiKey =
  Key_ID :: string
  Key_OrgID :: string
  Key_Scope :: Scope
  Key_CreatedAt :: time
  Key_RevokedAt :: "time option"

definition Key_IsRevoked :: "ServerApiKey \<Rightarrow> bool" where
  "Key_IsRevoked k \<longleftrightarrow> Key_RevokedAt k \<noteq> None"

record ApiKeySecret =
  AKS_ID :: string
  AKS_KeyID :: string
  AKS_LookupPrefix :: string
  AKS_SecretHash :: string
  AKS_CreatedAt :: time
  AKS_ExpiresAt :: "time option"

definition AKS_IsExpired :: "ApiKeySecret \<Rightarrow> time \<Rightarrow> bool" where
  "AKS_IsExpired s now = (case AKS_ExpiresAt s of None \<Rightarrow> False | Some e \<Rightarrow> \<not> now < e)"

record KeyListing =
  KL_ID :: string
  KL_Prefix :: string
  KL_Scope :: Scope
  KL_CreatedAt :: time
  KL_RevokedAt :: "time option"
  KL_RotatedAt :: "time option"
  KL_OverlapExpiresAt :: "time option"

record SigningSecret =
  SS_ID :: string
  SS_OrgID :: string
  SS_DisplayPrefix :: string
  SS_EncryptedSecret :: string
  SS_CreatedAt :: time

record WebhookSigningSecret =
  WSS_ID :: string
  WSS_OrgID :: string
  WSS_EndpointID :: string
  WSS_DisplayPrefix :: string
  WSS_EncryptedSecret :: string
  WSS_CreatedAt :: time
  WSS_ExpiresAt :: "time option"

definition WSS_IsExpired :: "WebhookSigningSecret \<Rightarrow> time \<Rightarrow> bool" where
  "WSS_IsExpired s now = (case WSS_ExpiresAt s of None \<Rightarrow> False | Some e \<Rightarrow> \<not> now < e)"

record ApiKeySecretCandidate =
  Cand_KeyID :: string
  Cand_OrgID :: string
  Cand_Scope :: Scope
  Cand_RevokedAt :: "time option"
  Cand_Secret :: ApiKeySecret

definition Cand_IsRevoked :: "ApiKeySecretCandidate \<Rightarrow> bool" where
  "Cand_IsRevoked c \<longleftrightarrow> Cand_RevokedAt c \<noteq> None"

section \<open>The facade's ports (port.go)\<close>

record 's acc_facade =
  acc_repo_SaveKey :: "ServerApiKey \<Rightarrow> ('s, unit) act"
  acc_repo_ListByOrg :: "string \<Rightarrow> ('s, ServerApiKey list) act"
  acc_repo_FindByID :: "string \<Rightarrow> string \<Rightarrow> ('s, ServerApiKey option) act"
  acc_repo_MarkRevoked :: "string \<Rightarrow> string \<Rightarrow> time \<Rightarrow> ('s, unit) act"
  acc_prefixLookup_FindByPrefix :: "string \<Rightarrow> ('s, ApiKeySecretCandidate list) act"
  acc_apiKeySecrets_Save :: "string \<Rightarrow> ApiKeySecret \<Rightarrow> ('s, unit) act"
  acc_apiKeySecrets_ListByKeyID :: "string \<Rightarrow> string \<Rightarrow> ('s, ApiKeySecret list) act"
  acc_apiKeySecrets_MarkExpiring :: "string \<Rightarrow> string \<Rightarrow> time \<Rightarrow> ('s, unit) act"
  acc_signingSecrets_Save :: "SigningSecret \<Rightarrow> ('s, unit) act"
  acc_signingSecrets_ListByOrg :: "string \<Rightarrow> ('s, SigningSecret list) act"
  acc_signingSecretLookup_FindByKid :: "string \<Rightarrow> ('s, SigningSecret option) act"
  acc_webhookSecrets_Save :: "WebhookSigningSecret \<Rightarrow> ('s, unit) act"
  acc_webhookSecrets_ListByEndpoint :: "string \<Rightarrow> string \<Rightarrow> ('s, WebhookSigningSecret list) act"
  acc_webhookSecrets_MarkExpiring :: "string \<Rightarrow> string \<Rightarrow> time \<Rightarrow> ('s, unit) act"
  acc_crypto :: crypto
  acc_rand :: "nat \<Rightarrow> ('s, string) act"
  acc_newID :: "'s \<Rightarrow> string \<times> 's"
  acc_newSecretID :: "'s \<Rightarrow> string \<times> 's"
  acc_newSigningSecretID :: "'s \<Rightarrow> string \<times> 's"
  acc_newWebhookSecretID :: "'s \<Rightarrow> string \<times> 's"
  acc_now :: "'s \<Rightarrow> time \<times> 's"

section \<open>API-key secrets (secret.go)\<close>

definition SecretPrefix :: string where
  "SecretPrefix = ''beecon_sk_''"

definition secretEntropyBytes :: nat where
  "secretEntropyBytes = 32"

definition LookupPrefixLength :: nat where
  "LookupPrefixLength = 12"

definition generateSecret :: "'s acc_facade \<Rightarrow> ('s, string) act" where
  "generateSecret f =
     attempt (acc_rand f secretEntropyBytes) (\<lambda>buf. ok (SecretPrefix @ EncodeToString RawURLEncoding buf))"

definition hasSecretPrefix :: "string \<Rightarrow> bool" where
  "hasSecretPrefix secret \<longleftrightarrow> HasPrefix secret SecretPrefix \<and> length secret \<ge> LookupPrefixLength"

definition lookupPrefix :: "string \<Rightarrow> string" where
  "lookupPrefix secret = take LookupPrefixLength secret"

definition hashSecretRemainder :: "crypto \<Rightarrow> string \<Rightarrow> string" where
  "hashSecretRemainder c secret = sha256 c (drop LookupPrefixLength secret)"

definition secretMatchesHash :: "crypto \<Rightarrow> string \<Rightarrow> string \<Rightarrow> bool" where
  "secretMatchesHash c secret hash \<longleftrightarrow> hashSecretRemainder c secret = hash"

definition DefaultOverlapHours :: int where
  "DefaultOverlapHours = 24"

definition overlapHoursOrDefault :: "int option \<Rightarrow> int" where
  "overlapHoursOrDefault overlapHours =
     (case overlapHours of None \<Rightarrow> DefaultOverlapHours | Some h \<Rightarrow> h)"

text \<open>Of several active secrets the last one wins, as in the loop.\<close>

fun activeSecretOf :: "ApiKeySecret list \<Rightarrow> ApiKeySecret option" where
  "activeSecretOf [] = None"
| "activeSecretOf (s # secrets) =
     (case activeSecretOf secrets of
        Some a \<Rightarrow> Some a
      | None \<Rightarrow> if AKS_ExpiresAt s = None then Some s else None)"

definition activeSecretPrefix :: "ApiKeySecret list \<Rightarrow> string" where
  "activeSecretPrefix secrets =
     (case activeSecretOf secrets of None \<Rightarrow> [] | Some active \<Rightarrow> AKS_LookupPrefix active)"

fun latest_from :: "time option \<Rightarrow> ApiKeySecret list \<Rightarrow> time option" where
  "latest_from latest [] = latest"
| "latest_from latest (s # secrets) =
     (case AKS_ExpiresAt s of
        None \<Rightarrow> latest_from latest secrets
      | Some e \<Rightarrow>
          latest_from (case latest of None \<Rightarrow> Some e | Some l \<Rightarrow> if e > l then Some e else Some l) secrets)"

definition latestExpiresAt :: "ApiKeySecret list \<Rightarrow> time option" where
  "latestExpiresAt secrets = latest_from None secrets"

definition rotationState :: "ApiKeySecret list \<Rightarrow> time option \<times> time option" where
  "rotationState secrets =
     (case activeSecretOf secrets of
        None \<Rightarrow> (None, None)
      | Some active \<Rightarrow>
          (case latestExpiresAt secrets of
             None \<Rightarrow> (None, None)
           | Some latestRetiredExpiry \<Rightarrow> (Some (AKS_CreatedAt active), Some latestRetiredExpiry)))"

section \<open>API keys (facade.go)\<close>

record IssuedKey =
  IK_ID :: string
  IK_Secret :: string
  IK_Prefix :: string
  IK_Scope :: Scope
  IK_CreatedAt :: time

definition acc_Issue :: "'s acc_facade \<Rightarrow> string \<Rightarrow> Scope \<Rightarrow> ('s, IssuedKey) act" where
  "acc_Issue f org scope =
     attempt (generateSecret f) (\<lambda>secret.
     call (acc_newID f) (\<lambda>i.
     call (acc_now f) (\<lambda>now.
     let key = \<lparr>Key_ID = i, Key_OrgID = org, Key_Scope = scope, Key_CreatedAt = now, Key_RevokedAt = None\<rparr> in
     attempt (acc_repo_SaveKey f key) (\<lambda>_.
     call (acc_newSecretID f) (\<lambda>sid.
     let firstSecret = \<lparr>AKS_ID = sid, AKS_KeyID = Key_ID key, AKS_LookupPrefix = lookupPrefix secret,
           AKS_SecretHash = hashSecretRemainder (acc_crypto f) secret,
           AKS_CreatedAt = Key_CreatedAt key, AKS_ExpiresAt = None\<rparr> in
     attempt (acc_apiKeySecrets_Save f org firstSecret) (\<lambda>_.
     ok \<lparr>IK_ID = Key_ID key, IK_Secret = secret, IK_Prefix = AKS_LookupPrefix firstSecret,
         IK_Scope = Key_Scope key, IK_CreatedAt = Key_CreatedAt key\<rparr>))))))"

definition keyListingFrom :: "ServerApiKey \<Rightarrow> ApiKeySecret list \<Rightarrow> KeyListing" where
  "keyListingFrom key secrets =
     (case rotationState secrets of (rotatedAt, overlapExpiresAt) \<Rightarrow>
       \<lparr>KL_ID = Key_ID key, KL_Prefix = activeSecretPrefix secrets, KL_Scope = Key_Scope key,
        KL_CreatedAt = Key_CreatedAt key, KL_RevokedAt = Key_RevokedAt key,
        KL_RotatedAt = rotatedAt, KL_OverlapExpiresAt = overlapExpiresAt\<rparr>)"

definition acc_List :: "'s acc_facade \<Rightarrow> string \<Rightarrow> ('s, KeyListing list) act" where
  "acc_List f org =
     attempt (acc_repo_ListByOrg f org) (\<lambda>keys.
     map_each (\<lambda>key.
       attempt (acc_apiKeySecrets_ListByKeyID f org (Key_ID key)) (\<lambda>secrets.
       ok (keyListingFrom key secrets))) keys)"

definition acc_Revoke :: "'s acc_facade \<Rightarrow> string \<Rightarrow> string \<Rightarrow> ('s, unit) act" where
  "acc_Revoke f org i =
     attempt (acc_repo_FindByID f org i) (\<lambda>key.
     case key of
       None \<Rightarrow> fail acc_ErrNotFound
     | Some _ \<Rightarrow> call (acc_now f) (\<lambda>now. acc_repo_MarkRevoked f org i now))"

record RotateResult =
  RR_ID :: string
  RR_Secret :: string
  RR_Prefix :: string
  RR_OverlapExpiresAt :: time

fun expireLiveSecrets :: "'s acc_facade \<Rightarrow> string \<Rightarrow> ApiKeySecret list \<Rightarrow> time \<Rightarrow> time \<Rightarrow> ('s, unit) act" where
  "expireLiveSecrets f org [] now overlapExpiresAt = ok ()"
| "expireLiveSecrets f org (s # secrets) now overlapExpiresAt =
     (if AKS_ExpiresAt s = None then
        attempt (acc_apiKeySecrets_MarkExpiring f org (AKS_ID s) overlapExpiresAt)
          (\<lambda>_. expireLiveSecrets f org secrets now overlapExpiresAt)
      else if AKS_IsExpired s now then expireLiveSecrets f org secrets now overlapExpiresAt
      else attempt (acc_apiKeySecrets_MarkExpiring f org (AKS_ID s) now)
             (\<lambda>_. expireLiveSecrets f org secrets now overlapExpiresAt))"

definition acc_Rotate :: "'s acc_facade \<Rightarrow> string \<Rightarrow> string \<Rightarrow> int option \<Rightarrow> ('s, RotateResult) act" where
  "acc_Rotate f org i overlapHours =
     attempt (acc_repo_FindByID f org i) (\<lambda>found.
     case found of
       None \<Rightarrow> fail acc_ErrNotFound
     | Some key \<Rightarrow>
         if Key_IsRevoked key then fail acc_ErrNotFound
         else if (case overlapHours of None \<Rightarrow> False | Some h \<Rightarrow> h < 0)
         then fail (acc_ErrValidation ''overlapHours'' ''must not be negative'')
         else
           attempt (acc_apiKeySecrets_ListByKeyID f org i) (\<lambda>secrets.
           call (acc_now f) (\<lambda>now.
           let expiresAt = now + dur_mul (overlapHoursOrDefault overlapHours) hour in
           attempt (expireLiveSecrets f org secrets now expiresAt) (\<lambda>_.
           attempt (generateSecret f) (\<lambda>secret.
           call (acc_newSecretID f) (\<lambda>sid.
           let fresh = \<lparr>AKS_ID = sid, AKS_KeyID = i, AKS_LookupPrefix = lookupPrefix secret,
                 AKS_SecretHash = hashSecretRemainder (acc_crypto f) secret,
                 AKS_CreatedAt = now, AKS_ExpiresAt = None\<rparr> in
           attempt (acc_apiKeySecrets_Save f org fresh) (\<lambda>_.
           ok \<lparr>RR_ID = i, RR_Secret = secret, RR_Prefix = AKS_LookupPrefix fresh,
               RR_OverlapExpiresAt = expiresAt\<rparr>)))))))"

record VerifiedKey =
  VK_OrgID :: string
  VK_Scope :: Scope

fun verify_candidates :: "crypto \<Rightarrow> string \<Rightarrow> time \<Rightarrow> ApiKeySecretCandidate list \<Rightarrow> go_error + VerifiedKey" where
  "verify_candidates c secret now [] = Inl ErrUnauthorized"
| "verify_candidates c secret now (candidate # candidates) =
     (if \<not> secretMatchesHash c secret (AKS_SecretHash (Cand_Secret candidate))
      then verify_candidates c secret now candidates
      else if Cand_IsRevoked candidate then Inl ErrUnauthorized
      else if AKS_IsExpired (Cand_Secret candidate) now then Inl ErrUnauthorized
      else Inr \<lparr>VK_OrgID = Cand_OrgID candidate, VK_Scope = Cand_Scope candidate\<rparr>)"

definition acc_Verify :: "'s acc_facade \<Rightarrow> string \<Rightarrow> ('s, VerifiedKey) act" where
  "acc_Verify f secret =
     (if \<not> hasSecretPrefix secret then fail ErrUnauthorized
      else attempt (acc_prefixLookup_FindByPrefix f (lookupPrefix secret)) (\<lambda>candidates.
           call (acc_now f) (\<lambda>now. lift (verify_candidates (acc_crypto f) secret now candidates))))"

section \<open>Webhook signing secrets (webhook_secret.go)\<close>

definition webhookSecretEntropyBytes :: nat where
  "webhookSecretEntropyBytes = 32"

definition WebhookSecretPrefixText :: string where
  "WebhookSecretPrefixText = ''whsec_''"

definition WebhookSecretDisplayPrefixLength :: nat where
  "WebhookSecretDisplayPrefixLength = 12"

definition generateWebhookSecret :: "'s acc_facade \<Rightarrow> ('s, string) act" where
  "generateWebhookSecret f =
     attempt (acc_rand f webhookSecretEntropyBytes) (\<lambda>buf.
     ok (WebhookSecretPrefixText @ EncodeToString StdEncoding buf))"

definition webhookSecretDisplayPrefix :: "string \<Rightarrow> string" where
  "webhookSecretDisplayPrefix secret =
     (if length secret < WebhookSecretDisplayPrefixLength then secret
      else take WebhookSecretDisplayPrefixLength secret)"

record IssuedWebhookSecret =
  IWS_ID :: string
  IWS_Secret :: string
  IWS_Prefix :: string
  IWS_CreatedAt :: time

definition acc_IssueWebhookSecret :: "'s acc_facade \<Rightarrow> string \<Rightarrow> string \<Rightarrow> ('s, IssuedWebhookSecret) act" where
  "acc_IssueWebhookSecret f org endpointID =
     attempt (generateWebhookSecret f) (\<lambda>secret.
     attempt (vault_Encrypt (acc_crypto f) (acc_rand f) secret) (\<lambda>encrypted.
     call (acc_newWebhookSecretID f) (\<lambda>i.
     call (acc_now f) (\<lambda>now.
     let stored = \<lparr>WSS_ID = i, WSS_OrgID = org, WSS_EndpointID = endpointID,
           WSS_DisplayPrefix = webhookSecretDisplayPrefix secret, WSS_EncryptedSecret = encrypted,
           WSS_CreatedAt = now, WSS_ExpiresAt = None\<rparr> in
     attempt (acc_webhookSecrets_Save f stored) (\<lambda>_.
     ok \<lparr>IWS_ID = WSS_ID stored, IWS_Secret = secret, IWS_Prefix = WSS_DisplayPrefix stored,
         IWS_CreatedAt = WSS_CreatedAt stored\<rparr>)))))"

record RotateWebhookSecretResult =
  RWS_ID :: string
  RWS_Secret :: string
  RWS_Prefix :: string
  RWS_OverlapExpiresAt :: time

fun expireLiveWebhookSecrets ::
  "'s acc_facade \<Rightarrow> string \<Rightarrow> WebhookSigningSecret list \<Rightarrow> time \<Rightarrow> time \<Rightarrow> ('s, unit) act"
where
  "expireLiveWebhookSecrets f org [] now overlapExpiresAt = ok ()"
| "expireLiveWebhookSecrets f org (s # secrets) now overlapExpiresAt =
     (if WSS_ExpiresAt s = None then
        attempt (acc_webhookSecrets_MarkExpiring f org (WSS_ID s) overlapExpiresAt)
          (\<lambda>_. expireLiveWebhookSecrets f org secrets now overlapExpiresAt)
      else if WSS_IsExpired s now then expireLiveWebhookSecrets f org secrets now overlapExpiresAt
      else attempt (acc_webhookSecrets_MarkExpiring f org (WSS_ID s) now)
             (\<lambda>_. expireLiveWebhookSecrets f org secrets now overlapExpiresAt))"

definition acc_RotateWebhookSecret ::
  "'s acc_facade \<Rightarrow> string \<Rightarrow> string \<Rightarrow> int option \<Rightarrow> ('s, RotateWebhookSecretResult) act"
where
  "acc_RotateWebhookSecret f org endpointID overlapHours =
     (if (case overlapHours of None \<Rightarrow> False | Some h \<Rightarrow> h < 0)
      then fail (acc_ErrValidation ''overlapHours'' ''must not be negative'')
      else
        attempt (acc_webhookSecrets_ListByEndpoint f org endpointID) (\<lambda>secrets.
        call (acc_now f) (\<lambda>now.
        let expiresAt = now + dur_mul (overlapHoursOrDefault overlapHours) hour in
        attempt (expireLiveWebhookSecrets f org secrets now expiresAt) (\<lambda>_.
        attempt (generateWebhookSecret f) (\<lambda>secret.
        attempt (vault_Encrypt (acc_crypto f) (acc_rand f) secret) (\<lambda>encrypted.
        call (acc_newWebhookSecretID f) (\<lambda>i.
        let fresh = \<lparr>WSS_ID = i, WSS_OrgID = org, WSS_EndpointID = endpointID,
              WSS_DisplayPrefix = webhookSecretDisplayPrefix secret, WSS_EncryptedSecret = encrypted,
              WSS_CreatedAt = now, WSS_ExpiresAt = None\<rparr> in
        attempt (acc_webhookSecrets_Save f fresh) (\<lambda>_.
        ok \<lparr>RWS_ID = WSS_ID fresh, RWS_Secret = secret, RWS_Prefix = WSS_DisplayPrefix fresh,
            RWS_OverlapExpiresAt = expiresAt\<rparr>))))))))"

fun decrypt_live :: "crypto \<Rightarrow> time \<Rightarrow> WebhookSigningSecret list \<Rightarrow> go_error + string list" where
  "decrypt_live c now [] = Inr []"
| "decrypt_live c now (s # secrets) =
     (if WSS_IsExpired s now then decrypt_live c now secrets
      else (case vault_Decrypt c (WSS_EncryptedSecret s) of
              Inl e \<Rightarrow> Inl e
            | Inr plaintext \<Rightarrow>
                (case decrypt_live c now secrets of
                   Inl e \<Rightarrow> Inl e
                 | Inr rest \<Rightarrow> Inr (plaintext # rest))))"

definition acc_ActiveWebhookSecrets :: "'s acc_facade \<Rightarrow> string \<Rightarrow> string \<Rightarrow> ('s, string list) act" where
  "acc_ActiveWebhookSecrets f org endpointID =
     attempt (acc_webhookSecrets_ListByEndpoint f org endpointID) (\<lambda>secrets.
     call (acc_now f) (\<lambda>now. lift (decrypt_live (acc_crypto f) now secrets)))"

fun activeWebhookSecretOf :: "WebhookSigningSecret list \<Rightarrow> WebhookSigningSecret option" where
  "activeWebhookSecretOf [] = None"
| "activeWebhookSecretOf (s # secrets) =
     (case activeWebhookSecretOf secrets of
        Some a \<Rightarrow> Some a
      | None \<Rightarrow> if WSS_ExpiresAt s = None then Some s else None)"

definition acc_WebhookSecretPrefix :: "'s acc_facade \<Rightarrow> string \<Rightarrow> string \<Rightarrow> ('s, string) act" where
  "acc_WebhookSecretPrefix f org endpointID =
     attempt (acc_webhookSecrets_ListByEndpoint f org endpointID) (\<lambda>secrets.
     ok (case activeWebhookSecretOf secrets of None \<Rightarrow> [] | Some active \<Rightarrow> WSS_DisplayPrefix active))"

section \<open>User-token signing secrets (signing_secret.go)\<close>

definition signingSecretEntropyBytes :: nat where
  "signingSecretEntropyBytes = 32"

definition SigningSecretDisplayPrefixLength :: nat where
  "SigningSecretDisplayPrefixLength = 8"

definition generateSigningSecret :: "'s acc_facade \<Rightarrow> ('s, string) act" where
  "generateSigningSecret f =
     attempt (acc_rand f signingSecretEntropyBytes) (\<lambda>buf. ok (EncodeToString RawURLEncoding buf))"

definition signingSecretDisplayPrefix :: "string \<Rightarrow> string" where
  "signingSecretDisplayPrefix secret =
     (if length secret < SigningSecretDisplayPrefixLength then secret
      else take SigningSecretDisplayPrefixLength secret)"

record IssuedSigningSecret =
  ISS_ID :: string
  ISS_Secret :: string
  ISS_Prefix :: string
  ISS_CreatedAt :: time

definition acc_IssueSigningSecret :: "'s acc_facade \<Rightarrow> string \<Rightarrow> ('s, IssuedSigningSecret) act" where
  "acc_IssueSigningSecret f org =
     attempt (generateSigningSecret f) (\<lambda>secret.
     attempt (vault_Encrypt (acc_crypto f) (acc_rand f) secret) (\<lambda>encrypted.
     call (acc_newSigningSecretID f) (\<lambda>i.
     call (acc_now f) (\<lambda>now.
     let stored = \<lparr>SS_ID = i, SS_OrgID = org, SS_DisplayPrefix = signingSecretDisplayPrefix secret,
           SS_EncryptedSecret = encrypted, SS_CreatedAt = now\<rparr> in
     attempt (acc_signingSecrets_Save f stored) (\<lambda>_.
     ok \<lparr>ISS_ID = SS_ID stored, ISS_Secret = secret, ISS_Prefix = SS_DisplayPrefix stored,
         ISS_CreatedAt = SS_CreatedAt stored\<rparr>)))))"

definition acc_ListSigningSecrets :: "'s acc_facade \<Rightarrow> string \<Rightarrow> ('s, SigningSecret list) act" where
  "acc_ListSigningSecrets f org = acc_signingSecrets_ListByOrg f org"

section \<open>User tokens (usertoken.go)\<close>

definition userTokenMaxLifetime :: duration where
  "userTokenMaxLifetime = 24 * hour"

definition userTokenAlgorithm :: string where
  "userTokenAlgorithm = ''HS256''"

record userTokenHeader =
  uth_Alg :: string
  uth_Kid :: string

record userTokenClaims =
  utc_Sub :: string
  utc_Iat :: int
  utc_Exp :: int

definition exceedsUserTokenMaxLifetime :: "userTokenClaims \<Rightarrow> bool" where
  "exceedsUserTokenMaxLifetime claims \<longleftrightarrow>
     dur_mul (wrap64 (utc_Exp claims - utc_Iat claims)) second > userTokenMaxLifetime"

definition splitUserToken :: "string \<Rightarrow> (string \<times> string \<times> string) option" where
  "splitUserToken token =
     (case Split (CHR ''.'') token of
        [a, b, c] \<Rightarrow> if a = [] \<or> b = [] \<or> c = [] then None else Some (a, b, c)
      | _ \<Rightarrow> None)"

definition decodeUserTokenSegment :: "string \<Rightarrow> string option" where
  "decodeUserTokenSegment segment = DecodeString RawURLEncoding segment"

definition decodeUserTokenHeader :: "string \<Rightarrow> userTokenHeader option" where
  "decodeUserTokenHeader headerB64 =
     (case decodeUserTokenSegment headerB64 of
        None \<Rightarrow> None
      | Some raw \<Rightarrow>
          (case json_parse raw of
             None \<Rightarrow> None
           | Some v \<Rightarrow>
               (case json_members v of
                  None \<Rightarrow> None
                | Some kvs \<Rightarrow>
                    (case (field_string ''alg'' [] kvs, field_string ''kid'' [] kvs) of
                       (Some alg, Some kid) \<Rightarrow> Some \<lparr>uth_Alg = alg, uth_Kid = kid\<rparr>
                     | _ \<Rightarrow> None))))"

definition decodeUserTokenClaims :: "string \<Rightarrow> userTokenClaims option" where
  "decodeUserTokenClaims payloadB64 =
     (case decodeUserTokenSegment payloadB64 of
        None \<Rightarrow> None
      | Some raw \<Rightarrow>
          (case json_parse raw of
             None \<Rightarrow> None
           | Some v \<Rightarrow>
               (case json_members v of
                  None \<Rightarrow> None
                | Some kvs \<Rightarrow>
                    (case (field_string ''sub'' [] kvs, field_int64 ''iat'' 0 kvs, field_int64 ''exp'' 0 kvs) of
                       (Some sub, Some iat, Some expiry) \<Rightarrow>
                         Some \<lparr>utc_Sub = sub, utc_Iat = iat, utc_Exp = expiry\<rparr>
                     | _ \<Rightarrow> None))))"

definition validUserTokenSignature :: "crypto \<Rightarrow> string \<Rightarrow> string \<Rightarrow> string \<Rightarrow> string \<Rightarrow> bool" where
  "validUserTokenSignature c headerB64 payloadB64 signature secret \<longleftrightarrow>
     signature = hmacSHA256 c secret (headerB64 @ ''.'' @ payloadB64)"

definition acc_VerifyUserToken :: "'s acc_facade \<Rightarrow> string \<Rightarrow> ('s, string \<times> string) act" where
  "acc_VerifyUserToken f token =
     (case splitUserToken token of
        None \<Rightarrow> fail ErrUnauthorized
      | Some (headerB64, payloadB64, signatureB64) \<Rightarrow>
          (case decodeUserTokenHeader headerB64 of
             None \<Rightarrow> fail ErrUnauthorized
           | Some header \<Rightarrow>
               if uth_Alg header \<noteq> userTokenAlgorithm then fail ErrUnauthorized
               else
                 attempt (acc_signingSecretLookup_FindByKid f (uth_Kid header)) (\<lambda>found.
                 case found of
                   None \<Rightarrow> fail ErrUnauthorized
                 | Some secretRecord \<Rightarrow>
                     attempt (lift (vault_Decrypt (acc_crypto f) (SS_EncryptedSecret secretRecord))) (\<lambda>secret.
                     case decodeUserTokenSegment signatureB64 of
                       None \<Rightarrow> fail ErrUnauthorized
                     | Some signature \<Rightarrow>
                         if \<not> validUserTokenSignature (acc_crypto f) headerB64 payloadB64 signature secret
                         then fail ErrUnauthorized
                         else (case decodeUserTokenClaims payloadB64 of
                                 None \<Rightarrow> fail ErrUnauthorized
                               | Some claims \<Rightarrow>
                                   call (acc_now f) (\<lambda>now.
                                   if Unix now \<ge> utc_Exp claims \<or> exceedsUserTokenMaxLifetime claims
                                   then fail ErrUnauthorized
                                   else ok (SS_OrgID secretRecord, utc_Sub claims)))))))"

end
