(* ===== verification/Delivery.thy ===== *)
theory Delivery
  imports OrgFacade AccessKeys
begin

text \<open>
  \<open>internal/delivery\<close>: the outbound webhook channel. Endpoints and outbox events (\<open>types.go\<close>), the
  retry schedule (\<open>schedule.go\<close>), Standard Webhooks signing (\<open>signing.go\<close>) and the facade over the
  driven ports (\<open>facade.go\<close>, \<open>port.go\<close>).
\<close>

section \<open>Errors (errors.go)\<close>

definition dlv_ErrNotFound :: go_error where
  "dlv_ErrNotFound = not_found_error ''event not found''"

definition dlv_ErrValidation :: "string \<Rightarrow> string \<Rightarrow> go_error" where
  "dlv_ErrValidation field issue = validation_error field issue"

definition dlv_ErrInvalidCursor :: go_error where
  "dlv_ErrInvalidCursor = validation_error ''cursor'' ''malformed pagination cursor''"

definition dlv_ErrNoEndpoint :: go_error where
  "dlv_ErrNoEndpoint = validation_error ''endpoint'' ''no webhook endpoint is configured''"

definition dlv_ErrEndpointCap :: "int \<Rightarrow> go_error" where
  "dlv_ErrEndpointCap cap =
     validation_error ''url'' (''organization already has the maximum of '' @ itoa cap @ '' webhook endpoints'')"

section \<open>Endpoints and events (types.go)\<close>

type_synonym EndpointID = string
type_synonym EventID = string

datatype EndpointStatus = EndpointStatusEnabled | EndpointStatusDisabled | EndpointStatusDisabledAuto

text \<open>A nil \<open>EventTypes\<close> (every type) is \<open>None\<close>; it differs from the empty filter.\<close>

record Endpoint =
  EP_ID :: EndpointID
  EP_OrgID :: OrgID
  EP_URL :: string
  EP_EventTypes :: "string list option"
  EP_Status :: EndpointStatus
  EP_ConsecutiveFailures :: int
  EP_CreatedAt :: time

definition EP_IsEnabled :: "Endpoint \<Rightarrow> bool" where
  "EP_IsEnabled e \<longleftrightarrow> EP_Status e = EndpointStatusEnabled"

definition MatchesEventType :: "Endpoint \<Rightarrow> string \<Rightarrow> bool" where
  "MatchesEventType e eventType =
     (case EP_EventTypes e of None \<Rightarrow> True | Some ts \<Rightarrow> containsString ts eventType)"

definition EventTypeTriggerEvent :: string where
  "EventTypeTriggerEvent = ''trigger.event''"

definition EventTypeConnectionExpired :: string where
  "EventTypeConnectionExpired = ''connection.expired''"

definition EventTypeWebhookTest :: string where
  "EventTypeWebhookTest = ''webhook.test''"

definition KnownEventTypes :: "string list" where
  "KnownEventTypes = [EventTypeTriggerEvent, EventTypeConnectionExpired, EventTypeWebhookTest]"

fun isKnownEventType_in :: "string list \<Rightarrow> string \<Rightarrow> bool" where
  "isKnownEventType_in [] eventType = False"
| "isKnownEventType_in (known # rest) eventType =
     (if eventType = known then True else isKnownEventType_in rest eventType)"

definition isKnownEventType :: "string \<Rightarrow> bool" where
  "isKnownEventType eventType = isKnownEventType_in KnownEventTypes eventType"

fun unknown_event_type :: "string list \<Rightarrow> go_error option" where
  "unknown_event_type [] = None"
| "unknown_event_type (t # ts) =
     (if \<not> isKnownEventType t
      then Some (dlv_ErrValidation ''eventTypes'' (''unknown event type '' @ quoted t))
      else unknown_event_type ts)"

definition ValidateEventTypeFilter :: "string list option \<Rightarrow> go_error option" where
  "ValidateEventTypeFilter eventTypes =
     (case eventTypes of
        None \<Rightarrow> None
      | Some ts \<Rightarrow>
          if ts = [] then Some (dlv_ErrValidation ''eventTypes''
            ''must name at least one event type, or be omitted to match every type'')
          else unknown_event_type ts)"

definition ValidateEndpointURL :: "string \<Rightarrow> go_error option" where
  "ValidateEndpointURL raw =
     (let bad = Some (dlv_ErrValidation ''url'' ''must be an absolute http(s) URL'') in
      case url_Parse raw of
        None \<Rightarrow> bad
      | Some parsed \<Rightarrow>
          if url_Host parsed = [] \<or> (url_Scheme parsed \<noteq> ''http'' \<and> url_Scheme parsed \<noteq> ''https'')
          then bad else None)"

datatype Status = StatusPending | StatusDelivered | StatusFailed | StatusNoEndpoint

fun status_text :: "Status \<Rightarrow> string" where
  "status_text StatusPending = ''PENDING''"
| "status_text StatusDelivered = ''DELIVERED''"
| "status_text StatusFailed = ''FAILED''"
| "status_text StatusNoEndpoint = ''NO_ENDPOINT''"

definition TerminalStatuses :: "Status list" where
  "TerminalStatuses = [StatusDelivered, StatusFailed, StatusNoEndpoint]"

definition IsTerminal :: "Status \<Rightarrow> bool" where
  "IsTerminal status \<longleftrightarrow> list_ex (\<lambda>terminal. status = terminal) TerminalStatuses"

text \<open>An empty \<open>EndpointID\<close> means that the event addresses no endpoint.\<close>

record Event =
  Ev_ID :: EventID
  Ev_OrgID :: OrgID
  Ev_EndpointID :: EndpointID
  Ev_Type :: string
  Ev_Body :: string
  Ev_Status :: Status
  Ev_Attempts :: int
  Ev_NextAttemptAt :: time
  Ev_LastAttemptAt :: "time option"
  Ev_CreatedAt :: time

text \<open>\<open>data\<close> is any JSON value; Go's nil is \<open>None\<close>. Marshalling a JSON value cannot fail.\<close>

definition marshalEnvelope :: "EventID \<Rightarrow> string \<Rightarrow> json option \<Rightarrow> time \<Rightarrow> string" where
  "marshalEnvelope i eventType data now =
     marshal (JObj [(''id'', JStr i), (''type'', JStr eventType),
       (''createdAt'', JStr (format_RFC3339Nano now)),
       (''data'', (case data of None \<Rightarrow> JObj [] | Some d \<Rightarrow> d))])"

section \<open>The retry schedule (schedule.go)\<close>

definition MaxAttempts :: int where
  "MaxAttempts = 10"

definition afterFailureDelays :: "duration list" where
  "afterFailureDelays = [5 * second, 5 * minute, 30 * minute, 2 * hour, 5 * hour, 10 * hour,
     14 * hour, 20 * hour, 24 * hour]"

definition jitterFraction :: rat where
  "jitterFraction = 1 / 10"

definition IsExhausted :: "int \<Rightarrow> bool" where
  "IsExhausted attempts \<longleftrightarrow> attempts \<ge> MaxAttempts"

definition delayIndex :: "int \<Rightarrow> nat" where
  "delayIndex attemptsSoFar =
     (let index = attemptsSoFar - 1;
          index = (if index < 0 then 0 else index);
          index = (if index \<ge> int (length afterFailureDelays)
                   then int (length afterFailureDelays) - 1 else index)
      in nat index)"

text \<open>
  The code computes the jitter in \<open>float64\<close>; the model computes it in the rationals, and
  \<open>time.Duration(x)\<close> truncates toward zero. The two differ by at most the rounding of a product
  below \<open>2 ^ 53\<close>, that is by a nanosecond.
\<close>

definition trunc :: "rat \<Rightarrow> int" where
  "trunc x = (if x < 0 then \<lceil>x\<rceil> else \<lfloor>x\<rfloor>)"

definition NextAttempt :: "time \<Rightarrow> int \<Rightarrow> rat \<Rightarrow> time" where
  "NextAttempt now attemptsSoFar jitter =
     (let delay = afterFailureDelays ! delayIndex attemptsSoFar;
          spread = of_int delay * jitterFraction;
          offset = (jitter * 2 - 1) * spread
      in now + (delay + trunc offset))"

section \<open>Signing (signing.go)\<close>

record SignedHeaders =
  SH_ID :: string
  SH_Timestamp :: string
  SH_Signature :: string

definition SignaturePrefix :: string where
  "SignaturePrefix = ''v1,''"

definition signedContent :: "string \<Rightarrow> string \<Rightarrow> string \<Rightarrow> string" where
  "signedContent i timestamp body = i @ ''.'' @ timestamp @ ''.'' @ body"

definition decodeSecretKey :: "string \<Rightarrow> go_error + string" where
  "decodeSecretKey secret =
     (case DecodeString StdEncoding (TrimPrefix secret WebhookSecretPrefixText) of
        None \<Rightarrow> Inl (OtherError ''decode webhook signing secret'')
      | Some key \<Rightarrow> Inr key)"

definition signatureValue :: "crypto \<Rightarrow> string \<Rightarrow> string \<Rightarrow> go_error + string" where
  "signatureValue c content secret =
     (case decodeSecretKey secret of
        Inl e \<Rightarrow> Inl e
      | Inr key \<Rightarrow> Inr (EncodeToString StdEncoding (hmacSHA256 c key content)))"

fun signature_values :: "crypto \<Rightarrow> string \<Rightarrow> string list \<Rightarrow> go_error + string list" where
  "signature_values c content [] = Inr []"
| "signature_values c content (secret # secrets) =
     (case signatureValue c content secret of
        Inl e \<Rightarrow> Inl e
      | Inr v \<Rightarrow>
          (case signature_values c content secrets of
             Inl e \<Rightarrow> Inl e
           | Inr vs \<Rightarrow> Inr ((SignaturePrefix @ v) # vs)))"

definition Sign :: "crypto \<Rightarrow> EventID \<Rightarrow> time \<Rightarrow> string \<Rightarrow> string list \<Rightarrow> go_error + SignedHeaders" where
  "Sign c i timestamp body secrets =
     (let ts = itoa (Unix timestamp);
          content = signedContent i ts body
      in case signature_values c content secrets of
           Inl e \<Rightarrow> Inl e
         | Inr vs \<Rightarrow> Inr \<lparr>SH_ID = i, SH_Timestamp = ts, SH_Signature = Join vs '' ''\<rparr>)"

definition SH_Headers :: "SignedHeaders \<Rightarrow> (string \<times> string) list" where
  "SH_Headers h = [(''webhook-id'', SH_ID h), (''webhook-timestamp'', SH_Timestamp h),
     (''webhook-signature'', SH_Signature h)]"

section \<open>The facade and its ports (facade.go, port.go)\<close>

type_synonym EventListCursor = "time \<times> EventID"

text \<open>The caller's status filter is any text, compared with the stored status.\<close>

record EventListFilter =
  LF_Type :: string
  LF_DeliveryStatus :: string
  LF_Cursor :: "EventListCursor option"
  LF_Limit :: int

record DeliveryLogEntry =
  DLE_OrgID :: OrgID
  DLE_EventID :: string
  DLE_EventType :: string
  DLE_Attempt :: int
  DLE_Status :: int
  DLE_DurationMs :: int

record 's RetentionReader =
  rr_ListOrgIDs :: "('s, OrgID list) act"
  rr_EffectiveEventRetentionDays :: "OrgID \<Rightarrow> ('s, int) act"

text \<open>
  \<open>Post\<close> answers a status and an error, as the Go signature does. The recorder, the metrics, the
  retention reader and the outbox statistics may be nil: \<open>None\<close>.
\<close>

record 's dlv_facade =
  dlv_repo_SaveEndpoint :: "Endpoint \<Rightarrow> ('s, unit) act"
  dlv_repo_FindEndpoint :: "OrgID \<Rightarrow> ('s, Endpoint option) act"
  dlv_repo_FindEndpointByID :: "OrgID \<Rightarrow> EndpointID \<Rightarrow> ('s, Endpoint option) act"
  dlv_repo_ListEndpoints :: "OrgID \<Rightarrow> ('s, Endpoint list) act"
  dlv_repo_DeleteEndpoint :: "OrgID \<Rightarrow> EndpointID \<Rightarrow> ('s, unit) act"
  dlv_repo_SaveEvent :: "Event \<Rightarrow> ('s, unit) act"
  dlv_repo_FindEvent :: "OrgID \<Rightarrow> EventID \<Rightarrow> ('s, Event option) act"
  dlv_repo_ListEventsPage :: "OrgID \<Rightarrow> EventListFilter \<Rightarrow> ('s, Event list) act"
  dlv_repo_PurgeTerminalOlderThan :: "OrgID \<Rightarrow> time \<Rightarrow> ('s, int) act"
  dlv_workQueue_ClaimDue :: "time \<Rightarrow> duration \<Rightarrow> int \<Rightarrow> ('s, Event list) act"
  dlv_secrets_IssueWebhookSecret :: "OrgID \<Rightarrow> string \<Rightarrow> ('s, IssuedWebhookSecret) act"
  dlv_secrets_RotateWebhookSecret :: "OrgID \<Rightarrow> string \<Rightarrow> int option \<Rightarrow> ('s, RotateWebhookSecretResult) act"
  dlv_secrets_ActiveWebhookSecrets :: "OrgID \<Rightarrow> string \<Rightarrow> ('s, string list) act"
  dlv_secrets_WebhookSecretPrefix :: "OrgID \<Rightarrow> string \<Rightarrow> ('s, string) act"
  dlv_caller_Post :: "string \<Rightarrow> (string \<times> string) list \<Rightarrow> string \<Rightarrow> duration \<Rightarrow> 's \<Rightarrow> (int \<times> go_error option) \<times> 's"
  dlv_recorder :: "(DeliveryLogEntry \<Rightarrow> ('s, unit) act) option"
  dlv_metrics :: "(string \<Rightarrow> bool \<Rightarrow> 's \<Rightarrow> 's) option"
  dlv_outboxStats :: "(time \<Rightarrow> ('s, int \<times> duration) act) option"
  dlv_retention :: "'s RetentionReader option"
  dlv_crypto :: crypto
  dlv_newEndpointID :: "'s \<Rightarrow> string \<times> 's"
  dlv_newEventID :: "'s \<Rightarrow> string \<times> 's"
  dlv_deliveryTimeout :: duration
  dlv_endpointCap :: int
  dlv_autoDisableThreshold :: int
  dlv_jitter :: "'s \<Rightarrow> rat \<times> 's"
  dlv_nudge :: "'s \<Rightarrow> 's"
  dlv_now :: "'s \<Rightarrow> time \<times> 's"

subsection \<open>Purge and outbox statistics\<close>

definition purge_org :: "'s dlv_facade \<Rightarrow> 's RetentionReader \<Rightarrow> time \<Rightarrow> OrgID \<Rightarrow> ('s, unit) act" where
  "purge_org f retention now org =
     attempt (rr_EffectiveEventRetentionDays retention org) (\<lambda>days.
     if days \<le> 0 then ok ()
     else attempt (dlv_repo_PurgeTerminalOlderThan f org (now - days * day)) (\<lambda>_. ok ()))"

definition dlv_PurgeOnce :: "'s dlv_facade \<Rightarrow> ('s, unit) act" where
  "dlv_PurgeOnce f =
     (case dlv_retention f of
        None \<Rightarrow> ok ()
      | Some retention \<Rightarrow>
          attempt (rr_ListOrgIDs retention) (\<lambda>orgs.
          call (dlv_now f) (\<lambda>now.
          for_each (purge_org f retention now) orgs)))"

definition dlv_OutboxPendingDepth :: "'s dlv_facade \<Rightarrow> ('s, int) act" where
  "dlv_OutboxPendingDepth f =
     (case dlv_outboxStats f of
        None \<Rightarrow> ok 0
      | Some stats \<Rightarrow> call (dlv_now f) (\<lambda>now. attempt (stats now) (\<lambda>(depth, age). ok depth)))"

definition dlv_OutboxOldestPendingAge :: "'s dlv_facade \<Rightarrow> ('s, duration) act" where
  "dlv_OutboxOldestPendingAge f =
     (case dlv_outboxStats f of
        None \<Rightarrow> ok 0
      | Some stats \<Rightarrow> call (dlv_now f) (\<lambda>now. attempt (stats now) (\<lambda>(depth, age). ok age)))"

subsection \<open>Endpoints\<close>

record SetEndpointResult =
  SER_ID :: EndpointID
  SER_URL :: string
  SER_CreatedAt :: time
  SER_Secret :: string

definition updateEndpointURL :: "'s dlv_facade \<Rightarrow> Endpoint \<Rightarrow> string \<Rightarrow> ('s, SetEndpointResult) act" where
  "updateEndpointURL f existing url =
     (let updated = existing\<lparr>EP_URL := url\<rparr> in
      attempt (dlv_repo_SaveEndpoint f updated) (\<lambda>_.
      ok \<lparr>SER_ID = EP_ID updated, SER_URL = EP_URL updated, SER_CreatedAt = EP_CreatedAt updated,
          SER_Secret = []\<rparr>))"

definition createEndpoint ::
  "'s dlv_facade \<Rightarrow> OrgID \<Rightarrow> string \<Rightarrow> string list option \<Rightarrow> ('s, Endpoint \<times> string) act" where
  "createEndpoint f org url eventTypes =
     call (dlv_newEndpointID f) (\<lambda>i.
     call (dlv_now f) (\<lambda>now.
     let endpoint = \<lparr>EP_ID = i, EP_OrgID = org, EP_URL = url, EP_EventTypes = eventTypes,
           EP_Status = EndpointStatusEnabled, EP_ConsecutiveFailures = 0, EP_CreatedAt = now\<rparr> in
     attempt (dlv_secrets_IssueWebhookSecret f org (EP_ID endpoint)) (\<lambda>issued.
     attempt (dlv_repo_SaveEndpoint f endpoint) (\<lambda>_.
     ok (endpoint, IWS_Secret issued)))))"

definition dlv_SetEndpoint :: "'s dlv_facade \<Rightarrow> OrgID \<Rightarrow> string \<Rightarrow> ('s, SetEndpointResult) act" where
  "dlv_SetEndpoint f org url =
     check (ValidateEndpointURL url)
     (attempt (dlv_repo_FindEndpoint f org) (\<lambda>existing.
      case existing of
        Some e \<Rightarrow> updateEndpointURL f e url
      | None \<Rightarrow>
          attempt (createEndpoint f org url None) (\<lambda>(endpoint, secret).
          ok \<lparr>SER_ID = EP_ID endpoint, SER_URL = EP_URL endpoint, SER_CreatedAt = EP_CreatedAt endpoint,
              SER_Secret = secret\<rparr>)))"

record EndpointView =
  EV_ID :: EndpointID
  EV_URL :: string
  EV_SecretPrefix :: string
  EV_CreatedAt :: time

definition dlv_GetEndpoint :: "'s dlv_facade \<Rightarrow> OrgID \<Rightarrow> ('s, EndpointView) act" where
  "dlv_GetEndpoint f org =
     attempt (dlv_repo_FindEndpoint f org) (\<lambda>endpoint.
     case endpoint of
       None \<Rightarrow> fail dlv_ErrNotFound
     | Some e \<Rightarrow>
         attempt (dlv_secrets_WebhookSecretPrefix f org (EP_ID e)) (\<lambda>prefix.
         ok \<lparr>EV_ID = EP_ID e, EV_URL = EP_URL e, EV_SecretPrefix = prefix, EV_CreatedAt = EP_CreatedAt e\<rparr>))"

record RotateSecretResult =
  RSR_Secret :: string
  RSR_Prefix :: string
  RSR_OverlapExpiresAt :: time

definition rotateSecretForEndpoint ::
  "'s dlv_facade \<Rightarrow> OrgID \<Rightarrow> Endpoint \<Rightarrow> int option \<Rightarrow> ('s, RotateSecretResult) act" where
  "rotateSecretForEndpoint f org endpoint overlapHours =
     attempt (dlv_secrets_RotateWebhookSecret f org (EP_ID endpoint) overlapHours) (\<lambda>rotated.
     ok \<lparr>RSR_Secret = RWS_Secret rotated, RSR_Prefix = RWS_Prefix rotated,
         RSR_OverlapExpiresAt = RWS_OverlapExpiresAt rotated\<rparr>)"

definition dlv_RotateSecret :: "'s dlv_facade \<Rightarrow> OrgID \<Rightarrow> int option \<Rightarrow> ('s, RotateSecretResult) act" where
  "dlv_RotateSecret f org overlapHours =
     attempt (dlv_repo_FindEndpoint f org) (\<lambda>endpoint.
     case endpoint of
       None \<Rightarrow> fail dlv_ErrNoEndpoint
     | Some e \<Rightarrow> rotateSecretForEndpoint f org e overlapHours)"

subsection \<open>The outbox\<close>

definition enqueueToEndpoint ::
  "'s dlv_facade \<Rightarrow> Endpoint \<Rightarrow> string \<Rightarrow> json option \<Rightarrow> ('s, Event) act" where
  "enqueueToEndpoint f endpoint eventType data =
     call (dlv_now f) (\<lambda>now.
     call (dlv_newEventID f) (\<lambda>i.
     let event = \<lparr>Ev_ID = i, Ev_OrgID = EP_OrgID endpoint, Ev_EndpointID = EP_ID endpoint,
           Ev_Type = eventType, Ev_Body = marshalEnvelope i eventType data now,
           Ev_Status = StatusPending, Ev_Attempts = 0, Ev_NextAttemptAt = now,
           Ev_LastAttemptAt = None, Ev_CreatedAt = now\<rparr> in
     attempt (dlv_repo_SaveEvent f event) (\<lambda>_.
     call (\<lambda>s. ((), dlv_nudge f s)) (\<lambda>_.
     ok event))))"

definition enqueueUnrouted :: "'s dlv_facade \<Rightarrow> OrgID \<Rightarrow> string \<Rightarrow> json option \<Rightarrow> ('s, Event) act" where
  "enqueueUnrouted f org eventType data =
     call (dlv_now f) (\<lambda>now.
     call (dlv_newEventID f) (\<lambda>i.
     let event = \<lparr>Ev_ID = i, Ev_OrgID = org, Ev_EndpointID = [],
           Ev_Type = eventType, Ev_Body = marshalEnvelope i eventType data now,
           Ev_Status = StatusNoEndpoint, Ev_Attempts = 0, Ev_NextAttemptAt = now,
           Ev_LastAttemptAt = None, Ev_CreatedAt = now\<rparr> in
     attempt (dlv_repo_SaveEvent f event) (\<lambda>_.
     ok event)))"

definition dlv_SendTest :: "'s dlv_facade \<Rightarrow> OrgID \<Rightarrow> ('s, Event) act" where
  "dlv_SendTest f org =
     attempt (dlv_repo_FindEndpoint f org) (\<lambda>endpoint.
     case endpoint of
       None \<Rightarrow> fail dlv_ErrNoEndpoint
     | Some e \<Rightarrow> enqueueToEndpoint f e EventTypeWebhookTest (Some (JObj [])))"

definition matchingEnabledEndpoints :: "Endpoint list \<Rightarrow> string \<Rightarrow> Endpoint list" where
  "matchingEnabledEndpoints endpoints eventType =
     filter (\<lambda>e. EP_IsEnabled e \<and> MatchesEventType e eventType) endpoints"

definition dlv_Enqueue :: "'s dlv_facade \<Rightarrow> OrgID \<Rightarrow> string \<Rightarrow> json option \<Rightarrow> ('s, Event list) act" where
  "dlv_Enqueue f org eventType data =
     attempt (dlv_repo_ListEndpoints f org) (\<lambda>endpoints.
     let matching = matchingEnabledEndpoints endpoints eventType in
     if length matching = 0 then
       attempt (enqueueUnrouted f org eventType data) (\<lambda>event. ok [event])
     else map_each (\<lambda>endpoint. enqueueToEndpoint f endpoint eventType data) matching)"

subsection \<open>Many endpoints per organization\<close>

record EndpointListItem =
  ELI_ID :: EndpointID
  ELI_URL :: string
  ELI_EventTypes :: "string list option"
  ELI_Status :: EndpointStatus
  ELI_ConsecutiveFailures :: int
  ELI_SecretPrefix :: string
  ELI_CreatedAt :: time

definition endpointListItemFrom :: "Endpoint \<Rightarrow> string \<Rightarrow> EndpointListItem" where
  "endpointListItemFrom endpoint secretPrefix =
     \<lparr>ELI_ID = EP_ID endpoint, ELI_URL = EP_URL endpoint, ELI_EventTypes = EP_EventTypes endpoint,
      ELI_Status = EP_Status endpoint, ELI_ConsecutiveFailures = EP_ConsecutiveFailures endpoint,
      ELI_SecretPrefix = secretPrefix, ELI_CreatedAt = EP_CreatedAt endpoint\<rparr>"

definition dlv_ListEndpoints :: "'s dlv_facade \<Rightarrow> OrgID \<Rightarrow> ('s, EndpointListItem list) act" where
  "dlv_ListEndpoints f org =
     attempt (dlv_repo_ListEndpoints f org) (\<lambda>endpoints.
     map_each (\<lambda>endpoint.
       attempt (dlv_secrets_WebhookSecretPrefix f org (EP_ID endpoint)) (\<lambda>prefix.
       ok (endpointListItemFrom endpoint prefix))) endpoints)"

record CreateEndpointResult =
  CER_ID :: EndpointID
  CER_URL :: string
  CER_EventTypes :: "string list option"
  CER_Status :: EndpointStatus
  CER_CreatedAt :: time
  CER_Secret :: string

definition dlv_CreateEndpoint ::
  "'s dlv_facade \<Rightarrow> OrgID \<Rightarrow> string \<Rightarrow> string list option \<Rightarrow> ('s, CreateEndpointResult) act" where
  "dlv_CreateEndpoint f org url eventTypes =
     check (ValidateEndpointURL url)
     (check (ValidateEventTypeFilter eventTypes)
      (attempt (dlv_repo_ListEndpoints f org) (\<lambda>existing.
       if int (length existing) \<ge> dlv_endpointCap f then fail (dlv_ErrEndpointCap (dlv_endpointCap f))
       else
         attempt (createEndpoint f org url eventTypes) (\<lambda>(endpoint, secret).
         ok \<lparr>CER_ID = EP_ID endpoint, CER_URL = EP_URL endpoint, CER_EventTypes = EP_EventTypes endpoint,
             CER_Status = EP_Status endpoint, CER_CreatedAt = EP_CreatedAt endpoint,
             CER_Secret = secret\<rparr>))))"

record UpdateEndpointResult =
  UER_ID :: EndpointID
  UER_URL :: string
  UER_EventTypes :: "string list option"
  UER_Status :: EndpointStatus
  UER_ConsecutiveFailures :: int
  UER_CreatedAt :: time

definition updateEndpointResultFrom :: "Endpoint \<Rightarrow> UpdateEndpointResult" where
  "updateEndpointResultFrom endpoint =
     \<lparr>UER_ID = EP_ID endpoint, UER_URL = EP_URL endpoint, UER_EventTypes = EP_EventTypes endpoint,
      UER_Status = EP_Status endpoint, UER_ConsecutiveFailures = EP_ConsecutiveFailures endpoint,
      UER_CreatedAt = EP_CreatedAt endpoint\<rparr>"

definition dlv_UpdateEndpoint ::
  "'s dlv_facade \<Rightarrow> OrgID \<Rightarrow> EndpointID \<Rightarrow> string \<Rightarrow> string list option \<Rightarrow> ('s, UpdateEndpointResult) act" where
  "dlv_UpdateEndpoint f org i url eventTypes =
     check (ValidateEndpointURL url)
     (check (ValidateEventTypeFilter eventTypes)
      (attempt (dlv_repo_FindEndpointByID f org i) (\<lambda>endpoint.
       case endpoint of
         None \<Rightarrow> fail dlv_ErrNotFound
       | Some e \<Rightarrow>
           (let updated = e\<lparr>EP_URL := url, EP_EventTypes := eventTypes\<rparr> in
            attempt (dlv_repo_SaveEndpoint f updated) (\<lambda>_. ok (updateEndpointResultFrom updated))))))"

definition dlv_DeleteEndpoint :: "'s dlv_facade \<Rightarrow> OrgID \<Rightarrow> EndpointID \<Rightarrow> ('s, unit) act" where
  "dlv_DeleteEndpoint f org i =
     attempt (dlv_repo_FindEndpointByID f org i) (\<lambda>endpoint.
     case endpoint of
       None \<Rightarrow> fail dlv_ErrNotFound
     | Some _ \<Rightarrow> dlv_repo_DeleteEndpoint f org i)"

definition dlv_EnableEndpoint :: "'s dlv_facade \<Rightarrow> OrgID \<Rightarrow> EndpointID \<Rightarrow> ('s, UpdateEndpointResult) act" where
  "dlv_EnableEndpoint f org i =
     attempt (dlv_repo_FindEndpointByID f org i) (\<lambda>endpoint.
     case endpoint of
       None \<Rightarrow> fail dlv_ErrNotFound
     | Some e \<Rightarrow>
         (let updated = e\<lparr>EP_Status := EndpointStatusEnabled, EP_ConsecutiveFailures := 0\<rparr> in
          attempt (dlv_repo_SaveEndpoint f updated) (\<lambda>_. ok (updateEndpointResultFrom updated))))"

definition dlv_DisableEndpoint :: "'s dlv_facade \<Rightarrow> OrgID \<Rightarrow> EndpointID \<Rightarrow> ('s, UpdateEndpointResult) act" where
  "dlv_DisableEndpoint f org i =
     attempt (dlv_repo_FindEndpointByID f org i) (\<lambda>endpoint.
     case endpoint of
       None \<Rightarrow> fail dlv_ErrNotFound
     | Some e \<Rightarrow>
         (let updated = e\<lparr>EP_Status := EndpointStatusDisabled\<rparr> in
          attempt (dlv_repo_SaveEndpoint f updated) (\<lambda>_. ok (updateEndpointResultFrom updated))))"

definition dlv_RotateEndpointSecret ::
  "'s dlv_facade \<Rightarrow> OrgID \<Rightarrow> EndpointID \<Rightarrow> int option \<Rightarrow> ('s, RotateSecretResult) act" where
  "dlv_RotateEndpointSecret f org i overlapHours =
     attempt (dlv_repo_FindEndpointByID f org i) (\<lambda>endpoint.
     case endpoint of
       None \<Rightarrow> fail dlv_ErrNotFound
     | Some e \<Rightarrow> rotateSecretForEndpoint f org e overlapHours)"

subsection \<open>Reading the outbox\<close>

definition defaultListLimit :: int where
  "defaultListLimit = 50"

definition maxListLimit :: int where
  "maxListLimit = 200"

record ListEventsParams =
  LEP_Type :: string
  LEP_DeliveryStatus :: string
  LEP_Cursor :: string
  LEP_Limit :: int

record ListEventsResult =
  LER_Items :: "Event list"
  LER_NextCursor :: string

definition normalizeListLimit :: "int \<Rightarrow> int" where
  "normalizeListLimit requested =
     (if requested \<le> 0 then defaultListLimit
      else if requested > maxListLimit then maxListLimit
      else requested)"

definition encodeEventCursor :: "time \<Rightarrow> EventID \<Rightarrow> string" where
  "encodeEventCursor createdAt i = EncodeCursor [format_RFC3339Nano createdAt, i]"

definition decodeEventCursor :: "string \<Rightarrow> go_error + EventListCursor option" where
  "decodeEventCursor raw =
     (case DecodeCursor raw 2 of
        Inl _ \<Rightarrow> Inl dlv_ErrInvalidCursor
      | Inr None \<Rightarrow> Inr None
      | Inr (Some parts) \<Rightarrow>
          (case parse_RFC3339Nano (parts ! 0) of
             None \<Rightarrow> Inl dlv_ErrInvalidCursor
           | Some createdAt \<Rightarrow> Inr (Some (createdAt, parts ! 1))))"

definition paginateEvents :: "Event list \<Rightarrow> int \<Rightarrow> ListEventsResult" where
  "paginateEvents items limit =
     (let hasMore = int (length items) > limit;
          shown = (if hasMore then take (nat limit) items else items)
      in \<lparr>LER_Items = shown,
          LER_NextCursor = (if hasMore
            then encodeEventCursor (Ev_CreatedAt (last shown)) (Ev_ID (last shown)) else [])\<rparr>)"

definition dlv_ListEvents :: "'s dlv_facade \<Rightarrow> OrgID \<Rightarrow> ListEventsParams \<Rightarrow> ('s, ListEventsResult) act" where
  "dlv_ListEvents f org params =
     attempt (lift (decodeEventCursor (LEP_Cursor params))) (\<lambda>cursor.
     let limit = normalizeListLimit (LEP_Limit params) in
     attempt (dlv_repo_ListEventsPage f org
       \<lparr>LF_Type = LEP_Type params, LF_DeliveryStatus = LEP_DeliveryStatus params,
        LF_Cursor = cursor, LF_Limit = limit + 1\<rparr>) (\<lambda>items.
     ok (paginateEvents items limit)))"

definition dlv_Redeliver :: "'s dlv_facade \<Rightarrow> OrgID \<Rightarrow> EventID \<Rightarrow> ('s, Event) act" where
  "dlv_Redeliver f org i =
     attempt (dlv_repo_FindEvent f org i) (\<lambda>event.
     case event of
       None \<Rightarrow> fail dlv_ErrNotFound
     | Some e \<Rightarrow>
         call (dlv_now f) (\<lambda>now.
         let requeued = e\<lparr>Ev_Status := StatusPending, Ev_NextAttemptAt := now\<rparr> in
         attempt (dlv_repo_SaveEvent f requeued) (\<lambda>_.
         call (\<lambda>s. ((), dlv_nudge f s)) (\<lambda>_.
         ok requeued))))"

subsection \<open>Dispatching\<close>

definition claimBatchLimit :: int where
  "claimBatchLimit = 50"

definition leaseMargin :: duration where
  "leaseMargin = 5 * second"

definition resolveDispatchEndpoint :: "'s dlv_facade \<Rightarrow> Event \<Rightarrow> ('s, Endpoint option) act" where
  "resolveDispatchEndpoint f event =
     (if Ev_EndpointID event \<noteq> [] then dlv_repo_FindEndpointByID f (Ev_OrgID event) (Ev_EndpointID event)
      else dlv_repo_FindEndpoint f (Ev_OrgID event))"

definition isSuccessStatus :: "int \<Rightarrow> bool" where
  "isSuccessStatus status \<longleftrightarrow> status \<ge> 200 \<and> status < 300"

text \<open>
  \<open>jitter\<close> is read only on the branch that reschedules; the model passes the value it would
  give, which \<open>dispatchOne\<close> draws there.
\<close>

definition applyAttemptOutcome :: "Event \<Rightarrow> int \<Rightarrow> go_error option \<Rightarrow> time \<Rightarrow> int \<Rightarrow> rat \<Rightarrow> Event" where
  "applyAttemptOutcome event status postErr now attemptNumber jitter =
     (let updated = event\<lparr>Ev_LastAttemptAt := Some now, Ev_Attempts := attemptNumber\<rparr> in
      if postErr = None \<and> isSuccessStatus status then updated\<lparr>Ev_Status := StatusDelivered\<rparr>
      else if IsExhausted (Ev_Attempts updated) then updated\<lparr>Ev_Status := StatusFailed\<rparr>
      else updated\<lparr>Ev_Status := StatusPending,
                   Ev_NextAttemptAt := NextAttempt now (Ev_Attempts updated) jitter\<rparr>)"

definition signAndPost ::
  "'s dlv_facade \<Rightarrow> string \<Rightarrow> Event \<Rightarrow> time \<Rightarrow> string list \<Rightarrow> 's \<Rightarrow> (int \<times> go_error option) \<times> 's" where
  "signAndPost f url event attemptedAt secrets =
     (case Sign (dlv_crypto f) (Ev_ID event) attemptedAt (Ev_Body event) secrets of
        Inl e \<Rightarrow> (\<lambda>s. ((0, Some e), s))
      | Inr headers \<Rightarrow> dlv_caller_Post f url (SH_Headers headers) (Ev_Body event) (dlv_deliveryTimeout f))"

definition applyAutoDisableBookkeeping :: "'s dlv_facade \<Rightarrow> Endpoint \<Rightarrow> Status \<Rightarrow> ('s, unit) act" where
  "applyAutoDisableBookkeeping f endpoint outcome =
     (case outcome of
        StatusDelivered \<Rightarrow>
          if EP_ConsecutiveFailures endpoint = 0 then ok ()
          else dlv_repo_SaveEndpoint f (endpoint\<lparr>EP_ConsecutiveFailures := 0\<rparr>)
      | StatusFailed \<Rightarrow>
          (let n = EP_ConsecutiveFailures endpoint + 1;
               bumped = endpoint\<lparr>EP_ConsecutiveFailures := n\<rparr>
           in dlv_repo_SaveEndpoint f
                (if n \<ge> dlv_autoDisableThreshold f
                 then bumped\<lparr>EP_Status := EndpointStatusDisabledAuto\<rparr> else bumped))
      | _ \<Rightarrow> ok ())"

definition recordAttemptMetric :: "'s dlv_facade \<Rightarrow> string \<Rightarrow> int \<Rightarrow> 's \<Rightarrow> unit \<times> 's" where
  "recordAttemptMetric f eventType status s =
     (case dlv_metrics f of None \<Rightarrow> ((), s) | Some m \<Rightarrow> ((), m eventType (isSuccessStatus status) s))"

definition recordAttempt :: "'s dlv_facade \<Rightarrow> Event \<Rightarrow> int \<Rightarrow> int \<Rightarrow> duration \<Rightarrow> ('s, unit) act" where
  "recordAttempt f event attemptNumber status duration =
     call (recordAttemptMetric f (Ev_Type event) status) (\<lambda>_.
     case dlv_recorder f of
       None \<Rightarrow> ok ()
     | Some record \<Rightarrow> record \<lparr>DLE_OrgID = Ev_OrgID event, DLE_EventID = Ev_ID event,
         DLE_EventType = Ev_Type event, DLE_Attempt = attemptNumber, DLE_Status = status,
         DLE_DurationMs = Milliseconds duration\<rparr>)"

definition dispatchOne :: "'s dlv_facade \<Rightarrow> Event \<Rightarrow> ('s, unit) act" where
  "dispatchOne f event =
     attempt (resolveDispatchEndpoint f event) (\<lambda>found.
     case found of
       None \<Rightarrow> ok ()
     | Some endpoint \<Rightarrow>
         attempt (dlv_secrets_ActiveWebhookSecrets f (Ev_OrgID event) (EP_ID endpoint)) (\<lambda>secrets.
         let attemptNumber = Ev_Attempts event + 1 in
         call (dlv_now f) (\<lambda>started.
         call (signAndPost f (EP_URL endpoint) event started secrets) (\<lambda>(status, postErr).
         call (dlv_now f) (\<lambda>finished.
         call (dlv_now f) (\<lambda>now.
         call (if (postErr = None \<and> isSuccessStatus status) \<or> IsExhausted attemptNumber
               then (\<lambda>s. (0, s)) else dlv_jitter f) (\<lambda>jitter.
         let updated = applyAttemptOutcome event status postErr now attemptNumber jitter in
         attempt (dlv_repo_SaveEvent f updated) (\<lambda>_.
         attempt (applyAutoDisableBookkeeping f endpoint (Ev_Status updated)) (\<lambda>_.
         recordAttempt f event attemptNumber status (finished - started))))))))))"

definition dlv_DispatchOnce :: "'s dlv_facade \<Rightarrow> ('s, unit) act" where
  "dlv_DispatchOnce f =
     call (dlv_now f) (\<lambda>now.
     let leaseTTL = 2 * dlv_deliveryTimeout f + leaseMargin in
     attempt (dlv_workQueue_ClaimDue f now leaseTTL claimBatchLimit) (\<lambda>events.
     for_each (dispatchOne f) events))"

end
