(* ===== verification/ConnMemory.thy ===== *)
theory ConnMemory
  imports ConnRefresh Logging Delivery
begin

text \<open>
  The in-memory adapter of the connections ports (\<open>driven/memory/repository.go\<close>), the facade
  \<open>driven/memory/configuration.go\<close> builds over it with the scheduling and the event sink wired, and the
  adapters of \<open>internal/app/recorders.go\<close> that connect it to the log and to the outbox.
\<close>

section \<open>The repository\<close>

record conn_store =
  cs_byID :: "(ConnectionID, Connection) table"
  cs_states :: "(string, OAuthState) table"
  cs_refreshLeaseUntil :: "(ConnectionID, time) table"
  cs_reconcileLeaseUntil :: "(ConnectionID, time) table"

definition conn_NewRepository :: conn_store where
  "conn_NewRepository = \<lparr>cs_byID = [], cs_states = [], cs_refreshLeaseUntil = [], cs_reconcileLeaseUntil = []\<rparr>"

definition conn_mem_Save :: "Connection \<Rightarrow> (conn_store, unit) act" where
  "conn_mem_Save connection r = (Inr (), r\<lparr>cs_byID := put (Conn_ID connection) connection (cs_byID r)\<rparr>)"

definition conn_mem_FindByID :: "OrgID \<Rightarrow> ConnectionID \<Rightarrow> (conn_store, Connection option) act" where
  "conn_mem_FindByID org i r =
     (Inr (case map_of (cs_byID r) i of
             None \<Rightarrow> None
           | Some connection \<Rightarrow> if Conn_OrgID connection \<noteq> org then None else Some connection), r)"

definition conn_mem_Update :: "Connection \<Rightarrow> (conn_store, unit) act" where
  "conn_mem_Update connection r =
     (Inr (), r\<lparr>cs_byID := put (Conn_ID connection) connection (cs_byID r),
        cs_refreshLeaseUntil := del (Conn_ID connection) (cs_refreshLeaseUntil r),
        cs_reconcileLeaseUntil := del (Conn_ID connection) (cs_reconcileLeaseUntil r)\<rparr>)"

definition conn_mem_TransitionStatus ::
  "OrgID \<Rightarrow> ConnectionID \<Rightarrow> ConnStatus \<Rightarrow> ConnStatus \<Rightarrow> (conn_store, bool) act" where
  "conn_mem_TransitionStatus org i from_status to_status r =
     (case map_of (cs_byID r) i of
        None \<Rightarrow> (Inr False, r)
      | Some connection \<Rightarrow>
          if Conn_OrgID connection \<noteq> org \<or> Conn_Status connection \<noteq> from_status then (Inr False, r)
          else (Inr True, r\<lparr>cs_byID := put i (connection\<lparr>Conn_Status := to_status\<rparr>) (cs_byID r)\<rparr>))"

definition conn_key :: "Connection \<Rightarrow> time_id" where
  "conn_key c = (Conn_CreatedAt c, Conn_ID c)"

definition sortConnectionsOldestFirst :: "Connection list \<Rightarrow> Connection list" where
  "sortConnectionsOldestFirst items = oldest_first_by conn_key items"

definition sortConnectionsNewestFirst :: "Connection list \<Rightarrow> Connection list" where
  "sortConnectionsNewestFirst items = newest_first conn_key items"

definition lease_runs :: "(ConnectionID, time) table \<Rightarrow> ConnectionID \<Rightarrow> time \<Rightarrow> bool" where
  "lease_runs leases i now \<longleftrightarrow> (case map_of leases i of None \<Rightarrow> False | Some lease \<Rightarrow> lease > now)"

definition isDueForRefreshClaim :: "conn_store \<Rightarrow> Connection \<Rightarrow> time \<Rightarrow> duration \<Rightarrow> bool" where
  "isDueForRefreshClaim r connection now lead =
     (if Conn_Status connection \<noteq> StatusActive then False
      else if (case Conn_TokenExpiresAt connection of None \<Rightarrow> False | Some t \<Rightarrow> t > now + lead) then False
      else \<not> lease_runs (cs_refreshLeaseUntil r) (Conn_ID connection) now)"

definition isDueForReconcileClaim :: "conn_store \<Rightarrow> Connection \<Rightarrow> time \<Rightarrow> duration \<Rightarrow> bool" where
  "isDueForReconcileClaim r connection now interval =
     (if Conn_Status connection \<noteq> StatusActive then False
      else if (case Conn_ReconciledAt connection of None \<Rightarrow> False | Some t \<Rightarrow> t > now + - interval) then False
      else \<not> lease_runs (cs_reconcileLeaseUntil r) (Conn_ID connection) now)"

text \<open>\<open>if len(due) > limit { due = due[:limit] }\<close>, and a lease for each.\<close>

definition first_due :: "(Connection \<Rightarrow> bool) \<Rightarrow> int \<Rightarrow> conn_store \<Rightarrow> Connection list" where
  "first_due due limit r =
     (let ds = sortConnectionsOldestFirst (filter due (rows (cs_byID r)))
      in if int (length ds) > limit then take (nat limit) ds else ds)"

definition lease_all :: "Connection list \<Rightarrow> time \<Rightarrow> (ConnectionID, time) table \<Rightarrow> (ConnectionID, time) table" where
  "lease_all due leaseUntil leases = foldl (\<lambda>t connection. put (Conn_ID connection) leaseUntil t) leases due"

definition conn_mem_ClaimDueRefresh :: "time \<Rightarrow> duration \<Rightarrow> duration \<Rightarrow> int \<Rightarrow> (conn_store, Connection list) act" where
  "conn_mem_ClaimDueRefresh now lead leaseTTL limit r =
     (let due = first_due (\<lambda>c. isDueForRefreshClaim r c now lead) limit r
      in (Inr due, r\<lparr>cs_refreshLeaseUntil := lease_all due (now + leaseTTL) (cs_refreshLeaseUntil r)\<rparr>))"

definition conn_mem_ClaimDueReconcile :: "time \<Rightarrow> duration \<Rightarrow> duration \<Rightarrow> int \<Rightarrow> (conn_store, Connection list) act" where
  "conn_mem_ClaimDueReconcile now interval leaseTTL limit r =
     (let due = first_due (\<lambda>c. isDueForReconcileClaim r c now interval) limit r
      in (Inr due, r\<lparr>cs_reconcileLeaseUntil := lease_all due (now + leaseTTL) (cs_reconcileLeaseUntil r)\<rparr>))"

text \<open>
  \<open>FindByConnectToken\<close> ranges over a Go map; tokens are unique, so the order does not matter.
\<close>

definition conn_mem_FindByConnectToken :: "string \<Rightarrow> (conn_store, Connection option) act" where
  "conn_mem_FindByConnectToken token r = (Inr (find (\<lambda>c. Conn_ConnectToken c = token) (rows (cs_byID r))), r)"

definition conn_mem_FindConnectionForCallback :: "ConnectionID \<Rightarrow> (conn_store, Connection option) act" where
  "conn_mem_FindConnectionForCallback i r = (Inr (map_of (cs_byID r) i), r)"

definition conn_mem_SaveState :: "OAuthState \<Rightarrow> (conn_store, unit) act" where
  "conn_mem_SaveState state r = (Inr (), r\<lparr>cs_states := put (OS_State state) state (cs_states r)\<rparr>)"

definition conn_mem_FindState :: "string \<Rightarrow> (conn_store, OAuthState option) act" where
  "conn_mem_FindState state r = (Inr (map_of (cs_states r) state), r)"

definition conn_mem_MarkStateConsumed :: "string \<Rightarrow> time \<Rightarrow> (conn_store, unit) act" where
  "conn_mem_MarkStateConsumed state consumedAt r =
     (case map_of (cs_states r) state of
        None \<Rightarrow> (Inr (), r)
      | Some found \<Rightarrow> (Inr (), r\<lparr>cs_states := put state (found\<lparr>OS_ConsumedAt := Some consumedAt\<rparr>) (cs_states r)\<rparr>))"

definition conn_isAfterCursor :: "Connection \<Rightarrow> ConnListCursor \<Rightarrow> bool" where
  "conn_isAfterCursor connection cursor =
     (if Conn_CreatedAt connection < fst cursor then True
      else if Conn_CreatedAt connection = fst cursor then Conn_ID connection < snd cursor
      else False)"

definition conn_matchesListFilter :: "Connection \<Rightarrow> OrgID \<Rightarrow> ConnListFilter \<Rightarrow> bool" where
  "conn_matchesListFilter connection org flt =
     (if Conn_OrgID connection \<noteq> org then False
      else if CLF_UserID flt \<noteq> [] \<and> Conn_UserID connection \<noteq> CLF_UserID flt then False
      else (case CLF_Cursor flt of None \<Rightarrow> True | Some cursor \<Rightarrow> conn_isAfterCursor connection cursor))"

definition conn_mem_List :: "OrgID \<Rightarrow> ConnListFilter \<Rightarrow> (conn_store, Connection list) act" where
  "conn_mem_List org flt r =
     (let ms = sortConnectionsNewestFirst (filter (\<lambda>c. conn_matchesListFilter c org flt) (rows (cs_byID r)))
      in (Inr (if CLF_Limit flt > 0 \<and> int (length ms) > CLF_Limit flt then take (nat (CLF_Limit flt)) ms else ms), r))"

definition conn_mem_Delete :: "OrgID \<Rightarrow> ConnectionID \<Rightarrow> (conn_store, unit) act" where
  "conn_mem_Delete org i r =
     (case map_of (cs_byID r) i of
        None \<Rightarrow> (Inr (), r)
      | Some connection \<Rightarrow>
          if Conn_OrgID connection = org then (Inr (), r\<lparr>cs_byID := del i (cs_byID r)\<rparr>) else (Inr (), r))"

definition conn_mem_CountByStatus :: "(conn_store, (ConnStatus \<times> int) list) act" where
  "conn_mem_CountByStatus r =
     (Inr (map (\<lambda>s. (s, int (length (filter (\<lambda>c. Conn_Status c = s) (rows (cs_byID r))))))
         (filter (\<lambda>s. \<exists>c \<in> set (rows (cs_byID r)). Conn_Status c = s)
           [StatusInitiated, StatusActive, StatusExpired, StatusDisconnected])), r)"

section \<open>Adapters (recorders.go)\<close>

definition connectionsLogRecorder :: "'s log_facade \<Rightarrow> ConnLogEntry \<Rightarrow> ('s, unit) act" where
  "connectionsLogRecorder logs entry =
     log_Record logs
       \<lparr>RI_OrgID = CL_OrgID entry, RI_UserID = CL_UserID entry, RI_ConnectionID = CL_ConnectionID entry,
        RI_ToolID = [], RI_ToolSlug = [], RI_Kind = KindOAuthTokenExchange, RI_Status = CL_Status entry,
        RI_DurationMs = CL_DurationMs entry, RI_RequestBody = CL_RequestBody entry,
        RI_ResponseBody = CL_ResponseBody entry, RI_RateLimited = False, RI_EventID = [], RI_Attempt = 0,
        RI_TriggerInstanceID = []\<rparr>"

text \<open>\<open>ExpiredEventData\<close> with its JSON tags, in the order of the struct's fields.\<close>

definition expired_event_json :: "ExpiredEventData \<Rightarrow> json" where
  "expired_event_json data =
     JObj [(''connectionId'', JStr (XD_ConnectionID data)), (''userId'', JStr (XD_UserID data)),
       (''integrationId'', JStr (XD_IntegrationID data)), (''providerSlug'', JStr (XD_ProviderSlug data)),
       (''reason'', JStr (XD_Reason data))]"

definition connectionsEventSink :: "'s dlv_facade \<Rightarrow> OrgID \<Rightarrow> ExpiredEventData \<Rightarrow> ('s, unit) act" where
  "connectionsEventSink d org data =
     attempt (dlv_Enqueue d org conn_EventTypeConnectionExpired (Some (expired_event_json data))) (\<lambda>_. ok ())"

section \<open>The world\<close>

text \<open>
  \<open>cw_grants\<close>, \<open>cw_exchanges\<close>, \<open>cw_log\<close>, \<open>cw_events\<close> and \<open>cw_deleted\<close> are what happened: refresh grants and
  code exchanges asked of the provider, log entries, expiry events, deletions announced to the dependents.
\<close>

record conn_world =
  cw_store :: conn_store
  cw_now :: time
  cw_ids :: nat
  cw_tokens :: nat
  cw_states :: nat
  cw_nonces :: nat
  cw_exchanges :: "TokenExchangeRequest list"
  cw_grants :: "RefreshGrantRequest list"
  cw_probes :: nat
  cw_log :: "ConnLogEntry list"
  cw_events :: "(OrgID \<times> ExpiredEventData) list"
  cw_deleted :: "(OrgID \<times> ConnectionID) list"
  cw_slept :: "duration list"

text \<open>
  The environment: the other modules' answers, the vault's primitives and nonces, and the provider, whose
  answer to the \<open>n\<close>-th request may be anything.
\<close>

record conn_env =
  ce_org :: "OrgID \<Rightarrow> go_error + Organization"
  ce_user :: "OrgID \<Rightarrow> UserID \<Rightarrow> go_error + User"
  ce_integration :: "IntegrationID \<Rightarrow> go_error + Integration"
  ce_visible :: "OrgID \<Rightarrow> IntegrationID \<Rightarrow> go_error + Integration"
  ce_definition :: "string \<Rightarrow> go_error + ProviderDefinition"
  ce_crypto :: crypto
  ce_nonce :: "nat \<Rightarrow> string"
  ce_exchange :: "nat \<Rightarrow> TokenExchangeRequest \<Rightarrow> oauth_error + TokenExchangeResult"
  ce_account :: "nat \<Rightarrow> AccountFetchRequest \<Rightarrow> oauth_error + AccountInfo"
  ce_grant :: "nat \<Rightarrow> RefreshGrantRequest \<Rightarrow> oauth_error + TokenExchangeResult"
  ce_probe :: "nat \<Rightarrow> string \<Rightarrow> string \<Rightarrow> oauth_error + unit"
  ce_jitter :: "nat \<Rightarrow> rat"
  ce_cancelled :: "nat \<Rightarrow> bool"
  ce_baseURL :: string

text \<open>A nonce of the size asked for; \<open>io.ReadFull(rand.Reader, ...)\<close> does not fail.\<close>

definition conn_nonce :: "conn_env \<Rightarrow> nat \<Rightarrow> (conn_world, string) act" where
  "conn_nonce env n w =
     (Inr (take n (ce_nonce env (cw_nonces w) @ replicate n (CHR 0x00))), w\<lparr>cw_nonces := Suc (cw_nonces w)\<rparr>)"

abbreviation on_store :: "(conn_store, 'a) act \<Rightarrow> (conn_world, 'a) act" where
  "on_store \<equiv> zoom cw_store cw_store_update"

definition conn_F :: "conn_env \<Rightarrow> conn_world conn_facade" where
  "conn_F env =
     \<lparr>conn_repo_Save = (\<lambda>c. on_store (conn_mem_Save c)),
      conn_repo_FindByID = (\<lambda>org i. on_store (conn_mem_FindByID org i)),
      conn_repo_Update = (\<lambda>c. on_store (conn_mem_Update c)),
      conn_repo_List = (\<lambda>org flt. on_store (conn_mem_List org flt)),
      conn_repo_Delete = (\<lambda>org i. on_store (conn_mem_Delete org i)),
      conn_repo_TransitionStatus = (\<lambda>org i a b. on_store (conn_mem_TransitionStatus org i a b)),
      conn_oauth_FindByConnectToken = (\<lambda>t. on_store (conn_mem_FindByConnectToken t)),
      conn_oauth_FindConnectionForCallback = (\<lambda>i. on_store (conn_mem_FindConnectionForCallback i)),
      conn_oauth_SaveState = (\<lambda>st. on_store (conn_mem_SaveState st)),
      conn_oauth_FindState = (\<lambda>st. on_store (conn_mem_FindState st)),
      conn_oauth_MarkStateConsumed = (\<lambda>st t. on_store (conn_mem_MarkStateConsumed st t)),
      conn_orgs_Get = (\<lambda>org. lift (ce_org env org)),
      conn_users_GetUser = (\<lambda>org u. lift (ce_user env org u)),
      conn_GetIntegration = (\<lambda>i. lift (ce_integration env i)),
      conn_GetVisibleIntegration = (\<lambda>org i. lift (ce_visible env org i)),
      conn_GetProviderDefinition = (\<lambda>p. lift (ce_definition env p)),
      conn_crypto = ce_crypto env,
      conn_readFull = conn_nonce env,
      conn_ExchangeCode = (\<lambda>q w. (ce_exchange env (length (cw_exchanges w)) q, w\<lparr>cw_exchanges := cw_exchanges w @ [q]\<rparr>)),
      conn_FetchAccount = (\<lambda>q w. (ce_account env (length (cw_exchanges w)) q, w)),
      conn_RefreshGrant = (\<lambda>q w. (ce_grant env (length (cw_grants w)) q, w\<lparr>cw_grants := cw_grants w @ [q]\<rparr>)),
      conn_FetchUserInfo = (\<lambda>u t w. (ce_probe env (cw_probes w) u t, w\<lparr>cw_probes := Suc (cw_probes w)\<rparr>)),
      conn_recorder = Some (\<lambda>e w. (Inr (), w\<lparr>cw_log := cw_log w @ [e]\<rparr>)),
      conn_dependents = Some (\<lambda>org i w. (Inr (), w\<lparr>cw_deleted := cw_deleted w @ [(org, i)]\<rparr>)),
      conn_metrics = None,
      conn_newID = zoom cw_ids cw_ids_update (\<lambda>n. (sequential_id ''conn_'' n, Suc n)),
      conn_newToken = zoom cw_tokens cw_tokens_update (\<lambda>n. (sequential_id ''connect_token_'' n, Suc n)),
      conn_newState = zoom cw_states cw_states_update (\<lambda>n. (sequential_id ''state_'' n, Suc n)),
      conn_baseURL = ce_baseURL env,
      conn_now = (\<lambda>w. (cw_now w, w)),
      conn_ClaimDueRefresh = (\<lambda>now lead ttl limit. on_store (conn_mem_ClaimDueRefresh now lead ttl limit)),
      conn_ClaimDueReconcile = (\<lambda>now interval ttl limit. on_store (conn_mem_ClaimDueReconcile now interval ttl limit)),
      conn_events = Some (\<lambda>org data w. (Inr (), w\<lparr>cw_events := cw_events w @ [(org, data)]\<rparr>)),
      conn_refreshLead = defaultRefreshLead,
      conn_reconcileInterval = defaultReconcileInterval,
      conn_jitter = (\<lambda>w. (ce_jitter env (length (cw_slept w)), w)),
      conn_sleep = (\<lambda>d w. (if ce_cancelled env (length (cw_slept w)) then Inl (OtherError ''context canceled'') else Inr (),
                            w\<lparr>cw_slept := cw_slept w @ [d]\<rparr>)),
      conn_statusCounter = Some (on_store conn_mem_CountByStatus)\<rparr>"

lemma conn_F_sel [simp]:
  "conn_repo_Save (conn_F env) c = on_store (conn_mem_Save c)"
  "conn_repo_FindByID (conn_F env) org i = on_store (conn_mem_FindByID org i)"
  "conn_repo_Update (conn_F env) c = on_store (conn_mem_Update c)"
  "conn_repo_List (conn_F env) org flt = on_store (conn_mem_List org flt)"
  "conn_repo_Delete (conn_F env) org i = on_store (conn_mem_Delete org i)"
  "conn_repo_TransitionStatus (conn_F env) org i a b = on_store (conn_mem_TransitionStatus org i a b)"
  "conn_oauth_FindByConnectToken (conn_F env) t = on_store (conn_mem_FindByConnectToken t)"
  "conn_oauth_FindConnectionForCallback (conn_F env) i = on_store (conn_mem_FindConnectionForCallback i)"
  "conn_oauth_SaveState (conn_F env) st = on_store (conn_mem_SaveState st)"
  "conn_oauth_FindState (conn_F env) t = on_store (conn_mem_FindState t)"
  "conn_oauth_MarkStateConsumed (conn_F env) t now = on_store (conn_mem_MarkStateConsumed t now)"
  "conn_orgs_Get (conn_F env) org = lift (ce_org env org)"
  "conn_users_GetUser (conn_F env) org u = lift (ce_user env org u)"
  "conn_GetIntegration (conn_F env) ig = lift (ce_integration env ig)"
  "conn_GetVisibleIntegration (conn_F env) org ig = lift (ce_visible env org ig)"
  "conn_GetProviderDefinition (conn_F env) p = lift (ce_definition env p)"
  "conn_crypto (conn_F env) = ce_crypto env"
  "conn_readFull (conn_F env) = conn_nonce env"
  "conn_ExchangeCode (conn_F env) q w = (ce_exchange env (length (cw_exchanges w)) q, w\<lparr>cw_exchanges := cw_exchanges w @ [q]\<rparr>)"
  "conn_FetchAccount (conn_F env) aq w = (ce_account env (length (cw_exchanges w)) aq, w)"
  "conn_RefreshGrant (conn_F env) rq w = (ce_grant env (length (cw_grants w)) rq, w\<lparr>cw_grants := cw_grants w @ [rq]\<rparr>)"
  "conn_FetchUserInfo (conn_F env) url t w = (ce_probe env (cw_probes w) url t, w\<lparr>cw_probes := Suc (cw_probes w)\<rparr>)"
  "conn_recorder (conn_F env) = Some (\<lambda>e w. (Inr (), w\<lparr>cw_log := cw_log w @ [e]\<rparr>))"
  "conn_dependents (conn_F env) = Some (\<lambda>org i w. (Inr (), w\<lparr>cw_deleted := cw_deleted w @ [(org, i)]\<rparr>))"
  "conn_metrics (conn_F env) = None"
  "conn_newID (conn_F env) w = (sequential_id ''conn_'' (cw_ids w), w\<lparr>cw_ids := Suc (cw_ids w)\<rparr>)"
  "conn_newToken (conn_F env) w = (sequential_id ''connect_token_'' (cw_tokens w), w\<lparr>cw_tokens := Suc (cw_tokens w)\<rparr>)"
  "conn_newState (conn_F env) w = (sequential_id ''state_'' (cw_states w), w\<lparr>cw_states := Suc (cw_states w)\<rparr>)"
  "conn_baseURL (conn_F env) = ce_baseURL env"
  "conn_now (conn_F env) w = (cw_now w, w)"
  "conn_ClaimDueRefresh (conn_F env) now lead ttl limit = on_store (conn_mem_ClaimDueRefresh now lead ttl limit)"
  "conn_ClaimDueReconcile (conn_F env) now lead ttl limit = on_store (conn_mem_ClaimDueReconcile now lead ttl limit)"
  "conn_events (conn_F env) = Some (\<lambda>org data w. (Inr (), w\<lparr>cw_events := cw_events w @ [(org, data)]\<rparr>))"
  "conn_refreshLead (conn_F env) = defaultRefreshLead"
  "conn_reconcileInterval (conn_F env) = defaultReconcileInterval"
  "conn_jitter (conn_F env) w = (ce_jitter env (length (cw_slept w)), w)"
  "conn_sleep (conn_F env) d w = (if ce_cancelled env (length (cw_slept w)) then Inl (OtherError ''context canceled'') else Inr (),
                            w\<lparr>cw_slept := cw_slept w @ [d]\<rparr>)"
  "conn_statusCounter (conn_F env) = Some (on_store conn_mem_CountByStatus)"
  by (simp_all add: conn_F_def zoom_apply)

end
