(* ===== verification/ConnLife.thy ===== *)
theory ConnLife
  imports ConnMemory
begin

text \<open>
  The life of a connection, as an abstract state machine, and the simulation: whatever sequence of
  operations runs over the in-memory repository, every connection goes through steps of that machine, and
  the outbox receives exactly the expiry events the machine emits. The OAuth states on the side: one that
  was used once stays used.
\<close>

section \<open>The abstract life cycle\<close>

record lifecycle =
  lc_owner :: "OrgID \<times> UserID \<times> IntegrationID \<times> string \<times> time"
  lc_status :: ConnStatus
  lc_link_used :: bool

datatype phase = Unborn | Live lifecycle | Gone

type_synonym expired_event = "OrgID \<times> ExpiredEventData"

definition expired_reasons :: "string set" where
  "expired_reasons = {ExpiredReasonRefreshDenied, ExpiredReasonReconciliationFailed}"

text \<open>\<open>life_step i p es q\<close>: the connection \<open>i\<close> goes from \<open>p\<close> to \<open>q\<close>, and \<open>es\<close> is what the outbox is told.\<close>

inductive life_step :: "ConnectionID \<Rightarrow> phase \<Rightarrow> expired_event list \<Rightarrow> phase \<Rightarrow> bool" for i where
  start: "life_step i Unborn [] (Live \<lparr>lc_owner = ow, lc_status = StatusInitiated, lc_link_used = False\<rparr>)"
| activate: "life_step i (Live l) [] (Live (l\<lparr>lc_status := StatusActive, lc_link_used := True\<rparr>))"
| disable: "life_step i (Live l) [] (Live (l\<lparr>lc_status := StatusDisconnected\<rparr>))"
| expire: "lc_status l = StatusActive \<Longrightarrow> lc_owner l = (org, u, ig, slug, t) \<Longrightarrow> reason \<in> expired_reasons
    \<Longrightarrow> life_step i (Live l)
          [(org, \<lparr>XD_ConnectionID = i, XD_UserID = u, XD_IntegrationID = ig, XD_ProviderSlug = slug, XD_Reason = reason\<rparr>)]
          (Live (l\<lparr>lc_status := StatusExpired\<rparr>))"
| reconnect: "lc_status l \<noteq> StatusInitiated \<Longrightarrow> life_step i (Live l) [] (Live (l\<lparr>lc_link_used := False\<rparr>))"
| remove: "life_step i (Live l) [] Gone"

inductive life_run :: "ConnectionID \<Rightarrow> phase \<Rightarrow> expired_event list \<Rightarrow> phase \<Rightarrow> bool" for i where
  stay: "life_run i p [] p"
| more: "life_run i p es q \<Longrightarrow> life_step i q es' r \<Longrightarrow> life_run i p (es @ es') r"

inductive_cases life_step_GoneE: "life_step i Gone es q"
inductive_cases life_step_LiveE: "life_step i (Live l) es q"

lemma life_run_one: "life_step i p es q \<Longrightarrow> life_run i p es q"
  using life_run.more [OF life_run.stay] by simp

lemma life_run_trans:
  assumes "life_run i q es' r" and "life_run i p es q"
  shows "life_run i p (es @ es') r"
  using assms
proof (induction arbitrary: es rule: life_run.induct)
  case (more q es1 q' es2 r)
  from life_run.more [OF more.IH [OF more.prems] more.hyps(2)] show ?case by simp
qed simp

text \<open>What the machine promises: nothing comes back from \<open>Gone\<close>, nobody changes hands.\<close>

lemma gone_stays: "life_run i p es q \<Longrightarrow> p = Gone \<Longrightarrow> q = Gone \<and> es = []"
  by (induction rule: life_run.induct) (auto elim: life_step_GoneE)

lemma owner_stays: "life_run i p es q \<Longrightarrow> p = Live l \<Longrightarrow> q = Gone \<or> (\<exists>l'. q = Live l' \<and> lc_owner l' = lc_owner l)"
  by (induction rule: life_run.induct) (auto elim: life_step_GoneE life_step_LiveE)

section \<open>The phase of a connection in the world\<close>

abbreviation conn_of :: "conn_world \<Rightarrow> ConnectionID \<Rightarrow> Connection option" where
  "conn_of w \<equiv> map_of (cs_byID (cw_store w))"

abbreviation state_of :: "conn_world \<Rightarrow> string \<Rightarrow> OAuthState option" where
  "state_of w \<equiv> map_of (cs_states (cw_store w))"

definition lifecycle_of :: "Connection \<Rightarrow> lifecycle" where
  "lifecycle_of c =
     \<lparr>lc_owner = (Conn_OrgID c, Conn_UserID c, Conn_IntegrationID c, Conn_ProviderSlug c, Conn_CreatedAt c),
      lc_status = Conn_Status c, lc_link_used = Conn_ConnectTokenUsed c\<rparr>"

definition phase_of :: "conn_world \<Rightarrow> ConnectionID \<Rightarrow> phase" where
  "phase_of w i =
     (case conn_of w i of
        Some c \<Rightarrow> Live (lifecycle_of c)
      | None \<Rightarrow> if minted ''conn_'' (cw_ids w) i then Gone else Unborn)"

definition conn_inv :: "conn_world \<Rightarrow> bool" where
  "conn_inv w \<longleftrightarrow>
     keyed Conn_ID (cs_byID (cw_store w)) \<and> (\<forall>i. conn_of w i \<noteq> None \<longrightarrow> minted ''conn_'' (cw_ids w) i)
     \<and> (\<forall>s. state_of w s \<noteq> None \<longrightarrow> minted ''state_'' (cw_states w) s)"

definition about :: "ConnectionID \<Rightarrow> expired_event \<Rightarrow> bool" where
  "about i e \<longleftrightarrow> XD_ConnectionID (snd e) = i"

text \<open>What every operation does to the world, seen from outside.\<close>

definition evolves :: "conn_world \<Rightarrow> conn_world \<Rightarrow> bool" where
  "evolves w w' \<longleftrightarrow>
     (conn_inv w \<longrightarrow> conn_inv w'
        \<and> (\<exists>es. cw_events w' = cw_events w @ es \<and> (\<forall>i. life_run i (phase_of w i) (filter (about i) es) (phase_of w' i)))
        \<and> (\<forall>s st. state_of w s = Some st \<and> OS_IsConsumed st \<longrightarrow> state_of w' s = Some st))"

lemma evolves_refl: "evolves w w"
  by (auto simp: evolves_def intro: exI [of _ "[]"] life_run.stay)

lemma evolves_trans:
  assumes "evolves u v" and "evolves v w"
  shows "evolves u w"
  unfolding evolves_def
proof
  assume u: "conn_inv u"
  from assms(1) u obtain es where v: "conn_inv v" "cw_events v = cw_events u @ es"
    "\<And>i. life_run i (phase_of u i) (filter (about i) es) (phase_of v i)"
    "\<And>s st. state_of u s = Some st \<Longrightarrow> OS_IsConsumed st \<Longrightarrow> state_of v s = Some st"
    unfolding evolves_def by blast
  from assms(2) v(1) obtain es' where w: "conn_inv w" "cw_events w = cw_events v @ es'"
    "\<And>i. life_run i (phase_of v i) (filter (about i) es') (phase_of w i)"
    "\<And>s st. state_of v s = Some st \<Longrightarrow> OS_IsConsumed st \<Longrightarrow> state_of w s = Some st"
    unfolding evolves_def by blast
  have "life_run i (phase_of u i) (filter (about i) (es @ es')) (phase_of w i)" for i
    using life_run_trans [OF w(3) v(3)] by simp
  with v w show "conn_inv w
        \<and> (\<exists>es. cw_events w = cw_events u @ es \<and> (\<forall>i. life_run i (phase_of u i) (filter (about i) es) (phase_of w i)))
        \<and> (\<forall>s st. state_of u s = Some st \<and> OS_IsConsumed st \<longrightarrow> state_of w s = Some st)"
    by (auto intro: exI [of _ "es @ es'"])
qed

text \<open>What the world keeps when an operation only draws nonces, talks to the provider and logs.\<close>

definition conn_frame :: "conn_world \<Rightarrow> conn_store \<times> time \<times> nat \<times> nat \<times> nat \<times> expired_event list \<times> (OrgID \<times> ConnectionID) list" where
  "conn_frame w = (cw_store w, cw_now w, cw_ids w, cw_tokens w, cw_states w, cw_events w, cw_deleted w)"

lemma frame_evolves:
  assumes "conn_frame v = conn_frame u" and "evolves v w"
  shows "evolves u w"
proof -
  have f: "cw_store v = cw_store u" "cw_ids v = cw_ids u" "cw_states v = cw_states u" "cw_events v = cw_events u"
    using assms(1) by (simp_all add: conn_frame_def)
  have "phase_of v = phase_of u" by (rule ext) (simp only: phase_of_def f)
  moreover have "conn_inv v = conn_inv u" by (simp only: conn_inv_def f)
  ultimately show ?thesis using assms(2) by (simp only: evolves_def f)
qed

lemma evolves_quiet: "conn_frame w = conn_frame u \<Longrightarrow> evolves u w"
  using frame_evolves [of w u w] evolves_refl by blast

lemma evolves_live:
  assumes "conn_of w (Conn_ID c) = Some c0" and "cs_byID (cw_store w') = put (Conn_ID c) c (cs_byID (cw_store w))"
    and "cs_states (cw_store w') = cs_states (cw_store w)" and "cw_ids w' = cw_ids w" and "cw_states w' = cw_states w"
    and "cw_events w' = cw_events w @ es" and "\<forall>e \<in> set es. about (Conn_ID c) e"
    and "life_run (Conn_ID c) (Live (lifecycle_of c0)) es (Live (lifecycle_of c))"
  shows "evolves w w'"
  unfolding evolves_def
proof
  assume inv: "conn_inv w"
  have "filter (about i) es = (if i = Conn_ID c then es else [])" for i
    using assms(7) by (auto simp: about_def filter_empty_conv)
  then have "life_run i (phase_of w i) (filter (about i) es) (phase_of w' i)" for i
    using assms(1,2,4,8) by (auto simp: phase_of_def intro: life_run.stay)
  moreover have "conn_inv w'" using inv assms(1-5) by (auto simp: conn_inv_def keyed_put)
  ultimately show "conn_inv w' \<and> (\<exists>es. cw_events w' = cw_events w @ es
        \<and> (\<forall>i. life_run i (phase_of w i) (filter (about i) es) (phase_of w' i)))
        \<and> (\<forall>s st. state_of w s = Some st \<and> OS_IsConsumed st \<longrightarrow> state_of w' s = Some st)"
    using assms(3,6) by auto
qed

section \<open>Operations that touch no connection\<close>

lemma keeps_case_sum:
  "(\<And>x. keeps view (f x)) \<Longrightarrow> (\<And>y. keeps view (g y)) \<Longrightarrow> keeps view (case r of Inl x \<Rightarrow> f x | Inr y \<Rightarrow> g y)"
  by (cases r) auto

lemma keeps_case_prod: "(\<And>a b. keeps view (f a b)) \<Longrightarrow> keeps view (case p of (a, b) \<Rightarrow> f a b)"
  by (cases p) auto

lemma conn_nonce_frame [keeps_intros]: "keeps conn_frame (conn_nonce env n)"
  by (simp add: keeps_def conn_nonce_def conn_frame_def)

lemma Encrypt_frame [keeps_intros]: "keeps conn_frame (vault_Encrypt cr (conn_nonce env) p)"
  unfolding vault_Encrypt_def by (intro keeps_intros)

lemma encryptParams_frame: "keeps conn_frame (encryptParams (conn_F env) fs vals)"
  by (simp add: encryptParams_def Let_def Encrypt_frame)

lemma recordExchange_run:
  "\<exists>e. recordExchange (conn_F env) c started body result refresh w = w\<lparr>cw_log := cw_log w @ [e]\<rparr>"
  by (auto simp: recordExchange_def recordExchangeMetric_def Let_def split: sum.split)

lemma recordExchange_frame [simp]: "conn_frame (recordExchange (conn_F env) c started body result refresh w) = conn_frame w"
  using recordExchange_run [of env c started body result refresh w] by (auto simp: conn_frame_def)

lemma exchange_frame: "keeps conn_frame (exchangeTokensAndFetchAccount (conn_F env) request defn)"
  by (auto simp: keeps_def exchangeTokensAndFetchAccount_def conn_frame_def split: sum.split)

lemma now_frame: "keeps conn_frame (conn_now (conn_F env))" "keeps conn_frame (\<lambda>w. (cw_now w, w))"
  by (simp_all add: keeps_def)

lemma record_frame: "keeps conn_frame (\<lambda>s. ((), recordExchange (conn_F env) c started body result refresh s))"
  by (simp add: keeps_def)

lemma exchangeAndActivate_frame: "keeps conn_frame (exchangeAndActivate (conn_F env) c code)"
  unfolding exchangeAndActivate_def Let_def conn_F_sel
  by (intro keeps_intros keeps_case_sum keeps_case_prod exchange_frame now_frame record_frame)

lemma exchangeAndActivate_result:
  "exchangeAndActivate (conn_F env) c code w = (Inr c', w') \<Longrightarrow> \<exists>a b e d t. c' = Conn_Activate c a b e d t"
  by (auto simp: exchangeAndActivate_def act_simps Let_def split: sum.splits prod.splits) blast

lemma validateConnectToken_run:
  "snd (validateConnectToken (conn_F env) token w) = w"
  "validateConnectToken (conn_F env) token w = (Inr c, w') \<Longrightarrow> w' = w \<and> c \<in> set (rows (cs_byID (cw_store w)))"
  by (auto simp: validateConnectToken_def act_simps conn_mem_FindByConnectToken_def split: option.splits if_splits
      dest: find_SomeD)

lemma SaveState_evolves:
  assumes "cw_store w' = snd (conn_mem_SaveState \<lparr>OS_State = sequential_id ''state_'' (cw_states w), OS_ConnectionID = i,
      OS_ExpiresAt = t, OS_ConsumedAt = None\<rparr> (cw_store w))"
    and "cw_ids w' = cw_ids w" "cw_states w' = Suc (cw_states w)" "cw_events w' = cw_events w"
  shows "evolves w w'"
proof -
  have "\<not> minted ''state_'' (cw_states w) (sequential_id ''state_'' (cw_states w))" by (rule not_minted)
  then show ?thesis
    using assms by (auto simp: evolves_def conn_mem_SaveState_def conn_inv_def phase_of_def minted_Suc minted_next
        intro: exI [of _ "[]"] life_run.stay)
qed

lemma buildForwardingView_evolves: "evolves w (snd (buildForwardingView (conn_F env) c defn w))"
proof (cases "isl (ce_integration env (Conn_IntegrationID c)) \<or> isl (decryptParams (conn_F env) (Conn_EncryptedParams c))")
  case True
  then have "snd (buildForwardingView (conn_F env) c defn w) = w"
    by (auto simp: buildForwardingView_def act_simps isl_def split: sum.split)
  then show ?thesis by (simp add: evolves_refl)
next
  case False
  then show ?thesis
    by (intro SaveState_evolves [where i = "Conn_ID c" and t = "cw_now w + OAuthStateTTL"])
      (auto simp: buildForwardingView_def act_simps conn_mem_SaveState_def split: sum.splits)
qed

section \<open>Operations that change a connection\<close>

lemma lifecycle_simps:
  "lifecycle_of (Conn_WithParams c p) = lifecycle_of c"
  "lifecycle_of (Conn_RefreshTokens c a r t) = lifecycle_of c"
  "lifecycle_of (Conn_MarkReconciled c t) = lifecycle_of c"
  "lifecycle_of (Conn_Activate c a r e d t) = (lifecycle_of c)\<lparr>lc_status := StatusActive, lc_link_used := True\<rparr>"
  "lifecycle_of (Conn_Disable c) = (lifecycle_of c)\<lparr>lc_status := StatusDisconnected\<rparr>"
  "lifecycle_of (Conn_PrepareReconnect c k u t) = (lifecycle_of c)\<lparr>lc_link_used := False\<rparr>"
  "lifecycle_of (c\<lparr>Conn_Status := st\<rparr>) = (lifecycle_of c)\<lparr>lc_status := st\<rparr>"
  "Conn_ID (Conn_WithParams c p) = Conn_ID c" "Conn_ID (Conn_RefreshTokens c a r t) = Conn_ID c"
  "Conn_ID (Conn_MarkReconciled c t) = Conn_ID c" "Conn_ID (Conn_Activate c a r e d t) = Conn_ID c"
  "Conn_ID (Conn_Disable c) = Conn_ID c" "Conn_ID (Conn_PrepareReconnect c k u t) = Conn_ID c"
  by (simp_all add: lifecycle_of_def Conn_WithParams_def Conn_RefreshTokens_def Conn_MarkReconciled_def Conn_Activate_def
      Conn_Disable_def Conn_PrepareReconnect_def)

text \<open>An \<open>Update\<close> of the stored connection to one that the machine can reach silently.\<close>

lemma Update_evolves:
  assumes "conn_of w (Conn_ID c) = Some c0"
    and "life_run (Conn_ID c) (Live (lifecycle_of c0)) [] (Live (lifecycle_of c))"
  shows "evolves w (snd (on_store (conn_mem_Update c) w))"
  using assms by (intro evolves_live [where es = "[]"]) (simp_all add: conn_mem_Update_def)

lemma store_run:
  "on_store (conn_mem_FindByID org i) w =
     (Inr (case conn_of w i of None \<Rightarrow> None | Some c \<Rightarrow> if Conn_OrgID c \<noteq> org then None else Some c), w)"
  "on_store (conn_mem_FindConnectionForCallback i) w = (Inr (conn_of w i), w)"
  "on_store (conn_mem_FindState s) w = (Inr (state_of w s), w)"
  "on_store (conn_mem_Save c) w = (Inr (), w\<lparr>cw_store := snd (conn_mem_Save c (cw_store w))\<rparr>)"
  "on_store (conn_mem_Update c) w = (Inr (), w\<lparr>cw_store := snd (conn_mem_Update c (cw_store w))\<rparr>)"
  "on_store (conn_mem_MarkStateConsumed s t) w = (Inr (), w\<lparr>cw_store := snd (conn_mem_MarkStateConsumed s t (cw_store w))\<rparr>)"
  "on_store (conn_mem_SaveState st) w = (Inr (), w\<lparr>cw_store := snd (conn_mem_SaveState st (cw_store w))\<rparr>)"
  "on_store (conn_mem_Delete org i) w = (Inr (), w\<lparr>cw_store := snd (conn_mem_Delete org i (cw_store w))\<rparr>)"
  by (simp_all add: zoom_apply conn_mem_FindByID_def conn_mem_FindConnectionForCallback_def conn_mem_FindState_def
      conn_mem_Save_def conn_mem_Update_def conn_mem_MarkStateConsumed_def conn_mem_SaveState_def conn_mem_Delete_def
      split: option.split)

lemmas run_simps = attempt_apply call_apply catching_apply discard_apply store_run

lemma found_id: "conn_inv w \<Longrightarrow> conn_of w i = Some c \<Longrightarrow> Conn_ID c = i"
  by (auto simp: conn_inv_def dest: keyed_lookup)

lemma evolves_inv: "(conn_inv w \<Longrightarrow> evolves w w') \<Longrightarrow> evolves w w'"
  by (auto simp: evolves_def)

lemma Initiate_evolves: "evolves w (snd (conn_Initiate (conn_F env) org u ig uri w))"
proof -
  let ?i = "sequential_id ''conn_'' (cw_ids w)"
  have step: "evolves w w'"
    if "cw_store w' = snd (conn_mem_Save (NewConnection ?i org u ig p uri t (cw_now w)) (cw_store w))"
      "cw_ids w' = Suc (cw_ids w)" "cw_states w' = cw_states w" "cw_events w' = cw_events w" for w' p t
  proof (rule evolves_inv)
    assume inv: "conn_inv w"
    then have none: "conn_of w ?i = None" using not_minted by (auto simp: conn_inv_def)
    have m: "minted ''conn_'' (Suc (cw_ids w)) i \<longleftrightarrow> i = ?i \<or> minted ''conn_'' (cw_ids w) i" for i
      by (auto simp: minted_def less_Suc_eq)
    have c: "Conn_ID (NewConnection ?i org u ig p uri t (cw_now w)) = ?i" by (simp add: NewConnection_def)
    have "life_run i (phase_of w i) [] (phase_of w' i)" for i
    proof (cases "i = ?i")
      case True
      then have "phase_of w i = Unborn" using none not_minted by (simp add: phase_of_def)
      moreover have "phase_of w' i = Live \<lparr>lc_owner = (org, u, ig, p, cw_now w), lc_status = StatusInitiated, lc_link_used = False\<rparr>"
        using True that by (simp add: phase_of_def conn_mem_Save_def c lifecycle_of_def) (simp add: NewConnection_def)
      ultimately show ?thesis by (simp add: life_run_one life_step.start)
    next
      case False
      then show ?thesis using that by (simp add: phase_of_def conn_mem_Save_def c m life_run.stay)
    qed
    moreover have "conn_inv w'" using inv that by (auto simp: conn_inv_def conn_mem_Save_def c m keyed_put)
    ultimately show "evolves w w'" using that by (auto simp: evolves_def conn_mem_Save_def intro: exI [of _ "[]"])
  qed
  show ?thesis
    by (auto simp: conn_Initiate_def run_simps Let_def evolves_refl intro: step split: sum.split)
qed

lemma Disable_evolves: "evolves w (snd (conn_Disable (conn_F env) org i w))"
proof (rule evolves_inv)
  assume "conn_inv w"
  from found_id [OF this] show ?thesis
    by (auto simp: conn_Disable_def run_simps Let_def evolves_refl lifecycle_simps split: option.split
        intro!: Update_evolves [unfolded store_run snd_conv] life_run_one life_step.disable)
qed

lemma Reconnect_evolves: "evolves w (snd (conn_Reconnect (conn_F env) org i uri w))"
proof (rule evolves_inv)
  assume inv: "conn_inv w"
  have upd: "evolves w w'"
    if "conn_of w i = Some c" "Conn_CanReconnect c"
      "cw_store w' = snd (conn_mem_Update (Conn_PrepareReconnect c k uri t) (cw_store w))"
      "cw_ids w' = cw_ids w" "cw_states w' = cw_states w" "cw_events w' = cw_events w" for c k t w'
  proof (rule evolves_live [where es = "[]"])
    show "conn_of w (Conn_ID (Conn_PrepareReconnect c k uri t)) = Some c" using that found_id [OF inv] by (auto simp: lifecycle_simps)
    have "lc_status (lifecycle_of c) \<noteq> StatusInitiated" using that(2) by (auto simp: Conn_CanReconnect_def lifecycle_of_def)
    then show "life_run (Conn_ID (Conn_PrepareReconnect c k uri t)) (Live (lifecycle_of c)) []
        (Live (lifecycle_of (Conn_PrepareReconnect c k uri t)))"
      by (simp add: lifecycle_simps life_run_one life_step.reconnect)
  qed (use that in \<open>simp_all add: conn_mem_Update_def\<close>)
  show ?thesis
    by (auto simp: conn_Reconnect_def run_simps Let_def evolves_refl intro: upd split: sum.split option.split)
qed

lemma Delete_evolves: "evolves w (snd (conn_Delete (conn_F env) org i w))"
proof (rule evolves_inv)
  assume inv: "conn_inv w"
  have "evolves w w'"
    if "conn_of w i = Some c" "Conn_OrgID c = org" "cw_store w' = snd (conn_mem_Delete org i (cw_store w))"
      "cw_ids w' = cw_ids w" "cw_states w' = cw_states w" "cw_events w' = cw_events w" for c w'
  proof -
    have st: "cw_store w' = (cw_store w)\<lparr>cs_byID := del i (cs_byID (cw_store w))\<rparr>"
      using that by (simp add: conn_mem_Delete_def)
    have "minted ''conn_'' (cw_ids w) i" using inv that(1) by (auto simp: conn_inv_def)
    then have "life_run j (phase_of w j) [] (phase_of w' j)" for j
      using that(1,4) st by (auto simp: phase_of_def intro: life_run.stay life_run_one life_step.remove)
    moreover have "conn_inv w'" using inv that(4,5) st by (auto simp: conn_inv_def keyed_del)
    ultimately show ?thesis using that(6) st by (auto simp: evolves_def intro: exI [of _ "[]"])
  qed
  then show ?thesis
    by (auto simp: conn_Delete_def notifyDependentsOfDeletion_def run_simps evolves_refl split: option.split)
qed

lemma row_found: "conn_inv w \<Longrightarrow> c \<in> set (rows (cs_byID (cw_store w))) \<Longrightarrow> conn_of w (Conn_ID c) = Some c"
  using iffD1 [OF rows_lookup [of Conn_ID "cs_byID (cw_store w)" c]] by (simp add: conn_inv_def)

lemma OpenConnectPage_evolves: "evolves w (snd (OpenConnectPage (conn_F env) token w))"
proof -
  obtain r where v: "validateConnectToken (conn_F env) token w = (r, w)"
    using validateConnectToken_run(1) [of env token w] by (metis prod.collapse)
  then show ?thesis
    by (auto simp: OpenConnectPage_def run_simps evolves_refl buildForwardingView_evolves split: sum.split)
qed

lemma SubmitParams_evolves: "evolves w (snd (SubmitParams (conn_F env) token vals w))"
proof (rule evolves_inv)
  assume inv: "conn_inv w"
  obtain r where v: "validateConnectToken (conn_F env) token w = (r, w)"
    using validateConnectToken_run(1) [of env token w] by (metis prod.collapse)
  show ?thesis
  proof (cases r)
    case (Inl e)
    with v show ?thesis by (simp add: SubmitParams_def run_simps evolves_refl)
  next
    case (Inr c)
    from v Inr validateConnectToken_run(2) row_found [OF inv] have c: "conn_of w (Conn_ID c) = Some c" by blast
    have "evolves w (snd (buildForwardingView (conn_F env) (Conn_WithParams c p) defn
            (w1\<lparr>cw_store := snd (conn_mem_Update (Conn_WithParams c p) (cw_store w1))\<rparr>)))"
      if "conn_frame w1 = conn_frame w" for p defn w1
    proof -
      have "conn_of w1 (Conn_ID (Conn_WithParams c p)) = Some c" using c that by (simp add: conn_frame_def lifecycle_simps)
      then have "evolves w1 (w1\<lparr>cw_store := snd (conn_mem_Update (Conn_WithParams c p) (cw_store w1))\<rparr>)"
        by (intro Update_evolves [unfolded store_run snd_conv]) (auto simp: lifecycle_simps intro: life_run.stay)
      from frame_evolves [OF that this] buildForwardingView_evolves show ?thesis by (rule evolves_trans)
    qed
    note upd = this
    show ?thesis
    proof (cases "ce_definition env (Conn_ProviderSlug c)")
      case (Inl e)
      with v Inr show ?thesis by (simp add: SubmitParams_def run_simps evolves_refl)
    next
      case defn: (Inr defn)
      obtain x w1 where enc: "encryptParams (conn_F env) (PD_ExpectedParams defn) vals w = (x, w1)" by fastforce
      then have f: "conn_frame w1 = conn_frame w" by (rule keeps_result [OF encryptParams_frame])
      have run: "snd (SubmitParams (conn_F env) token vals w) =
          (if missingRequiredParams (PD_ExpectedParams defn) vals \<noteq> [] then w
           else case x of Inl e \<Rightarrow> w1 | Inr p \<Rightarrow> snd (buildForwardingView (conn_F env) (Conn_WithParams c p) defn
             (w1\<lparr>cw_store := snd (conn_mem_Update (Conn_WithParams c p) (cw_store w1))\<rparr>)))"
        using v Inr defn enc by (simp add: SubmitParams_def run_simps Let_def split: sum.split)
      show ?thesis
        unfolding run using upd [OF f] evolves_quiet [OF f] evolves_refl by (simp split: sum.split)
    qed
  qed
qed

section \<open>The callback\<close>

lemma MarkStateConsumed_evolves:
  assumes "state_of w s = Some st" and "\<not> OS_IsConsumed st"
  shows "evolves w (w\<lparr>cw_store := snd (conn_mem_MarkStateConsumed s t (cw_store w))\<rparr>)"
proof -
  have "cs_byID (snd (conn_mem_MarkStateConsumed s t (cw_store w))) = cs_byID (cw_store w)"
    "map_of (cs_states (snd (conn_mem_MarkStateConsumed s t (cw_store w)))) = (state_of w)(s \<mapsto> st\<lparr>OS_ConsumedAt := Some t\<rparr>)"
    using assms(1) by (auto simp: conn_mem_MarkStateConsumed_def)
  then show ?thesis
    using assms by (auto simp: evolves_def conn_inv_def phase_of_def intro: exI [of _ "[]"] life_run.stay)
qed

lemma consumeState_run:
  assumes "consumeState (conn_F env) s w = (r, w')"
  shows "evolves w w'" and "\<And>c. r = Inr c \<Longrightarrow> conn_inv w \<Longrightarrow> conn_of w' (Conn_ID c) = Some c"
    and "\<And>c. r = Inr c \<Longrightarrow> \<exists>st. state_of w' s = Some st \<and> OS_IsConsumed st"
proof -
  have "evolves w w' \<and> (\<forall>c. r = Inr c \<longrightarrow> (conn_inv w \<longrightarrow> conn_of w' (Conn_ID c) = Some c)
      \<and> (\<exists>st. state_of w' s = Some st \<and> OS_IsConsumed st))"
  proof (cases "s = []"; cases "state_of w s")
    assume "s \<noteq> []" and "state_of w s = None"
    then show ?thesis using assms by (auto simp: consumeState_def run_simps evolves_refl)
  next
    fix st assume st: "s \<noteq> []" "state_of w s = Some st"
    let ?w1 = "w\<lparr>cw_store := snd (conn_mem_MarkStateConsumed s (cw_now w) (cw_store w))\<rparr>"
    have run: "(r, w') = (if OS_IsConsumed st then (Inl ErrStateAlreadyUsed, w)
        else if OS_IsExpired st (cw_now w) then (Inl ErrStateExpired, w)
        else (case conn_of ?w1 (OS_ConnectionID st) of None \<Rightarrow> Inl ErrStateUnknown | Some c \<Rightarrow> Inr c, ?w1))"
      using assms st by (simp add: consumeState_def run_simps split: option.splits if_splits)
    have same: "cs_byID (snd (conn_mem_MarkStateConsumed s (cw_now w) (cw_store w))) = cs_byID (cw_store w)"
      using st(2) by (simp add: conn_mem_MarkStateConsumed_def)
    have "\<exists>st'. state_of ?w1 s = Some st' \<and> OS_IsConsumed st'"
      using st(2) by (simp add: conn_mem_MarkStateConsumed_def OS_IsConsumed_def)
    with MarkStateConsumed_evolves [OF st(2)] show ?thesis
      using run found_id [of w "OS_ConnectionID st"] by (auto simp: evolves_refl same split: if_splits option.splits)
  qed (use assms in \<open>auto simp: consumeState_def evolves_refl\<close>)
  then show "evolves w w'" and "\<And>c. r = Inr c \<Longrightarrow> conn_inv w \<Longrightarrow> conn_of w' (Conn_ID c) = Some c"
    and "\<And>c. r = Inr c \<Longrightarrow> \<exists>st. state_of w' s = Some st \<and> OS_IsConsumed st" by auto
qed

lemma HandleCallback_evolves: "evolves w (snd (HandleCallback (conn_F env) code s perr w))"
proof (rule evolves_inv)
  assume inv: "conn_inv w"
  obtain r w1 where c: "consumeState (conn_F env) s w = (r, w1)" by fastforce
  note e1 = consumeState_run(1) [OF c]
  show ?thesis
  proof (cases r)
    case (Inl e)
    with c e1 show ?thesis by (simp add: HandleCallback_def run_simps)
  next
    case (Inr conn)
    show ?thesis
    proof (cases "perr = []")
      case False
      with c Inr e1 show ?thesis by (simp add: HandleCallback_def run_simps)
    next
      case True
      obtain x w2 where x: "exchangeAndActivate (conn_F env) conn code w1 = (x, w2)" by fastforce
      have f: "conn_frame w2 = conn_frame w1" by (rule keeps_result [OF exchangeAndActivate_frame x])
      have e2: "evolves w w2" using evolves_trans [OF e1 evolves_quiet [OF f]] .
      show ?thesis
      proof (cases x)
        case (Inl e)
        with c Inr True x e2 show ?thesis by (simp add: HandleCallback_def run_simps)
      next
        case act: (Inr conn')
        from exchangeAndActivate_result [OF x [unfolded act]] obtain a b e d t where a: "conn' = Conn_Activate conn a b e d t" by blast
        have "conn_of w2 (Conn_ID conn') = Some conn"
          using consumeState_run(2) [OF c Inr inv] f a by (simp add: conn_frame_def lifecycle_simps)
        then have "evolves w2 (snd (on_store (conn_mem_Update conn') w2))"
          by (rule Update_evolves) (simp add: a lifecycle_simps life_run_one life_step.activate)
        from evolves_trans [OF e2 this] show ?thesis
          using c Inr True x act by (simp add: HandleCallback_def run_simps)
      qed
    qed
  qed
qed

section \<open>Refreshing\<close>

lemma expireConnection_run:
  assumes "conn_of w (Conn_ID c) = Some c"
  shows "expireConnection (conn_F env) c reason w =
    (Inr (Conn_MarkExpired c),
     if Conn_Status c = StatusActive
     then w\<lparr>cw_store := (cw_store w)\<lparr>cs_byID := put (Conn_ID c) (Conn_MarkExpired c) (cs_byID (cw_store w))\<rparr>,
            cw_events := cw_events w @ [(Conn_OrgID c, \<lparr>XD_ConnectionID = Conn_ID c, XD_UserID = Conn_UserID c,
              XD_IntegrationID = Conn_IntegrationID c, XD_ProviderSlug = Conn_ProviderSlug c, XD_Reason = reason\<rparr>)]\<rparr>
     else w)"
  using assms by (simp add: expireConnection_def emitExpired_def act_simps conn_mem_TransitionStatus_def Let_def Conn_MarkExpired_def)

lemma expireConnection_evolves:
  assumes "conn_of w (Conn_ID c) = Some c" and "reason \<in> expired_reasons"
  shows "evolves w (snd (expireConnection (conn_F env) c reason w))"
proof (cases "Conn_Status c = StatusActive")
  case True
  then have "life_step (Conn_ID c) (Live (lifecycle_of c))
      [(Conn_OrgID c, \<lparr>XD_ConnectionID = Conn_ID c, XD_UserID = Conn_UserID c, XD_IntegrationID = Conn_IntegrationID c,
         XD_ProviderSlug = Conn_ProviderSlug c, XD_Reason = reason\<rparr>)] (Live (lifecycle_of (Conn_MarkExpired c)))"
    using life_step.expire [of "lifecycle_of c" _ _ _ _ _ reason] assms(2)
    by (simp add: lifecycle_simps Conn_MarkExpired_def) (simp add: lifecycle_of_def)
  from life_run_one [OF this] True show ?thesis
    unfolding expireConnection_run [OF assms(1)]
    using assms by (intro evolves_live [where c = "Conn_MarkExpired c" and ?c0.0 = c])
      (auto simp: about_def Conn_MarkExpired_def)
next
  case False
  then show ?thesis unfolding expireConnection_run [OF assms(1)] by (simp add: evolves_refl)
qed

lemma refreshConnection_cases:
  assumes run: "refreshConnection (conn_F env) c reason w = (r, w')"
  obtains (failed) e where "r = Inl e" "conn_frame w' = conn_frame w"
  | (refreshed) a b t w1 where "conn_frame w1 = conn_frame w" "r = Inr (Conn_RefreshTokens c a b t)"
      "w' = w1\<lparr>cw_store := snd (conn_mem_Update (Conn_RefreshTokens c a b t) (cw_store w1))\<rparr>"
  | (denied) w1 where "conn_frame w1 = conn_frame w" "(r, w') = expireConnection (conn_F env) c reason w1"
proof (cases "isl (ce_integration env (Conn_IntegrationID c)) \<or> isl (ce_definition env (Conn_ProviderSlug c))
    \<or> isl (vault_Decrypt (ce_crypto env) (Conn_EncryptedRefreshToken c))")
  case True
  then show ?thesis using run failed by (auto simp: refreshConnection_def run_simps isl_def split: sum.splits)
next
  case False
  then obtain ig defn tok where ok: "ce_integration env (Conn_IntegrationID c) = Inr ig"
    "ce_definition env (Conn_ProviderSlug c) = Inr defn" "vault_Decrypt (ce_crypto env) (Conn_EncryptedRefreshToken c) = Inr tok"
    by (cases "ce_integration env (Conn_IntegrationID c)"; cases "ce_definition env (Conn_ProviderSlug c)";
      cases "vault_Decrypt (ce_crypto env) (Conn_EncryptedRefreshToken c)") auto
  define req where "req = \<lparr>RGR_TokenURL = PD_TokenURL defn, RGR_ClientID = IG_ClientID ig,
           RGR_ClientSecret = IG_ClientSecret ig, RGR_RefreshToken = tok, RGR_CredentialStyle = PD_CredentialStyle defn\<rparr>"
  define res where "res = ce_grant env (length (cw_grants w)) req"
  define w1 where "w1 = recordExchange (conn_F env) c (cw_now w) (refreshGrantRequestLogBody req) res True (w\<lparr>cw_grants := cw_grants w @ [req]\<rparr>)"
  have f1: "conn_frame w1 = conn_frame w" by (simp add: w1_def) (simp add: conn_frame_def)
  show ?thesis
  proof (cases res)
    case (Inl e)
    then have "(r, w') = handleRefreshFailure (conn_F env) c e reason w1"
      using run ok by (simp add: refreshConnection_def run_simps w1_def res_def req_def Let_def)
    then show ?thesis using f1 failed denied by (cases e) (auto simp: handleRefreshFailure_def)
  next
    case (Inr toks)
    obtain x w2 where e1: "vault_Encrypt (ce_crypto env) (conn_nonce env) (TX_AccessToken toks) w1 = (x, w2)" by fastforce
    have f2: "conn_frame w2 = conn_frame w" using keeps_result [OF Encrypt_frame e1] f1 by simp
    obtain y w3 where e2: "(if TX_RefreshToken toks \<noteq> []
        then vault_Encrypt (ce_crypto env) (conn_nonce env) (TX_RefreshToken toks)
        else ok (Conn_EncryptedRefreshToken c)) w2 = (y, w3)" by fastforce
    then have e2': "(if TX_RefreshToken toks \<noteq> []
        then vault_Encrypt (conn_crypto (conn_F env)) (conn_readFull (conn_F env)) (TX_RefreshToken toks)
        else ok (Conn_EncryptedRefreshToken c)) w2 = (y, w3)" by (simp only: conn_F_sel)
    have f3: "conn_frame w3 = conn_frame w"
      using keeps_result [OF keeps_if [OF Encrypt_frame keeps_ok] e2] f2 by simp
    have "(r, w') = (case x of Inl e \<Rightarrow> (Inl e, w2) | Inr a \<Rightarrow> (case y of Inl e \<Rightarrow> (Inl e, w3) | Inr b \<Rightarrow>
        (Inr (Conn_RefreshTokens c a b (tokenExpiryFrom (cw_now w3) (TX_ExpiresIn toks))),
         w3\<lparr>cw_store := snd (conn_mem_Update (Conn_RefreshTokens c a b (tokenExpiryFrom (cw_now w3) (TX_ExpiresIn toks))) (cw_store w3))\<rparr>)))"
      using run ok Inr e1 e2'
      by (simp add: refreshConnection_def run_simps w1_def res_def req_def Let_def persistConnection_def split: sum.splits)
    then show ?thesis using f2 f3 failed refreshed by (auto split: sum.splits)
  qed
qed

text \<open>
  A refresh evolves the world, touches no other connection, and returns the row it stored.
\<close>

lemma refreshConnection_run:
  assumes run: "refreshConnection (conn_F env) c reason w = (r, w')"
    and c: "conn_of w (Conn_ID c) = Some c" and reason: "reason \<in> expired_reasons"
  shows "evolves w w'" and "\<And>j. j \<noteq> Conn_ID c \<Longrightarrow> conn_of w' j = conn_of w j"
    and "\<And>c'. r = Inr c' \<Longrightarrow> Conn_Status c = StatusActive \<Longrightarrow> Conn_ID c' = Conn_ID c \<and> conn_of w' (Conn_ID c) = Some c'"
    and "\<And>e. r = Inl e \<Longrightarrow> conn_frame w' = conn_frame w"
proof -
  have "evolves w w' \<and> (\<forall>j. j \<noteq> Conn_ID c \<longrightarrow> conn_of w' j = conn_of w j)
      \<and> (\<forall>c'. r = Inr c' \<longrightarrow> Conn_Status c = StatusActive \<longrightarrow> Conn_ID c' = Conn_ID c \<and> conn_of w' (Conn_ID c) = Some c')
      \<and> (\<forall>e. r = Inl e \<longrightarrow> conn_frame w' = conn_frame w)"
    using run
  proof (cases rule: refreshConnection_cases)
    case (failed e)
    then show ?thesis using evolves_quiet by (auto simp: conn_frame_def)
  next
    case (refreshed a b t w1)
    have c1: "conn_of w1 (Conn_ID (Conn_RefreshTokens c a b t)) = Some c"
      using refreshed(1) c by (simp add: conn_frame_def lifecycle_simps)
    have "evolves w1 (snd (on_store (conn_mem_Update (Conn_RefreshTokens c a b t)) w1))"
      by (rule Update_evolves [OF c1]) (simp add: lifecycle_simps life_run.stay)
    then have "evolves w w'" using frame_evolves [OF refreshed(1)] refreshed(3) by (simp add: store_run)
    then show ?thesis using refreshed by (auto simp: conn_mem_Update_def lifecycle_simps conn_frame_def)
  next
    case (denied w1)
    have c1: "conn_of w1 (Conn_ID c) = Some c" using denied(1) c by (simp add: conn_frame_def)
    from expireConnection_evolves [OF c1 reason] have "evolves w1 w'" using denied(2) by (metis snd_conv)
    from frame_evolves [OF denied(1) this] have "evolves w w'" .
    then show ?thesis using denied expireConnection_run [OF c1, of env reason]
      by (auto simp: conn_frame_def Conn_MarkExpired_def split: if_splits)
  qed
  then show "evolves w w'" and "\<And>j. j \<noteq> Conn_ID c \<Longrightarrow> conn_of w' j = conn_of w j"
    and "\<And>c'. r = Inr c' \<Longrightarrow> Conn_Status c = StatusActive \<Longrightarrow> Conn_ID c' = Conn_ID c \<and> conn_of w' (Conn_ID c) = Some c'"
    and "\<And>e. r = Inl e \<Longrightarrow> conn_frame w' = conn_frame w" by auto
qed

lemma refreshOnce_cases:
  assumes "refreshOnce (conn_F env) org i params w = (r, w')"
  obtains (quiet) "w' = w" "\<And>c. r = Inr c \<Longrightarrow> conn_of w i = Some c"
  | (refresh) c where "conn_of w i = Some c" "Conn_OrgID c = org" "Conn_Status c = StatusActive"
      "refreshConnection (conn_F env) c (rp_deniedReason params) w = (r, w')"
proof (cases "conn_of w i")
  case None
  then show ?thesis using assms quiet by (auto simp: refreshOnce_def run_simps)
next
  case (Some c)
  then show ?thesis using assms quiet refresh by (auto simp: refreshOnce_def run_simps split: if_splits)
qed

lemma refreshOnce_run:
  assumes run: "refreshOnce (conn_F env) org i params w = (r, w')"
    and inv: "conn_inv w" and reason: "rp_deniedReason params \<in> expired_reasons"
  shows "evolves w w'" and "\<And>j. j \<noteq> i \<Longrightarrow> conn_of w' j = conn_of w j"
    and "\<And>c. r = Inr c \<Longrightarrow> Conn_ID c = i \<and> conn_of w' i = Some c"
proof -
  have "evolves w w' \<and> (\<forall>j. j \<noteq> i \<longrightarrow> conn_of w' j = conn_of w j)
      \<and> (\<forall>c. r = Inr c \<longrightarrow> Conn_ID c = i \<and> conn_of w' i = Some c)"
    using run
  proof (cases rule: refreshOnce_cases)
    case quiet
    then show ?thesis using found_id [OF inv] by (auto simp: evolves_refl)
  next
    case (refresh c)
    have "Conn_ID c = i" using found_id [OF inv refresh(1)] .
    then show ?thesis using refreshConnection_run [OF refresh(4) _ reason] refresh by auto
  qed
  then show "evolves w w'" and "\<And>j. j \<noteq> i \<Longrightarrow> conn_of w' j = conn_of w j"
    and "\<And>c. r = Inr c \<Longrightarrow> Conn_ID c = i \<and> conn_of w' i = Some c" by auto
qed

lemma reasons: "ExpiredReasonRefreshDenied \<in> expired_reasons" "ExpiredReasonReconciliationFailed \<in> expired_reasons"
  by (simp_all add: expired_reasons_def)

lemma refreshOnce_evolves:
  assumes "rp_deniedReason params \<in> expired_reasons"
  shows "evolves w (snd (refreshOnce (conn_F env) org i params w))"
  using refreshOnce_run(1) [OF prod.collapse [symmetric] _ assms] by (rule evolves_inv)

lemma findExecutionConnection_run:
  "findExecutionConnection (conn_F env) org u i w =
     (case conn_of w i of None \<Rightarrow> Inl conn_ErrNotFound
      | Some c \<Rightarrow> if Conn_OrgID c \<noteq> org \<or> Conn_UserID c \<noteq> u then Inl conn_ErrNotFound else Inr c, w)"
  by (auto simp: findExecutionConnection_def run_simps split: option.split)

lemma case_lift_snd:
  "snd (case p of (Inl e, s') \<Rightarrow> (Inl e, s') | (Inr x, s') \<Rightarrow> lift (g x) s') = snd p"
  by (simp split: prod.split sum.split)

lemma Resolve_evolves: "evolves w (snd (conn_ResolveForExecution (conn_F env) org u i w))"
  by (simp add: conn_ResolveForExecution_def findExecutionConnection_run run_simps evolves_refl refreshOnce_evolves reasons
      case_lift_snd split: option.split)

lemma RefreshForExecution_evolves: "evolves w (snd (conn_RefreshForExecution (conn_F env) org u i w))"
  by (simp add: conn_RefreshForExecution_def findExecutionConnection_run run_simps evolves_refl refreshOnce_evolves reasons
      case_lift_snd split: option.split)

section \<open>The background passes\<close>

lemma for_each_evolves:
  assumes "\<And>x w. evolves w (snd (f x w))"
  shows "evolves w (snd (for_each f xs w))"
proof (induction xs arbitrary: w)
  case (Cons x xs)
  obtain r w1 where x: "f x w = (r, w1)" by fastforce
  have "evolves w w1" using assms [of w x] x by simp
  with evolves_trans [OF this Cons.IH] x show ?case by (simp add: attempt_apply split: sum.split)
qed (simp add: evolves_refl)

lemma lease_evolves:
  assumes "cs_byID (cw_store w') = cs_byID (cw_store w)" "cs_states (cw_store w') = cs_states (cw_store w)"
    and "cw_ids w' = cw_ids w" "cw_states w' = cw_states w" "cw_events w' = cw_events w"
  shows "evolves w w'"
  using assms by (auto simp: evolves_def conn_inv_def phase_of_def intro: exI [of _ "[]"] life_run.stay)

lemma claim_run:
  "on_store (conn_mem_ClaimDueRefresh now lead ttl limit) w = (Inr ds, w') \<Longrightarrow> evolves w w'"
  "on_store (conn_mem_ClaimDueReconcile now lead ttl limit) w = (Inr ds, w') \<Longrightarrow> evolves w w'"
  by (auto simp: zoom_apply conn_mem_ClaimDueRefresh_def conn_mem_ClaimDueReconcile_def Let_def intro!: lease_evolves)

lemma refreshDueOne_evolves: "evolves w (snd (refreshDueOne (conn_F env) c w))"
proof -
  have "snd (refreshDueOne (conn_F env) c w) = snd (refreshOnce (conn_F env) (Conn_OrgID c) (Conn_ID c)
      \<lparr>rp_force = False, rp_lead = defaultRefreshLead, rp_deniedReason = ExpiredReasonRefreshDenied\<rparr> w)"
    by (simp add: refreshDueOne_def catching_apply recordScheduledRefreshOutcome_def split: prod.split)
  then show ?thesis by (simp add: refreshOnce_evolves reasons)
qed

lemma RefreshDueOnce_evolves: "evolves w (snd (RefreshDueOnce (conn_F env) w))"
proof -
  obtain r w1 where c: "on_store (conn_mem_ClaimDueRefresh (cw_now w) defaultRefreshLead refreshLeaseTTL refreshClaimBatchLimit) w = (r, w1)"
    by fastforce
  then obtain ds where r: "r = Inr ds" by (auto simp: zoom_apply conn_mem_ClaimDueRefresh_def Let_def)
  have "snd (RefreshDueOnce (conn_F env) w) = snd (for_each (refreshDueOne (conn_F env)) ds w1)"
    using c r by (simp add: RefreshDueOnce_def run_simps)
  with evolves_trans [OF claim_run(1) for_each_evolves] c r refreshDueOne_evolves show ?thesis by metis
qed

text \<open>
  A reconciliation pass writes back the rows it claimed, so it needs them to be the stored ones still:
  handling one row changes no other, and no row is claimed twice.
\<close>

definition current_rows :: "conn_world \<Rightarrow> Connection list \<Rightarrow> bool" where
  "current_rows w cs \<longleftrightarrow> distinct (map Conn_ID cs) \<and> (\<forall>c \<in> set cs. conn_of w (Conn_ID c) = Some c)"

definition changes_only :: "ConnectionID \<Rightarrow> conn_world \<Rightarrow> conn_world \<Rightarrow> bool" where
  "changes_only i w w' \<longleftrightarrow> evolves w w' \<and> (\<forall>j. j \<noteq> i \<longrightarrow> conn_of w' j = conn_of w j)"

lemma changes_onlyI: "evolves w w' \<Longrightarrow> (\<And>j. j \<noteq> i \<Longrightarrow> conn_of w' j = conn_of w j) \<Longrightarrow> changes_only i w w'"
  by (simp add: changes_only_def)

lemma changes_only_frame:
  assumes "conn_frame v = conn_frame u" and "changes_only i v w"
  shows "changes_only i u w"
  using assms frame_evolves [OF assms(1)] by (auto simp: changes_only_def conn_frame_def)

lemma changes_only_refl: "conn_frame w' = conn_frame w \<Longrightarrow> changes_only i w w'"
  using evolves_quiet by (auto simp: changes_only_def conn_frame_def)

lemma changes_only_trans: "changes_only i u v \<Longrightarrow> changes_only i v w \<Longrightarrow> changes_only i u w"
  using evolves_trans by (auto simp: changes_only_def)

lemma current_rows_after:
  "current_rows w (c # cs) \<Longrightarrow> changes_only (Conn_ID c) w w' \<Longrightarrow> current_rows w' cs"
  by (auto simp: current_rows_def changes_only_def image_iff)

lemma markReconciled_run:
  assumes "conn_of w (Conn_ID c) = Some c"
  shows "changes_only (Conn_ID c) w (snd (discard (markReconciled (conn_F env) c) (ok ()) w))"
proof -
  have "evolves w (snd (on_store (conn_mem_Update (Conn_MarkReconciled c t)) w))" for t
    using assms by (intro Update_evolves) (auto simp: lifecycle_simps intro: life_run.stay)
  then show ?thesis
    by (auto simp: markReconciled_def run_simps conn_mem_Update_def lifecycle_simps intro!: changes_onlyI)
qed

lemma reconcileRevocation_run:
  assumes inv: "conn_inv w" and c: "conn_of w (Conn_ID c) = Some c"
  shows "changes_only (Conn_ID c) w (snd (reconcileRevocation (conn_F env) c w))"
proof -
  let ?p = "\<lparr>rp_force = True, rp_lead = 0, rp_deniedReason = ExpiredReasonReconciliationFailed\<rparr>"
  obtain r w1 where run: "refreshOnce (conn_F env) (Conn_OrgID c) (Conn_ID c) ?p w = (r, w1)" by fastforce
  note res = refreshOnce_run [OF run inv]
  have ch: "changes_only (Conn_ID c) w w1" using res by (simp add: changes_only_def reasons)
  show ?thesis
  proof (cases r)
    case (Inl e)
    with run ch show ?thesis by (simp add: reconcileRevocation_def run_simps)
  next
    case (Inr c')
    then have "Conn_ID c' = Conn_ID c" "conn_of w1 (Conn_ID c') = Some c'" using res(3) by (auto simp: reasons)
    with markReconciled_run [of w1 c' env] have "changes_only (Conn_ID c) w1 (snd (discard (markReconciled (conn_F env) c') (ok ()) w1))"
      by simp
    from changes_only_trans [OF ch this] ch Inr run show ?thesis
      by (simp add: reconcileRevocation_def catching_apply)
  qed
qed

lemma reconcileOne_run:
  assumes inv: "conn_inv w" and c: "conn_of w (Conn_ID c) = Some c"
  shows "changes_only (Conn_ID c) w (snd (reconcileOne (conn_F env) c w))"
proof -
  let ?w1 = "w\<lparr>cw_probes := Suc (cw_probes w)\<rparr>"
  have f: "conn_frame ?w1 = conn_frame w" by (simp add: conn_frame_def)
  have c1: "conn_of ?w1 (Conn_ID c) = Some c" "conn_inv ?w1" using inv c by (auto simp: conn_inv_def)
  note m = changes_only_frame [OF f markReconciled_run [OF c1(1), of env]]
    and r = changes_only_frame [OF f reconcileRevocation_run [OF c1(2) c1(1), of env]]
    and q = changes_only_refl [OF refl, of "Conn_ID c" w] and q1 = changes_only_refl [OF f, of "Conn_ID c"]
  show ?thesis
    using m r q q1 by (simp add: reconcileOne_def call_apply catching_apply split: sum.split)
qed

lemma slept_frame: "conn_frame (w\<lparr>cw_slept := x\<rparr>) = conn_frame w"
  by (simp add: conn_frame_def)

lemma reconcile_rest_evolves: "conn_inv w \<Longrightarrow> current_rows w cs \<Longrightarrow> evolves w (snd (reconcile_rest (conn_F env) cs w))"
proof (induction cs arbitrary: w)
  case (Cons c cs)
  obtain d where d: "reconcileSpacing (conn_F env) w = (d, w)" by (simp add: reconcileSpacing_def)
  let ?w1 = "w\<lparr>cw_slept := cw_slept w @ [d]\<rparr>"
  have c1: "conn_inv ?w1" "conn_of ?w1 (Conn_ID c) = Some c" "current_rows ?w1 (c # cs)"
    using Cons.prems by (auto simp: conn_inv_def current_rows_def)
  obtain r w2 where run: "reconcileOne (conn_F env) c ?w1 = (r, w2)" by fastforce
  from reconcileOne_run [OF c1(1,2), of env] run have ch: "changes_only (Conn_ID c) ?w1 w2" by simp
  then have e1: "evolves ?w1 w2" and inv2: "conn_inv w2" using c1(1) by (auto simp: changes_only_def evolves_def)
  have "evolves w2 (snd (reconcile_rest (conn_F env) cs w2))"
    by (rule Cons.IH [OF inv2 current_rows_after [OF c1(3) ch]])
  note all = frame_evolves [OF slept_frame evolves_trans [OF e1 this]] frame_evolves [OF slept_frame e1]
    evolves_quiet [OF slept_frame, of w "cw_slept w @ [d]"]
  show ?case using all d run by (simp add: attempt_apply call_apply split: sum.split)
qed (simp add: evolves_refl)

lemma first_due_rows: "c \<in> set (first_due due limit r) \<Longrightarrow> c \<in> set (rows (cs_byID r)) \<and> due c"
  by (auto simp: first_due_def Let_def sortConnectionsOldestFirst_def split: if_splits dest: in_set_takeD)

lemma first_due_current:
  assumes "conn_inv w" and "cs_byID (cw_store w') = cs_byID (cw_store w)"
  shows "current_rows w' (first_due due limit (cw_store w))"
proof -
  let ?ds = "sortConnectionsOldestFirst (filter due (rows (cs_byID (cw_store w))))"
  have "distinct (map Conn_ID (rows (cs_byID (cw_store w))))"
    using assms(1) by (intro keyed_distinct_rows) (simp add: conn_inv_def)
  then have "distinct (map Conn_ID ?ds)"
    by (simp add: sortConnectionsOldestFirst_def distinct_map_filter)
  then have "distinct (map Conn_ID (first_due due limit (cw_store w)))"
    by (simp add: first_due_def Let_def take_map [symmetric])
  then show ?thesis
    using first_due_rows row_found [OF assms(1)] assms(2) by (auto simp: current_rows_def)
qed

lemma ReconcileOnce_evolves: "evolves w (snd (ReconcileOnce (conn_F env) w))"
proof (rule evolves_inv)
  assume inv: "conn_inv w"
  let ?due = "first_due (\<lambda>c. isDueForReconcileClaim (cw_store w) c (cw_now w) defaultReconcileInterval)
      reconcileClaimBatchLimit (cw_store w)"
  obtain r w1 where c: "on_store (conn_mem_ClaimDueReconcile (cw_now w) defaultReconcileInterval reconcileLeaseTTL
      reconcileClaimBatchLimit) w = (r, w1)" by fastforce
  then have r: "r = Inr ?due" and byID: "cs_byID (cw_store w1) = cs_byID (cw_store w)"
    by (auto simp: zoom_apply conn_mem_ClaimDueReconcile_def Let_def)
  have e1: "evolves w w1" using claim_run(2) c r by blast
  then have inv1: "conn_inv w1" using inv by (simp add: evolves_def)
  note cur = first_due_current [OF inv byID]
  show ?thesis
  proof (cases ?due)
    case Nil
    then show ?thesis using c r e1 by (simp add: ReconcileOnce_def run_simps)
  next
    case (Cons x rest)
    obtain r2 w2 where run: "reconcileOne (conn_F env) x w1 = (r2, w2)" by fastforce
    have cx: "current_rows w1 (x # rest)" using cur [of "\<lambda>c. isDueForReconcileClaim (cw_store w) c (cw_now w) defaultReconcileInterval"
          reconcileClaimBatchLimit] Cons by simp
    then have "conn_of w1 (Conn_ID x) = Some x" by (simp add: current_rows_def)
    from reconcileOne_run [OF inv1 this, of env] run have ch: "changes_only (Conn_ID x) w1 w2" by simp
    have e2: "evolves w w2" using ch e1 by (auto simp: changes_only_def intro: evolves_trans)
    then have inv2: "conn_inv w2" using inv by (simp add: evolves_def)
    have e3: "evolves w (snd (reconcile_rest (conn_F env) rest w2))"
      by (rule evolves_trans [OF e2 reconcile_rest_evolves [OF inv2 current_rows_after [OF cx ch]]])
    show ?thesis
      using c r Cons run e2 e3 by (simp add: ReconcileOnce_def run_simps split: sum.split)
  qed
qed

section \<open>The system\<close>

text \<open>
  Any operation of the facade may run next, whatever its arguments, its result and the providers' answers;
  the clock may only move.
\<close>

inductive conn_step :: "conn_env \<Rightarrow> conn_world \<Rightarrow> conn_world \<Rightarrow> bool" for env where
  initiated: "conn_step env w (snd (conn_Initiate (conn_F env) org u ig uri w))"
| opened: "conn_step env w (snd (OpenConnectPage (conn_F env) token w))"
| submitted: "conn_step env w (snd (SubmitParams (conn_F env) token vals w))"
| called_back: "conn_step env w (snd (HandleCallback (conn_F env) code s perr w))"
| disabled: "conn_step env w (snd (conn_Disable (conn_F env) org i w))"
| deleted: "conn_step env w (snd (conn_Delete (conn_F env) org i w))"
| reconnected: "conn_step env w (snd (conn_Reconnect (conn_F env) org i uri w))"
| resolved: "conn_step env w (snd (conn_ResolveForExecution (conn_F env) org u i w))"
| refreshed: "conn_step env w (snd (conn_RefreshForExecution (conn_F env) org u i w))"
| refresh_pass: "conn_step env w (snd (RefreshDueOnce (conn_F env) w))"
| reconcile_pass: "conn_step env w (snd (ReconcileOnce (conn_F env) w))"
| ticked: "conn_step env w (w\<lparr>cw_now := t\<rparr>)"

definition conn_start :: "time \<Rightarrow> conn_world" where
  "conn_start t = \<lparr>cw_store = conn_NewRepository, cw_now = t, cw_ids = 0, cw_tokens = 0, cw_states = 0, cw_nonces = 0,
     cw_exchanges = [], cw_grants = [], cw_probes = 0, cw_log = [], cw_events = [], cw_deleted = [], cw_slept = []\<rparr>"

lemma conn_step_evolves: "conn_step env w w' \<Longrightarrow> evolves w w'"
  by (induction rule: conn_step.induct)
    (auto intro: Initiate_evolves OpenConnectPage_evolves SubmitParams_evolves HandleCallback_evolves Disable_evolves
      Delete_evolves Reconnect_evolves Resolve_evolves RefreshForExecution_evolves RefreshDueOnce_evolves
      ReconcileOnce_evolves lease_evolves)

lemma conn_steps_evolve: "(conn_step env)\<^sup>*\<^sup>* w w' \<Longrightarrow> evolves w w'"
  by (induction rule: rtranclp_induct) (auto intro: evolves_refl evolves_trans conn_step_evolves)

lemma conn_start_inv: "conn_inv (conn_start t)" "phase_of (conn_start t) i = Unborn" "cw_events (conn_start t) = []"
  by (simp_all add: conn_inv_def conn_start_def conn_NewRepository_def phase_of_def minted_def)

end
