(* ===== verification/HTTPDate.thy ===== *)
theory HTTPDate
  imports GoTime
begin

text \<open>
  \<open>http.ParseTime\<close>: an HTTP date in one of its three shapes, read with \<open>time.Parse\<close>'s rules for the
  elements they use: case-insensitive names, one- or two-digit hours, an optional fraction after the
  seconds, runs of blanks where the layout has one, a two-digit year before 69 in this century. The
  process runs in UTC, so a zone abbreviation names UTC or an unknown zone that Go reads with offset 0.
\<close>

section \<open>Elements of a layout\<close>

definition lower_text :: "string \<Rightarrow> string" where
  "lower_text = map (\<lambda>c. if CHR ''A'' \<le> c \<and> c \<le> CHR ''Z'' then char_of (of_char c + 32 :: nat) else c)"

text \<open>\<open>lookup\<close>: the first name the text begins with, and what follows it.\<close>

fun lookup_name :: "nat \<Rightarrow> string list \<Rightarrow> string \<Rightarrow> (nat \<times> string) option" where
  "lookup_name i [] s = None"
| "lookup_name i (n # ns) s =
     (if length n \<le> length s \<and> lower_text (take (length n) s) = lower_text n then Some (i, drop (length n) s)
      else lookup_name (Suc i) ns s)"

definition shortMonthNames :: "string list" where
  "shortMonthNames = [''Jan'', ''Feb'', ''Mar'', ''Apr'', ''May'', ''Jun'', ''Jul'', ''Aug'', ''Sep'', ''Oct'', ''Nov'', ''Dec'']"

definition shortDayNames :: "string list" where
  "shortDayNames = [''Sun'', ''Mon'', ''Tue'', ''Wed'', ''Thu'', ''Fri'', ''Sat'']"

definition longDayNames :: "string list" where
  "longDayNames = [''Sunday'', ''Monday'', ''Tuesday'', ''Wednesday'', ''Thursday'', ''Friday'', ''Saturday'']"

definition getnum :: "bool \<Rightarrow> string \<Rightarrow> (nat \<times> string) option" where
  "getnum fixed s =
     (case s of
        [] \<Rightarrow> None
      | a # r \<Rightarrow>
          (case digit_value a of
             None \<Rightarrow> None
           | Some x \<Rightarrow>
               (case r of
                  b # r' \<Rightarrow>
                    (case digit_value b of
                       Some y \<Rightarrow> Some (10 * x + y, r')
                     | None \<Rightarrow> if fixed then None else Some (x, r))
                | [] \<Rightarrow> if fixed then None else Some (x, r))))"

definition in_range :: "nat \<Rightarrow> nat \<Rightarrow> (nat \<times> string) option \<Rightarrow> (nat \<times> string) option" where
  "in_range lo hi p = (case p of Some (n, r) \<Rightarrow> if lo \<le> n \<and> n \<le> hi then p else None | None \<Rightarrow> None)"

text \<open>\<open>skip\<close>: literal text of the layout; a blank matches any run of blanks, or the end.\<close>

function skip_text :: "string \<Rightarrow> string \<Rightarrow> string option" where
  "skip_text [] s = Some s"
| "skip_text (c # cs) s =
     (if c = CHR '' '' then
        (if s \<noteq> [] \<and> hd s \<noteq> CHR '' '' then None
         else skip_text (dropWhile (\<lambda>x. x = CHR '' '') cs) (dropWhile (\<lambda>x. x = CHR '' '') s))
      else (case s of x # xs \<Rightarrow> if x = c then skip_text cs xs else None | [] \<Rightarrow> None))"
  by pat_completeness auto

termination
  by (relation "measure (\<lambda>(c, s). length c)") (auto simp: le_imp_less_Suc length_dropWhile_le)

definition year4 :: "string \<Rightarrow> (nat \<times> string) option" where
  "year4 s = (if length s < 4 \<or> \<not> is_digit (hd s) then None else take_num 4 0 9999 s)"

text \<open>
  A two-digit year is read with \<open>Atoi\<close>, which takes a sign too: \<open>-1\<close> is the year 1999, \<open>+7\<close> 2007.
\<close>

definition year2 :: "string \<Rightarrow> (int \<times> string) option" where
  "year2 s =
     (if length s < 2 then None
      else (case Atoi (take 2 s) of
              None \<Rightarrow> None
            | Some y \<Rightarrow> Some (if y \<ge> 69 then y + 1900 else y + 2000, drop 2 s)))"

text \<open>The fraction after the seconds, a point or a comma and digits, of which nine count.\<close>

definition seconds_fraction :: "string \<Rightarrow> nat \<times> string" where
  "seconds_fraction s =
     (case s of
        c # r \<Rightarrow>
          (let ds = takeWhile is_digit r in
           if (c = CHR ''.'' \<or> c = CHR '','') \<and> ds \<noteq> []
           then (case fraction_value (take 9 ds) of None \<Rightarrow> (0, s) | Some n \<Rightarrow> (n, dropWhile is_digit r))
           else (0, s))
      | [] \<Rightarrow> (0, s))"

text \<open>\<open>15:04:05\<close>: hour, minute, second and nanosecond as nanoseconds of the day.\<close>

definition clock :: "string \<Rightarrow> (int \<times> string) option" where
  "clock s =
     do { (h, s) \<leftarrow> in_range 0 23 (getnum False s);
          s \<leftarrow> skip_text '':'' s;
          (mi, s) \<leftarrow> in_range 0 59 (getnum True s);
          s \<leftarrow> skip_text '':'' s;
          (ss, s) \<leftarrow> in_range 0 59 (getnum True s);
          (case seconds_fraction s of (f, s) \<Rightarrow>
             Some ((int h * 3600 + int mi * 60 + int ss) * 1000000000 + int f, s)) }"

definition date_time :: "int \<Rightarrow> nat \<Rightarrow> nat \<Rightarrow> int \<Rightarrow> time option" where
  "date_time y m d clk =
     (if 1 \<le> d \<and> int d \<le> month_lengths y ! m
      then Some ((days_before_year y + sum_list (take m (month_lengths y)) + int d - 1 - epoch_day)
             * 86400 * 1000000000 + clk)
      else None)"

section \<open>The three shapes\<close>

text \<open>\<open>Mon, 02 Jan 2006 15:04:05 GMT\<close>.\<close>

definition parse_TimeFormat :: "string \<Rightarrow> time option" where
  "parse_TimeFormat s =
     do { (_, s) \<leftarrow> lookup_name 0 shortDayNames s;
          s \<leftarrow> skip_text '', '' s;
          (d, s) \<leftarrow> getnum True s;
          s \<leftarrow> skip_text '' '' s;
          (m, s) \<leftarrow> lookup_name 0 shortMonthNames s;
          s \<leftarrow> skip_text '' '' s;
          (y, s) \<leftarrow> year4 s;
          s \<leftarrow> skip_text '' '' s;
          (c, s) \<leftarrow> clock s;
          s \<leftarrow> skip_text '' GMT'' s;
          if s = [] then date_time (int y) m d c else None }"

text \<open>\<open>parseTimeZone\<close>: the length of a zone abbreviation.\<close>

definition signed_offset_length :: "string \<Rightarrow> nat" where
  "signed_offset_length s =
     (case s of
        [] \<Rightarrow> 0
      | c # r \<Rightarrow>
          (let ds = takeWhile is_digit r in
           if (c = CHR ''+'' \<or> c = CHR ''-'') \<and> ds \<noteq> [] \<and>
              (case digits_value 0 ds of Some n \<Rightarrow> n \<le> 23 | None \<Rightarrow> False)
           then Suc (length ds) else 0))"

definition is_upper :: "char \<Rightarrow> bool" where
  "is_upper c \<longleftrightarrow> CHR ''A'' \<le> c \<and> c \<le> CHR ''Z''"

definition zone_length :: "string \<Rightarrow> nat option" where
  "zone_length s =
     (if length s < 3 then None
      else if take 4 s = ''ChST'' \<or> take 4 s = ''MeST'' then Some 4
      else if take 3 s = ''GMT'' then Some (3 + signed_offset_length (drop 3 s))
      else if hd s = CHR ''+'' \<or> hd s = CHR ''-''
      then (let n = signed_offset_length s in if n > 0 then Some n else None)
      else (let u = length (takeWhile is_upper (take 6 s)) in
            if u = 5 \<and> s ! 4 = CHR ''T'' then Some 5
            else if u = 4 \<and> (s ! 3 = CHR ''T'' \<or> take 4 s = ''WITA'') then Some 4
            else if u = 3 then Some 3
            else None))"

definition zone_name :: "string \<Rightarrow> string option" where
  "zone_name s = (if take 3 s = ''UTC'' then Some (drop 3 s) else map_option (\<lambda>n. drop n s) (zone_length s))"

text \<open>\<open>Monday, 02-Jan-06 15:04:05 MST\<close>.\<close>

definition parse_RFC850 :: "string \<Rightarrow> time option" where
  "parse_RFC850 s =
     do { (_, s) \<leftarrow> lookup_name 0 longDayNames s;
          s \<leftarrow> skip_text '', '' s;
          (d, s) \<leftarrow> getnum True s;
          s \<leftarrow> skip_text ''-'' s;
          (m, s) \<leftarrow> lookup_name 0 shortMonthNames s;
          s \<leftarrow> skip_text ''-'' s;
          (y, s) \<leftarrow> year2 s;
          s \<leftarrow> skip_text '' '' s;
          (c, s) \<leftarrow> clock s;
          s \<leftarrow> skip_text '' '' s;
          s \<leftarrow> zone_name s;
          if s = [] then date_time y m d c else None }"

text \<open>\<open>Mon Jan _2 15:04:05 2006\<close>.\<close>

definition parse_ANSIC :: "string \<Rightarrow> time option" where
  "parse_ANSIC s =
     do { (_, s) \<leftarrow> lookup_name 0 shortDayNames s;
          s \<leftarrow> skip_text '' '' s;
          (m, s) \<leftarrow> lookup_name 0 shortMonthNames s;
          s \<leftarrow> skip_text '' '' s;
          (d, s) \<leftarrow> getnum False (case s of c # r \<Rightarrow> if c = CHR '' '' then r else s | [] \<Rightarrow> s);
          s \<leftarrow> skip_text '' '' s;
          (c, s) \<leftarrow> clock s;
          s \<leftarrow> skip_text '' '' s;
          (y, s) \<leftarrow> year4 s;
          if s = [] then date_time (int y) m d c else None }"

definition http_ParseTime :: "string \<Rightarrow> time option" where
  "http_ParseTime s =
     (case parse_TimeFormat s of
        Some t \<Rightarrow> Some t
      | None \<Rightarrow> (case parse_RFC850 s of Some t \<Rightarrow> Some t | None \<Rightarrow> parse_ANSIC s))"

lemma http_ParseTime_examples:
  "http_ParseTime ''Thursday, 01-Jan-70 00:01:00 GMT'' = Some 60000000000"
  "http_ParseTime ''soon'' = None"
  by code_simp+

end
