(* ===== verification/ExecCalls.thy ===== *)
theory ExecCalls
  imports ConnectionTypes Template HTTPDate
begin

text \<open>
  \<open>internal/execution\<close>, first half: the requests, responses and ports (\<open>port.go\<close>), results and errors
  (\<open>types.go\<close>, \<open>errors.go\<close>), the detection of rate limits (\<open>ratelimit.go\<close>), the retry policy (\<open>retry.go\<close>),
  pagination (\<open>pagination.go\<close>) and uploaded files (\<open>files.go\<close>).
\<close>

section \<open>Results and errors (types.go, errors.go)\<close>

record ExecutionError =
  XE_Code :: string
  XE_Message :: string

record Result =
  Res_Successful :: bool
  Res_Error :: "ExecutionError option"
  Res_Data :: any
  Res_NextCursor :: string

definition SuccessResult :: "any \<Rightarrow> string \<Rightarrow> Result" where
  "SuccessResult data nextCursor =
     \<lparr>Res_Successful = True, Res_Error = None, Res_Data = data, Res_NextCursor = nextCursor\<rparr>"

definition FailureResult :: "string \<Rightarrow> string \<Rightarrow> Result" where
  "FailureResult code message =
     \<lparr>Res_Successful = False, Res_Error = Some \<lparr>XE_Code = code, XE_Message = message\<rparr>, Res_Data = ANil,
      Res_NextCursor = []\<rparr>"

definition CodeInvalidArguments :: string where "CodeInvalidArguments = ''invalid_arguments''"
definition CodeConnectionNotActive :: string where "CodeConnectionNotActive = ''connection_not_active''"
definition CodeProviderError :: string where "CodeProviderError = ''provider_error''"
definition CodeProviderUnavailable :: string where "CodeProviderUnavailable = ''provider_unavailable''"
definition CodeFileNotFound :: string where "CodeFileNotFound = ''file_not_found''"
definition CodeRateLimited :: string where "CodeRateLimited = ''rate_limited''"

definition ErrFileNotFound :: go_error where
  "ErrFileNotFound = not_found_error ''file not found''"

definition exec_ErrValidation :: "string \<Rightarrow> string \<Rightarrow> go_error" where
  "exec_ErrValidation field issue = validation_error field issue"

text \<open>\<open>d.Round(time.Second)\<close>: half away from zero, at the ends of the range the extreme durations.\<close>

definition Round_second :: "duration \<Rightarrow> duration" where
  "Round_second d =
     (let r = (if d < 0 then (- d) mod second else d mod second) in
      if d < 0 then
        (if 2 * r < second then d + r
         else if - (2 ^ 63) \<le> d - second + r then d - second + r else - (2 ^ 63))
      else if 2 * r < second then d - r
      else if d + second - r < 2 ^ 63 then d + second - r else 2 ^ 63 - 1)"

definition retryAfterSeconds :: "duration \<Rightarrow> int" where
  "retryAfterSeconds retryAfter =
     (let q = Round_second retryAfter; seconds = sgn q * (\<bar>q\<bar> div second) in if seconds < 1 then 1 else seconds)"

definition ErrRateLimited :: "duration \<Rightarrow> go_error" where
  "ErrRateLimited retryAfter =
     DomainError (WithHeader (httpx_New 429 CodeRateLimited ''upstream rate limit exceeded; retry after the given delay'')
       ''Retry-After'' (itoa (retryAfterSeconds retryAfter)))"

definition go_error_text :: "go_error \<Rightarrow> string" where
  "go_error_text e = (case e of DomainError d \<Rightarrow> error_text d | OtherError s \<Rightarrow> s)"

section \<open>Requests and responses (port.go)\<close>

record ToolCallFile =
  TCF_FieldName :: string
  TCF_FileID :: string
  TCF_FileName :: string
  TCF_MimeType :: string
  TCF_Size :: int
  TCF_Content :: string

record ToolCallRequest =
  TCR_Method :: string
  TCR_URL :: string
  TCR_AccessToken :: string
  TCR_Query :: string_map
  TCR_Headers :: string_map
  TCR_Body :: string
  TCR_Files :: "ToolCallFile list"

record ToolCallResponse =
  RSP_StatusCode :: int
  RSP_Body :: string
  RSP_RetryAfter :: string

definition no_response :: ToolCallResponse where
  "no_response = \<lparr>RSP_StatusCode = 0, RSP_Body = [], RSP_RetryAfter = []\<rparr>"

record ExecLogEntry =
  XL_OrgID :: OrgID
  XL_UserID :: UserID
  XL_ConnectionID :: ConnectionID
  XL_ToolID :: string
  XL_ToolSlug :: string
  XL_Status :: int
  XL_DurationMs :: int
  XL_RequestBody :: string
  XL_ResponseBody :: string
  XL_RateLimited :: bool

section \<open>Files (files.go)\<close>

type_synonym FileID = string

record FileMetadata =
  FM_ID :: FileID
  FM_OrgID :: OrgID
  FM_Name :: string
  FM_MimeType :: string
  FM_Size :: int
  FM_StorageKey :: string
  FM_CreatedAt :: time

record UploadedFile =
  UF_ID :: FileID
  UF_Name :: string
  UF_MimeType :: string
  UF_Size :: int

section \<open>Rate limits (ratelimit.go)\<close>

definition graphThrottleCodes :: "string list" where
  "graphThrottleCodes = [''TooManyRequests'', ''activityLimitReached'']"

definition hubspotRateLimitCategory :: string where
  "hubspotRateLimitCategory = ''RATE_LIMITS''"

text \<open>
  A nested struct field: \<open>Unmarshal\<close> merges every object given for it; \<open>None\<close> is a type error.
\<close>

fun field_struct :: "string \<Rightarrow> (string \<times> json) list \<Rightarrow> (string \<times> json) list option" where
  "field_struct tag [] = Some []"
| "field_struct tag ((k, v) # kvs) =
     (if json_lower k \<noteq> json_lower tag then field_struct tag kvs
      else (case json_members v of None \<Rightarrow> None | Some ms \<Rightarrow> map_option ((@) ms) (field_struct tag kvs)))"

record rateLimitBody =
  RLB_Code :: string
  RLB_InnerCode :: string
  RLB_Category :: string

definition Unmarshal_rateLimitBody :: "string \<Rightarrow> rateLimitBody option" where
  "Unmarshal_rateLimitBody body =
     do { v \<leftarrow> json_parse body;
          ms \<leftarrow> json_members v;
          es \<leftarrow> field_struct ''error'' ms;
          code \<leftarrow> field_string ''code'' [] es;
          is \<leftarrow> field_struct ''innerError'' es;
          inner \<leftarrow> field_string ''code'' [] is;
          category \<leftarrow> field_string ''category'' [] ms;
          Some \<lparr>RLB_Code = code, RLB_InnerCode = inner, RLB_Category = category\<rparr> }"

definition bodyCarriesRateLimitSignal :: "string \<Rightarrow> bool" where
  "bodyCarriesRateLimitSignal body =
     (case Unmarshal_rateLimitBody body of
        None \<Rightarrow> False
      | Some parsed \<Rightarrow>
          if RLB_Code parsed \<in> set graphThrottleCodes \<or> RLB_InnerCode parsed \<in> set graphThrottleCodes then True
          else RLB_Category parsed = hubspotRateLimitCategory)"

definition IsRateLimited :: "ToolCallResponse \<Rightarrow> bool" where
  "IsRateLimited response =
     (if RSP_StatusCode response = 429 then True else bodyCarriesRateLimitSignal (RSP_Body response))"

definition ParseRetryAfter :: "string \<Rightarrow> time \<Rightarrow> duration option" where
  "ParseRetryAfter header0 now =
     (let header = TrimSpace header0 in
      if header = [] then None
      else (case Atoi header of
              Some seconds \<Rightarrow> if seconds < 0 then None else Some (dur_mul seconds second)
            | None \<Rightarrow>
                (case http_ParseTime header of
                   Some when' \<Rightarrow>
                     (let remaining = Sub_sat when' now in if remaining > 0 then Some remaining else Some 0)
                 | None \<Rightarrow> None)))"

section \<open>The facade (facade.go)\<close>

text \<open>
  The ports of the facade. \<open>exec_recorder\<close> and \<open>exec_metrics\<close> are \<open>None\<close> where the code holds \<open>nil\<close>;
  \<open>exec_rand\<close> is \<open>rand.Int64N\<close>, \<open>exec_validate\<close> the JSON Schema library (the text of its error).
\<close>

record 's exec_metrics =
  xm_RecordToolExecution :: "string \<Rightarrow> int \<Rightarrow> duration \<Rightarrow> 's \<Rightarrow> 's"
  xm_RecordRateLimitRetry :: "string \<Rightarrow> 's \<Rightarrow> 's"

record 's exec_facade =
  exec_FindToolBySlug :: "string \<Rightarrow> ('s, ProviderDefinition \<times> ProviderTool) act"
  exec_FindTriggerBySlug :: "string \<Rightarrow> ('s, ProviderDefinition \<times> TriggerDefinition) act"
  exec_ResolveForExecution :: "OrgID \<Rightarrow> UserID \<Rightarrow> ConnectionID \<Rightarrow> ('s, ExecutionAccess) act"
  exec_RefreshForExecution :: "OrgID \<Rightarrow> UserID \<Rightarrow> ConnectionID \<Rightarrow> ('s, ExecutionAccess) act"
  exec_provider_Call :: "ToolCallRequest \<Rightarrow> ('s, ToolCallResponse) act"
  exec_recorder :: "(ExecLogEntry \<Rightarrow> ('s, unit) act) option"
  exec_metrics :: "'s exec_metrics option"
  exec_now :: "'s \<Rightarrow> time \<times> 's"
  exec_sleep :: "duration \<Rightarrow> ('s, unit) act"
  exec_rand :: "int \<Rightarrow> 's \<Rightarrow> int \<times> 's"
  exec_validate :: "any_map \<Rightarrow> any_map \<Rightarrow> string option"
  exec_files_Save :: "FileMetadata \<Rightarrow> ('s, unit) act"
  exec_files_FindByID :: "OrgID \<Rightarrow> FileID \<Rightarrow> ('s, FileMetadata option) act"
  exec_fileStore_Save :: "string \<Rightarrow> string \<Rightarrow> ('s, unit) act"
  exec_fileStore_Open :: "string \<Rightarrow> ('s, string) act"
  exec_fileStore_Delete :: "string \<Rightarrow> ('s, unit) act"
  exec_maxFileBytes :: int
  exec_newFileID :: "'s \<Rightarrow> string \<times> 's"

section \<open>Retries (retry.go)\<close>

definition maxAttempts :: int where
  "maxAttempts = 3"

definition retryBudget :: duration where
  "retryBudget = 30 * second"

definition jitterBackoffMin :: duration where
  "jitterBackoffMin = 500 * millisecond"

definition jitterBackoffMax :: duration where
  "jitterBackoffMax = 2 * second"

definition jitterBackoff :: "'s exec_facade \<Rightarrow> 's \<Rightarrow> duration \<times> 's" where
  "jitterBackoff f s =
     (let span = jitterBackoffMax - jitterBackoffMin in
      case exec_rand f span s of (n, s') \<Rightarrow> (jitterBackoffMin + n, s'))"

definition retryDelay :: "'s exec_facade \<Rightarrow> ToolCallResponse \<Rightarrow> time \<Rightarrow> 's \<Rightarrow> duration \<times> 's" where
  "retryDelay f response now s =
     (case ParseRetryAfter (RSP_RetryAfter response) now of
        Some delay \<Rightarrow> (delay, s)
      | None \<Rightarrow> jitterBackoff f s)"

record retryOutcome =
  RO_response :: ToolCallResponse
  RO_callErr :: "go_error option"
  RO_exhausted :: bool
  RO_retryAfter :: duration

text \<open>
  The loop from its \<open>i\<close>-th attempt on, \<open>waited\<close> so far; the sum of the waits is an \<open>int64\<close> and wraps.
\<close>

function retry_from ::
  "'s exec_facade \<Rightarrow> ('s, ToolCallResponse) act \<Rightarrow> ('s \<Rightarrow> 's) option \<Rightarrow> int \<Rightarrow> duration \<Rightarrow> 's \<Rightarrow> retryOutcome \<times> 's"
where
  "retry_from f att onRetry i waited s =
     (case att s of
        (Inl callErr, s1) \<Rightarrow>
          (\<lparr>RO_response = no_response, RO_callErr = Some callErr, RO_exhausted = False, RO_retryAfter = 0\<rparr>, s1)
      | (Inr response, s1) \<Rightarrow>
          if \<not> IsRateLimited response
          then (\<lparr>RO_response = response, RO_callErr = None, RO_exhausted = False, RO_retryAfter = 0\<rparr>, s1)
          else (case exec_now f s1 of
             (now, s2) \<Rightarrow>
               (case retryDelay f response now s2 of
                  (delay, s3) \<Rightarrow>
                    if i \<ge> maxAttempts \<or> wrap64 (waited + delay) > retryBudget
                    then (\<lparr>RO_response = response, RO_callErr = None, RO_exhausted = True, RO_retryAfter = delay\<rparr>, s3)
                    else (case exec_sleep f delay (case onRetry of None \<Rightarrow> s3 | Some m \<Rightarrow> m s3) of
                       (Inl sleepErr, s4) \<Rightarrow>
                         (\<lparr>RO_response = response, RO_callErr = Some sleepErr, RO_exhausted = False, RO_retryAfter = 0\<rparr>, s4)
                     | (Inr _, s4) \<Rightarrow> retry_from f att onRetry (i + 1) (wrap64 (waited + delay)) s4))))"
  by pat_completeness auto

termination
  by (relation "measure (\<lambda>(f, a, r, i, w, s). nat (maxAttempts - i))") auto

declare retry_from.simps [simp del]

definition retryLoop ::
  "'s exec_facade \<Rightarrow> ('s, ToolCallResponse) act \<Rightarrow> ('s \<Rightarrow> 's) option \<Rightarrow> 's \<Rightarrow> retryOutcome \<times> 's" where
  "retryLoop f att onRetry = retry_from f att onRetry 1 0"

section \<open>Pagination (pagination.go)\<close>

definition canonicalPageSizeArg :: string where
  "canonicalPageSizeArg = ''pageSize''"

definition canonicalCursorArg :: string where
  "canonicalCursorArg = ''cursor''"

definition put_arg :: "string \<Rightarrow> any option \<Rightarrow> string_map \<Rightarrow> string_map" where
  "put_arg param val query =
     (case val of Some v \<Rightarrow> if param \<noteq> [] then map_put param (Sprint v) query else query | None \<Rightarrow> query)"

definition applyPaginationQuery :: "string_map \<Rightarrow> Pagination option \<Rightarrow> any_map \<Rightarrow> string_map" where
  "applyPaginationQuery query pagination arguments =
     (case pagination of
        None \<Rightarrow> query
      | Some p \<Rightarrow>
          put_arg (PG_CursorParam p) (map_of arguments canonicalCursorArg)
            (put_arg (PG_PageSizeParam p) (map_of arguments canonicalPageSizeArg) query))"

fun lookup_segments :: "any \<Rightarrow> string list \<Rightarrow> any option" where
  "lookup_segments current [] = Some current"
| "lookup_segments current (segment # segments) =
     (case as_object current of
        None \<Rightarrow> None
      | Some object \<Rightarrow>
          (case map_of object segment of
             None \<Rightarrow> None
           | Some v \<Rightarrow> lookup_segments v segments))"

definition lookupNestedStringField :: "any \<Rightarrow> string \<Rightarrow> string option" where
  "lookupNestedStringField data path =
     (case lookup_segments data (Split (CHR ''.'') path) of
        None \<Rightarrow> None
      | Some v \<Rightarrow> as_string v)"

definition extractNextCursor :: "Pagination option \<Rightarrow> any \<Rightarrow> string" where
  "extractNextCursor pagination data =
     (case pagination of
        None \<Rightarrow> []
      | Some p \<Rightarrow>
          if PG_NextCursorPath p = [] then []
          else (case lookupNestedStringField data (PG_NextCursorPath p) of None \<Rightarrow> [] | Some c \<Rightarrow> c))"

end
