(* ===== verification/Execution.thy ===== *)
theory Execution
  imports ExecCalls
begin

text \<open>
  \<open>internal/execution/facade.go\<close> and \<open>poll.go\<close>: running one tool call and one trigger poll against a
  connection's provider, and the files. Where the code ranges over a Go map (query, header and body
  mappings) the model goes in key order: Go's order is unspecified, and all it can change is which of
  several missing tokens an error names, and which of two overlapping dotted body keys wins.
\<close>

section \<open>Building the request\<close>

definition joinBaseURLAndPath :: "string \<Rightarrow> string \<Rightarrow> string" where
  "joinBaseURLAndPath baseURL path =
     (if baseURL = [] then path
      else TrimRightChar baseURL (CHR ''/'') @ ''/'' @ TrimLeftChar path (CHR ''/''))"

definition buildToolCallURL :: "string \<Rightarrow> string \<Rightarrow> any_map \<Rightarrow> any_map \<Rightarrow> go_error + string" where
  "buildToolCallURL baseURL pathTemplate arguments params =
     (case RenderPath pathTemplate arguments params of
        Inl e \<Rightarrow> Inl e
      | Inr renderedPath \<Rightarrow> Inr (joinBaseURLAndPath baseURL renderedPath))"

definition stringifyArguments :: "any_map \<Rightarrow> string_map" where
  "stringifyArguments arguments = map (\<lambda>kv. (fst kv, Sprint (snd kv))) arguments"

definition withoutFileInputs :: "any_map \<Rightarrow> string list \<Rightarrow> any_map" where
  "withoutFileInputs arguments fileInputs =
     (if fileInputs = [] then arguments else filter (\<lambda>kv. fst kv \<notin> set fileInputs) arguments)"

text \<open>\<open>for name, expression := range mapping { ...RenderMappedValue...; if ok { result[name] = value } }\<close>\<close>

fun render_mapping :: "string_map \<Rightarrow> any_map \<Rightarrow> any_map \<Rightarrow> string_map \<Rightarrow> go_error + string_map" where
  "render_mapping [] arguments params acc = Inr acc"
| "render_mapping ((name, expression) # rest) arguments params acc =
     (case RenderMappedValue expression arguments params of
        Inl e \<Rightarrow> Inl e
      | Inr None \<Rightarrow> render_mapping rest arguments params acc
      | Inr (Some v) \<Rightarrow> render_mapping rest arguments params (map_put name v acc))"

definition buildToolQuery :: "Mapping \<Rightarrow> any_map \<Rightarrow> any_map \<Rightarrow> go_error + string_map" where
  "buildToolQuery mapping arguments params =
     (if MP_Query mapping = [] \<and> MP_Body mapping = [] \<and> MP_Pagination mapping = None
      then Inr (stringifyArguments (withoutFileInputs arguments (MP_FileInputs mapping)))
      else (case render_mapping (MP_Query mapping) arguments params [] of
              Inl e \<Rightarrow> Inl e
            | Inr query \<Rightarrow> Inr (applyPaginationQuery query (MP_Pagination mapping) arguments)))"

definition buildToolHeaders :: "Mapping \<Rightarrow> any_map \<Rightarrow> any_map \<Rightarrow> go_error + string_map" where
  "buildToolHeaders mapping arguments params =
     (if MP_Header mapping = [] then Inr [] else render_mapping (MP_Header mapping) arguments params [])"

fun setNestedBodyValue :: "any_map \<Rightarrow> string list \<Rightarrow> string \<Rightarrow> any_map" where
  "setNestedBodyValue target [] v = target"
| "setNestedBodyValue target [k] v = map_put k (AStr v) target"
| "setNestedBodyValue target (k # k' # ks) v =
     (let child = (case map_of target k of Some c \<Rightarrow> (case as_object c of Some m \<Rightarrow> m | None \<Rightarrow> []) | None \<Rightarrow> [])
      in map_put k (AMap (setNestedBodyValue child (k' # ks) v)) target)"

fun render_body :: "string_map \<Rightarrow> any_map \<Rightarrow> any_map \<Rightarrow> any_map \<Rightarrow> go_error + any_map" where
  "render_body [] arguments params body = Inr body"
| "render_body ((key, expression) # rest) arguments params body =
     (case RenderMappedValue expression arguments params of
        Inl e \<Rightarrow> Inl e
      | Inr None \<Rightarrow> render_body rest arguments params body
      | Inr (Some v) \<Rightarrow>
          render_body rest arguments params (setNestedBodyValue body (Split (CHR ''.'') key) v))"

definition buildToolBody :: "Mapping \<Rightarrow> any_map \<Rightarrow> any_map \<Rightarrow> go_error + string" where
  "buildToolBody mapping arguments params =
     (if MP_Body mapping = [] then Inr []
      else (case render_body (MP_Body mapping) arguments params [] of
              Inl e \<Rightarrow> Inl e
            | Inr body \<Rightarrow> Inr (marshal_any (AMap body))))"

definition schema_default :: "any \<Rightarrow> any option" where
  "schema_default raw = (case as_object raw of None \<Rightarrow> None | Some propertySchema \<Rightarrow> map_of propertySchema ''default'')"

definition mergeWithSchemaDefaults :: "any_map \<Rightarrow> any_map \<Rightarrow> any_map" where
  "mergeWithSchemaDefaults vals valueSchema =
     (let properties = (case map_of valueSchema ''properties'' of
            Some p \<Rightarrow> (case as_object p of Some m \<Rightarrow> m | None \<Rightarrow> [])
          | None \<Rightarrow> [])
      in foldl (\<lambda>merged kr.
           if map_of merged (fst kr) \<noteq> None then merged
           else (case schema_default (snd kr) of None \<Rightarrow> merged | Some def \<Rightarrow> map_put (fst kr) def merged))
         vals properties)"

definition toAnyMap :: "string_map \<Rightarrow> any_map" where
  "toAnyMap vals = map (\<lambda>kv. (fst kv, AStr (snd kv))) vals"

definition validateArguments :: "'s exec_facade \<Rightarrow> any_map \<Rightarrow> any_map \<Rightarrow> string option" where
  "validateArguments f inputSchema arguments =
     (if inputSchema = [] then None else exec_validate f inputSchema arguments)"

section \<open>Files\<close>

definition exec_UploadFile :: "'s exec_facade \<Rightarrow> OrgID \<Rightarrow> string \<Rightarrow> string \<Rightarrow> string \<Rightarrow> ('s, UploadedFile) act" where
  "exec_UploadFile f org name mimeType content =
     call (exec_newFileID f) (\<lambda>i.
     let storageKey = i;
         limited = take (nat (exec_maxFileBytes f + 1)) content;
         count = int (length limited)
     in attempt (exec_fileStore_Save f storageKey limited) (\<lambda>_.
     if count > exec_maxFileBytes f
     then discard (exec_fileStore_Delete f storageKey)
            (fail (exec_ErrValidation ''file''
               (''exceeds the maximum allowed size of '' @ itoa (exec_maxFileBytes f) @ '' bytes'')))
     else call (exec_now f) (\<lambda>now.
          attempt (exec_files_Save f \<lparr>FM_ID = i, FM_OrgID = org, FM_Name = name, FM_MimeType = mimeType,
              FM_Size = count, FM_StorageKey = storageKey, FM_CreatedAt = now\<rparr>) (\<lambda>_.
          ok \<lparr>UF_ID = i, UF_Name = name, UF_MimeType = mimeType, UF_Size = count\<rparr>))))"

definition exec_DownloadFile :: "'s exec_facade \<Rightarrow> OrgID \<Rightarrow> FileID \<Rightarrow> ('s, FileMetadata \<times> string) act" where
  "exec_DownloadFile f org i =
     attempt (exec_files_FindByID f org i) (\<lambda>metadata.
     case metadata of
       None \<Rightarrow> fail ErrFileNotFound
     | Some m \<Rightarrow> attempt (exec_fileStore_Open f (FM_StorageKey m)) (\<lambda>content. ok (m, content)))"

definition fileNotFoundError :: "string \<Rightarrow> ExecutionError" where
  "fileNotFoundError message = \<lparr>XE_Code = CodeFileNotFound, XE_Message = message\<rparr>"

definition readFileContent :: "'s exec_facade \<Rightarrow> FileMetadata \<Rightarrow> ('s, string) act" where
  "readFileContent f metadata = exec_fileStore_Open f (FM_StorageKey metadata)"

definition resolveOneFileInput ::
  "'s exec_facade \<Rightarrow> OrgID \<Rightarrow> string \<Rightarrow> any_map \<Rightarrow> ('s, ExecutionError + ToolCallFile) act" where
  "resolveOneFileInput f org name arguments =
     (let idValue = (case map_of arguments name of Some v \<Rightarrow> as_string v | None \<Rightarrow> None) in
      if idValue = None \<or> idValue = Some []
      then ok (Inl (fileNotFoundError (''file input '' @ quoted name @ '' must be a previously uploaded file id'')))
      else attempt (exec_files_FindByID f org (the idValue)) (\<lambda>metadata.
           case metadata of
             None \<Rightarrow> ok (Inl (fileNotFoundError (''file '' @ quoted (the idValue) @ '' was not found'')))
           | Some m \<Rightarrow>
               attempt (readFileContent f m) (\<lambda>content.
               ok (Inr \<lparr>TCF_FieldName = name, TCF_FileID = the idValue, TCF_FileName = FM_Name m,
                        TCF_MimeType = FM_MimeType m, TCF_Size = FM_Size m, TCF_Content = content\<rparr>))))"

fun resolveFileInputs ::
  "'s exec_facade \<Rightarrow> OrgID \<Rightarrow> string list \<Rightarrow> any_map \<Rightarrow> ('s, ExecutionError + ToolCallFile list) act" where
  "resolveFileInputs f org [] arguments = ok (Inr [])"
| "resolveFileInputs f org (name # names) arguments =
     attempt (resolveOneFileInput f org name arguments) (\<lambda>r.
     case r of
       Inl e \<Rightarrow> ok (Inl e)
     | Inr file \<Rightarrow>
         attempt (resolveFileInputs f org names arguments) (\<lambda>rs.
         case rs of Inl e \<Rightarrow> ok (Inl e) | Inr files \<Rightarrow> ok (Inr (file # files))))"

section \<open>One attempt, logged\<close>

definition fileLogEntries :: "ToolCallFile list \<Rightarrow> any" where
  "fileLogEntries files =
     (if files = [] then ANil
      else ASlice (map (\<lambda>file. AMap [(''fieldName'', AStr (TCF_FieldName file)), (''id'', AStr (TCF_FileID file)),
                                (''size'', AInt (TCF_Size file))]) files))"

definition toolCallRequestLogBody :: "ToolCallRequest \<Rightarrow> string" where
  "toolCallRequestLogBody request =
     marshal_any (AMap
       [(''body'', AStr (TCR_Body request)),
        (''files'', fileLogEntries (TCR_Files request)),
        (''headers'', AMap [(''Authorization'', AStr (''Bearer '' @ TCR_AccessToken request))]),
        (''method'', AStr (TCR_Method request)),
        (''query'', string_map_any (TCR_Query request)),
        (''url'', AStr (TCR_URL request))])"

record toolAttribution =
  TA_ID :: string
  TA_Slug :: string

definition attributionFor :: "ProviderTool \<Rightarrow> toolAttribution" where
  "attributionFor tool = \<lparr>TA_ID = PT_ID tool, TA_Slug = PT_Slug tool\<rparr>"

definition providerOutcome :: "go_error + ToolCallResponse \<Rightarrow> int \<times> string" where
  "providerOutcome r =
     (case r of
        Inl callErr \<Rightarrow> (0, go_error_text callErr)
      | Inr response \<Rightarrow> (RSP_StatusCode response, RSP_Body response))"

definition exec_recordAttempt :: "'s exec_facade \<Rightarrow> ExecLogEntry \<Rightarrow> 's \<Rightarrow> 's" where
  "exec_recordAttempt f entry s = (case exec_recorder f of None \<Rightarrow> s | Some rec \<Rightarrow> snd (rec entry s))"

definition recordExecutionMetric :: "'s exec_facade \<Rightarrow> string \<Rightarrow> int \<Rightarrow> duration \<Rightarrow> 's \<Rightarrow> 's" where
  "recordExecutionMetric f providerSlug status dur s =
     (case exec_metrics f of None \<Rightarrow> s | Some m \<Rightarrow> xm_RecordToolExecution m providerSlug status dur s)"

definition recordRateLimitRetryMetric :: "'s exec_facade \<Rightarrow> string \<Rightarrow> 's \<Rightarrow> 's" where
  "recordRateLimitRetryMetric f providerSlug s =
     (case exec_metrics f of None \<Rightarrow> s | Some m \<Rightarrow> xm_RecordRateLimitRetry m providerSlug s)"

definition attemptCall ::
  "'s exec_facade \<Rightarrow> OrgID \<Rightarrow> UserID \<Rightarrow> ConnectionID \<Rightarrow> toolAttribution \<Rightarrow> string \<Rightarrow> ToolCallRequest
     \<Rightarrow> ('s, ToolCallResponse) act" where
  "attemptCall f org userID connectionID attribution providerSlug request =
     call (exec_now f) (\<lambda>started.
     catching (exec_provider_Call f request) (\<lambda>r.
     call (exec_now f) (\<lambda>ended.
     let dur = Sub_sat ended started;
         (status, responseBody) = providerOutcome r;
         rateLimited = (case r of Inl _ \<Rightarrow> False | Inr response \<Rightarrow> IsRateLimited response);
         entry = \<lparr>XL_OrgID = org, XL_UserID = userID, XL_ConnectionID = connectionID, XL_ToolID = TA_ID attribution,
                  XL_ToolSlug = TA_Slug attribution, XL_Status = status, XL_DurationMs = Milliseconds dur,
                  XL_RequestBody = toolCallRequestLogBody request, XL_ResponseBody = responseBody,
                  XL_RateLimited = rateLimited\<rparr>
     in (\<lambda>s. (r, recordExecutionMetric f providerSlug status dur (exec_recordAttempt f entry s))))))"

definition callWithRetry ::
  "'s exec_facade \<Rightarrow> OrgID \<Rightarrow> UserID \<Rightarrow> ConnectionID \<Rightarrow> toolAttribution \<Rightarrow> string \<Rightarrow> ToolCallRequest
     \<Rightarrow> 's \<Rightarrow> retryOutcome \<times> 's" where
  "callWithRetry f org userID connectionID attribution providerSlug request =
     retryLoop f (attemptCall f org userID connectionID attribution providerSlug request)
       (Some (recordRateLimitRetryMetric f providerSlug))"

section \<open>Execute\<close>

definition decodeResponseData :: "string \<Rightarrow> any" where
  "decodeResponseData body = (case Unmarshal_any body of None \<Rightarrow> AStr body | Some data \<Rightarrow> data)"

definition providerErrorMessage :: "int \<Rightarrow> string \<Rightarrow> string" where
  "providerErrorMessage status body = ''provider returned status '' @ itoa status @ '': '' @ body"

definition toolCallResult :: "ToolCallResponse \<Rightarrow> go_error option \<Rightarrow> Pagination option \<Rightarrow> Result" where
  "toolCallResult response callErr pagination =
     (if callErr \<noteq> None then FailureResult CodeProviderUnavailable ''the provider could not be reached''
      else if RSP_StatusCode response \<ge> 400
      then FailureResult CodeProviderError (providerErrorMessage (RSP_StatusCode response) (RSP_Body response))
      else (let data = decodeResponseData (RSP_Body response) in
            SuccessResult data (extractNextCursor pagination data)))"

definition connectionNotActiveMessage :: "ConnStatus \<Rightarrow> string" where
  "connectionNotActiveMessage status = ''connection is '' @ conn_status_text status @ '', not ACTIVE''"

definition retryAfterRefresh ::
  "'s exec_facade \<Rightarrow> OrgID \<Rightarrow> UserID \<Rightarrow> ConnectionID \<Rightarrow> toolAttribution \<Rightarrow> string \<Rightarrow> ToolCallRequest
     \<Rightarrow> Pagination option \<Rightarrow> ('s, Result) act" where
  "retryAfterRefresh f org userID connectionID attribution providerSlug request pagination =
     attempt (exec_RefreshForExecution f org userID connectionID) (\<lambda>access.
     if EA_Status access \<noteq> StatusActive
     then ok (FailureResult CodeConnectionNotActive (connectionNotActiveMessage (EA_Status access)))
     else call (callWithRetry f org userID connectionID attribution providerSlug
                  (request\<lparr>TCR_AccessToken := EA_AccessToken access\<rparr>)) (\<lambda>outcome.
          if RO_exhausted outcome then fail (ErrRateLimited (RO_retryAfter outcome))
          else ok (toolCallResult (RO_response outcome) (RO_callErr outcome) pagination)))"

text \<open>\<open>if err != nil { return FailureResult(CodeInvalidArguments, err.Error()), nil }\<close>\<close>

definition or_invalid :: "go_error + 'a \<Rightarrow> ('a \<Rightarrow> ('s, Result) act) \<Rightarrow> ('s, Result) act" where
  "or_invalid r k = (case r of Inl e \<Rightarrow> ok (FailureResult CodeInvalidArguments (go_error_text e)) | Inr x \<Rightarrow> k x)"

definition callProvider ::
  "'s exec_facade \<Rightarrow> OrgID \<Rightarrow> UserID \<Rightarrow> ConnectionID \<Rightarrow> ProviderDefinition \<Rightarrow> ProviderTool \<Rightarrow> string
     \<Rightarrow> any_map \<Rightarrow> any_map \<Rightarrow> ('s, Result) act" where
  "callProvider f org userID connectionID defn tool accessToken arguments params =
     or_invalid (buildToolCallURL (PD_BaseURL defn) (PT_Path tool) arguments params) (\<lambda>requestURL.
     or_invalid (buildToolBody (PT_Mapping tool) arguments params) (\<lambda>requestBody.
     or_invalid (buildToolQuery (PT_Mapping tool) arguments params) (\<lambda>requestQuery.
     or_invalid (buildToolHeaders (PT_Mapping tool) arguments params) (\<lambda>requestHeaders.
     attempt (resolveFileInputs f org (MP_FileInputs (PT_Mapping tool)) arguments) (\<lambda>r.
     case r of
       Inl fileErr \<Rightarrow> ok (FailureResult (XE_Code fileErr) (XE_Message fileErr))
     | Inr files \<Rightarrow>
         (let request = \<lparr>TCR_Method = PT_Method tool, TCR_URL = requestURL, TCR_AccessToken = accessToken,
                TCR_Query = requestQuery, TCR_Headers = requestHeaders, TCR_Body = requestBody, TCR_Files = files\<rparr>;
              attribution = attributionFor tool;
              pagination = MP_Pagination (PT_Mapping tool)
          in call (callWithRetry f org userID connectionID attribution (PD_Slug defn) request) (\<lambda>outcome.
             if RO_exhausted outcome then fail (ErrRateLimited (RO_retryAfter outcome))
             else if RO_callErr outcome = None \<and> RSP_StatusCode (RO_response outcome) = 401
             then retryAfterRefresh f org userID connectionID attribution (PD_Slug defn) request pagination
             else ok (toolCallResult (RO_response outcome) (RO_callErr outcome) pagination))))))))"

definition exec_Execute ::
  "'s exec_facade \<Rightarrow> OrgID \<Rightarrow> UserID \<Rightarrow> ConnectionID \<Rightarrow> string \<Rightarrow> any_map \<Rightarrow> ('s, Result) act" where
  "exec_Execute f org userID connectionID toolSlug arguments0 =
     attempt (exec_FindToolBySlug f toolSlug) (\<lambda>(defn, tool).
     attempt (exec_ResolveForExecution f org userID connectionID) (\<lambda>access.
     if EA_Status access \<noteq> StatusActive
     then ok (FailureResult CodeConnectionNotActive (connectionNotActiveMessage (EA_Status access)))
     else (let arguments = mergeWithSchemaDefaults arguments0 (PT_InputSchema tool) in
           case validateArguments f (PT_InputSchema tool) arguments of
             Some violation \<Rightarrow> ok (FailureResult CodeInvalidArguments violation)
           | None \<Rightarrow> callProvider f org userID connectionID defn tool (EA_AccessToken access) arguments
                       (toAnyMap (EA_Params access)))))"

section \<open>Trigger polls (poll.go)\<close>

record PollQuery =
  PQ_OrgID :: OrgID
  PQ_UserID :: UserID
  PQ_ConnectionID :: ConnectionID
  PQ_TriggerSlug :: string
  PQ_Config :: any_map
  PQ_Watermark :: time

record PollRecord =
  PR_ID :: string
  PR_Timestamp :: time
  PR_Payload :: any_map

definition lookupPollField :: "any \<Rightarrow> string \<Rightarrow> any option" where
  "lookupPollField data path = (if path = [] then Some data else lookup_segments data (Split (CHR ''.'') path))"

definition buildPollPayload :: "any \<Rightarrow> string_map \<Rightarrow> any_map" where
  "buildPollPayload item mapping =
     concat (map (\<lambda>fp. case lookupPollField item (snd fp) of Some v \<Rightarrow> [(fst fp, v)] | None \<Rightarrow> []) mapping)"

definition pollRecordFrom :: "any \<Rightarrow> TriggerPollMapping \<Rightarrow> go_error + PollRecord" where
  "pollRecordFrom item poll =
     (case lookupPollField item (TP_RecordIDPath poll) of
        None \<Rightarrow> Inl (OtherError (''poll record carried no id at '' @ quoted (TP_RecordIDPath poll)))
      | Some i \<Rightarrow>
          (case lookupPollField item (TP_RecordTimestampPath poll) of
             None \<Rightarrow> Inl (OtherError (''poll record carried no timestamp at '' @ quoted (TP_RecordTimestampPath poll)))
           | Some timestampRaw \<Rightarrow>
               (case as_string timestampRaw of
                  None \<Rightarrow> Inl (OtherError (''poll record's timestamp at '' @ quoted (TP_RecordTimestampPath poll)
                             @ '' was not a string''))
                | Some timestampStr \<Rightarrow>
                    (case parse_RFC3339Nano timestampStr of
                       None \<Rightarrow> Inl (OtherError (''poll record's timestamp '' @ quoted timestampStr
                                  @ '' did not parse as RFC3339''))
                     | Some timestamp \<Rightarrow>
                         Inr \<lparr>PR_ID = Sprint i, PR_Timestamp = timestamp,
                              PR_Payload = buildPollPayload item (TP_Payload poll)\<rparr>))))"

fun pollRecordsFrom :: "any list \<Rightarrow> TriggerPollMapping \<Rightarrow> go_error + PollRecord list" where
  "pollRecordsFrom [] poll = Inr []"
| "pollRecordsFrom (item # items) poll =
     (case pollRecordFrom item poll of
        Inl e \<Rightarrow> Inl e
      | Inr r \<Rightarrow> (case pollRecordsFrom items poll of Inl e \<Rightarrow> Inl e | Inr rs \<Rightarrow> Inr (r # rs)))"

definition extractPollRecords :: "string \<Rightarrow> TriggerPollMapping \<Rightarrow> go_error + PollRecord list" where
  "extractPollRecords body poll =
     (case Unmarshal_any body of
        None \<Rightarrow> Inl (OtherError ''poll response was not valid JSON'')
      | Some decoded \<Rightarrow>
          (case lookupPollField decoded (TP_RecordsPath poll) of
             None \<Rightarrow> Inl (OtherError (''poll response carried no records at '' @ quoted (TP_RecordsPath poll)))
           | Some rawRecords \<Rightarrow>
               (case as_slice rawRecords of
                  None \<Rightarrow> Inl (OtherError (''poll response's '' @ quoted (TP_RecordsPath poll) @ '' was not a list''))
                | Some items \<Rightarrow> pollRecordsFrom items poll)))"

fun render_poll :: "string_map \<Rightarrow> any_map \<Rightarrow> string \<Rightarrow> string_map \<Rightarrow> go_error + string_map" where
  "render_poll [] config watermark acc = Inr acc"
| "render_poll ((param, expression) # rest) config watermark acc =
     (case RenderPollTemplate expression config watermark False of
        Inl e \<Rightarrow> Inl e
      | Inr v \<Rightarrow> render_poll rest config watermark (map_put param v acc))"

definition renderPollValues :: "string_map \<Rightarrow> any_map \<Rightarrow> string \<Rightarrow> go_error + string_map" where
  "renderPollValues mapping config watermark = render_poll mapping config watermark []"

definition buildPollBody :: "string_map \<Rightarrow> any_map \<Rightarrow> string \<Rightarrow> go_error + string" where
  "buildPollBody mapping config watermark =
     (if mapping = [] then Inr []
      else (case render_poll mapping config watermark [] of
              Inl e \<Rightarrow> Inl e
            | Inr vals \<Rightarrow>
                Inr (marshal_any (AMap (foldl (\<lambda>body kv. setNestedBodyValue body (Split (CHR ''.'') (fst kv)) (snd kv))
                       [] vals)))))"

definition buildPollRequest ::
  "string \<Rightarrow> TriggerPollMapping \<Rightarrow> any_map \<Rightarrow> time \<Rightarrow> string \<Rightarrow> go_error + ToolCallRequest" where
  "buildPollRequest baseURL poll config watermark accessToken =
     (let watermarkStr = format_RFC3339 watermark in
      case RenderPollTemplate (TP_Path poll) config watermarkStr True of
        Inl e \<Rightarrow> Inl e
      | Inr path \<Rightarrow>
          (case renderPollValues (TP_Query poll) config watermarkStr of
             Inl e \<Rightarrow> Inl e
           | Inr query \<Rightarrow>
               (case buildPollBody (TP_Body poll) config watermarkStr of
                  Inl e \<Rightarrow> Inl e
                | Inr body \<Rightarrow>
                    Inr \<lparr>TCR_Method = TP_Method poll, TCR_URL = joinBaseURLAndPath baseURL path,
                         TCR_AccessToken = accessToken, TCR_Query = query, TCR_Headers = [], TCR_Body = body,
                         TCR_Files = []\<rparr>)))"

definition resolvePollOutcome :: "retryOutcome \<Rightarrow> go_error + ToolCallResponse" where
  "resolvePollOutcome outcome =
     (if RO_exhausted outcome then Inl (ErrRateLimited (RO_retryAfter outcome))
      else (case RO_callErr outcome of
              Some e \<Rightarrow> Inl e
            | None \<Rightarrow>
                if RSP_StatusCode (RO_response outcome) \<ge> 400
                then Inl (OtherError (''poll request failed with status '' @ itoa (RSP_StatusCode (RO_response outcome))
                            @ '': '' @ RSP_Body (RO_response outcome)))
                else Inr (RO_response outcome)))"

definition poll_not_active :: "ConnStatus \<Rightarrow> go_error" where
  "poll_not_active status = exec_ErrValidation ''connectionId'' (connectionNotActiveMessage status)"

definition fetchPollResponseAfterRefresh :: "'s exec_facade \<Rightarrow> PollQuery \<Rightarrow> ToolCallRequest \<Rightarrow> ('s, ToolCallResponse) act" where
  "fetchPollResponseAfterRefresh f query request =
     attempt (exec_RefreshForExecution f (PQ_OrgID query) (PQ_UserID query) (PQ_ConnectionID query)) (\<lambda>access.
     if EA_Status access \<noteq> StatusActive then fail (poll_not_active (EA_Status access))
     else call (retryLoop f (exec_provider_Call f (request\<lparr>TCR_AccessToken := EA_AccessToken access\<rparr>)) None) (\<lambda>outcome.
          lift (resolvePollOutcome outcome)))"

definition fetchPollResponse :: "'s exec_facade \<Rightarrow> PollQuery \<Rightarrow> ToolCallRequest \<Rightarrow> ('s, ToolCallResponse) act" where
  "fetchPollResponse f query request =
     call (retryLoop f (exec_provider_Call f request) None) (\<lambda>outcome.
     if RO_callErr outcome = None \<and> RSP_StatusCode (RO_response outcome) = 401
     then fetchPollResponseAfterRefresh f query request
     else lift (resolvePollOutcome outcome))"

definition exec_FetchTriggerRecords :: "'s exec_facade \<Rightarrow> PollQuery \<Rightarrow> ('s, PollRecord list) act" where
  "exec_FetchTriggerRecords f query =
     attempt (exec_FindTriggerBySlug f (PQ_TriggerSlug query)) (\<lambda>(defn, trigger).
     attempt (exec_ResolveForExecution f (PQ_OrgID query) (PQ_UserID query) (PQ_ConnectionID query)) (\<lambda>access.
     if EA_Status access \<noteq> StatusActive then fail (poll_not_active (EA_Status access))
     else (let config = mergeWithSchemaDefaults (PQ_Config query) (TD_ConfigSchema trigger) in
           attempt (lift (buildPollRequest (PD_BaseURL defn) (TD_Poll trigger) config (PQ_Watermark query)
               (EA_AccessToken access))) (\<lambda>request.
           attempt (fetchPollResponse f query request) (\<lambda>response.
           lift (extractPollRecords (RSP_Body response) (TD_Poll trigger)))))))"

end
