(* ===== verification/ExecMemory.thy ===== *)
theory ExecMemory
  imports Execution Logging
begin

text \<open>
  The in-memory adapters of the execution module (\<open>driven/memory\<close>), the adapter that hands its log
  entries to the logging module (\<open>app/recorders.go\<close>), and a world in which the facade runs: the
  provider answers as \<open>xe_respond\<close> says, the state behind the connections port is any \<open>'c\<close>.
\<close>

section \<open>Files\<close>

type_synonym files_table = "(FileID, FileMetadata) table"
type_synonym file_store = "(string, string) table"

definition files_mem_Save :: "FileMetadata \<Rightarrow> (files_table, unit) act" where
  "files_mem_Save file r = (Inr (), put (FM_ID file) file r)"

definition files_mem_FindByID :: "OrgID \<Rightarrow> FileID \<Rightarrow> (files_table, FileMetadata option) act" where
  "files_mem_FindByID org i r =
     (Inr (case map_of r i of None \<Rightarrow> None | Some file \<Rightarrow> if FM_OrgID file \<noteq> org then None else Some file), r)"

definition store_mem_Save :: "string \<Rightarrow> string \<Rightarrow> (file_store, unit) act" where
  "store_mem_Save storageKey content s = (Inr (), put storageKey content s)"

definition store_mem_Open :: "string \<Rightarrow> (file_store, string) act" where
  "store_mem_Open storageKey s =
     (case map_of s storageKey of
        None \<Rightarrow> (Inl (OtherError ''storage key not found''), s)
      | Some data \<Rightarrow> (Inr data, s))"

definition store_mem_Delete :: "string \<Rightarrow> (file_store, unit) act" where
  "store_mem_Delete storageKey s = (Inr (), del storageKey s)"

section \<open>Recording into the log\<close>

definition executionLogRecorder :: "'s log_facade \<Rightarrow> ExecLogEntry \<Rightarrow> ('s, unit) act" where
  "executionLogRecorder logs entry =
     log_Record logs
       \<lparr>RI_OrgID = XL_OrgID entry, RI_UserID = XL_UserID entry, RI_ConnectionID = XL_ConnectionID entry,
        RI_ToolID = XL_ToolID entry, RI_ToolSlug = XL_ToolSlug entry, RI_Kind = KindToolExecution,
        RI_Status = XL_Status entry, RI_DurationMs = XL_DurationMs entry, RI_RequestBody = XL_RequestBody entry,
        RI_ResponseBody = XL_ResponseBody entry, RI_RateLimited = XL_RateLimited entry, RI_EventID = [],
        RI_Attempt = 0, RI_TriggerInstanceID = []\<rparr>"

section \<open>The world\<close>

text \<open>
  \<open>xw_calls\<close>, \<open>xw_slept\<close>, \<open>xw_entries\<close> and \<open>xw_refreshes\<close> are what happened: the requests the provider
  got, the waits, the log entries, the forced token refreshes.
\<close>

record 'c exec_world =
  xw_conn :: 'c
  xw_calls :: "ToolCallRequest list"
  xw_slept :: "duration list"
  xw_entries :: "ExecLogEntry list"
  xw_refreshes :: nat
  xw_files :: files_table
  xw_store :: file_store
  xw_now :: time
  xw_minted :: nat
  xw_drawn :: nat

text \<open>
  The environment: \<open>xe_respond n\<close> and \<open>xe_latency n\<close> describe the \<open>n\<close>-th call, \<open>xe_cancelled n\<close> says
  whether the context is cancelled during the \<open>n\<close>-th wait, \<open>xe_jitter\<close> the draws of \<open>math/rand\<close>.
\<close>

record 'c exec_env =
  xe_tools :: "string \<Rightarrow> go_error + ProviderDefinition \<times> ProviderTool"
  xe_triggers :: "string \<Rightarrow> go_error + ProviderDefinition \<times> TriggerDefinition"
  xe_resolve :: "OrgID \<Rightarrow> UserID \<Rightarrow> ConnectionID \<Rightarrow> ('c, ExecutionAccess) act"
  xe_refresh :: "OrgID \<Rightarrow> UserID \<Rightarrow> ConnectionID \<Rightarrow> ('c, ExecutionAccess) act"
  xe_respond :: "nat \<Rightarrow> ToolCallRequest \<Rightarrow> go_error + ToolCallResponse"
  xe_latency :: "nat \<Rightarrow> duration"
  xe_cancelled :: "nat \<Rightarrow> bool"
  xe_jitter :: "nat \<Rightarrow> int"
  xe_validate :: "any_map \<Rightarrow> any_map \<Rightarrow> string option"
  xe_maxFileBytes :: int

definition exec_world_Call :: "'c exec_env \<Rightarrow> ToolCallRequest \<Rightarrow> ('c exec_world, ToolCallResponse) act" where
  "exec_world_Call env request w =
     (xe_respond env (length (xw_calls w)) request,
      w\<lparr>xw_calls := xw_calls w @ [request], xw_now := xw_now w + xe_latency env (length (xw_calls w))\<rparr>)"

definition exec_world_sleep :: "'c exec_env \<Rightarrow> duration \<Rightarrow> ('c exec_world, unit) act" where
  "exec_world_sleep env d w =
     (if xe_cancelled env (length (xw_slept w)) then Inl (OtherError ''context canceled'') else Inr (),
      w\<lparr>xw_slept := xw_slept w @ [d], xw_now := xw_now w + max 0 d\<rparr>)"

definition exec_F :: "'c exec_env \<Rightarrow> 'c exec_world exec_facade" where
  "exec_F env =
     \<lparr>exec_FindToolBySlug = (\<lambda>slug w. (xe_tools env slug, w)),
      exec_FindTriggerBySlug = (\<lambda>slug w. (xe_triggers env slug, w)),
      exec_ResolveForExecution = (\<lambda>org u c. zoom xw_conn xw_conn_update (xe_resolve env org u c)),
      exec_RefreshForExecution = (\<lambda>org u c w.
        zoom xw_conn xw_conn_update (xe_refresh env org u c) (w\<lparr>xw_refreshes := Suc (xw_refreshes w)\<rparr>)),
      exec_provider_Call = exec_world_Call env,
      exec_recorder = Some (\<lambda>e w. (Inr (), w\<lparr>xw_entries := xw_entries w @ [e]\<rparr>)),
      exec_metrics = None,
      exec_now = (\<lambda>w. (xw_now w, w)),
      exec_sleep = exec_world_sleep env,
      exec_rand = (\<lambda>n w. (xe_jitter env (xw_drawn w) mod n, w\<lparr>xw_drawn := Suc (xw_drawn w)\<rparr>)),
      exec_validate = xe_validate env,
      exec_files_Save = (\<lambda>m. zoom xw_files xw_files_update (files_mem_Save m)),
      exec_files_FindByID = (\<lambda>org i. zoom xw_files xw_files_update (files_mem_FindByID org i)),
      exec_fileStore_Save = (\<lambda>k c. zoom xw_store xw_store_update (store_mem_Save k c)),
      exec_fileStore_Open = (\<lambda>k. zoom xw_store xw_store_update (store_mem_Open k)),
      exec_fileStore_Delete = (\<lambda>k. zoom xw_store xw_store_update (store_mem_Delete k)),
      exec_maxFileBytes = xe_maxFileBytes env,
      exec_newFileID = zoom xw_minted xw_minted_update (\<lambda>n. (sequential_id ''file_'' n, Suc n))\<rparr>"

lemma exec_F_sel [simp]:
  "exec_FindToolBySlug (exec_F env) slug w = (xe_tools env slug, w)"
  "exec_FindTriggerBySlug (exec_F env) slug w = (xe_triggers env slug, w)"
  "exec_ResolveForExecution (exec_F env) org u c = zoom xw_conn xw_conn_update (xe_resolve env org u c)"
  "exec_RefreshForExecution (exec_F env) org u c w =
     zoom xw_conn xw_conn_update (xe_refresh env org u c) (w\<lparr>xw_refreshes := Suc (xw_refreshes w)\<rparr>)"
  "exec_provider_Call (exec_F env) = exec_world_Call env"
  "exec_recorder (exec_F env) = Some (\<lambda>e w. (Inr (), w\<lparr>xw_entries := xw_entries w @ [e]\<rparr>))"
  "exec_metrics (exec_F env) = None"
  "exec_now (exec_F env) w = (xw_now w, w)"
  "exec_sleep (exec_F env) = exec_world_sleep env"
  "exec_rand (exec_F env) n w = (xe_jitter env (xw_drawn w) mod n, w\<lparr>xw_drawn := Suc (xw_drawn w)\<rparr>)"
  "exec_validate (exec_F env) = xe_validate env"
  "exec_files_Save (exec_F env) m = zoom xw_files xw_files_update (files_mem_Save m)"
  "exec_files_FindByID (exec_F env) org i = zoom xw_files xw_files_update (files_mem_FindByID org i)"
  "exec_fileStore_Save (exec_F env) k c = zoom xw_store xw_store_update (store_mem_Save k c)"
  "exec_fileStore_Open (exec_F env) k = zoom xw_store xw_store_update (store_mem_Open k)"
  "exec_fileStore_Delete (exec_F env) k = zoom xw_store xw_store_update (store_mem_Delete k)"
  "exec_maxFileBytes (exec_F env) = xe_maxFileBytes env"
  "exec_newFileID (exec_F env) = zoom xw_minted xw_minted_update (\<lambda>n. (sequential_id ''file_'' n, Suc n))"
  by (simp_all add: exec_F_def)

section \<open>Attempts\<close>

definition attempt_entry ::
  "OrgID \<Rightarrow> UserID \<Rightarrow> ConnectionID \<Rightarrow> toolAttribution \<Rightarrow> ToolCallRequest \<Rightarrow> go_error + ToolCallResponse \<Rightarrow> duration
     \<Rightarrow> ExecLogEntry" where
  "attempt_entry org u c att request r dur =
     \<lparr>XL_OrgID = org, XL_UserID = u, XL_ConnectionID = c, XL_ToolID = TA_ID att, XL_ToolSlug = TA_Slug att,
      XL_Status = fst (providerOutcome r), XL_DurationMs = Milliseconds dur,
      XL_RequestBody = toolCallRequestLogBody request, XL_ResponseBody = snd (providerOutcome r),
      XL_RateLimited = (case r of Inl _ \<Rightarrow> False | Inr response \<Rightarrow> IsRateLimited response)\<rparr>"

lemma attemptCall_run:
  fixes env :: "'c exec_env"
  defines "n \<equiv> \<lambda>w. length (xw_calls w)"
  shows "attemptCall (exec_F env) org u c att slug request w =
    (xe_respond env (n w) request,
     w\<lparr>xw_calls := xw_calls w @ [request], xw_now := xw_now w + xe_latency env (n w),
       xw_entries := xw_entries w @ [attempt_entry org u c att request (xe_respond env (n w) request)
          (Sub_sat (xw_now w + xe_latency env (n w)) (xw_now w))]\<rparr>)"
  by (simp add: attemptCall_def act_simps exec_world_Call_def recordExecutionMetric_def exec_recordAttempt_def
      attempt_entry_def n_def Let_def split: prod.split)

section \<open>A sample provider\<close>

text \<open>
  A tool \<open>get_contact\<close> with a path argument. The provider answers its first call 429 with
  \<open>Retry-After: 1\<close>, and the old token 401.
\<close>

definition demo_tool :: ProviderTool where
  "demo_tool = \<lparr>PT_ID = ''tool_1'', PT_Slug = ''get_contact'', PT_Name = ''Get contact'', PT_Description = [],
     PT_Method = ''GET'', PT_Path = ''/contacts/{input.id}'', PT_InputSchema = [], PT_OutputSchema = [], PT_Deprecated = False,
     PT_Mapping = \<lparr>MP_Query = [], MP_Header = [], MP_Body = [], MP_Pagination = None, MP_FileInputs = []\<rparr>\<rparr>"

definition demo_definition :: ProviderDefinition where
  "demo_definition = \<lparr>PD_Slug = ''crm'', PD_Name = ''CRM'', PD_Logo = [], PD_AuthScheme = ''OAUTH2'',
     PD_BaseURL = ''https://crm.example/'', PD_AuthorizeURL = ''https://crm.example/auth'',
     PD_TokenURL = ''https://crm.example/token'', PD_UserInfoURL = [], PD_Scopes = [''contacts''], PD_CredentialStyle = [],
     PD_UserInfo = \<lparr>UI_EmailField = [], UI_DisplayNameField = []\<rparr>, PD_ExpectedParams = [], PD_Tools = [demo_tool],
     PD_Triggers = []\<rparr>"

definition demo_env :: "unit exec_env" where
  "demo_env =
     \<lparr>xe_tools = (\<lambda>slug. if slug = ''get_contact'' then Inr (demo_definition, demo_tool) else Inl (not_found_error ''tool not found'')),
      xe_triggers = (\<lambda>_. Inl (not_found_error ''trigger not found'')),
      xe_resolve = (\<lambda>_ _ _ s. (Inr \<lparr>EA_Status = StatusActive, EA_AccessToken = ''old'', EA_Params = []\<rparr>, s)),
      xe_refresh = (\<lambda>_ _ _ s. (Inr \<lparr>EA_Status = StatusActive, EA_AccessToken = ''new'', EA_Params = []\<rparr>, s)),
      xe_respond = (\<lambda>n q. Inr (if n = 0 then \<lparr>RSP_StatusCode = 429, RSP_Body = [], RSP_RetryAfter = ''1''\<rparr>
         else if TCR_AccessToken q = ''old'' then \<lparr>RSP_StatusCode = 401, RSP_Body = [], RSP_RetryAfter = []\<rparr>
         else \<lparr>RSP_StatusCode = 200, RSP_Body = ''{}'', RSP_RetryAfter = []\<rparr>)),
      xe_latency = (\<lambda>_. 20 * millisecond), xe_cancelled = (\<lambda>_. False), xe_jitter = (\<lambda>_. 0),
      xe_validate = (\<lambda>_ _. None), xe_maxFileBytes = 8\<rparr>"

definition demo_world :: "unit exec_world" where
  "demo_world = \<lparr>xw_conn = (), xw_calls = [], xw_slept = [], xw_entries = [], xw_refreshes = 0, xw_files = [],
     xw_store = [], xw_now = 0, xw_minted = 0, xw_drawn = 0\<rparr>"

definition demo_request :: ToolCallRequest where
  "demo_request = \<lparr>TCR_Method = ''GET'', TCR_URL = ''https://crm.example/contacts/7'', TCR_AccessToken = ''old'',
     TCR_Query = [(''id'', ''7'')], TCR_Headers = [], TCR_Body = [], TCR_Files = []\<rparr>"

lemma demo_retry_after: "ParseRetryAfter ''1'' now = Some second" "ParseRetryAfter [] now = None"
proof -
  have "find (HasPrefix ''1'') go_spaces = None" "find (HasPrefix ''1'') (map rev go_spaces) = None"
    by (simp_all add: go_spaces_def HasPrefix_def upt_rec char_of_def)
  then have "TrimSpace ''1'' = ''1''" "TrimSpace [] = []" by (simp_all add: TrimSpace_def)
  moreover have "digit_value (CHR ''1'') = Some 1" by code_simp
  then have "Atoi ''1'' = Some 1" by (simp add: Atoi_def)
  moreover have "dur_mul 1 second = second" by (simp add: dur_mul_def wrap64_def duration_defs)
  ultimately show "ParseRetryAfter ''1'' now = Some second" "ParseRetryAfter [] now = None" by (simp_all add: ParseRetryAfter_def)
qed

lemma demo_signals: "\<not> bodyCarriesRateLimitSignal []" "\<not> bodyCarriesRateLimitSignal ''{}''"
  by code_simp+

lemma demo_respond:
  "xe_respond demo_env 0 q = Inr \<lparr>RSP_StatusCode = 429, RSP_Body = [], RSP_RetryAfter = ''1''\<rparr>"
  "xe_respond demo_env (Suc n) q = Inr (if TCR_AccessToken q = ''old'' then \<lparr>RSP_StatusCode = 401, RSP_Body = [], RSP_RetryAfter = []\<rparr>
         else \<lparr>RSP_StatusCode = 200, RSP_Body = ''{}'', RSP_RetryAfter = []\<rparr>)"
  by (simp_all add: demo_env_def)

lemma demo_sel: "xe_cancelled demo_env n = False" "xe_latency demo_env n = 20 * millisecond"
  "xe_tools demo_env ''get_contact'' = Inr (demo_definition, demo_tool)"
  "xe_resolve demo_env org u c s = (Inr \<lparr>EA_Status = StatusActive, EA_AccessToken = ''old'', EA_Params = []\<rparr>, s)"
  "xe_refresh demo_env org u c s = (Inr \<lparr>EA_Status = StatusActive, EA_AccessToken = ''new'', EA_Params = []\<rparr>, s)"
  by (simp_all add: demo_env_def)

lemma demo_wait: "\<not> retryBudget < second" "wrap64 second = second"
  by (simp_all add: retryBudget_def duration_defs wrap64_def)

lemmas demo_eval = callWithRetry_def retryLoop_def retry_from.simps [of "exec_F demo_env"] attemptCall_run demo_respond
  demo_world_def IsRateLimited_def retryDelay_def demo_retry_after demo_signals demo_sel demo_wait maxAttempts_def
  exec_world_sleep_def recordRateLimitRetryMetric_def

definition demo_given :: any_map where
  "demo_given = [(''id'', AStr ''7'')]"

lemma demo_built:
  "mergeWithSchemaDefaults demo_given (PT_InputSchema demo_tool) = demo_given"
  "toAnyMap [] = []"
  "validateArguments (exec_F demo_env) (PT_InputSchema demo_tool) demo_given = None"
  "buildToolCallURL (PD_BaseURL demo_definition) (PT_Path demo_tool) demo_given [] = Inr (TCR_URL demo_request)"
  "buildToolBody (PT_Mapping demo_tool) demo_given [] = Inr (TCR_Body demo_request)"
  "buildToolQuery (PT_Mapping demo_tool) demo_given [] = Inr (TCR_Query demo_request)"
  "buildToolHeaders (PT_Mapping demo_tool) demo_given [] = Inr (TCR_Headers demo_request)"
  "MP_FileInputs (PT_Mapping demo_tool) = []" "MP_Pagination (PT_Mapping demo_tool) = None"
  "PT_Method demo_tool = ''GET''"
         apply (simp_all add: validateArguments_def demo_tool_def)
  by code_simp+

end
