(* ===== verification/ExecLife.thy ===== *)
theory ExecLife
  imports ExecMemory
begin

text \<open>
  What a tool execution does to the outside: how often it calls the provider and how long it waits, when
  it refreshes a token, when it does not call at all, what it logs; and what an uploaded file gives back.
\<close>

section \<open>The retry loop\<close>

definition exec_rest :: "'c exec_world \<Rightarrow> 'c \<times> nat \<times> files_table \<times> file_store \<times> nat" where
  "exec_rest w = (xw_conn w, xw_refreshes w, xw_files w, xw_store w, xw_minted w)"

text \<open>
  The provider never asks for a wait that an \<open>int64\<close> of nanoseconds cannot hold together with the budget.
\<close>

definition sane_retry_after :: "'c exec_env \<Rightarrow> bool" where
  "sane_retry_after env \<longleftrightarrow>
     (\<forall>n q r now d. xe_respond env n q = Inr r \<and> ParseRetryAfter (RSP_RetryAfter r) now = Some d
        \<longrightarrow> 0 \<le> d \<and> d < 2 ^ 63 - retryBudget)"

lemma demo_sane: "sane_retry_after demo_env"
  using demo_retry_after
  by (auto simp: sane_retry_after_def demo_env_def retryBudget_def duration_defs split: if_splits)

text \<open>One attempt: it asks the provider once, logs \<open>e\<close> entries that satisfy \<open>E\<close>, and does nothing else.\<close>

definition one_call ::
  "'c exec_env \<Rightarrow> ToolCallRequest \<Rightarrow> (ExecLogEntry \<Rightarrow> bool) \<Rightarrow> nat \<Rightarrow> ('c exec_world, ToolCallResponse) act \<Rightarrow> bool" where
  "one_call env request E e att \<longleftrightarrow>
     (\<forall>w. fst (att w) = xe_respond env (length (xw_calls w)) request
        \<and> xw_calls (snd (att w)) = xw_calls w @ [request] \<and> xw_slept (snd (att w)) = xw_slept w
        \<and> exec_rest (snd (att w)) = exec_rest w
        \<and> (\<exists>es. xw_entries (snd (att w)) = xw_entries w @ es \<and> length es = e \<and> list_all E es))"

text \<open>
  What a run of the loop with \<open>k\<close> calls and the waits \<open>ds\<close> has done: every call but the last was
  answered by a rate limit, and the outcome is about the last one.
\<close>

definition retry_run ::
  "'c exec_env \<Rightarrow> ToolCallRequest \<Rightarrow> (ExecLogEntry \<Rightarrow> bool) \<Rightarrow> nat \<Rightarrow> 'c exec_world \<Rightarrow> nat \<Rightarrow> duration list
     \<Rightarrow> retryOutcome \<Rightarrow> 'c exec_world \<Rightarrow> bool" where
  "retry_run env request E e w k ds out w' \<longleftrightarrow>
     xw_calls w' = xw_calls w @ replicate k request \<and> xw_slept w' = xw_slept w @ ds \<and> list_all (\<lambda>d. 0 \<le> d) ds
     \<and> 1 \<le> k \<and> length ds \<le> k \<and> exec_rest w' = exec_rest w
     \<and> (\<exists>es. xw_entries w' = xw_entries w @ es \<and> length es = k * e \<and> list_all E es)
     \<and> (\<forall>j. Suc j < k \<longrightarrow> (\<exists>r. xe_respond env (length (xw_calls w) + j) request = Inr r \<and> IsRateLimited r))
     \<and> (RO_exhausted out \<longrightarrow> RO_callErr out = None \<and> IsRateLimited (RO_response out)
          \<and> xe_respond env (length (xw_calls w) + (k - 1)) request = Inr (RO_response out))
     \<and> (\<not> RO_exhausted out \<longrightarrow>
          (case xe_respond env (length (xw_calls w) + (k - 1)) request of
             Inl err \<Rightarrow> RO_callErr out = Some err
           | Inr r \<Rightarrow> if IsRateLimited r then RO_callErr out \<noteq> None
                     else RO_callErr out = None \<and> RO_response out = r))"

lemma jitter_bounds:
  "0 \<le> fst (jitterBackoff (exec_F env) w)" "fst (jitterBackoff (exec_F env) w) < 2 * second"
  using pos_mod_bound [of "jitterBackoffMax - jitterBackoffMin" "xe_jitter env (xw_drawn w)"]
    pos_mod_sign [of "jitterBackoffMax - jitterBackoffMin" "xe_jitter env (xw_drawn w)"]
  by (simp_all add: jitterBackoff_def Let_def jitterBackoffMin_def jitterBackoffMax_def duration_defs)

lemma retryDelay_bounds:
  assumes "sane_retry_after env" and "xe_respond env n q = Inr r"
  shows "0 \<le> fst (retryDelay (exec_F env) r now w)" "fst (retryDelay (exec_F env) r now w) < 2 ^ 63 - retryBudget"
proof -
  have "0 \<le> fst (retryDelay (exec_F env) r now w) \<and> fst (retryDelay (exec_F env) r now w) < 2 ^ 63 - retryBudget"
  proof (cases "ParseRetryAfter (RSP_RetryAfter r) now")
    case None
    then show ?thesis using jitter_bounds [of env w] by (simp add: retryDelay_def retryBudget_def duration_defs)
  next
    case (Some d)
    then show ?thesis using assms by (auto simp: retryDelay_def sane_retry_after_def)
  qed
  then show "0 \<le> fst (retryDelay (exec_F env) r now w)" "fst (retryDelay (exec_F env) r now w) < 2 ^ 63 - retryBudget"
    by simp_all
qed

lemma retryDelay_frame:
  fixes w :: "'c exec_world"
  shows "xw_calls (snd (retryDelay (exec_F env) r now w)) = xw_calls w"
    "xw_slept (snd (retryDelay (exec_F env) r now w)) = xw_slept w"
    "xw_entries (snd (retryDelay (exec_F env) r now w)) = xw_entries w"
    "exec_rest (snd (retryDelay (exec_F env) r now w)) = exec_rest w"
  by (simp_all add: retryDelay_def jitterBackoff_def exec_rest_def Let_def split: option.split)

lemma sleep_frame:
  "xw_calls (snd (exec_world_sleep env d w)) = xw_calls w" "xw_slept (snd (exec_world_sleep env d w)) = xw_slept w @ [d]"
  "xw_entries (snd (exec_world_sleep env d w)) = xw_entries w" "exec_rest (snd (exec_world_sleep env d w)) = exec_rest w"
  by (simp_all add: exec_world_sleep_def exec_rest_def)

text \<open>Prefixing a run with an attempt that met a rate limit and the wait after it.\<close>

lemma retry_run_Cons:
  assumes "one_call env request E e att" and "att w = (Inr r, w1)" and "IsRateLimited r"
    and "xw_calls w2 = xw_calls w1" and "xw_slept w2 = xw_slept w1 @ [d]" and "xw_entries w2 = xw_entries w1"
    and "exec_rest w2 = exec_rest w1" and "0 \<le> d" and run: "retry_run env request E e w2 k ds out w'"
  shows "retry_run env request E e w (Suc k) (d # ds) out w'"
proof -
  from assms(1,2) have w1: "xe_respond env (length (xw_calls w)) request = Inr r"
    "xw_calls w1 = xw_calls w @ [request]" "xw_slept w1 = xw_slept w" "exec_rest w1 = exec_rest w"
    unfolding one_call_def by (metis fst_conv snd_conv)+
  obtain es where es: "xw_entries w1 = xw_entries w @ es" "length es = e" "list_all E es"
    using assms(1,2) unfolding one_call_def by (metis snd_conv)
  obtain es' where es': "xw_entries w' = xw_entries w2 @ es'" "length es' = k * e" "list_all E es'"
    using run unfolding retry_run_def by blast
  have k: "1 \<le> k" using run by (simp add: retry_run_def)
  then have kk: "Suc (length (xw_calls w) + (k - 1)) = length (xw_calls w) + k" by simp
  have early: "\<exists>r. xe_respond env (length (xw_calls w) + j) request = Inr r \<and> IsRateLimited r" if "Suc j < Suc k" for j
  proof (cases j)
    case 0
    then show ?thesis using w1(1) assms(3) by simp
  next
    case (Suc i)
    then show ?thesis using run that assms(4) w1(2) unfolding retry_run_def by (auto dest!: spec [of _ i])
  qed
  have ent: "\<exists>es. xw_entries w' = xw_entries w @ es \<and> length es = Suc k * e \<and> list_all E es"
    using es es' assms(6) by (intro exI [of _ "es @ es'"]) simp
  show ?thesis
    using run early ent k kk w1 assms(3-8)
    unfolding retry_run_def by (auto simp: replicate_append_same split: sum.splits if_splits)
qed

lemma retry_run_one:
  assumes "one_call env request E e att" and "att w = (x, w1)"
    and "xw_calls w' = xw_calls w1" "xw_slept w' = xw_slept w1 @ ds" "xw_entries w' = xw_entries w1"
    and "exec_rest w' = exec_rest w1" and "list_all (\<lambda>d. 0 \<le> d) ds" "length ds \<le> 1"
    and "RO_exhausted out \<Longrightarrow> RO_callErr out = None \<and> IsRateLimited (RO_response out) \<and> x = Inr (RO_response out)"
    and "\<not> RO_exhausted out \<Longrightarrow> (case x of Inl err \<Rightarrow> RO_callErr out = Some err
        | Inr r \<Rightarrow> if IsRateLimited r then RO_callErr out \<noteq> None else RO_callErr out = None \<and> RO_response out = r)"
  shows "retry_run env request E e w 1 ds out w'"
proof -
  from assms(1,2) have w1: "xe_respond env (length (xw_calls w)) request = x"
    "xw_calls w1 = xw_calls w @ [request]" "xw_slept w1 = xw_slept w" "exec_rest w1 = exec_rest w"
    unfolding one_call_def by (metis fst_conv snd_conv)+
  obtain es where "xw_entries w1 = xw_entries w @ es" "length es = e" "list_all E es"
    using assms(1,2) unfolding one_call_def by (metis snd_conv)
  with w1 assms(3-10) show ?thesis unfolding retry_run_def by simp
qed

lemma retry_from_run:
  assumes call: "one_call env request E e att" and sane: "sane_retry_after env"
    and quiet: "\<And>w m. onRetry = Some m \<Longrightarrow> m w = w"
    and "1 \<le> i" "i \<le> maxAttempts" and "0 \<le> waited" "waited \<le> retryBudget"
    and "retry_from (exec_F env) att onRetry i waited w = (out, w')"
  shows "\<exists>k ds. retry_run env request E e w k ds out w' \<and> int k \<le> maxAttempts - i + 1 \<and> waited + sum_list ds \<le> retryBudget"
  using assms(4-8)
proof (induction "nat (maxAttempts - i)" arbitrary: i waited w rule: less_induct)
  case less
  obtain x w1 where att: "att w = (x, w1)" by (cases "att w")
  note step = less.prems(5) [unfolded retry_from.simps [of "exec_F env" att onRetry i waited w] att]
  have one: ?case if "retry_run env request E e w 1 ds out w'" "waited + sum_list ds \<le> retryBudget" for ds
    using that less.prems(2) by (intro exI [of _ "1::nat"] exI [of _ ds]) simp
  show ?case
  proof (cases "\<exists>r. x = Inr r \<and> IsRateLimited r")
    case False
    then have w': "w' = w1" "\<not> RO_exhausted out" "case x of Inl err \<Rightarrow> RO_callErr out = Some err
        | Inr r \<Rightarrow> if IsRateLimited r then RO_callErr out \<noteq> None else RO_callErr out = None \<and> RO_response out = r"
      using step by (auto split: sum.splits)
    have "retry_run env request E e w 1 [] out w'"
      using w' by (intro retry_run_one [OF call att]) simp_all
    from this less.prems(4) show ?thesis by (intro one [where ds = "[]"]) simp_all
  next
    case True
    then obtain r where r: "x = Inr r" "IsRateLimited r" by blast
    let ?w2 = "snd (retryDelay (exec_F env) r (xw_now w1) w1)"
    let ?d = "fst (retryDelay (exec_F env) r (xw_now w1) w1)"
    have resp: "xe_respond env (length (xw_calls w)) request = Inr r"
      using call att r unfolding one_call_def by (metis fst_conv)
    note d = retryDelay_bounds [OF sane resp, of "xw_now w1" w1]
    have sum: "wrap64 (waited + ?d) = waited + ?d"
      using d less.prems(3,4) by (intro wrap64_id) (simp_all add: retryBudget_def duration_defs)
    have onr: "(case onRetry of None \<Rightarrow> ?w2 | Some m \<Rightarrow> m ?w2) = ?w2"
      using quiet by (cases onRetry) auto
    have step: "(if maxAttempts \<le> i \<or> waited + ?d > retryBudget
        then (\<lparr>RO_response = r, RO_callErr = None, RO_exhausted = True, RO_retryAfter = ?d\<rparr>, ?w2)
        else (case fst (exec_world_sleep env ?d ?w2) of
            Inl err \<Rightarrow> (\<lparr>RO_response = r, RO_callErr = Some err, RO_exhausted = False, RO_retryAfter = 0\<rparr>,
                         snd (exec_world_sleep env ?d ?w2))
          | Inr _ \<Rightarrow> retry_from (exec_F env) att onRetry (i + 1) (waited + ?d) (snd (exec_world_sleep env ?d ?w2))))
        = (out, w')"
      using step
      by (simp only: r prod.case sum.case if_True not_True_eq_False if_False exec_F_sel split_beta onr sum fst_conv snd_conv)
    show ?thesis
    proof (cases "maxAttempts \<le> i \<or> waited + ?d > retryBudget")
      case True
      then have w': "w' = ?w2" "out = \<lparr>RO_response = r, RO_callErr = None, RO_exhausted = True, RO_retryAfter = ?d\<rparr>"
        using step r(2) by (auto simp: split_beta)
      have "retry_run env request E e w 1 [] out w'"
        using w' r by (intro retry_run_one [OF call att]) (simp_all add: retryDelay_frame)
      from this less.prems(4) show ?thesis by (intro one [where ds = "[]"]) simp_all
    next
      case False
      let ?w3 = "snd (exec_world_sleep env ?d ?w2)"
      show ?thesis
      proof (cases "fst (exec_world_sleep env ?d ?w2)")
        case (Inl err)
        then have w': "w' = ?w3" "out = \<lparr>RO_response = r, RO_callErr = Some err, RO_exhausted = False, RO_retryAfter = 0\<rparr>"
          using step r(2) False by (auto simp: split_beta)
        have "retry_run env request E e w 1 [?d] out w'"
          using w' r d(1) by (intro retry_run_one [OF call att]) (simp_all add: retryDelay_frame sleep_frame)
        from this False show ?thesis by (intro one [where ds = "[?d]"]) simp_all
      next
        case (Inr u)
        then have rec: "retry_from (exec_F env) att onRetry (i + 1) (waited + ?d) ?w3 = (out, w')"
          using step r(2) False by (auto simp: split_beta)
        obtain k ds where k: "retry_run env request E e ?w3 k ds out w'" "int k \<le> maxAttempts - (i + 1) + 1"
            "(waited + ?d) + sum_list ds \<le> retryBudget"
          using less.hyps [OF _ _ _ _ _ rec] False d(1) less.prems(1,3) by auto
        have "retry_run env request E e w (Suc k) (?d # ds) out w'"
          using retry_run_Cons [OF call att [unfolded r(1)] r(2) _ _ _ _ d(1) k(1)]
          by (simp add: retryDelay_frame sleep_frame)
        with k(2,3) show ?thesis by (intro exI [of _ "Suc k"] exI [of _ "?d # ds"]) simp
      qed
    qed
  qed
qed

lemma retryLoop_run:
  assumes "one_call env request E e att" and "sane_retry_after env" and "\<And>w m. onRetry = Some m \<Longrightarrow> m w = w"
    and "retryLoop (exec_F env) att onRetry w = (out, w')"
  shows "\<exists>k ds. retry_run env request E e w k ds out w' \<and> k \<le> 3 \<and> sum_list ds \<le> retryBudget"
proof -
  have "retry_from (exec_F env) att onRetry 1 0 w = (out, w')" using assms(4) by (simp add: retryLoop_def)
  then have "\<exists>k ds. retry_run env request E e w k ds out w' \<and> int k \<le> maxAttempts - 1 + 1 \<and> 0 + sum_list ds \<le> retryBudget"
    using retry_from_run [OF assms(1,2), where onRetry = onRetry and i = 1 and waited = 0] assms(3)
    by (simp add: maxAttempts_def retryBudget_def duration_defs)
  then show ?thesis by (auto simp: maxAttempts_def)
qed

section \<open>One burst of attempts\<close>

text \<open>The log entry of an attempt: who asked for what, with the request as the log keeps it.\<close>

definition attempt_of ::
  "OrgID \<Rightarrow> UserID \<Rightarrow> ConnectionID \<Rightarrow> toolAttribution \<Rightarrow> ToolCallRequest \<Rightarrow> ExecLogEntry \<Rightarrow> bool" where
  "attempt_of org u c att request e \<longleftrightarrow>
     XL_OrgID e = org \<and> XL_UserID e = u \<and> XL_ConnectionID e = c \<and> XL_ToolID e = TA_ID att
     \<and> XL_ToolSlug e = TA_Slug att \<and> XL_RequestBody e = toolCallRequestLogBody request"

lemma attemptCall_one_call:
  "one_call env request (attempt_of org u c att request) 1 (attemptCall (exec_F env) org u c att slug request)"
  by (auto simp: one_call_def attemptCall_run exec_rest_def attempt_of_def attempt_entry_def)

lemma callWithRetry_run:
  assumes "sane_retry_after env" and "callWithRetry (exec_F env) org u c att slug request w = (out, w')"
  shows "\<exists>k ds. retry_run env request (attempt_of org u c att request) 1 w k ds out w' \<and> k \<le> 3 \<and> sum_list ds \<le> retryBudget"
  by (rule retryLoop_run [OF attemptCall_one_call assms(1) _ assms(2) [unfolded callWithRetry_def]])
    (auto simp: recordRateLimitRetryMetric_def)

text \<open>
  C19: Whatever the provider answers, one tool call asks it at least once and at most three times, always
  with the same request; every answer but the last was a rate limit; the waits between the attempts are at
  most \<open>retryBudget\<close> (30 s) in all; each attempt leaves one log entry with the caller, the tool and the
  request; and the outcome is the last answer: exhausted only if that was still a rate limit, the transport's
  error if there was one, else the response itself. The provider must not name a wait that an \<open>int64\<close>
  of nanoseconds cannot hold together with the budget.
\<close>
theorem retries_bounded:
  fixes w w' :: "'c exec_world"
  assumes "sane_retry_after env"
    and "callWithRetry (exec_F env) org u c att slug request w = (out, w')"
  defines "answer \<equiv> \<lambda>j. xe_respond env (length (xw_calls w) + j) request"
  shows "\<exists>k ds es. 1 \<le> k \<and> k \<le> 3 \<and> xw_calls w' = xw_calls w @ replicate k request
      \<and> xw_slept w' = xw_slept w @ ds \<and> list_all (\<lambda>d. 0 \<le> d) ds \<and> sum_list ds \<le> retryBudget \<and> length ds \<le> k
      \<and> xw_entries w' = xw_entries w @ es \<and> length es = k \<and> list_all (attempt_of org u c att request) es
      \<and> (\<forall>j. Suc j < k \<longrightarrow> (\<exists>r. answer j = Inr r \<and> IsRateLimited r))
      \<and> (if RO_exhausted out
         then answer (k - 1) = Inr (RO_response out) \<and> IsRateLimited (RO_response out) \<and> RO_callErr out = None
         else case answer (k - 1) of
                Inl err \<Rightarrow> RO_callErr out = Some err
              | Inr r \<Rightarrow> if IsRateLimited r then RO_callErr out \<noteq> None else RO_callErr out = None \<and> RO_response out = r)"
proof -
  obtain k ds where run: "retry_run env request (attempt_of org u c att request) 1 w k ds out w'" and
    b: "k \<le> 3" "sum_list ds \<le> retryBudget"
    using callWithRetry_run [OF assms(1,2)] by blast
  from run obtain es where "xw_entries w' = xw_entries w @ es" "length es = k" "list_all (attempt_of org u c att request) es"
    by (auto simp: retry_run_def)
  with run b show ?thesis
    unfolding retry_run_def answer_def by (intro exI [of _ k] exI [of _ ds] exI [of _ es]) (auto split: sum.splits)
qed

lemma retries_bounded_witness:
  "\<exists>k out w'. callWithRetry (exec_F demo_env) ''org_1'' ''user_1'' ''conn_1'' (attributionFor demo_tool) ''crm'' demo_request
      demo_world = (out, w') \<and> 1 \<le> k \<and> k \<le> 3 \<and> xw_calls w' = replicate k demo_request \<and> k = 2
      \<and> xw_slept w' = [second]"
proof -
  obtain out w' where run: "callWithRetry (exec_F demo_env) ''org_1'' ''user_1'' ''conn_1'' (attributionFor demo_tool) ''crm''
      demo_request demo_world = (out, w')" by fastforce
  have "xw_calls (snd (callWithRetry (exec_F demo_env) ''org_1'' ''user_1'' ''conn_1'' (attributionFor demo_tool) ''crm''
      demo_request demo_world)) = [demo_request, demo_request]"
    "xw_slept (snd (callWithRetry (exec_F demo_env) ''org_1'' ''user_1'' ''conn_1'' (attributionFor demo_tool) ''crm''
      demo_request demo_world)) = [second]"
    by (simp_all add: demo_eval demo_request_def)
  then have w': "xw_calls w' = [demo_request, demo_request]" "xw_slept w' = [second]" using run by simp_all
  from retries_bounded [OF demo_sane run] obtain k where "1 \<le> k" "k \<le> 3" "xw_calls w' = xw_calls demo_world @ replicate k demo_request"
    by blast
  moreover from this w' have "k = 2" by (auto simp: demo_world_def dest: arg_cong [of _ _ "length :: ToolCallRequest list \<Rightarrow> nat"])
  ultimately show ?thesis using run w' by (auto simp: demo_world_def)
qed

section \<open>Execute\<close>

text \<open>What the answer to the last request of a burst makes of the execution.\<close>

definition answered_with :: "Pagination option \<Rightarrow> go_error + ToolCallResponse \<Rightarrow> go_error + Result \<Rightarrow> bool" where
  "answered_with pagination answer r \<longleftrightarrow>
     (let unreachable = Inr (FailureResult CodeProviderUnavailable ''the provider could not be reached'') in
      case answer of
        Inl _ \<Rightarrow> r = unreachable
      | Inr response \<Rightarrow>
          if IsRateLimited response then r = unreachable \<or> (\<exists>d. r = Inl (ErrRateLimited d))
          else r = Inr (toolCallResult response None pagination))"

text \<open>
  A burst: one to three equal requests, each but the last answered by a rate limit, waits within the budget, one log
  entry for each request.
\<close>

definition burst ::
  "'c exec_env \<Rightarrow> ToolCallRequest \<Rightarrow> nat \<Rightarrow> 'c exec_world \<Rightarrow> 'c exec_world \<Rightarrow> bool" where
  "burst env request k w w' \<longleftrightarrow> 1 \<le> k \<and> k \<le> 3 \<and> xw_calls w' = xw_calls w @ replicate k request
     \<and> (\<exists>ds. xw_slept w' = xw_slept w @ ds \<and> sum_list ds \<le> retryBudget)
     \<and> (\<exists>es. xw_entries w' = xw_entries w @ es \<and> length es = k)
     \<and> xw_conn w' = xw_conn w \<and> xw_refreshes w' = xw_refreshes w
     \<and> (\<forall>j. Suc j < k \<longrightarrow> (\<exists>r. xe_respond env (length (xw_calls w) + j) request = Inr r \<and> IsRateLimited r))"

definition last_answer :: "'c exec_env \<Rightarrow> ToolCallRequest \<Rightarrow> nat \<Rightarrow> 'c exec_world \<Rightarrow> go_error + ToolCallResponse" where
  "last_answer env request k w = xe_respond env (length (xw_calls w) + (k - 1)) request"

definition unauthorized :: "go_error + ToolCallResponse \<Rightarrow> bool" where
  "unauthorized answer \<longleftrightarrow> (\<exists>r. answer = Inr r \<and> RSP_StatusCode r = 401 \<and> \<not> IsRateLimited r)"

text \<open>
  What an execution does to the provider, and what it returns: a burst; and exactly if the last request of it was
  answered 401, one forced refresh. A refresh that fails or leaves the connection inactive ends the execution; after
  a good one there is a second burst, of the same request with the token the refresh returned.
\<close>

definition provider_traffic ::
  "'c exec_env \<Rightarrow> OrgID \<Rightarrow> UserID \<Rightarrow> ConnectionID \<Rightarrow> Pagination option \<Rightarrow> ToolCallRequest \<Rightarrow> 'c exec_world
     \<Rightarrow> go_error + Result \<Rightarrow> 'c exec_world \<Rightarrow> bool" where
  "provider_traffic env org u c pagination request w r w' \<longleftrightarrow>
     (\<exists>k w1. burst env request k w w1 \<and>
        (if \<not> unauthorized (last_answer env request k w)
         then w' = w1 \<and> answered_with pagination (last_answer env request k w) r
         else (case xe_refresh env org u c (xw_conn w1) of
             (refreshed, cn) \<Rightarrow>
               let w2 = w1\<lparr>xw_refreshes := Suc (xw_refreshes w1), xw_conn := cn\<rparr> in
               case refreshed of
                 Inl err \<Rightarrow> w' = w2 \<and> r = Inl err
               | Inr access \<Rightarrow>
                   if EA_Status access \<noteq> StatusActive
                   then w' = w2 \<and> r = Inr (FailureResult CodeConnectionNotActive (connectionNotActiveMessage (EA_Status access)))
                   else (let request' = request\<lparr>TCR_AccessToken := EA_AccessToken access\<rparr> in
                     \<exists>k'. burst env request' k' w2 w' \<and> answered_with pagination (last_answer env request' k' w2) r))))"

lemma resolveOneFileInput_keeps: "snd (resolveOneFileInput (exec_F env) org name arguments w) = w"
  by (simp add: resolveOneFileInput_def act_simps Let_def files_mem_FindByID_def store_mem_Open_def readFileContent_def
      split: prod.split sum.split option.split)

lemma resolveFileInputs_keeps: "snd (resolveFileInputs (exec_F env) org names arguments w) = w"
proof (induction names)
  case (Cons name names)
  have "snd (resolveOneFileInput (exec_F env) org name arguments w) = w" by (rule resolveOneFileInput_keeps)
  with Cons.IH show ?case by (auto simp: act_simps split: prod.split sum.split)
qed simp


lemma retry_run_burst:
  assumes "retry_run env request E 1 w k ds out w'" and "k \<le> 3" and "sum_list ds \<le> retryBudget"
  shows "burst env request k w w'"
  using assms by (auto simp: retry_run_def burst_def exec_rest_def)

text \<open>The end of an execution: what the code makes of the outcome of a burst.\<close>

lemma retry_run_last:
  assumes "retry_run env request E e w k ds out w'"
  shows "RO_exhausted out \<Longrightarrow> \<exists>r. last_answer env request k w = Inr r \<and> IsRateLimited r"
    and "\<not> RO_exhausted out \<Longrightarrow> last_answer env request k w = Inl err \<Longrightarrow> RO_callErr out = Some err"
    and "\<not> RO_exhausted out \<Longrightarrow> last_answer env request k w = Inr r \<Longrightarrow> IsRateLimited r \<Longrightarrow> RO_callErr out \<noteq> None"
    and "\<not> RO_exhausted out \<Longrightarrow> last_answer env request k w = Inr r \<Longrightarrow> \<not> IsRateLimited r
      \<Longrightarrow> RO_callErr out = None \<and> RO_response out = r"
  using assms unfolding retry_run_def last_answer_def by (elim conjE, simp del: One_nat_def)+

lemma retry_run_answered:
  assumes run: "retry_run env request E e w k ds out w'"
    and r: "r = (if RO_exhausted out then Inl (ErrRateLimited (RO_retryAfter out))
       else Inr (toolCallResult (RO_response out) (RO_callErr out) pagination))"
  shows "answered_with pagination (last_answer env request k w) r"
proof (cases "RO_exhausted out")
  case True
  then show ?thesis using retry_run_last(1) [OF run] r by (auto simp: answered_with_def Let_def)
next
  case no: False
  note l = retry_run_last(2-4) [OF run no]
  show ?thesis
  proof (cases "last_answer env request k w")
    case (Inl err)
    then show ?thesis using no r l(1) by (simp add: answered_with_def toolCallResult_def Let_def)
  next
    case (Inr a)
    then show ?thesis using no r l(2,3) [OF Inr]
      by (cases "IsRateLimited a") (auto simp: answered_with_def toolCallResult_def Let_def)
  qed
qed

lemma retry_run_unauthorized:
  assumes run: "retry_run env request E e w k ds out w'"
  shows "unauthorized (last_answer env request k w)
    \<longleftrightarrow> \<not> RO_exhausted out \<and> RO_callErr out = None \<and> RSP_StatusCode (RO_response out) = 401"
proof (cases "RO_exhausted out")
  case True
  then show ?thesis using retry_run_last(1) [OF run] by (auto simp: unauthorized_def)
next
  case no: False
  note l = retry_run_last(2-4) [OF run no]
  show ?thesis
  proof (cases "last_answer env request k w")
    case (Inl err)
    then show ?thesis using no l(1) by (simp add: unauthorized_def)
  next
    case (Inr a)
    then show ?thesis using no l(2,3) [OF Inr] by (cases "IsRateLimited a") (auto simp: unauthorized_def)
  qed
qed

lemma traffic_provider:
  assumes sane: "sane_retry_after env"
    and run: "call (callWithRetry (exec_F env) org u c att slug request) (\<lambda>outcome.
             if RO_exhausted outcome then fail (ErrRateLimited (RO_retryAfter outcome))
             else if RO_callErr outcome = None \<and> RSP_StatusCode (RO_response outcome) = 401
             then retryAfterRefresh (exec_F env) org u c att slug request pagination
             else ok (toolCallResult (RO_response outcome) (RO_callErr outcome) pagination)) w = (r, w')"
  shows "provider_traffic env org u c pagination request w r w'"
proof -
  obtain out w1 where call: "callWithRetry (exec_F env) org u c att slug request w = (out, w1)"
    by (cases "callWithRetry (exec_F env) org u c att slug request w")
  obtain k ds where first: "retry_run env request (attempt_of org u c att request) 1 w k ds out w1" "k \<le> 3" "sum_list ds \<le> retryBudget"
    using callWithRetry_run [OF sane call] by blast
  note b = retry_run_burst [OF first] and u = retry_run_unauthorized [OF first(1)]
  show ?thesis
  proof (cases "unauthorized (last_answer env request k w)")
    case False
    then have "w' = w1" "r = (if RO_exhausted out then Inl (ErrRateLimited (RO_retryAfter out))
       else Inr (toolCallResult (RO_response out) (RO_callErr out) pagination))"
      using run call u by (auto simp: call_apply split: if_splits)
    have "answered_with pagination (last_answer env request k w) r"
      by (rule retry_run_answered [OF first(1)]) (rule \<open>r = _\<close>)
    then show ?thesis unfolding provider_traffic_def using b False \<open>w' = w1\<close>
      by (intro exI [of _ k] exI [of _ w1]) simp
  next
    case True
    then have rest: "retryAfterRefresh (exec_F env) org u c att slug request pagination w1 = (r, w')"
      using run call u by (simp add: call_apply)
    obtain x cn where ref: "xe_refresh env org u c (xw_conn w1) = (x, cn)" by (cases "xe_refresh env org u c (xw_conn w1)")
    let ?w2 = "w1\<lparr>xw_refreshes := Suc (xw_refreshes w1), xw_conn := cn\<rparr>"
    show ?thesis
    proof (cases "\<exists>access. x = Inr access \<and> EA_Status access = StatusActive")
      case False
      then show ?thesis using rest ref b True unfolding provider_traffic_def
        by (intro exI [of _ k] exI [of _ w1]) (auto simp: retryAfterRefresh_def act_simps Let_def split: sum.splits if_splits)
    next
      case act: True
      then obtain access where access: "x = Inr access" "EA_Status access = StatusActive" by blast
      let ?req = "request\<lparr>TCR_AccessToken := EA_AccessToken access\<rparr>"
      obtain out' where c': "callWithRetry (exec_F env) org u c att slug ?req ?w2 = (out', w')"
        and r: "r = (if RO_exhausted out' then Inl (ErrRateLimited (RO_retryAfter out'))
          else Inr (toolCallResult (RO_response out') (RO_callErr out') pagination))"
        using rest ref access by (auto simp: retryAfterRefresh_def act_simps split: prod.splits if_splits)
      obtain k' ds' where second: "retry_run env ?req (attempt_of org u c att ?req) 1 ?w2 k' ds' out' w'" "k' \<le> 3" "sum_list ds' \<le> retryBudget"
        using callWithRetry_run [OF sane c'] by blast
      show ?thesis
        using b True ref access retry_run_burst [OF second] retry_run_answered [OF second(1) r]
        unfolding provider_traffic_def by (intro exI [of _ k] exI [of _ w1]) (auto simp: Let_def)
    qed
  qed
qed

lemma or_invalid_apply:
  "or_invalid r k w = (case r of Inl e \<Rightarrow> (Inr (FailureResult CodeInvalidArguments (go_error_text e)), w) | Inr x \<Rightarrow> k x w)"
  by (simp add: or_invalid_def split: sum.split)

text \<open>The mapping of a tool renders a request from the arguments \<open>a\<close> and the connection's parameters \<open>p\<close>.\<close>

definition renders_request ::
  "'c exec_env \<Rightarrow> OrgID \<Rightarrow> ProviderDefinition \<Rightarrow> ProviderTool \<Rightarrow> string \<Rightarrow> any_map \<Rightarrow> any_map \<Rightarrow> 'c exec_world
     \<Rightarrow> ToolCallRequest \<Rightarrow> bool" where
  "renders_request env org defn tool token a p w request \<longleftrightarrow>
     buildToolCallURL (PD_BaseURL defn) (PT_Path tool) a p = Inr (TCR_URL request)
     \<and> buildToolBody (PT_Mapping tool) a p = Inr (TCR_Body request)
     \<and> buildToolQuery (PT_Mapping tool) a p = Inr (TCR_Query request)
     \<and> buildToolHeaders (PT_Mapping tool) a p = Inr (TCR_Headers request)
     \<and> fst (resolveFileInputs (exec_F env) org (MP_FileInputs (PT_Mapping tool)) a w) = Inr (Inr (TCR_Files request))
     \<and> TCR_Method request = PT_Method tool \<and> TCR_AccessToken request = token"

lemma traffic_callProvider:
  assumes sane: "sane_retry_after env"
    and run: "callProvider (exec_F env) org u c defn tool accessToken arguments params w = (r, w')"
    and "renders_request env org defn tool accessToken arguments params w request"
  shows "provider_traffic env org u c (MP_Pagination (PT_Mapping tool)) request w r w'"
proof -
  note built = assms(3) [unfolded renders_request_def]
  have "resolveFileInputs (exec_F env) org (MP_FileInputs (PT_Mapping tool)) arguments w = (Inr (Inr (TCR_Files request)), w)"
    using built resolveFileInputs_keeps [of env org "MP_FileInputs (PT_Mapping tool)" arguments w] by (metis prod.collapse)
  moreover obtain m url token q h b fs where "request = \<lparr>TCR_Method = m, TCR_URL = url, TCR_AccessToken = token,
      TCR_Query = q, TCR_Headers = h, TCR_Body = b, TCR_Files = fs\<rparr>"
    by (cases request)
  ultimately show ?thesis
    using run built
    by (intro traffic_provider [OF sane, where u = u and c = c and org = org and att = "attributionFor tool"
        and slug = "PD_Slug defn" and pagination = "MP_Pagination (PT_Mapping tool)" and r = r])
      (hypsubst, auto simp: callProvider_def or_invalid_apply attempt_apply Let_def)
qed

text \<open>The request an execution sends, when nothing stands in its way.\<close>

definition execution_request ::
  "'c exec_env \<Rightarrow> OrgID \<Rightarrow> UserID \<Rightarrow> ConnectionID \<Rightarrow> string \<Rightarrow> any_map \<Rightarrow> 'c exec_world \<Rightarrow> ToolCallRequest \<Rightarrow> bool" where
  "execution_request env org u c slug given w request \<longleftrightarrow>
     (\<exists>defn tool access cn arguments.
        xe_tools env slug = Inr (defn, tool) \<and> xe_resolve env org u c (xw_conn w) = (Inr access, cn)
        \<and> EA_Status access = StatusActive \<and> arguments = mergeWithSchemaDefaults given (PT_InputSchema tool)
        \<and> validateArguments (exec_F env) (PT_InputSchema tool) arguments = None
        \<and> renders_request env org defn tool (EA_AccessToken access) arguments (toAnyMap (EA_Params access)) w request)"

text \<open>What stands in its way, and the answer it then gets.\<close>

inductive refused ::
  "'c exec_env \<Rightarrow> OrgID \<Rightarrow> UserID \<Rightarrow> ConnectionID \<Rightarrow> string \<Rightarrow> any_map \<Rightarrow> 'c exec_world \<Rightarrow> go_error + Result \<Rightarrow> bool"
  for env org u c slug given w where
  unknown_tool: "xe_tools env slug = Inl e \<Longrightarrow> refused env org u c slug given w (Inl e)"
| unresolved: "xe_tools env slug = Inr dt \<Longrightarrow> fst (xe_resolve env org u c (xw_conn w)) = Inl e
    \<Longrightarrow> refused env org u c slug given w (Inl e)"
| not_active: "xe_tools env slug = Inr dt \<Longrightarrow> fst (xe_resolve env org u c (xw_conn w)) = Inr access
    \<Longrightarrow> EA_Status access \<noteq> StatusActive
    \<Longrightarrow> refused env org u c slug given w
          (Inr (FailureResult CodeConnectionNotActive (connectionNotActiveMessage (EA_Status access))))"
| invalid: "xe_tools env slug = Inr (defn, tool) \<Longrightarrow> fst (xe_resolve env org u c (xw_conn w)) = Inr access
    \<Longrightarrow> EA_Status access = StatusActive
    \<Longrightarrow> validateArguments (exec_F env) (PT_InputSchema tool) (mergeWithSchemaDefaults given (PT_InputSchema tool)) = Some v
    \<Longrightarrow> refused env org u c slug given w (Inr (FailureResult CodeInvalidArguments v))"
| unrendered: "xe_tools env slug = Inr (defn, tool) \<Longrightarrow> fst (xe_resolve env org u c (xw_conn w)) = Inr access
    \<Longrightarrow> EA_Status access = StatusActive \<Longrightarrow> a = mergeWithSchemaDefaults given (PT_InputSchema tool)
    \<Longrightarrow> p = toAnyMap (EA_Params access)
    \<Longrightarrow> buildToolCallURL (PD_BaseURL defn) (PT_Path tool) a p = Inl e \<or> buildToolBody (PT_Mapping tool) a p = Inl e
          \<or> buildToolQuery (PT_Mapping tool) a p = Inl e \<or> buildToolHeaders (PT_Mapping tool) a p = Inl e
    \<Longrightarrow> refused env org u c slug given w (Inr (FailureResult CodeInvalidArguments (go_error_text e)))"
| no_file: "xe_tools env slug = Inr (defn, tool)
    \<Longrightarrow> fst (resolveFileInputs (exec_F env) org (MP_FileInputs (PT_Mapping tool))
          (mergeWithSchemaDefaults given (PT_InputSchema tool)) w) = Inr (Inl e)
    \<Longrightarrow> refused env org u c slug given w (Inr (FailureResult (XE_Code e) (XE_Message e)))"
| unreadable_file: "xe_tools env slug = Inr (defn, tool)
    \<Longrightarrow> fst (resolveFileInputs (exec_F env) org (MP_FileInputs (PT_Mapping tool))
          (mergeWithSchemaDefaults given (PT_InputSchema tool)) w) = Inl e
    \<Longrightarrow> refused env org u c slug given w (Inl e)"

lemma resolveFileInputs_conn:
  "fst (resolveFileInputs (exec_F env) org names arguments (w\<lparr>xw_conn := x\<rparr>))
     = fst (resolveFileInputs (exec_F env) org names arguments w)"
proof (induction names)
  case (Cons name names)
  have one: "fst (resolveOneFileInput (exec_F env) org name arguments (w\<lparr>xw_conn := x\<rparr>))
      = fst (resolveOneFileInput (exec_F env) org name arguments w)"
    by (simp add: resolveOneFileInput_def act_simps Let_def files_mem_FindByID_def store_mem_Open_def readFileContent_def
        split: prod.split sum.split option.split)
  show ?case
    using Cons.IH one resolveOneFileInput_keeps [of env org name arguments w]
      resolveOneFileInput_keeps [of env org name arguments "w\<lparr>xw_conn := x\<rparr>"]
    by (auto simp: act_simps split: prod.splits sum.splits)
qed simp

lemma renders_request_conn:
  "renders_request env org defn tool token a p (w\<lparr>xw_conn := x\<rparr>) request = renders_request env org defn tool token a p w request"
  by (simp add: renders_request_def resolveFileInputs_conn)

lemma callProvider_stops:
  assumes run: "callProvider (exec_F env) org u c defn tool accessToken a p w = (r, w')"
    and stop: "\<nexists>request. renders_request env org defn tool accessToken a p w request"
  shows "w' = w \<and>
    ((\<exists>e. r = Inr (FailureResult CodeInvalidArguments (go_error_text e))
        \<and> (buildToolCallURL (PD_BaseURL defn) (PT_Path tool) a p = Inl e \<or> buildToolBody (PT_Mapping tool) a p = Inl e
          \<or> buildToolQuery (PT_Mapping tool) a p = Inl e \<or> buildToolHeaders (PT_Mapping tool) a p = Inl e))
     \<or> (\<exists>e. r = Inr (FailureResult (XE_Code e) (XE_Message e))
        \<and> fst (resolveFileInputs (exec_F env) org (MP_FileInputs (PT_Mapping tool)) a w) = Inr (Inl e))
     \<or> (\<exists>e. r = Inl e \<and> fst (resolveFileInputs (exec_F env) org (MP_FileInputs (PT_Mapping tool)) a w) = Inl e))"
proof (cases "buildToolCallURL (PD_BaseURL defn) (PT_Path tool) a p")
  case (Inl e)
  then show ?thesis using run by (auto simp: callProvider_def or_invalid_apply)
next
  case url: (Inr url)
  show ?thesis
  proof (cases "buildToolBody (PT_Mapping tool) a p")
    case (Inl e)
    then show ?thesis using run url by (auto simp: callProvider_def or_invalid_apply)
  next
    case body: (Inr body)
    show ?thesis
    proof (cases "buildToolQuery (PT_Mapping tool) a p")
      case (Inl e)
      then show ?thesis using run url body by (auto simp: callProvider_def or_invalid_apply)
    next
      case query: (Inr query)
      show ?thesis
      proof (cases "buildToolHeaders (PT_Mapping tool) a p")
        case (Inl e)
        then show ?thesis using run url body query by (auto simp: callProvider_def or_invalid_apply)
      next
        case headers: (Inr headers)
        obtain fr where fr: "resolveFileInputs (exec_F env) org (MP_FileInputs (PT_Mapping tool)) a w = (fr, w)"
          using resolveFileInputs_keeps [of env org "MP_FileInputs (PT_Mapping tool)" a w] by (metis prod.collapse)
        have "fr \<noteq> Inr (Inr files)" for files
        proof
          assume "fr = Inr (Inr files)"
          then have "renders_request env org defn tool accessToken a p w
            \<lparr>TCR_Method = PT_Method tool, TCR_URL = url, TCR_AccessToken = accessToken,
              TCR_Query = query, TCR_Headers = headers, TCR_Body = body, TCR_Files = files\<rparr>"
            using url body query headers fr by (simp add: renders_request_def)
          with stop show False by blast
        qed
        then show ?thesis
          using run url body query headers fr
          by (auto simp: callProvider_def or_invalid_apply attempt_apply split: sum.splits)
      qed
    qed
  qed
qed

lemma Execute_refused:
  assumes none: "\<nexists>request. execution_request env org u c slug given w request"
    and run: "exec_Execute (exec_F env) org u c slug given w = (r, w')"
  shows "refused env org u c slug given w r \<and> (\<exists>cn. w' = w\<lparr>xw_conn := cn\<rparr>)"
proof (cases "xe_tools env slug")
  case (Inl e)
  then have "r = Inl e" "w' = w\<lparr>xw_conn := xw_conn w\<rparr>" using run by (simp_all add: exec_Execute_def act_simps)
  then show ?thesis using refused.unknown_tool [OF Inl] by blast
next
  case tool: (Inr dt)
  obtain defn tool where dt: "dt = (defn, tool)" by (cases dt)
  obtain x cn where res: "xe_resolve env org u c (xw_conn w) = (x, cn)" by (cases "xe_resolve env org u c (xw_conn w)")
  let ?w1 = "w\<lparr>xw_conn := cn\<rparr>"
  show ?thesis
  proof (cases x)
    case (Inl e)
    then have "r = Inl e" "w' = ?w1" using run tool dt res by (simp_all add: exec_Execute_def act_simps)
    moreover have "fst (xe_resolve env org u c (xw_conn w)) = Inl e" using res Inl by simp
    ultimately show ?thesis using refused.unresolved [OF tool] by blast
  next
    case (Inr access)
    let ?a = "mergeWithSchemaDefaults given (PT_InputSchema tool)"
    let ?p = "toAnyMap (EA_Params access)"
    have fr: "fst (xe_resolve env org u c (xw_conn w)) = Inr access" using res Inr by simp
    note t = tool [unfolded dt]
    show ?thesis
    proof (cases "EA_Status access = StatusActive")
      case False
      then have "r = Inr (FailureResult CodeConnectionNotActive (connectionNotActiveMessage (EA_Status access)))" "w' = ?w1"
        using run t res Inr by (simp_all add: exec_Execute_def act_simps)
      then show ?thesis using refused.not_active [OF tool fr False] by blast
    next
      case act: True
      show ?thesis
      proof (cases "validateArguments (exec_F env) (PT_InputSchema tool) ?a")
        case (Some v)
        then have "r = Inr (FailureResult CodeInvalidArguments v)" "w' = ?w1"
          using run t res Inr act by (simp_all add: exec_Execute_def act_simps Let_def)
        then show ?thesis using refused.invalid [OF t fr act Some] by blast
      next
        case None
        then have cp: "callProvider (exec_F env) org u c defn tool (EA_AccessToken access) ?a ?p ?w1 = (r, w')"
          using run t res Inr act by (simp add: exec_Execute_def act_simps Let_def)
        have no: "\<nexists>request. renders_request env org defn tool (EA_AccessToken access) ?a ?p ?w1 request"
          using none t res Inr act None unfolding execution_request_def renders_request_conn by blast
        have "w' = ?w1 \<and> refused env org u c slug given w r"
          using callProvider_stops [OF cp no] refused.unrendered [OF t fr act refl refl] refused.no_file [OF t]
            refused.unreadable_file [OF t]
          unfolding resolveFileInputs_conn by blast
        then show ?thesis by blast
      qed
    qed
  qed
qed

definition pagination_of :: "'c exec_env \<Rightarrow> string \<Rightarrow> Pagination option" where
  "pagination_of env slug = (case xe_tools env slug of Inl _ \<Rightarrow> None | Inr (defn, tool) \<Rightarrow> MP_Pagination (PT_Mapping tool))"

text \<open>
  C20: An execution sends the provider a burst of one to three equal requests, rendered from the tool's mapping and the
  caller's arguments, every further one only after a rate limit. Exactly when the last of them is answered 401, the
  connection is refreshed, once. If the refresh fails, or the connection is not ACTIVE after it, nothing more is sent
  and that is the result; otherwise a second burst follows, of the same request with the token the refresh returned,
  and never a second refresh. The result is what the last answer makes it, each request is logged once, and
  each burst waits at most \<open>retryBudget\<close>. Where no request can be rendered the execution only resolves the
  connection. (The provider asks for no wait that overflows an \<open>int64\<close> of nanoseconds.)
\<close>
theorem Execute_refreshes_once:
  assumes "sane_retry_after env" and "exec_Execute (exec_F env) org u c slug given w = (r, w')"
  shows "(\<exists>request. execution_request env org u c slug given w request
            \<and> provider_traffic env org u c (pagination_of env slug) request
                (w\<lparr>xw_conn := snd (xe_resolve env org u c (xw_conn w))\<rparr>) r w')
      \<or> (\<nexists>request. execution_request env org u c slug given w request) \<and> (\<exists>cn. w' = w\<lparr>xw_conn := cn\<rparr>)"
proof (cases "\<exists>request. execution_request env org u c slug given w request")
  case True
  then obtain request where req: "execution_request env org u c slug given w request" by blast
  then obtain defn tool access cn where t: "xe_tools env slug = Inr (defn, tool)"
    and res: "xe_resolve env org u c (xw_conn w) = (Inr access, cn)" "EA_Status access = StatusActive"
    and val: "validateArguments (exec_F env) (PT_InputSchema tool) (mergeWithSchemaDefaults given (PT_InputSchema tool)) = None"
    and built: "renders_request env org defn tool (EA_AccessToken access)
        (mergeWithSchemaDefaults given (PT_InputSchema tool)) (toAnyMap (EA_Params access)) (w\<lparr>xw_conn := cn\<rparr>) request"
    unfolding execution_request_def renders_request_conn by blast
  from assms(2) t res val have "callProvider (exec_F env) org u c defn tool (EA_AccessToken access)
      (mergeWithSchemaDefaults given (PT_InputSchema tool)) (toAnyMap (EA_Params access)) (w\<lparr>xw_conn := cn\<rparr>) = (r, w')"
    by (simp add: exec_Execute_def act_simps Let_def)
  from traffic_callProvider [OF assms(1) this built] req show ?thesis by (auto simp: res(1) pagination_of_def t)
next
  case False
  with Execute_refused [OF False assms(2)] show ?thesis by blast
qed

lemma Execute_refreshes_once_witness:
  "\<exists>request r w'. exec_Execute (exec_F demo_env) ''org_1'' ''user_1'' ''conn_1'' ''get_contact'' demo_given demo_world = (r, w')
      \<and> provider_traffic demo_env ''org_1'' ''user_1'' ''conn_1'' (pagination_of demo_env ''get_contact'') request
          (demo_world\<lparr>xw_conn := snd (xe_resolve demo_env ''org_1'' ''user_1'' ''conn_1'' (xw_conn demo_world))\<rparr>) r w'
      \<and> xw_calls w' = [demo_request, demo_request, demo_request\<lparr>TCR_AccessToken := ''new''\<rparr>] \<and> xw_refreshes w' = 1"
proof -
  obtain r w' where run: "exec_Execute (exec_F demo_env) ''org_1'' ''user_1'' ''conn_1'' ''get_contact'' demo_given demo_world = (r, w')"
    by fastforce
  have "xw_calls (snd (exec_Execute (exec_F demo_env) ''org_1'' ''user_1'' ''conn_1'' ''get_contact'' demo_given demo_world))
      = [demo_request, demo_request, demo_request\<lparr>TCR_AccessToken := ''new''\<rparr>]"
    "xw_refreshes (snd (exec_Execute (exec_F demo_env) ''org_1'' ''user_1'' ''conn_1'' ''get_contact'' demo_given demo_world)) = 1"
    by (simp_all add: exec_Execute_def act_simps Let_def callProvider_def or_invalid_def retryAfterRefresh_def demo_built demo_eval)
      (simp_all add: demo_request_def retryBudget_def duration_defs)
  then have w': "xw_calls w' = [demo_request, demo_request, demo_request\<lparr>TCR_AccessToken := ''new''\<rparr>]" "xw_refreshes w' = 1"
    using run by simp_all
  have "w' \<noteq> demo_world\<lparr>xw_conn := cn\<rparr>" for cn using w'(1) by (auto simp: demo_world_def)
  with Execute_refreshes_once [OF demo_sane run] run w' show ?thesis by blast
qed

text \<open>
  When no request can be rendered the provider is not called, nothing is logged and nothing changes but
  what resolving the connection changed; the answer names the cause: the lookup's own error, a connection
  that is not ACTIVE, arguments the schema refuses, a token of a template without a value, a file input that
  is not an uploaded file of the organization.
\<close>
theorem Execute_refusals:
  assumes "\<nexists>request. execution_request env org u c slug given w request"
    and "exec_Execute (exec_F env) org u c slug given w = (r, w')"
  shows "refused env org u c slug given w r \<and> (\<exists>cn. w' = w\<lparr>xw_conn := cn\<rparr>)"
  by (rule Execute_refused [OF assms])

lemma Execute_refusals_witness:
  "\<exists>r w'. exec_Execute (exec_F demo_env) ''org_1'' ''user_1'' ''conn_1'' ''get_contact'' [] demo_world = (r, w')
      \<and> refused demo_env ''org_1'' ''user_1'' ''conn_1'' ''get_contact'' [] demo_world r \<and> xw_calls w' = []"
proof -
  obtain r w' where run: "exec_Execute (exec_F demo_env) ''org_1'' ''user_1'' ''conn_1'' ''get_contact'' [] demo_world = (r, w')"
    by fastforce
  have "mergeWithSchemaDefaults [] (PT_InputSchema demo_tool) = []"
    by (simp add: mergeWithSchemaDefaults_def demo_tool_def)
  moreover have "buildToolCallURL (PD_BaseURL demo_definition) (PT_Path demo_tool) [] [] \<noteq> Inr url" for url
  proof -
    have "isl (buildToolCallURL (PD_BaseURL demo_definition) (PT_Path demo_tool) [] [])" by code_simp
    then show ?thesis by auto
  qed
  ultimately have "\<nexists>request. execution_request demo_env ''org_1'' ''user_1'' ''conn_1'' ''get_contact'' [] demo_world request"
    by (auto simp: execution_request_def renders_request_def demo_sel demo_built)
  from Execute_refusals [OF this run] run show ?thesis by (auto simp: demo_world_def)
qed

end
