(* ===== verification/GoJSONRound.thy ===== *)
theory GoJSONRound
  imports GoAny
begin

text \<open>
  \<open>json.Unmarshal\<close> reads back what \<open>json.Marshal\<close> wrote: \<open>json_parse (marshal v) = Some v\<close> for every
  value whose numbers are JSON literals, the strings any bytes.
\<close>

section \<open>Strings\<close>

lemma hex_value_digit: "d < 16 \<Longrightarrow> hex_value (hex_digit d) = Some d"
proof -
  have "\<forall>d \<in> set [0 ..< 16]. hex_value (hex_digit d) = Some d" by code_simp
  then show "d < 16 \<Longrightarrow> hex_value (hex_digit d) = Some d" by simp
qed

lemma hex4_u00:
  assumes "(of_char c :: nat) < 128"
  shows "unicode_escape (CHR ''0'' # CHR ''0'' # hex_digit (of_char c div 16) # hex_digit (of_char c mod 16) # t)
    = Some ([c], t)"
proof -
  have d: "(of_char c :: nat) div 16 < 16" using assms by (simp add: div_less_iff_less_mult)
  have z: "hex_value (CHR ''0'') = Some 0" by (simp add: hex_value_def json_digit_def)
  have "16 * (of_char c div 16) + of_char c mod 16 = (of_char c :: nat)" by simp
  then have "hex4 (CHR ''0'' # CHR ''0'' # hex_digit (of_char c div 16) # hex_digit (of_char c mod 16) # t)
      = Some (of_char c, t)"
    by (simp add: hex4_def z hex_value_digit [OF d] hex_value_digit)
  then show ?thesis using assms by (simp add: unicode_escape_def utf8_encode_def)
qed

lemma small_escaped:
  assumes "(of_char c :: nat) < 32 \<or> c \<in> set ''<>&''"
  shows "(of_char c :: nat) < 128"
  using assms by (auto simp: of_char_def horner_sum_simps)

lemma parse_escape_char:
  "parse_string (escape_char c @ t) = map_option (\<lambda>(y, r). (c # y, r)) (parse_string t)"
proof (cases "((of_char c :: nat) < 32 \<or> c \<in> set ''<>&'') \<and> c \<notin> {CHR 0x22, CHR 0x5C, CHR 0x08, CHR 0x0C, CHR 0x0A, CHR 0x0D, CHR 0x09}")
  case True
  then have "escape_char c = u00 c" by (auto simp: escape_char_def)
  moreover have "parse_string (u00 c @ t) = map_option (\<lambda>(y, r). (c # y, r)) (parse_string t)"
    using True by (simp add: u00_def hex4_u00 [OF small_escaped])
  ultimately show ?thesis by simp
next
  case False
  then show ?thesis by (auto simp: escape_char_def simple_escape_def)
qed

lemma separator_chars: "char_of (226::nat) = CHR 0xE2" "char_of (128::nat) = CHR 0x80" "char_of (168::nat) = CHR 0xA8"
  "char_of (169::nat) = CHR 0xA9"
  by code_simp+

lemma parse_line_separator:
  "c = CHR 0xA8 \<or> c = CHR 0xA9 \<Longrightarrow>
   parse_string (CHR 0x5C # ''u202'' @ [hex_digit (of_char c - 160)] @ t)
     = map_option (\<lambda>(y, r). (CHR 0xE2 # CHR 0x80 # c # y, r)) (parse_string t)"
  by (elim disjE)
    (simp_all add: unicode_escape_def hex4_def hex_value_def json_digit_def hex_digit_def utf8_encode_def separator_chars)

lemma parse_escape_string: "parse_string (escape_string s @ CHR 0x22 # r) = Some (s, r)"
proof (induction s rule: escape_string.induct)
  case (1 a b c s)
  show ?case
  proof (cases "a = CHR 0xE2 \<and> b = CHR 0x80 \<and> (c = CHR 0xA8 \<or> c = CHR 0xA9)")
    case True
    then have "c = CHR 0xA8 \<or> c = CHR 0xA9" by simp
    from parse_line_separator [OF this, of "escape_string s @ CHR 0x22 # r"] 1(1) [OF True] True
    show ?thesis by simp
  next
    case False
    then have "escape_string (a # b # c # s) = escape_char a @ escape_string (b # c # s)"
      by (subst escape_string.simps(1)) (rule if_not_P)
    then show ?thesis using 1(2) [OF False] by (simp only: append_assoc parse_escape_char) simp
  qed
qed (simp_all add: parse_escape_char)

section \<open>Numbers\<close>

definition number_literal :: "string \<Rightarrow> bool" where
  "number_literal n \<longleftrightarrow> parse_number n = Some (n, [])"

definition ends_number :: "string \<Rightarrow> bool" where
  "ends_number r \<longleftrightarrow> r = [] \<or> hd r \<in> {CHR '','', CHR '']'', CHR ''}''}"

lemma ends_number_digit: "ends_number r \<Longrightarrow> takeWhile json_digit (s @ r) = takeWhile json_digit s
    \<and> dropWhile json_digit (s @ r) = dropWhile json_digit s @ r"
proof (induction s)
  case Nil
  then show ?case by (cases r) (auto simp: ends_number_def json_digit_def)
qed auto

lemma digits1_append: "ends_number r \<Longrightarrow> digits1 s = Some (x, t) \<Longrightarrow> digits1 (s @ r) = Some (x, t @ r)"
  using ends_number_digit [of r s] by (auto simp: digits1_def Let_def split: if_splits)

lemma number_int_append: "ends_number r \<Longrightarrow> number_int s = Some (x, t) \<Longrightarrow> number_int (s @ r) = Some (x, t @ r)"
  using ends_number_digit [of r s] by (auto simp: number_int_def split: list.splits if_splits)

lemma number_frac_append: "ends_number r \<Longrightarrow> number_frac s = Some (x, t) \<Longrightarrow> number_frac (s @ r) = Some (x, t @ r)"
  using digits1_append [of r]
  by (cases s; cases r) (fastforce simp: number_frac_def ends_number_def split: if_splits)+

lemma number_exp_append: "ends_number r \<Longrightarrow> number_exp s = Some (x, t) \<Longrightarrow> number_exp (s @ r) = Some (x, t @ r)"
proof (cases s)
  case Nil
  then show "ends_number r \<Longrightarrow> number_exp s = Some (x, t) \<Longrightarrow> ?thesis"
    by (cases r) (auto simp: number_exp_def ends_number_def)
next
  case (Cons c s')
  assume r: "ends_number r" and e: "number_exp s = Some (x, t)"
  show ?thesis
  proof (cases "c = CHR ''e'' \<or> c = CHR ''E''")
    case True
    then obtain d s'' where s': "s' = d # s''" using e Cons by (cases s') (auto simp: number_exp_def)
    then show ?thesis using digits1_append [OF r, of s''] digits1_append [OF r, of s'] e Cons True
      by (cases "d = CHR ''+'' \<or> d = CHR ''-''") (auto simp: number_exp_def)
  next
    case False
    then show ?thesis using e Cons by (auto simp: number_exp_def)
  qed
qed

lemma parse_number_append:
  assumes r: "ends_number r" and p: "parse_number s = Some (x, t)"
  shows "parse_number (s @ r) = Some (x, t @ r)"
proof -
  obtain c s' where s: "s = c # s'" using p by (cases s) (simp_all add: parse_number_def number_int_def)
  define sg where "sg = (if c = CHR ''-'' then ([c], s') else ([], s))"
  obtain i s2 f s3 e where
    q: "number_int (snd sg) = Some (i, s2)" "number_frac s2 = Some (f, s3)" "number_exp s3 = Some (e, t)"
       "x = fst sg @ i @ f @ e"
    using p s by (auto simp: parse_number_def Let_def sg_def split: option.splits if_splits)
  from number_int_append [OF r q(1)] number_frac_append [OF r q(2)] number_exp_append [OF r q(3)] q(4)
  show ?thesis by (simp add: parse_number_def Let_def s sg_def split: if_splits)
qed

lemma number_literal_parse: "number_literal n \<Longrightarrow> ends_number r \<Longrightarrow> parse_number (n @ r) = Some (n, r)"
  unfolding number_literal_def using parse_number_append [of r n n "[]"] by simp

lemma number_literal_hd:
  assumes "number_literal n"
  obtains c s where "n = c # s" "c = CHR ''-'' \<or> json_digit c"
proof -
  from assms obtain c s where "n = c # s"
    by (cases n) (simp_all add: number_literal_def parse_number_def number_int_def)
  moreover from this assms have "c = CHR ''-'' \<or> json_digit c"
    by (auto simp: number_literal_def parse_number_def number_int_def json_digit_def split: if_splits)
  ultimately show ?thesis by (rule that)
qed

section \<open>Values\<close>

fun json_wf :: "json \<Rightarrow> bool" where
  "json_wf (JNum n) \<longleftrightarrow> number_literal n"
| "json_wf (JArr xs) \<longleftrightarrow> (\<forall>x \<in> set xs. json_wf x)"
| "json_wf (JObj kvs) \<longleftrightarrow> (\<forall>kv \<in> set kvs. json_wf (snd kv))"
| "json_wf v \<longleftrightarrow> True"

fun json_fuel :: "json \<Rightarrow> nat" where
  "json_fuel (JArr xs) = Suc (sum_list (map (\<lambda>x. Suc (json_fuel x)) xs))"
| "json_fuel (JObj kvs) = Suc (sum_list (map (\<lambda>kv. Suc (json_fuel (snd kv))) kvs))"
| "json_fuel v = 1"

lemma digit_no_mark: "json_digit c \<Longrightarrow> \<not> json_space c \<and> c \<notin> {CHR '']'', CHR ''}'', CHR '',''}"
  by (auto simp: json_digit_def json_space_def)

lemma marshal_hd:
  assumes "json_wf v"
  obtains c s where "marshal v = c # s" and "\<not> json_space c" and "c \<notin> {CHR '']'', CHR ''}'', CHR '',''}"
proof (cases v)
  case (JNum n)
  with assms obtain c s where "n = c # s" "c = CHR ''-'' \<or> json_digit c" using number_literal_hd by auto
  with JNum that [of c s] digit_no_mark [of c] show thesis by (auto simp: json_space_def)
next
  case (JBool b)
  then show thesis using that by (cases b) (auto simp: json_space_def)
qed (use that in \<open>auto simp: marshal_string_def json_space_def\<close>)

lemma skip_space_marshal: "json_wf v \<Longrightarrow> skip_space (marshal v @ r) = marshal v @ r"
  by (metis marshal_hd skip_space_def dropWhile.simps(2) append_Cons)

lemma skip_space_mark: "\<not> json_space c \<Longrightarrow> skip_space (c # s) = c # s"
  by (simp add: skip_space_def)

lemma marks [simp]: "\<not> json_space (CHR '','')" "\<not> json_space (CHR '']'')" "\<not> json_space (CHR ''}'')"
  "\<not> json_space (CHR '':'')" "\<not> json_space (CHR 0x22)" "\<not> json_space (CHR ''['')" "\<not> json_space (CHR ''{'')"
  by (simp_all add: json_space_def)

lemma ends_marks [simp]: "ends_number (CHR '','' # r)" "ends_number (CHR '']'' # r)" "ends_number (CHR ''}'' # r)"
  "ends_number []"
  by (simp_all add: ends_number_def)

lemma parse_num_value:
  assumes "number_literal n" and "ends_number r"
  shows "parse_value (Suc k) (n @ r) = Some (JNum n, r)"
proof -
  obtain c s where n: "n = c # s" and c: "c = CHR ''-'' \<or> json_digit c" using number_literal_hd [OF assms(1)] .
  then have sk: "skip_space (n @ r) = c # s @ r" by (auto simp: skip_space_def json_space_def json_digit_def)
  have "c \<noteq> CHR 0x22 \<and> c \<noteq> CHR ''['' \<and> c \<noteq> CHR ''{'' \<and> c \<noteq> CHR ''t'' \<and> c \<noteq> CHR ''f'' \<and> c \<noteq> CHR ''n''"
    using c by (auto simp: json_digit_def)
  with number_literal_parse [OF assms] sk n show ?thesis by (simp add: numeral_eq_Suc)
qed

lemma closes_marshal: "json_wf v \<Longrightarrow> b \<in> {CHR '']'', CHR ''}''} \<Longrightarrow> closes b (marshal v @ r) = None"
  using marshal_hd [of v] by (fastforce simp: closes_def skip_space_marshal)

lemma Join_Cons: "Join (x # xs) sep = x @ (if xs = [] then [] else sep @ Join xs sep)"
  by (cases xs) simp_all

lemma parse_marshal:
  "json_wf v \<Longrightarrow> ends_number r \<Longrightarrow> json_fuel v \<le> n \<Longrightarrow> parse_value n (marshal v @ r) = Some (v, r)"
  "xs \<noteq> [] \<Longrightarrow> \<forall>x \<in> set xs. json_wf x \<Longrightarrow> sum_list (map (\<lambda>x. Suc (json_fuel x)) xs) \<le> n \<Longrightarrow>
     parse_items n (Join (map marshal xs) '','' @ CHR '']'' # r) = Some (xs, r)"
  "kvs \<noteq> [] \<Longrightarrow> \<forall>kv \<in> set kvs. json_wf (snd kv) \<Longrightarrow> sum_list (map (\<lambda>kv. Suc (json_fuel (snd kv))) kvs) \<le> n \<Longrightarrow>
     parse_members n (Join (map (\<lambda>kv. marshal_string (fst kv) @ '':'' @ marshal (snd kv)) kvs) '','' @ CHR ''}'' # r)
       = Some (kvs, r)"
proof (induction n arbitrary: v r xs kvs)
  case 0
  { case 1 then show ?case by (cases v) auto }
  { case 2 then show ?case by (cases xs) auto }
  { case 3 then show ?case by (cases kvs) auto }
next
  case (Suc n)
  { case 1
    show ?case
    proof (cases v)
      case (JStr s)
      then show ?thesis by (simp add: marshal_string_def skip_space_mark parse_escape_string)
    next
      case (JNum m)
      then show ?thesis using parse_num_value 1 by simp
    next
      case (JArr ys)
      show ?thesis
      proof (cases ys)
        case Nil
        then show ?thesis using JArr by (simp add: skip_space_mark closes_def)
      next
        case (Cons y ys')
        then have "closes (CHR '']'') (Join (map marshal ys) '','' @ CHR '']'' # r) = None"
          using 1 JArr by (simp add: Join_Cons closes_marshal)
        then show ?thesis using Suc.IH(2) [of ys r] 1 JArr Cons by (simp add: skip_space_mark)
      qed
    next
      case (JObj ms)
      show ?thesis
      proof (cases ms)
        case Nil
        then show ?thesis using JObj by (simp add: skip_space_mark closes_def)
      next
        case (Cons m ms')
        then have "closes (CHR ''}'') (Join (map (\<lambda>kv. marshal_string (fst kv) @ '':'' @ marshal (snd kv)) ms) '','' @ CHR ''}'' # r) = None"
          by (simp add: Join_Cons closes_def marshal_string_def skip_space_mark)
        then show ?thesis using Suc.IH(3) [of ms r] 1 JObj Cons by (simp add: skip_space_mark)
      qed
    qed (simp_all add: skip_space_def json_space_def numeral_eq_Suc) }
  { case 2
    then obtain y ys where xs: "xs = y # ys" by (cases xs) auto
    let ?t = "if ys = [] then CHR '']'' # r else CHR '','' # Join (map marshal ys) '','' @ CHR '']'' # r"
    have "parse_value n (marshal y @ ?t) = Some (y, ?t)" using 2 xs by (intro Suc.IH(1)) auto
    moreover have "ys \<noteq> [] \<Longrightarrow> parse_items n (Join (map marshal ys) '','' @ CHR '']'' # r) = Some (ys, r)"
      using 2 xs by (intro Suc.IH(2)) auto
    ultimately show ?case by (cases "ys = []") (simp_all add: xs Join_Cons skip_space_mark) }
  { case 3
    then obtain k w ms where kvs: "kvs = (k, w) # ms" by (cases kvs) auto
    let ?j = "Join (map (\<lambda>kv. marshal_string (fst kv) @ '':'' @ marshal (snd kv)) ms) '','' @ CHR ''}'' # r"
    let ?t = "if ms = [] then CHR ''}'' # r else CHR '','' # ?j"
    have "parse_value n (marshal w @ ?t) = Some (w, ?t)" using 3 kvs by (intro Suc.IH(1)) auto
    moreover have "ms \<noteq> [] \<Longrightarrow> parse_members n ?j = Some (ms, r)"
      using 3 kvs by (intro Suc.IH(3)) auto
    ultimately show ?case
      by (cases "ms = []") (simp_all add: kvs Join_Cons skip_space_mark marshal_string_def parse_escape_string) }
qed

theorem json_parse_marshal:
  assumes "json_wf v"
  shows "json_parse (marshal v) = Some v"
proof -
  define n where "n = json_fuel v + 2 * length (marshal v) + 1"
  have "parse_value n (marshal v) = Some (v, [])"
    using parse_marshal(1) [OF assms, of "[]" n] by (simp add: n_def)
  then show ?thesis using json_parse_fuel [of "marshal v" n] by (simp add: skip_space_def n_def)
qed


lemma json_digits_of_nat: "\<forall>c \<in> set (digits_of_nat n). json_digit c"
proof (induction n rule: digits_of_nat.induct)
  case (1 n)
  have "\<forall>d \<in> set [0 ..< 10]. json_digit (digit_char d)" by code_simp
  then have "d < 10 \<Longrightarrow> json_digit (digit_char d)" for d by simp
  then show ?case using 1 by (subst digits_of_nat.simps) simp
qed

lemma digits_of_nat_hd: "0 < n \<Longrightarrow> \<exists>c s. digits_of_nat n = c # s \<and> c \<noteq> CHR ''0''"
proof (induction n rule: digits_of_nat.induct)
  case (1 n)
  show ?case
  proof (cases "n < 10")
    case True
    have "\<forall>d \<in> set [1 ..< 10]. digit_char d \<noteq> CHR ''0''" by code_simp
    then show ?thesis using True 1 by (subst digits_of_nat.simps) simp
  next
    case False
    then show ?thesis using 1 by (subst digits_of_nat.simps) (auto simp: div_greater_zero_iff)
  qed
qed

lemma takeWhile_all: "\<forall>c \<in> set s. P c \<Longrightarrow> takeWhile P s = s \<and> dropWhile P s = []"
  by simp

lemma number_literal_itoa: "number_literal (itoa i)"
proof -
  have nat: "number_int (digits_of_nat n) = Some (digits_of_nat n, [])" for n
  proof (cases "n = 0")
    case True
    then show ?thesis by (simp add: digits_of_nat.simps number_int_def digit_char_table)
  next
    case False
    then obtain c s where "digits_of_nat n = c # s" "c \<noteq> CHR ''0''" using digits_of_nat_hd by blast
    then show ?thesis using json_digits_of_nat [of n] takeWhile_all [of "digits_of_nat n" json_digit]
      by (simp add: number_int_def)
  qed
  have hd: "digits_of_nat n \<noteq> CHR ''-'' # s" for n s
    using json_digits_of_nat [of n] by (auto simp: json_digit_def)
  show ?thesis
  proof (cases "i < 0")
    case True
    then show ?thesis by (simp add: number_literal_def itoa_def parse_number_def nat number_frac_def number_exp_def)
  next
    case False
    obtain c s where c: "digits_of_nat (nat i) = c # s"
      using nat [of "nat i"] by (cases "digits_of_nat (nat i)") (auto simp: number_int_def)
    with hd have "c \<noteq> CHR ''-''" by auto
    with False nat [of "nat i"] show ?thesis
      by (simp add: number_literal_def itoa_def parse_number_def c number_frac_def number_exp_def)
  qed
qed

end
