(* ===== verification/ExecSafety.thy ===== *)
theory ExecSafety
  imports ExecLife GoJSONRound
begin

text \<open>
  What the log of a tool execution tells, what an uploaded file gives back and to whom, and what a wait
  beyond the range of \<open>int64\<close> does to the retry loop.
\<close>

section \<open>Numbers that fit a double\<close>

lemma ilog_le: "2 \<le> b \<Longrightarrow> 0 < n \<Longrightarrow> 0 \<le> ilog b n \<and> b ^ nat (ilog b n) \<le> n"
proof (induction b n rule: ilog.induct)
  case (1 b n)
  show ?case
  proof (cases "n < b")
    case True
    then show ?thesis using 1(2,3) by (simp add: ilog.simps)
  next
    case False
    have "0 < n div b" using False 1(2) by (simp add: pos_imp_zdiv_pos_iff)
    with 1 False have ih: "0 \<le> ilog b (n div b)" "b ^ nat (ilog b (n div b)) \<le> n div b" by auto
    then have "b ^ nat (ilog b (n div b) + 1) \<le> b * (n div b)" using 1(2) by (simp add: nat_add_distrib)
    also have "\<dots> = n - n mod b" by (simp add: minus_mod_eq_mult_div)
    also have "\<dots> \<le> n" using pos_mod_sign [of b n] 1(2) by simp
    finally show ?thesis using False ih 1(2) by (subst (1 2) ilog.simps) simp
  qed
qed

lemma ilog_1: "ilog 2 1 = 0"
  by (simp add: ilog.simps)

lemma small_double:
  assumes "0 \<le> n" and "n < 2 ^ 64"
  shows "double_of (n, 1) \<noteq> None"
proof (cases "n = 0")
  case False
  define L where "L = floor_log 2 (n, 1)"
  have n: "0 < n" using assms False by simp
  have il: "0 \<le> ilog 2 n" "(2::int) ^ nat (ilog 2 n) \<le> n" using ilog_le [of 2 n] n by auto
  then have "(2::int) ^ nat (ilog 2 n) < 2 ^ 64" using assms by linarith
  then have "nat (ilog 2 n) < 64" by (simp only: power_strict_increasing_iff one_less_numeral_iff semiring_norm)
  then have "ilog 2 n < 64" by simp
  then have L: "L < 64" by (simp add: L_def floor_log_def ilog_1 Let_def)
  define e where "e = max (L - 52) (- 1074)"
  have e: "e < 12" "- 1074 \<le> e" using L by (simp_all add: e_def)
  have rnd: "0 < snd x \<Longrightarrow> 0 \<le> fst x \<Longrightarrow> round_half_even x \<le> fst x + 1" for x
    using zdiv_mono2 [of "fst x" 1 "snd x"] by (auto simp: round_half_even_def Let_def)
  have "\<not> at_least_pow 2 1024 (times_pow (round_half_even (over_pow 2 e (n, 1))) 2 e)"
  proof (cases "0 \<le> e")
    case True
    then have e': "nat e < 12" using e by simp
    have "(2::int) ^ nat e \<le> 2 ^ 12" using e' by (intro power_increasing) simp_all
    moreover have "round_half_even (over_pow 2 e (n, 1)) \<le> n + 1"
      using rnd [of "over_pow 2 e (n, 1)"] True n by (simp add: over_pow_def)
    ultimately have "round_half_even (over_pow 2 e (n, 1)) * 2 ^ nat e \<le> (n + 1) * 2 ^ 12"
      using n by (intro mult_mono) simp_all
    also have "\<dots> < 2 ^ 1024" using assms by simp
    finally show ?thesis using True by (simp add: at_least_pow_def times_pow_def)
  next
    case False
    have "round_half_even (over_pow 2 e (n, 1)) \<le> n * 2 ^ nat (- e) + 1"
      using rnd [of "over_pow 2 e (n, 1)"] False n by (simp add: over_pow_def)
    also have "\<dots> \<le> (n + 1) * 2 ^ nat (- e)" by (simp add: algebra_simps)
    also have "\<dots> < 2 ^ 1024 * 2 ^ nat (- e)" using assms by (intro mult_strict_right_mono) simp_all
    finally show ?thesis using False by (simp add: at_least_pow_def times_pow_def)
  qed
  then show ?thesis using False by (simp add: double_of_def Let_def L_def [symmetric] e_def [symmetric])
qed (simp add: double_of_def)

lemma literal_double_itoa:
  assumes "0 \<le> n" and "n < 2 ^ 64"
  shows "literal_double (itoa n) \<noteq> None"
proof -
  let ?s = "digits_of_nat (nat n)"
  have d: "\<not> is_exp_char c \<and> c \<noteq> CHR ''.'' \<and> c \<noteq> CHR ''-''" if "c \<in> set ?s" for c
    using json_digits_of_nat [of "nat n"] that by (auto simp: json_digit_def is_exp_char_def)
  have m: "takeWhile (\<lambda>c. \<not> is_exp_char c) ?s = ?s" "dropWhile (\<lambda>c. \<not> is_exp_char c) ?s = []"
    "takeWhile (\<lambda>c. c \<noteq> CHR ''.'') ?s = ?s" "dropWhile (\<lambda>c. c \<noteq> CHR ''.'') ?s = []"
    using d by simp_all
  have p: "\<not> HasPrefix ?s ''-''"
    using d by (cases ?s) (auto simp: HasPrefix_def)
  have e: "digits_nat [] = 0" by (simp add: digits_nat_def)
  have "snd (literal_value (itoa n)) = (n, 1)"
    using assms(1) p by (simp add: literal_value_def itoa_def Let_def TrimPrefix_def m e times_pow_def)
      (simp add: HasPrefix_def digits_nat_def digits_value_digits_of_nat)
  with small_double [OF assms] show ?thesis by (simp add: literal_double_def)
qed

section \<open>The access token and the log\<close>

lemma as_map_id:
  assumes "map_wf m"
  shows "as_map m = m"
proof -
  have d: "distinct (map fst (rev m))" using assms by (simp add: map_wf_def rev_map [symmetric])
  then have "set (as_map m) = set m" by (simp add: as_map_def distinct_clearjunk_id)
  moreover have "map_wf (as_map m)" by (rule as_map_wf)
  ultimately show ?thesis
    using assms by (intro map_sorted_distinct_set_unique [of fst]) (auto simp: map_wf_def distinct_map)
qed

lemma those_not_None: "\<forall>x \<in> set xs. x \<noteq> None \<Longrightarrow> those xs \<noteq> None"
  by (induction xs) auto

lemma string_map_decodes:
  "json_wf (any_json (string_map_any m))" "decode_any (any_json (string_map_any m)) \<noteq> None"
  using those_not_None [of "map (\<lambda>kv. Some (AStr (snd kv))) m"]
  by (auto simp: string_map_any_def comp_def)

lemma file_entries_decode:
  assumes "\<forall>f \<in> set files. 0 \<le> TCF_Size f \<and> TCF_Size f < 2 ^ 64"
  shows "json_wf (any_json (fileLogEntries files))" "decode_any (any_json (fileLogEntries files)) \<noteq> None"
proof -
  show "json_wf (any_json (fileLogEntries files))"
    by (auto simp: fileLogEntries_def number_literal_itoa)
  have "decode_any (any_json (AMap [(''fieldName'', AStr a), (''id'', AStr b), (''size'', AInt (TCF_Size f))])) \<noteq> None"
    if "f \<in> set files" for f a b
    using literal_double_itoa [of "TCF_Size f"] assms that by simp
  then have "those (map (\<lambda>f. decode_any (any_json (AMap [(''fieldName'', AStr (TCF_FieldName f)), (''id'', AStr (TCF_FileID f)),
      (''size'', AInt (TCF_Size f))]))) files) \<noteq> None"
    by (intro those_not_None) (auto simp del: any_json.simps decode_any.simps)
  then show "decode_any (any_json (fileLogEntries files)) \<noteq> None"
    by (simp add: fileLogEntries_def comp_def del: any_json.simps(7))
qed

definition log_document :: "ToolCallRequest \<Rightarrow> any \<Rightarrow> any \<Rightarrow> string \<Rightarrow> any" where
  "log_document request files query header =
     AMap [(''body'', AStr (TCR_Body request)), (''files'', files), (''headers'', AMap [(''Authorization'', AStr header)]),
       (''method'', AStr (TCR_Method request)), (''query'', query), (''url'', AStr (TCR_URL request))]"

lemma Unmarshal_log_body:
  assumes "\<forall>f \<in> set (TCR_Files request). 0 \<le> TCF_Size f \<and> TCF_Size f < 2 ^ 64"
  shows "\<exists>fs q. \<forall>t. Unmarshal_any (toolCallRequestLogBody (request\<lparr>TCR_AccessToken := t\<rparr>))
      = Some (log_document request fs q (''Bearer '' @ t))"
proof -
  obtain fs where fs: "decode_any (any_json (fileLogEntries (TCR_Files request))) = Some fs"
    using file_entries_decode(2) [OF assms] by auto
  obtain q where q: "decode_any (any_json (string_map_any (TCR_Query request))) = Some q"
    using string_map_decodes(2) [of "TCR_Query request"] by auto
  have srt: "sorted [''body'', ''files'', ''headers'', ''method'', ''query'', ''url'']"
    "distinct [''body'', ''files'', ''headers'', ''method'', ''query'', ''url'']" by code_simp+
  have m: "as_map [(''body'', b), (''files'', f), (''headers'', h), (''method'', mt), (''query'', qq), (''url'', u)]
      = [(''body'', b), (''files'', f), (''headers'', h), (''method'', mt), (''query'', qq), (''url'', u :: any)]" for b f h mt qq u
    using srt by (intro as_map_id) (simp add: map_wf_def)
  have "as_map [(''Authorization'', x)] = [(''Authorization'', x :: any)]" for x
    by (intro as_map_id) (simp add: map_wf_def)
  then have "Unmarshal_any (toolCallRequestLogBody (request\<lparr>TCR_AccessToken := t\<rparr>)) = Some (log_document request fs q (''Bearer '' @ t))" for t
    using string_map_decodes(1) [of "TCR_Query request"] file_entries_decode(1) [OF assms] fs q m
    by (simp add: Unmarshal_any_def toolCallRequestLogBody_def marshal_any_def json_parse_marshal log_document_def del: marshal.simps)
  then show ?thesis by blast
qed

text \<open>What the log keeps of an attempt: its entry, recorded by the adapter into the in-memory log.\<close>

definition log_after :: "ExecLogEntry \<Rightarrow> ToolCallRequest \<Rightarrow> log_world \<Rightarrow> log_world" where
  "log_after e request lw =
     snd (executionLogRecorder log_memory_facade (e\<lparr>XL_RequestBody := toolCallRequestLogBody request\<rparr>) lw)"

lemma redacted_log_document:
  "redactValue (log_document request fs q h) rc
     = log_document request (redactValue fs rc) (redactValue q rc) RedactedPlaceholder"
proof -
  have "ToLower_key ''Authorization'' = ''authorization''" by code_simp
  then have "isSensitiveKey ''Authorization'' rc" by (simp add: isSensitiveKey_def sensitiveKeys_def)
  moreover have "list_all (\<lambda>k. ToLower_key k \<notin> set sensitiveKeys \<and> ToLower_key k \<noteq> ''code'')
      [''body'', ''files'', ''headers'', ''method'', ''query'', ''url'']" by code_simp
  ultimately show ?thesis by (simp add: log_document_def isSensitiveKey_def)
qed

text \<open>
  The access token with which a tool call is made leaves no trace in the log through the request: two
  executions that differ only in the token leave the same log, and the one entry that is added has the
  placeholder under \<open>headers.Authorization\<close> of its request body. (The sizes of the files must be those of an
  \<open>int64\<close> that is not negative.)
\<close>
theorem log_hides_access_token:
  assumes "\<forall>f \<in> set (TCR_Files request). 0 \<le> TCF_Size f \<and> TCF_Size f < 2 ^ 63"
  shows "\<exists>fs q. \<forall>t. \<exists>entry.
      lw_entries (log_after e (request\<lparr>TCR_AccessToken := t\<rparr>) lw) = lw_entries lw @ [entry]
      \<and> EL_RequestBody entry = marshal_any (log_document request fs q RedactedPlaceholder)
      \<and> (\<forall>t'. log_after e (request\<lparr>TCR_AccessToken := t'\<rparr>) lw = log_after e (request\<lparr>TCR_AccessToken := t\<rparr>) lw)"
proof -
  have "\<forall>f \<in> set (TCR_Files request). 0 \<le> TCF_Size f \<and> TCF_Size f < 2 ^ 64" using assms by fastforce
  from Unmarshal_log_body [OF this] obtain fs q where u:
    "\<And>t. Unmarshal_any (toolCallRequestLogBody (request\<lparr>TCR_AccessToken := t\<rparr>)) = Some (log_document request fs q (''Bearer '' @ t))"
    by blast
  have "toolCallRequestLogBody r \<noteq> []" for r by (simp add: toolCallRequestLogBody_def marshal_any_def)
  then have r: "Redact kind (toolCallRequestLogBody (request\<lparr>TCR_AccessToken := t\<rparr>))
      = marshal_any (log_document request (redactValue fs (kind \<in> set codeRedactedKinds))
          (redactValue q (kind \<in> set codeRedactedKinds)) RedactedPlaceholder)" for t kind
    by (simp add: Redact_def u redacted_log_document)
  show ?thesis
    by (intro exI [of _ "redactValue fs (KindToolExecution \<in> set codeRedactedKinds)"]
        exI [of _ "redactValue q (KindToolExecution \<in> set codeRedactedKinds)"] allI)
      (simp add: log_after_def executionLogRecorder_def log_Record_run newEventLog_def r)
qed

lemma log_hides_access_token_witness:
  "log_after (attempt_entry ''org_1'' ''user_1'' ''conn_1'' (attributionFor demo_tool) demo_request (Inr no_response) 0)
     demo_request log_demo
   = log_after (attempt_entry ''org_1'' ''user_1'' ''conn_1'' (attributionFor demo_tool) demo_request (Inr no_response) 0)
     (demo_request\<lparr>TCR_AccessToken := ''new''\<rparr>) log_demo"
proof -
  have "\<forall>f \<in> set (TCR_Files demo_request). 0 \<le> TCF_Size f \<and> TCF_Size f < 2 ^ 63" by (simp add: demo_request_def)
  note th = log_hides_access_token [OF this]
  have "demo_request = demo_request\<lparr>TCR_AccessToken := ''old''\<rparr>" by (simp add: demo_request_def)
  then show ?thesis using th by metis
qed

section \<open>Files\<close>

text \<open>Keys of files and of stored contents come from the id minter.\<close>

definition files_inv :: "'c exec_world \<Rightarrow> bool" where
  "files_inv w \<longleftrightarrow>
     (\<forall>i. map_of (xw_files w) i \<noteq> None \<longrightarrow> minted ''file_'' (xw_minted w) i)
     \<and> (\<forall>i. map_of (xw_store w) i \<noteq> None \<longrightarrow> minted ''file_'' (xw_minted w) i)
     \<and> (\<forall>i m. map_of (xw_files w) i = Some m \<longrightarrow> FM_StorageKey m = i)"

lemma DownloadFile_run:
  "exec_DownloadFile (exec_F env) org i w =
     (case map_of (xw_files w) i of
        None \<Rightarrow> Inl ErrFileNotFound
      | Some m \<Rightarrow>
          if FM_OrgID m \<noteq> org then Inl ErrFileNotFound
          else (case map_of (xw_store w) (FM_StorageKey m) of
                  None \<Rightarrow> Inl (OtherError ''storage key not found'')
                | Some content \<Rightarrow> Inr (m, content)), w)"
  by (simp add: exec_DownloadFile_def act_simps files_mem_FindByID_def store_mem_Open_def split: option.split)

lemma UploadFile_run:
  fixes w :: "'c exec_world"
  defines "i \<equiv> sequential_id ''file_'' (xw_minted w)"
  shows "exec_UploadFile (exec_F env) org name mime content w =
    (if int (length (take (nat (xe_maxFileBytes env + 1)) content)) > xe_maxFileBytes env
     then (Inl (exec_ErrValidation ''file'' (''exceeds the maximum allowed size of '' @ itoa (xe_maxFileBytes env) @ '' bytes'')),
           w\<lparr>xw_minted := Suc (xw_minted w),
             xw_store := del i (put i (take (nat (xe_maxFileBytes env + 1)) content) (xw_store w))\<rparr>)
     else (let limited = take (nat (xe_maxFileBytes env + 1)) content;
               m = \<lparr>FM_ID = i, FM_OrgID = org, FM_Name = name, FM_MimeType = mime, FM_Size = int (length limited),
                    FM_StorageKey = i, FM_CreatedAt = xw_now w\<rparr>
           in (Inr \<lparr>UF_ID = i, UF_Name = name, UF_MimeType = mime, UF_Size = int (length limited)\<rparr>,
               w\<lparr>xw_minted := Suc (xw_minted w), xw_store := put i limited (xw_store w), xw_files := put i m (xw_files w)\<rparr>)))"
  by (simp add: exec_UploadFile_def act_simps i_def Let_def store_mem_Save_def store_mem_Delete_def files_mem_Save_def)

text \<open>
  What is uploaded can be downloaded: by the organization that uploaded it, unchanged, with its name,
  type and true size, and by no other; a file above \<open>maxFileBytes\<close> is refused with a validation error and
  leaves nothing behind; and no upload changes what another id gives anyone.
\<close>
theorem Upload_then_Download:
  assumes "files_inv w" and "0 \<le> xe_maxFileBytes env"
    and run: "exec_UploadFile (exec_F env) org name mime content w = (r, w')"
  defines "download \<equiv> \<lambda>w org i. fst (exec_DownloadFile (exec_F env) org i w)"
  shows "files_inv w' \<and>
    (if int (length content) \<le> xe_maxFileBytes env
     then (\<exists>file m. r = Inr file \<and> download w' org (UF_ID file) = Inr (m, content)
             \<and> FM_OrgID m = org \<and> FM_Name m = name \<and> FM_MimeType m = mime \<and> FM_Size m = int (length content)
             \<and> UF_Size file = int (length content)
             \<and> (\<forall>org'. org' \<noteq> org \<longrightarrow> download w' org' (UF_ID file) = Inl ErrFileNotFound)
             \<and> (\<forall>org'. download w org' (UF_ID file) = Inl ErrFileNotFound)
             \<and> (\<forall>org' i. i \<noteq> UF_ID file \<longrightarrow> download w' org' i = download w org' i))
     else (\<exists>e. r = Inl e \<and> error_status e = 422) \<and> (\<forall>org' i. download w' org' i = download w org' i)
          \<and> xw_files w' = xw_files w \<and> map_of (xw_store w') = map_of (xw_store w))"
proof -
  let ?i = "sequential_id ''file_'' (xw_minted w)"
  have fresh: "map_of (xw_files w) ?i = None" "map_of (xw_store w) ?i = None"
    using assms(1) not_minted by (auto simp: files_inv_def)
  show ?thesis
  proof (cases "int (length content) \<le> xe_maxFileBytes env")
    case True
    then have t: "take (nat (xe_maxFileBytes env + 1)) content = content" by simp
    have k: "map_of (xw_files w) i = Some m \<Longrightarrow> FM_StorageKey m \<noteq> ?i" for i m
      using assms(1) fresh by (auto simp: files_inv_def)
    let ?m = "\<lparr>FM_ID = ?i, FM_OrgID = org, FM_Name = name, FM_MimeType = mime, FM_Size = int (length content),
                    FM_StorageKey = ?i, FM_CreatedAt = xw_now w\<rparr>"
    have r: "r = Inr \<lparr>UF_ID = ?i, UF_Name = name, UF_MimeType = mime, UF_Size = int (length content)\<rparr>"
      "w' = w\<lparr>xw_minted := Suc (xw_minted w), xw_store := put ?i content (xw_store w), xw_files := put ?i ?m (xw_files w)\<rparr>"
      using run True unfolding UploadFile_run t by (simp_all add: Let_def)
    have inv: "files_inv w'"
      using assms(1) by (auto simp: r(2) files_inv_def minted_Suc minted_next)
    have other: "download w' org' i = download w org' i" if "i \<noteq> ?i" for org' i
    proof (cases "map_of (xw_files w) i")
      case (Some m)
      with k [OF Some] that show ?thesis by (simp add: download_def DownloadFile_run r(2))
    qed (use that in \<open>simp add: download_def DownloadFile_run r(2)\<close>)
    have new: "download w' org ?i = Inr (?m, content)" "org' \<noteq> org \<Longrightarrow> download w' org' ?i = Inl ErrFileNotFound"
      "download w org' ?i = Inl ErrFileNotFound" for org'
      using fresh(1) by (simp_all add: download_def DownloadFile_run r(2))
    show ?thesis using inv True other new r(1) by simp
  next
    case False
    then have r: "r = Inl (exec_ErrValidation ''file'' (''exceeds the maximum allowed size of '' @ itoa (xe_maxFileBytes env) @ '' bytes''))"
      "w' = w\<lparr>xw_minted := Suc (xw_minted w),
             xw_store := del ?i (put ?i (take (nat (xe_maxFileBytes env + 1)) content) (xw_store w))\<rparr>"
      using run assms(2) unfolding UploadFile_run by simp_all
    have st: "map_of (xw_store w') = map_of (xw_store w)" using r(2) fresh(2) by auto
    have fl: "xw_files w' = xw_files w" "xw_minted w' = Suc (xw_minted w)" using r(2) by simp_all
    have "download w' org' i = download w org' i" for org' i by (simp add: download_def DownloadFile_run st fl cong: if_cong option.case_cong)
    moreover have "files_inv w'" using assms(1) by (simp add: files_inv_def st fl minted_Suc)
    ultimately show ?thesis using False st fl by (simp add: r(1) exec_ErrValidation_def)
  qed
qed

lemma Upload_then_Download_witness:
  "\<exists>file m w'. exec_UploadFile (exec_F demo_env) ''org_1'' ''a.txt'' ''text/plain'' ''hello'' demo_world = (Inr file, w')
     \<and> fst (exec_DownloadFile (exec_F demo_env) ''org_1'' (UF_ID file) w') = Inr (m, ''hello'')
     \<and> fst (exec_DownloadFile (exec_F demo_env) ''org_2'' (UF_ID file) w') = Inl ErrFileNotFound"
proof -
  obtain r w' where run: "exec_UploadFile (exec_F demo_env) ''org_1'' ''a.txt'' ''text/plain'' ''hello'' demo_world = (r, w')"
    by fastforce
  have "files_inv demo_world" "0 \<le> xe_maxFileBytes demo_env" "int (length ''hello'') \<le> xe_maxFileBytes demo_env"
    by (simp_all add: files_inv_def demo_world_def demo_env_def)
  from Upload_then_Download [OF this(1,2) run] this(3) run show ?thesis by auto
qed

section \<open>A wait beyond the range of int64\<close>

text \<open>
  The budget is compared with a sum that wraps: after a first wait of one second, a provider that asks for
  9223372036 seconds (292 years) is granted them.
\<close>

lemma retry_budget_wraps:
  "wrap64 (1 * second + 9223372036 * second) \<le> retryBudget" "9223372036 * second < 2 ^ 63"
  by (simp_all add: wrap64_def retryBudget_def duration_defs)

end
