(* ===== verification/ConnSafety.thy ===== *)
theory ConnSafety
  imports ConnLife ExecSafety
begin

text \<open>
  What the connections module promises: the life cycles its operations refine, an OAuth state that serves
  once, tokens that come back to their owner and to nobody else, secrets that never reach the log.
\<close>

section \<open>Sample environment\<close>

definition conn_demo_integration :: Integration where
  "conn_demo_integration = \<lparr>IG_ID = ''intg_1'', IG_ProviderSlug = ''crm'', IG_ClientID = ''client'',
     IG_ClientSecret = ''hush'', IG_ClientSecretEncrypted = False, IG_CreatedAt = 0\<rparr>"

definition conn_demo_org :: Organization where
  "conn_demo_org = \<lparr>Org_ID = ''org_1'', Org_Name = ''Acme'', Org_AllowedRedirectURIs = [''https://app.example''], Org_CreatedAt = 0\<rparr>"

definition conn_demo :: conn_env where
  "conn_demo =
     \<lparr>ce_org = (\<lambda>org. Inr conn_demo_org), ce_user = (\<lambda>org u. Inr \<lparr>User_ID = u, User_OrgID = org, User_Name = [], User_ExternalID = [], User_CreatedAt = 0\<rparr>),
      ce_integration = (\<lambda>i. Inr conn_demo_integration), ce_visible = (\<lambda>org i. Inr conn_demo_integration),
      ce_definition = (\<lambda>slug. Inr demo_definition), ce_crypto = sample_crypto, ce_nonce = (\<lambda>n. ''nonce''),
      ce_exchange = (\<lambda>n q. Inr \<lparr>TX_AccessToken = ''at'' @ TXR_Code q, TX_RefreshToken = ''rt'', TX_ExpiresIn = 60\<rparr>),
      ce_account = (\<lambda>n q. Inr \<lparr>AI_Email = [], AI_DisplayName = []\<rparr>),
      ce_grant = (\<lambda>n q. Inr \<lparr>TX_AccessToken = ''fresh'', TX_RefreshToken = [], TX_ExpiresIn = 3600\<rparr>),
      ce_probe = (\<lambda>n u t. Inr ()), ce_jitter = (\<lambda>n. 0), ce_cancelled = (\<lambda>n. False), ce_baseURL = ''https://b.example''\<rparr>"

definition conn_demo_row :: Connection where
  "conn_demo_row = NewConnection (sequential_id ''conn_'' 0) ''org_1'' ''user_1'' ''intg_1'' ''crm'' ''https://app.example/done''
     (sequential_id ''connect_token_'' 0) 0"

definition conn_demo_state :: OAuthState where
  "conn_demo_state = \<lparr>OS_State = sequential_id ''state_'' 0, OS_ConnectionID = Conn_ID conn_demo_row, OS_ExpiresAt = 600 * second,
     OS_ConsumedAt = None\<rparr>"

text \<open>A connection was initiated and its connect page opened.\<close>

definition conn_demo_world :: conn_world where
  "conn_demo_world = (conn_start 0)\<lparr>cw_store := conn_NewRepository\<lparr>cs_byID := [(Conn_ID conn_demo_row, conn_demo_row)],
     cs_states := [(OS_State conn_demo_state, conn_demo_state)]\<rparr>, cw_ids := 1, cw_tokens := 1, cw_states := 1\<rparr>"

lemma conn_demo_inv: "conn_inv conn_demo_world"
  by (auto simp: conn_inv_def conn_demo_world_def conn_start_def conn_NewRepository_def keyed_def conn_demo_row_def
      NewConnection_def conn_demo_state_def minted_def)

section \<open>The life cycle\<close>

text \<open>
  C22: Refinement. Whatever the facade's operations are called with and in whatever order, the background
  passes included, and whatever the providers answer: every connection follows the abstract life cycle
  (born initiated, activated by a callback, disabled, expired by a refusal or a failed reconciliation and
  only while active, offered a fresh link only once it left initiated, deleted for good, never changing its
  owner), and the outbox has received exactly the expiry events of those life cycles, in order.
\<close>

theorem connections_refine_lifecycle:
  assumes "(conn_step env)\<^sup>*\<^sup>* (conn_start t) w"
  shows "life_run i Unborn (filter (about i) (cw_events w)) (phase_of w i)"
  using conn_steps_evolve [OF assms] conn_start_inv [of t] by (simp add: evolves_def)

lemma demo_redirect: "AllowsRedirectURI conn_demo_org ''https://app.example''"
  unfolding AllowsRedirectURI_def conn_demo_org_def by code_simp

lemma connections_refine_lifecycle_witness:
  "\<exists>w. (conn_step conn_demo)\<^sup>*\<^sup>* (conn_start 0) w
     \<and> life_run (sequential_id ''conn_'' 0) Unborn (filter (about (sequential_id ''conn_'' 0)) (cw_events w))
         (Live \<lparr>lc_owner = (''org_1'', ''user_1'', ''intg_1'', ''crm'', 0), lc_status = StatusInitiated, lc_link_used = False\<rparr>)"
proof -
  let ?w = "snd (conn_Initiate (conn_F conn_demo) ''org_1'' ''user_1'' ''intg_1'' ''https://app.example'' (conn_start 0))"
  have s: "(conn_step conn_demo)\<^sup>*\<^sup>* (conn_start 0) ?w" by (rule r_into_rtranclp, rule conn_step.initiated)
  have "phase_of ?w (sequential_id ''conn_'' 0)
      = Live \<lparr>lc_owner = (''org_1'', ''user_1'', ''intg_1'', ''crm'', 0), lc_status = StatusInitiated, lc_link_used = False\<rparr>"
    using demo_redirect by (simp add: phase_of_def lifecycle_of_def conn_Initiate_def run_simps Let_def conn_demo_def conn_start_def
        conn_mem_Save_def NewConnection_def conn_NewRepository_def conn_demo_integration_def)
  with connections_refine_lifecycle [OF s, of "sequential_id ''conn_'' 0"] s show ?thesis by metis
qed

section \<open>The OAuth state\<close>

lemma HandleCallback_states:
  assumes "consumeState (conn_F env) s w = (Inr c, w1)" and "HandleCallback (conn_F env) code s perr w = (r, w')"
  shows "state_of w' = state_of w1"
proof (cases "perr = []")
  case True
  obtain x w2 where x: "exchangeAndActivate (conn_F env) c code w1 = (x, w2)" by fastforce
  have "conn_frame w2 = conn_frame w1" by (rule keeps_result [OF exchangeAndActivate_frame x])
  then show ?thesis using assms True x
    by (cases x) (auto simp: HandleCallback_def run_simps conn_frame_def conn_mem_Update_def)
qed (use assms in \<open>simp add: HandleCallback_def run_simps\<close>)

text \<open>
  C24: An OAuth state is good for one callback. Once a callback got past the check of its state, whether it
  then succeeded, was denied by the user or failed, and whatever happened since, every further callback with
  the state is refused as already used and changes nothing.
\<close>

theorem oauth_state_single_use:
  assumes "conn_inv w0" and first: "HandleCallback (conn_F env) code s perr w0 = (r, w1)"
    and "r \<notin> {Inl ErrStateMissing, Inl ErrStateUnknown, Inl ErrStateExpired}" and later: "(conn_step env)\<^sup>*\<^sup>* w1 w2"
  shows "HandleCallback (conn_F env) code' s perr' w2 = (Inl ErrStateAlreadyUsed, w2)"
proof -
  obtain x v where c: "consumeState (conn_F env) s w0 = (x, v)" by fastforce
  have e: "evolves w0 w1" using HandleCallback_evolves [of w0 env code s perr] first by simp
  have "s \<noteq> []" using first assms(3) by (auto simp: HandleCallback_def run_simps consumeState_def)
  have "\<exists>st. state_of w1 s = Some st \<and> OS_IsConsumed st"
  proof (cases x)
    case (Inr conn)
    from consumeState_run(3) [OF c Inr] HandleCallback_states [OF c [unfolded Inr] first] show ?thesis by simp
  next
    case (Inl err)
    then show ?thesis using c first assms(3)
      by (auto simp: HandleCallback_def consumeState_def run_simps split: option.splits if_splits)
  qed
  then obtain st where st: "state_of w1 s = Some st" "OS_IsConsumed st" by blast
  have "conn_inv w1" using e assms(1) by (simp add: evolves_def)
  then have "state_of w2 s = Some st" using conn_steps_evolve [OF later] st by (auto simp: evolves_def)
  then show ?thesis using st(2) \<open>s \<noteq> []\<close> by (simp add: HandleCallback_def consumeState_def run_simps)
qed

lemma oauth_state_single_use_witness:
  "\<exists>r w1. HandleCallback (conn_F conn_demo) ''c'' (OS_State conn_demo_state) ''access_denied'' conn_demo_world = (r, w1)
     \<and> HandleCallback (conn_F conn_demo) ''c'' (OS_State conn_demo_state) [] (w1\<lparr>cw_now := 5\<rparr>)
         = (Inl ErrStateAlreadyUsed, w1\<lparr>cw_now := 5\<rparr>)"
proof -
  obtain r w1 where run: "HandleCallback (conn_F conn_demo) ''c'' (OS_State conn_demo_state) ''access_denied'' conn_demo_world = (r, w1)"
    by fastforce
  have "\<exists>url. r = Inr url"
    using run by (auto simp: HandleCallback_def consumeState_def run_simps conn_demo_world_def conn_start_def
        conn_NewRepository_def conn_demo_state_def OS_IsConsumed_def OS_IsExpired_def second_def conn_mem_MarkStateConsumed_def
        sequential_id_def)
  then have "r \<notin> {Inl ErrStateMissing, Inl ErrStateUnknown, Inl ErrStateExpired}" by auto
  moreover have "(conn_step conn_demo)\<^sup>*\<^sup>* w1 (w1\<lparr>cw_now := 5\<rparr>)" by (rule r_into_rtranclp, rule conn_step.ticked)
  ultimately show ?thesis using oauth_state_single_use [OF conn_demo_inv run] run by blast
qed

section \<open>Tokens\<close>

lemma conn_nonce_length: "conn_nonce env n w = (Inr b, w') \<Longrightarrow> length b = n"
  by (auto simp: conn_nonce_def)

lemma sealed_opens:
  "gcm_opens_sealed (ce_crypto env) \<Longrightarrow> vault_Encrypt (ce_crypto env) (conn_nonce env) p w = (Inr ct, w')
     \<Longrightarrow> vault_Decrypt (ce_crypto env) ct = Inr p"
  by (rule vault_roundtrip) (auto dest: conn_nonce_length)

lemma Sealing_frame: "vault_Encrypt (ce_crypto env) (conn_nonce env) p w = (x, w') \<Longrightarrow> cw_exchanges w' = cw_exchanges w"
proof -
  have "keeps cw_exchanges (conn_nonce env n)" for n by (simp add: keeps_def conn_nonce_def)
  then have "keeps cw_exchanges (vault_Encrypt (ce_crypto env) (conn_nonce env) p)"
    unfolding vault_Encrypt_def by (intro keeps_intros)
  then show "vault_Encrypt (ce_crypto env) (conn_nonce env) p w = (x, w') \<Longrightarrow> cw_exchanges w' = cw_exchanges w"
    by (rule keeps_result)
qed

text \<open>A successful exchange, step by step.\<close>

lemma exchange_run:
  "\<exists>res. exchangeTokensAndFetchAccount (conn_F env) req defn w = (res, w\<lparr>cw_exchanges := cw_exchanges w @ [req]\<rparr>)
     \<and> (\<forall>toks acc. res = Inr (toks, acc) \<longrightarrow> ce_exchange env (length (cw_exchanges w)) req = Inr toks)"
  by (auto simp: exchangeTokensAndFetchAccount_def split: sum.split)

lemma exchangeAndActivate_ok:
  assumes run: "exchangeAndActivate (conn_F env) c code w = (Inr c', w')" and aead: "gcm_opens_sealed (ce_crypto env)"
  obtains req toks ps a b em dn where
    "ce_exchange env (length (cw_exchanges w)) req = Inr toks" "TXR_Code req = code" "cw_exchanges w' = cw_exchanges w @ [req]"
    "decryptParams (conn_F env) (Conn_EncryptedParams c) = Inr ps"
    "vault_Decrypt (ce_crypto env) a = Inr (TX_AccessToken toks)" "vault_Decrypt (ce_crypto env) b = Inr (TX_RefreshToken toks)"
    "c' = Conn_Activate c a b em dn (tokenExpiryFrom (cw_now w) (TX_ExpiresIn toks))"
proof -
  from run obtain ig defn ps where d: "ce_integration env (Conn_IntegrationID c) = Inr ig"
    "ce_definition env (Conn_ProviderSlug c) = Inr defn" "decryptParams (conn_F env) (Conn_EncryptedParams c) = Inr ps"
    by (auto simp: exchangeAndActivate_def run_simps split: sum.splits prod.splits)
  define req where "req = \<lparr>TXR_TokenURL = renderParamsTemplate (PD_TokenURL defn) ps,
           TXR_ClientID = IG_ClientID ig, TXR_ClientSecret = IG_ClientSecret ig, TXR_Code = code,
           TXR_RedirectURI = buildCallbackURL (ce_baseURL env), TXR_CredentialStyle = PD_CredentialStyle defn\<rparr>"
  define w1 where "w1 = w\<lparr>cw_exchanges := cw_exchanges w @ [req]\<rparr>"
  obtain res where r: "exchangeTokensAndFetchAccount (conn_F env) req defn w = (res, w1)"
    "\<And>toks acc. res = Inr (toks, acc) \<Longrightarrow> ce_exchange env (length (cw_exchanges w)) req = Inr toks"
    using exchange_run [of env req defn w] w1_def by blast
  have "isl res \<Longrightarrow> False"
    using run d r(1) by (auto simp: exchangeAndActivate_def run_simps Let_def req_def isl_def)
  then obtain toks acc where "res = Inr (toks, acc)" by (cases res) auto
  with r have x: "exchangeTokensAndFetchAccount (conn_F env) req defn w = (Inr (toks, acc), w1)"
    "ce_exchange env (length (cw_exchanges w)) req = Inr toks" by simp_all
  define w2 where "w2 = recordExchange (conn_F env) c (cw_now w) (tokenExchangeRequestLogBody req) (Inr toks) False w1"
  obtain e where w2: "w2 = w1\<lparr>cw_log := cw_log w1 @ [e]\<rparr>" using recordExchange_run w2_def by blast
  have "(Inr c', w') = attempt (vault_Encrypt (ce_crypto env) (conn_nonce env) (TX_AccessToken toks)) (\<lambda>a.
      attempt (vault_Encrypt (ce_crypto env) (conn_nonce env) (TX_RefreshToken toks)) (\<lambda>b.
      call (conn_now (conn_F env)) (\<lambda>now. ok (Conn_Activate c a b (AI_Email acc) (AI_DisplayName acc)
         (tokenExpiryFrom now (TX_ExpiresIn toks)))))) w2"
    using run d x(1) by (simp add: exchangeAndActivate_def attempt_apply [of "lift r" for r] call_apply Let_def req_def w2_def)
  then obtain a w3 b where a: "vault_Encrypt (ce_crypto env) (conn_nonce env) (TX_AccessToken toks) w2 = (Inr a, w3)"
    and b: "vault_Encrypt (ce_crypto env) (conn_nonce env) (TX_RefreshToken toks) w3 = (Inr b, w')"
    and c': "c' = Conn_Activate c a b (AI_Email acc) (AI_DisplayName acc) (tokenExpiryFrom (cw_now w') (TX_ExpiresIn toks))"
    by (auto simp: attempt_apply call_apply split: sum.splits prod.splits)
  have "cw_now w' = cw_now w"
    using keeps_result [OF Encrypt_frame a] keeps_result [OF Encrypt_frame b] by (simp add: conn_frame_def w2 w1_def)
  moreover have "cw_exchanges w' = cw_exchanges w @ [req]"
    using Sealing_frame [OF a] Sealing_frame [OF b] by (simp add: w2 w1_def)
  ultimately show ?thesis
    using that [OF x(2)] d(3) sealed_opens [OF aead a] sealed_opens [OF aead b] c' by (simp add: req_def)
qed

text \<open>
  C25: A successful callback connects the account. The code of the callback is exchanged once; the connection
  the state was issued for is then active with its link used up, holding the tokens of that exchange sealed;
  an execution of its own organization and user gets back exactly the access token the provider gave and the
  connection's parameters without asking the provider again, and for any other organization or user the
  connection does not exist. (The provider's \<open>expires_in\<close> must be in the range in which the expiry does not
  wrap around.)
\<close>

theorem Callback_then_Resolve:
  assumes "conn_inv w" and "gcm_opens_sealed (ce_crypto env)"
    and run: "HandleCallback (conn_F env) code s [] w = (Inr url, w')"
    and range: "\<And>n req toks. ce_exchange env n req = Inr toks \<Longrightarrow> TX_ExpiresIn toks < 2 ^ 33"
  shows "\<exists>st c req toks ps.
      state_of w s = Some st \<and> Conn_ID c = OS_ConnectionID st \<and> conn_of w' (Conn_ID c) = Some c
    \<and> Conn_Status c = StatusActive \<and> Conn_ConnectTokenUsed c
    \<and> cw_exchanges w' = cw_exchanges w @ [req] \<and> TXR_Code req = code
    \<and> ce_exchange env (length (cw_exchanges w)) req = Inr toks
    \<and> vault_Decrypt (ce_crypto env) (Conn_EncryptedRefreshToken c) = Inr (TX_RefreshToken toks)
    \<and> decryptParams (conn_F env) (Conn_EncryptedParams c) = Inr ps
    \<and> (\<forall>org u. conn_ResolveForExecution (conn_F env) org u (Conn_ID c) w' =
         (if org = Conn_OrgID c \<and> u = Conn_UserID c
          then Inr \<lparr>EA_Status = StatusActive, EA_AccessToken = TX_AccessToken toks, EA_Params = ps\<rparr>
          else Inl conn_ErrNotFound, w'))"
proof -
  obtain x w1 where c1: "consumeState (conn_F env) s w = (x, w1)" by fastforce
  then obtain c where x: "x = Inr c" using run by (cases x) (auto simp: HandleCallback_def run_simps)
  from c1 [unfolded x] obtain st where st: "state_of w s = Some st" "conn_of w1 (OS_ConnectionID st) = Some c"
    and frame: "cs_byID (cw_store w1) = cs_byID (cw_store w)" "cw_exchanges w1 = cw_exchanges w" "cw_now w1 = cw_now w"
    by (auto simp: consumeState_def run_simps conn_mem_MarkStateConsumed_def split: if_splits option.splits)
  have id: "Conn_ID c = OS_ConnectionID st" using found_id [OF assms(1)] st(2) frame(1) by simp
  from run c1 x obtain c' w2 where e: "exchangeAndActivate (conn_F env) c code w1 = (Inr c', w2)"
    and w': "w' = w2\<lparr>cw_store := snd (conn_mem_Update c' (cw_store w2))\<rparr>"
    by (auto simp: HandleCallback_def run_simps split: sum.splits prod.splits)
  obtain req toks ps a b em dn where k: "ce_exchange env (length (cw_exchanges w1)) req = Inr toks" "TXR_Code req = code"
    "cw_exchanges w2 = cw_exchanges w1 @ [req]" "decryptParams (conn_F env) (Conn_EncryptedParams c) = Inr ps"
    "vault_Decrypt (ce_crypto env) a = Inr (TX_AccessToken toks)" "vault_Decrypt (ce_crypto env) b = Inr (TX_RefreshToken toks)"
    "c' = Conn_Activate c a b em dn (tokenExpiryFrom (cw_now w1) (TX_ExpiresIn toks))"
    using exchangeAndActivate_ok [OF e assms(2)] by blast
  have now: "cw_now w' = cw_now w1" using keeps_result [OF exchangeAndActivate_frame e] by (simp add: w' conn_frame_def)
  have "TX_ExpiresIn toks < 2 ^ 33" by (rule range [OF k(1)])
  then have "0 \<le> tokenExpiryFrom (cw_now w1) (TX_ExpiresIn toks) - cw_now w1"
    by (auto simp: tokenExpiryFrom_def dur_mul_def wrap64_def second_def defaultTokenTTL_def hour_def minute_def)
  then have fresh: "\<not> Conn_needsRefresh c' (cw_now w')" using now by (simp add: Conn_needsRefresh_def k(7) Conn_Activate_def)
  have row: "conn_of w' (Conn_ID c') = Some c'" by (simp add: w' conn_mem_Update_def)
  have act: "Conn_Status c' = StatusActive" "Conn_ConnectTokenUsed c'" "Conn_EncryptedRefreshToken c' = b" "Conn_EncryptedAccessToken c' = a"
    "Conn_EncryptedParams c' = Conn_EncryptedParams c" "Conn_ID c' = Conn_ID c" by (simp_all add: k(7) Conn_Activate_def)
  have "conn_ResolveForExecution (conn_F env) org u (Conn_ID c') w' =
         (if org = Conn_OrgID c' \<and> u = Conn_UserID c'
          then Inr \<lparr>EA_Status = StatusActive, EA_AccessToken = TX_AccessToken toks, EA_Params = ps\<rparr>
          else Inl conn_ErrNotFound, w')" for org u
    using row act fresh k(4,5) by (auto simp: conn_ResolveForExecution_def findExecutionConnection_run run_simps toExecutionAccess_def)
  moreover have "cw_exchanges w' = cw_exchanges w @ [req]" by (simp add: w' k(3) frame(2))
  ultimately show ?thesis
    using st(1) id row act k frame(2) by (intro exI [of _ st] exI [of _ c'] exI [of _ req] exI [of _ toks] exI [of _ ps]) simp
qed

text \<open>Beyond that range the product wraps and the token is stored as long expired.\<close>

lemma expiry_wraps: "tokenExpiryFrom now 9223372037 < now"
  by (simp add: tokenExpiryFrom_def dur_mul_def wrap64_def second_def)

lemma Encrypt_ok: "\<exists>ct w'. vault_Encrypt cr (conn_nonce env) p w = (Inr ct, w')"
  by (simp add: vault_Encrypt_def attempt_apply conn_nonce_def)

lemma conn_demo_callback: "\<exists>url w'. HandleCallback (conn_F conn_demo) ''c'' (OS_State conn_demo_state) [] conn_demo_world = (Inr url, w')"
proof -
  obtain w1 where c: "consumeState (conn_F conn_demo) (OS_State conn_demo_state) conn_demo_world = (Inr conn_demo_row, w1)"
    by (auto simp: consumeState_def run_simps conn_demo_world_def conn_start_def conn_NewRepository_def conn_demo_state_def
        OS_IsConsumed_def OS_IsExpired_def second_def conn_mem_MarkStateConsumed_def sequential_id_def)
  have d: "ce_integration conn_demo i = Inr conn_demo_integration" "ce_definition conn_demo slug = Inr demo_definition"
    "ce_crypto conn_demo = sample_crypto" "PD_UserInfoURL demo_definition = []"
    "ce_exchange conn_demo n q = Inr \<lparr>TX_AccessToken = ''at'' @ TXR_Code q, TX_RefreshToken = ''rt'', TX_ExpiresIn = 60\<rparr>" for i slug n q
    by (simp_all add: conn_demo_def demo_definition_def)
  have p: "decryptParams (conn_F conn_demo) (Conn_EncryptedParams conn_demo_row) = Inr []"
    by (simp add: decryptParams_def conn_demo_row_def NewConnection_def)
  have "\<exists>c w2. exchangeAndActivate (conn_F conn_demo) conn_demo_row ''c'' w1 = (Inr c, w2)"
  proof -
    have "\<exists>c w2. attempt (vault_Encrypt sample_crypto (conn_nonce conn_demo) a) (\<lambda>x.
        attempt (vault_Encrypt sample_crypto (conn_nonce conn_demo) b) (\<lambda>y. call g (\<lambda>now. ok (h x y now)))) w = (Inr (c :: Connection), w2)"
      for a b g h and w :: conn_world
      using Encrypt_ok [of sample_crypto conn_demo a w] Encrypt_ok [of sample_crypto conn_demo b]
      by (auto simp: attempt_apply call_apply split: sum.split prod.split) (metis prod.inject sum.distinct(1))+
    then show ?thesis
      by (simp add: exchangeAndActivate_def attempt_apply [of "lift r" for r] call_apply Let_def d p exchangeTokensAndFetchAccount_def)
  qed
  then show ?thesis using c by (auto simp: HandleCallback_def run_simps)
qed

lemma Callback_then_Resolve_witness:
  "\<exists>url w' c ps. HandleCallback (conn_F conn_demo) ''c'' (OS_State conn_demo_state) [] conn_demo_world = (Inr url, w')
     \<and> conn_of w' (Conn_ID conn_demo_row) = Some c
     \<and> fst (conn_ResolveForExecution (conn_F conn_demo) (Conn_OrgID c) (Conn_UserID c) (Conn_ID conn_demo_row) w')
         = Inr \<lparr>EA_Status = StatusActive, EA_AccessToken = ''atc'', EA_Params = ps\<rparr>"
proof -
  obtain url w' where run: "HandleCallback (conn_F conn_demo) ''c'' (OS_State conn_demo_state) [] conn_demo_world = (Inr url, w')"
    using conn_demo_callback by blast
  have x: "ce_exchange conn_demo n q = Inr \<lparr>TX_AccessToken = ''at'' @ TXR_Code q, TX_RefreshToken = ''rt'', TX_ExpiresIn = 60\<rparr>" for n q
    by (simp add: conn_demo_def)
  have "gcm_opens_sealed (ce_crypto conn_demo)" using sample_crypto_opens by (simp add: conn_demo_def)
  from Callback_then_Resolve [OF conn_demo_inv this run] obtain st c req toks ps where k:
    "state_of conn_demo_world (OS_State conn_demo_state) = Some st" "Conn_ID c = OS_ConnectionID st"
    "conn_of w' (Conn_ID c) = Some c" "TXR_Code req = ''c''" "ce_exchange conn_demo (length (cw_exchanges conn_demo_world)) req = Inr toks"
    "decryptParams (conn_F conn_demo) (Conn_EncryptedParams c) = Inr ps"
    "\<forall>org u. conn_ResolveForExecution (conn_F conn_demo) org u (Conn_ID c) w' =
         (if org = Conn_OrgID c \<and> u = Conn_UserID c
          then Inr \<lparr>EA_Status = StatusActive, EA_AccessToken = TX_AccessToken toks, EA_Params = ps\<rparr>
          else Inl conn_ErrNotFound, w')"
    using x by auto
  have "Conn_ID c = Conn_ID conn_demo_row" using k(1,2) by (auto simp: conn_demo_world_def conn_demo_state_def)
  moreover have "TX_AccessToken toks = ''atc''" using k(4,5) x by auto
  ultimately show ?thesis using k(3,6,7) run by auto
qed

section \<open>Secrets and the log\<close>

lemma Unmarshal_string_map:
  assumes "map_wf m"
  shows "Unmarshal_any (marshal_any (string_map_any m)) = Some (string_map_any m)"
proof -
  have t: "those (map (\<lambda>kv. Some (AStr (snd kv))) m) = Some (map (\<lambda>kv. AStr (snd kv)) m)" for m :: string_map
    by (induction m) auto
  have z: "zip (map fst m) (map (\<lambda>kv. AStr (snd kv)) m) = map (\<lambda>kv. (fst kv, AStr (snd kv))) m" for m :: string_map
    by (induction m) auto
  have "map_wf (map (\<lambda>kv. (fst kv, AStr (snd kv))) m)" using assms by (simp add: map_wf_def comp_def)
  then have "decode_any (any_json (string_map_any m)) = Some (string_map_any m)"
    by (simp add: string_map_any_def comp_def t z as_map_id)
  then show ?thesis
    using string_map_decodes(1) [of m] by (simp add: Unmarshal_any_def marshal_any_def json_parse_marshal del: marshal.simps)
qed

text \<open>What a run left in the log: the entries it recorded, as the logging module stored them.\<close>

definition persisted :: "conn_world \<Rightarrow> conn_world \<Rightarrow> log_world \<Rightarrow> EventLog list" where
  "persisted w w' lw = drop (length (lw_entries lw)) (lw_entries (snd (for_each (connectionsLogRecorder log_memory_facade)
     (drop (length (cw_log w)) (cw_log w')) lw)))"

definition traffic_view :: "conn_world \<Rightarrow> ConnLogEntry list \<times> TokenExchangeRequest list \<times> RefreshGrantRequest list" where
  "traffic_view w = (cw_log w, cw_exchanges w, cw_grants w)"

text \<open>The entry \<open>recordExchange\<close> makes of a request body and the provider's answer.\<close>

definition records :: "string \<Rightarrow> oauth_error + TokenExchangeResult \<Rightarrow> ConnLogEntry \<Rightarrow> bool" where
  "records body answer e \<longleftrightarrow> CL_RequestBody e = body
     \<and> (case answer of
          Inl err \<Rightarrow> CL_Status e = 502 \<and> CL_ResponseBody e = oauth_error_text err
        | Inr toks \<Rightarrow> CL_Status e = 200 \<and> CL_ResponseBody e = tokenExchangeResponseLogBody toks)"

lemma recordExchange_records:
  "\<exists>e. recordExchange (conn_F env) c started body answer refresh w = w\<lparr>cw_log := cw_log w @ [e]\<rparr> \<and> records body answer e"
  by (cases answer) (force simp: recordExchange_def recordExchangeMetric_def Let_def records_def)+

lemma persisted_one:
  assumes "cw_log w' = cw_log w @ [e]"
  shows "\<exists>entry. persisted w w' lw = [entry] \<and> EL_RequestBody entry = Redact KindOAuthTokenExchange (CL_RequestBody e)
    \<and> EL_ResponseBody entry = Redact KindOAuthTokenExchange (CL_ResponseBody e) \<and> EL_Status entry = CL_Status e"
  by (simp add: persisted_def assms attempt_apply connectionsLogRecorder_def log_Record_run newEventLog_def)

lemma persisted_none: "cw_log w' = cw_log w \<Longrightarrow> persisted w w' lw = []"
  by (simp add: persisted_def)

lemma traffic_steps:
  "keeps traffic_view (conn_nonce env n)"
  "keeps traffic_view (conn_repo_Update (conn_F env) c')"
  "keeps traffic_view (conn_repo_TransitionStatus (conn_F env) org i a b)"
  "keeps traffic_view (conn_now (conn_F env))"
  "keeps traffic_view (\<lambda>w. (Inr (), w\<lparr>cw_events := f w\<rparr>))"
  by (auto simp: keeps_def traffic_view_def conn_nonce_def)

lemma Encrypt_traffic: "keeps traffic_view (vault_Encrypt cr (conn_nonce env) p)"
  unfolding vault_Encrypt_def by (intro keeps_intros traffic_steps)

lemma expire_traffic: "keeps traffic_view (expireConnection (conn_F env) c reason)"
  by (auto simp: keeps_def expireConnection_def emitExpired_def run_simps traffic_view_def zoom_apply Let_def
      split: sum.split prod.split)

lemma failure_traffic: "keeps traffic_view (handleRefreshFailure (conn_F env) c err reason)"
  unfolding handleRefreshFailure_def by (cases err) (simp_all add: expire_traffic)

text \<open>Every code exchange is recorded once, with its request and its answer, and so is every refresh grant.\<close>

lemma exchange_traffic:
  assumes run: "exchangeAndActivate (conn_F env) c code w = (r, w')"
  shows "w' = w \<or>
    (\<exists>req answer e. traffic_view w' = (cw_log w @ [e], cw_exchanges w @ [req], cw_grants w) \<and> TXR_Code req = code
       \<and> records (tokenExchangeRequestLogBody req) answer e
       \<and> (case ce_exchange env (length (cw_exchanges w)) req of
            Inl err \<Rightarrow> answer = Inl err
          | Inr toks \<Rightarrow> answer = Inr toks \<or> (\<exists>n q err. ce_account env n q = Inl err \<and> answer = Inl err)))"
proof (cases "isl (ce_integration env (Conn_IntegrationID c)) \<or> isl (ce_definition env (Conn_ProviderSlug c))
    \<or> isl (decryptParams (conn_F env) (Conn_EncryptedParams c))")
  case True
  then have "w' = w" using run by (auto simp: exchangeAndActivate_def run_simps isl_def split: sum.splits)
  then show ?thesis by simp
next
  case False
  then obtain ig defn ps where ok: "ce_integration env (Conn_IntegrationID c) = Inr ig"
    "ce_definition env (Conn_ProviderSlug c) = Inr defn" "decryptParams (conn_F env) (Conn_EncryptedParams c) = Inr ps"
    by (metis isl_def sum.exhaust)
  define req where "req = \<lparr>TXR_TokenURL = renderParamsTemplate (PD_TokenURL defn) ps, TXR_ClientID = IG_ClientID ig,
    TXR_ClientSecret = IG_ClientSecret ig, TXR_Code = code, TXR_RedirectURI = buildCallbackURL (ce_baseURL env),
    TXR_CredentialStyle = PD_CredentialStyle defn\<rparr>"
  obtain res w1 where ex: "exchangeTokensAndFetchAccount (conn_F env) req defn w = (res, w1)" by fastforce
  have w1: "w1 = w\<lparr>cw_exchanges := cw_exchanges w @ [req]\<rparr>"
    using ex by (auto simp: exchangeTokensAndFetchAccount_def split: sum.splits if_splits)
  have answer: "case ce_exchange env (length (cw_exchanges w)) req of
      Inl err \<Rightarrow> map_sum id fst res = Inl err
    | Inr toks \<Rightarrow> map_sum id fst res = Inr toks \<or> (\<exists>n q err. ce_account env n q = Inl err \<and> map_sum id fst res = Inl err)"
    using ex by (auto simp: exchangeTokensAndFetchAccount_def split: sum.splits if_splits)
  obtain e where e: "recordExchange (conn_F env) c (cw_now w) (tokenExchangeRequestLogBody req) (map_sum id fst res) False w1
      = w1\<lparr>cw_log := cw_log w1 @ [e]\<rparr>" "records (tokenExchangeRequestLogBody req) (map_sum id fst res) e"
    using recordExchange_records by blast
  let ?rest = "case res of
       Inl _ \<Rightarrow> fail ErrTokenExchangeFailed
     | Inr (toks, account) \<Rightarrow>
         attempt (vault_Encrypt (ce_crypto env) (conn_nonce env) (TX_AccessToken toks)) (\<lambda>encryptedAccessToken.
         attempt (vault_Encrypt (ce_crypto env) (conn_nonce env) (TX_RefreshToken toks)) (\<lambda>encryptedRefreshToken.
         call (conn_now (conn_F env)) (\<lambda>now.
         ok (Conn_Activate c encryptedAccessToken encryptedRefreshToken (AI_Email account)
              (AI_DisplayName account) (tokenExpiryFrom now (TX_ExpiresIn toks))))))"
  have eq: "exchangeAndActivate (conn_F env) c code w = ?rest (w1\<lparr>cw_log := cw_log w1 @ [e]\<rparr>)"
    unfolding exchangeAndActivate_def conn_F_sel(17,18)
    by (simp add: attempt_apply [of "lift r" for r] call_apply [where k = "\<lambda>started. call g h" for g h]
        call_apply [where m = "exchangeTokensAndFetchAccount f q d" for f q d] Let_def ok ex e(1) req_def [symmetric] call_apply)
  have k: "keeps traffic_view ?rest"
    by (intro keeps_case_sum keeps_case_prod keeps_attempt keeps_call Encrypt_traffic traffic_steps keeps_ok keeps_fail)
  have "traffic_view w' = traffic_view (w1\<lparr>cw_log := cw_log w1 @ [e]\<rparr>)"
    by (rule keeps_result [OF k trans [OF eq [symmetric] run]])
  then have "traffic_view w' = (cw_log w @ [e], cw_exchanges w @ [req], cw_grants w)" by (simp add: traffic_view_def w1)
  moreover have "TXR_Code req = code" by (simp add: req_def)
  ultimately show ?thesis using e(2) answer by blast
qed

lemma refresh_traffic:
  assumes run: "refreshConnection (conn_F env) c reason w = (r, w')"
  shows "w' = w \<or>
    (\<exists>req e. traffic_view w' = (cw_log w @ [e], cw_exchanges w, cw_grants w @ [req])
       \<and> records (refreshGrantRequestLogBody req) (ce_grant env (length (cw_grants w)) req) e)"
proof (cases "isl (ce_integration env (Conn_IntegrationID c)) \<or> isl (ce_definition env (Conn_ProviderSlug c))
    \<or> isl (vault_Decrypt (ce_crypto env) (Conn_EncryptedRefreshToken c))")
  case True
  then have "w' = w" using run by (auto simp: refreshConnection_def run_simps isl_def split: sum.splits)
  then show ?thesis by simp
next
  case False
  then obtain ig defn rt where ok: "ce_integration env (Conn_IntegrationID c) = Inr ig"
    "ce_definition env (Conn_ProviderSlug c) = Inr defn" "vault_Decrypt (ce_crypto env) (Conn_EncryptedRefreshToken c) = Inr rt"
    by (metis isl_def sum.exhaust)
  define req where "req = \<lparr>RGR_TokenURL = PD_TokenURL defn, RGR_ClientID = IG_ClientID ig,
    RGR_ClientSecret = IG_ClientSecret ig, RGR_RefreshToken = rt, RGR_CredentialStyle = PD_CredentialStyle defn\<rparr>"
  define res where "res = ce_grant env (length (cw_grants w)) req"
  define w1 where "w1 = w\<lparr>cw_grants := cw_grants w @ [req]\<rparr>"
  obtain e where e: "recordExchange (conn_F env) c (cw_now w) (refreshGrantRequestLogBody req) res True w1
      = w1\<lparr>cw_log := cw_log w1 @ [e]\<rparr>" "records (refreshGrantRequestLogBody req) res e"
    using recordExchange_records by blast
  let ?rest = "case res of
       Inl refreshErr \<Rightarrow> handleRefreshFailure (conn_F env) c refreshErr reason
     | Inr toks \<Rightarrow>
         attempt (vault_Encrypt (ce_crypto env) (conn_nonce env) (TX_AccessToken toks)) (\<lambda>encryptedAccessToken.
         attempt (if TX_RefreshToken toks \<noteq> []
                  then vault_Encrypt (ce_crypto env) (conn_nonce env) (TX_RefreshToken toks)
                  else ok (Conn_EncryptedRefreshToken c)) (\<lambda>encryptedRefreshToken.
         call (conn_now (conn_F env)) (\<lambda>now.
         persistConnection (conn_F env) (Conn_RefreshTokens c encryptedAccessToken encryptedRefreshToken
           (tokenExpiryFrom now (TX_ExpiresIn toks))))))"
  have grant: "conn_RefreshGrant (conn_F env) req w = (res, w1)" by (simp add: res_def w1_def)
  have eq: "refreshConnection (conn_F env) c reason w = ?rest (w1\<lparr>cw_log := cw_log w1 @ [e]\<rparr>)"
    unfolding refreshConnection_def conn_F_sel(17,18)
    by (simp add: attempt_apply [of "lift r" for r] call_apply [where k = "\<lambda>started. call g h" for g h]
        call_apply [where m = "conn_RefreshGrant f q" for f q] Let_def ok grant [simplified] e(1) req_def [symmetric] call_apply)
  have k: "keeps traffic_view ?rest" unfolding persistConnection_def
    by (intro keeps_case_sum keeps_attempt keeps_call keeps_if Encrypt_traffic failure_traffic traffic_steps keeps_ok keeps_fail)
  have "traffic_view w' = traffic_view (w1\<lparr>cw_log := cw_log w1 @ [e]\<rparr>)"
    by (rule keeps_result [OF k trans [OF eq [symmetric] run]])
  then have "traffic_view w' = (cw_log w @ [e], cw_exchanges w, cw_grants w @ [req])" by (simp add: traffic_view_def w1_def)
  then show ?thesis using e(2) unfolding res_def by blast
qed

lemma Redact_string_map:
  assumes "map_wf m"
  shows "Redact kind (marshal_any (string_map_any m)) = marshal_any (string_map_any
    (map (\<lambda>kv. (fst kv, if isSensitiveKey (fst kv) (kind \<in> set codeRedactedKinds) then RedactedPlaceholder else snd kv)) m))"
proof -
  have "marshal_any (string_map_any m) \<noteq> []" by (simp add: string_map_any_def marshal_any_def)
  then show ?thesis
    by (simp add: Redact_def Unmarshal_string_map [OF assms]) (simp add: string_map_any_def comp_def if_distrib [of AStr] cong: if_cong)
qed

lemma oauth_keys:
  "isSensitiveKey ''client_secret'' rc" "isSensitiveKey ''access_token'' rc" "isSensitiveKey ''refresh_token'' rc"
  "isSensitiveKey ''code'' True" "\<not> isSensitiveKey ''client_id'' rc" "\<not> isSensitiveKey ''grant_type'' rc"
  "\<not> isSensitiveKey ''redirect_uri'' rc"
proof -
  have "ToLower_key ''client_secret'' = ''client_secret''" "ToLower_key ''access_token'' = ''access_token''"
    "ToLower_key ''refresh_token'' = ''refresh_token''" "ToLower_key ''code'' = ''code''" "ToLower_key ''client_id'' = ''client_id''"
    "ToLower_key ''grant_type'' = ''grant_type''" "ToLower_key ''redirect_uri'' = ''redirect_uri''" by code_simp+
  then show "isSensitiveKey ''client_secret'' rc" "isSensitiveKey ''access_token'' rc" "isSensitiveKey ''refresh_token'' rc"
    "isSensitiveKey ''code'' True" "\<not> isSensitiveKey ''client_id'' rc" "\<not> isSensitiveKey ''grant_type'' rc"
    "\<not> isSensitiveKey ''redirect_uri'' rc"
    by (simp_all add: isSensitiveKey_def sensitiveKeys_def)
qed

text \<open>What the log may keep: of the requests the public fields, of the tokens that there were some.\<close>

definition masked_exchange :: "TokenExchangeRequest \<Rightarrow> string" where
  "masked_exchange req = marshal_any (string_map_any
     [(''client_id'', TXR_ClientID req), (''client_secret'', RedactedPlaceholder), (''code'', RedactedPlaceholder),
      (''grant_type'', ''authorization_code''), (''redirect_uri'', TXR_RedirectURI req)])"

definition masked_grant :: "RefreshGrantRequest \<Rightarrow> string" where
  "masked_grant req = marshal_any (string_map_any
     [(''client_id'', RGR_ClientID req), (''client_secret'', RedactedPlaceholder),
      (''grant_type'', ''refresh_token''), (''refresh_token'', RedactedPlaceholder)])"

definition masked_tokens :: string where
  "masked_tokens = marshal_any (string_map_any
     [(''access_token'', RedactedPlaceholder), (''refresh_token'', RedactedPlaceholder)])"

definition kept_answer :: "oauth_error + TokenExchangeResult \<Rightarrow> EventLog \<Rightarrow> bool" where
  "kept_answer answer entry \<longleftrightarrow> (case answer of
     Inl err \<Rightarrow> EL_Status entry = 502 \<and> EL_ResponseBody entry = Redact KindOAuthTokenExchange (oauth_error_text err)
   | Inr toks \<Rightarrow> EL_Status entry = 200 \<and> EL_ResponseBody entry = masked_tokens)"

lemma masked_bodies:
  "Redact KindOAuthTokenExchange (tokenExchangeRequestLogBody req) = masked_exchange req"
  "Redact KindOAuthTokenExchange (refreshGrantRequestLogBody rreq) = masked_grant rreq"
  "Redact KindOAuthTokenExchange (tokenExchangeResponseLogBody toks) = masked_tokens"
proof -
  have srt: "sorted [''client_id'', ''client_secret'', ''code'', ''grant_type'', ''redirect_uri'']"
    "sorted [''client_id'', ''client_secret'', ''grant_type'', ''refresh_token'']" "sorted [''access_token'', ''refresh_token'']"
    by code_simp+
  have rc: "KindOAuthTokenExchange \<in> set codeRedactedKinds" by (simp add: codeRedactedKinds_def)
  show "Redact KindOAuthTokenExchange (tokenExchangeRequestLogBody req) = masked_exchange req"
    "Redact KindOAuthTokenExchange (refreshGrantRequestLogBody rreq) = masked_grant rreq"
    "Redact KindOAuthTokenExchange (tokenExchangeResponseLogBody toks) = masked_tokens"
    using srt rc by (simp_all add: tokenExchangeRequestLogBody_def refreshGrantRequestLogBody_def
        tokenExchangeResponseLogBody_def Redact_string_map map_wf_def oauth_keys masked_exchange_def masked_grant_def
        masked_tokens_def)
qed

lemma records_kept:
  assumes "records body answer e" and "EL_ResponseBody entry = Redact KindOAuthTokenExchange (CL_ResponseBody e)"
    and "EL_Status entry = CL_Status e"
  shows "kept_answer answer entry"
  using assms by (cases answer) (simp_all add: records_def kept_answer_def masked_bodies)

text \<open>
  C26: What the log keeps of the OAuth traffic. Whether it succeeds or not, a callback's code exchange and a refresh each
  leave exactly one entry in the log when they ask the provider, none when they do not. Its request body has the client
  id, the grant type and the redirect URI, and the placeholder where the client secret, the code and the refresh token
  were. When the provider answered with tokens, its response body is the same whatever they are: the placeholder twice.
  When it failed, the status is 502 and the response body is the redacted text of the OAuth client's error; \<open>Redact\<close>
  can take nothing out of a text that is not JSON, so there the secrets are only as safe as the client's errors are.
\<close>

theorem exchange_log_hides_secrets:
  "(let w' = snd (exchangeAndActivate (conn_F env) c code w) in
       (w' = w \<and> persisted w w' lw = [])
       \<or> (\<exists>req answer entry. cw_exchanges w' = cw_exchanges w @ [req] \<and> TXR_Code req = code
            \<and> persisted w w' lw = [entry] \<and> EL_RequestBody entry = masked_exchange req \<and> kept_answer answer entry
            \<and> (case ce_exchange env (length (cw_exchanges w)) req of
                 Inl err \<Rightarrow> answer = Inl err
               | Inr toks \<Rightarrow> answer = Inr toks \<or> (\<exists>n q err. ce_account env n q = Inl err \<and> answer = Inl err))))
   \<and> (let w' = snd (refreshConnection (conn_F env) c reason w) in
       (w' = w \<and> persisted w w' lw = [])
       \<or> (\<exists>req entry. cw_grants w' = cw_grants w @ [req]
            \<and> persisted w w' lw = [entry] \<and> EL_RequestBody entry = masked_grant req
            \<and> kept_answer (ce_grant env (length (cw_grants w)) req) entry))"
proof -
  obtain r w' where run: "exchangeAndActivate (conn_F env) c code w = (r, w')" by fastforce
  from exchange_traffic [OF run]
  have exchange: "(w' = w \<and> persisted w w' lw = [])
       \<or> (\<exists>req answer entry. cw_exchanges w' = cw_exchanges w @ [req] \<and> TXR_Code req = code
            \<and> persisted w w' lw = [entry] \<and> EL_RequestBody entry = masked_exchange req \<and> kept_answer answer entry
            \<and> (case ce_exchange env (length (cw_exchanges w)) req of
                 Inl err \<Rightarrow> answer = Inl err
               | Inr toks \<Rightarrow> answer = Inr toks \<or> (\<exists>n q err. ce_account env n q = Inl err \<and> answer = Inl err)))"
  proof (elim disjE exE conjE)
    assume "w' = w"
    then show ?thesis by (intro disjI1) (simp add: persisted_none)
  next
    fix req answer e
    assume v: "traffic_view w' = (cw_log w @ [e], cw_exchanges w @ [req], cw_grants w)" and "TXR_Code req = code"
      and rec: "records (tokenExchangeRequestLogBody req) answer e"
      and "case ce_exchange env (length (cw_exchanges w)) req of
            Inl err \<Rightarrow> answer = Inl err
          | Inr toks \<Rightarrow> answer = Inr toks \<or> (\<exists>n q err. ce_account env n q = Inl err \<and> answer = Inl err)"
    moreover obtain entry where "persisted w w' lw = [entry]"
      "EL_RequestBody entry = Redact KindOAuthTokenExchange (CL_RequestBody e)" "kept_answer answer entry"
      using persisted_one [of w' w e lw] v records_kept [OF rec] by (auto simp: traffic_view_def)
    moreover have "CL_RequestBody e = tokenExchangeRequestLogBody req" using rec by (simp add: records_def)
    moreover have "cw_exchanges w' = cw_exchanges w @ [req]" using v by (simp add: traffic_view_def)
    ultimately show ?thesis
      by (intro disjI2 exI [of _ req] exI [of _ answer] exI [of _ entry] conjI) (simp_all only: masked_bodies)
  qed
  obtain r2 w2 where run2: "refreshConnection (conn_F env) c reason w = (r2, w2)" by fastforce
  from refresh_traffic [OF run2]
  have "(w2 = w \<and> persisted w w2 lw = [])
       \<or> (\<exists>req entry. cw_grants w2 = cw_grants w @ [req]
            \<and> persisted w w2 lw = [entry] \<and> EL_RequestBody entry = masked_grant req
            \<and> kept_answer (ce_grant env (length (cw_grants w)) req) entry)"
  proof (elim disjE exE conjE)
    assume "w2 = w"
    then show ?thesis by (intro disjI1) (simp add: persisted_none)
  next
    fix req e
    assume v: "traffic_view w2 = (cw_log w @ [e], cw_exchanges w, cw_grants w @ [req])"
      and rec: "records (refreshGrantRequestLogBody req) (ce_grant env (length (cw_grants w)) req) e"
    then obtain entry where "persisted w w2 lw = [entry]"
      "EL_RequestBody entry = Redact KindOAuthTokenExchange (CL_RequestBody e)"
      "kept_answer (ce_grant env (length (cw_grants w)) req) entry"
      using persisted_one [of w2 w e lw] records_kept [OF rec] by (auto simp: traffic_view_def)
    moreover have "CL_RequestBody e = refreshGrantRequestLogBody req" using rec by (simp add: records_def)
    moreover have "cw_grants w2 = cw_grants w @ [req]" using v by (simp add: traffic_view_def)
    ultimately show ?thesis
      by (intro disjI2 exI [of _ req] exI [of _ entry] conjI) (simp_all only: masked_bodies)
  qed
  with exchange show ?thesis by (simp only: run run2 snd_conv Let_def)
qed

end
