(* ===== verification/ConnLive.thy ===== *)
theory ConnLive
  imports ConnSafety
begin

text \<open>
  What the background refresh achieves when the providers answer.
\<close>

text \<open>A provider that answers every grant: with tokens that outlast the lead, or with a refusal.\<close>

definition answers_grants :: "conn_env \<Rightarrow> bool" where
  "answers_grants env \<longleftrightarrow>
     (\<forall>n q. case ce_grant env n q of
        Inr toks \<Rightarrow> defaultRefreshLead < TX_ExpiresIn toks * second \<and> TX_ExpiresIn toks < 2 ^ 33
      | Inl e \<Rightarrow> (\<exists>x. e = RefreshDenied x))"

text \<open>What a refresh needs besides the provider: the integration, the definition, a token that opens.\<close>

definition refreshable :: "conn_env \<Rightarrow> Connection \<Rightarrow> bool" where
  "refreshable env c \<longleftrightarrow> \<not> isl (ce_integration env (Conn_IntegrationID c)) \<and> \<not> isl (ce_definition env (Conn_ProviderSlug c))
     \<and> \<not> isl (vault_Decrypt (ce_crypto env) (Conn_EncryptedRefreshToken c))"

definition settled :: "conn_world \<Rightarrow> ConnectionID \<Rightarrow> bool" where
  "settled w i \<longleftrightarrow>
     (\<exists>c. conn_of w i = Some c \<and> (Conn_Status c = StatusExpired
        \<or> Conn_Status c = StatusActive \<and> \<not> Conn_needsProactiveRefresh c (cw_now w) defaultRefreshLead))"

lemma long_lived:
  assumes "defaultRefreshLead < x * second" and "x < 2 ^ 33"
  shows "tokenExpiryFrom now x > now + defaultRefreshLead"
proof -
  have p: "0 < x" using assms(1) by (simp add: defaultRefreshLead_def second_def minute_def)
  have "x * second < 2 ^ 63" using assms(2) by (simp add: second_def)
  then have "wrap64 (x * second) = x * second" using p by (intro wrap64_id) (simp_all add: second_def)
  then show ?thesis using assms(1) p by (simp add: tokenExpiryFrom_def dur_mul_def)
qed

text \<open>A refresh that reaches the provider leaves the row expired or with the tokens of that grant.\<close>

lemma refreshConnection_answered:
  assumes "answers_grants env" and "refreshable env c" and c: "conn_of w (Conn_ID c) = Some c" "Conn_Status c = StatusActive"
    and run: "refreshConnection (conn_F env) c reason w = (r, w')"
  shows "cw_now w' = cw_now w \<and> (\<exists>c'. conn_of w' (Conn_ID c) = Some c' \<and> (c' = Conn_MarkExpired c
    \<or> (\<exists>a b n q toks. ce_grant env n q = Inr toks \<and> c' = Conn_RefreshTokens c a b (tokenExpiryFrom (cw_now w) (TX_ExpiresIn toks)))))"
proof -
  obtain ig defn tok where ok: "ce_integration env (Conn_IntegrationID c) = Inr ig"
    "ce_definition env (Conn_ProviderSlug c) = Inr defn" "vault_Decrypt (ce_crypto env) (Conn_EncryptedRefreshToken c) = Inr tok"
    using assms(2) by (cases "ce_integration env (Conn_IntegrationID c)"; cases "ce_definition env (Conn_ProviderSlug c)";
      cases "vault_Decrypt (ce_crypto env) (Conn_EncryptedRefreshToken c)") (auto simp: refreshable_def)
  define req where "req = \<lparr>RGR_TokenURL = PD_TokenURL defn, RGR_ClientID = IG_ClientID ig,
           RGR_ClientSecret = IG_ClientSecret ig, RGR_RefreshToken = tok, RGR_CredentialStyle = PD_CredentialStyle defn\<rparr>"
  define res where "res = ce_grant env (length (cw_grants w)) req"
  define w1 where "w1 = recordExchange (conn_F env) c (cw_now w) (refreshGrantRequestLogBody req) res True (w\<lparr>cw_grants := cw_grants w @ [req]\<rparr>)"
  have f1: "conn_frame w1 = conn_frame w" by (simp add: w1_def) (simp add: conn_frame_def)
  have c1: "conn_of w1 (Conn_ID c) = Some c" using c(1) f1 by (simp add: conn_frame_def)
  show ?thesis
  proof (cases res)
    case (Inl e)
    then obtain x where "e = RefreshDenied x" using assms(1) by (auto simp: answers_grants_def res_def split: sum.splits)
    then have "refreshConnection (conn_F env) c reason w = expireConnection (conn_F env) c reason w1"
      using ok Inl by (simp add: refreshConnection_def run_simps w1_def res_def req_def Let_def handleRefreshFailure_def)
    then show ?thesis
      using run expireConnection_run [OF c1, of env reason] c(2) f1 by (auto simp: conn_frame_def)
  next
    case (Inr toks)
    obtain a w2 where e1: "vault_Encrypt (ce_crypto env) (conn_nonce env) (TX_AccessToken toks) w1 = (Inr a, w2)"
      using Encrypt_ok by blast
    obtain b w3 where e2: "(if TX_RefreshToken toks \<noteq> [] then vault_Encrypt (ce_crypto env) (conn_nonce env) (TX_RefreshToken toks)
        else ok (Conn_EncryptedRefreshToken c)) w2 = (Inr b, w3)"
      using Encrypt_ok [of "ce_crypto env" env "TX_RefreshToken toks" w2] by (cases "TX_RefreshToken toks = []") auto
    then have e2': "(if TX_RefreshToken toks \<noteq> []
        then vault_Encrypt (conn_crypto (conn_F env)) (conn_readFull (conn_F env)) (TX_RefreshToken toks)
        else ok (Conn_EncryptedRefreshToken c)) w2 = (Inr b, w3)" by (simp only: conn_F_sel)
    have "conn_frame w3 = conn_frame w"
      using keeps_result [OF keeps_if [OF Encrypt_frame keeps_ok] e2] keeps_result [OF Encrypt_frame e1] f1 by simp
    then have now: "cw_now w3 = cw_now w" by (simp add: conn_frame_def)
    define c' where "c' = Conn_RefreshTokens c a b (tokenExpiryFrom (cw_now w3) (TX_ExpiresIn toks))"
    have "snd (refreshConnection (conn_F env) c reason w) = w3\<lparr>cw_store := snd (conn_mem_Update c' (cw_store w3))\<rparr>"
      using ok Inr e1 e2' by (simp add: refreshConnection_def run_simps w1_def res_def req_def Let_def persistConnection_def c'_def)
    then show ?thesis
      using run now Inr by (auto simp: conn_mem_Update_def c'_def lifecycle_simps res_def) blast
  qed
qed

lemma refreshConnection_settles:
  assumes "answers_grants env" and "refreshable env c" and c: "conn_of w (Conn_ID c) = Some c" "Conn_Status c = StatusActive"
    and run: "refreshConnection (conn_F env) c reason w = (r, w')"
  shows "settled w' (Conn_ID c)" and "cw_now w' = cw_now w"
proof -
  from refreshConnection_answered [OF assms] obtain c' where now: "cw_now w' = cw_now w" and row: "conn_of w' (Conn_ID c) = Some c'"
    and c': "c' = Conn_MarkExpired c \<or> (\<exists>a b n q toks. ce_grant env n q = Inr toks
       \<and> c' = Conn_RefreshTokens c a b (tokenExpiryFrom (cw_now w) (TX_ExpiresIn toks)))" by blast
  show "cw_now w' = cw_now w" by (rule now)
  from c' show "settled w' (Conn_ID c)"
  proof (elim disjE exE conjE)
    fix a b n q toks assume g: "ce_grant env n q = Inr toks" and c': "c' = Conn_RefreshTokens c a b (tokenExpiryFrom (cw_now w) (TX_ExpiresIn toks))"
    have "defaultRefreshLead < TX_ExpiresIn toks * second \<and> TX_ExpiresIn toks < 2 ^ 33"
      using assms(1) g unfolding answers_grants_def by (metis (mono_tags) sum.simps(6))
    with long_lived [of "TX_ExpiresIn toks" "cw_now w"] show ?thesis
      using row now c(2) by (simp add: settled_def c' Conn_needsProactiveRefresh_def Conn_RefreshTokens_def)
  qed (use row in \<open>simp add: settled_def Conn_MarkExpired_def\<close>)
qed

text \<open>The pass: every claimed connection is settled, the ones already settled stay so.\<close>

lemma refreshDueOne_run:
  "snd (refreshDueOne (conn_F env) c w) = snd (refreshOnce (conn_F env) (Conn_OrgID c) (Conn_ID c)
      \<lparr>rp_force = False, rp_lead = defaultRefreshLead, rp_deniedReason = ExpiredReasonRefreshDenied\<rparr> w)
   \<and> fst (refreshDueOne (conn_F env) c w) = Inr ()"
  by (simp add: refreshDueOne_def catching_apply recordScheduledRefreshOutcome_def split: prod.split)

lemma refreshDueOne_settles:
  assumes "answers_grants env" and "refreshable env c" and inv: "conn_inv w"
    and c: "conn_of w (Conn_ID c) = Some c" "Conn_Status c = StatusActive"
    and run: "refreshDueOne (conn_F env) c w = (r, w')"
  shows "r = Inr ()" and "settled w' (Conn_ID c)" and "cw_now w' = cw_now w" and "changes_only (Conn_ID c) w w'"
proof -
  let ?p = "\<lparr>rp_force = False, rp_lead = defaultRefreshLead, rp_deniedReason = ExpiredReasonRefreshDenied\<rparr>"
  have w': "w' = snd (refreshOnce (conn_F env) (Conn_OrgID c) (Conn_ID c) ?p w)" and r: "r = Inr ()"
    using refreshDueOne_run [of env c w] run by auto
  then show "r = Inr ()" by simp
  show "changes_only (Conn_ID c) w w'"
    using refreshOnce_run [of env "Conn_OrgID c" "Conn_ID c" ?p w] inv w' by (metis changes_onlyI prod.collapse reasons(1) refreshParams.select_convs(3))
  have w'2: "w' = (if Conn_needsProactiveRefresh c (cw_now w) defaultRefreshLead
      then snd (refreshConnection (conn_F env) c ExpiredReasonRefreshDenied w) else w)"
    using c by (simp add: w' refreshOnce_def run_simps dueForRefresh_def defaultRefreshLead_def minute_def second_def)
  show "settled w' (Conn_ID c)" "cw_now w' = cw_now w"
    using refreshConnection_settles [OF assms(1,2) c prod.collapse [symmetric], of ExpiredReasonRefreshDenied] c
    by (auto simp: w'2 settled_def)
qed

lemma refresh_pass:
  assumes "answers_grants env"
  shows "conn_inv w \<Longrightarrow> current_rows w cs \<Longrightarrow> (\<And>c. c \<in> set cs \<Longrightarrow> refreshable env c \<and> Conn_Status c = StatusActive)
    \<Longrightarrow> (\<And>j. j \<in> D \<Longrightarrow> settled w j \<and> j \<notin> Conn_ID ` set cs)
    \<Longrightarrow> for_each (refreshDueOne (conn_F env)) cs w = (r, w')
    \<Longrightarrow> r = Inr () \<and> (\<forall>j \<in> D \<union> Conn_ID ` set cs. settled w' j) \<and> (\<forall>j. j \<notin> Conn_ID ` set cs \<longrightarrow> conn_of w' j = conn_of w j)
        \<and> cw_now w' = cw_now w"
proof (induction cs arbitrary: w D)
  case (Cons c cs)
  obtain x w1 where run: "refreshDueOne (conn_F env) c w = (x, w1)" by fastforce
  have c: "conn_of w (Conn_ID c) = Some c" "Conn_Status c = StatusActive" "refreshable env c"
    using Cons.prems(2,3) by (auto simp: current_rows_def)
  note st = refreshDueOne_settles [OF assms c(3) Cons.prems(1) c(1,2) run]
  have ch: "j \<noteq> Conn_ID c \<Longrightarrow> conn_of w1 j = conn_of w j" for j using st(4) by (simp add: changes_only_def)
  have rest: "for_each (refreshDueOne (conn_F env)) cs w1 = (r, w')"
    using Cons.prems(5) run st(1) by (simp add: attempt_apply)
  have "conn_inv w1" using st(4) Cons.prems(1) by (simp add: changes_only_def evolves_def)
  moreover have "current_rows w1 cs" by (rule current_rows_after [OF Cons.prems(2) st(4)])
  moreover have "settled w1 j \<and> j \<notin> Conn_ID ` set cs" if "j \<in> insert (Conn_ID c) D" for j
    using that Cons.prems(2,4) st(2,3) ch by (auto simp: current_rows_def settled_def)
  ultimately show ?case
    using Cons.IH [of w1 "insert (Conn_ID c) D"] Cons.prems(3) rest st(3) ch by auto
qed simp

text \<open>
  C27: Proactive refresh keeps up. If the providers answer every grant (with tokens that outlast the refresh
  lead, or with a refusal), a pass of the scheduler leaves every connection it claimed -- the fifty oldest
  active ones that expire within the lead and are not leased to another pass -- either expired or with a
  token that is not due any more, whatever mixture of answers came; it touches no other connection.
\<close>

theorem RefreshDueOnce_settles:
  assumes "conn_inv w" and "answers_grants env" and "\<And>i c. conn_of w i = Some c \<Longrightarrow> Conn_Status c = StatusActive \<Longrightarrow> refreshable env c"
    and run: "RefreshDueOnce (conn_F env) w = (r, w')"
  defines "claimed \<equiv> first_due (\<lambda>c. isDueForRefreshClaim (cw_store w) c (cw_now w) defaultRefreshLead) 50 (cw_store w)"
  shows "r = Inr () \<and> (\<forall>c \<in> set claimed. settled w' (Conn_ID c))
    \<and> (\<forall>i. i \<notin> Conn_ID ` set claimed \<longrightarrow> conn_of w' i = conn_of w i)"
proof -
  obtain x w1 where c: "on_store (conn_mem_ClaimDueRefresh (cw_now w) defaultRefreshLead refreshLeaseTTL refreshClaimBatchLimit) w = (x, w1)"
    by fastforce
  then have x: "x = Inr claimed" and byID: "cs_byID (cw_store w1) = cs_byID (cw_store w)"
    by (auto simp: zoom_apply conn_mem_ClaimDueRefresh_def Let_def claimed_def refreshClaimBatchLimit_def)
  have "conn_inv w1" using claim_run(1) [OF c [unfolded x]] assms(1) by (simp add: evolves_def)
  moreover have "current_rows w1 claimed" unfolding claimed_def by (rule first_due_current [OF assms(1) byID])
  moreover have "refreshable env k \<and> Conn_Status k = StatusActive" if "k \<in> set claimed" for k
    using first_due_rows [OF that [unfolded claimed_def]] assms(3) row_found [OF assms(1)]
    by (auto simp: isDueForRefreshClaim_def split: if_splits)
  moreover have "for_each (refreshDueOne (conn_F env)) claimed w1 = (r, w')"
    using run c x by (simp add: RefreshDueOnce_def run_simps)
  ultimately show ?thesis using refresh_pass [OF assms(2), of w1 claimed "{}" r w'] byID by auto
qed

definition conn_demo_sealed :: string where
  "conn_demo_sealed = EncodeToString StdEncoding (replicate 12 CHR ''n'' @ gcmSeal sample_crypto (replicate 12 CHR ''n'') ''rt'')"

definition conn_demo_due :: Connection where
  "conn_demo_due = Conn_Activate conn_demo_row conn_demo_sealed conn_demo_sealed [] [] second"

lemma RefreshDueOnce_settles_witness:
  "\<exists>r w'. RefreshDueOnce (conn_F conn_demo) (conn_demo_world\<lparr>cw_store := conn_NewRepository\<lparr>cs_byID := [(Conn_ID conn_demo_due, conn_demo_due)]\<rparr>\<rparr>) = (r, w')
     \<and> r = Inr () \<and> settled w' (Conn_ID conn_demo_due)"
proof -
  let ?w = "conn_demo_world\<lparr>cw_store := conn_NewRepository\<lparr>cs_byID := [(Conn_ID conn_demo_due, conn_demo_due)]\<rparr>\<rparr>"
  have id: "Conn_ID conn_demo_due = sequential_id ''conn_'' 0"
    by (simp add: conn_demo_due_def Conn_Activate_def conn_demo_row_def NewConnection_def)
  have inv: "conn_inv ?w"
    by (auto simp: conn_inv_def conn_demo_world_def conn_start_def conn_NewRepository_def keyed_def id minted_def)
  have grants: "answers_grants conn_demo"
    by (simp add: answers_grants_def conn_demo_def defaultRefreshLead_def minute_def second_def)
  have "vault_Decrypt sample_crypto conn_demo_sealed = Inr ''rt''"
    using sample_crypto_opens by (simp add: vault_Decrypt_def conn_demo_sealed_def DecodeString_EncodeToString nonceSize_def gcm_opens_sealed_def)
  then have ok: "refreshable conn_demo c" if "conn_of ?w i = Some c" "Conn_Status c = StatusActive" for i c
    using that by (auto simp: conn_NewRepository_def refreshable_def conn_demo_def conn_demo_due_def Conn_Activate_def split: if_splits)
  obtain r w' where run: "RefreshDueOnce (conn_F conn_demo) ?w = (r, w')" by fastforce
  have "conn_demo_due \<in> set (first_due (\<lambda>c. isDueForRefreshClaim (cw_store ?w) c (cw_now ?w) defaultRefreshLead) 50 (cw_store ?w))"
    by (simp add: first_due_def Let_def sortConnectionsOldestFirst_def conn_NewRepository_def isDueForRefreshClaim_def lease_runs_def
        conn_demo_due_def Conn_Activate_def conn_demo_world_def conn_start_def defaultRefreshLead_def minute_def second_def oldest_first_by_def)
  with RefreshDueOnce_settles [OF inv grants _ run] ok run show ?thesis by blast
qed

end
