(* ===== verification/RefreshLock.thy ===== *)
theory RefreshLock
  imports ConnLive
begin

text \<open>
  \<open>refreshlock.go\<close> with its concurrency: any number of callers (the scheduler, the reconciliation, requests)
  run \<open>refreshOnce\<close> at once. The keyed mutex is the code's: a table from connections to mutexes, filled on the
  first use. A step is one caller's \<open>lockFor\<close>, its \<open>Lock\<close> of the mutex it got (only while nobody has it locked),
  its read of the row and decision, or its refresh, with the deferred \<open>Unlock\<close>. Between two steps anything a
  relation \<open>elsewhere\<close> allows may happen to the rest of the world. Steps of different callers interleave in any order.
\<close>

section \<open>The keyed mutex\<close>

text \<open>
  A mutex is its address in \<open>rl_locked\<close>, which says whether it is locked; like Go's it does not know by whom.
  \<open>l.mu\<close> guards just the table, so \<open>lockFor\<close> is one step.
\<close>

record refreshLocks =
  rl_locked :: "bool list"
  rl_byConn :: "(ConnectionID \<times> nat) list"

definition newRefreshLocks :: refreshLocks where
  "newRefreshLocks = \<lparr>rl_locked = [], rl_byConn = []\<rparr>"

definition lockFor :: "ConnectionID \<Rightarrow> refreshLocks \<Rightarrow> nat \<times> refreshLocks" where
  "lockFor i l =
     (case map_of (rl_byConn l) i of
        Some m \<Rightarrow> (m, l)
      | None \<Rightarrow> (let m = length (rl_locked l) in
          (m, l\<lparr>rl_locked := rl_locked l @ [False], rl_byConn := put i m (rl_byConn l)\<rparr>)))"

definition mutex_Lock :: "nat \<Rightarrow> refreshLocks \<Rightarrow> refreshLocks option" where
  "mutex_Lock m l = (if rl_locked l ! m then None else Some (l\<lparr>rl_locked := (rl_locked l)[m := True]\<rparr>))"

definition mutex_Unlock :: "nat \<Rightarrow> refreshLocks \<Rightarrow> refreshLocks" where
  "mutex_Unlock m l = l\<lparr>rl_locked := (rl_locked l)[m := False]\<rparr>"

section \<open>The parts of refreshOnce\<close>

text \<open>What happens under the lock before the grant: \<open>Inr c\<close> is the row to refresh, \<open>Inl r\<close> the early return.\<close>

definition refresh_decision ::
  "OrgID \<Rightarrow> ConnectionID \<Rightarrow> refreshParams \<Rightarrow> conn_world \<Rightarrow> (go_error + Connection) + Connection" where
  "refresh_decision org i params w =
     (case conn_of w i of
        None \<Rightarrow> Inl (Inl conn_ErrNotFound)
      | Some c \<Rightarrow>
          if Conn_OrgID c \<noteq> org then Inl (Inl conn_ErrNotFound)
          else if Conn_Status c \<noteq> StatusActive then Inl (Inr c)
          else if \<not> rp_force params \<and> \<not> dueForRefresh c (cw_now w) (rp_lead params) then Inl (Inr c)
          else Inr c)"

lemma refreshOnce_parts:
  "refreshOnce (conn_F env) org i params w =
     (case refresh_decision org i params w of
        Inl r \<Rightarrow> (r, w)
      | Inr c \<Rightarrow> refreshConnection (conn_F env) c (rp_deniedReason params) w)"
  by (auto simp: refreshOnce_def refresh_decision_def run_simps split: option.split)

section \<open>The interleaving\<close>

record refresh_call =
  rc_org :: OrgID
  rc_id :: ConnectionID
  rc_params :: refreshParams

text \<open>How far a caller is; after \<open>lockFor\<close> it keeps the mutex it got.\<close>

datatype progress = Entering | Waiting nat | Holding nat | Deciding nat Connection | Returned bool

record refresh_state =
  rs_world :: conn_world
  rs_locks :: refreshLocks
  rs_progress :: "nat \<Rightarrow> progress"

definition returns :: "nat \<Rightarrow> nat \<Rightarrow> conn_world \<Rightarrow> bool \<Rightarrow> refresh_state \<Rightarrow> refresh_state" where
  "returns k m w granted s =
     \<lparr>rs_world = w, rs_locks = mutex_Unlock m (rs_locks s), rs_progress = (rs_progress s)(k := Returned granted)\<rparr>"

inductive refresh_step ::
  "conn_env \<Rightarrow> (nat \<Rightarrow> refresh_call) \<Rightarrow> nat \<Rightarrow> (conn_world \<Rightarrow> conn_world \<Rightarrow> bool) \<Rightarrow> refresh_state \<Rightarrow> refresh_state \<Rightarrow> bool"
  for env calls n elsewhere where
  enters: "k < n \<Longrightarrow> rs_progress s k = Entering \<Longrightarrow> lockFor (rc_id (calls k)) (rs_locks s) = (m, l)
    \<Longrightarrow> refresh_step env calls n elsewhere s (s\<lparr>rs_locks := l, rs_progress := (rs_progress s)(k := Waiting m)\<rparr>)"
| locks: "rs_progress s k = Waiting m \<Longrightarrow> mutex_Lock m (rs_locks s) = Some l
    \<Longrightarrow> refresh_step env calls n elsewhere s (s\<lparr>rs_locks := l, rs_progress := (rs_progress s)(k := Holding m)\<rparr>)"
| returns_row: "rs_progress s k = Holding m
    \<Longrightarrow> refresh_decision (rc_org (calls k)) (rc_id (calls k)) (rc_params (calls k)) (rs_world s) = Inl r
    \<Longrightarrow> refresh_step env calls n elsewhere s (returns k m (rs_world s) False s)"
| decides: "rs_progress s k = Holding m
    \<Longrightarrow> refresh_decision (rc_org (calls k)) (rc_id (calls k)) (rc_params (calls k)) (rs_world s) = Inr c
    \<Longrightarrow> refresh_step env calls n elsewhere s (s\<lparr>rs_progress := (rs_progress s)(k := Deciding m c)\<rparr>)"
| refreshes: "rs_progress s k = Deciding m c
    \<Longrightarrow> refreshConnection (conn_F env) c (rp_deniedReason (rc_params (calls k))) (rs_world s) = (r, w')
    \<Longrightarrow> refresh_step env calls n elsewhere s (returns k m w' (cw_grants w' \<noteq> cw_grants (rs_world s)) s)"
| happens: "elsewhere (rs_world s) w \<Longrightarrow> refresh_step env calls n elsewhere s (s\<lparr>rs_world := w\<rparr>)"

definition refresh_start :: "conn_world \<Rightarrow> refresh_state" where
  "refresh_start w = \<lparr>rs_world = w, rs_locks = newRefreshLocks, rs_progress = (\<lambda>_. Entering)\<rparr>"

text \<open>Nothing but the clock moves elsewhere, up to a deadline.\<close>

definition clock_until :: "time \<Rightarrow> conn_world \<Rightarrow> conn_world \<Rightarrow> bool" where
  "clock_until deadline w w' \<longleftrightarrow> (\<exists>t. cw_now w \<le> t \<and> t \<le> deadline \<and> w' = w\<lparr>cw_now := t\<rparr>)"

fun holds :: "progress \<Rightarrow> nat \<Rightarrow> bool" where
  "holds (Holding m) m' = (m = m')"
| "holds (Deciding m c) m' = (m = m')"
| "holds _ m' = False"

fun knows :: "progress \<Rightarrow> nat \<Rightarrow> bool" where
  "knows (Waiting m) m' = (m = m')"
| "knows p m' = holds p m'"

definition in_section :: "progress \<Rightarrow> bool" where
  "in_section p \<longleftrightarrow> (\<exists>m. holds p m)"

lemma in_section_simps [simp]:
  "\<not> in_section Entering" "\<not> in_section (Waiting m)" "in_section (Holding m)" "in_section (Deciding m c)"
  "\<not> in_section (Returned b)"
  by (simp_all add: in_section_def)

lemma holds_knows: "holds p m \<Longrightarrow> knows p m"
  by (cases p) simp_all

section \<open>Mutual exclusion\<close>

text \<open>
  A connection keeps its mutex and shares it with no other; a caller that got a mutex got the one of its
  connection; a mutex is locked exactly while one caller is between its \<open>Lock\<close> and its \<open>Unlock\<close>.
\<close>

definition lock_inv :: "(nat \<Rightarrow> refresh_call) \<Rightarrow> nat \<Rightarrow> refresh_state \<Rightarrow> bool" where
  "lock_inv calls n s \<longleftrightarrow>
     (\<forall>i m. map_of (rl_byConn (rs_locks s)) i = Some m \<longrightarrow> m < length (rl_locked (rs_locks s)))
     \<and> (\<forall>i j m. map_of (rl_byConn (rs_locks s)) i = Some m \<and> map_of (rl_byConn (rs_locks s)) j = Some m \<longrightarrow> i = j)
     \<and> (\<forall>k m. knows (rs_progress s k) m \<longrightarrow> map_of (rl_byConn (rs_locks s)) (rc_id (calls k)) = Some m)
     \<and> (\<forall>m < length (rl_locked (rs_locks s)). rl_locked (rs_locks s) ! m \<longleftrightarrow> (\<exists>k. holds (rs_progress s k) m))
     \<and> (\<forall>j k m. holds (rs_progress s j) m \<and> holds (rs_progress s k) m \<longrightarrow> j = k)
     \<and> (\<forall>k. rs_progress s k \<noteq> Entering \<longrightarrow> k < n)"

lemma lock_invD:
  assumes "lock_inv calls n s"
  shows "map_of (rl_byConn (rs_locks s)) i = Some m \<Longrightarrow> m < length (rl_locked (rs_locks s))"
    and "map_of (rl_byConn (rs_locks s)) i = Some m \<Longrightarrow> map_of (rl_byConn (rs_locks s)) j = Some m \<Longrightarrow> i = j"
    and "knows (rs_progress s k) m \<Longrightarrow> map_of (rl_byConn (rs_locks s)) (rc_id (calls k)) = Some m"
    and "m < length (rl_locked (rs_locks s)) \<Longrightarrow> rl_locked (rs_locks s) ! m \<longleftrightarrow> (\<exists>k. holds (rs_progress s k) m)"
    and "holds (rs_progress s a) m \<Longrightarrow> holds (rs_progress s b) m \<Longrightarrow> a = b"
    and "rs_progress s k \<noteq> Entering \<Longrightarrow> k < n"
  using assms unfolding lock_inv_def by blast+

lemma known_mutex:
  assumes "lock_inv calls n s" and "knows (rs_progress s k) m"
  shows "m < length (rl_locked (rs_locks s))"
  using lock_invD(1,3) [OF assms(1)] assms(2) by blast

lemma exclusive:
  assumes inv: "lock_inv calls n s" and "in_section (rs_progress s j)" "in_section (rs_progress s k)"
    and "rc_id (calls j) = rc_id (calls k)"
  shows "j = k"
proof -
  obtain a b where h: "holds (rs_progress s j) a" "holds (rs_progress s k) b" using assms(2,3) by (auto simp: in_section_def)
  then have "a = b" using lock_invD(3) [OF inv] holds_knows assms(4) by (metis option.inject)
  then show ?thesis using lock_invD(5) [OF inv] h by blast
qed

lemma enters_inv:
  assumes inv: "lock_inv calls n s" and k: "k < n" "rs_progress s k = Entering"
    and run: "lockFor (rc_id (calls k)) (rs_locks s) = (m, l)"
  shows "lock_inv calls n (s\<lparr>rs_locks := l, rs_progress := (rs_progress s)(k := Waiting m)\<rparr>)"
proof (cases "map_of (rl_byConn (rs_locks s)) (rc_id (calls k))")
  case (Some m0)
  then have l: "l = rs_locks s" "m = m0" using run by (simp_all add: lockFor_def)
  have other: "j \<noteq> k" if "holds (rs_progress s j) m'" for j m' using that k(2) by auto
  show ?thesis unfolding lock_inv_def
    using lock_invD [OF inv] k Some l by (auto split: if_splits intro: other) (metis other)
next
  case None
  let ?L = "rs_locks s"
  have l: "l = ?L\<lparr>rl_locked := rl_locked ?L @ [False], rl_byConn := put (rc_id (calls k)) m (rl_byConn ?L)\<rparr>"
    "m = length (rl_locked ?L)" using run None by (auto simp: lockFor_def Let_def)
  have new: "\<not> holds (rs_progress s j) m" for j using known_mutex [OF inv holds_knows] l(2) by blast
  have known: "rc_id (calls j) \<noteq> rc_id (calls k)" if "knows (rs_progress s j) m'" for j m'
    using lock_invD(3) [OF inv that] None by auto
  have other: "j \<noteq> k" if "holds (rs_progress s j) m'" for j m' using that k(2) by auto
  have flags: "(rl_locked ?L @ [False]) ! m' \<longleftrightarrow> (\<exists>j. j \<noteq> k \<and> holds (rs_progress s j) m')"
    if "m' < Suc (length (rl_locked ?L))" for m'
  proof (cases "m' = m")
    case True
    then show ?thesis using new l(2) by simp
  next
    case False
    then have old: "m' < length (rl_locked ?L)" using that l(2) by simp
    have "(\<exists>j. j \<noteq> k \<and> holds (rs_progress s j) m') \<longleftrightarrow> (\<exists>j. holds (rs_progress s j) m')" using other by blast
    then show ?thesis using lock_invD(4) [OF inv old] old by (simp add: nth_append)
  qed
  show ?thesis unfolding lock_inv_def
  proof (intro conjI allI impI)
    fix i m' assume "map_of (rl_byConn (rs_locks (s\<lparr>rs_locks := l, rs_progress := (rs_progress s)(k := Waiting m)\<rparr>))) i = Some m'"
    then show "m' < length (rl_locked (rs_locks (s\<lparr>rs_locks := l, rs_progress := (rs_progress s)(k := Waiting m)\<rparr>)))"
      using lock_invD(1) [OF inv, of i m'] l by (auto split: if_splits)
  next
    fix i j m' assume "map_of (rl_byConn (rs_locks (s\<lparr>rs_locks := l, rs_progress := (rs_progress s)(k := Waiting m)\<rparr>))) i = Some m'
      \<and> map_of (rl_byConn (rs_locks (s\<lparr>rs_locks := l, rs_progress := (rs_progress s)(k := Waiting m)\<rparr>))) j = Some m'"
    then show "i = j"
      using lock_invD(1) [OF inv, of i m'] lock_invD(1) [OF inv, of j m'] lock_invD(2) [OF inv, of i m' j] l
      by (auto split: if_splits)
  next
    fix j m' assume "knows (rs_progress (s\<lparr>rs_locks := l, rs_progress := (rs_progress s)(k := Waiting m)\<rparr>) j) m'"
    then show "map_of (rl_byConn (rs_locks (s\<lparr>rs_locks := l, rs_progress := (rs_progress s)(k := Waiting m)\<rparr>))) (rc_id (calls j)) = Some m'"
      using lock_invD(3) [OF inv, of j m'] known [of j m'] l by (auto split: if_splits)
  next
    fix m' assume "m' < length (rl_locked (rs_locks (s\<lparr>rs_locks := l, rs_progress := (rs_progress s)(k := Waiting m)\<rparr>)))"
    then show "rl_locked (rs_locks (s\<lparr>rs_locks := l, rs_progress := (rs_progress s)(k := Waiting m)\<rparr>)) ! m'
        \<longleftrightarrow> (\<exists>j. holds (rs_progress (s\<lparr>rs_locks := l, rs_progress := (rs_progress s)(k := Waiting m)\<rparr>) j) m')"
      using flags [of m'] l by auto
  next
    fix a b m' assume "holds (rs_progress (s\<lparr>rs_locks := l, rs_progress := (rs_progress s)(k := Waiting m)\<rparr>) a) m'
      \<and> holds (rs_progress (s\<lparr>rs_locks := l, rs_progress := (rs_progress s)(k := Waiting m)\<rparr>) b) m'"
    then show "a = b" using lock_invD(5) [OF inv, of a m' b] by (auto split: if_splits)
  next
    fix j assume "rs_progress (s\<lparr>rs_locks := l, rs_progress := (rs_progress s)(k := Waiting m)\<rparr>) j \<noteq> Entering"
    then show "j < n" using lock_invD(6) [OF inv, of j] k(1) by (auto split: if_splits)
  qed
qed


lemma locks_inv:
  assumes inv: "lock_inv calls n s" and k: "rs_progress s k = Waiting m" and run: "mutex_Lock m (rs_locks s) = Some l"
  shows "lock_inv calls n (s\<lparr>rs_locks := l, rs_progress := (rs_progress s)(k := Holding m)\<rparr>)"
proof -
  let ?L = "rs_locks s"
  have free: "\<not> rl_locked ?L ! m" and l: "l = ?L\<lparr>rl_locked := (rl_locked ?L)[m := True]\<rparr>"
    using run by (auto simp: mutex_Lock_def split: if_splits)
  have m: "m < length (rl_locked ?L)" using known_mutex [OF inv, of k m] k by simp
  then have nobody: "\<not> holds (rs_progress s j) m" for j using lock_invD(4) [OF inv m] free by blast
  have other: "j \<noteq> k" if "holds (rs_progress s j) m'" for j m' using that k by auto
  have kn: "map_of (rl_byConn ?L) (rc_id (calls k)) = Some m" using lock_invD(3) [OF inv, of k m] k by simp
  have kless: "k < n" using lock_invD(6) [OF inv, of k] k by simp
  have flags: "(rl_locked ?L)[m := True] ! m' \<longleftrightarrow> (\<exists>j. holds (((rs_progress s)(k := Holding m)) j) m')"
    if "m' < length (rl_locked ?L)" for m'
  proof (cases "m' = m")
    case True
    then show ?thesis using m by (auto intro!: exI [of _ k])
  next
    case False
    then show ?thesis using lock_invD(4) [OF inv that] other by (auto split: if_splits)
  qed
  show ?thesis unfolding lock_inv_def
    using lock_invD(1,2,3,5,6) [OF inv] nobody kn kless flags by (auto simp: l split: if_splits)
qed

lemma returns_inv:
  assumes inv: "lock_inv calls n s" and k: "holds (rs_progress s k) m"
  shows "lock_inv calls n (returns k m w granted s)"
proof -
  let ?L = "rs_locks s"
  have m: "m < length (rl_locked ?L)" using known_mutex [OF inv holds_knows [OF k]] .
  have only: "j = k" if "holds (rs_progress s j) m" for j using lock_invD(5) [OF inv that k] .
  have kless: "k < n" using lock_invD(6) [OF inv, of k] k by (cases "rs_progress s k") auto
  have flags: "(rl_locked ?L)[m := False] ! m' \<longleftrightarrow> (\<exists>j. holds (((rs_progress s)(k := Returned granted)) j) m')"
    if "m' < length (rl_locked ?L)" for m'
  proof (cases "m' = m")
    case True
    then show ?thesis using m only by auto
  next
    case False
    have "j \<noteq> k" if "holds (rs_progress s j) m'" for j using that k False by (cases "rs_progress s k") auto
    then show ?thesis using False lock_invD(4) [OF inv that] by (auto split: if_splits)
  qed
  show ?thesis unfolding lock_inv_def returns_def mutex_Unlock_def
    using lock_invD(1,2,3,5,6) [OF inv] kless flags by (auto split: if_splits)
qed

lemma lock_inv_same:
  assumes "lock_inv calls n s" and "rs_locks s' = rs_locks s"
    and "\<And>j m. holds (rs_progress s' j) m = holds (rs_progress s j) m" "\<And>j m. knows (rs_progress s' j) m = knows (rs_progress s j) m"
    and "\<And>j. rs_progress s' j = Entering \<longleftrightarrow> rs_progress s j = Entering"
  shows "lock_inv calls n s'"
  using assms by (simp add: lock_inv_def)

lemma lock_step_inv:
  assumes "refresh_step env calls n elsewhere s s'" and "lock_inv calls n s"
  shows "lock_inv calls n s'"
  using assms
proof (induction rule: refresh_step.induct)
  case (enters k s m l)
  then show ?case by (intro enters_inv)
next
  case (locks s k m l)
  then show ?case by (intro locks_inv)
next
  case (returns_row s k m r)
  then show ?case by (intro returns_inv) simp_all
next
  case (refreshes s k m c r w')
  then show ?case by (intro returns_inv) simp_all
next
  case (decides s k m c)
  show ?case by (rule lock_inv_same [OF decides(3)]) (use decides(1) in auto)
next
  case (happens s w)
  then show ?case by (simp add: lock_inv_def)
qed

text \<open>Nobody waits for ever on a mutex that nobody will unlock: as long as a caller has not returned, one can go on.\<close>

lemma can_go_on:
  assumes inv: "lock_inv calls n s" and k: "k < n" "\<And>b. rs_progress s k \<noteq> Returned b"
  shows "\<exists>j s'. refresh_step env calls n elsewhere s s' \<and> rs_progress s' j \<noteq> rs_progress s j"
proof -
  have sect: "\<exists>s'. refresh_step env calls n elsewhere s s' \<and> rs_progress s' j \<noteq> rs_progress s j"
    if "holds (rs_progress s j) m" for j m
  proof (cases "rs_progress s j")
    case (Holding m')
    show ?thesis
    proof (cases "refresh_decision (rc_org (calls j)) (rc_id (calls j)) (rc_params (calls j)) (rs_world s)")
      case (Inl r)
      from refresh_step.returns_row [where env = env and n = n and elsewhere = elsewhere and calls = calls, OF Holding Inl] Holding show ?thesis
        by (intro exI conjI) (auto simp: returns_def)
    next
      case (Inr c)
      from refresh_step.decides [where env = env and n = n and elsewhere = elsewhere and calls = calls, OF Holding Inr] Holding show ?thesis
        by (intro exI conjI) auto
    qed
  next
    case (Deciding m' c)
    obtain r w' where "refreshConnection (conn_F env) c (rp_deniedReason (rc_params (calls j))) (rs_world s) = (r, w')" by fastforce
    from refresh_step.refreshes [where n = n and elsewhere = elsewhere and calls = calls, OF Deciding this] Deciding show ?thesis
      by (intro exI conjI) (auto simp: returns_def)
  qed (use that in auto)
  show ?thesis
  proof (cases "rs_progress s k")
    case Entering
    obtain m l where "lockFor (rc_id (calls k)) (rs_locks s) = (m, l)" by fastforce
    from refresh_step.enters [where env = env and elsewhere = elsewhere and calls = calls, OF k(1) Entering this] Entering show ?thesis
      by (intro exI [of _ k] exI conjI) auto
  next
    case (Waiting m)
    show ?thesis
    proof (cases "mutex_Lock m (rs_locks s)")
      case (Some l)
      from refresh_step.locks [where env = env and n = n and elsewhere = elsewhere and calls = calls, OF Waiting Some] Waiting show ?thesis
        by (intro exI [of _ k] exI conjI) auto
    next
      case None
      then have "rl_locked (rs_locks s) ! m" by (simp add: mutex_Lock_def split: if_splits)
      moreover have "m < length (rl_locked (rs_locks s))" using known_mutex [OF inv, of k m] Waiting by simp
      ultimately obtain j where "holds (rs_progress s j) m" using lock_invD(4) [OF inv] by blast
      then show ?thesis using sect by blast
    qed
  next
    case (Holding m)
    then have "holds (rs_progress s k) m" by simp
    then show ?thesis using sect by blast
  next
    case (Deciding m c)
    then have "holds (rs_progress s k) m" by simp
    then show ?thesis using sect by blast
  qed (use k(2) in blast)
qed

section \<open>One grant\<close>

text \<open>Until the deadline nobody who asks about freshness finds this connection due.\<close>

definition quiet :: "time \<Rightarrow> conn_world \<Rightarrow> ConnectionID \<Rightarrow> bool" where
  "quiet deadline w i \<longleftrightarrow>
     (\<exists>c. conn_of w i = Some c \<and> (Conn_Status c \<noteq> StatusActive
        \<or> (\<exists>t. Conn_TokenExpiresAt c = Some t \<and> t > deadline + defaultRefreshLead)))"

text \<open>Every grant is answered, with tokens that outlast the whole period and the lead, or refused.\<close>

definition lasting_grants :: "conn_env \<Rightarrow> duration \<Rightarrow> bool" where
  "lasting_grants env period \<longleftrightarrow>
     (\<forall>m q. case ce_grant env m q of
        Inr toks \<Rightarrow> period + defaultRefreshLead < TX_ExpiresIn toks * second \<and> TX_ExpiresIn toks < 2 ^ 33
      | Inl e \<Rightarrow> (\<exists>x. e = RefreshDenied x))"

lemma lasting_answers: "0 \<le> period \<Longrightarrow> lasting_grants env period \<Longrightarrow> answers_grants env"
  unfolding lasting_grants_def answers_grants_def by (force split: sum.splits)

lemma not_refreshable: "\<not> refreshable env c \<Longrightarrow> snd (refreshConnection (conn_F env) c reason w) = w"
  by (auto simp: refreshable_def refreshConnection_def run_simps isl_def split: sum.splits)

lemma refresh_quiet:
  assumes "lasting_grants env (deadline - t0)" and "t0 \<le> cw_now w" "cw_now w \<le> deadline" and "refreshable env c"
    and c: "conn_of w (Conn_ID c) = Some c" "Conn_Status c = StatusActive"
    and run: "refreshConnection (conn_F env) c reason w = (r, w')"
  shows "quiet deadline w' (Conn_ID c)"
proof -
  have "answers_grants env" using lasting_answers [OF _ assms(1)] assms(2,3) by simp
  from refreshConnection_answered [OF this assms(4) c run] obtain c' where row: "conn_of w' (Conn_ID c) = Some c'"
    and c': "c' = Conn_MarkExpired c \<or> (\<exists>a b n q toks. ce_grant env n q = Inr toks
       \<and> c' = Conn_RefreshTokens c a b (tokenExpiryFrom (cw_now w) (TX_ExpiresIn toks)))" by blast
  from c' show ?thesis
  proof (elim disjE exE conjE)
    fix a b m q toks assume g: "ce_grant env m q = Inr toks" and c': "c' = Conn_RefreshTokens c a b (tokenExpiryFrom (cw_now w) (TX_ExpiresIn toks))"
    have l: "deadline - t0 + defaultRefreshLead < TX_ExpiresIn toks * second" "TX_ExpiresIn toks < 2 ^ 33"
      using assms(1) g unfolding lasting_grants_def by (metis (mono_tags) sum.simps(6))+
    have p: "0 < TX_ExpiresIn toks" using l(1) assms(2,3) by (simp add: defaultRefreshLead_def second_def minute_def)
    have "TX_ExpiresIn toks * second < 2 ^ 63" using l(2) by (simp add: second_def)
    then have "wrap64 (TX_ExpiresIn toks * second) = TX_ExpiresIn toks * second"
      using p by (intro wrap64_id) (simp_all add: second_def)
    then have "tokenExpiryFrom (cw_now w) (TX_ExpiresIn toks) > deadline + defaultRefreshLead"
      using l(1) p assms(2) by (simp add: tokenExpiryFrom_def dur_mul_def)
    then show ?thesis using row by (simp add: quiet_def c' Conn_RefreshTokens_def)
  qed (use row in \<open>simp add: quiet_def Conn_MarkExpired_def\<close>)
qed

definition grant_inv :: "(nat \<Rightarrow> refresh_call) \<Rightarrow> nat \<Rightarrow> time \<Rightarrow> time \<Rightarrow> refresh_state \<Rightarrow> bool" where
  "grant_inv calls n t0 deadline s \<longleftrightarrow>
     conn_inv (rs_world s) \<and> t0 \<le> cw_now (rs_world s) \<and> cw_now (rs_world s) \<le> deadline
     \<and> (\<forall>k m c. rs_progress s k = Deciding m c \<longrightarrow> conn_of (rs_world s) (rc_id (calls k)) = Some c \<and> Conn_Status c = StatusActive
          \<and> (\<not> rp_force (rc_params (calls k)) \<longrightarrow> \<not> quiet deadline (rs_world s) (rc_id (calls k))))"

text \<open>The unforced callers of a connection whose refresh asked the provider.\<close>

definition granted :: "(nat \<Rightarrow> refresh_call) \<Rightarrow> ConnectionID \<Rightarrow> refresh_state \<Rightarrow> nat set" where
  "granted calls i s = {k. rc_id (calls k) = i \<and> \<not> rp_force (rc_params (calls k)) \<and> rs_progress s k = Returned True}"

definition one_grant :: "(nat \<Rightarrow> refresh_call) \<Rightarrow> time \<Rightarrow> refresh_state \<Rightarrow> bool" where
  "one_grant calls deadline s \<longleftrightarrow>
     (\<forall>i. granted calls i s = {} \<or> quiet deadline (rs_world s) i \<and> (\<exists>k. granted calls i s = {k}))"

lemma decision_due:
  assumes "refresh_decision org i params w = Inr c" and "cw_now w \<le> deadline" and "rp_lead params \<le> defaultRefreshLead"
  shows "conn_of w i = Some c" and "Conn_Status c = StatusActive" and "\<not> rp_force params \<Longrightarrow> \<not> quiet deadline w i"
  using assms by (auto simp: refresh_decision_def dueForRefresh_def Conn_needsRefresh_def Conn_needsProactiveRefresh_def
      quiet_def defaultRefreshLead_def minute_def second_def split: option.splits if_splits)

lemma grant_step:
  assumes step: "refresh_step env calls n elsewhere s s'" and clock: "\<And>w w'. elsewhere w w' \<Longrightarrow> clock_until deadline w w'" and lock: "lock_inv calls n s"
    and inv: "grant_inv calls n t0 deadline s" and one: "one_grant calls deadline s"
    and lasting: "lasting_grants env (deadline - t0)"
    and calls: "\<And>k. rp_lead (rc_params (calls k)) \<le> defaultRefreshLead \<and> rp_deniedReason (rc_params (calls k)) \<in> expired_reasons"
  shows "grant_inv calls n t0 deadline s' \<and> one_grant calls deadline s'"
  using step
proof cases
  case (enters k m l)
  then have "granted calls i s' = granted calls i s" for i by (auto simp: granted_def)
  then show ?thesis using inv one enters by (auto simp: grant_inv_def one_grant_def)
next
  case (locks k m l)
  then have "granted calls i s' = granted calls i s" for i by (auto simp: granted_def)
  then show ?thesis using inv one locks by (auto simp: grant_inv_def one_grant_def)
next
  case (returns_row k m r)
  then have "granted calls i s' = granted calls i s" for i by (auto simp: granted_def returns_def)
  then show ?thesis using inv one returns_row by (auto simp: grant_inv_def one_grant_def returns_def)
next
  case (decides k m c)
  then have g: "granted calls i s' = granted calls i s" for i by (auto simp: granted_def)
  have "cw_now (rs_world s) \<le> deadline" using inv by (simp add: grant_inv_def)
  note due = decision_due [OF decides(3) this conjunct1 [OF calls]]
  show ?thesis using inv one decides g due by (auto simp: grant_inv_def one_grant_def)
next
  case (happens w)
  obtain t where ticks: "s' = s\<lparr>rs_world := (rs_world s)\<lparr>cw_now := t\<rparr>\<rparr>" "cw_now (rs_world s) \<le> t" "t \<le> deadline"
    using clock [OF happens(2)] happens(1) by (auto simp: clock_until_def)
  then have "granted calls i s' = granted calls i s" for i by (auto simp: granted_def)
  then show ?thesis using inv one ticks by (auto simp: grant_inv_def one_grant_def quiet_def conn_inv_def)
next
  case (refreshes k m c r w')
  let ?w = "rs_world s" and ?i = "rc_id (calls k)"
  have c: "conn_of ?w ?i = Some c" "Conn_Status c = StatusActive" "\<not> rp_force (rc_params (calls k)) \<Longrightarrow> \<not> quiet deadline ?w ?i"
    and t: "t0 \<le> cw_now ?w" "cw_now ?w \<le> deadline" and ci: "conn_inv ?w"
    using inv refreshes(2) by (auto simp: grant_inv_def)
  have id: "Conn_ID c = ?i" by (rule found_id [OF ci c(1)])
  have row: "conn_of ?w (Conn_ID c) = Some c" using c(1) id by simp
  note run = refreshConnection_run [OF refreshes(3) row conjunct2 [OF calls]]
  have now: "cw_now w' = cw_now ?w"
    using refreshes(3) not_refreshable [of env c] refreshConnection_answered [OF lasting_answers [OF _ lasting] _ row c(2) refreshes(3)] t
    by (cases "refreshable env c") (auto dest: arg_cong [of _ _ snd])
  have inv': "conn_inv w'" using run(1) ci by (simp add: evolves_def)
  have others: "conn_of w' j = conn_of ?w j" if "j \<noteq> ?i" for j using run(2) that id by simp
  then have q: "quiet deadline w' j \<longleftrightarrow> quiet deadline ?w j" if "j \<noteq> ?i" for j using that by (simp add: quiet_def)
  have sole: "j = k" if "rs_progress s j = Deciding m' d" "rc_id (calls j) = ?i" for j m' d
    by (rule exclusive [OF lock]) (use that refreshes(2) in simp_all)
  have gi: "grant_inv calls n t0 deadline s'"
    using inv refreshes(1) inv' t now others q sole by (auto simp: grant_inv_def returns_def) metis+
  have "granted calls i s' = {} \<or> quiet deadline w' i \<and> (\<exists>j. granted calls i s' = {j})" for i
  proof (cases "i = ?i")
    case False
    then have "granted calls i s' = granted calls i s" using refreshes(1) by (auto simp: granted_def returns_def)
    then show ?thesis using one q [OF False] by (simp add: one_grant_def)
  next
    case True
    show ?thesis
    proof (cases "refreshable env c")
      case False
      then have w': "w' = ?w" using not_refreshable [OF False] refreshes(3) by (metis snd_conv)
      then have "granted calls i s' = granted calls i s" using refreshes(1,2) by (auto simp: granted_def returns_def)
      then show ?thesis using one w' by (simp add: one_grant_def)
    next
      case ref: True
      have quiet: "quiet deadline w' i" using refresh_quiet [OF lasting t ref row c(2) refreshes(3)] id True by simp
      have sub: "granted calls i s' \<subseteq> (if rp_force (rc_params (calls k)) then granted calls i s else insert k (granted calls i s))"
        using refreshes(1,2) by (auto simp: granted_def returns_def split: if_splits)
      have "rp_force (rc_params (calls k)) \<or> granted calls i s = {}" using one c(3) True by (auto simp: one_grant_def)
      then show ?thesis using sub one quiet unfolding one_grant_def by (metis subset_singletonD subset_empty)
    qed
  qed
  then have "one_grant calls deadline s'" using refreshes(1) by (simp add: one_grant_def returns_def)
  with gi show ?thesis by simp
qed

text \<open>
  C23: One refresh of a connection at a time. Any number of callers may refresh connections at once, in any
  interleaving of their steps with anything that may happen elsewhere: \<open>lockFor\<close> gives all callers of a connection
  the one mutex of the connection, so no two of them are ever inside the section of the same connection, callers of
  different connections get different mutexes, and as long as a caller has not returned, some caller can take its next
  step. One refresh is also enough, provided that meanwhile only the clock moves, up to a deadline, and that every grant is
  refused or answered with tokens that outlast the deadline and the proactive lead: then of the callers that ask about
  freshness (the scheduler, the requests) at most one per connection runs a grant, the others find the row it left.
\<close>

theorem one_refresh_per_connection:
  assumes "conn_inv w0"
    and "\<And>k. rp_lead (rc_params (calls k)) \<le> defaultRefreshLead \<and> rp_deniedReason (rc_params (calls k)) \<in> expired_reasons"
    and run: "(refresh_step env calls n elsewhere)\<^sup>*\<^sup>* (refresh_start w0) s"
  shows "(\<forall>j k. in_section (rs_progress s j) \<and> in_section (rs_progress s k) \<and> rc_id (calls j) = rc_id (calls k) \<longrightarrow> j = k)
    \<and> (\<forall>j k a b. knows (rs_progress s j) a \<and> knows (rs_progress s k) b \<longrightarrow> (a = b \<longleftrightarrow> rc_id (calls j) = rc_id (calls k)))
    \<and> ((\<exists>k < n. \<forall>b. rs_progress s k \<noteq> Returned b) \<longrightarrow>
         (\<exists>j s'. refresh_step env calls n elsewhere s s' \<and> rs_progress s' j \<noteq> rs_progress s j))
    \<and> ((\<forall>w w'. elsewhere w w' \<longrightarrow> clock_until deadline w w') \<and> cw_now w0 \<le> deadline
         \<and> lasting_grants env (deadline - cw_now w0) \<longrightarrow>
         card {k. k < n \<and> rc_id (calls k) = i \<and> \<not> rp_force (rc_params (calls k)) \<and> rs_progress s k = Returned True} \<le> 1)"
proof -
  have start: "lock_inv calls n (refresh_start w0)" by (simp add: refresh_start_def newRefreshLocks_def lock_inv_def)
  have lock: "lock_inv calls n s" using run
    by (induction rule: rtranclp_induct) (auto intro: start lock_step_inv)
  have excl: "\<forall>j k. in_section (rs_progress s j) \<and> in_section (rs_progress s k) \<and> rc_id (calls j) = rc_id (calls k) \<longrightarrow> j = k"
    using exclusive [OF lock] by blast
  have same: "\<forall>j k a b. knows (rs_progress s j) a \<and> knows (rs_progress s k) b \<longrightarrow> (a = b \<longleftrightarrow> rc_id (calls j) = rc_id (calls k))"
    using lock_invD(2,3) [OF lock] by (metis option.inject)
  have live: "(\<exists>k < n. \<forall>b. rs_progress s k \<noteq> Returned b) \<longrightarrow>
      (\<exists>j s'. refresh_step env calls n elsewhere s s' \<and> rs_progress s' j \<noteq> rs_progress s j)"
    using can_go_on [OF lock] by blast
  have "card {k. k < n \<and> rc_id (calls k) = i \<and> \<not> rp_force (rc_params (calls k)) \<and> rs_progress s k = Returned True} \<le> 1"
    if clock: "\<forall>w w'. elsewhere w w' \<longrightarrow> clock_until deadline w w'" and now: "cw_now w0 \<le> deadline"
      and lasting: "lasting_grants env (deadline - cw_now w0)"
  proof -
    have c: "clock_until deadline w w'" if "elsewhere w w'" for w w' using clock that by blast
    have "lock_inv calls n s \<and> grant_inv calls n (cw_now w0) deadline s \<and> one_grant calls deadline s"
      using run
    proof (induction rule: rtranclp_induct)
      case base
      then show ?case using start assms(1) now by (simp add: refresh_start_def grant_inv_def one_grant_def granted_def)
    next
      case (step y z)
      then show ?case using lock_step_inv [OF step.hyps(2)] grant_step [OF step.hyps(2) c _ _ _ lasting assms(2)] by blast
    qed
    then have "granted calls i s = {} \<or> (\<exists>k. granted calls i s = {k})" by (auto simp: one_grant_def)
    then have g: "card (granted calls i s) \<le> 1" "finite (granted calls i s)" by auto
    have "{k. k < n \<and> rc_id (calls k) = i \<and> \<not> rp_force (rc_params (calls k)) \<and> rs_progress s k = Returned True} \<subseteq> granted calls i s"
      by (auto simp: granted_def)
    from le_trans [OF card_mono [OF g(2) this] g(1)] show ?thesis .
  qed
  with excl same live show ?thesis by blast
qed


section \<open>Two callers\<close>

text \<open>
  The scheduler and a request refresh one due connection: the request waits for the mutex the scheduler got, and then
  returns the row the scheduler left.
\<close>

definition two_world :: conn_world where
  "two_world = conn_demo_world\<lparr>cw_store := conn_NewRepository\<lparr>cs_byID := [(Conn_ID conn_demo_due, conn_demo_due)]\<rparr>\<rparr>"

definition two_calls :: "nat \<Rightarrow> refresh_call" where
  "two_calls k = \<lparr>rc_org = ''org_1'', rc_id = Conn_ID conn_demo_due, rc_params =
      \<lparr>rp_force = False, rp_lead = defaultRefreshLead, rp_deniedReason = ExpiredReasonRefreshDenied\<rparr>\<rparr>"

lemma two_facts:
  "conn_inv two_world" "cw_now two_world = 0" "lasting_grants conn_demo 0" "refreshable conn_demo conn_demo_due"
  "conn_of two_world (Conn_ID conn_demo_due) = Some conn_demo_due" "Conn_Status conn_demo_due = StatusActive"
  "Conn_OrgID conn_demo_due = ''org_1''" "\<not> quiet 0 two_world (Conn_ID conn_demo_due)"
proof -
  have id: "Conn_ID conn_demo_due = sequential_id ''conn_'' 0"
    by (simp add: conn_demo_due_def Conn_Activate_def conn_demo_row_def NewConnection_def)
  show "conn_inv two_world"
    by (auto simp: two_world_def conn_inv_def conn_demo_world_def conn_start_def conn_NewRepository_def keyed_def id minted_def)
  show "cw_now two_world = 0" by (simp add: two_world_def conn_demo_world_def conn_start_def)
  show "lasting_grants conn_demo 0" by (simp add: lasting_grants_def conn_demo_def defaultRefreshLead_def minute_def second_def)
  have "vault_Decrypt sample_crypto conn_demo_sealed = Inr ''rt''"
    using sample_crypto_opens by (simp add: vault_Decrypt_def conn_demo_sealed_def DecodeString_EncodeToString nonceSize_def gcm_opens_sealed_def)
  then show "refreshable conn_demo conn_demo_due" by (simp add: refreshable_def conn_demo_def conn_demo_due_def Conn_Activate_def)
  show row: "conn_of two_world (Conn_ID conn_demo_due) = Some conn_demo_due" by (simp add: two_world_def conn_NewRepository_def)
  show "Conn_Status conn_demo_due = StatusActive" "Conn_OrgID conn_demo_due = ''org_1''"
    by (simp_all add: conn_demo_due_def Conn_Activate_def conn_demo_row_def NewConnection_def)
  then show "\<not> quiet 0 two_world (Conn_ID conn_demo_due)"
    unfolding quiet_def row by (simp add: conn_demo_due_def Conn_Activate_def defaultRefreshLead_def minute_def second_def)
qed

lemma two_callers:
  "\<exists>s b. (refresh_step conn_demo two_calls 2 (clock_until 0))\<^sup>*\<^sup>* (refresh_start two_world) s
     \<and> rs_progress s 0 = Returned True \<and> rs_progress s 1 = Returned b"
proof -
  let ?step = "refresh_step conn_demo two_calls 2 (clock_until 0)" and ?i = "Conn_ID conn_demo_due"
  let ?L = "\<lambda>b. \<lparr>rl_locked = [b], rl_byConn = [(?i, 0)]\<rparr>"
  let ?s = "\<lambda>w b p q. \<lparr>rs_world = w, rs_locks = ?L b, rs_progress = (\<lambda>_. Entering)(0 := p, 1 := q)\<rparr>"
  have enter0: "?step (refresh_start two_world) (?s two_world False (Waiting 0) Entering)"
    using refresh_step.enters [of 0 2 "refresh_start two_world" two_calls 0 "?L False" conn_demo "clock_until 0"]
    by (simp add: refresh_start_def lockFor_def newRefreshLocks_def two_calls_def fun_upd_idem)
  have enter1: "?step (?s two_world False (Waiting 0) Entering) (?s two_world False (Waiting 0) (Waiting 0))"
    using refresh_step.enters [of 1 2 "?s two_world False (Waiting 0) Entering" two_calls 0 "?L False" conn_demo "clock_until 0"]
    by (simp add: lockFor_def two_calls_def fun_upd_twist)
  have lock0: "?step (?s two_world False (Waiting 0) (Waiting 0)) (?s two_world True (Holding 0) (Waiting 0))"
    using refresh_step.locks [of "?s two_world False (Waiting 0) (Waiting 0)" 0 0 "?L True" conn_demo two_calls 2 "clock_until 0"]
    by (simp add: mutex_Lock_def fun_upd_twist)
  have "refresh_decision (rc_org (two_calls 0)) (rc_id (two_calls 0)) (rc_params (two_calls 0)) two_world = Inr conn_demo_due"
    using two_facts by (simp add: refresh_decision_def two_calls_def dueForRefresh_def Conn_needsProactiveRefresh_def
        quiet_def defaultRefreshLead_def minute_def second_def conn_demo_due_def Conn_Activate_def)
  then have decide0: "?step (?s two_world True (Holding 0) (Waiting 0)) (?s two_world True (Deciding 0 conn_demo_due) (Waiting 0))"
    using refresh_step.decides [of "?s two_world True (Holding 0) (Waiting 0)" 0 0 two_calls conn_demo_due conn_demo 2 "clock_until 0"]
    by (simp add: fun_upd_twist)
  obtain r w1 where run: "refreshConnection (conn_F conn_demo) conn_demo_due ExpiredReasonRefreshDenied two_world = (r, w1)" by fastforce
  have "quiet 0 w1 ?i"
    by (rule refresh_quiet [where ?t0.0 = 0, OF _ _ _ two_facts(4,5,6) run]) (simp_all add: two_facts)
  then have "w1 \<noteq> two_world" using two_facts(8) by blast
  then have asked: "cw_grants w1 \<noteq> cw_grants two_world" using refresh_traffic [OF run] by (auto simp: traffic_view_def)
  have refresh0: "?step (?s two_world True (Deciding 0 conn_demo_due) (Waiting 0)) (?s w1 False (Returned True) (Waiting 0))"
    using refresh_step.refreshes [of "?s two_world True (Deciding 0 conn_demo_due) (Waiting 0)" 0 0 conn_demo_due conn_demo two_calls r w1 2
        "clock_until 0"] run asked
    by (simp add: returns_def mutex_Unlock_def two_calls_def fun_upd_twist)
  have lock1: "?step (?s w1 False (Returned True) (Waiting 0)) (?s w1 True (Returned True) (Holding 0))"
    using refresh_step.locks [of "?s w1 False (Returned True) (Waiting 0)" 1 0 "?L True" conn_demo two_calls 2 "clock_until 0"]
    by (simp add: mutex_Lock_def fun_upd_twist)
  have "\<exists>s b. ?step\<^sup>*\<^sup>* (?s w1 True (Returned True) (Holding 0)) s \<and> rs_progress s 0 = Returned True \<and> rs_progress s 1 = Returned b"
  proof (cases "refresh_decision (rc_org (two_calls 1)) (rc_id (two_calls 1)) (rc_params (two_calls 1)) w1")
    case (Inl x)
    let ?t = "?s w1 True (Returned True) (Holding 0)"
    have "?step ?t (returns 1 0 w1 False ?t)"
      using refresh_step.returns_row [of ?t 1 0 two_calls x conn_demo 2 "clock_until 0"] Inl by simp
    moreover have "rs_progress (returns 1 0 w1 False ?t) 0 = Returned True" "rs_progress (returns 1 0 w1 False ?t) 1 = Returned False"
      by (simp_all add: returns_def)
    ultimately show ?thesis by blast
  next
    case (Inr c)
    let ?t = "?s w1 True (Returned True) (Holding 0)"
    let ?u = "?t\<lparr>rs_progress := (rs_progress ?t)(1 := Deciding 0 c)\<rparr>"
    have 1: "?step ?t ?u"
      using refresh_step.decides [of ?t 1 0 two_calls c conn_demo 2 "clock_until 0"] Inr by simp
    obtain x w2 where "refreshConnection (conn_F conn_demo) c (rp_deniedReason (rc_params (two_calls 1))) w1 = (x, w2)" by fastforce
    then have 2: "?step ?u (returns 1 0 w2 (cw_grants w2 \<noteq> cw_grants w1) ?u)"
      using refresh_step.refreshes [of ?u 1 0 c conn_demo two_calls x w2 2 "clock_until 0"] by simp
    moreover have "rs_progress (returns 1 0 w2 g ?u) 0 = Returned True" "rs_progress (returns 1 0 w2 g ?u) 1 = Returned g" for g
      by (simp_all add: returns_def)
    ultimately show ?thesis using 1 by (meson converse_rtranclp_into_rtranclp r_into_rtranclp)
  qed
  then obtain s b where s: "?step\<^sup>*\<^sup>* (?s w1 True (Returned True) (Holding 0)) s" "rs_progress s 0 = Returned True"
    "rs_progress s 1 = Returned b" by blast
  note c = converse_rtranclp_into_rtranclp
  have "?step\<^sup>*\<^sup>* (refresh_start two_world) s"
    by (rule c [OF enter0 c [OF enter1 c [OF lock0 c [OF decide0 c [OF refresh0 c [OF lock1 s(1)]]]]]])
  then show ?thesis using s(2,3) by blast
qed

lemma one_refresh_per_connection_witness:
  "\<exists>s. (refresh_step conn_demo two_calls 2 (clock_until 0))\<^sup>*\<^sup>* (refresh_start two_world) s
     \<and> rs_progress s 0 = Returned True \<and> rs_progress s 1 = Returned False"
proof -
  obtain s b where run: "(refresh_step conn_demo two_calls 2 (clock_until 0))\<^sup>*\<^sup>* (refresh_start two_world) s"
    and s: "rs_progress s 0 = Returned True" "rs_progress s 1 = Returned b" using two_callers by blast
  have calls: "rp_lead (rc_params (two_calls k)) \<le> defaultRefreshLead \<and> rp_deniedReason (rc_params (two_calls k)) \<in> expired_reasons" for k
    by (simp add: two_calls_def reasons)
  have "card {k. k < 2 \<and> rc_id (two_calls k) = Conn_ID conn_demo_due \<and> \<not> rp_force (rc_params (two_calls k))
      \<and> rs_progress s k = Returned True} \<le> 1"
    using one_refresh_per_connection [OF two_facts(1) calls run, of 0 "Conn_ID conn_demo_due"] two_facts(2,3) by simp
  moreover have "{k. k < 2 \<and> rc_id (two_calls k) = Conn_ID conn_demo_due \<and> \<not> rp_force (rc_params (two_calls k))
      \<and> rs_progress s k = Returned True} = {0, 1}" if b
    using s that by (auto simp: two_calls_def less_2_cases_iff)
  moreover have "card {0, 1 :: nat} = 2" by simp
  ultimately have "\<not> b" by fastforce
  then have "rs_progress s 1 = Returned False" using s(2) by simp
  with run s(1) show ?thesis by blast
qed

end
