(* ===== verification/AccessMemory.thy ===== *)
theory AccessMemory
  imports AccessKeys
begin

text \<open>
  \<open>internal/access/driven/memory\<close>: the in-memory adapters of the machine credentials' ports and
  the facade over them, with the contract the rotation of secrets relies on (a locale, for API
  keys and for webhook signing secrets alike) and the properties of keys and secrets.
\<close>

section \<open>The repositories\<close>

record acc_store =
  as_keys :: "(string, ServerApiKey) table"
  as_secrets :: "(string, ApiKeySecret) table"

definition acc_mem_SaveKey :: "ServerApiKey \<Rightarrow> (acc_store, unit) act" where
  "acc_mem_SaveKey key r = (Inr (), r\<lparr>as_keys := put (Key_ID key) key (as_keys r)\<rparr>)"

definition sortKeysByCreatedAt :: "ServerApiKey list \<Rightarrow> ServerApiKey list" where
  "sortKeysByCreatedAt keys = sort_key Key_CreatedAt keys"

definition acc_mem_ListByOrg :: "string \<Rightarrow> (acc_store, ServerApiKey list) act" where
  "acc_mem_ListByOrg org r =
     (Inr (sortKeysByCreatedAt (filter (\<lambda>key. Key_OrgID key = org) (rows (as_keys r)))), r)"

definition acc_mem_FindByID :: "string \<Rightarrow> string \<Rightarrow> (acc_store, ServerApiKey option) act" where
  "acc_mem_FindByID org i r =
     (case map_of (as_keys r) i of
        None \<Rightarrow> (Inr None, r)
      | Some key \<Rightarrow> if Key_OrgID key \<noteq> org then (Inr None, r) else (Inr (Some key), r))"

definition acc_mem_MarkRevoked :: "string \<Rightarrow> string \<Rightarrow> time \<Rightarrow> (acc_store, unit) act" where
  "acc_mem_MarkRevoked org i revokedAt r =
     (case map_of (as_keys r) i of
        None \<Rightarrow> (Inr (), r)
      | Some key \<Rightarrow>
          if Key_OrgID key \<noteq> org then (Inr (), r)
          else (Inr (), r\<lparr>as_keys := put i (key\<lparr>Key_RevokedAt := Some revokedAt\<rparr>) (as_keys r)\<rparr>))"

definition acc_mem_Save :: "string \<Rightarrow> ApiKeySecret \<Rightarrow> (acc_store, unit) act" where
  "acc_mem_Save org secret r = (Inr (), r\<lparr>as_secrets := put (AKS_ID secret) secret (as_secrets r)\<rparr>)"

definition aks_key :: "ApiKeySecret \<Rightarrow> time \<times> string" where
  "aks_key s = (AKS_CreatedAt s, AKS_ID s)"

definition sortSecretsByCreatedAt :: "ApiKeySecret list \<Rightarrow> ApiKeySecret list" where
  "sortSecretsByCreatedAt secrets = oldest_first_by aks_key secrets"

definition acc_mem_ListByKeyID :: "string \<Rightarrow> string \<Rightarrow> (acc_store, ApiKeySecret list) act" where
  "acc_mem_ListByKeyID org keyID r =
     (Inr (sortSecretsByCreatedAt (filter (\<lambda>s. AKS_KeyID s = keyID) (rows (as_secrets r)))), r)"

definition acc_mem_MarkExpiring :: "string \<Rightarrow> string \<Rightarrow> time \<Rightarrow> (acc_store, unit) act" where
  "acc_mem_MarkExpiring org i expiresAt r =
     (case map_of (as_secrets r) i of
        None \<Rightarrow> (Inr (), r)
      | Some secret \<Rightarrow>
          (Inr (), r\<lparr>as_secrets := put i (secret\<lparr>AKS_ExpiresAt := Some expiresAt\<rparr>) (as_secrets r)\<rparr>))"

fun prefix_candidates :: "(string, ServerApiKey) table \<Rightarrow> string \<Rightarrow> ApiKeySecret list \<Rightarrow> ApiKeySecretCandidate list"
where
  "prefix_candidates keys prefix [] = []"
| "prefix_candidates keys prefix (secret # secrets) =
     (if AKS_LookupPrefix secret \<noteq> prefix then prefix_candidates keys prefix secrets
      else (case map_of keys (AKS_KeyID secret) of
              None \<Rightarrow> prefix_candidates keys prefix secrets
            | Some key \<Rightarrow>
                \<lparr>Cand_KeyID = Key_ID key, Cand_OrgID = Key_OrgID key, Cand_Scope = Key_Scope key,
                 Cand_RevokedAt = Key_RevokedAt key, Cand_Secret = secret\<rparr>
                # prefix_candidates keys prefix secrets))"

definition sortCandidatesBySecretCreatedAt :: "ApiKeySecretCandidate list \<Rightarrow> ApiKeySecretCandidate list" where
  "sortCandidatesBySecretCreatedAt candidates = oldest_first_by (\<lambda>c. aks_key (Cand_Secret c)) candidates"

definition acc_mem_FindByPrefix :: "string \<Rightarrow> (acc_store, ApiKeySecretCandidate list) act" where
  "acc_mem_FindByPrefix prefix r =
     (Inr (sortCandidatesBySecretCreatedAt (prefix_candidates (as_keys r) prefix (rows (as_secrets r)))), r)"

text \<open>Signing secrets and webhook secrets have repositories of their own.\<close>

type_synonym signing_store = "(string, SigningSecret) table"
type_synonym webhook_store = "(string, WebhookSigningSecret) table"

definition ss_mem_Save :: "SigningSecret \<Rightarrow> (signing_store, unit) act" where
  "ss_mem_Save secret r = (Inr (), put (SS_ID secret) secret r)"

definition ss_mem_ListByOrg :: "string \<Rightarrow> (signing_store, SigningSecret list) act" where
  "ss_mem_ListByOrg org r = (Inr (sort_key SS_CreatedAt (filter (\<lambda>s. SS_OrgID s = org) (rows r))), r)"

definition ss_mem_FindByKid :: "string \<Rightarrow> (signing_store, SigningSecret option) act" where
  "ss_mem_FindByKid i r = (Inr (map_of r i), r)"

definition wss_mem_Save :: "WebhookSigningSecret \<Rightarrow> (webhook_store, unit) act" where
  "wss_mem_Save secret r = (Inr (), put (WSS_ID secret) secret r)"

definition sortWebhookSecretsByCreatedAt :: "WebhookSigningSecret list \<Rightarrow> WebhookSigningSecret list" where
  "sortWebhookSecretsByCreatedAt secrets = oldest_first_by (\<lambda>s. (WSS_CreatedAt s, WSS_ID s)) secrets"

definition wss_mem_ListByEndpoint :: "string \<Rightarrow> string \<Rightarrow> (webhook_store, WebhookSigningSecret list) act" where
  "wss_mem_ListByEndpoint org endpoint r =
     (Inr (sortWebhookSecretsByCreatedAt
        (filter (\<lambda>s. WSS_OrgID s = org \<and> WSS_EndpointID s = endpoint) (rows r))), r)"

definition wss_mem_MarkExpiring :: "string \<Rightarrow> string \<Rightarrow> time \<Rightarrow> (webhook_store, unit) act" where
  "wss_mem_MarkExpiring org i expiresAt r =
     (case map_of r i of
        None \<Rightarrow> (Inr (), r)
      | Some secret \<Rightarrow> (Inr (), put i (secret\<lparr>WSS_ExpiresAt := Some expiresAt\<rparr>) r))"

text \<open>
  The facade over them (\<open>driven/memory/configuration.go\<close>). The world holds the repositories,
  the id counters, the clock and a tape of random bytes, whose end is the only failure of
  \<open>rand.Read\<close>.
\<close>

record acc_world =
  aw_store :: acc_store
  aw_signing :: signing_store
  aw_webhooks :: webhook_store
  aw_keys_minted :: nat
  aw_secrets_minted :: nat
  aw_signing_minted :: nat
  aw_webhooks_minted :: nat
  aw_now :: time
  aw_rand :: string

definition acc_sequentialIDs :: "string \<Rightarrow> nat \<Rightarrow> string \<times> nat" where
  "acc_sequentialIDs prefix n = (sequential_id prefix n, Suc n)"

definition tape_Read :: "nat \<Rightarrow> (acc_world, string) act" where
  "tape_Read n w =
     (if length (aw_rand w) < n then (Inl (OtherError ''rand''), w)
      else (Inr (take n (aw_rand w)), w\<lparr>aw_rand := drop n (aw_rand w)\<rparr>))"

definition acc_memory_facade :: "crypto \<Rightarrow> acc_world acc_facade" where
  "acc_memory_facade c =
     \<lparr>acc_repo_SaveKey = (\<lambda>k. zoom aw_store aw_store_update (acc_mem_SaveKey k)),
      acc_repo_ListByOrg = (\<lambda>org. zoom aw_store aw_store_update (acc_mem_ListByOrg org)),
      acc_repo_FindByID = (\<lambda>org i. zoom aw_store aw_store_update (acc_mem_FindByID org i)),
      acc_repo_MarkRevoked = (\<lambda>org i t. zoom aw_store aw_store_update (acc_mem_MarkRevoked org i t)),
      acc_prefixLookup_FindByPrefix = (\<lambda>p. zoom aw_store aw_store_update (acc_mem_FindByPrefix p)),
      acc_apiKeySecrets_Save = (\<lambda>org s. zoom aw_store aw_store_update (acc_mem_Save org s)),
      acc_apiKeySecrets_ListByKeyID = (\<lambda>org i. zoom aw_store aw_store_update (acc_mem_ListByKeyID org i)),
      acc_apiKeySecrets_MarkExpiring =
        (\<lambda>org i t. zoom aw_store aw_store_update (acc_mem_MarkExpiring org i t)),
      acc_signingSecrets_Save = (\<lambda>s. zoom aw_signing aw_signing_update (ss_mem_Save s)),
      acc_signingSecrets_ListByOrg = (\<lambda>org. zoom aw_signing aw_signing_update (ss_mem_ListByOrg org)),
      acc_signingSecretLookup_FindByKid = (\<lambda>i. zoom aw_signing aw_signing_update (ss_mem_FindByKid i)),
      acc_webhookSecrets_Save = (\<lambda>s. zoom aw_webhooks aw_webhooks_update (wss_mem_Save s)),
      acc_webhookSecrets_ListByEndpoint =
        (\<lambda>org e. zoom aw_webhooks aw_webhooks_update (wss_mem_ListByEndpoint org e)),
      acc_webhookSecrets_MarkExpiring =
        (\<lambda>org i t. zoom aw_webhooks aw_webhooks_update (wss_mem_MarkExpiring org i t)),
      acc_crypto = c,
      acc_rand = tape_Read,
      acc_newID = zoom aw_keys_minted aw_keys_minted_update (acc_sequentialIDs ''key_''),
      acc_newSecretID = zoom aw_secrets_minted aw_secrets_minted_update (acc_sequentialIDs ''secret_''),
      acc_newSigningSecretID = zoom aw_signing_minted aw_signing_minted_update (acc_sequentialIDs ''usk_''),
      acc_newWebhookSecretID = zoom aw_webhooks_minted aw_webhooks_minted_update (acc_sequentialIDs ''whs_''),
      acc_now = (\<lambda>w. (aw_now w, w))\<rparr>"

section \<open>Rotation: the contract of a secret store\<close>

text \<open>
  What rotating relies on, for one owner (an API key, an endpoint of an organization): marking
  a secret sets its expiry and touches no other; the loop expires what the listing gave it.
  \<open>expiry s i\<close> is \<open>None\<close> when there is no secret \<open>i\<close>, \<open>Some None\<close> for an active one.
\<close>

locale secret_store =
  fixes secret :: "'s \<Rightarrow> string \<Rightarrow> 'x option"
    and expires :: "'x \<Rightarrow> time option"
    and ident :: "'x \<Rightarrow> string"
    and with_expiry :: "time \<Rightarrow> 'x \<Rightarrow> 'x"
    and mark :: "string \<Rightarrow> time \<Rightarrow> ('s, unit) act"
    and loop :: "'x list \<Rightarrow> time \<Rightarrow> time \<Rightarrow> ('s, unit) act"
  assumes mark_ok: "fst (mark i t s) = Inr ()"
    and mark_secret: "secret (snd (mark i t s)) =
      (case secret s i of None \<Rightarrow> secret s | Some x \<Rightarrow> (secret s)(i \<mapsto> with_expiry t x))"
    and ident_with_expiry [simp]: "ident (with_expiry t x) = ident x"
    and loop_Nil: "loop [] now t = ok ()"
    and loop_Cons: "loop (x # xs) now t =
      (case expires x of
         None \<Rightarrow> attempt (mark (ident x) t) (\<lambda>_. loop xs now t)
       | Some e \<Rightarrow> if \<not> now < e then loop xs now t
                   else attempt (mark (ident x) now) (\<lambda>_. loop xs now t))"
begin

lemma attempt_mark: "attempt (mark i t) k s = k () (snd (mark i t s))"
  using mark_ok [of i t s] by (cases "mark i t s") (simp add: attempt_apply)

text \<open>What the loop makes of a secret it was given.\<close>

definition retired :: "time \<Rightarrow> time \<Rightarrow> 'x \<Rightarrow> 'x" where
  "retired now t x =
     (case expires x of
        None \<Rightarrow> with_expiry t x
      | Some e \<Rightarrow> if \<not> now < e then x else with_expiry now x)"

lemma loop_effect:
  assumes "distinct (map ident xs)" and "\<forall>x \<in> set xs. secret s (ident x) = Some x"
  shows "fst (loop xs now t s) = Inr () \<and>
    (\<forall>i. secret (snd (loop xs now t s)) i =
       (case secret s i of None \<Rightarrow> None
        | Some y \<Rightarrow> Some (if i \<in> ident ` set xs then retired now t y else y)))"
  using assms
proof (induction xs arbitrary: s)
  case Nil
  then show ?case by (simp add: loop_Nil split: option.split)
next
  case (Cons x xs)
  define m where "m = (if expires x = None then mark (ident x) t
                       else if now < the (expires x) then mark (ident x) now else ok ())"
  have run: "loop (x # xs) now t s = loop xs now t (snd (m s))"
    by (simp add: m_def loop_Cons attempt_mark split: option.split)
  have sec: "secret (snd (m s)) = (secret s)(ident x \<mapsto> retired now t x)"
    using Cons.prems(2) by (auto simp: m_def mark_secret retired_def fun_eq_iff split: option.split)
  have fresh: "ident x \<notin> ident ` set xs" using Cons.prems(1) by auto
  have keep: "\<forall>y \<in> set xs. secret (snd (m s)) (ident y) = Some y"
  proof
    fix y assume y: "y \<in> set xs"
    with fresh have "ident y \<noteq> ident x" by (metis image_eqI)
    with y Cons.prems(2) show "secret (snd (m s)) (ident y) = Some y" by (simp add: sec)
  qed
  have "distinct (map ident xs)" using Cons.prems(1) by simp
  note ih = Cons.IH [OF this keep]
  have sx: "secret s (ident x) = Some x" using Cons.prems(2) by simp
  show ?case unfolding run
  proof (intro conjI allI)
    show "fst (loop xs now t (snd (m s))) = Inr ()" using ih by blast
    fix i
    show "secret (snd (loop xs now t (snd (m s)))) i =
       (case secret s i of None \<Rightarrow> None
        | Some y \<Rightarrow> Some (if i \<in> ident ` set (x # xs) then retired now t y else y))"
      using ih sx fresh by (cases "i = ident x") (simp_all add: sec split: option.split)
  qed
qed

lemma loop_keeps: "(\<And>i t. keeps view (mark i t)) \<Longrightarrow> keeps view (loop xs now t)"
  by (induction xs) (auto simp: loop_Nil loop_Cons intro: keeps_attempt split: option.split)

lemma loop_preserves: "(\<And>i t. preserves P (mark i t)) \<Longrightarrow> preserves P (loop xs now t)"
  by (induction xs) (auto simp: loop_Nil loop_Cons intro: preserves_attempt split: option.split)

text \<open>After the loop only the secrets that were active are live, until the overlap ends.\<close>

lemma retired_live:
  assumes "\<And>t x. expires (with_expiry t x) = Some t"
    and "case expires (retired now t x) of None \<Rightarrow> True | Some e \<Rightarrow> now \<le> u \<and> u < e"
  shows "expires x = None \<and> expires (retired now t x) = Some t"
  using assms by (auto simp: retired_def split: option.splits if_splits)

end

section \<open>The in-memory secrets keep the contract\<close>

lemma acc_memory_ops [simp]:
  "acc_repo_SaveKey (acc_memory_facade c) = (\<lambda>k. zoom aw_store aw_store_update (acc_mem_SaveKey k))"
  "acc_repo_ListByOrg (acc_memory_facade c) = (\<lambda>org. zoom aw_store aw_store_update (acc_mem_ListByOrg org))"
  "acc_repo_FindByID (acc_memory_facade c) = (\<lambda>org i. zoom aw_store aw_store_update (acc_mem_FindByID org i))"
  "acc_repo_MarkRevoked (acc_memory_facade c) =
     (\<lambda>org i t. zoom aw_store aw_store_update (acc_mem_MarkRevoked org i t))"
  "acc_prefixLookup_FindByPrefix (acc_memory_facade c) =
     (\<lambda>p. zoom aw_store aw_store_update (acc_mem_FindByPrefix p))"
  "acc_apiKeySecrets_Save (acc_memory_facade c) = (\<lambda>org s. zoom aw_store aw_store_update (acc_mem_Save org s))"
  "acc_apiKeySecrets_ListByKeyID (acc_memory_facade c) =
     (\<lambda>org i. zoom aw_store aw_store_update (acc_mem_ListByKeyID org i))"
  "acc_apiKeySecrets_MarkExpiring (acc_memory_facade c) =
     (\<lambda>org i t. zoom aw_store aw_store_update (acc_mem_MarkExpiring org i t))"
  "acc_signingSecretLookup_FindByKid (acc_memory_facade c) =
     (\<lambda>i. zoom aw_signing aw_signing_update (ss_mem_FindByKid i))"
  "acc_webhookSecrets_Save (acc_memory_facade c) = (\<lambda>s. zoom aw_webhooks aw_webhooks_update (wss_mem_Save s))"
  "acc_webhookSecrets_ListByEndpoint (acc_memory_facade c) =
     (\<lambda>org e. zoom aw_webhooks aw_webhooks_update (wss_mem_ListByEndpoint org e))"
  "acc_webhookSecrets_MarkExpiring (acc_memory_facade c) =
     (\<lambda>org i t. zoom aw_webhooks aw_webhooks_update (wss_mem_MarkExpiring org i t))"
  "acc_crypto (acc_memory_facade c) = c"
  "acc_rand (acc_memory_facade c) = tape_Read"
  "acc_newID (acc_memory_facade c) =
     zoom aw_keys_minted aw_keys_minted_update (acc_sequentialIDs ''key_'')"
  "acc_newSecretID (acc_memory_facade c) =
     zoom aw_secrets_minted aw_secrets_minted_update (acc_sequentialIDs ''secret_'')"
  "acc_newWebhookSecretID (acc_memory_facade c) =
     zoom aw_webhooks_minted aw_webhooks_minted_update (acc_sequentialIDs ''whs_'')"
  "acc_now (acc_memory_facade c) = (\<lambda>w. (aw_now w, w))"
  by (simp_all add: acc_memory_facade_def)

interpretation key_secrets: secret_store
  "\<lambda>w. map_of (as_secrets (aw_store w))" AKS_ExpiresAt AKS_ID "\<lambda>t s. s\<lparr>AKS_ExpiresAt := Some t\<rparr>"
  "\<lambda>i t. acc_apiKeySecrets_MarkExpiring (acc_memory_facade c) org i t"
  "\<lambda>xs now t. expireLiveSecrets (acc_memory_facade c) org xs now t"
  by unfold_locales
    (auto simp: acc_mem_MarkExpiring_def AKS_IsExpired_def fun_eq_iff split: option.split)

interpretation webhook_secrets: secret_store
  "\<lambda>w. map_of (aw_webhooks w)" WSS_ExpiresAt WSS_ID "\<lambda>t s. s\<lparr>WSS_ExpiresAt := Some t\<rparr>"
  "\<lambda>i t. acc_webhookSecrets_MarkExpiring (acc_memory_facade c) org i t"
  "\<lambda>xs now t. expireLiveWebhookSecrets (acc_memory_facade c) org xs now t"
  by unfold_locales
    (auto simp: wss_mem_MarkExpiring_def WSS_IsExpired_def fun_eq_iff split: option.split)

text \<open>The loop touches nothing but the secrets, and they stay well keyed.\<close>

definition sans_secrets :: "acc_world \<Rightarrow> acc_world" where
  "sans_secrets w = w\<lparr>aw_store := (aw_store w)\<lparr>as_secrets := []\<rparr>\<rparr>"

lemma expireLiveSecrets_keeps: "keeps sans_secrets (expireLiveSecrets (acc_memory_facade c) org xs now t)"
  by (rule key_secrets.loop_keeps)
    (auto intro!: keepsI simp: sans_secrets_def acc_mem_MarkExpiring_def split: option.split)

lemma expireLiveSecrets_keyed:
  "preserves (\<lambda>w. keyed AKS_ID (as_secrets (aw_store w)))
     (expireLiveSecrets (acc_memory_facade c) org xs now t)"
proof (rule key_secrets.loop_preserves, rule preservesI)
  fix i t and s :: acc_world assume k: "keyed AKS_ID (as_secrets (aw_store s))"
  show "keyed AKS_ID (as_secrets (aw_store
      (snd (acc_apiKeySecrets_MarkExpiring (acc_memory_facade c) org i t s))))"
  proof (cases "map_of (as_secrets (aw_store s)) i")
    case (Some x)
    from keyed_lookup [OF k Some] k Some show ?thesis
      by (simp add: acc_mem_MarkExpiring_def keyed_put)
  qed (simp add: acc_mem_MarkExpiring_def k)
qed

section \<open>The invariant of keys and secrets\<close>

text \<open>
  Rows are stored under their ids; every secret belongs to a stored key; a key has at most one
  active secret (one without an expiry); the ids handed out are the ones counted so far.
\<close>

definition acc_inv :: "acc_world \<Rightarrow> bool" where
  "acc_inv w \<longleftrightarrow>
     keyed Key_ID (as_keys (aw_store w)) \<and> keyed AKS_ID (as_secrets (aw_store w))
     \<and> (\<forall>i s. map_of (as_secrets (aw_store w)) i = Some s \<longrightarrow>
          map_of (as_keys (aw_store w)) (AKS_KeyID s) \<noteq> None \<and> minted ''secret_'' (aw_secrets_minted w) i)
     \<and> (\<forall>i k. map_of (as_keys (aw_store w)) i = Some k \<longrightarrow> minted ''key_'' (aw_keys_minted w) i)
     \<and> (\<forall>i j s t. map_of (as_secrets (aw_store w)) i = Some s \<and> map_of (as_secrets (aw_store w)) j = Some t
          \<and> AKS_KeyID s = AKS_KeyID t \<and> AKS_ExpiresAt s = None \<and> AKS_ExpiresAt t = None \<longrightarrow> i = j)"

definition secrets_of :: "acc_world \<Rightarrow> string \<Rightarrow> ApiKeySecret option" where
  "secrets_of w = map_of (as_secrets (aw_store w))"

definition keys_of :: "acc_world \<Rightarrow> string \<Rightarrow> ServerApiKey option" where
  "keys_of w = map_of (as_keys (aw_store w))"

lemma sans_secrets_D:
  assumes "sans_secrets v = sans_secrets w"
  shows "as_keys (aw_store v) = as_keys (aw_store w)" and "aw_now v = aw_now w"
    and "aw_secrets_minted v = aw_secrets_minted w" and "aw_keys_minted v = aw_keys_minted w"
  using arg_cong [OF assms, of "\<lambda>w. as_keys (aw_store w)"] arg_cong [OF assms, of aw_now]
    arg_cong [OF assms, of aw_secrets_minted] arg_cong [OF assms, of aw_keys_minted]
  by (simp_all add: sans_secrets_def)

lemma generateSecret_Inr:
  assumes "generateSecret (acc_memory_facade c) w = (Inr secret, w')"
  shows "w' = w\<lparr>aw_rand := drop secretEntropyBytes (aw_rand w)\<rparr>"
    and "secret = SecretPrefix @ EncodeToString RawURLEncoding (take secretEntropyBytes (aw_rand w))"
    and "secretEntropyBytes \<le> length (aw_rand w)"
  using assms by (auto simp: generateSecret_def attempt_Inr_iff tape_Read_def split: if_splits)

text \<open>A successful rotation, step by step.\<close>

lemma Rotate_steps:
  assumes inv: "acc_inv w" and run: "acc_Rotate (acc_memory_facade c) org i h w = (Inr r, w')"
  defines "sid \<equiv> sequential_id ''secret_'' (aw_secrets_minted w)"
    and "t \<equiv> aw_now w + dur_mul (overlapHoursOrDefault h) hour"
  obtains key fresh where
    "keys_of w i = Some key" and "Key_OrgID key = org" and "Key_RevokedAt key = None"
    and "keys_of w' = keys_of w" and "aw_now w' = aw_now w"
    and "aw_secrets_minted w' = Suc (aw_secrets_minted w)" and "aw_keys_minted w' = aw_keys_minted w"
    and "keyed AKS_ID (as_secrets (aw_store w'))" and "keyed Key_ID (as_keys (aw_store w'))"
    and "RR_OverlapExpiresAt r = t"
    and "AKS_ID fresh = sid" and "AKS_KeyID fresh = i" and "AKS_ExpiresAt fresh = None"
    and "AKS_LookupPrefix fresh = lookupPrefix (RR_Secret r)"
    and "AKS_SecretHash fresh = hashSecretRemainder c (RR_Secret r)"
    and "secrets_of w' = (\<lambda>j. case secrets_of w j of None \<Rightarrow> None
           | Some s \<Rightarrow> Some (if AKS_KeyID s = i then key_secrets.retired (aw_now w) t s else s))(sid \<mapsto> fresh)"
proof -
  let ?xs = "sortSecretsByCreatedAt (filter (\<lambda>s. AKS_KeyID s = i) (rows (as_secrets (aw_store w))))"
  from run obtain key w2 w3 secret where
    find: "keys_of w i = Some key" "Key_OrgID key = org" and rev: "\<not> Key_IsRevoked key" and
    loop: "expireLiveSecrets (acc_memory_facade c) org ?xs (aw_now w) t w = (Inr (), w2)" and
    gen: "generateSecret (acc_memory_facade c) w2 = (Inr secret, w3)" and
    res: "r = \<lparr>RR_ID = i, RR_Secret = secret, RR_Prefix = lookupPrefix secret, RR_OverlapExpiresAt = t\<rparr>" and
    w': "w' = w3\<lparr>aw_secrets_minted := Suc (aw_secrets_minted w3),
            aw_store := snd (acc_mem_Save org \<lparr>AKS_ID = sequential_id ''secret_'' (aw_secrets_minted w3),
              AKS_KeyID = i, AKS_LookupPrefix = lookupPrefix secret,
              AKS_SecretHash = hashSecretRemainder c secret, AKS_CreatedAt = aw_now w, AKS_ExpiresAt = None\<rparr>
              (aw_store w3))\<rparr>"
    by (auto simp: acc_Rotate_def attempt_Inr_iff call_apply zoom_apply acc_mem_FindByID_def t_def
        acc_mem_ListByKeyID_def keys_of_def acc_sequentialIDs_def acc_mem_Save_def Let_def
        split: option.splits if_splits prod.splits)
  have sans: "sans_secrets w2 = sans_secrets w"
    using keeps_result [OF expireLiveSecrets_keeps loop] .
  note g = generateSecret_Inr [OF gen]
  have k: "keyed AKS_ID (as_secrets (aw_store w))" "keyed Key_ID (as_keys (aw_store w))"
    using inv by (simp_all add: acc_inv_def)
  have k2: "keyed AKS_ID (as_secrets (aw_store w2))"
    using preserves_result [OF expireLiveSecrets_keyed k(1) loop] .
  have xs: "distinct (map AKS_ID ?xs)"
    unfolding sortSecretsByCreatedAt_def distinct_map_oldest_first_by
    by (rule distinct_map_filter [OF keyed_distinct_rows [OF k(1)]])
  have mem: "x \<in> set ?xs \<longleftrightarrow> AKS_KeyID x = i \<and> secrets_of w (AKS_ID x) = Some x" for x
    using rows_lookup [OF k(1), of x] by (auto simp: sortSecretsByCreatedAt_def secrets_of_def)
  have ids: "j \<in> AKS_ID ` set ?xs \<longleftrightarrow> AKS_KeyID s = i" if "secrets_of w j = Some s" for j s
  proof -
    have j: "AKS_ID s = j" using keyed_lookup [OF k(1)] that by (simp add: secrets_of_def)
    show ?thesis
    proof
      assume "j \<in> AKS_ID ` set ?xs"
      then obtain x where "x \<in> set ?xs" "j = AKS_ID x" by blast
      then show "AKS_KeyID s = i" using mem [of x] that by simp
    next
      assume "AKS_KeyID s = i"
      then show "j \<in> AKS_ID ` set ?xs" using mem [of s] j that by (metis image_eqI)
    qed
  qed
  have eff: "secrets_of w2 = (\<lambda>j. case secrets_of w j of None \<Rightarrow> None
      | Some s \<Rightarrow> Some (if AKS_KeyID s = i then key_secrets.retired (aw_now w) t s else s))"
  proof (rule ext)
    fix j
    show "secrets_of w2 j = (case secrets_of w j of None \<Rightarrow> None
      | Some s \<Rightarrow> Some (if AKS_KeyID s = i then key_secrets.retired (aw_now w) t s else s))"
      using key_secrets.loop_effect [OF xs, of w c org "aw_now w" t] mem ids [of j] loop
      by (simp add: secrets_of_def split: option.split)
  qed
  show ?thesis
    by (rule that [of key "\<lparr>AKS_ID = sid, AKS_KeyID = i, AKS_LookupPrefix = lookupPrefix secret,
          AKS_SecretHash = hashSecretRemainder c secret, AKS_CreatedAt = aw_now w, AKS_ExpiresAt = None\<rparr>"])
      (use find rev res w' g(1) sans_secrets_D [OF sans] k k2 eff in
        \<open>simp_all add: Key_IsRevoked_def keys_of_def secrets_of_def sid_def acc_mem_Save_def keyed_put fun_eq_iff\<close>)
qed

lemma acc_inv_keyed:
  "acc_inv w \<Longrightarrow> secrets_of w i = Some s \<Longrightarrow> AKS_ID s = i"
  "acc_inv w \<Longrightarrow> keys_of w i = Some k \<Longrightarrow> Key_ID k = i"
  using keyed_lookup [of AKS_ID "as_secrets (aw_store w)"] keyed_lookup [of Key_ID "as_keys (aw_store w)"]
  by (auto simp: acc_inv_def secrets_of_def keys_of_def)

lemma acc_inv_one_active:
  assumes "acc_inv w" and "secrets_of w i = Some s" and "secrets_of w j = Some t"
    and "AKS_KeyID s = AKS_KeyID t" and "AKS_ExpiresAt s = None" and "AKS_ExpiresAt t = None"
  shows "i = j"
  using assms unfolding acc_inv_def secrets_of_def by blast

lemma acc_invI:
  assumes "keyed Key_ID (as_keys (aw_store w))" and "keyed AKS_ID (as_secrets (aw_store w))"
    and "\<And>i s. secrets_of w i = Some s \<Longrightarrow>
      keys_of w (AKS_KeyID s) \<noteq> None \<and> minted ''secret_'' (aw_secrets_minted w) i"
    and "\<And>i k. keys_of w i = Some k \<Longrightarrow> minted ''key_'' (aw_keys_minted w) i"
    and "\<And>i j s t. secrets_of w i = Some s \<Longrightarrow> secrets_of w j = Some t \<Longrightarrow> AKS_KeyID s = AKS_KeyID t \<Longrightarrow>
      AKS_ExpiresAt s = None \<Longrightarrow> AKS_ExpiresAt t = None \<Longrightarrow> i = j"
  shows "acc_inv w"
  using assms unfolding acc_inv_def secrets_of_def keys_of_def by blast

lemma acc_inv_secret:
  assumes "acc_inv w" and "secrets_of w i = Some s"
  shows "keys_of w (AKS_KeyID s) \<noteq> None" and "minted ''secret_'' (aw_secrets_minted w) i"
  using assms unfolding acc_inv_def secrets_of_def keys_of_def by blast+

lemma acc_inv_key: "acc_inv w \<Longrightarrow> keys_of w i = Some k \<Longrightarrow> minted ''key_'' (aw_keys_minted w) i"
  unfolding acc_inv_def keys_of_def by blast

lemma retired_expires:
  "AKS_ExpiresAt (key_secrets.retired now t s) =
     (case AKS_ExpiresAt s of None \<Rightarrow> Some t | Some e \<Rightarrow> if \<not> now < e then Some e else Some now)"
  "AKS_ID (key_secrets.retired now t s) = AKS_ID s"
  "AKS_KeyID (key_secrets.retired now t s) = AKS_KeyID s"
  "AKS_LookupPrefix (key_secrets.retired now t s) = AKS_LookupPrefix s"
  "AKS_SecretHash (key_secrets.retired now t s) = AKS_SecretHash s"
  by (auto simp: key_secrets.retired_def split: option.split)

lemma retired_not_active: "AKS_ExpiresAt (key_secrets.retired now t s) \<noteq> None"
  by (auto simp: retired_expires split: option.split)

text \<open>What a lookup finds after a rotation: the fresh secret, or an old one, retired if it is the key's.\<close>

lemma Rotate_lookup:
  assumes "secrets_of w' = (\<lambda>j. case secrets_of w j of None \<Rightarrow> None
      | Some s \<Rightarrow> Some (if AKS_KeyID s = i then key_secrets.retired now t s else s))(sid \<mapsto> fresh)"
    and "secrets_of w' j = Some x"
  shows "j = sid \<and> x = fresh \<or> j \<noteq> sid \<and> (\<exists>s. secrets_of w j = Some s \<and>
           x = (if AKS_KeyID s = i then key_secrets.retired now t s else s))"
  using assms by (auto split: if_splits option.splits)

lemma Rotate_inv:
  assumes inv: "acc_inv w" and run: "acc_Rotate (acc_memory_facade c) org i h w = (Inr r, w')"
  shows "acc_inv w'"
proof -
  obtain key fresh where
    st: "keys_of w i = Some key" "keys_of w' = keys_of w"
      "aw_secrets_minted w' = Suc (aw_secrets_minted w)" "aw_keys_minted w' = aw_keys_minted w"
      "keyed AKS_ID (as_secrets (aw_store w'))" "keyed Key_ID (as_keys (aw_store w'))"
    and fr: "AKS_KeyID fresh = i" "AKS_ExpiresAt fresh = None"
    and sec: "secrets_of w' = (\<lambda>j. case secrets_of w j of None \<Rightarrow> None
      | Some s \<Rightarrow> Some (if AKS_KeyID s = i then key_secrets.retired (aw_now w)
          (aw_now w + dur_mul (overlapHoursOrDefault h) hour) s else s))
      (sequential_id ''secret_'' (aw_secrets_minted w) \<mapsto> fresh)"
    by (rule Rotate_steps [OF inv run]) (rule that)
  note look = Rotate_lookup [OF sec]
  have kid: "\<exists>s0. secrets_of w j = Some s0 \<and> AKS_KeyID s0 = AKS_KeyID s
      \<and> (AKS_KeyID s = i \<longrightarrow> AKS_ExpiresAt s \<noteq> None) \<and> (AKS_KeyID s \<noteq> i \<longrightarrow> s0 = s)"
    if "secrets_of w' j = Some s" and "j \<noteq> sequential_id ''secret_'' (aw_secrets_minted w)" for j s
  proof -
    from look [OF that(1)] that(2) obtain s0 where s0: "secrets_of w j = Some s0"
      "s = (if AKS_KeyID s0 = i then key_secrets.retired (aw_now w)
          (aw_now w + dur_mul (overlapHoursOrDefault h) hour) s0 else s0)" by blast
    then show ?thesis by (cases "AKS_KeyID s0 = i") (simp_all add: retired_expires(2,3) retired_not_active [unfolded not_None_eq])
  qed
  show ?thesis
  proof (rule acc_invI [OF st(6,5)])
    fix j s assume s: "secrets_of w' j = Some s"
    show "keys_of w' (AKS_KeyID s) \<noteq> None \<and> minted ''secret_'' (aw_secrets_minted w') j"
    proof (cases "j = sequential_id ''secret_'' (aw_secrets_minted w)")
      case True
      then have "s = fresh" using look [OF s] by blast
      then show ?thesis using True st fr minted_next by simp
    next
      case False
      then obtain s0 where "secrets_of w j = Some s0" "AKS_KeyID s0 = AKS_KeyID s" using kid [OF s] by blast
      then show ?thesis using acc_inv_secret [OF inv] st minted_Suc by metis
    qed
  next
    fix j k assume "keys_of w' j = Some k"
    then show "minted ''key_'' (aw_keys_minted w') j" using st acc_inv_key [OF inv] by simp
  next
    fix j l s t
    assume s: "secrets_of w' j = Some s" and t: "secrets_of w' l = Some t"
      and eq: "AKS_KeyID s = AKS_KeyID t" and "AKS_ExpiresAt s = None" "AKS_ExpiresAt t = None"
    then show "j = l"
      using kid [OF s] kid [OF t] look [OF s] look [OF t] fr acc_inv_one_active [OF inv] by metis
  qed
qed

definition live_secrets :: "acc_world \<Rightarrow> string \<Rightarrow> time \<Rightarrow> ApiKeySecret list" where
  "live_secrets w i u =
     filter (\<lambda>s. AKS_KeyID s = i \<and> \<not> AKS_IsExpired s u) (rows (as_secrets (aw_store w)))"

lemma live_secrets_iff:
  "acc_inv w \<Longrightarrow> s \<in> set (live_secrets w i u) \<longleftrightarrow>
     secrets_of w (AKS_ID s) = Some s \<and> AKS_KeyID s = i \<and> \<not> AKS_IsExpired s u"
  using rows_lookup [of AKS_ID "as_secrets (aw_store w)" s]
  by (auto simp: live_secrets_def secrets_of_def acc_inv_def)

lemma live_secrets_distinct: "acc_inv w \<Longrightarrow> distinct (live_secrets w i u)"
  using distinct_map_filter [OF keyed_distinct_rows, of AKS_ID "as_secrets (aw_store w)"]
  by (auto simp: acc_inv_def live_secrets_def distinct_map)

text \<open>
  C6: After \<open>Rotate\<close> a key has at most two live secrets at any later instant: the fresh one, which
  never expires, and the one that was active before, which lives exactly until the returned
  overlap ends; a secret still in the overlap of an earlier rotation is cut off at once. The
  invariant (one active secret per key, unique ids) is kept.
\<close>

theorem Rotate_at_most_two_live:
  assumes "acc_inv w" and "acc_Rotate (acc_memory_facade c) org i h w = (Inr r, w')" and "aw_now w \<le> u"
  shows "acc_inv w' \<and> length (live_secrets w' i u) \<le> 2
    \<and> (\<exists>fresh \<in> set (live_secrets w' i u). AKS_ExpiresAt fresh = None
         \<and> AKS_LookupPrefix fresh = lookupPrefix (RR_Secret r)
         \<and> AKS_SecretHash fresh = hashSecretRemainder c (RR_Secret r)
         \<and> (\<forall>s \<in> set (live_secrets w' i u). s \<noteq> fresh \<longrightarrow>
              AKS_ExpiresAt s = Some (RR_OverlapExpiresAt r) \<and> u < RR_OverlapExpiresAt r
              \<and> (\<exists>s0. secrets_of w (AKS_ID s) = Some s0 \<and> AKS_ExpiresAt s0 = None)))"
proof -
  let ?t = "aw_now w + dur_mul (overlapHoursOrDefault h) hour"
  let ?sid = "sequential_id ''secret_'' (aw_secrets_minted w)"
  obtain fresh where
    rt: "RR_OverlapExpiresAt r = ?t" and fid: "AKS_ID fresh = ?sid"
    and fr: "AKS_KeyID fresh = i" "AKS_ExpiresAt fresh = None"
      "AKS_LookupPrefix fresh = lookupPrefix (RR_Secret r)"
      "AKS_SecretHash fresh = hashSecretRemainder c (RR_Secret r)"
    and sec: "secrets_of w' = (\<lambda>j. case secrets_of w j of None \<Rightarrow> None
      | Some s \<Rightarrow> Some (if AKS_KeyID s = i then key_secrets.retired (aw_now w) ?t s else s))(?sid \<mapsto> fresh)"
    by (rule Rotate_steps [OF assms(1,2)]) (rule that)
  have inv: "acc_inv w'" by (rule Rotate_inv [OF assms(1,2)])
  have old: "\<exists>s0. secrets_of w (AKS_ID s) = Some s0 \<and> AKS_ExpiresAt s0 = None
      \<and> s = key_secrets.retired (aw_now w) ?t s0 \<and> AKS_KeyID s0 = i \<and> u < ?t"
    if "s \<in> set (live_secrets w' i u)" "s \<noteq> fresh" for s
  proof -
    from that(1) have s: "secrets_of w' (AKS_ID s) = Some s" "AKS_KeyID s = i" "\<not> AKS_IsExpired s u"
      using live_secrets_iff [OF inv] by blast+
    from Rotate_lookup [OF sec s(1)] that(2) obtain s0 where s0: "secrets_of w (AKS_ID s) = Some s0"
      "s = (if AKS_KeyID s0 = i then key_secrets.retired (aw_now w) ?t s0 else s0)" by blast
    then have k: "AKS_KeyID s0 = i" using s(2) by (auto simp: retired_expires split: if_splits)
    then have r: "s = key_secrets.retired (aw_now w) ?t s0" using s0(2) by simp
    have "AKS_ExpiresAt s0 = None \<and> u < ?t"
      using s(3) assms(3) unfolding r AKS_IsExpired_def
      by (auto simp: retired_expires split: option.splits if_splits)
    with s0(1) r k show ?thesis by blast
  qed
  have mem: "fresh \<in> set (live_secrets w' i u)"
    using live_secrets_iff [OF inv] sec fid fr by (simp add: AKS_IsExpired_def)
  have two: "length (live_secrets w' i u) \<le> 2"
  proof -
    have same: "s = s'" if "s \<in> set (live_secrets w' i u)" "s \<noteq> fresh" "s' \<in> set (live_secrets w' i u)" "s' \<noteq> fresh"
      for s s' using old [OF that(1,2)] old [OF that(3,4)] acc_inv_one_active [OF assms(1)]
        acc_inv_keyed(1) [OF assms(1)] by (metis option.inject)
    have "\<exists>a. set (live_secrets w' i u) \<subseteq> {fresh, a}" using same by blast
    then obtain a where "set (live_secrets w' i u) \<subseteq> {fresh, a}" by blast
    then have "card (set (live_secrets w' i u)) \<le> card {fresh, a}" by (intro card_mono) auto
    also have "\<dots> \<le> 2" by (simp add: card_insert_if)
    finally show ?thesis using distinct_card [OF live_secrets_distinct [OF inv]] by simp
  qed
  have "AKS_ExpiresAt s = Some ?t \<and> u < ?t \<and> (\<exists>s0. secrets_of w (AKS_ID s) = Some s0 \<and> AKS_ExpiresAt s0 = None)"
    if "s \<in> set (live_secrets w' i u)" "s \<noteq> fresh" for s
  proof -
    from old [OF that] obtain s0 where "secrets_of w (AKS_ID s) = Some s0" "AKS_ExpiresAt s0 = None"
      "s = key_secrets.retired (aw_now w) ?t s0" "u < ?t" by blast
    moreover from this have "AKS_ExpiresAt s = Some ?t" by (simp add: retired_expires(1))
    ultimately show ?thesis by blast
  qed
  then have all: "\<forall>s \<in> set (live_secrets w' i u). s \<noteq> fresh \<longrightarrow>
      AKS_ExpiresAt s = Some (RR_OverlapExpiresAt r) \<and> u < RR_OverlapExpiresAt r
      \<and> (\<exists>s0. secrets_of w (AKS_ID s) = Some s0 \<and> AKS_ExpiresAt s0 = None)"
    unfolding rt by blast
  show ?thesis
    by (intro conjI bexI [OF _ mem] inv two fr all)
qed

section \<open>Verification\<close>

lemma verify_candidates_Inr:
  "verify_candidates c secret now cs = Inr vk \<Longrightarrow>
     \<exists>cand \<in> set cs. secretMatchesHash c secret (AKS_SecretHash (Cand_Secret cand))
       \<and> \<not> Cand_IsRevoked cand \<and> \<not> AKS_IsExpired (Cand_Secret cand) now
       \<and> vk = \<lparr>VK_OrgID = Cand_OrgID cand, VK_Scope = Cand_Scope cand\<rparr>"
  by (induction cs) (auto split: if_splits)

lemma verify_candidates_unique:
  assumes "cand \<in> set cs" and "secretMatchesHash c secret (AKS_SecretHash (Cand_Secret cand))"
    and "\<And>d. d \<in> set cs \<Longrightarrow> secretMatchesHash c secret (AKS_SecretHash (Cand_Secret d)) \<Longrightarrow> d = cand"
  shows "verify_candidates c secret now cs =
    (if Cand_IsRevoked cand \<or> AKS_IsExpired (Cand_Secret cand) now then Inl ErrUnauthorized
     else Inr \<lparr>VK_OrgID = Cand_OrgID cand, VK_Scope = Cand_Scope cand\<rparr>)"
  using assms(1,3)
proof (induction cs)
  case (Cons x cs)
  show ?case
  proof (cases "secretMatchesHash c secret (AKS_SecretHash (Cand_Secret x))")
    case True
    then have "x = cand" by (intro Cons.prems(2)) simp_all
    with assms(2) show ?thesis by simp
  next
    case False
    then have "cand \<in> set cs" using Cons.prems(1) assms(2) by auto
    from Cons.IH [OF this Cons.prems(2)] False show ?thesis by simp
  qed
qed simp

lemma verify_candidates_none:
  "(\<And>d. d \<in> set cs \<Longrightarrow> \<not> secretMatchesHash c secret (AKS_SecretHash (Cand_Secret d))) \<Longrightarrow>
     verify_candidates c secret now cs = Inl ErrUnauthorized"
  by (induction cs) auto

definition candidate_of :: "ServerApiKey \<Rightarrow> ApiKeySecret \<Rightarrow> ApiKeySecretCandidate" where
  "candidate_of key s = \<lparr>Cand_KeyID = Key_ID key, Cand_OrgID = Key_OrgID key, Cand_Scope = Key_Scope key,
     Cand_RevokedAt = Key_RevokedAt key, Cand_Secret = s\<rparr>"

lemma prefix_candidates_iff:
  "cand \<in> set (prefix_candidates keys prefix secrets) \<longleftrightarrow>
     (\<exists>s key. s \<in> set secrets \<and> AKS_LookupPrefix s = prefix \<and> map_of keys (AKS_KeyID s) = Some key
        \<and> cand = candidate_of key s)"
  by (induction secrets) (auto simp: candidate_of_def split: option.splits)

text \<open>The secrets of the store a presented secret matches, with their keys.\<close>

definition matches :: "crypto \<Rightarrow> acc_world \<Rightarrow> string \<Rightarrow> ServerApiKey \<Rightarrow> ApiKeySecret \<Rightarrow> bool" where
  "matches c w secret key s \<longleftrightarrow>
     secrets_of w (AKS_ID s) = Some s \<and> keys_of w (AKS_KeyID s) = Some key
     \<and> AKS_LookupPrefix s = lookupPrefix secret \<and> secretMatchesHash c secret (AKS_SecretHash s)"

lemma candidates_match:
  assumes "acc_inv w"
  shows "cand \<in> set (projr (fst (acc_mem_FindByPrefix (lookupPrefix secret) (aw_store w))))
      \<and> secretMatchesHash c secret (AKS_SecretHash (Cand_Secret cand))
    \<longleftrightarrow> (\<exists>key s. matches c w secret key s \<and> cand = candidate_of key s)"
  using rows_lookup [of AKS_ID "as_secrets (aw_store w)"] assms
  by (auto simp: acc_mem_FindByPrefix_def sortCandidatesBySecretCreatedAt_def prefix_candidates_iff
      matches_def candidate_of_def secrets_of_def keys_of_def acc_inv_def)

lemma Verify_run:
  "acc_Verify (acc_memory_facade c) secret w =
     (if \<not> hasSecretPrefix secret then Inl ErrUnauthorized
      else verify_candidates c secret (aw_now w)
             (projr (fst (acc_mem_FindByPrefix (lookupPrefix secret) (aw_store w)))), w)"
  by (simp add: acc_Verify_def act_simps acc_mem_FindByPrefix_def)

lemma Verify_unique:
  assumes "acc_inv w" and "hasSecretPrefix secret" and "matches c w secret key s"
    and "\<And>key' s'. matches c w secret key' s' \<Longrightarrow> s' = s"
  shows "fst (acc_Verify (acc_memory_facade c) secret w) =
     (if Key_RevokedAt key = None \<and> \<not> AKS_IsExpired s (aw_now w)
      then Inr \<lparr>VK_OrgID = Key_OrgID key, VK_Scope = Key_Scope key\<rparr> else Inl ErrUnauthorized)"
proof -
  have u: "d = candidate_of key s" if "matches c w secret key' s'" "d = candidate_of key' s'" for d key' s'
  proof -
    have "s' = s" by (rule assms(4) [OF that(1)])
    moreover have "key' = key" using assms(3) that(1) \<open>s' = s\<close> by (simp add: matches_def)
    ultimately show ?thesis using that(2) by simp
  qed
  have "verify_candidates c secret (aw_now w)
      (projr (fst (acc_mem_FindByPrefix (lookupPrefix secret) (aw_store w)))) =
    (if Cand_IsRevoked (candidate_of key s) \<or> AKS_IsExpired (Cand_Secret (candidate_of key s)) (aw_now w)
     then Inl ErrUnauthorized
     else Inr \<lparr>VK_OrgID = Cand_OrgID (candidate_of key s), VK_Scope = Cand_Scope (candidate_of key s)\<rparr>)"
    using candidates_match [OF assms(1), of _ secret c] assms(3) u
    by (intro verify_candidates_unique) blast+
  then show ?thesis
    using assms(2) by (simp add: Verify_run candidate_of_def Cand_IsRevoked_def)
qed

text \<open>
  \<open>Verify\<close> accepts a presented secret only on the strength of a stored secret that has its
  lookup prefix and the hash of its remainder, has not expired, and belongs to a key that has
  not been revoked, and answers that key's organization and scope. Where the stored secret is
  the only match (no hash collision), it is accepted exactly when it is live and its key is
  not revoked. Verifying changes nothing.
\<close>

theorem Verify_exact:
  assumes "acc_inv w"
  shows "snd (acc_Verify (acc_memory_facade c) secret w) = w
    \<and> (\<forall>vk. fst (acc_Verify (acc_memory_facade c) secret w) = Inr vk \<longrightarrow>
         (\<exists>key s. matches c w secret key s \<and> Key_RevokedAt key = None
            \<and> \<not> AKS_IsExpired s (aw_now w)
            \<and> vk = \<lparr>VK_OrgID = Key_OrgID key, VK_Scope = Key_Scope key\<rparr>))
    \<and> (\<forall>key s. hasSecretPrefix secret \<and> matches c w secret key s
         \<and> (\<forall>key' s'. matches c w secret key' s' \<longrightarrow> s' = s) \<longrightarrow>
         fst (acc_Verify (acc_memory_facade c) secret w) =
           (if Key_RevokedAt key = None \<and> \<not> AKS_IsExpired s (aw_now w)
            then Inr \<lparr>VK_OrgID = Key_OrgID key, VK_Scope = Key_Scope key\<rparr> else Inl ErrUnauthorized))"
proof (intro conjI allI impI)
  show "snd (acc_Verify (acc_memory_facade c) secret w) = w" by (simp add: Verify_run)
next
  fix vk assume "fst (acc_Verify (acc_memory_facade c) secret w) = Inr vk"
  then have "verify_candidates c secret (aw_now w)
      (projr (fst (acc_mem_FindByPrefix (lookupPrefix secret) (aw_store w)))) = Inr vk"
    by (simp add: Verify_run split: if_splits)
  from verify_candidates_Inr [OF this] obtain cand where
    cand: "\<not> Cand_IsRevoked cand" "\<not> AKS_IsExpired (Cand_Secret cand) (aw_now w)"
      "vk = \<lparr>VK_OrgID = Cand_OrgID cand, VK_Scope = Cand_Scope cand\<rparr>"
    and m: "\<exists>key s. matches c w secret key s \<and> cand = candidate_of key s"
    using candidates_match [OF assms, of _ secret c] by blast
  from m obtain key s where "matches c w secret key s" "cand = candidate_of key s" by blast
  with cand show "\<exists>key s. matches c w secret key s \<and> Key_RevokedAt key = None
      \<and> \<not> AKS_IsExpired s (aw_now w) \<and> vk = \<lparr>VK_OrgID = Key_OrgID key, VK_Scope = Key_Scope key\<rparr>"
    by (intro exI [of _ key] exI [of _ s]) (simp add: candidate_of_def Cand_IsRevoked_def)
qed (rule Verify_unique [OF assms], blast+)

section \<open>User tokens\<close>

lemma lifetime_without_wrap:
  assumes "\<bar>utc_Exp cl - utc_Iat cl\<bar> < 9223372036"
  shows "exceedsUserTokenMaxLifetime cl \<longleftrightarrow> utc_Exp cl - utc_Iat cl > 86400"
proof -
  define d where "d = utc_Exp cl - utc_Iat cl"
  have d: "\<bar>d\<bar> < 9223372036" using assms by (simp add: d_def)
  then have "wrap64 d = d" and "wrap64 (d * second) = d * second"
    by (auto intro!: wrap64_id simp: duration_defs)
  then have "exceedsUserTokenMaxLifetime cl \<longleftrightarrow> d > 86400"
    by (simp add: exceedsUserTokenMaxLifetime_def dur_mul_def userTokenMaxLifetime_def duration_defs
        flip: d_def)
  then show ?thesis by (simp add: d_def)
qed

text \<open>
  The conversion to nanoseconds wraps at 64 bits: a lifetime of 18446744074 seconds (584 years)
  is read as 290448384 ns, well under the bound, and is not refused.
\<close>

lemma lifetime_wraps:
  "\<not> exceedsUserTokenMaxLifetime \<lparr>utc_Sub = sub, utc_Iat = 0, utc_Exp = 18446744074\<rparr>"
  by (simp add: exceedsUserTokenMaxLifetime_def dur_mul_def userTokenMaxLifetime_def duration_defs
      wrap64_def)

text \<open>
  C9: \<open>VerifyUserToken\<close> accepts a token only if it has three non-empty segments, its header
  names HS256 and the id of a stored signing secret, its signature is the HMAC of the first two
  segments under that secret, and its claims have not expired; the answer is the organization
  of the signing secret (never one the token names) and the subject. The lifetime \<open>exp - iat\<close>
  is at most 24 hours whenever it is below 9223372036 seconds, where the bound's 64-bit
  product does not wrap.
\<close>

theorem VerifyUserToken_sound:
  assumes "fst (acc_VerifyUserToken (acc_memory_facade c) token w) = Inr (org, user)"
  shows "\<exists>h p sg hdr cl ss secret.
      splitUserToken token = Some (h, p, sg) \<and> decodeUserTokenHeader h = Some hdr
      \<and> uth_Alg hdr = ''HS256'' \<and> map_of (aw_signing w) (uth_Kid hdr) = Some ss
      \<and> vault_Decrypt c (SS_EncryptedSecret ss) = Inr secret
      \<and> decodeUserTokenSegment sg = Some (hmacSHA256 c secret (h @ ''.'' @ p))
      \<and> decodeUserTokenClaims p = Some cl
      \<and> Unix (aw_now w) < utc_Exp cl
      \<and> (\<bar>utc_Exp cl - utc_Iat cl\<bar> < 9223372036 \<longrightarrow> utc_Exp cl - utc_Iat cl \<le> 86400)
      \<and> org = SS_OrgID ss \<and> user = utc_Sub cl"
proof -
  from assms obtain w' where "acc_VerifyUserToken (acc_memory_facade c) token w = (Inr (org, user), w')"
    by (metis prod.collapse)
  then obtain h p sg hdr ss secret signature cl where
    t: "splitUserToken token = Some (h, p, sg)" "decodeUserTokenHeader h = Some hdr"
      "uth_Alg hdr = userTokenAlgorithm" "map_of (aw_signing w) (uth_Kid hdr) = Some ss"
      "vault_Decrypt c (SS_EncryptedSecret ss) = Inr secret"
      "decodeUserTokenSegment sg = Some signature"
      "validUserTokenSignature c h p signature secret" "decodeUserTokenClaims p = Some cl"
    and ok: "\<not> (Unix (aw_now w) \<ge> utc_Exp cl \<or> exceedsUserTokenMaxLifetime cl)"
    and r: "org = SS_OrgID ss" "user = utc_Sub cl"
    by (auto simp: acc_VerifyUserToken_def attempt_Inr_iff call_apply zoom_apply ss_mem_FindByKid_def
        split: option.splits prod.splits if_splits)
  have "\<bar>utc_Exp cl - utc_Iat cl\<bar> < 9223372036 \<longrightarrow> utc_Exp cl - utc_Iat cl \<le> 86400"
    using ok lifetime_without_wrap [of cl] by auto
  with t ok r show ?thesis
    by (intro exI [of _ h] exI [of _ p] exI [of _ sg] exI [of _ hdr] exI [of _ cl] exI [of _ ss] exI [of _ secret])
      (simp add: userTokenAlgorithm_def validUserTokenSignature_def)
qed

section \<open>Examples\<close>

definition demo_secret :: string where
  "demo_secret = ''beecon_sk_abcdef''"

definition acc_demo :: acc_world where
  "acc_demo = \<lparr>aw_store = \<lparr>
       as_keys = [(sequential_id ''key_'' 0, \<lparr>Key_ID = sequential_id ''key_'' 0, Key_OrgID = ''org_1'',
          Key_Scope = ScopeReadOnly, Key_CreatedAt = 1, Key_RevokedAt = None\<rparr>)],
       as_secrets = [(sequential_id ''secret_'' 0, \<lparr>AKS_ID = sequential_id ''secret_'' 0,
          AKS_KeyID = sequential_id ''key_'' 0, AKS_LookupPrefix = lookupPrefix demo_secret,
          AKS_SecretHash = hashSecretRemainder sample_crypto demo_secret, AKS_CreatedAt = 1,
          AKS_ExpiresAt = None\<rparr>)]\<rparr>,
     aw_signing = [(''k'', \<lparr>SS_ID = ''k'', SS_OrgID = ''org_1'', SS_DisplayPrefix = [],
        SS_EncryptedSecret = ''bm5ubm5ubm5ubm5ubm5ubm5ubm5ubm5ucw=='', SS_CreatedAt = 1\<rparr>)],
     aw_webhooks = [], aw_keys_minted = 1, aw_secrets_minted = 1, aw_signing_minted = 1,
     aw_webhooks_minted = 0, aw_now = 100, aw_rand = replicate 32 CHR ''r''\<rparr>"

lemma acc_demo_inv: "acc_inv acc_demo"
  by (auto simp: acc_inv_def acc_demo_def keyed_def minted_def split: if_splits)

lemma Rotate_at_most_two_live_witness:
  "\<exists>r w'. acc_Rotate (acc_memory_facade sample_crypto) ''org_1'' (sequential_id ''key_'' 0) (Some 1) acc_demo
       = (Inr r, w') \<and> length (live_secrets w' (sequential_id ''key_'' 0) 100) \<le> 2"
proof -
  have "isl (fst (acc_Rotate (acc_memory_facade sample_crypto) ''org_1'' (sequential_id ''key_'' 0) (Some 1) acc_demo))
      = False"
    by (simp add: acc_Rotate_def act_simps acc_demo_def acc_memory_facade_def acc_mem_FindByID_def Key_IsRevoked_def
        acc_mem_ListByKeyID_def sortSecretsByCreatedAt_def oldest_first_by_def Let_def acc_mem_MarkExpiring_def
        generateSecret_def tape_Read_def secretEntropyBytes_def acc_sequentialIDs_def acc_mem_Save_def)
  then obtain r w' where run: "acc_Rotate (acc_memory_facade sample_crypto) ''org_1'' (sequential_id ''key_'' 0)
      (Some 1) acc_demo = (Inr r, w')"
    by (metis isl_def prod.collapse sum.collapse(2))
  have "aw_now acc_demo \<le> 100" by (simp add: acc_demo_def)
  from Rotate_at_most_two_live [OF acc_demo_inv run this] run show ?thesis by blast
qed

lemma Verify_exact_witness:
  "fst (acc_Verify (acc_memory_facade sample_crypto) demo_secret acc_demo)
     = Inr \<lparr>VK_OrgID = ''org_1'', VK_Scope = ScopeReadOnly\<rparr>"
proof -
  let ?key = "the (keys_of acc_demo (sequential_id ''key_'' 0))"
  let ?s = "the (secrets_of acc_demo (sequential_id ''secret_'' 0))"
  have m: "matches sample_crypto acc_demo demo_secret ?key ?s"
    by (simp add: matches_def acc_demo_def secrets_of_def keys_of_def secretMatchesHash_def)
  have u: "s' = ?s" if "matches sample_crypto acc_demo demo_secret key' s'" for key' s'
    using that by (simp add: matches_def acc_demo_def secrets_of_def split: if_splits)
  have "hasSecretPrefix demo_secret" by code_simp
  then have "fst (acc_Verify (acc_memory_facade sample_crypto) demo_secret acc_demo) =
      (if Key_RevokedAt ?key = None \<and> \<not> AKS_IsExpired ?s (aw_now acc_demo)
       then Inr \<lparr>VK_OrgID = Key_OrgID ?key, VK_Scope = Key_Scope ?key\<rparr> else Inl ErrUnauthorized)"
    using Verify_exact [OF acc_demo_inv, of sample_crypto demo_secret] m u by blast
  then show ?thesis by (simp add: acc_demo_def keys_of_def secrets_of_def AKS_IsExpired_def)
qed

definition demo_token :: string where
  "demo_token = ''eyJhbGciOiJIUzI1NiIsImtpZCI6ImsifQ'' @ ''.'' @ ''eyJzdWIiOiJ1IiwiZXhwIjo5fQ'' @ ''.'' @ ''cy5leUpoYkdjaU9pSklVekkxTmlJc0ltdHBaQ0k2SW1zaWZRLmV5SnpkV0lpT2lKMUlpd2laWGh3SWpvNWZR''"

lemma demo_token_accepted:
  "fst (acc_VerifyUserToken (acc_memory_facade sample_crypto) demo_token acc_demo) = Inr (''org_1'', ''u'')"
proof -
  have 1: "splitUserToken demo_token = Some (''eyJhbGciOiJIUzI1NiIsImtpZCI6ImsifQ'', ''eyJzdWIiOiJ1IiwiZXhwIjo5fQ'', ''cy5leUpoYkdjaU9pSklVekkxTmlJc0ltdHBaQ0k2SW1zaWZRLmV5SnpkV0lpT2lKMUlpd2laWGh3SWpvNWZR'')"
    by code_simp
  have 2: "decodeUserTokenHeader ''eyJhbGciOiJIUzI1NiIsImtpZCI6ImsifQ'' = Some \<lparr>uth_Alg = ''HS256'', uth_Kid = ''k''\<rparr>" by code_simp
  have 3: "vault_Decrypt sample_crypto ''bm5ubm5ubm5ubm5ubm5ubm5ubm5ubm5ucw=='' = Inr ''s''" by code_simp
  have 4: "decodeUserTokenSegment ''cy5leUpoYkdjaU9pSklVekkxTmlJc0ltdHBaQ0k2SW1zaWZRLmV5SnpkV0lpT2lKMUlpd2laWGh3SWpvNWZR'' = Some (''s'' @ ''.'' @ ''eyJhbGciOiJIUzI1NiIsImtpZCI6ImsifQ'' @ ''.'' @ ''eyJzdWIiOiJ1IiwiZXhwIjo5fQ'')" by code_simp
  have 5: "decodeUserTokenClaims ''eyJzdWIiOiJ1IiwiZXhwIjo5fQ'' = Some \<lparr>utc_Sub = ''u'', utc_Iat = 0, utc_Exp = 9\<rparr>" by code_simp
  have 6: "\<not> exceedsUserTokenMaxLifetime \<lparr>utc_Sub = ''u'', utc_Iat = 0, utc_Exp = 9\<rparr>" by code_simp
  have 7: "map_of (aw_signing acc_demo) ''k'' = Some \<lparr>SS_ID = ''k'', SS_OrgID = ''org_1'', SS_DisplayPrefix = [],
        SS_EncryptedSecret = ''bm5ubm5ubm5ubm5ubm5ubm5ubm5ubm5ucw=='', SS_CreatedAt = 1\<rparr>" "aw_now acc_demo = 100"
    by (simp_all add: acc_demo_def)
  have 8: "Unix 100 = 0" by code_simp
  have 9: "hmacSHA256 sample_crypto k m = k @ ''.'' @ m" for k m by (simp add: sample_crypto_def)
  show ?thesis
    by (simp add: acc_VerifyUserToken_def act_simps 1 2 3 5 6 7 8 userTokenAlgorithm_def acc_memory_facade_def
        ss_mem_FindByKid_def validUserTokenSignature_def 4 9 del: append.simps)
qed

lemma VerifyUserToken_sound_witness:
  "\<exists>ss. map_of (aw_signing acc_demo) ''k'' = Some ss \<and> SS_OrgID ss = ''org_1''
     \<and> (\<exists>h p sg hdr. splitUserToken demo_token = Some (h, p, sg) \<and> decodeUserTokenHeader h = Some hdr)"
  using VerifyUserToken_sound [OF demo_token_accepted] by (auto simp: acc_demo_def)

end
