(* ===== verification/AccessKeyLife.thy ===== *)
theory AccessKeyLife
  imports AccessMemory
begin

text \<open>
  The life of an API key: \<open>Issue\<close>, \<open>Rotate\<close>, \<open>Revoke\<close> and \<open>Verify\<close> as the steps of the in-memory
  access facade, the invariant every step keeps, and what a client may rely on across them: an
  issued secret verifies, a revoked key never does again.
\<close>

abbreviation acc_F :: "crypto \<Rightarrow> acc_world acc_facade" where
  "acc_F \<equiv> acc_memory_facade"

section \<open>Every operation keeps the invariant\<close>

lemma acc_inv_frame:
  assumes "acc_inv w" and "aw_store w' = aw_store w"
    and "aw_secrets_minted w' = aw_secrets_minted w" and "aw_keys_minted w' = aw_keys_minted w"
  shows "acc_inv w'"
  using assms by (simp add: acc_inv_def)

lemma acc_tape_keeps [preserves_intros]: "preserves acc_inv (tape_Read n)"
  by (rule preservesI) (auto simp: tape_Read_def elim: acc_inv_frame)

lemma acc_generate_keeps [preserves_intros]: "preserves acc_inv (generateSecret (acc_F c))"
  by (auto simp: generateSecret_def intro!: preserves_intros)

lemma mark_expiring_keeps:
  "preserves acc_inv (acc_apiKeySecrets_MarkExpiring (acc_F c) org i t)"
proof (rule preservesI)
  fix w assume inv: "acc_inv w"
  have k: "keyed AKS_ID (as_secrets (aw_store w))" using inv by (simp add: acc_inv_def)
  show "acc_inv (snd (acc_apiKeySecrets_MarkExpiring (acc_F c) org i t w))"
  proof (cases "map_of (as_secrets (aw_store w)) i")
    case (Some x)
    then have "keyed AKS_ID (put i (x\<lparr>AKS_ExpiresAt := Some t\<rparr>) (as_secrets (aw_store w)))"
      using keyed_lookup [OF k Some] by (intro keyed_put k) simp
    then show ?thesis using inv Some
      by (auto simp: acc_inv_def acc_mem_MarkExpiring_def)
  qed (simp add: acc_mem_MarkExpiring_def inv)
qed

lemma expireLive_keeps_inv: "preserves acc_inv (expireLiveSecrets (acc_F c) org xs now t)"
  by (rule key_secrets.loop_preserves [OF mark_expiring_keeps])

lemma Rotate_failed:
  assumes "acc_Rotate (acc_F c) org i h w = (Inl e, w')"
  shows "w' = w \<or> (\<exists>xs t. expireLiveSecrets (acc_F c) org xs (aw_now w) t w = (Inr (), w'))
     \<or> (\<exists>xs t. \<exists>e. expireLiveSecrets (acc_F c) org xs (aw_now w) t w = (Inl e, w'))"
proof -
  have gen: "v' = v" if "generateSecret (acc_F c) v = (Inl e', v')" for v v' e'
    using that by (auto simp: generateSecret_def attempt_apply tape_Read_def split: if_splits)
  show ?thesis
  proof (cases "map_of (as_keys (aw_store w)) i")
    case None
    then show ?thesis using assms by (simp add: acc_Rotate_def act_simps acc_mem_FindByID_def)
  next
    case (Some key)
    show ?thesis
    proof (cases "Key_OrgID key \<noteq> org \<or> Key_IsRevoked key \<or> (\<exists>k. h = Some k \<and> k < 0)")
      case True
      then have "w' = w" using assms Some
        by (auto simp: acc_Rotate_def act_simps acc_mem_FindByID_def split: if_splits option.splits)
      then show ?thesis by blast
    next
      case False
      let ?xs = "sortSecretsByCreatedAt (filter (\<lambda>s. AKS_KeyID s = i) (rows (as_secrets (aw_store w))))"
      let ?t = "aw_now w + dur_mul (overlapHoursOrDefault h) hour"
      obtain r v where run: "expireLiveSecrets (acc_F c) org ?xs (aw_now w) ?t w = (r, v)" by fastforce
      show ?thesis
      proof (cases r)
        case (Inl e')
        then have "w' = v" using assms Some False run
          by (auto simp: acc_Rotate_def act_simps acc_mem_FindByID_def acc_mem_ListByKeyID_def Let_def
              split: option.splits if_splits)
        with run Inl show ?thesis by blast
      next
        case (Inr u)
        then have "w' = v" using assms Some False run gen
          by (auto simp: acc_Rotate_def act_simps acc_mem_FindByID_def acc_mem_ListByKeyID_def Let_def
              acc_sequentialIDs_def acc_mem_Save_def split: option.splits if_splits prod.splits sum.splits)
        with run Inr show ?thesis by (metis old.unit.exhaust)
      qed
    qed
  qed
qed

lemma Rotate_keeps: "preserves acc_inv (acc_Rotate (acc_F c) org i h)"
proof (rule preservesI)
  fix w assume inv: "acc_inv w"
  obtain r w' where run: "acc_Rotate (acc_F c) org i h w = (r, w')" by fastforce
  show "acc_inv (snd (acc_Rotate (acc_F c) org i h w))"
  proof (cases r)
    case (Inl e)
    from Rotate_failed [OF run [unfolded Inl]] show ?thesis
      using inv run preserves_result [OF expireLive_keeps_inv inv] by auto
  next
    case (Inr x)
    with Rotate_inv [OF inv] run show ?thesis by simp
  qed
qed

lemma Revoke_keeps: "preserves acc_inv (acc_Revoke (acc_F c) org i)"
proof (rule preservesI)
  fix w assume inv: "acc_inv w"
  have k: "keyed Key_ID (as_keys (aw_store w))" using inv by (simp add: acc_inv_def)
  show "acc_inv (snd (acc_Revoke (acc_F c) org i w))"
  proof (cases "map_of (as_keys (aw_store w)) i")
    case (Some x)
    then have "keyed Key_ID (put i (x\<lparr>Key_RevokedAt := Some t\<rparr>) (as_keys (aw_store w)))" for t
      using keyed_lookup [OF k Some] by (intro keyed_put k) simp
    then show ?thesis using inv Some
      by (auto simp: acc_inv_def acc_Revoke_def act_simps acc_mem_FindByID_def acc_mem_MarkRevoked_def)
  qed (simp add: acc_Revoke_def act_simps acc_mem_FindByID_def inv)
qed

text \<open>A successful \<open>Issue\<close>: one new key and its first secret, under fresh ids.\<close>

lemma Issue_steps:
  assumes "acc_inv w" and "acc_Issue (acc_F c) org scope w = (Inr r, w')"
  defines "kid \<equiv> sequential_id ''key_'' (aw_keys_minted w)"
    and "sid \<equiv> sequential_id ''secret_'' (aw_secrets_minted w)"
  shows "IK_ID r = kid" and "IK_Prefix r = lookupPrefix (IK_Secret r)"
    and "keys_of w' = (keys_of w)(kid \<mapsto> \<lparr>Key_ID = kid, Key_OrgID = org, Key_Scope = scope,
           Key_CreatedAt = aw_now w, Key_RevokedAt = None\<rparr>)"
    and "secrets_of w' = (secrets_of w)(sid \<mapsto> \<lparr>AKS_ID = sid, AKS_KeyID = kid,
           AKS_LookupPrefix = lookupPrefix (IK_Secret r),
           AKS_SecretHash = hashSecretRemainder c (IK_Secret r), AKS_CreatedAt = aw_now w,
           AKS_ExpiresAt = None\<rparr>)"
    and "aw_now w' = aw_now w" and "aw_keys_minted w' = Suc (aw_keys_minted w)"
    and "aw_secrets_minted w' = Suc (aw_secrets_minted w)"
    and "keyed Key_ID (as_keys (aw_store w'))" and "keyed AKS_ID (as_secrets (aw_store w'))"
    and "\<exists>buf. length buf = secretEntropyBytes \<and> IK_Secret r = SecretPrefix @ EncodeToString RawURLEncoding buf"
proof -
  have k: "keyed Key_ID (as_keys (aw_store w))" "keyed AKS_ID (as_secrets (aw_store w))"
    using assms(1) by (simp_all add: acc_inv_def)
  obtain secret v where gen: "generateSecret (acc_F c) w = (Inr secret, v)"
    using assms(2) by (cases "generateSecret (acc_F c) w") (auto simp: acc_Issue_def attempt_Inr_iff)
  note g = generateSecret_Inr [OF gen]
  from assms(2) g(1) show "IK_ID r = kid" and "IK_Prefix r = lookupPrefix (IK_Secret r)"
    and "keys_of w' = (keys_of w)(kid \<mapsto> \<lparr>Key_ID = kid, Key_OrgID = org, Key_Scope = scope,
           Key_CreatedAt = aw_now w, Key_RevokedAt = None\<rparr>)"
    and "secrets_of w' = (secrets_of w)(sid \<mapsto> \<lparr>AKS_ID = sid, AKS_KeyID = kid,
           AKS_LookupPrefix = lookupPrefix (IK_Secret r),
           AKS_SecretHash = hashSecretRemainder c (IK_Secret r), AKS_CreatedAt = aw_now w,
           AKS_ExpiresAt = None\<rparr>)"
    and "aw_now w' = aw_now w" and "aw_keys_minted w' = Suc (aw_keys_minted w)"
    and "aw_secrets_minted w' = Suc (aw_secrets_minted w)"
    and "keyed Key_ID (as_keys (aw_store w'))" and "keyed AKS_ID (as_secrets (aw_store w'))"
    using k by (auto simp: acc_Issue_def attempt_apply gen call_apply zoom_apply acc_sequentialIDs_def
        acc_mem_SaveKey_def acc_mem_Save_def keys_of_def secrets_of_def kid_def sid_def fun_eq_iff
        Let_def keyed_put)
  have "IK_Secret r = secret"
    using assms(2) by (auto simp: acc_Issue_def attempt_apply gen call_apply zoom_apply acc_sequentialIDs_def
        acc_mem_SaveKey_def acc_mem_Save_def Let_def)
  then show "\<exists>buf. length buf = secretEntropyBytes \<and> IK_Secret r = SecretPrefix @ EncodeToString RawURLEncoding buf"
    using g(2,3) by (intro exI [of _ "take secretEntropyBytes (aw_rand w)"]) simp
qed

lemma Issue_keeps: "preserves acc_inv (acc_Issue (acc_F c) org scope)"
proof (rule preservesI)
  fix w assume inv: "acc_inv w"
  obtain r w' where run: "acc_Issue (acc_F c) org scope w = (r, w')" by fastforce
  show "acc_inv (snd (acc_Issue (acc_F c) org scope w))"
  proof (cases r)
    case (Inl e)
    then have "w' = w" using run
      by (auto simp: acc_Issue_def attempt_apply call_apply zoom_apply acc_sequentialIDs_def Let_def
          acc_mem_SaveKey_def acc_mem_Save_def generateSecret_def tape_Read_def split: if_splits)
    with run inv show ?thesis by simp
  next
    case (Inr x)
    note st = Issue_steps [OF inv run [unfolded Inr]]
    have fresh: "keys_of w (sequential_id ''key_'' (aw_keys_minted w)) = None"
      using acc_inv_key [OF inv] not_minted by fastforce
    have "acc_inv w'"
    proof (rule acc_invI [OF st(8,9)])
      fix i s assume "secrets_of w' i = Some s"
      then show "keys_of w' (AKS_KeyID s) \<noteq> None \<and> minted ''secret_'' (aw_secrets_minted w') i"
        using acc_inv_secret [OF inv, of i] by (auto simp: st(3,4,7) minted_Suc minted_next split: if_splits)
    next
      fix i k assume "keys_of w' i = Some k"
      then show "minted ''key_'' (aw_keys_minted w') i"
        using acc_inv_key [OF inv, of i] by (auto simp: st(3,6) minted_Suc minted_next split: if_splits)
    next
      fix i j s t
      assume s: "secrets_of w' i = Some s" and t: "secrets_of w' j = Some t"
        and eq: "AKS_KeyID s = AKS_KeyID t" and ex: "AKS_ExpiresAt s = None" "AKS_ExpiresAt t = None"
      let ?sid = "sequential_id ''secret_'' (aw_secrets_minted w)"
      have other: "AKS_KeyID x \<noteq> sequential_id ''key_'' (aw_keys_minted w)" if "secrets_of w k = Some x" for k x
        using acc_inv_secret(1) [OF inv that] fresh by metis
      have new: "AKS_KeyID x = sequential_id ''key_'' (aw_keys_minted w)" if "secrets_of w' ?sid = Some x" for x
        using that by (auto simp: st(4))
      have old: "secrets_of w k = Some x" if "secrets_of w' k = Some x" "k \<noteq> ?sid" for k x
        using that by (simp add: st(4))
      show "i = j"
      proof (cases "i = ?sid \<or> j = ?sid")
        case True
        then show ?thesis using s t eq new old other by metis
      next
        case False
        then show ?thesis using acc_inv_one_active [OF inv old [OF s] old [OF t] eq ex] by blast
      qed
    qed
    with run show ?thesis by simp
  qed
qed

inductive acc_step :: "crypto \<Rightarrow> acc_world \<Rightarrow> acc_world \<Rightarrow> bool" for c where
  issue: "acc_step c w (snd (acc_Issue (acc_F c) org scope w))"
| rotate: "acc_step c w (snd (acc_Rotate (acc_F c) org i h w))"
| revoke: "acc_step c w (snd (acc_Revoke (acc_F c) org i w))"
| verify: "acc_step c w (snd (acc_Verify (acc_F c) secret w))"
| tick: "aw_now w \<le> now \<Longrightarrow> acc_step c w (w\<lparr>aw_now := now, aw_rand := bytes\<rparr>)"

definition acc_init :: acc_world where
  "acc_init = \<lparr>aw_store = \<lparr>as_keys = [], as_secrets = []\<rparr>, aw_signing = [], aw_webhooks = [],
     aw_keys_minted = 0, aw_secrets_minted = 0, aw_signing_minted = 0, aw_webhooks_minted = 0,
     aw_now = 0, aw_rand = []\<rparr>"

lemma acc_step_inv: "acc_step c w w' \<Longrightarrow> acc_inv w \<Longrightarrow> acc_inv w'"
proof (induction rule: acc_step.induct)
  case (verify w secret)
  then show ?case by (simp add: Verify_run)
next
  case (tick w now bytes)
  then show ?case by (elim acc_inv_frame) simp_all
qed (erule preservesD [rotated], rule Issue_keeps Rotate_keeps Revoke_keeps)+

lemma acc_reachable_inv: "(acc_step c)\<^sup>*\<^sup>* v w \<Longrightarrow> acc_inv v \<Longrightarrow> acc_inv w"
  by (induction rule: rtranclp_induct) (auto intro: acc_step_inv)

lemma acc_init_inv: "acc_inv acc_init"
  by (simp add: acc_inv_def acc_init_def)

section \<open>A revoked key stays revoked\<close>

definition key_revoked :: "string \<Rightarrow> acc_world \<Rightarrow> bool" where
  "key_revoked i w \<longleftrightarrow> (\<exists>k. keys_of w i = Some k \<and> Key_IsRevoked k)"

lemma expireLive_keys: "keeps keys_of (expireLiveSecrets (acc_F c) org xs now t)"
  by (rule key_secrets.loop_keeps)
    (auto intro!: keepsI simp: keys_of_def acc_mem_MarkExpiring_def split: option.split)

lemma Rotate_keys:
  assumes "acc_inv w"
  shows "keys_of (snd (acc_Rotate (acc_F c) org i h w)) = keys_of w"
proof -
  obtain r w' where run: "acc_Rotate (acc_F c) org i h w = (r, w')" by fastforce
  show ?thesis
  proof (cases r)
    case (Inl e)
    from Rotate_failed [OF run [unfolded Inl]] show ?thesis
      using run keeps_result [OF expireLive_keys] by auto
  next
    case (Inr x)
    have "keys_of w' = keys_of w" by (rule Rotate_steps [OF assms run [unfolded Inr]])
    with run show ?thesis by simp
  qed
qed

lemma Issue_keys:
  assumes "acc_inv w"
  shows "keys_of (snd (acc_Issue (acc_F c) org scope w)) i = keys_of w i \<or> keys_of w i = None"
proof -
  obtain r w' where run: "acc_Issue (acc_F c) org scope w = (r, w')" by fastforce
  show ?thesis
  proof (cases r)
    case (Inl e)
    then have "w' = w" using run
      by (auto simp: acc_Issue_def attempt_apply call_apply zoom_apply acc_sequentialIDs_def Let_def
          acc_mem_SaveKey_def acc_mem_Save_def generateSecret_def tape_Read_def split: if_splits)
    with run show ?thesis by simp
  next
    case (Inr x)
    show ?thesis
      using Issue_steps(3) [OF assms run [unfolded Inr]] run acc_inv_key [OF assms, of i] not_minted by fastforce
  qed
qed

lemma step_key_revoked:
  "acc_step c w w' \<Longrightarrow> acc_inv w \<Longrightarrow> key_revoked i w \<Longrightarrow> key_revoked i w'"
proof (induction rule: acc_step.induct)
  case (issue w org scope)
  with Issue_keys [of w c org scope i] show ?case by (auto simp: key_revoked_def)
next
  case (rotate w org j h)
  with Rotate_keys [of w c org j h] show ?case by (simp add: key_revoked_def)
next
  case (revoke w org j)
  then show ?case
    by (auto simp: key_revoked_def acc_Revoke_def act_simps acc_mem_FindByID_def acc_mem_MarkRevoked_def
        keys_of_def Key_IsRevoked_def split: option.split)
next
  case (verify w secret)
  then show ?case by (simp add: Verify_run)
qed (simp add: key_revoked_def keys_of_def)

lemma reachable_key_revoked:
  "(acc_step c)\<^sup>*\<^sup>* v w \<Longrightarrow> acc_inv v \<Longrightarrow> key_revoked i v \<Longrightarrow> key_revoked i w"
  by (induction rule: rtranclp_induct) (auto intro: step_key_revoked acc_reachable_inv)

text \<open>
  C5: From an empty store, no sequence of issues, rotations, revocations and verifications (each
  may fail half way, when the random source does) leaves a key with two active secrets or a
  secret without a key, and no two keys or secrets share an id.
\<close>

theorem keys_invariant:
  assumes "(acc_step c)\<^sup>*\<^sup>* acc_init w"
  shows "(\<forall>s \<in> set (rows (as_secrets (aw_store w))). \<exists>k \<in> set (rows (as_keys (aw_store w))). Key_ID k = AKS_KeyID s)
    \<and> (\<forall>s \<in> set (rows (as_secrets (aw_store w))). \<forall>t \<in> set (rows (as_secrets (aw_store w))).
         AKS_KeyID s = AKS_KeyID t \<and> AKS_ExpiresAt s = None \<and> AKS_ExpiresAt t = None \<longrightarrow> s = t)
    \<and> distinct (map Key_ID (rows (as_keys (aw_store w))))
    \<and> distinct (map AKS_ID (rows (as_secrets (aw_store w))))"
proof -
  have inv: "acc_inv w" by (rule acc_reachable_inv [OF assms acc_init_inv])
  then have k: "keyed Key_ID (as_keys (aw_store w))" "keyed AKS_ID (as_secrets (aw_store w))"
    by (simp_all add: acc_inv_def)
  have sl: "x \<in> set (rows (as_secrets (aw_store w))) \<longleftrightarrow> secrets_of w (AKS_ID x) = Some x" for x
    using rows_lookup [OF k(2)] by (simp add: secrets_of_def)
  have kl: "x \<in> set (rows (as_keys (aw_store w))) \<longleftrightarrow> keys_of w (Key_ID x) = Some x" for x
    using rows_lookup [OF k(1)] by (simp add: keys_of_def)
  show ?thesis
  proof (intro conjI ballI impI)
    fix s assume "s \<in> set (rows (as_secrets (aw_store w)))"
    then obtain key where key: "keys_of w (AKS_KeyID s) = Some key"
      using sl acc_inv_secret(1) [OF inv] by blast
    moreover have "Key_ID key = AKS_KeyID s" by (rule acc_inv_keyed(2) [OF inv key])
    ultimately show "\<exists>k \<in> set (rows (as_keys (aw_store w))). Key_ID k = AKS_KeyID s" using kl by metis
  next
    fix s t
    assume "s \<in> set (rows (as_secrets (aw_store w)))" "t \<in> set (rows (as_secrets (aw_store w)))"
      and "AKS_KeyID s = AKS_KeyID t \<and> AKS_ExpiresAt s = None \<and> AKS_ExpiresAt t = None"
    then show "s = t" using sl acc_inv_one_active [OF inv] by (metis option.inject)
  qed (rule keyed_distinct_rows [OF k(1)] keyed_distinct_rows [OF k(2)])+
qed

text \<open>
  C7: The secret that \<open>Issue\<close> returns is accepted from then on by \<open>Verify\<close>, for exactly the
  organization and the scope it was issued with, provided no older secret has the same prefix
  and hash.
\<close>

theorem Issue_then_Verify:
  assumes "acc_inv w" and "acc_Issue (acc_F c) org scope w = (Inr r, w')"
    and "\<forall>key s. \<not> matches c w (IK_Secret r) key s"
  shows "fst (acc_Verify (acc_F c) (IK_Secret r) (w'\<lparr>aw_now := u\<rparr>)) = Inr \<lparr>VK_OrgID = org, VK_Scope = scope\<rparr>"
proof -
  note st = Issue_steps [OF assms(1,2)]
  let ?kid = "sequential_id ''key_'' (aw_keys_minted w)"
  let ?sid = "sequential_id ''secret_'' (aw_secrets_minted w)"
  let ?w = "w'\<lparr>aw_now := u\<rparr>"
  have inv: "acc_inv ?w"
    by (rule acc_inv_frame [OF preserves_result [OF Issue_keeps assms(1,2)]]) simp_all
  have fresh: "secrets_of w ?sid = None" "keys_of w ?kid = None"
    using acc_inv_secret(2) [OF assms(1)] acc_inv_key [OF assms(1)] not_minted by fastforce+
  have l: "secrets_of ?w = secrets_of w'" "keys_of ?w = keys_of w'" by (simp_all add: secrets_of_def keys_of_def)
  let ?s = "the (secrets_of w' ?sid)" and ?k = "the (keys_of w' ?kid)"
  have m: "matches c ?w (IK_Secret r) ?k ?s"
    by (simp add: matches_def l st(3,4) secretMatchesHash_def)
  have "s = ?s" if "matches c ?w (IK_Secret r) key s" for key s
  proof (cases "AKS_ID s = ?sid")
    case True
    with that show ?thesis by (auto simp: matches_def l st(4))
  next
    case False
    then have s: "secrets_of w (AKS_ID s) = Some s" using that by (simp add: matches_def l st(4))
    then obtain key' where "keys_of w (AKS_KeyID s) = Some key'" using acc_inv_secret(1) [OF assms(1)] by blast
    with s that have "matches c w (IK_Secret r) key' s" by (simp add: matches_def)
    with assms(3) show ?thesis by blast
  qed
  moreover have "hasSecretPrefix (IK_Secret r)"
  proof -
    obtain buf where b: "length buf = secretEntropyBytes" "IK_Secret r = SecretPrefix @ EncodeToString RawURLEncoding buf"
      using st(10) by blast
    obtain x y z xs where "buf = x # y # z # xs"
      using b(1) by (auto simp: secretEntropyBytes_def numeral_eq_Suc length_Suc_conv)
    with b(2) show ?thesis
      by (simp add: hasSecretPrefix_def HasPrefix_def SecretPrefix_def LookupPrefixLength_def)
  qed
  ultimately have "fst (acc_Verify (acc_F c) (IK_Secret r) ?w) =
     (if Key_RevokedAt ?k = None \<and> \<not> AKS_IsExpired ?s (aw_now ?w)
      then Inr \<lparr>VK_OrgID = Key_OrgID ?k, VK_Scope = Key_Scope ?k\<rparr> else Inl ErrUnauthorized)"
    using Verify_unique [OF inv _ m] by blast
  then show ?thesis by (simp add: st(3,4) AKS_IsExpired_def)
qed

text \<open>
  C8: Revocation is final. After a successful \<open>Revoke\<close> of a key, whatever steps follow (rotations
  and further issues included), no presented secret that matches a secret of that key alone is
  accepted, and the key cannot be rotated back to life: \<open>Rotate\<close> answers \<open>not_found\<close> and changes
  nothing.
\<close>

theorem revoked_key_refused:
  assumes "acc_inv v" and "acc_Revoke (acc_F c) org i v = (Inr (), v')" and "(acc_step c)\<^sup>*\<^sup>* v' w"
    and "matches c w secret key s" and "AKS_KeyID s = i"
    and "\<forall>key' s'. matches c w secret key' s' \<longrightarrow> s' = s"
  shows "acc_Verify (acc_F c) secret w = (Inl ErrUnauthorized, w)
    \<and> acc_Rotate (acc_F c) org' i h w = (Inl acc_ErrNotFound, w)"
proof
  have inv': "acc_inv v'" by (rule preserves_result [OF Revoke_keeps assms(1,2)])
  have inv: "acc_inv w" by (rule acc_reachable_inv [OF assms(3) inv'])
  have "key_revoked i v'"
  proof (cases "map_of (as_keys (aw_store v)) i")
    case None
    then show ?thesis using assms(2) by (simp add: acc_Revoke_def act_simps acc_mem_FindByID_def)
  next
    case (Some k)
    then have "v' = v\<lparr>aw_store := (aw_store v)\<lparr>as_keys :=
        put i (k\<lparr>Key_RevokedAt := Some (aw_now v)\<rparr>) (as_keys (aw_store v))\<rparr>\<rparr>"
      using assms(2)
      by (auto simp: acc_Revoke_def act_simps acc_mem_FindByID_def acc_mem_MarkRevoked_def split: if_splits)
    then show ?thesis by (simp add: key_revoked_def keys_of_def Key_IsRevoked_def)
  qed
  from reachable_key_revoked [OF assms(3) inv' this] obtain k where
    k: "keys_of w i = Some k" "Key_IsRevoked k" by (auto simp: key_revoked_def)
  have "key = k" using assms(4,5) k(1) by (simp add: matches_def)
  then have "hasSecretPrefix secret \<longrightarrow> fst (acc_Verify (acc_F c) secret w) = Inl ErrUnauthorized"
    using Verify_unique [OF inv _ assms(4)] assms(6) k(2) by (auto simp: Key_IsRevoked_def)
  then show "acc_Verify (acc_F c) secret w = (Inl ErrUnauthorized, w)"
    by (cases "hasSecretPrefix secret") (auto simp: Verify_run)
  show "acc_Rotate (acc_F c) org' i h w = (Inl acc_ErrNotFound, w)"
    using k by (simp add: acc_Rotate_def act_simps acc_mem_FindByID_def keys_of_def)
qed

section \<open>Examples\<close>

lemma keys_invariant_witness:
  "\<exists>w :: acc_world. as_secrets (aw_store w) \<noteq> [] \<and> distinct (map AKS_ID (rows (as_secrets (aw_store w))))"
proof -
  let ?v = "acc_init\<lparr>aw_now := 5, aw_rand := replicate 32 CHR ''s''\<rparr>"
  let ?w = "snd (acc_Issue (acc_F sample_crypto) ''org_1'' ScopeReadOnly ?v)"
  have 1: "acc_step sample_crypto acc_init ?v" by (rule acc_step.tick) (simp add: acc_init_def)
  have 2: "acc_step sample_crypto ?v ?w" by (rule acc_step.issue)
  have r: "(acc_step sample_crypto)\<^sup>*\<^sup>* acc_init ?w"
    using 1 2 by (meson r_into_rtranclp rtranclp.rtrancl_into_rtrancl)
  have "as_secrets (aw_store ?w) \<noteq> []"
    by (simp add: acc_Issue_def act_simps acc_init_def generateSecret_def tape_Read_def secretEntropyBytes_def
        acc_sequentialIDs_def acc_mem_SaveKey_def acc_mem_Save_def Let_def)
  moreover have "distinct (map AKS_ID (rows (as_secrets (aw_store ?w))))"
    using keys_invariant [OF r] by (elim conjE)
  ultimately show ?thesis by blast
qed

lemma Issue_then_Verify_witness:
  "\<exists>r w'. acc_Issue (acc_F sample_crypto) ''org_2'' ScopeReadWrite (acc_init\<lparr>aw_rand := replicate 32 CHR ''s''\<rparr>)
       = (Inr r, w')
     \<and> fst (acc_Verify (acc_F sample_crypto) (IK_Secret r) (w'\<lparr>aw_now := 77\<rparr>))
         = Inr \<lparr>VK_OrgID = ''org_2'', VK_Scope = ScopeReadWrite\<rparr>"
proof -
  let ?v = "acc_init\<lparr>aw_rand := replicate 32 CHR ''s''\<rparr>"
  obtain r w' where run: "acc_Issue (acc_F sample_crypto) ''org_2'' ScopeReadWrite ?v = (Inr r, w')"
    by (simp add: acc_Issue_def act_simps acc_init_def generateSecret_def tape_Read_def secretEntropyBytes_def
        acc_sequentialIDs_def acc_mem_SaveKey_def acc_mem_Save_def Let_def)
  have "acc_inv ?v" by (rule acc_inv_frame [OF acc_init_inv]) simp_all
  moreover have "\<forall>key s. \<not> matches sample_crypto ?v (IK_Secret r) key s"
    by (simp add: matches_def secrets_of_def acc_init_def)
  ultimately show ?thesis using Issue_then_Verify [OF _ run] run by blast
qed

lemma revoked_key_refused_witness:
  "\<exists>w. snd (acc_Revoke (acc_F sample_crypto) ''org_1'' (sequential_id ''key_'' 0) acc_demo) = w
     \<and> acc_Verify (acc_F sample_crypto) demo_secret w = (Inl ErrUnauthorized, w)"
proof -
  let ?w = "snd (acc_Revoke (acc_F sample_crypto) ''org_1'' (sequential_id ''key_'' 0) acc_demo)"
  have run: "acc_Revoke (acc_F sample_crypto) ''org_1'' (sequential_id ''key_'' 0) acc_demo = (Inr (), ?w)"
    by (simp add: acc_Revoke_def act_simps acc_demo_def acc_mem_FindByID_def acc_mem_MarkRevoked_def)
  let ?s = "the (secrets_of acc_demo (sequential_id ''secret_'' 0))"
  let ?k = "the (keys_of ?w (sequential_id ''key_'' 0))"
  have sec: "secrets_of ?w = secrets_of acc_demo"
    by (simp add: acc_Revoke_def act_simps acc_demo_def acc_mem_FindByID_def acc_mem_MarkRevoked_def secrets_of_def)
  have m: "matches sample_crypto ?w demo_secret ?k ?s"
    by (simp add: matches_def sec secretMatchesHash_def)
      (simp add: acc_Revoke_def act_simps acc_demo_def acc_mem_FindByID_def acc_mem_MarkRevoked_def secrets_of_def
        keys_of_def)
  have u: "\<forall>key' s'. matches sample_crypto ?w demo_secret key' s' \<longrightarrow> s' = ?s"
    by (auto simp: matches_def sec) (auto simp: acc_demo_def secrets_of_def split: if_splits)
  have "AKS_KeyID ?s = sequential_id ''key_'' 0" by (simp add: acc_demo_def secrets_of_def)
  from revoked_key_refused [OF acc_demo_inv run _ m this u] show ?thesis by blast
qed

end
