(* ===== verification/AccessOperators.thy ===== *)
theory AccessOperators
  imports AccessKeys
begin

text \<open>
  \<open>internal/access\<close>, the human operators of the admin console: accounts and passwords
  (\<open>operator.go\<close>, \<open>operator_password.go\<close>), sessions (\<open>operator_session.go\<close>) and the
  operations on them (\<open>operator_facade.go\<close>), with the in-memory repositories
  (\<open>driven/memory/operator_repository.go\<close>, \<open>operator_session_repository.go\<close>).
\<close>

section \<open>Errors (errors.go)\<close>

definition ErrInvalidCredentials :: go_error where
  "ErrInvalidCredentials = DomainError (httpx_Unauthorized ''invalid credentials'')"

definition ErrSessionUnauthorized :: go_error where
  "ErrSessionUnauthorized = DomainError (httpx_Unauthorized ''invalid or expired session'')"

definition ErrOperatorExists :: go_error where
  "ErrOperatorExists = DomainError (httpx_New 409 ''operator_exists'' ''an operator account already exists'')"

definition ErrPasswordTooShort :: "nat \<Rightarrow> go_error" where
  "ErrPasswordTooShort minLength =
     acc_ErrValidation ''password'' (''must be at least '' @ itoa (int minLength) @ '' characters'')"

definition ErrInvalidEmail :: go_error where
  "ErrInvalidEmail = acc_ErrValidation ''email'' ''must be a valid email address''"

definition ErrEmailAlreadyExists :: go_error where
  "ErrEmailAlreadyExists =
     DomainError (httpx_New 409 ''email_exists'' ''an operator account with this email already exists'')"

definition ErrOperatorNotFound :: go_error where
  "ErrOperatorNotFound = DomainError (httpx_New 404 ''operator_not_found'' ''operator not found'')"

definition ErrLastActiveOperator :: go_error where
  "ErrLastActiveOperator =
     DomainError (httpx_New 409 ''last_active_operator'' ''cannot deactivate the last active operator'')"

definition ErrAccountLocked :: go_error where
  "ErrAccountLocked =
     DomainError (httpx_New 429 ''account_locked'' ''too many failed attempts, try again later'')"

section \<open>Accounts (operator.go)\<close>

datatype OperatorStatus = OperatorStatusActive | OperatorStatusDisabled

record Operator =
  Oper_ID :: string
  Oper_Email :: string
  Oper_PasswordHash :: string
  Oper_Status :: OperatorStatus
  Oper_FailedAttempts :: int
  Oper_LockedUntil :: "time option"
  Oper_CreatedAt :: time

definition Oper_IsActive :: "Operator \<Rightarrow> bool" where
  "Oper_IsActive o' \<longleftrightarrow> Oper_Status o' = OperatorStatusActive"

definition Oper_IsLockedOut :: "Operator \<Rightarrow> time \<Rightarrow> bool" where
  "Oper_IsLockedOut o' now = (case Oper_LockedUntil o' of None \<Rightarrow> False | Some t \<Rightarrow> now < t)"

text \<open>\<open>strings.ToLower\<close> on ASCII letters; other letters are left as they are.\<close>

definition normalizeEmail :: "string \<Rightarrow> string" where
  "normalizeEmail email = json_lower (TrimSpace email)"

fun index_byte :: "string \<Rightarrow> char \<Rightarrow> nat option" where
  "index_byte [] c = None"
| "index_byte (x # s) c = (if x = c then Some 0 else map_option Suc (index_byte s c))"

definition looksLikeEmail :: "string \<Rightarrow> bool" where
  "looksLikeEmail email =
     (case index_byte email (CHR ''@'') of
        None \<Rightarrow> False
      | Some k \<Rightarrow>
          if k = 0 \<or> k = length email - 1 then False
          else CHR ''@'' \<notin> set (take k email) \<and> CHR ''.'' \<in> set (drop (k + 1) email))"

definition normalizeAndValidateEmail :: "string \<Rightarrow> go_error + string" where
  "normalizeAndValidateEmail email =
     (let normalized = normalizeEmail email in
      if \<not> looksLikeEmail normalized then Inl ErrInvalidEmail else Inr normalized)"

section \<open>Passwords (operator_password.go)\<close>

definition argon2SaltLength :: nat where
  "argon2SaltLength = 16"

definition argon2KeyLength :: nat where
  "argon2KeyLength = 32"

definition minPasswordLength :: nat where
  "minPasswordLength = 12"

definition encodePHC :: "crypto \<Rightarrow> string \<Rightarrow> string \<Rightarrow> string" where
  "encodePHC c password salt =
     ''$argon2id$v=19$m=19456,t=2,p=1$'' @ EncodeToString RawStdEncoding salt @ ''$''
     @ EncodeToString RawStdEncoding (argon2idKey c password salt argon2KeyLength)"

definition parsePHC :: "string \<Rightarrow> (string \<times> string) option" where
  "parsePHC phc =
     (let parts = Split (CHR ''$'') phc in
      if length parts \<noteq> 6 then None
      else (case (DecodeString RawStdEncoding (parts ! 4), DecodeString RawStdEncoding (parts ! 5)) of
              (Some salt, Some hash) \<Rightarrow> Some (salt, hash)
            | _ \<Rightarrow> None))"

definition verifyPassword :: "crypto \<Rightarrow> string \<Rightarrow> string \<Rightarrow> bool" where
  "verifyPassword c password phc =
     (case parsePHC phc of
        None \<Rightarrow> False
      | Some (salt, hash) \<Rightarrow> argon2idKey c password salt (length hash) = hash)"

section \<open>Sessions (operator_session.go)\<close>

definition sessionTokenEntropyBytes :: nat where
  "sessionTokenEntropyBytes = 32"

record OperatorSession =
  Sess_ID :: string
  Sess_OperatorID :: string
  Sess_TokenHash :: string
  Sess_CSRFToken :: string
  Sess_CreatedAt :: time
  Sess_ExpiresAt :: time
  Sess_RevokedAt :: "time option"

definition Sess_IsExpired :: "OperatorSession \<Rightarrow> time \<Rightarrow> bool" where
  "Sess_IsExpired s now \<longleftrightarrow> \<not> now < Sess_ExpiresAt s"

definition Sess_IsRevoked :: "OperatorSession \<Rightarrow> bool" where
  "Sess_IsRevoked s \<longleftrightarrow> Sess_RevokedAt s \<noteq> None"

definition hashSessionToken :: "crypto \<Rightarrow> string \<Rightarrow> string" where
  "hashSessionToken c token = sha256 c token"

definition sessionTokenHashMatches :: "string \<Rightarrow> string \<Rightarrow> bool" where
  "sessionTokenHashMatches hash candidateHash \<longleftrightarrow> hash = candidateHash"

section \<open>The facade (operator_facade.go, port.go)\<close>

record 's op_facade =
  op_operators_Save :: "Operator \<Rightarrow> ('s, unit) act"
  op_operators_FindByEmail :: "string \<Rightarrow> ('s, Operator option) act"
  op_operators_FindByID :: "string \<Rightarrow> ('s, Operator option) act"
  op_operators_Exists :: "('s, bool) act"
  op_operators_ListAll :: "('s, Operator list) act"
  op_operators_UpdatePasswordHash :: "string \<Rightarrow> string \<Rightarrow> ('s, unit) act"
  op_operators_SetStatus :: "string \<Rightarrow> OperatorStatus \<Rightarrow> ('s, unit) act"
  op_operators_CountActive :: "('s, int) act"
  op_operators_RecordFailedAttempt :: "string \<Rightarrow> time option \<Rightarrow> ('s, unit) act"
  op_operators_ResetFailedAttempts :: "string \<Rightarrow> ('s, unit) act"
  op_sessions_Save :: "OperatorSession \<Rightarrow> ('s, unit) act"
  op_sessions_FindByTokenHash :: "string \<Rightarrow> ('s, OperatorSession option) act"
  op_sessions_Revoke :: "string \<Rightarrow> time \<Rightarrow> ('s, unit) act"
  op_sessions_RevokeAllForOperator :: "string \<Rightarrow> time \<Rightarrow> ('s, unit) act"
  op_sessions_RevokeAllForOperatorExcept :: "string \<Rightarrow> string \<Rightarrow> time \<Rightarrow> ('s, unit) act"
  op_crypto :: crypto
  op_rand :: "nat \<Rightarrow> ('s, string) act"
  op_newOperatorID :: "'s \<Rightarrow> string \<times> 's"
  op_newSessionID :: "'s \<Rightarrow> string \<times> 's"
  op_now :: "'s \<Rightarrow> time \<times> 's"
  op_sessionTTL :: duration
  op_loginMaxAttempts :: int
  op_loginLockout :: duration

definition hashPassword :: "'s op_facade \<Rightarrow> string \<Rightarrow> ('s, string) act" where
  "hashPassword f password =
     attempt (op_rand f argon2SaltLength) (\<lambda>salt. ok (encodePHC (op_crypto f) password salt))"

definition generateSessionToken :: "'s op_facade \<Rightarrow> ('s, string) act" where
  "generateSessionToken f =
     attempt (op_rand f sessionTokenEntropyBytes) (\<lambda>buf. ok (EncodeToString RawURLEncoding buf))"

definition generateCSRFToken :: "'s op_facade \<Rightarrow> ('s, string) act" where
  "generateCSRFToken f =
     attempt (op_rand f sessionTokenEntropyBytes) (\<lambda>buf. ok (EncodeToString RawURLEncoding buf))"

definition defaultLoginMaxAttempts :: int where
  "defaultLoginMaxAttempts = 5"

definition defaultLoginLockoutMinutes :: int where
  "defaultLoginLockoutMinutes = 15"

definition loginMaxAttemptsOrFallback :: "'s op_facade \<Rightarrow> int" where
  "loginMaxAttemptsOrFallback f =
     (if op_loginMaxAttempts f \<le> 0 then defaultLoginMaxAttempts else op_loginMaxAttempts f)"

definition loginLockoutOrFallback :: "'s op_facade \<Rightarrow> duration" where
  "loginLockoutOrFallback f =
     (if op_loginLockout f \<le> 0 then defaultLoginLockoutMinutes * minute else op_loginLockout f)"

definition newValidatedOperator :: "'s op_facade \<Rightarrow> string \<Rightarrow> string \<Rightarrow> ('s, Operator) act" where
  "newValidatedOperator f email password =
     attempt (lift (normalizeAndValidateEmail email)) (\<lambda>normalizedEmail.
     if length password < minPasswordLength then fail (ErrPasswordTooShort minPasswordLength)
     else
       attempt (hashPassword f password) (\<lambda>passwordHash.
       call (op_newOperatorID f) (\<lambda>i.
       call (op_now f) (\<lambda>now.
       ok \<lparr>Oper_ID = i, Oper_Email = normalizedEmail, Oper_PasswordHash = passwordHash,
           Oper_Status = OperatorStatusActive, Oper_FailedAttempts = 0, Oper_LockedUntil = None,
           Oper_CreatedAt = now\<rparr>))))"

definition op_Bootstrap :: "'s op_facade \<Rightarrow> string \<Rightarrow> string \<Rightarrow> ('s, string \<times> string) act" where
  "op_Bootstrap f email password =
     attempt (op_operators_Exists f) (\<lambda>exists.
     if exists then fail ErrOperatorExists
     else
       attempt (newValidatedOperator f email password) (\<lambda>operator.
       attempt (op_operators_Save f operator) (\<lambda>_.
       ok (Oper_ID operator, Oper_Email operator))))"

record OperatorSummary =
  OSum_ID :: string
  OSum_Email :: string
  OSum_Status :: OperatorStatus
  OSum_CreatedAt :: time

definition op_ListOperators :: "'s op_facade \<Rightarrow> ('s, OperatorSummary list) act" where
  "op_ListOperators f =
     attempt (op_operators_ListAll f) (\<lambda>operators.
     ok (map (\<lambda>operator. \<lparr>OSum_ID = Oper_ID operator, OSum_Email = Oper_Email operator,
               OSum_Status = Oper_Status operator, OSum_CreatedAt = Oper_CreatedAt operator\<rparr>) operators))"

definition op_CreateOperator :: "'s op_facade \<Rightarrow> string \<Rightarrow> string \<Rightarrow> ('s, string \<times> string) act" where
  "op_CreateOperator f email password =
     attempt (newValidatedOperator f email password) (\<lambda>operator.
     attempt (op_operators_FindByEmail f (Oper_Email operator)) (\<lambda>existing.
     if existing \<noteq> None then fail ErrEmailAlreadyExists
     else
       attempt (op_operators_Save f operator) (\<lambda>_.
       ok (Oper_ID operator, Oper_Email operator))))"

definition op_ChangeMyPassword :: "'s op_facade \<Rightarrow> string \<Rightarrow> string \<Rightarrow> string \<Rightarrow> string \<Rightarrow> ('s, unit) act" where
  "op_ChangeMyPassword f operatorID currentSessionID currentPassword newPassword =
     attempt (op_operators_FindByID f operatorID) (\<lambda>found.
     case found of
       None \<Rightarrow> fail ErrInvalidCredentials
     | Some operator \<Rightarrow>
         if \<not> verifyPassword (op_crypto f) currentPassword (Oper_PasswordHash operator)
         then fail ErrInvalidCredentials
         else if length newPassword < minPasswordLength then fail (ErrPasswordTooShort minPasswordLength)
         else
           attempt (hashPassword f newPassword) (\<lambda>newHash.
           attempt (op_operators_UpdatePasswordHash f operatorID newHash) (\<lambda>_.
           call (op_now f) (\<lambda>now.
           op_sessions_RevokeAllForOperatorExcept f operatorID currentSessionID now))))"

definition op_Deactivate :: "'s op_facade \<Rightarrow> string \<Rightarrow> ('s, unit) act" where
  "op_Deactivate f targetOperatorID =
     attempt (op_operators_FindByID f targetOperatorID) (\<lambda>found.
     case found of
       None \<Rightarrow> fail ErrOperatorNotFound
     | Some target \<Rightarrow>
         (let disable =
                attempt (op_operators_SetStatus f targetOperatorID OperatorStatusDisabled) (\<lambda>_.
                call (op_now f) (\<lambda>now. op_sessions_RevokeAllForOperator f targetOperatorID now))
          in if Oper_IsActive target then
               attempt (op_operators_CountActive f) (\<lambda>activeCount.
               if activeCount \<le> 1 then fail ErrLastActiveOperator else disable)
             else disable))"

definition op_ResetPassword :: "'s op_facade \<Rightarrow> string \<Rightarrow> string \<Rightarrow> ('s, unit) act" where
  "op_ResetPassword f targetOperatorID newPassword =
     (if length newPassword < minPasswordLength then fail (ErrPasswordTooShort minPasswordLength)
      else
        attempt (op_operators_FindByID f targetOperatorID) (\<lambda>target.
        case target of
          None \<Rightarrow> fail ErrOperatorNotFound
        | Some _ \<Rightarrow>
            attempt (hashPassword f newPassword) (\<lambda>newHash.
            attempt (op_operators_UpdatePasswordHash f targetOperatorID newHash) (\<lambda>_.
            attempt (op_operators_SetStatus f targetOperatorID OperatorStatusActive) (\<lambda>_.
            call (op_now f) (\<lambda>now. op_sessions_RevokeAllForOperator f targetOperatorID now))))))"

definition op_OperatorsExist :: "'s op_facade \<Rightarrow> ('s, bool) act" where
  "op_OperatorsExist f = op_operators_Exists f"

record LoggedInSession =
  LIS_OperatorID :: string
  LIS_Token :: string
  LIS_CSRFToken :: string
  LIS_ExpiresAt :: time

definition recordFailedAttempt :: "'s op_facade \<Rightarrow> Operator \<Rightarrow> time \<Rightarrow> ('s, unit) act" where
  "recordFailedAttempt f operator now =
     (let newFailedAttempts = Oper_FailedAttempts operator + 1;
          lockedUntil = (if newFailedAttempts \<ge> loginMaxAttemptsOrFallback f
                         then Some (now + loginLockoutOrFallback f) else None)
      in op_operators_RecordFailedAttempt f (Oper_ID operator) lockedUntil)"

definition mintSession :: "'s op_facade \<Rightarrow> string \<Rightarrow> ('s, LoggedInSession) act" where
  "mintSession f operatorID =
     attempt (generateSessionToken f) (\<lambda>token.
     attempt (generateCSRFToken f) (\<lambda>csrfToken.
     call (op_now f) (\<lambda>now.
     call (op_newSessionID f) (\<lambda>i.
     let session = \<lparr>Sess_ID = i, Sess_OperatorID = operatorID,
           Sess_TokenHash = hashSessionToken (op_crypto f) token, Sess_CSRFToken = csrfToken,
           Sess_CreatedAt = now, Sess_ExpiresAt = now + op_sessionTTL f, Sess_RevokedAt = None\<rparr> in
     attempt (op_sessions_Save f session) (\<lambda>_.
     ok \<lparr>LIS_OperatorID = operatorID, LIS_Token = token, LIS_CSRFToken = csrfToken,
         LIS_ExpiresAt = Sess_ExpiresAt session\<rparr>)))))"

text \<open>
  \<open>Login\<close>: for an unknown email the code still verifies the password against a decoy, for its
  timing only; the result is the same.
\<close>

definition op_Login :: "'s op_facade \<Rightarrow> string \<Rightarrow> string \<Rightarrow> ('s, LoggedInSession) act" where
  "op_Login f email password =
     attempt (op_operators_FindByEmail f (normalizeEmail email)) (\<lambda>found.
     case found of
       None \<Rightarrow> fail ErrInvalidCredentials
     | Some operator \<Rightarrow>
         call (op_now f) (\<lambda>now.
         if Oper_IsLockedOut operator now then fail ErrAccountLocked
         else if \<not> verifyPassword (op_crypto f) password (Oper_PasswordHash operator) then
           attempt (recordFailedAttempt f operator now) (\<lambda>_. fail ErrInvalidCredentials)
         else if \<not> Oper_IsActive operator then fail ErrInvalidCredentials
         else
           attempt (op_operators_ResetFailedAttempts f (Oper_ID operator)) (\<lambda>_.
           mintSession f (Oper_ID operator))))"

record AuthenticatedOperator =
  Auth_OperatorID :: string
  Auth_SessionID :: string
  Auth_CSRFToken :: string

definition op_VerifySession :: "'s op_facade \<Rightarrow> string \<Rightarrow> ('s, AuthenticatedOperator) act" where
  "op_VerifySession f token =
     (let hash = hashSessionToken (op_crypto f) token in
      attempt (op_sessions_FindByTokenHash f hash) (\<lambda>found.
      case found of
        None \<Rightarrow> fail ErrSessionUnauthorized
      | Some session \<Rightarrow>
          if \<not> sessionTokenHashMatches hash (Sess_TokenHash session) then fail ErrSessionUnauthorized
          else if Sess_IsRevoked session then fail ErrSessionUnauthorized
          else
            call (op_now f) (\<lambda>now.
            if Sess_IsExpired session now then fail ErrSessionUnauthorized
            else
              attempt (op_operators_FindByID f (Sess_OperatorID session)) (\<lambda>operator.
              case operator of
                None \<Rightarrow> fail ErrSessionUnauthorized
              | Some o' \<Rightarrow>
                  if \<not> Oper_IsActive o' then fail ErrSessionUnauthorized
                  else ok \<lparr>Auth_OperatorID = Oper_ID o', Auth_SessionID = Sess_ID session,
                           Auth_CSRFToken = Sess_CSRFToken session\<rparr>))))"

definition op_Logout :: "'s op_facade \<Rightarrow> string \<Rightarrow> ('s, unit) act" where
  "op_Logout f token =
     attempt (op_sessions_FindByTokenHash f (hashSessionToken (op_crypto f) token)) (\<lambda>found.
     case found of
       None \<Rightarrow> ok ()
     | Some session \<Rightarrow>
         if Sess_IsRevoked session then ok ()
         else call (op_now f) (\<lambda>now. op_sessions_Revoke f (Sess_ID session) now))"

definition op_Me :: "'s op_facade \<Rightarrow> string \<Rightarrow> ('s, string \<times> string) act" where
  "op_Me f operatorID =
     attempt (op_operators_FindByID f operatorID) (\<lambda>found.
     case found of
       None \<Rightarrow> fail ErrSessionUnauthorized
     | Some operator \<Rightarrow> ok (Oper_ID operator, Oper_Email operator))"

section \<open>The in-memory repositories\<close>

type_synonym op_table = "(string, Operator) table"
type_synonym sess_table = "(string, OperatorSession) table"

definition op_mem_Save :: "Operator \<Rightarrow> (op_table, unit) act" where
  "op_mem_Save operator r = (Inr (), put (Oper_ID operator) operator r)"

definition op_mem_FindByEmail :: "string \<Rightarrow> (op_table, Operator option) act" where
  "op_mem_FindByEmail email r = (Inr (find (\<lambda>o'. Oper_Email o' = email) (rows r)), r)"

definition op_mem_FindByID :: "string \<Rightarrow> (op_table, Operator option) act" where
  "op_mem_FindByID i r = (Inr (map_of r i), r)"

definition op_mem_Exists :: "(op_table, bool) act" where
  "op_mem_Exists r = (Inr (length r > 0), r)"

definition op_mem_ListAll :: "(op_table, Operator list) act" where
  "op_mem_ListAll r = (Inr (rows r), r)"

definition op_mem_UpdatePasswordHash :: "string \<Rightarrow> string \<Rightarrow> (op_table, unit) act" where
  "op_mem_UpdatePasswordHash i passwordHash r =
     (case map_of r i of
        None \<Rightarrow> (Inr (), r)
      | Some operator \<Rightarrow> (Inr (), put i (operator\<lparr>Oper_PasswordHash := passwordHash\<rparr>) r))"

definition op_mem_SetStatus :: "string \<Rightarrow> OperatorStatus \<Rightarrow> (op_table, unit) act" where
  "op_mem_SetStatus i status r =
     (case map_of r i of
        None \<Rightarrow> (Inr (), r)
      | Some operator \<Rightarrow> (Inr (), put i (operator\<lparr>Oper_Status := status\<rparr>) r))"

definition op_mem_CountActive :: "(op_table, int) act" where
  "op_mem_CountActive r = (Inr (int (length (filter Oper_IsActive (rows r)))), r)"

definition op_mem_RecordFailedAttempt :: "string \<Rightarrow> time option \<Rightarrow> (op_table, unit) act" where
  "op_mem_RecordFailedAttempt i lockedUntil r =
     (case map_of r i of
        None \<Rightarrow> (Inr (), r)
      | Some operator \<Rightarrow>
          (Inr (), put i (operator\<lparr>Oper_FailedAttempts := Oper_FailedAttempts operator + 1,
             Oper_LockedUntil := (if lockedUntil \<noteq> None then lockedUntil else Oper_LockedUntil operator)\<rparr>) r))"

definition op_mem_ResetFailedAttempts :: "string \<Rightarrow> (op_table, unit) act" where
  "op_mem_ResetFailedAttempts i r =
     (case map_of r i of
        None \<Rightarrow> (Inr (), r)
      | Some operator \<Rightarrow>
          (Inr (), put i (operator\<lparr>Oper_FailedAttempts := 0, Oper_LockedUntil := None\<rparr>) r))"

definition sess_mem_Save :: "OperatorSession \<Rightarrow> (sess_table, unit) act" where
  "sess_mem_Save session r = (Inr (), put (Sess_ID session) session r)"

definition sess_mem_FindByTokenHash :: "string \<Rightarrow> (sess_table, OperatorSession option) act" where
  "sess_mem_FindByTokenHash tokenHash r = (Inr (find (\<lambda>s. Sess_TokenHash s = tokenHash) (rows r)), r)"

definition sess_mem_Revoke :: "string \<Rightarrow> time \<Rightarrow> (sess_table, unit) act" where
  "sess_mem_Revoke i t r =
     (case map_of r i of
        None \<Rightarrow> (Inr (), r)
      | Some session \<Rightarrow>
          if Sess_RevokedAt session \<noteq> None then (Inr (), r)
          else (Inr (), put i (session\<lparr>Sess_RevokedAt := Some t\<rparr>) r))"

definition sess_mem_RevokeAllForOperator :: "string \<Rightarrow> time \<Rightarrow> (sess_table, unit) act" where
  "sess_mem_RevokeAllForOperator operatorID t r =
     (Inr (), map (\<lambda>(i, session).
        if Sess_OperatorID session \<noteq> operatorID \<or> Sess_RevokedAt session \<noteq> None then (i, session)
        else (i, session\<lparr>Sess_RevokedAt := Some t\<rparr>)) r)"

definition sess_mem_RevokeAllForOperatorExcept :: "string \<Rightarrow> string \<Rightarrow> time \<Rightarrow> (sess_table, unit) act" where
  "sess_mem_RevokeAllForOperatorExcept operatorID exceptSessionID t r =
     (Inr (), map (\<lambda>(i, session).
        if Sess_OperatorID session \<noteq> operatorID \<or> Sess_RevokedAt session \<noteq> None
           \<or> Sess_ID session = exceptSessionID then (i, session)
        else (i, session\<lparr>Sess_RevokedAt := Some t\<rparr>)) r)"

text \<open>The world of the in-memory facade: both tables, the id counters, the clock, random bytes.\<close>

record op_world =
  opw_operators :: op_table
  opw_sessions :: sess_table
  opw_ops_minted :: nat
  opw_sess_minted :: nat
  opw_now :: time
  opw_rand :: string

definition op_tape_Read :: "nat \<Rightarrow> (op_world, string) act" where
  "op_tape_Read n w =
     (if length (opw_rand w) < n then (Inl (OtherError ''rand''), w)
      else (Inr (take n (opw_rand w)), w\<lparr>opw_rand := drop n (opw_rand w)\<rparr>))"

abbreviation on_ops :: "(op_table, 'a) act \<Rightarrow> (op_world, 'a) act" where
  "on_ops m \<equiv> zoom opw_operators opw_operators_update m"

abbreviation on_sess :: "(sess_table, 'a) act \<Rightarrow> (op_world, 'a) act" where
  "on_sess m \<equiv> zoom opw_sessions opw_sessions_update m"

definition op_memory_facade :: "crypto \<Rightarrow> duration \<Rightarrow> int \<Rightarrow> duration \<Rightarrow> op_world op_facade" where
  "op_memory_facade c ttl maxAttempts lockout =
     \<lparr>op_operators_Save = (\<lambda>o'. on_ops (op_mem_Save o')),
      op_operators_FindByEmail = (\<lambda>e. on_ops (op_mem_FindByEmail e)),
      op_operators_FindByID = (\<lambda>i. on_ops (op_mem_FindByID i)),
      op_operators_Exists = on_ops op_mem_Exists,
      op_operators_ListAll = on_ops op_mem_ListAll,
      op_operators_UpdatePasswordHash = (\<lambda>i h. on_ops (op_mem_UpdatePasswordHash i h)),
      op_operators_SetStatus = (\<lambda>i st. on_ops (op_mem_SetStatus i st)),
      op_operators_CountActive = on_ops op_mem_CountActive,
      op_operators_RecordFailedAttempt = (\<lambda>i t. on_ops (op_mem_RecordFailedAttempt i t)),
      op_operators_ResetFailedAttempts = (\<lambda>i. on_ops (op_mem_ResetFailedAttempts i)),
      op_sessions_Save = (\<lambda>s. on_sess (sess_mem_Save s)),
      op_sessions_FindByTokenHash = (\<lambda>h. on_sess (sess_mem_FindByTokenHash h)),
      op_sessions_Revoke = (\<lambda>i t. on_sess (sess_mem_Revoke i t)),
      op_sessions_RevokeAllForOperator = (\<lambda>i t. on_sess (sess_mem_RevokeAllForOperator i t)),
      op_sessions_RevokeAllForOperatorExcept =
        (\<lambda>i e t. on_sess (sess_mem_RevokeAllForOperatorExcept i e t)),
      op_crypto = c, op_rand = op_tape_Read,
      op_newOperatorID = zoom opw_ops_minted opw_ops_minted_update (\<lambda>n. (sequential_id ''opr_'' n, Suc n)),
      op_newSessionID = zoom opw_sess_minted opw_sess_minted_update (\<lambda>n. (sequential_id ''ops_'' n, Suc n)),
      op_now = (\<lambda>w. (opw_now w, w)), op_sessionTTL = ttl, op_loginMaxAttempts = maxAttempts,
      op_loginLockout = lockout\<rparr>"

section \<open>Passwords round trip\<close>

lemma digest_chars: "CHR ''$'' \<notin> set (EncodeToString RawStdEncoding s)"
proof (rule EncodeToString_chars)
  fix v :: nat assume v: "v < 64"
  show "sextet_char RawStdEncoding v \<noteq> CHR ''$''"
  proof
    assume "sextet_char RawStdEncoding v = CHR ''$''"
    then have "byte_val (sextet_char RawStdEncoding v) = 36" by simp
    with v show False by (simp add: sextet_char_val split: if_splits)
  qed
qed simp

lemma parse_encodePHC:
  "parsePHC (encodePHC c password salt) = Some (salt, argon2idKey c password salt argon2KeyLength)"
proof -
  let ?a = "EncodeToString RawStdEncoding salt"
  let ?b = "EncodeToString RawStdEncoding (argon2idKey c password salt argon2KeyLength)"
  have phc: "encodePHC c password salt =
      Join [[], ''argon2id'', ''v=19'', ''m=19456,t=2,p=1'', ?a, ?b] ''$''"
    by (simp add: encodePHC_def)
  have "Split (CHR ''$'') (encodePHC c password salt)
      = [[], ''argon2id'', ''v=19'', ''m=19456,t=2,p=1'', ?a, ?b]"
    unfolding phc by (rule Split_Join) (auto simp: digest_chars)
  then show ?thesis
    by (simp add: parsePHC_def Let_def DecodeString_EncodeToString numeral_eq_Suc)
qed

text \<open>Argon2id returns as many bytes as it is asked for.\<close>

definition argon2_length :: "crypto \<Rightarrow> bool" where
  "argon2_length c \<longleftrightarrow> (\<forall>password salt n. length (argon2idKey c password salt n) = n)"

lemma verify_encodePHC:
  assumes "argon2_length c"
  shows "verifyPassword c password' (encodePHC c password salt) \<longleftrightarrow>
    argon2idKey c password' salt argon2KeyLength = argon2idKey c password salt argon2KeyLength"
  using assms by (simp add: verifyPassword_def parse_encodePHC argon2_length_def)

section \<open>The in-memory facade, operation by operation\<close>

lemma op_memory_ops [simp]:
  "op_operators_Save (op_memory_facade c ttl n l) = (\<lambda>o'. on_ops (op_mem_Save o'))"
  "op_operators_FindByEmail (op_memory_facade c ttl n l) = (\<lambda>e. on_ops (op_mem_FindByEmail e))"
  "op_operators_FindByID (op_memory_facade c ttl n l) = (\<lambda>i. on_ops (op_mem_FindByID i))"
  "op_operators_Exists (op_memory_facade c ttl n l) = on_ops op_mem_Exists"
  "op_operators_UpdatePasswordHash (op_memory_facade c ttl n l) = (\<lambda>i h. on_ops (op_mem_UpdatePasswordHash i h))"
  "op_operators_SetStatus (op_memory_facade c ttl n l) = (\<lambda>i st. on_ops (op_mem_SetStatus i st))"
  "op_operators_CountActive (op_memory_facade c ttl n l) = on_ops op_mem_CountActive"
  "op_operators_RecordFailedAttempt (op_memory_facade c ttl n l) =
     (\<lambda>i t. on_ops (op_mem_RecordFailedAttempt i t))"
  "op_operators_ResetFailedAttempts (op_memory_facade c ttl n l) = (\<lambda>i. on_ops (op_mem_ResetFailedAttempts i))"
  "op_sessions_Save (op_memory_facade c ttl n l) = (\<lambda>s. on_sess (sess_mem_Save s))"
  "op_sessions_FindByTokenHash (op_memory_facade c ttl n l) = (\<lambda>h. on_sess (sess_mem_FindByTokenHash h))"
  "op_sessions_Revoke (op_memory_facade c ttl n l) = (\<lambda>i t. on_sess (sess_mem_Revoke i t))"
  "op_sessions_RevokeAllForOperator (op_memory_facade c ttl n l) =
     (\<lambda>i t. on_sess (sess_mem_RevokeAllForOperator i t))"
  "op_sessions_RevokeAllForOperatorExcept (op_memory_facade c ttl n l) =
     (\<lambda>i e t. on_sess (sess_mem_RevokeAllForOperatorExcept i e t))"
  "op_crypto (op_memory_facade c ttl n l) = c"
  "op_rand (op_memory_facade c ttl n l) = op_tape_Read"
  "op_newOperatorID (op_memory_facade c ttl n l) =
     zoom opw_ops_minted opw_ops_minted_update (\<lambda>n. (sequential_id ''opr_'' n, Suc n))"
  "op_newSessionID (op_memory_facade c ttl n l) =
     zoom opw_sess_minted opw_sess_minted_update (\<lambda>n. (sequential_id ''ops_'' n, Suc n))"
  "op_now (op_memory_facade c ttl n l) = (\<lambda>w. (opw_now w, w))"
  "op_sessionTTL (op_memory_facade c ttl n l) = ttl"
  "op_loginMaxAttempts (op_memory_facade c ttl n l) = n"
  "op_loginLockout (op_memory_facade c ttl n l) = l"
  by (simp_all add: op_memory_facade_def)

definition opers :: "op_world \<Rightarrow> string \<Rightarrow> Operator option" where
  "opers w = map_of (opw_operators w)"

definition sessions :: "op_world \<Rightarrow> string \<Rightarrow> OperatorSession option" where
  "sessions w = map_of (opw_sessions w)"

text \<open>
  The invariant: rows under their ids, ids minted by the counters, one account per email, and,
  once there is an account, an active one.
\<close>

definition op_inv :: "op_world \<Rightarrow> bool" where
  "op_inv w \<longleftrightarrow>
     keyed Oper_ID (opw_operators w) \<and> keyed Sess_ID (opw_sessions w)
     \<and> (\<forall>i. opers w i \<noteq> None \<longrightarrow> minted ''opr_'' (opw_ops_minted w) i)
     \<and> (\<forall>i. sessions w i \<noteq> None \<longrightarrow> minted ''ops_'' (opw_sess_minted w) i)
     \<and> (\<forall>i j a b. opers w i = Some a \<and> opers w j = Some b \<and> Oper_Email a = Oper_Email b \<longrightarrow> i = j)
     \<and> (opw_operators w = [] \<or> (\<exists>i a. opers w i = Some a \<and> Oper_IsActive a))"

definition revoke_where :: "(OperatorSession \<Rightarrow> bool) \<Rightarrow> time \<Rightarrow> sess_table \<Rightarrow> sess_table" where
  "revoke_where P t = map (\<lambda>(i, s). (i, if P s \<and> Sess_RevokedAt s = None then s\<lparr>Sess_RevokedAt := Some t\<rparr> else s))"

lemma revoke_all_eq:
  "sess_mem_RevokeAllForOperator op t r = (Inr (), revoke_where (\<lambda>s. Sess_OperatorID s = op) t r)"
  "sess_mem_RevokeAllForOperatorExcept op e t r =
     (Inr (), revoke_where (\<lambda>s. Sess_OperatorID s = op \<and> Sess_ID s \<noteq> e) t r)"
  by (auto simp: sess_mem_RevokeAllForOperator_def sess_mem_RevokeAllForOperatorExcept_def revoke_where_def)

lemma map_of_revoke_where:
  "map_of (revoke_where P t r) i =
     map_option (\<lambda>s. if P s \<and> Sess_RevokedAt s = None then s\<lparr>Sess_RevokedAt := Some t\<rparr> else s) (map_of r i)"
  by (induction r) (auto simp: revoke_where_def)

lemma keyed_revoke_where: "keyed Sess_ID r \<Longrightarrow> keyed Sess_ID (revoke_where P t r)"
proof -
  assume k: "keyed Sess_ID r"
  have "map fst (revoke_where P t r) = map fst r"
    by (simp add: revoke_where_def case_prod_beta comp_def)
  then have "distinct (map fst (revoke_where P t r))" using k by (simp add: keyed_def)
  moreover have "Sess_ID v = i" if "(i, v) \<in> set (revoke_where P t r)" for i v
    using that k by (auto simp: revoke_where_def keyed_def)
  ultimately show ?thesis by (auto simp: keyed_def)
qed

lemma op_invI:
  assumes "keyed Oper_ID (opw_operators w)" and "keyed Sess_ID (opw_sessions w)"
    and "\<And>i. opers w i \<noteq> None \<Longrightarrow> minted ''opr_'' (opw_ops_minted w) i"
    and "\<And>i. sessions w i \<noteq> None \<Longrightarrow> minted ''ops_'' (opw_sess_minted w) i"
    and "\<And>i j a b. opers w i = Some a \<Longrightarrow> opers w j = Some b \<Longrightarrow> Oper_Email a = Oper_Email b \<Longrightarrow> i = j"
    and "opw_operators w \<noteq> [] \<Longrightarrow> \<exists>i a. opers w i = Some a \<and> Oper_IsActive a"
  shows "op_inv w"
  using assms unfolding op_inv_def by blast

lemma op_invD:
  assumes "op_inv w"
  shows "keyed Oper_ID (opw_operators w)" and "keyed Sess_ID (opw_sessions w)"
    and "\<And>i. opers w i \<noteq> None \<Longrightarrow> minted ''opr_'' (opw_ops_minted w) i"
    and "\<And>i. sessions w i \<noteq> None \<Longrightarrow> minted ''ops_'' (opw_sess_minted w) i"
    and "\<And>i j a b. opers w i = Some a \<Longrightarrow> opers w j = Some b \<Longrightarrow> Oper_Email a = Oper_Email b \<Longrightarrow> i = j"
    and "opw_operators w \<noteq> [] \<Longrightarrow> \<exists>i a. opers w i = Some a \<and> Oper_IsActive a"
  using assms unfolding op_inv_def by blast+

lemma op_inv_sessions:
  assumes "op_inv w" and "keyed Sess_ID r" and "\<And>i. map_of r i \<noteq> None \<Longrightarrow> sessions w i \<noteq> None"
  shows "op_inv (w\<lparr>opw_sessions := r\<rparr>)"
  using assms by (auto simp: op_inv_def opers_def sessions_def)

lemma op_inv_revoke_where: "op_inv w \<Longrightarrow> op_inv (w\<lparr>opw_sessions := revoke_where P t (opw_sessions w)\<rparr>)"
  by (rule op_inv_sessions) (auto simp: op_inv_def keyed_revoke_where map_of_revoke_where sessions_def)

lemma op_inv_update:
  assumes "op_inv w" and "opers w i = Some a" and "Oper_ID a' = Oper_ID a" and "Oper_Email a' = Oper_Email a"
    and "Oper_IsActive a \<Longrightarrow> Oper_IsActive a'"
  shows "op_inv (w\<lparr>opw_operators := put i a' (opw_operators w)\<rparr>)"
proof -
  have k: "keyed Oper_ID (opw_operators w)" using assms(1) by (simp add: op_inv_def)
  then have "Oper_ID a = i" using keyed_lookup [OF k] assms(2) by (simp add: opers_def)
  then have k': "keyed Oper_ID (put i a' (opw_operators w))"
    using keyed_put [OF k, of a' i] assms(3) by simp
  have o': "opers (w\<lparr>opw_operators := put i a' (opw_operators w)\<rparr>) = (opers w)(i \<mapsto> a')"
    by (auto simp: opers_def fun_eq_iff)
  have act: "\<exists>j b. ((opers w)(i \<mapsto> a')) j = Some b \<and> Oper_IsActive b"
  proof -
    have "opw_operators w \<noteq> []" using assms(2) by (auto simp: opers_def)
    then obtain j b where jb: "opers w j = Some b" "Oper_IsActive b"
      using assms(1) unfolding op_inv_def by blast
    show ?thesis
    proof (cases "j = i")
      case True
      then show ?thesis using jb assms(2,5) by (intro exI [of _ i] exI [of _ a']) auto
    next
      case False
      then show ?thesis using jb by (intro exI [of _ j] exI [of _ b]) auto
    qed
  qed
  have email: "Oper_Email x = Oper_Email y" if "((opers w)(i \<mapsto> a')) j = Some x" "opers w j = Some y" for j x y
    using that assms(2,4) by (auto split: if_splits)
  have dom: "((opers w)(i \<mapsto> a')) j = None \<longleftrightarrow> opers w j = None" for j
    using assms(2) by auto
  have uniq: "opers w j = Some x \<Longrightarrow> opers w k = Some y \<Longrightarrow> Oper_Email x = Oper_Email y \<Longrightarrow> j = k" for j k x y
    using assms(1) unfolding op_inv_def by blast
  have "j = k" if "((opers w)(i \<mapsto> a')) j = Some x" "((opers w)(i \<mapsto> a')) k = Some y"
    "Oper_Email x = Oper_Email y" for j k x y
  proof -
    have "opers w j \<noteq> None" "opers w k \<noteq> None" using that(1,2) assms(2) by (auto split: if_splits)
    then obtain x' y' where "opers w j = Some x'" "opers w k = Some y'" by blast
    then show ?thesis using that email uniq by metis
  qed
  note same_email = this
  show ?thesis
  proof (rule op_invI)
    show "keyed Oper_ID (opw_operators (w\<lparr>opw_operators := put i a' (opw_operators w)\<rparr>))"
      using k' by simp
    show "keyed Sess_ID (opw_sessions (w\<lparr>opw_operators := put i a' (opw_operators w)\<rparr>))"
      using op_invD(2) [OF assms(1)] by simp
  next
    fix j assume "opers (w\<lparr>opw_operators := put i a' (opw_operators w)\<rparr>) j \<noteq> None"
    then have "opers w j \<noteq> None" unfolding o' dom .
    then show "minted ''opr_'' (opw_ops_minted (w\<lparr>opw_operators := put i a' (opw_operators w)\<rparr>)) j"
      using op_invD(3) [OF assms(1)] by simp
  next
    fix j assume "sessions (w\<lparr>opw_operators := put i a' (opw_operators w)\<rparr>) j \<noteq> None"
    then show "minted ''ops_'' (opw_sess_minted (w\<lparr>opw_operators := put i a' (opw_operators w)\<rparr>)) j"
      using op_invD(4) [OF assms(1)] by (simp add: sessions_def)
  next
    show "\<exists>j b. opers (w\<lparr>opw_operators := put i a' (opw_operators w)\<rparr>) j = Some b \<and> Oper_IsActive b"
      unfolding o' by (rule act)
  qed (use same_email in \<open>simp only: o'\<close>)
qed

text \<open>A fresh, active account under a fresh id and an unused email.\<close>

lemma op_inv_insert:
  assumes inv: "op_inv w" and "Oper_IsActive a" and "Oper_ID a = sequential_id ''opr_'' (opw_ops_minted w)"
    and "\<And>i b. opers w i = Some b \<Longrightarrow> Oper_Email b \<noteq> Oper_Email a"
  shows "op_inv (w\<lparr>opw_operators := put (Oper_ID a) a (opw_operators w),
                   opw_ops_minted := Suc (opw_ops_minted w)\<rparr>)" (is "op_inv ?v")
proof -
  have o': "opers ?v = (opers w)(Oper_ID a \<mapsto> a)" and s': "sessions ?v = sessions w"
    by (auto simp: opers_def sessions_def fun_eq_iff)
  show ?thesis
  proof (rule op_invI)
    show "keyed Oper_ID (opw_operators ?v)" using keyed_put [OF op_invD(1) [OF inv]] by simp
    show "keyed Sess_ID (opw_sessions ?v)" using op_invD(2) [OF inv] by simp
  next
    fix i assume "opers ?v i \<noteq> None"
    then show "minted ''opr_'' (opw_ops_minted ?v) i"
      using op_invD(3) [OF inv, of i] assms(3) minted_next [of "''opr_''" "opw_ops_minted w"] minted_Suc
      unfolding o' by (auto split: if_splits)
  next
    fix i assume "sessions ?v i \<noteq> None"
    then show "minted ''ops_'' (opw_sess_minted ?v) i" using op_invD(4) [OF inv] s' by simp
  next
    fix i j x y assume "opers ?v i = Some x" "opers ?v j = Some y" "Oper_Email x = Oper_Email y"
    then show "i = j" using op_invD(5) [OF inv] assms(4) unfolding o' by (metis fun_upd_apply option.inject)
  next
    show "\<exists>i x. opers ?v i = Some x \<and> Oper_IsActive x"
      using assms(2) unfolding o' by (intro exI [of _ "Oper_ID a"]) simp
  qed
qed

text \<open>An account may be disabled while another one is active.\<close>

lemma op_inv_disable:
  assumes inv: "op_inv w" and "opers w i = Some a" and "opers w j = Some b" and "Oper_IsActive b" and "j \<noteq> i"
  shows "op_inv (w\<lparr>opw_operators := put i (a\<lparr>Oper_Status := st\<rparr>) (opw_operators w)\<rparr>)" (is "op_inv ?v")
proof -
  have o': "opers ?v = (opers w)(i \<mapsto> a\<lparr>Oper_Status := st\<rparr>)" and s': "sessions ?v = sessions w"
    by (auto simp: opers_def sessions_def fun_eq_iff)
  have "Oper_ID a = i" using keyed_lookup [OF op_invD(1) [OF inv]] assms(2) by (simp add: opers_def)
  then have k: "keyed Oper_ID (opw_operators ?v)"
    using keyed_put [OF op_invD(1) [OF inv], of "a\<lparr>Oper_Status := st\<rparr>" i] by simp
  show ?thesis
  proof (rule op_invI [OF k])
    show "keyed Sess_ID (opw_sessions ?v)" using op_invD(2) [OF inv] by simp
  next
    fix k assume "opers ?v k \<noteq> None"
    then show "minted ''opr_'' (opw_ops_minted ?v) k"
      using op_invD(3) [OF inv, of k] assms(2) unfolding o' by (auto split: if_splits)
  next
    fix k assume "sessions ?v k \<noteq> None"
    then show "minted ''ops_'' (opw_sess_minted ?v) k" using op_invD(4) [OF inv] s' by simp
  next
    fix k l x y assume k: "opers ?v k = Some x" and l: "opers ?v l = Some y" and e: "Oper_Email x = Oper_Email y"
    have "\<exists>x'. opers w k = Some x' \<and> Oper_Email x' = Oper_Email x"
      "\<exists>y'. opers w l = Some y' \<and> Oper_Email y' = Oper_Email y"
      using k l assms(2) unfolding o' by (auto split: if_splits)
    then show "k = l" using op_invD(5) [OF inv] e by metis
  next
    show "\<exists>i x. opers ?v i = Some x \<and> Oper_IsActive x"
      using assms(3-5) unfolding o' by (intro exI [of _ j] exI [of _ b]) simp
  qed
qed

subsection \<open>Every operation keeps the invariant\<close>

abbreviation op_F :: "crypto \<Rightarrow> duration \<Rightarrow> int \<Rightarrow> duration \<Rightarrow> op_world op_facade" where
  "op_F \<equiv> op_memory_facade"

lemma op_inv_frame:
  assumes "op_inv w" and "opw_operators v = opw_operators w" and "opw_sessions v = opw_sessions w"
    and "opw_ops_minted v = opw_ops_minted w" and "opw_sess_minted v = opw_sess_minted w"
  shows "op_inv v"
  using assms by (simp add: op_inv_def opers_def sessions_def)

lemma op_tape_keeps [preserves_intros]: "preserves op_inv (op_tape_Read n)"
  by (rule preservesI) (auto simp: op_tape_Read_def intro: op_inv_frame)

lemma op_reads_keep [preserves_intros]:
  "preserves op_inv (on_ops (op_mem_FindByID i))" "preserves op_inv (on_ops (op_mem_FindByEmail e))"
  "preserves op_inv (on_ops op_mem_Exists)" "preserves op_inv (on_ops op_mem_CountActive)"
  "preserves op_inv (on_sess (sess_mem_FindByTokenHash h))" "preserves op_inv (\<lambda>w. (opw_now w, w))"
  by (auto intro!: preservesI simp: op_mem_FindByID_def op_mem_FindByEmail_def op_mem_Exists_def
      op_mem_CountActive_def sess_mem_FindByTokenHash_def)

lemma op_inv_same: "op_inv w \<Longrightarrow> op_inv (w\<lparr>opw_operators := opw_operators w\<rparr>)"
  by simp

lemma op_updates_keep [preserves_intros]:
  "preserves op_inv (on_ops (op_mem_UpdatePasswordHash i h))"
  "preserves op_inv (on_ops (op_mem_RecordFailedAttempt i t))"
  "preserves op_inv (on_ops (op_mem_ResetFailedAttempts i))"
  "preserves op_inv (on_ops (op_mem_SetStatus i OperatorStatusActive))"
  by (auto intro!: preservesI op_inv_update
      simp: op_mem_UpdatePasswordHash_def op_mem_RecordFailedAttempt_def op_mem_ResetFailedAttempts_def
        op_mem_SetStatus_def opers_def Oper_IsActive_def split: option.split)

lemma sess_revokes_keep [preserves_intros]:
  "preserves op_inv (on_sess (sess_mem_RevokeAllForOperator i t))"
  "preserves op_inv (on_sess (sess_mem_RevokeAllForOperatorExcept i e t))"
  by (auto intro!: preservesI op_inv_revoke_where simp: revoke_all_eq)

lemma sess_revoke_keeps [preserves_intros]: "preserves op_inv (on_sess (sess_mem_Revoke i t))"
proof (rule preservesI)
  fix w assume inv: "op_inv w"
  show "op_inv (snd (on_sess (sess_mem_Revoke i t) w))"
  proof (cases "map_of (opw_sessions w) i")
    case (Some s)
    have "Sess_ID s = i" by (rule keyed_lookup [OF op_invD(2) [OF inv] Some])
    then have "keyed Sess_ID (put i (s\<lparr>Sess_RevokedAt := Some t\<rparr>) (opw_sessions w))"
      using keyed_put [OF op_invD(2) [OF inv], of "s\<lparr>Sess_RevokedAt := Some t\<rparr>" i] by simp
    then have "op_inv (w\<lparr>opw_sessions := put i (s\<lparr>Sess_RevokedAt := Some t\<rparr>) (opw_sessions w)\<rparr>)"
      using Some by (intro op_inv_sessions [OF inv]) (auto simp: sessions_def split: if_splits)
    then show ?thesis using inv Some by (simp add: sess_mem_Revoke_def)
  qed (simp add: sess_mem_Revoke_def inv)
qed

lemma hashPassword_keeps [preserves_intros]: "preserves op_inv (hashPassword (op_F c ttl n l) p)"
  unfolding hashPassword_def by (intro preserves_intros) (simp add: op_tape_keeps)

lemma tokens_keep [preserves_intros]:
  "preserves op_inv (generateSessionToken (op_F c ttl n l))"
  "preserves op_inv (generateCSRFToken (op_F c ttl n l))"
  unfolding generateSessionToken_def generateCSRFToken_def
  by (intro preserves_intros; simp add: op_tape_keeps)+

lemma session_save_keeps:
  assumes "\<And>i. Sess_ID (session i) = i"
  shows "preserves op_inv (call (op_newSessionID (op_F c ttl n l)) (\<lambda>i.
    attempt (op_sessions_Save (op_F c ttl n l) (session i)) (\<lambda>_. ok (r i))))"
proof (rule preservesI)
  fix w assume inv: "op_inv w"
  let ?i = "sequential_id ''ops_'' (opw_sess_minted w)"
  let ?v = "w\<lparr>opw_sess_minted := Suc (opw_sess_minted w), opw_sessions := put ?i (session ?i) (opw_sessions w)\<rparr>"
  have s': "sessions ?v = (sessions w)(?i \<mapsto> session ?i)" and o': "opers ?v = opers w"
    by (auto simp: sessions_def opers_def fun_eq_iff)
  have "op_inv ?v"
  proof (rule op_invI)
    show "keyed Oper_ID (opw_operators ?v)" using op_invD(1) [OF inv] by simp
    show "keyed Sess_ID (opw_sessions ?v)"
      using keyed_put [OF op_invD(2) [OF inv], of "session ?i" ?i] assms by simp
    fix i assume "sessions ?v i \<noteq> None"
    then show "minted ''ops_'' (opw_sess_minted ?v) i"
      using op_invD(4) [OF inv, of i] minted_next minted_Suc unfolding s' by (auto split: if_splits)
  qed (use op_invD [OF inv] in \<open>simp_all add: opers_def\<close>)
  then show "op_inv (snd (call (op_newSessionID (op_F c ttl n l)) (\<lambda>i.
    attempt (op_sessions_Save (op_F c ttl n l) (session i)) (\<lambda>_. ok (r i))) w))"
    using assms by (simp add: act_simps sess_mem_Save_def)
qed

lemma mintSession_keeps [preserves_intros]: "preserves op_inv (mintSession (op_F c ttl n l) i)"
  unfolding mintSession_def Let_def
  by (intro preserves_attempt tokens_keep preserves_call session_save_keeps)
    (simp_all add: op_reads_keep)

lemma Login_keeps: "preserves op_inv (op_Login (op_F c ttl n l) e p)"
proof -
  have "preserves op_inv (recordFailedAttempt (op_F c ttl n l) o' now)" for o' now
    unfolding recordFailedAttempt_def Let_def by (simp add: op_updates_keep)
  then show ?thesis
    unfolding op_Login_def
    by (intro preserves_attempt) (auto intro!: preserves_intros split: option.split)
qed

lemma VerifySession_keeps: "preserves op_inv (op_VerifySession (op_F c ttl n l) t)"
  unfolding op_VerifySession_def Let_def
  by (intro preserves_attempt) (auto intro!: preserves_intros split: option.split)

lemma Logout_keeps: "preserves op_inv (op_Logout (op_F c ttl n l) t)"
  unfolding op_Logout_def
  by (intro preserves_attempt) (auto intro!: preserves_intros split: option.split)

lemma ChangeMyPassword_keeps: "preserves op_inv (op_ChangeMyPassword (op_F c ttl n l) i s p q)"
  unfolding op_ChangeMyPassword_def
  by (intro preserves_attempt) (auto intro!: preserves_intros split: option.split)

lemma ResetPassword_keeps: "preserves op_inv (op_ResetPassword (op_F c ttl n l) i p)"
  unfolding op_ResetPassword_def
  by (auto intro!: preserves_intros split: option.split)

lemma newValidatedOperator_Inr:
  assumes "newValidatedOperator (op_F c ttl n l) e p w = (Inr a, w')"
  shows "Oper_ID a = sequential_id ''opr_'' (opw_ops_minted w)" and "Oper_IsActive a"
    and "Oper_FailedAttempts a = 0" and "Oper_LockedUntil a = None"
    and "w' = w\<lparr>opw_rand := drop argon2SaltLength (opw_rand w), opw_ops_minted := Suc (opw_ops_minted w)\<rparr>"
    and "normalizeAndValidateEmail e = Inr (Oper_Email a)" and "minPasswordLength \<le> length p"
    and "Oper_PasswordHash a = encodePHC c p (take argon2SaltLength (opw_rand w))"
  using assms
  by (auto simp: newValidatedOperator_def hashPassword_def attempt_Inr_iff call_apply zoom_apply
      op_tape_Read_def Oper_IsActive_def split: if_splits)

lemma newValidatedOperator_keeps: "preserves op_inv (newValidatedOperator (op_F c ttl n l) e p)"
proof -
  have "preserves op_inv (op_newOperatorID (op_F c ttl n l))"
    by (auto intro!: preservesI simp: op_inv_def opers_def sessions_def minted_Suc)
  then show ?thesis
    unfolding newValidatedOperator_def
    by (intro preserves_attempt preserves_lift preserves_if preserves_fail preserves_call preserves_ok
        hashPassword_keeps) (simp_all add: op_reads_keep)
qed

text \<open>Saving a validated account is safe when its email is not in use.\<close>

lemma save_new_keeps:
  assumes inv: "op_inv w" and new: "newValidatedOperator (op_F c ttl n l) e p w = (Inr a, w')"
    and email: "\<And>i b. opers w i = Some b \<Longrightarrow> Oper_Email b \<noteq> Oper_Email a"
  shows "op_inv (snd (op_operators_Save (op_F c ttl n l) a w'))"
proof -
  note nv = newValidatedOperator_Inr [OF new]
  have "op_inv (w\<lparr>opw_operators := put (Oper_ID a) a (opw_operators w), opw_ops_minted := Suc (opw_ops_minted w)\<rparr>)"
    by (rule op_inv_insert [OF inv nv(2,1) email])
  then show ?thesis
    by (rule op_inv_frame) (simp_all add: nv(5) op_mem_Save_def)
qed

lemma FindByEmail_None:
  assumes "op_inv w" and "find (\<lambda>o'. Oper_Email o' = e) (rows (opw_operators w)) = None"
    and "opers w i = Some b"
  shows "Oper_Email b \<noteq> e"
proof -
  have "(i, b) \<in> set (opw_operators w)" using assms(3) by (simp add: opers_def map_of_SomeD)
  then have "b \<in> set (rows (opw_operators w))" by force
  then show ?thesis using assms(2) by (auto simp: find_None_iff)
qed

lemma Bootstrap_keeps: "preserves op_inv (op_Bootstrap (op_F c ttl n l) e p)"
proof (rule preservesI)
  fix w assume inv: "op_inv w"
  show "op_inv (snd (op_Bootstrap (op_F c ttl n l) e p w))"
  proof (cases "opw_operators w = []")
    case True
    then have "on_ops op_mem_Exists w = (Inr False, w)" by (simp add: zoom_apply op_mem_Exists_def)
    then have run: "op_Bootstrap (op_F c ttl n l) e p w =
        attempt (newValidatedOperator (op_F c ttl n l) e p) (\<lambda>operator.
        attempt (op_operators_Save (op_F c ttl n l) operator) (\<lambda>_. ok (Oper_ID operator, Oper_Email operator))) w"
      by (simp add: op_Bootstrap_def attempt_apply)
    obtain r w' where r: "newValidatedOperator (op_F c ttl n l) e p w = (r, w')" by fastforce
    have w': "op_inv w'" by (rule preserves_result [OF newValidatedOperator_keeps inv r])
    show ?thesis
    proof (cases r)
      case (Inr a)
      have "op_inv (snd (op_operators_Save (op_F c ttl n l) a w'))"
        by (rule save_new_keeps [OF inv r [unfolded Inr]]) (simp add: opers_def True)
      then show ?thesis using r Inr unfolding run by (simp add: act_simps op_mem_Save_def)
    qed (use r w' in \<open>simp add: run act_simps\<close>)
  qed (simp add: op_Bootstrap_def act_simps op_mem_Exists_def inv)
qed

lemma CreateOperator_keeps: "preserves op_inv (op_CreateOperator (op_F c ttl n l) e p)"
proof (rule preservesI)
  fix w assume inv: "op_inv w"
  obtain r w' where r: "newValidatedOperator (op_F c ttl n l) e p w = (r, w')" by fastforce
  have w': "op_inv w'" by (rule preserves_result [OF newValidatedOperator_keeps inv r])
  show "op_inv (snd (op_CreateOperator (op_F c ttl n l) e p w))"
  proof (cases r)
    case (Inr a)
    have same: "opw_operators w' = opw_operators w"
      using newValidatedOperator_Inr(5) [OF r [unfolded Inr]] by simp
    show ?thesis
    proof (cases "find (\<lambda>o'. Oper_Email o' = Oper_Email a) (rows (opw_operators w'))")
      case None
      have "op_inv (snd (op_operators_Save (op_F c ttl n l) a w'))"
        by (rule save_new_keeps [OF inv r [unfolded Inr]])
          (use FindByEmail_None [OF inv] None same in auto)
      then show ?thesis
        using r Inr None
        by (simp add: op_CreateOperator_def act_simps op_mem_FindByEmail_def op_mem_Save_def)
    qed (use r Inr w' in \<open>simp add: op_CreateOperator_def act_simps op_mem_FindByEmail_def\<close>)
  qed (use r w' in \<open>simp add: op_CreateOperator_def act_simps\<close>)
qed

text \<open>With a second active account, disabling the first one leaves one.\<close>

lemma two_active:
  assumes inv: "op_inv w" and "opers w i = Some a"
    and "1 < length (filter Oper_IsActive (rows (opw_operators w)))"
  obtains j b where "opers w j = Some b" and "Oper_IsActive b" and "j \<noteq> i"
proof -
  have d: "distinct (map Oper_ID (filter Oper_IsActive (rows (opw_operators w))))"
    by (rule distinct_map_filter [OF keyed_distinct_rows [OF op_invD(1) [OF inv]]])
  have "\<exists>b \<in> set (filter Oper_IsActive (rows (opw_operators w))). Oper_ID b \<noteq> i"
  proof (rule ccontr)
    assume "\<not> ?thesis"
    then have "set (map Oper_ID (filter Oper_IsActive (rows (opw_operators w)))) \<subseteq> {i}" by auto
    then have "card (set (map Oper_ID (filter Oper_IsActive (rows (opw_operators w))))) \<le> 1"
      using card_mono [of "{i}"] by fastforce
    then show False using assms(3) distinct_card [OF d] by simp
  qed
  then obtain b where b: "b \<in> set (rows (opw_operators w))" "Oper_IsActive b" "Oper_ID b \<noteq> i" by auto
  have "opers w (Oper_ID b) = Some b"
    using rows_lookup [OF op_invD(1) [OF inv]] b(1) by (simp add: opers_def)
  then show ?thesis using b that by blast
qed

lemma Deactivate_keeps: "preserves op_inv (op_Deactivate (op_F c ttl n l) i)"
proof (rule preservesI)
  fix w assume inv: "op_inv w"
  show "op_inv (snd (op_Deactivate (op_F c ttl n l) i w))"
  proof (cases "opers w i")
    case (Some a)
    let ?v = "w\<lparr>opw_operators := put i (a\<lparr>Oper_Status := OperatorStatusDisabled\<rparr>) (opw_operators w)\<rparr>"
    have v: "op_inv ?v" if "\<not> Oper_IsActive a \<or> 1 < length (filter Oper_IsActive (rows (opw_operators w)))"
    proof (cases "Oper_IsActive a")
      case True
      with that two_active [OF inv Some] obtain j b where "opers w j = Some b" "Oper_IsActive b" "j \<noteq> i" by blast
      from op_inv_disable [OF inv Some this] show ?thesis .
    next
      case False
      then show ?thesis by (intro op_inv_update [OF inv Some]) (simp_all add: Oper_IsActive_def)
    qed
    have "op_inv (snd (on_sess (sess_mem_RevokeAllForOperator i (opw_now w)) ?v))" if "op_inv ?v"
      using preservesD [OF sess_revokes_keep(1) that] .
    then show ?thesis
      using Some inv v
      by (auto simp: op_Deactivate_def act_simps op_mem_FindByID_def op_mem_CountActive_def
          op_mem_SetStatus_def opers_def Let_def split: prod.splits)
  qed (simp add: op_Deactivate_def act_simps op_mem_FindByID_def opers_def inv)
qed

section \<open>The operator accounts as a transition system\<close>

text \<open>
  A step is one call of the facade, whatever its result, or the passing of time and the supply
  of fresh random bytes.
\<close>

inductive op_step :: "crypto \<Rightarrow> duration \<Rightarrow> int \<Rightarrow> duration \<Rightarrow> op_world \<Rightarrow> op_world \<Rightarrow> bool"
  for c ttl n l
where
  bootstrap: "op_step c ttl n l w (snd (op_Bootstrap (op_F c ttl n l) e p w))"
| create: "op_step c ttl n l w (snd (op_CreateOperator (op_F c ttl n l) e p w))"
| change: "op_step c ttl n l w (snd (op_ChangeMyPassword (op_F c ttl n l) i s p q w))"
| deactivate: "op_step c ttl n l w (snd (op_Deactivate (op_F c ttl n l) i w))"
| reset: "op_step c ttl n l w (snd (op_ResetPassword (op_F c ttl n l) i p w))"
| login: "op_step c ttl n l w (snd (op_Login (op_F c ttl n l) e p w))"
| verify: "op_step c ttl n l w (snd (op_VerifySession (op_F c ttl n l) t w))"
| logout: "op_step c ttl n l w (snd (op_Logout (op_F c ttl n l) t w))"
| tick: "opw_now w \<le> now \<Longrightarrow> op_step c ttl n l w (w\<lparr>opw_now := now, opw_rand := bytes\<rparr>)"

definition op_init :: op_world where
  "op_init = \<lparr>opw_operators = [], opw_sessions = [], opw_ops_minted = 0, opw_sess_minted = 0,
              opw_now = 0, opw_rand = []\<rparr>"

lemma op_step_keeps: "op_step c ttl n l w w' \<Longrightarrow> op_inv w \<Longrightarrow> op_inv w'"
proof (induction rule: op_step.induct)
  case (tick w now bytes)
  show ?case by (rule op_inv_frame [OF tick(2)]) simp_all
qed (erule preservesD [rotated],
    rule Bootstrap_keeps CreateOperator_keeps ChangeMyPassword_keeps Deactivate_keeps
      ResetPassword_keeps Login_keeps VerifySession_keeps Logout_keeps)+

lemma op_reachable_inv: "(op_step c ttl n l)\<^sup>*\<^sup>* op_init w \<Longrightarrow> op_inv w"
proof (induction rule: rtranclp_induct)
  case base
  show ?case by (simp add: op_inv_def op_init_def opers_def sessions_def)
next
  case (step v w)
  show ?case by (rule op_step_keeps [OF step(2,3)])
qed

text \<open>
  C1: From an empty installation, no sequence of calls of the operator facade (bootstrap, creation,
  password changes and resets, deactivation, logins, logouts) ever leaves accounts without an
  active one: \<open>Deactivate\<close> refuses the last. No two accounts share an email, and a second
  bootstrap is refused without a change.
\<close>

theorem always_an_active_operator:
  assumes "(op_step c ttl n l)\<^sup>*\<^sup>* op_init w" and "opw_operators w \<noteq> []"
  shows "(\<exists>a \<in> set (rows (opw_operators w)). Oper_IsActive a)
    \<and> distinct (map Oper_Email (rows (opw_operators w)))
    \<and> op_Bootstrap (op_F c ttl n l) e p w = (Inl ErrOperatorExists, w)"
proof (intro conjI)
  have inv: "op_inv w" by (rule op_reachable_inv [OF assms(1)])
  have rl: "x \<in> set (rows (opw_operators w)) \<longleftrightarrow> opers w (Oper_ID x) = Some x" for x
    using rows_lookup [OF op_invD(1) [OF inv]] by (simp add: opers_def)
  from op_invD(6) [OF inv assms(2)] obtain i a where a: "opers w i = Some a" "Oper_IsActive a" by blast
  have "Oper_ID a = i" using keyed_lookup [OF op_invD(1) [OF inv]] a(1) by (simp add: opers_def)
  with a rl show "\<exists>a \<in> set (rows (opw_operators w)). Oper_IsActive a" by blast
  have ids: "distinct (map Oper_ID (rows (opw_operators w)))"
    by (rule keyed_distinct_rows [OF op_invD(1) [OF inv]])
  have "inj_on Oper_Email (set (rows (opw_operators w)))"
  proof (rule inj_onI)
    fix x y assume m: "x \<in> set (rows (opw_operators w))" "y \<in> set (rows (opw_operators w))"
      and "Oper_Email x = Oper_Email y"
    then have "Oper_ID x = Oper_ID y" using op_invD(5) [OF inv] rl by blast
    with m rl show "x = y" by force
  qed
  moreover have "distinct (rows (opw_operators w))" using ids by (simp only: distinct_map)
  ultimately show "distinct (map Oper_Email (rows (opw_operators w)))" by (simp only: distinct_map)
  show "op_Bootstrap (op_F c ttl n l) e p w = (Inl ErrOperatorExists, w)"
    using assms(2) by (simp add: op_Bootstrap_def act_simps op_mem_Exists_def)
qed

section \<open>Lockout\<close>

lemma find_email:
  assumes "op_inv w"
  shows "find (\<lambda>o'. Oper_Email o' = e) (rows (opw_operators w)) = Some a \<longleftrightarrow>
    opers w (Oper_ID a) = Some a \<and> Oper_Email a = e"
proof -
  have rl: "x \<in> set (rows (opw_operators w)) \<longleftrightarrow> opers w (Oper_ID x) = Some x" for x
    using rows_lookup [OF op_invD(1) [OF assms]] by (simp add: opers_def)
  have u: "x = y" if "x \<in> set (rows (opw_operators w))" "y \<in> set (rows (opw_operators w))"
    "Oper_Email x = Oper_Email y" for x y
    using that op_invD(5) [OF assms] unfolding rl by (metis option.inject)
  show ?thesis
  proof
    assume "find (\<lambda>o'. Oper_Email o' = e) (rows (opw_operators w)) = Some a"
    from find_SomeD [OF this] have "a \<in> set (rows (opw_operators w)) \<and> Oper_Email a = e" .
    then show "opers w (Oper_ID a) = Some a \<and> Oper_Email a = e" using rl by blast
  next
    assume r: "opers w (Oper_ID a) = Some a \<and> Oper_Email a = e"
    then have a: "a \<in> set (rows (opw_operators w))" using rl by blast
    have "find (\<lambda>o'. Oper_Email o' = e) (rows (opw_operators w)) \<noteq> None"
      using a r unfolding find_None_iff by blast
    then obtain b where b: "find (\<lambda>o'. Oper_Email o' = e) (rows (opw_operators w)) = Some b" by blast
    from find_SomeD [OF b] have "b \<in> set (rows (opw_operators w)) \<and> Oper_Email b = e" .
    then show "find (\<lambda>o'. Oper_Email o' = e) (rows (opw_operators w)) = Some a"
      using b u [OF _ a] r by simp
  qed
qed

text \<open>A login, from the account its email finds.\<close>

lemma Login_found:
  assumes "op_inv w" and "opers w (Oper_ID a) = Some a" and "Oper_Email a = normalizeEmail e"
  shows "op_Login (op_F c ttl n l) e p w =
    (if Oper_IsLockedOut a (opw_now w) then fail ErrAccountLocked
     else if \<not> verifyPassword c p (Oper_PasswordHash a)
     then attempt (recordFailedAttempt (op_F c ttl n l) a (opw_now w)) (\<lambda>_. fail ErrInvalidCredentials)
     else if \<not> Oper_IsActive a then fail ErrInvalidCredentials
     else attempt (op_operators_ResetFailedAttempts (op_F c ttl n l) (Oper_ID a)) (\<lambda>_.
          mintSession (op_F c ttl n l) (Oper_ID a))) w"
proof -
  have "find (\<lambda>o'. Oper_Email o' = normalizeEmail e) (rows (opw_operators w)) = Some a"
    using find_email [OF assms(1)] assms(2,3) by blast
  then have "on_ops (op_mem_FindByEmail (normalizeEmail e)) w = (Inr (Some a), w)"
    by (simp add: zoom_apply op_mem_FindByEmail_def)
  then show ?thesis by (simp add: op_Login_def attempt_apply call_apply)
qed

fun try_logins :: "'s op_facade \<Rightarrow> (time \<Rightarrow> 's \<Rightarrow> 's) \<Rightarrow> string \<Rightarrow> (time \<times> string) list \<Rightarrow> 's \<Rightarrow> 's" where
  "try_logins f clock e [] w = w"
| "try_logins f clock e ((t, p) # as) w = try_logins f clock e as (snd (op_Login f e p (clock t w)))"

abbreviation at_time :: "time \<Rightarrow> op_world \<Rightarrow> op_world" where
  "at_time t w \<equiv> w\<lparr>opw_now := t\<rparr>"

lemma op_inv_at_time: "op_inv w \<Longrightarrow> op_inv (at_time t w)"
  by (rule op_inv_frame) simp_all

lemma opers_at_time [simp]: "opers (at_time t w) = opers w"
  by (simp add: opers_def)

lemma Login_wrong:
  assumes "op_inv w" and "opers w (Oper_ID a) = Some a" and "Oper_Email a = normalizeEmail e"
    and "\<not> Oper_IsLockedOut a t" and "\<not> verifyPassword c p (Oper_PasswordHash a)"
  shows "opers (snd (op_Login (op_F c ttl n l) e p (at_time t w))) = (opers w)(Oper_ID a \<mapsto>
     a\<lparr>Oper_FailedAttempts := Oper_FailedAttempts a + 1,
       Oper_LockedUntil := (if loginMaxAttemptsOrFallback (op_F c ttl n l) \<le> Oper_FailedAttempts a + 1
         then Some (t + loginLockoutOrFallback (op_F c ttl n l)) else Oper_LockedUntil a)\<rparr>)"
  using Login_found [OF op_inv_at_time [OF assms(1), of t], where a = a and e = e and p = p and c = c and ttl = ttl and n = n and l = l] assms(2-)
  by (auto simp: recordFailedAttempt_def Let_def act_simps op_mem_RecordFailedAttempt_def opers_def fun_eq_iff)

lemma Login_locked:
  assumes "op_inv w" and "opers w (Oper_ID a) = Some a" and "Oper_Email a = normalizeEmail e"
    and "Oper_IsLockedOut a t"
  shows "op_Login (op_F c ttl n l) e p (at_time t w) = (Inl ErrAccountLocked, at_time t w)"
  using Login_found [OF op_inv_at_time [OF assms(1), of t], where a = a and e = e and p = p and c = c and ttl = ttl and n = n and l = l] assms(2-) by simp

lemma try_logins_count:
  assumes "op_inv w" and "opers w (Oper_ID a) = Some a" and "Oper_Email a = normalizeEmail e"
    and "Oper_LockedUntil a = None"
    and "\<forall>(t, p) \<in> set as. \<not> verifyPassword c p (Oper_PasswordHash a)"
    and "Oper_FailedAttempts a + int (length as) < loginMaxAttemptsOrFallback (op_F c ttl n l)"
  shows "op_inv (try_logins (op_F c ttl n l) at_time e as w) \<and>
    opers (try_logins (op_F c ttl n l) at_time e as w) (Oper_ID a) =
      Some (a\<lparr>Oper_FailedAttempts := Oper_FailedAttempts a + int (length as)\<rparr>)"
  using assms
proof (induction as arbitrary: w a)
  case (Cons tp as)
  obtain t p where tp: "tp = (t, p)" by fastforce
  let ?w = "snd (op_Login (op_F c ttl n l) e p (at_time t w))"
  let ?a = "a\<lparr>Oper_FailedAttempts := Oper_FailedAttempts a + 1\<rparr>"
  have "\<not> Oper_IsLockedOut a t" using Cons.prems(4) by (simp add: Oper_IsLockedOut_def)
  moreover have "a\<lparr>Oper_FailedAttempts := Oper_FailedAttempts a + 1, Oper_LockedUntil := Oper_LockedUntil a\<rparr> = ?a"
    by simp
  ultimately have o': "opers ?w = (opers w)(Oper_ID a \<mapsto> ?a)"
    using Login_wrong [OF Cons.prems(1-3), of t c p ttl n l] Cons.prems(5,6) tp by simp
  have inv: "op_inv ?w"
    by (rule preservesD [OF Login_keeps op_inv_at_time [OF Cons.prems(1)]])
  have "op_inv (try_logins (op_F c ttl n l) at_time e as ?w) \<and>
    opers (try_logins (op_F c ttl n l) at_time e as ?w) (Oper_ID ?a) =
      Some (?a\<lparr>Oper_FailedAttempts := Oper_FailedAttempts ?a + int (length as)\<rparr>)"
    using Cons.prems(3-6) by (intro Cons.IH inv) (auto simp: o' split: prod.splits)
  then show ?case by (simp add: tp algebra_simps)
qed simp

text \<open>
  C2: After as many wrong passwords in a row as the throttle allows, an account is locked: until
  the lockout after the last of them has passed, every login on it is refused with
  \<open>account_locked\<close> and changes nothing, whatever the password, the right one included.
\<close>

theorem lockout_after_max_attempts:
  assumes "op_inv w" and "opers w (Oper_ID a) = Some a" and "Oper_Email a = normalizeEmail e"
    and "Oper_FailedAttempts a = 0" and "Oper_LockedUntil a = None"
    and "\<forall>(t, p) \<in> set (as @ [(last_t, last_p)]). \<not> verifyPassword c p (Oper_PasswordHash a)"
    and "int (length as) + 1 = loginMaxAttemptsOrFallback (op_F c ttl n l)"
    and "now < last_t + loginLockoutOrFallback (op_F c ttl n l)"
  shows "let w' = at_time now (try_logins (op_F c ttl n l) at_time e (as @ [(last_t, last_p)]) w) in
    op_Login (op_F c ttl n l) e password w' = (Inl ErrAccountLocked, w')"
proof -
  have app: "try_logins f clock e (as @ bs) w = try_logins f clock e bs (try_logins f clock e as w)"
    for f :: "op_world op_facade" and clock as bs w
    by (induction f clock e as w rule: try_logins.induct) simp_all
  let ?v = "try_logins (op_F c ttl n l) at_time e as w"
  let ?a = "a\<lparr>Oper_FailedAttempts := Oper_FailedAttempts a + int (length as)\<rparr>"
  have "op_inv ?v \<and> opers ?v (Oper_ID a) = Some ?a"
    using assms by (intro try_logins_count) auto
  then have v: "op_inv ?v" "opers ?v (Oper_ID ?a) = Some ?a" by simp_all
  let ?u = "snd (op_Login (op_F c ttl n l) e last_p (at_time last_t ?v))"
  let ?b = "?a\<lparr>Oper_FailedAttempts := Oper_FailedAttempts ?a + 1,
      Oper_LockedUntil := Some (last_t + loginLockoutOrFallback (op_F c ttl n l))\<rparr>"
  have nl: "\<not> Oper_IsLockedOut ?a last_t" and nv: "\<not> verifyPassword c last_p (Oper_PasswordHash ?a)"
    and em: "Oper_Email ?a = normalizeEmail e"
    using assms(3,5,6) by (auto simp: Oper_IsLockedOut_def)
  have "opers ?u = (opers ?v)(Oper_ID a \<mapsto> ?b)"
    using Login_wrong [OF v em nl nv, of ttl n l] assms(4,7) by simp
  then have u: "opers ?u (Oper_ID ?b) = Some ?b" by simp
  have inv: "op_inv ?u" by (rule preservesD [OF Login_keeps op_inv_at_time [OF v(1)]])
  have "op_Login (op_F c ttl n l) e password (at_time now ?u) = (Inl ErrAccountLocked, at_time now ?u)"
    using assms(3,8) by (intro Login_locked [OF inv u]) (simp_all add: Oper_IsLockedOut_def)
  then show ?thesis by (simp add: app)
qed

section \<open>Sessions\<close>

lemma VerifySession_run:
  "op_VerifySession (op_F c ttl n l) t w =
     (case find (\<lambda>s. Sess_TokenHash s = hashSessionToken c t) (rows (opw_sessions w)) of
        None \<Rightarrow> Inl ErrSessionUnauthorized
      | Some s \<Rightarrow>
          if Sess_IsRevoked s \<or> Sess_IsExpired s (opw_now w) then Inl ErrSessionUnauthorized
          else (case opers w (Sess_OperatorID s) of
                  None \<Rightarrow> Inl ErrSessionUnauthorized
                | Some a \<Rightarrow> if \<not> Oper_IsActive a then Inl ErrSessionUnauthorized
                            else Inr \<lparr>Auth_OperatorID = Oper_ID a, Auth_SessionID = Sess_ID s,
                                      Auth_CSRFToken = Sess_CSRFToken s\<rparr>), w)"
proof (cases "find (\<lambda>s. Sess_TokenHash s = hashSessionToken c t) (rows (opw_sessions w))")
  case (Some s)
  from find_SomeD [OF this] have "sessionTokenHashMatches (hashSessionToken c t) (Sess_TokenHash s)"
    by (simp add: sessionTokenHashMatches_def)
  with Some show ?thesis
    by (simp add: op_VerifySession_def act_simps sess_mem_FindByTokenHash_def op_mem_FindByID_def Let_def
        opers_def split: option.split)
qed (simp add: op_VerifySession_def act_simps sess_mem_FindByTokenHash_def Let_def)

lemma find_put_fresh:
  "(\<And>x. x \<in> set (rows r) \<Longrightarrow> \<not> P x) \<Longrightarrow> P v \<Longrightarrow> map_of r k = None \<Longrightarrow>
     find P (rows (put k v r)) = Some v"
  by (induction r) (auto split: if_splits)

text \<open>
  C3: A successful login is by an active, unlocked account with that email and password, and its
  token is then accepted by \<open>VerifySession\<close> as that operator exactly until the session's
  lifetime ends, provided no stored session has the same token hash.
\<close>

theorem Login_session_verifies:
  assumes "op_inv w" and "op_Login (op_F c ttl n l) e p w = (Inr s, w')"
    and "\<forall>x \<in> set (rows (opw_sessions w)). Sess_TokenHash x \<noteq> hashSessionToken c (LIS_Token s)"
  shows "\<exists>a. opers w (LIS_OperatorID s) = Some a \<and> Oper_IsActive a \<and> \<not> Oper_IsLockedOut a (opw_now w)
    \<and> Oper_Email a = normalizeEmail e \<and> verifyPassword c p (Oper_PasswordHash a)
    \<and> (\<forall>u. fst (op_VerifySession (op_F c ttl n l) (LIS_Token s) (at_time u w')) =
          (if u < opw_now w + ttl
           then Inr \<lparr>Auth_OperatorID = LIS_OperatorID s,
                     Auth_SessionID = sequential_id ''ops_'' (opw_sess_minted w),
                     Auth_CSRFToken = LIS_CSRFToken s\<rparr>
           else Inl ErrSessionUnauthorized))"
proof -
  obtain a where find: "find (\<lambda>o'. Oper_Email o' = normalizeEmail e) (rows (opw_operators w)) = Some a"
    using assms(2) by (cases "find (\<lambda>o'. Oper_Email o' = normalizeEmail e) (rows (opw_operators w))")
      (simp_all add: op_Login_def act_simps op_mem_FindByEmail_def)
  then have a: "opers w (Oper_ID a) = Some a" "Oper_Email a = normalizeEmail e"
    using find_email [OF assms(1)] by blast+
  from assms(2) have ok: "\<not> Oper_IsLockedOut a (opw_now w)" "verifyPassword c p (Oper_PasswordHash a)" "Oper_IsActive a"
    and run: "attempt (op_operators_ResetFailedAttempts (op_F c ttl n l) (Oper_ID a)) (\<lambda>_.
        mintSession (op_F c ttl n l) (Oper_ID a)) w = (Inr s, w')"
    unfolding Login_found [OF assms(1) a] by (auto simp: attempt_apply split: if_splits prod.splits sum.splits)
  let ?i = "sequential_id ''ops_'' (opw_sess_minted w)"
  let ?sess = "\<lparr>Sess_ID = ?i, Sess_OperatorID = Oper_ID a,
      Sess_TokenHash = hashSessionToken c (LIS_Token s), Sess_CSRFToken = LIS_CSRFToken s,
      Sess_CreatedAt = opw_now w, Sess_ExpiresAt = opw_now w + ttl, Sess_RevokedAt = None\<rparr>"
  let ?a = "a\<lparr>Oper_FailedAttempts := 0, Oper_LockedUntil := None\<rparr>"
  have w': "opw_sessions w' = put ?i ?sess (opw_sessions w)" "opers w' (Oper_ID a) = Some ?a"
    and s: "LIS_OperatorID s = Oper_ID a"
    using run a(1)
    by (auto simp: attempt_Inr_iff call_apply zoom_apply op_mem_ResetFailedAttempts_def mintSession_def
        generateSessionToken_def generateCSRFToken_def op_tape_Read_def sess_mem_Save_def opers_def Let_def
        split: if_splits)
  have fresh: "map_of (opw_sessions w) ?i = None"
    using op_invD(4) [OF assms(1), of ?i] not_minted [of "''ops_''" "opw_sess_minted w"]
    by (cases "map_of (opw_sessions w) ?i") (simp_all add: sessions_def)
  have f: "find (\<lambda>x. Sess_TokenHash x = hashSessionToken c (LIS_Token s)) (rows (put ?i ?sess (opw_sessions w)))
      = Some ?sess"
    using assms(3) by (intro find_put_fresh fresh) auto
  have act: "Oper_IsActive ?a" using ok(3) by (simp add: Oper_IsActive_def)
  have "fst (op_VerifySession (op_F c ttl n l) (LIS_Token s) (at_time u w')) =
          (if u < opw_now w + ttl
           then Inr \<lparr>Auth_OperatorID = LIS_OperatorID s, Auth_SessionID = ?i, Auth_CSRFToken = LIS_CSRFToken s\<rparr>
           else Inl ErrSessionUnauthorized)" for u
    using f w'(2) act by (simp add: VerifySession_run w'(1) Sess_IsRevoked_def Sess_IsExpired_def s)
  then show ?thesis using a ok s by (intro exI [of _ a]) simp
qed

text \<open>What \<open>VerifySession\<close> may still accept of operator \<open>i\<close> are the sessions \<open>keep\<close> selects.\<close>

definition revoked_but :: "(OperatorSession \<Rightarrow> bool) \<Rightarrow> string \<Rightarrow> op_world \<Rightarrow> op_world \<Rightarrow> bool" where
  "revoked_but keep i w w' \<longleftrightarrow>
     (\<forall>s \<in> set (rows (opw_sessions w')). Sess_OperatorID s = i \<and> \<not> keep s \<longrightarrow> Sess_IsRevoked s)
     \<and> (\<forall>j s. sessions w j = Some s \<and> (Sess_OperatorID s \<noteq> i \<or> keep s) \<longrightarrow> sessions w' j = Some s)"

lemma revoked_but_where:
  "opw_sessions w' = revoke_where (\<lambda>s. Sess_OperatorID s = i \<and> \<not> keep s) t (opw_sessions w) \<Longrightarrow>
     revoked_but keep i w w'"
proof (unfold revoked_but_def, intro conjI)
  assume w': "opw_sessions w' = revoke_where (\<lambda>s. Sess_OperatorID s = i \<and> \<not> keep s) t (opw_sessions w)"
  then show "\<forall>s \<in> set (rows (opw_sessions w')). Sess_OperatorID s = i \<and> \<not> keep s \<longrightarrow> Sess_IsRevoked s"
    by (auto simp: revoke_where_def Sess_IsRevoked_def split: if_splits)
  show "\<forall>j s. sessions w j = Some s \<and> (Sess_OperatorID s \<noteq> i \<or> keep s) \<longrightarrow> sessions w' j = Some s"
    unfolding sessions_def w' by (auto simp: map_of_revoke_where)
qed

text \<open>
  C4: After \<open>ChangeMyPassword\<close> only the acting session of the operator is left: every other
  session of that account is revoked, while that session and the sessions of other operators are
  untouched. After \<open>ResetPassword\<close> or \<open>Deactivate\<close> no session of the account is left at all.
\<close>

theorem password_change_revokes_sessions:
  shows "(op_ChangeMyPassword (op_F c ttl n l) i cur old new w = (Inr (), w') \<longrightarrow>
            revoked_but (\<lambda>s. Sess_ID s = cur) i w w')
       \<and> (op_ResetPassword (op_F c ttl n l) i new w = (Inr (), w') \<or>
          op_Deactivate (op_F c ttl n l) i w = (Inr (), w') \<longrightarrow> revoked_but (\<lambda>s. False) i w w')"
proof (intro conjI impI)
  assume "op_ChangeMyPassword (op_F c ttl n l) i cur old new w = (Inr (), w')"
  then have "opw_sessions w' = revoke_where (\<lambda>s. Sess_OperatorID s = i \<and> Sess_ID s \<noteq> cur) (opw_now w)
      (opw_sessions w)"
    by (auto simp: op_ChangeMyPassword_def hashPassword_def Let_def
        attempt_Inr_iff call_apply zoom_apply op_mem_FindByID_def op_tape_Read_def op_mem_UpdatePasswordHash_def
        revoke_all_eq split: option.splits if_splits)
  then show "revoked_but (\<lambda>s. Sess_ID s = cur) i w w'" by (rule revoked_but_where)
next
  assume "op_ResetPassword (op_F c ttl n l) i new w = (Inr (), w') \<or>
      op_Deactivate (op_F c ttl n l) i w = (Inr (), w')"
  then have "opw_sessions w' = revoke_where (\<lambda>s. Sess_OperatorID s = i \<and> \<not> False) (opw_now w) (opw_sessions w)"
    by (auto simp: op_ResetPassword_def op_Deactivate_def hashPassword_def Let_def
        attempt_Inr_iff call_apply zoom_apply op_mem_FindByID_def op_tape_Read_def op_mem_UpdatePasswordHash_def
        op_mem_SetStatus_def op_mem_CountActive_def revoke_all_eq split: option.splits if_splits)
  then show "revoked_but (\<lambda>s. False) i w w'" by (rule revoked_but_where)
qed

section \<open>Examples\<close>

lemma sample_argon2_length: "argon2_length sample_crypto"
  by (auto simp: argon2_length_def sample_crypto_def)

definition demo_hash :: string where
  "demo_hash = encodePHC sample_crypto ''correct horse'' (replicate 16 CHR ''s'')"

lemma demo_verify:
  "verifyPassword sample_crypto p demo_hash \<longleftrightarrow>
     argon2idKey sample_crypto p (replicate 16 CHR ''s'') argon2KeyLength
     = argon2idKey sample_crypto ''correct horse'' (replicate 16 CHR ''s'') argon2KeyLength"
  unfolding demo_hash_def by (rule verify_encodePHC [OF sample_argon2_length])

lemma demo_verify_right [simp]: "verifyPassword sample_crypto ''correct horse'' demo_hash"
  by (simp add: demo_verify)

lemma demo_verify_wrong [simp]: "\<not> verifyPassword sample_crypto ''open sesame'' demo_hash"
  unfolding demo_verify by (simp add: sample_crypto_def argon2KeyLength_def numeral_eq_Suc)

definition op_demo :: op_world where
  "op_demo = \<lparr>opw_operators = [(sequential_id ''opr_'' 0, \<lparr>Oper_ID = sequential_id ''opr_'' 0,
       Oper_Email = ''root@example.org'', Oper_PasswordHash = demo_hash, Oper_Status = OperatorStatusActive,
       Oper_FailedAttempts = 0, Oper_LockedUntil = None, Oper_CreatedAt = 7\<rparr>)],
     opw_sessions = [(sequential_id ''ops_'' 0, \<lparr>Sess_ID = sequential_id ''ops_'' 0,
       Sess_OperatorID = sequential_id ''opr_'' 0, Sess_TokenHash = ''a'', Sess_CSRFToken = ''b'',
       Sess_CreatedAt = 8, Sess_ExpiresAt = 100000, Sess_RevokedAt = None\<rparr>)],
     opw_ops_minted = 1, opw_sess_minted = 1, opw_now = 100, opw_rand = replicate 64 CHR ''r''\<rparr>"

abbreviation demo_F :: "op_world op_facade" where
  "demo_F \<equiv> op_F sample_crypto (hour * 8) 3 (minute * 15)"

lemma op_demo_inv: "op_inv op_demo"
  by (auto simp: op_inv_def op_demo_def keyed_def opers_def sessions_def minted_def Oper_IsActive_def split: if_splits)

lemma password_change_revokes_sessions_witness:
  "revoked_but (\<lambda>s. Sess_ID s = ''other'') (sequential_id ''opr_'' 0) op_demo
     (snd (op_ChangeMyPassword demo_F (sequential_id ''opr_'' 0) ''other'' ''correct horse'' ''battery staple'' op_demo))"
proof -
  have "fst (op_ChangeMyPassword demo_F (sequential_id ''opr_'' 0) ''other'' ''correct horse'' ''battery staple'' op_demo)
      = Inr ()"
    by (simp add: op_demo_def op_ChangeMyPassword_def hashPassword_def act_simps op_mem_FindByID_def
        op_tape_Read_def op_mem_UpdatePasswordHash_def minPasswordLength_def argon2SaltLength_def
        sess_mem_RevokeAllForOperatorExcept_def)
  then show ?thesis
    using password_change_revokes_sessions by (metis prod.collapse)
qed

lemma demo_email [simp]: "normalizeEmail ''root@example.org'' = ''root@example.org''"
  by code_simp

lemma lockout_after_max_attempts_witness:
  "let w' = at_time 5000 (try_logins demo_F at_time ''root@example.org''
       ([(100, ''open sesame''), (200, ''open sesame'')] @ [(300, ''open sesame'')]) op_demo) in
    op_Login demo_F ''root@example.org'' ''correct horse'' w' = (Inl ErrAccountLocked, w')"
  by (rule lockout_after_max_attempts [OF op_demo_inv, where a = "the (opers op_demo (sequential_id ''opr_'' 0))"])
    (simp_all add: op_demo_def opers_def loginMaxAttemptsOrFallback_def loginLockoutOrFallback_def duration_defs)

lemma demo_login: "\<exists>s w'. op_Login demo_F ''root@example.org'' ''correct horse'' op_demo = (Inr s, w')
    \<and> LIS_Token s = EncodeToString RawURLEncoding (replicate 32 CHR ''r'')"
  by (simp add: op_Login_def act_simps op_demo_def op_mem_FindByEmail_def Oper_IsLockedOut_def Oper_IsActive_def
      op_mem_ResetFailedAttempts_def mintSession_def generateSessionToken_def generateCSRFToken_def
      op_tape_Read_def sess_mem_Save_def sessionTokenEntropyBytes_def Let_def)

lemma Login_session_verifies_witness:
  "\<exists>s w'. op_Login demo_F ''root@example.org'' ''correct horse'' op_demo = (Inr s, w') \<and>
     fst (op_VerifySession demo_F (LIS_Token s) (at_time 200 w')) = Inr
        \<lparr>Auth_OperatorID = LIS_OperatorID s, Auth_SessionID = sequential_id ''ops_'' 1, Auth_CSRFToken = LIS_CSRFToken s\<rparr>"
proof -
  obtain s w' where r: "op_Login demo_F ''root@example.org'' ''correct horse'' op_demo = (Inr s, w')"
    and t: "LIS_Token s = EncodeToString RawURLEncoding (replicate 32 CHR ''r'')" using demo_login by blast
  have "length (EncodeToString RawURLEncoding (replicate 32 CHR ''r'')) \<noteq> length ''a''" by code_simp
  then have "EncodeToString RawURLEncoding (replicate 32 CHR ''r'') \<noteq> ''a''" by metis
  then have "\<forall>x \<in> set (rows (opw_sessions op_demo)). Sess_TokenHash x \<noteq> hashSessionToken sample_crypto (LIS_Token s)"
    by (auto simp: op_demo_def t hashSessionToken_def sample_crypto_def)
  from Login_session_verifies [OF op_demo_inv r this] r show ?thesis
    by (auto simp: op_demo_def duration_defs)
qed

lemma always_an_active_operator_witness:
  "\<exists>w. opw_operators w \<noteq> [] \<and> op_Bootstrap demo_F ''a@b.c'' ''x'' w = (Inl ErrOperatorExists, w)"
proof -
  let ?init = "op_init\<lparr>opw_now := 5, opw_rand := replicate 16 CHR ''s''\<rparr>"
  let ?w = "snd (op_Bootstrap demo_F ''root@example.org'' ''correct horse'' ?init)"
  have 1: "op_step sample_crypto (hour * 8) 3 (minute * 15) op_init ?init"
    by (rule op_step.tick) (simp add: op_init_def)
  have 2: "op_step sample_crypto (hour * 8) 3 (minute * 15) ?init ?w" by (rule op_step.bootstrap)
  have r: "(op_step sample_crypto (hour * 8) 3 (minute * 15))\<^sup>*\<^sup>* op_init ?w"
    using 1 2 by (meson r_into_rtranclp rtranclp.rtrancl_into_rtrancl)
  have "looksLikeEmail ''root@example.org''" by code_simp
  then have ne: "opw_operators ?w \<noteq> []"
    by (simp add: op_Bootstrap_def act_simps op_init_def op_mem_Exists_def newValidatedOperator_def
        normalizeAndValidateEmail_def minPasswordLength_def hashPassword_def op_tape_Read_def
        argon2SaltLength_def op_mem_Save_def Let_def)
  show ?thesis using always_an_active_operator [OF r ne] ne by blast
qed

end
