(* ===== verification/OrgConfig.thy ===== *)
theory OrgConfig
  imports OrgFacade
begin

text \<open>
  \<open>internal/organizations/config.go\<close> and \<open>ExportConfig\<close>/\<open>ImportConfig\<close> of \<open>facade.go\<close>: the
  configuration document of an organization, the plan an import computes from it (governance,
  retention, webhook endpoints matched by URL) and its application.
\<close>

section \<open>The document (config.go)\<close>

definition CurrentConfigSchemaVersion :: int where
  "CurrentConfigSchemaVersion = 1"

record ConfigGovernance =
  CG_AllowList :: "string list option"
  CG_Hidden :: "string list"
  CG_Featured :: "string list"
  CG_FeaturedCap :: int

record ConfigEndpoint =
  CE_URL :: string
  CE_EventTypes :: "string list option"

record ConfigRetention =
  CR_LogRetentionDays :: "int option"
  CR_EventRetentionDays :: "int option"

record ConfigDocument =
  CD_SchemaVersion :: int
  CD_Governance :: ConfigGovernance
  CD_Endpoints :: "ConfigEndpoint list"
  CD_Retention :: ConfigRetention

definition ErrUnsupportedSchemaVersion :: "int \<Rightarrow> go_error" where
  "ErrUnsupportedSchemaVersion version =
     DomainError (WithDetails (httpx_New 422 ''validation_failed'' ''unsupported config schema version'')
       [(''field'', DStr ''schemaVersion''),
        (''issue'', DStr (''version '' @ itoa version @ '' is not supported (expected ''
                          @ itoa CurrentConfigSchemaVersion @ '')''))])"

definition ValidateConfigSchemaVersion :: "int \<Rightarrow> go_error option" where
  "ValidateConfigSchemaVersion version =
     (if version \<noteq> CurrentConfigSchemaVersion then Some (ErrUnsupportedSchemaVersion version) else None)"

text \<open>\<open>ImportMode\<close> is a string type; its two constants.\<close>

definition ImportModeMerge :: string where
  "ImportModeMerge = ''merge''"

definition ImportModeReplace :: string where
  "ImportModeReplace = ''replace''"

definition normalizeImportMode :: "string \<Rightarrow> go_error + string" where
  "normalizeImportMode mode =
     (if mode = [] then Inr ImportModeMerge
      else if mode = ImportModeMerge \<or> mode = ImportModeReplace then Inr mode
      else Inl (org_ErrValidation ''mode''
             (''must be '' @ quoted ImportModeMerge @ '' or '' @ quoted ImportModeReplace)))"

record ImportOptions =
  IO_DryRun :: bool
  IO_Mode :: string

record ConfigChange =
  CC_Area :: string
  CC_Field :: string
  CC_Action :: string
  CC_Detail :: string

record ImportedEndpointSecret =
  IES_EndpointID :: string
  IES_Secret :: string

record ImportResult =
  IR_Plan :: "ConfigChange list"
  IR_Warnings :: "string list"
  IR_Applied :: "ConfigChange list"
  IR_Secrets :: "ImportedEndpointSecret list"

section \<open>What an import sets\<close>

definition resolveGovernanceUpdate :: "Governance \<Rightarrow> ConfigGovernance \<Rightarrow> string \<Rightarrow> GovernanceUpdate" where
  "resolveGovernanceUpdate existing doc mode =
     (if mode = ImportModeReplace
      then \<lparr>GU_AllowList = CG_AllowList doc, GU_Hidden = CG_Hidden doc, GU_Featured = CG_Featured doc,
            GU_FeaturedCap = CG_FeaturedCap doc\<rparr>
      else \<lparr>GU_AllowList = (if CG_AllowList doc \<noteq> None then CG_AllowList doc else Gov_AllowList existing),
            GU_Hidden = (if length (CG_Hidden doc) > 0 then CG_Hidden doc else Gov_Hidden existing),
            GU_Featured = (if length (CG_Featured doc) > 0 then CG_Featured doc else Gov_Featured existing),
            GU_FeaturedCap = (if CG_FeaturedCap doc > 0 then CG_FeaturedCap doc
                              else Gov_FeaturedCap existing)\<rparr>)"

definition resolveRetentionUpdate :: "RetentionView \<Rightarrow> ConfigRetention \<Rightarrow> string \<Rightarrow> RetentionUpdate" where
  "resolveRetentionUpdate existing doc mode =
     (if mode = ImportModeReplace
      then \<lparr>RU_LogRetentionDays = CR_LogRetentionDays doc, RU_EventRetentionDays = CR_EventRetentionDays doc\<rparr>
      else \<lparr>RU_LogRetentionDays = (if CR_LogRetentionDays doc \<noteq> None then CR_LogRetentionDays doc
                                  else RV_LogRetentionDays existing),
            RU_EventRetentionDays = (if CR_EventRetentionDays doc \<noteq> None then CR_EventRetentionDays doc
                                    else RV_EventRetentionDays existing)\<rparr>)"

fun stringsEqual :: "string list \<Rightarrow> string list \<Rightarrow> bool" where
  "stringsEqual [] [] = True"
| "stringsEqual (a # as) (b # bs) = (if length as \<noteq> length bs then False
                                     else if a \<noteq> b then False else stringsEqual as bs)"
| "stringsEqual _ _ = False"

definition allowListEqual :: "string list option \<Rightarrow> string list option \<Rightarrow> bool" where
  "allowListEqual a b =
     (case (a, b) of (Some xs, Some ys) \<Rightarrow> stringsEqual xs ys | _ \<Rightarrow> a = None \<and> b = None)"

definition describeAllowList :: "string list option \<Rightarrow> string" where
  "describeAllowList allowList =
     (case allowList of
        None \<Rightarrow> ''inherit the full installation catalog''
      | Some xs \<Rightarrow> itoa (int (length xs)) @ '' integration(s) allow-listed'')"

definition effectiveFeaturedCap :: "int \<Rightarrow> int" where
  "effectiveFeaturedCap cap = (if cap \<le> 0 then DefaultFeaturedCap else cap)"

definition describeGovernanceChanges :: "Governance \<Rightarrow> GovernanceUpdate \<Rightarrow> ConfigChange list" where
  "describeGovernanceChanges existing update =
     (let effectiveCap = effectiveFeaturedCap (GU_FeaturedCap update) in
      (if \<not> allowListEqual (Gov_AllowList existing) (GU_AllowList update)
       then [\<lparr>CC_Area = ''governance'', CC_Field = ''allowList'', CC_Action = ''set'',
              CC_Detail = describeAllowList (GU_AllowList update)\<rparr>] else [])
      @ (if \<not> stringsEqual (Gov_Hidden existing) (GU_Hidden update)
         then [\<lparr>CC_Area = ''governance'', CC_Field = ''hidden'', CC_Action = ''set'',
                CC_Detail = itoa (int (length (GU_Hidden update))) @ '' integration(s) hidden''\<rparr>] else [])
      @ (if \<not> stringsEqual (Gov_Featured existing) (GU_Featured update)
            \<or> Gov_FeaturedCap existing \<noteq> effectiveCap
         then [\<lparr>CC_Area = ''governance'', CC_Field = ''onboarding'', CC_Action = ''set'',
                CC_Detail = itoa (int (length (GU_Featured update))) @ '' featured integration(s), cap ''
                            @ itoa effectiveCap\<rparr>] else []))"

definition intPtrEqual :: "int option \<Rightarrow> int option \<Rightarrow> bool" where
  "intPtrEqual a b = (case (a, b) of (Some x, Some y) \<Rightarrow> x = y | _ \<Rightarrow> a = None \<and> b = None)"

definition describeRetentionDays :: "int option \<Rightarrow> string" where
  "describeRetentionDays days =
     (case days of
        None \<Rightarrow> ''inherit the installation default''
      | Some d \<Rightarrow> if d = 0 then ''unlimited'' else itoa d @ '' day(s)'')"

definition describeRetentionChanges :: "RetentionView \<Rightarrow> RetentionUpdate \<Rightarrow> ConfigChange list" where
  "describeRetentionChanges existing update =
     (if \<not> intPtrEqual (RV_LogRetentionDays existing) (RU_LogRetentionDays update)
      then [\<lparr>CC_Area = ''retention'', CC_Field = ''logRetentionDays'', CC_Action = ''set'',
             CC_Detail = describeRetentionDays (RU_LogRetentionDays update)\<rparr>] else [])
     @ (if \<not> intPtrEqual (RV_EventRetentionDays existing) (RU_EventRetentionDays update)
        then [\<lparr>CC_Area = ''retention'', CC_Field = ''eventRetentionDays'', CC_Action = ''set'',
               CC_Detail = describeRetentionDays (RU_EventRetentionDays update)\<rparr>] else [])"

section \<open>The endpoint plan\<close>

record endpointAction =
  ea_Action :: string
  ea_URL :: string
  ea_EventTypes :: "string list option"
  ea_EndpointID :: string

text \<open>A nil slice has length 0: \<open>stringsEqual\<close> does not tell it from an empty one.\<close>

definition elems :: "string list option \<Rightarrow> string list" where
  "elems s = (case s of None \<Rightarrow> [] | Some xs \<Rightarrow> xs)"

text \<open>\<open>existingByURL\<close>: of two endpoints with one URL, the later one wins.\<close>

fun existingByURL :: "PortedEndpoint list \<Rightarrow> string \<Rightarrow> PortedEndpoint option" where
  "existingByURL [] url = None"
| "existingByURL (e # es) url =
     (case existingByURL es url of
        Some e' \<Rightarrow> Some e'
      | None \<Rightarrow> if PE_URL e = url then Some e else None)"

fun plan_mentioned :: "PortedEndpoint list \<Rightarrow> ConfigEndpoint list \<Rightarrow> endpointAction list" where
  "plan_mentioned existing [] = []"
| "plan_mentioned existing (endpoint # doc) =
     (case existingByURL existing (CE_URL endpoint) of
        None \<Rightarrow>
          \<lparr>ea_Action = ''create'', ea_URL = CE_URL endpoint, ea_EventTypes = CE_EventTypes endpoint,
           ea_EndpointID = []\<rparr> # plan_mentioned existing doc
      | Some current \<Rightarrow>
          if \<not> stringsEqual (elems (PE_EventTypes current)) (elems (CE_EventTypes endpoint))
          then \<lparr>ea_Action = ''update'', ea_URL = CE_URL endpoint, ea_EventTypes = CE_EventTypes endpoint,
                ea_EndpointID = PE_ID current\<rparr> # plan_mentioned existing doc
          else plan_mentioned existing doc)"

fun plan_deletes :: "PortedEndpoint list \<Rightarrow> ConfigEndpoint list \<Rightarrow> endpointAction list" where
  "plan_deletes [] doc = []"
| "plan_deletes (endpoint # existing) doc =
     (if PE_URL endpoint \<notin> CE_URL ` set doc
      then \<lparr>ea_Action = ''delete'', ea_URL = PE_URL endpoint, ea_EventTypes = None,
            ea_EndpointID = PE_ID endpoint\<rparr> # plan_deletes existing doc
      else plan_deletes existing doc)"

definition planEndpoints :: "PortedEndpoint list \<Rightarrow> ConfigEndpoint list \<Rightarrow> string \<Rightarrow> endpointAction list" where
  "planEndpoints existing doc mode =
     plan_mentioned existing doc @ (if mode = ImportModeReplace then plan_deletes existing doc else [])"

definition describeEventTypeFilter :: "string list option \<Rightarrow> string" where
  "describeEventTypeFilter eventTypes =
     (if length (elems eventTypes) = 0 then ''all event types''
      else itoa (int (length (elems eventTypes))) @ '' event type(s)'')"

definition describeEndpointAction :: "endpointAction \<Rightarrow> string" where
  "describeEndpointAction action =
     (if ea_Action action = ''create''
      then ''create endpoint '' @ ea_URL action @ '' ('' @ describeEventTypeFilter (ea_EventTypes action) @ '')''
      else if ea_Action action = ''update''
      then ''update endpoint '' @ ea_URL action @ '' to '' @ describeEventTypeFilter (ea_EventTypes action)
      else if ea_Action action = ''delete'' then ''delete endpoint '' @ ea_URL action
      else ea_URL action)"

definition describeEndpointChanges :: "endpointAction list \<Rightarrow> ConfigChange list" where
  "describeEndpointChanges actions =
     map (\<lambda>action. \<lparr>CC_Area = ''endpoint'', CC_Field = ea_URL action, CC_Action = ea_Action action,
                    CC_Detail = describeEndpointAction action\<rparr>) actions"

text \<open>\<open>add\<close> keeps the first occurrence of every non-empty id, in order.\<close>

fun add_ids :: "string list \<Rightarrow> string list \<Rightarrow> string list" where
  "add_ids ids [] = ids"
| "add_ids ids (i # values) =
     (if i \<noteq> [] \<and> i \<notin> set ids then add_ids (ids @ [i]) values else add_ids ids values)"

definition referencedIntegrationIDs :: "ConfigGovernance \<Rightarrow> string list" where
  "referencedIntegrationIDs doc =
     (let ids = (case CG_AllowList doc of None \<Rightarrow> [] | Some xs \<Rightarrow> add_ids [] xs)
      in add_ids (add_ids ids (CG_Hidden doc)) (CG_Featured doc))"

definition combineConfigChanges ::
  "Governance \<Rightarrow> GovernanceUpdate \<Rightarrow> RetentionView \<Rightarrow> RetentionUpdate \<Rightarrow> endpointAction list \<Rightarrow> ConfigChange list"
where
  "combineConfigChanges existingGovernance governanceUpdate existingRetention retentionUpdate endpointActions =
     describeGovernanceChanges existingGovernance governanceUpdate
     @ describeRetentionChanges existingRetention retentionUpdate
     @ describeEndpointChanges endpointActions"

section \<open>Export and import (facade.go)\<close>

definition toConfigEndpoints :: "PortedEndpoint list \<Rightarrow> ConfigEndpoint list" where
  "toConfigEndpoints endpoints =
     map (\<lambda>endpoint. \<lparr>CE_URL = PE_URL endpoint, CE_EventTypes = PE_EventTypes endpoint\<rparr>) endpoints"

definition org_ExportConfig :: "'s org_facade \<Rightarrow> OrgID \<Rightarrow> ('s, ConfigDocument) act" where
  "org_ExportConfig f org =
     attempt (org_GetGovernance f org) (\<lambda>governance.
     attempt (port_ListEndpoints (org_endpointPorter f) org) (\<lambda>endpoints.
     ok \<lparr>CD_SchemaVersion = CurrentConfigSchemaVersion,
         CD_Governance = \<lparr>CG_AllowList = Gov_AllowList governance, CG_Hidden = Gov_Hidden governance,
           CG_Featured = Gov_Featured governance, CG_FeaturedCap = Gov_FeaturedCap governance\<rparr>,
         CD_Endpoints = toConfigEndpoints endpoints,
         CD_Retention = \<lparr>CR_LogRetentionDays = Gov_LogRetentionDays governance,
           CR_EventRetentionDays = Gov_EventRetentionDays governance\<rparr>\<rparr>))"

fun warn_unknown :: "'s org_facade \<Rightarrow> string list \<Rightarrow> ('s, string list) act" where
  "warn_unknown f [] = ok []"
| "warn_unknown f (i # ids) =
     attempt (org_integrations_IntegrationExists f i) (\<lambda>exists.
     attempt (warn_unknown f ids) (\<lambda>warnings.
     ok (if exists then warnings
         else (''integration '' @ quoted i
               @ '' referenced in governance does not exist in this installation'') # warnings)))"

definition unknownIntegrationWarnings :: "'s org_facade \<Rightarrow> ConfigGovernance \<Rightarrow> ('s, string list) act" where
  "unknownIntegrationWarnings f doc = warn_unknown f (referencedIntegrationIDs doc)"

fun apply_endpoints :: "'s EndpointPorter \<Rightarrow> OrgID \<Rightarrow> endpointAction list \<Rightarrow> ('s, ImportedEndpointSecret list) act"
where
  "apply_endpoints p org [] = ok []"
| "apply_endpoints p org (action # actions) =
     (if ea_Action action = ''create'' then
        attempt (port_CreateEndpoint p org (ea_URL action) (ea_EventTypes action)) (\<lambda>created.
        attempt (apply_endpoints p org actions) (\<lambda>secrets.
        ok (\<lparr>IES_EndpointID = PES_ID created, IES_Secret = PES_Secret created\<rparr> # secrets)))
      else if ea_Action action = ''update'' then
        attempt (port_UpdateEndpoint p org (ea_EndpointID action) (ea_URL action) (ea_EventTypes action))
          (\<lambda>_. apply_endpoints p org actions)
      else if ea_Action action = ''delete'' then
        attempt (port_DeleteEndpoint p org (ea_EndpointID action)) (\<lambda>_. apply_endpoints p org actions)
      else apply_endpoints p org actions)"

definition applyImport ::
  "'s org_facade \<Rightarrow> OrgID \<Rightarrow> GovernanceUpdate \<Rightarrow> RetentionUpdate \<Rightarrow> endpointAction list
     \<Rightarrow> ('s, ImportedEndpointSecret list) act"
where
  "applyImport f org governanceUpdate retentionUpdate endpointActions =
     attempt (org_SetGovernance f org governanceUpdate) (\<lambda>_.
     attempt (org_SetRetention f org retentionUpdate) (\<lambda>_.
     apply_endpoints (org_endpointPorter f) org endpointActions))"

definition org_ImportConfig ::
  "'s org_facade \<Rightarrow> OrgID \<Rightarrow> ConfigDocument \<Rightarrow> ImportOptions \<Rightarrow> ('s, ImportResult) act"
where
  "org_ImportConfig f org document opts =
     check (ValidateConfigSchemaVersion (CD_SchemaVersion document)) (
     attempt (lift (normalizeImportMode (IO_Mode opts))) (\<lambda>mode.
     attempt (org_GetGovernance f org) (\<lambda>existingGovernance.
     attempt (org_GetRetention f org) (\<lambda>existingRetention.
     attempt (port_ListEndpoints (org_endpointPorter f) org) (\<lambda>existingEndpoints.
     attempt (unknownIntegrationWarnings f (CD_Governance document)) (\<lambda>warnings.
     let governanceUpdate = resolveGovernanceUpdate existingGovernance (CD_Governance document) mode;
         retentionUpdate = resolveRetentionUpdate existingRetention (CD_Retention document) mode;
         endpointActions = planEndpoints existingEndpoints (CD_Endpoints document) mode;
         changes = combineConfigChanges existingGovernance governanceUpdate existingRetention
                     retentionUpdate endpointActions
     in if IO_DryRun opts
        then ok \<lparr>IR_Plan = changes, IR_Warnings = warnings, IR_Applied = [], IR_Secrets = []\<rparr>
        else attempt (applyImport f org governanceUpdate retentionUpdate endpointActions) (\<lambda>secrets.
             ok \<lparr>IR_Plan = [], IR_Warnings = [], IR_Applied = changes, IR_Secrets = secrets\<rparr>)))))))"

section \<open>The plan\<close>

lemma stringsEqual_eq [simp]: "stringsEqual a b \<longleftrightarrow> a = b"
  by (induction a b rule: stringsEqual.induct) (auto dest: arg_cong [of _ _ length])

lemma existingByURL_None_iff: "existingByURL es url = None \<longleftrightarrow> url \<notin> PE_URL ` set es"
  by (induction es) (auto split: option.splits)

lemma existingByURL_Some: "existingByURL es url = Some e \<Longrightarrow> e \<in> set es \<and> PE_URL e = url"
  by (induction es) (auto split: option.splits if_splits)

lemma existingByURL_unique:
  "inj_on PE_URL (set es) \<Longrightarrow> e \<in> set es \<Longrightarrow> existingByURL es (PE_URL e) = Some e"
  by (metis existingByURL_None_iff existingByURL_Some image_eqI inj_onD not_None_eq)

text \<open>The filter an endpoint has, by URL: what a document can state of an endpoint.\<close>

definition ep_view :: "PortedEndpoint set \<Rightarrow> (string \<times> string list) set" where
  "ep_view es = (\<lambda>e. (PE_URL e, elems (PE_EventTypes e))) ` es"

definition doc_view :: "ConfigEndpoint list \<Rightarrow> (string \<times> string list) set" where
  "doc_view doc = (\<lambda>d. (CE_URL d, elems (CE_EventTypes d))) ` set doc"

definition action_ok :: "PortedEndpoint set \<Rightarrow> endpointAction \<Rightarrow> bool" where
  "action_ok es a \<longleftrightarrow>
     (ea_Action a = ''create'' \<and> ea_URL a \<notin> PE_URL ` es)
     \<or> (ea_Action a \<in> {''update'', ''delete''} \<and>
        (\<exists>e \<in> es. PE_ID e = ea_EndpointID a \<and> PE_URL e = ea_URL a))"

definition action_result :: "endpointAction list \<Rightarrow> (string \<times> string list) set" where
  "action_result as =
     (\<lambda>a. (ea_URL a, elems (ea_EventTypes a))) ` {a \<in> set as. ea_Action a \<noteq> ''delete''}"

lemma plan_mentioned_ok: "a \<in> set (plan_mentioned es doc) \<Longrightarrow> action_ok (set es) a \<and> ea_Action a \<noteq> ''delete''"
  by (induction doc)
    (auto simp: action_ok_def existingByURL_None_iff split: option.splits if_splits
      dest!: existingByURL_Some)

lemma plan_deletes_ok: "a \<in> set (plan_deletes es doc) \<Longrightarrow> action_ok (set es) a \<and> ea_Action a = ''delete''"
  by (induction es) (auto simp: action_ok_def split: if_splits)

lemma planEndpoints_ok: "a \<in> set (planEndpoints es doc mode) \<Longrightarrow> action_ok (set es) a"
  by (auto simp: planEndpoints_def dest: plan_mentioned_ok plan_deletes_ok split: if_splits)

lemma plan_mentioned_urls: "ea_URL ` set (plan_mentioned es doc) \<subseteq> CE_URL ` set doc"
  by (induction doc) (auto split: option.splits)

lemma plan_mentioned_distinct: "distinct (map CE_URL doc) \<Longrightarrow> distinct (map ea_URL (plan_mentioned es doc))"
proof (induction doc)
  case (Cons d doc)
  then show ?case using plan_mentioned_urls [of es doc] by (auto split: option.split)
qed simp

lemma plan_deletes_urls: "ea_URL ` set (plan_deletes es doc) = PE_URL ` set es - CE_URL ` set doc"
  by (induction es) auto

lemma plan_deletes_distinct: "distinct (map PE_URL es) \<Longrightarrow> distinct (map ea_URL (plan_deletes es doc))"
proof (induction es)
  case (Cons e es)
  then show ?case using plan_deletes_urls [of es doc] by auto
qed simp

lemma planEndpoints_distinct:
  assumes "distinct (map PE_URL es)" and "distinct (map CE_URL doc)"
  shows "distinct (map ea_URL (planEndpoints es doc mode))"
  using plan_mentioned_distinct [OF assms(2), of es] plan_deletes_distinct [OF assms(1), of doc]
    plan_mentioned_urls [of es doc] plan_deletes_urls [of es doc]
  by (auto simp: planEndpoints_def)

lemma action_result_simps [simp]:
  "action_result [] = {}"
  "action_result (a # as) =
     (if ea_Action a = ''delete'' then action_result as
      else insert (ea_URL a, elems (ea_EventTypes a)) (action_result as))"
  by (auto simp: action_result_def)

lemma doc_view_simps [simp]:
  "doc_view [] = {}"
  "doc_view (d # doc) = insert (CE_URL d, elems (CE_EventTypes d)) (doc_view doc)"
  by (simp_all add: doc_view_def)

lemma doc_view_fst: "x \<in> doc_view doc \<Longrightarrow> fst x \<in> CE_URL ` set doc"
  by (auto simp: doc_view_def)

text \<open>An endpoint the mentioned part of a plan leaves alone already has the document's filter.\<close>

lemma plan_mentioned_quiet:
  "d \<in> set doc \<Longrightarrow> CE_URL d \<notin> ea_URL ` set (plan_mentioned es doc) \<Longrightarrow>
     \<exists>e. existingByURL es (CE_URL d) = Some e \<and> elems (PE_EventTypes e) = elems (CE_EventTypes d)"
  by (induction doc) (auto split: option.splits if_splits)

lemma plan_mentioned_result:
  "x \<in> action_result (plan_mentioned es doc) \<Longrightarrow> x \<in> doc_view doc"
  by (induction doc) (auto split: option.splits if_splits)

lemma doc_view_functional:
  "distinct (map CE_URL doc) \<Longrightarrow> x \<in> doc_view doc \<Longrightarrow> y \<in> doc_view doc \<Longrightarrow> fst x = fst y \<Longrightarrow> x = y"
  by (auto simp: doc_view_def distinct_map dest: inj_onD)

lemma plan_mentioned_covers:
  assumes "distinct (map CE_URL doc)" and "x \<in> doc_view doc"
    and "fst x \<in> ea_URL ` set (plan_mentioned es doc)"
  shows "x \<in> action_result (plan_mentioned es doc)"
proof -
  from assms(3) obtain a where a: "a \<in> set (plan_mentioned es doc)" "fst x = ea_URL a" by auto
  then have y: "(ea_URL a, elems (ea_EventTypes a)) \<in> action_result (plan_mentioned es doc)"
    by (auto simp: action_result_def dest: plan_mentioned_ok)
  from doc_view_functional [OF assms(1,2) plan_mentioned_result [OF y]] a(2) y show ?thesis by simp
qed

lemma quiet_view:
  assumes "inj_on PE_URL (set es)" and "fst x \<in> CE_URL ` set doc"
    and "fst x \<notin> ea_URL ` set (plan_mentioned es doc)" and "distinct (map CE_URL doc)"
  shows "x \<in> ep_view (set es) \<longleftrightarrow> x \<in> doc_view doc"
proof -
  from assms(2) obtain d where d: "d \<in> set doc" "fst x = CE_URL d" by auto
  with plan_mentioned_quiet [OF d(1), of es] assms(3) obtain e where
    e: "existingByURL es (CE_URL d) = Some e" "elems (PE_EventTypes e) = elems (CE_EventTypes d)" by auto
  from existingByURL_Some [OF e(1)] have m: "e \<in> set es" "PE_URL e = CE_URL d" by auto
  have "x \<in> ep_view (set es) \<longleftrightarrow> snd x = elems (PE_EventTypes e)"
  proof
    assume "x \<in> ep_view (set es)"
    then obtain e' where "e' \<in> set es" "x = (PE_URL e', elems (PE_EventTypes e'))" by (auto simp: ep_view_def)
    moreover have "e' = e" using calculation m d(2) assms(1) by (auto intro: inj_onD [of PE_URL])
    ultimately show "snd x = elems (PE_EventTypes e)" by simp
  next
    assume "snd x = elems (PE_EventTypes e)"
    then have "x = (PE_URL e, elems (PE_EventTypes e))" using d(2) m(2) by (simp add: prod_eq_iff)
    then show "x \<in> ep_view (set es)" using m(1) by (auto simp: ep_view_def)
  qed
  moreover have "x \<in> doc_view doc \<longleftrightarrow> snd x = elems (CE_EventTypes d)"
  proof
    assume "x \<in> doc_view doc"
    then obtain d' where "d' \<in> set doc" "x = (CE_URL d', elems (CE_EventTypes d'))" by (auto simp: doc_view_def)
    moreover have "d' = d" using calculation d assms(4) by (auto simp: distinct_map intro: inj_onD [of CE_URL])
    ultimately show "snd x = elems (CE_EventTypes d)" by simp
  next
    assume "snd x = elems (CE_EventTypes d)"
    then have "x = (CE_URL d, elems (CE_EventTypes d))" using d(2) by (simp add: prod_eq_iff)
    then show "x \<in> doc_view doc" using d(1) by (auto simp: doc_view_def)
  qed
  ultimately show ?thesis using e(2) by simp
qed

section \<open>Applying a plan through the endpoint porter\<close>

text \<open>
  The contract of \<open>EndpointPorter\<close> for one organization: \<open>eps\<close> is the organization's list of
  endpoints. It is interpreted on the delivery module in the root theory's neighbours.
\<close>

locale endpoint_port =
  fixes p :: "'s EndpointPorter"
    and org :: OrgID
    and eps :: "'s \<Rightarrow> PortedEndpoint list"
    and invar :: "'s \<Rightarrow> bool"
  assumes port_list: "invar s \<Longrightarrow> port_ListEndpoints p org s = (r, s') \<Longrightarrow>
      s' = s \<and> (\<forall>xs. r = Inr xs \<longrightarrow> xs = eps s)"
    and port_create: "invar s \<Longrightarrow> port_CreateEndpoint p org url ets s = (Inr c, s') \<Longrightarrow>
      invar s' \<and> set (eps s') = insert \<lparr>PE_ID = PES_ID c, PE_URL = url, PE_EventTypes = ets\<rparr> (set (eps s))"
    and port_update: "invar s \<Longrightarrow> port_UpdateEndpoint p org i url ets s = (Inr u, s') \<Longrightarrow>
      invar s' \<and> set (eps s') =
        (\<lambda>e. if PE_ID e = i then \<lparr>PE_ID = i, PE_URL = url, PE_EventTypes = ets\<rparr> else e) ` set (eps s)"
    and port_delete: "invar s \<Longrightarrow> port_DeleteEndpoint p org i s = (Inr u, s') \<Longrightarrow>
      invar s' \<and> set (eps s') = {e \<in> set (eps s). PE_ID e \<noteq> i}"
    and port_ids: "invar s \<Longrightarrow> distinct (map PE_ID (eps s))"
begin

lemma update_one_image:
  assumes "\<And>e'. e' \<in> E \<Longrightarrow> P e' \<longleftrightarrow> \<not> Q e'" and "e \<in> E" and "P e"
  shows "(\<lambda>e. if P e then n else e) ` E = insert n {e \<in> E. Q e}"
  using assms by (auto simp: image_iff)

text \<open>One action changes the endpoint of its URL and no other.\<close>

definition other_urls :: "string \<Rightarrow> PortedEndpoint set \<Rightarrow> PortedEndpoint set" where
  "other_urls url es = {e \<in> es. PE_URL e \<noteq> url}"

lemma targeted:
  assumes "invar s" and "inj_on PE_URL (set (eps s))" and "e \<in> set (eps s)"
    and "e' \<in> set (eps s)"
  shows "PE_ID e' = PE_ID e \<longleftrightarrow> PE_URL e' = PE_URL e"
  using assms port_ids [OF assms(1)] by (metis distinct_map inj_onD)

lemma apply_create:
  assumes "invar s" and "ea_URL a \<notin> PE_URL ` set (eps s)"
    and "port_CreateEndpoint p org (ea_URL a) ets s = (Inr c, s')"
  shows "invar s'" and "set (eps s') = insert \<lparr>PE_ID = PES_ID c, PE_URL = ea_URL a, PE_EventTypes = ets\<rparr>
           (other_urls (ea_URL a) (set (eps s)))"
proof -
  have "other_urls (ea_URL a) (set (eps s)) = set (eps s)"
    using assms(2) by (force simp: other_urls_def)
  then show "invar s'" and "set (eps s') = insert \<lparr>PE_ID = PES_ID c, PE_URL = ea_URL a, PE_EventTypes = ets\<rparr>
      (other_urls (ea_URL a) (set (eps s)))"
    using port_create [OF assms(1,3)] by simp_all
qed

lemma apply_update:
  assumes "invar s" and "inj_on PE_URL (set (eps s))" and "e \<in> set (eps s)"
    and "port_UpdateEndpoint p org (PE_ID e) (PE_URL e) ets s = (Inr u, s')"
  shows "invar s'" and "set (eps s') = insert \<lparr>PE_ID = PE_ID e, PE_URL = PE_URL e, PE_EventTypes = ets\<rparr>
           (other_urls (PE_URL e) (set (eps s)))"
proof -
  note r = port_update [OF assms(1,4)]
  have t: "e' \<in> set (eps s) \<Longrightarrow> PE_ID e' = PE_ID e \<longleftrightarrow> \<not> PE_URL e' \<noteq> PE_URL e" for e'
    by (simp add: targeted [OF assms(1,2,3)])
  show "invar s'" using r by blast
  show "set (eps s') = insert \<lparr>PE_ID = PE_ID e, PE_URL = PE_URL e, PE_EventTypes = ets\<rparr>
      (other_urls (PE_URL e) (set (eps s)))"
    unfolding other_urls_def conjunct2 [OF r] by (rule update_one_image [OF t assms(3)]) simp_all
qed

lemma apply_delete:
  assumes "invar s" and "inj_on PE_URL (set (eps s))" and "e \<in> set (eps s)"
    and "port_DeleteEndpoint p org (PE_ID e) s = (Inr u, s')"
  shows "invar s'" and "set (eps s') = other_urls (PE_URL e) (set (eps s))"
proof -
  note r = port_delete [OF assms(1,4)]
  have t: "e' \<in> set (eps s) \<Longrightarrow> PE_ID e' \<noteq> PE_ID e \<longleftrightarrow> PE_URL e' \<noteq> PE_URL e" for e'
    by (simp add: targeted [OF assms(1,2,3)])
  show "invar s'" using r by blast
  show "set (eps s') = other_urls (PE_URL e) (set (eps s))"
    unfolding other_urls_def conjunct2 [OF r] by (rule Collect_cong, rule conj_cong [OF refl], rule t)
qed

lemma action_ok_other:
  assumes "action_ok es a" and "ea_URL a \<noteq> url" and "other_urls url es = other_urls url es'"
  shows "action_ok es' a"
proof -
  have m: "e \<in> es \<longleftrightarrow> e \<in> es'" if "PE_URL e = ea_URL a" for e
  proof -
    have "e \<in> other_urls url es \<longleftrightarrow> e \<in> other_urls url es'" by (simp only: assms(3))
    with that assms(2) show ?thesis by (simp add: other_urls_def)
  qed
  then have "(\<exists>e \<in> es. PE_URL e = ea_URL a) \<longleftrightarrow> (\<exists>e \<in> es'. PE_URL e = ea_URL a)" by blast
  then have "ea_URL a \<in> PE_URL ` es \<longleftrightarrow> ea_URL a \<in> PE_URL ` es'"
    by (simp only: image_iff eq_commute [of "ea_URL a"])
  moreover have "(\<exists>e \<in> es. PE_ID e = ea_EndpointID a \<and> PE_URL e = ea_URL a)
      \<longleftrightarrow> (\<exists>e \<in> es'. PE_ID e = ea_EndpointID a \<and> PE_URL e = ea_URL a)"
    using m by blast
  ultimately show ?thesis using assms(1) by (simp only: action_ok_def)
qed

lemma apply_one:
  assumes inv: "invar s" "inj_on PE_URL (set (eps s))" and ok: "action_ok (set (eps s)) a"
    and run: "apply_endpoints p org (a # as) s = (Inr secrets, s')"
  obtains s1 rest where "apply_endpoints p org as s1 = (Inr rest, s')" and "invar s1"
    and "inj_on PE_URL (set (eps s1))"
    and "other_urls (ea_URL a) (set (eps s1)) = other_urls (ea_URL a) (set (eps s))"
    and "ep_view (set (eps s1)) = ep_view (other_urls (ea_URL a) (set (eps s)))
           \<union> action_result [a]"
proof -
  have inj: "inj_on PE_URL (insert x (other_urls (PE_URL x) (set (eps s))))"
    "inj_on PE_URL (other_urls (PE_URL x) (set (eps s)))" for x
    using inv(2) by (auto simp: other_urls_def inj_on_def)
  consider (create) "ea_Action a = ''create''" "ea_URL a \<notin> PE_URL ` set (eps s)"
    | (update) e where "ea_Action a = ''update''" "e \<in> set (eps s)" "PE_ID e = ea_EndpointID a" "PE_URL e = ea_URL a"
    | (delete) e where "ea_Action a = ''delete''" "e \<in> set (eps s)" "PE_ID e = ea_EndpointID a" "PE_URL e = ea_URL a"
    using ok by (auto simp: action_ok_def)
  then show ?thesis
  proof cases
    case create
    then obtain c s1 rest where
      1: "port_CreateEndpoint p org (ea_URL a) (ea_EventTypes a) s = (Inr c, s1)" and
      2: "apply_endpoints p org as s1 = (Inr rest, s')"
      using run by (auto simp: attempt_Inr_iff)
    note r = apply_create [OF inv(1) create(2) 1]
    let ?e = "\<lparr>PE_ID = PES_ID c, PE_URL = ea_URL a, PE_EventTypes = ea_EventTypes a\<rparr>"
    show ?thesis
      by (rule that [OF 2 r(1)])
        (use inj(1) [of ?e] r(2) create(1) in \<open>auto simp: other_urls_def ep_view_def\<close>)
  next
    case update
    then obtain u s1 where
      1: "port_UpdateEndpoint p org (PE_ID e) (PE_URL e) (ea_EventTypes a) s = (Inr u, s1)" and
      2: "apply_endpoints p org as s1 = (Inr secrets, s')"
      using run by (auto simp: attempt_Inr_iff)
    note r = apply_update [OF inv update(2) 1]
    let ?e = "\<lparr>PE_ID = PE_ID e, PE_URL = PE_URL e, PE_EventTypes = ea_EventTypes a\<rparr>"
    show ?thesis
      by (rule that [OF 2 r(1)])
        (use inj(1) [of ?e] r(2) update in \<open>auto simp: other_urls_def ep_view_def\<close>)
  next
    case delete
    then obtain u s1 where
      1: "port_DeleteEndpoint p org (PE_ID e) s = (Inr u, s1)" and
      2: "apply_endpoints p org as s1 = (Inr secrets, s')"
      using run by (auto simp: attempt_Inr_iff)
    note r = apply_delete [OF inv delete(2) 1]
    show ?thesis
      by (rule that [OF 2 r(1)])
        (use inj(2) [of e] r(2) delete in \<open>auto simp: other_urls_def ep_view_def\<close>)
  qed
qed

lemma apply_endpoints_view:
  assumes "invar s" and "inj_on PE_URL (set (eps s))" and "distinct (map ea_URL as)"
    and "\<forall>a \<in> set as. action_ok (set (eps s)) a"
    and "apply_endpoints p org as s = (Inr secrets, s')"
  shows "invar s' \<and> inj_on PE_URL (set (eps s'))
    \<and> ep_view (set (eps s')) =
        ep_view {e \<in> set (eps s). PE_URL e \<notin> ea_URL ` set as} \<union> action_result as
    \<and> {e \<in> set (eps s). PE_URL e \<notin> ea_URL ` set as} \<subseteq> set (eps s')"
  using assms
proof (induction as arbitrary: s secrets)
  case Nil
  then show ?case by (simp add: action_result_def)
next
  case (Cons a as)
  from Cons.prems(4) have "action_ok (set (eps s)) a" by simp
  from apply_one [OF Cons.prems(1,2) this Cons.prems(5)] obtain s1 rest where
    run: "apply_endpoints p org as s1 = (Inr rest, s')" and inv: "invar s1" "inj_on PE_URL (set (eps s1))"
    and other: "other_urls (ea_URL a) (set (eps s1)) = other_urls (ea_URL a) (set (eps s))"
    and view: "ep_view (set (eps s1)) = ep_view (other_urls (ea_URL a) (set (eps s))) \<union> action_result [a]"
    by blast
  have a: "ea_URL a \<notin> ea_URL ` set as" and d: "distinct (map ea_URL as)" using Cons.prems(3) by auto
  have oks: "\<forall>b \<in> set as. action_ok (set (eps s1)) b"
  proof
    fix b assume b: "b \<in> set as"
    then have "ea_URL b \<noteq> ea_URL a" using a by (metis image_eqI)
    with b Cons.prems(4) show "action_ok (set (eps s1)) b"
      by (intro action_ok_other [OF _ _ other [symmetric]]) auto
  qed
  have ih: "invar s'" "inj_on PE_URL (set (eps s'))"
    "ep_view (set (eps s')) = ep_view {e \<in> set (eps s1). PE_URL e \<notin> ea_URL ` set as} \<union> action_result as"
    "{e \<in> set (eps s1). PE_URL e \<notin> ea_URL ` set as} \<subseteq> set (eps s')"
    using Cons.IH [OF inv d oks run] by blast+
  have fv: "ep_view {e \<in> es. PE_URL e \<notin> U} = {x \<in> ep_view es. fst x \<notin> U}" for es U
    by (auto simp: ep_view_def)
  have "ep_view {e \<in> set (eps s1). PE_URL e \<notin> ea_URL ` set as}
      = {x \<in> ep_view (other_urls (ea_URL a) (set (eps s))) \<union> action_result [a]. fst x \<notin> ea_URL ` set as}"
    unfolding fv view ..
  also have "\<dots> = ep_view {e \<in> set (eps s). PE_URL e \<notin> ea_URL ` set (a # as)} \<union> action_result [a]"
    using a by (auto simp: other_urls_def ep_view_def)
  finally have "ep_view (set (eps s')) =
      ep_view {e \<in> set (eps s). PE_URL e \<notin> ea_URL ` set (a # as)} \<union> action_result (a # as)"
    unfolding ih(3) by simp
  moreover have "{e \<in> set (eps s). PE_URL e \<notin> ea_URL ` set (a # as)} \<subseteq> set (eps s')"
    using ih(4) other by (auto simp: other_urls_def set_eq_iff)
  ultimately show ?case using ih(1,2) by blast
qed

lemma replace_matches_document:
  assumes "invar s" and "distinct (map PE_URL (eps s))" and "distinct (map CE_URL doc)"
    and "apply_endpoints p org (planEndpoints (eps s) doc ImportModeReplace) s = (Inr secrets, s')"
  shows "ep_view (set (eps s')) = doc_view doc" and "distinct (map PE_URL (eps s'))"
proof -
  let ?as = "planEndpoints (eps s) doc ImportModeReplace"
  have inj: "inj_on PE_URL (set (eps s))" using assms(2) by (simp add: distinct_map)
  have urls: "ea_URL ` set ?as = ea_URL ` set (plan_mentioned (eps s) doc) \<union> (PE_URL ` set (eps s) - CE_URL ` set doc)"
    by (simp add: planEndpoints_def image_Un plan_deletes_urls)
  have result: "action_result ?as = action_result (plan_mentioned (eps s) doc)"
    by (auto simp: action_result_def planEndpoints_def dest: plan_deletes_ok)
  have after: "invar s' \<and> inj_on PE_URL (set (eps s'))
      \<and> ep_view (set (eps s')) = ep_view {e \<in> set (eps s). PE_URL e \<notin> ea_URL ` set ?as} \<union> action_result ?as"
    using apply_endpoints_view [OF assms(1) inj planEndpoints_distinct [OF assms(2,3)] _ assms(4)]
      planEndpoints_ok by blast
  have "distinct (eps s')" using port_ids [of s'] after by (simp add: distinct_map)
  then show "distinct (map PE_URL (eps s'))" using after by (simp add: distinct_map)
  have "ep_view (set (eps s')) = ep_view {e \<in> set (eps s). PE_URL e \<notin> ea_URL ` set ?as} \<union> action_result ?as"
    using after by blast
  also have "ep_view {e \<in> set (eps s). PE_URL e \<notin> ea_URL ` set ?as}
      = {x \<in> ep_view (set (eps s)). fst x \<in> CE_URL ` set doc \<and> fst x \<notin> ea_URL ` set (plan_mentioned (eps s) doc)}"
    unfolding urls by (auto simp: ep_view_def)
  also have "\<dots> = {x \<in> doc_view doc. fst x \<notin> ea_URL ` set (plan_mentioned (eps s) doc)}"
    using quiet_view [OF inj _ _ assms(3)] doc_view_fst by blast
  finally show "ep_view (set (eps s')) = doc_view doc"
    unfolding result using plan_mentioned_covers [OF assms(3)] plan_mentioned_result by blast
qed

text \<open>Whether or not two endpoints share a URL, the URLs afterwards are the document's.\<close>

lemma apply_append:
  assumes "apply_endpoints p org (as @ bs) s = (Inr secrets, s')"
  shows "\<exists>x s1 y. apply_endpoints p org as s = (Inr x, s1) \<and> apply_endpoints p org bs s1 = (Inr y, s')"
  using assms
proof (induction as arbitrary: s secrets)
  case (Cons a as)
  then show ?case by (fastforce simp: attempt_Inr_iff split: if_splits)
qed simp

definition same_ids :: "PortedEndpoint list \<Rightarrow> 's \<Rightarrow> bool" where
  "same_ids es s \<longleftrightarrow> (\<forall>e \<in> set es. \<exists>e' \<in> set (eps s). PE_ID e' = PE_ID e \<and> PE_URL e' = PE_URL e)"

lemma mentioned_urls:
  assumes "invar s" and "same_ids es s" and "CE_URL ` set doc \<subseteq> D"
    and "apply_endpoints p org (plan_mentioned es doc) s = (Inr secrets, s')"
  shows "invar s' \<and> {e \<in> set (eps s'). PE_URL e \<notin> D} = {e \<in> set (eps s). PE_URL e \<notin> D}
    \<and> CE_URL ` set doc \<union> PE_URL ` set (eps s) \<subseteq> PE_URL ` set (eps s')"
  using assms
proof (induction doc arbitrary: s secrets)
  case Nil
  then show ?case by simp
next
  case (Cons d doc)
  have D: "CE_URL d \<in> D" "CE_URL ` set doc \<subseteq> D" using Cons.prems(3) by auto
  have ids: "distinct (map PE_ID (eps s))" by (rule port_ids [OF Cons.prems(1)])
  show ?case
  proof (cases "existingByURL es (CE_URL d)")
    case None
    then obtain c s1 rest where 1: "port_CreateEndpoint p org (CE_URL d) (CE_EventTypes d) s = (Inr c, s1)"
      and 2: "apply_endpoints p org (plan_mentioned es doc) s1 = (Inr rest, s')"
      using Cons.prems(4) by (auto simp: attempt_Inr_iff)
    note r = port_create [OF Cons.prems(1) 1]
    have "same_ids es s1" using Cons.prems(2) r by (auto simp: same_ids_def)
    from Cons.IH [OF conjunct1 [OF r] this D(2) 2] show ?thesis using r D(1) by (auto simp: set_eq_iff)
  next
    case (Some e)
    then have e: "e \<in> set es" "PE_URL e = CE_URL d" using existingByURL_Some by blast+
    then obtain e' where e': "e' \<in> set (eps s)" "PE_ID e' = PE_ID e" "PE_URL e' = CE_URL d"
      using Cons.prems(2) by (auto simp: same_ids_def)
    have there: "CE_URL d \<in> PE_URL ` set (eps s)" using imageI [OF e'(1), of PE_URL] e'(3) by simp
    show ?thesis
    proof (cases "stringsEqual (elems (PE_EventTypes e)) (elems (CE_EventTypes d))")
      case True
      then have "apply_endpoints p org (plan_mentioned es doc) s = (Inr secrets, s')" using Cons.prems(4) Some by simp
      from Cons.IH [OF Cons.prems(1,2) D(2) this] show ?thesis using there unfolding list.set image_insert by blast
    next
      case False
      then obtain u s1 where 1: "port_UpdateEndpoint p org (PE_ID e) (CE_URL d) (CE_EventTypes d) s = (Inr u, s1)"
        and 2: "apply_endpoints p org (plan_mentioned es doc) s1 = (Inr secrets, s')"
        using Cons.prems(4) Some by (auto simp: attempt_Inr_iff)
      note r = port_update [OF Cons.prems(1) 1]
      have only: "x = e'" if "x \<in> set (eps s)" "PE_ID x = PE_ID e" for x
        using that e'(1,2) ids by (metis distinct_map inj_onD)
      let ?f = "\<lambda>x. if PE_ID x = PE_ID e then \<lparr>PE_ID = PE_ID e, PE_URL = CE_URL d, PE_EventTypes = CE_EventTypes d\<rparr> else x"
      have s1: "set (eps s1) = ?f ` set (eps s)" using r by blast
      have fid: "PE_ID (?f x) = PE_ID x" for x by simp
      have furl: "PE_URL (?f x) = PE_URL x" if "x \<in> set (eps s)" for x
        using only [OF that] e'(3) by (cases "PE_ID x = PE_ID e") simp_all
      have urls: "PE_URL ` set (eps s1) = PE_URL ` set (eps s)"
        unfolding s1 image_image by (rule image_cong [OF refl furl])
      have "same_ids es s1"
        unfolding same_ids_def
      proof
        fix x assume "x \<in> set es"
        then obtain x' where x': "x' \<in> set (eps s)" "PE_ID x' = PE_ID x" "PE_URL x' = PE_URL x"
          using Cons.prems(2) unfolding same_ids_def by blast
        show "\<exists>x' \<in> set (eps s1). PE_ID x' = PE_ID x \<and> PE_URL x' = PE_URL x"
          unfolding s1 by (rule bexI [OF _ imageI [OF x'(1)]]) (rule conjI [OF trans [OF fid x'(2)] trans [OF furl [OF x'(1)] x'(3)]])
      qed
      note ih = Cons.IH [OF conjunct1 [OF r] this D(2) 2]
      have fix': "?f x = x" if "x \<in> set (eps s)" "PE_URL x \<notin> D" for x
        using only [OF that(1)] that(2) e'(3) D(1) by (cases "PE_ID x = PE_ID e") simp_all
      have "{e \<in> set (eps s1). PE_URL e \<notin> D} = {e \<in> set (eps s). PE_URL e \<notin> D}"
      proof (intro set_eqI iffI)
        fix x assume "x \<in> {e \<in> set (eps s1). PE_URL e \<notin> D}"
        then obtain y where y: "y \<in> set (eps s)" "x = ?f y" "PE_URL x \<notin> D" unfolding s1 by blast
        then have "PE_URL y \<notin> D" using furl [OF y(1)] by metis
        from fix' [OF y(1) this] have "x = y" by (rule trans [OF y(2)])
        then show "x \<in> {e \<in> set (eps s). PE_URL e \<notin> D}" using y(1,3) by blast
      next
        fix x assume x: "x \<in> {e \<in> set (eps s). PE_URL e \<notin> D}"
        then have m: "x \<in> set (eps s)" "PE_URL x \<notin> D" by blast+
        have "x \<in> set (eps s1)" unfolding s1 by (rule image_eqI [where f = ?f, OF sym [OF fix' [OF m]] m(1)])
        then show "x \<in> {e \<in> set (eps s1). PE_URL e \<notin> D}" using m(2) by blast
      qed
      note rest = this
      have "CE_URL ` set doc \<union> PE_URL ` set (eps s) \<subseteq> PE_URL ` set (eps s')"
        using conjunct2 [OF conjunct2 [OF ih]] unfolding urls .
      then have "CE_URL ` set (d # doc) \<union> PE_URL ` set (eps s) \<subseteq> PE_URL ` set (eps s')" using there by auto
      then show ?thesis using conjunct1 [OF ih] trans [OF conjunct1 [OF conjunct2 [OF ih]] rest] by (intro conjI)
    qed
  qed
qed

lemma deletes_urls:
  assumes "invar s" and "apply_endpoints p org (plan_deletes es doc) s = (Inr secrets, s')"
  shows "invar s' \<and> set (eps s') = {e \<in> set (eps s). PE_ID e \<notin> PE_ID ` {x \<in> set es. PE_URL x \<notin> CE_URL ` set doc}}"
  using assms
proof (induction es arbitrary: s secrets)
  case Nil
  then show ?case by simp
next
  case (Cons x es)
  show ?case
  proof (cases "PE_URL x \<in> CE_URL ` set doc")
    case True
    then have eq: "{y \<in> set (x # es). PE_URL y \<notin> CE_URL ` set doc} = {y \<in> set es. PE_URL y \<notin> CE_URL ` set doc}" by auto
    show ?thesis unfolding eq using Cons.prems True by (intro Cons.IH) simp_all
  next
    case False
    then have eq: "{y \<in> set (x # es). PE_URL y \<notin> CE_URL ` set doc} = insert x {y \<in> set es. PE_URL y \<notin> CE_URL ` set doc}" by auto
    obtain u s1 where 1: "port_DeleteEndpoint p org (PE_ID x) s = (Inr u, s1)"
      and 2: "apply_endpoints p org (plan_deletes es doc) s1 = (Inr secrets, s')"
      using Cons.prems(2) False by (auto simp: attempt_Inr_iff)
    note r = port_delete [OF Cons.prems(1) 1]
    from Cons.IH [OF conjunct1 [OF r] 2] r show ?thesis unfolding eq by auto
  qed
qed

lemma replace_urls:
  assumes "invar s" and "apply_endpoints p org (planEndpoints (eps s) doc ImportModeReplace) s = (Inr secrets, s')"
  shows "PE_URL ` set (eps s') = CE_URL ` set doc"
proof -
  let ?D = "CE_URL ` set doc"
  obtain x s1 y where 1: "apply_endpoints p org (plan_mentioned (eps s) doc) s = (Inr x, s1)"
    and 2: "apply_endpoints p org (plan_deletes (eps s) doc) s1 = (Inr y, s')"
    using apply_append assms(2) by (force simp: planEndpoints_def)
  have "same_ids (eps s) s" by (auto simp: same_ids_def)
  note m = mentioned_urls [OF assms(1) this subset_refl 1]
  note d = deletes_urls [OF conjunct1 [OF m] 2]
  have keep: "{e \<in> set (eps s1). PE_URL e \<notin> ?D} = {e \<in> set (eps s). PE_URL e \<notin> ?D}" using m by blast
  have ids: "distinct (map PE_ID (eps s1))" using port_ids m by blast
  have "e \<in> set (eps s') \<longleftrightarrow> e \<in> set (eps s1) \<and> PE_URL e \<in> ?D" for e
  proof -
    have "PE_ID e \<in> PE_ID ` {e \<in> set (eps s1). PE_URL e \<notin> ?D} \<longleftrightarrow> PE_URL e \<notin> ?D" if "e \<in> set (eps s1)"
    proof
      assume "PE_ID e \<in> PE_ID ` {e \<in> set (eps s1). PE_URL e \<notin> ?D}"
      then obtain z where "z \<in> set (eps s1)" "PE_URL z \<notin> ?D" "PE_ID e = PE_ID z" by blast
      moreover from this have "z = e" using that ids by (metis distinct_map inj_onD)
      ultimately show "PE_URL e \<notin> ?D" by simp
    qed (use that in blast)
    then show ?thesis using d unfolding keep by blast
  qed
  then have "set (eps s') = {e \<in> set (eps s1). PE_URL e \<in> ?D}" by blast
  then have "PE_URL ` set (eps s') = PE_URL ` set (eps s1) \<inter> ?D" by auto
  moreover have "?D \<subseteq> PE_URL ` set (eps s1)" using m by blast
  ultimately show ?thesis by blast
qed

end

section \<open>Properties of the import\<close>

lemma keeps_zoom_read: "(\<And>s. snd (m s) = s) \<Longrightarrow> snd (zoom ow_store ow_store_update m w) = w"
  by simp

lemma org_memory_reads [simp]:
  "snd (org_governance_FindByOrg (org_memory_facade p known) org w) = w"
  "snd (org_integrations_IntegrationExists (org_memory_facade p known) i w) = w"
  by (simp_all add: org_memory_facade_def org_mem_FindByOrg_def)

lemma keeps_id_GetGovernance: "keeps (\<lambda>w. w) (org_GetGovernance (org_memory_facade p known) org)"
  unfolding org_GetGovernance_def
  by (intro keeps_attempt keepsI) (auto split: option.split)

lemma keeps_id_GetRetention: "keeps (\<lambda>w. w) (org_GetRetention (org_memory_facade p known) org)"
  unfolding org_GetRetention_def by (intro keeps_attempt keeps_id_GetGovernance) simp

lemma keeps_id_warn_unknown: "keeps (\<lambda>w. w) (warn_unknown (org_memory_facade p known) ids)"
proof (induction ids)
  case (Cons i ids)
  have "keeps (\<lambda>w. w) (org_integrations_IntegrationExists (org_memory_facade p known) i)"
    by (rule keepsI) simp
  with Cons.IH show ?case by (simp add: keeps_attempt)
next
  case Nil
  show ?case by (simp only: warn_unknown.simps keeps_ok)
qed

lemma keeps_id_list:
  assumes "\<And>org s. snd (port_ListEndpoints p org s) = s"
  shows "keeps (\<lambda>w. w) (port_ListEndpoints (org_endpointPorter (org_memory_facade p known)) org)"
  using assms by (intro keepsI) (simp add: org_memory_facade_def zoom_porter_def)

text \<open>
  A dry-run import, whatever its document and mode, and an import whose schema version is
  unknown, change nothing: the governance, the retention and the endpoints stay as they were.
\<close>

theorem dry_run_writes_nothing:
  assumes "\<And>org s. snd (port_ListEndpoints p org s) = s"
    and "IO_DryRun opts \<or> CD_SchemaVersion document \<noteq> CurrentConfigSchemaVersion"
  shows "snd (org_ImportConfig (org_memory_facade p known) org document opts w) = w"
proof (cases "IO_DryRun opts")
  case True
  then have "keeps (\<lambda>w. w) (org_ImportConfig (org_memory_facade p known) org document opts)"
    unfolding org_ImportConfig_def unknownIntegrationWarnings_def Let_def
    by (intro keeps_check keeps_attempt keeps_id_GetGovernance keeps_id_GetRetention
        keeps_id_warn_unknown keeps_id_list assms(1) keeps_lift) simp
  from keepsD [OF this] show ?thesis .
next
  case False
  then show ?thesis using assms(2) by (simp add: org_ImportConfig_def ValidateConfigSchemaVersion_def)
qed

text \<open>
  Governance and retention are two halves of one row, and setting one keeps the other:
  after \<open>SetGovernance\<close> the organization's retention is what it was and its visibility is what
  was asked for; after \<open>SetRetention\<close> its visibility is what it was and its retention is what
  was asked for; another organization's row is not touched by either, and a rejected update
  changes nothing.
\<close>

theorem governance_halves_independent:
  assumes "org_store_inv (ow_store w)"
    and "\<forall>g \<in> set (rows (os_governanceByOrg (ow_store w))). valid_governance g"
    and "org_SetGovernance (org_memory_facade p known) org gu w = (r, w1)"
    and "org_SetRetention (org_memory_facade p known) org ru w = (r', w2)"
  shows "(case r of Inl e \<Rightarrow> mem_gov.current w1 = mem_gov.current w
          | Inr g \<Rightarrow> mem_gov.current w1 = (mem_gov.current w)(org := g)
              \<and> Gov_LogRetentionDays g = Gov_LogRetentionDays (mem_gov.current w org)
              \<and> Gov_EventRetentionDays g = Gov_EventRetentionDays (mem_gov.current w org)
              \<and> Gov_AllowList g = GU_AllowList gu \<and> Gov_Hidden g = GU_Hidden gu
              \<and> Gov_Featured g = GU_Featured gu \<and> int (length (Gov_Featured g)) \<le> Gov_FeaturedCap g)
       \<and> (case r' of Inl e \<Rightarrow> mem_gov.current w2 = mem_gov.current w
          | Inr v \<Rightarrow> mem_gov.current w2 = (mem_gov.current w)(org := (mem_gov.current w org)
              \<lparr>Gov_LogRetentionDays := RU_LogRetentionDays ru,
               Gov_EventRetentionDays := RU_EventRetentionDays ru\<rparr>))"
proof -
  have k: "mem_gov.keyed_gov w"
    using assms(1,2) keyed_lookup [of Gov_OrgID "os_governanceByOrg (ow_store w)"]
    by (force simp: mem_gov.keyed_gov_def org_store_inv_def dest: map_of_SomeD)
  have cur: "mem_gov.current v = mem_gov.current w"
    if "map_of (os_governanceByOrg (ow_store v)) = map_of (os_governanceByOrg (ow_store w))" for v
    using that by (simp add: fun_eq_iff mem_gov.current_def)
  have upd: "mem_gov.current v = (mem_gov.current w)(org := g)"
    if "map_of (os_governanceByOrg (ow_store v)) = (map_of (os_governanceByOrg (ow_store w)))(org \<mapsto> g)"
    for v g
    using that by (simp add: fun_eq_iff mem_gov.current_def)
  show ?thesis
  proof (rule conjI)
    show "case r of Inl e \<Rightarrow> mem_gov.current w1 = mem_gov.current w
          | Inr g \<Rightarrow> mem_gov.current w1 = (mem_gov.current w)(org := g)
              \<and> Gov_LogRetentionDays g = Gov_LogRetentionDays (mem_gov.current w org)
              \<and> Gov_EventRetentionDays g = Gov_EventRetentionDays (mem_gov.current w org)
              \<and> Gov_AllowList g = GU_AllowList gu \<and> Gov_Hidden g = GU_Hidden gu
              \<and> Gov_Featured g = GU_Featured gu \<and> int (length (Gov_Featured g)) \<le> Gov_FeaturedCap g"
    proof (cases r)
      case (Inl e)
      with assms(3) show ?thesis using mem_gov.set_governance_error cur by fastforce
    next
      case (Inr g)
      note s = mem_gov.set_governance_ok [OF assms(3) [unfolded Inr]]
      have "int (length (Gov_Featured g)) \<le> Gov_FeaturedCap g"
        using s(2) by (simp add: valid_governance_def)
      then show ?thesis using Inr upd [OF s(1)] s(3) by simp
    qed
    show "case r' of Inl e \<Rightarrow> mem_gov.current w2 = mem_gov.current w
          | Inr v \<Rightarrow> mem_gov.current w2 = (mem_gov.current w)(org := (mem_gov.current w org)
              \<lparr>Gov_LogRetentionDays := RU_LogRetentionDays ru,
               Gov_EventRetentionDays := RU_EventRetentionDays ru\<rparr>)"
    proof (cases r')
      case (Inl e)
      with assms(4) show ?thesis using mem_gov.set_retention_error cur by fastforce
    next
      case (Inr v)
      show ?thesis using Inr upd [OF mem_gov.set_retention_ok(1) [OF k assms(4) [unfolded Inr]]] by simp
    qed
  qed
qed

section \<open>Examples\<close>

definition no_endpoints :: "'e EndpointPorter" where
  "no_endpoints = \<lparr>port_ListEndpoints = (\<lambda>_. ok []),
     port_CreateEndpoint = (\<lambda>_ _ _. fail (OtherError ''none'')),
     port_UpdateEndpoint = (\<lambda>_ _ _ _. ok ()), port_DeleteEndpoint = (\<lambda>_ _. ok ())\<rparr>"

definition org_demo :: "unit org_world" where
  "org_demo = \<lparr>ow_store = \<lparr>os_byID = [],
       os_usersByID = [(i, \<lparr>User_ID = i, User_OrgID = ''org_1'', User_Name = ''n'', User_ExternalID = [],
          User_CreatedAt = 5\<rparr>). i \<leftarrow> [''user_1'', ''user_2'', ''user_3'']],
       os_governanceByOrg = [(''org_1'', NewDefaultGovernance ''org_1'')]\<rparr>,
     ow_orgs_minted = 1, ow_users_minted = 3, ow_now = 9, ow_endpoints = ()\<rparr>"

lemma org_demo_inv: "org_store_inv (ow_store org_demo)"
  by (simp add: org_store_inv_def org_demo_def keyed_def NewDefaultGovernance_def)

lemma ListUsers_complete_witness:
  "read_pages (ListUsers_page (org_memory_facade no_endpoints (\<lambda>_. True)) ''org_1'' org_demo 1) 4 []
     = Inr (users_of (ow_store org_demo) ''org_1'')
   \<and> length (users_of (ow_store org_demo) ''org_1'') = 3"
proof -
  have l: "length (users_of (ow_store org_demo) ''org_1'') = 3" by code_simp
  have "cursor_key (5, ''user_1'')" "cursor_key (5, ''user_2'')" "cursor_key (5, ''user_3'')" by code_simp+
  then have "\<forall>u \<in> set (users_of (ow_store org_demo) ''org_1''). cursor_key (user_key u)"
    by (auto simp: users_of_def user_listing_def org_demo_def user_key_def)
  with l ListUsers_complete [OF org_demo_inv, of "''org_1''" 4 no_endpoints "\<lambda>_. True" 1] show ?thesis by simp
qed

definition demo_document :: ConfigDocument where
  "demo_document = \<lparr>CD_SchemaVersion = 1,
     CD_Governance = \<lparr>CG_AllowList = None, CG_Hidden = [''github''], CG_Featured = [], CG_FeaturedCap = 4\<rparr>,
     CD_Endpoints = [\<lparr>CE_URL = ''https://a.example'', CE_EventTypes = None\<rparr>],
     CD_Retention = \<lparr>CR_LogRetentionDays = Some 30, CR_EventRetentionDays = None\<rparr>\<rparr>"

lemma dry_run_writes_nothing_witness:
  "snd (org_ImportConfig (org_memory_facade no_endpoints (\<lambda>_. True)) ''org_1'' demo_document
     \<lparr>IO_DryRun = True, IO_Mode = ''replace''\<rparr> org_demo) = org_demo"
  by (rule dry_run_writes_nothing) (simp_all add: no_endpoints_def)

lemma governance_halves_independent_witness:
  "\<exists>g w1. org_SetGovernance (org_memory_facade no_endpoints (\<lambda>_. True)) ''org_1''
       \<lparr>GU_AllowList = None, GU_Hidden = [''github''], GU_Featured = [], GU_FeaturedCap = 4\<rparr> org_demo = (Inr g, w1)
     \<and> mem_gov.current w1 = (mem_gov.current org_demo)(''org_1'' := g)"
proof -
  let ?u = "\<lparr>GU_AllowList = None, GU_Hidden = [''github''], GU_Featured = [], GU_FeaturedCap = 4\<rparr>"
  let ?r = "\<lparr>RU_LogRetentionDays = Some 30, RU_EventRetentionDays = None\<rparr>"
  let ?F = "org_memory_facade no_endpoints (\<lambda>_. True) :: unit org_world org_facade"
  obtain g w1 where 1: "org_SetGovernance ?F ''org_1'' ?u org_demo = (Inr g, w1)"
    by (simp add: org_SetGovernance_def org_GetGovernance_def act_simps org_memory_facade_def org_demo_def
        org_mem_FindByOrg_def NewGovernance_def NewDefaultGovernance_def WithRetention_def validateRetentionWindow_def
        org_mem_SaveGovernance_def)
  obtain r' w2 where 2: "org_SetRetention ?F ''org_1'' ?r org_demo = (r', w2)" by fastforce
  have "\<forall>g \<in> set (rows (os_governanceByOrg (ow_store org_demo))). valid_governance g"
    by (simp add: org_demo_def NewDefaultGovernance_valid)
  from governance_halves_independent [OF org_demo_inv this 1 2] 1 show ?thesis by auto
qed

end
