(* ===== verification/DeliveryMemory.thy ===== *)
theory DeliveryMemory
  imports Delivery OrgConfig AccessMemory
begin

text \<open>
  The in-memory adapter of the delivery ports (\<open>driven/memory/repository.go\<close>), the facade that
  \<open>driven/memory/configuration.go\<close> builds over it, with the access facade as its secret issuer, and
  the endpoint porter of \<open>internal/app/endpoint_porter.go\<close> that the configuration import uses.
\<close>

section \<open>The repository\<close>

record eventRecord =
  er_event :: Event
  er_leaseUntil :: "time option"

record dlv_store =
  ds_endpoints :: "(EndpointID, Endpoint) table"
  ds_events :: "(EventID, eventRecord) table"

definition dlv_NewRepository :: dlv_store where
  "dlv_NewRepository = \<lparr>ds_endpoints = [], ds_events = []\<rparr>"

definition dlv_mem_SaveEndpoint :: "Endpoint \<Rightarrow> (dlv_store, unit) act" where
  "dlv_mem_SaveEndpoint endpoint r =
     (Inr (), r\<lparr>ds_endpoints := put (EP_ID endpoint) endpoint (ds_endpoints r)\<rparr>)"

definition endpointsForOrg :: "(EndpointID, Endpoint) table \<Rightarrow> OrgID \<Rightarrow> Endpoint list" where
  "endpointsForOrg all org = filter (\<lambda>e. EP_OrgID e = org) (rows all)"

definition ep_key :: "Endpoint \<Rightarrow> time \<times> EndpointID" where
  "ep_key e = (EP_CreatedAt e, EP_ID e)"

definition sortEndpointsOldestFirst :: "Endpoint list \<Rightarrow> Endpoint list" where
  "sortEndpointsOldestFirst endpoints = oldest_first_by ep_key endpoints"

definition dlv_mem_FindEndpoint :: "OrgID \<Rightarrow> (dlv_store, Endpoint option) act" where
  "dlv_mem_FindEndpoint org r =
     (let endpoints = endpointsForOrg (ds_endpoints r) org in
      if length endpoints = 0 then (Inr None, r)
      else (Inr (Some (sortEndpointsOldestFirst endpoints ! 0)), r))"

definition dlv_mem_FindEndpointByID :: "OrgID \<Rightarrow> EndpointID \<Rightarrow> (dlv_store, Endpoint option) act" where
  "dlv_mem_FindEndpointByID org i r =
     (case map_of (ds_endpoints r) i of
        None \<Rightarrow> (Inr None, r)
      | Some endpoint \<Rightarrow> if EP_OrgID endpoint \<noteq> org then (Inr None, r) else (Inr (Some endpoint), r))"

definition dlv_mem_ListEndpoints :: "OrgID \<Rightarrow> (dlv_store, Endpoint list) act" where
  "dlv_mem_ListEndpoints org r = (Inr (sortEndpointsOldestFirst (endpointsForOrg (ds_endpoints r) org)), r)"

definition dlv_mem_DeleteEndpoint :: "OrgID \<Rightarrow> EndpointID \<Rightarrow> (dlv_store, unit) act" where
  "dlv_mem_DeleteEndpoint org i r =
     (case map_of (ds_endpoints r) i of
        None \<Rightarrow> (Inr (), r)
      | Some endpoint \<Rightarrow>
          if EP_OrgID endpoint = org then (Inr (), r\<lparr>ds_endpoints := del i (ds_endpoints r)\<rparr>)
          else (Inr (), r))"

definition dlv_mem_SaveEvent :: "Event \<Rightarrow> (dlv_store, unit) act" where
  "dlv_mem_SaveEvent event r =
     (Inr (), r\<lparr>ds_events := put (Ev_ID event) \<lparr>er_event = event, er_leaseUntil = None\<rparr> (ds_events r)\<rparr>)"

definition dlv_mem_FindEvent :: "OrgID \<Rightarrow> EventID \<Rightarrow> (dlv_store, Event option) act" where
  "dlv_mem_FindEvent org i r =
     (case map_of (ds_events r) i of
        None \<Rightarrow> (Inr None, r)
      | Some record \<Rightarrow>
          if Ev_OrgID (er_event record) \<noteq> org then (Inr None, r) else (Inr (Some (er_event record)), r))"

definition isAfterCursorInNewestFirstOrder :: "Event \<Rightarrow> EventListCursor \<Rightarrow> bool" where
  "isAfterCursorInNewestFirstOrder event cursor =
     (if Ev_CreatedAt event < fst cursor then True
      else if Ev_CreatedAt event = fst cursor then Ev_ID event < snd cursor
      else False)"

definition matchesEventFilter :: "Event \<Rightarrow> OrgID \<Rightarrow> EventListFilter \<Rightarrow> bool" where
  "matchesEventFilter event org flt =
     (if Ev_OrgID event \<noteq> org then False
      else if LF_Type flt \<noteq> [] \<and> Ev_Type event \<noteq> LF_Type flt then False
      else if LF_DeliveryStatus flt \<noteq> [] \<and> status_text (Ev_Status event) \<noteq> LF_DeliveryStatus flt then False
      else (case LF_Cursor flt of
              None \<Rightarrow> True
            | Some cursor \<Rightarrow> isAfterCursorInNewestFirstOrder event cursor))"

definition ev_key :: "Event \<Rightarrow> time_id" where
  "ev_key e = (Ev_CreatedAt e, Ev_ID e)"

definition sortEventsNewestFirst :: "Event list \<Rightarrow> Event list" where
  "sortEventsNewestFirst events = newest_first ev_key events"

definition dlv_mem_ListEventsPage :: "OrgID \<Rightarrow> EventListFilter \<Rightarrow> (dlv_store, Event list) act" where
  "dlv_mem_ListEventsPage org flt r =
     (let ms = sortEventsNewestFirst
            (filter (\<lambda>e. matchesEventFilter e org flt) (map er_event (rows (ds_events r))))
      in (Inr (if LF_Limit flt > 0 \<and> int (length ms) > LF_Limit flt then take (nat (LF_Limit flt)) ms else ms), r))"

text \<open>
  \<open>ClaimDue\<close> sorts by creation time alone; between events created at the same instant Go's map
  order and unstable sort may choose any, the model keeps the table's. The theorems about it hold
  for every table, hence for every choice.
\<close>

definition isDueForClaim :: "eventRecord \<Rightarrow> time \<Rightarrow> bool" where
  "isDueForClaim record now =
     (if Ev_Status (er_event record) \<noteq> StatusPending then False
      else if Ev_NextAttemptAt (er_event record) > now then False
      else (case er_leaseUntil record of None \<Rightarrow> True | Some t \<Rightarrow> \<not> t > now))"

definition dlv_mem_ClaimDue :: "time \<Rightarrow> duration \<Rightarrow> int \<Rightarrow> (dlv_store, Event list) act" where
  "dlv_mem_ClaimDue now leaseTTL limit r =
     (let due = sort_key (\<lambda>p. Ev_CreatedAt (er_event (snd p))) (filter (\<lambda>p. isDueForClaim (snd p) now) (ds_events r));
          due = (if int (length due) > limit then take (nat limit) due else due);
          leaseUntil = now + leaseTTL
      in (Inr (map (\<lambda>p. er_event (snd p)) due),
          r\<lparr>ds_events := map (\<lambda>p. if p \<in> set due then (fst p, (snd p)\<lparr>er_leaseUntil := Some leaseUntil\<rparr>) else p)
                          (ds_events r)\<rparr>))"

fun pending_scan :: "int \<Rightarrow> time \<Rightarrow> eventRecord list \<Rightarrow> int \<times> time" where
  "pending_scan depth oldest [] = (depth, oldest)"
| "pending_scan depth oldest (record # records) =
     (if Ev_Status (er_event record) \<noteq> StatusPending then pending_scan depth oldest records
      else pending_scan (depth + 1)
             (if oldest = zero_time \<or> Ev_CreatedAt (er_event record) < oldest
              then Ev_CreatedAt (er_event record) else oldest) records)"

definition dlv_mem_PendingDepthAndOldestAge :: "time \<Rightarrow> (dlv_store, int \<times> duration) act" where
  "dlv_mem_PendingDepthAndOldestAge now r =
     (case pending_scan 0 zero_time (rows (ds_events r)) of
        (depth, oldest) \<Rightarrow> if depth = 0 then (Inr (0, 0), r) else (Inr (depth, now - oldest), r))"

definition purgeable :: "OrgID \<Rightarrow> time \<Rightarrow> Event \<Rightarrow> bool" where
  "purgeable org cutoff event =
     (if Ev_OrgID event \<noteq> org then False
      else if \<not> IsTerminal (Ev_Status event) then False
      else if \<not> Ev_CreatedAt event < cutoff then False
      else True)"

definition dlv_mem_PurgeTerminalOlderThan :: "OrgID \<Rightarrow> time \<Rightarrow> (dlv_store, int) act" where
  "dlv_mem_PurgeTerminalOlderThan org cutoff r =
     (Inr (int (length (filter (\<lambda>p. purgeable org cutoff (er_event (snd p))) (ds_events r)))),
      r\<lparr>ds_events := filter (\<lambda>p. \<not> purgeable org cutoff (er_event (snd p))) (ds_events r)\<rparr>)"

section \<open>The facade over it\<close>

text \<open>
  The world: the repository, the access world that issues the secrets, the id counters, the clock,
  and what happens outside. The receivers' answers are a tape, so that the theorems hold whatever they
  answer (an empty tape is a receiver that cannot be reached); \<open>dw_posts\<close> is what they were sent,
  \<open>dw_log\<close> what was recorded.
\<close>

record dlv_world =
  dw_store :: dlv_store
  dw_access :: acc_world
  dw_endpoints_minted :: nat
  dw_events_minted :: nat
  dw_now :: time
  dw_responses :: "(int \<times> go_error option) list"
  dw_posts :: "(string \<times> (string \<times> string) list \<times> string) list"
  dw_log :: "DeliveryLogEntry list"
  dw_retention :: "(OrgID \<times> int) list"

definition receiver_Post ::
  "string \<Rightarrow> (string \<times> string) list \<Rightarrow> string \<Rightarrow> duration \<Rightarrow> dlv_world \<Rightarrow> (int \<times> go_error option) \<times> dlv_world"
where
  "receiver_Post url headers body timeout w =
     (case dw_responses w of
        [] \<Rightarrow> ((0, Some (OtherError ''unreachable'')), w\<lparr>dw_posts := dw_posts w @ [(url, headers, body)]\<rparr>)
      | a # as \<Rightarrow> (a, w\<lparr>dw_responses := as, dw_posts := dw_posts w @ [(url, headers, body)]\<rparr>))"

abbreviation on_dlv :: "(dlv_store, 'a) act \<Rightarrow> (dlv_world, 'a) act" where
  "on_dlv m \<equiv> zoom dw_store dw_store_update m"

abbreviation on_access :: "(acc_world, 'a) act \<Rightarrow> (dlv_world, 'a) act" where
  "on_access m \<equiv> zoom dw_access dw_access_update m"

definition world_retention :: "dlv_world RetentionReader" where
  "world_retention =
     \<lparr>rr_ListOrgIDs = (\<lambda>w. (Inr (map fst (dw_retention w)), w)),
      rr_EffectiveEventRetentionDays = (\<lambda>org w.
        (case map_of (dw_retention w) org of
           None \<Rightarrow> (Inl (OtherError ''organization''), w)
         | Some d \<Rightarrow> (Inr d, w)))\<rparr>"

definition defaultTestDeliveryTimeout :: duration where
  "defaultTestDeliveryTimeout = 10 * second"

definition defaultTestEndpointCap :: int where
  "defaultTestEndpointCap = 5"

definition defaultTestAutoDisableThreshold :: int where
  "defaultTestAutoDisableThreshold = 5"

record dlv_overrides =
  DO_DeliveryTimeout :: duration
  DO_EndpointCap :: int
  DO_AutoDisableThreshold :: int
  DO_Jitter :: "rat option"

definition dlv_memory_facade :: "crypto \<Rightarrow> dlv_overrides \<Rightarrow> dlv_world dlv_facade" where
  "dlv_memory_facade c o' =
     \<lparr>dlv_repo_SaveEndpoint = (\<lambda>e. on_dlv (dlv_mem_SaveEndpoint e)),
      dlv_repo_FindEndpoint = (\<lambda>org. on_dlv (dlv_mem_FindEndpoint org)),
      dlv_repo_FindEndpointByID = (\<lambda>org i. on_dlv (dlv_mem_FindEndpointByID org i)),
      dlv_repo_ListEndpoints = (\<lambda>org. on_dlv (dlv_mem_ListEndpoints org)),
      dlv_repo_DeleteEndpoint = (\<lambda>org i. on_dlv (dlv_mem_DeleteEndpoint org i)),
      dlv_repo_SaveEvent = (\<lambda>e. on_dlv (dlv_mem_SaveEvent e)),
      dlv_repo_FindEvent = (\<lambda>org i. on_dlv (dlv_mem_FindEvent org i)),
      dlv_repo_ListEventsPage = (\<lambda>org flt. on_dlv (dlv_mem_ListEventsPage org flt)),
      dlv_repo_PurgeTerminalOlderThan = (\<lambda>org t. on_dlv (dlv_mem_PurgeTerminalOlderThan org t)),
      dlv_workQueue_ClaimDue = (\<lambda>now ttl n. on_dlv (dlv_mem_ClaimDue now ttl n)),
      dlv_secrets_IssueWebhookSecret = (\<lambda>org e. on_access (acc_IssueWebhookSecret (acc_memory_facade c) org e)),
      dlv_secrets_RotateWebhookSecret =
        (\<lambda>org e h. on_access (acc_RotateWebhookSecret (acc_memory_facade c) org e h)),
      dlv_secrets_ActiveWebhookSecrets =
        (\<lambda>org e. on_access (acc_ActiveWebhookSecrets (acc_memory_facade c) org e)),
      dlv_secrets_WebhookSecretPrefix =
        (\<lambda>org e. on_access (acc_WebhookSecretPrefix (acc_memory_facade c) org e)),
      dlv_caller_Post = receiver_Post,
      dlv_recorder = Some (\<lambda>entry w. (Inr (), w\<lparr>dw_log := dw_log w @ [entry]\<rparr>)),
      dlv_metrics = None,
      dlv_outboxStats = Some (\<lambda>now. on_dlv (dlv_mem_PendingDepthAndOldestAge now)),
      dlv_retention = Some world_retention,
      dlv_crypto = c,
      dlv_newEndpointID = zoom dw_endpoints_minted dw_endpoints_minted_update
        (\<lambda>n. (sequential_id ''wep_'' n, Suc n)),
      dlv_newEventID = zoom dw_events_minted dw_events_minted_update
        (\<lambda>n. (sequential_id ''evt_'' n, Suc n)),
      dlv_deliveryTimeout =
        (if DO_DeliveryTimeout o' \<le> 0 then defaultTestDeliveryTimeout else DO_DeliveryTimeout o'),
      dlv_endpointCap = (if DO_EndpointCap o' \<le> 0 then defaultTestEndpointCap else DO_EndpointCap o'),
      dlv_autoDisableThreshold =
        (if DO_AutoDisableThreshold o' \<le> 0 then defaultTestAutoDisableThreshold else DO_AutoDisableThreshold o'),
      dlv_jitter = (\<lambda>w. ((case DO_Jitter o' of None \<Rightarrow> 1 / 2 | Some j \<Rightarrow> j), w)),
      dlv_nudge = (\<lambda>w. w),
      dlv_now = (\<lambda>w. (dw_now w, w))\<rparr>"

section \<open>The endpoint porter (app/endpoint_porter.go)\<close>

definition endpointPorterAdapter :: "'s dlv_facade \<Rightarrow> 's EndpointPorter" where
  "endpointPorterAdapter f =
     \<lparr>port_ListEndpoints = (\<lambda>org.
        attempt (dlv_ListEndpoints f org) (\<lambda>items.
        ok (map (\<lambda>item. \<lparr>PE_ID = ELI_ID item, PE_URL = ELI_URL item, PE_EventTypes = ELI_EventTypes item\<rparr>) items))),
      port_CreateEndpoint = (\<lambda>org url eventTypes.
        attempt (dlv_CreateEndpoint f org url eventTypes) (\<lambda>result.
        ok \<lparr>PES_ID = CER_ID result, PES_Secret = CER_Secret result\<rparr>)),
      port_UpdateEndpoint = (\<lambda>org i url eventTypes.
        attempt (dlv_UpdateEndpoint f org i url eventTypes) (\<lambda>_. ok ())),
      port_DeleteEndpoint = (\<lambda>org i. dlv_DeleteEndpoint f org i)\<rparr>"

section \<open>Facts about the memory facade\<close>

lemma dlv_memory_ops [simp]:
  "dlv_repo_SaveEndpoint (dlv_memory_facade c o') = (\<lambda>e. on_dlv (dlv_mem_SaveEndpoint e))"
  "dlv_repo_FindEndpoint (dlv_memory_facade c o') = (\<lambda>org. on_dlv (dlv_mem_FindEndpoint org))"
  "dlv_repo_FindEndpointByID (dlv_memory_facade c o') = (\<lambda>org i. on_dlv (dlv_mem_FindEndpointByID org i))"
  "dlv_repo_ListEndpoints (dlv_memory_facade c o') = (\<lambda>org. on_dlv (dlv_mem_ListEndpoints org))"
  "dlv_repo_DeleteEndpoint (dlv_memory_facade c o') = (\<lambda>org i. on_dlv (dlv_mem_DeleteEndpoint org i))"
  "dlv_repo_SaveEvent (dlv_memory_facade c o') = (\<lambda>e. on_dlv (dlv_mem_SaveEvent e))"
  "dlv_repo_FindEvent (dlv_memory_facade c o') = (\<lambda>org i. on_dlv (dlv_mem_FindEvent org i))"
  "dlv_repo_ListEventsPage (dlv_memory_facade c o') = (\<lambda>org flt. on_dlv (dlv_mem_ListEventsPage org flt))"
  "dlv_repo_PurgeTerminalOlderThan (dlv_memory_facade c o') =
     (\<lambda>org t. on_dlv (dlv_mem_PurgeTerminalOlderThan org t))"
  "dlv_workQueue_ClaimDue (dlv_memory_facade c o') = (\<lambda>now ttl n. on_dlv (dlv_mem_ClaimDue now ttl n))"
  "dlv_secrets_IssueWebhookSecret (dlv_memory_facade c o') =
     (\<lambda>org e. on_access (acc_IssueWebhookSecret (acc_memory_facade c) org e))"
  "dlv_secrets_RotateWebhookSecret (dlv_memory_facade c o') =
     (\<lambda>org e h. on_access (acc_RotateWebhookSecret (acc_memory_facade c) org e h))"
  "dlv_secrets_ActiveWebhookSecrets (dlv_memory_facade c o') =
     (\<lambda>org e. on_access (acc_ActiveWebhookSecrets (acc_memory_facade c) org e))"
  "dlv_secrets_WebhookSecretPrefix (dlv_memory_facade c o') =
     (\<lambda>org e. on_access (acc_WebhookSecretPrefix (acc_memory_facade c) org e))"
  "dlv_caller_Post (dlv_memory_facade c o') = receiver_Post"
  "dlv_recorder (dlv_memory_facade c o') = Some (\<lambda>entry w. (Inr (), w\<lparr>dw_log := dw_log w @ [entry]\<rparr>))"
  "dlv_metrics (dlv_memory_facade c o') = None"
  "dlv_outboxStats (dlv_memory_facade c o') = Some (\<lambda>now. on_dlv (dlv_mem_PendingDepthAndOldestAge now))"
  "dlv_retention (dlv_memory_facade c o') = Some world_retention"
  "dlv_crypto (dlv_memory_facade c o') = c"
  "dlv_newEndpointID (dlv_memory_facade c o') =
     zoom dw_endpoints_minted dw_endpoints_minted_update (\<lambda>n. (sequential_id ''wep_'' n, Suc n))"
  "dlv_newEventID (dlv_memory_facade c o') =
     zoom dw_events_minted dw_events_minted_update (\<lambda>n. (sequential_id ''evt_'' n, Suc n))"
  "dlv_jitter (dlv_memory_facade c o') = (\<lambda>w. ((case DO_Jitter o' of None \<Rightarrow> 1 / 2 | Some j \<Rightarrow> j), w))"
  "dlv_nudge (dlv_memory_facade c o') = (\<lambda>w. w)"
  "dlv_now (dlv_memory_facade c o') = (\<lambda>w. (dw_now w, w))"
  by (simp_all add: dlv_memory_facade_def)

end
