(* ===== verification/DeliveryOutbox.thy ===== *)
theory DeliveryOutbox
  imports DeliveryMemory
begin

text \<open>
  What the delivery module promises of its outbox: the retry schedule, the
  claiming of due events, the purge, the fan-out of \<open>Enqueue\<close>, one attempt of the dispatcher, the
  listing and the signatures.
\<close>

abbreviation dlv_F :: "crypto \<Rightarrow> dlv_overrides \<Rightarrow> dlv_world dlv_facade" where
  "dlv_F \<equiv> dlv_memory_facade"

definition store_events :: "dlv_store \<Rightarrow> EventID \<Rightarrow> eventRecord option" where
  "store_events r = map_of (ds_events r)"

definition events :: "dlv_world \<Rightarrow> EventID \<Rightarrow> eventRecord option" where
  "events w = map_of (ds_events (dw_store w))"

definition endpoints :: "dlv_world \<Rightarrow> EndpointID \<Rightarrow> Endpoint option" where
  "endpoints w = map_of (ds_endpoints (dw_store w))"

definition dlv_store_inv :: "dlv_store \<Rightarrow> bool" where
  "dlv_store_inv r \<longleftrightarrow> keyed EP_ID (ds_endpoints r) \<and> keyed (\<lambda>x. Ev_ID (er_event x)) (ds_events r)"

section \<open>The retry schedule\<close>

lemma delayIndex_range: "delayIndex n < length afterFailureDelays"
  by (simp add: delayIndex_def afterFailureDelays_def Let_def nat_less_iff)

lemma delays_range: "d \<in> set afterFailureDelays \<Longrightarrow> 5 * second \<le> d \<and> d \<le> 24 * hour"
  by (auto simp: afterFailureDelays_def duration_defs)

lemma trunc_bounds:
  fixes x :: rat and m :: int
  assumes "\<bar>x\<bar> \<le> of_int m / 10"
  shows "- m \<le> 10 * trunc x" and "10 * trunc x \<le> m"
proof -
  have "\<bar>of_int (trunc x)\<bar> \<le> \<bar>x\<bar>"
  proof (cases "x < 0")
    case True
    then have "\<lceil>x\<rceil> \<le> 0" by (simp add: ceiling_le_iff)
    then have "of_int \<lceil>x\<rceil> \<le> (0 :: rat)" by (simp only: of_int_le_0_iff)
    moreover have "x \<le> of_int \<lceil>x\<rceil>" by (rule le_of_int_ceiling)
    moreover have t: "trunc x = \<lceil>x\<rceil>" using True by (simp only: trunc_def if_True)
    ultimately show ?thesis unfolding t by linarith
  next
    case False
    then have "0 \<le> \<lfloor>x\<rfloor>" by simp
    then show ?thesis using False by (simp add: trunc_def)
  qed
  then have "\<bar>of_int (10 * trunc x)\<bar> \<le> (of_int m :: rat)" using assms by (simp add: abs_mult)
  then have "of_int \<bar>10 * trunc x\<bar> \<le> (of_int m :: rat)" by (simp only: of_int_abs)
  then have "\<bar>10 * trunc x\<bar> \<le> m" by (simp only: of_int_le_iff)
  then show "- m \<le> 10 * trunc x" and "10 * trunc x \<le> m" by auto
qed

text \<open>
  Every retry is scheduled within ten percent of the documented delay for its attempt, whatever
  the jitter in [0, 1): never sooner than 4.5 seconds nor later than 26.4 hours, and the delay table
  is never read out of its bounds, whatever the number of attempts.
\<close>

theorem NextAttempt_within_ten_percent:
  assumes "0 \<le> j" and "j < 1"
  shows "delayIndex n < length afterFailureDelays
    \<and> (let delay = afterFailureDelays ! delayIndex n; wait = NextAttempt now n j - now in
        9 * delay \<le> 10 * wait \<and> 10 * wait \<le> 11 * delay \<and> 5 * second \<le> delay \<and> delay \<le> 24 * hour)"
proof -
  define d where "d = afterFailureDelays ! delayIndex n"
  have range: "5 * second \<le> d \<and> d \<le> 24 * hour"
    using delays_range [OF nth_mem [OF delayIndex_range]] by (simp add: d_def)
  then have "0 \<le> d" by (simp add: duration_defs)
  let ?x = "(j * 2 - 1) * (of_int d * jitterFraction) :: rat"
  have "\<bar>j * 2 - 1\<bar> \<le> 1" using assms by (simp add: abs_if)
  then have "\<bar>j * 2 - 1\<bar> * of_int d \<le> 1 * of_int d" using \<open>0 \<le> d\<close> by (intro mult_right_mono) simp_all
  then have "\<bar>?x\<bar> \<le> of_int d / 10" using \<open>0 \<le> d\<close> by (simp add: jitterFraction_def abs_mult)
  note t = trunc_bounds [OF this]
  have "NextAttempt now n j - now = d + trunc ?x" by (simp add: NextAttempt_def d_def Let_def)
  then show ?thesis
    unfolding Let_def d_def [symmetric] using t range delayIndex_range by simp
qed

lemma applyAttemptOutcome_simps [simp]:
  "Ev_Attempts (applyAttemptOutcome e s err now n j) = n"
  "Ev_ID (applyAttemptOutcome e s err now n j) = Ev_ID e"
  "Ev_Body (applyAttemptOutcome e s err now n j) = Ev_Body e"
  "Ev_OrgID (applyAttemptOutcome e s err now n j) = Ev_OrgID e"
  "Ev_EndpointID (applyAttemptOutcome e s err now n j) = Ev_EndpointID e"
  "Ev_CreatedAt (applyAttemptOutcome e s err now n j) = Ev_CreatedAt e"
  "Ev_Type (applyAttemptOutcome e s err now n j) = Ev_Type e"
  by (simp_all add: applyAttemptOutcome_def Let_def)

lemma applyAttemptOutcome_status:
  "Ev_Status (applyAttemptOutcome e s err now n j) =
     (if err = None \<and> isSuccessStatus s then StatusDelivered
      else if n \<ge> MaxAttempts then StatusFailed else StatusPending)"
  by (simp add: applyAttemptOutcome_def Let_def IsExhausted_def)

section \<open>Claiming\<close>

lemma sort_key_take_least:
  assumes "x \<in> set (take n (sort_key k xs))" and "y \<in> set (drop n (sort_key k xs))"
  shows "k x \<le> k y"
proof -
  have "sorted (map k (take n (sort_key k xs) @ drop n (sort_key k xs)))" by simp
  then show ?thesis using assms by (simp only: map_append sorted_append) auto
qed

lemma rows_map_events:
  "(\<And>p. er_event (snd (g p)) = er_event (snd p)) \<Longrightarrow>
     map er_event (rows (map g t)) = map er_event (rows t)"
  by (induction t) auto

lemma keyed_events_map:
  assumes "keyed (\<lambda>x. Ev_ID (er_event x)) t"
    and "\<And>p. fst (g p) = fst p \<and> er_event (snd (g p)) = er_event (snd p)"
  shows "keyed (\<lambda>x. Ev_ID (er_event x)) (map g t)"
proof -
  have k: "distinct (map fst t)" "\<And>p. p \<in> set t \<Longrightarrow> Ev_ID (er_event (snd p)) = fst p"
    using assms(1) by (auto simp: keyed_def)
  have "map fst (map g t) = map fst t" using assms(2) by simp
  then have "distinct (map fst (map g t))" using k(1) by (simp only:)
  moreover have "Ev_ID (er_event v) = i" if "(i, v) \<in> set (map g t)" for i v
  proof -
    from that obtain p where p: "p \<in> set t" "g p = (i, v)" by auto
    from k(2) [OF p(1)] show ?thesis using assms(2) [of p] p(2) by simp
  qed
  ultimately show ?thesis unfolding keyed_def by blast
qed

lemma claimed_ids_distinct:
  assumes "keyed (\<lambda>x. Ev_ID (er_event x)) t"
  shows "distinct (map (\<lambda>p. Ev_ID (er_event (snd p))) (take n (sort_key k (filter P t))))"
proof -
  have "map (\<lambda>p. Ev_ID (er_event (snd p))) t = map fst t"
    using assms by (intro map_cong) (auto simp: keyed_def)
  moreover have "distinct (map fst t)" using assms by (simp add: keyed_def)
  ultimately have "distinct (map (\<lambda>p. Ev_ID (er_event (snd p))) t)" by (simp only:)
  then have "distinct (map (\<lambda>p. Ev_ID (er_event (snd p))) (filter P t))" by (rule distinct_map_filter)
  then have "distinct (map (\<lambda>p. Ev_ID (er_event (snd p))) (oldest_first_by k (filter P t)))"
    by (simp only: distinct_map_oldest_first_by)
  then have "distinct (map (\<lambda>p. Ev_ID (er_event (snd p))) (sort_key k (filter P t)))"
    by (simp only: oldest_first_by_def)
  then show ?thesis by (simp add: distinct_take flip: take_map)
qed

definition created :: "EventID \<times> eventRecord \<Rightarrow> time" where
  "created p = Ev_CreatedAt (er_event (snd p))"

lemma claim_taken:
  assumes "keyed (\<lambda>x. Ev_ID (er_event x)) (ds_events r)"
    and "dlv_mem_ClaimDue now ttl limit r = (Inr claimed, r')" and "0 \<le> limit"
  obtains taken where
    "claimed = map (\<lambda>p. er_event (snd p)) taken"
    and "set taken \<subseteq> {p \<in> set (ds_events r). isDueForClaim (snd p) now}"
    and "distinct (map (\<lambda>p. Ev_ID (er_event (snd p))) taken)"
    and "int (length taken) \<le> limit" and "sorted (map created taken)"
    and "\<And>p. p \<in> set (ds_events r) \<Longrightarrow> isDueForClaim (snd p) now \<Longrightarrow> p \<notin> set taken \<Longrightarrow>
           int (length taken) = limit \<and> (\<forall>q \<in> set taken. created q \<le> created p)"
    and "ds_endpoints r' = ds_endpoints r"
    and "ds_events r' = map (\<lambda>p. if p \<in> set taken then (fst p, (snd p)\<lparr>er_leaseUntil := Some (now + ttl)\<rparr>) else p)
           (ds_events r)"
proof -
  define due where "due = filter (\<lambda>p. isDueForClaim (snd p) now) (ds_events r)"
  define srt where "srt = sort_key created due"
  define n where "n = (if int (length due) > limit then nat limit else length due)"
  define taken where "taken = take n srt"
  have [simp]: "length srt = length due" "set srt = set due" by (simp_all add: srt_def)
  have t: "(if int (length due) > limit then take (nat limit) srt else srt) = taken"
    by (simp add: n_def taken_def)
  have run: "claimed = map (\<lambda>p. er_event (snd p)) taken" "ds_endpoints r' = ds_endpoints r"
    "ds_events r' = map (\<lambda>p. if p \<in> set taken then (fst p, (snd p)\<lparr>er_leaseUntil := Some (now + ttl)\<rparr>) else p)
       (ds_events r)"
    using assms(2) unfolding dlv_mem_ClaimDue_def Let_def length_sort
    unfolding due_def [symmetric] created_def [symmetric, abs_def] srt_def [symmetric] t by auto
  have sub: "set taken \<subseteq> set due" using set_take_subset [of n srt] by (simp add: taken_def)
  have ids: "distinct (map (\<lambda>p. Ev_ID (er_event (snd p))) taken)"
    unfolding taken_def srt_def due_def by (rule claimed_ids_distinct [OF assms(1)])
  have len: "int (length taken) \<le> limit" using assms(3) by (auto simp: taken_def n_def)
  have srtd: "sorted (map created taken)"
    unfolding taken_def take_map [symmetric] srt_def by (rule sorted_wrt_take) simp
  have rest: "int (length taken) = limit \<and> (\<forall>q \<in> set taken. created q \<le> created p)"
    if "p \<in> set due" "p \<notin> set taken" for p
  proof
    from that have "p \<in> set (take n srt @ drop n srt)" by simp
    then have d: "p \<in> set (drop n srt)" using that(2) by (simp only: set_append Un_iff taken_def) blast
    then have "n < length srt" by (metis drop_all empty_iff list.set(1) not_le)
    then show "int (length taken) = limit" using assms(3) by (auto simp: taken_def n_def split: if_splits)
    show "\<forall>q \<in> set taken. created q \<le> created p"
      using sort_key_take_least [of _ n created due p] d by (simp add: taken_def srt_def)
  qed
  show ?thesis
    by (rule that [OF run(1) _ ids len srtd _ run(2,3)]) (use sub rest in \<open>auto simp: due_def\<close>)
qed

lemma lease_lookup:
  assumes "keyed (\<lambda>x. Ev_ID (er_event x)) t" and "set taken \<subseteq> set t"
  shows "map_of (map (\<lambda>p. if p \<in> set taken then (fst p, (snd p)\<lparr>er_leaseUntil := l\<rparr>) else p) t) i =
    (case map_of t i of None \<Rightarrow> None
     | Some x \<Rightarrow> Some (if i \<in> (\<lambda>p. Ev_ID (er_event (snd p))) ` set taken then x\<lparr>er_leaseUntil := l\<rparr> else x))"
proof -
  have d: "distinct (map fst t)" and k: "\<And>p. p \<in> set t \<Longrightarrow> Ev_ID (er_event (snd p)) = fst p"
    using assms(1) by (auto simp: keyed_def)
  let ?g = "\<lambda>p. if p \<in> set taken then (fst p, (snd p)\<lparr>er_leaseUntil := l\<rparr>) else p"
  have f: "map fst (map ?g t) = map fst t" by auto
  show ?thesis
  proof (cases "map_of t i")
    case None
    then have "i \<notin> fst ` set t" by (simp add: map_of_eq_None_iff)
    then have "i \<notin> fst ` set (map ?g t)" using f by (metis list.set_map)
    then have "map_of (map ?g t) i = None" by (simp only: map_of_eq_None_iff not_False_eq_True)
    then show ?thesis unfolding None option.case .
  next
    case (Some x)
    then have m: "(i, x) \<in> set t" by (rule map_of_SomeD)
    have iff: "(i, x) \<in> set taken \<longleftrightarrow> i \<in> (\<lambda>p. Ev_ID (er_event (snd p))) ` set taken"
    proof
      assume "(i, x) \<in> set taken"
      then show "i \<in> (\<lambda>p. Ev_ID (er_event (snd p))) ` set taken" using k [OF m] by (force intro: rev_image_eqI)
    next
      assume "i \<in> (\<lambda>p. Ev_ID (er_event (snd p))) ` set taken"
      then obtain p where p: "p \<in> set taken" "i = Ev_ID (er_event (snd p))" by blast
      then have "p \<in> set t" using assms(2) by blast
      then have "p \<in> set t" "fst p = i" using k [of p] p(2) by simp_all
      then have "p = (i, x)" using m d by (metis eq_key_imp_eq_value prod.collapse)
      then show "(i, x) \<in> set taken" using p(1) by simp
    qed
    have "?g (i, x) \<in> ?g ` set t" using m by (rule imageI)
    then have "(i, if (i, x) \<in> set taken then x\<lparr>er_leaseUntil := l\<rparr> else x) \<in> set (map ?g t)"
      by (cases "(i, x) \<in> set taken") (simp_all only: set_map fst_conv snd_conv if_True if_False)
    moreover have "distinct (map fst (map ?g t))" using d by (simp only: f)
    ultimately have "map_of (map ?g t) i = Some (if (i, x) \<in> set taken then x\<lparr>er_leaseUntil := l\<rparr> else x)"
      by (rule map_of_is_SomeI [rotated])
    then show ?thesis using Some iff by simp
  qed
qed

text \<open>
  C14: A claim hands out due work and no work twice. Every claimed event is stored, pending, due and
  under no running lease; at most \<open>limit\<close> are claimed, the oldest first, and all the due ones when
  they are fewer; no event is changed; and until the lease of this claim ends, no other claim hands
  out any of them again, however often it is made.
\<close>

theorem ClaimDue_leases:
  assumes "dlv_store_inv r" and "dlv_mem_ClaimDue now ttl limit r = (Inr claimed, r')" and "0 \<le> limit"
    and "u < now + ttl" and "dlv_mem_ClaimDue u ttl' limit' r' = (Inr again, r'')" and "0 \<le> limit'"
  shows "(\<forall>e \<in> set claimed. \<exists>x. store_events r (Ev_ID e) = Some x \<and> er_event x = e
            \<and> Ev_Status e = StatusPending \<and> Ev_NextAttemptAt e \<le> now
            \<and> (\<forall>l. er_leaseUntil x = Some l \<longrightarrow> l \<le> now))
    \<and> distinct (map Ev_ID claimed) \<and> int (length claimed) \<le> limit
    \<and> sorted (map Ev_CreatedAt claimed)
    \<and> (\<forall>x. x \<in> set (rows (ds_events r)) \<and> isDueForClaim x now \<and> er_event x \<notin> set claimed \<longrightarrow>
         int (length claimed) = limit \<and> (\<forall>e \<in> set claimed. Ev_CreatedAt e \<le> Ev_CreatedAt (er_event x)))
    \<and> map er_event (rows (ds_events r')) = map er_event (rows (ds_events r))
    \<and> Ev_ID ` set again \<inter> Ev_ID ` set claimed = {}"
proof -
  have k: "keyed (\<lambda>x. Ev_ID (er_event x)) (ds_events r)" using assms(1) by (simp add: dlv_store_inv_def)
  have keq: "\<And>p. p \<in> set (ds_events r) \<Longrightarrow> Ev_ID (er_event (snd p)) = fst p" using k by (auto simp: keyed_def)
  obtain taken where t: "claimed = map (\<lambda>p. er_event (snd p)) taken"
      "set taken \<subseteq> {p \<in> set (ds_events r). isDueForClaim (snd p) now}"
      "distinct (map (\<lambda>p. Ev_ID (er_event (snd p))) taken)"
      "int (length taken) \<le> limit" "sorted (map created taken)"
      "\<And>p. p \<in> set (ds_events r) \<Longrightarrow> isDueForClaim (snd p) now \<Longrightarrow> p \<notin> set taken \<Longrightarrow>
         int (length taken) = limit \<and> (\<forall>q \<in> set taken. created q \<le> created p)"
      "ds_events r' = map (\<lambda>p. if p \<in> set taken then (fst p, (snd p)\<lparr>er_leaseUntil := Some (now + ttl)\<rparr>) else p)
         (ds_events r)"
    by (rule claim_taken [OF k assms(2,3)]) (rule that)
  have k': "keyed (\<lambda>x. Ev_ID (er_event x)) (ds_events r')"
    unfolding t(7) by (rule keyed_events_map [OF k]) simp
  obtain taken' where t': "again = map (\<lambda>p. er_event (snd p)) taken'"
      "set taken' \<subseteq> {p \<in> set (ds_events r'). isDueForClaim (snd p) u}"
    by (rule claim_taken [OF k' assms(5,6)]) (rule that)
  have sub: "set taken \<subseteq> set (ds_events r)" using t(2) by blast
  have 1: "\<exists>x. store_events r (Ev_ID e) = Some x \<and> er_event x = e
            \<and> Ev_Status e = StatusPending \<and> Ev_NextAttemptAt e \<le> now
            \<and> (\<forall>l. er_leaseUntil x = Some l \<longrightarrow> l \<le> now)" if "e \<in> set claimed" for e
  proof -
    from that t(1) obtain p where p: "p \<in> set taken" "e = er_event (snd p)" by auto
    then have m: "p \<in> set (ds_events r)" and d: "isDueForClaim (snd p) now" using t(2) by blast+
    have "store_events r (Ev_ID e) = Some (snd p)"
      using k m keq [OF m] p(2) by (simp add: store_events_def keyed_def)
    then show ?thesis using d p(2)
      by (auto simp: isDueForClaim_def split: if_splits option.splits)
  qed
  have 4: "int (length claimed) = limit \<and> (\<forall>e \<in> set claimed. Ev_CreatedAt e \<le> Ev_CreatedAt (er_event x))"
    if "x \<in> set (rows (ds_events r))" "isDueForClaim x now" "er_event x \<notin> set claimed" for x
  proof -
    from that(1) obtain p where p: "p \<in> set (ds_events r)" "x = snd p" by auto
    have "p \<notin> set taken" using that(3) p(2) t(1) by auto
    from t(6) [OF p(1) _ this] that(2) p(2) show ?thesis by (auto simp: t(1) created_def)
  qed
  have 5: "map er_event (rows (ds_events r')) = map er_event (rows (ds_events r))"
    unfolding t(7) by (rule rows_map_events) simp
  have 6: "Ev_ID ` set again \<inter> Ev_ID ` set claimed = {}"
  proof (rule ccontr)
    assume "Ev_ID ` set again \<inter> Ev_ID ` set claimed \<noteq> {}"
    then obtain e e' where e: "e \<in> set again" "e' \<in> set claimed" "Ev_ID e = Ev_ID e'" by blast
    from e(1) t' obtain q where q: "q \<in> set (ds_events r')" "isDueForClaim (snd q) u" "e = er_event (snd q)"
      by auto
    have "map_of (ds_events r') (Ev_ID e) = Some (snd q)"
      using k' q(1,3) by (auto simp: keyed_def)
    moreover have "Ev_ID e \<in> (\<lambda>p. Ev_ID (er_event (snd p))) ` set taken"
      using e(2,3) t(1) by auto
    ultimately have "\<exists>x. Some (snd q) = Some (x\<lparr>er_leaseUntil := Some (now + ttl)\<rparr>)"
      using lease_lookup [OF k sub, of "Some (now + ttl)" "Ev_ID e", folded t(7)]
      by (cases "map_of (ds_events r) (Ev_ID e)") (simp_all, metis)
    then have "er_leaseUntil (snd q) = Some (now + ttl)" by auto
    then show False using q(2) assms(4) by (simp add: isDueForClaim_def split: if_splits)
  qed
  have ids: "distinct (map Ev_ID claimed)" and len: "int (length claimed) \<le> limit"
    and srt: "sorted (map Ev_CreatedAt claimed)"
    using t(3-5) by (simp_all add: t(1) comp_def created_def [abs_def])
  show ?thesis by (intro conjI ballI allI impI ids len srt 5 6) (use 1 4 in blast)+
qed

section \<open>The purge\<close>

lemma lookup_filter:
  assumes "distinct (map fst t)"
  shows "map_of (filter P t) i = (case map_of t i of None \<Rightarrow> None | Some x \<Rightarrow> if P (i, x) then Some x else None)"
  using assms by (induction t) (auto split: option.split dest: map_of_SomeD simp: rev_image_eqI)

lemma purgeable_iff:
  "purgeable org cutoff e \<longleftrightarrow> Ev_OrgID e = org \<and> Ev_Status e \<noteq> StatusPending \<and> Ev_CreatedAt e < cutoff"
  by (cases "Ev_Status e") (auto simp: purgeable_def IsTerminal_def TerminalStatuses_def)

definition purged_by :: "time \<Rightarrow> (OrgID \<times> int) list \<Rightarrow> Event \<Rightarrow> bool" where
  "purged_by now retention e \<longleftrightarrow>
     (\<exists>(org, days) \<in> set retention. 0 < days \<and> Ev_OrgID e = org \<and> Ev_Status e \<noteq> StatusPending
        \<and> Ev_CreatedAt e < now - days * day)"

lemma purge_loop:
  assumes "\<forall>(org, days) \<in> set ps. map_of (dw_retention w) org = Some days"
  shows "for_each (purge_org (dlv_F c o') world_retention now) (map fst ps) w =
    (Inr (), w\<lparr>dw_store := (dw_store w)\<lparr>ds_events :=
       filter (\<lambda>p. \<not> purged_by now ps (er_event (snd p))) (ds_events (dw_store w))\<rparr>\<rparr>)"
  using assms
proof (induction ps arbitrary: w)
  case Nil
  then show ?case by (simp add: purged_by_def)
next
  case (Cons p ps)
  obtain org days where p: "p = (org, days)" by fastforce
  let ?w = "snd (purge_org (dlv_F c o') world_retention now org w)"
  have look: "map_of (dw_retention w) org = Some days" using Cons.prems p by simp
  have run: "purge_org (dlv_F c o') world_retention now org w = (Inr (), ?w)"
    and st: "?w = w\<lparr>dw_store := (dw_store w)\<lparr>ds_events := filter
       (\<lambda>q. \<not> purged_by now [p] (er_event (snd q))) (ds_events (dw_store w))\<rparr>\<rparr>"
    using look
    by (auto simp: purge_org_def act_simps world_retention_def dlv_mem_PurgeTerminalOlderThan_def p
        purged_by_def purgeable_iff)
  have "for_each (purge_org (dlv_F c o') world_retention now) (map fst ps) ?w =
    (Inr (), ?w\<lparr>dw_store := (dw_store ?w)\<lparr>ds_events :=
       filter (\<lambda>p. \<not> purged_by now ps (er_event (snd p))) (ds_events (dw_store ?w))\<rparr>\<rparr>)"
    using Cons.prems by (intro Cons.IH) (simp add: st)
  moreover have "for_each (purge_org (dlv_F c o') world_retention now) (map fst (p # ps)) w =
    for_each (purge_org (dlv_F c o') world_retention now) (map fst ps) ?w"
    unfolding p list.map fst_conv for_each.simps attempt_apply
    by (subst run [unfolded p]) (simp only: prod.case sum.case)
  moreover have "purged_by now (p # ps) e \<longleftrightarrow> purged_by now ps e \<or> purged_by now [p] e" for e
    by (auto simp: purged_by_def)
  ultimately show ?case by (simp add: st conj_commute)
qed

text \<open>
  The purge deletes exactly what is past its organization's window and settled. For every
  organization with a positive window, an event created before the cutoff is deleted if it is
  \<open>DELIVERED\<close>, \<open>FAILED\<close> or \<open>NO_ENDPOINT\<close>; every other event, a pending one of any age and every event of
  an organization without a window included, is kept as it was, with its lease; endpoints and
  everything else are untouched.
\<close>

theorem PurgeOnce_exact:
  assumes "dlv_store_inv (dw_store w)" and "distinct (map fst (dw_retention w))"
  shows "\<exists>w'. dlv_PurgeOnce (dlv_F c o') w = (Inr (), w')
    \<and> events w' = (\<lambda>i. case events w i of None \<Rightarrow> None
        | Some x \<Rightarrow> if purged_by (dw_now w) (dw_retention w) (er_event x) then None else Some x)
    \<and> (\<forall>i x. events w i = Some x \<and> Ev_Status (er_event x) = StatusPending \<longrightarrow> events w' i = Some x)
    \<and> w'\<lparr>dw_store := dw_store w\<rparr> = w \<and> endpoints w' = endpoints w"
proof -
  let ?w = "w\<lparr>dw_store := (dw_store w)\<lparr>ds_events :=
       filter (\<lambda>p. \<not> purged_by (dw_now w) (dw_retention w) (er_event (snd p))) (ds_events (dw_store w))\<rparr>\<rparr>"
  have "\<forall>(org, days) \<in> set (dw_retention w). map_of (dw_retention w) org = Some days"
    using assms(2) by auto
  from purge_loop [OF this, of c o' "dw_now w"]
  have run: "dlv_PurgeOnce (dlv_F c o') w = (Inr (), ?w)"
    by (simp add: dlv_PurgeOnce_def attempt_apply call_apply world_retention_def)
  have d: "distinct (map fst (ds_events (dw_store w)))"
    using assms(1) by (simp add: dlv_store_inv_def keyed_def)
  have ev: "events ?w = (\<lambda>i. case events w i of None \<Rightarrow> None
        | Some x \<Rightarrow> if purged_by (dw_now w) (dw_retention w) (er_event x) then None else Some x)"
    by (rule ext) (simp add: events_def lookup_filter [OF d] split: option.split)
  have "\<forall>x. purged_by (dw_now w) (dw_retention w) (er_event x) \<longrightarrow> Ev_Status (er_event x) \<noteq> StatusPending"
    by (auto simp: purged_by_def)
  then show ?thesis using run ev by (intro exI [of _ ?w]) (simp add: endpoints_def, blast)
qed

section \<open>Fan-out\<close>

text \<open>The invariant of the delivery world: rows under their ids, ids minted by the counters.\<close>

definition dlv_inv :: "dlv_world \<Rightarrow> bool" where
  "dlv_inv w \<longleftrightarrow> dlv_store_inv (dw_store w)
     \<and> (\<forall>i. events w i \<noteq> None \<longrightarrow> minted ''evt_'' (dw_events_minted w) i)
     \<and> (\<forall>i. endpoints w i \<noteq> None \<longrightarrow> minted ''wep_'' (dw_endpoints_minted w) i)"

definition new_event :: "dlv_world \<Rightarrow> OrgID \<Rightarrow> EndpointID \<Rightarrow> string \<Rightarrow> json option \<Rightarrow> Status \<Rightarrow> Event" where
  "new_event w org endpoint eventType data status =
     (let i = sequential_id ''evt_'' (dw_events_minted w) in
      \<lparr>Ev_ID = i, Ev_OrgID = org, Ev_EndpointID = endpoint, Ev_Type = eventType,
       Ev_Body = marshalEnvelope i eventType data (dw_now w), Ev_Status = status, Ev_Attempts = 0,
       Ev_NextAttemptAt = dw_now w, Ev_LastAttemptAt = None, Ev_CreatedAt = dw_now w\<rparr>)"

definition with_event :: "Event \<Rightarrow> dlv_world \<Rightarrow> dlv_world" where
  "with_event e w = w\<lparr>dw_store := (dw_store w)\<lparr>ds_events :=
     put (Ev_ID e) \<lparr>er_event = e, er_leaseUntil = None\<rparr> (ds_events (dw_store w))\<rparr>\<rparr>"

definition minting :: "dlv_world \<Rightarrow> dlv_world" where
  "minting w = w\<lparr>dw_events_minted := Suc (dw_events_minted w)\<rparr>"

lemma enqueueToEndpoint_run:
  "enqueueToEndpoint (dlv_F c o') e ty data w =
     (let ev = new_event w (EP_OrgID e) (EP_ID e) ty data StatusPending in (Inr ev, with_event ev (minting w)))"
  by (simp add: enqueueToEndpoint_def act_simps new_event_def with_event_def minting_def Let_def
      dlv_mem_SaveEvent_def)

lemma enqueueUnrouted_run:
  "enqueueUnrouted (dlv_F c o') org ty data w =
     (let ev = new_event w org [] ty data StatusNoEndpoint in (Inr ev, with_event ev (minting w)))"
  by (simp add: enqueueUnrouted_def act_simps new_event_def with_event_def minting_def Let_def
      dlv_mem_SaveEvent_def)

lemma with_event_views [simp]:
  "events (with_event e w) = (events w)(Ev_ID e \<mapsto> \<lparr>er_event = e, er_leaseUntil = None\<rparr>)"
  "endpoints (with_event e w) = endpoints w" "dw_now (with_event e w) = dw_now w"
  "dw_events_minted (with_event e w) = dw_events_minted w"
  "events (minting w) = events w" "endpoints (minting w) = endpoints w" "dw_now (minting w) = dw_now w"
  "dw_events_minted (minting w) = Suc (dw_events_minted w)"
  "dw_endpoints_minted (with_event e w) = dw_endpoints_minted w"
  "dw_endpoints_minted (minting w) = dw_endpoints_minted w"
  "dw_store (minting w) = dw_store w" "ds_endpoints (dw_store (with_event e w)) = ds_endpoints (dw_store w)"
  by (auto simp: with_event_def minting_def events_def endpoints_def)

lemma new_event_simps [simp]:
  "Ev_ID (new_event w org ep ty data st) = sequential_id ''evt_'' (dw_events_minted w)"
  "Ev_OrgID (new_event w org ep ty data st) = org" "Ev_EndpointID (new_event w org ep ty data st) = ep"
  "Ev_Type (new_event w org ep ty data st) = ty" "Ev_Status (new_event w org ep ty data st) = st"
  "Ev_Attempts (new_event w org ep ty data st) = 0"
  "Ev_NextAttemptAt (new_event w org ep ty data st) = dw_now w"
  "Ev_CreatedAt (new_event w org ep ty data st) = dw_now w"
  "Ev_Body (new_event w org ep ty data st) =
     marshalEnvelope (sequential_id ''evt_'' (dw_events_minted w)) ty data (dw_now w)"
  by (simp_all add: new_event_def Let_def)

text \<open>What an event looks like when \<open>Enqueue\<close> has just persisted it.\<close>

definition fresh_event :: "time \<Rightarrow> OrgID \<Rightarrow> string \<Rightarrow> json option \<Rightarrow> Event \<Rightarrow> bool" where
  "fresh_event now org ty data e \<longleftrightarrow> Ev_OrgID e = org \<and> Ev_Type e = ty \<and> Ev_Attempts e = 0
     \<and> Ev_NextAttemptAt e = now \<and> Ev_CreatedAt e = now \<and> Ev_Body e = marshalEnvelope (Ev_ID e) ty data now"

lemma fan_out_run:
  assumes "\<forall>e \<in> set es. EP_OrgID e = org" and "\<forall>i. events w i \<noteq> None \<longrightarrow> minted ''evt_'' (dw_events_minted w) i"
  shows "\<exists>evs w'. map_each (\<lambda>e. enqueueToEndpoint (dlv_F c o') e ty data) es w = (Inr evs, w')
    \<and> map Ev_EndpointID evs = map EP_ID es
    \<and> (\<forall>e \<in> set evs. Ev_Status e = StatusPending \<and> fresh_event (dw_now w) org ty data e \<and> events w (Ev_ID e) = None
         \<and> \<not> minted ''evt_'' (dw_events_minted w) (Ev_ID e))
    \<and> distinct (map Ev_ID evs)
    \<and> events w' = (\<lambda>i. case find (\<lambda>e. Ev_ID e = i) evs of
         Some e \<Rightarrow> Some \<lparr>er_event = e, er_leaseUntil = None\<rparr> | None \<Rightarrow> events w i)
    \<and> endpoints w' = endpoints w"
  using assms
proof (induction es arbitrary: w)
  case Nil
  then show ?case by simp
next
  case (Cons e es)
  let ?ev = "new_event w org (EP_ID e) ty data StatusPending"
  let ?w = "with_event ?ev (minting w)"
  have org: "EP_OrgID e = org" using Cons.prems(1) by simp
  have fresh: "events w (Ev_ID ?ev) = None" "\<not> minted ''evt_'' (dw_events_minted w) (Ev_ID ?ev)"
    using Cons.prems(2) not_minted by fastforce+
  have "\<forall>i. events ?w i \<noteq> None \<longrightarrow> minted ''evt_'' (dw_events_minted ?w) i"
    using Cons.prems(2) minted_Suc minted_next by auto
  from Cons.IH [OF _ this] Cons.prems(1) obtain evs w' where
    run: "map_each (\<lambda>e. enqueueToEndpoint (dlv_F c o') e ty data) es ?w = (Inr evs, w')"
    and ih: "map Ev_EndpointID evs = map EP_ID es"
      "\<forall>e \<in> set evs. Ev_Status e = StatusPending \<and> fresh_event (dw_now w) org ty data e
         \<and> events ?w (Ev_ID e) = None \<and> \<not> minted ''evt_'' (dw_events_minted ?w) (Ev_ID e)"
      "distinct (map Ev_ID evs)"
      "events w' = (\<lambda>i. case find (\<lambda>e. Ev_ID e = i) evs of
         Some e \<Rightarrow> Some \<lparr>er_event = e, er_leaseUntil = None\<rparr> | None \<Rightarrow> events ?w i)"
      "endpoints w' = endpoints w"
    by auto
  have all: "map_each (\<lambda>e. enqueueToEndpoint (dlv_F c o') e ty data) (e # es) w = (Inr (?ev # evs), w')"
    using run by (simp add: attempt_apply enqueueToEndpoint_run org Let_def)
  have new: "Ev_ID ?ev \<notin> Ev_ID ` set evs"
    using ih(2) by (auto simp del: new_event_simps)
  have "\<forall>e \<in> set (?ev # evs). Ev_Status e = StatusPending \<and> fresh_event (dw_now w) org ty data e
      \<and> events w (Ev_ID e) = None \<and> \<not> minted ''evt_'' (dw_events_minted w) (Ev_ID e)"
    using ih(2) fresh by (auto simp: fresh_event_def minted_Suc split: if_splits)
  moreover have "events w' = (\<lambda>i. case find (\<lambda>e. Ev_ID e = i) (?ev # evs) of
         Some e \<Rightarrow> Some \<lparr>er_event = e, er_leaseUntil = None\<rparr> | None \<Rightarrow> events w i)"
  proof (rule ext)
    fix i
    show "events w' i = (case find (\<lambda>e. Ev_ID e = i) (?ev # evs) of
         Some e \<Rightarrow> Some \<lparr>er_event = e, er_leaseUntil = None\<rparr> | None \<Rightarrow> events w i)"
    proof (cases "i = Ev_ID ?ev")
      case True
      then have "find (\<lambda>e. Ev_ID e = i) evs = None" using new by (auto simp: find_None_iff intro: rev_image_eqI)
      with True show ?thesis by (simp add: ih(4))
    next
      case False
      then show ?thesis by (simp add: ih(4) split: option.split)
    qed
  qed
  ultimately show ?case using all ih(1,3,5) new by (intro exI [of _ "?ev # evs"] exI [of _ w']) simp
qed

lemma endpoints_listed:
  assumes "dlv_store_inv (dw_store w)"
  shows "e \<in> set (sortEndpointsOldestFirst (endpointsForOrg (ds_endpoints (dw_store w)) org)) \<longleftrightarrow>
    endpoints w (EP_ID e) = Some e \<and> EP_OrgID e = org"
  using rows_lookup [of EP_ID "ds_endpoints (dw_store w)" e] assms
  by (auto simp: sortEndpointsOldestFirst_def endpointsForOrg_def endpoints_def dlv_store_inv_def)

text \<open>
  C12: \<open>Enqueue\<close> fans out exactly. It always succeeds: when the organization has enabled endpoints whose
  filter takes the event type, there is one pending event for each of them and no other, each under
  a fresh id; when it has none, a single \<open>NO_ENDPOINT\<close> placeholder addressed to nobody. Every new event
  carries the marshalled envelope with its own id, is due at once and has no attempts; every event
  already in the outbox, and every endpoint, is untouched.
\<close>

theorem Enqueue_fan_out:
  assumes "dlv_inv w"
  shows "\<exists>evs w' targets. dlv_Enqueue (dlv_F c o') org ty data w = (Inr evs, w')
    \<and> set targets = {e. endpoints w (EP_ID e) = Some e \<and> EP_OrgID e = org \<and> EP_IsEnabled e \<and> MatchesEventType e ty}
    \<and> distinct targets
    \<and> (if targets = [] then \<exists>e. evs = [e] \<and> Ev_Status e = StatusNoEndpoint \<and> Ev_EndpointID e = []
       else map Ev_EndpointID evs = map EP_ID targets \<and> (\<forall>e \<in> set evs. Ev_Status e = StatusPending))
    \<and> (\<forall>e \<in> set evs. fresh_event (dw_now w) org ty data e \<and> events w (Ev_ID e) = None
         \<and> events w' (Ev_ID e) = Some \<lparr>er_event = e, er_leaseUntil = None\<rparr>)
    \<and> distinct (map Ev_ID evs)
    \<and> (\<forall>i. i \<notin> Ev_ID ` set evs \<longrightarrow> events w' i = events w i) \<and> endpoints w' = endpoints w"
proof -
  have inv: "dlv_store_inv (dw_store w)" and
    mi: "\<forall>i. events w i \<noteq> None \<longrightarrow> minted ''evt_'' (dw_events_minted w) i"
    using assms by (auto simp: dlv_inv_def)
  define all where "all = sortEndpointsOldestFirst (endpointsForOrg (ds_endpoints (dw_store w)) org)"
  define targets where "targets = matchingEnabledEndpoints all ty"
  have st: "set targets = {e. endpoints w (EP_ID e) = Some e \<and> EP_OrgID e = org \<and> EP_IsEnabled e
      \<and> MatchesEventType e ty}"
    using endpoints_listed [OF inv, of _ org] by (auto simp: targets_def matchingEnabledEndpoints_def all_def)
  have dt: "distinct targets"
  proof -
    have "distinct (map EP_ID (endpointsForOrg (ds_endpoints (dw_store w)) org))"
      unfolding endpointsForOrg_def using inv
      by (intro distinct_map_filter keyed_distinct_rows) (simp add: dlv_store_inv_def)
    then have "distinct (endpointsForOrg (ds_endpoints (dw_store w)) org)" by (simp add: distinct_map)
    then have "distinct all"
      using distinct_map_oldest_first_by [of id ep_key] by (simp add: all_def sortEndpointsOldestFirst_def)
    then show ?thesis by (simp add: targets_def matchingEnabledEndpoints_def)
  qed
  have run: "dlv_Enqueue (dlv_F c o') org ty data w =
    (if length targets = 0 then attempt (enqueueUnrouted (dlv_F c o') org ty data) (\<lambda>event. ok [event])
     else map_each (\<lambda>e. enqueueToEndpoint (dlv_F c o') e ty data) targets) w"
    by (simp add: dlv_Enqueue_def act_simps dlv_mem_ListEndpoints_def Let_def targets_def all_def)
  show ?thesis
  proof (cases "targets = []")
    case True
    let ?ev = "new_event w org [] ty data StatusNoEndpoint"
    have "dlv_Enqueue (dlv_F c o') org ty data w = (Inr [?ev], with_event ?ev (minting w))"
      using True by (simp add: run attempt_apply enqueueUnrouted_run Let_def)
    moreover have "events w (Ev_ID ?ev) = None" using mi not_minted by fastforce
    ultimately show ?thesis using st dt True
      by (intro exI [of _ "[?ev]"] exI [of _ "with_event ?ev (minting w)"] exI [of _ targets])
        (simp add: fresh_event_def)
  next
    case False
    have "\<forall>e \<in> set targets. EP_OrgID e = org" using st by blast
    from fan_out_run [OF this mi, of c o' ty data] obtain evs w' where
      r: "map_each (\<lambda>e. enqueueToEndpoint (dlv_F c o') e ty data) targets w = (Inr evs, w')"
        "map Ev_EndpointID evs = map EP_ID targets"
        "\<forall>e \<in> set evs. Ev_Status e = StatusPending \<and> fresh_event (dw_now w) org ty data e \<and> events w (Ev_ID e) = None"
        "distinct (map Ev_ID evs)"
        "events w' = (\<lambda>i. case find (\<lambda>e. Ev_ID e = i) evs of
           Some e \<Rightarrow> Some \<lparr>er_event = e, er_leaseUntil = None\<rparr> | None \<Rightarrow> events w i)"
        "endpoints w' = endpoints w" by blast
    have stored: "events w' (Ev_ID e) = Some \<lparr>er_event = e, er_leaseUntil = None\<rparr>" if "e \<in> set evs" for e
    proof -
      have "find (\<lambda>x. Ev_ID x = Ev_ID e) evs \<noteq> None" using that by (auto simp: find_None_iff)
      then obtain x where x: "find (\<lambda>x. Ev_ID x = Ev_ID e) evs = Some x" by blast
      from find_SomeD [OF x] have "x = e" using that r(4) by (auto simp: distinct_map inj_on_def)
      with x show ?thesis by (simp add: r(5))
    qed
    have other: "events w' i = events w i" if "i \<notin> Ev_ID ` set evs" for i
    proof -
      have "find (\<lambda>e. Ev_ID e = i) evs = None" using that by (auto simp: find_None_iff)
      then show ?thesis by (simp add: r(5))
    qed
    have "dlv_Enqueue (dlv_F c o') org ty data w = (Inr evs, w')" using False r(1) by (simp add: run)
    then show ?thesis using st dt False r(2-4,6) stored other
      by (intro exI [of _ evs] exI [of _ w'] exI [of _ targets]) auto
  qed
qed

section \<open>Examples\<close>

text \<open>
  An organization with one endpoint, a pending event, and a delivered one past its retention window.
\<close>

definition demo_endpoint :: Endpoint where
  "demo_endpoint = \<lparr>EP_ID = sequential_id ''wep_'' 0, EP_OrgID = ''org_1'', EP_URL = ''https://a.example'',
     EP_EventTypes = None, EP_Status = EndpointStatusEnabled, EP_ConsecutiveFailures = 0, EP_CreatedAt = 1\<rparr>"

definition demo_event :: "nat \<Rightarrow> Status \<Rightarrow> time \<Rightarrow> Event" where
  "demo_event n st t = \<lparr>Ev_ID = sequential_id ''evt_'' n, Ev_OrgID = ''org_1'', Ev_EndpointID = EP_ID demo_endpoint,
     Ev_Type = EventTypeTriggerEvent, Ev_Body = ''{}'', Ev_Status = st, Ev_Attempts = 0, Ev_NextAttemptAt = t,
     Ev_LastAttemptAt = None, Ev_CreatedAt = t\<rparr>"

definition dlv_demo :: dlv_world where
  "dlv_demo = \<lparr>dw_store = \<lparr>ds_endpoints = [(EP_ID demo_endpoint, demo_endpoint)],
       ds_events = [(sequential_id ''evt_'' 0, \<lparr>er_event = demo_event 0 StatusPending 5, er_leaseUntil = None\<rparr>),
         (sequential_id ''evt_'' 1, \<lparr>er_event = demo_event 1 StatusDelivered 6, er_leaseUntil = None\<rparr>)]\<rparr>,
     dw_access = acc_demo\<lparr>aw_webhooks := [(''whs_1'', \<lparr>WSS_ID = ''whs_1'', WSS_OrgID = ''org_1'',
        WSS_EndpointID = EP_ID demo_endpoint, WSS_DisplayPrefix = ''whsec_'',
        WSS_EncryptedSecret = ''bm5ubm5ubm5ubm5ubm5ubm5ubm5ubm5ud2hzZWNfYzJWag=='', WSS_CreatedAt = 1, WSS_ExpiresAt = None\<rparr>)]\<rparr>,
     dw_endpoints_minted = 1, dw_events_minted = 2, dw_now = 40 * day, dw_responses = [(200, None)],
     dw_posts = [], dw_log = [], dw_retention = [(''org_1'', 30)]\<rparr>"

definition demo_overrides :: dlv_overrides where
  "demo_overrides = \<lparr>DO_DeliveryTimeout = 0, DO_EndpointCap = 0, DO_AutoDisableThreshold = 0, DO_Jitter = None\<rparr>"

lemma dlv_demo_inv: "dlv_inv dlv_demo"
  by (auto simp: dlv_inv_def dlv_store_inv_def dlv_demo_def keyed_def events_def endpoints_def minted_def
      demo_event_def demo_endpoint_def split: if_splits)

lemma NextAttempt_within_ten_percent_witness:
  "let delay = afterFailureDelays ! delayIndex 3; wait = NextAttempt 7 3 (1 / 4) - 7 in
     delay = 30 * minute \<and> 9 * delay \<le> 10 * wait \<and> 10 * wait \<le> 11 * delay"
proof -
  have "afterFailureDelays ! delayIndex 3 = 30 * minute" by code_simp
  then show ?thesis using NextAttempt_within_ten_percent [of "1 / 4" 3 7] by (simp add: Let_def)
qed

lemma ClaimDue_leases_witness:
  "\<exists>r. dlv_mem_ClaimDue 9 10 1 (dw_store dlv_demo) = (Inr [demo_event 0 StatusPending 5], r)
     \<and> (\<exists>again r''. dlv_mem_ClaimDue 18 10 1 r = (Inr again, r'') \<and> sequential_id ''evt_'' 0 \<notin> Ev_ID ` set again)"
proof -
  obtain r where 1: "dlv_mem_ClaimDue 9 10 1 (dw_store dlv_demo) = (Inr [demo_event 0 StatusPending 5], r)"
    by (simp add: dlv_mem_ClaimDue_def dlv_demo_def isDueForClaim_def demo_event_def)
  obtain again r'' where 2: "dlv_mem_ClaimDue 18 10 1 r = (Inr again, r'')"
    by (simp add: dlv_mem_ClaimDue_def Let_def)
  have "dlv_store_inv (dw_store dlv_demo)" using dlv_demo_inv by (simp add: dlv_inv_def)
  from ClaimDue_leases [OF this 1 _ _ 2]
  have "Ev_ID ` set again \<inter> {sequential_id ''evt_'' 0} = {}" by (simp add: demo_event_def)
  then have "sequential_id ''evt_'' 0 \<notin> Ev_ID ` set again" by simp
  with 1 2 show ?thesis by blast
qed

lemma PurgeOnce_exact_witness:
  "\<exists>w'. dlv_PurgeOnce (dlv_F sample_crypto demo_overrides) dlv_demo = (Inr (), w')
     \<and> events w' (sequential_id ''evt_'' 0) = events dlv_demo (sequential_id ''evt_'' 0)
     \<and> events w' (sequential_id ''evt_'' 1) = None"
proof -
  have inv: "dlv_store_inv (dw_store dlv_demo)" using dlv_demo_inv by (simp add: dlv_inv_def)
  have "distinct (map fst (dw_retention dlv_demo))" by (simp add: dlv_demo_def)
  from PurgeOnce_exact [OF inv this, of sample_crypto demo_overrides] show ?thesis
    by (auto simp: events_def dlv_demo_def demo_event_def purged_by_def duration_defs)
qed

lemma Enqueue_fan_out_witness:
  "\<exists>e w'. dlv_Enqueue (dlv_F sample_crypto demo_overrides) ''org_2'' EventTypeTriggerEvent None dlv_demo = (Inr [e], w')
     \<and> Ev_Status e = StatusNoEndpoint \<and> events dlv_demo (Ev_ID e) = None"
proof -
  have "{e. endpoints dlv_demo (EP_ID e) = Some e \<and> EP_OrgID e = ''org_2'' \<and> EP_IsEnabled e
     \<and> MatchesEventType e EventTypeTriggerEvent} = {}"
    by (auto simp: endpoints_def dlv_demo_def demo_endpoint_def)
  with Enqueue_fan_out [OF dlv_demo_inv, of sample_crypto demo_overrides "''org_2''" EventTypeTriggerEvent None]
  show ?thesis by auto
qed

end
