(* ===== verification/DeliveryDispatch.thy ===== *)
theory DeliveryDispatch
  imports DeliveryOutbox
begin

text \<open>
  One attempt of the dispatcher over the in-memory adapters: what is posted, what becomes of the event
  and of its endpoint, how repeated failures disable an endpoint, and what a receiver can check
  of the signature.
\<close>

section \<open>One attempt\<close>

text \<open>What the bookkeeping makes of an endpoint whose event ended in a status.\<close>

definition booked :: "int \<Rightarrow> Status \<Rightarrow> Endpoint \<Rightarrow> Endpoint" where
  "booked threshold status e =
     (case status of
        StatusDelivered \<Rightarrow> e\<lparr>EP_ConsecutiveFailures := 0\<rparr>
      | StatusFailed \<Rightarrow>
          if EP_ConsecutiveFailures e + 1 \<ge> threshold
          then e\<lparr>EP_ConsecutiveFailures := EP_ConsecutiveFailures e + 1, EP_Status := EndpointStatusDisabledAuto\<rparr>
          else e\<lparr>EP_ConsecutiveFailures := EP_ConsecutiveFailures e + 1\<rparr>
      | _ \<Rightarrow> e)"

lemma booked_simps [simp]:
  "EP_ID (booked th st e) = EP_ID e" "EP_OrgID (booked th st e) = EP_OrgID e"
  "EP_URL (booked th st e) = EP_URL e" "EP_EventTypes (booked th st e) = EP_EventTypes e"
  "EP_CreatedAt (booked th st e) = EP_CreatedAt e"
  by (simp_all add: booked_def split: Status.split)

lemma endpoints_update [simp]:
  "endpoints (w\<lparr>dw_store := (dw_store w)\<lparr>ds_endpoints := put i e (ds_endpoints (dw_store w))\<rparr>\<rparr>) =
     (endpoints w)(i \<mapsto> e)"
  "endpoints (w\<lparr>dw_store := (dw_store w)\<lparr>ds_events := es\<rparr>\<rparr>) = endpoints w"
  "events (w\<lparr>dw_store := (dw_store w)\<lparr>ds_endpoints := eps\<rparr>\<rparr>) = events w"
  by (auto simp: endpoints_def events_def)

lemma applyAutoDisable_run:
  assumes "endpoints w (EP_ID e) = Some e"
  obtains w' where "applyAutoDisableBookkeeping (dlv_F c o') e st w = (Inr (), w')"
    and "endpoints w' = (endpoints w)(EP_ID e \<mapsto> booked (dlv_autoDisableThreshold (dlv_F c o')) st e)"
    and "events w' = events w" and "w'\<lparr>dw_store := dw_store w\<rparr> = w"
proof -
  have same: "(endpoints w)(EP_ID e \<mapsto> e) = endpoints w" using assms by (rule map_upd_triv)
  have zero: "e\<lparr>EP_ConsecutiveFailures := 0\<rparr> = e" if "EP_ConsecutiveFailures e = 0"
    using that by (cases e) simp
  have "\<exists>w'. applyAutoDisableBookkeeping (dlv_F c o') e st w = (Inr (), w')
    \<and> endpoints w' = (endpoints w)(EP_ID e \<mapsto> booked (dlv_autoDisableThreshold (dlv_F c o')) st e)
    \<and> events w' = events w \<and> w'\<lparr>dw_store := dw_store w\<rparr> = w"
    by (cases st)
      (auto simp: applyAutoDisableBookkeeping_def act_simps dlv_mem_SaveEndpoint_def booked_def Let_def same zero)
  then show ?thesis using that by blast
qed

lemma resolve_run:
  assumes "dlv_store_inv (dw_store w)"
    and "resolveDispatchEndpoint (dlv_F c o') e w = (Inr (Some ep), w1)"
  shows "w1 = w" and "endpoints w (EP_ID ep) = Some ep" and "EP_OrgID ep = Ev_OrgID e"
    and "Ev_EndpointID e \<noteq> [] \<Longrightarrow> EP_ID ep = Ev_EndpointID e"
proof -
  have k: "keyed EP_ID (ds_endpoints (dw_store w))" using assms(1) by (simp add: dlv_store_inv_def)
  have hd: "sortEndpointsOldestFirst xs ! 0 \<in> set xs" if "xs \<noteq> []" for xs
  proof -
    have "sortEndpointsOldestFirst xs ! 0 \<in> set (sortEndpointsOldestFirst xs)"
      using that by (intro nth_mem) (simp add: sortEndpointsOldestFirst_def)
    then show ?thesis by (simp add: sortEndpointsOldestFirst_def)
  qed
  have "w1 = w \<and> endpoints w (EP_ID ep) = Some ep \<and> EP_OrgID ep = Ev_OrgID e
    \<and> (Ev_EndpointID e \<noteq> [] \<longrightarrow> EP_ID ep = Ev_EndpointID e)"
  proof (cases "Ev_EndpointID e = []")
    case True
    let ?xs = "endpointsForOrg (ds_endpoints (dw_store w)) (Ev_OrgID e)"
    have "?xs \<noteq> [] \<and> w1 = w \<and> ep = sortEndpointsOldestFirst ?xs ! 0"
      using assms(2) True
      by (auto simp: resolveDispatchEndpoint_def act_simps dlv_mem_FindEndpoint_def Let_def split: if_splits)
    moreover from this have "ep \<in> set ?xs" using hd by blast
    ultimately show ?thesis using True rows_lookup [OF k, of ep]
      by (auto simp: endpointsForOrg_def endpoints_def)
  next
    case False
    then show ?thesis using assms(2) keyed_lookup [OF k]
      by (auto simp: resolveDispatchEndpoint_def act_simps dlv_mem_FindEndpointByID_def endpoints_def
          split: option.splits if_splits)
  qed
  then show "w1 = w" and "endpoints w (EP_ID ep) = Some ep" and "EP_OrgID ep = Ev_OrgID e"
    and "Ev_EndpointID e \<noteq> [] \<Longrightarrow> EP_ID ep = Ev_EndpointID e" by blast+
qed

text \<open>The jitter the memory facade is configured with.\<close>

definition jitter_of :: "dlv_overrides \<Rightarrow> rat" where
  "jitter_of o' = (case DO_Jitter o' of None \<Rightarrow> 1 / 2 | Some j \<Rightarrow> j)"

lemma applyAttemptOutcome_jitter:
  "(err = None \<and> isSuccessStatus s) \<or> IsExhausted n \<Longrightarrow>
     applyAttemptOutcome e s err now n j = applyAttemptOutcome e s err now n j'"
  by (auto simp: applyAttemptOutcome_def Let_def)

text \<open>
  C13: One attempt of the dispatcher. Over an endpoint that exists and secrets that sign, \<open>dispatchOne\<close>
  posts exactly one request, to the endpoint's URL, with the signature headers and the event's own body;
  stores the event with what the answer makes of it (and no lease), books the outcome on the endpoint and
  records the attempt under its number; no other event and no other endpoint is touched.
\<close>

theorem dispatchOne_effect:
  assumes "dlv_store_inv (dw_store w)"
    and "resolveDispatchEndpoint (dlv_F c o') e w = (Inr (Some ep), w)"
    and "dlv_secrets_ActiveWebhookSecrets (dlv_F c o') (Ev_OrgID e) (EP_ID ep) w = (Inr secrets, w)"
    and "Sign c (Ev_ID e) (dw_now w) (Ev_Body e) secrets = Inr h"
    and "dw_responses w = (status, err) # rest"
  shows "\<exists>w'. dispatchOne (dlv_F c o') e w = (Inr (), w')
    \<and> dw_posts w' = dw_posts w @ [(EP_URL ep, SH_Headers h, Ev_Body e)]
    \<and> (let e' = applyAttemptOutcome e status err (dw_now w) (Ev_Attempts e + 1) (jitter_of o') in
         events w' = (events w)(Ev_ID e \<mapsto> \<lparr>er_event = e', er_leaseUntil = None\<rparr>)
         \<and> endpoints w' = (endpoints w)(EP_ID ep \<mapsto>
              booked (dlv_autoDisableThreshold (dlv_F c o')) (Ev_Status e') ep))
    \<and> dw_log w' = dw_log w @ [\<lparr>DLE_OrgID = Ev_OrgID e, DLE_EventID = Ev_ID e, DLE_EventType = Ev_Type e,
         DLE_Attempt = Ev_Attempts e + 1, DLE_Status = status, DLE_DurationMs = 0\<rparr>]
    \<and> dw_responses w' = rest \<and> dw_access w' = dw_access w"
proof -
  let ?n = "Ev_Attempts e + 1"
  define e' where "e' = applyAttemptOutcome e status err (dw_now w) ?n (jitter_of o')"
  define w1 where "w1 = w\<lparr>dw_responses := rest, dw_posts := dw_posts w @ [(EP_URL ep, SH_Headers h, Ev_Body e)]\<rparr>"
  define w2 where "w2 = w1\<lparr>dw_store := (dw_store w1)\<lparr>ds_events :=
     put (Ev_ID e) \<lparr>er_event = e', er_leaseUntil = None\<rparr> (ds_events (dw_store w1))\<rparr>\<rparr>"
  have ep: "endpoints w (EP_ID ep) = Some ep" by (rule resolve_run(2) [OF assms(1,2)])
  have views: "endpoints w2 = endpoints w"
    "events w2 = (events w)(Ev_ID e \<mapsto> \<lparr>er_event = e', er_leaseUntil = None\<rparr>)"
    by (auto simp: w2_def w1_def endpoints_def events_def)
  have "endpoints w2 (EP_ID ep) = Some ep" using ep by (simp add: views)
  from applyAutoDisable_run [OF this, of c o' "Ev_Status e'"] obtain w3 where
    book: "applyAutoDisableBookkeeping (dlv_F c o') ep (Ev_Status e') w2 = (Inr (), w3)"
    and w3: "endpoints w3 = (endpoints w)(EP_ID ep \<mapsto>
        booked (dlv_autoDisableThreshold (dlv_F c o')) (Ev_Status e') ep)"
      "events w3 = events w2" "w3\<lparr>dw_store := dw_store w2\<rparr> = w2"
    unfolding views(1) by blast
  have sec: "on_access (acc_ActiveWebhookSecrets (acc_memory_facade c) (Ev_OrgID e) (EP_ID ep)) w = (Inr secrets, w)"
    using assms(3) by simp
  have post: "signAndPost (dlv_F c o') (EP_URL ep) e (dw_now w) secrets w = ((status, err), w1)"
    by (simp add: signAndPost_def assms(4,5) receiver_Post_def w1_def)
  have jit: "applyAttemptOutcome e status err (dw_now w) ?n
      (if (err = None \<and> isSuccessStatus status) \<or> IsExhausted ?n then 0 else jitter_of o') = e'"
    using applyAttemptOutcome_jitter [of err status ?n e "dw_now w" 0 "jitter_of o'"] by (simp add: e'_def)
  have save: "on_dlv (dlv_mem_SaveEvent e') w1 = (Inr (), w2)"
    by (simp add: zoom_apply dlv_mem_SaveEvent_def w2_def e'_def)
  have now: "dw_now w1 = dw_now w" by (simp add: w1_def)
  have draw: "(if (err = None \<and> isSuccessStatus status) \<or> IsExhausted ?n then (\<lambda>s. (0, s))
      else (\<lambda>w. (jitter_of o', w))) w1 =
    ((if (err = None \<and> isSuccessStatus status) \<or> IsExhausted ?n then 0 else jitter_of o'), w1)" by simp
  have run: "dispatchOne (dlv_F c o') e w = recordAttempt (dlv_F c o') e ?n status 0 w3"
    unfolding dispatchOne_def attempt_apply call_apply assms(2) prod.case sum.case option.case Let_def
      dlv_memory_ops sec jitter_of_def [symmetric] post now draw jit save book by simp
  have fin: "recordAttempt (dlv_F c o') e ?n status 0 w3 = (Inr (), w3\<lparr>dw_log := dw_log w3 @
      [\<lparr>DLE_OrgID = Ev_OrgID e, DLE_EventID = Ev_ID e, DLE_EventType = Ev_Type e, DLE_Attempt = ?n,
        DLE_Status = status, DLE_DurationMs = 0\<rparr>]\<rparr>)"
    by (simp add: recordAttempt_def recordAttemptMetric_def call_apply Milliseconds_def)
  have rest: "dw_posts w3 = dw_posts w2" "dw_log w3 = dw_log w2" "dw_responses w3 = dw_responses w2"
    "dw_access w3 = dw_access w2"
    using arg_cong [OF w3(3), of dw_posts] arg_cong [OF w3(3), of dw_log]
      arg_cong [OF w3(3), of dw_responses] arg_cong [OF w3(3), of dw_access] by simp_all
  show ?thesis unfolding run fin Let_def e'_def [symmetric]
    by (rule exI, rule conjI [OF refl])
      (use w3 views rest in \<open>simp_all add: events_def endpoints_def w2_def w1_def\<close>)
qed

text \<open>
  An event whose endpoint is gone is neither attempted nor settled: \<open>dispatchOne\<close> does nothing, so the
  event stays pending and is claimed again after every lease.
\<close>

lemma dispatchOne_without_endpoint:
  assumes "resolveDispatchEndpoint (dlv_F c o') e w = (Inr None, w)"
  shows "dispatchOne (dlv_F c o') e w = (Inr (), w)"
  by (simp add: dispatchOne_def attempt_apply assms)

lemma deleted_endpoint_strands_events:
  assumes "dlv_DeleteEndpoint (dlv_F c o') org i w = (Inr (), w')" and "Ev_EndpointID e = i" and "i \<noteq> []"
    and "Ev_OrgID e = org"
  shows "dispatchOne (dlv_F c o') e w' = (Inr (), w')"
proof (rule dispatchOne_without_endpoint)
  have "map_of (ds_endpoints (dw_store w')) i = None"
    using assms(1)
    by (auto simp: dlv_DeleteEndpoint_def act_simps dlv_mem_FindEndpointByID_def dlv_mem_DeleteEndpoint_def
        split: option.splits if_splits)
  then show "resolveDispatchEndpoint (dlv_F c o') e w' = (Inr None, w')"
    using assms(2-4) by (simp add: resolveDispatchEndpoint_def act_simps dlv_mem_FindEndpointByID_def)
qed

section \<open>Disabling an endpoint that keeps failing\<close>

text \<open>The bookkeeping of a run of settled attempts on one endpoint, read again for each.\<close>

fun bookkeep_all :: "'s dlv_facade \<Rightarrow> OrgID \<Rightarrow> EndpointID \<Rightarrow> Status list \<Rightarrow> ('s, unit) act" where
  "bookkeep_all f org i [] = ok ()"
| "bookkeep_all f org i (st # sts) =
     attempt (dlv_repo_FindEndpointByID f org i) (\<lambda>found.
     case found of
       None \<Rightarrow> ok ()
     | Some e \<Rightarrow> attempt (applyAutoDisableBookkeeping f e st) (\<lambda>_. bookkeep_all f org i sts))"

lemma bookkeep_all_run:
  assumes "endpoints w i = Some e" and "EP_ID e = i" and "EP_OrgID e = org"
  shows "\<exists>w'. bookkeep_all (dlv_F c o') org i sts w = (Inr (), w')
    \<and> endpoints w' = (endpoints w)(i \<mapsto> fold (booked (dlv_autoDisableThreshold (dlv_F c o'))) sts e)
    \<and> events w' = events w"
  using assms
proof (induction sts arbitrary: w e)
  case Nil
  then show ?case by (simp add: map_upd_triv)
next
  case (Cons st sts)
  let ?th = "dlv_autoDisableThreshold (dlv_F c o')"
  have find: "dlv_repo_FindEndpointByID (dlv_F c o') org i w = (Inr (Some e), w)"
    using Cons.prems by (simp add: act_simps dlv_mem_FindEndpointByID_def endpoints_def)
  have "endpoints w (EP_ID e) = Some e" using Cons.prems by simp
  from applyAutoDisable_run [OF this, of c o' st] obtain w1 where
    1: "applyAutoDisableBookkeeping (dlv_F c o') e st w = (Inr (), w1)"
      "endpoints w1 = (endpoints w)(EP_ID e \<mapsto> booked ?th st e)" "events w1 = events w" by blast
  have "endpoints w1 i = Some (booked ?th st e)" using 1(2) Cons.prems(2) by simp
  moreover have "EP_ID (booked ?th st e) = i" "EP_OrgID (booked ?th st e) = org" using Cons.prems by simp_all
  ultimately obtain w' where
    2: "bookkeep_all (dlv_F c o') org i sts w1 = (Inr (), w')"
      "endpoints w' = (endpoints w1)(i \<mapsto> fold (booked ?th) sts (booked ?th st e))" "events w' = events w1"
    using Cons.IH by blast
  have "bookkeep_all (dlv_F c o') org i (st # sts) w = (Inr (), w')"
    unfolding bookkeep_all.simps attempt_apply find prod.case sum.case option.case 1(1) by (rule 2(1))
  then show ?case using 1 2 Cons.prems(2) by (simp add: fun_eq_iff)
qed

definition trailing :: "'a \<Rightarrow> 'a list \<Rightarrow> nat" where
  "trailing x xs = length (takeWhile (\<lambda>y. y = x) (rev xs))"

lemma trailing_snoc: "trailing x (xs @ [y]) = (if y = x then Suc (trailing x xs) else 0)"
  by (simp add: trailing_def)

lemma trailing_iff: "k \<le> trailing x xs \<longleftrightarrow> (\<exists>as. xs = as @ replicate k x)"
proof (induction xs arbitrary: k rule: rev_induct)
  case Nil
  then show ?case by (auto simp: trailing_def)
next
  case (snoc y xs)
  show ?case
  proof (cases k)
    case (Suc n)
    have r: "as @ replicate (Suc n) x = (as @ replicate n x) @ [x]" for as by (simp add: replicate_append_same)
    have "(\<exists>as. xs @ [y] = as @ replicate (Suc n) x) \<longleftrightarrow> y = x \<and> (\<exists>as. xs = as @ replicate n x)"
      unfolding r append1_eq_conv by blast
    then show ?thesis using snoc.IH [of n] by (simp add: Suc trailing_snoc)
  qed simp
qed

definition has_run :: "nat \<Rightarrow> 'a \<Rightarrow> 'a list \<Rightarrow> bool" where
  "has_run k x xs \<longleftrightarrow> (\<exists>as bs. xs = as @ replicate k x @ bs)"

lemma has_run_snoc: "0 < k \<Longrightarrow> has_run k x (xs @ [y]) \<longleftrightarrow> has_run k x xs \<or> k \<le> trailing x (xs @ [y])"
proof
  assume k: "0 < k" and "has_run k x (xs @ [y])"
  then obtain as bs where e: "xs @ [y] = as @ replicate k x @ bs" by (auto simp: has_run_def)
  show "has_run k x xs \<or> k \<le> trailing x (xs @ [y])"
  proof (cases bs rule: rev_cases)
    case Nil
    then show ?thesis using e by (auto simp: trailing_iff)
  next
    case (snoc cs c)
    then have "xs = as @ replicate k x @ cs" using e by simp
    then show ?thesis by (auto simp: has_run_def)
  qed
next
  assume "has_run k x xs \<or> k \<le> trailing x (xs @ [y])"
  then show "has_run k x (xs @ [y])"
  proof
    assume "has_run k x xs"
    then show ?thesis unfolding has_run_def by force
  next
    assume "k \<le> trailing x (xs @ [y])"
    then obtain as where "xs @ [y] = as @ replicate k x" by (auto simp: trailing_iff)
    then show ?thesis unfolding has_run_def by (metis append_Nil2)
  qed
qed

abbreviation settled :: "Status \<Rightarrow> bool" where
  "settled st \<equiv> st \<in> {StatusDelivered, StatusFailed}"

lemma fold_booked:
  assumes "EP_Status e = EndpointStatusEnabled" and "EP_ConsecutiveFailures e = 0" and "0 < th"
  shows "EP_ConsecutiveFailures (fold (booked th) sts e) = int (trailing StatusFailed (filter settled sts))
    \<and> EP_Status (fold (booked th) sts e) =
        (if has_run (nat th) StatusFailed (filter settled sts) then EndpointStatusDisabledAuto
         else EndpointStatusEnabled)"
proof (induction sts rule: rev_induct)
  case Nil
  then show ?case using assms by (simp add: trailing_def has_run_def)
next
  case (snoc st sts)
  have k: "0 < nat th" using assms(3) by simp
  show ?case
    using snoc.IH assms(3)
    by (cases st) (simp_all add: booked_def trailing_snoc has_run_snoc [OF k] nat_le_iff)
qed

lemma threshold_positive: "0 < dlv_autoDisableThreshold (dlv_F c o')"
  by (simp add: dlv_memory_facade_def defaultTestAutoDisableThreshold_def)

text \<open>
  Auto-disable is exact. Whatever the attempts on a healthy endpoint end in, its failure count is
  the number of events that failed for good since the last delivery, and it is disabled exactly when
  at some point as many in a row had failed as the threshold says: a retry that is still pending
  counts for nothing and one delivery starts the count again.
\<close>

theorem auto_disable_exact:
  assumes "endpoints w i = Some e" and "EP_ID e = i" and "EP_OrgID e = org"
    and "EP_IsEnabled e" and "EP_ConsecutiveFailures e = 0"
  shows "\<exists>w' e'. bookkeep_all (dlv_F c o') org i sts w = (Inr (), w')
    \<and> endpoints w' = (endpoints w)(i \<mapsto> e') \<and> events w' = events w
    \<and> EP_ConsecutiveFailures e' = int (length (takeWhile (\<lambda>st. st = StatusFailed) (rev (filter settled sts))))
    \<and> (EP_IsEnabled e' \<longleftrightarrow> (\<nexists>as bs. filter settled sts =
          as @ replicate (nat (dlv_autoDisableThreshold (dlv_F c o'))) StatusFailed @ bs))"
proof -
  let ?th = "dlv_autoDisableThreshold (dlv_F c o')"
  from bookkeep_all_run [OF assms(1-3)] obtain w' where
    w': "bookkeep_all (dlv_F c o') org i sts w = (Inr (), w')"
      "endpoints w' = (endpoints w)(i \<mapsto> fold (booked ?th) sts e)" "events w' = events w" by blast
  have "EP_Status e = EndpointStatusEnabled" using assms(4) by (simp add: EP_IsEnabled_def)
  note f = fold_booked [OF this assms(5) threshold_positive [of c o'], of sts, unfolded trailing_def has_run_def]
  show ?thesis
    by (rule exI [of _ w'], rule exI [of _ "fold (booked ?th) sts e"])
      (use w' f in \<open>simp add: EP_IsEnabled_def del: filter.simps\<close>)
qed

section \<open>What a receiver can check\<close>

text \<open>
  \<open>test/support/fake_receiver.go\<close> recomputes a signature without the signer's code. \<open>strings.Fields\<close>
  is given for ASCII texts, which every signature header is; \<open>Headers.Get\<close> is a lookup.
\<close>

definition ascii_space :: "char \<Rightarrow> bool" where
  "ascii_space c \<longleftrightarrow> byte_val c \<in> {9, 10, 11, 12, 13, 32}"

definition Fields :: "string \<Rightarrow> string list" where
  "Fields s = filter (\<lambda>f. f \<noteq> []) (Split (CHR '' '') (map (\<lambda>c. if ascii_space c then CHR '' '' else c) s))"

definition header_Get :: "(string \<times> string) list \<Rightarrow> string \<Rightarrow> string" where
  "header_Get headers name = (case map_of headers name of None \<Rightarrow> [] | Some v \<Rightarrow> v)"

definition VerifyFakeReceiverSignature ::
  "crypto \<Rightarrow> (string \<times> string) list \<Rightarrow> string \<Rightarrow> string \<Rightarrow> bool" where
  "VerifyFakeReceiverSignature c headers body secret =
     (let i = header_Get headers ''webhook-id'';
          timestamp = header_Get headers ''webhook-timestamp'';
          signatureHeader = header_Get headers ''webhook-signature''
      in if i = [] \<or> timestamp = [] \<or> signatureHeader = [] then False
         else (case DecodeString StdEncoding (TrimPrefix secret ''whsec_'') of
                 None \<Rightarrow> False
               | Some key \<Rightarrow>
                   (let content = i @ ''.'' @ timestamp @ ''.'' @ body;
                        want = ''v1,'' @ EncodeToString StdEncoding (hmacSHA256 c key content)
                    in list_ex (\<lambda>v. v = want) (Fields signatureHeader))))"

lemma sextet_char_above: "v < 64 \<Longrightarrow> 43 \<le> byte_val (sextet_char enc v)"
  by (cases enc) (auto simp: sextet_char_val)

lemma Encode_above: "x \<in> set (EncodeToString enc s) \<Longrightarrow> 43 \<le> byte_val x"
proof (rule ccontr)
  assume x: "x \<in> set (EncodeToString enc s)" and lt: "\<not> 43 \<le> byte_val x"
  have "x \<noteq> CHR ''=''" using lt by auto
  moreover have "sextet_char enc v \<noteq> x" if "v < 64" for v using sextet_char_above [OF that, of enc] lt by auto
  ultimately show False using EncodeToString_chars x by blast
qed

lemma signature_value_no_space:
  "x \<in> set (SignaturePrefix @ EncodeToString StdEncoding s) \<Longrightarrow> \<not> ascii_space x"
  using Encode_above [of x StdEncoding s] by (auto simp: SignaturePrefix_def ascii_space_def)

lemma SignaturePrefix_nonempty: "SignaturePrefix @ s \<noteq> []"
  by (simp add: SignaturePrefix_def)

lemma signature_values_Inr:
  "signature_values c content secrets = Inr vs \<Longrightarrow>
     list_all2 (\<lambda>v secret. \<exists>key. decodeSecretKey secret = Inr key
       \<and> v = SignaturePrefix @ EncodeToString StdEncoding (hmacSHA256 c key content)) vs secrets"
  by (induction secrets arbitrary: vs) (auto simp: signatureValue_def split: sum.splits)

lemma Join_map_id: "\<forall>v \<in> set vs. \<forall>x \<in> set v. \<not> ascii_space x \<Longrightarrow>
    map (\<lambda>c. if ascii_space c then CHR '' '' else c) (Join vs '' '') = Join vs '' ''"
  by (induction vs "'' ''" rule: Join.induct) (auto simp: map_idI)

lemma Fields_Join:
  assumes "\<forall>v \<in> set vs. v \<noteq> [] \<and> (\<forall>x \<in> set v. \<not> ascii_space x)"
  shows "Fields (Join vs '' '') = vs"
proof (cases "vs = []")
  case False
  have "ascii_space (CHR '' '')" by (simp add: ascii_space_def)
  then have "\<forall>v \<in> set vs. CHR '' '' \<notin> set v" using assms by blast
  from Split_Join [OF False this] have "Split (CHR '' '') (Join vs '' '') = vs" .
  then show ?thesis using assms Join_map_id [of vs] by (simp add: Fields_def)
qed (simp add: Fields_def)

lemma itoa_chars: "c \<in> set (itoa n) \<Longrightarrow> GoTime.is_digit c \<or> c = CHR ''-''"
  by (auto simp: itoa_def dest: digits_of_nat_digits split: if_splits)

lemma digits_of_nat_nonempty [simp]: "digits_of_nat n \<noteq> []"
  by (subst digits_of_nat.simps) simp

lemma itoa_facts: "itoa n \<noteq> []" "CHR ''.'' \<notin> set (itoa n)"
  using itoa_chars [of "CHR ''.''" n] by (auto simp: itoa_def GoTime.is_digit_def digit_value_def)

lemma cut_unique: "x \<notin> set a \<Longrightarrow> x \<notin> set a' \<Longrightarrow> a @ x # b = a' @ x # b' \<Longrightarrow> a = a' \<and> b = b'"
proof (induction a arbitrary: a')
  case Nil
  then show ?case by (cases a') auto
next
  case (Cons y a)
  then show ?case by (cases a') auto
qed

lemma signedContent_inj:
  assumes "CHR ''.'' \<notin> set i" "CHR ''.'' \<notin> set ts" "CHR ''.'' \<notin> set i'" "CHR ''.'' \<notin> set ts'"
    and "signedContent i ts body = signedContent i' ts' body'"
  shows "i = i' \<and> ts = ts' \<and> body = body'"
proof -
  note cut = cut_unique [of "CHR ''.''"]
  have "i = i' \<and> ts @ CHR ''.'' # body = ts' @ CHR ''.'' # body'"
    by (rule cut [OF assms(1,3)]) (use assms(5) in \<open>simp add: signedContent_def\<close>)
  then show ?thesis using cut [OF assms(2,4)] by blast
qed

text \<open>
  C16: Every delivery can be verified. When signing succeeds, the headers carry the event's id and the
  second it was signed at, and one signature value per secret; a receiver that holds any one of the
  secrets accepts the request by its own computation, so both secrets verify during the overlap of
  a rotation. The signed text determines the id, the timestamp and the body: a request that
  changes one of them needs another HMAC.
\<close>

theorem Sign_verifies:
  assumes "Sign c i t body secrets = Inr h" and "i \<noteq> []" and "secret \<in> set secrets" and "CHR ''.'' \<notin> set i"
  shows "VerifyFakeReceiverSignature c (SH_Headers h) body secret
    \<and> SH_ID h = i \<and> SH_Timestamp h = itoa (Unix t) \<and> length (Fields (SH_Signature h)) = length secrets
    \<and> (\<forall>i' ts' body'. CHR ''.'' \<notin> set i' \<and> CHR ''.'' \<notin> set ts'
         \<and> signedContent i' ts' body' = signedContent (SH_ID h) (SH_Timestamp h) body
         \<longrightarrow> i' = i \<and> ts' = itoa (Unix t) \<and> body' = body)"
proof -
  from assms(1) obtain vs where vs: "signature_values c (signedContent i (itoa (Unix t)) body) secrets = Inr vs"
    and h: "h = \<lparr>SH_ID = i, SH_Timestamp = itoa (Unix t), SH_Signature = Join vs '' ''\<rparr>"
    by (auto simp: Sign_def Let_def split: sum.splits)
  note all = signature_values_Inr [OF vs]
  have "\<exists>s. v = SignaturePrefix @ EncodeToString StdEncoding s" if "v \<in> set vs" for v
    using all that by (auto simp: list_all2_conv_all_nth in_set_conv_nth)
  then have "\<forall>v \<in> set vs. v \<noteq> [] \<and> (\<forall>x \<in> set v. \<not> ascii_space x)"
    using signature_value_no_space SignaturePrefix_nonempty by blast
  then have fields: "Fields (Join vs '' '') = vs" by (rule Fields_Join)
  from all assms(3) obtain v key where v: "v \<in> set vs" "decodeSecretKey secret = Inr key"
    "v = SignaturePrefix @ EncodeToString StdEncoding (hmacSHA256 c key (signedContent i (itoa (Unix t)) body))"
    by (auto simp: list_all2_conv_all_nth in_set_conv_nth) blast
  have "DecodeString StdEncoding (TrimPrefix secret ''whsec_'') = Some key"
    using v(2) by (auto simp: decodeSecretKey_def WebhookSecretPrefixText_def split: option.splits)
  moreover have "Join vs '' '' \<noteq> []" using fields v(1) by (auto simp: Fields_def)
  ultimately have "VerifyFakeReceiverSignature c (SH_Headers h) body secret"
    using v(1,3) fields assms(2) itoa_facts(1)
    by (auto simp: VerifyFakeReceiverSignature_def Let_def h SH_Headers_def header_Get_def signedContent_def
        SignaturePrefix_def list_ex_iff)
  moreover have "length vs = length secrets" using all by (rule list_all2_lengthD)
  ultimately show ?thesis
    using signedContent_inj [OF _ _ assms(4) itoa_facts(2)] fields by (simp add: h) blast
qed

section \<open>Examples\<close>

lemma dlv_demo_secrets:
  "dlv_secrets_ActiveWebhookSecrets (dlv_F sample_crypto demo_overrides) ''org_1'' (EP_ID demo_endpoint) dlv_demo
     = (Inr [''whsec_c2Vj''], dlv_demo)"
proof -
  have "vault_Decrypt sample_crypto ''bm5ubm5ubm5ubm5ubm5ubm5ubm5ubm5ud2hzZWNfYzJWag=='' = Inr ''whsec_c2Vj''"
    by code_simp
  then show ?thesis
    by (simp add: act_simps acc_ActiveWebhookSecrets_def dlv_demo_def wss_mem_ListByEndpoint_def
        sortWebhookSecretsByCreatedAt_def oldest_first_by_def WSS_IsExpired_def del: append.simps)
qed

lemma sample_Sign: "\<exists>h. Sign sample_crypto i t body [''whsec_c2Vj''] = Inr h"
proof -
  have "decodeSecretKey ''whsec_c2Vj'' = Inr ''sec''" by code_simp
  then show ?thesis by (simp add: Sign_def Let_def signatureValue_def)
qed

lemma dispatchOne_effect_witness:
  "\<exists>w'. dispatchOne (dlv_F sample_crypto demo_overrides) (demo_event 0 StatusPending 5) dlv_demo = (Inr (), w')
     \<and> length (dw_posts w') = 1
     \<and> map_option (\<lambda>x. Ev_Status (er_event x)) (events w' (sequential_id ''evt_'' 0)) = Some StatusDelivered"
proof -
  let ?e = "demo_event 0 StatusPending 5"
  have inv: "dlv_store_inv (dw_store dlv_demo)" using dlv_demo_inv by (simp add: dlv_inv_def)
  have res: "resolveDispatchEndpoint (dlv_F sample_crypto demo_overrides) ?e dlv_demo = (Inr (Some demo_endpoint), dlv_demo)"
    by (simp add: resolveDispatchEndpoint_def act_simps dlv_mem_FindEndpointByID_def dlv_demo_def demo_event_def
        demo_endpoint_def sequential_id_def)
  have sec: "dlv_secrets_ActiveWebhookSecrets (dlv_F sample_crypto demo_overrides) (Ev_OrgID ?e) (EP_ID demo_endpoint)
      dlv_demo = (Inr [''whsec_c2Vj''], dlv_demo)"
    using dlv_demo_secrets by (simp add: demo_event_def)
  obtain h where h: "Sign sample_crypto (Ev_ID ?e) (dw_now dlv_demo) (Ev_Body ?e) [''whsec_c2Vj''] = Inr h"
    using sample_Sign by blast
  have "dw_responses dlv_demo = (200, None) # []" and p: "dw_posts dlv_demo = []" by (simp_all add: dlv_demo_def)
  from dispatchOne_effect [OF inv res sec h this(1)] show ?thesis
    by (elim exE conjE) (auto simp: p Let_def applyAttemptOutcome_status isSuccessStatus_def, simp add: demo_event_def)
qed

lemma auto_disable_exact_witness:
  "\<exists>w' e'. bookkeep_all (dlv_F sample_crypto demo_overrides) ''org_1'' (EP_ID demo_endpoint)
       [StatusFailed, StatusFailed, StatusPending, StatusFailed, StatusFailed, StatusFailed] dlv_demo = (Inr (), w')
     \<and> endpoints w' (EP_ID demo_endpoint) = Some e' \<and> \<not> EP_IsEnabled e'"
proof -
  let ?sts = "[StatusFailed, StatusFailed, StatusPending, StatusFailed, StatusFailed, StatusFailed]"
  have e: "endpoints dlv_demo (EP_ID demo_endpoint) = Some demo_endpoint" by (simp add: endpoints_def dlv_demo_def)
  have d: "EP_OrgID demo_endpoint = ''org_1''" "EP_IsEnabled demo_endpoint" "EP_ConsecutiveFailures demo_endpoint = 0"
    by (simp_all add: demo_endpoint_def EP_IsEnabled_def)
  have run: "filter settled ?sts = [] @ replicate (nat (dlv_autoDisableThreshold
      (dlv_F sample_crypto demo_overrides))) StatusFailed @ []"
    by (simp add: dlv_memory_facade_def demo_overrides_def defaultTestAutoDisableThreshold_def numeral_eq_Suc)
  from auto_disable_exact [OF e refl d, of sample_crypto demo_overrides ?sts] obtain w' e' where
    1: "bookkeep_all (dlv_F sample_crypto demo_overrides) ''org_1'' (EP_ID demo_endpoint) ?sts dlv_demo = (Inr (), w')"
      "endpoints w' = (endpoints dlv_demo)(EP_ID demo_endpoint \<mapsto> e')"
    and 2: "EP_IsEnabled e' \<longleftrightarrow> (\<nexists>as bs. filter settled ?sts =
          as @ replicate (nat (dlv_autoDisableThreshold (dlv_F sample_crypto demo_overrides))) StatusFailed @ bs)"
    by blast
  have "\<not> EP_IsEnabled e'" unfolding 2 not_not by (rule exI, rule exI, rule run)
  with 1 show ?thesis by (intro exI [of _ w'] exI [of _ e']) simp
qed

lemma Sign_verifies_witness:
  "\<exists>h. Sign sample_crypto ''evt_1'' 5 ''{}'' [''whsec_c2Vj''] = Inr h
     \<and> VerifyFakeReceiverSignature sample_crypto (SH_Headers h) ''{}'' ''whsec_c2Vj''"
proof -
  obtain h where h: "Sign sample_crypto ''evt_1'' 5 ''{}'' [''whsec_c2Vj''] = Inr h" using sample_Sign by blast
  have "VerifyFakeReceiverSignature sample_crypto (SH_Headers h) ''{}'' ''whsec_c2Vj''"
    by (rule conjunct1 [OF Sign_verifies [OF h]]) simp_all
  with h show ?thesis by blast
qed

end
