(* ===== verification/DeliveryLife.thy ===== *)
theory DeliveryLife
  imports DeliveryDispatch
begin

text \<open>
  The delivery module over time: every operation of the facade, the dispatcher and the purge as steps
  of the in-memory world, the invariant they keep (unique ids, the endpoint cap, the identity of
  every event), and the listing of the outbox.
\<close>

section \<open>The state invariant\<close>

definition owned :: "dlv_world \<Rightarrow> OrgID \<Rightarrow> EndpointID set" where
  "owned w org = {i. \<exists>e. endpoints w i = Some e \<and> EP_OrgID e = org}"

text \<open>What of an event must never change: a receiver recognises a redelivery by it.\<close>

definition identity :: "Event \<Rightarrow> OrgID \<times> EndpointID \<times> string \<times> string \<times> time" where
  "identity e = (Ev_OrgID e, Ev_EndpointID e, Ev_Type e, Ev_Body e, Ev_CreatedAt e)"

text \<open>
  \<open>kept cap w0 m w\<close>: the invariant at \<open>w\<close>, after at least \<open>m\<close> events were minted; an event that already
  had its id at \<open>w0\<close> is the one it was there.
\<close>

definition kept :: "int \<Rightarrow> dlv_world \<Rightarrow> nat \<Rightarrow> dlv_world \<Rightarrow> bool" where
  "kept cap w0 m w \<longleftrightarrow> dlv_inv w \<and> (\<forall>org. int (card (owned w org)) \<le> cap)
     \<and> m \<le> dw_events_minted w \<and> dw_events_minted w0 \<le> dw_events_minted w
     \<and> (\<forall>i x. events w i = Some x \<and> minted ''evt_'' (dw_events_minted w0) i \<longrightarrow>
          (\<exists>x0. events w0 i = Some x0 \<and> identity (er_event x0) = identity (er_event x)))"

lemma minted_mono: "minted p m i \<Longrightarrow> m \<le> n \<Longrightarrow> minted p n i"
  by (auto simp: minted_def)

lemma finite_owned: "finite (owned w org)"
proof (rule finite_subset)
  show "owned w org \<subseteq> dom (endpoints w)" by (auto simp: owned_def)
qed (simp add: endpoints_def finite_dom_map_of)

lemma card_owned:
  assumes "dlv_store_inv (dw_store w)"
  shows "card (owned w org) = length (endpointsForOrg (ds_endpoints (dw_store w)) org)"
proof -
  have k: "keyed EP_ID (ds_endpoints (dw_store w))" using assms by (simp add: dlv_store_inv_def)
  let ?xs = "endpointsForOrg (ds_endpoints (dw_store w)) org"
  have "owned w org = set (map EP_ID ?xs)"
  proof (rule set_eqI)
    fix i
    have "i \<in> owned w org \<longleftrightarrow> (\<exists>e. map_of (ds_endpoints (dw_store w)) i = Some e \<and> EP_OrgID e = org)"
      by (simp add: owned_def endpoints_def)
    also have "\<dots> \<longleftrightarrow> (\<exists>e \<in> set (rows (ds_endpoints (dw_store w))). EP_OrgID e = org \<and> EP_ID e = i)"
      using rows_lookup [OF k] keyed_lookup [OF k, of i] by metis
    also have "\<dots> \<longleftrightarrow> i \<in> set (map EP_ID ?xs)" by (auto simp: endpointsForOrg_def)
    finally show "i \<in> owned w org \<longleftrightarrow> i \<in> set (map EP_ID ?xs)" .
  qed
  moreover have "distinct (map EP_ID ?xs)"
    unfolding endpointsForOrg_def by (intro distinct_map_filter keyed_distinct_rows k)
  ultimately show ?thesis by (metis distinct_card length_map)
qed

lemma kept_frame:
  assumes "kept cap w0 m w" and "dw_store w' = dw_store w" and "dw_events_minted w' = dw_events_minted w"
    and "dw_endpoints_minted w \<le> dw_endpoints_minted w'"
  shows "kept cap w0 m w'"
proof -
  have v: "events w' = events w" "endpoints w' = endpoints w"
    using assms(2) by (simp_all add: events_def endpoints_def)
  have "\<forall>i. endpoints w i \<noteq> None \<longrightarrow> minted ''wep_'' (dw_endpoints_minted w') i"
    using assms(1,4) minted_mono unfolding kept_def dlv_inv_def by blast
  then show ?thesis using assms(1-3) by (simp add: kept_def dlv_inv_def v owned_def)
qed

lemma kept_fields [simp]:
  "kept cap w0 m (w\<lparr>dw_access := a\<rparr>) = kept cap w0 m w"
  "kept cap w0 m (w\<lparr>dw_now := t\<rparr>) = kept cap w0 m w"
  "kept cap w0 m (w\<lparr>dw_responses := rs\<rparr>) = kept cap w0 m w"
  "kept cap w0 m (w\<lparr>dw_posts := ps\<rparr>) = kept cap w0 m w"
  "kept cap w0 m (w\<lparr>dw_log := l\<rparr>) = kept cap w0 m w"
  "kept cap w0 m (w\<lparr>dw_retention := rt\<rparr>) = kept cap w0 m w"
  by (auto elim!: kept_frame)

lemma owned_upd:
  assumes "endpoints w' = (endpoints w)(i \<mapsto> e)" and "\<forall>e0. endpoints w i = Some e0 \<longrightarrow> EP_OrgID e0 = EP_OrgID e"
  shows "owned w' org = (if org = EP_OrgID e then insert i (owned w org) else owned w org)"
  using assms by (auto simp: owned_def)

lemma kept_save_endpoint:
  assumes k: "kept cap w0 m w" and e0: "endpoints w (EP_ID e) = Some e0" and org: "EP_OrgID e0 = EP_OrgID e"
  shows "kept cap w0 m (w\<lparr>dw_store := (dw_store w)\<lparr>ds_endpoints := put (EP_ID e) e (ds_endpoints (dw_store w))\<rparr>\<rparr>)"
    (is "kept cap w0 m ?w")
proof -
  have ep: "endpoints ?w = (endpoints w)(EP_ID e \<mapsto> e)" and ev: "events ?w = events w" by simp_all
  have own: "owned ?w org = owned w org" for org
    using owned_upd [OF ep, of org] e0 org by (auto simp: owned_def insert_absorb)
  have "keyed EP_ID (put (EP_ID e) e (ds_endpoints (dw_store w)))"
    using k by (intro keyed_put) (simp_all add: kept_def dlv_inv_def dlv_store_inv_def)
  moreover have "minted ''wep_'' (dw_endpoints_minted w) (EP_ID e)"
    using k e0 unfolding kept_def dlv_inv_def by blast
  ultimately show ?thesis
    using k unfolding kept_def own dlv_inv_def ep ev by (simp add: dlv_store_inv_def)
qed

lemma kept_new_endpoint:
  assumes k: "kept cap w0 m w" and i: "EP_ID e = sequential_id ''wep_'' n" "n < dw_endpoints_minted w"
    and fresh: "endpoints w (EP_ID e) = None" and room: "int (card (owned w (EP_OrgID e))) < cap"
  shows "kept cap w0 m (w\<lparr>dw_store := (dw_store w)\<lparr>ds_endpoints := put (EP_ID e) e (ds_endpoints (dw_store w))\<rparr>\<rparr>)"
    (is "kept cap w0 m ?w")
proof -
  have ep: "endpoints ?w = (endpoints w)(EP_ID e \<mapsto> e)" and ev: "events ?w = events w" by simp_all
  have c: "card (owned ?w org) \<le> (if org = EP_OrgID e then Suc (card (owned w org)) else card (owned w org))" for org
    using owned_upd [OF ep, of org] fresh finite_owned [of w org] by (auto simp: card_insert_if)
  have own: "int (card (owned ?w org)) \<le> cap" for org
  proof -
    have "int (card (owned w org)) \<le> cap" using k by (simp add: kept_def)
    with c [of org] room show ?thesis by (cases "org = EP_OrgID e") simp_all
  qed
  have "keyed EP_ID (put (EP_ID e) e (ds_endpoints (dw_store w)))"
    using k by (intro keyed_put) (simp_all add: kept_def dlv_inv_def dlv_store_inv_def)
  moreover have "minted ''wep_'' (dw_endpoints_minted w) (EP_ID e)"
    using i by (auto simp: minted_def)
  ultimately show ?thesis
    using k own unfolding kept_def dlv_inv_def ep ev by (simp add: dlv_store_inv_def)
qed

lemma kept_delete_endpoint:
  assumes k: "kept cap w0 m w"
  shows "kept cap w0 m (w\<lparr>dw_store := (dw_store w)\<lparr>ds_endpoints := del i (ds_endpoints (dw_store w))\<rparr>\<rparr>)"
    (is "kept cap w0 m ?w")
proof -
  have ep: "endpoints ?w = (endpoints w)(i := None)" and ev: "events ?w = events w"
    by (auto simp: endpoints_def events_def)
  have "owned ?w org \<subseteq> owned w org" for org unfolding owned_def ep by auto
  then have "card (owned ?w org) \<le> card (owned w org)" for org by (intro card_mono finite_owned)
  then have own: "int (card (owned ?w org)) \<le> cap" for org
    using k by (meson kept_def of_nat_le_iff order_trans)
  have "keyed EP_ID (del i (ds_endpoints (dw_store w)))"
    using k by (intro keyed_del) (simp add: kept_def dlv_inv_def dlv_store_inv_def)
  then show ?thesis
    using k own unfolding kept_def dlv_inv_def ep ev by (simp add: dlv_store_inv_def)
qed

lemma kept_save_event:
  assumes k: "kept cap w0 m w" and "minted ''evt_'' (dw_events_minted w) (Ev_ID e)"
    and "minted ''evt_'' (dw_events_minted w0) (Ev_ID e) \<Longrightarrow>
      \<exists>x0. events w0 (Ev_ID e) = Some x0 \<and> identity (er_event x0) = identity e"
  shows "kept cap w0 m (with_event e w)"
proof -
  have "keyed (\<lambda>x. Ev_ID (er_event x)) (put (Ev_ID e) \<lparr>er_event = e, er_leaseUntil = None\<rparr> (ds_events (dw_store w)))"
    using k by (intro keyed_put) (simp_all add: kept_def dlv_inv_def dlv_store_inv_def)
  then have "dlv_store_inv (dw_store (with_event e w))"
    using k by (simp add: kept_def dlv_inv_def dlv_store_inv_def with_event_def)
  then show ?thesis
    using k assms(2,3) by (simp add: kept_def dlv_inv_def owned_def)
qed

lemma kept_minting: "kept cap w0 m w \<Longrightarrow> kept cap w0 m (minting w)"
  using minted_Suc by (auto simp: kept_def dlv_inv_def owned_def)

section \<open>Every operation keeps it\<close>

lemma kept_inv: "kept cap w0 m w \<Longrightarrow> dlv_store_inv (dw_store w)"
  by (simp add: kept_def dlv_inv_def)

lemma on_access_keeps [preserves_intros]: "preserves (kept cap w0 m) (on_access n)"
  by (rule preservesI) simp

lemma now_keeps [preserves_intros]: "preserves P (\<lambda>w. (dw_now w, w))"
  by (rule preservesI) simp

lemma unit_keeps [preserves_intros]: "preserves P (\<lambda>w. ((), w))"
  by (rule preservesI) simp

lemma find_by_id_run:
  assumes "kept cap w0 m w"
  shows "\<exists>found. dlv_repo_FindEndpointByID (dlv_F c o') org i w = (Inr found, w)
    \<and> (\<forall>e. found = Some e \<longrightarrow> endpoints w (EP_ID e) = Some e \<and> EP_ID e = i \<and> EP_OrgID e = org)"
  using keyed_lookup [of EP_ID "ds_endpoints (dw_store w)" i] kept_inv [OF assms]
  by (auto simp: act_simps dlv_mem_FindEndpointByID_def endpoints_def dlv_store_inv_def split: option.split)

lemma find_run:
  assumes "kept cap w0 m w"
  shows "\<exists>found. dlv_repo_FindEndpoint (dlv_F c o') org w = (Inr found, w)
    \<and> (\<forall>e. found = Some e \<longrightarrow> endpoints w (EP_ID e) = Some e \<and> EP_OrgID e = org)
    \<and> (found = None \<longrightarrow> owned w org = {})"
proof -
  let ?xs = "endpointsForOrg (ds_endpoints (dw_store w)) org"
  have card: "card (owned w org) = length ?xs" by (rule card_owned [OF kept_inv [OF assms]])
  show ?thesis
  proof (cases "?xs = []")
    case True
    then have "owned w org = {}" using card finite_owned [of w org] by simp
    with True show ?thesis by (simp add: act_simps dlv_mem_FindEndpoint_def)
  next
    case False
    let ?e = "sortEndpointsOldestFirst ?xs ! 0"
    have "?e \<in> set (sortEndpointsOldestFirst ?xs)"
      using False by (intro nth_mem) (simp add: sortEndpointsOldestFirst_def)
    then have "endpoints w (EP_ID ?e) = Some ?e \<and> EP_OrgID ?e = org"
      using endpoints_listed [OF kept_inv [OF assms]] by blast
    with False show ?thesis by (simp add: act_simps dlv_mem_FindEndpoint_def Let_def)
  qed
qed

lemma save_endpoint_keeps:
  assumes "kept cap w0 m w" and "endpoints w (EP_ID e0) = Some e0" and "EP_ID e = EP_ID e0"
    and "EP_OrgID e = EP_OrgID e0"
  shows "kept cap w0 m (snd (on_dlv (dlv_mem_SaveEndpoint e) w))"
  using kept_save_endpoint [OF assms(1), of e e0] assms(2-4) by (simp add: dlv_mem_SaveEndpoint_def)

lemma save_event_keeps:
  assumes "kept cap w0 m w" and "minted ''evt_'' (dw_events_minted w) (Ev_ID e)"
    and "minted ''evt_'' (dw_events_minted w0) (Ev_ID e) \<Longrightarrow>
      \<exists>x0. events w0 (Ev_ID e) = Some x0 \<and> identity (er_event x0) = identity e"
  shows "kept cap w0 m (snd (on_dlv (dlv_mem_SaveEvent e) w))"
  using kept_save_event [OF assms] by (simp add: dlv_mem_SaveEvent_def with_event_def)

lemma snd_attempt: "m s = (Inr x, s') \<Longrightarrow> snd (attempt m k s) = snd (k x s')"
  by (simp add: attempt_apply)

lemma UpdateEndpoint_keeps: "preserves (kept cap w0 m) (dlv_UpdateEndpoint (dlv_F c o') org i url ets)"
  unfolding dlv_UpdateEndpoint_def
proof (intro preserves_check, rule preservesI)
  fix w assume k: "kept cap w0 m w"
  obtain found where f: "dlv_repo_FindEndpointByID (dlv_F c o') org i w = (Inr found, w)"
    "\<And>e. found = Some e \<Longrightarrow> endpoints w (EP_ID e) = Some e" using find_by_id_run [OF k] by blast
  show "kept cap w0 m (snd (attempt (dlv_repo_FindEndpointByID (dlv_F c o') org i)
      (\<lambda>endpoint. case endpoint of None \<Rightarrow> fail dlv_ErrNotFound
        | Some e \<Rightarrow> (let updated = e\<lparr>EP_URL := url, EP_EventTypes := ets\<rparr> in
            attempt (dlv_repo_SaveEndpoint (dlv_F c o') updated) (\<lambda>_. ok (updateEndpointResultFrom updated)))) w))"
    unfolding snd_attempt [where m = "dlv_repo_FindEndpointByID (dlv_F c o') org i", OF f(1)]
    using save_endpoint_keeps [OF k f(2)]
    by (cases found) (simp_all add: k act_simps dlv_mem_SaveEndpoint_def Let_def)
qed

lemma Enable_keeps: "preserves (kept cap w0 m) (dlv_EnableEndpoint (dlv_F c o') org i)"
proof (rule preservesI)
  fix w assume k: "kept cap w0 m w"
  obtain found where f: "dlv_repo_FindEndpointByID (dlv_F c o') org i w = (Inr found, w)"
    "\<And>e. found = Some e \<Longrightarrow> endpoints w (EP_ID e) = Some e" using find_by_id_run [OF k] by blast
  show "kept cap w0 m (snd (dlv_EnableEndpoint (dlv_F c o') org i w))"
    unfolding dlv_EnableEndpoint_def snd_attempt [where m = "dlv_repo_FindEndpointByID (dlv_F c o') org i", OF f(1)]
    using save_endpoint_keeps [OF k f(2)]
    by (cases found) (simp_all add: k act_simps dlv_mem_SaveEndpoint_def Let_def)
qed

lemma Disable_keeps: "preserves (kept cap w0 m) (dlv_DisableEndpoint (dlv_F c o') org i)"
proof (rule preservesI)
  fix w assume k: "kept cap w0 m w"
  obtain found where f: "dlv_repo_FindEndpointByID (dlv_F c o') org i w = (Inr found, w)"
    "\<And>e. found = Some e \<Longrightarrow> endpoints w (EP_ID e) = Some e" using find_by_id_run [OF k] by blast
  show "kept cap w0 m (snd (dlv_DisableEndpoint (dlv_F c o') org i w))"
    unfolding dlv_DisableEndpoint_def snd_attempt [where m = "dlv_repo_FindEndpointByID (dlv_F c o') org i", OF f(1)]
    using save_endpoint_keeps [OF k f(2)]
    by (cases found) (simp_all add: k act_simps dlv_mem_SaveEndpoint_def Let_def)
qed

lemma Delete_keeps: "preserves (kept cap w0 m) (dlv_DeleteEndpoint (dlv_F c o') org i)"
  by (rule preservesI)
    (auto simp: dlv_DeleteEndpoint_def act_simps dlv_mem_FindEndpointByID_def dlv_mem_DeleteEndpoint_def
      kept_delete_endpoint split: option.split)

lemma createEndpoint_keeps:
  assumes k: "kept cap w0 m w" and room: "int (card (owned w org)) < cap"
  shows "kept cap w0 m (snd (createEndpoint (dlv_F c o') org url ets w))"
proof -
  let ?n = "dw_endpoints_minted w"
  let ?i = "sequential_id ''wep_'' ?n"
  let ?e = "\<lparr>EP_ID = ?i, EP_OrgID = org, EP_URL = url, EP_EventTypes = ets, EP_Status = EndpointStatusEnabled,
    EP_ConsecutiveFailures = 0, EP_CreatedAt = dw_now w\<rparr>"
  define w1 where "w1 = w\<lparr>dw_endpoints_minted := Suc ?n\<rparr>"
  obtain r a where issue: "acc_IssueWebhookSecret (acc_memory_facade c) org ?i (dw_access w) = (r, a)" by fastforce
  define w2 where "w2 = w1\<lparr>dw_access := a\<rparr>"
  have k2: "kept cap w0 m w2" unfolding w2_def kept_fields by (rule kept_frame [OF k]) (simp_all add: w1_def)
  have v: "endpoints w2 = endpoints w" by (simp add: w2_def w1_def endpoints_def)
  have new: "endpoints w2 (EP_ID ?e) = None"
    using k not_minted unfolding v by (fastforce simp: kept_def dlv_inv_def)
  have "kept cap w0 m (w2\<lparr>dw_store := (dw_store w2)\<lparr>ds_endpoints := put (EP_ID ?e) ?e (ds_endpoints (dw_store w2))\<rparr>\<rparr>)"
    using room by (intro kept_new_endpoint [OF k2 _ _ new, of ?n]) (simp_all add: w2_def w1_def owned_def v [unfolded w2_def w1_def])
  then show ?thesis
    using k2 by (cases r) (simp_all add: createEndpoint_def act_simps Let_def issue dlv_mem_SaveEndpoint_def w2_def w1_def)
qed

lemma snd_attempt_ok: "(\<And>x. snd (k x (snd (m s))) = snd (m s)) \<Longrightarrow> snd (attempt m k s) = snd (m s)"
  by (auto simp: attempt_apply split: prod.split sum.split)

lemma CreateEndpoint_keeps:
  "preserves (kept (dlv_endpointCap (dlv_F c o')) w0 m) (dlv_CreateEndpoint (dlv_F c o') org url ets)"
  unfolding dlv_CreateEndpoint_def
proof (intro preserves_check, rule preservesI)
  fix w assume k: "kept (dlv_endpointCap (dlv_F c o')) w0 m w"
  let ?xs = "endpointsForOrg (ds_endpoints (dw_store w)) org"
  have card: "card (owned w org) = length ?xs" by (rule card_owned [OF kept_inv [OF k]])
  have list: "dlv_repo_ListEndpoints (dlv_F c o') org w = (Inr (sortEndpointsOldestFirst ?xs), w)"
    by (simp add: act_simps dlv_mem_ListEndpoints_def)
  have "kept (dlv_endpointCap (dlv_F c o')) w0 m (snd (createEndpoint (dlv_F c o') org url ets w))"
    if "\<not> int (length ?xs) \<ge> dlv_endpointCap (dlv_F c o')"
    by (rule createEndpoint_keeps [OF k]) (use that card in simp)
  then show "kept (dlv_endpointCap (dlv_F c o')) w0 m (snd (attempt (dlv_repo_ListEndpoints (dlv_F c o') org) (\<lambda>existing.
      if int (length existing) \<ge> dlv_endpointCap (dlv_F c o') then fail (dlv_ErrEndpointCap (dlv_endpointCap (dlv_F c o')))
      else attempt (createEndpoint (dlv_F c o') org url ets) (\<lambda>(endpoint, secret).
         ok \<lparr>CER_ID = EP_ID endpoint, CER_URL = EP_URL endpoint, CER_EventTypes = EP_EventTypes endpoint,
             CER_Status = EP_Status endpoint, CER_CreatedAt = EP_CreatedAt endpoint, CER_Secret = secret\<rparr>)) w))"
    unfolding snd_attempt [where m = "dlv_repo_ListEndpoints (dlv_F c o') org", OF list] using k
    by (auto simp: sortEndpointsOldestFirst_def snd_attempt_ok split: prod.split)
qed

lemma cap_positive: "0 < dlv_endpointCap (dlv_F c o')"
  by (simp add: dlv_memory_facade_def defaultTestEndpointCap_def)

lemma SetEndpoint_keeps:
  "preserves (kept (dlv_endpointCap (dlv_F c o')) w0 m) (dlv_SetEndpoint (dlv_F c o') org url)"
  unfolding dlv_SetEndpoint_def
proof (intro preserves_check, rule preservesI)
  fix w assume k: "kept (dlv_endpointCap (dlv_F c o')) w0 m w"
  obtain found where f: "dlv_repo_FindEndpoint (dlv_F c o') org w = (Inr found, w)"
    "\<And>e. found = Some e \<Longrightarrow> endpoints w (EP_ID e) = Some e" "found = None \<Longrightarrow> owned w org = {}"
    using find_run [OF k] by blast
  show "kept (dlv_endpointCap (dlv_F c o')) w0 m (snd (attempt (dlv_repo_FindEndpoint (dlv_F c o') org) (\<lambda>existing.
      case existing of Some e \<Rightarrow> updateEndpointURL (dlv_F c o') e url
      | None \<Rightarrow> attempt (createEndpoint (dlv_F c o') org url None) (\<lambda>(endpoint, secret).
          ok \<lparr>SER_ID = EP_ID endpoint, SER_URL = EP_URL endpoint, SER_CreatedAt = EP_CreatedAt endpoint,
              SER_Secret = secret\<rparr>)) w))"
    unfolding snd_attempt [where m = "dlv_repo_FindEndpoint (dlv_F c o') org", OF f(1)]
  proof (cases found)
    case None
    then have "kept (dlv_endpointCap (dlv_F c o')) w0 m (snd (createEndpoint (dlv_F c o') org url None w))"
      using f(3) cap_positive by (intro createEndpoint_keeps [OF k]) simp
    with None show "kept (dlv_endpointCap (dlv_F c o')) w0 m (snd ((case found of Some e \<Rightarrow> updateEndpointURL (dlv_F c o') e url
      | None \<Rightarrow> attempt (createEndpoint (dlv_F c o') org url None) (\<lambda>(endpoint, secret).
          ok \<lparr>SER_ID = EP_ID endpoint, SER_URL = EP_URL endpoint, SER_CreatedAt = EP_CreatedAt endpoint,
              SER_Secret = secret\<rparr>)) w))" by (simp add: snd_attempt_ok split: prod.split)
  next
    case (Some e)
    with save_endpoint_keeps [OF k f(2) [OF Some], of "e\<lparr>EP_URL := url\<rparr>"]
    show "kept (dlv_endpointCap (dlv_F c o')) w0 m (snd ((case found of Some e \<Rightarrow> updateEndpointURL (dlv_F c o') e url
      | None \<Rightarrow> attempt (createEndpoint (dlv_F c o') org url None) (\<lambda>(endpoint, secret).
          ok \<lparr>SER_ID = EP_ID endpoint, SER_URL = EP_URL endpoint, SER_CreatedAt = EP_CreatedAt endpoint,
              SER_Secret = secret\<rparr>)) w))"
      by (simp add: updateEndpointURL_def act_simps dlv_mem_SaveEndpoint_def Let_def)
  qed
qed

lemma kept_new_event:
  assumes "kept cap w0 m w"
  shows "kept cap w0 m (with_event (new_event w org ep ty data st) (minting w))"
proof (rule kept_save_event [OF kept_minting [OF assms]])
  show "minted ''evt_'' (dw_events_minted (minting w)) (Ev_ID (new_event w org ep ty data st))"
    using minted_next by simp
  assume "minted ''evt_'' (dw_events_minted w0) (Ev_ID (new_event w org ep ty data st))"
  then have "minted ''evt_'' (dw_events_minted w) (Ev_ID (new_event w org ep ty data st))"
    using assms minted_mono unfolding kept_def by blast
  then show "\<exists>x0. events w0 (Ev_ID (new_event w org ep ty data st)) = Some x0
      \<and> identity (er_event x0) = identity (new_event w org ep ty data st)"
    using not_minted by simp
qed

lemma enqueueToEndpoint_keeps: "preserves (kept cap w0 m) (enqueueToEndpoint (dlv_F c o') e ty data)"
  by (rule preservesI) (simp add: enqueueToEndpoint_run Let_def kept_new_event)

lemma enqueueUnrouted_keeps: "preserves (kept cap w0 m) (enqueueUnrouted (dlv_F c o') org ty data)"
  by (rule preservesI) (simp add: enqueueUnrouted_run Let_def kept_new_event)

lemma read_keeps: "(\<And>w. snd (n w) = w) \<Longrightarrow> preserves P n"
  by (rule preservesI) simp

lemma dlv_reads [simp]:
  "snd (dlv_repo_ListEndpoints (dlv_F c o') org w) = w"
  "snd (dlv_repo_FindEndpoint (dlv_F c o') org w) = w"
  "snd (dlv_repo_FindEndpointByID (dlv_F c o') org i w) = w"
  "snd (dlv_repo_FindEvent (dlv_F c o') org i w) = w"
  by (auto simp: dlv_mem_ListEndpoints_def dlv_mem_FindEndpoint_def dlv_mem_FindEndpointByID_def
      dlv_mem_FindEvent_def Let_def split: option.split)

lemma Enqueue_keeps: "preserves (kept cap w0 m) (dlv_Enqueue (dlv_F c o') org ty data)"
  unfolding dlv_Enqueue_def Let_def
  by (intro preserves_attempt preserves_if preserves_map_each preserves_ok read_keeps dlv_reads
      enqueueToEndpoint_keeps enqueueUnrouted_keeps)

lemma SendTest_keeps: "preserves (kept cap w0 m) (dlv_SendTest (dlv_F c o') org)"
  unfolding dlv_SendTest_def
  by (rule preserves_attempt [OF read_keeps [OF dlv_reads(2)]])
    (auto intro: enqueueToEndpoint_keeps preserves_fail split: option.split)

lemma rotate_keeps: "preserves (kept cap w0 m) (rotateSecretForEndpoint (dlv_F c o') org e h)"
  unfolding rotateSecretForEndpoint_def dlv_memory_ops by (intro preserves_attempt on_access_keeps preserves_ok)

lemma RotateSecret_keeps: "preserves (kept cap w0 m) (dlv_RotateSecret (dlv_F c o') org h)"
  unfolding dlv_RotateSecret_def
  by (rule preserves_attempt [OF read_keeps [OF dlv_reads(2)]])
    (auto intro: rotate_keeps preserves_fail split: option.split)

lemma RotateEndpointSecret_keeps: "preserves (kept cap w0 m) (dlv_RotateEndpointSecret (dlv_F c o') org i h)"
  unfolding dlv_RotateEndpointSecret_def
  by (rule preserves_attempt [OF read_keeps [OF dlv_reads(3)]])
    (auto intro: rotate_keeps preserves_fail split: option.split)

lemma kept_event:
  assumes "kept cap w0 m w" and "events w i = Some x"
  shows "Ev_ID (er_event x) = i" and "minted ''evt_'' (dw_events_minted w) i"
    and "minted ''evt_'' (dw_events_minted w0) i \<Longrightarrow>
      \<exists>x0. events w0 i = Some x0 \<and> identity (er_event x0) = identity (er_event x)"
proof -
  have "keyed (\<lambda>x. Ev_ID (er_event x)) (ds_events (dw_store w))"
    using kept_inv [OF assms(1)] by (simp add: dlv_store_inv_def)
  then show "Ev_ID (er_event x) = i" using keyed_lookup assms(2) by (fastforce simp: events_def)
  show "minted ''evt_'' (dw_events_minted w) i" using assms unfolding kept_def dlv_inv_def by blast
  show "minted ''evt_'' (dw_events_minted w0) i \<Longrightarrow>
      \<exists>x0. events w0 i = Some x0 \<and> identity (er_event x0) = identity (er_event x)"
    using assms unfolding kept_def by blast
qed

lemma find_event_run:
  "\<exists>found. dlv_repo_FindEvent (dlv_F c o') org i w = (Inr found, w)
     \<and> (\<forall>e. found = Some e \<longrightarrow> (\<exists>x. events w i = Some x \<and> er_event x = e \<and> Ev_OrgID e = org))"
  by (auto simp: act_simps dlv_mem_FindEvent_def events_def split: option.split)

lemma Redeliver_keeps: "preserves (kept cap w0 m) (dlv_Redeliver (dlv_F c o') org i)"
proof (rule preservesI)
  fix w assume k: "kept cap w0 m w"
  obtain found where f: "dlv_repo_FindEvent (dlv_F c o') org i w = (Inr found, w)"
    "\<And>e. found = Some e \<Longrightarrow> \<exists>x. events w i = Some x \<and> er_event x = e"
    using find_event_run [of c o' org i w] by blast
  show "kept cap w0 m (snd (dlv_Redeliver (dlv_F c o') org i w))"
  proof (cases found)
    case None
    with k f(1) show ?thesis by (simp add: dlv_Redeliver_def attempt_apply)
  next
    case (Some e)
    from f(2) [OF Some] obtain x where x: "events w i = Some x" "er_event x = e" by blast
    note ke = kept_event [OF k x(1), unfolded x(2)]
    have "kept cap w0 m (with_event (e\<lparr>Ev_Status := StatusPending, Ev_NextAttemptAt := dw_now w\<rparr>) w)"
      by (rule kept_save_event [OF k]) (use ke in \<open>simp_all add: identity_def\<close>)
    with Some f(1) show ?thesis
      by (simp add: dlv_Redeliver_def attempt_apply call_apply Let_def zoom_apply dlv_mem_SaveEvent_def
          with_event_def)
  qed
qed

text \<open>One attempt: the event it saves has the identity of the one that was claimed.\<close>

definition marked :: "dlv_world \<Rightarrow> nat \<Rightarrow> Event \<Rightarrow> bool" where
  "marked w0 m e \<longleftrightarrow> minted ''evt_'' m (Ev_ID e) \<and>
     (minted ''evt_'' (dw_events_minted w0) (Ev_ID e) \<longrightarrow>
       (\<exists>x0. events w0 (Ev_ID e) = Some x0 \<and> identity (er_event x0) = identity e))"

definition kept_with :: "int \<Rightarrow> dlv_world \<Rightarrow> nat \<Rightarrow> Endpoint \<Rightarrow> dlv_world \<Rightarrow> bool" where
  "kept_with cap w0 m ep w \<longleftrightarrow> kept cap w0 m w
     \<and> (\<exists>e0. endpoints w (EP_ID ep) = Some e0 \<and> EP_OrgID e0 = EP_OrgID ep)"

lemma endpoints_frames [simp]:
  "endpoints (w\<lparr>dw_access := a\<rparr>) = endpoints w" "endpoints (w\<lparr>dw_responses := rs\<rparr>) = endpoints w"
  "endpoints (w\<lparr>dw_posts := ps\<rparr>) = endpoints w" "endpoints (w\<lparr>dw_log := l\<rparr>) = endpoints w"
  by (simp_all add: endpoints_def)

lemma kept_with_access: "preserves (kept_with cap w0 m ep) (on_access n)"
  by (rule preservesI) (simp add: kept_with_def)

lemma kept_with_post: "preserves (kept_with cap w0 m ep) (signAndPost (dlv_F c o') url e t secrets)"
  by (rule preservesI) (simp add: signAndPost_def receiver_Post_def kept_with_def split: sum.split list.split)

lemma kept_with_event:
  assumes "marked w0 m e"
  shows "preserves (kept_with cap w0 m ep)
    (on_dlv (dlv_mem_SaveEvent (applyAttemptOutcome e status err now n j)))"
proof (rule preservesI)
  fix w assume k: "kept_with cap w0 m ep w"
  let ?e = "applyAttemptOutcome e status err now n j"
  have "minted ''evt_'' (dw_events_minted w) (Ev_ID ?e)"
    using assms k minted_mono by (auto simp: marked_def kept_with_def kept_def)
  moreover have "identity ?e = identity e" by (simp add: identity_def)
  ultimately have "kept cap w0 m (snd (on_dlv (dlv_mem_SaveEvent ?e) w))"
    using assms k by (intro save_event_keeps) (auto simp: marked_def kept_with_def)
  moreover have "endpoints (snd (on_dlv (dlv_mem_SaveEvent ?e) w)) = endpoints w"
    by (simp add: dlv_mem_SaveEvent_def)
  ultimately show "kept_with cap w0 m ep (snd (on_dlv (dlv_mem_SaveEvent ?e) w))"
    using k by (simp only: kept_with_def)
qed

lemma kept_with_save:
  assumes "EP_ID e = EP_ID ep" and "EP_OrgID e = EP_OrgID ep"
  shows "preserves (kept_with cap w0 m ep) (on_dlv (dlv_mem_SaveEndpoint e))"
proof (rule preservesI)
  fix w assume k: "kept_with cap w0 m ep w"
  then obtain e0 where e0: "endpoints w (EP_ID ep) = Some e0" "EP_OrgID e0 = EP_OrgID ep"
    and kw: "kept cap w0 m w" by (auto simp: kept_with_def)
  have "kept cap w0 m (w\<lparr>dw_store := (dw_store w)\<lparr>ds_endpoints := put (EP_ID e) e (ds_endpoints (dw_store w))\<rparr>\<rparr>)"
    using kept_save_endpoint [OF kw, of e e0] e0 assms by simp
  then show "kept_with cap w0 m ep (snd (on_dlv (dlv_mem_SaveEndpoint e) w))"
    using assms by (simp add: kept_with_def dlv_mem_SaveEndpoint_def)
qed

lemma kept_with_bookkeeping: "preserves (kept_with cap w0 m ep) (applyAutoDisableBookkeeping (dlv_F c o') ep st)"
  unfolding applyAutoDisableBookkeeping_def dlv_memory_ops Let_def
  by (cases st) (auto intro!: kept_with_save)

lemma kept_with_record: "preserves (kept_with cap w0 m ep) (recordAttempt (dlv_F c o') e n status d)"
  by (rule preservesI) (simp add: recordAttempt_def recordAttemptMetric_def call_apply kept_with_def)

lemma resolve_found:
  assumes "kept cap w0 m w"
  shows "\<exists>found. resolveDispatchEndpoint (dlv_F c o') e w = (Inr found, w)
    \<and> (\<forall>ep. found = Some ep \<longrightarrow> endpoints w (EP_ID ep) = Some ep)"
proof (cases "Ev_EndpointID e = []")
  case True
  then show ?thesis using find_run [OF assms, of c o' "Ev_OrgID e"]
    by (simp only: resolveDispatchEndpoint_def simp_thms if_False) blast
next
  case False
  then show ?thesis using find_by_id_run [OF assms, of c o' "Ev_OrgID e" "Ev_EndpointID e"]
    by (simp only: resolveDispatchEndpoint_def not_False_eq_True if_True) blast
qed

lemma preserves_case_prod [preserves_intros]:
  "(\<And>a b. preserves P (f a b)) \<Longrightarrow> preserves P (case x of (a, b) \<Rightarrow> f a b)"
  by (cases x) simp

lemma jitter_keeps: "preserves P (if b then (\<lambda>s. (0, s)) else (\<lambda>w. (j, w)))"
  by (rule preservesI) simp

lemma kept_with_finish:
  assumes "marked w0 m e"
  shows "preserves (kept_with cap w0 m ep)
    (attempt (on_dlv (dlv_mem_SaveEvent (applyAttemptOutcome e status err now n j))) (\<lambda>_.
     attempt (applyAutoDisableBookkeeping (dlv_F c o') ep st) (\<lambda>_. recordAttempt (dlv_F c o') e n status d)))"
  by (rule preserves_attempt [OF kept_with_event [OF assms] preserves_attempt [OF kept_with_bookkeeping kept_with_record]])

lemma dispatchOne_keeps:
  assumes "marked w0 m e"
  shows "preserves (kept cap w0 m) (dispatchOne (dlv_F c o') e)"
proof (rule preservesI)
  fix w assume k: "kept cap w0 m w"
  obtain found where f: "resolveDispatchEndpoint (dlv_F c o') e w = (Inr found, w)"
    "\<And>ep. found = Some ep \<Longrightarrow> endpoints w (EP_ID ep) = Some ep"
    using resolve_found [OF k] by blast
  show "kept cap w0 m (snd (dispatchOne (dlv_F c o') e w))"
  proof (cases found)
    case None
    with f(1) k show ?thesis by (simp add: dispatchOne_def attempt_apply)
  next
    case (Some ep)
    let ?rest = "attempt (dlv_secrets_ActiveWebhookSecrets (dlv_F c o') (Ev_OrgID e) (EP_ID ep)) (\<lambda>secrets.
         let attemptNumber = Ev_Attempts e + 1 in
         call (dlv_now (dlv_F c o')) (\<lambda>started.
         call (signAndPost (dlv_F c o') (EP_URL ep) e started secrets) (\<lambda>(status, postErr).
         call (dlv_now (dlv_F c o')) (\<lambda>finished.
         call (dlv_now (dlv_F c o')) (\<lambda>now.
         call (if (postErr = None \<and> isSuccessStatus status) \<or> IsExhausted attemptNumber
               then (\<lambda>s. (0, s)) else dlv_jitter (dlv_F c o')) (\<lambda>jitter.
         let updated = applyAttemptOutcome e status postErr now attemptNumber jitter in
         attempt (dlv_repo_SaveEvent (dlv_F c o') updated) (\<lambda>_.
         attempt (applyAutoDisableBookkeeping (dlv_F c o') ep (Ev_Status updated)) (\<lambda>_.
         recordAttempt (dlv_F c o') e attemptNumber status (finished - started)))))))))"
    have "kept_with cap w0 m ep w" using k f(2) [OF Some] by (simp add: kept_with_def)
    moreover have "preserves (kept_with cap w0 m ep) ?rest"
      unfolding Let_def dlv_memory_ops
      by (intro preserves_attempt [OF kept_with_access] preserves_call [OF now_keeps] preserves_call [OF kept_with_post]
          preserves_case_prod preserves_call [OF jitter_keeps] kept_with_finish [OF assms])
    ultimately have "kept_with cap w0 m ep (snd (?rest w))" by (rule preservesD [rotated])
    moreover have "dispatchOne (dlv_F c o') e w = ?rest w"
      unfolding dispatchOne_def attempt_apply [of "resolveDispatchEndpoint (dlv_F c o') e"] f(1) Some prod.case sum.case
        option.case ..
    ultimately show ?thesis unfolding kept_with_def by (simp only:)
  qed
qed

lemma kept_events_filter:
  assumes k: "kept cap w0 m w"
  shows "kept cap w0 m (w\<lparr>dw_store := (dw_store w)\<lparr>ds_events := filter P (ds_events (dw_store w))\<rparr>\<rparr>)" (is "kept cap w0 m ?w")
proof -
  have key: "keyed (\<lambda>x. Ev_ID (er_event x)) (ds_events (dw_store w))"
    using kept_inv [OF k] by (simp add: dlv_store_inv_def)
  then have d: "distinct (map fst (ds_events (dw_store w)))" by (simp add: keyed_def)
  have sub: "events w i = Some x" if "events ?w i = Some x" for i x
    using that by (simp add: events_def lookup_filter [OF d] split: option.splits if_splits)
  have ep: "endpoints ?w = endpoints w" by simp
  have "dlv_store_inv (dw_store ?w)"
    using kept_inv [OF k] keyed_filter [OF key] by (simp add: dlv_store_inv_def)
  moreover have "owned ?w = owned w" by (simp add: owned_def fun_eq_iff)
  ultimately show ?thesis using k sub unfolding kept_def dlv_inv_def ep
    by (simp del: endpoints_update(2)) (metis option.exhaust_sel option.distinct(1))
qed

lemma Purge_keeps: "preserves (kept cap w0 m) (dlv_PurgeOnce (dlv_F c o'))"
proof -
  have p: "preserves (kept cap w0 m) (purge_org (dlv_F c o') world_retention now org)" for now org
    unfolding purge_org_def dlv_memory_ops
    by (intro preserves_attempt preserves_if preserves_ok preservesI)
      (auto simp: world_retention_def dlv_mem_PurgeTerminalOlderThan_def kept_events_filter split: option.split)
  show ?thesis
    unfolding dlv_PurgeOnce_def dlv_memory_ops option.case
    by (intro preserves_attempt preserves_call now_keeps preserves_for_each p read_keeps) (simp add: world_retention_def)
qed

lemma Claim_keeps:
  assumes k: "kept cap w0 m w" and "0 \<le> limit"
    and run: "dlv_workQueue_ClaimDue (dlv_F c o') now ttl limit w = (Inr claimed, w')"
  shows "kept cap w0 (dw_events_minted w) w'" and "\<forall>e \<in> set claimed. marked w0 (dw_events_minted w) e"
proof -
  have key: "keyed (\<lambda>x. Ev_ID (er_event x)) (ds_events (dw_store w))"
    using kept_inv [OF k] by (simp add: dlv_store_inv_def)
  obtain r' where c: "dlv_mem_ClaimDue now ttl limit (dw_store w) = (Inr claimed, r')" and w': "w' = w\<lparr>dw_store := r'\<rparr>"
    using run by (auto simp: zoom_apply split: prod.splits)
  obtain taken where t: "claimed = map (\<lambda>p. er_event (snd p)) taken"
      "set taken \<subseteq> {p \<in> set (ds_events (dw_store w)). isDueForClaim (snd p) now}"
      "ds_endpoints r' = ds_endpoints (dw_store w)"
      "ds_events r' = map (\<lambda>p. if p \<in> set taken then (fst p, (snd p)\<lparr>er_leaseUntil := Some (now + ttl)\<rparr>) else p)
         (ds_events (dw_store w))"
    by (rule claim_taken [OF key c assms(2)]) (rule that)
  have sub: "set taken \<subseteq> set (ds_events (dw_store w))" using t(2) by blast
  have ev: "\<exists>y. events w i = Some y \<and> er_event y = er_event x" if "events w' i = Some x" for i x
    using that lease_lookup [OF key sub, of "Some (now + ttl)" i, folded t(4)]
    by (auto simp: events_def w' split: option.splits if_splits)
  have ep: "endpoints w' = endpoints w" by (simp add: endpoints_def w' t(3))
  have "keyed (\<lambda>x. Ev_ID (er_event x)) (ds_events r')" unfolding t(4) by (rule keyed_events_map [OF key]) simp
  then have inv: "dlv_store_inv (dw_store w')" using kept_inv [OF k] by (simp add: dlv_store_inv_def w' t(3))
  have own: "owned w' = owned w" by (simp add: owned_def fun_eq_iff ep)
  have "\<forall>i. events w' i \<noteq> None \<longrightarrow> minted ''evt_'' (dw_events_minted w) i"
    using ev kept_event(2) [OF k] by blast
  moreover have "\<forall>i x. events w' i = Some x \<and> minted ''evt_'' (dw_events_minted w0) i \<longrightarrow>
      (\<exists>x0. events w0 i = Some x0 \<and> identity (er_event x0) = identity (er_event x))"
    using ev kept_event(3) [OF k] by metis
  ultimately show "kept cap w0 (dw_events_minted w) w'"
    using k inv by (simp add: kept_def dlv_inv_def own ep) (simp add: w')
  show "\<forall>e \<in> set claimed. marked w0 (dw_events_minted w) e"
  proof
    fix e assume "e \<in> set claimed"
    then obtain p where p: "p \<in> set (ds_events (dw_store w))" "e = er_event (snd p)" using t(1) sub by auto
    then have x: "events w (fst p) = Some (snd p)" using key by (simp add: events_def keyed_def)
    show "marked w0 (dw_events_minted w) e"
      using kept_event [OF k x] p(2) by (simp add: marked_def)
  qed
qed

lemma kept_weaken: "kept cap w0 m w \<Longrightarrow> n \<le> m \<Longrightarrow> kept cap w0 n w"
  by (simp add: kept_def)

lemma Dispatch_keeps: "preserves (kept cap w0 m) (dlv_DispatchOnce (dlv_F c o'))"
proof (rule preservesI)
  fix w assume k: "kept cap w0 m w"
  let ?ttl = "2 * dlv_deliveryTimeout (dlv_F c o') + leaseMargin"
  obtain claimed w' where c: "dlv_workQueue_ClaimDue (dlv_F c o') (dw_now w) ?ttl claimBatchLimit w = (Inr claimed, w')"
    by (simp add: zoom_apply dlv_mem_ClaimDue_def Let_def)
  have "0 \<le> claimBatchLimit" by (simp add: claimBatchLimit_def)
  note cl = Claim_keeps [OF k this c]
  have "kept cap w0 (dw_events_minted w) (snd (for_each (dispatchOne (dlv_F c o')) claimed w'))"
    by (rule preservesD [OF preserves_for_each [OF dispatchOne_keeps] cl(1)]) (use cl(2) in blast)
  moreover have "m \<le> dw_events_minted w" using k by (simp add: kept_def)
  moreover have "dlv_DispatchOnce (dlv_F c o') w = for_each (dispatchOne (dlv_F c o')) claimed w'"
    unfolding dlv_DispatchOnce_def call_apply Let_def attempt_apply dlv_memory_ops(25) prod.case
      c [unfolded dlv_memory_ops] sum.case
    using c by (simp add: attempt_apply)
  ultimately show "kept cap w0 m (snd (dlv_DispatchOnce (dlv_F c o') w))" by (simp only: kept_weaken)
qed

section \<open>The steps\<close>

text \<open>
  Every operation of the facade that changes state, the dispatcher and the purge, interleaved in any
  order with the clock, the receivers' answers, the settings of retention and the access module.
\<close>

inductive dlv_step :: "crypto \<Rightarrow> dlv_overrides \<Rightarrow> dlv_world \<Rightarrow> dlv_world \<Rightarrow> bool"
  for c o' where
  set_endpoint: "dlv_step c o' w (snd (dlv_SetEndpoint (dlv_F c o') org url w))"
| create_endpoint: "dlv_step c o' w (snd (dlv_CreateEndpoint (dlv_F c o') org url ets w))"
| update_endpoint: "dlv_step c o' w (snd (dlv_UpdateEndpoint (dlv_F c o') org i url ets w))"
| delete_endpoint: "dlv_step c o' w (snd (dlv_DeleteEndpoint (dlv_F c o') org i w))"
| enable_endpoint: "dlv_step c o' w (snd (dlv_EnableEndpoint (dlv_F c o') org i w))"
| disable_endpoint: "dlv_step c o' w (snd (dlv_DisableEndpoint (dlv_F c o') org i w))"
| rotate_secret: "dlv_step c o' w (snd (dlv_RotateSecret (dlv_F c o') org h w))"
| rotate_endpoint_secret: "dlv_step c o' w (snd (dlv_RotateEndpointSecret (dlv_F c o') org i h w))"
| enqueue: "dlv_step c o' w (snd (dlv_Enqueue (dlv_F c o') org ty data w))"
| send_test: "dlv_step c o' w (snd (dlv_SendTest (dlv_F c o') org w))"
| redeliver: "dlv_step c o' w (snd (dlv_Redeliver (dlv_F c o') org i w))"
| dispatch: "dlv_step c o' w (snd (dlv_DispatchOnce (dlv_F c o') w))"
| purge: "dlv_step c o' w (snd (dlv_PurgeOnce (dlv_F c o') w))"
| tick: "dw_now w \<le> t \<Longrightarrow> dlv_step c o' w (w\<lparr>dw_now := t\<rparr>)"
| answers: "dlv_step c o' w (w\<lparr>dw_responses := rs\<rparr>)"
| settings: "dlv_step c o' w (w\<lparr>dw_retention := rt\<rparr>)"
| access: "dlv_step c o' w (w\<lparr>dw_access := a\<rparr>)"

lemma step_keeps:
  assumes "dlv_step c o' w w'" and "kept (dlv_endpointCap (dlv_F c o')) w0 m w"
  shows "kept (dlv_endpointCap (dlv_F c o')) w0 m w'"
  using assms
  by (induction rule: dlv_step.induct)
    (simp_all only: kept_fields preservesD [OF SetEndpoint_keeps] preservesD [OF CreateEndpoint_keeps]
      preservesD [OF UpdateEndpoint_keeps] preservesD [OF Delete_keeps] preservesD [OF Enable_keeps]
      preservesD [OF Disable_keeps] preservesD [OF RotateSecret_keeps] preservesD [OF RotateEndpointSecret_keeps]
      preservesD [OF Enqueue_keeps] preservesD [OF SendTest_keeps] preservesD [OF Redeliver_keeps]
      preservesD [OF Dispatch_keeps] preservesD [OF Purge_keeps])

lemma steps_keep:
  "(dlv_step c o')\<^sup>*\<^sup>* w w' \<Longrightarrow> kept (dlv_endpointCap (dlv_F c o')) w0 m w \<Longrightarrow>
     kept (dlv_endpointCap (dlv_F c o')) w0 m w'"
  by (induction rule: rtranclp_induct) (blast intro: step_keeps)+

definition fresh_world :: "dlv_world \<Rightarrow> bool" where
  "fresh_world w \<longleftrightarrow> dw_store w = dlv_NewRepository \<and> dw_endpoints_minted w = 0 \<and> dw_events_minted w = 0"

lemma fresh_kept: "fresh_world w \<Longrightarrow> kept (dlv_endpointCap (dlv_F c o')) w 0 w"
  using cap_positive [of c o']
  by (simp add: fresh_world_def kept_def dlv_inv_def dlv_store_inv_def dlv_NewRepository_def owned_def
      events_def endpoints_def)

lemma reachable_kept:
  assumes "fresh_world v" and "(dlv_step c o')\<^sup>*\<^sup>* v w"
  shows "kept (dlv_endpointCap (dlv_F c o')) w 0 w"
  using steps_keep [OF assms(2) fresh_kept [OF assms(1)]] by (simp add: kept_def)

text \<open>
  C10: The endpoint cap holds. From an empty repository, no sequence of operations in any order, the
  dispatcher's bookkeeping included, gives an organization more endpoints than the cap; ids of
  endpoints and of events stay unique, and every id in the store was handed out by its counter.
\<close>

theorem endpoint_cap_invariant:
  assumes "fresh_world v" and "(dlv_step c o')\<^sup>*\<^sup>* v w"
  shows "int (length (endpointsForOrg (ds_endpoints (dw_store w)) org)) \<le> dlv_endpointCap (dlv_F c o')
    \<and> distinct (map EP_ID (rows (ds_endpoints (dw_store w))))
    \<and> distinct (map (\<lambda>x. Ev_ID (er_event x)) (rows (ds_events (dw_store w))))
    \<and> (\<forall>i. events w i \<noteq> None \<longrightarrow> minted ''evt_'' (dw_events_minted w) i)"
proof -
  have k: "kept (dlv_endpointCap (dlv_F c o')) w 0 w" by (rule reachable_kept [OF assms])
  have inv: "dlv_store_inv (dw_store w)" by (rule kept_inv [OF k])
  have "int (card (owned w org)) \<le> dlv_endpointCap (dlv_F c o')" using k unfolding kept_def by blast
  moreover have "\<forall>i. events w i \<noteq> None \<longrightarrow> minted ''evt_'' (dw_events_minted w) i"
    using k unfolding kept_def dlv_inv_def by blast
  moreover have "distinct (map EP_ID (rows (ds_endpoints (dw_store w))))"
    "distinct (map (\<lambda>x. Ev_ID (er_event x)) (rows (ds_events (dw_store w))))"
    using inv by (simp_all only: dlv_store_inv_def keyed_distinct_rows)
  ultimately show ?thesis by (simp only: card_owned [OF inv] simp_thms)
qed

text \<open>
  C11: An event keeps its identity for ever. Whatever happens to an event (attempts, retries, redeliveries,
  interleaved with anything else), its id, organization, endpoint, type, body and creation time are
  the ones it was enqueued with, so a receiver sees the same body under the same \<open>webhook-id\<close>; and
  once it is purged, no later step brings it back or gives its id to another event.
\<close>

theorem event_identity_immutable:
  assumes "fresh_world u" and "(dlv_step c o')\<^sup>*\<^sup>* u v" and "(dlv_step c o')\<^sup>*\<^sup>* v w"
    and "events w i = Some y" and "minted ''evt_'' (dw_events_minted v) i"
  shows "\<exists>x. events v i = Some x \<and> Ev_ID (er_event x) = Ev_ID (er_event y)
    \<and> Ev_OrgID (er_event x) = Ev_OrgID (er_event y) \<and> Ev_EndpointID (er_event x) = Ev_EndpointID (er_event y)
    \<and> Ev_Type (er_event x) = Ev_Type (er_event y) \<and> Ev_Body (er_event x) = Ev_Body (er_event y)
    \<and> Ev_CreatedAt (er_event x) = Ev_CreatedAt (er_event y)"
proof -
  have kv: "kept (dlv_endpointCap (dlv_F c o')) v 0 v" by (rule reachable_kept [OF assms(1,2)])
  have kw: "kept (dlv_endpointCap (dlv_F c o')) v 0 w" by (rule steps_keep [OF assms(3) kv])
  from kept_event(3) [OF kw assms(4,5)] obtain x where
    x: "events v i = Some x" "identity (er_event x) = identity (er_event y)" by blast
  have "Ev_ID (er_event x) = i" "Ev_ID (er_event y) = i"
    using kept_event(1) [OF kv x(1)] kept_event(1) [OF kw assms(4)] by simp_all
  with x show ?thesis by (simp add: identity_def)
qed

section \<open>Listing the outbox\<close>

type_synonym event_filter = "OrgID \<times> string \<times> string"

definition event_listing :: "dlv_store \<Rightarrow> event_filter \<Rightarrow> EventListCursor option \<Rightarrow> nat \<Rightarrow> Event list" where
  "event_listing r f c n = (case f of (org, ty, st) \<Rightarrow> projr (fst (dlv_mem_ListEventsPage org
     \<lparr>LF_Type = ty, LF_DeliveryStatus = st, LF_Cursor = c, LF_Limit = int n\<rparr> r)))"

definition listed :: "event_filter \<Rightarrow> Event \<Rightarrow> bool" where
  "listed f e \<longleftrightarrow> (case f of (org, ty, st) \<Rightarrow> Ev_OrgID e = org \<and> (ty \<noteq> [] \<longrightarrow> Ev_Type e = ty)
     \<and> (st \<noteq> [] \<longrightarrow> status_text (Ev_Status e) = st))"

definition events_of :: "dlv_store \<Rightarrow> event_filter \<Rightarrow> Event list" where
  "events_of r f = newest_first ev_key (filter (listed f) (map er_event (rows (ds_events r))))"

lemma matchesEventFilter_iff:
  "matchesEventFilter e org \<lparr>LF_Type = ty, LF_DeliveryStatus = st, LF_Cursor = c, LF_Limit = n\<rparr> \<longleftrightarrow>
     listed (org, ty, st) e \<and> after_cursor ev_key c e"
  by (auto simp: matchesEventFilter_def listed_def after_cursor_def isAfterCursorInNewestFirstOrder_def ev_key_def
      less_prod_def split: option.split)

lemma distinct_event_keys:
  assumes "dlv_store_inv r"
  shows "distinct (map ev_key (filter P (map er_event (rows (ds_events r)))))"
proof -
  have "distinct (map Ev_ID (map er_event (rows (ds_events r))))"
    using assms keyed_distinct_rows by (fastforce simp: dlv_store_inv_def comp_def)
  then have "distinct (map Ev_ID (filter P (map er_event (rows (ds_events r)))))" by (rule distinct_map_filter)
  then show ?thesis by (auto simp: distinct_map inj_on_def ev_key_def)
qed

interpretation event_list: cursor_listing dlv_store_inv ev_key events_of event_listing
proof
  fix s f assume "dlv_store_inv s"
  then show "sorted_wrt (\<lambda>a b. ev_key b < ev_key a) (events_of s f)"
    unfolding events_of_def by (intro newest_first_desc distinct_event_keys)
next
  fix s :: dlv_store and n :: nat and f :: event_filter and c assume "0 < n"
  obtain org ty st where f: "f = (org, ty, st)" by (cases f) auto
  from \<open>0 < n\<close> show "event_listing s f c n = take n (filter (after_cursor ev_key c) (events_of s f))"
    by (simp add: event_listing_def f dlv_mem_ListEventsPage_def events_of_def sortEventsNewestFirst_def
        matchesEventFilter_iff newest_first_filter Let_def conj_commute)
qed

lemma normalizeListLimit_bounds: "1 \<le> normalizeListLimit n" "normalizeListLimit n \<le> 200"
  by (auto simp: normalizeListLimit_def defaultListLimit_def maxListLimit_def)

lemma decodeEventCursor_eq: "decodeEventCursor = decode_time_id"
  unfolding decodeEventCursor_def decode_time_id_def dlv_ErrInvalidCursor_def invalid_cursor_error_def ..

definition ListEvents_page ::
  "'s dlv_facade \<Rightarrow> event_filter \<Rightarrow> 's \<Rightarrow> int \<Rightarrow> string \<Rightarrow> go_error + Event list \<times> string" where
  "ListEvents_page f flt s limit raw =
     (case flt of (org, ty, st) \<Rightarrow>
       (case fst (dlv_ListEvents f org \<lparr>LEP_Type = ty, LEP_DeliveryStatus = st, LEP_Cursor = raw,
           LEP_Limit = limit\<rparr> s) of
          Inl e \<Rightarrow> Inl e
        | Inr r \<Rightarrow> Inr (LER_Items r, LER_NextCursor r)))"

lemma ListEvents_page_eq:
  "ListEvents_page (dlv_F c o') flt w limit
     = cursor_page ev_key (event_listing (dw_store w) flt) (nat (normalizeListLimit limit))"
proof (rule ext)
  fix raw
  obtain org ty st where f: "flt = (org, ty, st)" by (cases flt) auto
  obtain n where n: "normalizeListLimit limit = int n"
    using normalizeListLimit_bounds(1) [of limit] nonneg_int_cases [of "normalizeListLimit limit"] by fastforce
  show "ListEvents_page (dlv_F c o') flt w limit raw
     = cursor_page ev_key (event_listing (dw_store w) flt) (nat (normalizeListLimit limit)) raw"
    using n
    by (auto simp: f ListEvents_page_def dlv_ListEvents_def cursor_page_def decodeEventCursor_eq Let_def
        act_simps dlv_mem_ListEventsPage_def event_listing_def paginateEvents_def
        paginate_def encodeEventCursor_def encode_time_id_def ev_key_def add.commute split: sum.splits)
qed

text \<open>
  Following \<open>NextCursor\<close> through \<open>ListEvents\<close>, with any page size and any filter of type and delivery
  status, gives every matching event of the organization exactly once, newest first.
\<close>

theorem ListEvents_complete:
  assumes "dlv_store_inv (dw_store w)"
    and "\<forall>e \<in> set (events_of (dw_store w) flt). cursor_key (ev_key e)"
    and "length (events_of (dw_store w) flt) < fuel"
  shows "read_pages (ListEvents_page (dlv_F c o') flt w limit) fuel [] = Inr (events_of (dw_store w) flt)
    \<and> distinct (events_of (dw_store w) flt)
    \<and> set (events_of (dw_store w) flt) = {e. listed flt e \<and> e \<in> er_event ` set (rows (ds_events (dw_store w)))}"
proof -
  have "0 < nat (normalizeListLimit limit)" using normalizeListLimit_bounds(1) [of limit] by simp
  then show ?thesis
    using event_list.read_pages_complete [OF assms(1) _ assms(2,3)] event_list.matching_distinct [OF assms(1)]
    by (auto simp: ListEvents_page_eq events_of_def)
qed

section \<open>Examples\<close>

definition dlv_empty :: dlv_world where
  "dlv_empty = dlv_demo\<lparr>dw_store := dlv_NewRepository, dw_endpoints_minted := 0, dw_events_minted := 0\<rparr>"

lemma dlv_empty_fresh: "fresh_world dlv_empty"
  by (simp add: fresh_world_def dlv_empty_def)

lemma dlv_empty_enqueue:
  "snd (dlv_Enqueue (dlv_F sample_crypto demo_overrides) ''org_1'' EventTypeTriggerEvent None dlv_empty) =
     with_event (new_event dlv_empty ''org_1'' [] EventTypeTriggerEvent None StatusNoEndpoint) (minting dlv_empty)"
proof -
  have "fst (dlv_mem_ListEndpoints ''org_1'' (dw_store dlv_empty)) = Inr []"
    by (simp add: dlv_mem_ListEndpoints_def dlv_empty_def dlv_NewRepository_def endpointsForOrg_def
        sortEndpointsOldestFirst_def oldest_first_by_def)
  then have "dlv_repo_ListEndpoints (dlv_F sample_crypto demo_overrides) ''org_1'' dlv_empty = (Inr [], dlv_empty)"
    using dlv_reads(1) [of sample_crypto demo_overrides "''org_1''" dlv_empty]
    by (cases "dlv_repo_ListEndpoints (dlv_F sample_crypto demo_overrides) ''org_1'' dlv_empty")
      (auto simp: zoom_apply split: prod.splits)
  then show ?thesis
    by (simp add: dlv_Enqueue_def attempt_apply matchingEnabledEndpoints_def enqueueUnrouted_run Let_def
        del: dlv_memory_ops)
qed

lemma endpoint_cap_invariant_witness:
  "\<exists>w. (dlv_step sample_crypto demo_overrides)\<^sup>*\<^sup>* dlv_empty w \<and> events w (sequential_id ''evt_'' 0) \<noteq> None
     \<and> minted ''evt_'' (dw_events_minted w) (sequential_id ''evt_'' 0)"
proof -
  let ?w = "with_event (new_event dlv_empty ''org_1'' [] EventTypeTriggerEvent None StatusNoEndpoint) (minting dlv_empty)"
  have st: "(dlv_step sample_crypto demo_overrides)\<^sup>*\<^sup>* dlv_empty ?w"
    unfolding dlv_empty_enqueue [symmetric] by (rule r_into_rtranclp, rule dlv_step.enqueue)
  have ev: "events ?w (sequential_id ''evt_'' 0) \<noteq> None" by (simp add: dlv_empty_def)
  have "\<forall>i. events ?w i \<noteq> None \<longrightarrow> minted ''evt_'' (dw_events_minted ?w) i"
    using endpoint_cap_invariant [OF dlv_empty_fresh st, of "''org_1''"] by (elim conjE)
  with st ev show ?thesis by blast
qed

lemma event_identity_immutable_witness:
  "\<exists>v w x y. (dlv_step sample_crypto demo_overrides)\<^sup>*\<^sup>* v w
     \<and> events v (sequential_id ''evt_'' 0) = Some x \<and> Ev_Status (er_event x) = StatusNoEndpoint
     \<and> events w (sequential_id ''evt_'' 0) = Some y \<and> Ev_Status (er_event y) = StatusPending
     \<and> Ev_Body (er_event x) = Ev_Body (er_event y)"
proof -
  let ?e = "new_event dlv_empty ''org_1'' [] EventTypeTriggerEvent None StatusNoEndpoint"
  let ?v = "with_event ?e (minting dlv_empty)"
  let ?w = "snd (dlv_Redeliver (dlv_F sample_crypto demo_overrides) ''org_1'' (sequential_id ''evt_'' 0) ?v)"
  have uv: "(dlv_step sample_crypto demo_overrides)\<^sup>*\<^sup>* dlv_empty ?v"
    unfolding dlv_empty_enqueue [symmetric] by (rule r_into_rtranclp, rule dlv_step.enqueue)
  have vw: "(dlv_step sample_crypto demo_overrides)\<^sup>*\<^sup>* ?v ?w" by (rule r_into_rtranclp, rule dlv_step.redeliver)
  have n: "dw_events_minted dlv_empty = 0" by (simp add: dlv_empty_def)
  have v: "events ?v (sequential_id ''evt_'' 0) = Some \<lparr>er_event = ?e, er_leaseUntil = None\<rparr>" by (simp add: n)
  have "\<exists>y. events ?w (sequential_id ''evt_'' 0) = Some y \<and> Ev_Status (er_event y) = StatusPending"
    using v by (simp add: dlv_Redeliver_def act_simps dlv_mem_FindEvent_def dlv_mem_SaveEvent_def Let_def n
        events_def [symmetric]) (simp add: events_def n)
  then obtain y where y: "events ?w (sequential_id ''evt_'' 0) = Some y" "Ev_Status (er_event y) = StatusPending" by blast
  have "minted ''evt_'' (dw_events_minted ?v) (sequential_id ''evt_'' 0)" using minted_next by (simp add: n)
  from event_identity_immutable [OF dlv_empty_fresh uv vw y(1) this] obtain x where
    x: "events ?v (sequential_id ''evt_'' 0) = Some x" "Ev_Body (er_event x) = Ev_Body (er_event y)" by blast
  have "Ev_Status (er_event x) = StatusNoEndpoint" using v x(1) by auto
  with vw x y show ?thesis by blast
qed

lemma ListEvents_complete_witness:
  "read_pages (ListEvents_page (dlv_F sample_crypto demo_overrides) (''org_1'', [], []) dlv_demo 1) 3 []
     = Inr (events_of (dw_store dlv_demo) (''org_1'', [], []))
   \<and> length (events_of (dw_store dlv_demo) (''org_1'', [], [])) = 2"
proof -
  have l: "length (events_of (dw_store dlv_demo) (''org_1'', [], [])) = 2"
    by (simp add: events_of_def newest_first_def listed_def dlv_demo_def demo_event_def)
  have "cursor_key (5, sequential_id ''evt_'' 0)" "cursor_key (6, sequential_id ''evt_'' 1)" by code_simp+
  then have k: "\<forall>e \<in> set (events_of (dw_store dlv_demo) (''org_1'', [], [])). cursor_key (ev_key e)"
    by (simp add: events_of_def dlv_demo_def demo_event_def ev_key_def listed_def)
  have "dlv_store_inv (dw_store dlv_demo)" using dlv_demo_inv by (simp add: dlv_inv_def)
  from ListEvents_complete [OF this k, of 3] l show ?thesis by simp
qed

end
