(* ===== verification/DeliveryRetry.thy ===== *)
theory DeliveryRetry
  imports DeliveryLife
begin

text \<open>
  How often an event is attempted. Every operation of the module moves an event along a small life cycle (born,
  attempted while it is pending, purged once it is settled, requeued by \<open>Redeliver\<close>); the bounds on the attempts
  follow from the life cycle alone.
\<close>

section \<open>The operations as a sequence\<close>

datatype dlv_op =
    OpSetEndpoint OrgID string
  | OpCreateEndpoint OrgID string "string list option"
  | OpUpdateEndpoint OrgID EndpointID string "string list option"
  | OpDeleteEndpoint OrgID EndpointID
  | OpEnableEndpoint OrgID EndpointID
  | OpDisableEndpoint OrgID EndpointID
  | OpRotateSecret OrgID "int option"
  | OpRotateEndpointSecret OrgID EndpointID "int option"
  | OpEnqueue OrgID string "json option"
  | OpSendTest OrgID
  | OpRedeliver OrgID EventID
  | OpDispatch
  | OpPurge
  | OpTick duration
  | OpAnswers "(int \<times> go_error option) list"
  | OpSettings "(OrgID \<times> int) list"
  | OpAccess acc_world

fun dlv_exec :: "crypto \<Rightarrow> dlv_overrides \<Rightarrow> dlv_op \<Rightarrow> dlv_world \<Rightarrow> dlv_world" where
  "dlv_exec c o' (OpSetEndpoint org url) w = snd (dlv_SetEndpoint (dlv_F c o') org url w)"
| "dlv_exec c o' (OpCreateEndpoint org url ets) w = snd (dlv_CreateEndpoint (dlv_F c o') org url ets w)"
| "dlv_exec c o' (OpUpdateEndpoint org i url ets) w = snd (dlv_UpdateEndpoint (dlv_F c o') org i url ets w)"
| "dlv_exec c o' (OpDeleteEndpoint org i) w = snd (dlv_DeleteEndpoint (dlv_F c o') org i w)"
| "dlv_exec c o' (OpEnableEndpoint org i) w = snd (dlv_EnableEndpoint (dlv_F c o') org i w)"
| "dlv_exec c o' (OpDisableEndpoint org i) w = snd (dlv_DisableEndpoint (dlv_F c o') org i w)"
| "dlv_exec c o' (OpRotateSecret org h) w = snd (dlv_RotateSecret (dlv_F c o') org h w)"
| "dlv_exec c o' (OpRotateEndpointSecret org i h) w = snd (dlv_RotateEndpointSecret (dlv_F c o') org i h w)"
| "dlv_exec c o' (OpEnqueue org ty data) w = snd (dlv_Enqueue (dlv_F c o') org ty data w)"
| "dlv_exec c o' (OpSendTest org) w = snd (dlv_SendTest (dlv_F c o') org w)"
| "dlv_exec c o' (OpRedeliver org i) w = snd (dlv_Redeliver (dlv_F c o') org i w)"
| "dlv_exec c o' OpDispatch w = snd (dlv_DispatchOnce (dlv_F c o') w)"
| "dlv_exec c o' OpPurge w = snd (dlv_PurgeOnce (dlv_F c o') w)"
| "dlv_exec c o' (OpTick d) w = w\<lparr>dw_now := dw_now w + max 0 d\<rparr>"
| "dlv_exec c o' (OpAnswers rs) w = w\<lparr>dw_responses := rs\<rparr>"
| "dlv_exec c o' (OpSettings rt) w = w\<lparr>dw_retention := rt\<rparr>"
| "dlv_exec c o' (OpAccess a) w = w\<lparr>dw_access := a\<rparr>"

definition dlv_run :: "crypto \<Rightarrow> dlv_overrides \<Rightarrow> dlv_op list \<Rightarrow> dlv_world \<Rightarrow> dlv_world" where
  "dlv_run c o' ops w = fold (dlv_exec c o') ops w"

lemma exec_step: "dlv_step c o' w (dlv_exec c o' op w)"
  by (cases op) (auto intro: dlv_step.intros)

fun requeues :: "EventID \<Rightarrow> dlv_op \<Rightarrow> bool" where
  "requeues i (OpRedeliver org j) = (i = j)"
| "requeues i _ = False"

definition redeliveries :: "EventID \<Rightarrow> dlv_op list \<Rightarrow> nat" where
  "redeliveries i ops = length (filter (requeues i) ops)"

section \<open>The life of one event\<close>

definition attempts_of :: "EventID \<Rightarrow> dlv_world \<Rightarrow> DeliveryLogEntry list" where
  "attempts_of i w = filter (\<lambda>l. DLE_EventID l = i) (dw_log w)"

text \<open>The requests a receiver gets under the event's id.\<close>

definition posts_of :: "EventID \<Rightarrow> dlv_world \<Rightarrow> nat" where
  "posts_of i w = length (filter (\<lambda>(url, headers, body). header_Get headers ''webhook-id'' = i) (dw_posts w))"

record event_life =
  el_event :: "Event option"
  el_attempts :: "DeliveryLogEntry list"
  el_posts :: nat
  el_minted :: bool

definition life_of :: "EventID \<Rightarrow> dlv_world \<Rightarrow> event_life" where
  "life_of i w = \<lparr>el_event = map_option er_event (events w i), el_attempts = attempts_of i w, el_posts = posts_of i w,
     el_minted = minted ''evt_'' (dw_events_minted w) i\<rparr>"

inductive life :: "event_life \<Rightarrow> event_life \<Rightarrow> bool" where
  born: "\<not> el_minted v \<Longrightarrow> Ev_Attempts e = 0 \<Longrightarrow> Ev_Status e \<in> {StatusPending, StatusNoEndpoint}
    \<Longrightarrow> life v (v\<lparr>el_event := Some e, el_minted := True\<rparr>)"
| attempted: "el_event v = Some e \<Longrightarrow> Ev_Status e = StatusPending \<Longrightarrow> DLE_Status l = status \<Longrightarrow> n \<le> 1
    \<Longrightarrow> life v (v\<lparr>el_event := Some (applyAttemptOutcome e status err now (Ev_Attempts e + 1) j),
          el_attempts := el_attempts v @ [l], el_posts := el_posts v + n\<rparr>)"
| purged: "el_event v = Some e \<Longrightarrow> IsTerminal (Ev_Status e) \<Longrightarrow> life v (v\<lparr>el_event := None\<rparr>)"

inductive_cases lifeE: "life v v'"

definition requeued :: "time \<Rightarrow> event_life \<Rightarrow> event_life" where
  "requeued now v = v\<lparr>el_event := map_option (\<lambda>e. e\<lparr>Ev_Status := StatusPending, Ev_NextAttemptAt := now\<rparr>) (el_event v)\<rparr>"

subsection \<open>What follows from it\<close>

text \<open>\<open>R\<close> counts the redeliveries.\<close>

definition tried :: "nat \<Rightarrow> event_life \<Rightarrow> bool" where
  "tried R v \<longleftrightarrow> el_posts v \<le> length (el_attempts v) \<and> length (el_attempts v) \<le> 10 + R
     \<and> (\<not> el_minted v \<longrightarrow> el_event v = None \<and> el_attempts v = [])
     \<and> (\<forall>e. el_event v = Some e \<longrightarrow> Ev_Attempts e = int (length (el_attempts v))
          \<and> (Ev_Status e = StatusPending \<longrightarrow> length (el_attempts v) < 10 + R)
          \<and> (Ev_Status e = StatusFailed \<longrightarrow> 10 \<le> length (el_attempts v))
          \<and> (Ev_Status e = StatusDelivered \<longrightarrow> el_attempts v \<noteq> [] \<and> isSuccessStatus (DLE_Status (last (el_attempts v)))))"

lemma life_tried: "life v v' \<Longrightarrow> tried R v \<Longrightarrow> tried R v'"
  by (induction rule: life.induct)
    (auto simp: tried_def applyAttemptOutcome_status MaxAttempts_def)

lemma lives_tried: "life\<^sup>*\<^sup>* v v' \<Longrightarrow> tried R v \<Longrightarrow> tried R v'"
  by (induction rule: rtranclp_induct) (blast intro: life_tried)+

lemma requeued_tried: "tried R v \<Longrightarrow> tried (Suc R) (requeued now v)"
  by (auto simp: tried_def requeued_def)

lemma tried_mono: "tried R v \<Longrightarrow> R \<le> R' \<Longrightarrow> tried R' v"
  by (auto simp: tried_def)

text \<open>A settled event stays as it is until it is purged.\<close>

definition settled_as :: "event_life \<Rightarrow> event_life \<Rightarrow> bool" where
  "settled_as v v' \<longleftrightarrow> el_event v' \<in> {el_event v, None} \<and> el_attempts v' = el_attempts v \<and> el_posts v' = el_posts v \<and> el_minted v'"

lemma lives_settled:
  assumes "life\<^sup>*\<^sup>* v v'" and "settled_as u v" and "el_event u = Some e" and "Ev_Status e \<noteq> StatusPending"
  shows "settled_as u v'"
  using assms(1,2)
proof (induction rule: rtranclp_induct)
  case (step y z)
  then show ?case using assms(3,4) by (auto simp: settled_as_def elim!: lifeE)
qed


section \<open>Every operation is a piece of that life\<close>

definition outbox_view :: "dlv_world \<Rightarrow> (EventID \<times> eventRecord) list \<times> nat \<times> DeliveryLogEntry list
    \<times> (string \<times> (string \<times> string) list \<times> string) list" where
  "outbox_view w = (ds_events (dw_store w), dw_events_minted w, dw_log w, dw_posts w)"

lemma life_of_view: "outbox_view w' = outbox_view w \<Longrightarrow> life_of i w' = life_of i w"
  by (simp add: outbox_view_def life_of_def events_def attempts_of_def posts_of_def)

lemma frame_steps:
  "preserves (\<lambda>w. outbox_view w = x) (dlv_repo_SaveEndpoint (dlv_F c o') e)"
  "preserves (\<lambda>w. outbox_view w = x) (dlv_repo_DeleteEndpoint (dlv_F c o') org i)"
  "preserves (\<lambda>w. outbox_view w = x) (dlv_newEndpointID (dlv_F c o'))"
  "preserves (\<lambda>w. outbox_view w = x) (dlv_secrets_IssueWebhookSecret (dlv_F c o') org i)"
  "preserves (\<lambda>w. outbox_view w = x) (dlv_secrets_RotateWebhookSecret (dlv_F c o') org i h)"
  "preserves (\<lambda>w. outbox_view w = x) (dlv_secrets_ActiveWebhookSecrets (dlv_F c o') org i)"
  "preserves (\<lambda>w. outbox_view w = x) (dlv_secrets_WebhookSecretPrefix (dlv_F c o') org i)"
  "preserves P (dlv_now (dlv_F c o'))"
  "preserves P (dlv_repo_ListEndpoints (dlv_F c o') org)"
  "preserves P (dlv_repo_FindEndpoint (dlv_F c o') org)"
  "preserves P (dlv_repo_FindEndpointByID (dlv_F c o') org i)"
  "preserves P (dlv_repo_FindEvent (dlv_F c o') org i)"
  by (rule preservesI,
      auto simp: outbox_view_def zoom_apply dlv_mem_SaveEndpoint_def dlv_mem_DeleteEndpoint_def
        dlv_mem_ListEndpoints_def dlv_mem_FindEndpoint_def dlv_mem_FindEndpointByID_def dlv_mem_FindEvent_def Let_def
        split: prod.splits option.splits if_splits)+

lemma preserves_option [preserves_intros]:
  "preserves P a \<Longrightarrow> (\<And>x. preserves P (b x)) \<Longrightarrow> preserves P (case v of None \<Rightarrow> a | Some x \<Rightarrow> b x)"
  by (cases v) simp_all

lemmas frame_intros = frame_steps preserves_option preserves_attempt preserves_call preserves_check preserves_if
  preserves_case_prod preserves_ok preserves_fail

lemma createEndpoint_frame: "preserves (\<lambda>w. outbox_view w = x) (createEndpoint (dlv_F c o') org url ets)"
  unfolding createEndpoint_def Let_def by (intro frame_intros)

lemma updateEndpointURL_frame: "preserves (\<lambda>w. outbox_view w = x) (updateEndpointURL (dlv_F c o') e url)"
  unfolding updateEndpointURL_def Let_def by (intro frame_intros)

lemma rotate_frame: "preserves (\<lambda>w. outbox_view w = x) (rotateSecretForEndpoint (dlv_F c o') org e h)"
  unfolding rotateSecretForEndpoint_def by (intro frame_intros)

lemma SetEndpoint_frame: "preserves (\<lambda>w. outbox_view w = x) (dlv_SetEndpoint (dlv_F c o') org url)"
  unfolding dlv_SetEndpoint_def by (intro frame_intros createEndpoint_frame updateEndpointURL_frame)

lemma CreateEndpoint_frame: "preserves (\<lambda>w. outbox_view w = x) (dlv_CreateEndpoint (dlv_F c o') org url ets)"
  unfolding dlv_CreateEndpoint_def by (intro frame_intros createEndpoint_frame)

lemma UpdateEndpoint_frame: "preserves (\<lambda>w. outbox_view w = x) (dlv_UpdateEndpoint (dlv_F c o') org i url ets)"
  unfolding dlv_UpdateEndpoint_def Let_def by (intro frame_intros)

lemma DeleteEndpoint_frame: "preserves (\<lambda>w. outbox_view w = x) (dlv_DeleteEndpoint (dlv_F c o') org i)"
  unfolding dlv_DeleteEndpoint_def by (intro frame_intros)

lemma EnableEndpoint_frame: "preserves (\<lambda>w. outbox_view w = x) (dlv_EnableEndpoint (dlv_F c o') org i)"
  unfolding dlv_EnableEndpoint_def Let_def by (intro frame_intros)

lemma DisableEndpoint_frame: "preserves (\<lambda>w. outbox_view w = x) (dlv_DisableEndpoint (dlv_F c o') org i)"
  unfolding dlv_DisableEndpoint_def Let_def by (intro frame_intros)

lemma RotateSecret_frame: "preserves (\<lambda>w. outbox_view w = x) (dlv_RotateSecret (dlv_F c o') org h)"
  unfolding dlv_RotateSecret_def by (intro frame_intros rotate_frame)

lemma RotateEndpointSecret_frame: "preserves (\<lambda>w. outbox_view w = x) (dlv_RotateEndpointSecret (dlv_F c o') org i h)"
  unfolding dlv_RotateEndpointSecret_def by (intro frame_intros rotate_frame)

lemma framed: "(\<And>x. preserves (\<lambda>w. outbox_view w = x) m) \<Longrightarrow> life_of i (snd (m w)) = life_of i w"
  by (intro life_of_view) (simp add: preserves_def)

lemma bookkeeping_frame: "preserves (\<lambda>w. outbox_view w = x) (applyAutoDisableBookkeeping (dlv_F c o') e st)"
  unfolding applyAutoDisableBookkeeping_def Let_def
  by (cases st) (simp_all del: dlv_memory_ops add: frame_steps)

subsection \<open>Enqueueing\<close>

lemma with_event_life:
  assumes "dw_events_minted w = n"
  shows "el_attempts (life_of i (with_event e (minting w))) = el_attempts (life_of i w)"
    and "el_posts (life_of i (with_event e (minting w))) = el_posts (life_of i w)"
  by (simp_all add: life_of_def attempts_of_def posts_of_def with_event_def minting_def)

definition living :: "int \<Rightarrow> dlv_world \<Rightarrow> EventID \<Rightarrow> event_life \<Rightarrow> dlv_world \<Rightarrow> bool" where
  "living cap u i v w \<longleftrightarrow> kept cap u 0 w \<and> life\<^sup>*\<^sup>* v (life_of i w)"

lemma livingI: "kept cap u 0 w' \<Longrightarrow> living cap u i v w \<Longrightarrow> life\<^sup>*\<^sup>* (life_of i w) (life_of i w') \<Longrightarrow> living cap u i v w'"
  unfolding living_def by (meson rtranclp_trans)

lemma enqueue_lives:
  assumes "living cap u i v w" and "st \<in> {StatusPending, StatusNoEndpoint}"
  shows "living cap u i v (with_event (new_event w org ep ty data st) (minting w))" (is "living _ _ _ _ ?w")
proof (rule livingI [OF _ assms(1)])
  have k: "kept cap u 0 w" using assms(1) by (simp add: living_def)
  then show "kept cap u 0 ?w" by (rule kept_new_event)
  let ?e = "new_event w org ep ty data st"
  show "life\<^sup>*\<^sup>* (life_of i w) (life_of i ?w)"
  proof (cases "i = Ev_ID ?e")
    case True
    have "\<not> el_minted (life_of i w)" unfolding True by (simp add: life_of_def not_minted)
    then have "life (life_of i w) ((life_of i w)\<lparr>el_event := Some ?e, el_minted := True\<rparr>)"
      by (rule life.born) (use assms(2) in simp_all)
    moreover have "life_of i ?w = (life_of i w)\<lparr>el_event := Some ?e, el_minted := True\<rparr>"
      unfolding True by (simp add: life_of_def attempts_of_def posts_of_def with_event_def minting_def events_def minted_next)
    ultimately show ?thesis by simp
  next
    case False
    have "minted ''evt_'' (Suc (dw_events_minted w)) i = minted ''evt_'' (dw_events_minted w) i"
      using False minted_Suc by (auto simp: minted_def less_Suc_eq)
    then have "life_of i ?w = life_of i w"
      using False by (simp add: life_of_def attempts_of_def posts_of_def with_event_def minting_def events_def)
    then show ?thesis by simp
  qed
qed

lemma enqueue_living:
  "preserves (living cap u i v) (enqueueToEndpoint (dlv_F c o') e ty data)"
  "preserves (living cap u i v) (enqueueUnrouted (dlv_F c o') org ty data)"
  by (rule preservesI, simp add: enqueueToEndpoint_run enqueueUnrouted_run Let_def enqueue_lives)+

lemma Enqueue_living: "preserves (living cap u i v) (dlv_Enqueue (dlv_F c o') org ty data)"
  unfolding dlv_Enqueue_def Let_def
  by (intro frame_intros preserves_map_each enqueue_living)

lemma SendTest_living: "preserves (living cap u i v) (dlv_SendTest (dlv_F c o') org)"
  unfolding dlv_SendTest_def by (intro frame_intros enqueue_living)


subsection \<open>Attempting\<close>

text \<open>What one attempt leaves of the outbox: nothing when there is no endpoint or no secret, otherwise one attempt.\<close>

inductive tries :: "Event \<Rightarrow> dlv_world \<Rightarrow> dlv_world \<Rightarrow> bool" for e w w' where
  nothing: "outbox_view w' = outbox_view w \<Longrightarrow> tries e w w'"
| tried_once: "events w' = (events w)(Ev_ID e \<mapsto> \<lparr>er_event = applyAttemptOutcome e status err now (Ev_Attempts e + 1) j,
        er_leaseUntil = None\<rparr>)
    \<Longrightarrow> dw_log w' = dw_log w @ [l] \<Longrightarrow> DLE_EventID l = Ev_ID e \<Longrightarrow> DLE_Status l = status
    \<Longrightarrow> dw_posts w' = dw_posts w @ ps \<Longrightarrow> length ps \<le> 1
    \<Longrightarrow> \<forall>(url, headers, body) \<in> set ps. header_Get headers ''webhook-id'' = Ev_ID e
    \<Longrightarrow> dw_events_minted w' = dw_events_minted w \<Longrightarrow> tries e w w'"

lemma frame_result:
  assumes "\<And>x. preserves (\<lambda>w. outbox_view w = x) m" and "m w = (r, w')"
  shows "outbox_view w' = outbox_view w"
  using assms(1) [of "outbox_view w", unfolded preserves_def, rule_format, of w] assms(2) by simp

lemma signAndPost_run:
  "\<exists>a w' ps. signAndPost (dlv_F c o') url e t secrets w = (a, w') \<and> ds_events (dw_store w') = ds_events (dw_store w)
     \<and> dw_events_minted w' = dw_events_minted w \<and> dw_log w' = dw_log w \<and> dw_posts w' = dw_posts w @ ps \<and> length ps \<le> 1
     \<and> (\<forall>(url, headers, body) \<in> set ps. header_Get headers ''webhook-id'' = Ev_ID e)"
  by (cases "Sign c (Ev_ID e) t (Ev_Body e) secrets"; cases "dw_responses w")
    (auto simp: signAndPost_def receiver_Post_def header_Get_def SH_Headers_def Sign_def Let_def split: sum.splits)

lemma bookkeeping_ok: "\<exists>w'. applyAutoDisableBookkeeping (dlv_F c o') e st w = (Inr (), w') \<and> outbox_view w' = outbox_view w"
proof -
  obtain r w' where run: "applyAutoDisableBookkeeping (dlv_F c o') e st w = (r, w')" by fastforce
  then have "r = Inr ()"
    by (cases st) (auto simp: applyAutoDisableBookkeeping_def zoom_apply dlv_mem_SaveEndpoint_def Let_def split: if_splits)
  then show ?thesis using run frame_result [OF bookkeeping_frame run] by blast
qed

lemma resolve_frame: "preserves (\<lambda>w. outbox_view w = x) (resolveDispatchEndpoint (dlv_F c o') e)"
  unfolding resolveDispatchEndpoint_def by (intro frame_intros)

lemma dispatchOne_tries: "tries e w (snd (dispatchOne (dlv_F c o') e w))"
proof -
  obtain r1 w1 where resolve: "resolveDispatchEndpoint (dlv_F c o') e w = (r1, w1)" by fastforce
  have v1: "outbox_view w1 = outbox_view w" by (rule frame_result [OF resolve_frame resolve])
  show ?thesis
  proof (cases "\<exists>ep. r1 = Inr (Some ep)")
    case False
    then have "snd (dispatchOne (dlv_F c o') e w) = w1"
      by (cases r1) (auto simp: dispatchOne_def attempt_apply [of "resolveDispatchEndpoint (dlv_F c o') e"] resolve split: option.split)
    then show ?thesis using v1 tries.nothing by simp
  next
    case True
    then obtain ep where ep: "r1 = Inr (Some ep)" by blast
    obtain r2 w2 where sec: "dlv_secrets_ActiveWebhookSecrets (dlv_F c o') (Ev_OrgID e) (EP_ID ep) w1 = (r2, w2)" by fastforce
    have "outbox_view w2 = outbox_view w1" by (rule frame_result [OF frame_steps(6) sec])
    then have v2: "outbox_view w2 = outbox_view w" using v1 by simp
    show ?thesis
    proof (cases r2)
      case (Inl err)
      then have "snd (dispatchOne (dlv_F c o') e w) = w2"
        unfolding dispatchOne_def attempt_apply [of "resolveDispatchEndpoint (dlv_F c o') e"] resolve ep prod.case sum.case
          option.case attempt_apply sec by simp
      then show ?thesis using v2 tries.nothing by simp
    next
      case (Inr secrets)
      obtain status err w3 ps where post: "signAndPost (dlv_F c o') (EP_URL ep) e (dw_now w2) secrets w2 = ((status, err), w3)"
        "ds_events (dw_store w3) = ds_events (dw_store w2)" "dw_events_minted w3 = dw_events_minted w2"
        "dw_log w3 = dw_log w2" "dw_posts w3 = dw_posts w2 @ ps" "length ps \<le> 1"
        "\<forall>(url, headers, body) \<in> set ps. header_Get headers ''webhook-id'' = Ev_ID e"
        using signAndPost_run [of c o' "EP_URL ep" e "dw_now w2" secrets w2] by fastforce
      let ?j = "if (err = None \<and> isSuccessStatus status) \<or> IsExhausted (Ev_Attempts e + 1) then 0 else jitter_of o'"
      define e' where "e' = applyAttemptOutcome e status err (dw_now w3) (Ev_Attempts e + 1) ?j"
      define w4 where "w4 = with_event e' w3"
      have id': "Ev_ID e' = Ev_ID e" by (simp add: e'_def)
      have save: "on_dlv (dlv_mem_SaveEvent e') w3 = (Inr (), w4)"
        by (simp add: zoom_apply dlv_mem_SaveEvent_def w4_def with_event_def)
      obtain w5 where book: "applyAutoDisableBookkeeping (dlv_F c o') ep (Ev_Status e') w4 = (Inr (), w5)"
        and v5: "outbox_view w5 = outbox_view w4" using bookkeeping_ok by blast
      have draw: "(if (err = None \<and> isSuccessStatus status) \<or> IsExhausted (Ev_Attempts e + 1) then (\<lambda>s. (0, s))
        else (\<lambda>w. (jitter_of o', w))) w3 = (?j, w3)" by simp
      note sec' = sec [unfolded Inr dlv_memory_ops]
      have "dispatchOne (dlv_F c o') e w = recordAttempt (dlv_F c o') e (Ev_Attempts e + 1) status (dw_now w3 - dw_now w2) w5"
        unfolding dispatchOne_def attempt_apply call_apply resolve ep prod.case sum.case option.case Let_def
          dlv_memory_ops sec' jitter_of_def [symmetric] post(1) draw e'_def [symmetric] save book ..
      moreover define l where "l = \<lparr>DLE_OrgID = Ev_OrgID e, DLE_EventID = Ev_ID e, DLE_EventType = Ev_Type e,
        DLE_Attempt = Ev_Attempts e + 1, DLE_Status = status, DLE_DurationMs = Milliseconds (dw_now w3 - dw_now w2)\<rparr>"
      ultimately have fin: "snd (dispatchOne (dlv_F c o') e w) = w5\<lparr>dw_log := dw_log w5 @ [l]\<rparr>" (is "_ = ?w6")
        by (simp add: recordAttempt_def recordAttemptMetric_def call_apply)
      have o: "ds_events (dw_store w2) = ds_events (dw_store w)" "dw_events_minted w2 = dw_events_minted w"
        "dw_log w2 = dw_log w" "dw_posts w2 = dw_posts w"
        using v2 by (simp_all add: outbox_view_def)
      have p: "ds_events (dw_store w5) = ds_events (dw_store w4)" "dw_events_minted w5 = dw_events_minted w4"
        "dw_log w5 = dw_log w4" "dw_posts w5 = dw_posts w4"
        using v5 by (simp_all add: outbox_view_def)
      have ev: "events ?w6 = (events w)(Ev_ID e \<mapsto> \<lparr>er_event = e', er_leaseUntil = None\<rparr>)"
        by (rule ext) (simp add: events_def p o post w4_def with_event_def id')
      show ?thesis unfolding fin
        by (rule tries.tried_once [OF ev [unfolded e'_def], where ps = ps and l = l])
          (use post(6,7) in \<open>simp_all add: p o post w4_def with_event_def l_def\<close>)
    qed
  qed
qed

lemma tries_life:
  assumes "tries e w w'" and "events w (Ev_ID e) = Some x" and "er_event x = e" and "Ev_Status e = StatusPending"
  shows "life\<^sup>*\<^sup>* (life_of i w) (life_of i w')"
proof (rule tries.cases [OF assms(1)])
  assume "outbox_view w' = outbox_view w"
  then have "life_of i w' = life_of i w" by (rule life_of_view)
  then show ?thesis by (rule ssubst) (rule rtranclp.rtrancl_refl)
next
  fix status err now j l ps
  assume tried_once: "events w' = (events w)(Ev_ID e \<mapsto> \<lparr>er_event = applyAttemptOutcome e status err now (Ev_Attempts e + 1) j,
        er_leaseUntil = None\<rparr>)"
    "dw_log w' = dw_log w @ [l]" "DLE_EventID l = Ev_ID e" "DLE_Status l = status"
    "dw_posts w' = dw_posts w @ ps" "length ps \<le> 1"
    "\<forall>(url, headers, body) \<in> set ps. header_Get headers ''webhook-id'' = Ev_ID e"
    "dw_events_minted w' = dw_events_minted w"
  show ?thesis
  proof (cases "i = Ev_ID e")
    case True
    have ev: "el_event (life_of i w) = Some e" using assms(2,3) True by (simp add: life_of_def)
    have "filter (\<lambda>(url, headers, body). header_Get headers ''webhook-id'' = i) ps = ps"
      using tried_once(7) True by (intro filter_True) auto
    then have eq: "life_of i w' = (life_of i w)\<lparr>el_event := Some (applyAttemptOutcome e status err now (Ev_Attempts e + 1) j),
        el_attempts := el_attempts (life_of i w) @ [l], el_posts := el_posts (life_of i w) + length ps\<rparr>"
      using True tried_once(1-5,8) by (simp add: life_of_def attempts_of_def posts_of_def)
    have "life (life_of i w) (life_of i w')"
      unfolding eq by (rule life.attempted [OF ev assms(4) tried_once(4,6)])
    then show ?thesis by blast
  next
    case False
    have "filter (\<lambda>(url, headers, body). header_Get headers ''webhook-id'' = i) ps = []"
      using tried_once(7) False by (auto simp: filter_empty_conv)
    then have "life_of i w' = life_of i w"
      using False tried_once(1-5,8) by (simp add: life_of_def attempts_of_def posts_of_def)
    then show ?thesis by simp
  qed
qed

lemma tries_other:
  assumes "tries e w w'" and "j \<noteq> Ev_ID e"
  shows "events w' j = events w j"
  using assms by (cases rule: tries.cases) (auto simp: outbox_view_def events_def)

definition claimed_pending :: "Event list \<Rightarrow> dlv_world \<Rightarrow> bool" where
  "claimed_pending es w \<longleftrightarrow> distinct (map Ev_ID es)
     \<and> (\<forall>e \<in> set es. Ev_Status e = StatusPending \<and> (\<exists>x. events w (Ev_ID e) = Some x \<and> er_event x = e))"

lemma dispatch_all_living:
  assumes "claimed_pending es w" and "life\<^sup>*\<^sup>* v (life_of i w)"
  shows "life\<^sup>*\<^sup>* v (life_of i (snd (for_each (dispatchOne (dlv_F c o')) es w)))"
  using assms
proof (induction es arbitrary: w)
  case (Cons e es)
  obtain r w' where run: "dispatchOne (dlv_F c o') e w = (r, w')" by fastforce
  have t: "tries e w w'" using dispatchOne_tries [of e w c o'] run by simp
  have e: "Ev_Status e = StatusPending" "\<exists>x. events w (Ev_ID e) = Some x \<and> er_event x = e"
    using Cons.prems(1) unfolding claimed_pending_def list.set by blast+
  then have "life\<^sup>*\<^sup>* (life_of i w) (life_of i w')" using tries_life [OF t] by blast
  then have l: "life\<^sup>*\<^sup>* v (life_of i w')" using Cons.prems(2) by (rule rtranclp_trans [rotated])
  have d: "distinct (map Ev_ID (e # es))" using Cons.prems(1) unfolding claimed_pending_def by blast
  have "Ev_ID x \<noteq> Ev_ID e" if "x \<in> set es" for x
  proof -
    have "Ev_ID e \<notin> Ev_ID ` set es" using d by simp
    then show ?thesis using imageI [OF that, of Ev_ID] by fastforce
  qed
  then have same: "events w' (Ev_ID x) = events w (Ev_ID x)" if "x \<in> set es" for x
    using that tries_other [OF t] by blast
  have "claimed_pending es w'"
    unfolding claimed_pending_def
  proof (intro conjI ballI)
    show "distinct (map Ev_ID es)" using d by simp
    fix x assume x: "x \<in> set es"
    show "Ev_Status x = StatusPending" "\<exists>y. events w' (Ev_ID x) = Some y \<and> er_event y = x"
      using Cons.prems(1) x unfolding same [OF x] claimed_pending_def list.set by blast+
  qed
  note ih = Cons.IH [OF this l]
  show ?case using ih l by (cases r) (simp_all add: attempt_apply run)
qed simp


lemma claim_living:
  assumes k: "kept cap u 0 w" and "0 \<le> limit"
    and run: "dlv_workQueue_ClaimDue (dlv_F c o') now ttl limit w = (Inr claimed, w')"
  shows "life_of i w' = life_of i w" and "claimed_pending claimed w'"
proof -
  have key: "keyed (\<lambda>x. Ev_ID (er_event x)) (ds_events (dw_store w))"
    using kept_inv [OF k] by (simp add: dlv_store_inv_def)
  obtain r' where c: "dlv_mem_ClaimDue now ttl limit (dw_store w) = (Inr claimed, r')" and w': "w' = w\<lparr>dw_store := r'\<rparr>"
    using run by (auto simp: zoom_apply split: prod.splits)
  obtain taken where t: "claimed = map (\<lambda>p. er_event (snd p)) taken"
      "set taken \<subseteq> {p \<in> set (ds_events (dw_store w)). isDueForClaim (snd p) now}"
      "distinct (map (\<lambda>p. Ev_ID (er_event (snd p))) taken)"
      "ds_events r' = map (\<lambda>p. if p \<in> set taken then (fst p, (snd p)\<lparr>er_leaseUntil := Some (now + ttl)\<rparr>) else p)
         (ds_events (dw_store w))"
    by (rule claim_taken [OF key c assms(2)]) (rule that)
  have sub: "set taken \<subseteq> set (ds_events (dw_store w))" using t(2) by blast
  have ev: "map_option er_event (events w' j) = map_option er_event (events w j)" for j
    using lease_lookup [OF key sub, of "Some (now + ttl)" j, folded t(4)]
    by (cases "map_of (ds_events (dw_store w)) j") (simp_all add: events_def w' del: map_of_map)
  then show "life_of i w' = life_of i w"
    by (simp add: life_of_def attempts_of_def posts_of_def) (simp add: w')
  show "claimed_pending claimed w'"
    unfolding claimed_pending_def
  proof (intro conjI ballI)
    show "distinct (map Ev_ID claimed)" using t(3) by (simp add: t(1) o_def)
    fix e assume "e \<in> set claimed"
    then obtain p where p: "p \<in> set taken" "e = er_event (snd p)" using t(1) by auto
    then have due: "p \<in> set (ds_events (dw_store w))" "isDueForClaim (snd p) now" using t(2) by auto
    then show "Ev_Status e = StatusPending" using p(2) by (simp add: isDueForClaim_def split: if_splits)
    have "map_of (ds_events (dw_store w)) (fst p) = Some (snd p)" "Ev_ID e = fst p"
      using key due(1) p(2) by (auto simp: keyed_def)
    then have "map_option er_event (events w (Ev_ID e)) = Some e" using p(2) by (simp add: events_def)
    then show "\<exists>x. events w' (Ev_ID e) = Some x \<and> er_event x = e" unfolding ev [symmetric] by auto
  qed
qed

lemma Dispatch_living: "preserves (living cap u i v) (dlv_DispatchOnce (dlv_F c o'))"
proof (rule preservesI)
  fix w assume l: "living cap u i v w"
  then have k: "kept cap u 0 w" and lw: "life\<^sup>*\<^sup>* v (life_of i w)" by (simp_all add: living_def)
  let ?ttl = "2 * dlv_deliveryTimeout (dlv_F c o') + leaseMargin"
  obtain claimed w' where c: "dlv_workQueue_ClaimDue (dlv_F c o') (dw_now w) ?ttl claimBatchLimit w = (Inr claimed, w')"
    by (simp add: zoom_apply dlv_mem_ClaimDue_def Let_def)
  have "0 \<le> claimBatchLimit" by (simp add: claimBatchLimit_def)
  note cl = claim_living [OF k this c]
  have "life\<^sup>*\<^sup>* v (life_of i (snd (for_each (dispatchOne (dlv_F c o')) claimed w')))"
    by (rule dispatch_all_living [OF cl(2)]) (use lw cl(1) [of i] in simp)
  moreover have "dlv_DispatchOnce (dlv_F c o') w = for_each (dispatchOne (dlv_F c o')) claimed w'"
    unfolding dlv_DispatchOnce_def call_apply Let_def attempt_apply dlv_memory_ops(25) prod.case
      c [unfolded dlv_memory_ops] sum.case
    using c by (simp add: attempt_apply)
  ultimately show "living cap u i v (snd (dlv_DispatchOnce (dlv_F c o') w))"
    using preservesD [OF Dispatch_keeps k] unfolding living_def by metis
qed

subsection \<open>Purging\<close>

lemma purge_living:
  assumes l: "living cap u i v w"
  shows "living cap u i v (w\<lparr>dw_store := (dw_store w)\<lparr>ds_events :=
    filter (\<lambda>p. \<not> purgeable org cutoff (er_event (snd p))) (ds_events (dw_store w))\<rparr>\<rparr>)" (is "living _ _ _ _ ?w")
proof (rule livingI [OF _ l])
  have k: "kept cap u 0 w" using l by (simp add: living_def)
  then show "kept cap u 0 ?w" by (rule kept_events_filter)
  have "keyed (\<lambda>x. Ev_ID (er_event x)) (ds_events (dw_store w))"
    using kept_inv [OF k] by (simp add: dlv_store_inv_def)
  then have d: "distinct (map fst (ds_events (dw_store w)))" by (simp add: keyed_def)
  have rest: "attempts_of i ?w = attempts_of i w" "posts_of i ?w = posts_of i w"
    by (simp_all add: attempts_of_def posts_of_def)
  show "life\<^sup>*\<^sup>* (life_of i w) (life_of i ?w)"
  proof (cases "\<exists>x. events w i = Some x \<and> purgeable org cutoff (er_event x)")
    case True
    then obtain x where x: "events w i = Some x" "purgeable org cutoff (er_event x)" by blast
    then have "events ?w i = None" by (simp add: events_def lookup_filter [OF d])
    then have eq: "life_of i ?w = (life_of i w)\<lparr>el_event := None\<rparr>"
      using rest by (simp add: life_of_def)
    have "life (life_of i w) (life_of i ?w)" unfolding eq
      by (rule life.purged [of _ "er_event x"]) (use x in \<open>simp_all add: life_of_def purgeable_def split: if_splits\<close>)
    then show ?thesis by blast
  next
    case False
    then have "events ?w i = events w i"
      by (auto simp: events_def lookup_filter [OF d] split: option.split)
    then have "life_of i ?w = life_of i w" using rest by (simp add: life_of_def)
    then show ?thesis by simp
  qed
qed

lemma Purge_living: "preserves (living cap u i v) (dlv_PurgeOnce (dlv_F c o'))"
proof -
  have p: "preserves (living cap u i v) (purge_org (dlv_F c o') world_retention now org)" for now org
    unfolding purge_org_def dlv_memory_ops
    by (intro preserves_attempt preserves_if preserves_ok preservesI)
      (auto simp: world_retention_def dlv_mem_PurgeTerminalOlderThan_def purge_living split: option.split)
  show ?thesis
    unfolding dlv_PurgeOnce_def dlv_memory_ops option.case
    by (intro preserves_attempt preserves_call now_keeps preserves_for_each p read_keeps) (simp add: world_retention_def)
qed


subsection \<open>Redelivering\<close>

lemma Redeliver_run:
  assumes "kept cap u 0 w"
  shows "outbox_view (snd (dlv_Redeliver (dlv_F c o') org j w)) = outbox_view w
    \<or> (\<exists>x. events w j = Some x \<and> snd (dlv_Redeliver (dlv_F c o') org j w) =
         with_event ((er_event x)\<lparr>Ev_Status := StatusPending, Ev_NextAttemptAt := dw_now w\<rparr>) w)"
proof -
  obtain found where f: "dlv_repo_FindEvent (dlv_F c o') org j w = (Inr found, w)"
    "\<And>e. found = Some e \<Longrightarrow> \<exists>x. events w j = Some x \<and> er_event x = e"
    using find_event_run [of c o' org j w] by blast
  show ?thesis
  proof (cases found)
    case None
    with f(1) show ?thesis by (simp add: dlv_Redeliver_def attempt_apply)
  next
    case (Some e)
    from f(2) [OF Some] obtain x where x: "events w j = Some x" "er_event x = e" by blast
    have "snd (dlv_Redeliver (dlv_F c o') org j w) =
      with_event (e\<lparr>Ev_Status := StatusPending, Ev_NextAttemptAt := dw_now w\<rparr>) w"
      using Some f(1)
      by (simp add: dlv_Redeliver_def attempt_apply call_apply Let_def zoom_apply dlv_mem_SaveEvent_def with_event_def)
    with x show ?thesis by blast
  qed
qed

lemma Redeliver_other:
  assumes "kept cap u 0 w" and "i \<noteq> j"
  shows "life_of i (snd (dlv_Redeliver (dlv_F c o') org j w)) = life_of i w"
  using Redeliver_run [OF assms(1), of c o' org j]
proof
  assume "\<exists>x. events w j = Some x \<and> snd (dlv_Redeliver (dlv_F c o') org j w) =
         with_event ((er_event x)\<lparr>Ev_Status := StatusPending, Ev_NextAttemptAt := dw_now w\<rparr>) w"
  then obtain x where x: "events w j = Some x" and w': "snd (dlv_Redeliver (dlv_F c o') org j w) =
         with_event ((er_event x)\<lparr>Ev_Status := StatusPending, Ev_NextAttemptAt := dw_now w\<rparr>) w" by blast
  have "Ev_ID (er_event x) = j" by (rule kept_event(1) [OF assms(1) x])
  then show ?thesis using assms(2) unfolding w'
    by (simp add: life_of_def attempts_of_def posts_of_def with_event_def events_def)
qed (rule life_of_view)

lemma Redeliver_same:
  assumes "kept cap u 0 w"
  shows "life_of i (snd (dlv_Redeliver (dlv_F c o') org i w)) \<in> {life_of i w, requeued (dw_now w) (life_of i w)}"
  using Redeliver_run [OF assms, of c o' org i]
proof
  assume "\<exists>x. events w i = Some x \<and> snd (dlv_Redeliver (dlv_F c o') org i w) =
         with_event ((er_event x)\<lparr>Ev_Status := StatusPending, Ev_NextAttemptAt := dw_now w\<rparr>) w"
  then obtain x where x: "events w i = Some x" and w': "snd (dlv_Redeliver (dlv_F c o') org i w) =
         with_event ((er_event x)\<lparr>Ev_Status := StatusPending, Ev_NextAttemptAt := dw_now w\<rparr>) w" by blast
  have "Ev_ID (er_event x) = i" by (rule kept_event(1) [OF assms x])
  then have "life_of i (snd (dlv_Redeliver (dlv_F c o') org i w)) = requeued (dw_now w) (life_of i w)"
    using x unfolding w'
    by (simp add: life_of_def requeued_def attempts_of_def posts_of_def with_event_def events_def)
  then show ?thesis by simp
qed (drule life_of_view [where i = i], simp)

section \<open>Any sequence of operations\<close>

lemma exec_keeps: "kept (dlv_endpointCap (dlv_F c o')) u 0 w \<Longrightarrow> kept (dlv_endpointCap (dlv_F c o')) u 0 (dlv_exec c o' op w)"
  by (rule step_keeps [OF exec_step])

lemma same_view: "outbox_view w' = outbox_view w \<Longrightarrow> life\<^sup>*\<^sup>* (life_of i w) (life_of i w')"
  by (drule life_of_view [where i = i]) simp

lemma same:
  assumes "\<And>x. preserves (\<lambda>w. outbox_view w = x) m"
  shows "life\<^sup>*\<^sup>* (life_of i w) (life_of i (snd (m w)))"
  unfolding framed [of m i w, OF assms] by (rule rtranclp.rtrancl_refl)

lemma exec_life:
  assumes k: "kept (dlv_endpointCap (dlv_F c o')) u 0 w" and "\<not> requeues i op"
  shows "life\<^sup>*\<^sup>* (life_of i w) (life_of i (dlv_exec c o' op w))"
proof -
  have l: "living (dlv_endpointCap (dlv_F c o')) u i (life_of i w) w" using k by (simp add: living_def)
  show ?thesis
  proof (cases op)
    case (OpRedeliver org j)
    then show ?thesis using assms(2) Redeliver_other [OF k, of i j] by simp
  next
    case (OpTick d)
    then have "outbox_view (dlv_exec c o' op w) = outbox_view w" by (simp add: outbox_view_def)
    then show ?thesis by (rule same_view)
  next
    case (OpAnswers rs)
    then have "outbox_view (dlv_exec c o' op w) = outbox_view w" by (simp add: outbox_view_def)
    then show ?thesis by (rule same_view)
  next
    case (OpSettings rt)
    then have "outbox_view (dlv_exec c o' op w) = outbox_view w" by (simp add: outbox_view_def)
    then show ?thesis by (rule same_view)
  next
    case (OpAccess a)
    then have "outbox_view (dlv_exec c o' op w) = outbox_view w" by (simp add: outbox_view_def)
    then show ?thesis by (rule same_view)
  next
    case (OpEnqueue org ty data)
    then show ?thesis using preservesD [OF Enqueue_living l] by (simp add: living_def)
  next
    case (OpSendTest org)
    then show ?thesis using preservesD [OF SendTest_living l] by (simp add: living_def)
  next
    case OpDispatch
    then show ?thesis using preservesD [OF Dispatch_living l] by (simp add: living_def)
  next
    case OpPurge
    then show ?thesis using preservesD [OF Purge_living l] by (simp add: living_def)
  next
    case (OpSetEndpoint org url)
    show ?thesis unfolding OpSetEndpoint dlv_exec.simps by (rule same [OF SetEndpoint_frame])
  next
    case (OpCreateEndpoint org url ets)
    show ?thesis unfolding OpCreateEndpoint dlv_exec.simps by (rule same [OF CreateEndpoint_frame])
  next
    case (OpUpdateEndpoint org j url ets)
    show ?thesis unfolding OpUpdateEndpoint dlv_exec.simps by (rule same [OF UpdateEndpoint_frame])
  next
    case (OpDeleteEndpoint org j)
    show ?thesis unfolding OpDeleteEndpoint dlv_exec.simps by (rule same [OF DeleteEndpoint_frame])
  next
    case (OpEnableEndpoint org j)
    show ?thesis unfolding OpEnableEndpoint dlv_exec.simps by (rule same [OF EnableEndpoint_frame])
  next
    case (OpDisableEndpoint org j)
    show ?thesis unfolding OpDisableEndpoint dlv_exec.simps by (rule same [OF DisableEndpoint_frame])
  next
    case (OpRotateSecret org h)
    show ?thesis unfolding OpRotateSecret dlv_exec.simps by (rule same [OF RotateSecret_frame])
  next
    case (OpRotateEndpointSecret org j h)
    show ?thesis unfolding OpRotateEndpointSecret dlv_exec.simps by (rule same [OF RotateEndpointSecret_frame])
  qed
qed

lemma run_Cons: "dlv_run c o' (op # ops) w = dlv_run c o' ops (dlv_exec c o' op w)"
  by (simp add: dlv_run_def)

lemma dlv_run_keeps: "kept (dlv_endpointCap (dlv_F c o')) u 0 w \<Longrightarrow> kept (dlv_endpointCap (dlv_F c o')) u 0 (dlv_run c o' ops w)"
  by (induction ops arbitrary: w) (simp_all add: run_Cons exec_keeps, simp add: dlv_run_def)

lemma run_tried:
  assumes "kept (dlv_endpointCap (dlv_F c o')) u 0 w" and "tried R (life_of i w)"
  shows "tried (R + redeliveries i ops) (life_of i (dlv_run c o' ops w))"
  using assms
proof (induction ops arbitrary: w R)
  case Nil
  then show ?case by (simp add: dlv_run_def redeliveries_def)
next
  case (Cons op ops)
  note k = exec_keeps [OF Cons.prems(1), of op]
  show ?case
  proof (cases "requeues i op")
    case True
    then obtain org where op: "op = OpRedeliver org i" by (cases op) auto
    have "tried (Suc R) (life_of i (dlv_exec c o' op w))"
      using Redeliver_same [OF Cons.prems(1), of i c o' org] unfolding op dlv_exec.simps
    proof (elim insertE emptyE)
      assume e: "life_of i (snd (dlv_Redeliver (dlv_F c o') org i w)) = life_of i w"
      show "tried (Suc R) (life_of i (snd (dlv_Redeliver (dlv_F c o') org i w)))"
        unfolding e by (rule tried_mono [OF Cons.prems(2)]) simp
    next
      assume e: "life_of i (snd (dlv_Redeliver (dlv_F c o') org i w)) = requeued (dw_now w) (life_of i w)"
      show "tried (Suc R) (life_of i (snd (dlv_Redeliver (dlv_F c o') org i w)))"
        unfolding e by (rule requeued_tried [OF Cons.prems(2)])
    qed
    from Cons.IH [OF k this] show ?thesis using True by (simp add: run_Cons redeliveries_def)
  next
    case False
    have "tried R (life_of i (dlv_exec c o' op w))"
      by (rule lives_tried [OF exec_life [OF Cons.prems(1) False] Cons.prems(2)])
    from Cons.IH [OF k this] show ?thesis using False by (simp add: run_Cons redeliveries_def)
  qed
qed

lemma run_life:
  assumes "kept (dlv_endpointCap (dlv_F c o')) u 0 w" and "redeliveries i ops = 0"
  shows "life\<^sup>*\<^sup>* (life_of i w) (life_of i (dlv_run c o' ops w))"
  using assms
proof (induction ops arbitrary: w)
  case (Cons op ops)
  then have no: "\<not> requeues i op" "redeliveries i ops = 0" by (simp_all add: redeliveries_def split: if_splits)
  show ?case unfolding run_Cons
    by (rule rtranclp_trans [OF exec_life [OF Cons.prems(1) no(1)] Cons.IH [OF exec_keeps [OF Cons.prems(1)] no(2)]])
qed (simp add: dlv_run_def)


text \<open>
  C15: Retrying ends. From an empty repository, whatever sequence of operations is run (the dispatcher, the purge,
  the endpoint and secret operations, new events, the clock, any answers of the receivers), an event is attempted
  at most ten times plus once for each time an operator redelivers it, and a receiver is sent its id at most once per
  attempt. The stored event counts its attempts: it is still \<open>PENDING\<close> only while that bound is not reached,
  \<open>FAILED\<close> only after at least ten attempts and \<open>DELIVERED\<close> only when the last one was answered with a 2xx status. Once it is
  settled, no later sequence of operations without a \<open>Redeliver\<close> of it attempts or changes it again, other than
  the purge removing it. The operations run one at a time.
\<close>

theorem retries_end_after_ten:
  assumes "fresh_world u" and "dw_log u = []" and "dw_posts u = []"
  shows "let w = dlv_run c o' ops u; attempts = attempts_of i w in
    posts_of i w \<le> length attempts \<and> length attempts \<le> 10 + redeliveries i ops
    \<and> (\<forall>x. events w i = Some x \<longrightarrow>
         Ev_Attempts (er_event x) = int (length attempts)
         \<and> (Ev_Status (er_event x) = StatusPending \<longrightarrow> length attempts < 10 + redeliveries i ops)
         \<and> (Ev_Status (er_event x) = StatusFailed \<longrightarrow> 10 \<le> length attempts)
         \<and> (Ev_Status (er_event x) = StatusDelivered \<longrightarrow> attempts \<noteq> [] \<and> isSuccessStatus (DLE_Status (last attempts)))
         \<and> (Ev_Status (er_event x) \<noteq> StatusPending \<longrightarrow>
              (\<forall>ops'. redeliveries i ops' = 0 \<longrightarrow>
                (let w' = dlv_run c o' ops' w in attempts_of i w' = attempts \<and> posts_of i w' = posts_of i w
                   \<and> (events w' i = None \<or> (\<exists>x'. events w' i = Some x' \<and> er_event x' = er_event x))))))"
proof -
  let ?cap = "dlv_endpointCap (dlv_F c o')"
  define w where "w = dlv_run c o' ops u"
  have "kept ?cap u 0 u" by (rule fresh_kept [OF assms(1)])
  moreover have "tried 0 (life_of i u)"
    using assms by (simp add: tried_def life_of_def attempts_of_def posts_of_def fresh_world_def dlv_NewRepository_def
        events_def)
  ultimately have k: "kept ?cap u 0 w" and t: "tried (redeliveries i ops) (life_of i w)"
    using dlv_run_keeps run_tried [of c o' u u 0 i ops] by (simp_all add: w_def)
  have counts: "posts_of i w \<le> length (attempts_of i w)" "length (attempts_of i w) \<le> 10 + redeliveries i ops"
    using t by (simp_all add: tried_def life_of_def)
  have here: "Ev_Attempts (er_event x) = int (length (attempts_of i w))
      \<and> (Ev_Status (er_event x) = StatusPending \<longrightarrow> length (attempts_of i w) < 10 + redeliveries i ops)
      \<and> (Ev_Status (er_event x) = StatusFailed \<longrightarrow> 10 \<le> length (attempts_of i w))
      \<and> (Ev_Status (er_event x) = StatusDelivered \<longrightarrow>
           attempts_of i w \<noteq> [] \<and> isSuccessStatus (DLE_Status (last (attempts_of i w))))" if "events w i = Some x" for x
    using t that by (simp add: tried_def life_of_def)
  have later: "attempts_of i w' = attempts_of i w \<and> posts_of i w' = posts_of i w
      \<and> (events w' i = None \<or> (\<exists>x'. events w' i = Some x' \<and> er_event x' = er_event x))"
    if x: "events w i = Some x" "Ev_Status (er_event x) \<noteq> StatusPending"
      and none: "redeliveries i ops' = 0" and w': "w' = dlv_run c o' ops' w" for x ops' w'
  proof -
    have "settled_as (life_of i w) (life_of i w)"
      using x(1) kept_event(2) [OF k x(1)] by (simp add: settled_as_def life_of_def)
    moreover have "el_event (life_of i w) = Some (er_event x)" using x(1) by (simp add: life_of_def)
    ultimately have "settled_as (life_of i w) (life_of i w')"
      unfolding w' using lives_settled [OF run_life [OF k none]] x(2) by blast
    then show ?thesis using x(1) by (auto simp: settled_as_def life_of_def)
  qed
  show ?thesis unfolding Let_def w_def [symmetric]
    using counts here later by blast
qed

text \<open>An endpoint that always fails: twelve rounds of the dispatcher, then a redelivery and one more.\<close>

definition failing_run :: "dlv_op list" where
  "failing_run = [OpCreateEndpoint ''org_1'' ''https://a.example'' None, OpEnqueue ''org_1'' EventTypeTriggerEvent None,
      OpAnswers (replicate 13 (500, None))]
    @ concat (replicate 12 [OpTick (48 * hour), OpDispatch]) @ [OpRedeliver ''org_1'' (sequential_id ''evt_'' 0), OpDispatch]"

lemma retries_end_after_ten_witness:
  "let w = dlv_run sample_crypto demo_overrides failing_run
       (dlv_demo\<lparr>dw_store := dlv_NewRepository, dw_endpoints_minted := 0, dw_events_minted := 0\<rparr>)
   in length (attempts_of (sequential_id ''evt_'' 0) w) \<le> 11 \<and> posts_of (sequential_id ''evt_'' 0) w \<le> 11"
proof -
  have "redeliveries (sequential_id ''evt_'' 0) failing_run = 1"
    by (simp add: redeliveries_def failing_run_def numeral_eq_Suc)
  moreover have "fresh_world (dlv_demo\<lparr>dw_store := dlv_NewRepository, dw_endpoints_minted := 0, dw_events_minted := 0\<rparr>)"
    by (simp add: fresh_world_def)
  ultimately show ?thesis
    using retries_end_after_ten [of "dlv_demo\<lparr>dw_store := dlv_NewRepository, dw_endpoints_minted := 0, dw_events_minted := 0\<rparr>"
        sample_crypto demo_overrides failing_run "sequential_id ''evt_'' 0"]
    by (simp add: Let_def dlv_demo_def)
qed

end
