(* ===== verification/DeliveryPort.thy ===== *)
theory DeliveryPort
  imports DeliveryLife "HOL-Library.Multiset"
begin

text \<open>
  The configuration import and the delivery module together: the endpoint porter of
  \<open>internal/app/endpoint_porter.go\<close> over the in-memory delivery facade keeps the contract
  (\<open>endpoint_port\<close>) that the import plan was proved against, so that importing a document and
  exporting again gives the document back.
\<close>

section \<open>The porter's view of the endpoints\<close>

definition ported :: "Endpoint \<Rightarrow> PortedEndpoint" where
  "ported e = \<lparr>PE_ID = EP_ID e, PE_URL = EP_URL e, PE_EventTypes = EP_EventTypes e\<rparr>"

definition ported_endpoints :: "OrgID \<Rightarrow> dlv_world \<Rightarrow> PortedEndpoint list" where
  "ported_endpoints org w =
     map ported (sortEndpointsOldestFirst (endpointsForOrg (ds_endpoints (dw_store w)) org))"

definition dlv_ready :: "crypto \<Rightarrow> dlv_overrides \<Rightarrow> dlv_world \<Rightarrow> bool" where
  "dlv_ready c o' w \<longleftrightarrow> kept (dlv_endpointCap (dlv_F c o')) w 0 w"

lemma kept_self: "kept cap w0 m w \<Longrightarrow> kept cap w 0 w"
  by (simp add: kept_def)

lemma ready_preserved:
  assumes "preserves (kept (dlv_endpointCap (dlv_F c o')) w 0) n" and "dlv_ready c o' w" and "n w = (r, w')"
  shows "dlv_ready c o' w'"
  using preserves_result [OF assms(1) _ assms(3)] assms(2) kept_self by (simp add: dlv_ready_def)

lemma ported_set:
  assumes "dlv_ready c o' w"
  shows "set (ported_endpoints org w) = {ported e | e. endpoints w (EP_ID e) = Some e \<and> EP_OrgID e = org}"
proof -
  have "dlv_store_inv (dw_store w)" using assms kept_inv by (simp add: dlv_ready_def)
  then show ?thesis using endpoints_listed [of w _ org] by (auto simp: ported_endpoints_def)
qed

lemma endpoint_key: "dlv_ready c o' w \<Longrightarrow> endpoints w i = Some e \<Longrightarrow> EP_ID e = i"
  using keyed_lookup kept_inv by (fastforce simp: dlv_ready_def dlv_store_inv_def endpoints_def)

lemma webhook_prefix_run:
  "\<exists>p. dlv_secrets_WebhookSecretPrefix (dlv_F c o') org i w = (Inr p, w)"
  by (simp add: act_simps acc_WebhookSecretPrefix_def wss_mem_ListByEndpoint_def)

lemma map_each_read:
  assumes "\<And>x. \<exists>y. f x s = (Inr y, s) \<and> P x y"
  shows "\<exists>ys. map_each f xs s = (Inr ys, s) \<and> list_all2 P xs ys"
proof (induction xs)
  case (Cons x xs)
  obtain y where "f x s = (Inr y, s)" "P x y" using assms by blast
  with Cons.IH show ?case by (auto simp: attempt_apply)
qed simp

definition item_ported :: "EndpointListItem \<Rightarrow> PortedEndpoint" where
  "item_ported item = \<lparr>PE_ID = ELI_ID item, PE_URL = ELI_URL item, PE_EventTypes = ELI_EventTypes item\<rparr>"

lemma prefixes_run:
  "\<exists>items. map_each (\<lambda>e. attempt (dlv_secrets_WebhookSecretPrefix (dlv_F c o') org (EP_ID e)) (\<lambda>prefix.
       ok (endpointListItemFrom e prefix))) es w = (Inr items, w)
     \<and> list_all2 (\<lambda>e item. item_ported item = ported e) es items"
proof (rule map_each_read)
  fix e :: Endpoint
  obtain p where "dlv_secrets_WebhookSecretPrefix (dlv_F c o') org (EP_ID e) w = (Inr p, w)"
    using webhook_prefix_run by blast
  then show "\<exists>item. attempt (dlv_secrets_WebhookSecretPrefix (dlv_F c o') org (EP_ID e)) (\<lambda>prefix.
       ok (endpointListItemFrom e prefix)) w = (Inr item, w) \<and> item_ported item = ported e"
    by (simp add: attempt_apply endpointListItemFrom_def ported_def item_ported_def del: dlv_memory_ops)
qed

lemma port_list_run:
  "port_ListEndpoints (endpointPorterAdapter (dlv_F c o')) org w = (Inr (ported_endpoints org w), w)"
proof -
  let ?es = "sortEndpointsOldestFirst (endpointsForOrg (ds_endpoints (dw_store w)) org)"
  have list: "dlv_repo_ListEndpoints (dlv_F c o') org w = (Inr ?es, w)"
    by (simp add: act_simps dlv_mem_ListEndpoints_def)
  obtain items where m: "map_each (\<lambda>e. attempt (dlv_secrets_WebhookSecretPrefix (dlv_F c o') org (EP_ID e)) (\<lambda>prefix.
       ok (endpointListItemFrom e prefix))) ?es w = (Inr items, w)"
    and "list_all2 (\<lambda>e item. item_ported item = ported e) ?es items" using prefixes_run by blast
  from this(2) have items: "map item_ported items = map ported ?es"
    by (simp add: list_all2_conv_all_nth list_eq_iff_nth_eq)
  have "dlv_ListEndpoints (dlv_F c o') org w = (Inr items, w)"
    unfolding dlv_ListEndpoints_def attempt_apply list prod.case sum.case m ..
  then show ?thesis
    unfolding endpointPorterAdapter_def EndpointPorter.simps attempt_apply
    using items by (simp add: ported_endpoints_def item_ported_def [abs_def])
qed

section \<open>What the porter's operations do to it\<close>

lemma create_effect:
  assumes "dlv_CreateEndpoint (dlv_F c o') org url ets w = (Inr r, w')"
  shows "CER_ID r = sequential_id ''wep_'' (dw_endpoints_minted w)
    \<and> (\<exists>e. endpoints w' = (endpoints w)(CER_ID r \<mapsto> e)
         \<and> ported e = \<lparr>PE_ID = CER_ID r, PE_URL = url, PE_EventTypes = ets\<rparr> \<and> EP_OrgID e = org)"
proof -
  let ?i = "sequential_id ''wep_'' (dw_endpoints_minted w)"
  obtain e secret where c: "createEndpoint (dlv_F c o') org url ets w = (Inr (e, secret), w')" and r: "CER_ID r = EP_ID e"
    using assms
    by (auto simp: dlv_CreateEndpoint_def attempt_Inr_iff check_Inr_iff zoom_apply dlv_mem_ListEndpoints_def
        split: if_splits)
  obtain q a where issue: "acc_IssueWebhookSecret (acc_memory_facade c) org ?i (dw_access w) = (q, a)" by fastforce
  from c obtain issued where "q = Inr issued" and e: "e = \<lparr>EP_ID = ?i, EP_OrgID = org, EP_URL = url, EP_EventTypes = ets,
        EP_Status = EndpointStatusEnabled, EP_ConsecutiveFailures = 0, EP_CreatedAt = dw_now w\<rparr>"
    and w': "ds_endpoints (dw_store w') = put ?i e (ds_endpoints (dw_store w))"
    by (cases q) (auto simp: createEndpoint_def act_simps Let_def issue dlv_mem_SaveEndpoint_def)
  have "endpoints w' = (endpoints w)(?i \<mapsto> e)" by (auto simp: endpoints_def w')
  then show ?thesis using r by (auto simp: e ported_def)
qed

lemma update_effect:
  assumes "dlv_ready c o' w" and "dlv_UpdateEndpoint (dlv_F c o') org i url ets w = (Inr r, w')"
  shows "\<exists>e0. endpoints w i = Some e0 \<and> EP_OrgID e0 = org
    \<and> endpoints w' = (endpoints w)(i \<mapsto> e0\<lparr>EP_URL := url, EP_EventTypes := ets\<rparr>)"
proof -
  obtain found where f: "dlv_repo_FindEndpointByID (dlv_F c o') org i w = (Inr found, w)"
    "\<And>e. found = Some e \<Longrightarrow> endpoints w (EP_ID e) = Some e \<and> EP_ID e = i \<and> EP_OrgID e = org"
    using find_by_id_run assms(1) unfolding dlv_ready_def by blast
  have "\<exists>e. found = Some e \<and> endpoints w' = (endpoints w)(EP_ID e \<mapsto> e\<lparr>EP_URL := url, EP_EventTypes := ets\<rparr>)"
    using assms(2) f(1)
    by (cases found) (auto simp: dlv_UpdateEndpoint_def check_Inr_iff attempt_apply Let_def zoom_apply
        dlv_mem_SaveEndpoint_def)
  then show ?thesis using f(2) by auto
qed

lemma delete_effect:
  assumes "dlv_ready c o' w" and "dlv_DeleteEndpoint (dlv_F c o') org i w = (Inr r, w')"
  shows "\<exists>e0. endpoints w i = Some e0 \<and> EP_OrgID e0 = org \<and> endpoints w' = (endpoints w)(i := None)"
proof -
  obtain found where f: "dlv_repo_FindEndpointByID (dlv_F c o') org i w = (Inr found, w)"
    "\<And>e. found = Some e \<Longrightarrow> endpoints w (EP_ID e) = Some e \<and> EP_ID e = i \<and> EP_OrgID e = org"
    using find_by_id_run assms(1) unfolding dlv_ready_def by blast
  then obtain e where e: "found = Some e" "endpoints w i = Some e" "EP_OrgID e = org"
    using assms(2) by (cases found) (auto simp: dlv_DeleteEndpoint_def attempt_apply)
  then have "endpoints w' = (endpoints w)(i := None)"
    using assms(2) f(1)
    by (auto simp: dlv_DeleteEndpoint_def attempt_apply zoom_apply dlv_mem_DeleteEndpoint_def endpoints_def)
  then show ?thesis using e by blast
qed

lemma ported_simps [simp]: "PE_ID (ported e) = EP_ID e" "PE_URL (ported e) = EP_URL e"
  "PE_EventTypes (ported e) = EP_EventTypes e"
  by (simp_all add: ported_def)

lemma adapter_create:
  assumes "port_CreateEndpoint (endpointPorterAdapter (dlv_F c o')) org url ets w = (Inr p, w')"
  obtains r where "dlv_CreateEndpoint (dlv_F c o') org url ets w = (Inr r, w')" and "PES_ID p = CER_ID r"
  using assms unfolding endpointPorterAdapter_def EndpointPorter.simps by (auto simp: attempt_Inr_iff)

lemma adapter_update:
  assumes "port_UpdateEndpoint (endpointPorterAdapter (dlv_F c o')) org i url ets w = (Inr u, w')"
  obtains r where "dlv_UpdateEndpoint (dlv_F c o') org i url ets w = (Inr r, w')"
  using assms unfolding endpointPorterAdapter_def EndpointPorter.simps by (auto simp: attempt_Inr_iff)

lemma adapter_delete:
  "port_DeleteEndpoint (endpointPorterAdapter (dlv_F c o')) org i = dlv_DeleteEndpoint (dlv_F c o') org i"
  by (simp add: endpointPorterAdapter_def)

lemma ported_update:
  assumes "m i = Some e0" and "EP_ID e0 = i" and "EP_OrgID e0 = org"
    and "ported e1 = n" and "EP_OrgID e1 = org" and "EP_ID e1 = i"
  shows "{ported e | e. (m(i \<mapsto> e1)) (EP_ID e) = Some e \<and> EP_OrgID e = org} =
    (\<lambda>e. if PE_ID e = i then n else e) ` {ported e | e. m (EP_ID e) = Some e \<and> EP_OrgID e = org}"
    (is "?L = ?f ` ?R")
proof (intro set_eqI iffI)
  fix x assume "x \<in> ?L"
  then obtain e where e: "x = ported e" "(m(i \<mapsto> e1)) (EP_ID e) = Some e" "EP_OrgID e = org" by blast
  show "x \<in> ?f ` ?R"
  proof (cases "EP_ID e = i")
    case True
    have "ported e0 \<in> ?R" using assms by blast
    moreover have "x = ?f (ported e0)" using e True assms(2,4) by auto
    ultimately show ?thesis by (rule rev_image_eqI)
  next
    case False
    then have "ported e \<in> ?R" using e by auto
    moreover have "x = ?f (ported e)" using e(1) False by simp
    ultimately show ?thesis by (rule rev_image_eqI)
  qed
next
  fix x assume "x \<in> ?f ` ?R"
  then obtain e where e: "x = ?f (ported e)" "m (EP_ID e) = Some e" "EP_OrgID e = org" by blast
  show "x \<in> ?L"
  proof (cases "EP_ID e = i")
    case True
    then have "x = ported e1" using e(1) assms(4) by simp
    moreover have "(m(i \<mapsto> e1)) (EP_ID e1) = Some e1" using assms(6) by simp
    ultimately show ?thesis using assms(5) by blast
  next
    case False
    then have "x = ported e" "(m(i \<mapsto> e1)) (EP_ID e) = Some e" using e by simp_all
    then show ?thesis using e(3) by blast
  qed
qed

interpretation dlv_port: endpoint_port "endpointPorterAdapter (dlv_F c o')" org "ported_endpoints org" "dlv_ready c o'"
proof
  fix w r w' assume "port_ListEndpoints (endpointPorterAdapter (dlv_F c o')) org w = (r, w')"
  then show "w' = w \<and> (\<forall>xs. r = Inr xs \<longrightarrow> xs = ported_endpoints org w)" by (auto simp: port_list_run)
next
  fix w url ets p w' assume inv: "dlv_ready c o' w"
    and run: "port_CreateEndpoint (endpointPorterAdapter (dlv_F c o')) org url ets w = (Inr p, w')"
  obtain r where c: "dlv_CreateEndpoint (dlv_F c o') org url ets w = (Inr r, w')" and p: "PES_ID p = CER_ID r"
    by (rule adapter_create [OF run])
  from create_effect [OF c] obtain e where i: "CER_ID r = sequential_id ''wep_'' (dw_endpoints_minted w)"
    and e: "endpoints w' = (endpoints w)(CER_ID r \<mapsto> e)" "EP_OrgID e = org"
      "ported e = \<lparr>PE_ID = CER_ID r, PE_URL = url, PE_EventTypes = ets\<rparr>" by blast
  have inv': "dlv_ready c o' w'" by (rule ready_preserved [OF CreateEndpoint_keeps inv c])
  have new: "endpoints w (CER_ID r) = None"
    using inv not_minted unfolding i dlv_ready_def kept_def dlv_inv_def by blast
  have "EP_ID e = CER_ID r" using e(3) by (metis ported_simps(1) PortedEndpoint.select_convs(1))
  then have "set (ported_endpoints org w') = insert (ported e) (set (ported_endpoints org w))"
    unfolding ported_set [OF inv'] ported_set [OF inv] e(1) using new e(2) by auto
  then show "dlv_ready c o' w' \<and> set (ported_endpoints org w') =
      insert \<lparr>PE_ID = PES_ID p, PE_URL = url, PE_EventTypes = ets\<rparr> (set (ported_endpoints org w))"
    using inv' e(3) p by simp
next
  fix w i url ets u w' assume inv: "dlv_ready c o' w"
    and run: "port_UpdateEndpoint (endpointPorterAdapter (dlv_F c o')) org i url ets w = (Inr u, w')"
  obtain r where c: "dlv_UpdateEndpoint (dlv_F c o') org i url ets w = (Inr r, w')"
    by (rule adapter_update [OF run])
  from update_effect [OF inv c] obtain e0 where e0: "endpoints w i = Some e0" "EP_OrgID e0 = org"
    and e: "endpoints w' = (endpoints w)(i \<mapsto> e0\<lparr>EP_URL := url, EP_EventTypes := ets\<rparr>)" by blast
  have i: "EP_ID e0 = i" by (rule endpoint_key [OF inv e0(1)])
  have inv': "dlv_ready c o' w'" by (rule ready_preserved [OF UpdateEndpoint_keeps inv c])
  have "set (ported_endpoints org w') =
      (\<lambda>e. if PE_ID e = i then \<lparr>PE_ID = i, PE_URL = url, PE_EventTypes = ets\<rparr> else e) ` set (ported_endpoints org w)"
    unfolding ported_set [OF inv'] ported_set [OF inv] e
    by (rule ported_update [where m = "endpoints w", OF e0(1) i e0(2)]) (simp_all add: ported_def i e0(2))
  then show "dlv_ready c o' w' \<and> set (ported_endpoints org w') =
      (\<lambda>e. if PE_ID e = i then \<lparr>PE_ID = i, PE_URL = url, PE_EventTypes = ets\<rparr> else e) ` set (ported_endpoints org w)"
    using inv' by blast
next
  fix w i u w' assume inv: "dlv_ready c o' w"
    and run: "port_DeleteEndpoint (endpointPorterAdapter (dlv_F c o')) org i w = (Inr u, w')"
  note c = run [unfolded adapter_delete]
  from delete_effect [OF inv c] have e: "endpoints w' = (endpoints w)(i := None)" by blast
  have inv': "dlv_ready c o' w'" by (rule ready_preserved [OF Delete_keeps inv c])
  have "set (ported_endpoints org w') = {e \<in> set (ported_endpoints org w). PE_ID e \<noteq> i}"
    unfolding ported_set [OF inv'] ported_set [OF inv] e by auto
  then show "dlv_ready c o' w' \<and> set (ported_endpoints org w') = {e \<in> set (ported_endpoints org w). PE_ID e \<noteq> i}"
    using inv' by blast
next
  fix w assume "dlv_ready c o' w"
  then have "keyed EP_ID (ds_endpoints (dw_store w))"
    using kept_inv by (simp add: dlv_ready_def dlv_store_inv_def)
  then have "distinct (map EP_ID (endpointsForOrg (ds_endpoints (dw_store w)) org))"
    unfolding endpointsForOrg_def by (intro distinct_map_filter keyed_distinct_rows)
  then show "distinct (map PE_ID (ported_endpoints org w))"
    by (simp add: ported_endpoints_def sortEndpointsOldestFirst_def comp_def)
qed

section \<open>Import, then export\<close>

text \<open>The organizations facade reaches the porter through its own state: the contract carries over.\<close>

lemma zoom_run: "zoom get upd n w = (r, w') \<longleftrightarrow> (\<exists>s'. n (get w) = (r, s') \<and> w' = upd (\<lambda>_. s') w)"
  by (auto simp: zoom_apply split: prod.splits)

interpretation org_port: endpoint_port "zoom_porter (endpointPorterAdapter (dlv_F c o'))" org
  "\<lambda>w :: dlv_world org_world. ported_endpoints org (ow_endpoints w)" "\<lambda>w. dlv_ready c o' (ow_endpoints w)"
proof
  fix w r and w' :: "dlv_world org_world"
  assume "port_ListEndpoints (zoom_porter (endpointPorterAdapter (dlv_F c o'))) org w = (r, w')"
  then show "w' = w \<and> (\<forall>xs. r = Inr xs \<longrightarrow> xs = ported_endpoints org (ow_endpoints w))"
    by (auto simp: zoom_porter_def zoom_run port_list_run)
next
  fix w url ets p and w' :: "dlv_world org_world" assume inv: "dlv_ready c o' (ow_endpoints w)"
    and run: "port_CreateEndpoint (zoom_porter (endpointPorterAdapter (dlv_F c o'))) org url ets w = (Inr p, w')"
  obtain s where "port_CreateEndpoint (endpointPorterAdapter (dlv_F c o')) org url ets (ow_endpoints w) = (Inr p, s)"
    and "w' = w\<lparr>ow_endpoints := s\<rparr>" using run by (auto simp: zoom_porter_def zoom_run)
  with dlv_port.port_create [OF inv this(1)]
  show "dlv_ready c o' (ow_endpoints w') \<and> set (ported_endpoints org (ow_endpoints w')) =
      insert \<lparr>PE_ID = PES_ID p, PE_URL = url, PE_EventTypes = ets\<rparr> (set (ported_endpoints org (ow_endpoints w)))"
    by simp
next
  fix w i url ets u and w' :: "dlv_world org_world" assume inv: "dlv_ready c o' (ow_endpoints w)"
    and run: "port_UpdateEndpoint (zoom_porter (endpointPorterAdapter (dlv_F c o'))) org i url ets w = (Inr u, w')"
  obtain s where "port_UpdateEndpoint (endpointPorterAdapter (dlv_F c o')) org i url ets (ow_endpoints w) = (Inr u, s)"
    and "w' = w\<lparr>ow_endpoints := s\<rparr>" using run by (auto simp: zoom_porter_def zoom_run)
  with dlv_port.port_update [OF inv this(1)]
  show "dlv_ready c o' (ow_endpoints w') \<and> set (ported_endpoints org (ow_endpoints w')) =
      (\<lambda>e. if PE_ID e = i then \<lparr>PE_ID = i, PE_URL = url, PE_EventTypes = ets\<rparr> else e) `
        set (ported_endpoints org (ow_endpoints w))"
    by simp
next
  fix w i u and w' :: "dlv_world org_world" assume inv: "dlv_ready c o' (ow_endpoints w)"
    and run: "port_DeleteEndpoint (zoom_porter (endpointPorterAdapter (dlv_F c o'))) org i w = (Inr u, w')"
  obtain s where "port_DeleteEndpoint (endpointPorterAdapter (dlv_F c o')) org i (ow_endpoints w) = (Inr u, s)"
    and "w' = w\<lparr>ow_endpoints := s\<rparr>" using run by (auto simp: zoom_porter_def zoom_run)
  with dlv_port.port_delete [OF inv this(1)]
  show "dlv_ready c o' (ow_endpoints w') \<and> set (ported_endpoints org (ow_endpoints w')) =
      {e \<in> set (ported_endpoints org (ow_endpoints w)). PE_ID e \<noteq> i}"
    by simp
next
  fix w :: "dlv_world org_world" assume "dlv_ready c o' (ow_endpoints w)"
  then show "distinct (map PE_ID (ported_endpoints org (ow_endpoints w)))" by (rule dlv_port.port_ids)
qed

lemma SetGovernance_frame: "keeps ow_endpoints (org_SetGovernance (org_memory_facade p known) org u)"
  unfolding org_SetGovernance_def
  by (intro keeps_attempt keeps_lift keeps_ok keepsI)
    (simp_all add: org_memory_governance_simps keepsD [OF keeps_id_GetGovernance])

lemma SetRetention_frame: "keeps ow_endpoints (org_SetRetention (org_memory_facade p known) org u)"
  unfolding org_SetRetention_def
  by (intro keeps_attempt keeps_lift keeps_ok keepsI)
    (simp_all add: org_memory_governance_simps keepsD [OF keeps_id_GetGovernance])

lemma porter_frame:
  "keeps ow_store (port_CreateEndpoint (zoom_porter p) org url ets)"
  "keeps ow_store (port_UpdateEndpoint (zoom_porter p) org i url ets)"
  "keeps ow_store (port_DeleteEndpoint (zoom_porter p) org i)"
  by (rule keepsI, simp add: zoom_porter_def)+

lemma apply_endpoints_frame: "keeps ow_store (apply_endpoints (zoom_porter p) org as)"
proof (induction as)
  case (Cons a as)
  then show ?case unfolding apply_endpoints.simps
    by (intro keeps_if keeps_attempt porter_frame keeps_ok)
next
  case Nil
  show ?case by (simp only: apply_endpoints.simps keeps_ok)
qed

abbreviation org_dlv_F :: "crypto \<Rightarrow> dlv_overrides \<Rightarrow> (string \<Rightarrow> bool) \<Rightarrow> dlv_world org_world org_facade" where
  "org_dlv_F c o' known \<equiv> org_memory_facade (endpointPorterAdapter (dlv_F c o')) known"

lemma export_run:
  "org_ExportConfig (org_dlv_F c o' known) org w = (Inr \<lparr>CD_SchemaVersion = CurrentConfigSchemaVersion,
     CD_Governance = (let g = mem_gov.current w org in
       \<lparr>CG_AllowList = Gov_AllowList g, CG_Hidden = Gov_Hidden g, CG_Featured = Gov_Featured g,
        CG_FeaturedCap = Gov_FeaturedCap g\<rparr>),
     CD_Endpoints = toConfigEndpoints (ported_endpoints org (ow_endpoints w)),
     CD_Retention = (let g = mem_gov.current w org in
       \<lparr>CR_LogRetentionDays = Gov_LogRetentionDays g, CR_EventRetentionDays = Gov_EventRetentionDays g\<rparr>)\<rparr>, w)"
proof -
  have gov: "org_GetGovernance (org_dlv_F c o' known) org w = (Inr (mem_gov.current w org), w)"
    by (simp add: org_GetGovernance_def act_simps org_memory_governance_simps mem_gov.current_def split: option.split)
  have eps: "port_ListEndpoints (org_endpointPorter (org_dlv_F c o' known)) org w =
      (Inr (ported_endpoints org (ow_endpoints w)), w)"
    by (simp add: org_memory_facade_def zoom_porter_def zoom_apply port_list_run)
  show ?thesis by (simp only: org_ExportConfig_def attempt_apply gov eps prod.case sum.case ok_apply Let_def)
qed

lemma toConfigEndpoints_view: "doc_view (toConfigEndpoints es) = ep_view (set es)"
  by (simp add: doc_view_def toConfigEndpoints_def ep_view_def image_image)

text \<open>What a document states of one endpoint: its URL and the event types it takes.\<close>

definition stated :: "ConfigEndpoint \<Rightarrow> string \<times> string list" where
  "stated d = (CE_URL d, elems (CE_EventTypes d))"

lemma doc_view_stated: "doc_view doc = set (map stated doc)"
  by (simp add: doc_view_def stated_def)

lemma toConfigEndpoints_urls: "map CE_URL (toConfigEndpoints es) = map PE_URL es"
  by (simp add: toConfigEndpoints_def)

text \<open>
  Endpoints with one URL are not told apart by the import: of two of them only the last listed is compared with the
  document, the other is neither updated nor deleted.
\<close>

lemma shared_url_survives_replace:
  assumes "PE_URL a = CE_URL d" and "PE_URL b = CE_URL d" and "elems (PE_EventTypes b) = elems (CE_EventTypes d)"
  shows "planEndpoints [a, b] [d] ImportModeReplace = []"
  using assms by (simp add: planEndpoints_def)

text \<open>
  C17: Importing a document in replace mode and exporting again gives the document back: the same governance (its
  featured cap defaulted when it is not positive), the same retention, and webhook endpoints of exactly the document's
  URLs, whatever endpoints the organization had before. If neither the document nor the organization had two endpoints
  with one URL, which the code does not rule out, the endpoints are the document's one for one, with their filters (in
  any order). Otherwise an endpoint that shares its URL can survive with its old filter
  (\<open>shared_url_survives_replace\<close>).
\<close>

theorem import_replace_export_roundtrip:
  assumes "dlv_ready c o' (ow_endpoints w)" and "org_store_inv (ow_store w)"
    and "\<forall>g \<in> set (rows (os_governanceByOrg (ow_store w))). valid_governance g"
    and "org_ImportConfig (org_dlv_F c o' known) org doc \<lparr>IO_DryRun = False, IO_Mode = ImportModeReplace\<rparr> w = (Inr r, w')"
  shows "\<exists>doc'. org_ExportConfig (org_dlv_F c o' known) org w' = (Inr doc', w')
    \<and> CD_SchemaVersion doc' = CD_SchemaVersion doc
    \<and> CD_Governance doc' = (CD_Governance doc)\<lparr>CG_FeaturedCap := effectiveFeaturedCap (CG_FeaturedCap (CD_Governance doc))\<rparr>
    \<and> CD_Retention doc' = CD_Retention doc
    \<and> CE_URL ` set (CD_Endpoints doc') = CE_URL ` set (CD_Endpoints doc)
    \<and> (distinct (map PE_URL (ported_endpoints org (ow_endpoints w))) \<and> distinct (map CE_URL (CD_Endpoints doc)) \<longrightarrow>
         image_mset stated (mset (CD_Endpoints doc')) = image_mset stated (mset (CD_Endpoints doc)))"
proof -
  let ?F = "org_dlv_F c o' known" and ?eps = "ported_endpoints org (ow_endpoints w)"
  let ?gu = "\<lparr>GU_AllowList = CG_AllowList (CD_Governance doc), GU_Hidden = CG_Hidden (CD_Governance doc),
    GU_Featured = CG_Featured (CD_Governance doc), GU_FeaturedCap = CG_FeaturedCap (CD_Governance doc)\<rparr>"
  let ?ru = "\<lparr>RU_LogRetentionDays = CR_LogRetentionDays (CD_Retention doc),
    RU_EventRetentionDays = CR_EventRetentionDays (CD_Retention doc)\<rparr>"
  have gov: "org_GetGovernance ?F org w = (Inr (mem_gov.current w org), w)"
    by (simp add: org_GetGovernance_def act_simps org_memory_governance_simps mem_gov.current_def split: option.split)
  have eps: "port_ListEndpoints (org_endpointPorter ?F) org w = (Inr ?eps, w)"
    by (simp add: org_memory_facade_def zoom_porter_def zoom_apply port_list_run)
  have mode: "normalizeImportMode ImportModeReplace = Inr ImportModeReplace"
    by (simp add: normalizeImportMode_def ImportModeReplace_def)
  have res: "resolveGovernanceUpdate g (CD_Governance doc) ImportModeReplace = ?gu"
    "resolveRetentionUpdate v (CD_Retention doc) ImportModeReplace = ?ru" for g v
    by (simp_all add: resolveGovernanceUpdate_def resolveRetentionUpdate_def)
  have version: "CD_SchemaVersion doc = CurrentConfigSchemaVersion"
    using assms(4) by (auto simp: org_ImportConfig_def check_Inr_iff ValidateConfigSchemaVersion_def split: if_splits)
  have warn: "v = w" if "unknownIntegrationWarnings ?F d w = (ws, v)" for d ws v
    using keeps_result [OF keeps_id_warn_unknown] that by (metis unknownIntegrationWarnings_def)
  have ret: "v = w" if "org_GetRetention ?F org w = (x, v)" for x v
    using keeps_result [OF keeps_id_GetRetention that] .
  from assms(4) obtain g0 s1 v0 s2 es s3 ws s4 secrets where
    reads: "org_GetGovernance ?F org w = (Inr g0, s1)" "org_GetRetention ?F org s1 = (Inr v0, s2)"
      "port_ListEndpoints (org_endpointPorter ?F) org s2 = (Inr es, s3)"
      "unknownIntegrationWarnings ?F (CD_Governance doc) s3 = (Inr ws, s4)"
    and app: "applyImport ?F org ?gu ?ru (planEndpoints es (CD_Endpoints doc) ImportModeReplace) s4 = (Inr secrets, w')"
    unfolding org_ImportConfig_def check_Inr_iff attempt_Inr_iff lift_Inr_iff Let_def
    by (auto simp: res attempt_Inr_iff mode)
  from reads(1) gov have s1: "s1 = w" by simp
  from ret reads(2) have s2: "s2 = w" unfolding s1 by blast
  from reads(3) [unfolded s2 eps] have s3: "s3 = w" "es = ?eps" by auto
  from warn reads(4) have s4: "s4 = w" unfolding s3(1) by blast
  note run = app [unfolded s4 s3(2)]
  from run obtain g v w1 w2 where 1: "org_SetGovernance ?F org ?gu w = (Inr g, w1)"
    and 2: "org_SetRetention ?F org ?ru w1 = (Inr v, w2)"
    and 3: "apply_endpoints (zoom_porter (endpointPorterAdapter (dlv_F c o'))) org
        (planEndpoints ?eps (CD_Endpoints doc) ImportModeReplace) w2 = (Inr secrets, w')"
    by (auto simp: applyImport_def attempt_Inr_iff org_memory_facade_def)
  have k: "mem_gov.keyed_gov w"
    using assms(2,3) keyed_lookup [of Gov_OrgID "os_governanceByOrg (ow_store w)"]
    by (force simp: mem_gov.keyed_gov_def org_store_inv_def dest: map_of_SomeD)
  note g = mem_gov.set_governance_ok [OF 1]
  have "mem_gov.keyed_gov w1" by (rule mem_gov.set_governance_keeps_keyed [OF k 1])
  note v = mem_gov.set_retention_ok [OF this 2]
  have e2: "ow_endpoints w2 = ow_endpoints w"
    using keeps_result [OF SetGovernance_frame 1] keeps_result [OF SetRetention_frame 2] by simp
  have ready: "dlv_ready c o' (ow_endpoints w2)" using assms(1) by (simp add: e2)
  let ?after = "ported_endpoints org (ow_endpoints w')"
  note applied = 3 [folded e2 [THEN arg_cong [of _ _ "ported_endpoints org"]]]
  have "PE_URL ` set ?after = CE_URL ` set (CD_Endpoints doc)"
    by (rule org_port.replace_urls [OF ready applied])
  then have urls: "CE_URL ` set (toConfigEndpoints ?after) = CE_URL ` set (CD_Endpoints doc)"
    using toConfigEndpoints_urls [of ?after] by (metis set_map)
  have "image_mset stated (mset (toConfigEndpoints ?after)) = image_mset stated (mset (CD_Endpoints doc))"
    if d: "distinct (map PE_URL (ported_endpoints org (ow_endpoints w)))" "distinct (map CE_URL (CD_Endpoints doc))"
  proof -
    have d': "distinct (map PE_URL (ported_endpoints org (ow_endpoints w2)))" using d(1) by (simp add: e2)
    note m = org_port.replace_matches_document [OF ready d' d(2) applied]
    have "distinct (map CE_URL (toConfigEndpoints ?after))" using m(2) by (simp only: toConfigEndpoints_urls)
    then have 1: "distinct (map stated (toConfigEndpoints ?after))" "distinct (map stated (CD_Endpoints doc))"
      using d(2) by (auto simp: distinct_map stated_def inj_on_def)
    have "set (map stated (toConfigEndpoints ?after)) = set (map stated (CD_Endpoints doc))"
      using m(1) by (simp only: toConfigEndpoints_view [symmetric] doc_view_stated)
    then show ?thesis using 1 set_eq_iff_mset_eq_distinct by (metis mset_map)
  qed
  note endpoints = urls this
  have "mem_gov.current w' org = mem_gov.current w2 org"
    using keeps_result [OF apply_endpoints_frame 3] by (simp add: mem_gov.current_def)
  moreover have "mem_gov.current w2 org = g\<lparr>Gov_LogRetentionDays := CR_LogRetentionDays (CD_Retention doc),
      Gov_EventRetentionDays := CR_EventRetentionDays (CD_Retention doc)\<rparr>"
    using v(1) g(1) by (simp add: mem_gov.current_def)
  ultimately show ?thesis
    unfolding export_run using endpoints by (simp add: version Let_def g(3) effectiveFeaturedCap_def)
qed

section \<open>Examples\<close>

definition port_demo :: "dlv_world org_world" where
  "port_demo = \<lparr>ow_store = ow_store org_demo, ow_orgs_minted = 1, ow_users_minted = 3, ow_now = 9,
     ow_endpoints = dlv_demo\<rparr>"

definition port_document :: ConfigDocument where
  "port_document = \<lparr>CD_SchemaVersion = 1,
     CD_Governance = \<lparr>CG_AllowList = None, CG_Hidden = [''github''], CG_Featured = [], CG_FeaturedCap = 4\<rparr>,
     CD_Endpoints = [\<lparr>CE_URL = ''https://a.example'', CE_EventTypes = Some [EventTypeWebhookTest]\<rparr>],
     CD_Retention = \<lparr>CR_LogRetentionDays = Some 30, CR_EventRetentionDays = None\<rparr>\<rparr>"

lemma dlv_demo_ready: "dlv_ready c demo_overrides dlv_demo"
proof -
  have "owned dlv_demo org \<subseteq> {EP_ID demo_endpoint}" for org
    by (auto simp: owned_def endpoints_def dlv_demo_def split: if_splits)
  then have c: "card (owned dlv_demo org) \<le> 1" for org
    using card_mono [of "{EP_ID demo_endpoint}" "owned dlv_demo org"] by simp
  have "int (card (owned dlv_demo org)) \<le> 5" for org using c [of org] by simp
  then show ?thesis using dlv_demo_inv
    by (simp add: dlv_ready_def kept_def dlv_memory_facade_def demo_overrides_def defaultTestEndpointCap_def)
qed

lemma port_demo_endpoints: "ported_endpoints ''org_1'' dlv_demo = [ported demo_endpoint]"
  by (simp add: ported_endpoints_def endpointsForOrg_def sortEndpointsOldestFirst_def oldest_first_by_def dlv_demo_def
      demo_endpoint_def)

lemma port_demo_import:
  "\<exists>r w'. org_ImportConfig (org_dlv_F sample_crypto demo_overrides (\<lambda>_. True)) ''org_1'' port_document
     \<lparr>IO_DryRun = False, IO_Mode = ImportModeReplace\<rparr> port_demo = (Inr r, w')"
proof -
  have v: "ValidateEndpointURL ''https://a.example'' = None" "ValidateEventTypeFilter (Some [EventTypeWebhookTest]) = None"
    by code_simp+
  have m: "normalizeImportMode ImportModeReplace = Inr ImportModeReplace"
    by (simp add: normalizeImportMode_def ImportModeReplace_def)
  have url: "PE_URL (ported demo_endpoint) = ''https://a.example''" "PE_EventTypes (ported demo_endpoint) = None"
    by (simp_all add: demo_endpoint_def)
  have plan: "planEndpoints [ported demo_endpoint] (CD_Endpoints port_document) ImportModeReplace =
      [\<lparr>ea_Action = ''update'', ea_URL = ''https://a.example'', ea_EventTypes = Some [EventTypeWebhookTest],
        ea_EndpointID = EP_ID demo_endpoint\<rparr>]"
    by (simp add: planEndpoints_def port_document_def demo_endpoint_def elems_def)
  have find: "dlv_repo_FindEndpointByID (dlv_F sample_crypto demo_overrides) ''org_1'' (EP_ID demo_endpoint) dlv_demo
      = (Inr (Some demo_endpoint), dlv_demo)"
    by (simp add: act_simps dlv_mem_FindEndpointByID_def dlv_demo_def demo_endpoint_def)
  have upd: "\<exists>w'. port_UpdateEndpoint (endpointPorterAdapter (dlv_F sample_crypto demo_overrides)) ''org_1''
      (EP_ID demo_endpoint) ''https://a.example'' (Some [EventTypeWebhookTest]) dlv_demo = (Inr (), w')"
    by (simp add: endpointPorterAdapter_def dlv_UpdateEndpoint_def v attempt_apply find Let_def zoom_apply
        dlv_mem_SaveEndpoint_def del: dlv_memory_ops(3))
  then obtain e' where upd: "port_UpdateEndpoint (endpointPorterAdapter (dlv_F sample_crypto demo_overrides)) ''org_1''
      (EP_ID demo_endpoint) ''https://a.example'' (Some [EventTypeWebhookTest]) dlv_demo = (Inr (), e')" by blast
  show ?thesis
    by (simp add: org_ImportConfig_def ValidateConfigSchemaVersion_def CurrentConfigSchemaVersion_def port_document_def m
        act_simps org_GetGovernance_def org_GetRetention_def org_memory_governance_simps port_demo_def org_demo_def
        NewDefaultGovernance_def unknownIntegrationWarnings_def referencedIntegrationIDs_def)
      (simp add: org_memory_facade_def zoom_porter_def zoom_apply port_list_run port_demo_endpoints
        plan [unfolded port_document_def ConfigDocument.simps] applyImport_def attempt_apply upd
        org_SetGovernance_def org_SetRetention_def org_GetGovernance_def org_mem_FindByOrg_def org_mem_SaveGovernance_def
        NewGovernance_def resolveGovernanceUpdate_def resolveRetentionUpdate_def Let_def WithRetention_def
        validateRetentionWindow_def NewDefaultGovernance_def MinRetentionDays_def)
qed

lemma import_replace_export_roundtrip_witness:
  "\<exists>w' doc'. org_ExportConfig (org_dlv_F sample_crypto demo_overrides (\<lambda>_. True)) ''org_1'' w' = (Inr doc', w')
     \<and> image_mset stated (mset (CD_Endpoints doc')) = {#(''https://a.example'', [EventTypeWebhookTest])#}
     \<and> CD_Retention doc' = CD_Retention port_document"
proof -
  obtain r w' where run: "org_ImportConfig (org_dlv_F sample_crypto demo_overrides (\<lambda>_. True)) ''org_1'' port_document
     \<lparr>IO_DryRun = False, IO_Mode = ImportModeReplace\<rparr> port_demo = (Inr r, w')" using port_demo_import by blast
  have 1: "dlv_ready sample_crypto demo_overrides (ow_endpoints port_demo)" by (simp add: port_demo_def dlv_demo_ready)
  have 2: "org_store_inv (ow_store port_demo)" using org_demo_inv by (simp add: port_demo_def)
  have 3: "\<forall>g \<in> set (rows (os_governanceByOrg (ow_store port_demo))). valid_governance g"
    by (simp add: port_demo_def org_demo_def NewDefaultGovernance_valid)
  have 4: "distinct (map PE_URL (ported_endpoints ''org_1'' (ow_endpoints port_demo)))"
    by (simp add: port_demo_def port_demo_endpoints)
  have 5: "distinct (map CE_URL (CD_Endpoints port_document))" by (simp add: port_document_def)
  have "image_mset stated (mset (CD_Endpoints port_document)) = {#(''https://a.example'', [EventTypeWebhookTest])#}"
    by (simp add: port_document_def elems_def stated_def)
  with import_replace_export_roundtrip [OF 1 2 3 run] 4 5 show ?thesis by (simp only: simp_thms) blast
qed

end
