(* ===== verification/Schema.thy ===== *)
theory Schema
  imports GoAny
begin

text \<open>
  \<open>internal/schema\<close>: \<open>Validate\<close> over the JSON Schema library (\<open>validate.go\<close>) and the generator of a minimal
  instance (\<open>example.go\<close>), with the fragment of JSON Schema the generator is written for as a checker of its own.
\<close>

section \<open>Validation (validate.go)\<close>

text \<open>
  The schema library (\<open>santhosh-tekuri/jsonschema\<close>) is a parameter: \<open>lib doc instance\<close> is what compiling
  \<open>doc\<close> and validating \<open>instance\<close> against it reports, the text of the error if there is one.
\<close>

definition schema_Validate :: "(any_map \<Rightarrow> any_map \<Rightarrow> string option) \<Rightarrow> any_map \<Rightarrow> any_map \<Rightarrow> string option" where
  "schema_Validate lib doc inst = (if doc = [] then None else lib doc inst)"

section \<open>Minimal instances (example.go)\<close>

definition schemaType :: "any_map \<Rightarrow> string" where
  "schemaType doc =
     (case map_of doc ''type'' of
        Some (AStr declared) \<Rightarrow>
          if declared \<noteq> [] then declared else if map_of doc ''properties'' \<noteq> None then ''object'' else []
      | _ \<Rightarrow> if map_of doc ''properties'' \<noteq> None then ''object'' else [])"

text \<open>The members of a value that is an object, none for any other value: \<open>x, _ := v.(map[string]any)\<close>.\<close>

fun object_members :: "any option \<Rightarrow> any_map" where
  "object_members (Some (AMap m)) = m"
| "object_members _ = []"

definition doc_size :: "any_map \<Rightarrow> nat" where
  "doc_size m = size_list (size_prod (\<lambda>_. 0) size) m"

lemma doc_size_lookup: "map_of doc k = Some v \<Longrightarrow> size v < doc_size doc"
  by (induction doc) (auto simp: doc_size_def split: if_splits)

lemma doc_size_member: "(n, d) \<in> set m \<Longrightarrow> size d < doc_size m"
  by (induction m) (auto simp: doc_size_def)

lemma doc_size_object: "doc_size (object_members (Some v)) \<le> size v"
  by (cases v) (simp_all add: doc_size_def)

lemma doc_size_property:
  assumes "(n, d) \<in> set (object_members (map_of doc k))"
  shows "doc_size (object_members (Some d)) < doc_size doc"
proof (cases "map_of doc k")
  case (Some v)
  have "doc_size (object_members (Some d)) \<le> size d" by (rule doc_size_object)
  also have "\<dots> < doc_size (object_members (Some v))" using assms Some by (intro doc_size_member) simp
  also have "\<dots> \<le> size v" by (rule doc_size_object)
  also have "\<dots> < doc_size doc" using Some by (rule doc_size_lookup)
  finally show ?thesis .
qed (use assms in simp)

lemma doc_size_items: "map_of doc k = Some (AMap m) \<Longrightarrow> doc_size m < doc_size doc"
  using doc_size_lookup [of doc k "AMap m"] doc_size_object [of "AMap m"] by simp

function exampleValue :: "any_map \<Rightarrow> any" where
  "exampleValue doc =
     (let t = schemaType doc in
      if t = ''object'' then
        AMap (map (\<lambda>(name, propertyDoc). (name, exampleValue (object_members (Some propertyDoc)))) (object_members (map_of doc ''properties'')))
      else if t = ''array'' then
        (case map_of doc ''items'' of Some (AMap items) \<Rightarrow> ASlice [exampleValue items] | _ \<Rightarrow> ASlice [])
      else if t = ''integer'' \<or> t = ''number'' then AInt 0
      else if t = ''boolean'' then ABool False
      else if t = ''string'' then AStr []
      else AMap [])"
  by pat_completeness auto

termination
  by (relation "measure doc_size") (auto simp: doc_size_property doc_size_items)

declare exampleValue.simps [simp del]

text \<open>\<open>Example\<close> falls back to the empty object when the schema is not one of an object.\<close>

definition Example :: "any_map \<Rightarrow> any_map" where
  "Example doc = (case exampleValue doc of AMap m \<Rightarrow> m | _ \<Rightarrow> [])"

text \<open>
  The keywords the generator knows: \<open>type\<close>, \<open>properties\<close> and \<open>items\<close>. A schema without a type that is known, and
  without properties, constrains nothing.
\<close>

fun is_number :: "any \<Rightarrow> bool" where
  "is_number (AInt _) \<longleftrightarrow> True"
| "is_number (AFloat _) \<longleftrightarrow> True"
| "is_number _ \<longleftrightarrow> False"

function conforms :: "any_map \<Rightarrow> any \<Rightarrow> bool" where
  "conforms doc v =
     (let t = schemaType doc in
      if t = ''object'' then
        (case v of
           AMap m \<Rightarrow> list_all (\<lambda>(name, propertyDoc).
             case map_of m name of Some x \<Rightarrow> conforms (object_members (Some propertyDoc)) x | None \<Rightarrow> True)
             (object_members (map_of doc ''properties''))
         | _ \<Rightarrow> False)
      else if t = ''array'' then
        (case v of
           ASlice xs \<Rightarrow> (case map_of doc ''items'' of Some (AMap items) \<Rightarrow> list_all (conforms items) xs | _ \<Rightarrow> True)
         | _ \<Rightarrow> False)
      else if t = ''integer'' \<or> t = ''number'' then is_number v
      else if t = ''boolean'' then (case v of ABool _ \<Rightarrow> True | _ \<Rightarrow> False)
      else if t = ''string'' then (case v of AStr _ \<Rightarrow> True | _ \<Rightarrow> False)
      else True)"
  by pat_completeness auto

termination
  by (relation "measure (doc_size \<circ> fst)") (auto simp: doc_size_property doc_size_items)

declare conforms.simps [simp del]

lemma map_of_mapped: "map_of (map (\<lambda>(name, d). (name, f d)) m) k = map_option f (map_of m k)"
  by (induction m) auto

lemma map_of_unique: "distinct (map fst m) \<Longrightarrow> (k, v) \<in> set m \<Longrightarrow> map_of m k = Some v"
  by simp

text \<open>What is generated conforms, for every schema whose objects are maps: each key once.\<close>

function keys_once :: "any_map \<Rightarrow> bool" where
  "keys_once doc \<longleftrightarrow> distinct (map fst (object_members (map_of doc ''properties'')))
     \<and> list_all (\<lambda>(name, d). keys_once (object_members (Some d))) (object_members (map_of doc ''properties''))
     \<and> (case map_of doc ''items'' of Some (AMap items) \<Rightarrow> keys_once items | _ \<Rightarrow> True)"
  by pat_completeness auto

termination
  by (relation "measure doc_size") (auto simp: doc_size_property doc_size_items)

declare keys_once.simps [simp del]

lemma exampleValue_conforms: "keys_once doc \<Longrightarrow> conforms doc (exampleValue doc)"
proof (induction doc rule: exampleValue.induct)
  case (1 doc)
  let ?props = "object_members (map_of doc ''properties'')"
  have keys: "distinct (map fst ?props)" "\<forall>(name, d) \<in> set ?props. keys_once (object_members (Some d))"
    using 1(3) by (subst (asm) keys_once.simps; simp add: list_all_iff)+
  consider (object) "schemaType doc = ''object''" | (arr) "schemaType doc = ''array''"
    | (leaf) "schemaType doc \<noteq> ''object''" "schemaType doc \<noteq> ''array''" by blast
  then show ?case
  proof cases
    case object
    have "conforms (object_members (Some d)) (exampleValue (object_members (Some d)))" if "(name, d) \<in> set ?props" for name d
      using 1(1) [OF refl object that refl] keys(2) that by blast
    then show ?thesis
      by (subst conforms.simps, subst exampleValue.simps)
        (use object keys(1) in \<open>auto simp: list_all_iff map_of_mapped\<close>)
  next
    case arr
    then show ?thesis
    proof (cases "\<exists>items. map_of doc ''items'' = Some (AMap items)")
      case True
      then obtain items where items: "map_of doc ''items'' = Some (AMap items)" by blast
      then have "keys_once items" using 1(3) by (subst (asm) keys_once.simps) simp
      then have "conforms items (exampleValue items)" using 1(2) [OF refl] arr items by simp
      then show ?thesis by (subst conforms.simps, subst exampleValue.simps) (simp add: arr items)
    next
      case False
      then show ?thesis by (subst conforms.simps, subst exampleValue.simps) (auto simp: arr split: option.split any.split)
    qed
  next
    case leaf
    then show ?thesis using exampleValue.simps [of doc] by (subst conforms.simps) (auto simp: Let_def)
  qed
qed

lemma Example_conforms:
  assumes "keys_once doc" and "schemaType doc = ''object''"
  shows "conforms doc (AMap (Example doc))"
proof -
  have "AMap (Example doc) = exampleValue doc"
    unfolding Example_def by (subst (1 2) exampleValue.simps) (simp add: assms(2) Let_def)
  then show ?thesis using exampleValue_conforms [OF assms(1)] by simp
qed

end
