(* ===== verification/Triggers.thy ===== *)
theory Triggers
  imports Connections CatalogTypes Schema
begin

text \<open>
  \<open>internal/triggers\<close>, first half: trigger instances and their life cycle (\<open>types.go\<close>), the errors, the ports
  and the operations of \<open>facade.go\<close>.
\<close>

section \<open>Trigger instances (types.go)\<close>

type_synonym TriggerInstanceID = string

datatype TriggerStatus = TrigStatusActive | TrigStatusDisabled | TrigStatusPausedTriggerRemoved

record TriggerInstance =
  TI_ID :: TriggerInstanceID
  TI_OrgID :: OrgID
  TI_UserID :: UserID
  TI_ConnectionID :: ConnectionID
  TI_TriggerSlug :: string
  TI_Config :: any_map
  TI_Status :: TriggerStatus
  TI_WatermarkAt :: "time option"
  TI_SeenIDs :: "string list"
  TI_PausedAt :: "time option"
  TI_NextPollAt :: "time option"
  TI_CreatedAt :: time

definition NewTriggerInstance ::
  "TriggerInstanceID \<Rightarrow> OrgID \<Rightarrow> UserID \<Rightarrow> ConnectionID \<Rightarrow> string \<Rightarrow> any_map \<Rightarrow> time \<Rightarrow> TriggerInstance" where
  "NewTriggerInstance i org userID connectionID triggerSlug config now =
     \<lparr>TI_ID = i, TI_OrgID = org, TI_UserID = userID, TI_ConnectionID = connectionID, TI_TriggerSlug = triggerSlug,
      TI_Config = config, TI_Status = TrigStatusActive, TI_WatermarkAt = None, TI_SeenIDs = [], TI_PausedAt = None,
      TI_NextPollAt = Some now, TI_CreatedAt = now\<rparr>"

definition TI_Disable :: "TriggerInstance \<Rightarrow> TriggerInstance" where
  "TI_Disable t = t\<lparr>TI_Status := TrigStatusDisabled\<rparr>"

definition TI_Enable :: "TriggerInstance \<Rightarrow> time \<Rightarrow> TriggerInstance" where
  "TI_Enable t now = t\<lparr>TI_Status := TrigStatusActive, TI_WatermarkAt := Some now, TI_SeenIDs := []\<rparr>"

definition TI_PauseForRemovedTrigger :: "TriggerInstance \<Rightarrow> TriggerInstance" where
  "TI_PauseForRemovedTrigger t = t\<lparr>TI_Status := TrigStatusPausedTriggerRemoved\<rparr>"

section \<open>Errors (errors.go)\<close>

definition trg_ErrNotFound :: go_error where
  "trg_ErrNotFound = not_found_error ''trigger instance not found''"

definition trg_ErrValidation :: "string \<Rightarrow> string \<Rightarrow> go_error" where
  "trg_ErrValidation field issue = validation_error field issue"

definition trg_ErrInvalidCursor :: go_error where
  "trg_ErrInvalidCursor = invalid_cursor_error"

definition ErrInvalidConfig :: "string \<Rightarrow> go_error" where
  "ErrInvalidConfig cause = validation_error ''config'' cause"

definition ErrConnectionNotActive :: "string \<Rightarrow> go_error" where
  "ErrConnectionNotActive status = validation_error ''connectionId'' (''connection is '' @ status)"

section \<open>Ports (port.go) and the facade's state (facade.go)\<close>

type_synonym TrigListCursor = "time \<times> TriggerInstanceID"

record TrigListFilter =
  TLF_ConnectionID :: ConnectionID
  TLF_UserID :: UserID
  TLF_Cursor :: "TrigListCursor option"
  TLF_Limit :: int

record TrigPollRecord =
  TPR_ID :: string
  TPR_Timestamp :: time
  TPR_Payload :: any_map

record PollRecordQuery =
  PRQ_OrgID :: OrgID
  PRQ_UserID :: UserID
  PRQ_ConnectionID :: ConnectionID
  PRQ_TriggerSlug :: string
  PRQ_Config :: any_map
  PRQ_Watermark :: time

record TrigLogEntry =
  TLE_OrgID :: OrgID
  TLE_TriggerInstanceID :: TriggerInstanceID
  TLE_TriggerSlug :: string
  TLE_ConnectionID :: ConnectionID
  TLE_Error :: string

record 's trg_metrics =
  tm_RecordTriggerPollRun :: "bool \<Rightarrow> 's \<Rightarrow> 's"
  tm_RecordTriggerEventEmitted :: "string \<Rightarrow> 's \<Rightarrow> 's"

definition defaultPollMinInterval :: duration where
  "defaultPollMinInterval = 30 * second"

record 's trg_facade =
  trg_repo_Save :: "TriggerInstance \<Rightarrow> ('s, unit) act"
  trg_repo_FindByID :: "OrgID \<Rightarrow> TriggerInstanceID \<Rightarrow> ('s, TriggerInstance option) act"
  trg_repo_ListPage :: "OrgID \<Rightarrow> TrigListFilter \<Rightarrow> ('s, TriggerInstance list) act"
  trg_repo_Delete :: "OrgID \<Rightarrow> TriggerInstanceID \<Rightarrow> ('s, unit) act"
  trg_repo_DeleteByConnection :: "OrgID \<Rightarrow> ConnectionID \<Rightarrow> ('s, unit) act"
  trg_TriggerDefinitionDetail :: "string \<Rightarrow> ('s, TriggerDefinitionSummary) act"
  trg_connections_Get :: "OrgID \<Rightarrow> ConnectionID \<Rightarrow> ('s, Connection) act"
  trg_newID :: "'s \<Rightarrow> string \<times> 's"
  trg_now :: "'s \<Rightarrow> time \<times> 's"
  trg_ClaimDuePolls :: "time \<Rightarrow> duration \<Rightarrow> int \<Rightarrow> ('s, TriggerInstance list) act"
  trg_FetchRecords :: "PollRecordQuery \<Rightarrow> ('s, TrigPollRecord list) act"
  trg_events_Enqueue :: "OrgID \<Rightarrow> string \<Rightarrow> any \<Rightarrow> ('s, unit) act"
  trg_recorder :: "(TrigLogEntry \<Rightarrow> ('s, unit) act) option"
  trg_pollMinInterval :: duration
  trg_metrics :: "'s trg_metrics option"
  trg_ListByTriggerSlug :: "(string \<Rightarrow> ('s, TriggerInstance list) act) option"
  trg_schema_lib :: "any_map \<Rightarrow> any_map \<Rightarrow> string option"

section \<open>Operations (facade.go)\<close>

record TrigCreateParams =
  TCP_ConnectionID :: ConnectionID
  TCP_TriggerSlug :: string
  TCP_Config :: any_map

definition trg_Create :: "'s trg_facade \<Rightarrow> OrgID \<Rightarrow> TrigCreateParams \<Rightarrow> ('s, TriggerInstance) act" where
  "trg_Create f org params =
     attempt (trg_TriggerDefinitionDetail f (TCP_TriggerSlug params)) (\<lambda>defn.
     case schema_Validate (trg_schema_lib f) (TDS_ConfigSchema defn) (TCP_Config params) of
       Some err \<Rightarrow> fail (ErrInvalidConfig err)
     | None \<Rightarrow>
     attempt (trg_connections_Get f org (TCP_ConnectionID params)) (\<lambda>connection.
     if Conn_Status connection \<noteq> StatusActive
     then fail (ErrConnectionNotActive (conn_status_text (Conn_Status connection)))
     else
     call (trg_newID f) (\<lambda>i.
     call (trg_now f) (\<lambda>now.
     let inst = NewTriggerInstance i org (Conn_UserID connection) (TCP_ConnectionID params) (TCP_TriggerSlug params)
           (TCP_Config params) now in
     attempt (trg_repo_Save f inst) (\<lambda>_. ok inst)))))"

definition trg_Get :: "'s trg_facade \<Rightarrow> OrgID \<Rightarrow> TriggerInstanceID \<Rightarrow> ('s, TriggerInstance) act" where
  "trg_Get f org i =
     attempt (trg_repo_FindByID f org i) (\<lambda>found.
     case found of None \<Rightarrow> fail trg_ErrNotFound | Some inst \<Rightarrow> ok inst)"

definition trg_Disable :: "'s trg_facade \<Rightarrow> OrgID \<Rightarrow> TriggerInstanceID \<Rightarrow> ('s, TriggerInstance) act" where
  "trg_Disable f org i =
     attempt (trg_Get f org i) (\<lambda>inst.
     let disabled = TI_Disable inst in
     attempt (trg_repo_Save f disabled) (\<lambda>_. ok disabled))"

definition trg_Enable :: "'s trg_facade \<Rightarrow> OrgID \<Rightarrow> TriggerInstanceID \<Rightarrow> ('s, TriggerInstance) act" where
  "trg_Enable f org i =
     attempt (trg_Get f org i) (\<lambda>inst.
     call (trg_now f) (\<lambda>now.
     let enabled = TI_Enable inst now in
     attempt (trg_repo_Save f enabled) (\<lambda>_. ok enabled)))"

definition trg_Delete :: "'s trg_facade \<Rightarrow> OrgID \<Rightarrow> TriggerInstanceID \<Rightarrow> ('s, unit) act" where
  "trg_Delete f org i = attempt (trg_Get f org i) (\<lambda>_. trg_repo_Delete f org i)"

definition trg_DeleteByConnection :: "'s trg_facade \<Rightarrow> OrgID \<Rightarrow> ConnectionID \<Rightarrow> ('s, unit) act" where
  "trg_DeleteByConnection f org connID = trg_repo_DeleteByConnection f org connID"

record TrigListParams =
  TLP_ConnectionID :: string
  TLP_UserID :: string
  TLP_Cursor :: string
  TLP_Limit :: int

record TrigListResult =
  TLR_Items :: "TriggerInstance list"
  TLR_NextCursor :: string

definition trg_defaultListLimit :: int where
  "trg_defaultListLimit = 50"

definition trg_maxListLimit :: int where
  "trg_maxListLimit = 200"

definition trg_normalizeListLimit :: "int \<Rightarrow> int" where
  "trg_normalizeListLimit requested =
     (if requested \<le> 0 then trg_defaultListLimit
      else if requested > trg_maxListLimit then trg_maxListLimit
      else requested)"

definition encodeInstanceCursor :: "time \<Rightarrow> TriggerInstanceID \<Rightarrow> string" where
  "encodeInstanceCursor createdAt i = EncodeCursor [format_RFC3339Nano createdAt, i]"

definition decodeInstanceCursor :: "string \<Rightarrow> go_error + TrigListCursor option" where
  "decodeInstanceCursor raw =
     (case DecodeCursor raw 2 of
        Inl _ \<Rightarrow> Inl trg_ErrInvalidCursor
      | Inr None \<Rightarrow> Inr None
      | Inr (Some fs) \<Rightarrow>
          (case parse_RFC3339Nano (fs ! 0) of
             None \<Rightarrow> Inl trg_ErrInvalidCursor
           | Some createdAt \<Rightarrow> Inr (Some (createdAt, fs ! 1))))"

definition paginateInstances :: "TriggerInstance list \<Rightarrow> int \<Rightarrow> TrigListResult" where
  "paginateInstances items limit =
     (let hasMore = int (length items) > limit;
          shown = (if hasMore then take (nat limit) items else items)
      in \<lparr>TLR_Items = shown,
          TLR_NextCursor =
            (if hasMore then encodeInstanceCursor (TI_CreatedAt (last shown)) (TI_ID (last shown)) else [])\<rparr>)"

definition trg_List :: "'s trg_facade \<Rightarrow> OrgID \<Rightarrow> TrigListParams \<Rightarrow> ('s, TrigListResult) act" where
  "trg_List f org params =
     attempt (lift (decodeInstanceCursor (TLP_Cursor params))) (\<lambda>cursor.
     let limit = trg_normalizeListLimit (TLP_Limit params) in
     attempt (trg_repo_ListPage f org \<lparr>TLF_ConnectionID = TLP_ConnectionID params, TLF_UserID = TLP_UserID params,
         TLF_Cursor = cursor, TLF_Limit = limit + 1\<rparr>) (\<lambda>items.
     ok (paginateInstances items limit)))"

end
