(* ===== verification/TriggerPoll.thy ===== *)
theory TriggerPoll
  imports Triggers ExecCalls
begin

text \<open>
  \<open>internal/triggers\<close>, second half: which records of a poll are new (\<open>watermark.go\<close>), the poll of due
  instances (\<open>poll.go\<close>), and the pause of the instances of a removed trigger (\<open>registry_pause.go\<close>).
\<close>

section \<open>The watermark (watermark.go)\<close>

record PollOutcome =
  PO_ToFire :: "TrigPollRecord list"
  PO_Instance :: TriggerInstance

definition record_key :: "TrigPollRecord \<Rightarrow> time_id" where
  "record_key r = (TPR_Timestamp r, TPR_ID r)"

text \<open>\<open>sort.Slice\<close> leaves open how records with equal timestamp and id are ordered; here, as they came.\<close>

definition sortedByTimestamp :: "TrigPollRecord list \<Rightarrow> TrigPollRecord list" where
  "sortedByTimestamp records = oldest_first_by record_key records"

definition latestTimestamp :: "TrigPollRecord list \<Rightarrow> time option" where
  "latestTimestamp records =
     (case records of
        [] \<Rightarrow> None
      | r # rs \<Rightarrow> Some (foldl (\<lambda>latest r. if TPR_Timestamp r > latest then TPR_Timestamp r else latest) (TPR_Timestamp r) rs))"

definition idsAtTimestamp :: "TrigPollRecord list \<Rightarrow> time \<Rightarrow> string list" where
  "idsAtTimestamp records ts = map TPR_ID (filter (\<lambda>r. TPR_Timestamp r = ts) records)"

definition toIDSet :: "string list \<Rightarrow> string set" where
  "toIDSet ids = set ids"

definition fromIDSet :: "string set \<Rightarrow> string list" where
  "fromIDSet ids = sorted_list_of_set ids"

definition baselinePoll :: "TriggerInstance \<Rightarrow> TrigPollRecord list \<Rightarrow> time \<Rightarrow> PollOutcome" where
  "baselinePoll inst sorted_records now =
     (let (watermark, seenIDs) = (case latestTimestamp sorted_records of
            None \<Rightarrow> (now, [])
          | Some latest \<Rightarrow> (latest, idsAtTimestamp sorted_records latest))
      in \<lparr>PO_ToFire = [], PO_Instance = inst\<lparr>TI_WatermarkAt := Some watermark, TI_SeenIDs := seenIDs\<rparr>\<rparr>)"

definition advancePoll :: "TriggerInstance \<Rightarrow> time \<Rightarrow> TrigPollRecord list \<Rightarrow> PollOutcome" where
  "advancePoll inst watermark sorted_records =
     (let seen = toIDSet (TI_SeenIDs inst);
          toFire = filter (\<lambda>r. TPR_Timestamp r > watermark \<or> TPR_Timestamp r = watermark \<and> TPR_ID r \<notin> seen) sorted_records;
          newWatermark = (case latestTimestamp toFire of None \<Rightarrow> watermark
            | Some latest \<Rightarrow> if latest > watermark then latest else watermark);
          newSeen = (if newWatermark \<noteq> watermark then {} else seen)
            \<union> toIDSet (map TPR_ID (filter (\<lambda>r. TPR_Timestamp r = newWatermark) toFire))
      in \<lparr>PO_ToFire = toFire,
          PO_Instance = inst\<lparr>TI_WatermarkAt := Some newWatermark, TI_SeenIDs := fromIDSet newSeen\<rparr>\<rparr>)"

definition ApplyWatermark :: "TriggerInstance \<Rightarrow> TrigPollRecord list \<Rightarrow> time \<Rightarrow> PollOutcome" where
  "ApplyWatermark inst records now =
     (let sorted_records = sortedByTimestamp records in
      case TI_WatermarkAt inst of
        None \<Rightarrow> baselinePoll inst sorted_records now
      | Some watermark \<Rightarrow> advancePoll inst watermark sorted_records)"

definition TI_Pause :: "TriggerInstance \<Rightarrow> time \<Rightarrow> TriggerInstance" where
  "TI_Pause inst now = inst\<lparr>TI_PausedAt := Some now\<rparr>"

definition TI_Resume :: "TriggerInstance \<Rightarrow> time \<Rightarrow> TriggerInstance" where
  "TI_Resume inst now = inst\<lparr>TI_PausedAt := None, TI_WatermarkAt := Some now, TI_SeenIDs := []\<rparr>"

section \<open>One poll (poll.go)\<close>

definition pollClaimBatchLimit :: int where
  "pollClaimBatchLimit = 50"

definition pollLeaseTTL :: duration where
  "pollLeaseTTL = 60 * second"

definition trg_EventTypeTriggerEvent :: string where
  "trg_EventTypeTriggerEvent = ''trigger.event''"

definition reschedule :: "TriggerInstance \<Rightarrow> time \<Rightarrow> duration \<Rightarrow> TriggerInstance" where
  "reschedule inst now interval = inst\<lparr>TI_NextPollAt := Some (now + interval)\<rparr>"

definition resolveInstancePollInterval :: "'s trg_facade \<Rightarrow> TriggerInstance \<Rightarrow> 's \<Rightarrow> duration \<times> 's" where
  "resolveInstancePollInterval f inst s =
     (case trg_TriggerDefinitionDetail f (TI_TriggerSlug inst) s of
        (Inl _, s') \<Rightarrow> (trg_pollMinInterval f, s')
      | (Inr defn, s') \<Rightarrow>
          (let interval = dur_mul (TDS_PollIntervalSeconds defn) second
           in (if interval < trg_pollMinInterval f then trg_pollMinInterval f else interval, s')))"

definition logPollFailure :: "'s trg_facade \<Rightarrow> TriggerInstance \<Rightarrow> go_error \<Rightarrow> ('s, unit) act" where
  "logPollFailure f inst cause =
     (case trg_recorder f of
        None \<Rightarrow> ok ()
      | Some rec \<Rightarrow>
          discard (rec \<lparr>TLE_OrgID = TI_OrgID inst, TLE_TriggerInstanceID = TI_ID inst, TLE_TriggerSlug = TI_TriggerSlug inst,
            TLE_ConnectionID = TI_ConnectionID inst, TLE_Error = go_error_text cause\<rparr>) (ok ()))"

definition reschedulePollFailure :: "'s trg_facade \<Rightarrow> TriggerInstance \<Rightarrow> time \<Rightarrow> duration \<Rightarrow> go_error \<Rightarrow> ('s, unit) act" where
  "reschedulePollFailure f inst now interval cause =
     attempt (logPollFailure f inst cause) (\<lambda>_. trg_repo_Save f (reschedule inst now interval))"

definition recordEventEmitted :: "'s trg_facade \<Rightarrow> string \<Rightarrow> 's \<Rightarrow> unit \<times> 's" where
  "recordEventEmitted f triggerSlug s =
     ((), case trg_metrics f of None \<Rightarrow> s | Some m \<Rightarrow> tm_RecordTriggerEventEmitted m triggerSlug s)"

definition trigger_event_data :: "TriggerInstance \<Rightarrow> TrigPollRecord \<Rightarrow> any" where
  "trigger_event_data inst r =
     AMap [(''connectionId'', AStr (TI_ConnectionID inst)), (''payload'', AMap (TPR_Payload r)),
       (''triggerInstanceId'', AStr (TI_ID inst)), (''triggerSlug'', AStr (TI_TriggerSlug inst)),
       (''userId'', AStr (TI_UserID inst))]"

fun emitFiredEvents :: "'s trg_facade \<Rightarrow> TriggerInstance \<Rightarrow> TrigPollRecord list \<Rightarrow> ('s, unit) act" where
  "emitFiredEvents f inst [] = ok ()"
| "emitFiredEvents f inst (r # records) =
     attempt (trg_events_Enqueue f (TI_OrgID inst) trg_EventTypeTriggerEvent (trigger_event_data inst r)) (\<lambda>_.
     call (recordEventEmitted f (TI_TriggerSlug inst)) (\<lambda>_.
     emitFiredEvents f inst records))"

definition pollActive :: "'s trg_facade \<Rightarrow> TriggerInstance \<Rightarrow> time \<Rightarrow> duration \<Rightarrow> ('s, unit) act" where
  "pollActive f inst now interval =
     catching (trg_FetchRecords f
         \<lparr>PRQ_OrgID = TI_OrgID inst, PRQ_UserID = TI_UserID inst, PRQ_ConnectionID = TI_ConnectionID inst,
          PRQ_TriggerSlug = TI_TriggerSlug inst, PRQ_Config = TI_Config inst,
          PRQ_Watermark = (case TI_WatermarkAt inst of None \<Rightarrow> zero_time | Some t \<Rightarrow> t)\<rparr>) (\<lambda>r.
     case r of
       Inl err \<Rightarrow> reschedulePollFailure f inst now interval err
     | Inr records \<Rightarrow>
         (let outcome = ApplyWatermark inst records now in
          attempt (emitFiredEvents f (PO_Instance outcome) (PO_ToFire outcome)) (\<lambda>_.
          trg_repo_Save f (reschedule (PO_Instance outcome) now interval))))"

definition pollOne :: "'s trg_facade \<Rightarrow> TriggerInstance \<Rightarrow> time \<Rightarrow> ('s, unit) act" where
  "pollOne f inst now =
     call (resolveInstancePollInterval f inst) (\<lambda>interval.
     catching (trg_connections_Get f (TI_OrgID inst) (TI_ConnectionID inst)) (\<lambda>r.
     case r of
       Inl err \<Rightarrow> reschedulePollFailure f inst now interval err
     | Inr connection \<Rightarrow>
         if Conn_Status connection \<noteq> StatusActive
         then trg_repo_Save f (reschedule (TI_Pause inst now) now interval)
         else if TI_PausedAt inst \<noteq> None
         then trg_repo_Save f (reschedule (TI_Resume inst now) now interval)
         else pollActive f inst now interval))"

definition recordPollRun :: "'s trg_facade \<Rightarrow> bool \<Rightarrow> 's \<Rightarrow> unit \<times> 's" where
  "recordPollRun f success s = ((), case trg_metrics f of None \<Rightarrow> s | Some m \<Rightarrow> tm_RecordTriggerPollRun m success s)"

text \<open>\<open>for _, instance := range instances { if err := f.pollOne(...); err != nil { return err } }\<close>\<close>

definition poll_all :: "'s trg_facade \<Rightarrow> TriggerInstance list \<Rightarrow> time \<Rightarrow> ('s, unit) act" where
  "poll_all f instances now = for_each (\<lambda>inst. pollOne f inst now) instances"

definition PollOnce :: "'s trg_facade \<Rightarrow> ('s, unit) act" where
  "PollOnce f =
     call (trg_now f) (\<lambda>now.
     catching (trg_ClaimDuePolls f now pollLeaseTTL pollClaimBatchLimit) (\<lambda>r.
     case r of
       Inl err \<Rightarrow> call (recordPollRun f False) (\<lambda>_. fail err)
     | Inr instances \<Rightarrow>
         catching (poll_all f instances now) (\<lambda>r.
         case r of
           Inl err \<Rightarrow> call (recordPollRun f False) (\<lambda>_. fail err)
         | Inr _ \<Rightarrow> call (recordPollRun f True) (\<lambda>_. ok ()))))"

section \<open>Removed triggers (registry_pause.go)\<close>

definition pause_removed :: "'s trg_facade \<Rightarrow> TriggerInstance \<Rightarrow> ('s, unit) act" where
  "pause_removed f inst =
     (if TI_Status inst = TrigStatusPausedTriggerRemoved then ok ()
      else trg_repo_Save f (TI_PauseForRemovedTrigger inst))"

definition PauseInstancesForRemovedTrigger :: "'s trg_facade \<Rightarrow> string \<Rightarrow> ('s, unit) act" where
  "PauseInstancesForRemovedTrigger f triggerSlug =
     (case trg_ListByTriggerSlug f of
        None \<Rightarrow> ok ()
      | Some listBySlug \<Rightarrow>
          attempt (listBySlug triggerSlug) (\<lambda>instances. for_each (pause_removed f) instances))"

section \<open>The watermark against a complete memory\<close>

text \<open>
  The reference: remember every record ever fetched. A record fires if it was never fetched before and is not
  older than the newest one fetched so far (or than the moment polling started).
\<close>

record full_history =
  fh_newest :: time
  fh_fetched :: "time_id set"

definition fires_fresh :: "full_history \<Rightarrow> TrigPollRecord list \<Rightarrow> TrigPollRecord list" where
  "fires_fresh h records =
     filter (\<lambda>r. record_key r \<notin> fh_fetched h \<and> fh_newest h \<le> TPR_Timestamp r) (sortedByTimestamp records)"

definition remember :: "full_history \<Rightarrow> TrigPollRecord list \<Rightarrow> full_history" where
  "remember h records =
     \<lparr>fh_newest = foldl max (fh_newest h) (map TPR_Timestamp records), fh_fetched = fh_fetched h \<union> record_key ` set records\<rparr>"

text \<open>The polls of one instance: what each fires.\<close>

fun poll_run :: "TriggerInstance \<Rightarrow> (TrigPollRecord list \<times> time) list \<Rightarrow> TrigPollRecord list list" where
  "poll_run inst [] = []"
| "poll_run inst ((records, now) # ps) =
     (let outcome = ApplyWatermark inst records now in PO_ToFire outcome # poll_run (PO_Instance outcome) ps)"

fun history_run :: "full_history \<Rightarrow> (TrigPollRecord list \<times> time) list \<Rightarrow> TrigPollRecord list list" where
  "history_run h [] = []"
| "history_run h ((records, now) # ps) = fires_fresh h records # history_run (remember h records) ps"

definition agrees :: "TriggerInstance \<Rightarrow> full_history \<Rightarrow> bool" where
  "agrees inst h \<longleftrightarrow>
     TI_WatermarkAt inst = Some (fh_newest h)
     \<and> (\<forall>i. i \<in> set (TI_SeenIDs inst) \<longleftrightarrow> (fh_newest h, i) \<in> fh_fetched h) \<and> (\<forall>k \<in> fh_fetched h. fst k \<le> fh_newest h)"

lemma foldl_max_ge: "(a::int) \<le> foldl max a xs" "x \<in> set xs \<Longrightarrow> x \<le> foldl max a xs"
proof (induction xs arbitrary: a)
  case (Cons y ys)
  { case 1 show ?case using Cons(1) [of "max a y"] by simp }
  { case 2 then show ?case using Cons [of "max a y"] by auto }
qed simp_all

lemma foldl_max_in: "foldl max (a::int) xs = a \<or> foldl max a xs \<in> set xs"
proof (induction xs arbitrary: a)
  case (Cons y ys)
  from Cons [of "max a y"] show ?case by (auto simp: max_def split: if_splits)
qed simp

lemma latestTimestamp_max: "latestTimestamp rs = (case rs of [] \<Rightarrow> None | r # rs \<Rightarrow> Some (foldl max (TPR_Timestamp r) (map TPR_Timestamp rs)))"
proof -
  have "foldl (\<lambda>latest r. if TPR_Timestamp r > latest then TPR_Timestamp r else latest) a rs = foldl max a (map TPR_Timestamp rs)" for a and rs :: "TrigPollRecord list"
    by (induction rs arbitrary: a) (auto simp: max_def not_less)
  then show ?thesis by (simp add: latestTimestamp_def split: list.split)
qed

lemma latest_props:
  "latestTimestamp rs = None \<longleftrightarrow> rs = []"
  "latestTimestamp rs = Some t \<Longrightarrow> (\<exists>r \<in> set rs. TPR_Timestamp r = t) \<and> (\<forall>r \<in> set rs. TPR_Timestamp r \<le> t)"
proof -
  show "latestTimestamp rs = None \<longleftrightarrow> rs = []" by (simp add: latestTimestamp_max split: list.split)
  assume t: "latestTimestamp rs = Some t"
  show "(\<exists>r \<in> set rs. TPR_Timestamp r = t) \<and> (\<forall>r \<in> set rs. TPR_Timestamp r \<le> t)"
  proof (cases rs)
    case (Cons r qs)
    then have "t = foldl max (TPR_Timestamp r) (map TPR_Timestamp qs)" using t by (simp add: latestTimestamp_max)
    then show ?thesis using Cons foldl_max_in [of "TPR_Timestamp r" "map TPR_Timestamp qs"] foldl_max_ge(2) [of _ "map TPR_Timestamp qs" "TPR_Timestamp r"]
        foldl_max_ge(1) [of "TPR_Timestamp r" "map TPR_Timestamp qs"] by auto
  qed (use t in \<open>simp add: latestTimestamp_max\<close>)
qed

lemma latestTimestamp_set: "set rs = set qs \<Longrightarrow> latestTimestamp rs = latestTimestamp qs"
proof (cases "latestTimestamp rs"; cases "latestTimestamp qs")
  fix a b assume "latestTimestamp rs = Some a" "latestTimestamp qs = Some b" "set rs = set qs"
  then show ?thesis using latest_props(2) [of rs a] latest_props(2) [of qs b] by (metis order.antisym)
qed (auto simp: latest_props(1))

text \<open>One poll: the instance's bounded memory and the complete one fire the same and stay in agreement.\<close>

lemma advance_agrees:
  assumes "agrees inst h"
  shows "PO_ToFire (ApplyWatermark inst records now) = fires_fresh h records"
    and "agrees (PO_Instance (ApplyWatermark inst records now)) (remember h records)"
proof -
  let ?w = "fh_newest h" and ?o = "ApplyWatermark inst records now"
  let ?fire = "filter (\<lambda>r. TPR_Timestamp r > ?w \<or> TPR_Timestamp r = ?w \<and> TPR_ID r \<notin> toIDSet (TI_SeenIDs inst)) (sortedByTimestamp records)"
  have w: "TI_WatermarkAt inst = Some ?w" and seen: "i \<in> set (TI_SeenIDs inst) \<longleftrightarrow> (?w, i) \<in> fh_fetched h"
    and old: "k \<in> fh_fetched h \<Longrightarrow> fst k \<le> ?w" for i k
    using assms by (auto simp: agrees_def)
  have o: "?o = advancePoll inst ?w (sortedByTimestamp records)" by (simp add: ApplyWatermark_def w)
  have fire: "PO_ToFire ?o = ?fire" by (simp add: o advancePoll_def Let_def)
  have same: "?fire = fires_fresh h records"
    unfolding fires_fresh_def by (intro filter_cong) (auto simp: record_key_def toIDSet_def seen dest: old)
  from fire same show "PO_ToFire ?o = fires_fresh h records" by simp
  have set: "set (sortedByTimestamp records) = set records" by (simp add: sortedByTimestamp_def)
  have newest: "(case latestTimestamp ?fire of None \<Rightarrow> ?w | Some t \<Rightarrow> if t > ?w then t else ?w) = fh_newest (remember h records)"
  proof -
    let ?m = "foldl max ?w (map TPR_Timestamp records)"
    have m: "?w \<le> ?m" "\<And>r. r \<in> set records \<Longrightarrow> TPR_Timestamp r \<le> ?m" "?m = ?w \<or> ?m \<in> TPR_Timestamp ` set records"
      using foldl_max_ge [where a = ?w and xs = "map TPR_Timestamp records"] foldl_max_in [of ?w "map TPR_Timestamp records"] by auto
    show ?thesis
    proof (cases "?m = ?w")
      case True
      then have "t \<le> ?w" if "latestTimestamp ?fire = Some t" for t
        using latest_props(2) [OF that] m(2) set by auto
      then show ?thesis using True by (auto simp: remember_def split: option.split)
    next
      case False
      then obtain r where r: "r \<in> set records" "TPR_Timestamp r = ?m" using m(3) by auto
      then have "r \<in> set ?fire" using False m(1) set by auto
      then have ne: "?fire \<noteq> []" and rf: "r \<in> set ?fire" by (metis list.distinct(1) list.set_cases, simp)
      obtain t where t: "latestTimestamp ?fire = Some t"
        using ne latest_props(1) [of ?fire] by (cases "latestTimestamp ?fire") simp_all
      with rf have "t = ?m" using latest_props(2) [OF t] r m(2) set by (metis (mono_tags, lifting) filter_is_subset order.antisym subsetD)
      then show ?thesis using t False m(1) by (simp add: remember_def)
    qed
  qed
  define n where "n = fh_newest (remember h records)"
  have inst: "PO_Instance ?o = inst\<lparr>TI_WatermarkAt := Some n, TI_SeenIDs := fromIDSet
      ((if n \<noteq> ?w then {} else toIDSet (TI_SeenIDs inst)) \<union> toIDSet (map TPR_ID (filter (\<lambda>r. TPR_Timestamp r = n) ?fire)))\<rparr>"
    unfolding n_def newest [symmetric] by (simp add: o advancePoll_def Let_def)
  have n: "?w \<le> n" "\<And>r. r \<in> set records \<Longrightarrow> TPR_Timestamp r \<le> n"
    using foldl_max_ge [where a = ?w and xs = "map TPR_Timestamp records"] by (auto simp: n_def remember_def)
  have "i \<in> set (TI_SeenIDs (PO_Instance ?o)) \<longleftrightarrow> (n, i) \<in> fh_fetched (remember h records)" for i
  proof (cases "n = ?w")
    case True
    have "i \<in> set (TI_SeenIDs (PO_Instance ?o)) \<longleftrightarrow> i \<in> set (TI_SeenIDs inst) \<or> (\<exists>r \<in> set records. TPR_Timestamp r = ?w \<and> TPR_ID r = i)"
      using True set by (auto simp: inst fromIDSet_def toIDSet_def)
    then show ?thesis using True seen by (simp add: remember_def record_key_def image_iff) metis
  next
    case False
    have "(n, i) \<notin> fh_fetched h" using old [of "(n, i)"] n(1) False by auto
    moreover have "i \<in> set (TI_SeenIDs (PO_Instance ?o)) \<longleftrightarrow> (\<exists>r \<in> set records. TPR_Timestamp r = n \<and> TPR_ID r = i)"
      using False n(1) set by (auto simp: inst fromIDSet_def toIDSet_def)
    ultimately show ?thesis by (auto simp: remember_def record_key_def image_iff)
  qed
  moreover have "fst k \<le> n" if "k \<in> fh_fetched (remember h records)" for k
    using that n order_trans [OF old n(1), of k] by (auto simp: remember_def record_key_def)
  ultimately show "agrees (PO_Instance ?o) (remember h records)"
    by (simp add: agrees_def inst n_def)
qed

lemma history_fires_once:
  assumes "\<forall>p \<in> set ps. distinct (map record_key (fst p))"
  shows "distinct (map record_key (concat (history_run h ps))) \<and> record_key ` set (concat (history_run h ps)) \<inter> fh_fetched h = {}"
  using assms
proof (induction ps arbitrary: h)
  case (Cons p ps)
  obtain records now where p: "p = (records, now)" by fastforce
  have d: "distinct (map record_key (sortedByTimestamp records))" using Cons.prems by (simp add: p sortedByTimestamp_def)
  define fired where "fired = record_key ` set (fires_fresh h records)"
  define later where "later = record_key ` set (concat (history_run (remember h records) ps))"
  have "distinct (map record_key (fires_fresh h records))" using d by (simp add: fires_fresh_def distinct_map_filter)
  moreover have "fired \<inter> fh_fetched h = {}" "fired \<subseteq> fh_fetched (remember h records)"
    by (auto simp: fired_def fires_fresh_def remember_def sortedByTimestamp_def)
  moreover have "fh_fetched h \<subseteq> fh_fetched (remember h records)" by (simp add: remember_def)
  moreover have "distinct (map record_key (concat (history_run (remember h records) ps)))" "later \<inter> fh_fetched (remember h records) = {}"
    using Cons.IH [of "remember h records"] Cons.prems by (simp_all add: later_def)
  ultimately have dd: "distinct (map record_key (fires_fresh h records))" "fired \<inter> later = {}" "(fired \<union> later) \<inter> fh_fetched h = {}"
    "distinct (map record_key (concat (history_run (remember h records) ps)))" by blast+
  then have "distinct (map record_key (fires_fresh h records) @ map record_key (concat (history_run (remember h records) ps)))"
    unfolding distinct_append by (simp only: fired_def later_def set_map simp_thms)
  with dd show ?case by (simp add: p fired_def later_def image_Un)
qed simp

text \<open>
  C28: The watermark forgets nothing that matters. From its baseline poll on (or from an enabling at \<open>now\<close>), the
  polls of an instance, which remember one timestamp and the ids fetched at it, fire exactly what a poller
  would fire that remembers every record it ever fetched: the records never fetched before that are not older
  than the newest one fetched so far, oldest first. So no record fires twice, however often the provider
  returns it (within one answer it must not repeat itself).
\<close>

theorem watermark_is_full_history:
  assumes "TI_WatermarkAt inst = None \<or> TI_SeenIDs inst = []"
  shows "poll_run inst ((records, now) # ps) =
    (case TI_WatermarkAt inst of
       None \<Rightarrow> [] # history_run (remember \<lparr>fh_newest = (case latestTimestamp records of None \<Rightarrow> now | Some t \<Rightarrow> t), fh_fetched = {}\<rparr> records) ps
     | Some t \<Rightarrow> history_run \<lparr>fh_newest = t, fh_fetched = {}\<rparr> ((records, now) # ps))
   \<and> ((\<forall>p \<in> set ((records, now) # ps). distinct (map record_key (fst p)))
        \<longrightarrow> distinct (map record_key (concat (poll_run inst ((records, now) # ps)))))"
proof -
  have run: "poll_run inst ps = history_run h ps" if "agrees inst h" for inst h ps
    using that by (induction ps arbitrary: inst h) (auto simp: Let_def advance_agrees)
  show ?thesis
  proof (cases "TI_WatermarkAt inst")
    case (Some t)
    then have "agrees inst \<lparr>fh_newest = t, fh_fetched = {}\<rparr>" using assms by (simp add: agrees_def)
    from run [OF this, of "(records, now) # ps"] Some history_fires_once [of "(records, now) # ps"] show ?thesis by simp
  next
    case fresh: None
    let ?h = "remember \<lparr>fh_newest = (case latestTimestamp records of None \<Rightarrow> now | Some t \<Rightarrow> t), fh_fetched = {}\<rparr> records"
    have sorted_set: "set (sortedByTimestamp records) = set records" by (simp add: sortedByTimestamp_def)
    have l: "latestTimestamp (sortedByTimestamp records) = latestTimestamp records"
      by (rule latestTimestamp_set [OF sorted_set])
    have o: "ApplyWatermark inst records now = baselinePoll inst (sortedByTimestamp records) now" by (simp add: ApplyWatermark_def fresh)
    have "agrees (PO_Instance (ApplyWatermark inst records now)) ?h"
    proof (cases "latestTimestamp records")
      case None
      then have "records = []" by (simp add: latest_props(1))
      then show ?thesis by (simp add: ApplyWatermark_def fresh baselinePoll_def sortedByTimestamp_def oldest_first_by_def
          latestTimestamp_def agrees_def remember_def)
    next
      case (Some t)
      from latest_props(2) [OF Some] have t: "\<forall>r \<in> set records. TPR_Timestamp r \<le> t" by simp
      then have "foldl max t (map TPR_Timestamp records) = t"
        using foldl_max_in [of t "map TPR_Timestamp records"] foldl_max_ge(1) [of t "map TPR_Timestamp records"] by force
      then show ?thesis using t
        by (auto simp: o baselinePoll_def l Some agrees_def remember_def idsAtTimestamp_def record_key_def image_iff sorted_set)
    qed
    from run [OF this] have "poll_run (PO_Instance (ApplyWatermark inst records now)) ps = history_run ?h ps" .
    moreover have "PO_ToFire (ApplyWatermark inst records now) = []" by (simp add: o baselinePoll_def split: option.split)
    ultimately show ?thesis using fresh history_fires_once [of ps ?h] by (simp add: Let_def)
  qed
qed

lemma watermark_is_full_history_witness:
  "poll_run (NewTriggerInstance ''trg_1'' ''org_1'' ''user_1'' ''conn_1'' ''new_contact'' [] 0)
     [([\<lparr>TPR_ID = ''a'', TPR_Timestamp = 1, TPR_Payload = []\<rparr>], 5),
      ([\<lparr>TPR_ID = ''b'', TPR_Timestamp = 1, TPR_Payload = []\<rparr>, \<lparr>TPR_ID = ''a'', TPR_Timestamp = 1, TPR_Payload = []\<rparr>], 6)]
   = [[], [\<lparr>TPR_ID = ''b'', TPR_Timestamp = 1, TPR_Payload = []\<rparr>]]"
proof -
  let ?i = "NewTriggerInstance ''trg_1'' ''org_1'' ''user_1'' ''conn_1'' ''new_contact'' [] 0"
  have f: "TI_WatermarkAt ?i = None" by (simp add: NewTriggerInstance_def)
  then have "TI_WatermarkAt ?i = None \<or> TI_SeenIDs ?i = []" by simp
  from conjunct1 [OF watermark_is_full_history [OF this, of "[\<lparr>TPR_ID = ''a'', TPR_Timestamp = 1, TPR_Payload = []\<rparr>]" 5
      "[([\<lparr>TPR_ID = ''b'', TPR_Timestamp = 1, TPR_Payload = []\<rparr>, \<lparr>TPR_ID = ''a'', TPR_Timestamp = 1, TPR_Payload = []\<rparr>], 6)]"]]
  show ?thesis
    by (simp only: f) (simp add: latestTimestamp_def remember_def fires_fresh_def sortedByTimestamp_def oldest_first_by_def record_key_def)
qed

end
