(* ===== verification/TriggerMemory.thy ===== *)
theory TriggerMemory
  imports TriggerPoll Execution Logging Delivery
begin

text \<open>
  The in-memory adapter of the triggers ports (\<open>driven/memory/repository.go\<close>), the adapters of
  \<open>internal/app/recorders.go\<close> that connect triggers to execution, delivery, logging, connections and the
  catalog, and a world in which the facade runs.
\<close>

section \<open>The repository\<close>

record trg_store =
  ts_byID :: "(TriggerInstanceID, TriggerInstance) table"
  ts_leaseUntil :: "(TriggerInstanceID, time) table"

definition trg_NewRepository :: trg_store where
  "trg_NewRepository = \<lparr>ts_byID = [], ts_leaseUntil = []\<rparr>"

definition trg_mem_Save :: "TriggerInstance \<Rightarrow> (trg_store, unit) act" where
  "trg_mem_Save inst r =
     (Inr (), r\<lparr>ts_byID := put (TI_ID inst) inst (ts_byID r), ts_leaseUntil := del (TI_ID inst) (ts_leaseUntil r)\<rparr>)"

definition ti_key :: "TriggerInstance \<Rightarrow> time_id" where
  "ti_key t = (TI_CreatedAt t, TI_ID t)"

definition sortInstancesOldestFirst :: "TriggerInstance list \<Rightarrow> TriggerInstance list" where
  "sortInstancesOldestFirst items = oldest_first_by ti_key items"

definition sortInstancesNewestFirst :: "TriggerInstance list \<Rightarrow> TriggerInstance list" where
  "sortInstancesNewestFirst items = newest_first ti_key items"

definition isDueForPoll :: "trg_store \<Rightarrow> TriggerInstance \<Rightarrow> time \<Rightarrow> bool" where
  "isDueForPoll r inst now =
     (case TI_NextPollAt inst of
        None \<Rightarrow> False
      | Some next \<Rightarrow>
          if TI_Status inst \<noteq> TrigStatusActive then False
          else if next > now then False
          else (case map_of (ts_leaseUntil r) (TI_ID inst) of None \<Rightarrow> True | Some leased \<Rightarrow> leased < now))"

definition trg_mem_ClaimDuePolls :: "time \<Rightarrow> duration \<Rightarrow> int \<Rightarrow> (trg_store, TriggerInstance list) act" where
  "trg_mem_ClaimDuePolls now leaseTTL limit r =
     (let ds = sortInstancesOldestFirst (filter (\<lambda>t. isDueForPoll r t now) (rows (ts_byID r)));
          due = (if limit > 0 \<and> int (length ds) > limit then take (nat limit) ds else ds)
      in (Inr due, r\<lparr>ts_leaseUntil := foldl (\<lambda>t inst. put (TI_ID inst) (now + leaseTTL) t) (ts_leaseUntil r) due\<rparr>))"

definition trg_mem_ListByTriggerSlug :: "string \<Rightarrow> (trg_store, TriggerInstance list) act" where
  "trg_mem_ListByTriggerSlug triggerSlug r =
     (Inr (sortInstancesOldestFirst (filter (\<lambda>t. TI_TriggerSlug t = triggerSlug) (rows (ts_byID r)))), r)"

definition trg_mem_FindByID :: "OrgID \<Rightarrow> TriggerInstanceID \<Rightarrow> (trg_store, TriggerInstance option) act" where
  "trg_mem_FindByID org i r =
     (Inr (case map_of (ts_byID r) i of
             None \<Rightarrow> None
           | Some inst \<Rightarrow> if TI_OrgID inst \<noteq> org then None else Some inst), r)"

definition trg_isAfterCursor :: "TriggerInstance \<Rightarrow> TrigListCursor \<Rightarrow> bool" where
  "trg_isAfterCursor inst cursor =
     (if TI_CreatedAt inst < fst cursor then True
      else if TI_CreatedAt inst = fst cursor then TI_ID inst < snd cursor
      else False)"

definition trg_matchesListFilter :: "TriggerInstance \<Rightarrow> OrgID \<Rightarrow> TrigListFilter \<Rightarrow> bool" where
  "trg_matchesListFilter inst org flt =
     (if TI_OrgID inst \<noteq> org then False
      else if TLF_ConnectionID flt \<noteq> [] \<and> TI_ConnectionID inst \<noteq> TLF_ConnectionID flt then False
      else if TLF_UserID flt \<noteq> [] \<and> TI_UserID inst \<noteq> TLF_UserID flt then False
      else (case TLF_Cursor flt of None \<Rightarrow> True | Some cursor \<Rightarrow> trg_isAfterCursor inst cursor))"

definition trg_mem_ListPage :: "OrgID \<Rightarrow> TrigListFilter \<Rightarrow> (trg_store, TriggerInstance list) act" where
  "trg_mem_ListPage org flt r =
     (let ms = sortInstancesNewestFirst (filter (\<lambda>t. trg_matchesListFilter t org flt) (rows (ts_byID r)))
      in (Inr (if TLF_Limit flt > 0 \<and> int (length ms) > TLF_Limit flt then take (nat (TLF_Limit flt)) ms else ms), r))"

definition trg_mem_Delete :: "OrgID \<Rightarrow> TriggerInstanceID \<Rightarrow> (trg_store, unit) act" where
  "trg_mem_Delete org i r =
     (case map_of (ts_byID r) i of
        None \<Rightarrow> (Inr (), r)
      | Some inst \<Rightarrow>
          if TI_OrgID inst = org then (Inr (), r\<lparr>ts_byID := del i (ts_byID r), ts_leaseUntil := del i (ts_leaseUntil r)\<rparr>)
          else (Inr (), r))"

definition trg_mem_DeleteByConnection :: "OrgID \<Rightarrow> ConnectionID \<Rightarrow> (trg_store, unit) act" where
  "trg_mem_DeleteByConnection org connID r =
     (let bound = (\<lambda>t. TI_OrgID t = org \<and> TI_ConnectionID t = connID);
          gone = map fst (filter (\<lambda>p. bound (snd p)) (ts_byID r))
      in (Inr (), r\<lparr>ts_byID := filter (\<lambda>p. fst p \<notin> set gone) (ts_byID r),
                    ts_leaseUntil := filter (\<lambda>p. fst p \<notin> set gone) (ts_leaseUntil r)\<rparr>))"

section \<open>Adapters (recorders.go)\<close>

definition triggersLogRecorder :: "'s log_facade \<Rightarrow> TrigLogEntry \<Rightarrow> ('s, unit) act" where
  "triggersLogRecorder logs entry =
     log_Record logs
       \<lparr>RI_OrgID = TLE_OrgID entry, RI_UserID = [], RI_ConnectionID = TLE_ConnectionID entry, RI_ToolID = [],
        RI_ToolSlug = TLE_TriggerSlug entry, RI_Kind = KindTriggerPoll, RI_Status = 0, RI_DurationMs = 0, RI_RequestBody = [],
        RI_ResponseBody = TLE_Error entry, RI_RateLimited = False, RI_EventID = [], RI_Attempt = 0,
        RI_TriggerInstanceID = TLE_TriggerInstanceID entry\<rparr>"

definition executionRecordSource :: "'s exec_facade \<Rightarrow> PollRecordQuery \<Rightarrow> ('s, TrigPollRecord list) act" where
  "executionRecordSource x query =
     attempt (exec_FetchTriggerRecords x
         \<lparr>PQ_OrgID = PRQ_OrgID query, PQ_UserID = PRQ_UserID query, PQ_ConnectionID = PRQ_ConnectionID query,
          PQ_TriggerSlug = PRQ_TriggerSlug query, PQ_Config = PRQ_Config query, PQ_Watermark = PRQ_Watermark query\<rparr>) (\<lambda>records.
     ok (map (\<lambda>r. \<lparr>TPR_ID = PR_ID r, TPR_Timestamp = PR_Timestamp r, TPR_Payload = PR_Payload r\<rparr>) records))"

definition triggersEventSink :: "'s dlv_facade \<Rightarrow> OrgID \<Rightarrow> string \<Rightarrow> any \<Rightarrow> ('s, unit) act" where
  "triggersEventSink d org eventType data =
     attempt (dlv_Enqueue d org eventType (Some (any_json data))) (\<lambda>_. ok ())"

definition triggersDependents :: "'s trg_facade \<Rightarrow> OrgID \<Rightarrow> ConnectionID \<Rightarrow> ('s, unit) act" where
  "triggersDependents t org connID = trg_DeleteByConnection t org connID"

definition catalogTriggerInstancePauser :: "'s trg_facade \<Rightarrow> string \<Rightarrow> ('s, unit) act" where
  "catalogTriggerInstancePauser t triggerSlug = PauseInstancesForRemovedTrigger t triggerSlug"

section \<open>The world\<close>

text \<open>
  \<open>tw_conn\<close> is the state behind the connections port; \<open>tw_fetches\<close>, \<open>tw_events\<close> and \<open>tw_log\<close> are what
  happened: polls of providers, events enqueued, failures logged. A provider's answer to the \<open>n\<close>-th poll and
  the outbox's to the \<open>n\<close>-th event may be anything.
\<close>

record 'c trg_world =
  tw_conn :: 'c
  tw_store :: trg_store
  tw_now :: time
  tw_ids :: nat
  tw_fetches :: "PollRecordQuery list"
  tw_events :: "(OrgID \<times> string \<times> any) list"
  tw_log :: "TrigLogEntry list"

record 'c trg_env =
  te_definition :: "string \<Rightarrow> go_error + TriggerDefinitionSummary"
  te_connection :: "OrgID \<Rightarrow> ConnectionID \<Rightarrow> 'c \<Rightarrow> go_error + Connection"
  te_fetch :: "nat \<Rightarrow> PollRecordQuery \<Rightarrow> go_error + TrigPollRecord list"
  te_refused :: "nat \<Rightarrow> go_error option"
  te_schema :: "any_map \<Rightarrow> any_map \<Rightarrow> string option"
  te_minInterval :: duration

abbreviation on_trg :: "(trg_store, 'a) act \<Rightarrow> ('c trg_world, 'a) act" where
  "on_trg \<equiv> zoom tw_store tw_store_update"

definition trg_F :: "'c trg_env \<Rightarrow> 'c trg_world trg_facade" where
  "trg_F env =
     \<lparr>trg_repo_Save = (\<lambda>t. on_trg (trg_mem_Save t)),
      trg_repo_FindByID = (\<lambda>org i. on_trg (trg_mem_FindByID org i)),
      trg_repo_ListPage = (\<lambda>org flt. on_trg (trg_mem_ListPage org flt)),
      trg_repo_Delete = (\<lambda>org i. on_trg (trg_mem_Delete org i)),
      trg_repo_DeleteByConnection = (\<lambda>org i. on_trg (trg_mem_DeleteByConnection org i)),
      trg_TriggerDefinitionDetail = (\<lambda>slug. lift (te_definition env slug)),
      trg_connections_Get = (\<lambda>org i w. (te_connection env org i (tw_conn w), w)),
      trg_newID = zoom tw_ids tw_ids_update (\<lambda>n. (sequential_id ''trg_'' n, Suc n)),
      trg_now = (\<lambda>w. (tw_now w, w)),
      trg_ClaimDuePolls = (\<lambda>now ttl limit. on_trg (trg_mem_ClaimDuePolls now ttl limit)),
      trg_FetchRecords = (\<lambda>q w. (te_fetch env (length (tw_fetches w)) q, w\<lparr>tw_fetches := tw_fetches w @ [q]\<rparr>)),
      trg_events_Enqueue = (\<lambda>org t data w.
        case te_refused env (length (tw_events w)) of
          Some err \<Rightarrow> (Inl err, w)
        | None \<Rightarrow> (Inr (), w\<lparr>tw_events := tw_events w @ [(org, t, data)]\<rparr>)),
      trg_recorder = Some (\<lambda>e w. (Inr (), w\<lparr>tw_log := tw_log w @ [e]\<rparr>)),
      trg_pollMinInterval = (if te_minInterval env > 0 then te_minInterval env else defaultPollMinInterval),
      trg_metrics = None,
      trg_ListByTriggerSlug = Some (\<lambda>slug. on_trg (trg_mem_ListByTriggerSlug slug)),
      trg_schema_lib = te_schema env\<rparr>"

lemma trg_F_sel [simp]:
  "trg_repo_Save (trg_F env) t = on_trg (trg_mem_Save t)"
  "trg_repo_FindByID (trg_F env) org i = on_trg (trg_mem_FindByID org i)"
  "trg_repo_ListPage (trg_F env) org flt = on_trg (trg_mem_ListPage org flt)"
  "trg_repo_Delete (trg_F env) org i = on_trg (trg_mem_Delete org i)"
  "trg_repo_DeleteByConnection (trg_F env) org i = on_trg (trg_mem_DeleteByConnection org i)"
  "trg_TriggerDefinitionDetail (trg_F env) slug = lift (te_definition env slug)"
  "trg_connections_Get (trg_F env) org i w = (te_connection env org i (tw_conn w), w)"
  "trg_newID (trg_F env) w = (sequential_id ''trg_'' (tw_ids w), w\<lparr>tw_ids := Suc (tw_ids w)\<rparr>)"
  "trg_now (trg_F env) w = (tw_now w, w)"
  "trg_ClaimDuePolls (trg_F env) now ttl limit = on_trg (trg_mem_ClaimDuePolls now ttl limit)"
  "trg_FetchRecords (trg_F env) q w = (te_fetch env (length (tw_fetches w)) q, w\<lparr>tw_fetches := tw_fetches w @ [q]\<rparr>)"
  "trg_events_Enqueue (trg_F env) org ty data w = (case te_refused env (length (tw_events w)) of
          Some err \<Rightarrow> (Inl err, w) | None \<Rightarrow> (Inr (), w\<lparr>tw_events := tw_events w @ [(org, ty, data)]\<rparr>))"
  "trg_recorder (trg_F env) = Some (\<lambda>e w. (Inr (), w\<lparr>tw_log := tw_log w @ [e]\<rparr>))"
  "trg_pollMinInterval (trg_F env) = (if te_minInterval env > 0 then te_minInterval env else defaultPollMinInterval)"
  "trg_metrics (trg_F env) = None"
  "trg_ListByTriggerSlug (trg_F env) = Some (\<lambda>slug. on_trg (trg_mem_ListByTriggerSlug slug))"
  "trg_schema_lib (trg_F env) = te_schema env"
  by (simp_all add: trg_F_def zoom_apply)

end
