(* ===== verification/TriggerLife.thy ===== *)
theory TriggerLife
  imports TriggerMemory
begin

text \<open>
  The triggers facade over the in-memory repository: what a poll does, which operations keep an instance
  inactive, which records the gap of a pause swallows, and how the failure of one poll leaves the others alone.
  A run here is a sequence of whole operations; \<open>TriggerRace\<close> takes the passes of the poller apart.
\<close>

section \<open>Views\<close>

abbreviation inst_of :: "'c trg_world \<Rightarrow> TriggerInstanceID \<Rightarrow> TriggerInstance option" where
  "inst_of w \<equiv> map_of (ts_byID (tw_store w))"

definition trg_inv :: "'c trg_world \<Rightarrow> bool" where
  "trg_inv w \<longleftrightarrow> keyed TI_ID (ts_byID (tw_store w)) \<and> (\<forall>i. inst_of w i \<noteq> None \<longrightarrow> minted ''trg_'' (tw_ids w) i)"

definition trigger_event :: "TriggerInstance \<Rightarrow> TrigPollRecord \<Rightarrow> OrgID \<times> string \<times> any" where
  "trigger_event inst r = (TI_OrgID inst, trg_EventTypeTriggerEvent, trigger_event_data inst r)"

text \<open>Which instance an event in the outbox names.\<close>

definition event_of :: "TriggerInstanceID \<Rightarrow> OrgID \<times> string \<times> any \<Rightarrow> bool" where
  "event_of i e \<longleftrightarrow>
     (case snd (snd e) of AMap kvs \<Rightarrow> map_of kvs ''triggerInstanceId'' = Some (AStr i) | _ \<Rightarrow> False)"

lemma event_of_trigger [simp]: "event_of i (trigger_event inst r) \<longleftrightarrow> TI_ID inst = i"
  by (simp add: event_of_def trigger_event_def trigger_event_data_def)

lemma inst_id: "trg_inv w \<Longrightarrow> inst_of w i = Some t \<Longrightarrow> TI_ID t = i"
  by (auto simp: trg_inv_def dest: keyed_lookup)

lemma inst_row: "trg_inv w \<Longrightarrow> t \<in> set (rows (ts_byID (tw_store w))) \<Longrightarrow> inst_of w (TI_ID t) = Some t"
  using iffD1 [OF rows_lookup [of TI_ID "ts_byID (tw_store w)" t]] by (simp add: trg_inv_def)

section \<open>One poll\<close>

lemma Save_run: "on_trg (trg_mem_Save t) w = (Inr (), w\<lparr>tw_store := snd (trg_mem_Save t (tw_store w))\<rparr>)"
  by (simp add: zoom_apply trg_mem_Save_def)

lemma emit_run:
  "\<exists>k \<le> length rs. emitFiredEvents (trg_F env) inst rs w =
     (if k = length rs then Inr () else Inl (the (te_refused env (length (tw_events w) + k))),
      w\<lparr>tw_events := tw_events w @ map (trigger_event inst) (take k rs)\<rparr>)
     \<and> (k < length rs \<longrightarrow> te_refused env (length (tw_events w) + k) \<noteq> None)"
proof (induction rs arbitrary: w)
  case (Cons r rs)
  let ?w1 = "w\<lparr>tw_events := tw_events w @ [trigger_event inst r]\<rparr>"
  show ?case
  proof (cases "te_refused env (length (tw_events w))")
    case (Some e)
    then show ?thesis by (intro exI [of _ 0]) (simp add: attempt_apply)
  next
    case None
    obtain k where k: "k \<le> length rs" "emitFiredEvents (trg_F env) inst rs ?w1 =
        (if k = length rs then Inr () else Inl (the (te_refused env (length (tw_events ?w1) + k))),
         ?w1\<lparr>tw_events := tw_events ?w1 @ map (trigger_event inst) (take k rs)\<rparr>)"
      "k < length rs \<longrightarrow> te_refused env (length (tw_events ?w1) + k) \<noteq> None"
      using Cons.IH [of ?w1] by blast
    have "emitFiredEvents (trg_F env) inst (r # rs) w = emitFiredEvents (trg_F env) inst rs ?w1"
      using None by (simp add: attempt_apply call_apply recordEventEmitted_def trigger_event_def)
    then show ?thesis using k by (intro exI [of _ "Suc k"]) simp
  qed
qed simp

definition poll_interval :: "'c trg_env \<Rightarrow> TriggerInstance \<Rightarrow> duration" where
  "poll_interval env inst =
     (let least = (if te_minInterval env > 0 then te_minInterval env else defaultPollMinInterval) in
      case te_definition env (TI_TriggerSlug inst) of
        Inl _ \<Rightarrow> least
      | Inr defn \<Rightarrow> max least (dur_mul (TDS_PollIntervalSeconds defn) second))"

lemma interval_run: "resolveInstancePollInterval (trg_F env) inst w = (poll_interval env inst, w)"
  by (auto simp: resolveInstancePollInterval_def poll_interval_def Let_def split: sum.split)

definition fetch_query :: "TriggerInstance \<Rightarrow> PollRecordQuery" where
  "fetch_query inst =
     \<lparr>PRQ_OrgID = TI_OrgID inst, PRQ_UserID = TI_UserID inst, PRQ_ConnectionID = TI_ConnectionID inst,
      PRQ_TriggerSlug = TI_TriggerSlug inst, PRQ_Config = TI_Config inst,
      PRQ_Watermark = (case TI_WatermarkAt inst of None \<Rightarrow> zero_time | Some t \<Rightarrow> t)\<rparr>"

text \<open>
  A poll stores one row, that of its instance, rescheduled: as it was after a failure, paused, resumed, or
  advanced over the records it fired; only if the outbox refuses an event does it store nothing.
\<close>

lemma pollOne_cases:
  assumes "pollOne (trg_F env) inst now w = (r, w')"
  obtains (failed) e v where "r = Inr ()" "tw_log w' = tw_log w @ [e]" "TLE_TriggerInstanceID e = TI_ID inst"
      "tw_events w' = tw_events w" "tw_ids w' = tw_ids w" "tw_now w' = tw_now w" "tw_conn w' = tw_conn w"
      "tw_store w' = snd (trg_mem_Save (reschedule inst now (poll_interval env inst)) (tw_store w))"
      "isl (te_connection env (TI_OrgID inst) (TI_ConnectionID inst) (tw_conn w))
       \<or> te_fetch env (length (tw_fetches w)) (fetch_query inst) = Inl v"
  | (paused) c where "r = Inr ()" "te_connection env (TI_OrgID inst) (TI_ConnectionID inst) (tw_conn w) = Inr c" "Conn_Status c \<noteq> StatusActive"
      "w' = w\<lparr>tw_store := snd (trg_mem_Save (reschedule (TI_Pause inst now) now (poll_interval env inst)) (tw_store w))\<rparr>"
  | (resumed) c where "r = Inr ()" "te_connection env (TI_OrgID inst) (TI_ConnectionID inst) (tw_conn w) = Inr c" "Conn_Status c = StatusActive"
      "TI_PausedAt inst \<noteq> None"
      "w' = w\<lparr>tw_store := snd (trg_mem_Save (reschedule (TI_Resume inst now) now (poll_interval env inst)) (tw_store w))\<rparr>"
  | (polled) c records where "r = Inr ()" "te_connection env (TI_OrgID inst) (TI_ConnectionID inst) (tw_conn w) = Inr c" "Conn_Status c = StatusActive"
      "te_fetch env (length (tw_fetches w)) (fetch_query inst) = Inr records"
      "w' = w\<lparr>tw_fetches := tw_fetches w @ [fetch_query inst],
        tw_events := tw_events w @ map (trigger_event inst) (PO_ToFire (ApplyWatermark inst records now)),
        tw_store := snd (trg_mem_Save (reschedule (PO_Instance (ApplyWatermark inst records now)) now (poll_interval env inst)) (tw_store w))\<rparr>"
  | (refused) c records k where "isl r" "te_connection env (TI_OrgID inst) (TI_ConnectionID inst) (tw_conn w) = Inr c" "Conn_Status c = StatusActive"
      "te_fetch env (length (tw_fetches w)) (fetch_query inst) = Inr records" "\<exists>n. te_refused env n \<noteq> None"
      "w' = w\<lparr>tw_fetches := tw_fetches w @ [fetch_query inst],
        tw_events := tw_events w @ map (trigger_event inst) (take k (PO_ToFire (ApplyWatermark inst records now)))\<rparr>"
proof (cases "te_connection env (TI_OrgID inst) (TI_ConnectionID inst) (tw_conn w)")
  case (Inl e)
  then show ?thesis
    using assms by (intro failed [where v = e]) (auto simp: pollOne_def call_apply catching_apply interval_run reschedulePollFailure_def
      logPollFailure_def discard_apply attempt_apply Save_run)
next
  case (Inr c)
  show ?thesis
  proof (cases "Conn_Status c \<noteq> StatusActive \<or> TI_PausedAt inst \<noteq> None")
    case True
    then show ?thesis using assms Inr paused [OF _ Inr] resumed [OF _ Inr]
      by (auto simp: pollOne_def call_apply catching_apply interval_run Save_run split: if_splits)
  next
    case False
    let ?w1 = "w\<lparr>tw_fetches := tw_fetches w @ [fetch_query inst]\<rparr>"
    have run: "(r, w') = pollActive (trg_F env) inst now (poll_interval env inst) w"
      using assms Inr False by (simp add: pollOne_def call_apply catching_apply interval_run)
    show ?thesis
    proof (cases "te_fetch env (length (tw_fetches w)) (fetch_query inst)")
      case (Inl e)
      then show ?thesis
        using run by (intro failed [where v = e]) (auto simp: pollActive_def fetch_query_def catching_apply reschedulePollFailure_def
          logPollFailure_def discard_apply attempt_apply Save_run)
    next
      case recs: (Inr records)
      define oc where "oc = ApplyWatermark inst records now"
      have same: "trigger_event (PO_Instance oc) = trigger_event inst"
        by (auto simp: oc_def ApplyWatermark_def baselinePoll_def advancePoll_def Let_def trigger_event_def trigger_event_data_def
          fun_eq_iff split: option.split)
      obtain k where k: "k \<le> length (PO_ToFire oc)" "emitFiredEvents (trg_F env) (PO_Instance oc) (PO_ToFire oc) ?w1 =
        (if k = length (PO_ToFire oc) then Inr () else Inl (the (te_refused env (length (tw_events ?w1) + k))),
         ?w1\<lparr>tw_events := tw_events ?w1 @ map (trigger_event (PO_Instance oc)) (take k (PO_ToFire oc))\<rparr>)"
        "k < length (PO_ToFire oc) \<longrightarrow> te_refused env (length (tw_events ?w1) + k) \<noteq> None"
        using emit_run [of "PO_ToFire oc" env "PO_Instance oc" ?w1] by blast
      have run': "(r, w') = attempt (emitFiredEvents (trg_F env) (PO_Instance oc) (PO_ToFire oc)) (\<lambda>_.
          on_trg (trg_mem_Save (reschedule (PO_Instance oc) now (poll_interval env inst)))) ?w1"
        using run recs by (simp add: pollActive_def fetch_query_def catching_apply oc_def Let_def)
      show ?thesis
      proof (cases "k = length (PO_ToFire oc)")
        case True
        then show ?thesis using run' k(2) Inr False recs same
          by (intro polled [of c records]) (simp_all add: attempt_apply Save_run oc_def)
      next
        case False
        then show ?thesis using run' k Inr \<open>\<not> (Conn_Status c \<noteq> StatusActive \<or> TI_PausedAt inst \<noteq> None)\<close> recs same
          by (intro refused [of c records k]) (auto simp: attempt_apply oc_def)
      qed
    qed
  qed
qed

lemma Save_store [simp]:
  "ts_byID (snd (trg_mem_Save t s)) = put (TI_ID t) t (ts_byID s)"
  "ts_leaseUntil (snd (trg_mem_Save t s)) = del (TI_ID t) (ts_leaseUntil s)"
  by (simp_all add: trg_mem_Save_def)

lemma row_simps [simp]:
  "TI_ID (reschedule t now d) = TI_ID t" "TI_Status (reschedule t now d) = TI_Status t"
  "TI_WatermarkAt (reschedule t now d) = TI_WatermarkAt t" "TI_NextPollAt (reschedule t now d) = Some (now + d)"
  "TI_ID (TI_Pause t now) = TI_ID t" "TI_Status (TI_Pause t now) = TI_Status t" "TI_WatermarkAt (TI_Pause t now) = TI_WatermarkAt t"
  "TI_ID (TI_Resume t now) = TI_ID t" "TI_Status (TI_Resume t now) = TI_Status t" "TI_WatermarkAt (TI_Resume t now) = Some now"
  "TI_ID (TI_Disable t) = TI_ID t" "TI_Status (TI_Disable t) = TrigStatusDisabled" "TI_WatermarkAt (TI_Disable t) = TI_WatermarkAt t"
  "TI_ID (TI_Enable t now) = TI_ID t" "TI_Status (TI_Enable t now) = TrigStatusActive" "TI_WatermarkAt (TI_Enable t now) = Some now"
  "TI_ID (TI_PauseForRemovedTrigger t) = TI_ID t" "TI_WatermarkAt (TI_PauseForRemovedTrigger t) = TI_WatermarkAt t"
  "TI_Status (TI_PauseForRemovedTrigger t) = TrigStatusPausedTriggerRemoved"
  by (simp_all add: reschedule_def TI_Pause_def TI_Resume_def TI_Disable_def TI_Enable_def TI_PauseForRemovedTrigger_def)

lemma applied_simps [simp]:
  "TI_ID (PO_Instance (ApplyWatermark t rs now)) = TI_ID t" "TI_Status (PO_Instance (ApplyWatermark t rs now)) = TI_Status t"
  by (auto simp: ApplyWatermark_def baselinePoll_def advancePoll_def Let_def split: option.split prod.split)

lemma applied_watermark:
  assumes "TI_WatermarkAt t = Some m"
  shows "\<exists>m'. TI_WatermarkAt (PO_Instance (ApplyWatermark t rs now)) = Some m' \<and> m \<le> m'"
    and "r \<in> set (PO_ToFire (ApplyWatermark t rs now)) \<Longrightarrow> r \<in> set rs \<and> m \<le> TPR_Timestamp r"
  using assms by (auto simp: ApplyWatermark_def advancePoll_def Let_def sortedByTimestamp_def split: option.split)

section \<open>What operations keep\<close>

text \<open>
  An operation keeps the guard \<open>G\<close> on the row of \<open>i\<close> (if there is still one), and the events it sends for
  \<open>i\<close> are as \<open>E\<close> says.
\<close>

definition guarded :: "(TriggerInstance \<Rightarrow> bool) \<Rightarrow> TriggerInstanceID \<Rightarrow> time \<Rightarrow> 'c trg_world \<Rightarrow> bool" where
  "guarded G i t w \<longleftrightarrow>
     trg_inv w \<and> (minted ''trg_'' (tw_ids w) i \<or> (\<forall>x. G x)) \<and> t \<le> tw_now w \<and> (\<forall>x. inst_of w i = Some x \<longrightarrow> G x)"

definition keeps_guard ::
  "(TriggerInstance \<Rightarrow> bool) \<Rightarrow> (OrgID \<times> string \<times> any \<Rightarrow> bool) \<Rightarrow> TriggerInstanceID \<Rightarrow> time \<Rightarrow> 'c trg_world \<Rightarrow> 'c trg_world \<Rightarrow> bool" where
  "keeps_guard G E i t w w' \<longleftrightarrow>
     (guarded G i t w \<longrightarrow> guarded G i t w'
        \<and> (\<exists>es. tw_events w' = tw_events w @ es \<and> (\<forall>e \<in> set es. event_of i e \<longrightarrow> E e)))"

lemma keeps_guard_refl: "keeps_guard G E i t w w"
  by (simp add: keeps_guard_def)

lemma keeps_guard_trans:
  assumes "keeps_guard G E i t u v" and "keeps_guard G E i t v w"
  shows "keeps_guard G E i t u w"
  unfolding keeps_guard_def
proof
  assume "guarded G i t u"
  with assms(1) obtain es where v: "guarded G i t v" "tw_events v = tw_events u @ es" "\<forall>e \<in> set es. event_of i e \<longrightarrow> E e"
    unfolding keeps_guard_def by blast
  with assms(2) obtain es' where "guarded G i t w" "tw_events w = tw_events v @ es'" "\<forall>e \<in> set es'. event_of i e \<longrightarrow> E e"
    unfolding keeps_guard_def by blast
  with v show "guarded G i t w \<and> (\<exists>es. tw_events w = tw_events u @ es \<and> (\<forall>e \<in> set es. event_of i e \<longrightarrow> E e))"
    by (intro conjI exI [of _ "es @ es'"]) auto
qed

lemma keeps_guardI: "(guarded G i t w \<Longrightarrow> keeps_guard G E i t w w') \<Longrightarrow> keeps_guard G E i t w w'"
  by (simp add: keeps_guard_def)

text \<open>Storing one row.\<close>

lemma store_row:
  assumes "ts_byID (tw_store w') = put (TI_ID x) x (ts_byID (tw_store w))"
    and "tw_ids w \<le> tw_ids w'" and "tw_now w' = tw_now w" and "tw_events w' = tw_events w @ es"
    and "minted ''trg_'' (tw_ids w') (TI_ID x)" and "TI_ID x = i \<Longrightarrow> G x" and "\<forall>e \<in> set es. event_of i e \<longrightarrow> E e"
  shows "keeps_guard G E i t w w'"
proof -
  have m: "minted ''trg_'' (tw_ids w) j \<Longrightarrow> minted ''trg_'' (tw_ids w') j" for j
    using assms(2) by (auto simp: minted_def)
  show ?thesis
    unfolding keeps_guard_def
  proof
    assume g: "guarded G i t w"
    have "trg_inv w'" using g assms(1,5) m by (auto simp: guarded_def trg_inv_def keyed_put)
    then have "guarded G i t w'" using g assms(1,3,6) m by (auto simp: guarded_def)
    then show "guarded G i t w' \<and> (\<exists>es. tw_events w' = tw_events w @ es \<and> (\<forall>e \<in> set es. event_of i e \<longrightarrow> E e))"
      using assms(4,7) by blast
  qed
qed

text \<open>Dropping rows, and steps that change no row.\<close>

lemma drop_rows:
  assumes "ts_byID (tw_store w') = filter P (ts_byID (tw_store w))" and "tw_ids w' = tw_ids w" and "tw_now w \<le> tw_now w'"
    and "tw_events w' = tw_events w"
  shows "keeps_guard G E i t w w'"
proof (rule keeps_guardI)
  assume g: "guarded G i t w"
  then have k: "keyed TI_ID (ts_byID (tw_store w))" and inv: "trg_inv w" by (simp_all add: guarded_def trg_inv_def)
  have old: "inst_of w j = Some x" if "inst_of w' j = Some x" for j x
  proof -
    from map_of_SomeD [OF that] have "(j, x) \<in> set (ts_byID (tw_store w))" by (simp add: assms(1))
    then show ?thesis using k by (simp add: keyed_def)
  qed
  have "keyed TI_ID (ts_byID (tw_store w'))" using k by (simp add: assms(1) keyed_filter)
  moreover have "minted ''trg_'' (tw_ids w') j" if "inst_of w' j \<noteq> None" for j
    using that old inv by (force simp: trg_inv_def assms(2))
  ultimately have "trg_inv w'" by (simp add: trg_inv_def)
  moreover have "\<forall>x. inst_of w' i = Some x \<longrightarrow> G x" using g old by (simp add: guarded_def)
  ultimately have "guarded G i t w'" using g assms(2,3) by (simp add: guarded_def)
  then show "keeps_guard G E i t w w'" by (simp add: keeps_guard_def assms(4))
qed

section \<open>A pass of the poller\<close>

definition current_insts :: "'c trg_world \<Rightarrow> TriggerInstance list \<Rightarrow> bool" where
  "current_insts w ts \<longleftrightarrow> distinct (map TI_ID ts) \<and> (\<forall>x \<in> set ts. inst_of w (TI_ID x) = Some x)"

lemma pollOne_others:
  assumes "pollOne (trg_F env) inst now w = (r, w')" and "j \<noteq> TI_ID inst"
  shows "inst_of w' j = inst_of w j"
  using assms(1) by (cases rule: pollOne_cases) (use assms(2) in simp_all)

lemma poll_all_keeps:
  assumes one: "\<And>x w. x \<in> set ts \<Longrightarrow> inst_of w (TI_ID x) = Some x \<Longrightarrow> keeps_guard G E i t w (snd (pollOne (trg_F env) x now w))"
  shows "current_insts w ts \<Longrightarrow> keeps_guard G E i t w (snd (poll_all (trg_F env) ts now w))"
  using one
proof (induction ts arbitrary: w)
  case Nil
  then show ?case by (simp add: poll_all_def keeps_guard_refl)
next
  case (Cons x ts)
  obtain r w1 where run: "pollOne (trg_F env) x now w = (r, w1)" by fastforce
  have x: "inst_of w (TI_ID x) = Some x" using Cons.prems(1) by (simp add: current_insts_def)
  have k: "keeps_guard G E i t w w1" using Cons.prems(2) [of x w] x run by simp
  have "current_insts w1 ts"
    using Cons.prems(1) pollOne_others [OF run] by (auto simp: current_insts_def image_iff)
  then have "keeps_guard G E i t w1 (snd (poll_all (trg_F env) ts now w1))"
    using Cons.IH Cons.prems(2) by simp
  from keeps_guard_trans [OF k this] k run show ?case
    by (simp add: poll_all_def attempt_apply split: sum.split)
qed

definition claimed_now :: "'c trg_world \<Rightarrow> TriggerInstance list" where
  "claimed_now w =
     (let ds = sortInstancesOldestFirst (filter (\<lambda>x. isDueForPoll (tw_store w) x (tw_now w)) (rows (ts_byID (tw_store w))))
      in if int (length ds) > pollClaimBatchLimit then take (nat pollClaimBatchLimit) ds else ds)"

definition leased :: "'c trg_world \<Rightarrow> 'c trg_world" where
  "leased w = w\<lparr>tw_store := (tw_store w)\<lparr>ts_leaseUntil :=
     foldl (\<lambda>t x. put (TI_ID x) (tw_now w + pollLeaseTTL) t) (ts_leaseUntil (tw_store w)) (claimed_now w)\<rparr>\<rparr>"

lemma claim_polls_run:
  "on_trg (trg_mem_ClaimDuePolls (tw_now w) pollLeaseTTL pollClaimBatchLimit) w = (Inr (claimed_now w), leased w)"
  by (simp add: zoom_apply trg_mem_ClaimDuePolls_def Let_def claimed_now_def leased_def pollClaimBatchLimit_def)

lemma PollOnce_run: "PollOnce (trg_F env) w = poll_all (trg_F env) (claimed_now w) (tw_now w) (leased w)"
  by (auto simp: PollOnce_def call_apply catching_apply claim_polls_run recordPollRun_def split: prod.split sum.split)

lemma claimed_due: "x \<in> set (claimed_now w) \<Longrightarrow> x \<in> set (rows (ts_byID (tw_store w))) \<and> isDueForPoll (tw_store w) x (tw_now w)"
  by (auto simp: claimed_now_def Let_def sortInstancesOldestFirst_def split: if_splits dest: in_set_takeD)

lemma claimed_active: "x \<in> set (claimed_now w) \<Longrightarrow> TI_Status x = TrigStatusActive"
  using claimed_due [of x w] by (auto simp: isDueForPoll_def split: option.splits if_splits)

lemma claimed_current:
  assumes "trg_inv w"
  shows "current_insts (leased w) (claimed_now w)"
proof -
  have "distinct (map TI_ID (rows (ts_byID (tw_store w))))"
    using assms by (intro keyed_distinct_rows) (simp add: trg_inv_def)
  then have "distinct (map TI_ID (claimed_now w))"
    by (simp add: claimed_now_def Let_def sortInstancesOldestFirst_def distinct_map_filter take_map [symmetric])
  then show ?thesis
    using claimed_due inst_row [OF assms] by (auto simp: current_insts_def leased_def)
qed

lemma PollOnce_keeps:
  assumes one: "\<And>x v. x \<in> set (claimed_now w) \<Longrightarrow> guarded G i t w \<Longrightarrow> guarded G i t v \<Longrightarrow> inst_of v (TI_ID x) = Some x
    \<Longrightarrow> keeps_guard G E i t v (snd (pollOne (trg_F env) x (tw_now w) v))"
  shows "keeps_guard G E i t w (snd (PollOnce (trg_F env) w))"
proof (rule keeps_guardI)
  assume g: "guarded G i t w"
  then have inv: "trg_inv w" by (simp add: guarded_def)
  have l: "keeps_guard G E i t w (leased w)" by (auto simp: keeps_guard_def guarded_def trg_inv_def leased_def)
  have "keeps_guard G E i t v (snd (pollOne (trg_F env) x (tw_now w) v))"
    if "x \<in> set (claimed_now w)" "inst_of v (TI_ID x) = Some x" for x v
    using one [OF that(1) g _ that(2)] by (rule keeps_guardI)
  from keeps_guard_trans [OF l poll_all_keeps [OF this claimed_current [OF inv]]]
  show "keeps_guard G E i t w (snd (PollOnce (trg_F env) w))" by (simp add: PollOnce_run)
qed

section \<open>Operations and runs\<close>

text \<open>Everything that happens to triggers: the facade's operations, time, and any change behind the connections port.\<close>

datatype 'c trg_op = TCreate OrgID TrigCreateParams | TDisable OrgID TriggerInstanceID | TEnable OrgID TriggerInstanceID
  | TDelete OrgID TriggerInstanceID | TDeleteByConnection OrgID ConnectionID | TPauseRemoved string | TPoll
  | TWait nat | TConnections 'c

fun trg_step :: "'c trg_env \<Rightarrow> 'c trg_op \<Rightarrow> 'c trg_world \<Rightarrow> 'c trg_world" where
  "trg_step env (TCreate org params) w = snd (trg_Create (trg_F env) org params w)"
| "trg_step env (TDisable org i) w = snd (trg_Disable (trg_F env) org i w)"
| "trg_step env (TEnable org i) w = snd (trg_Enable (trg_F env) org i w)"
| "trg_step env (TDelete org i) w = snd (trg_Delete (trg_F env) org i w)"
| "trg_step env (TDeleteByConnection org i) w = snd (trg_DeleteByConnection (trg_F env) org i w)"
| "trg_step env (TPauseRemoved slug) w = snd (PauseInstancesForRemovedTrigger (trg_F env) slug w)"
| "trg_step env TPoll w = snd (PollOnce (trg_F env) w)"
| "trg_step env (TWait d) w = w\<lparr>tw_now := tw_now w + int d\<rparr>"
| "trg_step env (TConnections c) w = w\<lparr>tw_conn := c\<rparr>"

definition trg_run :: "'c trg_env \<Rightarrow> 'c trg_op list \<Rightarrow> 'c trg_world \<Rightarrow> 'c trg_world" where
  "trg_run env ops w = foldl (\<lambda>w op. trg_step env op w) w ops"

definition trg_start :: "'c \<Rightarrow> time \<Rightarrow> 'c trg_world" where
  "trg_start c now = \<lparr>tw_conn = c, tw_store = trg_NewRepository, tw_now = now, tw_ids = 0, tw_fetches = [], tw_events = [], tw_log = []\<rparr>"

lemma found_row:
  assumes "trg_Get (trg_F env) org i w = (r, w')"
  obtains (missing) e where "r = Inl e" "w' = w" | (found) x where "r = Inr x" "w' = w" "inst_of w i = Some x" "TI_OrgID x = org"
  using assms by (auto simp: trg_Get_def attempt_apply zoom_apply trg_mem_FindByID_def split: option.splits if_splits)

lemma Create_keeps: "keeps_guard G E i t w (snd (trg_Create (trg_F env) org p w))"
proof (rule keeps_guardI)
  assume g: "guarded G i t w"
  let ?j = "sequential_id ''trg_'' (tw_ids w)"
  obtain r w' where run: "trg_Create (trg_F env) org p w = (r, w')" by fastforce
  have "w' = w \<or> (\<exists>c :: Connection. w' = w\<lparr>tw_ids := Suc (tw_ids w), tw_store := snd (trg_mem_Save (NewTriggerInstance ?j org (Conn_UserID c) (TCP_ConnectionID p)
       (TCP_TriggerSlug p) (TCP_Config p) (tw_now w)) (tw_store w))\<rparr>)"
    using run by (simp add: trg_Create_def attempt_apply call_apply lift_apply Save_run Let_def
        split: sum.splits option.splits if_splits) blast
  then consider "w' = w" | c :: Connection where
    "w' = w\<lparr>tw_ids := Suc (tw_ids w), tw_store := snd (trg_mem_Save (NewTriggerInstance ?j org (Conn_UserID c) (TCP_ConnectionID p)
       (TCP_TriggerSlug p) (TCP_Config p) (tw_now w)) (tw_store w))\<rparr>" by blast
  then show "keeps_guard G E i t w (snd (trg_Create (trg_F env) org p w))"
  proof cases
    case 2
    have "?j \<noteq> i \<or> (\<forall>x. G x)" using g not_minted [of "''trg_''" "tw_ids w"] by (auto simp: guarded_def)
    then show ?thesis
      using 2 by (intro store_row [where x = "NewTriggerInstance ?j org (Conn_UserID c) (TCP_ConnectionID p) (TCP_TriggerSlug p)
          (TCP_Config p) (tw_now w)" and es = "[]"]) (auto simp: run NewTriggerInstance_def minted_next)
  qed (simp add: run keeps_guard_refl)
qed

lemma update_row:
  assumes "inst_of w i = Some x" and "trg_inv w" and "TI_ID y = TI_ID x" and "TI_ID y = j \<Longrightarrow> G y"
  shows "keeps_guard G E j t w (snd (on_trg (trg_mem_Save y) w))"
proof (rule store_row [where es = "[]"])
  have "TI_ID x = i" using assms(1,2) by (rule inst_id [rotated])
  then show "minted ''trg_'' (tw_ids (snd (on_trg (trg_mem_Save y) w))) (TI_ID y)"
    using assms(1-3) by (auto simp: trg_inv_def Save_run)
qed (use assms(4) in \<open>simp_all add: Save_run\<close>)

lemma trg_Disable_keeps:
  assumes "\<And>x. G x \<Longrightarrow> G (TI_Disable x)"
  shows "keeps_guard G E i t w (snd (trg_Disable (trg_F env) org j w))"
proof (rule keeps_guardI)
  assume g: "guarded G i t w"
  obtain r w' where get: "trg_Get (trg_F env) org j w = (r, w')" by fastforce
  then show "keeps_guard G E i t w (snd (trg_Disable (trg_F env) org j w))"
  proof (cases rule: found_row)
    case (found x)
    have "keeps_guard G E i t w (snd (on_trg (trg_mem_Save (TI_Disable x)) w))"
      using g found inst_id [of w j x] assms by (intro update_row [of w j x]) (auto simp: guarded_def)
    then show ?thesis by (simp add: trg_Disable_def attempt_apply get found Let_def Save_run)
  qed (simp add: trg_Disable_def attempt_apply get keeps_guard_refl)
qed

lemma trg_Enable_keeps:
  assumes "\<And>x now. i = j \<Longrightarrow> G x \<Longrightarrow> t \<le> now \<Longrightarrow> G (TI_Enable x now)"
  shows "keeps_guard G E i t w (snd (trg_Enable (trg_F env) org j w))"
proof (rule keeps_guardI)
  assume g: "guarded G i t w"
  obtain r w' where get: "trg_Get (trg_F env) org j w = (r, w')" by fastforce
  then show "keeps_guard G E i t w (snd (trg_Enable (trg_F env) org j w))"
  proof (cases rule: found_row)
    case (found x)
    have "keeps_guard G E i t w (snd (on_trg (trg_mem_Save (TI_Enable x (tw_now w))) w))"
      using g found inst_id [of w j x] assms by (intro update_row [of w j x]) (auto simp: guarded_def)
    then show ?thesis by (simp add: trg_Enable_def attempt_apply call_apply get found Let_def Save_run)
  qed (simp add: trg_Enable_def attempt_apply get keeps_guard_refl)
qed

lemma trg_Delete_keeps: "keeps_guard G E i t w (snd (trg_Delete (trg_F env) org j w))"
proof -
  obtain r w' where get: "trg_Get (trg_F env) org j w = (r, w')" by fastforce
  then show ?thesis
  proof (cases rule: found_row)
    case (found x)
    show ?thesis
      by (rule drop_rows [where P = "\<lambda>p. fst p \<noteq> j"])
        (simp_all add: trg_Delete_def attempt_apply get found zoom_apply trg_mem_Delete_def del_filter)
  qed (simp add: trg_Delete_def attempt_apply get keeps_guard_refl)
qed

lemma DeleteByConnection_keeps: "keeps_guard G E i t w (snd (trg_DeleteByConnection (trg_F env) org c w))"
  by (rule drop_rows [OF _ _ _]) (simp_all add: trg_DeleteByConnection_def zoom_apply trg_mem_DeleteByConnection_def Let_def)

lemma PauseRemoved_keeps:
  assumes G: "\<And>x. G x \<Longrightarrow> G (TI_PauseForRemovedTrigger x)"
  shows "keeps_guard G E i t w (snd (PauseInstancesForRemovedTrigger (trg_F env) slug w))"
proof (rule keeps_guardI)
  assume g: "guarded G i t w"
  define xs where "xs = sortInstancesOldestFirst (filter (\<lambda>t. TI_TriggerSlug t = slug) (rows (ts_byID (tw_store w))))"
  have all: "keeps_guard G E i t v (snd (for_each (pause_removed (trg_F env)) xs v))" if "current_insts v xs" for v xs
    using that
  proof (induction xs arbitrary: v)
    case (Cons x xs)
    obtain r v1 where run: "pause_removed (trg_F env) x v = (r, v1)" by fastforce
    then have r: "r = Inr ()" and v1: "v1 = v \<or> v1 = snd (on_trg (trg_mem_Save (TI_PauseForRemovedTrigger x)) v)"
      by (auto simp: pause_removed_def Save_run split: if_splits)
    show ?case
    proof (rule keeps_guardI)
      assume gv: "guarded G i t v"
      have x: "inst_of v (TI_ID x) = Some x" using Cons.prems by (simp add: current_insts_def)
      have "keeps_guard G E i t v v1"
        using v1 update_row [OF x, of "TI_PauseForRemovedTrigger x" i G E t] gv x G
        by (auto simp: guarded_def keeps_guard_refl)
      moreover have "current_insts v1 xs"
        using Cons.prems v1 by (auto simp: current_insts_def Save_run image_iff)
      ultimately show "keeps_guard G E i t v (snd (for_each (pause_removed (trg_F env)) (x # xs) v))"
        using keeps_guard_trans [OF _ Cons.IH] by (simp add: attempt_apply run r)
    qed
  qed (simp add: keeps_guard_refl)
  have "distinct (map TI_ID (rows (ts_byID (tw_store w))))"
    using g by (intro keyed_distinct_rows) (simp add: guarded_def trg_inv_def)
  then have "current_insts w xs"
    using g inst_row [of w] by (auto simp: xs_def current_insts_def sortInstancesOldestFirst_def distinct_map_filter guarded_def)
  from all [OF this] show "keeps_guard G E i t w (snd (PauseInstancesForRemovedTrigger (trg_F env) slug w))"
    by (simp add: PauseInstancesForRemovedTrigger_def attempt_apply zoom_apply trg_mem_ListByTriggerSlug_def xs_def)
qed

section \<open>Guards over a run\<close>

lemma keeps_guard_same:
  assumes "tw_store w' = tw_store w" and "tw_ids w' = tw_ids w" and "tw_now w \<le> tw_now w'" and "tw_events w' = tw_events w"
  shows "keeps_guard G E i t w w'"
  by (rule drop_rows [where P = "\<lambda>_. True"]) (simp_all add: assms)

lemma trg_step_keeps:
  assumes "\<And>x. G x \<Longrightarrow> G (TI_Disable x)" and "\<And>x. G x \<Longrightarrow> G (TI_PauseForRemovedTrigger x)"
    and "\<And>org x now. op = TEnable org i \<Longrightarrow> G x \<Longrightarrow> t \<le> now \<Longrightarrow> G (TI_Enable x now)"
    and "\<And>w. keeps_guard G E i t w (snd (PollOnce (trg_F env) w))"
  shows "keeps_guard G E i t w (trg_step env op w)"
  by (cases op) (use assms in \<open>auto intro: Create_keeps trg_Disable_keeps trg_Enable_keeps trg_Delete_keeps DeleteByConnection_keeps
      PauseRemoved_keeps keeps_guard_same\<close>)

lemma run_keeps:
  assumes "\<And>op w. op \<in> set ops \<Longrightarrow> keeps_guard G E i t w (trg_step env op w)"
  shows "keeps_guard G E i t w (trg_run env ops w)"
  using assms
proof (induction ops arbitrary: w)
  case (Cons op ops)
  then have "keeps_guard G E i t w (trg_step env op w)" and "keeps_guard G E i t (trg_step env op w) (trg_run env ops (trg_step env op w))"
    by simp_all
  from keeps_guard_trans [OF this] show ?case by (simp add: trg_run_def)
qed (simp add: trg_run_def keeps_guard_refl)

text \<open>A poll of another instance, and a poll whose row stays guarded and whose records fire as \<open>E\<close> says.\<close>

lemma poll_keeps:
  assumes x: "inst_of w (TI_ID x) = Some x" "TI_ID x = i \<Longrightarrow> G x"
    and stays: "\<And>d rs. TI_ID x = i \<Longrightarrow> G x \<Longrightarrow> t \<le> now \<Longrightarrow> G (reschedule x now d) \<and> G (reschedule (TI_Pause x now) now d)
      \<and> G (reschedule (TI_Resume x now) now d) \<and> G (reschedule (PO_Instance (ApplyWatermark x rs now)) now d)"
    and fires: "\<And>n q rs r. TI_ID x = i \<Longrightarrow> G x \<Longrightarrow> te_fetch env n q = Inr rs \<Longrightarrow> r \<in> set (PO_ToFire (ApplyWatermark x rs now))
      \<Longrightarrow> E (trigger_event x r)"
    and now: "t \<le> now"
  shows "keeps_guard G E i t w (snd (pollOne (trg_F env) x now w))"
proof (rule keeps_guardI)
  assume g: "guarded G i t w"
  then have m: "minted ''trg_'' (tw_ids w) (TI_ID x)" using x(1) by (auto simp: guarded_def trg_inv_def)
  obtain r w' where run: "pollOne (trg_F env) x now w = (r, w')" by fastforce
  then have "keeps_guard G E i t w w'"
  proof (cases rule: pollOne_cases)
    case (failed e v)
    then show ?thesis
      by (intro store_row [where x = "reschedule x now (poll_interval env x)" and es = "[]"]) (use m x stays now in simp_all)
  next
    case (paused c)
    then show ?thesis
      by (intro store_row [where x = "reschedule (TI_Pause x now) now (poll_interval env x)" and es = "[]"]) (use m x stays now in simp_all)
  next
    case (resumed c)
    then show ?thesis
      by (intro store_row [where x = "reschedule (TI_Resume x now) now (poll_interval env x)" and es = "[]"]) (use m x stays now in simp_all)
  next
    case (polled c rs)
    have "\<forall>e \<in> set (map (trigger_event x) (PO_ToFire (ApplyWatermark x rs now))). event_of i e \<longrightarrow> E e"
      using fires [OF _ _ polled(4)] x(2) by auto
    then show ?thesis
      by (intro store_row [where x = "reschedule (PO_Instance (ApplyWatermark x rs now)) now (poll_interval env x)"
          and es = "map (trigger_event x) (PO_ToFire (ApplyWatermark x rs now))"])
        (use m x stays now in \<open>simp_all add: polled(5)\<close>)
  next
    case (refused c rs k)
    have "\<forall>e \<in> set (map (trigger_event x) (take k (PO_ToFire (ApplyWatermark x rs now)))). event_of i e \<longrightarrow> E e"
      using fires [OF _ _ refused(4)] x(2) by (auto dest: in_set_takeD)
    then show ?thesis using g by (auto simp: keeps_guard_def guarded_def trg_inv_def refused(6))
  qed
  then show "keeps_guard G E i t w (snd (pollOne (trg_F env) x now w))" by (simp add: run)
qed

lemma guarded_lookup: "guarded G i t w \<Longrightarrow> inst_of w (TI_ID x) = Some x \<Longrightarrow> TI_ID x = i \<Longrightarrow> G x"
  by (auto simp: guarded_def)

lemma step_inv:
  assumes "trg_inv w"
  shows "trg_inv (trg_step env op w)"
proof -
  have "keeps_guard (\<lambda>_. True) (\<lambda>_. True) [] (tw_now w) w (trg_step env op w)"
  proof (rule trg_step_keeps)
    fix w
    show "keeps_guard (\<lambda>_. True) (\<lambda>_. True) [] t w (snd (PollOnce (trg_F env) w))" for t
      by (rule PollOnce_keeps, rule poll_keeps) (simp_all add: guarded_def)
  qed simp_all
  then show ?thesis using assms by (simp add: keeps_guard_def guarded_def)
qed

lemma run_inv: "trg_inv w \<Longrightarrow> trg_inv (trg_run env ops w)"
  by (induction ops arbitrary: w) (simp_all add: trg_run_def step_inv)

lemma start_inv: "trg_inv (trg_start c now)"
  by (simp add: trg_inv_def trg_start_def trg_NewRepository_def)

section \<open>Inactive instances\<close>

text \<open>Only \<open>Enable\<close> makes an instance active again, and the poller claims active instances only.\<close>

lemma inactive_keeps:
  fixes env :: "'c trg_env"
  assumes "\<And>org. op \<noteq> TEnable org i"
  shows "keeps_guard (\<lambda>x. TI_Status x \<noteq> TrigStatusActive) (\<lambda>_. False) i t w (trg_step env op w)"
proof (rule trg_step_keeps)
  fix w
  show "keeps_guard (\<lambda>x. TI_Status x \<noteq> TrigStatusActive) (\<lambda>_. False) i t w (snd (PollOnce (trg_F env) w))"
  proof (rule PollOnce_keeps)
    fix x and v :: "'c trg_world"
    assume x: "x \<in> set (claimed_now w)" and g: "guarded (\<lambda>x. TI_Status x \<noteq> TrigStatusActive) i t w"
      and v: "guarded (\<lambda>x. TI_Status x \<noteq> TrigStatusActive) i t v" "inst_of v (TI_ID x) = Some x"
    have "TI_ID x \<noteq> i" using guarded_lookup [OF v] claimed_active [OF x] by auto
    then show "keeps_guard (\<lambda>x. TI_Status x \<noteq> TrigStatusActive) (\<lambda>_. False) i t v (snd (pollOne (trg_F env) x (tw_now w) v))"
      using g by (intro poll_keeps v) (simp_all add: guarded_def)
  qed
qed (use assms in simp_all)

section \<open>The gap of a pause\<close>

definition watermark_from :: "time \<Rightarrow> TriggerInstance \<Rightarrow> bool" where
  "watermark_from t x \<longleftrightarrow> (\<exists>m. TI_WatermarkAt x = Some m \<and> t \<le> m)"

text \<open>The event carries a record that some answer of the provider held, not older than \<open>t\<close>.\<close>

definition fetched_since :: "'c trg_env \<Rightarrow> time \<Rightarrow> OrgID \<times> string \<times> any \<Rightarrow> bool" where
  "fetched_since env t e \<longleftrightarrow>
     (\<exists>x n q rs r. te_fetch env n q = Inr rs \<and> r \<in> set rs \<and> t \<le> TPR_Timestamp r \<and> e = trigger_event x r)"

lemma watermark_keeps: "keeps_guard (watermark_from t) (fetched_since env t) i t w (trg_step env op w)"
proof (rule trg_step_keeps)
  fix w
  show "keeps_guard (watermark_from t) (fetched_since env t) i t w (snd (PollOnce (trg_F env) w))"
  proof (rule PollOnce_keeps, rule poll_keeps)
    fix x d rs
    assume "watermark_from t x" "t \<le> tw_now w"
    then show "watermark_from t (reschedule x (tw_now w) d) \<and> watermark_from t (reschedule (TI_Pause x (tw_now w)) (tw_now w) d)
      \<and> watermark_from t (reschedule (TI_Resume x (tw_now w)) (tw_now w) d)
      \<and> watermark_from t (reschedule (PO_Instance (ApplyWatermark x rs (tw_now w))) (tw_now w) d)"
      using applied_watermark(1) [of x _ rs "tw_now w"] by (fastforce simp: watermark_from_def)
  next
    fix x n q rs r
    assume "watermark_from t x" and f: "te_fetch env n q = Inr rs" "r \<in> set (PO_ToFire (ApplyWatermark x rs (tw_now w)))"
    then obtain m where "TI_WatermarkAt x = Some m" "t \<le> m" by (auto simp: watermark_from_def)
    with applied_watermark(2) [of x m r rs "tw_now w"] f show "fetched_since env t (trigger_event x r)"
      unfolding fetched_since_def by fastforce
  qed (auto simp: guarded_def)
qed (simp_all add: watermark_from_def)

text \<open>
  C30: After \<open>Enable\<close> an instance fires no record from before that moment, whatever the provider goes on returning
  and whatever else happens: what the pause missed stays missed.
\<close>

theorem enabled_fires_only_later_records:
  assumes "w = trg_run env ops\<^sub>0 (trg_start c now)"
    and "trg_Enable (trg_F env) org i w = (Inr x, w')"
  shows "tw_events w' = tw_events w
     \<and> (\<exists>es. tw_events (trg_run env ops w') = tw_events w' @ es \<and> (\<forall>e \<in> set es. event_of i e \<longrightarrow> fetched_since env (tw_now w) e))"
proof -
  have inv: "trg_inv w" by (simp add: assms(1) run_inv start_inv)
  obtain r u where get: "trg_Get (trg_F env) org i w = (r, u)" by fastforce
  then show ?thesis
  proof (cases rule: found_row)
    case (missing e)
    then show ?thesis using assms(2) by (simp add: trg_Enable_def attempt_apply get)
  next
    case (found y)
    have w': "w' = snd (on_trg (trg_mem_Save (TI_Enable y (tw_now w))) w)"
      using assms(2) by (auto simp: trg_Enable_def attempt_apply call_apply get found Let_def Save_run)
    have "trg_inv w'" using step_inv [OF inv, of env "TEnable org i"] assms(2) by simp
    then have "guarded (watermark_from (tw_now w)) i (tw_now w) w'"
      using inst_id [OF inv found(3)] by (auto simp: guarded_def w' Save_run trg_inv_def watermark_from_def)
    moreover have "keeps_guard (watermark_from (tw_now w)) (fetched_since env (tw_now w)) i (tw_now w) w' (trg_run env ops w')"
      by (intro run_keeps watermark_keeps)
    moreover have "tw_events w' = tw_events w" by (simp add: w' Save_run)
    ultimately show ?thesis unfolding keeps_guard_def by blast
  qed
qed

section \<open>A poll that fails\<close>

definition poll_fails :: "'c trg_env \<Rightarrow> 'c \<Rightarrow> TriggerInstance \<Rightarrow> bool" where
  "poll_fails env c x \<longleftrightarrow>
     (case te_connection env (TI_OrgID x) (TI_ConnectionID x) c of
        Inl _ \<Rightarrow> True
      | Inr cn \<Rightarrow> Conn_Status cn = StatusActive \<and> TI_PausedAt x = None \<and> (\<forall>n. isl (te_fetch env n (fetch_query x))))"

text \<open>
  The row of a claimed instance after the pass: next due one interval from now, the lease gone, and if its poll
  failed nothing else changed and the log (from its \<open>n\<close>-th entry on) names it.
\<close>

definition rescheduled :: "'c trg_env \<Rightarrow> time \<Rightarrow> nat \<Rightarrow> TriggerInstance \<Rightarrow> 'c trg_world \<Rightarrow> bool" where
  "rescheduled env now n x w \<longleftrightarrow>
     (\<exists>y. inst_of w (TI_ID x) = Some y \<and> TI_NextPollAt y = Some (now + poll_interval env x)
        \<and> map_of (ts_leaseUntil (tw_store w)) (TI_ID x) = None
        \<and> (poll_fails env (tw_conn w) x \<longrightarrow>
             y = reschedule x now (poll_interval env x) \<and> (\<exists>e \<in> set (drop n (tw_log w)). TLE_TriggerInstanceID e = TI_ID x)))"

lemma pollOne_reschedules:
  assumes "pollOne (trg_F env) x now w = (r, w')" and "\<And>n. te_refused env n = None" and "n \<le> length (tw_log w)"
  shows "r = Inr () \<and> rescheduled env now n x w' \<and> tw_conn w' = tw_conn w \<and> (\<exists>l. tw_log w' = tw_log w @ l)
     \<and> (\<forall>j. j \<noteq> TI_ID x \<longrightarrow> inst_of w' j = inst_of w j
           \<and> map_of (ts_leaseUntil (tw_store w')) j = map_of (ts_leaseUntil (tw_store w)) j)"
  using assms(1)
proof (cases rule: pollOne_cases)
  case (polled c records)
  then have "\<not> poll_fails env (tw_conn w) x" by (auto simp: poll_fails_def split: sum.split) (metis sum.disc(2))
  then show ?thesis using polled(1,5) by (auto simp: rescheduled_def)
next
  case (refused c records k)
  then show ?thesis using assms(2) by simp
qed (use assms(3) in \<open>auto simp: rescheduled_def poll_fails_def\<close>)

lemma poll_all_reschedules:
  assumes "\<And>n. te_refused env n = None"
  shows "distinct (map TI_ID ts) \<Longrightarrow> n \<le> length (tw_log w) \<Longrightarrow>
    \<exists>w'. poll_all (trg_F env) ts now w = (Inr (), w') \<and> (\<forall>x \<in> set ts. rescheduled env now n x w')
     \<and> tw_conn w' = tw_conn w \<and> (\<exists>l. tw_log w' = tw_log w @ l)
     \<and> (\<forall>j. j \<notin> TI_ID ` set ts \<longrightarrow> inst_of w' j = inst_of w j
           \<and> map_of (ts_leaseUntil (tw_store w')) j = map_of (ts_leaseUntil (tw_store w)) j)"
proof (induction ts arbitrary: w)
  case (Cons x ts)
  obtain r w1 where run: "pollOne (trg_F env) x now w = (r, w1)" by fastforce
  note one = pollOne_reschedules [OF run assms Cons.prems(2)]
  have "n \<le> length (tw_log w1)" using one Cons.prems(2) by auto
  with Cons.IH [of w1] Cons.prems(1) obtain w' where all: "poll_all (trg_F env) ts now w1 = (Inr (), w')"
    "\<forall>x \<in> set ts. rescheduled env now n x w'" "tw_conn w' = tw_conn w1" "\<exists>l. tw_log w' = tw_log w1 @ l"
    "\<forall>j. j \<notin> TI_ID ` set ts \<longrightarrow> inst_of w' j = inst_of w1 j
       \<and> map_of (ts_leaseUntil (tw_store w')) j = map_of (ts_leaseUntil (tw_store w1)) j"
    by auto
  have "rescheduled env now n x w'"
  proof -
    have "TI_ID x \<notin> TI_ID ` set ts" using Cons.prems(1) by simp
    moreover have "set (drop n (tw_log w1)) \<subseteq> set (drop n (tw_log w'))" using all(4) \<open>n \<le> length (tw_log w1)\<close> by auto
    ultimately show ?thesis using one all(3,5) unfolding rescheduled_def by fastforce
  qed
  moreover have "poll_all (trg_F env) (x # ts) now w = (Inr (), w')"
    using one all(1) by (simp add: poll_all_def attempt_apply run)
  ultimately show ?case using one all by (intro exI [of _ w']) auto
qed (simp add: poll_all_def)

text \<open>
  C31: One failing poll does not stop the pass: as long as the outbox takes what is fired, a pass succeeds, gives every
  instance it claimed its next due time, leaves the watermark of those that failed where it was (so that the
  records they missed are still new next time) and touches no other row.
\<close>

theorem PollOnce_isolates_failures:
  assumes "w = trg_run env ops (trg_start c now)" and "\<And>n. te_refused env n = None"
  shows "\<exists>w'. PollOnce (trg_F env) w = (Inr (), w')
     \<and> (\<forall>x \<in> set (claimed_now w). rescheduled env (tw_now w) (length (tw_log w)) x w')
     \<and> (\<forall>j. j \<notin> TI_ID ` set (claimed_now w) \<longrightarrow> inst_of w' j = inst_of w j)"
proof -
  have "trg_inv w" by (simp add: assms(1) run_inv start_inv)
  then have "distinct (map TI_ID (claimed_now w))" using claimed_current by (auto simp: current_insts_def)
  from poll_all_reschedules [OF assms(2) this, of "length (tw_log w)" "leased w" "tw_now w"] show ?thesis
    by (auto simp: PollOnce_run leased_def)
qed

section \<open>A concrete instance\<close>

definition trg_demo_connection :: Connection where
  "trg_demo_connection = (NewConnection ''conn_1'' ''org_1'' ''user_1'' ''intg_1'' ''crm'' ''https://app.example/done'' ''token'' 0)
     \<lparr>Conn_Status := StatusActive\<rparr>"

definition trg_demo :: "unit trg_env" where
  "trg_demo =
     \<lparr>te_definition = (\<lambda>slug. Inl trg_ErrNotFound), te_connection = (\<lambda>org i c. Inr trg_demo_connection),
      te_fetch = (\<lambda>n q. Inl trg_ErrNotFound), te_refused = (\<lambda>n. None), te_schema = (\<lambda>doc inst. None), te_minInterval = 0\<rparr>"

definition trg_demo_row :: TriggerInstance where
  "trg_demo_row = NewTriggerInstance (sequential_id ''trg_'' 0) ''org_1'' ''user_1'' ''conn_1'' ''new_contact'' [] 7"

text \<open>The definition of the trigger is there when the instance is created and gone later.\<close>

definition trg_demo_env :: "unit trg_env" where
  "trg_demo_env = trg_demo\<lparr>te_definition := (\<lambda>slug. Inr \<lparr>TDS_Slug = slug, TDS_Name = [], TDS_Description = [], TDS_ConfigSchema = [],
      TDS_PayloadSchema = [], TDS_Ingestion = ''poll'', TDS_PollIntervalSeconds = 60, TDS_ProviderSlug = ''crm'',
      TDS_ProviderName = [], TDS_ProviderLogo = []\<rparr>)\<rparr>"

abbreviation trg_demo_create :: "unit trg_op" where
  "trg_demo_create \<equiv> TCreate ''org_1'' \<lparr>TCP_ConnectionID = ''conn_1'', TCP_TriggerSlug = ''new_contact'', TCP_Config = []\<rparr>"

lemma trg_demo_created:
  "trg_run trg_demo_env [trg_demo_create] (trg_start () 7)
   = (trg_start () 7)\<lparr>tw_store := \<lparr>ts_byID = [(TI_ID trg_demo_row, trg_demo_row)], ts_leaseUntil = []\<rparr>, tw_ids := 1\<rparr>"
  by (simp add: trg_run_def trg_start_def trg_NewRepository_def trg_Create_def attempt_apply call_apply lift_apply Save_run
      trg_demo_env_def trg_demo_def trg_demo_row_def NewTriggerInstance_def schema_Validate_def trg_demo_connection_def
      NewConnection_def Let_def trg_mem_Save_def)

lemma trg_demo_get:
  "trg_Get (trg_F trg_demo_env) ''org_1'' (sequential_id ''trg_'' 0) (trg_run trg_demo_env [trg_demo_create] (trg_start () 7))
   = (Inr trg_demo_row, trg_run trg_demo_env [trg_demo_create] (trg_start () 7))"
  by (simp add: trg_demo_created trg_Get_def attempt_apply zoom_apply trg_mem_FindByID_def)
     (simp add: trg_demo_row_def NewTriggerInstance_def)

lemma enabled_fires_only_later_records_witness:
  "\<exists>x w'. trg_Enable (trg_F trg_demo_env) ''org_1'' (sequential_id ''trg_'' 0) (trg_run trg_demo_env [trg_demo_create] (trg_start () 7)) = (Inr x, w')
     \<and> (\<exists>es. tw_events (trg_run trg_demo_env [TWait 60, TPoll] w') = tw_events w' @ es)"
proof -
  let ?w = "trg_run trg_demo_env [trg_demo_create] (trg_start () 7)"
  obtain x w' where run: "trg_Enable (trg_F trg_demo_env) ''org_1'' (sequential_id ''trg_'' 0) ?w = (Inr x, w')"
    by (simp add: trg_Enable_def attempt_apply call_apply trg_demo_get Let_def Save_run)
  show ?thesis using run enabled_fires_only_later_records [OF refl run, of "[TWait 60, TPoll]"] by blast
qed

lemma PollOnce_isolates_failures_witness:
  "\<exists>w'. PollOnce (trg_F trg_demo_env) (trg_run trg_demo_env [trg_demo_create] (trg_start () 7)) = (Inr (), w')
     \<and> inst_of w' (sequential_id ''trg_'' 0) = Some (reschedule trg_demo_row 7 (60 * second))"
proof -
  let ?w = "trg_run trg_demo_env [trg_demo_create] (trg_start () 7)"
  have refused: "te_refused trg_demo_env n = None" for n by (simp add: trg_demo_env_def trg_demo_def)
  have claimed: "trg_demo_row \<in> set (claimed_now ?w)"
    unfolding trg_demo_created
    by (simp add: claimed_now_def Let_def isDueForPoll_def sortInstancesOldestFirst_def pollClaimBatchLimit_def trg_start_def
        trg_demo_row_def NewTriggerInstance_def oldest_first_by_def)
  have fails: "poll_fails trg_demo_env c trg_demo_row" for c
    by (simp add: poll_fails_def trg_demo_env_def trg_demo_def trg_demo_connection_def NewConnection_def trg_demo_row_def NewTriggerInstance_def)
  have interval: "poll_interval trg_demo_env trg_demo_row = 60 * second"
    by (simp add: poll_interval_def trg_demo_env_def trg_demo_def defaultPollMinInterval_def) (simp add: dur_mul_def second_def wrap64_def)
  have row: "TI_ID trg_demo_row = sequential_id ''trg_'' 0" by (simp add: trg_demo_row_def NewTriggerInstance_def)
  have now: "tw_now ?w = 7" unfolding trg_demo_created by (simp add: trg_start_def)
  obtain w' where w': "PollOnce (trg_F trg_demo_env) ?w = (Inr (), w')"
    "\<forall>x \<in> set (claimed_now ?w). rescheduled trg_demo_env (tw_now ?w) (length (tw_log ?w)) x w'"
    using PollOnce_isolates_failures [OF refl refused, of "[trg_demo_create]" "()" 7] by blast
  from bspec [OF w'(2) claimed] have "inst_of w' (sequential_id ''trg_'' 0) = Some (reschedule trg_demo_row 7 (60 * second))"
    unfolding rescheduled_def row now interval using fails by blast
  with w'(1) show ?thesis by blast
qed

end
