(* ===== verification/TriggerRace.thy ===== *)
theory TriggerRace
  imports TriggerLife
begin

text \<open>
  The poller beside the facade. \<open>PollOnce\<close> (\<open>poll.go\<close>) holds no lock between claiming a batch and saving the rows
  it polled: anything may happen in between, another pass of another replica included. Here a claim and the
  polls of its copies are separate steps, in any order with every other operation; the operations of
  \<open>TriggerLife.trg_op\<close> (a whole pass run without interruption among them) are single steps.
\<close>

section \<open>Interleavings\<close>

text \<open>The copies that passes have claimed and not polled yet, each with the time its pass began.\<close>

record 'c poll_race =
  pr_world :: "'c trg_world"
  pr_held :: "(TriggerInstance \<times> time) list"

text \<open>
  A pass claims (\<open>Claim\<close>), polls a copy it holds (\<open>PollHeld\<close>), or ends without polling one (\<open>Abandon\<close>: the poll of
  an earlier instance returned an error, or the process died).
\<close>

datatype 'c race_op = Operate "'c trg_op" | Claim | PollHeld nat | Abandon nat

definition without_nth :: "nat \<Rightarrow> 'a list \<Rightarrow> 'a list" where
  "without_nth n xs = take n xs @ drop (Suc n) xs"

fun race_step :: "'c trg_env \<Rightarrow> 'c race_op \<Rightarrow> 'c poll_race \<Rightarrow> 'c poll_race" where
  "race_step env (Operate op) r = r\<lparr>pr_world := trg_step env op (pr_world r)\<rparr>"
| "race_step env Claim r =
     (let now = tw_now (pr_world r)
      in case trg_ClaimDuePolls (trg_F env) now pollLeaseTTL pollClaimBatchLimit (pr_world r) of
           (Inl e, w) \<Rightarrow> r\<lparr>pr_world := w\<rparr>
         | (Inr instances, w) \<Rightarrow> \<lparr>pr_world = w, pr_held = pr_held r @ map (\<lambda>x. (x, now)) instances\<rparr>)"
| "race_step env (PollHeld n) r =
     (if n < length (pr_held r)
      then (case pr_held r ! n of (inst, now) \<Rightarrow>
              \<lparr>pr_world = snd (pollOne (trg_F env) inst now (pr_world r)), pr_held = without_nth n (pr_held r)\<rparr>)
      else r)"
| "race_step env (Abandon n) r = r\<lparr>pr_held := without_nth n (pr_held r)\<rparr>"

definition race_run :: "'c trg_env \<Rightarrow> 'c race_op list \<Rightarrow> 'c poll_race \<Rightarrow> 'c poll_race" where
  "race_run env es r = foldl (\<lambda>r e. race_step env e r) r es"

definition race_start :: "'c \<Rightarrow> time \<Rightarrow> 'c poll_race" where
  "race_start c now = \<lparr>pr_world = trg_start c now, pr_held = []\<rparr>"

lemma race_run_Nil [simp]: "race_run env [] r = r"
  by (simp add: race_run_def)

lemma race_run_Cons [simp]: "race_run env (e # es) r = race_run env es (race_step env e r)"
  by (simp add: race_run_def)

lemma race_run_append: "race_run env (es @ fs) r = race_run env fs (race_run env es r)"
  by (simp add: race_run_def)

lemma Claim_run:
  "race_step env Claim r =
     \<lparr>pr_world = leased (pr_world r), pr_held = pr_held r @ map (\<lambda>x. (x, tw_now (pr_world r))) (claimed_now (pr_world r))\<rparr>"
  by (simp add: Let_def claim_polls_run)

text \<open>A pass that nothing interrupts is one of the interleavings: it claims, polls in order and stops at the first error.\<close>

lemma poll_all_interleaves:
  "\<exists>es. race_run env es \<lparr>pr_world = w, pr_held = map (\<lambda>x. (x, now)) xs\<rparr>
      = \<lparr>pr_world = snd (poll_all (trg_F env) xs now w), pr_held = []\<rparr>"
proof (induction xs arbitrary: w)
  case Nil
  show ?case by (intro exI [of _ "[]"]) (simp add: poll_all_def)
next
  case (Cons x xs)
  obtain r w1 where run: "pollOne (trg_F env) x now w = (r, w1)" by fastforce
  have step: "race_step env (PollHeld 0) \<lparr>pr_world = w, pr_held = map (\<lambda>x. (x, now)) (x # xs)\<rparr>
      = \<lparr>pr_world = w1, pr_held = map (\<lambda>x. (x, now)) xs\<rparr>"
    by (simp add: run without_nth_def)
  show ?case
  proof (cases r)
    case (Inl e)
    have "race_run env (replicate (length ys) (Abandon 0)) \<lparr>pr_world = w1, pr_held = ys\<rparr> = \<lparr>pr_world = w1, pr_held = []\<rparr>" for ys
      by (induction ys) (simp_all add: without_nth_def)
    then show ?thesis
      using Inl step
      by (intro exI [of _ "PollHeld 0 # replicate (length xs) (Abandon 0)"])
        (simp del: race_step.simps add: poll_all_def attempt_apply run, metis length_map)
  next
    case (Inr u)
    obtain es where "race_run env es \<lparr>pr_world = w1, pr_held = map (\<lambda>x. (x, now)) xs\<rparr>
        = \<lparr>pr_world = snd (poll_all (trg_F env) xs now w1), pr_held = []\<rparr>"
      using Cons.IH by blast
    then show ?thesis
      using Inr step by (intro exI [of _ "PollHeld 0 # es"]) (simp del: race_step.simps add: poll_all_def attempt_apply run)
  qed
qed

lemma pass_interleaves:
  "\<exists>es. race_run env (Claim # es) \<lparr>pr_world = w, pr_held = []\<rparr> = \<lparr>pr_world = snd (PollOnce (trg_F env) w), pr_held = []\<rparr>"
  using poll_all_interleaves [of env "leased w" "tw_now w" "claimed_now w"]
  by (simp del: race_step.simps add: Claim_run PollOnce_run)

section \<open>What a late poll leaves alone\<close>

text \<open>The poll of a copy, however old, writes the row of its own instance and sends events of that instance only.\<close>

lemma late_poll_keeps:
  assumes "TI_ID x \<noteq> i" and "minted ''trg_'' (tw_ids w) (TI_ID x)"
  shows "keeps_guard G E i t w (snd (pollOne (trg_F env) x now w))"
proof -
  obtain r w' where run: "pollOne (trg_F env) x now w = (r, w')" by fastforce
  then have "keeps_guard G E i t w w'"
  proof (cases rule: pollOne_cases)
    case (failed e v)
    then show ?thesis
      by (intro store_row [where x = "reschedule x now (poll_interval env x)" and es = "[]"]) (use assms in simp_all)
  next
    case (paused c)
    then show ?thesis
      by (intro store_row [where x = "reschedule (TI_Pause x now) now (poll_interval env x)" and es = "[]"]) (use assms in simp_all)
  next
    case (resumed c)
    then show ?thesis
      by (intro store_row [where x = "reschedule (TI_Resume x now) now (poll_interval env x)" and es = "[]"]) (use assms in simp_all)
  next
    case (polled c rs)
    then show ?thesis
      by (intro store_row [where x = "reschedule (PO_Instance (ApplyWatermark x rs now)) now (poll_interval env x)"
          and es = "map (trigger_event x) (PO_ToFire (ApplyWatermark x rs now))"])
        (use assms in \<open>auto simp: polled(5)\<close>)
  next
    case (refused c rs k)
    then show ?thesis using assms(1) by (auto simp: keeps_guard_def guarded_def trg_inv_def)
  qed
  then show ?thesis by (simp add: run)
qed

lemma late_poll_ids: "tw_ids (snd (pollOne (trg_F env) x now w)) = tw_ids w"
proof -
  obtain r w' where run: "pollOne (trg_F env) x now w = (r, w')" by fastforce
  then have "tw_ids w' = tw_ids w" by (cases rule: pollOne_cases) simp_all
  then show ?thesis by (simp add: run)
qed

lemma guarded_True: "guarded (\<lambda>_. True) i t w \<longleftrightarrow> trg_inv w \<and> t \<le> tw_now w"
  by (simp add: guarded_def)

lemma late_poll_inv:
  assumes "trg_inv w" and "minted ''trg_'' (tw_ids w) (TI_ID x)"
  shows "trg_inv (snd (pollOne (trg_F env) x now w))"
proof -
  have "TI_ID x \<noteq> CHR ''a'' # TI_ID x" by (metis n_not_Suc_n length_Cons)
  from late_poll_keeps [OF this assms(2), of "\<lambda>_. True" "\<lambda>_. True" "tw_now w" env now] show ?thesis
    using assms(1) by (simp add: keeps_guard_def guarded_True)
qed

text \<open>An id once minted stays minted.\<close>

lemma step_minted:
  assumes "trg_inv w" and "minted ''trg_'' (tw_ids w) i"
  shows "minted ''trg_'' (tw_ids (trg_step env op w)) i"
proof -
  have "keeps_guard (\<lambda>x. TI_ID x = i) (\<lambda>_. True) i (tw_now w) w (trg_step env op w)"
  proof (rule trg_step_keeps)
    fix w
    show "keeps_guard (\<lambda>x. TI_ID x = i) (\<lambda>_. True) i t w (snd (PollOnce (trg_F env) w))" for t
      by (rule PollOnce_keeps, rule poll_keeps) (simp_all add: guarded_def)
  qed simp_all
  moreover have "guarded (\<lambda>x. TI_ID x = i) i (tw_now w) w"
    using assms inst_id by (auto simp: guarded_def)
  ultimately have "guarded (\<lambda>x. TI_ID x = i) i (tw_now w) (trg_step env op w)" by (simp add: keeps_guard_def)
  moreover obtain y :: TriggerInstance where "TI_ID y \<noteq> i"
    using TriggerInstance.select_convs(1) by (metis list.distinct(1))
  ultimately show ?thesis by (auto simp: guarded_def)
qed

section \<open>Invariants of an interleaving\<close>

definition race_inv :: "'c poll_race \<Rightarrow> bool" where
  "race_inv r \<longleftrightarrow> trg_inv (pr_world r) \<and> (\<forall>h \<in> set (pr_held r). minted ''trg_'' (tw_ids (pr_world r)) (TI_ID (fst h)))"

lemma without_nth_subset: "set (without_nth n xs) \<subseteq> set xs"
  by (auto simp: without_nth_def dest: in_set_takeD in_set_dropD)

lemma claimed_row: "trg_inv w \<Longrightarrow> x \<in> set (claimed_now w) \<Longrightarrow> inst_of w (TI_ID x) = Some x"
  using claimed_due inst_row by blast

lemma leased_inv: "trg_inv (leased w) \<longleftrightarrow> trg_inv w"
  by (simp add: trg_inv_def leased_def)

lemma race_step_inv:
  assumes "race_inv r"
  shows "race_inv (race_step env e r)"
proof (cases e)
  case (Operate op)
  then show ?thesis using assms by (auto simp: race_inv_def intro: step_inv step_minted)
next
  case Claim
  have "minted ''trg_'' (tw_ids (pr_world r)) (TI_ID x)" if "x \<in> set (claimed_now (pr_world r))" for x
    using claimed_row [OF _ that] assms by (force simp: race_inv_def trg_inv_def)
    with assms have "\<forall>h \<in> set (pr_held r) \<union> (\<lambda>x. (x, tw_now (pr_world r))) ` set (claimed_now (pr_world r)).
        minted ''trg_'' (tw_ids (pr_world r)) (TI_ID (fst h))"
      unfolding race_inv_def by auto
    moreover have "trg_inv (leased (pr_world r))" "tw_ids (leased (pr_world r)) = tw_ids (pr_world r)"
      using assms by (simp_all add: race_inv_def leased_inv) (simp add: leased_def)
    ultimately show ?thesis by (simp del: race_step.simps add: Claim Claim_run race_inv_def)
next
  case (PollHeld n)
  show ?thesis
  proof (cases "n < length (pr_held r)")
    case True
    obtain x now where h: "pr_held r ! n = (x, now)" by fastforce
    then have "(x, now) \<in> set (pr_held r)" using True nth_mem by metis
    then have "minted ''trg_'' (tw_ids (pr_world r)) (TI_ID x)" using assms by (force simp: race_inv_def)
    then have "trg_inv (snd (pollOne (trg_F env) x now (pr_world r)))" using assms by (intro late_poll_inv) (simp_all add: race_inv_def)
    then show ?thesis
      using True h assms without_nth_subset [of n "pr_held r"] by (auto simp: PollHeld race_inv_def late_poll_ids)
  qed (simp add: PollHeld assms)
next
  case (Abandon n)
  then show ?thesis using assms without_nth_subset [of n "pr_held r"] by (auto simp: race_inv_def)
qed

lemma race_run_inv: "race_inv r \<Longrightarrow> race_inv (race_run env es r)"
  by (induction es arbitrary: r) (simp_all del: race_step.simps add: race_step_inv)

lemma race_start_inv: "race_inv (race_start c now)"
  by (simp add: race_inv_def race_start_def start_inv)

section \<open>A disabled instance is silent\<close>

definition sends_nothing :: "TriggerInstanceID \<Rightarrow> 'c trg_world \<Rightarrow> 'c trg_world \<Rightarrow> bool" where
  "sends_nothing i w w' \<longleftrightarrow> (\<exists>es. tw_events w' = tw_events w @ es \<and> (\<forall>e \<in> set es. \<not> event_of i e))"

definition in_flight :: "TriggerInstanceID \<Rightarrow> 'c poll_race \<Rightarrow> bool" where
  "in_flight i r \<longleftrightarrow> i \<in> TI_ID ` fst ` set (pr_held r)"

definition silenced :: "TriggerInstanceID \<Rightarrow> time \<Rightarrow> 'c poll_race \<Rightarrow> bool" where
  "silenced i t r \<longleftrightarrow> race_inv r \<and> \<not> in_flight i r \<and> guarded (\<lambda>x. TI_Status x \<noteq> TrigStatusActive) i t (pr_world r)"

lemma sends_nothing_refl: "sends_nothing i w w"
  by (simp add: sends_nothing_def)

lemma sends_nothing_trans: "sends_nothing i u v \<Longrightarrow> sends_nothing i v w \<Longrightarrow> sends_nothing i u w"
  unfolding sends_nothing_def by fastforce

lemma silenced_world:
  assumes "keeps_guard (\<lambda>x. TI_Status x \<noteq> TrigStatusActive) (\<lambda>_. False) i t (pr_world r) w'" and "silenced i t r"
  shows "guarded (\<lambda>x. TI_Status x \<noteq> TrigStatusActive) i t w' \<and> sends_nothing i (pr_world r) w'"
  using assms by (auto simp: keeps_guard_def silenced_def sends_nothing_def)

lemma silenced_step:
  assumes q: "silenced i t r" and e: "\<And>org. e \<noteq> Operate (TEnable org i)"
  shows "silenced i t (race_step env e r) \<and> sends_nothing i (pr_world r) (pr_world (race_step env e r))"
proof -
  have inv: "race_inv (race_step env e r)" using q by (intro race_step_inv) (simp add: silenced_def)
  have w: "keeps_guard (\<lambda>x. TI_Status x \<noteq> TrigStatusActive) (\<lambda>_. False) i t (pr_world r) (pr_world (race_step env e r))
     \<and> \<not> in_flight i (race_step env e r)"
  proof (cases e)
    case (Operate op)
    then show ?thesis using q e inactive_keeps [of op i t "pr_world r" env] by (auto simp: silenced_def in_flight_def)
  next
    case Claim
    have "i \<noteq> TI_ID x" if "x \<in> set (claimed_now (pr_world r))" for x
    proof
      assume "i = TI_ID x"
      moreover have "inst_of (pr_world r) (TI_ID x) = Some x"
        using q that by (intro claimed_row) (simp_all add: silenced_def race_inv_def)
      ultimately have "TI_Status x \<noteq> TrigStatusActive" using q guarded_lookup unfolding silenced_def by metis
      then show False using claimed_active [OF that] by simp
    qed
    then have "i \<notin> TI_ID ` set (claimed_now (pr_world r))" by blast
    then have "\<not> in_flight i (race_step env Claim r)"
      using q by (simp del: race_step.simps add: Claim_run in_flight_def silenced_def image_Un image_image)
    moreover have "keeps_guard G E i t (pr_world r) (leased (pr_world r))" for G E
      by (auto simp: keeps_guard_def guarded_def trg_inv_def leased_def)
    ultimately show ?thesis unfolding Claim by (simp del: race_step.simps add: Claim_run)
  next
    case (PollHeld n)
    show ?thesis
    proof (cases "n < length (pr_held r)")
      case True
      obtain x now where h: "pr_held r ! n = (x, now)" by fastforce
      then have m: "(x, now) \<in> set (pr_held r)" using True nth_mem by metis
      then have "TI_ID x \<noteq> i" using q by (force simp: silenced_def in_flight_def)
      moreover have "minted ''trg_'' (tw_ids (pr_world r)) (TI_ID x)" using q m by (force simp: silenced_def race_inv_def)
      ultimately show ?thesis
        using True h q without_nth_subset [of n "pr_held r"] late_poll_keeps [of x i "pr_world r"]
        by (force simp: PollHeld silenced_def in_flight_def)
    next
      case False
      then show ?thesis using q by (simp add: PollHeld silenced_def keeps_guard_refl)
    qed
  next
    case (Abandon n)
    then show ?thesis using q without_nth_subset [of n "pr_held r"] by (auto simp: silenced_def in_flight_def keeps_guard_refl)
  qed
  with silenced_world [OF _ q] inv show ?thesis unfolding silenced_def by blast
qed

lemma silenced_run:
  assumes "silenced i t r" and "\<And>org. Operate (TEnable org i) \<notin> set es"
  shows "sends_nothing i (pr_world r) (pr_world (race_run env es r))"
  using assms
proof (induction es arbitrary: r)
  case (Cons e es)
  have "\<And>org. e \<noteq> Operate (TEnable org i)" using Cons.prems(2) by (metis list.set_intros(1))
  from silenced_step [OF Cons.prems(1) this, of env] have s: "silenced i t (race_step env e r)"
    "sends_nothing i (pr_world r) (pr_world (race_step env e r))" by blast+
  have "sends_nothing i (pr_world (race_step env e r)) (pr_world (race_run env es (race_step env e r)))"
    using Cons.prems(2) by (intro Cons.IH [OF s(1)]) (metis list.set_intros(2))
  with s(2) show ?case by (simp del: race_step.simps add: sends_nothing_trans)
qed (simp add: sends_nothing_refl)

text \<open>
  C29: Once \<open>Disable\<close> has returned, no event of that instance reaches the outbox until someone enables it again,
  whatever happens: passes of the poller, interrupted anywhere between their claim and the save of each row and
  interleaved with each other, other instances' life cycles, connections and time changing, registry updates. The
  condition is that no pass holds a copy of this very instance, claimed before and not yet polled, when \<open>Disable\<close>
  runs: such a pass polls the copy and writes it back, and the instance is active again (lemma
  \<open>late_poll_undoes_disable\<close> below).
\<close>

theorem disabled_stays_silent:
  assumes "r = race_run env es\<^sub>0 (race_start c now)"
    and "trg_Disable (trg_F env) org i (pr_world r) = (Inr x, w')"
    and "\<not> in_flight i r"
    and "\<And>org. Operate (TEnable org i) \<notin> set es"
  shows "tw_events w' = tw_events (pr_world r) \<and> sends_nothing i w' (pr_world (race_run env es (r\<lparr>pr_world := w'\<rparr>)))"
proof -
  let ?w = "pr_world r"
  have inv: "race_inv r" by (simp add: assms(1) race_run_inv race_start_inv)
  then have t: "trg_inv ?w" by (simp add: race_inv_def)
  obtain q u where get: "trg_Get (trg_F env) org i ?w = (q, u)" by fastforce
  then show ?thesis
  proof (cases rule: found_row)
    case (missing e)
    then show ?thesis using assms(2) by (simp add: trg_Disable_def attempt_apply get)
  next
    case (found y)
    have w': "w' = snd (on_trg (trg_mem_Save (TI_Disable y)) ?w)"
      using assms(2) by (auto simp: trg_Disable_def attempt_apply get found Let_def Save_run)
    have step: "race_step env (Operate (TDisable org i)) r = r\<lparr>pr_world := w'\<rparr>" using assms(2) by simp
    have "race_inv (r\<lparr>pr_world := w'\<rparr>)" using race_step_inv [OF inv, of env "Operate (TDisable org i)"] step by simp
    moreover have "guarded (\<lambda>x. TI_Status x \<noteq> TrigStatusActive) i (tw_now ?w) w'"
      using inst_id [OF t found(3)] \<open>race_inv (r\<lparr>pr_world := w'\<rparr>)\<close> by (auto simp: race_inv_def guarded_def w' Save_run trg_inv_def)
    ultimately have "silenced i (tw_now ?w) (r\<lparr>pr_world := w'\<rparr>)" using assms(3) by (simp add: silenced_def in_flight_def)
    from silenced_run [OF this assms(4)] have "sends_nothing i w' (pr_world (race_run env es (r\<lparr>pr_world := w'\<rparr>)))" by simp
    then show ?thesis by (simp add: w' Save_run)
  qed
qed

text \<open>
  The exception: the poll of a copy claimed before \<open>Disable\<close> writes its own copy back, and the instance is
  active again.
\<close>

lemma late_poll_undoes_disable:
  assumes "pollOne (trg_F env) x now w = (Inr (), w')" and "TI_Status x = TrigStatusActive"
  shows "\<exists>y. inst_of w' (TI_ID x) = Some y \<and> TI_Status y = TrigStatusActive"
  using assms(1) by (cases rule: pollOne_cases) (use assms(2) in simp_all)

section \<open>A concrete instance\<close>

lemma disabled_stays_silent_witness:
  "\<exists>x w'. trg_Disable (trg_F trg_demo_env) ''org_1'' (sequential_id ''trg_'' 0) (pr_world (race_run trg_demo_env [Operate trg_demo_create] (race_start () 7)))
        = (Inr x, w')
     \<and> sends_nothing (sequential_id ''trg_'' 0) w'
         (pr_world (race_run trg_demo_env [Operate (TWait 60), Claim, Operate (TDisable ''org_1'' []), PollHeld 0]
            ((race_run trg_demo_env [Operate trg_demo_create] (race_start () 7))\<lparr>pr_world := w'\<rparr>)))"
proof -
  define r where "r = race_run trg_demo_env [Operate trg_demo_create] (race_start () 7)"
  have w: "pr_world r = trg_run trg_demo_env [trg_demo_create] (trg_start () 7)"
    by (simp add: r_def race_start_def trg_run_def del: trg_step.simps)
  have held: "\<not> in_flight (sequential_id ''trg_'' 0) r" by (simp add: r_def in_flight_def race_start_def del: trg_step.simps)
  obtain x w' where run: "trg_Disable (trg_F trg_demo_env) ''org_1'' (sequential_id ''trg_'' 0) (pr_world r) = (Inr x, w')"
    by (simp add: w trg_Disable_def attempt_apply trg_demo_get Let_def Save_run)
  have "sends_nothing (sequential_id ''trg_'' 0) w'
         (pr_world (race_run trg_demo_env [Operate (TWait 60), Claim, Operate (TDisable ''org_1'' []), PollHeld 0] (r\<lparr>pr_world := w'\<rparr>)))"
    by (rule disabled_stays_silent [OF r_def run held, THEN conjunct2]) auto
  with run show ?thesis unfolding r_def by blast
qed

end
