(* ===== verification/CatalogFacade.thy ===== *)
theory CatalogFacade
  imports CatalogTypes Vault Httpx
begin

text \<open>
  \<open>internal/catalog\<close>: the errors, the ports and the facade (\<open>errors.go\<close>, \<open>port.go\<close>, \<open>facade.go\<close>,
  \<open>provider_definitions.go\<close>): integrations and what an organization sees of them, tools, trigger definitions and
  provider definitions. The definitions a facade serves are a map under a lock; here they are a table in
  the state, read and written as a whole, and a loop over the map goes through the table in its order, where the
  code's order is open.
\<close>

section \<open>Errors (errors.go)\<close>

definition ErrIntegrationNotFound :: go_error where
  "ErrIntegrationNotFound = not_found_error ''integration not found''"

definition ErrToolNotFound :: go_error where
  "ErrToolNotFound = not_found_error ''tool not found''"

definition cat_ErrValidation :: "string \<Rightarrow> string \<Rightarrow> go_error" where
  "cat_ErrValidation field issue = validation_error field issue"

definition ErrUnknownProvider :: "string \<Rightarrow> go_error" where
  "ErrUnknownProvider providerSlug = cat_ErrValidation ''providerSlug'' (''unknown provider '' @ providerSlug)"

definition ErrTriggerDefinitionNotFound :: go_error where
  "ErrTriggerDefinitionNotFound = not_found_error ''trigger definition not found''"

definition ErrProviderNotFound :: go_error where
  "ErrProviderNotFound = not_found_error ''provider not found''"

definition cat_ErrInvalidCursor :: go_error where
  "cat_ErrInvalidCursor = invalid_cursor_error"

definition ErrRegistryNotConfigured :: go_error where
  "ErrRegistryNotConfigured = DomainError (httpx_New 503 ''registry_unavailable'' ''no registry is configured for this installation'')"

definition ErrRegistryUnavailable :: go_error where
  "ErrRegistryUnavailable = DomainError (httpx_New 503 ''registry_unavailable'' ''the registry is unavailable'')"

definition ErrBundleVersionNotFound :: go_error where
  "ErrBundleVersionNotFound = not_found_error ''bundle version not found''"

definition ErrUnsupportedFormatVersion :: "int \<Rightarrow> go_error" where
  "ErrUnsupportedFormatVersion formatVersion =
     DomainError (WithDetails (httpx_New 422 ''unsupported_format_version'' ''bundle formatVersion is not supported by this installation build'')
       [(''field'', DStr ''formatVersion''),
        (''issue'', DStr (''got '' @ itoa formatVersion @ '', this installation supports formatVersion 1''))])"

text \<open>The message has a dash outside ASCII, its three UTF-8 bytes written out.\<close>

definition ErrContentHashMismatch :: go_error where
  "ErrContentHashMismatch = DomainError (httpx_New 422 ''content_hash_mismatch''
     (''bundle content hash does not match '' @ [CHR 0xE2, CHR 0x80, CHR 0x94]
        @ '' refusing to activate a possibly corrupted or tampered bundle''))"

section \<open>The facade's state (port.go, facade.go)\<close>

definition toolIDPrefix :: string where
  "toolIDPrefix = ''tool_''"

definition cat_defaultPageLimit :: int where
  "cat_defaultPageLimit = 50"

definition cat_maxPageLimit :: int where
  "cat_maxPageLimit = 200"

text \<open>
  \<open>cat_definitions\<close> and \<open>cat_set_definitions\<close> read and write the served definitions; the ports of registry
  synchronisation are in the theory of the registry.
\<close>

record 's cat_facade =
  cat_repo_Save :: "Integration \<Rightarrow> ('s, unit) act"
  cat_repo_FindByID :: "IntegrationID \<Rightarrow> ('s, Integration option) act"
  cat_repo_ListAll :: "('s, Integration list) act"
  cat_repo_UpdateEncryptedClientSecret :: "IntegrationID \<Rightarrow> string \<Rightarrow> ('s, unit) act"
  cat_definitions :: "'s \<Rightarrow> (string, ProviderDefinition) table"
  cat_set_definitions :: "(string, ProviderDefinition) table \<Rightarrow> 's \<Rightarrow> 's"
  cat_newID :: "'s \<Rightarrow> string \<times> 's"
  cat_now :: "'s \<Rightarrow> time \<times> 's"
  cat_vault :: crypto
  cat_rand :: "nat \<Rightarrow> ('s, string) act"
  cat_GetGovernance :: "OrgID \<Rightarrow> ('s, Governance) act"

definition definitionsSnapshot :: "('s, 'm) cat_facade_scheme \<Rightarrow> 's \<Rightarrow> (string, ProviderDefinition) table \<times> 's" where
  "definitionsSnapshot f s = (cat_definitions f s, s)"

definition definitionByProviderSlug :: "('s, 'm) cat_facade_scheme \<Rightarrow> string \<Rightarrow> 's \<Rightarrow> ProviderDefinition option \<times> 's" where
  "definitionByProviderSlug f slug s = (map_of (cat_definitions f s) slug, s)"

definition setDefinition :: "('s, 'm) cat_facade_scheme \<Rightarrow> ProviderDefinition \<Rightarrow> 's \<Rightarrow> unit \<times> 's" where
  "setDefinition f defn s = ((), cat_set_definitions f (put (PD_Slug defn) defn (cat_definitions f s)) s)"

definition deleteDefinition :: "('s, 'm) cat_facade_scheme \<Rightarrow> string \<Rightarrow> 's \<Rightarrow> unit \<times> 's" where
  "deleteDefinition f providerSlug s = ((), cat_set_definitions f (del providerSlug (cat_definitions f s)) s)"

text \<open>\<open>NewFacade\<close>: a later definition of a slug replaces an earlier one.\<close>

definition cat_NewFacade_definitions :: "ProviderDefinition list \<Rightarrow> (string, ProviderDefinition) table" where
  "cat_NewFacade_definitions definitions = foldl (\<lambda>byslug d. put (PD_Slug d) d byslug) [] definitions"

section \<open>Integrations (facade.go)\<close>

text \<open>\<open>definition, _ := f.definitionByProviderSlug(...)\<close>: no definition is the zero one, whose strings are empty.\<close>

definition summarize :: "('s, 'm) cat_facade_scheme \<Rightarrow> Integration \<Rightarrow> 's \<Rightarrow> IntegrationSummary \<times> 's" where
  "summarize f integration s =
     (let d = map_of (cat_definitions f s) (IG_ProviderSlug integration);
          of_definition = (\<lambda>field. case d of None \<Rightarrow> [] | Some d \<Rightarrow> field d)
      in (\<lparr>IS_ID = IG_ID integration, IS_ProviderSlug = IG_ProviderSlug integration, IS_ProviderName = of_definition PD_Name,
           IS_Logo = of_definition PD_Logo, IS_AuthScheme = of_definition PD_AuthScheme\<rparr>, s))"

fun summarize_all :: "('s, 'm) cat_facade_scheme \<Rightarrow> Integration list \<Rightarrow> ('s, IntegrationSummary list) act" where
  "summarize_all f [] = ok []"
| "summarize_all f (i # is) = call (summarize f i) (\<lambda>x. attempt (summarize_all f is) (\<lambda>xs. ok (x # xs)))"

definition CreateIntegration :: "('s, 'm) cat_facade_scheme \<Rightarrow> string \<Rightarrow> string \<Rightarrow> string \<Rightarrow> ('s, IntegrationSummary) act" where
  "CreateIntegration f providerSlug clientID clientSecret =
     call (definitionByProviderSlug f providerSlug) (\<lambda>found.
     if found = None then fail (ErrUnknownProvider providerSlug)
     else
     attempt (vault_Encrypt (cat_vault f) (cat_rand f) clientSecret) (\<lambda>encryptedSecret.
     call (cat_newID f) (\<lambda>i.
     call (cat_now f) (\<lambda>now.
     let integration = NewIntegration i providerSlug clientID encryptedSecret now in
     attempt (cat_repo_Save f integration) (\<lambda>_.
     call (summarize f integration) ok)))))"

definition withDecryptedClientSecret :: "('s, 'm) cat_facade_scheme \<Rightarrow> Integration \<Rightarrow> go_error + Integration" where
  "withDecryptedClientSecret f integration =
     (if \<not> IG_ClientSecretEncrypted integration then Inr integration
      else (case vault_Decrypt (cat_vault f) (IG_ClientSecret integration) of
              Inl err \<Rightarrow> Inl err
            | Inr plaintext \<Rightarrow> Inr (integration\<lparr>IG_ClientSecret := plaintext\<rparr>)))"

definition GetIntegration :: "('s, 'm) cat_facade_scheme \<Rightarrow> IntegrationID \<Rightarrow> ('s, Integration) act" where
  "GetIntegration f i =
     attempt (cat_repo_FindByID f i) (\<lambda>found.
     case found of
       None \<Rightarrow> fail ErrIntegrationNotFound
     | Some integration \<Rightarrow> lift (withDecryptedClientSecret f integration))"

definition GetVisibleIntegration :: "('s, 'm) cat_facade_scheme \<Rightarrow> OrgID \<Rightarrow> IntegrationID \<Rightarrow> ('s, Integration) act" where
  "GetVisibleIntegration f org i =
     attempt (GetIntegration f i) (\<lambda>integration.
     attempt (cat_GetGovernance f org) (\<lambda>governance.
     if \<not> IsVisible governance (IG_ID integration) then fail ErrIntegrationNotFound
     else ok integration))"

text \<open>The loop of \<open>EncryptPlaintextClientSecrets\<close>; the count only goes to the log.\<close>

fun encrypt_plaintext :: "('s, 'm) cat_facade_scheme \<Rightarrow> Integration list \<Rightarrow> ('s, unit) act" where
  "encrypt_plaintext f [] = ok ()"
| "encrypt_plaintext f (integration # is) =
     (if IG_ClientSecretEncrypted integration then encrypt_plaintext f is
      else
      attempt (vault_Encrypt (cat_vault f) (cat_rand f) (IG_ClientSecret integration)) (\<lambda>encrypted.
      attempt (cat_repo_UpdateEncryptedClientSecret f (IG_ID integration) encrypted) (\<lambda>_.
      encrypt_plaintext f is)))"

definition EncryptPlaintextClientSecrets :: "('s, 'm) cat_facade_scheme \<Rightarrow> ('s, unit) act" where
  "EncryptPlaintextClientSecrets f =
     attempt (cat_repo_ListAll f) (\<lambda>integrations. encrypt_plaintext f integrations)"

definition GetExpectedParams :: "('s, 'm) cat_facade_scheme \<Rightarrow> IntegrationID \<Rightarrow> ('s, ExpectedParamsView) act" where
  "GetExpectedParams f i =
     attempt (cat_repo_FindByID f i) (\<lambda>found.
     case found of
       None \<Rightarrow> fail ErrIntegrationNotFound
     | Some integration \<Rightarrow>
         call (definitionByProviderSlug f (IG_ProviderSlug integration)) (\<lambda>d.
         case d of
           None \<Rightarrow> fail (ErrUnknownProvider (IG_ProviderSlug integration))
         | Some defn \<Rightarrow> ok \<lparr>XV_ProviderName = PD_Name defn, XV_Fields = PD_ExpectedParams defn\<rparr>))"

definition ListIntegrations :: "('s, 'm) cat_facade_scheme \<Rightarrow> OrgID \<Rightarrow> ('s, IntegrationSummary list) act" where
  "ListIntegrations f org =
     attempt (cat_repo_ListAll f) (\<lambda>integrations.
     attempt (cat_GetGovernance f org) (\<lambda>governance.
     summarize_all f (filter (\<lambda>i. IsVisible governance (IG_ID i)) integrations)))"

definition containsAny :: "string list \<Rightarrow> string \<Rightarrow> bool" where
  "containsAny vals target = list_ex (\<lambda>v. v = target) vals"

definition effectiveVisibility :: "Governance \<Rightarrow> string \<Rightarrow> Visibility" where
  "effectiveVisibility governance integrationID =
     (if IsHidden governance integrationID then VisibilityHidden
      else (case Gov_AllowList governance of
              Some allowed \<Rightarrow> if \<not> containsAny allowed integrationID then VisibilityNotAllowed else VisibilityVisible
            | None \<Rightarrow> VisibilityVisible))"

definition ListIntegrationsWithVisibility :: "('s, 'm) cat_facade_scheme \<Rightarrow> OrgID \<Rightarrow> ('s, IntegrationVisibility list) act" where
  "ListIntegrationsWithVisibility f org =
     attempt (cat_repo_ListAll f) (\<lambda>integrations.
     attempt (cat_GetGovernance f org) (\<lambda>governance.
     attempt (summarize_all f integrations) (\<lambda>summaries.
     ok (map2 (\<lambda>i x. \<lparr>IV_Integration = x, IV_Visibility = effectiveVisibility governance (IG_ID i)\<rparr>) integrations summaries))))"

definition firstNIntegrations :: "IntegrationSummary list \<Rightarrow> int \<Rightarrow> IntegrationSummary list" where
  "firstNIntegrations items n = (if n \<le> 0 \<or> n \<ge> int (length items) then items else take (nat n) items)"

definition orderByFeaturedList :: "IntegrationSummary list \<Rightarrow> string list \<Rightarrow> IntegrationSummary list" where
  "orderByFeaturedList visible featured =
     (let byID = foldl (\<lambda>t x. put (IS_ID x) x t) [] visible in List.map_filter (map_of byID) featured)"

definition ListFeaturedIntegrations :: "('s, 'm) cat_facade_scheme \<Rightarrow> OrgID \<Rightarrow> ('s, IntegrationSummary list) act" where
  "ListFeaturedIntegrations f org =
     attempt (ListIntegrations f org) (\<lambda>visible.
     attempt (cat_GetGovernance f org) (\<lambda>governance.
     if Gov_Featured governance = [] then ok (firstNIntegrations visible (Gov_FeaturedCap governance))
     else ok (orderByFeaturedList visible (Gov_Featured governance))))"

definition GetProviderDefinition :: "('s, 'm) cat_facade_scheme \<Rightarrow> string \<Rightarrow> ('s, ProviderDefinition) act" where
  "GetProviderDefinition f providerSlug =
     call (definitionByProviderSlug f providerSlug) (\<lambda>d.
     case d of None \<Rightarrow> fail (ErrUnknownProvider providerSlug) | Some defn \<Rightarrow> ok defn)"

section \<open>Tools (facade.go)\<close>

definition toolMatchesIdentifier :: "ProviderTool \<Rightarrow> string \<Rightarrow> bool \<Rightarrow> bool" where
  "toolMatchesIdentifier tool idOrSlug byID = (if byID then PT_ID tool = idOrSlug else PT_Slug tool = idOrSlug)"

text \<open>The two nested loops, which return at the first match.\<close>

definition first_tool :: "(ProviderTool \<Rightarrow> bool) \<Rightarrow> ProviderDefinition list \<Rightarrow> (ProviderDefinition \<times> ProviderTool) option" where
  "first_tool p ds = find (\<lambda>(d, t). p t) (concat (map (\<lambda>d. map (\<lambda>t. (d, t)) (PD_Tools d)) ds))"

definition FindToolBySlug :: "('s, 'm) cat_facade_scheme \<Rightarrow> string \<Rightarrow> ('s, ProviderDefinition \<times> ProviderTool) act" where
  "FindToolBySlug f idOrSlug =
     (let byID = HasPrefix idOrSlug toolIDPrefix in
      call (definitionsSnapshot f) (\<lambda>definitions.
      case first_tool (\<lambda>t. toolMatchesIdentifier t idOrSlug byID) (rows definitions) of
        None \<Rightarrow> fail ErrToolNotFound
      | Some found \<Rightarrow> ok found))"

record ToolFilter =
  TF_IntegrationID :: IntegrationID
  TF_ProviderSlug :: string
  TF_IncludeDeprecated :: bool

definition integrationVisibleToOrg :: "('s, 'm) cat_facade_scheme \<Rightarrow> OrgID \<Rightarrow> IntegrationID \<Rightarrow> ('s, bool) act" where
  "integrationVisibleToOrg f org i =
     attempt (GetIntegration f i) (\<lambda>integration.
     attempt (cat_GetGovernance f org) (\<lambda>governance.
     ok (IsVisible governance (IG_ID integration))))"

text \<open>The map from slugs to \<open>true\<close> as the list of its keys.\<close>

definition visibleProviderSlugs :: "('s, 'm) cat_facade_scheme \<Rightarrow> OrgID \<Rightarrow> ('s, string list) act" where
  "visibleProviderSlugs f org =
     call (definitionsSnapshot f) (\<lambda>definitions.
     let every = map fst definitions in
     attempt (cat_GetGovernance f org) (\<lambda>governance.
     if Gov_AllowList governance = None \<and> Gov_Hidden governance = [] then ok every
     else
     attempt (cat_repo_ListAll f) (\<lambda>integrations.
     let hasIntegration = map IG_ProviderSlug integrations;
         hasVisibleIntegration = map IG_ProviderSlug (filter (\<lambda>i. IsVisible governance (IG_ID i)) integrations)
     in ok (filter (\<lambda>slug. slug \<notin> set hasIntegration \<or> slug \<in> set hasVisibleIntegration) every))))"

definition resolveProviderSlugFilter :: "('s, 'm) cat_facade_scheme \<Rightarrow> IntegrationID \<Rightarrow> string \<Rightarrow> ('s, string) act" where
  "resolveProviderSlugFilter f integrationID providerSlug =
     (if integrationID \<noteq> [] then
        attempt (GetIntegration f integrationID) (\<lambda>integration. ok (IG_ProviderSlug integration))
      else if providerSlug \<noteq> [] then
        call (definitionByProviderSlug f providerSlug) (\<lambda>d.
        if d = None then fail ErrProviderNotFound else ok providerSlug)
      else ok [])"

definition resolveToolFilterProviderSlug :: "('s, 'm) cat_facade_scheme \<Rightarrow> ToolFilter \<Rightarrow> ('s, string) act" where
  "resolveToolFilterProviderSlug f flt = resolveProviderSlugFilter f (TF_IntegrationID flt) (TF_ProviderSlug flt)"

definition toolSummaryFrom :: "ProviderDefinition \<Rightarrow> ProviderTool \<Rightarrow> ToolSummary" where
  "toolSummaryFrom defn tool =
     \<lparr>TS_ID = PT_ID tool, TS_Slug = PT_Slug tool, TS_Name = PT_Name tool, TS_Description = PT_Description tool,
      TS_InputSchema = PT_InputSchema tool, TS_OutputSchema = PT_OutputSchema tool, TS_Deprecated = PT_Deprecated tool,
      TS_ProviderSlug = PD_Slug defn, TS_ProviderName = PD_Name defn, TS_ProviderLogo = PD_Logo defn\<rparr>"

definition listed_definitions :: "string \<Rightarrow> string list \<Rightarrow> (string, ProviderDefinition) table \<Rightarrow> ProviderDefinition list" where
  "listed_definitions providerSlugFilter visibleProviders definitions =
     filter (\<lambda>d. (providerSlugFilter = [] \<or> PD_Slug d = providerSlugFilter) \<and> PD_Slug d \<in> set visibleProviders) (rows definitions)"

definition matchingToolSummaries :: "(string, ProviderDefinition) table \<Rightarrow> string \<Rightarrow> bool \<Rightarrow> string list \<Rightarrow> ToolSummary list" where
  "matchingToolSummaries definitions providerSlugFilter includeDeprecated visibleProviders =
     concat (map (\<lambda>d. map (toolSummaryFrom d) (filter (\<lambda>t. \<not> PT_Deprecated t \<or> includeDeprecated) (PD_Tools d)))
       (listed_definitions providerSlugFilter visibleProviders definitions))"

definition ToolDetail :: "('s, 'm) cat_facade_scheme \<Rightarrow> string \<Rightarrow> ('s, ToolSummary) act" where
  "ToolDetail f slug = attempt (FindToolBySlug f slug) (\<lambda>(defn, tool). ok (toolSummaryFrom defn tool))"

text \<open>
  \<open>sort.Search\<close> on a list sorted by slug: the first position whose slug is after the cursor.
\<close>

definition toolsAfterCursor :: "ToolSummary list \<Rightarrow> string \<Rightarrow> ToolSummary list" where
  "toolsAfterCursor tools after = (if after = [] then tools else dropWhile (\<lambda>t. \<not> TS_Slug t > after) tools)"

definition encodeSlugCursor :: "string \<Rightarrow> string" where
  "encodeSlugCursor slug = EncodeCursor [slug]"

definition decodeSlugCursor :: "string \<Rightarrow> go_error + string" where
  "decodeSlugCursor raw =
     (case DecodeCursor raw 1 of
        Inl _ \<Rightarrow> Inl cat_ErrInvalidCursor
      | Inr None \<Rightarrow> Inr []
      | Inr (Some fs) \<Rightarrow> Inr (fs ! 0))"

definition paginateTools :: "ToolSummary list \<Rightarrow> int \<Rightarrow> ToolPage" where
  "paginateTools tools limit =
     (let hasMore = int (length tools) > limit;
          shown = (if hasMore then take (nat limit) tools else tools)
      in \<lparr>TPG_Items = shown, TPG_NextCursor = (if hasMore then encodeSlugCursor (TS_Slug (last shown)) else [])\<rparr>)"

definition normalizePageLimit :: "int \<Rightarrow> int" where
  "normalizePageLimit requested =
     (if requested \<le> 0 then cat_defaultPageLimit
      else if requested > cat_maxPageLimit then cat_maxPageLimit
      else requested)"

definition hidden_integration :: "('s, 'm) cat_facade_scheme \<Rightarrow> OrgID \<Rightarrow> IntegrationID \<Rightarrow> ('s, bool) act" where
  "hidden_integration f org i =
     (if i = [] then ok False else attempt (integrationVisibleToOrg f org i) (\<lambda>visible. ok (\<not> visible)))"

definition ListTools :: "('s, 'm) cat_facade_scheme \<Rightarrow> OrgID \<Rightarrow> ToolFilter \<Rightarrow> string \<Rightarrow> int \<Rightarrow> ('s, ToolPage) act" where
  "ListTools f org flt cursor limit =
     attempt (hidden_integration f org (TF_IntegrationID flt)) (\<lambda>hidden.
     if hidden then ok \<lparr>TPG_Items = [], TPG_NextCursor = []\<rparr>
     else
     attempt (resolveToolFilterProviderSlug f flt) (\<lambda>providerSlug.
     attempt (visibleProviderSlugs f org) (\<lambda>visibleProviders.
     attempt (lift (decodeSlugCursor cursor)) (\<lambda>after.
     call (definitionsSnapshot f) (\<lambda>definitions.
     let tools = sort_key TS_Slug (matchingToolSummaries definitions providerSlug (TF_IncludeDeprecated flt) visibleProviders)
     in ok (paginateTools (toolsAfterCursor tools after) (normalizePageLimit limit)))))))"

section \<open>Trigger definitions (facade.go)\<close>

record TriggerDefinitionFilter =
  TDF_IntegrationID :: IntegrationID
  TDF_ProviderSlug :: string

definition triggerDefinitionSummaryFrom :: "ProviderDefinition \<Rightarrow> TriggerDefinition \<Rightarrow> TriggerDefinitionSummary" where
  "triggerDefinitionSummaryFrom defn trigger =
     \<lparr>TDS_Slug = TD_Slug trigger, TDS_Name = TD_Name trigger, TDS_Description = TD_Description trigger,
      TDS_ConfigSchema = TD_ConfigSchema trigger, TDS_PayloadSchema = TD_PayloadSchema trigger,
      TDS_Ingestion = TD_Ingestion trigger, TDS_PollIntervalSeconds = TD_PollIntervalSeconds trigger,
      TDS_ProviderSlug = PD_Slug defn, TDS_ProviderName = PD_Name defn, TDS_ProviderLogo = PD_Logo defn\<rparr>"

definition first_trigger :: "string \<Rightarrow> ProviderDefinition list \<Rightarrow> (ProviderDefinition \<times> TriggerDefinition) option" where
  "first_trigger slug ds = find (\<lambda>(d, t). TD_Slug t = slug) (concat (map (\<lambda>d. map (\<lambda>t. (d, t)) (PD_Triggers d)) ds))"

definition FindTriggerBySlug :: "('s, 'm) cat_facade_scheme \<Rightarrow> string \<Rightarrow> ('s, ProviderDefinition \<times> TriggerDefinition) act" where
  "FindTriggerBySlug f slug =
     call (definitionsSnapshot f) (\<lambda>definitions.
     case first_trigger slug (rows definitions) of
       None \<Rightarrow> fail ErrTriggerDefinitionNotFound
     | Some found \<Rightarrow> ok found)"

definition TriggerDefinitionDetail :: "('s, 'm) cat_facade_scheme \<Rightarrow> string \<Rightarrow> ('s, TriggerDefinitionSummary) act" where
  "TriggerDefinitionDetail f slug =
     call (definitionsSnapshot f) (\<lambda>definitions.
     case first_trigger slug (rows definitions) of
       None \<Rightarrow> fail ErrTriggerDefinitionNotFound
     | Some (defn, trigger) \<Rightarrow> ok (triggerDefinitionSummaryFrom defn trigger))"

definition matchingTriggerDefinitionSummaries ::
  "(string, ProviderDefinition) table \<Rightarrow> string \<Rightarrow> string list \<Rightarrow> TriggerDefinitionSummary list" where
  "matchingTriggerDefinitionSummaries definitions providerSlugFilter visibleProviders =
     concat (map (\<lambda>d. map (triggerDefinitionSummaryFrom d) (PD_Triggers d))
       (listed_definitions providerSlugFilter visibleProviders definitions))"

definition triggerDefinitionsAfterCursor :: "TriggerDefinitionSummary list \<Rightarrow> string \<Rightarrow> TriggerDefinitionSummary list" where
  "triggerDefinitionsAfterCursor triggers after =
     (if after = [] then triggers else dropWhile (\<lambda>t. \<not> TDS_Slug t > after) triggers)"

definition paginateTriggerDefinitions :: "TriggerDefinitionSummary list \<Rightarrow> int \<Rightarrow> TriggerDefinitionPage" where
  "paginateTriggerDefinitions triggers limit =
     (let hasMore = int (length triggers) > limit;
          shown = (if hasMore then take (nat limit) triggers else triggers)
      in \<lparr>TDP_Items = shown, TDP_NextCursor = (if hasMore then encodeSlugCursor (TDS_Slug (last shown)) else [])\<rparr>)"

definition ListTriggerDefinitions ::
  "('s, 'm) cat_facade_scheme \<Rightarrow> OrgID \<Rightarrow> TriggerDefinitionFilter \<Rightarrow> string \<Rightarrow> int \<Rightarrow> ('s, TriggerDefinitionPage) act" where
  "ListTriggerDefinitions f org flt cursor limit =
     attempt (hidden_integration f org (TDF_IntegrationID flt)) (\<lambda>hidden.
     if hidden then ok \<lparr>TDP_Items = [], TDP_NextCursor = []\<rparr>
     else
     attempt (resolveProviderSlugFilter f (TDF_IntegrationID flt) (TDF_ProviderSlug flt)) (\<lambda>providerSlug.
     attempt (visibleProviderSlugs f org) (\<lambda>visibleProviders.
     attempt (lift (decodeSlugCursor cursor)) (\<lambda>after.
     call (definitionsSnapshot f) (\<lambda>definitions.
     let triggers = sort_key TDS_Slug (matchingTriggerDefinitionSummaries definitions providerSlug visibleProviders)
     in ok (paginateTriggerDefinitions (triggerDefinitionsAfterCursor triggers after) (normalizePageLimit limit)))))))"

section \<open>Provider definitions (provider_definitions.go)\<close>

definition cat_supportedFormatVersion :: int where
  "cat_supportedFormatVersion = 1"

definition providerDefinitionSummaryFrom :: "ProviderDefinition \<Rightarrow> ProviderDefinitionSummary" where
  "providerDefinitionSummaryFrom defn =
     \<lparr>PDS_Slug = PD_Slug defn, PDS_Name = PD_Name defn, PDS_Logo = PD_Logo defn, PDS_AuthScheme = PD_AuthScheme defn,
      PDS_FormatVersion = cat_supportedFormatVersion, PDS_ToolCount = int (length (PD_Tools defn)),
      PDS_TriggerCount = int (length (PD_Triggers defn))\<rparr>"

definition providerDefinitionsAfterCursor :: "ProviderDefinitionSummary list \<Rightarrow> string \<Rightarrow> ProviderDefinitionSummary list" where
  "providerDefinitionsAfterCursor definitions after =
     (if after = [] then definitions else dropWhile (\<lambda>d. \<not> PDS_Slug d > after) definitions)"

definition paginateProviderDefinitions :: "ProviderDefinitionSummary list \<Rightarrow> int \<Rightarrow> ProviderDefinitionPage" where
  "paginateProviderDefinitions definitions limit =
     (let hasMore = int (length definitions) > limit;
          shown = (if hasMore then take (nat limit) definitions else definitions)
      in \<lparr>PDP_Items = shown, PDP_NextCursor = (if hasMore then encodeSlugCursor (PDS_Slug (last shown)) else [])\<rparr>)"

definition ListProviderDefinitions :: "('s, 'm) cat_facade_scheme \<Rightarrow> string \<Rightarrow> int \<Rightarrow> ('s, ProviderDefinitionPage) act" where
  "ListProviderDefinitions f cursor limit =
     attempt (lift (decodeSlugCursor cursor)) (\<lambda>after.
     call (definitionsSnapshot f) (\<lambda>definitions.
     let summaries = sort_key PDS_Slug (map providerDefinitionSummaryFrom (rows definitions))
     in ok (paginateProviderDefinitions (providerDefinitionsAfterCursor summaries after) (normalizePageLimit limit))))"

definition ListIntegrationsForProvider :: "('s, 'm) cat_facade_scheme \<Rightarrow> string \<Rightarrow> ('s, IntegrationSummary list) act" where
  "ListIntegrationsForProvider f providerSlug =
     call (definitionByProviderSlug f providerSlug) (\<lambda>d.
     if d = None then fail ErrProviderNotFound
     else
     attempt (cat_repo_ListAll f) (\<lambda>integrations.
     summarize_all f (filter (\<lambda>i. IG_ProviderSlug i = providerSlug) integrations)))"

definition AString_list :: "string list \<Rightarrow> any" where
  "AString_list xs = ASlice (map AStr xs)"

definition expectedParamsBundle :: "ExpectedParam list \<Rightarrow> any" where
  "expectedParamsBundle params =
     ASlice (map (\<lambda>p. AMap (as_map [(''name'', AStr (XP_Name p)), (''displayName'', AStr (XP_DisplayName p)),
       (''description'', AStr (XP_Description p)), (''required'', ABool (XP_Required p)), (''secret'', ABool (XP_Secret p))])) params)"

definition toolsBundle :: "ProviderTool list \<Rightarrow> any" where
  "toolsBundle tools =
     ASlice (map (\<lambda>t. AMap (as_map [(''slug'', AStr (PT_Slug t)), (''name'', AStr (PT_Name t)), (''description'', AStr (PT_Description t)),
       (''deprecated'', ABool (PT_Deprecated t)), (''inputSchema'', AMap (PT_InputSchema t)), (''outputSchema'', AMap (PT_OutputSchema t)),
       (''mapping'', AMap (as_map [(''method'', AStr (PT_Method t)), (''path'', AStr (PT_Path t)),
         (''query'', string_map_any (MP_Query (PT_Mapping t))), (''header'', string_map_any (MP_Header (PT_Mapping t))),
         (''body'', string_map_any (MP_Body (PT_Mapping t)))]))])) tools)"

definition triggersBundle :: "TriggerDefinition list \<Rightarrow> any" where
  "triggersBundle triggers =
     ASlice (map (\<lambda>t. AMap (as_map [(''slug'', AStr (TD_Slug t)), (''name'', AStr (TD_Name t)), (''description'', AStr (TD_Description t)),
       (''configSchema'', AMap (TD_ConfigSchema t)), (''payloadSchema'', AMap (TD_PayloadSchema t)), (''ingestion'', AStr (TD_Ingestion t)),
       (''pollIntervalSeconds'', AInt (TD_PollIntervalSeconds t)),
       (''poll'', AMap (as_map [(''method'', AStr (TP_Method (TD_Poll t))), (''path'', AStr (TP_Path (TD_Poll t))),
         (''query'', string_map_any (TP_Query (TD_Poll t))), (''body'', string_map_any (TP_Body (TD_Poll t))),
         (''recordsPath'', AStr (TP_RecordsPath (TD_Poll t))), (''recordIdPath'', AStr (TP_RecordIDPath (TD_Poll t))),
         (''recordTimestampPath'', AStr (TP_RecordTimestampPath (TD_Poll t))), (''payload'', string_map_any (TP_Payload (TD_Poll t)))]))])) triggers)"

definition providerDefinitionBundle :: "ProviderDefinition \<Rightarrow> any_map" where
  "providerDefinitionBundle d =
     as_map [(''formatVersion'', AInt cat_supportedFormatVersion), (''slug'', AStr (PD_Slug d)), (''name'', AStr (PD_Name d)),
       (''logo'', AStr (PD_Logo d)), (''authScheme'', AStr (PD_AuthScheme d)),
       (''oauth'', AMap (as_map [(''authorizeUrl'', AStr (PD_AuthorizeURL d)), (''tokenUrl'', AStr (PD_TokenURL d)),
         (''userInfoUrl'', AStr (PD_UserInfoURL d)), (''scopes'', AString_list (PD_Scopes d)),
         (''credentialStyle'', AStr (PD_CredentialStyle d)),
         (''userInfo'', AMap (as_map [(''email'', AStr (UI_EmailField (PD_UserInfo d))),
           (''displayName'', AStr (UI_DisplayNameField (PD_UserInfo d)))]))])),
       (''mapping'', AMap [(''baseUrl'', AStr (PD_BaseURL d))]),
       (''expectedParams'', expectedParamsBundle (PD_ExpectedParams d)), (''tools'', toolsBundle (PD_Tools d)),
       (''triggers'', triggersBundle (PD_Triggers d))]"

record ProviderDefinitionBundleDetail =
  PDD_Slug :: string
  PDD_Name :: string
  PDD_FormatVersion :: int
  PDD_Bundle :: any_map

definition ProviderDefinitionDetail :: "('s, 'm) cat_facade_scheme \<Rightarrow> string \<Rightarrow> ('s, ProviderDefinitionBundleDetail) act" where
  "ProviderDefinitionDetail f providerSlug =
     call (definitionByProviderSlug f providerSlug) (\<lambda>d.
     case d of
       None \<Rightarrow> fail ErrProviderNotFound
     | Some defn \<Rightarrow>
         ok \<lparr>PDD_Slug = PD_Slug defn, PDD_Name = PD_Name defn, PDD_FormatVersion = cat_supportedFormatVersion,
             PDD_Bundle = providerDefinitionBundle defn\<rparr>)"

end
