(* ===== verification/RegistryBundle.thy ===== *)
theory RegistryBundle
  imports CatalogTypes Vault GoJSONRound
begin

text \<open>
  \<open>internal/registrybundle\<close>: the bundle a registry publishes for one provider (\<open>bundle.go\<close>), its JSON, and its
  content hash (\<open>hash.go\<close>). A nil slice or map is not told apart from an empty one: the model writes both as
  \<open>[]\<close> or \<open>{}\<close>, where \<open>encoding/json\<close> writes a nil one without \<open>omitempty\<close> as \<open>null\<close>.
\<close>

section \<open>Bundles (bundle.go)\<close>

record OAuthConfig =
  BO_AuthorizeURL :: string
  BO_TokenURL :: string
  BO_UserInfoURL :: string
  BO_Scopes :: "string list"
  BO_CredentialStyle :: string
  BO_UserInfoEmailField :: string
  BO_UserInfoDisplayNameField :: string

record BundleParam =
  BX_Name :: string
  BX_DisplayName :: string
  BX_Description :: string
  BX_Required :: bool
  BX_Secret :: bool

record BundlePagination =
  BG_PageSizeParam :: string
  BG_CursorParam :: string
  BG_NextCursorPath :: string

record ToolMapping =
  BM_Method :: string
  BM_Path :: string
  BM_Query :: string_map
  BM_Header :: string_map
  BM_Body :: string_map
  BM_Pagination :: "BundlePagination option"
  BM_FileInputs :: "string list"

record BundleTool =
  BT_ID :: string
  BT_Slug :: string
  BT_Name :: string
  BT_Description :: string
  BT_Deprecated :: bool
  BT_InputSchema :: any_map
  BT_OutputSchema :: any_map
  BT_Sample :: any_map
  BT_Mapping :: ToolMapping

record TriggerPoll =
  BP_Method :: string
  BP_Path :: string
  BP_Query :: string_map
  BP_Body :: string_map
  BP_RecordsPath :: string
  BP_RecordIDPath :: string
  BP_RecordTimestampPath :: string
  BP_Payload :: string_map

record BundleTrigger =
  BR_Slug :: string
  BR_Name :: string
  BR_Description :: string
  BR_ConfigSchema :: any_map
  BR_PayloadSchema :: any_map
  BR_Ingestion :: string
  BR_PollIntervalSeconds :: int
  BR_Poll :: TriggerPoll

record Bundle =
  B_FormatVersion :: int
  B_ProviderSlug :: string
  B_Version :: string
  B_ContentHash :: string
  B_Name :: string
  B_Logo :: string
  B_AuthScheme :: string
  B_BaseURL :: string
  B_OAuth :: OAuthConfig
  B_ExpectedParams :: "BundleParam list"
  B_Tools :: "BundleTool list"
  B_Triggers :: "BundleTrigger list"

section \<open>Encoding (the struct tags)\<close>

text \<open>A field, and a field with \<open>omitempty\<close>.\<close>

type_synonym members = "(string \<times> json) list"

definition seg :: "string \<Rightarrow> json \<Rightarrow> members" where
  "seg tag v = [(tag, v)]"

definition str_opt :: "string \<Rightarrow> string \<Rightarrow> members" where
  "str_opt tag s = (if s = [] then [] else seg tag (JStr s))"

definition bool_opt :: "string \<Rightarrow> bool \<Rightarrow> members" where
  "bool_opt tag b = (if b then seg tag (JBool True) else [])"

definition string_map_json :: "string_map \<Rightarrow> json" where
  "string_map_json m = JObj (map (\<lambda>kv. (fst kv, JStr (snd kv))) m)"

definition any_map_json :: "any_map \<Rightarrow> json" where
  "any_map_json m = any_json (AMap m)"

definition smap_opt :: "string \<Rightarrow> string_map \<Rightarrow> members" where
  "smap_opt tag m = (if m = [] then [] else seg tag (string_map_json m))"

definition list_opt :: "string \<Rightarrow> ('a \<Rightarrow> json) \<Rightarrow> 'a list \<Rightarrow> members" where
  "list_opt tag enc xs = (if xs = [] then [] else seg tag (JArr (map enc xs)))"

definition oauth_json :: "OAuthConfig \<Rightarrow> json" where
  "oauth_json x = JObj (seg ''authorizeUrl'' (JStr (BO_AuthorizeURL x)) @ seg ''tokenUrl'' (JStr (BO_TokenURL x))
     @ str_opt ''userInfoUrl'' (BO_UserInfoURL x) @ seg ''scopes'' (JArr (map JStr (BO_Scopes x)))
     @ str_opt ''credentialStyle'' (BO_CredentialStyle x) @ str_opt ''userInfoEmailField'' (BO_UserInfoEmailField x)
     @ str_opt ''userInfoDisplayNameField'' (BO_UserInfoDisplayNameField x))"

definition param_json :: "BundleParam \<Rightarrow> json" where
  "param_json x = JObj (seg ''name'' (JStr (BX_Name x)) @ seg ''displayName'' (JStr (BX_DisplayName x))
     @ str_opt ''description'' (BX_Description x) @ bool_opt ''required'' (BX_Required x) @ bool_opt ''secret'' (BX_Secret x))"

definition pagination_json :: "BundlePagination \<Rightarrow> json" where
  "pagination_json x = JObj (str_opt ''pageSizeParam'' (BG_PageSizeParam x) @ str_opt ''cursorParam'' (BG_CursorParam x)
     @ str_opt ''nextCursorPath'' (BG_NextCursorPath x))"

definition mapping_json :: "ToolMapping \<Rightarrow> json" where
  "mapping_json x = JObj (seg ''method'' (JStr (BM_Method x)) @ seg ''path'' (JStr (BM_Path x)) @ smap_opt ''query'' (BM_Query x)
     @ smap_opt ''header'' (BM_Header x) @ smap_opt ''body'' (BM_Body x)
     @ (case BM_Pagination x of None \<Rightarrow> [] | Some p \<Rightarrow> seg ''pagination'' (pagination_json p))
     @ list_opt ''fileInputs'' JStr (BM_FileInputs x))"

definition tool_json :: "BundleTool \<Rightarrow> json" where
  "tool_json x = JObj (str_opt ''id'' (BT_ID x) @ seg ''slug'' (JStr (BT_Slug x)) @ seg ''name'' (JStr (BT_Name x))
     @ str_opt ''description'' (BT_Description x) @ bool_opt ''deprecated'' (BT_Deprecated x)
     @ seg ''inputSchema'' (any_map_json (BT_InputSchema x)) @ seg ''outputSchema'' (any_map_json (BT_OutputSchema x))
     @ (if BT_Sample x = [] then [] else seg ''sample'' (any_map_json (BT_Sample x)))
     @ seg ''mapping'' (mapping_json (BT_Mapping x)))"

definition poll_json :: "TriggerPoll \<Rightarrow> json" where
  "poll_json x = JObj (seg ''method'' (JStr (BP_Method x)) @ seg ''path'' (JStr (BP_Path x)) @ smap_opt ''query'' (BP_Query x)
     @ smap_opt ''body'' (BP_Body x) @ seg ''recordsPath'' (JStr (BP_RecordsPath x)) @ seg ''recordIdPath'' (JStr (BP_RecordIDPath x))
     @ seg ''recordTimestampPath'' (JStr (BP_RecordTimestampPath x)) @ seg ''payload'' (string_map_json (BP_Payload x)))"

definition trigger_json :: "BundleTrigger \<Rightarrow> json" where
  "trigger_json x = JObj (seg ''slug'' (JStr (BR_Slug x)) @ seg ''name'' (JStr (BR_Name x)) @ str_opt ''description'' (BR_Description x)
     @ seg ''configSchema'' (any_map_json (BR_ConfigSchema x)) @ seg ''payloadSchema'' (any_map_json (BR_PayloadSchema x))
     @ seg ''ingestion'' (JStr (BR_Ingestion x))
     @ (if BR_PollIntervalSeconds x = 0 then [] else seg ''pollIntervalSeconds'' (JNum (itoa (BR_PollIntervalSeconds x))))
     @ seg ''poll'' (poll_json (BR_Poll x)))"

definition bundle_json :: "Bundle \<Rightarrow> json" where
  "bundle_json x = JObj (seg ''formatVersion'' (JNum (itoa (B_FormatVersion x))) @ seg ''providerSlug'' (JStr (B_ProviderSlug x))
     @ str_opt ''version'' (B_Version x) @ str_opt ''contentHash'' (B_ContentHash x) @ seg ''name'' (JStr (B_Name x))
     @ str_opt ''logo'' (B_Logo x) @ str_opt ''authScheme'' (B_AuthScheme x) @ seg ''baseUrl'' (JStr (B_BaseURL x))
     @ seg ''oauth'' (oauth_json (B_OAuth x)) @ list_opt ''expectedParams'' param_json (B_ExpectedParams x)
     @ seg ''tools'' (JArr (map tool_json (B_Tools x))) @ list_opt ''triggers'' trigger_json (B_Triggers x))"

section \<open>Content hash (hash.go)\<close>

definition hex_encode :: "string \<Rightarrow> string" where
  "hex_encode s = concat (map (\<lambda>c. [hex_digit (of_char c div 16), hex_digit (of_char c mod 16)]) s)"

definition ContentHash :: "crypto \<Rightarrow> Bundle \<Rightarrow> string" where
  "ContentHash c bundle = ''sha256:'' @ hex_encode (sha256 c (marshal (bundle_json (bundle\<lparr>B_ContentHash := []\<rparr>))))"

section \<open>Decoding\<close>

text \<open>
  \<open>dec acc v\<close> decodes \<open>v\<close> into a variable that holds \<open>acc\<close>; a member is decoded into the field as the members
  before it left it. \<open>null\<close> leaves a string, number, bool or struct alone and clears a slice, map or pointer. The
  elements of a slice start from zero values; the code may show remains of an earlier array where a document names
  the same field twice.
\<close>

fun field_with :: "string \<Rightarrow> ('a \<Rightarrow> json \<Rightarrow> 'a option) \<Rightarrow> 'a \<Rightarrow> members \<Rightarrow> 'a option" where
  "field_with tag dec acc [] = Some acc"
| "field_with tag dec acc ((k, v) # kvs) =
     (if json_lower k \<noteq> json_lower tag then field_with tag dec acc kvs
      else (case dec acc v of None \<Rightarrow> None | Some x \<Rightarrow> field_with tag dec x kvs))"

definition dec_str :: "string \<Rightarrow> json \<Rightarrow> string option" where
  "dec_str acc v = (case v of JNull \<Rightarrow> Some acc | JStr s \<Rightarrow> Some s | _ \<Rightarrow> None)"

definition dec_bool :: "bool \<Rightarrow> json \<Rightarrow> bool option" where
  "dec_bool acc v = (case v of JNull \<Rightarrow> Some acc | JBool b \<Rightarrow> Some b | _ \<Rightarrow> None)"

definition dec_int :: "int \<Rightarrow> json \<Rightarrow> int option" where
  "dec_int acc v = (case v of JNull \<Rightarrow> Some acc | JNum n \<Rightarrow> int64_text n | _ \<Rightarrow> None)"

definition dec_list :: "('a \<Rightarrow> json \<Rightarrow> 'a option) \<Rightarrow> 'a \<Rightarrow> 'a list \<Rightarrow> json \<Rightarrow> 'a list option" where
  "dec_list dec zero acc v = (case v of JNull \<Rightarrow> Some [] | JArr xs \<Rightarrow> those (map (dec zero) xs) | _ \<Rightarrow> None)"

definition dec_map :: "(json \<Rightarrow> 'a option) \<Rightarrow> (string \<times> 'a) list \<Rightarrow> json \<Rightarrow> (string \<times> 'a) list option" where
  "dec_map dec acc v =
     (case v of
        JNull \<Rightarrow> Some []
      | JObj kvs \<Rightarrow> map_option (\<lambda>xs. foldl (\<lambda>m kv. map_put (fst kv) (snd kv) m) acc (zip (map fst kvs) xs))
          (those (map (\<lambda>kv. dec (snd kv)) kvs))
      | _ \<Rightarrow> None)"

definition dec_any_map :: "any_map \<Rightarrow> json \<Rightarrow> any_map option" where
  "dec_any_map = dec_map decode_any"

definition dec_string_map :: "string_map \<Rightarrow> json \<Rightarrow> string_map option" where
  "dec_string_map = dec_map (dec_str [])"

definition dec_pointer :: "('a \<Rightarrow> json \<Rightarrow> 'a option) \<Rightarrow> 'a \<Rightarrow> 'a option \<Rightarrow> json \<Rightarrow> 'a option option" where
  "dec_pointer dec zero acc v =
     (if v = JNull then Some None else map_option Some (dec (case acc of None \<Rightarrow> zero | Some x \<Rightarrow> x) v))"

definition zero_oauth :: OAuthConfig where
  "zero_oauth = \<lparr>BO_AuthorizeURL = [], BO_TokenURL = [], BO_UserInfoURL = [], BO_Scopes = [], BO_CredentialStyle = [],
     BO_UserInfoEmailField = [], BO_UserInfoDisplayNameField = []\<rparr>"

definition zero_param :: BundleParam where
  "zero_param = \<lparr>BX_Name = [], BX_DisplayName = [], BX_Description = [], BX_Required = False, BX_Secret = False\<rparr>"

definition zero_pagination :: BundlePagination where
  "zero_pagination = \<lparr>BG_PageSizeParam = [], BG_CursorParam = [], BG_NextCursorPath = []\<rparr>"

definition zero_mapping :: ToolMapping where
  "zero_mapping = \<lparr>BM_Method = [], BM_Path = [], BM_Query = [], BM_Header = [], BM_Body = [], BM_Pagination = None, BM_FileInputs = []\<rparr>"

definition zero_tool :: BundleTool where
  "zero_tool = \<lparr>BT_ID = [], BT_Slug = [], BT_Name = [], BT_Description = [], BT_Deprecated = False, BT_InputSchema = [],
     BT_OutputSchema = [], BT_Sample = [], BT_Mapping = zero_mapping\<rparr>"

definition zero_poll :: TriggerPoll where
  "zero_poll = \<lparr>BP_Method = [], BP_Path = [], BP_Query = [], BP_Body = [], BP_RecordsPath = [], BP_RecordIDPath = [],
     BP_RecordTimestampPath = [], BP_Payload = []\<rparr>"

definition zero_trigger :: BundleTrigger where
  "zero_trigger = \<lparr>BR_Slug = [], BR_Name = [], BR_Description = [], BR_ConfigSchema = [], BR_PayloadSchema = [], BR_Ingestion = [],
     BR_PollIntervalSeconds = 0, BR_Poll = zero_poll\<rparr>"

definition zero_bundle :: Bundle where
  "zero_bundle = \<lparr>B_FormatVersion = 0, B_ProviderSlug = [], B_Version = [], B_ContentHash = [], B_Name = [], B_Logo = [],
     B_AuthScheme = [], B_BaseURL = [], B_OAuth = zero_oauth, B_ExpectedParams = [], B_Tools = [], B_Triggers = []\<rparr>"

text \<open>Each struct: its members, one field after the other.\<close>

definition oauth_members :: "OAuthConfig \<Rightarrow> members \<Rightarrow> OAuthConfig option" where
  "oauth_members acc ms =
     Option.bind (field_with ''authorizeUrl'' dec_str (BO_AuthorizeURL acc) ms) (\<lambda>a.
     Option.bind (field_with ''tokenUrl'' dec_str (BO_TokenURL acc) ms) (\<lambda>b.
     Option.bind (field_with ''userInfoUrl'' dec_str (BO_UserInfoURL acc) ms) (\<lambda>c.
     Option.bind (field_with ''scopes'' (dec_list dec_str []) (BO_Scopes acc) ms) (\<lambda>d.
     Option.bind (field_with ''credentialStyle'' dec_str (BO_CredentialStyle acc) ms) (\<lambda>e.
     Option.bind (field_with ''userInfoEmailField'' dec_str (BO_UserInfoEmailField acc) ms) (\<lambda>f.
     Option.bind (field_with ''userInfoDisplayNameField'' dec_str (BO_UserInfoDisplayNameField acc) ms) (\<lambda>g.
     Some \<lparr>BO_AuthorizeURL = a, BO_TokenURL = b, BO_UserInfoURL = c, BO_Scopes = d, BO_CredentialStyle = e,
       BO_UserInfoEmailField = f, BO_UserInfoDisplayNameField = g\<rparr>)))))))"

definition param_members :: "BundleParam \<Rightarrow> members \<Rightarrow> BundleParam option" where
  "param_members acc ms =
     Option.bind (field_with ''name'' dec_str (BX_Name acc) ms) (\<lambda>a.
     Option.bind (field_with ''displayName'' dec_str (BX_DisplayName acc) ms) (\<lambda>b.
     Option.bind (field_with ''description'' dec_str (BX_Description acc) ms) (\<lambda>c.
     Option.bind (field_with ''required'' dec_bool (BX_Required acc) ms) (\<lambda>d.
     Option.bind (field_with ''secret'' dec_bool (BX_Secret acc) ms) (\<lambda>e.
     Some \<lparr>BX_Name = a, BX_DisplayName = b, BX_Description = c, BX_Required = d, BX_Secret = e\<rparr>)))))"

definition pagination_members :: "BundlePagination \<Rightarrow> members \<Rightarrow> BundlePagination option" where
  "pagination_members acc ms =
     Option.bind (field_with ''pageSizeParam'' dec_str (BG_PageSizeParam acc) ms) (\<lambda>a.
     Option.bind (field_with ''cursorParam'' dec_str (BG_CursorParam acc) ms) (\<lambda>b.
     Option.bind (field_with ''nextCursorPath'' dec_str (BG_NextCursorPath acc) ms) (\<lambda>c.
     Some \<lparr>BG_PageSizeParam = a, BG_CursorParam = b, BG_NextCursorPath = c\<rparr>)))"

definition dec_struct :: "('a \<Rightarrow> members \<Rightarrow> 'a option) \<Rightarrow> 'a \<Rightarrow> json \<Rightarrow> 'a option" where
  "dec_struct fs acc v = Option.bind (json_members v) (fs acc)"

definition mapping_members :: "ToolMapping \<Rightarrow> members \<Rightarrow> ToolMapping option" where
  "mapping_members acc ms =
     Option.bind (field_with ''method'' dec_str (BM_Method acc) ms) (\<lambda>a.
     Option.bind (field_with ''path'' dec_str (BM_Path acc) ms) (\<lambda>b.
     Option.bind (field_with ''query'' dec_string_map (BM_Query acc) ms) (\<lambda>c.
     Option.bind (field_with ''header'' dec_string_map (BM_Header acc) ms) (\<lambda>d.
     Option.bind (field_with ''body'' dec_string_map (BM_Body acc) ms) (\<lambda>e.
     Option.bind (field_with ''pagination'' (dec_pointer (dec_struct pagination_members) zero_pagination) (BM_Pagination acc) ms) (\<lambda>f.
     Option.bind (field_with ''fileInputs'' (dec_list dec_str []) (BM_FileInputs acc) ms) (\<lambda>g.
     Some \<lparr>BM_Method = a, BM_Path = b, BM_Query = c, BM_Header = d, BM_Body = e, BM_Pagination = f, BM_FileInputs = g\<rparr>)))))))"

definition tool_members :: "BundleTool \<Rightarrow> members \<Rightarrow> BundleTool option" where
  "tool_members acc ms =
     Option.bind (field_with ''id'' dec_str (BT_ID acc) ms) (\<lambda>a.
     Option.bind (field_with ''slug'' dec_str (BT_Slug acc) ms) (\<lambda>b.
     Option.bind (field_with ''name'' dec_str (BT_Name acc) ms) (\<lambda>c.
     Option.bind (field_with ''description'' dec_str (BT_Description acc) ms) (\<lambda>d.
     Option.bind (field_with ''deprecated'' dec_bool (BT_Deprecated acc) ms) (\<lambda>e.
     Option.bind (field_with ''inputSchema'' dec_any_map (BT_InputSchema acc) ms) (\<lambda>f.
     Option.bind (field_with ''outputSchema'' dec_any_map (BT_OutputSchema acc) ms) (\<lambda>g.
     Option.bind (field_with ''sample'' dec_any_map (BT_Sample acc) ms) (\<lambda>h.
     Option.bind (field_with ''mapping'' (dec_struct mapping_members) (BT_Mapping acc) ms) (\<lambda>i.
     Some \<lparr>BT_ID = a, BT_Slug = b, BT_Name = c, BT_Description = d, BT_Deprecated = e, BT_InputSchema = f, BT_OutputSchema = g,
       BT_Sample = h, BT_Mapping = i\<rparr>)))))))))"

definition poll_members :: "TriggerPoll \<Rightarrow> members \<Rightarrow> TriggerPoll option" where
  "poll_members acc ms =
     Option.bind (field_with ''method'' dec_str (BP_Method acc) ms) (\<lambda>a.
     Option.bind (field_with ''path'' dec_str (BP_Path acc) ms) (\<lambda>b.
     Option.bind (field_with ''query'' dec_string_map (BP_Query acc) ms) (\<lambda>c.
     Option.bind (field_with ''body'' dec_string_map (BP_Body acc) ms) (\<lambda>d.
     Option.bind (field_with ''recordsPath'' dec_str (BP_RecordsPath acc) ms) (\<lambda>e.
     Option.bind (field_with ''recordIdPath'' dec_str (BP_RecordIDPath acc) ms) (\<lambda>f.
     Option.bind (field_with ''recordTimestampPath'' dec_str (BP_RecordTimestampPath acc) ms) (\<lambda>g.
     Option.bind (field_with ''payload'' dec_string_map (BP_Payload acc) ms) (\<lambda>h.
     Some \<lparr>BP_Method = a, BP_Path = b, BP_Query = c, BP_Body = d, BP_RecordsPath = e, BP_RecordIDPath = f,
       BP_RecordTimestampPath = g, BP_Payload = h\<rparr>))))))))"

definition trigger_members :: "BundleTrigger \<Rightarrow> members \<Rightarrow> BundleTrigger option" where
  "trigger_members acc ms =
     Option.bind (field_with ''slug'' dec_str (BR_Slug acc) ms) (\<lambda>a.
     Option.bind (field_with ''name'' dec_str (BR_Name acc) ms) (\<lambda>b.
     Option.bind (field_with ''description'' dec_str (BR_Description acc) ms) (\<lambda>c.
     Option.bind (field_with ''configSchema'' dec_any_map (BR_ConfigSchema acc) ms) (\<lambda>d.
     Option.bind (field_with ''payloadSchema'' dec_any_map (BR_PayloadSchema acc) ms) (\<lambda>e.
     Option.bind (field_with ''ingestion'' dec_str (BR_Ingestion acc) ms) (\<lambda>f.
     Option.bind (field_with ''pollIntervalSeconds'' dec_int (BR_PollIntervalSeconds acc) ms) (\<lambda>g.
     Option.bind (field_with ''poll'' (dec_struct poll_members) (BR_Poll acc) ms) (\<lambda>h.
     Some \<lparr>BR_Slug = a, BR_Name = b, BR_Description = c, BR_ConfigSchema = d, BR_PayloadSchema = e, BR_Ingestion = f,
       BR_PollIntervalSeconds = g, BR_Poll = h\<rparr>))))))))"

definition bundle_members :: "Bundle \<Rightarrow> members \<Rightarrow> Bundle option" where
  "bundle_members acc ms =
     Option.bind (field_with ''formatVersion'' dec_int (B_FormatVersion acc) ms) (\<lambda>a.
     Option.bind (field_with ''providerSlug'' dec_str (B_ProviderSlug acc) ms) (\<lambda>b.
     Option.bind (field_with ''version'' dec_str (B_Version acc) ms) (\<lambda>c.
     Option.bind (field_with ''contentHash'' dec_str (B_ContentHash acc) ms) (\<lambda>d.
     Option.bind (field_with ''name'' dec_str (B_Name acc) ms) (\<lambda>e.
     Option.bind (field_with ''logo'' dec_str (B_Logo acc) ms) (\<lambda>f.
     Option.bind (field_with ''authScheme'' dec_str (B_AuthScheme acc) ms) (\<lambda>g.
     Option.bind (field_with ''baseUrl'' dec_str (B_BaseURL acc) ms) (\<lambda>h.
     Option.bind (field_with ''oauth'' (dec_struct oauth_members) (B_OAuth acc) ms) (\<lambda>i.
     Option.bind (field_with ''expectedParams'' (dec_list (dec_struct param_members) zero_param) (B_ExpectedParams acc) ms) (\<lambda>j.
     Option.bind (field_with ''tools'' (dec_list (dec_struct tool_members) zero_tool) (B_Tools acc) ms) (\<lambda>k.
     Option.bind (field_with ''triggers'' (dec_list (dec_struct trigger_members) zero_trigger) (B_Triggers acc) ms) (\<lambda>l.
     Some \<lparr>B_FormatVersion = a, B_ProviderSlug = b, B_Version = c, B_ContentHash = d, B_Name = e, B_Logo = f, B_AuthScheme = g,
       B_BaseURL = h, B_OAuth = i, B_ExpectedParams = j, B_Tools = k, B_Triggers = l\<rparr>))))))))))))"

definition Unmarshal_bundle :: "string \<Rightarrow> Bundle option" where
  "Unmarshal_bundle raw = Option.bind (json_parse raw) (dec_struct bundle_members zero_bundle)"

end
