(* ===== verification/CatalogRegistry.thy ===== *)
theory CatalogRegistry
  imports CatalogFacade RegistryBundle
begin

text \<open>
  \<open>internal/catalog\<close>, the registry: activating a published bundle with its checks, carry-over and rollback
  (\<open>registry_sync.go\<close>), the versions and the diff an operator reviews (\<open>registry_review.go\<close>), and the backfill of
  the embedded seed (\<open>embedded_seed_backfill.go\<close>). What only goes to the log is left out.
\<close>

section \<open>Ports (port.go)\<close>

record 's registry_client =
  rc_FetchBundle :: "string \<Rightarrow> string \<Rightarrow> ('s, Bundle) act"
  rc_ListVersions :: "string \<Rightarrow> ('s, string list) act"

record 's activated_definitions =
  ad_Save :: "ActivatedDefinition \<Rightarrow> ('s, unit) act"
  ad_FindByProviderSlug :: "string \<Rightarrow> ('s, ActivatedDefinition option) act"
  ad_ListAll :: "('s, ActivatedDefinition list) act"
  ad_Delete :: "string \<Rightarrow> ('s, unit) act"

record 's registry_facade = "'s cat_facade" +
  cat_registryClient :: "'s registry_client option"
  cat_activatedDefinitions :: "'s activated_definitions option"
  cat_newToolID :: "('s \<Rightarrow> string \<times> 's) option"
  cat_triggerInstancePauser :: "(string \<Rightarrow> ('s, unit) act) option"

definition supportedBundleFormatVersion :: int where
  "supportedBundleFormatVersion = 1"

section \<open>Validation (registry_sync.go)\<close>

definition tool_shape :: "nat \<Rightarrow> BundleTool \<Rightarrow> go_error option" where
  "tool_shape i tool =
     (let prefix = indexed ''tools'' i in
      if BT_Slug tool = [] then Some (cat_ErrValidation (prefix @ ''.slug'') ''must not be empty'')
      else if BT_InputSchema tool = [] then Some (cat_ErrValidation (prefix @ ''.inputSchema'') ''must not be empty'')
      else if BT_OutputSchema tool = [] then Some (cat_ErrValidation (prefix @ ''.outputSchema'') ''must not be empty'')
      else None)"

definition trigger_shape :: "nat \<Rightarrow> BundleTrigger \<Rightarrow> go_error option" where
  "trigger_shape i trigger =
     (let prefix = indexed ''triggers'' i in
      if BR_Slug trigger = [] then Some (cat_ErrValidation (prefix @ ''.slug'') ''must not be empty'')
      else if BR_ConfigSchema trigger = [] then Some (cat_ErrValidation (prefix @ ''.configSchema'') ''must not be empty'')
      else if BR_PayloadSchema trigger = [] then Some (cat_ErrValidation (prefix @ ''.payloadSchema'') ''must not be empty'')
      else None)"

definition validateBundleShape :: "Bundle \<Rightarrow> go_error option" where
  "validateBundleShape bundle = or_else (first_error tool_shape 0 (B_Tools bundle)) (first_error trigger_shape 0 (B_Triggers bundle))"

definition validateBundleForActivation :: "crypto \<Rightarrow> Bundle \<Rightarrow> go_error option" where
  "validateBundleForActivation c bundle =
     (if B_FormatVersion bundle \<noteq> supportedBundleFormatVersion then Some (ErrUnsupportedFormatVersion (B_FormatVersion bundle))
      else if B_ContentHash bundle = [] \<or> ContentHash c bundle \<noteq> B_ContentHash bundle then Some ErrContentHashMismatch
      else validateBundleShape bundle)"

section \<open>Bundles and definitions (registry_sync.go)\<close>

definition bundlePaginationFromMapping :: "Pagination option \<Rightarrow> BundlePagination option" where
  "bundlePaginationFromMapping p =
     (case p of
        None \<Rightarrow> None
      | Some p \<Rightarrow> Some \<lparr>BG_PageSizeParam = PG_PageSizeParam p, BG_CursorParam = PG_CursorParam p, BG_NextCursorPath = PG_NextCursorPath p\<rparr>)"

definition bundleToolFromProviderTool :: "ProviderTool \<Rightarrow> bool \<Rightarrow> BundleTool" where
  "bundleToolFromProviderTool tool deprecated =
     \<lparr>BT_ID = PT_ID tool, BT_Slug = PT_Slug tool, BT_Name = PT_Name tool, BT_Description = PT_Description tool,
      BT_Deprecated = deprecated, BT_InputSchema = PT_InputSchema tool, BT_OutputSchema = PT_OutputSchema tool, BT_Sample = [],
      BT_Mapping = \<lparr>BM_Method = PT_Method tool, BM_Path = PT_Path tool, BM_Query = MP_Query (PT_Mapping tool),
        BM_Header = MP_Header (PT_Mapping tool), BM_Body = MP_Body (PT_Mapping tool),
        BM_Pagination = bundlePaginationFromMapping (MP_Pagination (PT_Mapping tool)),
        BM_FileInputs = MP_FileInputs (PT_Mapping tool)\<rparr>\<rparr>"

definition bundleToolFromCarriedOverProviderTool :: "ProviderTool \<Rightarrow> BundleTool" where
  "bundleToolFromCarriedOverProviderTool tool = bundleToolFromProviderTool tool True"

definition bundleExpectedParamsFromDefinition :: "ExpectedParam list \<Rightarrow> BundleParam list" where
  "bundleExpectedParamsFromDefinition params =
     map (\<lambda>p. \<lparr>BX_Name = XP_Name p, BX_DisplayName = XP_DisplayName p, BX_Description = XP_Description p,
       BX_Required = XP_Required p, BX_Secret = XP_Secret p\<rparr>) params"

definition bundleToolsFromDefinition :: "ProviderTool list \<Rightarrow> BundleTool list" where
  "bundleToolsFromDefinition tools = map (\<lambda>t. bundleToolFromProviderTool t (PT_Deprecated t)) tools"

definition bundleTriggersFromDefinition :: "TriggerDefinition list \<Rightarrow> BundleTrigger list" where
  "bundleTriggersFromDefinition triggers =
     map (\<lambda>t. \<lparr>BR_Slug = TD_Slug t, BR_Name = TD_Name t, BR_Description = TD_Description t, BR_ConfigSchema = TD_ConfigSchema t,
       BR_PayloadSchema = TD_PayloadSchema t, BR_Ingestion = TD_Ingestion t, BR_PollIntervalSeconds = TD_PollIntervalSeconds t,
       BR_Poll = \<lparr>BP_Method = TP_Method (TD_Poll t), BP_Path = TP_Path (TD_Poll t), BP_Query = TP_Query (TD_Poll t),
         BP_Body = TP_Body (TD_Poll t), BP_RecordsPath = TP_RecordsPath (TD_Poll t), BP_RecordIDPath = TP_RecordIDPath (TD_Poll t),
         BP_RecordTimestampPath = TP_RecordTimestampPath (TD_Poll t), BP_Payload = TP_Payload (TD_Poll t)\<rparr>\<rparr>) triggers"

definition BundleFromProviderDefinition :: "ProviderDefinition \<Rightarrow> Bundle" where
  "BundleFromProviderDefinition d =
     \<lparr>B_FormatVersion = supportedBundleFormatVersion, B_ProviderSlug = PD_Slug d, B_Version = [], B_ContentHash = [],
      B_Name = PD_Name d, B_Logo = PD_Logo d, B_AuthScheme = PD_AuthScheme d, B_BaseURL = PD_BaseURL d,
      B_OAuth = \<lparr>BO_AuthorizeURL = PD_AuthorizeURL d, BO_TokenURL = PD_TokenURL d, BO_UserInfoURL = PD_UserInfoURL d,
        BO_Scopes = PD_Scopes d, BO_CredentialStyle = PD_CredentialStyle d,
        BO_UserInfoEmailField = UI_EmailField (PD_UserInfo d), BO_UserInfoDisplayNameField = UI_DisplayNameField (PD_UserInfo d)\<rparr>,
      B_ExpectedParams = bundleExpectedParamsFromDefinition (PD_ExpectedParams d),
      B_Tools = bundleToolsFromDefinition (PD_Tools d), B_Triggers = bundleTriggersFromDefinition (PD_Triggers d)\<rparr>"

definition expectedParamsFromBundle :: "BundleParam list \<Rightarrow> ExpectedParam list" where
  "expectedParamsFromBundle params =
     map (\<lambda>p. \<lparr>XP_Name = BX_Name p, XP_DisplayName = BX_DisplayName p, XP_Description = BX_Description p,
       XP_Required = BX_Required p, XP_Secret = BX_Secret p\<rparr>) params"

definition paginationFromBundle :: "BundlePagination option \<Rightarrow> Pagination option" where
  "paginationFromBundle p =
     (case p of
        None \<Rightarrow> None
      | Some p \<Rightarrow> Some \<lparr>PG_PageSizeParam = BG_PageSizeParam p, PG_CursorParam = BG_CursorParam p, PG_NextCursorPath = BG_NextCursorPath p\<rparr>)"

definition mappingFromBundle :: "ToolMapping \<Rightarrow> Mapping" where
  "mappingFromBundle m =
     \<lparr>MP_Query = BM_Query m, MP_Header = BM_Header m, MP_Body = BM_Body m, MP_Pagination = paginationFromBundle (BM_Pagination m),
      MP_FileInputs = BM_FileInputs m\<rparr>"

definition toolsFromBundle :: "BundleTool list \<Rightarrow> ProviderTool list" where
  "toolsFromBundle tools =
     map (\<lambda>t. \<lparr>PT_ID = BT_ID t, PT_Slug = BT_Slug t, PT_Name = BT_Name t, PT_Description = BT_Description t,
       PT_Method = BM_Method (BT_Mapping t), PT_Path = BM_Path (BT_Mapping t), PT_InputSchema = BT_InputSchema t,
       PT_OutputSchema = BT_OutputSchema t, PT_Deprecated = BT_Deprecated t, PT_Mapping = mappingFromBundle (BT_Mapping t)\<rparr>) tools"

definition triggersFromBundle :: "BundleTrigger list \<Rightarrow> TriggerDefinition list" where
  "triggersFromBundle triggers =
     map (\<lambda>t. \<lparr>TD_Slug = BR_Slug t, TD_Name = BR_Name t, TD_Description = BR_Description t, TD_ConfigSchema = BR_ConfigSchema t,
       TD_PayloadSchema = BR_PayloadSchema t, TD_Ingestion = BR_Ingestion t, TD_PollIntervalSeconds = BR_PollIntervalSeconds t,
       TD_Poll = \<lparr>TP_Method = BP_Method (BR_Poll t), TP_Path = BP_Path (BR_Poll t), TP_Query = BP_Query (BR_Poll t),
         TP_Body = BP_Body (BR_Poll t), TP_RecordsPath = BP_RecordsPath (BR_Poll t), TP_RecordIDPath = BP_RecordIDPath (BR_Poll t),
         TP_RecordTimestampPath = BP_RecordTimestampPath (BR_Poll t), TP_Payload = BP_Payload (BR_Poll t)\<rparr>\<rparr>) triggers"

definition definitionFromBundle :: "Bundle \<Rightarrow> ProviderDefinition" where
  "definitionFromBundle b =
     \<lparr>PD_Slug = B_ProviderSlug b, PD_Name = B_Name b, PD_Logo = B_Logo b, PD_AuthScheme = B_AuthScheme b, PD_BaseURL = B_BaseURL b,
      PD_AuthorizeURL = BO_AuthorizeURL (B_OAuth b), PD_TokenURL = BO_TokenURL (B_OAuth b), PD_UserInfoURL = BO_UserInfoURL (B_OAuth b),
      PD_Scopes = BO_Scopes (B_OAuth b), PD_CredentialStyle = BO_CredentialStyle (B_OAuth b),
      PD_UserInfo = \<lparr>UI_EmailField = BO_UserInfoEmailField (B_OAuth b), UI_DisplayNameField = BO_UserInfoDisplayNameField (B_OAuth b)\<rparr>,
      PD_ExpectedParams = expectedParamsFromBundle (B_ExpectedParams b), PD_Tools = toolsFromBundle (B_Tools b),
      PD_Triggers = triggersFromBundle (B_Triggers b)\<rparr>"

definition encodeBundleJSON :: "Bundle \<Rightarrow> string" where
  "encodeBundleJSON bundle = marshal (bundle_json bundle)"

definition decodeBundleJSON :: "string \<Rightarrow> go_error + Bundle" where
  "decodeBundleJSON raw = (case Unmarshal_bundle raw of None \<Rightarrow> Inl (OtherError ''invalid bundle'') | Some b \<Rightarrow> Inr b)"

section \<open>Activation (registry_sync.go)\<close>

record toolSlugDiff =
  tsd_added :: int
  tsd_removed :: int

record triggerSlugDiff =
  gsd_added :: int
  gsd_removed :: int

definition diffTriggerSlugsAgainstPrevious :: "ProviderDefinition option \<Rightarrow> Bundle \<Rightarrow> triggerSlugDiff \<times> string list" where
  "diffTriggerSlugsAgainstPrevious previous bundle =
     (case previous of
        None \<Rightarrow> (\<lparr>gsd_added = int (length (B_Triggers bundle)), gsd_removed = 0\<rparr>, [])
      | Some d \<Rightarrow>
          (let previouslyDeclared = map TD_Slug (PD_Triggers d);
               stillDeclared = map BR_Slug (B_Triggers bundle);
               added = filter (\<lambda>slug. slug \<notin> set previouslyDeclared) stillDeclared;
               removed = filter (\<lambda>slug. slug \<notin> set stillDeclared) previouslyDeclared
           in (\<lparr>gsd_added = int (length added), gsd_removed = int (length removed)\<rparr>, removed)))"

definition withCarriedOverDeprecatedTools :: "Bundle \<Rightarrow> ProviderDefinition option \<Rightarrow> Bundle \<times> toolSlugDiff" where
  "withCarriedOverDeprecatedTools bundle previous =
     (case previous of
        None \<Rightarrow> (bundle, \<lparr>tsd_added = int (length (B_Tools bundle)), tsd_removed = 0\<rparr>)
      | Some d \<Rightarrow>
          (let previouslyDeclared = map PT_Slug (PD_Tools d);
               stillDeclared = map BT_Slug (B_Tools bundle);
               added = filter (\<lambda>slug. slug \<notin> set previouslyDeclared) stillDeclared;
               carried = map bundleToolFromCarriedOverProviderTool (filter (\<lambda>t. PT_Slug t \<notin> set stillDeclared) (PD_Tools d));
               diff = \<lparr>tsd_added = int (length added), tsd_removed = int (length carried)\<rparr>
           in if carried = [] then (bundle, diff) else (bundle\<lparr>B_Tools := B_Tools bundle @ carried\<rparr>, diff)))"

definition currentActivatedRow :: "('s, 'm) registry_facade_scheme \<Rightarrow> string \<Rightarrow> ('s, ActivatedDefinition option) act" where
  "currentActivatedRow f providerSlug =
     (case cat_activatedDefinitions f of None \<Rightarrow> ok None | Some ad \<Rightarrow> ad_FindByProviderSlug ad providerSlug)"

definition persistActivatedDefinition :: "('s, 'm) registry_facade_scheme \<Rightarrow> string \<Rightarrow> Bundle \<Rightarrow> ('s, unit) act" where
  "persistActivatedDefinition f providerSlug bundle =
     (case cat_activatedDefinitions f of
        None \<Rightarrow> ok ()
      | Some ad \<Rightarrow>
          call (cat_now f) (\<lambda>now.
          ad_Save ad \<lparr>AD_ProviderSlug = providerSlug, AD_Version = B_Version bundle, AD_ContentHash = B_ContentHash bundle,
            AD_BundleJSON = encodeBundleJSON bundle, AD_ActivatedAt = now\<rparr>))"

definition pauseInstancesForRemovedTriggers :: "('s, 'm) registry_facade_scheme \<Rightarrow> string list \<Rightarrow> ('s, unit) act" where
  "pauseInstancesForRemovedTriggers f removedSlugs =
     (case cat_triggerInstancePauser f of None \<Rightarrow> ok () | Some pause \<Rightarrow> for_each pause removedSlugs)"

text \<open>The error of restoring the row is only logged.\<close>

definition rollbackActivation ::
  "('s, 'm) registry_facade_scheme \<Rightarrow> string \<Rightarrow> ProviderDefinition option \<Rightarrow> ActivatedDefinition option \<Rightarrow> ('s, unit) act" where
  "rollbackActivation f providerSlug previous previousActivated =
     call (case previous of Some d \<Rightarrow> setDefinition f d | None \<Rightarrow> deleteDefinition f providerSlug) (\<lambda>_.
     case cat_activatedDefinitions f of
       None \<Rightarrow> ok ()
     | Some ad \<Rightarrow>
         discard (case previousActivated of Some row \<Rightarrow> ad_Save ad row | None \<Rightarrow> ad_Delete ad providerSlug) (ok ()))"

definition Activate :: "('s, 'm) registry_facade_scheme \<Rightarrow> string \<Rightarrow> string \<Rightarrow> ('s, ActivatedVersion) act" where
  "Activate f providerSlug version =
     (case cat_registryClient f of
        None \<Rightarrow> fail ErrRegistryNotConfigured
      | Some client \<Rightarrow>
          attempt (rc_FetchBundle client providerSlug version) (\<lambda>pulled.
          check (validateBundleForActivation (cat_vault f) pulled) (
          call (definitionByProviderSlug f providerSlug) (\<lambda>previous.
          attempt (currentActivatedRow f providerSlug) (\<lambda>previousActivated.
          let bundle = fst (withCarriedOverDeprecatedTools pulled previous);
              removedTriggers = snd (diffTriggerSlugsAgainstPrevious previous pulled)
          in
          attempt (persistActivatedDefinition f providerSlug bundle) (\<lambda>_.
          call (setDefinition f (definitionFromBundle bundle)) (\<lambda>_.
          catching (pauseInstancesForRemovedTriggers f removedTriggers) (\<lambda>r.
          case r of
            Inl err \<Rightarrow> discard (rollbackActivation f providerSlug previous previousActivated) (fail err)
          | Inr _ \<Rightarrow> ok \<lparr>AV_ProviderSlug = providerSlug, AV_ActiveVersion = B_Version bundle\<rparr>))))))))"

text \<open>The loop of \<open>LoadActivatedDefinitions\<close>.\<close>

fun load_rows :: "('s, 'm) registry_facade_scheme \<Rightarrow> ActivatedDefinition list \<Rightarrow> ('s, unit) act" where
  "load_rows f [] = ok ()"
| "load_rows f (row # rest) =
     (case decodeBundleJSON (AD_BundleJSON row) of
        Inl err \<Rightarrow> fail (OtherError (''decode activated definition for '' @ AD_ProviderSlug row))
      | Inr bundle \<Rightarrow> call (setDefinition f (definitionFromBundle bundle)) (\<lambda>_. load_rows f rest))"

definition LoadActivatedDefinitions :: "('s, 'm) registry_facade_scheme \<Rightarrow> ('s, unit) act" where
  "LoadActivatedDefinitions f =
     (case cat_activatedDefinitions f of
        None \<Rightarrow> ok ()
      | Some ad \<Rightarrow> attempt (ad_ListAll ad) (load_rows f))"

section \<open>Review (registry_review.go)\<close>

record RegistryVersionSummary =
  RVS_Version :: string
  RVS_Active :: bool

record RegistryVersionsView =
  RVV_Items :: "RegistryVersionSummary list"
  RVV_ActiveVersion :: string

record RegistryDiffItem =
  RDI_Tools :: "string list"
  RDI_Triggers :: "string list"

record RegistryDiff =
  RD_From :: string
  RD_To :: string
  RD_Added :: RegistryDiffItem
  RD_Changed :: RegistryDiffItem
  RD_Removed :: RegistryDiffItem

text \<open>\<open>reflect.DeepEqual\<close> on values of \<open>any\<close>: numbers by the double they denote, maps by key.\<close>

definition same_float :: "string \<Rightarrow> string \<Rightarrow> bool" where
  "same_float a b =
     (case (literal_double a, literal_double b) of
        (Some x, Some y) \<Rightarrow> same_frac x y \<and> (fst x = 0 \<or> fst (literal_value a) = fst (literal_value b))
      | _ \<Rightarrow> a = b)"

fun DeepEqual :: "any \<Rightarrow> any \<Rightarrow> bool" where
  "DeepEqual (AFloat a) (AFloat b) = same_float a b"
| "DeepEqual (ASlice xs) (ASlice ys) = list_all2 DeepEqual xs ys"
| "DeepEqual (AMap m) (AMap n) = list_all2 (\<lambda>kv kv'. fst kv = fst kv' \<and> DeepEqual (snd kv) (snd kv')) m n"
| "DeepEqual a b = (a = b)"

definition toolsBySlug :: "Bundle option \<Rightarrow> (string, BundleTool) table" where
  "toolsBySlug bundle = (case bundle of None \<Rightarrow> [] | Some b \<Rightarrow> foldl (\<lambda>bySlug t. put (BT_Slug t) t bySlug) [] (B_Tools b))"

definition triggersBySlug :: "Bundle option \<Rightarrow> (string, BundleTrigger) table" where
  "triggersBySlug bundle = (case bundle of None \<Rightarrow> [] | Some b \<Rightarrow> foldl (\<lambda>bySlug t. put (BR_Slug t) t bySlug) [] (B_Triggers b))"

definition toolSchemaChanged :: "BundleTool \<Rightarrow> BundleTool \<Rightarrow> bool" where
  "toolSchemaChanged from_tool to_tool \<longleftrightarrow>
     \<not> DeepEqual (AMap (BT_InputSchema from_tool)) (AMap (BT_InputSchema to_tool))
     \<or> \<not> DeepEqual (AMap (BT_OutputSchema from_tool)) (AMap (BT_OutputSchema to_tool))"

definition triggerSchemaChanged :: "BundleTrigger \<Rightarrow> BundleTrigger \<Rightarrow> bool" where
  "triggerSchemaChanged from_trigger to_trigger \<longleftrightarrow>
     \<not> DeepEqual (AMap (BR_ConfigSchema from_trigger)) (AMap (BR_ConfigSchema to_trigger))
     \<or> \<not> DeepEqual (AMap (BR_PayloadSchema from_trigger)) (AMap (BR_PayloadSchema to_trigger))"

text \<open>The loops of \<open>diffToolSlugs\<close> and \<open>diffTriggerSlugs\<close>, which differ only in what counts as changed.\<close>

definition slugs_added :: "(string, 'a) table \<Rightarrow> (string, 'a) table \<Rightarrow> string list" where
  "slugs_added from_map to_map = filter (\<lambda>slug. map_of from_map slug = None) (map fst to_map)"

definition slugs_changed :: "('a \<Rightarrow> 'a \<Rightarrow> bool) \<Rightarrow> (string, 'a) table \<Rightarrow> (string, 'a) table \<Rightarrow> string list" where
  "slugs_changed changed from_map to_map =
     map fst (filter (\<lambda>(slug, x). case map_of from_map slug of None \<Rightarrow> False | Some y \<Rightarrow> changed y x) to_map)"

definition diffToolSlugs :: "(string, BundleTool) table \<Rightarrow> (string, BundleTool) table \<Rightarrow> string list \<times> string list \<times> string list" where
  "diffToolSlugs from_map to_map =
     (sort (slugs_added from_map to_map), sort (slugs_changed toolSchemaChanged from_map to_map), sort (slugs_added to_map from_map))"

definition diffTriggerSlugs ::
  "(string, BundleTrigger) table \<Rightarrow> (string, BundleTrigger) table \<Rightarrow> string list \<times> string list \<times> string list" where
  "diffTriggerSlugs from_map to_map =
     (sort (slugs_added from_map to_map), sort (slugs_changed triggerSchemaChanged from_map to_map), sort (slugs_added to_map from_map))"

definition diffRegistryBundles :: "Bundle option \<Rightarrow> Bundle \<Rightarrow> RegistryDiff" where
  "diffRegistryBundles from_bundle to_bundle =
     (let (addedTools, changedTools, removedTools) = diffToolSlugs (toolsBySlug from_bundle) (toolsBySlug (Some to_bundle));
          (addedTriggers, changedTriggers, removedTriggers) = diffTriggerSlugs (triggersBySlug from_bundle) (triggersBySlug (Some to_bundle))
      in \<lparr>RD_From = [], RD_To = [], RD_Added = \<lparr>RDI_Tools = addedTools, RDI_Triggers = addedTriggers\<rparr>,
          RD_Changed = \<lparr>RDI_Tools = changedTools, RDI_Triggers = changedTriggers\<rparr>,
          RD_Removed = \<lparr>RDI_Tools = removedTools, RDI_Triggers = removedTriggers\<rparr>\<rparr>)"

definition activeBundleFor :: "('s, 'm) registry_facade_scheme \<Rightarrow> string \<Rightarrow> ('s, Bundle option) act" where
  "activeBundleFor f providerSlug =
     (case cat_activatedDefinitions f of
        None \<Rightarrow> ok None
      | Some ad \<Rightarrow>
          attempt (ad_FindByProviderSlug ad providerSlug) (\<lambda>activated.
          case activated of
            None \<Rightarrow> ok None
          | Some row \<Rightarrow> attempt (lift (decodeBundleJSON (AD_BundleJSON row))) (\<lambda>bundle. ok (Some bundle))))"

definition activeVersionOf :: "Bundle option \<Rightarrow> string" where
  "activeVersionOf bundle = (case bundle of None \<Rightarrow> [] | Some b \<Rightarrow> B_Version b)"

definition activeVersionFor :: "('s, 'm) registry_facade_scheme \<Rightarrow> string \<Rightarrow> ('s, string) act" where
  "activeVersionFor f providerSlug = attempt (activeBundleFor f providerSlug) (\<lambda>bundle. ok (activeVersionOf bundle))"

definition ListRegistryVersions :: "('s, 'm) registry_facade_scheme \<Rightarrow> string \<Rightarrow> ('s, RegistryVersionsView) act" where
  "ListRegistryVersions f providerSlug =
     (case cat_registryClient f of
        None \<Rightarrow> fail ErrRegistryNotConfigured
      | Some client \<Rightarrow>
          attempt (rc_ListVersions client providerSlug) (\<lambda>versions.
          attempt (activeVersionFor f providerSlug) (\<lambda>activeVersion.
          ok \<lparr>RVV_Items = map (\<lambda>v. \<lparr>RVS_Version = v, RVS_Active = (v = activeVersion)\<rparr>) versions,
              RVV_ActiveVersion = activeVersion\<rparr>)))"

definition DiffRegistryVersion :: "('s, 'm) registry_facade_scheme \<Rightarrow> string \<Rightarrow> string \<Rightarrow> ('s, RegistryDiff) act" where
  "DiffRegistryVersion f providerSlug toVersion =
     (case cat_registryClient f of
        None \<Rightarrow> fail ErrRegistryNotConfigured
      | Some client \<Rightarrow>
          if toVersion = [] then fail (cat_ErrValidation ''to'' ''must not be empty'')
          else
          attempt (rc_FetchBundle client providerSlug toVersion) (\<lambda>to_bundle.
          attempt (activeBundleFor f providerSlug) (\<lambda>from_bundle.
          ok ((diffRegistryBundles from_bundle to_bundle)\<lparr>RD_From := activeVersionOf from_bundle, RD_To := toVersion\<rparr>))))"

section \<open>Backfill of the embedded seed (embedded_seed_backfill.go)\<close>

definition embeddedSeedInitialVersion :: string where
  "embeddedSeedInitialVersion = ''1.0.0''"

fun stamp_tools :: "('s \<Rightarrow> string \<times> 's) \<Rightarrow> ProviderTool list \<Rightarrow> 's \<Rightarrow> (ProviderTool list \<times> int) \<times> 's" where
  "stamp_tools newToolID [] s = (([], 0), s)"
| "stamp_tools newToolID (t # ts) s =
     (if PT_ID t = [] then
        (let (i, s1) = newToolID s; ((ts', n), s2) = stamp_tools newToolID ts s1 in ((t\<lparr>PT_ID := i\<rparr> # ts', n + 1), s2))
      else (let ((ts', n), s2) = stamp_tools newToolID ts s in ((t # ts', n), s2)))"

definition stampMissingToolIDs :: "ProviderDefinition \<Rightarrow> ('s \<Rightarrow> string \<times> 's) \<Rightarrow> 's \<Rightarrow> (ProviderDefinition \<times> int) \<times> 's" where
  "stampMissingToolIDs defn newToolID s =
     (let ((tools, minted), s') = stamp_tools newToolID (PD_Tools defn) s in ((defn\<lparr>PD_Tools := tools\<rparr>, minted), s'))"

definition sortedDefinitionsByProviderSlug :: "(string, ProviderDefinition) table \<Rightarrow> ProviderDefinition list" where
  "sortedDefinitionsByProviderSlug definitions = sort_key PD_Slug (rows definitions)"

definition backfillOneProvider ::
  "('s, 'm) registry_facade_scheme \<Rightarrow> 's activated_definitions \<Rightarrow> ('s \<Rightarrow> string \<times> 's) \<Rightarrow> ProviderDefinition \<Rightarrow> ('s, int) act" where
  "backfillOneProvider f ad newToolID defn =
     attempt (ad_FindByProviderSlug ad (PD_Slug defn)) (\<lambda>existing.
     if existing \<noteq> None then ok 0
     else
     call (stampMissingToolIDs defn newToolID) (\<lambda>(stamped, mintedCount).
     let unhashed = (BundleFromProviderDefinition stamped)\<lparr>B_Version := embeddedSeedInitialVersion\<rparr>;
         bundle = unhashed\<lparr>B_ContentHash := ContentHash (cat_vault f) unhashed\<rparr>
     in
     attempt (persistActivatedDefinition f (PD_Slug defn) bundle) (\<lambda>_.
     call (setDefinition f stamped) (\<lambda>_. ok mintedCount))))"

fun backfill_all ::
  "('s, 'm) registry_facade_scheme \<Rightarrow> 's activated_definitions \<Rightarrow> ('s \<Rightarrow> string \<times> 's) \<Rightarrow> ProviderDefinition list \<Rightarrow> ('s, int) act" where
  "backfill_all f ad newToolID [] = ok 0"
| "backfill_all f ad newToolID (d # ds) =
     attempt (backfillOneProvider f ad newToolID d) (\<lambda>n. attempt (backfill_all f ad newToolID ds) (\<lambda>m. ok (n + m)))"

definition BackfillEmbeddedSeed :: "('s, 'm) registry_facade_scheme \<Rightarrow> ('s, int) act" where
  "BackfillEmbeddedSeed f =
     (case (cat_activatedDefinitions f, cat_newToolID f) of
        (Some ad, Some newToolID) \<Rightarrow>
          call (definitionsSnapshot f) (\<lambda>definitions. backfill_all f ad newToolID (sortedDefinitionsByProviderSlug definitions))
      | _ \<Rightarrow> ok 0)"

end
