(* ===== verification/BundleRound.thy ===== *)
theory BundleRound
  imports RegistryBundle
begin

text \<open>
  The JSON of a bundle decodes to the bundle: for every bundle whose maps are maps and whose schemas are values a
  JSON document can hold.
\<close>

section \<open>Fields\<close>

lemma lower_tags [simp]:
  "json_lower ''authorizeUrl'' = ''authorizeurl''"
  "json_lower ''tokenUrl'' = ''tokenurl''"
  "json_lower ''userInfoUrl'' = ''userinfourl''"
  "json_lower ''scopes'' = ''scopes''"
  "json_lower ''credentialStyle'' = ''credentialstyle''"
  "json_lower ''userInfoEmailField'' = ''userinfoemailfield''"
  "json_lower ''userInfoDisplayNameField'' = ''userinfodisplaynamefield''"
  "json_lower ''name'' = ''name''"
  "json_lower ''displayName'' = ''displayname''"
  "json_lower ''description'' = ''description''"
  "json_lower ''required'' = ''required''"
  "json_lower ''secret'' = ''secret''"
  "json_lower ''pageSizeParam'' = ''pagesizeparam''"
  "json_lower ''cursorParam'' = ''cursorparam''"
  "json_lower ''nextCursorPath'' = ''nextcursorpath''"
  "json_lower ''method'' = ''method''"
  "json_lower ''path'' = ''path''"
  "json_lower ''query'' = ''query''"
  "json_lower ''header'' = ''header''"
  "json_lower ''body'' = ''body''"
  "json_lower ''pagination'' = ''pagination''"
  "json_lower ''fileInputs'' = ''fileinputs''"
  "json_lower ''id'' = ''id''"
  "json_lower ''slug'' = ''slug''"
  "json_lower ''deprecated'' = ''deprecated''"
  "json_lower ''inputSchema'' = ''inputschema''"
  "json_lower ''outputSchema'' = ''outputschema''"
  "json_lower ''sample'' = ''sample''"
  "json_lower ''mapping'' = ''mapping''"
  "json_lower ''recordsPath'' = ''recordspath''"
  "json_lower ''recordIdPath'' = ''recordidpath''"
  "json_lower ''recordTimestampPath'' = ''recordtimestamppath''"
  "json_lower ''payload'' = ''payload''"
  "json_lower ''configSchema'' = ''configschema''"
  "json_lower ''payloadSchema'' = ''payloadschema''"
  "json_lower ''ingestion'' = ''ingestion''"
  "json_lower ''pollIntervalSeconds'' = ''pollintervalseconds''"
  "json_lower ''poll'' = ''poll''"
  "json_lower ''formatVersion'' = ''formatversion''"
  "json_lower ''providerSlug'' = ''providerslug''"
  "json_lower ''version'' = ''version''"
  "json_lower ''contentHash'' = ''contenthash''"
  "json_lower ''logo'' = ''logo''"
  "json_lower ''authScheme'' = ''authscheme''"
  "json_lower ''baseUrl'' = ''baseurl''"
  "json_lower ''oauth'' = ''oauth''"
  "json_lower ''expectedParams'' = ''expectedparams''"
  "json_lower ''tools'' = ''tools''"
  "json_lower ''triggers'' = ''triggers''"
  by code_simp+

lemma field_append: "field_with tag dec acc (xs @ ys) = Option.bind (field_with tag dec acc xs) (\<lambda>a. field_with tag dec a ys)"
  by (induction tag dec acc xs rule: field_with.induct) (auto split: option.split)

lemma field_seg: "field_with tag dec acc (seg tag' v) = (if json_lower tag' = json_lower tag then dec acc v else Some acc)"
  by (simp add: seg_def split: option.split)

lemma field_str_opt:
  "field_with tag dec acc (str_opt tag' s) = (if json_lower tag' = json_lower tag \<and> s \<noteq> [] then dec acc (JStr s) else Some acc)"
  by (simp add: str_opt_def field_seg)

lemma field_bool_opt:
  "field_with tag dec acc (bool_opt tag' b) = (if json_lower tag' = json_lower tag \<and> b then dec acc (JBool True) else Some acc)"
  by (simp add: bool_opt_def field_seg)

lemma field_smap_opt:
  "field_with tag dec acc (smap_opt tag' m) =
     (if json_lower tag' = json_lower tag \<and> m \<noteq> [] then dec acc (string_map_json m) else Some acc)"
  by (simp add: smap_opt_def field_seg)

lemma field_list_opt:
  "field_with tag dec acc (list_opt tag' enc xs) =
     (if json_lower tag' = json_lower tag \<and> xs \<noteq> [] then dec acc (JArr (map enc xs)) else Some acc)"
  by (simp add: list_opt_def field_seg)

lemma field_if:
  "field_with tag dec acc (if b then xs else ys) = (if b then field_with tag dec acc xs else field_with tag dec acc ys)"
  by simp

lemmas field_lemmas = field_append field_seg field_str_opt field_bool_opt field_smap_opt field_list_opt

section \<open>Values\<close>

text \<open>A value as decoding a document makes it, with numbers in the form \<open>encoding/json\<close> gives them.\<close>

fun canonical_any :: "any \<Rightarrow> bool" where
  "canonical_any (AFloat n) \<longleftrightarrow> number_literal n \<and> literal_double n \<noteq> None \<and> json_float n = n"
| "canonical_any (AInt i) \<longleftrightarrow> False"
| "canonical_any (ASlice xs) \<longleftrightarrow> (\<forall>x \<in> set xs. canonical_any x)"
| "canonical_any (AMap kvs) \<longleftrightarrow> map_wf kvs \<and> (\<forall>kv \<in> set kvs. canonical_any (snd kv))"
| "canonical_any v \<longleftrightarrow> True"

lemma as_map_wf_same: "map_wf m \<Longrightarrow> as_map m = m"
proof -
  assume wf: "map_wf m"
  then have d: "distinct (map fst m)" by (simp add: map_wf_def)
  then have "distinct (map fst (rev m))" by (simp add: rev_map [symmetric])
  then have "as_map m = sort_key fst (rev m)" unfolding as_map_def by (simp only: distinct_clearjunk_id)
  moreover have "sort_key fst (rev m) = m"
  proof (rule map_sorted_distinct_set_unique [of fst])
    show "inj_on fst (set (sort_key fst (rev m)) \<union> set m)" using d by (simp add: distinct_map)
    show "distinct (map fst (sort_key fst (rev m)))" using d by (simp add: distinct_map)
    show "distinct (map fst m)" by (rule d)
  qed (use wf in \<open>simp_all add: map_wf_def\<close>)
  ultimately show ?thesis by simp
qed

lemma those_map_Some: "(\<And>x. x \<in> set xs \<Longrightarrow> f x = Some (g x)) \<Longrightarrow> those (map f xs) = Some (map g xs)"
  by (induction xs) auto

lemma decode_any_json: "canonical_any v \<Longrightarrow> decode_any (any_json v) = Some v"
proof (induction v rule: canonical_any.induct)
  case (3 xs)
  then show ?case using those_map_Some [of xs "decode_any \<circ> any_json" id] by (simp add: comp_def)
next
  case (4 kvs)
  then show ?case using those_map_Some [of kvs "\<lambda>kv. decode_any (any_json (snd kv))" snd]
    by (simp add: comp_def as_map_wf_same zip_map_fst_snd)
qed auto

lemma any_json_wf: "canonical_any v \<Longrightarrow> json_wf (any_json v)"
  by (induction v rule: canonical_any.induct) auto

section \<open>Maps\<close>

lemma insort_last: "\<forall>x \<in> set m. \<not> fst kv \<le> fst x \<Longrightarrow> insort_key fst kv m = m @ [kv]"
  by (induction m) auto

lemma foldl_map_put: "map_wf (m @ kvs) \<Longrightarrow> foldl (\<lambda>m kv. map_put (fst kv) (snd kv) m) m kvs = m @ kvs"
proof (induction kvs arbitrary: m)
  case (Cons kv kvs)
  have s: "sorted (map fst m @ fst kv # map fst kvs)" and d: "distinct (map fst m @ fst kv # map fst kvs)"
    using Cons.prems by (simp_all add: map_wf_def)
  have new: "fst kv \<notin> set (map fst m)" using d by simp
  have "\<forall>x \<in> set m. fst x \<le> fst kv" using s by (simp add: sorted_append)
  moreover have other: "fst x \<noteq> fst kv" if "x \<in> set m" for x using new that by (metis image_eqI list.set_map)
  ultimately have "\<forall>x \<in> set m. \<not> fst kv \<le> fst x" using order.antisym by blast
  then have "insort_key fst kv m = m @ [kv]" by (rule insort_last)
  moreover have "filter (\<lambda>p. fst p \<noteq> fst kv) m = m" using other by (simp add: filter_id_conv)
  ultimately have "map_put (fst kv) (snd kv) m = m @ [kv]" by (simp add: map_put_def)
  then show ?case using Cons.IH [of "m @ [kv]"] Cons.prems by simp
qed simp

lemma dec_string_map_json: "map_wf m \<Longrightarrow> dec_string_map [] (string_map_json m) = Some m"
  using those_map_Some [of m "\<lambda>kv. dec_str [] (JStr (snd kv))" snd] foldl_map_put [of "[]" m]
  by (simp add: dec_string_map_def dec_map_def string_map_json_def comp_def dec_str_def zip_map_fst_snd)

lemma dec_any_map_json: "canonical_any (AMap m) \<Longrightarrow> dec_any_map [] (any_map_json m) = Some m"
  using those_map_Some [of m "\<lambda>kv. decode_any (any_json (snd kv))" snd] foldl_map_put [of "[]" m]
  by (simp add: dec_any_map_def dec_map_def any_map_json_def comp_def zip_map_fst_snd decode_any_json)

lemma dec_list_json:
  "(\<And>x. x \<in> set xs \<Longrightarrow> dec zero (enc x) = Some x) \<Longrightarrow> dec_list dec zero acc (JArr (map enc xs)) = Some xs"
  using those_map_Some [of xs "\<lambda>x. dec zero (enc x)" id] by (simp add: dec_list_def comp_def)

lemma dec_base [simp]: "dec_str acc (JStr s) = Some s" "dec_bool a (JBool b) = Some b"
  by (simp_all add: dec_str_def dec_bool_def)

lemma dec_struct_obj: "dec_struct fs acc (JObj ms) = fs acc ms"
  by (simp add: dec_struct_def json_members_def)

section \<open>Structs\<close>

lemma oauth_round: "dec_struct oauth_members zero_oauth (oauth_json x) = Some x"
  by (simp add: dec_struct_obj oauth_json_def oauth_members_def zero_oauth_def field_lemmas dec_list_json)

lemma param_round: "dec_struct param_members zero_param (param_json x) = Some x"
  by (simp add: dec_struct_obj param_json_def param_members_def zero_param_def field_lemmas)

lemma pagination_round: "dec_struct pagination_members zero_pagination (pagination_json x) = Some x"
  by (simp add: dec_struct_obj pagination_json_def pagination_members_def zero_pagination_def field_lemmas)

definition mapping_wf :: "ToolMapping \<Rightarrow> bool" where
  "mapping_wf x \<longleftrightarrow> map_wf (BM_Query x) \<and> map_wf (BM_Header x) \<and> map_wf (BM_Body x)"

definition tool_wf :: "BundleTool \<Rightarrow> bool" where
  "tool_wf x \<longleftrightarrow> canonical_any (AMap (BT_InputSchema x)) \<and> canonical_any (AMap (BT_OutputSchema x))
     \<and> canonical_any (AMap (BT_Sample x)) \<and> mapping_wf (BT_Mapping x)"

definition poll_wf :: "TriggerPoll \<Rightarrow> bool" where
  "poll_wf x \<longleftrightarrow> map_wf (BP_Query x) \<and> map_wf (BP_Body x) \<and> map_wf (BP_Payload x)"

definition int64 :: "int \<Rightarrow> bool" where
  "int64 i \<longleftrightarrow> - (2 ^ 63) \<le> i \<and> i < 2 ^ 63"

definition trigger_wf :: "BundleTrigger \<Rightarrow> bool" where
  "trigger_wf x \<longleftrightarrow> canonical_any (AMap (BR_ConfigSchema x)) \<and> canonical_any (AMap (BR_PayloadSchema x))
     \<and> int64 (BR_PollIntervalSeconds x) \<and> poll_wf (BR_Poll x)"

definition bundle_wf :: "Bundle \<Rightarrow> bool" where
  "bundle_wf x \<longleftrightarrow> int64 (B_FormatVersion x) \<and> (\<forall>t \<in> set (B_Tools x). tool_wf t) \<and> (\<forall>t \<in> set (B_Triggers x). trigger_wf t)"

lemma dec_pointer_json: "dec_pointer (dec_struct pagination_members) zero_pagination None (pagination_json p) = Some (Some p)"
  using pagination_round [of p] by (simp add: dec_pointer_def) (simp add: pagination_json_def)

lemma int64_text_itoa:
  assumes "int64 i"
  shows "int64_text (itoa i) = Some i"
proof -
  have ne: "digits_of_nat n \<noteq> []" for n by (subst digits_of_nat.simps) simp
  show ?thesis
  proof (cases "i < 0")
    case True
    then show ?thesis
      using assms ne by (simp add: itoa_def int64_text_def digits_value_digits_of_nat int64_def)
  next
    case False
    obtain c ds where s: "digits_of_nat (nat i) = c # ds" using ne [of "nat i"] by (cases "digits_of_nat (nat i)") auto
    have "json_digit c" using json_digits_of_nat [of "nat i"] by (simp add: s)
    then have "c \<noteq> CHR ''-''" by (auto simp: json_digit_def)
    moreover have "digits_value 0 (c # ds) = Some (nat i)" using digits_value_digits_of_nat [of "nat i"] by (simp only: s)
    ultimately show ?thesis
      using assms False by (simp add: itoa_def s int64_text_def int64_def del: digits_value.simps)
  qed
qed

lemma dec_int_itoa: "int64 i \<Longrightarrow> dec_int acc (JNum (itoa i)) = Some i"
  by (simp add: dec_int_def int64_def int64_text_itoa)

lemma mapping_round: "mapping_wf x \<Longrightarrow> dec_struct mapping_members zero_mapping (mapping_json x) = Some x"
  by (simp add: dec_struct_obj mapping_json_def mapping_members_def zero_mapping_def mapping_wf_def field_lemmas
      dec_list_json dec_string_map_json dec_pointer_json split: option.split)

lemma tool_round: "tool_wf x \<Longrightarrow> dec_struct tool_members zero_tool (tool_json x) = Some x"
  by (simp add: dec_struct_obj tool_json_def tool_members_def zero_tool_def tool_wf_def field_lemmas
      dec_any_map_json mapping_round)

lemma poll_round: "poll_wf x \<Longrightarrow> dec_struct poll_members zero_poll (poll_json x) = Some x"
  by (simp add: dec_struct_obj poll_json_def poll_members_def zero_poll_def poll_wf_def field_lemmas dec_string_map_json)

lemma trigger_round: "trigger_wf x \<Longrightarrow> dec_struct trigger_members zero_trigger (trigger_json x) = Some x"
  by (simp add: dec_struct_obj trigger_json_def trigger_members_def zero_trigger_def trigger_wf_def field_lemmas
      dec_any_map_json dec_int_itoa poll_round)

lemma bundle_round: "bundle_wf x \<Longrightarrow> dec_struct bundle_members zero_bundle (bundle_json x) = Some x"
  by (simp add: dec_struct_obj bundle_json_def bundle_members_def zero_bundle_def bundle_wf_def field_lemmas
      dec_int_itoa dec_list_json oauth_round param_round
      tool_round trigger_round)

section \<open>The document\<close>

definition members_wf :: "members \<Rightarrow> bool" where
  "members_wf ms \<longleftrightarrow> (\<forall>kv \<in> set ms. json_wf (snd kv))"

lemma members_wf_simps [simp]:
  "json_wf (JObj ms) \<longleftrightarrow> members_wf ms"
  "members_wf []" "members_wf (xs @ ys) \<longleftrightarrow> members_wf xs \<and> members_wf ys" "members_wf (seg tag v) \<longleftrightarrow> json_wf v"
  "members_wf (str_opt tag s)" "members_wf (bool_opt tag b)" "members_wf (smap_opt tag m)" "json_wf (string_map_json m)"
  by (auto simp: members_wf_def seg_def str_opt_def bool_opt_def smap_opt_def string_map_json_def)

lemma members_wf_list [simp]: "(\<And>x. x \<in> set xs \<Longrightarrow> json_wf (enc x)) \<Longrightarrow> members_wf (list_opt tag enc xs)"
  by (simp add: list_opt_def)

lemma struct_json_wf:
  "json_wf (oauth_json a)" "json_wf (param_json b)" "json_wf (pagination_json c)" "json_wf (mapping_json d)" "json_wf (poll_json e)"
  by (simp_all add: oauth_json_def param_json_def pagination_json_def mapping_json_def poll_json_def del: json_wf.simps(3) split: option.split)

lemma any_map_json_wf: "canonical_any (AMap m) \<Longrightarrow> json_wf (any_map_json m)"
  unfolding any_map_json_def by (rule any_json_wf)

lemma tool_json_wf: "tool_wf t \<Longrightarrow> json_wf (tool_json t)"
  by (simp add: tool_json_def tool_wf_def any_map_json_wf struct_json_wf del: json_wf.simps(3))

lemma trigger_json_wf: "trigger_wf t \<Longrightarrow> json_wf (trigger_json t)"
  by (simp add: trigger_json_def trigger_wf_def any_map_json_wf struct_json_wf number_literal_itoa del: json_wf.simps(3))

lemma bundle_json_wf: "bundle_wf b \<Longrightarrow> json_wf (bundle_json b)"
  by (simp add: bundle_json_def bundle_wf_def struct_json_wf tool_json_wf trigger_json_wf number_literal_itoa
      del: json_wf.simps(3))

lemma bundle_document_roundtrip:
  assumes "bundle_wf b"
  shows "Unmarshal_bundle (marshal (bundle_json b)) = Some b"
  by (simp add: Unmarshal_bundle_def json_parse_marshal bundle_json_wf assms bundle_round)

end
