(* ===== verification/CatalogMemory.thy ===== *)
theory CatalogMemory
  imports CatalogRegistry BundleRound
begin

text \<open>
  The in-memory adapters of the catalog ports (\<open>driven/memory\<close>) and a world in which the facade runs.
\<close>

section \<open>Repositories\<close>

type_synonym cat_store = "(IntegrationID, Integration) table"

definition cat_NewRepository :: cat_store where
  "cat_NewRepository = []"

definition cat_mem_Save :: "Integration \<Rightarrow> (cat_store, unit) act" where
  "cat_mem_Save integration r = (Inr (), put (IG_ID integration) integration r)"

definition cat_mem_FindByID :: "IntegrationID \<Rightarrow> (cat_store, Integration option) act" where
  "cat_mem_FindByID i r = (Inr (map_of r i), r)"

definition cat_sortByCreatedAt :: "Integration list \<Rightarrow> Integration list" where
  "cat_sortByCreatedAt integrations = oldest_first_by (\<lambda>i. (IG_CreatedAt i, IG_ID i)) integrations"

definition cat_mem_ListAll :: "(cat_store, Integration list) act" where
  "cat_mem_ListAll r = (Inr (cat_sortByCreatedAt (rows r)), r)"

definition cat_mem_UpdateEncryptedClientSecret :: "IntegrationID \<Rightarrow> string \<Rightarrow> (cat_store, unit) act" where
  "cat_mem_UpdateEncryptedClientSecret i encryptedClientSecret r =
     (case map_of r i of
        None \<Rightarrow> (Inr (), r)
      | Some integration \<Rightarrow>
          (Inr (), put i (integration\<lparr>IG_ClientSecret := encryptedClientSecret, IG_ClientSecretEncrypted := True\<rparr>) r))"

type_synonym activated_store = "(string, ActivatedDefinition) table"

definition ad_NewRepository :: activated_store where
  "ad_NewRepository = []"

definition ad_mem_Save :: "ActivatedDefinition \<Rightarrow> (activated_store, unit) act" where
  "ad_mem_Save activated r = (Inr (), put (AD_ProviderSlug activated) activated r)"

definition ad_mem_FindByProviderSlug :: "string \<Rightarrow> (activated_store, ActivatedDefinition option) act" where
  "ad_mem_FindByProviderSlug providerSlug r = (Inr (map_of r providerSlug), r)"

definition ad_mem_Delete :: "string \<Rightarrow> (activated_store, unit) act" where
  "ad_mem_Delete providerSlug r = (Inr (), del providerSlug r)"

definition ad_mem_ListAll :: "(activated_store, ActivatedDefinition list) act" where
  "ad_mem_ListAll r = (Inr (sort_key AD_ProviderSlug (rows r)), r)"

section \<open>Registry client\<close>

type_synonym registry_store = "(string, (string, Bundle) table) table"

definition rc_mem_Seed :: "string \<Rightarrow> Bundle \<Rightarrow> registry_store \<Rightarrow> registry_store" where
  "rc_mem_Seed providerSlug bundle c =
     (let versions = (case map_of c providerSlug of None \<Rightarrow> [] | Some vs \<Rightarrow> vs)
      in put providerSlug (put (B_Version bundle) bundle versions) c)"

definition rc_mem_FetchBundle :: "string \<Rightarrow> string \<Rightarrow> (registry_store, Bundle) act" where
  "rc_mem_FetchBundle providerSlug version c =
     (case map_of c providerSlug of
        None \<Rightarrow> (Inl ErrBundleVersionNotFound, c)
      | Some versions \<Rightarrow>
          (case map_of versions version of
             None \<Rightarrow> (Inl ErrBundleVersionNotFound, c)
           | Some bundle \<Rightarrow> (Inr bundle, c)))"

definition rc_mem_ListVersions :: "string \<Rightarrow> (registry_store, string list) act" where
  "rc_mem_ListVersions providerSlug c =
     (Inr (sort (map fst (case map_of c providerSlug of None \<Rightarrow> [] | Some versions \<Rightarrow> versions))), c)"

section \<open>Trigger instance pauser\<close>

record pauser_store =
  ps_paused :: "string list"
  ps_failOn :: string
  ps_failWith :: go_error

definition ps_FailOnSlug :: "string \<Rightarrow> go_error \<Rightarrow> pauser_store \<Rightarrow> pauser_store" where
  "ps_FailOnSlug triggerSlug err p = p\<lparr>ps_failOn := triggerSlug, ps_failWith := err\<rparr>"

definition ps_PauseInstancesForRemovedTrigger :: "string \<Rightarrow> (pauser_store, unit) act" where
  "ps_PauseInstancesForRemovedTrigger triggerSlug p =
     (if ps_failOn p \<noteq> [] \<and> ps_failOn p = triggerSlug then (Inl (ps_failWith p), p)
      else (Inr (), p\<lparr>ps_paused := ps_paused p @ [triggerSlug]\<rparr>))"

section \<open>The world\<close>

text \<open>
  The registry may answer each request as it likes: \<open>cx_bundle\<close> gives its answer to the \<open>n\<close>-th one. The
  database may refuse the \<open>n\<close>-th write of an activated definition, the triggers module a pause.
\<close>

record cat_world =
  xw_store :: cat_store
  xw_rows :: activated_store
  xw_defs :: "(string, ProviderDefinition) table"
  xw_paused :: "string list"
  xw_now :: time
  xw_ids :: nat
  xw_toolIDs :: nat
  xw_nonces :: nat
  xw_fetches :: nat
  xw_writes :: nat

record cat_env =
  cx_seed :: "ProviderDefinition list"
  cx_crypto :: crypto
  cx_nonce :: "nat \<Rightarrow> string"
  cx_governance :: "OrgID \<Rightarrow> go_error + Governance"
  cx_bundle :: "nat \<Rightarrow> string \<Rightarrow> string \<Rightarrow> go_error + Bundle"
  cx_versions :: "string \<Rightarrow> go_error + string list"
  cx_write_fails :: "nat \<Rightarrow> go_error option"
  cx_pause_fails :: "nat \<Rightarrow> string \<Rightarrow> go_error option"

abbreviation on_integrations :: "(cat_store, 'a) act \<Rightarrow> (cat_world, 'a) act" where
  "on_integrations \<equiv> zoom xw_store xw_store_update"

abbreviation on_rows :: "(activated_store, 'a) act \<Rightarrow> (cat_world, 'a) act" where
  "on_rows \<equiv> zoom xw_rows xw_rows_update"

definition cat_rows :: "cat_env \<Rightarrow> cat_world activated_definitions" where
  "cat_rows env =
     \<lparr>ad_Save = (\<lambda>row w. case cx_write_fails env (xw_writes w) of
          Some err \<Rightarrow> (Inl err, w\<lparr>xw_writes := Suc (xw_writes w)\<rparr>)
        | None \<Rightarrow> on_rows (ad_mem_Save row) (w\<lparr>xw_writes := Suc (xw_writes w)\<rparr>)),
      ad_FindByProviderSlug = (\<lambda>slug. on_rows (ad_mem_FindByProviderSlug slug)),
      ad_ListAll = on_rows ad_mem_ListAll,
      ad_Delete = (\<lambda>slug w. case cx_write_fails env (xw_writes w) of
          Some err \<Rightarrow> (Inl err, w\<lparr>xw_writes := Suc (xw_writes w)\<rparr>)
        | None \<Rightarrow> on_rows (ad_mem_Delete slug) (w\<lparr>xw_writes := Suc (xw_writes w)\<rparr>))\<rparr>"

definition cat_client :: "cat_env \<Rightarrow> cat_world registry_client" where
  "cat_client env =
     \<lparr>rc_FetchBundle = (\<lambda>slug version w. (cx_bundle env (xw_fetches w) slug version, w\<lparr>xw_fetches := Suc (xw_fetches w)\<rparr>)),
      rc_ListVersions = (\<lambda>slug. lift (cx_versions env slug))\<rparr>"

definition cat_pause :: "cat_env \<Rightarrow> string \<Rightarrow> (cat_world, unit) act" where
  "cat_pause env slug w =
     (case cx_pause_fails env (length (xw_paused w)) slug of
        Some err \<Rightarrow> (Inl err, w)
      | None \<Rightarrow> (Inr (), w\<lparr>xw_paused := xw_paused w @ [slug]\<rparr>))"

definition cat_F :: "cat_env \<Rightarrow> cat_world registry_facade" where
  "cat_F env =
     \<lparr>cat_repo_Save = (\<lambda>i. on_integrations (cat_mem_Save i)),
      cat_repo_FindByID = (\<lambda>i. on_integrations (cat_mem_FindByID i)),
      cat_repo_ListAll = on_integrations cat_mem_ListAll,
      cat_repo_UpdateEncryptedClientSecret = (\<lambda>i s. on_integrations (cat_mem_UpdateEncryptedClientSecret i s)),
      cat_definitions = xw_defs, cat_set_definitions = (\<lambda>d. xw_defs_update (\<lambda>_. d)),
      cat_newID = zoom xw_ids xw_ids_update (\<lambda>n. (sequential_id ''intg_'' n, Suc n)),
      cat_now = (\<lambda>w. (xw_now w, w)), cat_vault = cx_crypto env,
      cat_rand = (\<lambda>n w. (Inr (cx_nonce env (xw_nonces w)), w\<lparr>xw_nonces := Suc (xw_nonces w)\<rparr>)),
      cat_GetGovernance = (\<lambda>org. lift (cx_governance env org)),
      cat_registryClient = Some (cat_client env), cat_activatedDefinitions = Some (cat_rows env),
      cat_newToolID = Some (zoom xw_toolIDs xw_toolIDs_update (\<lambda>n. (sequential_id ''tool_'' n, Suc n))),
      cat_triggerInstancePauser = Some (cat_pause env)\<rparr>"

lemma cat_F_sel [simp]:
  "cat_repo_Save (cat_F env) i = on_integrations (cat_mem_Save i)"
  "cat_repo_FindByID (cat_F env) j = on_integrations (cat_mem_FindByID j)"
  "cat_repo_ListAll (cat_F env) = on_integrations cat_mem_ListAll"
  "cat_repo_UpdateEncryptedClientSecret (cat_F env) j s = on_integrations (cat_mem_UpdateEncryptedClientSecret j s)"
  "cat_definitions (cat_F env) = xw_defs"
  "cat_set_definitions (cat_F env) d w = w\<lparr>xw_defs := d\<rparr>"
  "cat_newID (cat_F env) w = (sequential_id ''intg_'' (xw_ids w), w\<lparr>xw_ids := Suc (xw_ids w)\<rparr>)"
  "cat_now (cat_F env) w = (xw_now w, w)"
  "cat_vault (cat_F env) = cx_crypto env"
  "cat_rand (cat_F env) n w = (Inr (cx_nonce env (xw_nonces w)), w\<lparr>xw_nonces := Suc (xw_nonces w)\<rparr>)"
  "cat_GetGovernance (cat_F env) org = lift (cx_governance env org)"
  "cat_registryClient (cat_F env) = Some (cat_client env)"
  "cat_activatedDefinitions (cat_F env) = Some (cat_rows env)"
  "cat_newToolID (cat_F env) = Some (zoom xw_toolIDs xw_toolIDs_update (\<lambda>n. (sequential_id ''tool_'' n, Suc n)))"
  "cat_triggerInstancePauser (cat_F env) = Some (cat_pause env)"
  by (simp_all add: cat_F_def zoom_apply)

lemma cat_ports [simp]:
  "rc_FetchBundle (cat_client env) slug version w = (cx_bundle env (xw_fetches w) slug version, w\<lparr>xw_fetches := Suc (xw_fetches w)\<rparr>)"
  "rc_ListVersions (cat_client env) slug = lift (cx_versions env slug)"
  "ad_Save (cat_rows env) row w = (case cx_write_fails env (xw_writes w) of
      Some err \<Rightarrow> (Inl err, w\<lparr>xw_writes := Suc (xw_writes w)\<rparr>)
    | None \<Rightarrow> (Inr (), w\<lparr>xw_writes := Suc (xw_writes w), xw_rows := put (AD_ProviderSlug row) row (xw_rows w)\<rparr>))"
  "ad_FindByProviderSlug (cat_rows env) slug w = (Inr (map_of (xw_rows w) slug), w)"
  "ad_ListAll (cat_rows env) w = (Inr (sort_key AD_ProviderSlug (rows (xw_rows w))), w)"
  "ad_Delete (cat_rows env) slug w = (case cx_write_fails env (xw_writes w) of
      Some err \<Rightarrow> (Inl err, w\<lparr>xw_writes := Suc (xw_writes w)\<rparr>)
    | None \<Rightarrow> (Inr (), w\<lparr>xw_writes := Suc (xw_writes w), xw_rows := del slug (xw_rows w)\<rparr>))"
  by (simp_all add: cat_client_def cat_rows_def zoom_apply ad_mem_Save_def ad_mem_FindByProviderSlug_def ad_mem_ListAll_def
      ad_mem_Delete_def split: option.split)

end
