(* ===== verification/CatalogLife.thy ===== *)
theory CatalogLife
  imports CatalogMemory
begin

text \<open>
  The registry operations over the in-memory adapters: an activation happens as a whole or not at all, no tool slug
  ever vanishes from the catalog, and a restart serves what was served before.
\<close>

section \<open>Conversions\<close>

lemma definition_of_bundle_of_definition: "definitionFromBundle (BundleFromProviderDefinition d) = d"
proof -
  have p: "expectedParamsFromBundle (bundleExpectedParamsFromDefinition ps) = ps" for ps
    by (simp add: expectedParamsFromBundle_def bundleExpectedParamsFromDefinition_def comp_def) (rule map_idI, simp)
  have m: "mappingFromBundle (BT_Mapping (bundleToolFromProviderTool t b)) = PT_Mapping t" for t b
    by (cases "MP_Pagination (PT_Mapping t)")
      (simp_all add: mappingFromBundle_def bundleToolFromProviderTool_def paginationFromBundle_def bundlePaginationFromMapping_def)
  have t: "toolsFromBundle (bundleToolsFromDefinition ts) = ts" for ts
    unfolding toolsFromBundle_def bundleToolsFromDefinition_def
    by (simp add: m comp_def) (rule map_idI, simp add: bundleToolFromProviderTool_def)
  have g: "triggersFromBundle (bundleTriggersFromDefinition ts) = ts" for ts
    by (simp add: triggersFromBundle_def bundleTriggersFromDefinition_def comp_def) (rule map_idI, simp)
  show ?thesis
    by (simp add: definitionFromBundle_def BundleFromProviderDefinition_def p t g)
qed

lemma definitionFromBundle_sel [simp]:
  "PD_Slug (definitionFromBundle b) = B_ProviderSlug b" "PD_Tools (definitionFromBundle b) = toolsFromBundle (B_Tools b)"
  "PD_Triggers (definitionFromBundle b) = triggersFromBundle (B_Triggers b)"
  by (simp_all add: definitionFromBundle_def)

lemma definitionFromBundle_stamp [simp]:
  "definitionFromBundle (b\<lparr>B_Version := v\<rparr>) = definitionFromBundle b"
  "definitionFromBundle (b\<lparr>B_ContentHash := h\<rparr>) = definitionFromBundle b"
  by (simp_all add: definitionFromBundle_def)

lemma carried_sel [simp]:
  "B_ProviderSlug (fst (withCarriedOverDeprecatedTools b p)) = B_ProviderSlug b"
  "B_Version (fst (withCarriedOverDeprecatedTools b p)) = B_Version b"
  "B_FormatVersion (fst (withCarriedOverDeprecatedTools b p)) = B_FormatVersion b"
  "B_Triggers (fst (withCarriedOverDeprecatedTools b p)) = B_Triggers b"
  by (simp_all add: withCarriedOverDeprecatedTools_def Let_def split: option.split)

lemma carried_tools:
  "B_Tools (fst (withCarriedOverDeprecatedTools b p)) =
     B_Tools b @ (case p of None \<Rightarrow> [] | Some d \<Rightarrow>
       map bundleToolFromCarriedOverProviderTool (filter (\<lambda>t. PT_Slug t \<notin> BT_Slug ` set (B_Tools b)) (PD_Tools d)))"
  by (auto simp: withCarriedOverDeprecatedTools_def Let_def split: option.split)

lemma tool_of_carried:
  "toolsFromBundle [bundleToolFromCarriedOverProviderTool t] = [t\<lparr>PT_Deprecated := True\<rparr>]"
proof -
  have "mappingFromBundle (BT_Mapping (bundleToolFromProviderTool t b)) = PT_Mapping t" for b
    by (cases "MP_Pagination (PT_Mapping t)")
      (simp_all add: mappingFromBundle_def bundleToolFromProviderTool_def paginationFromBundle_def bundlePaginationFromMapping_def)
  then show ?thesis
    by (simp add: toolsFromBundle_def bundleToolFromCarriedOverProviderTool_def) (simp add: bundleToolFromProviderTool_def)
qed

lemma toolsFromBundle_carried:
  "toolsFromBundle (map bundleToolFromCarriedOverProviderTool ts) = map (\<lambda>t. t\<lparr>PT_Deprecated := True\<rparr>) ts"
  using tool_of_carried by (induction ts) (simp_all add: toolsFromBundle_def)

section \<open>One activation\<close>

lemma defs_run [simp]:
  "definitionByProviderSlug (cat_F env) slug w = (map_of (xw_defs w) slug, w)"
  "setDefinition (cat_F env) d w = ((), w\<lparr>xw_defs := put (PD_Slug d) d (xw_defs w)\<rparr>)"
  "deleteDefinition (cat_F env) slug w = ((), w\<lparr>xw_defs := del slug (xw_defs w)\<rparr>)"
  "definitionsSnapshot (cat_F env) w = (xw_defs w, w)"
  by (simp_all add: definitionByProviderSlug_def setDefinition_def deleteDefinition_def definitionsSnapshot_def)

lemma pauses_run:
  "\<exists>k \<le> length slugs. \<exists>e. for_each (cat_pause env) slugs w =
     (if k = length slugs then Inr () else Inl e, w\<lparr>xw_paused := xw_paused w @ take k slugs\<rparr>)"
proof (induction slugs arbitrary: w)
  case (Cons slug slugs)
  show ?case
  proof (cases "cx_pause_fails env (length (xw_paused w)) slug")
    case (Some e)
    then show ?thesis by (intro exI [of _ 0]) (simp add: attempt_apply cat_pause_def)
  next
    case None
    let ?w1 = "w\<lparr>xw_paused := xw_paused w @ [slug]\<rparr>"
    obtain k e where "k \<le> length slugs" and "for_each (cat_pause env) slugs ?w1 =
        (if k = length slugs then Inr () else Inl e, ?w1\<lparr>xw_paused := xw_paused ?w1 @ take k slugs\<rparr>)"
      using Cons.IH [of ?w1] by blast
    moreover have "cat_pause env slug w = (Inr (), ?w1)" using None by (simp add: cat_pause_def)
    ultimately show ?thesis
      by (intro exI [of _ "Suc k"] conjI exI [of _ e]) (simp_all add: attempt_apply)
  qed
qed simp

text \<open>The row an activation writes, and the state after it, before anything is paused.\<close>

definition activation_row :: "cat_world \<Rightarrow> string \<Rightarrow> Bundle \<Rightarrow> ActivatedDefinition" where
  "activation_row w slug b =
     \<lparr>AD_ProviderSlug = slug, AD_Version = B_Version b, AD_ContentHash = B_ContentHash b, AD_BundleJSON = encodeBundleJSON b,
      AD_ActivatedAt = xw_now w\<rparr>"

definition activated :: "string \<Rightarrow> Bundle \<Rightarrow> cat_world \<Rightarrow> cat_world" where
  "activated slug b w = w\<lparr>xw_fetches := Suc (xw_fetches w), xw_writes := Suc (xw_writes w),
     xw_rows := put slug (activation_row w slug b) (xw_rows w), xw_defs := put (B_ProviderSlug b) (definitionFromBundle b) (xw_defs w)\<rparr>"

definition restored_rows :: "string \<Rightarrow> cat_world \<Rightarrow> activated_store \<Rightarrow> activated_store" where
  "restored_rows slug w r = (case map_of (xw_rows w) slug of Some row \<Rightarrow> put (AD_ProviderSlug row) row r | None \<Rightarrow> del slug r)"

definition restored_defs :: "string \<Rightarrow> cat_world \<Rightarrow> (string, ProviderDefinition) table \<Rightarrow> (string, ProviderDefinition) table" where
  "restored_defs slug w t = (case map_of (xw_defs w) slug of Some d \<Rightarrow> put (PD_Slug d) d t | None \<Rightarrow> del slug t)"

lemma Activate_cases:
  assumes "Activate (cat_F env) slug version w = (r, w')"
  obtains (refused) e where "r = Inl e" "w' = w\<lparr>xw_fetches := Suc (xw_fetches w)\<rparr>"
  | (unwritten) e where "r = Inl e" "cx_write_fails env (xw_writes w) = Some e"
      "w' = w\<lparr>xw_fetches := Suc (xw_fetches w), xw_writes := Suc (xw_writes w)\<rparr>"
  | (accepted) pulled b removed k where "cx_bundle env (xw_fetches w) slug version = Inr pulled"
      "validateBundleForActivation (cx_crypto env) pulled = None"
      "b = fst (withCarriedOverDeprecatedTools pulled (map_of (xw_defs w) slug))"
      "removed = snd (diffTriggerSlugsAgainstPrevious (map_of (xw_defs w) slug) pulled)" "k \<le> length removed"
      "k = length removed \<Longrightarrow> r = Inr \<lparr>AV_ProviderSlug = slug, AV_ActiveVersion = B_Version b\<rparr>
         \<and> w' = (activated slug b w)\<lparr>xw_paused := xw_paused w @ removed\<rparr>"
      "k \<noteq> length removed \<Longrightarrow> isl r \<and> xw_paused w' = xw_paused w @ take k removed
         \<and> xw_defs w' = restored_defs slug w (xw_defs (activated slug b w))
         \<and> xw_rows w' = (if cx_write_fails env (Suc (xw_writes w)) = None then restored_rows slug w (xw_rows (activated slug b w))
              else xw_rows (activated slug b w))"
proof (cases "cx_bundle env (xw_fetches w) slug version")
  case (Inl e)
  then show ?thesis using assms by (intro refused [of e]) (simp_all add: Activate_def attempt_apply)
next
  case (Inr pulled)
  let ?w1 = "w\<lparr>xw_fetches := Suc (xw_fetches w)\<rparr>"
  show ?thesis
  proof (cases "validateBundleForActivation (cx_crypto env) pulled")
    case (Some e)
    then show ?thesis using assms Inr by (intro refused [of e]) (simp_all add: Activate_def attempt_apply check_def)
  next
    case None
    define b where "b = fst (withCarriedOverDeprecatedTools pulled (map_of (xw_defs w) slug))"
    define removed where "removed = snd (diffTriggerSlugsAgainstPrevious (map_of (xw_defs w) slug) pulled)"
    show ?thesis
    proof (cases "cx_write_fails env (xw_writes w)")
      case (Some e)
      then show ?thesis using assms Inr None
        by (intro unwritten [of e]) (simp_all add: Activate_def attempt_apply call_apply currentActivatedRow_def Let_def
            persistActivatedDefinition_def)
    next
      case written: None
      obtain k e where k: "k \<le> length removed" "for_each (cat_pause env) removed (activated slug b w) =
         (if k = length removed then Inr () else Inl e, (activated slug b w)\<lparr>xw_paused := xw_paused (activated slug b w) @ take k removed\<rparr>)"
        using pauses_run [of removed env "activated slug b w"] by blast
      have run: "(r, w') = (catching (pauseInstancesForRemovedTriggers (cat_F env) removed) (\<lambda>r.
          case r of
            Inl err \<Rightarrow> discard (rollbackActivation (cat_F env) slug (map_of (xw_defs w) slug) (map_of (xw_rows w) slug)) (fail err)
          | Inr _ \<Rightarrow> ok \<lparr>AV_ProviderSlug = slug, AV_ActiveVersion = B_Version pulled\<rparr>)) (activated slug b w)"
        using assms Inr None written
        by (simp add: Activate_def attempt_apply call_apply currentActivatedRow_def Let_def persistActivatedDefinition_def
            activated_def activation_row_def b_def removed_def)
      show ?thesis
      proof (rule accepted [OF Inr None b_def removed_def k(1)])
        assume "k = length removed"
        then show "r = Inr \<lparr>AV_ProviderSlug = slug, AV_ActiveVersion = B_Version b\<rparr>
           \<and> w' = (activated slug b w)\<lparr>xw_paused := xw_paused w @ removed\<rparr>"
          using run k(2) by (simp add: catching_apply pauseInstancesForRemovedTriggers_def b_def) (simp add: activated_def)
      next
        assume "k \<noteq> length removed"
        then have "(r, w') = discard (rollbackActivation (cat_F env) slug (map_of (xw_defs w) slug) (map_of (xw_rows w) slug)) (fail e)
            ((activated slug b w)\<lparr>xw_paused := xw_paused (activated slug b w) @ take k removed\<rparr>)"
          using run k(2) by (simp add: catching_apply pauseInstancesForRemovedTriggers_def)
        then show "isl r \<and> xw_paused w' = xw_paused w @ take k removed
         \<and> xw_defs w' = restored_defs slug w (xw_defs (activated slug b w))
         \<and> xw_rows w' = (if cx_write_fails env (Suc (xw_writes w)) = None then restored_rows slug w (xw_rows (activated slug b w))
              else xw_rows (activated slug b w))"
          by (cases "map_of (xw_defs w) slug"; cases "map_of (xw_rows w) slug"; cases "cx_write_fails env (Suc (xw_writes w))")
            (simp_all add: rollbackActivation_def discard_apply call_apply activated_def restored_defs_def restored_rows_def)
      qed
    qed
  qed
qed

section \<open>All or nothing\<close>

text \<open>What is assumed of the registry: a bundle asked for under a slug is for that slug.\<close>

definition registry_honest :: "cat_env \<Rightarrow> bool" where
  "registry_honest env \<longleftrightarrow> (\<forall>n slug version b. cx_bundle env n slug version = Inr b \<longrightarrow> B_ProviderSlug b = slug)"

definition cat_keyed :: "cat_world \<Rightarrow> bool" where
  "cat_keyed w \<longleftrightarrow> keyed PD_Slug (xw_defs w) \<and> keyed AD_ProviderSlug (xw_rows w)"

lemma restored_lookup:
  assumes "cat_keyed w"
  shows "map_of (restored_defs slug w (put slug d (xw_defs w))) = map_of (xw_defs w)"
    and "map_of (restored_rows slug w (put slug row (xw_rows w))) = map_of (xw_rows w)"
  using assms by (auto simp: restored_defs_def restored_rows_def cat_keyed_def fun_eq_iff dest: keyed_lookup split: option.split)

text \<open>
  What an accepted bundle serves, field by field: its tools and triggers as they are, and after them the tools of
  the definition served before whose slug the bundle no longer has, now deprecated.
\<close>

definition tool_from :: "BundleTool \<Rightarrow> ProviderTool \<Rightarrow> bool" where
  "tool_from b t \<longleftrightarrow>
     PT_ID t = BT_ID b \<and> PT_Slug t = BT_Slug b \<and> PT_Name t = BT_Name b \<and> PT_Description t = BT_Description b
   \<and> PT_Method t = BM_Method (BT_Mapping b) \<and> PT_Path t = BM_Path (BT_Mapping b) \<and> PT_InputSchema t = BT_InputSchema b
   \<and> PT_OutputSchema t = BT_OutputSchema b \<and> PT_Deprecated t = BT_Deprecated b
   \<and> MP_Query (PT_Mapping t) = BM_Query (BT_Mapping b) \<and> MP_Header (PT_Mapping t) = BM_Header (BT_Mapping b)
   \<and> MP_Body (PT_Mapping t) = BM_Body (BT_Mapping b) \<and> MP_FileInputs (PT_Mapping t) = BM_FileInputs (BT_Mapping b)
   \<and> rel_option (\<lambda>q p. PG_PageSizeParam p = BG_PageSizeParam q \<and> PG_CursorParam p = BG_CursorParam q
        \<and> PG_NextCursorPath p = BG_NextCursorPath q) (BM_Pagination (BT_Mapping b)) (MP_Pagination (PT_Mapping t))"

definition trigger_from :: "BundleTrigger \<Rightarrow> TriggerDefinition \<Rightarrow> bool" where
  "trigger_from b t \<longleftrightarrow>
     TD_Slug t = BR_Slug b \<and> TD_Name t = BR_Name b \<and> TD_Description t = BR_Description b \<and> TD_ConfigSchema t = BR_ConfigSchema b
   \<and> TD_PayloadSchema t = BR_PayloadSchema b \<and> TD_Ingestion t = BR_Ingestion b \<and> TD_PollIntervalSeconds t = BR_PollIntervalSeconds b
   \<and> TP_Method (TD_Poll t) = BP_Method (BR_Poll b) \<and> TP_Path (TD_Poll t) = BP_Path (BR_Poll b)
   \<and> TP_Query (TD_Poll t) = BP_Query (BR_Poll b) \<and> TP_Body (TD_Poll t) = BP_Body (BR_Poll b)
   \<and> TP_RecordsPath (TD_Poll t) = BP_RecordsPath (BR_Poll b) \<and> TP_RecordIDPath (TD_Poll t) = BP_RecordIDPath (BR_Poll b)
   \<and> TP_RecordTimestampPath (TD_Poll t) = BP_RecordTimestampPath (BR_Poll b) \<and> TP_Payload (TD_Poll t) = BP_Payload (BR_Poll b)"

definition kept_deprecated :: "ProviderDefinition option \<Rightarrow> Bundle \<Rightarrow> ProviderTool list" where
  "kept_deprecated previous pulled =
     (case previous of
        None \<Rightarrow> []
      | Some d \<Rightarrow> [t\<lparr>PT_Deprecated := True\<rparr>. t \<leftarrow> PD_Tools d, \<forall>u \<in> set (B_Tools pulled). BT_Slug u \<noteq> PT_Slug t])"

definition served_from :: "ProviderDefinition option \<Rightarrow> Bundle \<Rightarrow> ProviderDefinition \<Rightarrow> bool" where
  "served_from previous pulled d \<longleftrightarrow>
     PD_Slug d = B_ProviderSlug pulled \<and> PD_Name d = B_Name pulled \<and> PD_Logo d = B_Logo pulled
   \<and> PD_AuthScheme d = B_AuthScheme pulled \<and> PD_BaseURL d = B_BaseURL pulled
   \<and> PD_AuthorizeURL d = BO_AuthorizeURL (B_OAuth pulled) \<and> PD_TokenURL d = BO_TokenURL (B_OAuth pulled)
   \<and> PD_UserInfoURL d = BO_UserInfoURL (B_OAuth pulled) \<and> PD_Scopes d = BO_Scopes (B_OAuth pulled)
   \<and> PD_CredentialStyle d = BO_CredentialStyle (B_OAuth pulled) \<and> UI_EmailField (PD_UserInfo d) = BO_UserInfoEmailField (B_OAuth pulled)
   \<and> UI_DisplayNameField (PD_UserInfo d) = BO_UserInfoDisplayNameField (B_OAuth pulled)
   \<and> list_all2 (\<lambda>b x. XP_Name x = BX_Name b \<and> XP_DisplayName x = BX_DisplayName b \<and> XP_Description x = BX_Description b
        \<and> XP_Required x = BX_Required b \<and> XP_Secret x = BX_Secret b) (B_ExpectedParams pulled) (PD_ExpectedParams d)
   \<and> (\<exists>ts. PD_Tools d = ts @ kept_deprecated previous pulled \<and> list_all2 tool_from (B_Tools pulled) ts)
   \<and> list_all2 trigger_from (B_Triggers pulled) (PD_Triggers d)"

text \<open>The triggers whose instances an activation pauses: those of the definition served before that the bundle lacks.\<close>

definition removed_triggers :: "ProviderDefinition option \<Rightarrow> Bundle \<Rightarrow> string list" where
  "removed_triggers previous pulled =
     (case previous of
        None \<Rightarrow> []
      | Some d \<Rightarrow> [TD_Slug t. t \<leftarrow> PD_Triggers d, \<forall>u \<in> set (B_Triggers pulled). BR_Slug u \<noteq> TD_Slug t])"

text \<open>What a bundle must be to be activated.\<close>

definition activatable :: "crypto \<Rightarrow> Bundle \<Rightarrow> bool" where
  "activatable cr b \<longleftrightarrow>
     B_FormatVersion b = 1 \<and> B_ContentHash b \<noteq> [] \<and> B_ContentHash b = ContentHash cr b
   \<and> (\<forall>t \<in> set (B_Tools b). BT_Slug t \<noteq> [] \<and> BT_InputSchema t \<noteq> [] \<and> BT_OutputSchema t \<noteq> [])
   \<and> (\<forall>t \<in> set (B_Triggers b). BR_Slug t \<noteq> [] \<and> BR_ConfigSchema t \<noteq> [] \<and> BR_PayloadSchema t \<noteq> [])"

text \<open>The row of an activation: the version and the hash of the bundle, and the text of what is served.\<close>

definition row_from :: "cat_world \<Rightarrow> string \<Rightarrow> Bundle \<Rightarrow> ActivatedDefinition \<Rightarrow> bool" where
  "row_from w slug pulled row \<longleftrightarrow>
     AD_ProviderSlug row = slug \<and> AD_Version row = B_Version pulled \<and> AD_ContentHash row = B_ContentHash pulled
   \<and> AD_ActivatedAt row = xw_now w
   \<and> (\<exists>b. AD_BundleJSON row = encodeBundleJSON b \<and> served_from (map_of (xw_defs w) slug) pulled (definitionFromBundle b))"

lemma served_carried: "served_from p pulled (definitionFromBundle (fst (withCarriedOverDeprecatedTools pulled p)))"
proof -
  have tool: "list_all2 tool_from bs (toolsFromBundle bs)" for bs
    by (simp add: toolsFromBundle_def list_all2_map2 list_all2_same tool_from_def mappingFromBundle_def paginationFromBundle_def
        option.rel_map split: option.split)
  have trigger: "list_all2 trigger_from bs (triggersFromBundle bs)" for bs
    by (simp add: triggersFromBundle_def list_all2_map2 list_all2_same trigger_from_def)
  have param: "list_all2 (\<lambda>b x. XP_Name x = BX_Name b \<and> XP_DisplayName x = BX_DisplayName b \<and> XP_Description x = BX_Description b
        \<and> XP_Required x = BX_Required b \<and> XP_Secret x = BX_Secret b) bs (expectedParamsFromBundle bs)" for bs
    by (simp add: expectedParamsFromBundle_def list_all2_map2 list_all2_same)
  have kept: "toolsFromBundle (B_Tools (fst (withCarriedOverDeprecatedTools pulled p)))
      = toolsFromBundle (B_Tools pulled) @ kept_deprecated p pulled"
  proof -
    have "toolsFromBundle (xs @ ys) = toolsFromBundle xs @ toolsFromBundle ys" for xs ys by (simp add: toolsFromBundle_def)
    moreover have "map (\<lambda>t. t\<lparr>PT_Deprecated := True\<rparr>) (filter (\<lambda>t. PT_Slug t \<notin> BT_Slug ` set (B_Tools pulled)) ts)
        = [t\<lparr>PT_Deprecated := True\<rparr>. t \<leftarrow> ts, \<forall>u \<in> set (B_Tools pulled). BT_Slug u \<noteq> PT_Slug t]" for ts
      by (induction ts) (simp_all add: image_iff, metis)
    ultimately show ?thesis
      by (cases p) (simp_all add: carried_tools toolsFromBundle_carried kept_deprecated_def, simp add: toolsFromBundle_def)
  qed
  have sel: "B_Name (fst (withCarriedOverDeprecatedTools pulled p)) = B_Name pulled \<and> B_Logo (fst (withCarriedOverDeprecatedTools pulled p)) = B_Logo pulled
      \<and> B_AuthScheme (fst (withCarriedOverDeprecatedTools pulled p)) = B_AuthScheme pulled
      \<and> B_BaseURL (fst (withCarriedOverDeprecatedTools pulled p)) = B_BaseURL pulled
      \<and> B_OAuth (fst (withCarriedOverDeprecatedTools pulled p)) = B_OAuth pulled
      \<and> B_ExpectedParams (fst (withCarriedOverDeprecatedTools pulled p)) = B_ExpectedParams pulled"
    by (simp add: withCarriedOverDeprecatedTools_def Let_def split: option.split)
  show ?thesis
    unfolding served_from_def definitionFromBundle_def using tool trigger param kept sel by simp
qed

lemma removed_diff: "snd (diffTriggerSlugsAgainstPrevious p pulled) = removed_triggers p pulled"
proof -
  have "filter (\<lambda>slug. slug \<notin> BR_Slug ` set (B_Triggers pulled)) (map TD_Slug ts)
      = [TD_Slug t. t \<leftarrow> ts, \<forall>u \<in> set (B_Triggers pulled). BR_Slug u \<noteq> TD_Slug t]" for ts
    by (induction ts) (simp_all add: image_iff, metis)
  then show ?thesis by (cases p) (simp_all add: diffTriggerSlugsAgainstPrevious_def Let_def removed_triggers_def)
qed

lemma valid_activatable: "validateBundleForActivation cr b = None \<longleftrightarrow> activatable cr b"
proof -
  have "first_error tool_shape i ts = None \<longleftrightarrow> (\<forall>t \<in> set ts. BT_Slug t \<noteq> [] \<and> BT_InputSchema t \<noteq> [] \<and> BT_OutputSchema t \<noteq> [])" for i ts
    by (induction ts arbitrary: i) (auto simp: tool_shape_def Let_def or_else_def split: option.splits)
  moreover have "first_error trigger_shape i ts = None
      \<longleftrightarrow> (\<forall>t \<in> set ts. BR_Slug t \<noteq> [] \<and> BR_ConfigSchema t \<noteq> [] \<and> BR_PayloadSchema t \<noteq> [])" for i ts
    by (induction ts arbitrary: i) (auto simp: trigger_shape_def Let_def or_else_def split: option.splits)
  ultimately show ?thesis
    by (auto simp: validateBundleForActivation_def activatable_def validateBundleShape_def or_else_None supportedBundleFormatVersion_def)
qed

lemma row_activated:
  assumes "b = fst (withCarriedOverDeprecatedTools pulled (map_of (xw_defs w) slug))"
  shows "row_from w slug pulled (activation_row w slug b)"
proof -
  have "B_ContentHash b = B_ContentHash pulled"
    by (simp add: assms withCarriedOverDeprecatedTools_def Let_def split: option.split)
  then show ?thesis using served_carried by (auto simp: row_from_def activation_row_def assms)
qed

text \<open>
  C32: An activation that succeeds has pulled an acceptable bundle: the provider serves the fields, tools and triggers of
  that bundle and, marked deprecated, exactly those tools served before whose slug the bundle does not have; the
  row holds what is served; exactly the triggers that are gone were paused; no other provider and no other row
  changed. If it fails, every provider's served definition is what it was. The stored rows are what they were too,
  with one exception: the failure came after the new row was written and the write that restores the old one
  failed as well (the code only logs that), then the new row stays. Not undone either is the pausing of the
  removed triggers it got to before the failure. The registry is assumed to answer for the slug it was asked for.
\<close>

theorem Activate_all_or_nothing:
  assumes "cat_keyed w" and "registry_honest env" and "Activate (cat_F env) slug version w = (r, w')"
  shows "(\<forall>e. r = Inl e \<longrightarrow> map_of (xw_defs w') = map_of (xw_defs w)
            \<and> (map_of (xw_rows w') = map_of (xw_rows w)
               \<or> cx_write_fails env (Suc (xw_writes w)) \<noteq> None \<and> (\<exists>pulled row. cx_bundle env (xw_fetches w) slug version = Inr pulled
                   \<and> activatable (cx_crypto env) pulled \<and> row_from w slug pulled row
                   \<and> map_of (xw_rows w') = (map_of (xw_rows w))(slug \<mapsto> row)))
            \<and> (xw_paused w' = xw_paused w
               \<or> (\<exists>pulled k. cx_bundle env (xw_fetches w) slug version = Inr pulled
                   \<and> k < length (removed_triggers (map_of (xw_defs w) slug) pulled)
                   \<and> xw_paused w' = xw_paused w @ take k (removed_triggers (map_of (xw_defs w) slug) pulled))))
     \<and> (\<forall>a. r = Inr a \<longrightarrow> (\<exists>pulled d row. cx_bundle env (xw_fetches w) slug version = Inr pulled
            \<and> activatable (cx_crypto env) pulled
            \<and> a = \<lparr>AV_ProviderSlug = slug, AV_ActiveVersion = B_Version pulled\<rparr>
            \<and> served_from (map_of (xw_defs w) slug) pulled d \<and> map_of (xw_defs w') = (map_of (xw_defs w))(slug \<mapsto> d)
            \<and> row_from w slug pulled row \<and> map_of (xw_rows w') = (map_of (xw_rows w))(slug \<mapsto> row)
            \<and> xw_paused w' = xw_paused w @ removed_triggers (map_of (xw_defs w) slug) pulled))"
  using assms(3)
proof (cases rule: Activate_cases)
  case (refused e)
  then show ?thesis by simp
next
  case (unwritten e)
  then show ?thesis by simp
next
  case (accepted pulled b removed k)
  have slug: "B_ProviderSlug b = slug" using assms(2) accepted(1) by (auto simp: registry_honest_def accepted(3))
  have removed: "removed = removed_triggers (map_of (xw_defs w) slug) pulled" by (simp add: accepted(4) removed_diff)
  have good: "cx_bundle env (xw_fetches w) slug version = Inr pulled \<and> activatable (cx_crypto env) pulled"
    using accepted(1,2) by (simp add: valid_activatable)
  have row: "row_from w slug pulled (activation_row w slug b)" using accepted(3) by (rule row_activated)
  have served: "served_from (map_of (xw_defs w) slug) pulled (definitionFromBundle b)" by (simp add: accepted(3) served_carried)
  show ?thesis
  proof (cases "k = length removed")
    case True
    have r: "r = Inr \<lparr>AV_ProviderSlug = slug, AV_ActiveVersion = B_Version pulled\<rparr>"
      and w': "map_of (xw_defs w') = (map_of (xw_defs w))(slug \<mapsto> definitionFromBundle b)"
        "map_of (xw_rows w') = (map_of (xw_rows w))(slug \<mapsto> activation_row w slug b)" "xw_paused w' = xw_paused w @ removed"
      using accepted(6) [OF True] slug by (simp_all add: activated_def accepted(3) fun_eq_iff)
    show ?thesis using good r row served w' removed by blast
  next
    case False
    note rolled = accepted(7) [OF False]
    have defs: "map_of (xw_defs w') = map_of (xw_defs w)"
      using rolled restored_lookup(1) [OF assms(1)] slug by (simp add: activated_def)
    have rows: "map_of (xw_rows w') = map_of (xw_rows w)
        \<or> cx_write_fails env (Suc (xw_writes w)) \<noteq> None \<and> map_of (xw_rows w') = (map_of (xw_rows w))(slug \<mapsto> activation_row w slug b)"
      using rolled restored_lookup(2) [OF assms(1)] by (simp add: activated_def fun_eq_iff)
    have k: "k < length removed" using accepted(5) False by simp
    have paused: "xw_paused w' = xw_paused w @ take k removed" using rolled by simp
    obtain e where r: "r = Inl e" using rolled by (auto simp: isl_def)
    have "\<not> r = Inr a" for a by (simp add: r)
    then show ?thesis using good row defs rows k paused removed by blast
  qed
qed

section \<open>Runs\<close>

datatype cat_op = CActivate string string | CBackfill | CRestart

text \<open>A restart loads the embedded definitions and then the stored rows; the rows are in the database.\<close>

definition restarted :: "cat_env \<Rightarrow> cat_world \<Rightarrow> cat_world" where
  "restarted env w = w\<lparr>xw_defs := cat_NewFacade_definitions (cx_seed env)\<rparr>"

fun cat_step :: "cat_env \<Rightarrow> cat_op \<Rightarrow> cat_world \<Rightarrow> cat_world" where
  "cat_step env (CActivate slug version) w = snd (Activate (cat_F env) slug version w)"
| "cat_step env CBackfill w = snd (BackfillEmbeddedSeed (cat_F env) w)"
| "cat_step env CRestart w = snd (LoadActivatedDefinitions (cat_F env) (restarted env w))"

definition cat_run :: "cat_env \<Rightarrow> cat_op list \<Rightarrow> cat_world \<Rightarrow> cat_world" where
  "cat_run env ops w = foldl (\<lambda>w op. cat_step env op w) w ops"

definition cat_start :: "cat_env \<Rightarrow> time \<Rightarrow> cat_world" where
  "cat_start env now =
     \<lparr>xw_store = cat_NewRepository, xw_rows = ad_NewRepository, xw_defs = cat_NewFacade_definitions (cx_seed env), xw_paused = [],
      xw_now = now, xw_ids = 0, xw_toolIDs = 0, xw_nonces = 0, xw_fetches = 0, xw_writes = 0\<rparr>"

text \<open>
  The environment of the run theorems: an honest registry whose bundles are values a JSON document can hold, embedded
  definitions of that kind, and a database that takes its writes.
\<close>

definition definition_wf :: "ProviderDefinition \<Rightarrow> bool" where
  "definition_wf d \<longleftrightarrow> bundle_wf (BundleFromProviderDefinition d)"

definition cat_faithful :: "cat_env \<Rightarrow> bool" where
  "cat_faithful env \<longleftrightarrow> registry_honest env \<and> (\<forall>n slug version b. cx_bundle env n slug version = Inr b \<longrightarrow> bundle_wf b)
     \<and> (\<forall>d \<in> set (cx_seed env). definition_wf d) \<and> (\<forall>n. cx_write_fails env n = None)"

definition row_serves :: "ActivatedDefinition \<Rightarrow> ProviderDefinition \<Rightarrow> bool" where
  "row_serves row d \<longleftrightarrow> (\<exists>b. AD_BundleJSON row = encodeBundleJSON b \<and> bundle_wf b \<and> d = definitionFromBundle b)"

text \<open>Each provider is served as its row says, or as embedded when it has none.\<close>

definition cat_inv :: "cat_env \<Rightarrow> cat_world \<Rightarrow> bool" where
  "cat_inv env w \<longleftrightarrow> cat_keyed w
     \<and> (\<forall>slug row. map_of (xw_rows w) slug = Some row \<longrightarrow> (\<exists>d. map_of (xw_defs w) slug = Some d \<and> row_serves row d))
     \<and> (\<forall>slug. map_of (xw_rows w) slug = None \<longrightarrow> map_of (xw_defs w) slug = map_of (cat_NewFacade_definitions (cx_seed env)) slug)"

lemma decode_row: "row_serves row d \<Longrightarrow> \<exists>b. decodeBundleJSON (AD_BundleJSON row) = Inr b \<and> definitionFromBundle b = d"
  by (auto simp: row_serves_def decodeBundleJSON_def encodeBundleJSON_def bundle_document_roundtrip)

lemma bundle_wf_stamp [simp]:
  "bundle_wf (b\<lparr>B_Version := v\<rparr>) = bundle_wf b" "bundle_wf (b\<lparr>B_ContentHash := h\<rparr>) = bundle_wf b"
  by (simp_all add: bundle_wf_def)

text \<open>
  C35: What an installation stores of a provider decodes to exactly that provider: the activated row written for a
  definition, under any version and content hash, reads back as the same definition (OAuth settings, parameters,
  tools with their mappings and schemas, triggers) with that version and hash, and hashes as it did when written.
\<close>

theorem stored_definition_roundtrip:
  assumes "definition_wf d"
  shows "\<exists>b. decodeBundleJSON (encodeBundleJSON ((BundleFromProviderDefinition d)\<lparr>B_Version := v, B_ContentHash := h\<rparr>)) = Inr b
     \<and> definitionFromBundle b = d \<and> B_Version b = v \<and> B_ContentHash b = h
     \<and> ContentHash c b = ContentHash c ((BundleFromProviderDefinition d)\<lparr>B_Version := v\<rparr>)"
proof -
  let ?b = "(BundleFromProviderDefinition d)\<lparr>B_Version := v, B_ContentHash := h\<rparr>"
  have "bundle_wf ?b" using assms by (simp add: definition_wf_def)
  then have "decodeBundleJSON (encodeBundleJSON ?b) = Inr ?b"
    by (simp add: decodeBundleJSON_def encodeBundleJSON_def bundle_document_roundtrip)
  moreover have "definitionFromBundle ?b = d" by (simp add: definition_of_bundle_of_definition)
  moreover have "ContentHash c ?b = ContentHash c ((BundleFromProviderDefinition d)\<lparr>B_Version := v\<rparr>)" by (simp add: ContentHash_def)
  ultimately show ?thesis by simp
qed

lemma seed_table:
  assumes "keyed PD_Slug t"
  shows "keyed PD_Slug (foldl (\<lambda>byslug d. put (PD_Slug d) d byslug) t ds)"
    and "map_of (foldl (\<lambda>byslug d. put (PD_Slug d) d byslug) t ds) slug = Some d \<Longrightarrow> d \<in> set ds \<or> map_of t slug = Some d"
  using assms
proof (induction ds arbitrary: t)
  case (Cons x ds)
  { case 1 then show ?case using Cons(1) by (simp add: keyed_put) }
  { case 2 then show ?case using Cons(2) [of "put (PD_Slug x) x t"] by (auto simp: keyed_put split: if_splits) }
qed simp_all

lemma wf_of_bundle: "bundle_wf b \<Longrightarrow> definition_wf (definitionFromBundle b)"
  by (auto simp: definition_wf_def bundle_wf_def BundleFromProviderDefinition_def definitionFromBundle_def supportedBundleFormatVersion_def
      int64_def bundleToolsFromDefinition_def toolsFromBundle_def bundleToolFromProviderTool_def tool_wf_def mapping_wf_def
      mappingFromBundle_def bundleTriggersFromDefinition_def triggersFromBundle_def trigger_wf_def poll_wf_def map_wf_def)

lemma inv_wf:
  assumes "cat_inv env w" and "cat_faithful env" and "map_of (xw_defs w) slug = Some d"
  shows "definition_wf d"
proof (cases "map_of (xw_rows w) slug")
  case None
  then have "map_of (cat_NewFacade_definitions (cx_seed env)) slug = Some d" using assms(1,3) by (simp add: cat_inv_def)
  from seed_table(2) [OF keyed_Nil this [unfolded cat_NewFacade_definitions_def]] show ?thesis
    using assms(2) by (auto simp: cat_faithful_def)
next
  case (Some row)
  then obtain b where "bundle_wf b" "d = definitionFromBundle b"
    using assms(1,3) by (force simp: cat_inv_def row_serves_def)
  then show ?thesis by (simp add: wf_of_bundle)
qed

lemma carried_wf:
  assumes "bundle_wf b" and "\<And>d. p = Some d \<Longrightarrow> definition_wf d"
  shows "bundle_wf (fst (withCarriedOverDeprecatedTools b p))"
proof -
  have "tool_wf (bundleToolFromCarriedOverProviderTool t)" if "p = Some d" "t \<in> set (PD_Tools d)" for d t
    using assms(2) [OF that(1)] that(2)
    by (auto simp: definition_wf_def bundle_wf_def BundleFromProviderDefinition_def bundleToolsFromDefinition_def tool_wf_def
        bundleToolFromCarriedOverProviderTool_def bundleToolFromProviderTool_def mapping_wf_def)
  then show ?thesis using assms(1) by (auto simp: bundle_wf_def carried_tools split: option.splits)
qed

section \<open>What a step keeps\<close>

text \<open>The invariant holds afterwards, and every provider still has at least the tool slugs it had.\<close>

definition grows :: "cat_env \<Rightarrow> cat_world \<Rightarrow> cat_world \<Rightarrow> bool" where
  "grows env w w' \<longleftrightarrow> cat_inv env w'
     \<and> (\<forall>slug d. map_of (xw_defs w) slug = Some d \<longrightarrow>
          (\<exists>d'. map_of (xw_defs w') slug = Some d' \<and> PT_Slug ` set (PD_Tools d) \<subseteq> PT_Slug ` set (PD_Tools d')))"

lemma grows_trans: "grows env u v \<Longrightarrow> grows env v w \<Longrightarrow> grows env u w"
  unfolding grows_def by (meson subset_trans)

lemma grows_same:
  assumes "cat_inv env w" and "map_of (xw_defs w') = map_of (xw_defs w)" and "map_of (xw_rows w') = map_of (xw_rows w)"
    and "cat_keyed w'"
  shows "grows env w w'"
  using assms by (auto simp: grows_def cat_inv_def)

lemma grows_put:
  assumes inv: "cat_inv env w" and "xw_defs w' = put slug d (xw_defs w)" and "xw_rows w' = put slug row (xw_rows w)"
    and "PD_Slug d = slug" and "AD_ProviderSlug row = slug" and "row_serves row d"
    and "\<And>old. map_of (xw_defs w) slug = Some old \<Longrightarrow> PT_Slug ` set (PD_Tools old) \<subseteq> PT_Slug ` set (PD_Tools d)"
  shows "grows env w w'"
  using assms by (auto simp: grows_def cat_inv_def cat_keyed_def keyed_put)

lemma Activate_grows:
  assumes inv: "cat_inv env w" and env: "cat_faithful env"
  shows "grows env w (snd (Activate (cat_F env) slug version w))"
proof -
  obtain r w' where run: "Activate (cat_F env) slug version w = (r, w')" by fastforce
  then have "grows env w w'"
  proof (cases rule: Activate_cases)
    case (refused e)
    then show ?thesis using inv by (intro grows_same) (simp_all add: cat_inv_def cat_keyed_def)
  next
    case (unwritten e)
    then show ?thesis using env by (simp add: cat_faithful_def)
  next
    case (accepted pulled b removed k)
    have slug: "B_ProviderSlug pulled = slug" and wf: "bundle_wf pulled"
      using env accepted(1) by (auto simp: cat_faithful_def registry_honest_def)
    have k: "cat_keyed w" using inv by (simp add: cat_inv_def)
    have "bundle_wf b"
      unfolding accepted(3) using wf inv_wf [OF inv env] by (rule carried_wf)
    then have serves: "row_serves (activation_row w slug b) (definitionFromBundle b)"
      by (auto simp: row_serves_def activation_row_def)
    have old: "PT_Slug ` set (PD_Tools old) \<subseteq> PT_Slug ` set (PD_Tools (definitionFromBundle b))"
      if "map_of (xw_defs w) slug = Some old" for old
    proof -
      have "toolsFromBundle (xs @ ys) = toolsFromBundle xs @ toolsFromBundle ys" for xs ys by (simp add: toolsFromBundle_def)
      moreover have "PT_Slug ` set (toolsFromBundle ts) = BT_Slug ` set ts" for ts by (force simp: toolsFromBundle_def)
      ultimately have "PT_Slug ` set (PD_Tools (definitionFromBundle b)) = BT_Slug ` set (B_Tools pulled)
          \<union> PT_Slug ` {t \<in> set (PD_Tools old). PT_Slug t \<notin> BT_Slug ` set (B_Tools pulled)}"
        using that by (simp add: accepted(3) carried_tools toolsFromBundle_carried image_Un image_image)
      then show ?thesis by blast
    qed
    show ?thesis
    proof (cases "k = length removed")
      case True
      then show ?thesis
        using accepted(6) slug serves old accepted(3)
        by (intro grows_put [OF inv, where slug = slug and d = "definitionFromBundle b" and row = "activation_row w slug b"])
          (auto simp: activated_def activation_row_def)
    next
      case False
      have "keyed PD_Slug (xw_defs (activated slug b w))" and "keyed AD_ProviderSlug (xw_rows (activated slug b w))"
        using k slug accepted(3) by (auto simp: activated_def cat_keyed_def keyed_put activation_row_def)
      then have "cat_keyed w'"
        using accepted(7) [OF False] k env
        by (auto simp: cat_keyed_def restored_defs_def restored_rows_def keyed_put keyed_del cat_faithful_def split: option.splits)
      then show ?thesis
        using accepted(7) [OF False] restored_lookup [OF k] env slug accepted(3)
        by (intro grows_same [OF inv]) (auto simp: activated_def cat_faithful_def)
    qed
  qed
  then show ?thesis by (simp add: run)
qed

lemma stamp_run:
  assumes f: "\<And>v. f v = (sequential_id ''tool_'' (xw_toolIDs v), v\<lparr>xw_toolIDs := Suc (xw_toolIDs v)\<rparr>)"
  shows "\<exists>ts' n m. stamp_tools f ts w = ((ts', n), w\<lparr>xw_toolIDs := m\<rparr>) \<and> list_all2 (\<lambda>t t'. t' = t\<lparr>PT_ID := PT_ID t'\<rparr>) ts ts'"
proof (induction ts arbitrary: w)
  case Nil
  show ?case by (intro exI [of _ "[]"] exI [of _ 0] exI [of _ "xw_toolIDs w"]) simp
next
  case (Cons t ts)
  let ?v = "if PT_ID t = [] then w\<lparr>xw_toolIDs := Suc (xw_toolIDs w)\<rparr> else w"
  let ?t = "if PT_ID t = [] then t\<lparr>PT_ID := sequential_id ''tool_'' (xw_toolIDs w)\<rparr> else t"
  obtain ts' n m where rest: "stamp_tools f ts ?v = ((ts', n), ?v\<lparr>xw_toolIDs := m\<rparr>)"
    "list_all2 (\<lambda>t t'. t' = t\<lparr>PT_ID := PT_ID t'\<rparr>) ts ts'"
    using Cons.IH by blast
  then have "stamp_tools f (t # ts) w = ((?t # ts', if PT_ID t = [] then n + 1 else n), w\<lparr>xw_toolIDs := m\<rparr>)"
    by (simp add: f split: if_splits)
  moreover have "list_all2 (\<lambda>t t'. t' = t\<lparr>PT_ID := PT_ID t'\<rparr>) (t # ts) (?t # ts')" using rest(2) by simp
  ultimately show ?case by blast
qed

lemma stamped_tools:
  assumes "list_all2 (\<lambda>t t'. t' = t\<lparr>PT_ID := PT_ID t'\<rparr>) ts ts'"
  shows "PT_Slug ` set ts' = PT_Slug ` set ts"
    and "(\<And>t. t \<in> set ts \<Longrightarrow> tool_wf (bundleToolFromProviderTool t (PT_Deprecated t)))
      \<Longrightarrow> t' \<in> set ts' \<Longrightarrow> tool_wf (bundleToolFromProviderTool t' (PT_Deprecated t'))"
  using assms
proof (induction rule: list_all2_induct)
  case (Cons t ts u us)
  have u: "PT_Slug u = PT_Slug t" "tool_wf (bundleToolFromProviderTool u (PT_Deprecated u)) = tool_wf (bundleToolFromProviderTool t (PT_Deprecated t))"
    by (subst Cons(1), simp)
      (subst (1 2) Cons(1), simp add: tool_wf_def bundleToolFromProviderTool_def mapping_wf_def)
  { case 1 then show ?case using Cons(3) u by simp }
  { case 2 then show ?case using Cons(4) u by auto }
qed simp_all

lemma backfill_one:
  assumes inv: "cat_inv env w" and env: "cat_faithful env" and d: "map_of (xw_defs w) (PD_Slug d) = Some d"
    and f: "\<And>v. f v = (sequential_id ''tool_'' (xw_toolIDs v), v\<lparr>xw_toolIDs := Suc (xw_toolIDs v)\<rparr>)"
  shows "\<exists>n w'. backfillOneProvider (cat_F env) (cat_rows env) f d w = (Inr n, w') \<and> grows env w w'
     \<and> (\<forall>slug. slug \<noteq> PD_Slug d \<longrightarrow> map_of (xw_defs w') slug = map_of (xw_defs w) slug)"
proof (cases "map_of (xw_rows w) (PD_Slug d)")
  case (Some row)
  have "grows env w w" using inv by (intro grows_same) (simp_all add: cat_inv_def)
  then show ?thesis using Some by (simp add: backfillOneProvider_def attempt_apply)
next
  case None
  obtain ts n m where stamp: "stamp_tools f (PD_Tools d) w = ((ts, n), w\<lparr>xw_toolIDs := m\<rparr>)"
    and ts: "list_all2 (\<lambda>t t'. t' = t\<lparr>PT_ID := PT_ID t'\<rparr>) (PD_Tools d) ts"
    using stamp_run [of f "PD_Tools d" w] f by blast
  define u where "u = (BundleFromProviderDefinition (d\<lparr>PD_Tools := ts\<rparr>))\<lparr>B_Version := embeddedSeedInitialVersion\<rparr>"
  define b where "b = u\<lparr>B_ContentHash := ContentHash (cx_crypto env) u\<rparr>"
  let ?w' = "w\<lparr>xw_toolIDs := m, xw_writes := Suc (xw_writes w), xw_rows := put (PD_Slug d) (activation_row w (PD_Slug d) b) (xw_rows w),
      xw_defs := put (PD_Slug d) (d\<lparr>PD_Tools := ts\<rparr>) (xw_defs w)\<rparr>"
  have run: "backfillOneProvider (cat_F env) (cat_rows env) f d w = (Inr n, ?w')"
    using None stamp env
    by (simp add: backfillOneProvider_def attempt_apply call_apply stampMissingToolIDs_def Let_def persistActivatedDefinition_def
        cat_faithful_def activation_row_def b_def u_def)
  have d_wf: "definition_wf d" using inv env d by (rule inv_wf)
  have "definition_wf (d\<lparr>PD_Tools := ts\<rparr>)"
  proof -
    have "tool_wf (bundleToolFromProviderTool t (PT_Deprecated t))" if "t \<in> set (PD_Tools d)" for t
      using d_wf that by (simp add: definition_wf_def bundle_wf_def BundleFromProviderDefinition_def bundleToolsFromDefinition_def)
    from stamped_tools(2) [OF ts this] d_wf show ?thesis
      by (auto simp: definition_wf_def bundle_wf_def BundleFromProviderDefinition_def bundleToolsFromDefinition_def)
  qed
  then have "bundle_wf b" by (simp add: definition_wf_def bundle_wf_def b_def u_def)
  moreover have "definitionFromBundle b = d\<lparr>PD_Tools := ts\<rparr>"
    by (simp add: b_def u_def definition_of_bundle_of_definition)
  ultimately have "row_serves (activation_row w (PD_Slug d) b) (d\<lparr>PD_Tools := ts\<rparr>)"
    by (auto simp: row_serves_def activation_row_def)
  then have "grows env w ?w'"
    using stamped_tools(1) [OF ts] d
    by (intro grows_put [OF inv, where slug = "PD_Slug d" and d = "d\<lparr>PD_Tools := ts\<rparr>" and row = "activation_row w (PD_Slug d) b"])
      (simp_all add: activation_row_def)
  then show ?thesis using run by (intro exI [of _ n] exI [of _ ?w']) simp
qed

lemma backfill_run:
  assumes env: "cat_faithful env"
    and f: "\<And>v. f v = (sequential_id ''tool_'' (xw_toolIDs v), v\<lparr>xw_toolIDs := Suc (xw_toolIDs v)\<rparr>)"
  shows "cat_inv env w \<Longrightarrow> distinct (map PD_Slug ds) \<Longrightarrow> \<forall>d \<in> set ds. map_of (xw_defs w) (PD_Slug d) = Some d
    \<Longrightarrow> \<exists>n w'. backfill_all (cat_F env) (cat_rows env) f ds w = (Inr n, w') \<and> grows env w w'"
proof (induction ds arbitrary: w)
  case Nil
  then have "grows env w w" by (intro grows_same) (simp_all add: cat_inv_def)
  then show ?case by simp
next
  case (Cons d ds)
  obtain n w1 where one: "backfillOneProvider (cat_F env) (cat_rows env) f d w = (Inr n, w1)" "grows env w w1"
    "\<forall>slug. slug \<noteq> PD_Slug d \<longrightarrow> map_of (xw_defs w1) slug = map_of (xw_defs w) slug"
    using backfill_one [OF Cons.prems(1) env _ f] Cons.prems(3) by (meson list.set_intros(1))
  have "\<forall>d' \<in> set ds. map_of (xw_defs w1) (PD_Slug d') = Some d'"
    using one(3) Cons.prems(2,3) by (auto simp: image_iff)
  then obtain n' w' where rest: "backfill_all (cat_F env) (cat_rows env) f ds w1 = (Inr n', w')" "grows env w1 w'"
    using Cons.IH [of w1] one(2) Cons.prems(2) by (auto simp: grows_def)
  from one(1) rest(1) grows_trans [OF one(2) rest(2)] show ?case by (simp add: attempt_apply)
qed

lemma Backfill_grows:
  assumes inv: "cat_inv env w" and env: "cat_faithful env"
  shows "grows env w (snd (BackfillEmbeddedSeed (cat_F env) w))"
proof -
  let ?ds = "sortedDefinitionsByProviderSlug (xw_defs w)"
  have k: "keyed PD_Slug (xw_defs w)" using inv by (simp add: cat_inv_def cat_keyed_def)
  have "distinct (map PD_Slug ?ds)"
    using keyed_distinct_rows [OF k] by (simp only: sortedDefinitionsByProviderSlug_def distinct_map set_sort distinct_sort)
  moreover have "\<forall>d \<in> set ?ds. map_of (xw_defs w) (PD_Slug d) = Some d"
    using rows_lookup [OF k] by (simp add: sortedDefinitionsByProviderSlug_def)
  ultimately obtain n w' where "backfill_all (cat_F env) (cat_rows env)
      (zoom xw_toolIDs xw_toolIDs_update (\<lambda>n. (sequential_id ''tool_'' n, Suc n))) ?ds w = (Inr n, w')" "grows env w w'"
    using backfill_run [OF env _ inv, of "zoom xw_toolIDs xw_toolIDs_update (\<lambda>n. (sequential_id ''tool_'' n, Suc n))" ?ds]
    by (auto simp: zoom_apply)
  then show ?thesis by (simp add: BackfillEmbeddedSeed_def call_apply)
qed

section \<open>Restart\<close>

lemma load_run:
  "\<forall>row \<in> set rs. row_serves row (D (AD_ProviderSlug row)) \<and> PD_Slug (D (AD_ProviderSlug row)) = AD_ProviderSlug row \<Longrightarrow>
    keyed PD_Slug (xw_defs w) \<Longrightarrow>
    \<exists>t. load_rows (cat_F env) rs w = (Inr (), w\<lparr>xw_defs := t\<rparr>) \<and> keyed PD_Slug t
      \<and> (\<forall>slug. map_of t slug = (if slug \<in> AD_ProviderSlug ` set rs then Some (D slug) else map_of (xw_defs w) slug))"
proof (induction rs arbitrary: w)
  case Nil
  then show ?case by (intro exI [of _ "xw_defs w"]) simp
next
  case (Cons row rs)
  let ?d = "D (AD_ProviderSlug row)"
  obtain b where b: "decodeBundleJSON (AD_BundleJSON row) = Inr b" "definitionFromBundle b = ?d"
    using decode_row [of row ?d] Cons.prems(1) by auto
  let ?w1 = "w\<lparr>xw_defs := put (PD_Slug ?d) ?d (xw_defs w)\<rparr>"
  obtain t where t: "load_rows (cat_F env) rs ?w1 = (Inr (), ?w1\<lparr>xw_defs := t\<rparr>)" "keyed PD_Slug t"
    "\<forall>slug. map_of t slug = (if slug \<in> AD_ProviderSlug ` set rs then Some (D slug) else map_of (xw_defs ?w1) slug)"
    using Cons.IH [of ?w1] Cons.prems by (auto simp: keyed_put)
  have "load_rows (cat_F env) (row # rs) w = (Inr (), w\<lparr>xw_defs := t\<rparr>)" using t(1) b by (simp add: call_apply)
  then show ?case using t(2,3) Cons.prems(1) by (intro exI [of _ t]) auto
qed

lemma restart_run:
  assumes inv: "cat_inv env w"
  shows "\<exists>t. LoadActivatedDefinitions (cat_F env) (restarted env w) = (Inr (), w\<lparr>xw_defs := t\<rparr>) \<and> keyed PD_Slug t
     \<and> map_of t = map_of (xw_defs w)"
proof -
  let ?rs = "sort_key AD_ProviderSlug (rows (xw_rows w))"
  define D where "D slug = the (map_of (xw_defs w) slug)" for slug
  have k: "keyed PD_Slug (xw_defs w)" "keyed AD_ProviderSlug (xw_rows w)" using inv by (simp_all add: cat_inv_def cat_keyed_def)
  have serves: "\<exists>d. map_of (xw_defs w) (AD_ProviderSlug row) = Some d \<and> row_serves row d \<and> PD_Slug d = AD_ProviderSlug row"
    if "row \<in> set (rows (xw_rows w))" for row
  proof -
    have "map_of (xw_rows w) (AD_ProviderSlug row) = Some row" using that rows_lookup [OF k(2), of row] by blast
    with inv obtain d where "map_of (xw_defs w) (AD_ProviderSlug row) = Some d" "row_serves row d"
      unfolding cat_inv_def by blast
    with keyed_lookup [OF k(1)] show ?thesis by blast
  qed
  have "\<forall>row \<in> set ?rs. row_serves row (D (AD_ProviderSlug row)) \<and> PD_Slug (D (AD_ProviderSlug row)) = AD_ProviderSlug row"
    using serves by (fastforce simp: D_def)
  moreover have "keyed PD_Slug (xw_defs (restarted env w))"
    using seed_table(1) [of "[]"] by (simp add: restarted_def cat_NewFacade_definitions_def)
  ultimately obtain t where t: "load_rows (cat_F env) ?rs (restarted env w) = (Inr (), (restarted env w)\<lparr>xw_defs := t\<rparr>)" "keyed PD_Slug t"
    "\<forall>slug. map_of t slug = (if slug \<in> AD_ProviderSlug ` set ?rs then Some (D slug) else map_of (xw_defs (restarted env w)) slug)"
    using load_run [of ?rs D "restarted env w" env] by blast
  have "map_of t slug = map_of (xw_defs w) slug" for slug
  proof (cases "map_of (xw_rows w) slug")
    case None
    then have "slug \<notin> AD_ProviderSlug ` set ?rs" using rows_lookup [OF k(2)] by force
    then show ?thesis using t(3) inv None by (simp add: cat_inv_def restarted_def)
  next
    case (Some row)
    then have row: "AD_ProviderSlug row = slug" "row \<in> set (rows (xw_rows w))"
      using keyed_lookup [OF k(2) Some] rows_lookup [OF k(2), of row] by auto
    then have "slug \<in> AD_ProviderSlug ` set ?rs" by force
    then show ?thesis using t(3) serves [OF row(2)] row(1) by (auto simp: D_def)
  qed
  then show ?thesis using t(1,2) by (intro exI [of _ t]) (auto simp: LoadActivatedDefinitions_def attempt_apply restarted_def)
qed

lemma step_grows: "cat_inv env w \<Longrightarrow> cat_faithful env \<Longrightarrow> grows env w (cat_step env op w)"
proof (cases op)
  case CRestart
  assume inv: "cat_inv env w"
  then obtain t where "LoadActivatedDefinitions (cat_F env) (restarted env w) = (Inr (), w\<lparr>xw_defs := t\<rparr>)" "keyed PD_Slug t"
    "map_of t = map_of (xw_defs w)" using restart_run by blast
  then show ?thesis using inv CRestart by (intro grows_same) (simp_all add: cat_inv_def cat_keyed_def)
qed (simp_all add: Activate_grows Backfill_grows)

lemma run_grows: "cat_inv env w \<Longrightarrow> cat_faithful env \<Longrightarrow> grows env w (cat_run env ops w)"
proof (induction ops arbitrary: w)
  case Nil
  then show ?case by (simp add: cat_run_def grows_same cat_inv_def)
next
  case (Cons op ops)
  then have "grows env w (cat_step env op w)" by (simp add: step_grows)
  moreover from this have "grows env (cat_step env op w) (cat_run env ops (cat_step env op w))"
    using Cons by (simp add: grows_def)
  ultimately show ?case using grows_trans by (simp add: cat_run_def)
qed

lemma cat_start_inv: "cat_inv env (cat_start env now)"
  using seed_table(1) [of "[]"] by (simp add: cat_inv_def cat_start_def cat_keyed_def ad_NewRepository_def cat_NewFacade_definitions_def)

text \<open>
  C33: A restart changes nothing of what is served. From any sequence of activations (successful, refused or rolled back),
  backfills and restarts, loading the embedded definitions and then the stored rows succeeds and serves for every
  provider the definition that was served before, under an honest registry, a database that takes its writes, and
  schemas that survive a JSON document.
\<close>

theorem restart_serves_same:
  assumes "cat_faithful env" and "w = cat_run env ops (cat_start env now)"
  shows "\<exists>t. LoadActivatedDefinitions (cat_F env) (restarted env w) = (Inr (), w\<lparr>xw_defs := t\<rparr>)
     \<and> map_of t = map_of (xw_defs w)"
  using restart_run [of env w] run_grows [OF cat_start_inv assms(1)] unfolding assms(2) grows_def by blast

section \<open>Tool slugs\<close>




section \<open>A concrete instance\<close>

text \<open>A provider whose embedded tool \<open>send\<close> and trigger \<open>mail\<close> the published version no longer has.\<close>

definition cat_demo_tool :: ProviderTool where
  "cat_demo_tool = \<lparr>PT_ID = [], PT_Slug = ''send'', PT_Name = ''Send'', PT_Description = [], PT_Method = ''POST'', PT_Path = ''/send'',
     PT_InputSchema = [(''type'', AStr ''object'')], PT_OutputSchema = [(''type'', AStr ''object'')], PT_Deprecated = False,
     PT_Mapping = \<lparr>MP_Query = [], MP_Header = [], MP_Body = [], MP_Pagination = None, MP_FileInputs = []\<rparr>\<rparr>"

definition cat_demo_trigger :: TriggerDefinition where
  "cat_demo_trigger = \<lparr>TD_Slug = ''mail'', TD_Name = ''Mail'', TD_Description = [], TD_ConfigSchema = [(''type'', AStr ''object'')],
     TD_PayloadSchema = [(''type'', AStr ''object'')], TD_Ingestion = ''poll'', TD_PollIntervalSeconds = 60,
     TD_Poll = \<lparr>TP_Method = ''GET'', TP_Path = ''/mail'', TP_Query = [], TP_Body = [], TP_RecordsPath = ''items'', TP_RecordIDPath = ''id'',
       TP_RecordTimestampPath = ''at'', TP_Payload = []\<rparr>\<rparr>"

definition cat_demo_definition :: ProviderDefinition where
  "cat_demo_definition = \<lparr>PD_Slug = ''crm'', PD_Name = ''CRM'', PD_Logo = [], PD_AuthScheme = ''oauth2'', PD_BaseURL = ''https://crm.example'',
     PD_AuthorizeURL = ''https://crm.example/authorize'', PD_TokenURL = ''https://crm.example/token'', PD_UserInfoURL = [],
     PD_Scopes = [''mail''], PD_CredentialStyle = [], PD_UserInfo = \<lparr>UI_EmailField = [], UI_DisplayNameField = []\<rparr>,
     PD_ExpectedParams = [], PD_Tools = [cat_demo_tool], PD_Triggers = [cat_demo_trigger]\<rparr>"

definition cat_demo_bundle :: Bundle where
  "cat_demo_bundle =
     (let b = (BundleFromProviderDefinition (cat_demo_definition\<lparr>PD_Tools := [cat_demo_tool\<lparr>PT_ID := ''tool_7'', PT_Slug := ''fetch''\<rparr>],
            PD_Triggers := []\<rparr>))\<lparr>B_Version := ''2.0.0''\<rparr>
      in b\<lparr>B_ContentHash := ContentHash sample_crypto b\<rparr>)"

definition cat_demo :: cat_env where
  "cat_demo =
     \<lparr>cx_seed = [cat_demo_definition], cx_crypto = sample_crypto, cx_nonce = (\<lambda>n. replicate 12 CHR ''n''),
      cx_governance = (\<lambda>org. Inr (NewDefaultGovernance org)),
      cx_bundle = (\<lambda>n slug version. if slug = ''crm'' then Inr cat_demo_bundle else Inl ErrBundleVersionNotFound),
      cx_versions = (\<lambda>slug. Inr [''2.0.0'']), cx_write_fails = (\<lambda>n. None), cx_pause_fails = (\<lambda>n slug. None)\<rparr>"

lemmas demo_defs = cat_demo_definition_def cat_demo_tool_def cat_demo_trigger_def

lemma demo_bundle_valid: "validateBundleForActivation sample_crypto cat_demo_bundle = None"
proof -
  have hash: "ContentHash c (b\<lparr>B_ContentHash := h\<rparr>) = ContentHash c b" for c b h by (simp add: ContentHash_def)
  have ne: "ContentHash c b \<noteq> []" for c b by (simp add: ContentHash_def)
  have "B_FormatVersion cat_demo_bundle = supportedBundleFormatVersion"
    by (simp add: cat_demo_bundle_def Let_def BundleFromProviderDefinition_def)
  moreover have "ContentHash sample_crypto cat_demo_bundle = B_ContentHash cat_demo_bundle"
    by (simp add: cat_demo_bundle_def Let_def hash)
  moreover have "B_ContentHash cat_demo_bundle \<noteq> []" by (simp add: cat_demo_bundle_def Let_def ne)
  moreover have "validateBundleShape cat_demo_bundle = None"
    by (simp add: cat_demo_bundle_def Let_def BundleFromProviderDefinition_def validateBundleShape_def
        bundleToolsFromDefinition_def bundleTriggersFromDefinition_def)
      (simp add: bundleToolFromProviderTool_def demo_defs tool_shape_def or_else_def)
  ultimately show ?thesis by (simp add: validateBundleForActivation_def)
qed

lemma demo_definition_wf: "definition_wf cat_demo_definition"
  by (simp add: definition_wf_def bundle_wf_def BundleFromProviderDefinition_def supportedBundleFormatVersion_def int64_def
      bundleToolsFromDefinition_def bundleTriggersFromDefinition_def bundleToolFromProviderTool_def tool_wf_def trigger_wf_def
      mapping_wf_def poll_wf_def map_wf_def demo_defs)

lemma stored_definition_roundtrip_witness:
  "\<exists>b. decodeBundleJSON (encodeBundleJSON ((BundleFromProviderDefinition cat_demo_definition)\<lparr>B_Version := ''1.0.0'', B_ContentHash := ''h''\<rparr>)) = Inr b
     \<and> definitionFromBundle b = cat_demo_definition"
  using stored_definition_roundtrip [OF demo_definition_wf, of "''h''" "''1.0.0''"] by blast

lemma demo_bundle_wf: "bundle_wf cat_demo_bundle"
  by (simp add: cat_demo_bundle_def Let_def bundle_wf_def BundleFromProviderDefinition_def supportedBundleFormatVersion_def int64_def
      bundleToolsFromDefinition_def bundleTriggersFromDefinition_def bundleToolFromProviderTool_def tool_wf_def
      mapping_wf_def map_wf_def demo_defs)

lemma demo_bundle_slug: "B_ProviderSlug cat_demo_bundle = ''crm''"
  by (simp add: cat_demo_bundle_def Let_def BundleFromProviderDefinition_def demo_defs)

lemma demo_faithful: "cat_faithful cat_demo"
  using demo_bundle_wf demo_bundle_slug demo_definition_wf
  by (simp add: cat_faithful_def registry_honest_def cat_demo_def)

lemma demo_seed: "xw_defs (cat_start cat_demo 0) = [(''crm'', cat_demo_definition)]"
  by (simp add: cat_start_def cat_demo_def cat_NewFacade_definitions_def) (simp add: demo_defs)

lemma demo_activates: "\<exists>a w'. Activate (cat_F cat_demo) ''crm'' ''2.0.0'' (cat_start cat_demo 0) = (Inr a, w')"
proof -
  have env: "cx_bundle cat_demo n ''crm'' v = Inr cat_demo_bundle" "cx_crypto cat_demo = sample_crypto"
    "cx_write_fails cat_demo n = None" "cx_pause_fails cat_demo n s = None" for n v s by (simp_all add: cat_demo_def)
  have "for_each (cat_pause cat_demo) slugs v = (Inr (), v\<lparr>xw_paused := xw_paused v @ slugs\<rparr>)" for slugs v
    by (induction slugs arbitrary: v) (simp_all add: attempt_apply cat_pause_def env)
  then show ?thesis
    by (simp add: Activate_def attempt_apply call_apply currentActivatedRow_def Let_def persistActivatedDefinition_def env
        demo_bundle_valid catching_apply pauseInstancesForRemovedTriggers_def)
qed

lemma Activate_all_or_nothing_witness:
  "\<exists>a w'. Activate (cat_F cat_demo) ''crm'' ''2.0.0'' (cat_start cat_demo 0) = (Inr a, w')
     \<and> AV_ActiveVersion a = ''2.0.0'' \<and> xw_paused w' = [''mail'']"
proof -
  let ?w = "cat_start cat_demo 0"
  have k: "cat_keyed ?w" using cat_start_inv by (simp add: cat_inv_def)
  have h: "registry_honest cat_demo" using demo_faithful by (simp add: cat_faithful_def)
  obtain a w' where run: "Activate (cat_F cat_demo) ''crm'' ''2.0.0'' ?w = (Inr a, w')" using demo_activates by blast
  have removed: "removed_triggers (map_of (xw_defs ?w) ''crm'') cat_demo_bundle = [''mail'']"
    by (simp add: removed_triggers_def demo_seed Let_def cat_demo_bundle_def
        BundleFromProviderDefinition_def bundleTriggersFromDefinition_def) (simp add: demo_defs)
  have version: "B_Version cat_demo_bundle = ''2.0.0''" by (simp add: cat_demo_bundle_def Let_def)
  have answer: "cx_bundle cat_demo n ''crm'' v = Inr cat_demo_bundle" for n v by (simp add: cat_demo_def)
  obtain pulled where "cx_bundle cat_demo (xw_fetches ?w) ''crm'' ''2.0.0'' = Inr pulled"
    "a = \<lparr>AV_ProviderSlug = ''crm'', AV_ActiveVersion = B_Version pulled\<rparr>"
    "xw_paused w' = xw_paused ?w @ removed_triggers (map_of (xw_defs ?w) ''crm'') pulled"
    using Activate_all_or_nothing [OF k h run] by blast
  then show ?thesis using run answer removed version by (simp add: cat_start_def)
qed

lemma restart_serves_same_witness:
  "\<exists>t. LoadActivatedDefinitions (cat_F cat_demo) (restarted cat_demo (cat_run cat_demo [CBackfill, CActivate ''crm'' ''2.0.0''] (cat_start cat_demo 0)))
     = (Inr (), (cat_run cat_demo [CBackfill, CActivate ''crm'' ''2.0.0''] (cat_start cat_demo 0))\<lparr>xw_defs := t\<rparr>)"
  using restart_serves_same [OF demo_faithful refl, of "[CBackfill, CActivate ''crm'' ''2.0.0'']" 0] by blast


text \<open>The registry may answer for another provider: nothing checks the slug inside the bundle it returns.\<close>

lemma foreign_bundle_activates:
  assumes "cx_bundle env (xw_fetches w) slug version = Inr pulled" and "validateBundleForActivation (cx_crypto env) pulled = None"
    and "Activate (cat_F env) slug version w = (Inr a, w')"
  shows "map_of (xw_defs w') (B_ProviderSlug pulled)
    = Some (definitionFromBundle (fst (withCarriedOverDeprecatedTools pulled (map_of (xw_defs w) slug))))"
  using assms(3)
proof (cases rule: Activate_cases)
  case (accepted p b removed k)
  then show ?thesis using assms(1) by (cases "k = length removed") (auto simp: activated_def)
qed simp_all

end
