(* ===== verification/CatalogVisible.thy ===== *)
theory CatalogVisible
  imports CatalogLife
begin

text \<open>
  What an organization sees of the catalog: the views of one integration agree, the tool listing is complete over
  its pages, and the encryption of old client secrets changes no answer.
\<close>

section \<open>Integrations\<close>

definition integrations_ok :: "cat_env \<Rightarrow> cat_world \<Rightarrow> bool" where
  "integrations_ok env w \<longleftrightarrow> keyed IG_ID (xw_store w)
     \<and> (\<forall>i x. map_of (xw_store w) i = Some x \<longrightarrow> IG_ClientSecretEncrypted x \<longrightarrow>
          \<not> isl (vault_Decrypt (cx_crypto env) (IG_ClientSecret x)))"

definition summary_of :: "cat_world \<Rightarrow> Integration \<Rightarrow> IntegrationSummary" where
  "summary_of w i =
     (let d = map_of (xw_defs w) (IG_ProviderSlug i); of_definition = (\<lambda>field. case d of None \<Rightarrow> [] | Some d \<Rightarrow> field d)
      in \<lparr>IS_ID = IG_ID i, IS_ProviderSlug = IG_ProviderSlug i, IS_ProviderName = of_definition PD_Name,
          IS_Logo = of_definition PD_Logo, IS_AuthScheme = of_definition PD_AuthScheme\<rparr>)"

lemma summarize_run [simp]: "summarize (cat_F env) i w = (summary_of w i, w)"
  by (simp add: summarize_def summary_of_def Let_def)

lemma summarize_all_run: "summarize_all (cat_F env) is w = (Inr (map (summary_of w) is), w)"
  by (induction "is") (simp_all add: call_apply attempt_apply)

lemma listed_run: "on_integrations cat_mem_ListAll w = (Inr (cat_sortByCreatedAt (rows (xw_store w))), w)"
  by (simp add: zoom_apply cat_mem_ListAll_def)

lemma listed_set [simp]: "set (cat_sortByCreatedAt xs) = set xs"
  by (simp add: cat_sortByCreatedAt_def)

lemma summary_id [simp]: "IS_ID (summary_of w i) = IG_ID i" by (simp add: summary_of_def Let_def)

lemma GetIntegration_run:
  "GetIntegration (cat_F env) i w =
     (case map_of (xw_store w) i of
        None \<Rightarrow> (Inl ErrIntegrationNotFound, w)
      | Some x \<Rightarrow> (withDecryptedClientSecret (cat_F env) x, w))"
  by (simp add: GetIntegration_def attempt_apply zoom_apply cat_mem_FindByID_def split: option.split)

lemma decrypted_id: "withDecryptedClientSecret f x = Inr y \<Longrightarrow> IG_ID y = IG_ID x"
  by (auto simp: withDecryptedClientSecret_def split: if_splits sum.splits)

lemma effectiveVisibility_visible: "effectiveVisibility g i = VisibilityVisible \<longleftrightarrow> IsVisible g i"
  by (auto simp: effectiveVisibility_def IsVisible_def IsHidden_def containsAny_def list_ex_iff split: option.split)

text \<open>The two listings and the integrations behind them.\<close>

definition listed_integrations :: "cat_world \<Rightarrow> Governance \<Rightarrow> IntegrationSummary list" where
  "listed_integrations w g =
     map (summary_of w) (filter (\<lambda>i. IsVisible g (IG_ID i)) (cat_sortByCreatedAt (rows (xw_store w))))"

definition annotated_integrations :: "cat_world \<Rightarrow> Governance \<Rightarrow> IntegrationVisibility list" where
  "annotated_integrations w g =
     map (\<lambda>i. \<lparr>IV_Integration = summary_of w i, IV_Visibility = effectiveVisibility g (IG_ID i)\<rparr>)
       (cat_sortByCreatedAt (rows (xw_store w)))"

lemma map2_map: "map2 f xs (map h xs) = map (\<lambda>x. f x (h x)) xs"
  by (induction xs) simp_all

lemma listings_run:
  assumes "cx_governance env org = Inr g"
  shows "ListIntegrations (cat_F env) org w = (Inr (listed_integrations w g), w)"
    and "ListIntegrationsWithVisibility (cat_F env) org w = (Inr (annotated_integrations w g), w)"
  using assms
  by (simp_all add: ListIntegrations_def ListIntegrationsWithVisibility_def attempt_apply listed_run lift_apply summarize_all_run
      map2_map listed_integrations_def annotated_integrations_def)

lemma row_ids:
  assumes "keyed IG_ID (xw_store w)"
  shows "IG_ID ` {x \<in> set (rows (xw_store w)). P (IG_ID x)} = {i. map_of (xw_store w) i \<noteq> None \<and> P i}" (is "?L = ?R")
proof (intro set_eqI iffI)
  fix i
  assume "i \<in> ?L"
  then obtain x where "x \<in> set (rows (xw_store w))" "P i" "i = IG_ID x" by blast
  then show "i \<in> ?R" using rows_lookup [OF assms] by simp
next
  fix i
  assume "i \<in> ?R"
  then obtain x where x: "map_of (xw_store w) i = Some x" "P i" by blast
  then have "IG_ID x = i" using keyed_lookup [OF assms] by blast
  moreover from this x have "x \<in> set (rows (xw_store w))" using rows_lookup [OF assms] by simp
  ultimately show "i \<in> ?L" using x(2) by blast
qed

lemma listed_ids:
  assumes "keyed IG_ID (xw_store w)"
  shows "IS_ID ` set (listed_integrations w g) = {i. map_of (xw_store w) i \<noteq> None \<and> IsVisible g i}"
proof -
  have "IS_ID ` set (listed_integrations w g) = IG_ID ` {x \<in> set (rows (xw_store w)). IsVisible g (IG_ID x)}"
    by (simp add: listed_integrations_def image_image)
  also have "\<dots> = {i. map_of (xw_store w) i \<noteq> None \<and> IsVisible g i}" by (rule row_ids [OF assms])
  finally show ?thesis .
qed

lemma annotated_ids:
  assumes "keyed IG_ID (xw_store w)"
  shows "IS_ID ` IV_Integration ` set (annotated_integrations w g) = {i. map_of (xw_store w) i \<noteq> None}"
  using row_ids [OF assms, of "\<lambda>_. True"] by (simp add: annotated_integrations_def image_image)

lemma annotated_visible:
  "i \<in> IS_ID ` set (listed_integrations w g)
     \<longleftrightarrow> (\<exists>y \<in> set (annotated_integrations w g). IS_ID (IV_Integration y) = i \<and> IV_Visibility y = VisibilityVisible)"
  by (auto simp: listed_integrations_def annotated_integrations_def effectiveVisibility_visible image_iff)

lemma stored_secret_decrypts:
  assumes "integrations_ok env w" and "map_of (xw_store w) i = Some x"
  shows "\<exists>y. withDecryptedClientSecret (cat_F env) x = Inr y"
proof (cases "vault_Decrypt (cx_crypto env) (IG_ClientSecret x)")
  case (Inl e)
  then have "\<not> IG_ClientSecretEncrypted x" using assms by (fastforce simp: integrations_ok_def)
  then show ?thesis by (simp add: withDecryptedClientSecret_def)
next
  case (Inr p)
  then show ?thesis by (cases "IG_ClientSecretEncrypted x") (simp_all add: withDecryptedClientSecret_def)
qed

lemma visible_fetch:
  assumes "integrations_ok env w" and "cx_governance env org = Inr g"
  shows "(\<exists>x. GetVisibleIntegration (cat_F env) org i w = (Inr x, w) \<and> IG_ID x = i) \<longleftrightarrow> map_of (xw_store w) i \<noteq> None \<and> IsVisible g i"
proof (cases "map_of (xw_store w) i")
  case None
  then show ?thesis by (simp add: GetVisibleIntegration_def attempt_apply GetIntegration_run)
next
  case (Some x)
  obtain y where y: "withDecryptedClientSecret (cat_F env) x = Inr y" using stored_secret_decrypts [OF assms(1) Some] by blast
  have "IG_ID y = i"
    using decrypted_id [OF y] keyed_lookup [of IG_ID "xw_store w" i x] Some assms(1) by (simp add: integrations_ok_def)
  then show ?thesis using Some y by (simp add: GetVisibleIntegration_def attempt_apply GetIntegration_run lift_apply assms(2))
qed

text \<open>
  C36: The views of the catalog agree on what an organization may use. An integration can be fetched for the organization
  exactly when it is in the organization's list, which is exactly when the annotated list of the administrator shows
  it as VISIBLE; and the annotated list has every integration of the installation.
\<close>

theorem visibility_agrees:
  assumes "integrations_ok env w" and "cx_governance env org = Inr g"
  shows "\<exists>xs ys. ListIntegrations (cat_F env) org w = (Inr xs, w) \<and> ListIntegrationsWithVisibility (cat_F env) org w = (Inr ys, w)
     \<and> (\<forall>i. (\<exists>x. GetVisibleIntegration (cat_F env) org i w = (Inr x, w) \<and> IG_ID x = i) \<longleftrightarrow> i \<in> IS_ID ` set xs)
     \<and> (\<forall>i. i \<in> IS_ID ` set xs \<longleftrightarrow> (\<exists>y \<in> set ys. IS_ID (IV_Integration y) = i \<and> IV_Visibility y = VisibilityVisible))
     \<and> IS_ID ` IV_Integration ` set ys = {i. map_of (xw_store w) i \<noteq> None}"
proof -
  have k: "keyed IG_ID (xw_store w)" using assms(1) by (simp add: integrations_ok_def)
  have "(\<exists>x. GetVisibleIntegration (cat_F env) org i w = (Inr x, w) \<and> IG_ID x = i) \<longleftrightarrow> i \<in> IS_ID ` set (listed_integrations w g)" for i
    unfolding listed_ids [OF k] visible_fetch [OF assms] by simp
  then show ?thesis
    using listings_run [OF assms(2), of w] annotated_visible [of _ w g] annotated_ids [OF k, of g]
    by (intro exI [of _ "listed_integrations w g"] exI [of _ "annotated_integrations w g"] conjI) blast+
qed

section \<open>Client secrets\<close>

lemma update_secret_run:
  "on_integrations (cat_mem_UpdateEncryptedClientSecret i c) w =
     (Inr (), w\<lparr>xw_store := (case map_of (xw_store w) i of None \<Rightarrow> xw_store w
        | Some x \<Rightarrow> put i (x\<lparr>IG_ClientSecret := c, IG_ClientSecretEncrypted := True\<rparr>) (xw_store w))\<rparr>)"
  by (simp add: zoom_apply cat_mem_UpdateEncryptedClientSecret_def split: option.split)

definition plain :: "cat_env \<Rightarrow> Integration \<Rightarrow> go_error + Integration" where
  "plain env x = map_sum id (\<lambda>y. y\<lparr>IG_ClientSecretEncrypted := True\<rparr>) (withDecryptedClientSecret (cat_F env) x)"

text \<open>What does not change: which integrations there are, and what each is once decrypted.\<close>

definition same_plain :: "cat_env \<Rightarrow> cat_world \<Rightarrow> cat_world \<Rightarrow> bool" where
  "same_plain env w w' \<longleftrightarrow> (\<forall>i. map_option (plain env) (map_of (xw_store w') i) = map_option (plain env) (map_of (xw_store w) i))"

lemma encrypt_run:
  assumes "gcm_opens_sealed (cx_crypto env)" and "\<And>n. length (cx_nonce env n) = nonceSize"
  shows "keyed IG_ID (xw_store w) \<Longrightarrow> \<forall>x \<in> set is. map_of (xw_store w) (IG_ID x) = Some x \<Longrightarrow> distinct (map IG_ID is) \<Longrightarrow>
    \<exists>w'. encrypt_plaintext (cat_F env) is w = (Inr (), w') \<and> keyed IG_ID (xw_store w') \<and> same_plain env w w'
     \<and> (\<forall>i. i \<notin> IG_ID ` set is \<longrightarrow> map_of (xw_store w') i = map_of (xw_store w) i)
     \<and> (\<forall>x \<in> set is. \<forall>y. map_of (xw_store w') (IG_ID x) = Some y \<longrightarrow> IG_ClientSecretEncrypted y)"
proof (induction "is" arbitrary: w)
  case Nil
  then show ?case by (simp add: same_plain_def)
next
  case (Cons x "is")
  show ?case
  proof (cases "IG_ClientSecretEncrypted x")
    case True
    then obtain w' where "encrypt_plaintext (cat_F env) is w = (Inr (), w')" "keyed IG_ID (xw_store w')" "same_plain env w w'"
      "\<forall>i. i \<notin> IG_ID ` set is \<longrightarrow> map_of (xw_store w') i = map_of (xw_store w) i"
      "\<forall>x \<in> set is. \<forall>y. map_of (xw_store w') (IG_ID x) = Some y \<longrightarrow> IG_ClientSecretEncrypted y"
      using Cons.IH [of w] Cons.prems by auto
    moreover from this(4) have "map_of (xw_store w') (IG_ID x) = Some x" using Cons.prems by simp
    ultimately show ?thesis using True by (intro exI [of _ w'] conjI) simp_all
  next
    case False
    define c where "c = EncodeToString StdEncoding (cx_nonce env (xw_nonces w) @ gcmSeal (cx_crypto env) (cx_nonce env (xw_nonces w)) (IG_ClientSecret x))"
    define x' where "x' = x\<lparr>IG_ClientSecret := c, IG_ClientSecretEncrypted := True\<rparr>"
    let ?w1 = "w\<lparr>xw_nonces := Suc (xw_nonces w), xw_store := put (IG_ID x) x' (xw_store w)\<rparr>"
    have row: "map_of (xw_store w) (IG_ID x) = Some x" using Cons.prems by simp
    have dec: "vault_Decrypt (cx_crypto env) c = Inr (IG_ClientSecret x)"
      using assms by (simp add: vault_Decrypt_def c_def DecodeString_EncodeToString gcm_opens_sealed_def)
    have same: "plain env x' = plain env x"
      using False dec by (simp add: plain_def withDecryptedClientSecret_def x'_def)
    have rest: "\<forall>y \<in> set is. map_of (xw_store ?w1) (IG_ID y) = Some y"
    proof
      fix y
      assume y: "y \<in> set is"
      then have "IG_ID y \<noteq> IG_ID x" using Cons.prems(3) by (metis distinct.simps(2) image_eqI list.simps(9) set_map)
      then show "map_of (xw_store ?w1) (IG_ID y) = Some y" using Cons.prems(2) y by simp
    qed
    have kept: "keyed IG_ID (xw_store ?w1)" using Cons.prems(1) by (simp add: keyed_put x'_def)
    obtain w' where w': "encrypt_plaintext (cat_F env) is ?w1 = (Inr (), w')" "keyed IG_ID (xw_store w')" "same_plain env ?w1 w'"
      "\<forall>i. i \<notin> IG_ID ` set is \<longrightarrow> map_of (xw_store w') i = map_of (xw_store ?w1) i"
      "\<forall>x \<in> set is. \<forall>y. map_of (xw_store w') (IG_ID x) = Some y \<longrightarrow> IG_ClientSecretEncrypted y"
      using Cons.IH [OF kept rest] Cons.prems by auto
    have run: "encrypt_plaintext (cat_F env) (x # is) w = (Inr (), w')"
      using False w'(1) row by (simp add: vault_Encrypt_def attempt_apply update_secret_run c_def x'_def)
    have s: "same_plain env w w'"
      unfolding same_plain_def
    proof
      fix i
      show "map_option (plain env) (map_of (xw_store w') i) = map_option (plain env) (map_of (xw_store w) i)"
        using w'(3) row same by (cases "i = IG_ID x") (simp_all add: same_plain_def)
    qed
    have "map_of (xw_store w') (IG_ID x) = Some x'" using w'(4) Cons.prems by simp
    then have "\<forall>z \<in> set (x # is). \<forall>y. map_of (xw_store w') (IG_ID z) = Some y \<longrightarrow> IG_ClientSecretEncrypted y"
      using w'(5) by (simp add: x'_def)
    moreover have "\<forall>i. i \<notin> IG_ID ` set (x # is) \<longrightarrow> map_of (xw_store w') i = map_of (xw_store w) i"
      using w'(4) by simp
    ultimately show ?thesis using run w'(2) s by blast
  qed
qed

text \<open>
  The boot-time pass over old rows leaves no client secret in plaintext, and what \<open>GetIntegration\<close> answers for
  every integration is the same before and after it (but for the flag); a second pass finds nothing to do.
\<close>

theorem EncryptPlaintextClientSecrets_exact:
  assumes "gcm_opens_sealed (cx_crypto env)" and "\<And>n. length (cx_nonce env n) = nonceSize" and "keyed IG_ID (xw_store w)"
  shows "\<exists>w'. EncryptPlaintextClientSecrets (cat_F env) w = (Inr (), w')
     \<and> (\<forall>i x. map_of (xw_store w') i = Some x \<longrightarrow> IG_ClientSecretEncrypted x)
     \<and> (\<forall>i. map_sum id (\<lambda>y. y\<lparr>IG_ClientSecretEncrypted := True\<rparr>) (fst (GetIntegration (cat_F env) i w'))
          = map_sum id (\<lambda>y. y\<lparr>IG_ClientSecretEncrypted := True\<rparr>) (fst (GetIntegration (cat_F env) i w)))
     \<and> EncryptPlaintextClientSecrets (cat_F env) w' = (Inr (), w')"
proof -
  let ?is = "cat_sortByCreatedAt (rows (xw_store w))"
  have "distinct (map IG_ID ?is)"
    using keyed_distinct_rows [OF assms(3)]
    by (simp only: cat_sortByCreatedAt_def oldest_first_by_def distinct_map set_sort distinct_sort)
  moreover have "\<forall>x \<in> set ?is. map_of (xw_store w) (IG_ID x) = Some x" using rows_lookup [OF assms(3)] by simp
  ultimately obtain w' where w': "encrypt_plaintext (cat_F env) ?is w = (Inr (), w')" "keyed IG_ID (xw_store w')" "same_plain env w w'"
      "\<forall>i. i \<notin> IG_ID ` set ?is \<longrightarrow> map_of (xw_store w') i = map_of (xw_store w) i"
      "\<forall>x \<in> set ?is. \<forall>y. map_of (xw_store w') (IG_ID x) = Some y \<longrightarrow> IG_ClientSecretEncrypted y"
    using encrypt_run [OF assms(1,2), of w ?is] assms(3) by blast
  have enc: "IG_ClientSecretEncrypted y" if y: "map_of (xw_store w') i = Some y" for i y
  proof (cases "i \<in> IG_ID ` set ?is")
    case True
    then show ?thesis using w'(5) y by auto
  next
    case False
    then have "map_of (xw_store w) i = Some y" using w'(4) y by simp
    then have "y \<in> set ?is" "IG_ID y = i" using keyed_lookup [OF assms(3)] rows_lookup [OF assms(3)] by auto
    then show ?thesis using False by blast
  qed
  have get: "map_sum id (\<lambda>y. y\<lparr>IG_ClientSecretEncrypted := True\<rparr>) (fst (GetIntegration (cat_F env) i v))
      = (case map_option (plain env) (map_of (xw_store v) i) of None \<Rightarrow> Inl ErrIntegrationNotFound | Some r \<Rightarrow> r)" for i v
    by (simp add: GetIntegration_run plain_def split: option.split)
  have idle: "\<forall>x \<in> set xs. IG_ClientSecretEncrypted x \<Longrightarrow> encrypt_plaintext (cat_F env) xs v = (Inr (), v)" for xs v
    by (induction xs) simp_all
  have "\<forall>x \<in> set (cat_sortByCreatedAt (rows (xw_store w'))). IG_ClientSecretEncrypted x"
    using enc rows_lookup [OF w'(2)] by auto
  from idle [OF this] have "EncryptPlaintextClientSecrets (cat_F env) w' = (Inr (), w')"
    by (simp add: EncryptPlaintextClientSecrets_def attempt_apply listed_run)
  moreover have "EncryptPlaintextClientSecrets (cat_F env) w = (Inr (), w')"
    using w'(1) by (simp add: EncryptPlaintextClientSecrets_def attempt_apply listed_run)
  moreover have "map_sum id (\<lambda>y. y\<lparr>IG_ClientSecretEncrypted := True\<rparr>) (fst (GetIntegration (cat_F env) i w'))
      = map_sum id (\<lambda>y. y\<lparr>IG_ClientSecretEncrypted := True\<rparr>) (fst (GetIntegration (cat_F env) i w))" for i
    unfolding get using w'(3) by (simp only: same_plain_def)
  ultimately show ?thesis using enc by (intro exI [of _ w'] conjI) blast+
qed

section \<open>Listings by slug\<close>

text \<open>
  The contract of the three listings whose cursor is a slug (tools, trigger definitions, provider definitions): what is
  after a cursor, and what a page is. A client that follows the cursors reads everything once, provided no two rows
  have the same slug.
\<close>

locale slug_listing =
  fixes key :: "'r \<Rightarrow> string"
    and after :: "'r list \<Rightarrow> string \<Rightarrow> 'r list"
    and paginate :: "'r list \<Rightarrow> int \<Rightarrow> 'r list \<times> string"
  assumes after_first: "after xs [] = xs"
    and after_cursor: "c \<noteq> [] \<Longrightarrow> after xs c = dropWhile (\<lambda>r. \<not> key r > c) xs"
    and page_last: "int (length xs) \<le> limit \<Longrightarrow> paginate xs limit = (xs, [])"
    and page_more: "int (length xs) > limit \<Longrightarrow>
      paginate xs limit = (take (nat limit) xs, encodeSlugCursor (key (last (take (nat limit) xs))))"
begin

definition page :: "'r list \<Rightarrow> int \<Rightarrow> string \<Rightarrow> go_error + 'r list \<times> string" where
  "page xs limit raw = (case decodeSlugCursor raw of Inl err \<Rightarrow> Inl err | Inr c \<Rightarrow> Inr (paginate (after xs c) limit))"

lemma decode_encode: "cursor_field slug \<Longrightarrow> decodeSlugCursor (encodeSlugCursor slug) = Inr slug"
  using DecodeCursor_EncodeCursor [of "[slug]"] by (simp add: decodeSlugCursor_def encodeSlugCursor_def)

lemma encode_nonempty: "cursor_field slug \<Longrightarrow> encodeSlugCursor slug \<noteq> []"
  using decode_encode [of slug] by (auto simp: decodeSlugCursor_def DecodeCursor_def cursor_field_def)

lemma after_split:
  assumes "sorted_wrt (<) (map key (xs @ ys))" and "xs \<noteq> []" and "key (last xs) \<noteq> []"
  shows "after (xs @ ys) (key (last xs)) = ys"
proof -
  have upto: "\<not> key r > key (last xs)" if "r \<in> set xs" for r
  proof -
    have "sorted_wrt (<) (map key (butlast xs @ [last xs]))" using assms(1,2) by (simp add: sorted_wrt_append)
    then have "\<forall>r \<in> set (butlast xs). key r < key (last xs)" by (simp add: sorted_wrt_append)
    moreover have "r \<in> set (butlast xs) \<or> r = last xs"
      using that assms(2) by (metis append_butlast_last_id in_set_conv_decomp rotate1.simps(2) set_ConsD set_rotate1)
    ultimately show ?thesis by auto
  qed
  have "dropWhile (\<lambda>r. \<not> key r > key (last xs)) (xs @ ys) = dropWhile (\<lambda>r. \<not> key r > key (last xs)) ys"
    using upto by (simp add: dropWhile_append2)
  also have "\<dots> = ys"
  proof (cases ys)
    case (Cons y zs)
    then have "key (last xs) < key y" using assms(1,2) by (simp add: sorted_wrt_append)
    then show ?thesis using Cons by simp
  qed simp
  finally show ?thesis by (simp add: after_cursor [OF assms(3)])
qed

lemma read_pages_after:
  assumes "0 < limit"
  shows "sorted_wrt (<) (map key (xs @ ys)) \<Longrightarrow> \<forall>r \<in> set (xs @ ys). cursor_field (key r) \<Longrightarrow> length ys < fuel \<Longrightarrow>
    read_pages (page (xs @ ys) limit) fuel (if xs = [] then [] else encodeSlugCursor (key (last xs))) = Inr ys"
proof (induction fuel arbitrary: xs ys)
  case 0
  then show ?case by simp
next
  case (Suc fuel)
  let ?raw = "if xs = [] then [] else encodeSlugCursor (key (last xs))"
  have rest: "page (xs @ ys) limit ?raw = Inr (paginate ys limit)"
  proof (cases "xs = []")
    case True
    then show ?thesis by (simp add: page_def decodeSlugCursor_def DecodeCursor_def after_first)
  next
    case False
    then have f: "cursor_field (key (last xs))" using Suc.prems(2) by simp
    then show ?thesis
      using after_split [OF Suc.prems(1) False] False by (simp add: page_def decode_encode cursor_field_def)
  qed
  show ?case
  proof (cases "int (length ys) \<le> limit")
    case True
    then show ?thesis using rest by (simp add: page_last)
  next
    case False
    define n where "n = nat limit"
    have n: "0 < n" "n < length ys" using False assms by (auto simp: n_def)
    then have ne: "take n ys \<noteq> []" by auto
    then have whole: "xs @ ys = (xs @ take n ys) @ drop n ys" and last: "last (xs @ take n ys) = last (take n ys)" by simp_all
    have "last (take n ys) \<in> set ys" using ne last_in_set in_set_takeD by metis
    then have f: "cursor_field (key (last (take n ys)))" using Suc.prems(2) by simp
    have "read_pages (page ((xs @ take n ys) @ drop n ys) limit) fuel
        (if xs @ take n ys = [] then [] else encodeSlugCursor (key (last (xs @ take n ys)))) = Inr (drop n ys)"
      using Suc.prems n unfolding whole by (intro Suc.IH) auto
    then have "read_pages (page (xs @ ys) limit) fuel (encodeSlugCursor (key (last (take n ys)))) = Inr (drop n ys)"
      using ne unfolding whole [symmetric] last by simp
    moreover have "page (xs @ ys) limit ?raw = Inr (take n ys, encodeSlugCursor (key (last (take n ys))))"
      using rest page_more [of limit ys] False by (simp add: n_def)
    ultimately show ?thesis using encode_nonempty [OF f] by simp
  qed
qed

lemma read_pages_all:
  assumes "0 < limit" and "sorted_wrt (<) (map key xs)" and "\<forall>r \<in> set xs. cursor_field (key r)" and "length xs < fuel"
  shows "read_pages (page xs limit) fuel [] = Inr xs"
  using read_pages_after [OF assms(1), of "[]" xs fuel] assms(2-4) by simp

end

interpretation tool_list: slug_listing TS_Slug toolsAfterCursor "\<lambda>xs n. (TPG_Items (paginateTools xs n), TPG_NextCursor (paginateTools xs n))"
  by unfold_locales (simp_all add: toolsAfterCursor_def paginateTools_def Let_def)

interpretation trigger_list: slug_listing TDS_Slug triggerDefinitionsAfterCursor
    "\<lambda>xs n. (TDP_Items (paginateTriggerDefinitions xs n), TDP_NextCursor (paginateTriggerDefinitions xs n))"
  by unfold_locales (simp_all add: triggerDefinitionsAfterCursor_def paginateTriggerDefinitions_def Let_def)

interpretation provider_list: slug_listing PDS_Slug providerDefinitionsAfterCursor
    "\<lambda>xs n. (PDP_Items (paginateProviderDefinitions xs n), PDP_NextCursor (paginateProviderDefinitions xs n))"
  by unfold_locales (simp_all add: providerDefinitionsAfterCursor_def paginateProviderDefinitions_def Let_def)

lemma normalizePageLimit_pos: "0 < normalizePageLimit limit"
  by (simp add: normalizePageLimit_def cat_defaultPageLimit_def cat_maxPageLimit_def)

lemma page_short: "0 < n \<Longrightarrow> int (length (TPG_Items (paginateTools xs n))) \<le> n"
  by (simp add: paginateTools_def Let_def)

lemma sorted_by_slug:
  fixes key :: "'r \<Rightarrow> string"
  shows "distinct (map key xs) \<Longrightarrow> sorted_wrt (<) (map key (sort_key key xs))"
  by (simp add: strict_sorted_iff distinct_map)

lemma visibleProviderSlugs_run:
  assumes "cx_governance env org = Inr g"
  shows "\<exists>slugs. visibleProviderSlugs (cat_F env) org w = (Inr slugs, w)"
  using assms by (simp add: visibleProviderSlugs_def call_apply definitionsSnapshot_def Let_def attempt_apply lift_apply listed_run)

text \<open>The pages of \<open>ListTools\<close> as a client sees them, and everything they are cut from.\<close>

definition ListTools_page :: "cat_env \<Rightarrow> OrgID \<Rightarrow> ToolFilter \<Rightarrow> cat_world \<Rightarrow> int \<Rightarrow> string \<Rightarrow> go_error + ToolSummary list \<times> string" where
  "ListTools_page env org flt w limit raw =
     map_sum id (\<lambda>p. (TPG_Items p, TPG_NextCursor p)) (fst (ListTools (cat_F env) org flt raw limit w))"

definition visible_tools :: "cat_env \<Rightarrow> OrgID \<Rightarrow> ToolFilter \<Rightarrow> cat_world \<Rightarrow> ToolSummary list" where
  "visible_tools env org flt w =
     (case fst (visibleProviderSlugs (cat_F env) org w) of
        Inl _ \<Rightarrow> []
      | Inr slugs \<Rightarrow> matchingToolSummaries (xw_defs w) (TF_ProviderSlug flt) (TF_IncludeDeprecated flt) slugs)"

text \<open>
  A client that follows \<open>NextCursor\<close> through \<open>ListTools\<close> reads every tool of the providers the organization
  may see that passes the filter, exactly once and by slug, whatever the page size, as long as no two of them share a
  slug; each page has at most the normalized limit and changes nothing.
\<close>

theorem ListTools_complete:
  assumes "cx_governance env org = Inr g" and "TF_IntegrationID flt = []"
    and "TF_ProviderSlug flt = [] \<or> TF_ProviderSlug flt \<in> fst ` set (xw_defs w)"
    and "distinct (map TS_Slug (visible_tools env org flt w))" and "\<forall>t \<in> set (visible_tools env org flt w). cursor_field (TS_Slug t)"
    and "length (visible_tools env org flt w) < fuel"
  shows "read_pages (ListTools_page env org flt w limit) fuel [] = Inr (sort_key TS_Slug (visible_tools env org flt w))
     \<and> distinct (map TS_Slug (sort_key TS_Slug (visible_tools env org flt w)))
     \<and> (\<forall>raw items next. ListTools_page env org flt w limit raw = Inr (items, next) \<longrightarrow>
          int (length items) \<le> normalizePageLimit limit \<and> snd (ListTools (cat_F env) org flt raw limit w) = w)"
proof -
  obtain slugs where slugs: "visibleProviderSlugs (cat_F env) org w = (Inr slugs, w)" using visibleProviderSlugs_run [OF assms(1)] by blast
  let ?xs = "sort_key TS_Slug (visible_tools env org flt w)"
  have tools: "visible_tools env org flt w = matchingToolSummaries (xw_defs w) (TF_ProviderSlug flt) (TF_IncludeDeprecated flt) slugs"
    by (simp add: visible_tools_def slugs)
  have provider: "resolveToolFilterProviderSlug (cat_F env) flt w = (Inr (TF_ProviderSlug flt), w)"
    using assms(2,3) by (auto simp: resolveToolFilterProviderSlug_def resolveProviderSlugFilter_def call_apply definitionByProviderSlug_def
        map_of_eq_None_iff)
  have run: "ListTools (cat_F env) org flt raw limit w =
      (map_sum id (\<lambda>c. paginateTools (toolsAfterCursor ?xs c) (normalizePageLimit limit)) (decodeSlugCursor raw), w)" for raw
    using assms(2) by (simp add: ListTools_def hidden_integration_def attempt_apply provider slugs lift_apply call_apply
        definitionsSnapshot_def tools Let_def split: sum.split)
  have page: "ListTools_page env org flt w limit = tool_list.page ?xs (normalizePageLimit limit)"
    by (rule ext) (simp add: ListTools_page_def run tool_list.page_def split: sum.split)
  have "read_pages (ListTools_page env org flt w limit) fuel [] = Inr ?xs"
    unfolding page
    by (rule tool_list.read_pages_all) (use assms(5,6) sorted_by_slug [OF assms(4)] in \<open>simp_all add: normalizePageLimit_pos\<close>)
  moreover have "distinct (map TS_Slug ?xs)" using sorted_by_slug [OF assms(4)] by (simp add: strict_sorted_iff)
  moreover have "int (length items) \<le> normalizePageLimit limit"
    if "ListTools_page env org flt w limit raw = Inr (items, next)" for raw items "next"
    using that page_short [OF normalizePageLimit_pos]
    by (cases "decodeSlugCursor raw") (auto simp: ListTools_page_def run)
  ultimately show ?thesis by (simp add: run)
qed

section \<open>Concrete runs\<close>

definition old_integration :: Integration where
  "old_integration = \<lparr>IG_ID = ''intg_9'', IG_ProviderSlug = ''crm'', IG_ClientID = ''c'', IG_ClientSecret = ''plain'',
     IG_ClientSecretEncrypted = False, IG_CreatedAt = 0\<rparr>"

definition cat_old :: cat_world where
  "cat_old = (cat_start cat_demo 0)\<lparr>xw_store := [(''intg_9'', old_integration)]\<rparr>"

lemma cat_old_store: "xw_store cat_old = [(''intg_9'', old_integration)]" by (simp add: cat_old_def)

lemma cat_old_keyed: "keyed IG_ID (xw_store cat_old)"
  by (simp add: cat_old_store keyed_def old_integration_def)

lemma visibility_agrees_witness:
  "\<exists>xs. ListIntegrations (cat_F cat_demo) ''org_1'' cat_old = (Inr xs, cat_old) \<and> ''intg_9'' \<in> IS_ID ` set xs"
proof -
  have ok: "integrations_ok cat_demo cat_old"
    using cat_old_keyed by (simp add: integrations_ok_def cat_old_store old_integration_def)
  have g: "cx_governance cat_demo ''org_1'' = Inr (NewDefaultGovernance ''org_1'')" by (simp add: cat_demo_def)
  obtain xs where xs: "ListIntegrations (cat_F cat_demo) ''org_1'' cat_old = (Inr xs, cat_old)"
    and get: "\<forall>i. (\<exists>x. GetVisibleIntegration (cat_F cat_demo) ''org_1'' i cat_old = (Inr x, cat_old) \<and> IG_ID x = i) \<longleftrightarrow> i \<in> IS_ID ` set xs"
    using visibility_agrees [OF ok g] by (elim exE conjE) (rule that)
  have "GetVisibleIntegration (cat_F cat_demo) ''org_1'' ''intg_9'' cat_old = (Inr old_integration, cat_old)"
    by (simp add: GetVisibleIntegration_def attempt_apply GetIntegration_run cat_old_store lift_apply g
        withDecryptedClientSecret_def) (simp add: old_integration_def IsVisible_def NewDefaultGovernance_def IsHidden_def)
  moreover have "IG_ID old_integration = ''intg_9''" by (simp add: old_integration_def)
  ultimately show ?thesis using xs get by blast
qed

lemma EncryptPlaintextClientSecrets_exact_witness:
  "\<exists>w'. EncryptPlaintextClientSecrets (cat_F cat_demo) cat_old = (Inr (), w') \<and> w' \<noteq> cat_old
     \<and> EncryptPlaintextClientSecrets (cat_F cat_demo) w' = (Inr (), w')"
proof -
  have "gcm_opens_sealed (cx_crypto cat_demo)" by (simp add: cat_demo_def sample_crypto_opens)
  moreover have "length (cx_nonce cat_demo n) = nonceSize" for n by (simp add: cat_demo_def nonceSize_def)
  ultimately obtain w' where w': "EncryptPlaintextClientSecrets (cat_F cat_demo) cat_old = (Inr (), w')"
    "\<forall>i x. map_of (xw_store w') i = Some x \<longrightarrow> IG_ClientSecretEncrypted x"
    "EncryptPlaintextClientSecrets (cat_F cat_demo) w' = (Inr (), w')"
    using EncryptPlaintextClientSecrets_exact [OF _ _ cat_old_keyed] by blast
  have "map_of (xw_store cat_old) ''intg_9'' = Some old_integration" "\<not> IG_ClientSecretEncrypted old_integration"
    by (simp_all add: cat_old_store old_integration_def)
  then show ?thesis using w' by blast
qed

lemma ListTools_complete_witness:
  "\<exists>ts. read_pages (ListTools_page cat_demo ''org_1'' \<lparr>TF_IntegrationID = [], TF_ProviderSlug = [], TF_IncludeDeprecated = True\<rparr> cat_old 1) 2 []
      = Inr ts \<and> map TS_Slug ts = [''send'']"
proof -
  let ?flt = "\<lparr>TF_IntegrationID = [], TF_ProviderSlug = [], TF_IncludeDeprecated = True\<rparr>"
  have g: "cx_governance cat_demo ''org_1'' = Inr (NewDefaultGovernance ''org_1'')" by (simp add: cat_demo_def)
  have defs: "xw_defs cat_old = [(''crm'', cat_demo_definition)]" by (simp add: cat_old_def demo_seed)
  have tool: "PD_Tools cat_demo_definition = [cat_demo_tool]" "PD_Slug cat_demo_definition = ''crm''" "PT_Slug cat_demo_tool = ''send''"
    by (simp_all add: demo_defs)
  have tools: "visible_tools cat_demo ''org_1'' ?flt cat_old = [toolSummaryFrom cat_demo_definition cat_demo_tool]"
    by (simp add: visible_tools_def visibleProviderSlugs_def call_apply definitionsSnapshot_def Let_def attempt_apply lift_apply g
        NewDefaultGovernance_def defs matchingToolSummaries_def listed_definitions_def tool)
  have slug: "TS_Slug (toolSummaryFrom cat_demo_definition cat_demo_tool) = ''send''" by (simp add: toolSummaryFrom_def tool)
  have "read_pages (ListTools_page cat_demo ''org_1'' ?flt cat_old 1) 2 [] = Inr (sort_key TS_Slug (visible_tools cat_demo ''org_1'' ?flt cat_old))"
    using ListTools_complete [OF g, of ?flt cat_old 2 1] by (simp add: tools slug cursor_field_def)
  then show ?thesis by (simp add: tools slug)
qed

end
