(* ===== verification/HttpRender.thy ===== *)
theory HttpRender
  imports GoAny
begin

text \<open>
  HTTP as the handlers see it: requests, responses, and the rendering and decoding of \<open>internal/httpx\<close>
  (\<open>render.go\<close>, \<open>decode.go\<close>). A header has its canonical name and one value, a parameter of the route is a row of
  \<open>hq_Params\<close>; a body is the whole text, its length known. What only goes to the log is left out.
\<close>

record http_request =
  hq_Method :: string
  hq_Headers :: "(string \<times> string) list"
  hq_Cookies :: "(string \<times> string) list"
  hq_Params :: "(string \<times> string) list"
  hq_Query :: "(string \<times> string) list"
  hq_Body :: string

definition Header_Get :: "http_request \<Rightarrow> string \<Rightarrow> string" where
  "Header_Get r key = (case map_of (hq_Headers r) key of None \<Rightarrow> [] | Some v \<Rightarrow> v)"

definition URLParam :: "http_request \<Rightarrow> string \<Rightarrow> string" where
  "URLParam r key = (case map_of (hq_Params r) key of None \<Rightarrow> [] | Some v \<Rightarrow> v)"

definition Query_Get :: "http_request \<Rightarrow> string \<Rightarrow> string" where
  "Query_Get r key = (case map_of (hq_Query r) key of None \<Rightarrow> [] | Some v \<Rightarrow> v)"

record http_response =
  hp_Status :: int
  hp_Headers :: "(string \<times> string) list"
  hp_Body :: string

section \<open>Rendering (render.go)\<close>

text \<open>\<open>Encoder.Encode\<close> ends the value with a newline.\<close>

definition encoded :: "json \<Rightarrow> string" where
  "encoded payload = marshal payload @ [CHR 0x0A]"

definition content_json :: "(string \<times> string)" where
  "content_json = (''Content-Type'', ''application/json'')"

definition WriteJSON :: "int \<Rightarrow> json \<Rightarrow> http_response" where
  "WriteJSON status payload = \<lparr>hp_Status = status, hp_Headers = [content_json], hp_Body = encoded payload\<rparr>"

fun detail_json :: "detail \<Rightarrow> json" where
  "detail_json (DStr s) = JStr s"
| "detail_json (DStrs ss) = JArr (map JStr ss)"
| "detail_json (DInt i) = JNum (itoa i)"

text \<open>The error envelope; \<open>details\<close> is a map, whose keys are written in order, and left out when there are none.\<close>

definition errorEnvelope :: "string \<Rightarrow> string \<Rightarrow> (string \<times> detail) list \<Rightarrow> json" where
  "errorEnvelope code message details =
     JObj [(''error'', JObj ([(''code'', JStr code), (''message'', JStr message)]
       @ (if details = [] then [] else [(''details'', JObj (map (\<lambda>(k, d). (k, detail_json d)) (as_map details)))])))]"

definition writeInternalError :: http_response where
  "writeInternalError = WriteJSON 500 (errorEnvelope ''internal_error'' ''Internal Server Error'' [])"

definition WriteDomainError :: "domain_error option \<Rightarrow> http_response" where
  "WriteDomainError err =
     (case err of
        None \<Rightarrow> writeInternalError
      | Some e \<Rightarrow>
          \<lparr>hp_Status = int (de_Status e), hp_Headers = content_json # de_Headers e,
           hp_Body = encoded (errorEnvelope (de_Code e) (de_Message e) (de_Details e))\<rparr>)"

fun WriteError :: "go_error \<Rightarrow> http_response" where
  "WriteError (DomainError e) = WriteDomainError (Some e)"
| "WriteError (OtherError _) = writeInternalError"

lemma WriteError_status: "hp_Status (WriteError e) = int (error_status e)"
  by (cases e) (simp_all add: WriteDomainError_def writeInternalError_def WriteJSON_def)

section \<open>Decoding (decode.go)\<close>

text \<open>
  \<open>json.NewDecoder(r.Body).Decode(dst)\<close>: the first value of the body, decoded into the zero value; what follows it is
  not read.
\<close>

definition decode_first :: "string \<Rightarrow> json option" where
  "decode_first raw = map_option fst (parse_value (2 * length raw + 2) raw)"

definition DecodeJSON :: "('a \<Rightarrow> json \<Rightarrow> 'a option) \<Rightarrow> 'a \<Rightarrow> http_request \<Rightarrow> 'a option" where
  "DecodeJSON dec zero r = (if hq_Body r = [] then Some zero else Option.bind (decode_first (hq_Body r)) (dec zero))"

section \<open>Handlers\<close>

type_synonym 's handler = "http_request \<Rightarrow> 's \<Rightarrow> http_response \<times> 's"

text \<open>An operation whose error the handler renders, and whose result it writes.\<close>

definition respond :: "('s, 'a) act \<Rightarrow> ('a \<Rightarrow> http_response) \<Rightarrow> 's \<Rightarrow> http_response \<times> 's" where
  "respond m write s = (case m s of (Inl e, s') \<Rightarrow> (WriteError e, s') | (Inr x, s') \<Rightarrow> (write x, s'))"

end
