(* ===== verification/RegistryService.thy ===== *)
theory RegistryService
  imports BundleRound GoTime Schema HttpRender
begin

text \<open>
  \<open>internal/registryservice\<close>: the tool registry, a service of its own. The semver of a bundle (\<open>semver.go\<close>), the
  difference to the version before (\<open>bundlediff.go\<close>), the gate on samples (\<open>schemagate.go\<close>), publishing and pulling
  (\<open>facade.go\<close>), the strict parse of a published document (\<open>strict_parse.go\<close>) and the in-memory store.
\<close>

section \<open>Errors (errors.go)\<close>

definition rs_error :: "nat \<Rightarrow> string \<Rightarrow> string \<Rightarrow> (string \<times> string) list \<Rightarrow> go_error" where
  "rs_error status code message details =
     DomainError (WithDetails (httpx_New status code message) (map (\<lambda>(k, v). (k, DStr v)) details))"

definition rs_ErrBundleVersionNotFound :: "string \<Rightarrow> string \<Rightarrow> go_error" where
  "rs_ErrBundleVersionNotFound providerSlug version =
     rs_error 404 ''not_found'' ''bundle version not found'' [(''provider'', providerSlug), (''version'', version)]"

definition rs_ErrValidation :: "string \<Rightarrow> string \<Rightarrow> go_error" where
  "rs_ErrValidation field issue = rs_error 422 ''validation_failed'' ''validation failed'' [(''field'', field), (''issue'', issue)]"

definition ErrStrictParseFailed :: "string \<Rightarrow> go_error" where
  "ErrStrictParseFailed issue =
     rs_error 422 ''strict_parse_failed'' ''bundle does not parse under the strict formatVersion: 1 loader'' [(''issue'', issue)]"

definition ErrMissingOutputSchema :: "string \<Rightarrow> go_error" where
  "ErrMissingOutputSchema toolSlug = rs_error 422 ''missing_output_schema'' ''tool has no declared output schema'' [(''tool'', toolSlug)]"

definition ErrMissingSample :: "string \<Rightarrow> go_error" where
  "ErrMissingSample toolSlug = rs_error 422 ''missing_sample'' ''tool has no recorded sample response'' [(''tool'', toolSlug)]"

definition ErrOutputSchemaSampleMismatch :: "string \<Rightarrow> string \<Rightarrow> go_error" where
  "ErrOutputSchemaSampleMismatch toolSlug issue =
     rs_error 422 ''output_schema_vs_sample_mismatch''
       (''tool'' @ [CHR 0x27] @ ''s output schema does not validate its recorded sample response'') [(''tool'', toolSlug), (''issue'', issue)]"

definition ErrVersionConflict :: "string \<Rightarrow> string \<Rightarrow> go_error" where
  "ErrVersionConflict providerSlug version =
     rs_error 409 ''version_conflict'' ''version already published'' [(''provider'', providerSlug), (''version'', version)]"

definition ErrIllegalSemverBump :: "string \<Rightarrow> string \<Rightarrow> go_error" where
  "ErrIllegalSemverBump providerSlug issue =
     rs_error 422 ''illegal_semver_bump'' ''illegal semver version bump'' [(''provider'', providerSlug), (''issue'', issue)]"

section \<open>Versions (semver.go)\<close>

record semverParts =
  sv_major :: int
  sv_minor :: int
  sv_patch :: int

text \<open>\<open>strings.SplitN(version, ".", 3)\<close>.\<close>

fun cut_dot :: "string \<Rightarrow> string \<times> string option" where
  "cut_dot [] = ([], None)"
| "cut_dot (c # s) = (if c = CHR ''.'' then ([], Some s) else (case cut_dot s of (a, r) \<Rightarrow> (c # a, r)))"

definition split_dots :: "string \<Rightarrow> string list" where
  "split_dots version =
     (case cut_dot version of
        (a, None) \<Rightarrow> [a]
      | (a, Some r) \<Rightarrow> (case cut_dot r of (b, None) \<Rightarrow> [a, b] | (b, Some t) \<Rightarrow> [a, b, t]))"

definition parseSemver :: "string \<Rightarrow> string + semverParts" where
  "parseSemver version =
     (case split_dots version of
        [a, b, c] \<Rightarrow>
          (case Atoi a of
             None \<Rightarrow> Inl (''invalid major version number in '' @ quoted version)
           | Some major \<Rightarrow>
               (case Atoi b of
                  None \<Rightarrow> Inl (''invalid minor version number in '' @ quoted version)
                | Some minor \<Rightarrow>
                    (case Atoi c of
                       None \<Rightarrow> Inl (''invalid patch version number in '' @ quoted version)
                     | Some patch \<Rightarrow> Inr \<lparr>sv_major = major, sv_minor = minor, sv_patch = patch\<rparr>)))
      | _ \<Rightarrow> Inl (''must be a major.minor.patch version, got '' @ quoted version))"

definition semver_String :: "semverParts \<Rightarrow> string" where
  "semver_String v = itoa (sv_major v) @ ''.'' @ itoa (sv_minor v) @ ''.'' @ itoa (sv_patch v)"

definition signOf :: "int \<Rightarrow> int" where
  "signOf n = (if n < 0 then -1 else if n > 0 then 1 else 0)"

definition semver_compare :: "semverParts \<Rightarrow> semverParts \<Rightarrow> int" where
  "semver_compare v other =
     (if sv_major v \<noteq> sv_major other then signOf (wrap64 (sv_major v - sv_major other))
      else if sv_minor v \<noteq> sv_minor other then signOf (wrap64 (sv_minor v - sv_minor other))
      else signOf (wrap64 (sv_patch v - sv_patch other)))"

section \<open>Differences (bundlediff.go)\<close>

record bundleDiff =
  bd_addedTools :: "string list"
  bd_removedTools :: "string list"
  bd_addedTriggers :: "string list"
  bd_removedTriggers :: "string list"

definition hasAdditions :: "bundleDiff \<Rightarrow> bool" where
  "hasAdditions d \<longleftrightarrow> bd_addedTools d \<noteq> [] \<or> bd_addedTriggers d \<noteq> []"

definition hasRemovals :: "bundleDiff \<Rightarrow> bool" where
  "hasRemovals d \<longleftrightarrow> bd_removedTools d \<noteq> [] \<or> bd_removedTriggers d \<noteq> []"

definition toolSlugs :: "BundleTool list \<Rightarrow> string list" where
  "toolSlugs tools = map BT_Slug tools"

definition triggerSlugs :: "BundleTrigger list \<Rightarrow> string list" where
  "triggerSlugs triggers = map BR_Slug triggers"

definition priorToolSlugs :: "Bundle option \<Rightarrow> string list" where
  "priorToolSlugs prior = (case prior of None \<Rightarrow> [] | Some b \<Rightarrow> toolSlugs (B_Tools b))"

definition priorTriggerSlugs :: "Bundle option \<Rightarrow> string list" where
  "priorTriggerSlugs prior = (case prior of None \<Rightarrow> [] | Some b \<Rightarrow> triggerSlugs (B_Triggers b))"

text \<open>A set of slugs as the list of its elements; what is collected from it is sorted.\<close>

definition toSlugSet :: "string list \<Rightarrow> string list" where
  "toSlugSet slugs = remdups slugs"

definition diffSlugs :: "string list \<Rightarrow> string list \<Rightarrow> string list \<times> string list" where
  "diffSlugs prior later =
     (let priorSet = toSlugSet prior; nextSet = toSlugSet later
      in (sort (filter (\<lambda>slug. slug \<notin> set priorSet) nextSet), sort (filter (\<lambda>slug. slug \<notin> set nextSet) priorSet)))"

definition diffBundle :: "Bundle option \<Rightarrow> Bundle \<Rightarrow> bundleDiff" where
  "diffBundle prior later =
     (let (addedTools, removedTools) = diffSlugs (priorToolSlugs prior) (toolSlugs (B_Tools later));
          (addedTriggers, removedTriggers) = diffSlugs (priorTriggerSlugs prior) (triggerSlugs (B_Triggers later))
      in \<lparr>bd_addedTools = addedTools, bd_removedTools = removedTools, bd_addedTriggers = addedTriggers, bd_removedTriggers = removedTriggers\<rparr>)"

definition autoNextVersion :: "semverParts \<Rightarrow> bundleDiff \<Rightarrow> semverParts" where
  "autoNextVersion prior diff =
     (if hasRemovals diff then \<lparr>sv_major = wrap64 (sv_major prior + 1), sv_minor = 0, sv_patch = 0\<rparr>
      else if hasAdditions diff then \<lparr>sv_major = sv_major prior, sv_minor = wrap64 (sv_minor prior + 1), sv_patch = 0\<rparr>
      else \<lparr>sv_major = sv_major prior, sv_minor = sv_minor prior, sv_patch = wrap64 (sv_patch prior + 1)\<rparr>)"

section \<open>Samples (schemagate.go)\<close>

type_synonym schema_lib = "any_map \<Rightarrow> any_map \<Rightarrow> string option"

definition validateToolOutputSchemaAgainstSample :: "schema_lib \<Rightarrow> BundleTool \<Rightarrow> go_error option" where
  "validateToolOutputSchemaAgainstSample lib tool =
     (if BT_OutputSchema tool = [] then Some (ErrMissingOutputSchema (BT_Slug tool))
      else if BT_Sample tool = [] then Some (ErrMissingSample (BT_Slug tool))
      else (case schema_Validate lib (BT_OutputSchema tool) (BT_Sample tool) of
              Some err \<Rightarrow> Some (ErrOutputSchemaSampleMismatch (BT_Slug tool) err)
            | None \<Rightarrow> None))"

fun validateOutputSchemasAgainstSamples :: "schema_lib \<Rightarrow> BundleTool list \<Rightarrow> go_error option" where
  "validateOutputSchemasAgainstSamples lib [] = None"
| "validateOutputSchemasAgainstSamples lib (tool # tools) =
     (case validateToolOutputSchemaAgainstSample lib tool of
        Some err \<Rightarrow> Some err
      | None \<Rightarrow> validateOutputSchemasAgainstSamples lib tools)"

section \<open>The facade (types.go, port.go, facade.go)\<close>

record StoredBundle =
  SB_Bundle :: Bundle
  SB_PublishedAt :: time

record ToolIdentity =
  TIY_ID :: string
  TIY_Slug :: string

record BundleDiffItem =
  BDI_Tools :: "string list"
  BDI_Triggers :: "string list"

record BundleVersionSummary =
  BVS_Version :: string
  BVS_ContentHash :: string
  BVS_PublishedAt :: time

record PublishResult =
  PR_Version :: string
  PR_ContentHash :: string
  PR_Tools :: "ToolIdentity list"
  PR_Added :: BundleDiffItem
  PR_Removed :: BundleDiffItem

record 's rs_store =
  st_Save :: "string \<Rightarrow> StoredBundle \<Rightarrow> ('s, unit) act"
  st_Find :: "string \<Rightarrow> string \<Rightarrow> ('s, StoredBundle option) act"
  st_LatestVersion :: "string \<Rightarrow> ('s, string option) act"
  st_ListVersions :: "string \<Rightarrow> ('s, StoredBundle list) act"

record 's rs_facade =
  rs_store :: "'s rs_store"
  rs_newToolID :: "'s \<Rightarrow> string \<times> 's"
  rs_now :: "'s \<Rightarrow> time \<times> 's"
  rs_schema :: schema_lib
  rs_crypto :: crypto

definition rs_supportedFormatVersion :: int where
  "rs_supportedFormatVersion = 1"

definition priorBundle :: "('s, 'm) rs_facade_scheme \<Rightarrow> string \<Rightarrow> ('s, Bundle option) act" where
  "priorBundle f providerSlug =
     attempt (st_LatestVersion (rs_store f) providerSlug) (\<lambda>found.
     case found of
       None \<Rightarrow> ok None
     | Some latest \<Rightarrow>
         attempt (st_Find (rs_store f) providerSlug latest) (\<lambda>stored.
         ok (map_option SB_Bundle stored)))"

definition priorToolIDsFrom :: "Bundle option \<Rightarrow> (string, string) table" where
  "priorToolIDsFrom prior =
     (case prior of None \<Rightarrow> [] | Some b \<Rightarrow> foldl (\<lambda>ids tool. put (BT_Slug tool) (BT_ID tool) ids) [] (B_Tools b))"

definition resolveFirstVersion :: "string \<Rightarrow> go_error + string" where
  "resolveFirstVersion requestedVersion =
     (if requestedVersion = [] then Inr ''1.0.0''
      else (case parseSemver requestedVersion of
              Inl err \<Rightarrow> Inl (rs_ErrValidation ''version'' err)
            | Inr _ \<Rightarrow> Inr requestedVersion))"

definition resolveRequestedVersion ::
  "('s, 'm) rs_facade_scheme \<Rightarrow> string \<Rightarrow> string \<Rightarrow> semverParts \<Rightarrow> bundleDiff \<Rightarrow> ('s, string) act" where
  "resolveRequestedVersion f providerSlug requestedVersion priorVersion diff =
     attempt (st_Find (rs_store f) providerSlug requestedVersion) (\<lambda>existing.
     if existing \<noteq> None then fail (ErrVersionConflict providerSlug requestedVersion)
     else
     case parseSemver requestedVersion of
       Inl err \<Rightarrow> fail (rs_ErrValidation ''version'' err)
     | Inr newVersion \<Rightarrow>
         if semver_compare newVersion priorVersion \<le> 0 then
           fail (ErrIllegalSemverBump providerSlug
             (''version '' @ requestedVersion @ '' must be strictly greater than the current latest version '' @ semver_String priorVersion))
         else if hasRemovals diff \<and> sv_major newVersion \<le> sv_major priorVersion then
           fail (ErrIllegalSemverBump providerSlug ''removing a tool or trigger requires a major version bump'')
         else if hasAdditions diff \<and> sv_major newVersion = sv_major priorVersion \<and> sv_minor newVersion \<le> sv_minor priorVersion then
           fail (ErrIllegalSemverBump providerSlug ''adding a tool or trigger requires at least a minor version bump'')
         else ok requestedVersion)"

definition resolveVersion ::
  "('s, 'm) rs_facade_scheme \<Rightarrow> string \<Rightarrow> string \<Rightarrow> Bundle option \<Rightarrow> bundleDiff \<Rightarrow> ('s, string) act" where
  "resolveVersion f providerSlug requestedVersion prior diff =
     (case prior of
        None \<Rightarrow> lift (resolveFirstVersion requestedVersion)
      | Some b \<Rightarrow>
          (case parseSemver (B_Version b) of
             Inl err \<Rightarrow> fail (OtherError err)
           | Inr priorVersion \<Rightarrow>
               if requestedVersion = [] then ok (semver_String (autoNextVersion priorVersion diff))
               else resolveRequestedVersion f providerSlug requestedVersion priorVersion diff))"

fun mintToolIDs :: "BundleTool list \<Rightarrow> (string, string) table \<Rightarrow> ('s \<Rightarrow> string \<times> 's) \<Rightarrow> 's \<Rightarrow> BundleTool list \<times> 's" where
  "mintToolIDs [] prior newToolID s = ([], s)"
| "mintToolIDs (tool # tools) prior newToolID s =
     (let (i, s1) = (case map_of prior (BT_Slug tool) of Some i \<Rightarrow> (i, s) | None \<Rightarrow> newToolID s);
          (ts, s2) = mintToolIDs tools prior newToolID s1
      in (tool\<lparr>BT_ID := i\<rparr> # ts, s2))"

definition toolIdentities :: "BundleTool list \<Rightarrow> ToolIdentity list" where
  "toolIdentities tools = map (\<lambda>tool. \<lparr>TIY_ID = BT_ID tool, TIY_Slug = BT_Slug tool\<rparr>) tools"

definition Publish :: "('s, 'm) rs_facade_scheme \<Rightarrow> string \<Rightarrow> Bundle \<Rightarrow> ('s, PublishResult) act" where
  "Publish f providerSlug bundle =
     (if providerSlug = [] then fail (rs_ErrValidation ''providerSlug'' ''must not be empty'')
      else if B_FormatVersion bundle \<noteq> rs_supportedFormatVersion then fail (rs_ErrValidation ''formatVersion'' ''must be 1'')
      else
      check (validateOutputSchemasAgainstSamples (rs_schema f) (B_Tools bundle)) (
      attempt (priorBundle f providerSlug) (\<lambda>prior.
      let diff = diffBundle prior bundle in
      attempt (resolveVersion f providerSlug (B_Version bundle) prior diff) (\<lambda>version.
      call (mintToolIDs (B_Tools bundle) (priorToolIDsFrom prior) (rs_newToolID f)) (\<lambda>tools.
      let unhashed = bundle\<lparr>B_ProviderSlug := providerSlug, B_Version := version, B_Tools := tools\<rparr>;
          finalized = unhashed\<lparr>B_ContentHash := ContentHash (rs_crypto f) unhashed\<rparr>
      in
      call (rs_now f) (\<lambda>now.
      attempt (st_Save (rs_store f) providerSlug \<lparr>SB_Bundle = finalized, SB_PublishedAt = now\<rparr>) (\<lambda>_.
      ok \<lparr>PR_Version = version, PR_ContentHash = B_ContentHash finalized, PR_Tools = toolIdentities (B_Tools finalized),
          PR_Added = \<lparr>BDI_Tools = bd_addedTools diff, BDI_Triggers = bd_addedTriggers diff\<rparr>,
          PR_Removed = \<lparr>BDI_Tools = bd_removedTools diff, BDI_Triggers = bd_removedTriggers diff\<rparr>\<rparr>)))))))"

definition Pull :: "('s, 'm) rs_facade_scheme \<Rightarrow> string \<Rightarrow> string \<Rightarrow> ('s, Bundle) act" where
  "Pull f providerSlug version =
     attempt (st_Find (rs_store f) providerSlug version) (\<lambda>stored.
     case stored of
       None \<Rightarrow> fail (rs_ErrBundleVersionNotFound providerSlug version)
     | Some s \<Rightarrow> ok (SB_Bundle s))"

definition rs_ListVersions :: "('s, 'm) rs_facade_scheme \<Rightarrow> string \<Rightarrow> ('s, BundleVersionSummary list) act" where
  "rs_ListVersions f providerSlug =
     attempt (st_ListVersions (rs_store f) providerSlug) (\<lambda>stored.
     ok (map (\<lambda>s. \<lparr>BVS_Version = B_Version (SB_Bundle s), BVS_ContentHash = B_ContentHash (SB_Bundle s),
                   BVS_PublishedAt = SB_PublishedAt s\<rparr>) stored))"

section \<open>The strict parse (strict_parse.go)\<close>

text \<open>
  \<open>DisallowUnknownFields\<close>: every member of an object that is decoded into a struct names a field of it, letter case
  ignored, down to the pagination of a tool. \<open>Decode\<close> reads the first value of the input and leaves the rest. The text
  of a decoding error is the library's, a parameter.
\<close>

fun json_field :: "string \<Rightarrow> json \<Rightarrow> json list" where
  "json_field tag (JObj ms) = map snd (filter (\<lambda>kv. json_lower (fst kv) = json_lower tag) ms)"
| "json_field tag _ = []"

fun json_elems :: "json \<Rightarrow> json list" where
  "json_elems (JArr xs) = xs"
| "json_elems _ = []"

definition knows :: "string list \<Rightarrow> json \<Rightarrow> bool" where
  "knows tags v \<longleftrightarrow> (case v of JObj ms \<Rightarrow> list_all (\<lambda>kv. json_lower (fst kv) \<in> set (map json_lower tags)) ms | _ \<Rightarrow> True)"

definition mapping_known :: "json \<Rightarrow> bool" where
  "mapping_known v \<longleftrightarrow> knows [''method'', ''path'', ''query'', ''header'', ''body'', ''pagination'', ''fileInputs''] v
     \<and> list_all (knows [''pageSizeParam'', ''cursorParam'', ''nextCursorPath'']) (json_field ''pagination'' v)"

definition tool_known :: "json \<Rightarrow> bool" where
  "tool_known v \<longleftrightarrow>
     knows [''id'', ''slug'', ''name'', ''description'', ''deprecated'', ''inputSchema'', ''outputSchema'', ''sample'', ''mapping''] v
     \<and> list_all mapping_known (json_field ''mapping'' v)"

definition trigger_known :: "json \<Rightarrow> bool" where
  "trigger_known v \<longleftrightarrow>
     knows [''slug'', ''name'', ''description'', ''configSchema'', ''payloadSchema'', ''ingestion'', ''pollIntervalSeconds'', ''poll''] v
     \<and> list_all (knows [''method'', ''path'', ''query'', ''body'', ''recordsPath'', ''recordIdPath'', ''recordTimestampPath'', ''payload''])
         (json_field ''poll'' v)"

definition bundle_known :: "json \<Rightarrow> bool" where
  "bundle_known v \<longleftrightarrow>
     knows [''formatVersion'', ''providerSlug'', ''version'', ''contentHash'', ''name'', ''logo'', ''authScheme'', ''baseUrl'', ''oauth'',
       ''expectedParams'', ''tools'', ''triggers''] v
     \<and> list_all (knows [''authorizeUrl'', ''tokenUrl'', ''userInfoUrl'', ''scopes'', ''credentialStyle'', ''userInfoEmailField'',
         ''userInfoDisplayNameField'']) (json_field ''oauth'' v)
     \<and> list_all (knows [''name'', ''displayName'', ''description'', ''required'', ''secret'']) (concat (map json_elems (json_field ''expectedParams'' v)))
     \<and> list_all tool_known (concat (map json_elems (json_field ''tools'' v)))
     \<and> list_all trigger_known (concat (map json_elems (json_field ''triggers'' v)))"

definition ParseBundleStrict :: "(string \<Rightarrow> string) \<Rightarrow> string \<Rightarrow> go_error + Bundle" where
  "ParseBundleStrict decode_error raw =
     (case decode_first raw of
        None \<Rightarrow> Inl (ErrStrictParseFailed (decode_error raw))
      | Some v \<Rightarrow>
          (case dec_struct bundle_members zero_bundle v of
             None \<Rightarrow> Inl (ErrStrictParseFailed (decode_error raw))
           | Some bundle \<Rightarrow> if bundle_known v then Inr bundle else Inl (ErrStrictParseFailed (decode_error raw))))"

section \<open>The in-memory store (driven/memory)\<close>

record bundle_store =
  bs_byVersion :: "(string, (string, StoredBundle) table) table"
  bs_latest :: "(string, string) table"

definition bs_NewStore :: bundle_store where
  "bs_NewStore = \<lparr>bs_byVersion = [], bs_latest = []\<rparr>"

definition bs_versions :: "bundle_store \<Rightarrow> string \<Rightarrow> (string, StoredBundle) table" where
  "bs_versions s providerSlug = (case map_of (bs_byVersion s) providerSlug of None \<Rightarrow> [] | Some versions \<Rightarrow> versions)"

definition bs_mem_Save :: "string \<Rightarrow> StoredBundle \<Rightarrow> (bundle_store, unit) act" where
  "bs_mem_Save providerSlug stored s =
     (Inr (), s\<lparr>bs_byVersion := put providerSlug (put (B_Version (SB_Bundle stored)) stored (bs_versions s providerSlug)) (bs_byVersion s),
                bs_latest := put providerSlug (B_Version (SB_Bundle stored)) (bs_latest s)\<rparr>)"

definition bs_mem_Find :: "string \<Rightarrow> string \<Rightarrow> (bundle_store, StoredBundle option) act" where
  "bs_mem_Find providerSlug version s =
     (case map_of (bs_byVersion s) providerSlug of
        None \<Rightarrow> (Inr None, s)
      | Some versions \<Rightarrow> (Inr (map_of versions version), s))"

definition bs_mem_LatestVersion :: "string \<Rightarrow> (bundle_store, string option) act" where
  "bs_mem_LatestVersion providerSlug s = (Inr (map_of (bs_latest s) providerSlug), s)"

definition bs_mem_ListVersions :: "string \<Rightarrow> (bundle_store, StoredBundle list) act" where
  "bs_mem_ListVersions providerSlug s = (Inr (sort_key SB_PublishedAt (rows (bs_versions s providerSlug))), s)"

end
