(* ===== verification/RegistryLife.thy ===== *)
theory RegistryLife
  imports RegistryService
begin

text \<open>
  The registry over its in-memory store: versions only go up and are never changed, a tool id names one tool, and what
  was published passes the checks of an installation.
\<close>

section \<open>Versions\<close>

definition triple :: "semverParts \<Rightarrow> int \<times> int \<times> int" where
  "triple v = (sv_major v, sv_minor v, sv_patch v)"

definition sv_range :: "int \<Rightarrow> semverParts \<Rightarrow> bool" where
  "sv_range N v \<longleftrightarrow> 0 \<le> sv_major v \<and> sv_major v < N \<and> 0 \<le> sv_minor v \<and> sv_minor v < N \<and> 0 \<le> sv_patch v \<and> sv_patch v < N"

lemma sv_range_mono: "sv_range N v \<Longrightarrow> N \<le> M \<Longrightarrow> sv_range M v"
  by (auto simp: sv_range_def)

lemma signOf_cases: "signOf n \<le> 0 \<longleftrightarrow> n \<le> 0"
  by (simp add: signOf_def)

text \<open>The comparison subtracts; in range the difference does not wrap.\<close>

lemma semver_compare_le:
  assumes "sv_range (2 ^ 63) v" and "sv_range (2 ^ 63) u"
  shows "semver_compare v u \<le> 0 \<longleftrightarrow> triple v \<le> triple u"
proof -
  have id: "wrap64 (x - y) = x - y" if "0 \<le> x" "x < 2 ^ 63" "0 \<le> y" "y < 2 ^ 63" for x y :: int
    using that by (intro wrap64_id) auto
  show ?thesis
    using assms by (auto simp: semver_compare_def signOf_cases triple_def sv_range_def id)
qed

lemma autoNextVersion_greater:
  assumes "sv_range N v" and "N < 2 ^ 63"
  shows "triple v < triple (autoNextVersion v diff)" and "sv_range (N + 1) (autoNextVersion v diff)"
proof -
  have id: "wrap64 (x + 1) = x + 1" if "0 \<le> x" "x < N" for x :: int
    using that assms(2) by (intro wrap64_id) auto
  show "triple v < triple (autoNextVersion v diff)" "sv_range (N + 1) (autoNextVersion v diff)"
    using assms(1) by (auto simp: autoNextVersion_def triple_def sv_range_def id)
qed

lemma cut_dot_append: "CHR ''.'' \<notin> set a \<Longrightarrow> cut_dot (a @ ''.'' @ s) = (a, Some s)"
  by (induction a) auto

lemma cut_dot_none: "CHR ''.'' \<notin> set a \<Longrightarrow> cut_dot a = (a, None)"
  by (induction a) auto

lemma itoa_plain:
  assumes "0 \<le> n"
  shows "CHR ''.'' \<notin> set (itoa n)" and "n < 2 ^ 63 \<Longrightarrow> Atoi (itoa n) = Some n"
proof -
  have digits: "itoa n = digits_of_nat (nat n)" using assms by (simp add: itoa_def)
  have all: "c \<in> set (itoa n) \<Longrightarrow> GoTime.is_digit c" for c unfolding digits by (rule digits_of_nat_digits)
  have nonempty: "itoa n \<noteq> []" unfolding digits by (subst digits_of_nat.simps) simp
  show "CHR ''.'' \<notin> set (itoa n)" using all [of "CHR ''.''"] by (auto simp: GoTime.is_digit_def digit_value_def)
  assume n: "n < 2 ^ 63"
  obtain c cs where c: "itoa n = c # cs" using nonempty by (cases "itoa n") auto
  then have "GoTime.is_digit c" using all [of c] by simp
  then have "c \<noteq> CHR ''-''" "c \<noteq> CHR ''+''" by (auto simp: GoTime.is_digit_def digit_value_def)
  then have "split_sign (itoa n) = (1, itoa n)" by (simp add: c)
  then show "Atoi (itoa n) = Some n"
    using n assms nonempty by (simp add: Atoi_def digits digits_value_digits_of_nat)
qed

lemma parseSemver_String:
  assumes "sv_range N v" and "N \<le> 2 ^ 63"
  shows "parseSemver (semver_String v) = Inr v"
proof -
  have r: "0 \<le> sv_major v" "0 \<le> sv_minor v" "0 \<le> sv_patch v" "sv_major v < 2 ^ 63" "sv_minor v < 2 ^ 63" "sv_patch v < 2 ^ 63"
    using assms by (auto simp: sv_range_def)
  have "split_dots (semver_String v) = [itoa (sv_major v), itoa (sv_minor v), itoa (sv_patch v)]"
    using cut_dot_append [OF itoa_plain(1) [OF r(1)], of "itoa (sv_minor v) @ ''.'' @ itoa (sv_patch v)"]
      cut_dot_append [OF itoa_plain(1) [OF r(2)], of "itoa (sv_patch v)"]
    by (simp add: split_dots_def semver_String_def)
  then show ?thesis using r by (simp add: parseSemver_def itoa_plain(2))
qed

section \<open>The registry over its in-memory store\<close>

record rs_world =
  rw_store :: bundle_store
  rw_ids :: nat
  rw_now :: time

definition rs_F :: "schema_lib \<Rightarrow> crypto \<Rightarrow> rs_world rs_facade" where
  "rs_F lib c =
     \<lparr>rs_store =
        \<lparr>st_Save = (\<lambda>slug stored. zoom rw_store rw_store_update (bs_mem_Save slug stored)),
         st_Find = (\<lambda>slug version. zoom rw_store rw_store_update (bs_mem_Find slug version)),
         st_LatestVersion = (\<lambda>slug. zoom rw_store rw_store_update (bs_mem_LatestVersion slug)),
         st_ListVersions = (\<lambda>slug. zoom rw_store rw_store_update (bs_mem_ListVersions slug))\<rparr>,
      rs_newToolID = zoom rw_ids rw_ids_update (\<lambda>n. (sequential_id ''tool_'' n, Suc n)),
      rs_now = (\<lambda>w. (rw_now w, w)), rs_schema = lib, rs_crypto = c\<rparr>"

definition rs_start :: "time \<Rightarrow> rs_world" where
  "rs_start now = \<lparr>rw_store = bs_NewStore, rw_ids = 0, rw_now = now\<rparr>"

definition published :: "rs_world \<Rightarrow> string \<Rightarrow> string \<Rightarrow> StoredBundle option" where
  "published w slug version = map_of (bs_versions (rw_store w) slug) version"

definition latest :: "rs_world \<Rightarrow> string \<Rightarrow> string option" where
  "latest w slug = map_of (bs_latest (rw_store w)) slug"

lemma Find_run [simp]: "st_Find (rs_store (rs_F lib c)) slug version w = (Inr (published w slug version), w)"
  by (simp add: rs_F_def zoom_apply bs_mem_Find_def published_def bs_versions_def split: option.split)

lemma Latest_run [simp]: "st_LatestVersion (rs_store (rs_F lib c)) slug w = (Inr (latest w slug), w)"
  by (simp add: rs_F_def zoom_apply bs_mem_LatestVersion_def latest_def)

lemma publish_run:
  "\<exists>w'. st_Save (rs_store (rs_F lib c)) slug sb w = (Inr (), w') \<and> rw_ids w' = rw_ids w \<and> rw_now w' = rw_now w
     \<and> (\<forall>s v. published w' s v = (if s = slug \<and> v = B_Version (SB_Bundle sb) then Some sb else published w s v))
     \<and> (\<forall>s. latest w' s = (if s = slug then Some (B_Version (SB_Bundle sb)) else latest w s))"
  by (simp add: rs_F_def zoom_apply bs_mem_Save_def published_def latest_def bs_versions_def)

lemma rs_F_sel [simp]:
  "rs_newToolID (rs_F lib c) = zoom rw_ids rw_ids_update (\<lambda>n. (sequential_id ''tool_'' n, Suc n))"
  "rs_now (rs_F lib c) w = (rw_now w, w)" "rs_schema (rs_F lib c) = lib" "rs_crypto (rs_F lib c) = c"
  by (simp_all add: rs_F_def)

definition prior_of :: "rs_world \<Rightarrow> string \<Rightarrow> Bundle option" where
  "prior_of w slug = (case latest w slug of None \<Rightarrow> None | Some v \<Rightarrow> map_option SB_Bundle (published w slug v))"

lemma priorBundle_run [simp]: "priorBundle (rs_F lib c) slug w = (Inr (prior_of w slug), w)"
  by (simp add: priorBundle_def attempt_apply prior_of_def split: option.split)

lemma Pull_run:
  "Pull (rs_F lib c) slug version w =
     (case published w slug version of None \<Rightarrow> Inl (rs_ErrBundleVersionNotFound slug version) | Some sb \<Rightarrow> Inr (SB_Bundle sb), w)"
  by (simp add: Pull_def attempt_apply split: option.split)

lemma resolveVersion_state: "snd (resolveVersion (rs_F lib c) slug requested prior diff w) = w"
  by (simp add: resolveVersion_def resolveRequestedVersion_def attempt_apply split: option.split sum.split)

abbreviation rs_mint :: "BundleTool list \<Rightarrow> Bundle option \<Rightarrow> rs_world \<Rightarrow> BundleTool list \<times> rs_world" where
  "rs_mint tools prior \<equiv> mintToolIDs tools (priorToolIDsFrom prior) (zoom rw_ids rw_ids_update (\<lambda>n. (sequential_id ''tool_'' n, Suc n)))"

lemma rs_mint_frame:
  "rs_mint tools prior w = (ts, w') \<Longrightarrow> rw_store w' = rw_store w \<and> rw_now w' = rw_now w \<and> rw_ids w \<le> rw_ids w'"
proof (induction tools arbitrary: w ts w')
  case (Cons t tools)
  obtain i w1 where 1: "(case map_of (priorToolIDsFrom prior) (BT_Slug t) of Some i \<Rightarrow> (i, w)
      | None \<Rightarrow> zoom rw_ids rw_ids_update (\<lambda>n. (sequential_id ''tool_'' n, Suc n)) w) = (i, w1)" by fastforce
  obtain ts2 w2 where 2: "rs_mint tools prior w1 = (ts2, w2)" by fastforce
  have "rw_store w1 = rw_store w \<and> rw_now w1 = rw_now w \<and> rw_ids w \<le> rw_ids w1"
    using 1 by (auto simp: zoom_apply split: option.splits)
  moreover have "rw_store w2 = rw_store w1 \<and> rw_now w2 = rw_now w1 \<and> rw_ids w1 \<le> rw_ids w2" using Cons.IH [OF 2] .
  moreover have "w' = w2" using Cons.prems by (simp add: 1 2 Let_def)
  ultimately show ?case by auto
qed simp

text \<open>What a publish does: nothing but an error, or one new row under the version it resolved.\<close>

definition finalized :: "crypto \<Rightarrow> string \<Rightarrow> string \<Rightarrow> BundleTool list \<Rightarrow> Bundle \<Rightarrow> Bundle" where
  "finalized c slug version tools b =
     (let unhashed = b\<lparr>B_ProviderSlug := slug, B_Version := version, B_Tools := tools\<rparr>
      in unhashed\<lparr>B_ContentHash := ContentHash c unhashed\<rparr>)"

lemma Publish_cases:
  assumes "Publish (rs_F lib c) slug b w = (r, w')"
  obtains (refused) e where "r = Inl e" "w' = w"
  | (stored) version tools w1 result where "r = Inr result" "PR_Version result = version"
      "slug \<noteq> []" "B_FormatVersion b = rs_supportedFormatVersion" "validateOutputSchemasAgainstSamples lib (B_Tools b) = None"
      "resolveVersion (rs_F lib c) slug (B_Version b) (prior_of w slug) (diffBundle (prior_of w slug) b) w = (Inr version, w)"
      "rs_mint (B_Tools b) (prior_of w slug) w = (tools, w1)"
      "rw_ids w' = rw_ids w1" "rw_now w' = rw_now w"
      "\<And>s v. published w' s v = (if s = slug \<and> v = version
          then Some \<lparr>SB_Bundle = finalized c slug version tools b, SB_PublishedAt = rw_now w\<rparr> else published w s v)"
      "\<And>s. latest w' s = (if s = slug then Some version else latest w s)" "PR_Tools result = toolIdentities tools"
proof (cases "slug = [] \<or> B_FormatVersion b \<noteq> rs_supportedFormatVersion \<or> validateOutputSchemasAgainstSamples lib (B_Tools b) \<noteq> None")
  case True
  then have "\<exists>e. Publish (rs_F lib c) slug b w = (Inl e, w)" by (auto simp: Publish_def)
  then show ?thesis using refused assms by auto
next
  case False
  obtain q where q: "resolveVersion (rs_F lib c) slug (B_Version b) (prior_of w slug) (diffBundle (prior_of w slug) b) w = (q, w)"
    using resolveVersion_state [of lib c slug "B_Version b" "prior_of w slug" "diffBundle (prior_of w slug) b" w] by (metis prod.collapse)
  show ?thesis
  proof (cases q)
    case (Inl e)
    then show ?thesis using refused [of e] assms False q by (simp add: Publish_def attempt_apply Let_def)
  next
    case (Inr version)
    obtain tools w1 where m: "rs_mint (B_Tools b) (prior_of w slug) w = (tools, w1)" by fastforce
    let ?sb = "\<lparr>SB_Bundle = finalized c slug version tools b, SB_PublishedAt = rw_now w1\<rparr>"
    obtain w2 where s: "st_Save (rs_store (rs_F lib c)) slug ?sb w1 = (Inr (), w2)" "rw_ids w2 = rw_ids w1" "rw_now w2 = rw_now w1"
      "\<forall>s v. published w2 s v = (if s = slug \<and> v = B_Version (SB_Bundle ?sb) then Some ?sb else published w1 s v)"
      "\<forall>s. latest w2 s = (if s = slug then Some (B_Version (SB_Bundle ?sb)) else latest w1 s)"
      using publish_run [of lib c slug ?sb w1] by blast
    have v: "B_Version (finalized c slug version tools b) = version" by (simp add: finalized_def Let_def)
    have frame: "rw_store w1 = rw_store w" "rw_now w1 = rw_now w" using rs_mint_frame [OF m] by auto
    have same: "published w1 s v = published w s v" "latest w1 s = latest w s" for s v
      by (simp_all add: published_def latest_def frame)
    have "\<exists>result. Publish (rs_F lib c) slug b w = (Inr result, w2) \<and> PR_Version result = version \<and> PR_Tools result = toolIdentities tools"
      using False q Inr m s(1) by (simp add: Publish_def attempt_apply call_apply Let_def finalized_def)
    then obtain result where "r = Inr result" "w' = w2" "PR_Version result = version" "PR_Tools result = toolIdentities tools"
      using assms by auto
    then show ?thesis
      using False q Inr m s(2-5) v frame same by (intro stored [of result version tools w1]) simp_all
  qed
qed

section \<open>The published history\<close>

definition registry_inv :: "crypto \<Rightarrow> int \<Rightarrow> rs_world \<Rightarrow> bool" where
  "registry_inv c N w \<longleftrightarrow>
     (\<forall>slug v sb. published w slug v = Some sb \<longrightarrow>
        B_Version (SB_Bundle sb) = v \<and> B_ProviderSlug (SB_Bundle sb) = slug \<and> B_FormatVersion (SB_Bundle sb) = rs_supportedFormatVersion
        \<and> ContentHash c (SB_Bundle sb) = B_ContentHash (SB_Bundle sb)
        \<and> (\<exists>n l m. parseSemver v = Inr n \<and> sv_range N n \<and> latest w slug = Some l \<and> parseSemver l = Inr m \<and> sv_range N m \<and> triple n \<le> triple m))
     \<and> (\<forall>slug l. latest w slug = Some l \<longrightarrow> published w slug l \<noteq> None)"

text \<open>A publisher that asks for versions below a bound, or leaves them to the registry.\<close>

definition modest :: "int \<Rightarrow> Bundle \<Rightarrow> bool" where
  "modest N b \<longleftrightarrow> (\<forall>n. parseSemver (B_Version b) = Inr n \<longrightarrow> sv_range N n)"

lemma first_version: "parseSemver ''1.0.0'' = Inr \<lparr>sv_major = 1, sv_minor = 0, sv_patch = 0\<rparr>"
  by code_simp

lemma registry_inv_published:
  assumes "registry_inv c N w" and "published w slug v = Some sb"
  obtains n l m where "B_Version (SB_Bundle sb) = v" "B_ProviderSlug (SB_Bundle sb) = slug" "parseSemver v = Inr n" "sv_range N n"
    "latest w slug = Some l" "parseSemver l = Inr m" "sv_range N m" "triple n \<le> triple m"
proof -
  have "B_Version (SB_Bundle sb) = v \<and> B_ProviderSlug (SB_Bundle sb) = slug
    \<and> (\<exists>n l m. parseSemver v = Inr n \<and> sv_range N n \<and> latest w slug = Some l \<and> parseSemver l = Inr m \<and> sv_range N m \<and> triple n \<le> triple m)"
    using assms unfolding registry_inv_def by blast
  then show ?thesis using that by blast
qed

lemma latest_prior:
  assumes "registry_inv c N w" and "latest w slug = Some l"
  obtains b m where "prior_of w slug = Some b" "B_Version b = l" "parseSemver l = Inr m" "sv_range N m"
proof -
  have "published w slug l \<noteq> None" using assms unfolding registry_inv_def by blast
  then obtain sb where sb: "published w slug l = Some sb" by blast
  from registry_inv_published [OF assms(1) sb] obtain n where "B_Version (SB_Bundle sb) = l" "parseSemver l = Inr n" "sv_range N n" by blast
  then show ?thesis using that [of "SB_Bundle sb"] sb assms(2) by (simp add: prior_of_def)
qed

text \<open>The version a publish resolves is above the latest, in the direction the difference asks for.\<close>

definition bumps :: "semverParts \<Rightarrow> semverParts \<Rightarrow> bundleDiff \<Rightarrow> bool" where
  "bumps old new diff \<longleftrightarrow> triple old < triple new \<and> (hasRemovals diff \<longrightarrow> sv_major old < sv_major new)
     \<and> (hasAdditions diff \<longrightarrow> (sv_major old, sv_minor old) < (sv_major new, sv_minor new))"

lemma autoNextVersion_bumps:
  assumes "sv_range N v" and "N < 2 ^ 63"
  shows "bumps v (autoNextVersion v diff) diff"
proof -
  have id: "wrap64 (x + 1) = x + 1" if "0 \<le> x" "x < N" for x :: int
    using that assms(2) by (intro wrap64_id) auto
  show ?thesis
    using assms(1) by (auto simp: bumps_def autoNextVersion_def triple_def sv_range_def id)
qed

lemma resolveVersion_bumps:
  assumes inv: "registry_inv c N w" and N: "2 \<le> N" "N < 2 ^ 63" and b: "modest N b"
    and run: "resolveVersion (rs_F lib c) slug (B_Version b) (prior_of w slug) diff w = (Inr version, w)"
  shows "\<exists>n. parseSemver version = Inr n \<and> sv_range (N + 1) n
     \<and> (\<forall>l m. latest w slug = Some l \<longrightarrow> parseSemver l = Inr m \<longrightarrow> bumps m n diff)"
proof (cases "latest w slug")
  case None
  then have "resolveFirstVersion (B_Version b) = Inr version" using run by (simp add: prior_of_def resolveVersion_def)
  then have "\<exists>n. parseSemver version = Inr n \<and> sv_range (N + 1) n"
    using b N(1) sv_range_mono [of N _ "N + 1"]
    by (auto simp: resolveFirstVersion_def first_version sv_range_def modest_def split: if_splits sum.splits)
  then show ?thesis using None by simp
next
  case (Some l)
  then obtain prior m where prior: "prior_of w slug = Some prior" "B_Version prior = l" "parseSemver l = Inr m" "sv_range N m"
    by (rule latest_prior [OF inv])
  have le: "sv_range (2 ^ 63) m" using prior(4) N(2) sv_range_mono by fastforce
  show ?thesis
  proof (cases "B_Version b = []")
    case True
    then have "version = semver_String (autoNextVersion m diff)" using run prior by (simp add: resolveVersion_def)
    moreover have "sv_range (N + 1) (autoNextVersion m diff)" using autoNextVersion_greater [OF prior(4) N(2)] by blast
    ultimately show ?thesis
      using parseSemver_String [of "N + 1" "autoNextVersion m diff"] autoNextVersion_bumps [OF prior(4) N(2)] N(2) Some prior(3) by auto
  next
    case False
    then have run': "resolveRequestedVersion (rs_F lib c) slug (B_Version b) m diff w = (Inr version, w)"
      using run prior by (simp add: resolveVersion_def)
    then obtain n where n: "parseSemver (B_Version b) = Inr n" "\<not> semver_compare n m \<le> 0" "version = B_Version b"
      "\<not> (hasRemovals diff \<and> sv_major n \<le> sv_major m)"
      "\<not> (hasAdditions diff \<and> sv_major n = sv_major m \<and> sv_minor n \<le> sv_minor m)"
      by (auto simp: resolveRequestedVersion_def attempt_apply split: if_splits sum.splits)
    have range: "sv_range N n" using b n(1) by (simp add: modest_def)
    then have "sv_range (2 ^ 63) n" using N(2) sv_range_mono by fastforce
    then have "\<not> triple n \<le> triple m" using semver_compare_le le n(2) by blast
    then have "triple m < triple n" by (simp only: not_le)
    then have "bumps m n diff" using n(4,5) by (auto simp: bumps_def triple_def)
    then show ?thesis using n(1,3) range sv_range_mono [of N n "N + 1"] Some prior(3) by auto
  qed
qed

lemma ContentHash_own: "ContentHash c (b\<lparr>B_ContentHash := h\<rparr>) = ContentHash c b"
  by (simp add: ContentHash_def)

lemma finalized_sel [simp]:
  "B_Version (finalized c slug v tools b) = v" "B_ProviderSlug (finalized c slug v tools b) = slug"
  "B_FormatVersion (finalized c slug v tools b) = B_FormatVersion b" "B_Tools (finalized c slug v tools b) = tools"
  "B_Triggers (finalized c slug v tools b) = B_Triggers b"
  by (simp_all add: finalized_def Let_def)

lemma finalized_hash: "ContentHash c (finalized c slug v tools b) = B_ContentHash (finalized c slug v tools b)"
  by (simp add: finalized_def Let_def ContentHash_own)

text \<open>One publish: the history before it stays, and the new version is above all of it.\<close>

lemma publish_step:
  assumes inv: "registry_inv c N w" and N: "2 \<le> N" "N < 2 ^ 63" and b: "modest N b" and run: "Publish (rs_F lib c) slug b w = (r, w')"
  shows "registry_inv c (N + 1) w' \<and> (\<forall>s v sb. published w s v = Some sb \<longrightarrow> published w' s v = Some sb)"
  using run
proof (cases rule: Publish_cases)
  case refused
  then show ?thesis using inv sv_range_mono [of N _ "N + 1"] unfolding registry_inv_def by fastforce
next
  case (stored version tools w1 result)
  obtain n where n: "parseSemver version = Inr n" "sv_range (N + 1) n"
    "\<And>l m. latest w slug = Some l \<Longrightarrow> parseSemver l = Inr m \<Longrightarrow> bumps m n (diffBundle (prior_of w slug) b)"
    using resolveVersion_bumps [OF inv N b stored(6)] by blast
  have above: "triple k < triple n" if "published w slug v = Some sb" "parseSemver v = Inr k" for v sb k
    using registry_inv_published [OF inv that(1)] that(2) n(3) by (metis bumps_def Inr_inject order_le_less_trans)
  have fresh: "published w slug version = None" using above n(1) by (metis less_irrefl not_Some_eq)
  have kept: "\<forall>s v sb. published w s v = Some sb \<longrightarrow> published w' s v = Some sb" using fresh by (simp add: stored(10))
  have "registry_inv c (N + 1) w'"
    unfolding registry_inv_def
  proof (intro conjI allI impI)
    fix s v sb
    assume sb: "published w' s v = Some sb"
    show "B_Version (SB_Bundle sb) = v" "B_ProviderSlug (SB_Bundle sb) = s" "B_FormatVersion (SB_Bundle sb) = rs_supportedFormatVersion"
      "ContentHash c (SB_Bundle sb) = B_ContentHash (SB_Bundle sb)"
      using sb inv stored(4) finalized_hash by (auto simp: stored(10) registry_inv_def split: if_splits)
    show "\<exists>k l m. parseSemver v = Inr k \<and> sv_range (N + 1) k \<and> latest w' s = Some l \<and> parseSemver l = Inr m \<and> sv_range (N + 1) m \<and> triple k \<le> triple m"
    proof (cases "s = slug")
      case True
      have "\<exists>k. parseSemver v = Inr k \<and> sv_range (N + 1) k \<and> triple k \<le> triple n"
      proof (cases "v = version")
        case False
        then have old: "published w slug v = Some sb" using sb True by (simp add: stored(10))
        from registry_inv_published [OF inv old] obtain k where "parseSemver v = Inr k" "sv_range N k" by blast
        then show ?thesis using above [OF old] sv_range_mono [of N k "N + 1"] by auto
      qed (use n in auto)
      then show ?thesis using True n(1,2) by (auto simp: stored(11))
    next
      case False
      then have "published w s v = Some sb" using sb by (simp add: stored(10))
      then obtain k l m where "parseSemver v = Inr k" "sv_range N k" "latest w s = Some l" "parseSemver l = Inr m" "sv_range N m" "triple k \<le> triple m"
        using registry_inv_published [OF inv] by blast
      then show ?thesis using False sv_range_mono [of N _ "N + 1"] by (auto simp: stored(11))
    qed
  next
    fix s l
    assume "latest w' s = Some l"
    then show "published w' s l \<noteq> None" using inv by (auto simp: stored(10,11) registry_inv_def split: if_splits)
  qed
  then show ?thesis using kept by blast
qed

definition publish_all :: "schema_lib \<Rightarrow> crypto \<Rightarrow> (string \<times> Bundle) list \<Rightarrow> rs_world \<Rightarrow> rs_world" where
  "publish_all lib c ps w = foldl (\<lambda>w (slug, b). snd (Publish (rs_F lib c) slug b w)) w ps"

lemma publish_all_simps [simp]:
  "publish_all lib c [] w = w"
  "publish_all lib c ((slug, b) # ps) w = publish_all lib c ps (snd (Publish (rs_F lib c) slug b w))"
  "publish_all lib c (ps @ qs) w = publish_all lib c qs (publish_all lib c ps w)"
  by (simp_all add: publish_all_def)

lemma publish_all_history:
  assumes "registry_inv c N w" and "2 \<le> N" and "N + int (length ps) \<le> 2 ^ 63" and "\<forall>(slug, b) \<in> set ps. modest N b"
  shows "registry_inv c (N + int (length ps)) (publish_all lib c ps w)
     \<and> (\<forall>s v sb. published w s v = Some sb \<longrightarrow> published (publish_all lib c ps w) s v = Some sb)"
  using assms
proof (induction ps arbitrary: w N)
  case (Cons p ps)
  obtain slug b where p: "p = (slug, b)" by fastforce
  let ?w = "snd (Publish (rs_F lib c) slug b w)"
  have step: "registry_inv c (N + 1) ?w" "\<forall>s v sb. published w s v = Some sb \<longrightarrow> published ?w s v = Some sb"
    using publish_step [of c N w b lib slug "fst (Publish (rs_F lib c) slug b w)" ?w] Cons.prems p by auto
  have "\<forall>(slug, b) \<in> set ps. modest (N + 1) b"
    using Cons.prems(4) sv_range_mono [of N _ "N + 1"] by (force simp: modest_def)
  then have "registry_inv c (N + 1 + int (length ps)) (publish_all lib c ps ?w)
     \<and> (\<forall>s v sb. published ?w s v = Some sb \<longrightarrow> published (publish_all lib c ps ?w) s v = Some sb)"
    using Cons.prems step(1) by (intro Cons.IH) auto
  then show ?case using step(2) p by (simp add: algebra_simps)
qed simp

lemma start_registry: "registry_inv c N (rs_start now)"
  by (simp add: registry_inv_def published_def latest_def rs_start_def bs_NewStore_def bs_versions_def)

text \<open>
  C37: What the registry has published never changes: after any number of publishes, a version that could be pulled is
  pulled as the same bundle, and a successful publish is under a new version that is above every version of the provider,
  by a major bump when it removes a tool or trigger and at least a minor one when it adds one. (Requested versions stay
  below 2 ^ 62; the comparison in the code subtracts 64-bit numbers.)
\<close>

theorem published_versions_immutable:
  assumes "\<forall>(slug, b) \<in> set (ps @ qs). modest (2 ^ 62) b" and "length (ps @ qs) < 2 ^ 62" and "modest (2 ^ 62) b"
    and w: "w = publish_all lib c ps (rs_start now)"
  shows "(Pull (rs_F lib c) slug v w = (Inr pulled, w) \<longrightarrow>
            fst (Pull (rs_F lib c) slug v (publish_all lib c qs w)) = Inr pulled)
     \<and> (\<forall>result w'. Publish (rs_F lib c) slug b w = (Inr result, w') \<longrightarrow>
          (\<exists>n. parseSemver (PR_Version result) = Inr n
             \<and> (\<forall>v sb. published w slug v = Some sb \<longrightarrow> (\<exists>k. parseSemver v = Inr k \<and> triple k < triple n))
             \<and> (\<forall>prior. prior_of w slug = Some prior \<longrightarrow>
                  (\<exists>m. parseSemver (B_Version prior) = Inr m \<and> bumps m n (diffBundle (Some prior) b)))))"
proof -
  let ?N = "2 ^ 62 + int (length ps)"
  have inv: "registry_inv c ?N w"
    using publish_all_history [OF start_registry, of "2 ^ 62" ps c lib now] assms(1,2) w by (auto simp: Ball_def)
  have "\<forall>(slug, b) \<in> set qs. modest ?N b" "modest ?N b"
    using assms(1,3) sv_range_mono [of "2 ^ 62" _ ?N] by (force simp: modest_def)+
  have kept: "published (publish_all lib c qs w) slug v = Some sb" if "published w slug v = Some sb" for sb
    using publish_all_history [OF inv, of qs lib] \<open>\<forall>(slug, b) \<in> set qs. modest ?N b\<close> assms(2) that by auto
  have new: "\<exists>n. parseSemver (PR_Version result) = Inr n
      \<and> (\<forall>v sb. published w slug v = Some sb \<longrightarrow> (\<exists>k. parseSemver v = Inr k \<and> triple k < triple n))
      \<and> (\<forall>prior. prior_of w slug = Some prior \<longrightarrow>
           (\<exists>m. parseSemver (B_Version prior) = Inr m \<and> bumps m n (diffBundle (Some prior) b)))"
    if run: "Publish (rs_F lib c) slug b w = (Inr result, w')" for result w'
    using run
  proof (cases rule: Publish_cases)
    case (stored version tools w1 result')
    have "result' = result" using stored(1) by simp
    obtain n where n: "parseSemver version = Inr n"
      "\<And>l m. latest w slug = Some l \<Longrightarrow> parseSemver l = Inr m \<Longrightarrow> bumps m n (diffBundle (prior_of w slug) b)"
      using resolveVersion_bumps [OF inv _ _ \<open>modest ?N b\<close> stored(6)] assms(2) by auto
    have "\<exists>k. parseSemver v = Inr k \<and> triple k < triple n" if "published w slug v = Some sb" for v sb
      using registry_inv_published [OF inv that] n(2) by (metis bumps_def order_le_less_trans)
    moreover have "\<exists>m. parseSemver (B_Version prior) = Inr m \<and> bumps m n (diffBundle (Some prior) b)" if "prior_of w slug = Some prior" for prior
    proof -
      have "latest w slug \<noteq> None" using that by (auto simp: prior_of_def split: option.splits)
      then obtain l where l: "latest w slug = Some l" by blast
      from latest_prior [OF inv l] that obtain m where "B_Version prior = l" "parseSemver l = Inr m" by (metis option.inject)
      then show ?thesis using n(2) [OF l] that by auto
    qed
    ultimately show ?thesis using n(1) stored(2) \<open>result' = result\<close> by auto
  qed simp
  show ?thesis
  proof (intro conjI impI allI)
    assume "Pull (rs_F lib c) slug v w = (Inr pulled, w)"
    then obtain sb where "published w slug v = Some sb" "SB_Bundle sb = pulled" by (auto simp: Pull_run split: option.splits)
    then show "fst (Pull (rs_F lib c) slug v (publish_all lib c qs w)) = Inr pulled" using kept by (simp add: Pull_run)
  qed (use new in blast)
qed

section \<open>Tool ids\<close>

lemma prior_ids_step:
  "map_of (foldl (\<lambda>ids tool. put (BT_Slug tool) (BT_ID tool) ids) ids tools) slug = Some i \<Longrightarrow>
     (\<exists>t \<in> set tools. BT_Slug t = slug \<and> BT_ID t = i) \<or> map_of ids slug = Some i"
proof (induction tools arbitrary: ids)
  case (Cons t tools)
  from Cons.IH [of "put (BT_Slug t) (BT_ID t) ids"] Cons.prems show ?case by (auto split: if_splits)
qed simp

lemma prior_ids_keys:
  "map_of (foldl (\<lambda>ids tool. put (BT_Slug tool) (BT_ID tool) ids) ids tools) slug = None
     \<longleftrightarrow> map_of ids slug = None \<and> slug \<notin> BT_Slug ` set tools"
  by (induction tools arbitrary: ids) auto

lemma priorToolIDsFrom_Some:
  "map_of (priorToolIDsFrom prior) slug = Some i \<Longrightarrow> \<exists>b t. prior = Some b \<and> t \<in> set (B_Tools b) \<and> BT_Slug t = slug \<and> BT_ID t = i"
  using prior_ids_step [of "[]"] by (force simp: priorToolIDsFrom_def split: option.splits)

lemma priorToolIDsFrom_None:
  "map_of (priorToolIDsFrom (Some b)) slug = None \<longleftrightarrow> slug \<notin> BT_Slug ` set (B_Tools b)"
  by (simp add: priorToolIDsFrom_def prior_ids_keys)

text \<open>A minted tool keeps its slug and has the id of the version before or a new one.\<close>

definition inherits :: "Bundle option \<Rightarrow> BundleTool \<Rightarrow> bool" where
  "inherits prior t \<longleftrightarrow> map_of (priorToolIDsFrom prior) (BT_Slug t) = Some (BT_ID t)"

definition mints :: "Bundle option \<Rightarrow> nat \<Rightarrow> nat \<Rightarrow> BundleTool \<Rightarrow> bool" where
  "mints prior m n t \<longleftrightarrow> map_of (priorToolIDsFrom prior) (BT_Slug t) = None \<and> (\<exists>k. m \<le> k \<and> k < n \<and> BT_ID t = sequential_id ''tool_'' k)"

lemma rs_mint_ids:
  "rs_mint tools prior w = (ts, w') \<Longrightarrow>
     map BT_Slug ts = map BT_Slug tools
     \<and> (\<forall>t \<in> set ts. inherits prior t \<or> mints prior (rw_ids w) (rw_ids w') t)
     \<and> (\<forall>t \<in> set ts. \<forall>t' \<in> set ts. mints prior (rw_ids w) (rw_ids w') t \<longrightarrow> mints prior (rw_ids w) (rw_ids w') t' \<longrightarrow>
          BT_ID t = BT_ID t' \<longrightarrow> BT_Slug t = BT_Slug t')"
proof (induction tools arbitrary: w ts w')
  case (Cons t tools)
  show ?case
  proof (cases "map_of (priorToolIDsFrom prior) (BT_Slug t)")
    case (Some i)
    obtain ts2 where 2: "rs_mint tools prior w = (ts2, w')" "ts = t\<lparr>BT_ID := i\<rparr> # ts2"
      using Cons.prems Some by (auto simp: Let_def split: prod.splits)
    have head: "inherits prior (t\<lparr>BT_ID := i\<rparr>)" "\<not> mints prior m n (t\<lparr>BT_ID := i\<rparr>)" for m n
      using Some by (simp_all add: inherits_def mints_def)
    have "map BT_Slug ts = map BT_Slug (t # tools)" using Cons.IH [OF 2(1)] 2(2) by simp
    moreover have "\<forall>u \<in> set ts. inherits prior u \<or> mints prior (rw_ids w) (rw_ids w') u"
      using Cons.IH [OF 2(1)] head(1) 2(2) by simp
    moreover have "BT_Slug u = BT_Slug u'"
      if "u \<in> set ts" "u' \<in> set ts" "mints prior (rw_ids w) (rw_ids w') u" "mints prior (rw_ids w) (rw_ids w') u'" "BT_ID u = BT_ID u'" for u u'
    proof -
      have "u \<in> set ts2" "u' \<in> set ts2" using that(1-4) head(2) 2(2) by auto
      then show ?thesis using Cons.IH [OF 2(1)] that(3-5) by blast
    qed
    ultimately show ?thesis by blast
  next
    case None
    let ?i = "sequential_id ''tool_'' (rw_ids w)" and ?w1 = "w\<lparr>rw_ids := Suc (rw_ids w)\<rparr>"
    have z: "zoom rw_ids rw_ids_update (\<lambda>n. (sequential_id ''tool_'' n, Suc n)) w = (?i, ?w1)" by (simp add: zoom_apply)
    obtain ts2 where 2: "rs_mint tools prior ?w1 = (ts2, w')" "ts = t\<lparr>BT_ID := ?i\<rparr> # ts2"
      using Cons.prems None by (auto simp: Let_def z split: prod.splits)
    have le: "Suc (rw_ids w) \<le> rw_ids w'" using rs_mint_frame [OF 2(1)] by simp
    have weaken: "mints prior (Suc (rw_ids w)) n u \<Longrightarrow> mints prior (rw_ids w) n u" for n u
      by (auto simp: mints_def intro: Suc_leD)
    have new: "mints prior (rw_ids w) (rw_ids w') (t\<lparr>BT_ID := ?i\<rparr>)" using None le by (auto simp: mints_def)
    have other: "BT_ID u \<noteq> ?i" if "mints prior (Suc (rw_ids w)) (rw_ids w') u" for u using that by (auto simp: mints_def)
    have later: "\<forall>u \<in> set ts2. inherits prior u \<or> mints prior (Suc (rw_ids w)) (rw_ids w') u" using Cons.IH [OF 2(1)] by simp
    have uniq: "\<forall>x \<in> set ts2. \<forall>y \<in> set ts2. mints prior (Suc (rw_ids w)) (rw_ids w') x \<longrightarrow> mints prior (Suc (rw_ids w)) (rw_ids w') y
        \<longrightarrow> BT_ID x = BT_ID y \<longrightarrow> BT_Slug x = BT_Slug y"
    proof -
      have "rw_ids ?w1 = Suc (rw_ids w)" by simp
      then show ?thesis using Cons.IH [OF 2(1)] by (simp only:) blast
    qed
    have excl: "\<not> (inherits prior u \<and> mints prior m n u)" for m n u by (auto simp: inherits_def mints_def)
    have "map BT_Slug ts = map BT_Slug (t # tools)" using Cons.IH [OF 2(1)] 2(2) by simp
    moreover have "\<forall>u \<in> set ts. inherits prior u \<or> mints prior (rw_ids w) (rw_ids w') u"
      using later weaken new 2(2) by auto
    moreover have "BT_Slug u = BT_Slug u'"
      if "u \<in> set ts" "u' \<in> set ts" "mints prior (rw_ids w) (rw_ids w') u" "mints prior (rw_ids w) (rw_ids w') u'" "BT_ID u = BT_ID u'" for u u'
    proof -
      have in_rest: "mints prior (Suc (rw_ids w)) (rw_ids w') x" if "x \<in> set ts2" "mints prior (rw_ids w) (rw_ids w') x" for x
        using later excl that by blast
      note u = that
      consider (both) "u \<in> set ts2" "u' \<in> set ts2" | (first) "u = t\<lparr>BT_ID := ?i\<rparr>" "u' \<in> set ts2"
        | (second) "u' = t\<lparr>BT_ID := ?i\<rparr>" "u \<in> set ts2" | (same) "u = u'"
        using u(1,2) 2(2) by auto
      then show ?thesis
      proof cases
        case both
        then show ?thesis using uniq in_rest u(3-5) by blast
      next
        case first
        then show ?thesis using other [OF in_rest [OF first(2) u(4)]] u(5) by simp
      next
        case second
        then show ?thesis using other [OF in_rest [OF second(2) u(3)]] u(5) by simp
      qed simp
    qed
    ultimately show ?thesis by blast
  qed
qed simp

text \<open>A tool of the registry: its provider and slug, and the id some published version gives it.\<close>

definition named :: "rs_world \<Rightarrow> string \<Rightarrow> string \<Rightarrow> string \<Rightarrow> bool" where
  "named w slug tool i \<longleftrightarrow> (\<exists>v sb. published w slug v = Some sb \<and> (\<exists>t \<in> set (B_Tools (SB_Bundle sb)). BT_Slug t = tool \<and> BT_ID t = i))"

definition ids_inv :: "rs_world \<Rightarrow> bool" where
  "ids_inv w \<longleftrightarrow> (\<forall>slug tool i. named w slug tool i \<longrightarrow> minted ''tool_'' (rw_ids w) i)
     \<and> (\<forall>slug tool slug' tool' i. named w slug tool i \<longrightarrow> named w slug' tool' i \<longrightarrow> slug = slug' \<and> tool = tool')"

lemma prior_named: "prior_of w slug = Some b \<Longrightarrow> t \<in> set (B_Tools b) \<Longrightarrow> named w slug (BT_Slug t) (BT_ID t)"
  by (auto simp: prior_of_def named_def split: option.splits)

lemma rs_minted_mono: "minted p m i \<Longrightarrow> m \<le> n \<Longrightarrow> minted p n i"
  by (auto simp: minted_def)

lemma ids_step:
  assumes inv: "ids_inv w" and run: "Publish (rs_F lib c) slug b w = (r, w')"
  shows "ids_inv w'"
  using run
proof (cases rule: Publish_cases)
  case (stored version tools w1 result)
  let ?p = "prior_of w slug"
  have ids: "rw_ids w' = rw_ids w1" "rw_ids w \<le> rw_ids w'" using stored(8) rs_mint_frame [OF stored(7)] by auto
  have mint: "\<forall>t \<in> set tools. inherits ?p t \<or> mints ?p (rw_ids w) (rw_ids w') t"
    "\<forall>t \<in> set tools. \<forall>t' \<in> set tools. mints ?p (rw_ids w) (rw_ids w') t \<longrightarrow> mints ?p (rw_ids w) (rw_ids w') t' \<longrightarrow>
        BT_ID t = BT_ID t' \<longrightarrow> BT_Slug t = BT_Slug t'"
    using rs_mint_ids [OF stored(7)] unfolding ids(1) by blast+
  have old: "named w slug (BT_Slug t) (BT_ID t)" if "inherits ?p t" for t
    using priorToolIDsFrom_Some that prior_named unfolding inherits_def by metis
  have new_id: "\<exists>k. rw_ids w \<le> k \<and> k < rw_ids w' \<and> i = sequential_id ''tool_'' k" if "mints ?p (rw_ids w) (rw_ids w') t" "BT_ID t = i" for t i
    using that by (auto simp: mints_def)
  have cases: "named w s tool i \<or> (s = slug \<and> (\<exists>t \<in> set tools. mints ?p (rw_ids w) (rw_ids w') t \<and> BT_Slug t = tool \<and> BT_ID t = i))"
    if "named w' s tool i" for s tool i
  proof -
    from that obtain v sb t where t: "published w' s v = Some sb" "t \<in> set (B_Tools (SB_Bundle sb))" "BT_Slug t = tool" "BT_ID t = i"
      by (auto simp: named_def)
    show ?thesis
    proof (cases "s = slug \<and> v = version")
      case True
      then have "t \<in> set tools" using t(1,2) by (auto simp: stored(10))
      then show ?thesis using mint(1) old t(3,4) True by blast
    next
      case False
      then have "published w s v = Some sb" using t(1) by (auto simp: stored(10) split: if_splits)
      then show ?thesis using t(2-4) unfolding named_def by blast
    qed
  qed
  have fresh: "\<not> named w s tool (sequential_id ''tool_'' k)" if "rw_ids w \<le> k" for s tool k
  proof
    assume "named w s tool (sequential_id ''tool_'' k)"
    then have "minted ''tool_'' (rw_ids w) (sequential_id ''tool_'' k)" using inv unfolding ids_inv_def by blast
    then show False using that by (simp add: minted_def)
  qed
  have unused: "\<not> named w s tool (BT_ID t)" if "mints ?p (rw_ids w) (rw_ids w') t" for s tool t
  proof -
    obtain k where k: "rw_ids w \<le> k" "BT_ID t = sequential_id ''tool_'' k" using new_id [of t "BT_ID t"] \<open>mints ?p (rw_ids w) (rw_ids w') t\<close> by blast
    show ?thesis unfolding k(2) using k(1) by (rule fresh)
  qed
  show ?thesis
    unfolding ids_inv_def
  proof (intro conjI allI impI)
    fix s tool i
    assume "named w' s tool i"
    from cases [OF this] show "minted ''tool_'' (rw_ids w') i"
    proof
      assume "named w s tool i"
      then show ?thesis using inv ids(2) rs_minted_mono unfolding ids_inv_def by blast
    next
      assume "s = slug \<and> (\<exists>t \<in> set tools. mints ?p (rw_ids w) (rw_ids w') t \<and> BT_Slug t = tool \<and> BT_ID t = i)"
      then show ?thesis using new_id unfolding minted_def by blast
    qed
  next
    fix s tool s' tool' i
    assume n: "named w' s tool i" "named w' s' tool' i"
    have "s = s' \<and> tool = tool'"
      using cases [OF n(1)] cases [OF n(2)]
    proof (elim disjE conjE bexE)
      assume "named w s tool i" "named w s' tool' i"
      then show ?thesis using inv unfolding ids_inv_def by blast
    next
      fix t assume "named w s tool i" "mints ?p (rw_ids w) (rw_ids w') t" "BT_ID t = i"
      then show ?thesis using unused [of t s tool] by simp
    next
      fix t assume "named w s' tool' i" "mints ?p (rw_ids w) (rw_ids w') t" "BT_ID t = i"
      then show ?thesis using unused [of t s' tool'] by simp
    next
      fix t t' assume t: "s = slug" "s' = slug" "t \<in> set tools" "t' \<in> set tools" "mints ?p (rw_ids w) (rw_ids w') t"
        "mints ?p (rw_ids w) (rw_ids w') t'" "BT_Slug t = tool" "BT_Slug t' = tool'" "BT_ID t = i" "BT_ID t' = i"
      have "BT_ID t = BT_ID t'" using t(9,10) by simp
      then have "BT_Slug t = BT_Slug t'" using mint(2) t(3-6) by blast
      then have "tool = tool'" using t(7,8) by simp
      then show ?thesis using t(1,2) by blast
    qed
    then show "s = s'" "tool = tool'" by simp_all
  qed
qed (use inv in simp)

lemma publish_all_ids: "ids_inv w \<Longrightarrow> ids_inv (publish_all lib c ps w)"
proof (induction ps arbitrary: w)
  case (Cons p ps)
  obtain slug b where p: "p = (slug, b)" by fastforce
  have "ids_inv (snd (Publish (rs_F lib c) slug b w))"
    using ids_step [OF Cons.prems, of lib c slug b "fst (Publish (rs_F lib c) slug b w)"] by simp
  then show ?case using Cons.IH p by simp
qed simp

lemma start_ids: "ids_inv (rs_start now)"
  by (simp add: ids_inv_def named_def published_def rs_start_def bs_NewStore_def bs_versions_def)

text \<open>What the identity of a published tool promises.\<close>

definition tool_identity_ok :: "rs_world \<Rightarrow> string \<Rightarrow> ToolIdentity \<Rightarrow> bool" where
  "tool_identity_ok w slug x \<longleftrightarrow>
     (\<forall>prior. prior_of w slug = Some prior \<longrightarrow> TIY_Slug x \<in> BT_Slug ` set (B_Tools prior) \<longrightarrow>
        (\<exists>t \<in> set (B_Tools prior). BT_Slug t = TIY_Slug x \<and> BT_ID t = TIY_ID x))
   \<and> ((\<forall>i. \<not> named w slug (TIY_Slug x) i) \<longrightarrow> (\<forall>s tool. \<not> named w s tool (TIY_ID x)))"

lemma minted_identity_ok:
  assumes inv: "ids_inv w"
    and t: "inherits (prior_of w slug) t \<or> mints (prior_of w slug) (rw_ids w) n t"
  shows "tool_identity_ok w slug \<lparr>TIY_ID = BT_ID t, TIY_Slug = BT_Slug t\<rparr>"
  using t
proof
  assume "inherits (prior_of w slug) t"
  then obtain p u where u: "prior_of w slug = Some p" "u \<in> set (B_Tools p)" "BT_Slug u = BT_Slug t" "BT_ID u = BT_ID t"
    unfolding inherits_def using priorToolIDsFrom_Some by blast
  have "named w slug (BT_Slug t) (BT_ID t)" using prior_named [OF u(1,2)] u(3,4) by simp
  then show ?thesis using u unfolding tool_identity_ok_def by (metis ToolIdentity.select_convs option.inject)
next
  assume m: "mints (prior_of w slug) (rw_ids w) n t"
  have "\<not> named w s tool (BT_ID t)" for s tool
  proof
    assume "named w s tool (BT_ID t)"
    then have "minted ''tool_'' (rw_ids w) (BT_ID t)" using inv unfolding ids_inv_def by blast
    then show False using m by (auto simp: mints_def minted_def)
  qed
  moreover have "BT_Slug t \<notin> BT_Slug ` set (B_Tools prior)" if "prior_of w slug = Some prior" for prior
    using m unfolding mints_def that priorToolIDsFrom_None by blast
  ultimately show ?thesis by (simp add: tool_identity_ok_def)
qed

text \<open>
  C38: A tool id names one tool: whatever is published, two tools with one id, in any versions of any providers, are of
  one provider and have one slug. A publish answers with the tools of the bundle in order; a tool of the latest
  version keeps its id, and a tool whose slug no version of the provider has had gets an id that no tool ever had.
  The third case, a slug that an earlier version had and the latest one dropped, is not what the comments of
  \<open>Publish\<close> (facade.go:31-36) and \<open>mintToolIDs\<close> (facade.go:213) promise: lemma \<open>dropped_tool_gets_new_id\<close> below.
\<close>

theorem tool_id_names_one_tool:
  assumes w: "w = publish_all lib c ps (rs_start now)"
  shows "(\<forall>slug tool slug' tool' i. named w slug tool i \<longrightarrow> named w slug' tool' i \<longrightarrow> slug = slug' \<and> tool = tool')
     \<and> (\<forall>result w'. Publish (rs_F lib c) slug b w = (Inr result, w') \<longrightarrow>
          map TIY_Slug (PR_Tools result) = map BT_Slug (B_Tools b)
        \<and> (\<forall>x \<in> set (PR_Tools result).
             (\<forall>prior. prior_of w slug = Some prior \<longrightarrow> TIY_Slug x \<in> BT_Slug ` set (B_Tools prior) \<longrightarrow>
                (\<exists>t \<in> set (B_Tools prior). BT_Slug t = TIY_Slug x \<and> BT_ID t = TIY_ID x))
           \<and> ((\<forall>i. \<not> named w slug (TIY_Slug x) i) \<longrightarrow> (\<forall>s tool. \<not> named w s tool (TIY_ID x)))))"
proof -
  have inv: "ids_inv w" unfolding w by (rule publish_all_ids [OF start_ids])
  have "map TIY_Slug (PR_Tools result) = map BT_Slug (B_Tools b)
      \<and> (\<forall>x \<in> set (PR_Tools result). tool_identity_ok w slug x)"
    if run: "Publish (rs_F lib c) slug b w = (Inr result, w')" for result w'
    using run
  proof (cases rule: Publish_cases)
    case (stored version tools w1 result')
    have slugs: "map TIY_Slug (PR_Tools result) = map BT_Slug (B_Tools b)"
      using rs_mint_ids [OF stored(7)] stored(1,12) by (simp add: toolIdentities_def comp_def)
    have "tool_identity_ok w slug x" if mem: "x \<in> set (PR_Tools result)" for x
    proof -
      obtain t where t: "t \<in> set tools" "x = \<lparr>TIY_ID = BT_ID t, TIY_Slug = BT_Slug t\<rparr>"
        using mem stored(1,12) by (auto simp: toolIdentities_def)
      have "inherits (prior_of w slug) t \<or> mints (prior_of w slug) (rw_ids w) (rw_ids w1) t"
        using rs_mint_ids [OF stored(7)] t(1) by blast
      then show ?thesis unfolding t(2) by (rule minted_identity_ok [OF inv])
    qed
    with slugs show ?thesis by blast
  qed simp
  then show ?thesis using inv unfolding ids_inv_def tool_identity_ok_def by blast
qed

text \<open>A tool that a version dropped and a later one brings back is a new tool: its id is not the one it had.\<close>

lemma dropped_tool_gets_new_id:
  assumes inv: "ids_inv w" and old: "named w slug tool i"
    and prior: "prior_of w slug = Some prior" "tool \<notin> BT_Slug ` set (B_Tools prior)"
    and run: "Publish (rs_F lib c) slug b w = (Inr result, w')" and x: "x \<in> set (PR_Tools result)" "TIY_Slug x = tool"
  shows "TIY_ID x \<noteq> i"
  using run
proof (cases rule: Publish_cases)
  case (stored version tools w1 result')
  obtain t where t: "t \<in> set tools" "TIY_Slug x = BT_Slug t" "TIY_ID x = BT_ID t"
    using x(1) stored(1,12) by (auto simp: toolIdentities_def)
  have none: "map_of (priorToolIDsFrom (Some prior)) (BT_Slug t) = None"
    using prior(2) x(2) t(2) by (simp add: priorToolIDsFrom_None)
  have "mints (Some prior) (rw_ids w) (rw_ids w1) t"
    using rs_mint_ids [OF stored(7), unfolded prior] t(1) none by (auto simp: inherits_def)
  moreover have "minted ''tool_'' (rw_ids w) i" using inv old unfolding ids_inv_def by blast
  ultimately show ?thesis using t(3) by (auto simp: mints_def minted_def)
qed simp

text \<open>At the ends of the 64-bit range the next version wraps around, below every version there is.\<close>

lemma next_version_wraps:
  "autoNextVersion \<lparr>sv_major = 0, sv_minor = 0, sv_patch = 2 ^ 63 - 1\<rparr>
     \<lparr>bd_addedTools = [], bd_removedTools = [], bd_addedTriggers = [], bd_removedTriggers = []\<rparr>
   = \<lparr>sv_major = 0, sv_minor = 0, sv_patch = - (2 ^ 63)\<rparr>"
  by (simp add: autoNextVersion_def hasRemovals_def hasAdditions_def wrap64_def)

section \<open>A concrete history\<close>

definition rs_demo_tool :: BundleTool where
  "rs_demo_tool = zero_tool\<lparr>BT_Slug := ''send'', BT_InputSchema := [(''type'', AStr ''object'')],
     BT_OutputSchema := [(''type'', AStr ''object'')], BT_Sample := [(''ok'', ABool True)]\<rparr>"

definition rs_demo_bundle :: Bundle where
  "rs_demo_bundle = zero_bundle\<lparr>B_FormatVersion := 1, B_Tools := [rs_demo_tool]\<rparr>"

definition rs_demo_lib :: schema_lib where
  "rs_demo_lib doc v = None"

lemmas rs_demo_defs = rs_demo_tool_def rs_demo_bundle_def rs_demo_lib_def zero_tool_def zero_bundle_def

lemma rs_demo_modest: "modest N rs_demo_bundle"
proof -
  have "parseSemver [] = Inl (''must be a major.minor.patch version, got '' @ quoted [])" by (simp add: parseSemver_def split_dots_def)
  then show ?thesis by (simp add: modest_def rs_demo_bundle_def zero_bundle_def)
qed

lemma rs_demo_first:
  "\<exists>result w. Publish (rs_F rs_demo_lib sample_crypto) ''crm'' rs_demo_bundle (rs_start 0) = (Inr result, w) \<and> PR_Version result = ''1.0.0''
     \<and> PR_Tools result = [\<lparr>TIY_ID = sequential_id ''tool_'' 0, TIY_Slug = ''send''\<rparr>]"
proof -
  have start: "prior_of (rs_start 0) ''crm'' = None" by (simp add: prior_of_def latest_def rs_start_def bs_NewStore_def)
  have samples: "validateOutputSchemasAgainstSamples rs_demo_lib (B_Tools rs_demo_bundle) = None"
    by (simp add: rs_demo_defs validateToolOutputSchemaAgainstSample_def schema_Validate_def)
  have z: "zoom rw_ids rw_ids_update (\<lambda>n. (sequential_id ''tool_'' n, Suc n)) (rs_start 0)
      = (sequential_id ''tool_'' 0, (rs_start 0)\<lparr>rw_ids := 1\<rparr>)" by (simp add: zoom_apply rs_start_def)
  obtain w2 where s: "st_Save (rs_store (rs_F rs_demo_lib sample_crypto)) ''crm''
      \<lparr>SB_Bundle = finalized sample_crypto ''crm'' ''1.0.0'' [rs_demo_tool\<lparr>BT_ID := sequential_id ''tool_'' 0\<rparr>] rs_demo_bundle,
       SB_PublishedAt = rw_now ((rs_start 0)\<lparr>rw_ids := 1\<rparr>)\<rparr> ((rs_start 0)\<lparr>rw_ids := 1\<rparr>) = (Inr (), w2)"
    using publish_run by blast
  have tools: "B_Tools rs_demo_bundle = [rs_demo_tool]" "B_FormatVersion rs_demo_bundle = 1" "B_Version rs_demo_bundle = []"
    "BT_Slug rs_demo_tool = ''send''" by (simp_all add: rs_demo_defs)
  show ?thesis
    using s samples unfolding finalized_def Let_def
    by (simp add: Publish_def attempt_apply call_apply start tools rs_supportedFormatVersion_def resolveVersion_def resolveFirstVersion_def
        priorToolIDsFrom_def z Let_def toolIdentities_def)
qed

lemma published_versions_immutable_witness:
  "\<exists>b. fst (Pull (rs_F rs_demo_lib sample_crypto) ''crm'' ''1.0.0''
       (publish_all rs_demo_lib sample_crypto [(''crm'', rs_demo_bundle), (''crm'', rs_demo_bundle)] (rs_start 0))) = Inr b"
proof -
  let ?F = "rs_F rs_demo_lib sample_crypto" and ?ps = "[(''crm'', rs_demo_bundle)]"
  let ?w = "publish_all rs_demo_lib sample_crypto ?ps (rs_start 0)"
  obtain result w where run: "Publish ?F ''crm'' rs_demo_bundle (rs_start 0) = (Inr result, w)" "PR_Version result = ''1.0.0''"
    using rs_demo_first by blast
  then have w: "?w = w" by simp
  from run(1) obtain sb where "published w ''crm'' ''1.0.0'' = Some sb"
    by (cases rule: Publish_cases) (use run(2) in auto)
  then have pulled: "Pull ?F ''crm'' ''1.0.0'' ?w = (Inr (SB_Bundle sb), ?w)" unfolding w by (simp add: Pull_run)
  have "fst (Pull ?F ''crm'' ''1.0.0'' (publish_all rs_demo_lib sample_crypto ?ps ?w)) = Inr (SB_Bundle sb)"
    using published_versions_immutable [of ?ps ?ps rs_demo_bundle ?w rs_demo_lib sample_crypto 0 "''crm''" "''1.0.0''" "SB_Bundle sb"]
      rs_demo_modest pulled by simp
  then show ?thesis by auto
qed

lemma tool_id_names_one_tool_witness:
  "\<exists>w. w = publish_all rs_demo_lib sample_crypto [(''crm'', rs_demo_bundle)] (rs_start 0)
     \<and> (\<exists>i. named w ''crm'' ''send'' i \<and> (\<forall>slug tool. named w slug tool i \<longrightarrow> slug = ''crm'' \<and> tool = ''send''))"
proof -
  let ?w = "publish_all rs_demo_lib sample_crypto [(''crm'', rs_demo_bundle)] (rs_start 0)"
  obtain result w where run: "Publish (rs_F rs_demo_lib sample_crypto) ''crm'' rs_demo_bundle (rs_start 0) = (Inr result, w)"
      "PR_Tools result = [\<lparr>TIY_ID = sequential_id ''tool_'' 0, TIY_Slug = ''send''\<rparr>]" using rs_demo_first by blast
  from run(1) have "named w ''crm'' ''send'' (sequential_id ''tool_'' 0)"
  proof (cases rule: Publish_cases)
    case (stored version tools w1 result')
    then have "toolIdentities tools = [\<lparr>TIY_ID = sequential_id ''tool_'' 0, TIY_Slug = ''send''\<rparr>]" using run(2) by simp
    then obtain t where "t \<in> set tools" "BT_Slug t = ''send''" "BT_ID t = sequential_id ''tool_'' 0"
      by (auto simp: toolIdentities_def)
    then have t: "t \<in> set tools" "BT_Slug t = ''send'' \<and> BT_ID t = sequential_id ''tool_'' 0" by simp_all
    let ?sb = "\<lparr>SB_Bundle = finalized sample_crypto ''crm'' version tools rs_demo_bundle, SB_PublishedAt = rw_now (rs_start 0)\<rparr>"
    have "published w ''crm'' version = Some ?sb" using stored(10) by simp
    moreover have "t \<in> set (B_Tools (SB_Bundle ?sb))" using t(1) by simp
    ultimately show ?thesis unfolding named_def using t(2) by blast
  qed simp
  then have "named ?w ''crm'' ''send'' (sequential_id ''tool_'' 0)" using run(1) by simp
  moreover have "\<forall>slug tool slug' tool' i. named ?w slug tool i \<longrightarrow> named ?w slug' tool' i \<longrightarrow> slug = slug' \<and> tool = tool'"
    using tool_id_names_one_tool [of ?w rs_demo_lib sample_crypto "[(''crm'', rs_demo_bundle)]" 0] by blast
  ultimately show ?thesis by blast
qed

end
