(* ===== verification/AuthMiddleware.thy ===== *)
theory AuthMiddleware
  imports HttpRender Organizations AccessKeys AccessOperators GoURL
begin

text \<open>
  The authentication middleware (\<open>internal/access/driving/authmw\<close>) and the request context it fills
  (\<open>access/context.go\<close>, \<open>organizations/context.go\<close>). A middleware answers the request itself or hands it on with
  a context; what it does is \<open>Inl\<close> of its answer or \<open>Inr\<close> of the context for the next handler. The comparisons in
  constant time are equality of byte strings; their timing is not modelled.
\<close>

section \<open>The context\<close>

record http_context =
  ctx_Org :: "OrgID option"
  ctx_User :: "UserID option"
  ctx_Scope :: "Scope option"
  ctx_Operator :: "string option"
  ctx_OperatorSession :: "string option"

definition Background :: http_context where
  "Background = \<lparr>ctx_Org = None, ctx_User = None, ctx_Scope = None, ctx_Operator = None, ctx_OperatorSession = None\<rparr>"

definition WithOrgID :: "http_context \<Rightarrow> OrgID \<Rightarrow> http_context" where
  "WithOrgID ctx org = ctx\<lparr>ctx_Org := Some org\<rparr>"

definition OrgIDFromContext :: "http_context \<Rightarrow> OrgID option" where
  "OrgIDFromContext ctx = ctx_Org ctx"

definition WithUserID :: "http_context \<Rightarrow> UserID \<Rightarrow> http_context" where
  "WithUserID ctx user = ctx\<lparr>ctx_User := Some user\<rparr>"

definition UserIDFromContext :: "http_context \<Rightarrow> UserID option" where
  "UserIDFromContext ctx = ctx_User ctx"

definition WithScope :: "http_context \<Rightarrow> Scope \<Rightarrow> http_context" where
  "WithScope ctx scope = ctx\<lparr>ctx_Scope := Some scope\<rparr>"

definition ScopeFromContext :: "http_context \<Rightarrow> Scope option" where
  "ScopeFromContext ctx = ctx_Scope ctx"

definition WithOperator :: "http_context \<Rightarrow> string \<Rightarrow> http_context" where
  "WithOperator ctx i = ctx\<lparr>ctx_Operator := Some i\<rparr>"

definition OperatorFromContext :: "http_context \<Rightarrow> string option" where
  "OperatorFromContext ctx = ctx_Operator ctx"

definition WithOperatorSession :: "http_context \<Rightarrow> string \<Rightarrow> http_context" where
  "WithOperatorSession ctx i = ctx\<lparr>ctx_OperatorSession := Some i\<rparr>"

definition OperatorSessionFromContext :: "http_context \<Rightarrow> string option" where
  "OperatorSessionFromContext ctx = ctx_OperatorSession ctx"

lemmas context_defs = WithOrgID_def WithUserID_def WithScope_def WithOperator_def WithOperatorSession_def
  OrgIDFromContext_def UserIDFromContext_def ScopeFromContext_def OperatorFromContext_def OperatorSessionFromContext_def

type_synonym 's middleware = "http_context \<Rightarrow> http_request \<Rightarrow> 's \<Rightarrow> (http_response + http_context) \<times> 's"

definition reject :: "domain_error \<Rightarrow> 's \<Rightarrow> (http_response + http_context) \<times> 's" where
  "reject err s = (Inl (WriteDomainError (Some err)), s)"

definition pass :: "http_context \<Rightarrow> 's \<Rightarrow> (http_response + http_context) \<times> 's" where
  "pass ctx s = (Inr ctx, s)"

definition httpx_Forbidden :: "string \<Rightarrow> domain_error" where
  "httpx_Forbidden message = httpx_New 403 ''forbidden'' message"

definition ErrCSRF :: domain_error where
  "ErrCSRF = httpx_New 403 ''csrf_failed'' ''csrf token invalid or missing''"

section \<open>Errors (autherror.go)\<close>

fun writeAuthError :: "go_error \<Rightarrow> http_response" where
  "writeAuthError (DomainError e) = WriteDomainError (Some e)"
| "writeAuthError (OtherError _) = WriteDomainError None"

fun isInfrastructureFailure :: "go_error \<Rightarrow> bool" where
  "isInfrastructureFailure (DomainError _) = False"
| "isInfrastructureFailure (OtherError _) = True"

section \<open>The installation admin key (admin.go)\<close>

definition bearerPrefix :: string where
  "bearerPrefix = ''Bearer ''"

definition isValidAdminKey :: "string \<Rightarrow> string \<Rightarrow> bool" where
  "isValidAdminKey authorizationHeader adminKey =
     (let presented = TrimPrefix authorizationHeader bearerPrefix in
      if \<not> HasPrefix authorizationHeader bearerPrefix \<or> presented = [] then False
      else presented = adminKey)"

definition AdminAuth :: "string \<Rightarrow> 's middleware" where
  "AdminAuth adminKey ctx r s =
     (if \<not> isValidAdminKey (Header_Get r ''Authorization'') adminKey
      then reject (httpx_Unauthorized ''missing or invalid admin key'') s
      else pass ctx s)"

definition InjectOrgFromPath :: "'s middleware" where
  "InjectOrgFromPath ctx r s = pass (WithOrgID ctx (URLParam r ''orgId'')) s"

definition RequireWrite :: "'s middleware" where
  "RequireWrite ctx r s =
     (if (case ScopeFromContext ctx of None \<Rightarrow> False | Some scope \<Rightarrow> scope = ScopeReadOnly)
      then reject (httpx_Forbidden ''a read-only api key cannot perform this action'') s
      else pass ctx s)"

section \<open>Operator sessions (console_auth.go, session_cookie.go, attribute.go)\<close>

definition SessionCookieName :: string where
  "SessionCookieName = ''beecon_session''"

definition CSRFCookieName :: string where
  "CSRFCookieName = ''beecon_csrf''"

definition SessionTokenFromRequest :: "http_request \<Rightarrow> string option" where
  "SessionTokenFromRequest r =
     (case map_of (hq_Cookies r) SessionCookieName of
        None \<Rightarrow> None
      | Some v \<Rightarrow> if v = [] then None else Some v)"

definition isMutatingMethod :: "string \<Rightarrow> bool" where
  "isMutatingMethod m = (m = ''POST'' \<or> m = ''PUT'' \<or> m = ''PATCH'' \<or> m = ''DELETE'')"

definition csrfTokenMatches :: "string \<Rightarrow> string \<Rightarrow> bool" where
  "csrfTokenMatches presented expected = (if presented = [] \<or> expected = [] then False else presented = expected)"

text \<open>The session branch, which the three console middlewares share.\<close>

definition session_branch :: "(string \<Rightarrow> ('s, AuthenticatedOperator) act) \<Rightarrow> string \<Rightarrow> 's middleware" where
  "session_branch verify token ctx r s =
     (case verify token s of
        (Inl err, s') \<Rightarrow> (Inl (writeAuthError err), s')
      | (Inr operator, s') \<Rightarrow>
          if isMutatingMethod (hq_Method r) \<and> \<not> csrfTokenMatches (Header_Get r ''X-Csrf-Token'') (Auth_CSRFToken operator)
          then reject ErrCSRF s'
          else pass (WithOperatorSession (WithOperator ctx (Auth_OperatorID operator)) (Auth_SessionID operator)) s')"

definition ConsoleAuth :: "(string \<Rightarrow> ('s, AuthenticatedOperator) act) \<Rightarrow> string \<Rightarrow> ('s, bool) act \<Rightarrow> 's middleware" where
  "ConsoleAuth verify adminKey operatorsExist ctx r s =
     (case SessionTokenFromRequest r of
        Some token \<Rightarrow> session_branch verify token ctx r s
      | None \<Rightarrow>
          if isValidAdminKey (Header_Get r ''Authorization'') adminKey then
            (case operatorsExist s of
               (Inl _, s') \<Rightarrow> (Inl (WriteDomainError None), s')
             | (Inr exists, s') \<Rightarrow>
                 if exists then
                   reject (httpx_Unauthorized ''the installation admin key no longer authenticates the console once an operator account exists'') s'
                 else pass ctx s')
          else reject (httpx_Unauthorized ''missing or invalid session'') s)"

definition AdminOrConsoleAuth :: "(string \<Rightarrow> ('s, AuthenticatedOperator) act) \<Rightarrow> string \<Rightarrow> 's middleware" where
  "AdminOrConsoleAuth verify adminKey ctx r s =
     (case SessionTokenFromRequest r of
        Some token \<Rightarrow> session_branch verify token ctx r s
      | None \<Rightarrow>
          if isValidAdminKey (Header_Get r ''Authorization'') adminKey then pass ctx s
          else reject (httpx_Unauthorized ''missing or invalid session or admin key'') s)"

definition OperatorSessionAuth :: "(string \<Rightarrow> ('s, AuthenticatedOperator) act) \<Rightarrow> 's middleware" where
  "OperatorSessionAuth verify ctx r s =
     (case SessionTokenFromRequest r of
        None \<Rightarrow> reject (httpx_Unauthorized ''missing session'') s
      | Some token \<Rightarrow> session_branch verify token ctx r s)"

text \<open>The log line about the operator is left out: the request goes on as it is.\<close>

definition AttributeOperator :: "'s middleware" where
  "AttributeOperator ctx r s = pass ctx s"

record http_cookie =
  ck_Name :: string
  ck_Value :: string
  ck_Path :: string
  ck_Expires :: "time option"
  ck_MaxAge :: int
  ck_HttpOnly :: bool
  ck_Secure :: bool
  ck_SameSiteStrict :: bool

definition SetSessionCookies :: "string \<Rightarrow> string \<Rightarrow> time \<Rightarrow> bool \<Rightarrow> http_cookie list" where
  "SetSessionCookies token csrfToken expiresAt secure =
     [\<lparr>ck_Name = SessionCookieName, ck_Value = token, ck_Path = ''/'', ck_Expires = Some expiresAt, ck_MaxAge = 0,
        ck_HttpOnly = True, ck_Secure = secure, ck_SameSiteStrict = True\<rparr>,
      \<lparr>ck_Name = CSRFCookieName, ck_Value = csrfToken, ck_Path = ''/'', ck_Expires = Some expiresAt, ck_MaxAge = 0,
        ck_HttpOnly = False, ck_Secure = secure, ck_SameSiteStrict = True\<rparr>]"

definition ClearSessionCookies :: "bool \<Rightarrow> http_cookie list" where
  "ClearSessionCookies secure =
     [\<lparr>ck_Name = SessionCookieName, ck_Value = [], ck_Path = ''/'', ck_Expires = None, ck_MaxAge = -1,
        ck_HttpOnly = True, ck_Secure = secure, ck_SameSiteStrict = True\<rparr>,
      \<lparr>ck_Name = CSRFCookieName, ck_Value = [], ck_Path = ''/'', ck_Expires = None, ck_MaxAge = -1,
        ck_HttpOnly = False, ck_Secure = secure, ck_SameSiteStrict = True\<rparr>]"

section \<open>Organization keys (org.go) and user tokens (user.go)\<close>

definition bearerToken :: "string \<Rightarrow> string option" where
  "bearerToken authorizationHeader =
     (let presented = TrimPrefix authorizationHeader bearerPrefix in
      if \<not> HasPrefix authorizationHeader bearerPrefix \<or> presented = [] then None else Some presented)"

definition OrgAuth :: "(string \<Rightarrow> ('s, VerifiedKey) act) \<Rightarrow> 's middleware" where
  "OrgAuth verify ctx r s =
     (case bearerToken (Header_Get r ''Authorization'') of
        None \<Rightarrow> reject (httpx_Unauthorized ''missing or malformed api key'') s
      | Some secret \<Rightarrow>
          (case verify secret s of
             (Inl err, s') \<Rightarrow> (Inl (writeAuthError err), s')
           | (Inr verified, s') \<Rightarrow> pass (WithScope (WithOrgID ctx (VK_OrgID verified)) (VK_Scope verified)) s'))"

definition UserAuth :: "(string \<Rightarrow> ('s, OrgID \<times> UserID) act) \<Rightarrow> 's middleware" where
  "UserAuth verify ctx r s =
     (case bearerToken (Header_Get r ''Authorization'') of
        None \<Rightarrow> reject (httpx_Unauthorized ''missing or malformed user token'') s
      | Some token \<Rightarrow>
          (case verify token s of
             (Inl err, s') \<Rightarrow> (Inl (writeAuthError err), s')
           | (Inr (org, userID), s') \<Rightarrow> pass (WithUserID (WithOrgID ctx org) userID) s'))"

definition OrgOrUser :: "(string \<Rightarrow> ('s, VerifiedKey) act) \<Rightarrow> (string \<Rightarrow> ('s, OrgID \<times> UserID) act) \<Rightarrow> 's middleware" where
  "OrgOrUser verifyOrg verifyUser ctx r s =
     (case bearerToken (Header_Get r ''Authorization'') of
        None \<Rightarrow> reject (httpx_Unauthorized ''missing or malformed authorization header'') s
      | Some token \<Rightarrow>
          (case verifyOrg token s of
             (Inr verified, s1) \<Rightarrow> pass (WithScope (WithOrgID ctx (VK_OrgID verified)) (VK_Scope verified)) s1
           | (Inl orgErr, s1) \<Rightarrow>
               (case verifyUser token s1 of
                  (Inr (userOrg, userID), s2) \<Rightarrow> pass (WithUserID (WithOrgID ctx userOrg) userID) s2
                | (Inl userErr, s2) \<Rightarrow>
                    if isInfrastructureFailure orgErr \<or> isInfrastructureFailure userErr then (Inl (WriteDomainError None), s2)
                    else reject (httpx_Unauthorized ''invalid or expired credential'') s2)))"

section \<open>Same origin (same_origin.go)\<close>

definition originOf :: "string \<Rightarrow> string" where
  "originOf baseURL =
     (case url_Parse baseURL of
        None \<Rightarrow> []
      | Some parsed \<Rightarrow>
          if url_Scheme parsed = [] \<or> url_Host parsed = [] then []
          else url_Scheme parsed @ ''://'' @ url_Host parsed)"

text \<open>\<open>strings.EqualFold\<close> on the ASCII text an origin is.\<close>

definition isSameOriginRequest :: "http_request \<Rightarrow> string \<Rightarrow> bool" where
  "isSameOriginRequest r expectedOrigin =
     (let site = Header_Get r ''Sec-Fetch-Site'' in
      if site \<noteq> [] then site \<noteq> ''cross-site''
      else (let origin = Header_Get r ''Origin'' in
            if origin = [] then True
            else expectedOrigin \<noteq> [] \<and> ascii_lower origin = ascii_lower expectedOrigin))"

definition SameOriginOnly :: "string \<Rightarrow> 's middleware" where
  "SameOriginOnly baseURL ctx r s =
     (if \<not> isSameOriginRequest r (originOf baseURL) then reject (httpx_Forbidden ''cross-site request rejected'') s
      else pass ctx s)"

end
