(* ===== verification/Router.thy ===== *)
theory Router
  imports AuthMiddleware
begin

text \<open>
  The routes of the server (\<open>internal/app/router.go\<close>): every endpoint with the middleware in front of it. The
  middleware that guards nothing (request ids, panic recovery, the request log) is left out; matching a request to a
  route is \<open>chi\<close>'s.
\<close>

datatype guard = GAdminAuth | GConsoleAuth | GAdminOrConsole | GOperatorSession | GAttribute | GInjectOrg
  | GOrgAuth | GOrgOrUser | GRequireWrite | GSameOrigin

record route =
  rt_Method :: string
  rt_Pattern :: string
  rt_Guards :: "guard list"
  rt_Handler :: string

text \<open>\<open>r.With(gs...).Get(pattern, h)\<close> and its like; \<open>r.Route(prefix, ...)\<close> with the middleware of its \<open>r.Use\<close>.\<close>

definition http_route :: "string \<Rightarrow> guard list \<Rightarrow> string \<Rightarrow> string \<Rightarrow> route" where
  "http_route m gs pattern h = \<lparr>rt_Method = m, rt_Pattern = pattern, rt_Guards = gs, rt_Handler = h\<rparr>"

definition subrouter :: "string \<Rightarrow> guard list \<Rightarrow> route list \<Rightarrow> route list" where
  "subrouter prefix gs rts = map (\<lambda>rt. rt\<lparr>rt_Pattern := prefix @ rt_Pattern rt, rt_Guards := gs @ rt_Guards rt\<rparr>) rts"

section \<open>Public routes\<close>

definition public_routes :: "route list" where
  "public_routes =
     [http_route ''GET'' [] ''/connect/{token}'' ''connectWeb.ConnectPage'',
      http_route ''POST'' [] ''/connect/{token}/params'' ''connectWeb.SubmitParams'',
      http_route ''GET'' [] ''/connect/oauth/callback'' ''connectWeb.Callback'',
      http_route ''GET'' [] ''/connect/style.css'' ''connectWeb.Stylesheet'',
      http_route ''*'' [] ''/admin/*'' ''adminUI'',
      http_route ''POST'' [GSameOrigin] ''/api/v1/auth/login'' ''operator.Login'',
      http_route ''GET'' [] ''/health'' ''health'',
      http_route ''GET'' [GAdminAuth] ''/metrics'' ''metrics'']"

section \<open>Operators\<close>

definition operator_routes :: "route list" where
  "operator_routes =
     subrouter ''/operators'' []
       [http_route ''POST'' [GAdminAuth] ''/bootstrap'' ''operator.Bootstrap'',
        http_route ''GET'' [GOperatorSession] ''/'' ''operator.ListOperators'',
        http_route ''POST'' [GOperatorSession, GAttribute] ''/'' ''operator.CreateOperator'',
        http_route ''POST'' [GOperatorSession, GAttribute] ''/me/password'' ''operator.ChangeMyPassword'',
        http_route ''POST'' [GOperatorSession, GAttribute] ''/{opId}/deactivate'' ''operator.Deactivate'',
        http_route ''POST'' [GAdminAuth] ''/{opId}/reset-password'' ''operator.ResetPassword'']
     @ [http_route ''GET'' [GOperatorSession] ''/auth/me'' ''operator.Me'',
        http_route ''POST'' [GOperatorSession] ''/auth/logout'' ''operator.Logout'',
        http_route ''GET'' [GConsoleAuth] ''/dashboard/metrics'' ''dashboardMetrics'']"

section \<open>The console's view of an organization\<close>

definition console_org_routes :: "route list" where
  "console_org_routes =
     subrouter '''' [GConsoleAuth, GAttribute, GInjectOrg]
       (subrouter ''/connections'' []
          [http_route ''GET'' [] ''/'' ''connections.List'',
           http_route ''GET'' [] ''/{connectionId}'' ''connections.Get'',
           http_route ''POST'' [] ''/{connectionId}/disable'' ''connections.Disable'',
           http_route ''DELETE'' [] ''/{connectionId}'' ''connections.Delete'',
           http_route ''POST'' [] ''/{connectionId}/reconnect'' ''connections.Reconnect'']
        @ subrouter ''/trigger-instances'' []
          [http_route ''GET'' [] ''/'' ''triggers.List'',
           http_route ''GET'' [] ''/{trgId}'' ''triggers.Get'',
           http_route ''POST'' [] ''/{trgId}/disable'' ''triggers.Disable'',
           http_route ''POST'' [] ''/{trgId}/enable'' ''triggers.Enable'',
           http_route ''DELETE'' [] ''/{trgId}'' ''triggers.Delete'']
        @ subrouter ''/logs'' [] [http_route ''GET'' [] ''/'' ''logging.List'']
        @ subrouter ''/events'' []
          [http_route ''GET'' [] ''/'' ''delivery.ListEvents'',
           http_route ''POST'' [] ''/{evtId}/redeliver'' ''delivery.Redeliver'']
        @ subrouter ''/users'' []
          [http_route ''GET'' [] ''/'' ''organizations.ListUsersByOrg'',
           http_route ''POST'' [] ''/'' ''organizations.CreateUser'']
        @ subrouter ''/governance'' []
          [http_route ''GET'' [] ''/'' ''organizations.GetGovernance'',
           http_route ''PUT'' [] ''/'' ''organizations.UpdateGovernance'',
           http_route ''GET'' [] ''/catalog'' ''catalog.ListWithVisibility'']
        @ subrouter ''/retention'' []
          [http_route ''GET'' [] ''/'' ''organizations.GetRetention'',
           http_route ''PUT'' [] ''/'' ''organizations.UpdateRetention'']
        @ subrouter ''/webhook-endpoints'' []
          [http_route ''GET'' [] ''/'' ''delivery.ListEndpoints'',
           http_route ''POST'' [] ''/'' ''delivery.CreateEndpoint'',
           http_route ''PUT'' [] ''/{wepId}'' ''delivery.UpdateEndpoint'',
           http_route ''DELETE'' [] ''/{wepId}'' ''delivery.DeleteEndpoint'',
           http_route ''POST'' [] ''/{wepId}/rotate-secret'' ''delivery.RotateEndpointSecret'',
           http_route ''POST'' [] ''/{wepId}/enable'' ''delivery.EnableEndpoint'',
           http_route ''POST'' [] ''/{wepId}/disable'' ''delivery.DisableEndpoint'']
        @ subrouter ''/config'' []
          [http_route ''GET'' [] ''/export'' ''organizations.ExportConfig'',
           http_route ''POST'' [] ''/import'' ''organizations.ImportConfig''])"

definition organization_routes :: "route list" where
  "organization_routes =
     subrouter ''/organizations'' []
       ([http_route ''POST'' [GAdminOrConsole, GAttribute] ''/'' ''organizations.Create'',
         http_route ''GET'' [GConsoleAuth, GAttribute] ''/'' ''organizations.List'']
        @ subrouter ''/{orgId}'' []
          ([http_route ''GET'' [GConsoleAuth, GAttribute] ''/'' ''organizations.Get'',
            http_route ''PATCH'' [GAdminOrConsole, GAttribute] ''/'' ''organizations.UpdateAllowedRedirectURIs'',
            http_route ''POST'' [GAdminOrConsole, GAttribute] ''/api-keys'' ''access.Issue'',
            http_route ''GET'' [GConsoleAuth, GAttribute] ''/api-keys'' ''access.List'',
            http_route ''DELETE'' [GConsoleAuth, GAttribute] ''/api-keys/{keyId}'' ''access.Revoke'',
            http_route ''POST'' [GConsoleAuth, GAttribute] ''/api-keys/{keyId}/rotate'' ''access.Rotate'',
            http_route ''POST'' [GConsoleAuth, GAttribute] ''/signing-secrets'' ''access.IssueSigningSecret'',
            http_route ''GET'' [GConsoleAuth, GAttribute] ''/signing-secrets'' ''access.ListSigningSecrets'']
           @ console_org_routes))"

section \<open>The catalog's administration\<close>

definition admin_catalog_routes :: "route list" where
  "admin_catalog_routes =
     subrouter ''/integrations'' []
       [http_route ''POST'' [GAdminOrConsole, GAttribute] ''/'' ''catalog.Create'',
        http_route ''GET'' [GOrgOrUser] ''/'' ''catalog.List'',
        http_route ''GET'' [GOrgOrUser] ''/{intgId}/expected-params'' ''catalog.GetExpectedParams'']
     @ subrouter ''/provider-definitions'' [GConsoleAuth]
       [http_route ''GET'' [] ''/'' ''catalog.ListProviderDefinitions'',
        http_route ''GET'' [] ''/{slug}'' ''catalog.GetProviderDefinition'',
        http_route ''GET'' [] ''/{slug}/integrations'' ''catalog.ListIntegrationsForProvider'']
     @ subrouter ''/registry'' []
       [http_route ''POST'' [GConsoleAuth, GAttribute] ''/providers/{slug}/activate'' ''registry.Activate'',
        http_route ''GET'' [GConsoleAuth] ''/providers/{slug}/versions'' ''registry.ListVersions'',
        http_route ''GET'' [GConsoleAuth] ''/providers/{slug}/diff'' ''registry.Diff'']"

section \<open>The API of an organization\<close>

definition org_api_routes :: "route list" where
  "org_api_routes =
     subrouter ''/users'' [GOrgAuth]
       [http_route ''POST'' [GRequireWrite] ''/'' ''organizations.CreateUser'',
        http_route ''GET'' [] ''/{userId}'' ''organizations.GetUser'']
     @ subrouter ''/connections'' []
       [http_route ''POST'' [GOrgOrUser] ''/initiate'' ''connections.Initiate'',
        http_route ''GET'' [GOrgOrUser] ''/'' ''connections.List'',
        http_route ''GET'' [GOrgOrUser] ''/{connectionId}'' ''connections.Get'',
        http_route ''POST'' [GOrgAuth, GRequireWrite] ''/{connectionId}/disable'' ''connections.Disable'',
        http_route ''DELETE'' [GOrgAuth, GRequireWrite] ''/{connectionId}'' ''connections.Delete'',
        http_route ''POST'' [GOrgOrUser, GRequireWrite] ''/{connectionId}/reconnect'' ''connections.Reconnect'']
     @ subrouter ''/tools'' []
       [http_route ''GET'' [GOrgOrUser] ''/'' ''catalog.ListTools'',
        http_route ''GET'' [GOrgAuth] ''/{slug}'' ''catalog.GetTool'',
        http_route ''POST'' [GOrgAuth, GRequireWrite] ''/{slug}/execute'' ''execution.Execute'']
     @ subrouter ''/trigger-definitions'' []
       [http_route ''GET'' [GOrgOrUser] ''/'' ''catalog.ListTriggerDefinitions'',
        http_route ''GET'' [GOrgAuth] ''/{slug}'' ''catalog.GetTriggerDefinition'']
     @ subrouter ''/trigger-instances'' [GOrgAuth]
       [http_route ''POST'' [GRequireWrite] ''/'' ''triggers.Create'',
        http_route ''GET'' [] ''/'' ''triggers.List'',
        http_route ''GET'' [] ''/{trgId}'' ''triggers.Get'',
        http_route ''POST'' [GRequireWrite] ''/{trgId}/disable'' ''triggers.Disable'',
        http_route ''POST'' [GRequireWrite] ''/{trgId}/enable'' ''triggers.Enable'',
        http_route ''DELETE'' [GRequireWrite] ''/{trgId}'' ''triggers.Delete'']
     @ subrouter ''/files'' [GOrgAuth]
       [http_route ''POST'' [GRequireWrite] ''/'' ''files.Upload'',
        http_route ''GET'' [] ''/{fileId}/download'' ''files.Download'']
     @ subrouter ''/logs'' [GOrgAuth] [http_route ''GET'' [] ''/'' ''logging.List'']"

definition org_webhook_routes :: "route list" where
  "org_webhook_routes =
     subrouter ''/webhook-endpoint'' [GOrgAuth]
       [http_route ''PUT'' [GRequireWrite] ''/'' ''delivery.SetEndpoint'',
        http_route ''GET'' [] ''/'' ''delivery.GetEndpoint'',
        http_route ''POST'' [GRequireWrite] ''/rotate-secret'' ''delivery.RotateSecret'',
        http_route ''POST'' [GRequireWrite] ''/test'' ''delivery.SendTest'']
     @ subrouter ''/webhook-endpoints'' [GOrgAuth]
       [http_route ''GET'' [] ''/'' ''delivery.ListEndpoints'',
        http_route ''POST'' [GRequireWrite] ''/'' ''delivery.CreateEndpoint'',
        http_route ''PUT'' [GRequireWrite] ''/{wepId}'' ''delivery.UpdateEndpoint'',
        http_route ''DELETE'' [GRequireWrite] ''/{wepId}'' ''delivery.DeleteEndpoint'',
        http_route ''POST'' [GRequireWrite] ''/{wepId}/rotate-secret'' ''delivery.RotateEndpointSecret'',
        http_route ''POST'' [GRequireWrite] ''/{wepId}/enable'' ''delivery.EnableEndpoint'',
        http_route ''POST'' [GRequireWrite] ''/{wepId}/disable'' ''delivery.DisableEndpoint'']
     @ subrouter ''/events'' [GOrgAuth]
       [http_route ''GET'' [] ''/'' ''delivery.ListEvents'',
        http_route ''POST'' [GRequireWrite] ''/{evtId}/redeliver'' ''delivery.Redeliver'']"

definition buildRouter :: "route list" where
  "buildRouter =
     public_routes
     @ subrouter ''/api/v1'' []
         (operator_routes @ organization_routes @ admin_catalog_routes @ org_api_routes @ org_webhook_routes)"

text \<open>What the middleware in front of a route does, in the order it is mounted.\<close>

record 's auth_env =
  ae_verifyOrgKey :: "string \<Rightarrow> ('s, VerifiedKey) act"
  ae_verifyUserToken :: "string \<Rightarrow> ('s, string \<times> string) act"
  ae_verifySession :: "string \<Rightarrow> ('s, AuthenticatedOperator) act"
  ae_operatorsExist :: "('s, bool) act"
  ae_adminKey :: string
  ae_baseURL :: string

fun run_guard :: "'s auth_env \<Rightarrow> guard \<Rightarrow> 's middleware" where
  "run_guard e GAdminAuth = AdminAuth (ae_adminKey e)"
| "run_guard e GConsoleAuth = ConsoleAuth (ae_verifySession e) (ae_adminKey e) (ae_operatorsExist e)"
| "run_guard e GAdminOrConsole = AdminOrConsoleAuth (ae_verifySession e) (ae_adminKey e)"
| "run_guard e GOperatorSession = OperatorSessionAuth (ae_verifySession e)"
| "run_guard e GAttribute = AttributeOperator"
| "run_guard e GInjectOrg = InjectOrgFromPath"
| "run_guard e GOrgAuth = OrgAuth (ae_verifyOrgKey e)"
| "run_guard e GOrgOrUser = OrgOrUser (ae_verifyOrgKey e) (ae_verifyUserToken e)"
| "run_guard e GRequireWrite = RequireWrite"
| "run_guard e GSameOrigin = SameOriginOnly (ae_baseURL e)"

fun run_guards :: "'s auth_env \<Rightarrow> guard list \<Rightarrow> 's middleware" where
  "run_guards e [] ctx r s = pass ctx s"
| "run_guards e (g # gs) ctx r s =
     (case run_guard e g ctx r s of
        (Inl response, s') \<Rightarrow> (Inl response, s')
      | (Inr ctx', s') \<Rightarrow> run_guards e gs ctx' r s')"

text \<open>Handlers run after the middleware let the request through.\<close>

definition serve :: "'s auth_env \<Rightarrow> route \<Rightarrow> (http_context \<Rightarrow> 's handler) \<Rightarrow> http_request \<Rightarrow> 's \<Rightarrow> http_response \<times> 's" where
  "serve e rt h r s =
     (case run_guards e (rt_Guards rt) Background r s of
        (Inl response, s') \<Rightarrow> (response, s')
      | (Inr ctx, s') \<Rightarrow> h ctx r s')"

section \<open>Who gets through\<close>

text \<open>The chains in front of the mutating routes.\<close>

definition chain_class :: "guard list \<Rightarrow> bool" where
  "chain_class gs \<longleftrightarrow> gs \<in> set [[GAdminAuth], [GOperatorSession], [GOperatorSession, GAttribute], [GAdminOrConsole, GAttribute],
     [GConsoleAuth, GAttribute], [GConsoleAuth, GAttribute, GInjectOrg], [GOrgAuth, GRequireWrite]]"

definition mutating_ok :: "route \<Rightarrow> bool" where
  "mutating_ok rt \<longleftrightarrow> chain_class (rt_Guards rt)
     \<or> rt_Pattern rt = ''/connect/{token}/params'' \<and> rt_Guards rt = []
     \<or> rt_Pattern rt = ''/api/v1/auth/login'' \<and> rt_Guards rt = [GSameOrigin]
     \<or> rt_Pattern rt = ''/api/v1/connections/initiate'' \<and> rt_Guards rt = [GOrgOrUser]
     \<or> rt_Pattern rt = ''/api/v1/connections/{connectionId}/reconnect'' \<and> rt_Guards rt = [GOrgOrUser, GRequireWrite]"

lemma mutating_routes: "\<forall>rt \<in> set buildRouter. isMutatingMethod (rt_Method rt) \<longrightarrow> mutating_ok rt"
proof -
  have "list_all (\<lambda>rt. \<not> isMutatingMethod (rt_Method rt) \<or> mutating_ok rt) buildRouter" by code_simp
  then show ?thesis by (auto simp: list_all_iff)
qed

end
