(* ===== verification/RouterSafety.thy ===== *)
theory RouterSafety
  imports Router AccessMemory
begin

text \<open>
  Who gets through the middleware: no route that changes something is reached without a credential for it, and what the
  handler learns of the organization is what the credential says.
\<close>

section \<open>One middleware at a time\<close>

definition bearer :: "http_request \<Rightarrow> string \<Rightarrow> bool" where
  "bearer r token \<longleftrightarrow> token \<noteq> [] \<and> Header_Get r ''Authorization'' = ''Bearer '' @ token"

lemma HasPrefix_split: "HasPrefix s p \<longleftrightarrow> s = p @ TrimPrefix s p"
proof
  assume prefix: "HasPrefix s p"
  then have "TrimPrefix s p = drop (length p) s" "take (length p) s = p" by (simp_all add: TrimPrefix_def HasPrefix_def)
  then show "s = p @ TrimPrefix s p" by (metis append_take_drop_id)
next
  assume split: "s = p @ TrimPrefix s p"
  show "HasPrefix s p" unfolding HasPrefix_def by (subst split) simp
qed

lemma TrimPrefix_append: "TrimPrefix (p @ t) p = t"
  by (simp add: TrimPrefix_def HasPrefix_def)

lemma bearer_prefix: "HasPrefix h p \<and> TrimPrefix h p \<noteq> [] \<and> TrimPrefix h p = t \<longleftrightarrow> t \<noteq> [] \<and> h = p @ t"
  by (metis HasPrefix_split TrimPrefix_append)

lemma bearerToken_Some: "bearerToken (Header_Get r ''Authorization'') = Some token \<longleftrightarrow> bearer r token"
  using bearer_prefix [of "Header_Get r ''Authorization''" bearerPrefix token]
  unfolding bearerToken_def bearer_def bearerPrefix_def [symmetric] by (auto simp: Let_def)

lemma isValidAdminKey_bearer: "isValidAdminKey (Header_Get r ''Authorization'') key \<longleftrightarrow> bearer r key"
  using bearer_prefix [of "Header_Get r ''Authorization''" bearerPrefix key]
  unfolding isValidAdminKey_def bearer_def bearerPrefix_def [symmetric] by (auto simp: Let_def)

text \<open>An operator's session, with the token of the session in the header of a request that changes something.\<close>

definition by_operator :: "'s auth_env \<Rightarrow> http_request \<Rightarrow> 's \<Rightarrow> http_context \<Rightarrow> 's \<Rightarrow> bool" where
  "by_operator e r s ctx s' \<longleftrightarrow>
     (\<exists>token op. SessionTokenFromRequest r = Some token \<and> ae_verifySession e token s = (Inr op, s')
        \<and> (isMutatingMethod (hq_Method r) \<longrightarrow> Auth_CSRFToken op \<noteq> [] \<and> Header_Get r ''X-Csrf-Token'' = Auth_CSRFToken op)
        \<and> ctx_Operator ctx = Some (Auth_OperatorID op) \<and> ctx_OperatorSession ctx = Some (Auth_SessionID op) \<and> ctx_Scope ctx = None)"

lemma session_branch_through:
  "SessionTokenFromRequest r = Some token \<Longrightarrow> session_branch (ae_verifySession e) token Background r s = (Inr ctx, s') \<Longrightarrow>
     by_operator e r s ctx s' \<and> ctx_Org ctx = None"
  by (auto simp: session_branch_def reject_def pass_def by_operator_def csrfTokenMatches_def context_defs Background_def
      split: prod.splits sum.splits if_splits)

text \<open>The installation's admin key.\<close>

definition by_admin_key :: "'s auth_env \<Rightarrow> http_request \<Rightarrow> http_context \<Rightarrow> bool" where
  "by_admin_key e r ctx \<longleftrightarrow> bearer r (ae_adminKey e) \<and> ctx_Operator ctx = None \<and> ctx_Scope ctx = None"

lemma admin_key_through:
  "isValidAdminKey (Header_Get r ''Authorization'') (ae_adminKey e) \<Longrightarrow> by_admin_key e r Background \<and> ctx_Org Background = None"
  by (simp add: by_admin_key_def isValidAdminKey_bearer Background_def)

lemma AdminAuth_through:
  "run_guard e GAdminAuth Background r s = (Inr ctx, s') \<Longrightarrow> by_admin_key e r ctx \<and> ctx_Org ctx = None \<and> s' = s"
  using admin_key_through [of r e] by (auto simp: AdminAuth_def reject_def pass_def split: if_splits)

lemma OperatorSession_through:
  assumes "run_guard e GOperatorSession Background r s = (Inr ctx, s')"
  shows "by_operator e r s ctx s' \<and> ctx_Org ctx = None"
proof (cases "SessionTokenFromRequest r")
  case None
  then show ?thesis using assms by (simp add: OperatorSessionAuth_def reject_def)
next
  case (Some token)
  then show ?thesis using assms session_branch_through [OF Some, of e s ctx s'] by (simp add: OperatorSessionAuth_def)
qed

lemma AdminOrConsole_through:
  assumes "run_guard e GAdminOrConsole Background r s = (Inr ctx, s')"
  shows "(by_operator e r s ctx s' \<or> by_admin_key e r ctx) \<and> ctx_Org ctx = None"
proof (cases "SessionTokenFromRequest r")
  case None
  then show ?thesis using assms admin_key_through [of r e]
    by (auto simp: AdminOrConsoleAuth_def reject_def pass_def split: if_splits)
next
  case (Some token)
  then show ?thesis using assms session_branch_through [OF Some, of e s ctx s'] by (simp add: AdminOrConsoleAuth_def)
qed

lemma ConsoleAuth_through:
  assumes "run_guard e GConsoleAuth Background r s = (Inr ctx, s')"
  shows "(by_operator e r s ctx s' \<or> by_admin_key e r ctx \<and> ae_operatorsExist e s = (Inr False, s')) \<and> ctx_Org ctx = None"
proof (cases "SessionTokenFromRequest r")
  case None
  then show ?thesis using assms admin_key_through [of r e]
    by (auto simp: ConsoleAuth_def reject_def pass_def split: if_splits prod.splits sum.splits)
next
  case (Some token)
  then show ?thesis using assms session_branch_through [OF Some, of e s ctx s'] by (simp add: ConsoleAuth_def)
qed

text \<open>An organization's API key, and a user's token.\<close>

definition by_org_key :: "'s auth_env \<Rightarrow> http_request \<Rightarrow> 's \<Rightarrow> http_context \<Rightarrow> 's \<Rightarrow> bool" where
  "by_org_key e r s ctx s' \<longleftrightarrow>
     (\<exists>secret vk. bearer r secret \<and> ae_verifyOrgKey e secret s = (Inr vk, s')
        \<and> ctx = WithScope (WithOrgID Background (VK_OrgID vk)) (VK_Scope vk))"

definition by_user_token :: "'s auth_env \<Rightarrow> http_request \<Rightarrow> 's \<Rightarrow> http_context \<Rightarrow> 's \<Rightarrow> bool" where
  "by_user_token e r s ctx s' \<longleftrightarrow>
     (\<exists>token err s1 org user. bearer r token \<and> ae_verifyOrgKey e token s = (Inl err, s1) \<and> ae_verifyUserToken e token s1 = (Inr (org, user), s')
        \<and> ctx = WithUserID (WithOrgID Background org) user)"

lemma OrgAuth_through: "run_guard e GOrgAuth Background r s = (Inr ctx, s') \<Longrightarrow> by_org_key e r s ctx s'"
  by (auto simp: OrgAuth_def by_org_key_def bearerToken_Some reject_def pass_def split: option.splits prod.splits sum.splits)

lemma OrgOrUser_through:
  "run_guard e GOrgOrUser Background r s = (Inr ctx, s') \<Longrightarrow> by_org_key e r s ctx s' \<or> by_user_token e r s ctx s'"
  by (auto simp: OrgOrUser_def by_org_key_def by_user_token_def bearerToken_Some reject_def pass_def
      split: option.splits prod.splits sum.splits if_splits)

lemma RequireWrite_through:
  "run_guard e GRequireWrite ctx r s = (Inr ctx', s') \<Longrightarrow> ctx' = ctx \<and> s' = s \<and> ctx_Scope ctx \<noteq> Some ScopeReadOnly"
  by (auto simp: RequireWrite_def reject_def pass_def context_defs split: if_splits option.splits)

lemma through_first:
  "run_guards e (g # gs) ctx r s = (Inr ctx', s') \<longleftrightarrow>
     (\<exists>ctx1 s1. run_guard e g ctx r s = (Inr ctx1, s1) \<and> run_guards e gs ctx1 r s1 = (Inr ctx', s'))"
  by (auto split: prod.splits sum.splits)

lemma through_end [simp]: "run_guards e [] ctx r s = (Inr ctx', s') \<longleftrightarrow> ctx' = ctx \<and> s' = s"
  by (auto simp: pass_def)

lemma through_attribute [simp]:
  "run_guard e GAttribute ctx r s = (Inr ctx', s') \<longleftrightarrow> ctx' = ctx \<and> s' = s"
  by (auto simp: AttributeOperator_def pass_def)

lemma through_inject [simp]:
  "run_guard e GInjectOrg ctx r s = (Inr ctx', s') \<longleftrightarrow> ctx' = WithOrgID ctx (URLParam r ''orgId'') \<and> s' = s"
  by (auto simp: InjectOrgFromPath_def pass_def)

section \<open>The routes\<close>

definition console_credential :: "'s auth_env \<Rightarrow> http_request \<Rightarrow> 's \<Rightarrow> http_context \<Rightarrow> 's \<Rightarrow> bool" where
  "console_credential e r s ctx s' \<longleftrightarrow> (by_operator e r s ctx s' \<or> by_admin_key e r ctx)
     \<and> (ctx_Org ctx = None \<or> ctx_Org ctx = Some (URLParam r ''orgId''))"

lemma ctx_Org_With: "ctx_Org (WithOrgID ctx org) = Some org"
  by (simp add: WithOrgID_def)

lemma by_operator_org: "by_operator e r s (WithOrgID ctx org) s' \<longleftrightarrow> by_operator e r s ctx s'"
  by (simp add: by_operator_def context_defs)

lemma by_admin_key_org: "by_admin_key e r (WithOrgID ctx org) \<longleftrightarrow> by_admin_key e r ctx"
  by (simp add: by_admin_key_def context_defs)

lemma chain_class_through:
  assumes "chain_class gs" and "run_guards e gs Background r s = (Inr ctx, s')"
  shows "console_credential e r s ctx s' \<or> by_org_key e r s ctx s' \<and> ctx_Scope ctx \<noteq> Some ScopeReadOnly"
proof -
  have guards: "gs \<in> {[GAdminAuth], [GOperatorSession], [GOperatorSession, GAttribute], [GAdminOrConsole, GAttribute],
      [GConsoleAuth, GAttribute], [GConsoleAuth, GAttribute, GInjectOrg], [GOrgAuth, GRequireWrite]}"
    using assms(1) by (simp add: chain_class_def)
  obtain g rest where cons: "gs = g # rest" using guards by (cases gs) simp_all
  obtain ctx1 s1 where g: "run_guard e g Background r s = (Inr ctx1, s1)" "run_guards e rest ctx1 r s1 = (Inr ctx, s')"
    using assms(2) unfolding cons through_first by blast
  consider (admin) "g = GAdminAuth" "rest = []" | (session) "g = GOperatorSession" "rest = [] \<or> rest = [GAttribute]"
    | (provision) "g = GAdminOrConsole" "rest = [GAttribute]"
    | (console) "g = GConsoleAuth" "rest = [GAttribute] \<or> rest = [GAttribute, GInjectOrg]" | (key) "g = GOrgAuth" "rest = [GRequireWrite]"
    using guards unfolding cons by auto
  then show ?thesis
  proof cases
    case admin
    then show ?thesis using AdminAuth_through [of e r s ctx1 s1] g
      by (simp add: console_credential_def pass_def del: run_guard.simps)
  next
    case session
    then have "ctx = ctx1" "s' = s1" using g(2) by (auto simp: through_first simp del: run_guard.simps run_guards.simps)
    then show ?thesis using OperatorSession_through [of e r s ctx1 s1] g(1) session(1) by (simp add: console_credential_def)
  next
    case provision
    then have "ctx = ctx1" "s' = s1" using g(2) by (auto simp: through_first simp del: run_guard.simps run_guards.simps)
    then show ?thesis using AdminOrConsole_through [of e r s ctx1 s1] g(1) provision(1) by (simp add: console_credential_def)
  next
    case console
    then have "(ctx = ctx1 \<or> ctx = WithOrgID ctx1 (URLParam r ''orgId'')) \<and> s' = s1"
      using g(2) by (auto simp: through_first simp del: run_guard.simps run_guards.simps)
    then show ?thesis
      using ConsoleAuth_through [of e r s ctx1 s1] g(1) console(1)
      by (auto simp: console_credential_def by_operator_org by_admin_key_org ctx_Org_With)
  next
    case key
    then show ?thesis
      using OrgAuth_through [of e r s ctx1 s1] g RequireWrite_through [of e ctx1 r s1 ctx s']
      by (auto simp: through_first simp del: run_guard.simps run_guards.simps)
  qed
qed

text \<open>
  C39: Whatever changes something is authenticated. A request that reaches the handler of a mutating route carries an
  operator's session and that session's CSRF token, or the installation's admin key, or the API key of the organization
  the handler acts for, with write scope; the connect page's form (whose credential is the connect token in its path) and
  the login (same-origin requests only) are the exceptions, a user's token opens only starting and reconnecting a
  connection, and starting one is the only mutating route that a read-only key opens.
\<close>

theorem mutating_routes_authenticated:
  assumes "rt \<in> set buildRouter" and "isMutatingMethod (rt_Method rt)"
    and through: "run_guards e (rt_Guards rt) Background r s = (Inr ctx, s')"
  shows "rt_Pattern rt = ''/connect/{token}/params''
     \<or> rt_Pattern rt = ''/api/v1/auth/login'' \<and> isSameOriginRequest r (originOf (ae_baseURL e))
     \<or> console_credential e r s ctx s'
     \<or> by_org_key e r s ctx s' \<and> (ctx_Scope ctx \<noteq> Some ScopeReadOnly \<or> rt_Pattern rt = ''/api/v1/connections/initiate'')
     \<or> by_user_token e r s ctx s' \<and> rt_Pattern rt \<in> {''/api/v1/connections/initiate'', ''/api/v1/connections/{connectionId}/reconnect''}"
proof -
  have "mutating_ok rt" using mutating_routes assms(1,2) by blast
  then consider (chain) "chain_class (rt_Guards rt)" | (form) "rt_Pattern rt = ''/connect/{token}/params''"
    | (login) "rt_Pattern rt = ''/api/v1/auth/login''" "rt_Guards rt = [GSameOrigin]"
    | (initiate) "rt_Pattern rt = ''/api/v1/connections/initiate''" "rt_Guards rt = [GOrgOrUser]"
    | (reconnect) "rt_Pattern rt = ''/api/v1/connections/{connectionId}/reconnect''" "rt_Guards rt = [GOrgOrUser, GRequireWrite]"
    unfolding mutating_ok_def by blast
  then show ?thesis
  proof cases
    case chain
    then show ?thesis using chain_class_through [OF chain through] by blast
  next
    case login
    have "isSameOriginRequest r (originOf (ae_baseURL e))"
      using through by (auto simp: login(2) SameOriginOnly_def reject_def pass_def split: if_splits)
    then show ?thesis using login(1) by blast
  next
    case initiate
    then obtain ctx1 s1 where "run_guard e GOrgOrUser Background r s = (Inr ctx1, s1)" "ctx = ctx1" "s' = s1"
      using through by (auto simp: through_first simp del: run_guard.simps run_guards.simps)
    then show ?thesis using OrgOrUser_through [of e r s ctx1 s1] initiate(1) by blast
  next
    case reconnect
    then obtain ctx1 s1 where 1: "run_guard e GOrgOrUser Background r s = (Inr ctx1, s1)" "run_guard e GRequireWrite ctx1 r s1 = (Inr ctx, s')"
      using through by (auto simp: through_first simp del: run_guard.simps run_guards.simps)
    have "ctx = ctx1 \<and> s' = s1 \<and> ctx_Scope ctx1 \<noteq> Some ScopeReadOnly" by (rule RequireWrite_through [OF 1(2)])
    moreover have "rt_Pattern rt \<in> {''/api/v1/connections/initiate'', ''/api/v1/connections/{connectionId}/reconnect''}"
      using reconnect(1) by simp
    ultimately show ?thesis using OrgOrUser_through [OF 1(1)] by simp
  qed blast
qed

text \<open>A request with an API key, and the checks of an installation that has one key.\<close>

definition key_request :: "string \<Rightarrow> string \<Rightarrow> http_request" where
  "key_request m token =
     \<lparr>hq_Method = m, hq_Headers = [(''Authorization'', ''Bearer '' @ token)], hq_Cookies = [], hq_Params = [], hq_Query = [], hq_Body = []\<rparr>"

definition one_key_env :: "unit auth_env" where
  "one_key_env =
     \<lparr>ae_verifyOrgKey = (\<lambda>token s. if token = ''k'' then (Inr \<lparr>VK_OrgID = ''org_1'', VK_Scope = ScopeReadWrite\<rparr>, s) else (Inl (DomainError ErrCSRF), s)),
      ae_verifyUserToken = (\<lambda>token s. (Inl (DomainError ErrCSRF), s)), ae_verifySession = (\<lambda>token s. (Inl (DomainError ErrCSRF), s)),
      ae_operatorsExist = (\<lambda>s. (Inr True, s)), ae_adminKey = ''a'', ae_baseURL = []\<rparr>"

definition create_user_route :: route where
  "create_user_route = http_route ''POST'' [GOrgAuth, GRequireWrite] ''/api/v1/users/'' ''organizations.CreateUser''"

lemma mutating_routes_authenticated_witness:
  "\<exists>ctx. by_org_key one_key_env (key_request ''POST'' ''k'') () ctx () \<and> ctx_Org ctx = Some ''org_1'' \<and> ctx_Scope ctx \<noteq> Some ScopeReadOnly"
proof -
  let ?r = "key_request ''POST'' ''k''"
  let ?ctx = "WithScope (WithOrgID Background ''org_1'') ScopeReadWrite"
  have member: "create_user_route \<in> set buildRouter" by code_simp
  have mutating: "isMutatingMethod (rt_Method create_user_route)" by code_simp
  have through: "run_guards one_key_env (rt_Guards create_user_route) Background ?r () = (Inr ?ctx, ())" by code_simp
  have others: "rt_Pattern create_user_route \<noteq> ''/connect/{token}/params''" "rt_Pattern create_user_route \<noteq> ''/api/v1/auth/login''"
    "rt_Pattern create_user_route \<noteq> ''/api/v1/connections/initiate''"
    "rt_Pattern create_user_route \<notin> {''/api/v1/connections/initiate'', ''/api/v1/connections/{connectionId}/reconnect''}"
    by (simp_all add: create_user_route_def http_route_def)
  have none: "\<not> console_credential one_key_env ?r () ?ctx ()"
    by (simp add: console_credential_def by_operator_def by_admin_key_def bearer_def key_request_def one_key_env_def
        Header_Get_def SessionTokenFromRequest_def)
  show ?thesis
    using mutating_routes_authenticated [OF member mutating through] others none by (auto simp: context_defs)
qed

section \<open>With the facade that verifies the keys\<close>

text \<open>The routes over the access facade: the keys and signing secrets of the store, sessions and accounts a parameter.\<close>

definition access_env :: "crypto \<Rightarrow> string \<Rightarrow> string \<Rightarrow> acc_world auth_env" where
  "access_env c adminKey baseURL =
     \<lparr>ae_verifyOrgKey = acc_Verify (acc_memory_facade c), ae_verifyUserToken = acc_VerifyUserToken (acc_memory_facade c),
      ae_verifySession = (\<lambda>token. fail ErrSessionUnauthorized), ae_operatorsExist = ok True,
      ae_adminKey = adminKey, ae_baseURL = baseURL\<rparr>"

text \<open>
  C40: On the routes for an organization's API key alone, a request reaches the handler only with a secret that is stored
  for a key of the organization the handler acts for, a key that is not revoked and a secret that has not expired; with
  a read-only key only on routes that change nothing. Checking it changes nothing.
\<close>

theorem org_routes_live_keys_only:
  assumes inv: "acc_inv w" and rt: "rt \<in> set buildRouter" "GOrgAuth \<in> set (rt_Guards rt)"
    and through: "run_guards (access_env c adminKey baseURL) (rt_Guards rt) Background r w = (Inr ctx, w')"
  shows "w' = w \<and> (\<exists>secret key s. bearer r secret \<and> matches c w secret key s \<and> Key_RevokedAt key = None \<and> \<not> AKS_IsExpired s (aw_now w)
     \<and> OrgIDFromContext ctx = Some (Key_OrgID key)
     \<and> (isMutatingMethod (rt_Method rt) \<longrightarrow> Key_Scope key \<noteq> ScopeReadOnly))"
proof -
  have shapes: "list_all (\<lambda>rt. GOrgAuth \<notin> set (rt_Guards rt)
      \<or> rt_Guards rt = [GOrgAuth] \<and> \<not> isMutatingMethod (rt_Method rt) \<or> rt_Guards rt = [GOrgAuth, GRequireWrite]) buildRouter"
    by code_simp
  let ?e = "access_env c adminKey baseURL"
  have guards: "rt_Guards rt = [GOrgAuth] \<and> \<not> isMutatingMethod (rt_Method rt) \<or> rt_Guards rt = [GOrgAuth, GRequireWrite]"
    using shapes rt by (auto simp: list_all_iff)
  then have "by_org_key ?e r w ctx w' \<and> (isMutatingMethod (rt_Method rt) \<longrightarrow> ctx_Scope ctx \<noteq> Some ScopeReadOnly)"
  proof
    assume read: "rt_Guards rt = [GOrgAuth] \<and> \<not> isMutatingMethod (rt_Method rt)"
    then have "run_guard ?e GOrgAuth Background r w = (Inr ctx, w')"
      using through by (auto simp: through_first simp del: run_guard.simps run_guards.simps)
    then show ?thesis using OrgAuth_through [of ?e r w ctx w'] read by blast
  next
    assume "rt_Guards rt = [GOrgAuth, GRequireWrite]"
    then obtain ctx1 w1 where 1: "run_guard ?e GOrgAuth Background r w = (Inr ctx1, w1)" "run_guard ?e GRequireWrite ctx1 r w1 = (Inr ctx, w')"
      using through by (auto simp: through_first simp del: run_guard.simps run_guards.simps)
    then show ?thesis using OrgAuth_through [OF 1(1)] RequireWrite_through [OF 1(2)] by blast
  qed
  then obtain secret vk where s: "bearer r secret" "acc_Verify (acc_memory_facade c) secret w = (Inr vk, w')"
    "ctx = WithScope (WithOrgID Background (VK_OrgID vk)) (VK_Scope vk)"
    and scope: "isMutatingMethod (rt_Method rt) \<longrightarrow> ctx_Scope ctx \<noteq> Some ScopeReadOnly"
    by (auto simp: by_org_key_def access_env_def)
  have "w' = w" using Verify_exact [OF inv, of c secret] s(2) by simp
  moreover obtain key st where "matches c w secret key st" "Key_RevokedAt key = None" "\<not> AKS_IsExpired st (aw_now w)"
    "vk = \<lparr>VK_OrgID = Key_OrgID key, VK_Scope = Key_Scope key\<rparr>"
    using Verify_exact [OF inv, of c secret] s(2) by auto
  ultimately show ?thesis using s(1,3) scope by (auto simp: context_defs)
qed

lemma org_routes_live_keys_only_witness:
  "\<exists>secret key s. bearer (key_request ''GET'' demo_secret) secret \<and> matches sample_crypto acc_demo secret key s
     \<and> Key_RevokedAt key = None \<and> \<not> AKS_IsExpired s (aw_now acc_demo) \<and> Key_OrgID key = ''org_1''"
proof -
  let ?rt = "http_route ''GET'' [GOrgAuth] ''/api/v1/users/{userId}'' ''organizations.GetUser''"
  let ?r = "key_request ''GET'' demo_secret"
  let ?e = "access_env sample_crypto ''a'' []"
  let ?ctx = "WithScope (WithOrgID Background ''org_1'') ScopeReadOnly"
  have rt: "?rt \<in> set buildRouter" by code_simp
  have guard: "GOrgAuth \<in> set (rt_Guards ?rt)" by (simp add: http_route_def)
  have run: "acc_Verify (acc_memory_facade sample_crypto) demo_secret acc_demo = (Inr \<lparr>VK_OrgID = ''org_1'', VK_Scope = ScopeReadOnly\<rparr>, acc_demo)"
    using Verify_exact_witness Verify_exact [OF acc_demo_inv, of sample_crypto demo_secret] by (simp add: prod_eq_iff)
  have token: "bearerToken (Header_Get ?r ''Authorization'') = Some demo_secret" by code_simp
  have through: "run_guards ?e (rt_Guards ?rt) Background ?r acc_demo = (Inr ?ctx, acc_demo)"
    by (simp add: http_route_def OrgAuth_def token access_env_def run pass_def)
  have ctx: "OrgIDFromContext ?ctx = Some ''org_1''" by (simp add: context_defs)
  show ?thesis
    using org_routes_live_keys_only [OF acc_demo_inv rt guard through] unfolding ctx by (metis option.sel)
qed

end
