(* ===== verification/Spec2Isabelle.thy ===== *)
theory Spec2Isabelle
  imports RefreshLock AccessKeyLife AccessOperators DeliveryRetry DeliveryPort Logging ExecSafety TriggerRace CatalogVisible RegistryLife RouterSafety
begin

text \<open>
  A verification development of the beecon server (\<open>src/server/internal\<close>, Go): an integration platform that keeps
  the connections of end users to third-party providers, executes the tools of these providers, polls them for
  triggers and delivers the resulting events to webhooks. Paths below are relative to \<open>src/server/internal\<close>.

  \<^bold>\<open>The program.\<close> Each module is a facade (its operations), the ports it needs, and adapters of the ports.
  \<open>organizations\<close> holds tenants, users, governance and the import and export of a configuration; \<open>access\<close>
  API keys, user tokens, operators and their sessions; \<open>catalog\<close> provider definitions and integrations;
  \<open>registryservice\<close>, a process of its own, publishes definition bundles that \<open>catalog\<close> pulls and activates;
  \<open>connections\<close> runs the OAuth handshake, keeps tokens fresh and expires connections; \<open>execution\<close> calls the
  providers with these tokens; \<open>triggers\<close> polls through \<open>execution\<close> and hands events to \<open>delivery\<close>, the outbox of
  signed webhooks; \<open>logging\<close> records executions, polls, exchanges and deliveries with their secrets masked;
  \<open>app/router.go\<close> puts the authentication of \<open>access/driving/authmw\<close> in front of every route.

  \<^bold>\<open>How code becomes definitions.\<close> An operation of a facade with state \<open>'s\<close> is a value of \<open>('s, 'a) act\<close>, a
  function from the state to an error or a result and the next state (\<open>Prelude\<close>): \<open>attempt\<close> is \<open>if err != nil
  return\<close>, \<open>catching\<close> a handled and \<open>discard\<close> an ignored error. A facade is a record of its ports, polymorphic in
  the state; \<open>zoom\<close> lets an adapter act on its part of a larger world. The in-memory adapters
  (\<open>driven/memory\<close>) are association lists, and a record named \<open>..._world\<close> joins the adapters, the clock, the counter
  behind the ids and a trace of what was sent. What is not in the repository is a parameter: cryptography
  (\<open>Vault.crypto\<close>, with \<open>gcm_opens_sealed\<close> as its law), providers, receivers, the JSON Schema library, random bytes,
  failures of the database. Definitions keep the names of the code; a prefix of the module (\<open>dlv_\<close>, \<open>trg_\<close>,
  \<open>cat_\<close>, \<open>rs_\<close>, \<open>log_\<close>) tells equal names apart.

  \<^bold>\<open>The theories.\<close>
  The standard library of Go as far as it is used: \<open>GoStrings\<close> (strings as bytes, \<open>strconv\<close>, tables, sorting,
  64-bit wrap-around), \<open>GoTime\<close>, \<open>HTTPDate\<close>, \<open>Base64\<close>, \<open>GoURL\<close>, \<open>GoURLString\<close>, \<open>GoJSON\<close>, \<open>GoAny\<close>,
  \<open>GoJSONRound\<close> (what is marshalled parses back).
  Shared packages: \<open>Httpx\<close> (\<open>httpx/errors.go\<close>, \<open>cursor.go\<close>; the locales of paged listings), \<open>HttpRender\<close>
  (\<open>httpx/render.go\<close>, \<open>decode.go\<close>), \<open>Vault\<close>, \<open>Schema\<close> (\<open>schema\<close>).
  \<open>organizations\<close>: \<open>Organizations\<close> (types), \<open>OrgFacade\<close>, \<open>OrgConfig\<close> (\<open>config.go\<close>).
  \<open>access\<close>: \<open>AccessKeys\<close> (keys, secrets, tokens), \<open>AccessMemory\<close>, \<open>AccessKeyLife\<close> (runs of operations),
  \<open>AccessOperators\<close>; \<open>AuthMiddleware\<close>, \<open>Router\<close>, \<open>RouterSafety\<close> for the HTTP side.
  \<open>delivery\<close>: \<open>Delivery\<close>, \<open>DeliveryMemory\<close>, \<open>DeliveryOutbox\<close> (fan-out, claims, purge), \<open>DeliveryDispatch\<close> (one
  attempt, signatures), \<open>DeliveryLife\<close> (invariants over runs), \<open>DeliveryRetry\<close> (how often an event is attempted),
  \<open>DeliveryPort\<close> (the configuration import on the real endpoints).
  \<open>logging\<close>: \<open>Logging\<close>.
  \<open>catalog\<close>: \<open>CatalogTypes\<close> (definition files), \<open>CatalogFacade\<close>, \<open>CatalogRegistry\<close> (\<open>registry_sync.go\<close>,
  \<open>registry_review.go\<close>, the backfill), \<open>CatalogMemory\<close>, \<open>CatalogLife\<close>, \<open>CatalogVisible\<close>; \<open>registrybundle\<close>:
  \<open>RegistryBundle\<close>, \<open>BundleRound\<close>; \<open>registryservice\<close>: \<open>RegistryService\<close>, \<open>RegistryLife\<close>.
  \<open>execution\<close>: \<open>Template\<close>, \<open>ExecCalls\<close> (requests, retries, rate limits, pages), \<open>Execution\<close> (facade, polls, files),
  \<open>ExecMemory\<close>, \<open>ExecLife\<close>, \<open>ExecSafety\<close>.
  \<open>connections\<close>: \<open>ConnectionTypes\<close>, \<open>Connections\<close> (facade), \<open>ConnOAuth\<close>, \<open>ConnRefresh\<close> (refresh, scheduler,
  reconciliation), \<open>ConnMemory\<close>, \<open>ConnLife\<close> (the abstract life cycle), \<open>ConnSafety\<close>, \<open>ConnLive\<close>, \<open>RefreshLock\<close>.
  \<open>triggers\<close>: \<open>Triggers\<close>, \<open>TriggerPoll\<close> (watermark, polls), \<open>TriggerMemory\<close>, \<open>TriggerLife\<close>, \<open>TriggerRace\<close>.

  \<^bold>\<open>What the lemmas show.\<close> Properties are the theorems after a text that begins with a claim number.
  \<^item> C1-C4, operators: one stays active, the lockout, sessions and their revocation. C5-C9, keys and tokens: the store's
    invariant, rotation leaves two live secrets, a key verifies until it is revoked and never after, token checks.
  \<^item> C10-C16, delivery: endpoint cap, immutable events, fan-out, one dispatch, leases, the attempts an event gets
    (ten, and one per redelivery), signatures that a receiver's own computation accepts.
  \<^item> C17, configuration: an import in replace mode exports again; C18, redaction.
  \<^item> C19-C20, execution: bounded retries, and the exact traffic around a refresh after a 401. C21, definition files
    load exactly when they are well formed.
  \<^item> C22-C27, connections: refinement of an abstract life cycle, the single use of an OAuth state, tokens reach their
    owner only, what the log shows of exchanges and refreshes, a refresh pass settles what it claimed; and with
    callers interleaving (\<open>RefreshLock\<close>) mutual exclusion by the keyed mutex and one grant per lasting token.
  \<^item> C28-C31, triggers: the watermark against a full history, silence after \<open>Disable\<close> with polls interleaving
    (\<open>TriggerRace\<close>), the gap of a pause, failures isolated.
  \<^item> C32-C36, catalog: activation as a whole, restart, slugs that never vanish, stored text, three views that agree.
    C37-C38, registry: immutable increasing versions, tool ids.
  \<^item> C39-C40, routes: what changes state is authenticated; organization routes need a live key.

  Locales state the contracts between parts: \<open>keyset_listing\<close> and \<open>cursor_listing\<close> (\<open>Httpx\<close>: pages read in order give
  the listing), \<open>slug_listing\<close> (\<open>CatalogVisible\<close>), \<open>secret_store\<close> (\<open>AccessMemory\<close>), \<open>governance_store\<close>
  (\<open>OrgFacade\<close>) and \<open>endpoint_port\<close> (\<open>OrgConfig\<close>: what the import needs of the delivery module); each is
  interpreted on the code's adapters, \<open>endpoint_port\<close> in \<open>DeliveryPort\<close>.

  \<^bold>\<open>Bounds and fuel.\<close> The JSON parser recurses on a fuel linear in the text (\<open>GoJSON.json_parse_fuel\<close>: more never
  changes the result), trimming on the length of the string; reading pages takes as many rounds as there are rows
  and one more, which the listing theorems assume. The retry loop of \<open>execution\<close> terminates by a measure. Durations and
  \<open>int64\<close> wrap where the code computes with them (\<open>GoStrings.wrap64\<close>); instants are unbounded integers of
  nanoseconds. C37 assumes version numbers below \<open>2 ^ 62\<close>.

  \<^bold>\<open>What is left out.\<close> Operations run one at a time, except in \<open>RefreshLock\<close> (all callers of \<open>refreshOnce\<close>) and
  \<open>TriggerRace\<close> (claims and polls of the trigger poller); two concurrent publishes or activations, and a dispatcher
  whose lease runs out under it, are not modelled. The database adapters, the HTTP handlers with their
  DTOs, the outbound HTTP clients, workers, wiring, configuration, metrics, the connect pages and the importer of
  foreign definitions are glue around the modelled code or behaviour of other software. Log lines and metrics
  leave no trace; a context that is cancelled shows as an error of the port that notices it. A nil slice or map is
  the empty one, except where the code asks (an \<open>option\<close> then). Of a submission with missing parameters only
  the error is kept (\<open>ConnOAuth.SubmitParams\<close>). A JSON text is a byte string; invalid UTF-8 is not replaced.
\<close>

end
